(* ===== verification/Prelude.thy ===== *)
theory Prelude
  imports Main "HOL-Library.AList" "HOL-Library.Multiset"
begin

text \<open>
  Shared vocabulary of the development: the parts of the JavaScript runtime that the modelled
  code relies on (instants, insertion-ordered maps, truthiness of optional strings, the stable
  \<open>toSorted\<close>, chunking by \<open>slice\<close>), an effect type for asynchronous calls that may
  throw, and the lemmas about them that every component uses.

  A \<open>Date\<close> is its \<open>getTime()\<close> value in milliseconds, an \<^typ>\<open>int\<close>. A JavaScript
  \<open>Map\<close> is an association list in insertion order, updated in place by
  \<^const>\<open>AList.update\<close>, as \<open>Map.prototype.set\<close> does. Strings are lists of code units.
\<close>

named_theorems js_simps \<open>equations of the runtime model\<close>
named_theorems count_simps \<open>how operations move their counters\<close>

type_synonym instant = int
type_synonym ('k, 'v) jsmap = "('k \<times> 'v) list"

section \<open>Truthiness and defaults\<close>

definition str_truthy :: "string option \<Rightarrow> bool" where
  "str_truthy v = (case v of None \<Rightarrow> False | Some s \<Rightarrow> s \<noteq> [])"

definition or_else :: "'a option \<Rightarrow> 'a \<Rightarrow> 'a" where
  "or_else v d = (case v of None \<Rightarrow> d | Some x \<Rightarrow> x)"

lemma or_else_simps [simp, js_simps]:
  "or_else None d = d" "or_else (Some x) d = x"
  by (simp_all add: or_else_def)

lemma str_truthy_simps [simp, js_simps]:
  "\<not> str_truthy None" "str_truthy (Some s) \<longleftrightarrow> s \<noteq> []"
  by (simp_all add: str_truthy_def)

lemma str_truthyE:
  assumes "str_truthy v" obtains s where "v = Some s" and "s \<noteq> []"
  using assms by (cases v) auto

section \<open>Insertion-ordered maps\<close>

definition jsmap_of :: "('k \<times> 'v) list \<Rightarrow> ('k, 'v) jsmap" where
  "jsmap_of ps = fold (\<lambda>(k, v) m. AList.update k v m) ps []"

definition group_push :: "'k \<Rightarrow> 'v \<Rightarrow> ('k, 'v list) jsmap \<Rightarrow> ('k, 'v list) jsmap" where
  "group_push k x m = AList.update k (or_else (map_of m k) [] @ [x]) m"

lemma map_of_fold_update:
  "map_of (fold (\<lambda>(k, v) m. AList.update k v m) ps m) x =
    (case map_of (rev ps) x of None \<Rightarrow> map_of m x | Some v \<Rightarrow> Some v)"
  by (induction ps arbitrary: m) (auto simp: update_conv' map_add_def split: option.splits)

lemma map_of_jsmap_of: "map_of (jsmap_of ps) x = map_of (rev ps) x"
  by (simp add: jsmap_of_def map_of_fold_update split: option.splits)

lemma distinct_jsmap_of: "distinct (map fst (jsmap_of ps))"
proof -
  have "distinct (map fst m) \<Longrightarrow>
      distinct (map fst (fold (\<lambda>(k, v) m. AList.update k v m) ps m))" for m :: "('a, 'b) jsmap"
    by (induction ps arbitrary: m) (auto simp: distinct_update)
  then show ?thesis by (simp add: jsmap_of_def)
qed

lemma map_of_jsmap_of_keyed:
  assumes "distinct (map f xs)"
  shows "map_of (jsmap_of (map (\<lambda>x. (f x, x)) xs)) k = Some y \<longleftrightarrow> y \<in> set xs \<and> f y = k"
proof -
  have "distinct (map fst (rev (map (\<lambda>x. (f x, x)) xs)))"
    using assms by (simp add: rev_map comp_def distinct_map)
  then show ?thesis
    by (auto simp: map_of_jsmap_of)
qed

lemma map_of_jsmap_of_keyed_Some:
  "map_of (jsmap_of (map (\<lambda>x. (f x, x)) xs)) k = Some y \<Longrightarrow> y \<in> set xs \<and> f y = k"
  by (auto simp: map_of_jsmap_of dest!: map_of_SomeD)

lemma map_of_jsmap_of_keyed_None:
  "map_of (jsmap_of (map (\<lambda>x. (f x, x)) xs)) k = None \<longleftrightarrow> k \<notin> f ` set xs"
  by (force simp: map_of_jsmap_of map_of_eq_None_iff image_iff)

lemma map_of_group_push:
  "map_of (group_push k x m) j =
    (if j = k then Some (or_else (map_of m k) [] @ [x]) else map_of m j)"
  by (simp add: group_push_def update_conv')

lemma map_of_fold_group_push:
  "or_else (map_of (fold (\<lambda>x m. group_push (f x) x m) xs m) k) [] =
    or_else (map_of m k) [] @ filter (\<lambda>x. f x = k) xs"
  by (induction xs arbitrary: m) (auto simp: map_of_group_push)

lemma keys_fold_group_push:
  "fst ` set (fold (\<lambda>x m. group_push (f x) x m) xs m) = fst ` set m \<union> f ` set xs"
  by (induction xs arbitrary: m) (auto simp: group_push_def dom_update)

lemma distinct_fold_group_push:
  "distinct (map fst m) \<Longrightarrow> distinct (map fst (fold (\<lambda>x m. group_push (f x) x m) xs m))"
  by (induction xs arbitrary: m) (auto simp: group_push_def distinct_update)

lemma set_alist_update: "p \<in> set (AList.update k v m) \<Longrightarrow> p = (k, v) \<or> p \<in> set m"
  by (induction m) (auto split: if_splits)

text \<open>Collecting into a map the entries for which a computation gives a value.\<close>

lemma fold_collect_elem:
  "(k, v) \<in> set (fold (\<lambda>x acc. case h x of None \<Rightarrow> acc | Some r \<Rightarrow> AList.update (f x) r acc) xs acc) \<Longrightarrow>
    (k, v) \<in> set acc \<or> (\<exists>x \<in> set xs. f x = k \<and> h x = Some v)"
proof (induction xs arbitrary: acc)
  case (Cons x xs)
  then show ?case by (fastforce dest: set_alist_update split: option.splits)
qed simp

lemma distinct_fold_collect:
  "distinct (map fst acc) \<Longrightarrow>
    distinct (map fst (fold (\<lambda>x acc. case h x of None \<Rightarrow> acc | Some r \<Rightarrow> AList.update (f x) r acc) xs acc))"
  by (induction xs arbitrary: acc) (auto simp: distinct_update split: option.splits)

section \<open>The stable sort behind \<open>toSorted\<close>\<close>

fun insert_by :: "('a \<Rightarrow> 'a \<Rightarrow> int) \<Rightarrow> 'a \<Rightarrow> 'a list \<Rightarrow> 'a list" where
  "insert_by cmp x [] = [x]"
| "insert_by cmp x (y # ys) = (if cmp x y \<le> 0 then x # y # ys else y # insert_by cmp x ys)"

definition toSorted :: "('a \<Rightarrow> 'a \<Rightarrow> int) \<Rightarrow> 'a list \<Rightarrow> 'a list" where
  "toSorted cmp xs = foldr (insert_by cmp) xs []"

lemma toSorted_simps [simp]:
  "toSorted cmp [] = []"
  "toSorted cmp (x # xs) = insert_by cmp x (toSorted cmp xs)"
  by (simp_all add: toSorted_def)

lemma mset_insert_by: "mset (insert_by cmp x xs) = add_mset x (mset xs)"
  by (induction xs) auto

lemma set_insert_by [simp]: "set (insert_by cmp x xs) = insert x (set xs)"
  by (metis mset_insert_by set_mset_add_mset_insert set_mset_mset)

lemma mset_toSorted [simp]: "mset (toSorted cmp xs) = mset xs"
  by (induction xs) (auto simp: mset_insert_by)

lemma set_toSorted [simp]: "set (toSorted cmp xs) = set xs"
  by (metis mset_toSorted set_mset_mset)

lemma length_toSorted [simp]: "length (toSorted cmp xs) = length xs"
  by (metis mset_toSorted size_mset)

lemma distinct_map_toSorted [simp]:
  "distinct (map f (toSorted cmp xs)) \<longleftrightarrow> distinct (map f xs)"
  by (metis mset_map mset_toSorted mset_eq_imp_distinct_iff)

lemma toSorted_Nil_iff [simp]: "toSorted cmp xs = [] \<longleftrightarrow> xs = []"
  by (metis length_0_conv length_toSorted)

text \<open>
  A comparator that \<open>toSorted\<close> may be used with: its \<open>\<le> 0\<close> relation is a total
  preorder. Then the result is ordered and equal elements keep their input order.
\<close>

locale js_comparator =
  fixes cmp :: "'a \<Rightarrow> 'a \<Rightarrow> int"
  assumes cmp_total: "cmp x y \<le> 0 \<or> cmp y x \<le> 0"
    and cmp_trans: "cmp x y \<le> 0 \<Longrightarrow> cmp y z \<le> 0 \<Longrightarrow> cmp x z \<le> 0"
begin

lemma cmp_refl: "cmp x x \<le> 0"
  using cmp_total by blast

lemma sorted_insert_by:
  "sorted_wrt (\<lambda>a b. cmp a b \<le> 0) xs \<Longrightarrow> sorted_wrt (\<lambda>a b. cmp a b \<le> 0) (insert_by cmp x xs)"
proof (induction xs)
  case Nil
  then show ?case by simp
next
  case (Cons y ys)
  have "cmp y x \<le> 0" if "\<not> cmp x y \<le> 0"
    using that cmp_total by blast
  then show ?case
    using Cons by (auto intro: cmp_trans)
qed

lemma toSorted_sorted: "sorted_wrt (\<lambda>a b. cmp a b \<le> 0) (toSorted cmp xs)"
  by (induction xs) (auto intro: sorted_insert_by)

lemma filter_insert_by_out: "\<not> P x \<Longrightarrow> filter P (insert_by cmp x xs) = filter P xs"
  by (induction xs) auto

lemma filter_insert_by_in:
  "P x \<Longrightarrow> (\<And>y. y \<in> set xs \<Longrightarrow> P y \<Longrightarrow> cmp x y \<le> 0) \<Longrightarrow>
    filter P (insert_by cmp x xs) = x # filter P xs"
  by (induction xs) auto

lemma toSorted_stable:
  assumes "\<And>x y. P x \<Longrightarrow> P y \<Longrightarrow> cmp x y \<le> 0"
  shows "filter P (toSorted cmp xs) = filter P xs"
  by (induction xs) (auto simp: filter_insert_by_out filter_insert_by_in assms)

end

text \<open>The comparator \<open>f(a) - f(b)\<close> of an integer key.\<close>

definition compare_by :: "('a \<Rightarrow> int) \<Rightarrow> 'a \<Rightarrow> 'a \<Rightarrow> int" where
  "compare_by f x y = f x - f y"

interpretation key_order: js_comparator "compare_by f" for f :: "'a \<Rightarrow> int"
  by unfold_locales (auto simp: compare_by_def)

section \<open>Chunking by \<open>slice\<close>\<close>

function chunks_from :: "'a list \<Rightarrow> nat \<Rightarrow> nat \<Rightarrow> 'a list list" where
  "chunks_from items sz offset =
    (if offset < length items \<and> 0 < sz
     then take sz (drop offset items) # chunks_from items sz (offset + sz)
     else [])"
  by pat_completeness auto
termination
  by (relation "measure (\<lambda>(items, sz, offset). length items - offset)") auto

declare chunks_from.simps [simp del]

lemma concat_chunks_from:
  "0 < sz \<Longrightarrow> concat (chunks_from items sz offset) = drop offset items"
proof (induction items sz offset rule: chunks_from.induct)
  case (1 items sz offset)
  show ?case
  proof (cases "offset < length items")
    case True
    with 1 have "concat (chunks_from items sz offset) =
        take sz (drop offset items) @ drop (offset + sz) items"
      by (simp add: chunks_from.simps [of items sz offset])
    also have "\<dots> = drop offset items"
      by (metis add.commute append_take_drop_id drop_drop)
    finally show ?thesis .
  next
    case False
    then show ?thesis by (simp add: chunks_from.simps [of items sz offset])
  qed
qed

lemma chunks_from_sizes:
  "c \<in> set (chunks_from items sz offset) \<Longrightarrow> c \<noteq> [] \<and> length c \<le> sz"
proof (induction items sz offset rule: chunks_from.induct)
  case (1 items sz offset)
  then show ?case
    by (cases "offset < length items \<and> 0 < sz")
      (auto simp: chunks_from.simps [of items sz offset])
qed

section \<open>Case of ASCII letters\<close>

definition ascii_lower :: "char \<Rightarrow> char" where
  "ascii_lower c = (let n = of_char c :: nat in if 65 \<le> n \<and> n \<le> 90 then char_of (n + 32) else c)"

definition ascii_upper :: "char \<Rightarrow> char" where
  "ascii_upper c = (let n = of_char c :: nat in if 97 \<le> n \<and> n \<le> 122 then char_of (n - 32) else c)"

section \<open>Effects: a world, and calls that may throw\<close>

type_synonym ('w, 'e, 'a) eff = "'w \<Rightarrow> ('e + 'a) \<times> 'w"

definition eff_return :: "'a \<Rightarrow> ('w, 'e, 'a) eff" where
  "eff_return x w = (Inr x, w)"

definition eff_throw :: "'e \<Rightarrow> ('w, 'e, 'a) eff" where
  "eff_throw e w = (Inl e, w)"

definition eff_bind :: "('w, 'e, 'a) eff \<Rightarrow> ('a \<Rightarrow> ('w, 'e, 'b) eff) \<Rightarrow> ('w, 'e, 'b) eff" where
  "eff_bind m f w = (case m w of (Inl e, w') \<Rightarrow> (Inl e, w') | (Inr x, w') \<Rightarrow> f x w')"

lemma eff_simps [js_simps]:
  "eff_return x w = (Inr x, w)"
  "eff_throw e w = (Inl e, w)"
  "eff_bind m f w = (case m w of (Inl e, w') \<Rightarrow> (Inl e, w') | (Inr x, w') \<Rightarrow> f x w')"
  by (simp_all add: eff_return_def eff_throw_def eff_bind_def)

definition lift_sum :: "('e + 'a) \<Rightarrow> ('w, 'e, 'a) eff" where
  "lift_sum r w = (r, w)"

definition eff_catch :: "('w, 'e, 'a) eff \<Rightarrow> ('e \<Rightarrow> ('w, 'e, 'a) eff) \<Rightarrow> ('w, 'e, 'a) eff" where
  "eff_catch m h w = (case m w of (Inl e, w') \<Rightarrow> h e w' | (Inr x, w') \<Rightarrow> (Inr x, w'))"

text \<open>\<open>finally\<close>: the clean-up runs on both paths, and its own error wins.\<close>

definition eff_finally :: "('w, 'e, 'a) eff \<Rightarrow> ('w, 'e, unit) eff \<Rightarrow> ('w, 'e, 'a) eff" where
  "eff_finally m c w = (case m w of (r, w') \<Rightarrow> (case c w' of (Inl e, w'') \<Rightarrow> (Inl e, w'') | (Inr _, w'') \<Rightarrow> (r, w'')))"

end
