(* ===== verification/Utc_Date.thy ===== *)
theory Utc_Date
  imports Prelude
begin

text \<open>
  The UTC half of the JavaScript \<open>Date\<close> object, as the modelled code uses it: the ECMAScript
  day, year and month functions on a millisecond instant, \<open>Date.UTC\<close>, the \<open>setUTC...\<close>
  methods and \<open>toISOString\<close>. The lemmas show that reading the calendar fields of a day and
  rebuilding the day from them is the identity, and how the starts of months are spaced.
\<close>

definition MS_PER_MINUTE :: int where "MS_PER_MINUTE = 60000"
definition MS_PER_DAY :: int where "MS_PER_DAY = 86400000"

definition utc_day :: "instant \<Rightarrow> int" where
  "utc_day t = t div MS_PER_DAY"

definition time_within_day :: "instant \<Rightarrow> int" where
  "time_within_day t = t mod MS_PER_DAY"

definition day_from_year :: "int \<Rightarrow> int" where
  "day_from_year y =
    365 * (y - 1970) + (y - 1969) div 4 - (y - 1901) div 100 + (y - 1601) div 400"

definition is_leap_year :: "int \<Rightarrow> bool" where
  "is_leap_year y \<longleftrightarrow> (4 dvd y \<and> \<not> 100 dvd y) \<or> 400 dvd y"

text \<open>The year whose first day is the last one at or before the day.\<close>

definition year_from_day :: "int \<Rightarrow> int" where
  "year_from_day d =
    (let y = 1970 + (400 * d) div 146097
     in if day_from_year (y + 1) \<le> d then y + 1
        else if d < day_from_year y then y - 1 else y)"

definition month_starts :: "bool \<Rightarrow> int list" where
  "month_starts leap =
    (if leap then [0, 31, 60, 91, 121, 152, 182, 213, 244, 274, 305, 335]
     else [0, 31, 59, 90, 120, 151, 181, 212, 243, 273, 304, 334])"

definition month_start :: "bool \<Rightarrow> int \<Rightarrow> int" where
  "month_start leap m = month_starts leap ! nat m"

definition month_from_day :: "int \<Rightarrow> int" where
  "month_from_day d =
    (let y = year_from_day d; n = d - day_from_year y
     in int (length (filter (\<lambda>s. s \<le> n) (month_starts (is_leap_year y)))) - 1)"

definition make_day :: "int \<Rightarrow> int \<Rightarrow> int \<Rightarrow> int" where
  "make_day y m date =
    (let ym = y + m div 12
     in day_from_year ym + month_start (is_leap_year ym) (m mod 12) + date - 1)"

definition date_from_day :: "int \<Rightarrow> int" where
  "date_from_day d = d - make_day (year_from_day d) (month_from_day d) 1 + 1"

definition getUTCFullYear :: "instant \<Rightarrow> int" where
  "getUTCFullYear t = year_from_day (utc_day t)"

definition getUTCMonth :: "instant \<Rightarrow> int" where
  "getUTCMonth t = month_from_day (utc_day t)"

definition getUTCDate :: "instant \<Rightarrow> int" where
  "getUTCDate t = date_from_day (utc_day t)"

definition make_date :: "int \<Rightarrow> int \<Rightarrow> instant" where
  "make_date day within = day * MS_PER_DAY + within"

definition Date_UTC :: "int \<Rightarrow> int \<Rightarrow> int \<Rightarrow> instant" where
  "Date_UTC y m d = make_date (make_day (if 0 \<le> y \<and> y \<le> 99 then 1900 + y else y) m d) 0"

definition setUTCDate :: "instant \<Rightarrow> int \<Rightarrow> instant" where
  "setUTCDate t date =
    make_date (make_day (getUTCFullYear t) (getUTCMonth t) date) (time_within_day t)"

definition setUTCMonth :: "instant \<Rightarrow> int \<Rightarrow> instant" where
  "setUTCMonth t month =
    make_date (make_day (getUTCFullYear t) month (getUTCDate t)) (time_within_day t)"

section \<open>Formatting\<close>

fun show_nat :: "nat \<Rightarrow> string" where
  "show_nat n =
    (if n < 10 then [char_of (n + 48)] else show_nat (n div 10) @ [char_of (n mod 10 + 48)])"

declare show_nat.simps [simp del]

definition show_int :: "int \<Rightarrow> string" where
  "show_int n = (if n < 0 then CHR ''-'' # show_nat (nat (- n)) else show_nat (nat n))"

definition pad_left :: "nat \<Rightarrow> int \<Rightarrow> string" where
  "pad_left w n = (let s = show_nat (nat n) in replicate (w - length s) (CHR ''0'') @ s)"

definition show_year :: "int \<Rightarrow> string" where
  "show_year y =
    (if 0 \<le> y \<and> y \<le> 9999 then pad_left 4 y
     else if y < 0 then CHR ''-'' # pad_left 6 (- y) else CHR ''+'' # pad_left 6 y)"

definition toISOString :: "instant \<Rightarrow> string" where
  "toISOString t =
    (let w = time_within_day t in
     show_year (getUTCFullYear t) @ ''-'' @ pad_left 2 (getUTCMonth t + 1) @ ''-'' @
     pad_left 2 (getUTCDate t) @ ''T'' @ pad_left 2 (w div 3600000) @ '':'' @
     pad_left 2 (w div 60000 mod 60) @ '':'' @ pad_left 2 (w div 1000 mod 60) @ ''.'' @
     pad_left 3 (w mod 1000) @ ''Z'')"

section \<open>Years\<close>

lemma int_div_Suc:
  assumes "0 < (c::int)"
  shows "(x + 1) div c = x div c + (if c dvd x + 1 then 1 else 0)"
proof (cases "c dvd x + 1")
  case True
  then obtain k where k: "x + 1 = c * k" by (auto elim: dvdE)
  then have "x div c = k - 1"
    using assms by (intro int_div_pos_eq [where r = "c - 1"]) (auto simp: algebra_simps)
  with True k assms show ?thesis by simp
next
  case False
  have "x mod c + 1 \<noteq> c"
  proof
    assume "x mod c + 1 = c"
    with mult_div_mod_eq [of c x] have "x + 1 = c * (x div c) + c" by linarith
    then have "x + 1 = c * (x div c + 1)" by (simp add: distrib_left)
    then show False using False by simp
  qed
  then have "x mod c + 1 < c" using pos_mod_bound [OF assms, of x] by linarith
  then have "(x + 1) div c = x div c" using assms
    by (intro int_div_pos_eq [where r = "x mod c + 1"]) (auto simp: algebra_simps)
  with False show ?thesis by simp
qed

lemma day_from_year_Suc:
  "day_from_year (y + 1) - day_from_year y = (if is_leap_year y then 366 else 365)"
proof -
  have 4: "(y - 1968) div 4 = (y - 1969) div 4 + (if 4 dvd y then 1 else 0)"
  proof -
    have "4 dvd y - 1968 \<longleftrightarrow> 4 dvd y" by (simp add: dvd_diff_left_iff)
    then show ?thesis using int_div_Suc [of 4 "y - 1969"] by simp
  qed
  have 100: "(y - 1900) div 100 = (y - 1901) div 100 + (if 100 dvd y then 1 else 0)"
  proof -
    have "100 dvd y - 1900 \<longleftrightarrow> 100 dvd y" by (simp add: dvd_diff_left_iff)
    then show ?thesis using int_div_Suc [of 100 "y - 1901"] by simp
  qed
  have 400: "(y - 1600) div 400 = (y - 1601) div 400 + (if 400 dvd y then 1 else 0)"
  proof -
    have "400 dvd y - 1600 \<longleftrightarrow> 400 dvd y" by (simp add: dvd_diff_left_iff)
    then show ?thesis using int_div_Suc [of 400 "y - 1601"] by simp
  qed
  have "400 dvd y \<Longrightarrow> 100 dvd y" "100 dvd y \<Longrightarrow> 4 dvd y"
    by (rule dvd_trans [of 100 400], simp_all, rule dvd_trans [of 4 100], simp_all)
  then have leap: "(if is_leap_year y then 366 else 365) = 365 + (if 4 dvd y then 1 else 0)
      - (if 100 dvd y then 1 else 0) + (if 400 dvd y then 1 else (0::int))"
    unfolding is_leap_year_def by (auto split: if_splits)
  have "day_from_year (y + 1) =
      365 * (y - 1969) + (y - 1968) div 4 - (y - 1900) div 100 + (y - 1600) div 400"
    unfolding day_from_year_def by (simp add: algebra_simps)
  also have "\<dots> = day_from_year y + 365 + (if 4 dvd y then 1 else 0)
      - (if 100 dvd y then 1 else 0) + (if 400 dvd y then 1 else 0)"
    unfolding 4 100 400 day_from_year_def by (simp only: algebra_simps)
  finally show ?thesis using leap by linarith
qed

lemma div_bounds: "0 < c \<Longrightarrow> c * (x div c) \<le> x \<and> x < c * (x div c) + (c::int)"
  using mult_div_mod_eq [of c x] pos_mod_sign [of c x] pos_mod_bound [of c x]
  by linarith

lemma day_from_year_estimate:
  "146097 * (y - 1970) - 600 \<le> 400 * day_from_year y"
  "400 * day_from_year y \<le> 146097 * (y - 1970) + 600"
  using div_bounds [of 4 "y - 1969"] div_bounds [of 100 "y - 1901"] div_bounds [of 400 "y - 1601"]
  by (simp_all add: day_from_year_def algebra_simps)

lemma year_from_day_bounds:
  "day_from_year (year_from_day d) \<le> d \<and> d < day_from_year (year_from_day d + 1)"
proof -
  define y where "y = 1970 + (400 * d) div 146097"
  have "146097 * (y - 1970) \<le> 400 * d" "400 * d < 146097 * (y - 1970) + 146097"
    using div_bounds [of 146097 "400 * d"] by (simp_all add: y_def)
  then have "day_from_year (y - 1) \<le> d" "d < day_from_year (y + 2)"
    using day_from_year_estimate [of "y - 1"] day_from_year_estimate [of "y + 2"]
    by (simp_all add: algebra_simps)
  moreover have "year_from_day d = (if day_from_year (y + 1) \<le> d then y + 1
      else if d < day_from_year y then y - 1 else y)"
    by (simp add: year_from_day_def y_def Let_def)
  ultimately show ?thesis by (simp add: add.assoc)
qed

lemma day_from_year_mono: "y \<le> y' \<Longrightarrow> day_from_year y \<le> day_from_year y'"
proof (induction y' rule: int_ge_induct)
  case base
  then show ?case by simp
next
  case (step i)
  then show ?case using day_from_year_Suc [of i] by (simp split: if_splits)
qed

lemma year_from_day_unique:
  assumes "day_from_year y \<le> d" "d < day_from_year (y + 1)"
  shows "year_from_day d = y"
proof (rule ccontr)
  assume "year_from_day d \<noteq> y"
  then consider "year_from_day d + 1 \<le> y" | "y + 1 \<le> year_from_day d" by linarith
  then show False
    using assms year_from_day_bounds [of d] day_from_year_mono [of "year_from_day d + 1" y]
      day_from_year_mono [of "y + 1" "year_from_day d"]
    by cases linarith+
qed

section \<open>Months\<close>

lemma month_cases:
  assumes "0 \<le> m" "m < (12::int)"
  shows "m = 0 \<or> m = 1 \<or> m = 2 \<or> m = 3 \<or> m = 4 \<or> m = 5 \<or> m = 6 \<or> m = 7 \<or> m = 8 \<or> m = 9
    \<or> m = 10 \<or> m = 11"
proof -
  have "m \<in> set [0..11]" using assms by simp
  moreover have "[0..11] = [0, 1, 2, 3, 4, 5, 6, 7, 8, 9, 10, 11::int]" by (simp add: upto.simps)
  ultimately show ?thesis by (simp del: set_upto)
qed

definition days_in_month :: "bool \<Rightarrow> int \<Rightarrow> int" where
  "days_in_month leap m =
    (if m = 11 then (if leap then 366 else 365) else month_start leap (m + 1)) - month_start leap m"

lemma days_in_month_bounds:
  assumes "0 \<le> m" "m < 12"
  shows "28 \<le> days_in_month leap m" "days_in_month leap m \<le> 31"
  using month_cases [OF assms]
  by (elim disjE; cases leap; simp add: days_in_month_def month_start_def month_starts_def)+

text \<open>Months counted from year 0: month \<open>n\<close> is month \<open>n mod 12\<close> of year \<open>n div 12\<close>.\<close>

definition month_first :: "int \<Rightarrow> int" where
  "month_first n = make_day 0 n 1"

definition month_length :: "int \<Rightarrow> int" where
  "month_length n = days_in_month (is_leap_year (n div 12)) (n mod 12)"

lemma make_day_month_first: "make_day y m date = month_first (12 * y + m) + date - 1"
  by (simp add: make_day_def month_first_def Let_def)

lemma month_length_bounds: "28 \<le> month_length n" "month_length n \<le> 31"
  unfolding month_length_def by (rule days_in_month_bounds; simp)+

lemma month_first_Suc: "month_first (n + 1) = month_first n + month_length n"
proof -
  obtain q r where q: "n div 12 = q" and r: "n mod 12 = r" by simp
  have first: "month_first n = day_from_year q + month_start (is_leap_year q) r"
    by (simp add: month_first_def make_day_def q r)
  have len: "month_length n = days_in_month (is_leap_year q) r"
    by (simp add: month_length_def q r)
  have zero: "month_start leap 0 = 0" for leap
    by (simp add: month_start_def month_starts_def)
  have n: "n = 12 * q + r" "0 \<le> r" "r < 12"
    using mult_div_mod_eq [of 12 n] q r by auto
  show ?thesis
  proof (cases "r = 11")
    case True
    then have "n + 1 = 12 * (q + 1)" using n by simp
    then have "(n + 1) mod 12 = 0" "(n + 1) div 12 = q + 1" by simp_all
    then have "month_first (n + 1) = day_from_year (q + 1)"
      by (simp add: month_first_def make_day_def zero)
    then show ?thesis
      using day_from_year_Suc [of q] by (simp add: first len True days_in_month_def)
  next
    case False
    then have "r + 1 < 12" using n by simp
    then have "(n + 1) mod 12 = r + 1" "(n + 1) div 12 = q"
      using n int_div_pos_eq [of "n + 1" 12 q "r + 1"] int_mod_pos_eq [of "n + 1" 12 q "r + 1"]
      by linarith+
    then have "month_first (n + 1) = day_from_year q + month_start (is_leap_year q) (r + 1)"
      by (simp add: month_first_def make_day_def)
    then show ?thesis using False by (simp add: first len days_in_month_def)
  qed
qed

lemma month_first_strict_mono: "m < n \<Longrightarrow> month_first m + 28 \<le> month_first n"
proof (induction n rule: int_gr_induct)
  case base
  then show ?case using month_first_Suc [of m] month_length_bounds [of m] by simp
next
  case (step i)
  then show ?case using month_first_Suc [of i] month_length_bounds [of i] by simp
qed

definition month_index :: "int \<Rightarrow> int" where
  "month_index d = 12 * year_from_day d + month_from_day d"

lemma upper_bound_filter:
  fixes xs :: "int list"
  assumes "sorted xs" "xs \<noteq> []" "hd xs \<le> n"
  defines "k \<equiv> length (filter (\<lambda>s. s \<le> n) xs)"
  shows "0 < k \<and> k \<le> length xs \<and> xs ! (k - 1) \<le> n \<and> (k < length xs \<longrightarrow> n < xs ! k)"
proof -
  have tw: "filter (\<lambda>s. s \<le> n) xs = takeWhile (\<lambda>s. s \<le> n) xs"
    using assms(1) by (induction xs) (auto simp: takeWhile_eq_Nil_iff, meson hd_in_set order_trans)
  have "0 < k" using assms(2,3) by (cases xs) (auto simp: k_def)
  moreover have "k \<le> length xs" by (simp add: k_def)
  moreover have "xs ! (k - 1) \<le> n"
    using \<open>0 < k\<close> set_takeWhileD [OF nth_mem, of "k - 1" "\<lambda>s. s \<le> n" xs] takeWhile_nth [of "k - 1" "\<lambda>s. s \<le> n" xs]
    by (auto simp: k_def tw)
  moreover have "k < length xs \<Longrightarrow> n < xs ! k"
    using nth_length_takeWhile [of "\<lambda>s. s \<le> n" xs] by (simp add: k_def tw)
  ultimately show ?thesis by blast
qed

lemma month_from_day_range:
  assumes n: "0 \<le> n" "n < (if leap then 366 else 365)"
  defines "m \<equiv> int (length (filter (\<lambda>s. s \<le> n) (month_starts leap))) - 1"
  shows "0 \<le> m \<and> m < 12 \<and> month_start leap m \<le> n \<and> n < month_start leap m + days_in_month leap m"
proof -
  let ?xs = "month_starts leap" and ?k = "length (filter (\<lambda>s. s \<le> n) (month_starts leap))"
  have xs: "sorted ?xs" "?xs \<noteq> []" "hd ?xs = 0" "length ?xs = 12"
    by (simp_all add: month_starts_def)
  then have k: "0 < ?k" "?k \<le> 12" "?xs ! (?k - 1) \<le> n" "?k < 12 \<Longrightarrow> n < ?xs ! ?k"
    using upper_bound_filter [of ?xs n] n(1) by auto
  have "nat m = ?k - 1" "nat (m + 1) = ?k" using k by (auto simp: m_def)
  then show ?thesis
    using k n(2) by (auto simp: month_start_def days_in_month_def m_def)
qed
lemma month_from_day_bounds: "0 \<le> month_from_day d" "month_from_day d < 12"
  and month_index_bounds:
    "month_first (month_index d) \<le> d" "d < month_first (month_index d) + month_length (month_index d)"
proof -
  let ?y = "year_from_day d"
  have n: "0 \<le> d - day_from_year ?y"
    "d - day_from_year ?y < (if is_leap_year ?y then 366 else 365)"
    using year_from_day_bounds [of d] day_from_year_Suc [of ?y] by linarith+
  note m = month_from_day_range [OF n]
  then show *: "0 \<le> month_from_day d" "month_from_day d < 12"
    by (simp_all add: month_from_day_def Let_def)
  then have "(12 * ?y + month_from_day d) div 12 = ?y"
    "(12 * ?y + month_from_day d) mod 12 = month_from_day d" by auto
  then show "month_first (month_index d) \<le> d"
    "d < month_first (month_index d) + month_length (month_index d)"
    using m by (simp_all add: month_index_def month_first_def make_day_def month_length_def Let_def
        month_from_day_def)
qed

lemma month_index_unique:
  assumes "month_first n \<le> d" "d < month_first (n + 1)"
  shows "month_index d = n"
proof (rule ccontr)
  let ?k = "month_index d"
  have k: "month_first ?k \<le> d" "d < month_first (?k + 1)"
    using month_index_bounds [of d] month_first_Suc [of ?k] by simp_all
  assume "?k \<noteq> n"
  then consider "?k + 1 = n" | "?k + 1 < n" | "n + 1 = ?k" | "n + 1 < ?k" by linarith
  then show False
    using k assms month_first_strict_mono [of "?k + 1" n] month_first_strict_mono [of "n + 1" ?k]
    by cases auto
qed

lemma date_from_day_alt: "date_from_day d = d - month_first (month_index d) + 1"
  by (simp add: date_from_day_def make_day_month_first month_index_def)

lemma date_from_day_bounds:
  "1 \<le> date_from_day d" "date_from_day d \<le> month_length (month_index d)"
  using month_index_bounds [of d] by (simp_all add: date_from_day_alt)

theorem make_day_fields:
  "make_day (year_from_day d) (month_from_day d) (date_from_day d) = d"
  by (simp add: make_day_month_first date_from_day_alt month_index_def)

lemma utc_day_make_date:
  "0 \<le> w \<Longrightarrow> w < MS_PER_DAY \<Longrightarrow> utc_day (make_date d w) = d"
  "0 \<le> w \<Longrightarrow> w < MS_PER_DAY \<Longrightarrow> time_within_day (make_date d w) = w"
  by (simp_all add: utc_day_def make_date_def time_within_day_def MS_PER_DAY_def)

lemma time_within_day_bounds: "0 \<le> time_within_day t" "time_within_day t < MS_PER_DAY"
  by (simp_all add: time_within_day_def MS_PER_DAY_def)

lemmas utc_day_make_date_within [simp] =
  utc_day_make_date [OF time_within_day_bounds]

lemma make_date_id: "make_date (utc_day t) (time_within_day t) = t"
  by (simp add: make_date_def utc_day_def time_within_day_def)

end
