(* ===== verification/Time_Range.thy ===== *)
theory Time_Range
  imports Utc_Date
begin

text \<open>
  Time ranges and sync windows: all-day inference (\<open>core/events/all-day.ts\<close>), the shaping of
  a stored range into a publishable one and the window predicate (\<open>core/events/time-range.ts\<close>),
  the configurable sync window (\<open>core/sync/sync-range.ts\<close>) and the ranges a source must be
  read over for its destinations (\<open>core/sync/required-source-ranges.ts\<close>).
\<close>

section \<open>All-day events\<close>

record EventTimeRange =
  startTime :: instant
  endTime :: instant

record AllDayEventShape = EventTimeRange +
  isAllDay :: "bool option"

definition isMidnightUtc :: "instant \<Rightarrow> bool" where
  "isMidnightUtc t \<longleftrightarrow>
    (let w = time_within_day t in
     w div 3600000 = 0 \<and> w div 60000 mod 60 = 0 \<and> w div 1000 mod 60 = 0 \<and> w mod 1000 = 0)"

definition inferAllDayEvent :: "instant \<Rightarrow> instant \<Rightarrow> bool" where
  "inferAllDayEvent st et =
    (let durationMs = et - st in
     if durationMs \<le> 0 \<or> durationMs mod MS_PER_DAY \<noteq> 0 then False
     else isMidnightUtc st \<and> isMidnightUtc et)"

definition resolveIsAllDayEvent :: "bool option \<Rightarrow> instant \<Rightarrow> instant \<Rightarrow> bool" where
  "resolveIsAllDayEvent flag st et =
    (case flag of Some b \<Rightarrow> b | None \<Rightarrow> inferAllDayEvent st et)"

section \<open>Publishable ranges\<close>

definition floorToUtcDay :: "instant \<Rightarrow> instant" where
  "floorToUtcDay t = (t div MS_PER_DAY) * MS_PER_DAY"

definition ceilToUtcDay :: "instant \<Rightarrow> instant" where
  "ceilToUtcDay t = - ((- t) div MS_PER_DAY) * MS_PER_DAY"

definition resolveWholeDayTimeRange :: "instant \<Rightarrow> instant \<Rightarrow> EventTimeRange" where
  "resolveWholeDayTimeRange st et =
    (let dayStart = floorToUtcDay st; dayEnd = ceilToUtcDay et in
     if dayEnd > dayStart then \<lparr>startTime = dayStart, endTime = dayEnd\<rparr>
     else \<lparr>startTime = dayStart, endTime = dayStart + MS_PER_DAY\<rparr>)"

definition POINT_IN_TIME_DURATION_MS :: int where
  "POINT_IN_TIME_DURATION_MS = MS_PER_MINUTE"

definition resolvePointInTimeRange :: "instant \<Rightarrow> instant \<Rightarrow> EventTimeRange" where
  "resolvePointInTimeRange st et =
    (if et > st then \<lparr>startTime = st, endTime = et\<rparr>
     else \<lparr>startTime = st, endTime = st + POINT_IN_TIME_DURATION_MS\<rparr>)"

definition resolveTimeRangeEnd :: "instant \<Rightarrow> instant \<Rightarrow> instant" where
  "resolveTimeRangeEnd st et = (if et > st then et else st)"

definition isEmptyTimeRange :: "instant \<Rightarrow> instant \<Rightarrow> bool" where
  "isEmptyTimeRange st et \<longleftrightarrow> et = st"

definition isInvertedTimeRange :: "instant \<Rightarrow> instant \<Rightarrow> bool" where
  "isInvertedTimeRange st et \<longleftrightarrow> et < st"

definition overlapsTimeWindow :: "instant \<Rightarrow> instant \<Rightarrow> instant \<Rightarrow> instant \<Rightarrow> bool" where
  "overlapsTimeWindow st et windowStart windowEnd =
    (if et \<le> st then st \<ge> windowStart \<and> st < windowEnd
     else et > windowStart \<and> st < windowEnd)"

definition resolveRepresentableTimeRange :: "AllDayEventShape \<Rightarrow> EventTimeRange" where
  "resolveRepresentableTimeRange r =
    (if resolveIsAllDayEvent (isAllDay r) (startTime r) (endTime r)
     then resolveWholeDayTimeRange (startTime r) (endTime r)
     else resolvePointInTimeRange (startTime r) (endTime r))"

definition overlapsRepresentableTimeWindow :: "AllDayEventShape \<Rightarrow> instant \<Rightarrow> instant \<Rightarrow> bool" where
  "overlapsRepresentableTimeWindow r windowStart windowEnd =
    (let p = resolveRepresentableTimeRange r in
     overlapsTimeWindow (startTime p) (endTime p) windowStart windowEnd)"

definition REPRESENTABLE_RANGE_SLACK_MS :: int where
  "REPRESENTABLE_RANGE_SLACK_MS = MS_PER_DAY"

section \<open>Sync windows\<close>

record SyncWindow =
  timeMin :: instant
  timeMax :: instant

datatype SyncRange =
  R_1_week | R_1_month | R_3_months | R_6_months | R_12_months | R_2_years

datatype shift_unit = Days | Months

definition SYNC_RANGE_DEFINITIONS :: "(SyncRange \<times> shift_unit \<times> int) list" where
  "SYNC_RANGE_DEFINITIONS =
    [(R_1_week, Days, 7), (R_1_month, Months, 1), (R_3_months, Months, 3),
     (R_6_months, Months, 6), (R_12_months, Months, 12), (R_2_years, Months, 24)]"

definition syncRangeValue :: "SyncRange \<Rightarrow> string" where
  "syncRangeValue r = (case r of
      R_1_week \<Rightarrow> ''1_week'' | R_1_month \<Rightarrow> ''1_month'' | R_3_months \<Rightarrow> ''3_months''
    | R_6_months \<Rightarrow> ''6_months'' | R_12_months \<Rightarrow> ''12_months'' | R_2_years \<Rightarrow> ''2_years'')"

definition DEFAULT_HISTORIC_SYNC_RANGE :: SyncRange where
  "DEFAULT_HISTORIC_SYNC_RANGE = R_1_month"

definition DEFAULT_FUTURE_SYNC_RANGE :: SyncRange where
  "DEFAULT_FUTURE_SYNC_RANGE = R_2_years"

datatype range_error =
  InvalidBoundary | StartNotBeforeEnd | UnsupportedSyncRange SyncRange | InvalidStoredRange string

text \<open>Boundaries are \<open>None\<close> when the \<open>Date\<close> is invalid.\<close>

definition createSyncWindow :: "instant option \<Rightarrow> instant option \<Rightarrow> range_error + SyncWindow" where
  "createSyncWindow tmin tmax =
    (case (tmin, tmax) of
       (Some lo, Some hi) \<Rightarrow>
         if lo \<ge> hi then Inl StartNotBeforeEnd else Inr \<lparr>timeMin = lo, timeMax = hi\<rparr>
     | _ \<Rightarrow> Inl InvalidBoundary)"

definition intersectSyncWindows :: "SyncWindow \<Rightarrow> SyncWindow \<Rightarrow> SyncWindow option" where
  "intersectSyncWindows first second =
    (let tmin = (if timeMin first > timeMin second then timeMin first else timeMin second);
         tmax = (if timeMax first < timeMax second then timeMax first else timeMax second)
     in if tmin \<ge> tmax then None else Some \<lparr>timeMin = tmin, timeMax = tmax\<rparr>)"

definition getStartOfToday :: "instant \<Rightarrow> instant" where
  "getStartOfToday now = make_date (utc_day now) 0"

definition lastDayOfMonth :: "int \<Rightarrow> int \<Rightarrow> int" where
  "lastDayOfMonth y m = getUTCDate (Date_UTC y (m + 1) 0)"

definition shiftDateByMonths :: "instant \<Rightarrow> int \<Rightarrow> instant" where
  "shiftDateByMonths date months =
    (let desiredDay = getUTCDate date;
         first = setUTCDate date 1;
         shifted = setUTCMonth first (getUTCMonth first + months);
         lastDayOfTargetMonth = lastDayOfMonth (getUTCFullYear shifted) (getUTCMonth shifted)
     in setUTCDate shifted (min desiredDay lastDayOfTargetMonth))"

definition shiftDateByRange :: "instant \<Rightarrow> SyncRange \<Rightarrow> int \<Rightarrow> range_error + instant" where
  "shiftDateByRange date rng direction =
    (case map_of SYNC_RANGE_DEFINITIONS rng of
       None \<Rightarrow> Inl (UnsupportedSyncRange rng)
     | Some (u, amount) \<Rightarrow>
         (case u of
            Days \<Rightarrow> Inr (setUTCDate date (getUTCDate date + direction * amount))
          | Months \<Rightarrow> Inr (shiftDateByMonths date (direction * amount))))"

definition getConfigurableSyncWindow ::
  "SyncRange \<Rightarrow> SyncRange \<Rightarrow> instant \<Rightarrow> range_error + SyncWindow" where
  "getConfigurableSyncWindow historicRange futureRange now =
    (let anchor = getStartOfToday now in
     case shiftDateByRange anchor historicRange (-1) of
       Inl e \<Rightarrow> Inl e
     | Inr lo \<Rightarrow> (case shiftDateByRange anchor futureRange 1 of
         Inl e \<Rightarrow> Inl e
       | Inr hi \<Rightarrow> createSyncWindow (Some lo) (Some hi)))"

record SourceIngestionPlan =
  planFutureRange :: SyncRange
  planHistoricRange :: SyncRange
  planWindow :: SyncWindow

definition createSourceIngestionPlan ::
  "SyncRange \<Rightarrow> SyncRange \<Rightarrow> instant \<Rightarrow> range_error + SourceIngestionPlan" where
  "createSourceIngestionPlan historicRange futureRange now =
    (case getConfigurableSyncWindow historicRange futureRange now of
       Inl e \<Rightarrow> Inl e
     | Inr w \<Rightarrow> Inr \<lparr>planFutureRange = futureRange, planHistoricRange = historicRange, planWindow = w\<rparr>)"

definition SYNC_RANGE_ORDER :: "(SyncRange \<times> nat) list" where
  "SYNC_RANGE_ORDER = zip (map fst SYNC_RANGE_DEFINITIONS) [0..<length SYNC_RANGE_DEFINITIONS]"

definition getSyncRangeOrder :: "SyncRange \<Rightarrow> range_error + nat" where
  "getSyncRangeOrder rng =
    (case map_of SYNC_RANGE_ORDER rng of
       None \<Rightarrow> Inl (UnsupportedSyncRange rng) | Some n \<Rightarrow> Inr n)"

definition getWiderSyncRange :: "SyncRange \<Rightarrow> SyncRange \<Rightarrow> range_error + SyncRange" where
  "getWiderSyncRange first second =
    (case getSyncRangeOrder first of
       Inl e \<Rightarrow> Inl e
     | Inr a \<Rightarrow> (case getSyncRangeOrder second of
         Inl e \<Rightarrow> Inl e
       | Inr b \<Rightarrow> Inr (if a \<ge> b then first else second)))"

section \<open>The ranges a source is read over\<close>

record RequiredSourceRanges =
  futureRange :: SyncRange
  historicRange :: SyncRange

record StoredDestinationRanges =
  syncFutureRange :: string
  syncHistoricRange :: string

definition BASE_SOURCE_SYNC_RANGES :: RequiredSourceRanges where
  "BASE_SOURCE_SYNC_RANGES =
    \<lparr>futureRange = DEFAULT_FUTURE_SYNC_RANGE, historicRange = DEFAULT_HISTORIC_SYNC_RANGE\<rparr>"

definition assertSyncRange :: "string \<Rightarrow> range_error + SyncRange" where
  "assertSyncRange s =
    (case find (\<lambda>(r, _). syncRangeValue r = s) SYNC_RANGE_DEFINITIONS of
       None \<Rightarrow> Inl (InvalidStoredRange s) | Some (r, _) \<Rightarrow> Inr r)"

definition widenRange :: "SyncRange \<Rightarrow> string \<Rightarrow> range_error + SyncRange" where
  "widenRange current stored =
    (case assertSyncRange stored of Inl e \<Rightarrow> Inl e | Inr r \<Rightarrow> getWiderSyncRange current r)"

fun widenRanges ::
  "RequiredSourceRanges \<Rightarrow> StoredDestinationRanges list \<Rightarrow> range_error + RequiredSourceRanges" where
  "widenRanges ranges [] = Inr ranges"
| "widenRanges ranges (d # ds) =
    (case widenRange (futureRange ranges) (syncFutureRange d) of
       Inl e \<Rightarrow> Inl e
     | Inr f \<Rightarrow> (case widenRange (historicRange ranges) (syncHistoricRange d) of
         Inl e \<Rightarrow> Inl e
       | Inr h \<Rightarrow> widenRanges \<lparr>futureRange = f, historicRange = h\<rparr> ds))"

definition createRequiredSourceRanges ::
  "StoredDestinationRanges list \<Rightarrow> range_error + RequiredSourceRanges" where
  "createRequiredSourceRanges destinations = widenRanges BASE_SOURCE_SYNC_RANGES destinations"

section \<open>Publishable ranges are well formed\<close>

lemma floorToUtcDay_bounds: "floorToUtcDay t \<le> t" "t < floorToUtcDay t + MS_PER_DAY"
  using div_bounds [of MS_PER_DAY t] by (auto simp: floorToUtcDay_def MS_PER_DAY_def)

lemma ceilToUtcDay_bounds: "t \<le> ceilToUtcDay t" "ceilToUtcDay t < t + MS_PER_DAY"
  using div_bounds [of MS_PER_DAY "- t"] by (auto simp: ceilToUtcDay_def MS_PER_DAY_def)

lemma day_grid [simp]:
  "MS_PER_DAY dvd floorToUtcDay t" "MS_PER_DAY dvd ceilToUtcDay t"
  by (simp_all add: floorToUtcDay_def ceilToUtcDay_def)

lemma day_grid_gap:
  "MS_PER_DAY dvd a \<Longrightarrow> MS_PER_DAY dvd b \<Longrightarrow> a < b \<Longrightarrow> a + MS_PER_DAY \<le> b"
  using zdvd_imp_le [of MS_PER_DAY "b - a"] by (auto simp: dvd_diff)

lemma resolveWholeDayTimeRange_grid:
  "MS_PER_DAY dvd startTime (resolveWholeDayTimeRange st et)
    \<and> MS_PER_DAY dvd endTime (resolveWholeDayTimeRange st et)"
  by (simp add: resolveWholeDayTimeRange_def Let_def)

lemma resolveWholeDayTimeRange_bounds:
  fixes st et :: instant
  defines "p \<equiv> resolveWholeDayTimeRange st et"
  shows "startTime p \<le> st" "st < startTime p + MS_PER_DAY" "startTime p + MS_PER_DAY \<le> endTime p"
    "et \<le> endTime p" "st \<le> et \<Longrightarrow> endTime p \<le> et + MS_PER_DAY"
  using floorToUtcDay_bounds [of st] ceilToUtcDay_bounds [of et]
    day_grid_gap [OF day_grid(1) day_grid(2), of st et]
  by (auto simp: p_def resolveWholeDayTimeRange_def Let_def MS_PER_DAY_def)

section \<open>The window predicate\<close>

lemma overlapsTimeWindow_mono:
  "overlapsTimeWindow st et a b \<Longrightarrow> a' \<le> a \<Longrightarrow> b \<le> b' \<Longrightarrow> overlapsTimeWindow st et a' b'"
  by (auto simp: overlapsTimeWindow_def split: if_splits)

definition within_window :: "SyncWindow \<Rightarrow> SyncWindow \<Rightarrow> bool" where
  "within_window inner outer \<longleftrightarrow> timeMin outer \<le> timeMin inner \<and> timeMax inner \<le> timeMax outer"

lemma within_window_refl [simp]: "within_window w w"
  by (simp add: within_window_def)

lemma within_window_trans:
  "within_window a b \<Longrightarrow> within_window b c \<Longrightarrow> within_window a c"
  by (auto simp: within_window_def)

lemma overlaps_within_window:
  "overlapsTimeWindow st et (timeMin w) (timeMax w) \<Longrightarrow> within_window w v \<Longrightarrow>
    overlapsTimeWindow st et (timeMin v) (timeMax v)"
  by (auto simp: within_window_def intro: overlapsTimeWindow_mono)

lemma intersectSyncWindows_Some:
  "intersectSyncWindows a b = Some w \<Longrightarrow>
    within_window w a \<and> within_window w b \<and> timeMin w < timeMax w"
  by (auto simp: intersectSyncWindows_def within_window_def Let_def split: if_splits)

section \<open>Shifting by months\<close>

lemma month_index_month_first [simp]: "month_index (month_first n) = n"
  by (rule month_index_unique) (use month_first_Suc [of n] month_length_bounds [of n] in auto)

lemma date_from_day_month_first [simp]: "date_from_day (month_first n) = 1"
  by (simp add: date_from_day_alt)

lemma date_from_last_day:
  "date_from_day (month_first (n + 1) - 1) = month_length n"
proof -
  have "month_index (month_first (n + 1) - 1) = n"
    by (rule month_index_unique) (use month_first_Suc [of n] month_length_bounds [of n] in auto)
  then show ?thesis using month_first_Suc [of n] by (simp add: date_from_day_alt)
qed

lemma days_in_month_leap_mono:
  assumes "0 \<le> m" "m < 12"
  shows "days_in_month False m \<le> days_in_month True m"
  using month_cases [OF assms]
  by (elim disjE; simp add: days_in_month_def month_start_def month_starts_def)

lemma leap_year_1900:
  assumes "0 \<le> y" "y \<le> 99" "is_leap_year (1900 + y)"
  shows "is_leap_year y"
proof -
  have d: "4 dvd 1900 + y \<longleftrightarrow> 4 dvd y" "100 dvd 1900 + y \<longleftrightarrow> 100 dvd y"
    by (simp_all add: dvd_add_right_iff)
  have "\<not> 400 dvd 1900 + y" if "100 dvd y"
    using that assms(1,2) zdvd_imp_le [of 100 y] by (cases "y = 0") auto
  moreover have "400 dvd 1900 + y \<Longrightarrow> 100 dvd 1900 + y"
    by (rule dvd_trans [of 100 400]) simp_all
  ultimately show ?thesis using assms(3) d by (auto simp: is_leap_year_def)
qed

lemma lastDayOfMonth_bounds:
  assumes "0 \<le> m" "m < 12"
  shows "28 \<le> lastDayOfMonth y m" "lastDayOfMonth y m \<le> month_length (12 * y + m)"
proof -
  define y' where "y' = (if 0 \<le> y \<and> y \<le> 99 then 1900 + y else y)"
  have fields: "(12 * k + m) div 12 = k" "(12 * k + m) mod 12 = m" for k
    using assms by (auto simp: div_mult_self4)
  have "utc_day (Date_UTC y (m + 1) 0) = month_first (12 * y' + m + 1) - 1"
    by (simp add: Date_UTC_def y'_def utc_day_make_date make_day_month_first MS_PER_DAY_def
      add.assoc)
  then have last: "lastDayOfMonth y m = month_length (12 * y' + m)"
    by (simp add: lastDayOfMonth_def getUTCDate_def date_from_last_day)
  then show "28 \<le> lastDayOfMonth y m" by (simp add: month_length_bounds)
  show "lastDayOfMonth y m \<le> month_length (12 * y + m)"
  proof -
    have len: "month_length (12 * k + m) = days_in_month (is_leap_year k) m" for k
      by (simp only: month_length_def fields)
    have "is_leap_year y' \<Longrightarrow> is_leap_year y"
      using leap_year_1900 [of y] by (auto simp: y'_def split: if_splits)
    then show ?thesis
      unfolding last len using days_in_month_leap_mono [OF assms]
      by (cases "is_leap_year y'"; cases "is_leap_year y") auto
  qed
qed

text \<open>The day a shift lands on: the same date of the target month, clamped to its length.\<close>

lemma shiftDateByMonths_day:
  fixes t k
  defines "d \<equiv> utc_day t"
  defines "n \<equiv> month_index d + k"
  obtains L where "28 \<le> L" "L \<le> month_length n"
    "shiftDateByMonths t k = make_date (month_first n + min (date_from_day d) L - 1) (time_within_day t)"
proof -
  let ?w = "time_within_day t"
  have set_date: "setUTCDate u x =
      make_date (month_first (month_index (utc_day u)) + x - 1) (time_within_day u)" for u x
    by (simp add: setUTCDate_def make_day_month_first getUTCFullYear_def getUTCMonth_def
      month_index_def)
  have first: "setUTCDate t 1 = make_date (month_first (month_index d)) ?w"
    by (simp add: set_date d_def)
  have fields: "12 * getUTCFullYear u + getUTCMonth u = month_index (utc_day u)" for u
    by (simp add: getUTCFullYear_def getUTCMonth_def month_index_def)
  define s where "s = setUTCMonth (setUTCDate t 1) (getUTCMonth (setUTCDate t 1) + k)"
  have shifted: "s = make_date (month_first n) ?w"
  proof -
    have "12 * getUTCFullYear (setUTCDate t 1) + (getUTCMonth (setUTCDate t 1) + k) = n"
      using fields [of "setUTCDate t 1"] by (simp add: first n_def)
    then show ?thesis
      by (simp add: s_def setUTCMonth_def make_day_month_first) (simp add: first getUTCDate_def)
  qed
  define L where "L = lastDayOfMonth (getUTCFullYear s) (getUTCMonth s)"
  have "0 \<le> getUTCMonth s" "getUTCMonth s < 12"
    using month_from_day_bounds by (simp_all add: getUTCMonth_def)
  note last = lastDayOfMonth_bounds [OF this, of "getUTCFullYear s", folded L_def]
  have "12 * getUTCFullYear s + getUTCMonth s = n"
    using fields [of s] by (simp add: shifted)
  with last have "28 \<le> L" "L \<le> month_length n" by simp_all
  moreover have "shiftDateByMonths t k = setUTCDate s (min (date_from_day d) L)"
    by (simp add: shiftDateByMonths_def Let_def L_def getUTCDate_def d_def s_def)
  then have "shiftDateByMonths t k = make_date (month_first n + min (date_from_day d) L - 1) ?w"
    by (simp add: set_date shifted)
  ultimately show thesis using that by blast
qed

lemma make_date_less: "d < d' \<Longrightarrow> make_date d w + MS_PER_DAY \<le> make_date d' w"
  using mult_right_mono [of "d + 1" d' MS_PER_DAY]
  by (simp add: make_date_def MS_PER_DAY_def distrib_right)

lemma make_date_add: "make_date (d + k) w = make_date d w + k * MS_PER_DAY"
  by (simp add: make_date_def distrib_right)

lemma shiftDateByMonths_mono:
  assumes "k \<le> k'" shows "shiftDateByMonths t k \<le> shiftDateByMonths t k'"
proof (cases "k = k'")
  case False
  let ?n = "month_index (utc_day t)" and ?x = "date_from_day (utc_day t)"
  obtain L where L: "28 \<le> L" "L \<le> month_length (?n + k)" "shiftDateByMonths t k =
      make_date (month_first (?n + k) + min ?x L - 1) (time_within_day t)"
    by (rule shiftDateByMonths_day)
  obtain L' where L': "28 \<le> L'" "shiftDateByMonths t k' =
      make_date (month_first (?n + k') + min ?x L' - 1) (time_within_day t)"
    by (rule shiftDateByMonths_day)
  have "month_first (?n + k) + month_length (?n + k) = month_first (?n + k + 1)"
    using month_first_Suc [of "?n + k"] by simp
  also have "\<dots> \<le> month_first (?n + k')"
    using assms False month_first_strict_mono [of "?n + k + 1" "?n + k'"]
    by (cases "k + 1 = k'") (auto simp: add.assoc)
  finally have "month_first (?n + k) + min ?x L - 1 < month_first (?n + k') + min ?x L' - 1"
    using L L' date_from_day_bounds [of "utc_day t"] by linarith
  from make_date_less [OF this, of "time_within_day t"] L L' show ?thesis
    by (simp add: MS_PER_DAY_def)
qed simp

lemma shiftDateByMonths_1: "t + 28 * MS_PER_DAY \<le> shiftDateByMonths t 1"
proof -
  let ?n = "month_index (utc_day t)" and ?x = "date_from_day (utc_day t)"
  obtain L where L: "28 \<le> L" "shiftDateByMonths t 1 =
      make_date (month_first (?n + 1) + min ?x L - 1) (time_within_day t)"
    by (rule shiftDateByMonths_day)
  have "utc_day t + 28 \<le> month_first (?n + 1) + min ?x L - 1"
    using L(1) month_first_Suc [of ?n] month_length_bounds [of ?n] date_from_day_bounds [of "utc_day t"]
    by (auto simp: date_from_day_alt min_def)
  then have "make_date (utc_day t + 28) (time_within_day t) \<le> shiftDateByMonths t 1"
    using L(2) by (simp add: make_date_def MS_PER_DAY_def)
  then show ?thesis by (simp add: make_date_add make_date_id)
qed

lemma shiftDateByMonths_minus_1: "shiftDateByMonths t (-1) \<le> t - 28 * MS_PER_DAY"
proof -
  let ?n = "month_index (utc_day t)" and ?x = "date_from_day (utc_day t)"
  obtain L where L: "28 \<le> L" "L \<le> month_length (?n + -1)" "shiftDateByMonths t (-1) =
      make_date (month_first (?n + -1) + min ?x L - 1) (time_within_day t)"
    by (rule shiftDateByMonths_day)
  have "month_first (?n + -1) + min ?x L - 1 \<le> utc_day t + -28"
    using L(1,2) month_first_Suc [of "?n + -1"] month_length_bounds [of "?n + -1"]
    by (auto simp: date_from_day_alt min_def)
  then have "shiftDateByMonths t (-1) \<le> make_date (utc_day t + -28) (time_within_day t)"
    using L(3) by (simp add: make_date_def MS_PER_DAY_def)
  then show ?thesis using make_date_add [of "utc_day t" "-28"] by (simp add: make_date_id)
qed

section \<open>Configurable windows\<close>

definition range_order :: "SyncRange \<Rightarrow> nat" where
  "range_order r = (case r of R_1_week \<Rightarrow> 0 | R_1_month \<Rightarrow> 1 | R_3_months \<Rightarrow> 2
    | R_6_months \<Rightarrow> 3 | R_12_months \<Rightarrow> 4 | R_2_years \<Rightarrow> 5)"

lemma getSyncRangeOrder_total: "getSyncRangeOrder r = Inr (range_order r)"
  by (cases r) (simp_all add: getSyncRangeOrder_def SYNC_RANGE_ORDER_def SYNC_RANGE_DEFINITIONS_def
    range_order_def upt_rec)

lemma getWiderSyncRange_total:
  "getWiderSyncRange a b = Inr (if range_order a \<ge> range_order b then a else b)"
  by (simp add: getWiderSyncRange_def getSyncRangeOrder_total)

lemma setUTCDate_days: "setUTCDate t (getUTCDate t + k) = t + k * MS_PER_DAY"
proof -
  have "make_day (getUTCFullYear t) (getUTCMonth t) (getUTCDate t + k) = utc_day t + k"
    using make_day_fields [of "utc_day t"]
    by (simp add: make_day_month_first getUTCFullYear_def getUTCMonth_def getUTCDate_def)
  then show ?thesis by (simp add: setUTCDate_def make_date_add make_date_id)
qed

definition shifted :: "instant \<Rightarrow> SyncRange \<Rightarrow> int \<Rightarrow> instant" where
  "shifted t r dir = (case r of R_1_week \<Rightarrow> t + dir * 7 * MS_PER_DAY
    | R_1_month \<Rightarrow> shiftDateByMonths t dir | R_3_months \<Rightarrow> shiftDateByMonths t (dir * 3)
    | R_6_months \<Rightarrow> shiftDateByMonths t (dir * 6) | R_12_months \<Rightarrow> shiftDateByMonths t (dir * 12)
    | R_2_years \<Rightarrow> shiftDateByMonths t (dir * 24))"

lemma shiftDateByRange_total: "shiftDateByRange t r dir = Inr (shifted t r dir)"
  by (cases r)
    (simp_all add: shiftDateByRange_def SYNC_RANGE_DEFINITIONS_def shifted_def setUTCDate_days)

lemma shifted_forward_mono:
  "range_order a \<le> range_order b \<Longrightarrow> shifted t a 1 \<le> shifted t b 1"
proof -
  have week: "t + 7 * MS_PER_DAY \<le> shiftDateByMonths t k" if "1 \<le> k" for k
    using shiftDateByMonths_1 [of t] shiftDateByMonths_mono [OF that, of t]
    by (simp add: MS_PER_DAY_def)
  show "range_order a \<le> range_order b \<Longrightarrow> ?thesis"
    by (cases a; cases b) (simp_all add: range_order_def shifted_def week shiftDateByMonths_mono)
qed

lemma shifted_backward_mono:
  "range_order a \<le> range_order b \<Longrightarrow> shifted t b (-1) \<le> shifted t a (-1)"
proof -
  have week: "shiftDateByMonths t k \<le> t - 7 * MS_PER_DAY" if "k \<le> -1" for k
    using shiftDateByMonths_minus_1 [of t] shiftDateByMonths_mono [OF that, of t]
    by (simp add: MS_PER_DAY_def)
  show "range_order a \<le> range_order b \<Longrightarrow> ?thesis"
    by (cases a; cases b) (simp_all add: range_order_def shifted_def week shiftDateByMonths_mono)
qed

lemma shifted_week_bounds:
  "t + 7 * MS_PER_DAY \<le> shifted t r 1" "shifted t r (-1) \<le> t - 7 * MS_PER_DAY"
  using shifted_forward_mono [of R_1_week r t] shifted_backward_mono [of R_1_week r t]
  by (simp_all add: range_order_def shifted_def)

lemma getConfigurableSyncWindow_total:
  "getConfigurableSyncWindow h f now =
    Inr \<lparr>timeMin = shifted (getStartOfToday now) h (-1), timeMax = shifted (getStartOfToday now) f 1\<rparr>"
  using shifted_week_bounds(1) [of "getStartOfToday now" f]
    shifted_week_bounds(2) [of "getStartOfToday now" h]
  by (simp add: getConfigurableSyncWindow_def shiftDateByRange_total createSyncWindow_def Let_def
    MS_PER_DAY_def)

lemma getStartOfToday_bounds: "getStartOfToday now \<le> now" "now < getStartOfToday now + MS_PER_DAY"
  using div_bounds [of MS_PER_DAY now]
  by (auto simp: getStartOfToday_def make_date_def utc_day_def MS_PER_DAY_def)

lemma configurable_window_mono:
  assumes "range_order h \<le> range_order h'" "range_order f \<le> range_order f'"
    and "getConfigurableSyncWindow h f now = Inr w" "getConfigurableSyncWindow h' f' now = Inr w'"
  shows "within_window w w'"
  using assms by (auto simp: getConfigurableSyncWindow_total within_window_def
      intro: shifted_forward_mono shifted_backward_mono)

lemma widenRange_Inr:
  assumes "widenRange cur stored = Inr r"
  obtains s where "assertSyncRange stored = Inr s" "range_order cur \<le> range_order r"
    "range_order s \<le> range_order r"
  using assms that by (auto simp: widenRange_def getWiderSyncRange_total split: sum.splits if_splits)

lemma widenRanges_covers:
  assumes "widenRanges ranges ds = Inr r"
  shows "range_order (futureRange ranges) \<le> range_order (futureRange r)
    \<and> range_order (historicRange ranges) \<le> range_order (historicRange r)
    \<and> (\<forall>d \<in> set ds. \<exists>f h. assertSyncRange (syncFutureRange d) = Inr f
        \<and> assertSyncRange (syncHistoricRange d) = Inr h
        \<and> range_order f \<le> range_order (futureRange r)
        \<and> range_order h \<le> range_order (historicRange r))"
  using assms
proof (induction ds arbitrary: ranges)
  case Nil
  then show ?case by simp
next
  case (Cons d ds)
  from Cons.prems obtain f h where fh: "widenRange (futureRange ranges) (syncFutureRange d) = Inr f"
    "widenRange (historicRange ranges) (syncHistoricRange d) = Inr h"
    and rest: "widenRanges \<lparr>futureRange = f, historicRange = h\<rparr> ds = Inr r"
    by (auto split: sum.splits)
  from fh(1) obtain f' where f': "assertSyncRange (syncFutureRange d) = Inr f'"
    "range_order (futureRange ranges) \<le> range_order f" "range_order f' \<le> range_order f"
    by (rule widenRange_Inr)
  from fh(2) obtain h' where h': "assertSyncRange (syncHistoricRange d) = Inr h'"
    "range_order (historicRange ranges) \<le> range_order h" "range_order h' \<le> range_order h"
    by (rule widenRange_Inr)
  from Cons.IH [OF rest] f' h' show ?case by auto
qed

lemmas time_range_defs = resolveRepresentableTimeRange_def resolvePointInTimeRange_def
  POINT_IN_TIME_DURATION_MS_def MS_PER_MINUTE_def REPRESENTABLE_RANGE_SLACK_MS_def

section \<open>Properties\<close>

text \<open>The range published for an event is never empty or inverted, starts no later than the
  stored start and at most a day before it, and, for an event that is not inverted, contains the
  stored end and exceeds it by at most the slack that range scans are widened by; an all-day event
  is published on the UTC day grid.\<close>

theorem representable_range_sound:
  fixes r :: AllDayEventShape
  defines "p \<equiv> resolveRepresentableTimeRange r"
  shows "startTime p < endTime p
    \<and> startTime p \<le> startTime r \<and> startTime r - startTime p \<le> REPRESENTABLE_RANGE_SLACK_MS
    \<and> endTime r \<le> endTime p
    \<and> (startTime r \<le> endTime r \<longrightarrow> endTime p - endTime r \<le> REPRESENTABLE_RANGE_SLACK_MS)
    \<and> (resolveIsAllDayEvent (isAllDay r) (startTime r) (endTime r) \<longrightarrow>
        MS_PER_DAY dvd startTime p \<and> MS_PER_DAY dvd endTime p)"
proof (cases "resolveIsAllDayEvent (isAllDay r) (startTime r) (endTime r)")
  case True
  then have "p = resolveWholeDayTimeRange (startTime r) (endTime r)"
    by (simp add: p_def resolveRepresentableTimeRange_def)
  then show ?thesis
    using True resolveWholeDayTimeRange_grid [of "startTime r" "endTime r"]
      resolveWholeDayTimeRange_bounds [where st = "startTime r" and et = "endTime r"]
    by (auto simp: REPRESENTABLE_RANGE_SLACK_MS_def MS_PER_DAY_def)
next
  case False
  then show ?thesis
    by (auto simp: p_def time_range_defs MS_PER_DAY_def)
qed

theorem representable_range_sound_witness:
  "startTime (resolveRepresentableTimeRange
      \<lparr>startTime = 3600000, endTime = 90000000, isAllDay = Some True\<rparr>) = 0
   \<and> MS_PER_DAY dvd endTime (resolveRepresentableTimeRange
      \<lparr>startTime = 3600000, endTime = 90000000, isAllDay = Some True\<rparr>)"
  using representable_range_sound
    [of "\<lparr>startTime = 3600000, endTime = 90000000, isAllDay = Some True\<rparr>"]
  by (simp add: resolveRepresentableTimeRange_def resolveIsAllDayEvent_def
    resolveWholeDayTimeRange_def floorToUtcDay_def ceilToUtcDay_def MS_PER_DAY_def)

text \<open>The window predicate every layer shares holds exactly when the event and the half-open
  window have an instant in common, an empty or inverted event counting as the single instant of
  its start.\<close>

theorem overlaps_iff_common_instant:
  assumes "windowStart < windowEnd"
  shows "overlapsTimeWindow st et windowStart windowEnd \<longleftrightarrow>
    (\<exists>t. st \<le> t \<and> (if et \<le> st then t = st else t < et) \<and> windowStart \<le> t \<and> t < windowEnd)"
proof (cases "et \<le> st")
  case True
  then show ?thesis by (auto simp: overlapsTimeWindow_def)
next
  case False
  then have "(\<exists>t. st \<le> t \<and> t < et \<and> windowStart \<le> t \<and> t < windowEnd) \<longleftrightarrow>
      max st windowStart < min et windowEnd"
    by (auto intro: exI [of _ "max st windowStart"])
  then show ?thesis using False assms by (auto simp: overlapsTimeWindow_def)
qed

theorem overlaps_iff_common_instant_witness:
  "(0::int) < 10 \<and> (\<exists>t::int. 5 \<le> t \<and> t < 20 \<and> 0 \<le> t \<and> t < 10)"
  using overlaps_iff_common_instant [of 0 10 5 20] by (simp add: overlapsTimeWindow_def)

text \<open>Building the configurable sync window never throws, for any pair of ranges and any
  current time, and the window reaches at least a week into the past and six days into the
  future of the current time.\<close>

theorem configurable_window_sound:
  "\<exists>w. getConfigurableSyncWindow historic future now = Inr w
    \<and> timeMin w \<le> now - 7 * MS_PER_DAY \<and> now + 6 * MS_PER_DAY < timeMax w"
  using shifted_week_bounds(1) [of "getStartOfToday now" future]
    shifted_week_bounds(2) [of "getStartOfToday now" historic] getStartOfToday_bounds [of now]
  by (simp add: getConfigurableSyncWindow_total MS_PER_DAY_def)

text \<open>The ranges computed for a source cover every destination it feeds: at the same current
  time, the window the source is read over contains the window of each destination.\<close>

theorem required_ranges_cover_destinations:
  assumes "createRequiredSourceRanges destinations = Inr r" and "d \<in> set destinations"
  shows "\<exists>f h w w'. assertSyncRange (syncFutureRange d) = Inr f
    \<and> assertSyncRange (syncHistoricRange d) = Inr h
    \<and> getConfigurableSyncWindow h f now = Inr w
    \<and> getConfigurableSyncWindow (historicRange r) (futureRange r) now = Inr w'
    \<and> within_window w w'"
proof -
  from assms obtain f h where fh: "assertSyncRange (syncFutureRange d) = Inr f"
    "assertSyncRange (syncHistoricRange d) = Inr h"
    "range_order f \<le> range_order (futureRange r)" "range_order h \<le> range_order (historicRange r)"
    using widenRanges_covers unfolding createRequiredSourceRanges_def by blast
  then show ?thesis
    using configurable_window_mono [OF fh(4,3)] getConfigurableSyncWindow_total by blast
qed

theorem required_ranges_cover_destinations_witness:
  "createRequiredSourceRanges [\<lparr>syncFutureRange = ''6_months'', syncHistoricRange = ''3_months''\<rparr>] =
      Inr \<lparr>futureRange = R_2_years, historicRange = R_3_months\<rparr>
   \<and> (\<exists>w w'. getConfigurableSyncWindow R_3_months R_6_months 0 = Inr w
      \<and> getConfigurableSyncWindow R_3_months R_2_years 0 = Inr w' \<and> within_window w w')"
proof -
  let ?d = "\<lparr>syncFutureRange = ''6_months'', syncHistoricRange = ''3_months''\<rparr>"
  have eq: "createRequiredSourceRanges [?d] =
      Inr \<lparr>futureRange = R_2_years, historicRange = R_3_months\<rparr>"
    by (simp add: createRequiredSourceRanges_def BASE_SOURCE_SYNC_RANGES_def widenRange_def
      assertSyncRange_def SYNC_RANGE_DEFINITIONS_def syncRangeValue_def getWiderSyncRange_total
      range_order_def DEFAULT_FUTURE_SYNC_RANGE_def DEFAULT_HISTORIC_SYNC_RANGE_def)
  have "?d \<in> set [?d]" by simp
  from required_ranges_cover_destinations [OF eq this, of 0] eq show ?thesis
    by (simp add: assertSyncRange_def SYNC_RANGE_DEFINITIONS_def syncRangeValue_def)
qed

end
