(* ===== verification/Event_Content.thy ===== *)
theory Event_Content
  imports Time_Range
begin

text \<open>
  The events the sync engine handles (\<open>core/types.ts\<close>, \<open>core/events/mappings.ts\<close>), their
  content hashes (\<open>core/events/content-hash.ts\<close>) and the comparison of a pushed event with
  the provider's echo of it (\<open>core/events/push-echo.ts\<close>).

  SHA-256 is code of the runtime: the hash functions take it as the argument \<open>sha256\<close>. The
  JSON text it is applied to is modelled as \<open>JSON.stringify\<close> produces it. A materialised event
  has no recurrence fields, so their places in the payload are the constants the code writes for
  absent values.
\<close>

section \<open>Data\<close>

datatype EventAvailability = Busy | Free | Oof | WorkingElsewhere

definition availability_name :: "EventAvailability \<Rightarrow> string" where
  "availability_name a = (case a of Busy \<Rightarrow> ''busy'' | Free \<Rightarrow> ''free'' | Oof \<Rightarrow> ''oof''
    | WorkingElsewhere \<Rightarrow> ''workingElsewhere'')"

record MaterializedSyncableEvent = AllDayEventShape +
  evId :: string
  evEventStateId :: "string option"
  sourceEventUid :: string
  availability :: "EventAvailability option"
  startTimeZone :: "string option"
  summary :: string
  description :: "string option"
  location :: "string option"
  isPrivate :: "bool option"
  remindersDisabled :: "bool option"
  evCalendarId :: string
  calendarName :: "string option"
  calendarUrl :: "string option"

record EventMapping = EventTimeRange +
  mapId :: string
  mapEventStateId :: "string option"
  syncEventId :: string
  mapCalendarId :: string
  sourceCalendarId :: "string option"
  destinationEventUid :: string
  deleteIdentifier :: string
  syncEventHash :: "string option"

record EditableEventContentSnapshot =
  snapSummary :: string
  snapDescription :: string
  snapLocation :: string
  snapIsAllDay :: bool

record RemoteEvent = EventTimeRange +
  uid :: string
  remDeleteId :: string
  isKeeperEvent :: bool
  editableContent :: "EditableEventContentSnapshot option"
  editableContentHash :: "string option"
  editableAvailability :: "EventAvailability option"
  supportedAvailabilities :: "EventAvailability list option"

section \<open>JSON text\<close>

datatype json = JString string | JBool bool | JArray "json list"

definition hex_digit :: "nat \<Rightarrow> char" where
  "hex_digit d = char_of (if d < 10 then d + 48 else d + 87)"

definition json_escape :: "char \<Rightarrow> string" where
  "json_escape c =
    (let n = (of_char c :: nat) in
     if n = 8 then [CHR 0x5C, CHR ''b''] else if n = 9 then [CHR 0x5C, CHR ''t'']
     else if n = 10 then [CHR 0x5C, CHR ''n''] else if n = 12 then [CHR 0x5C, CHR ''f'']
     else if n = 13 then [CHR 0x5C, CHR ''r''] else if n = 34 then [CHR 0x5C, CHR 0x22]
     else if n = 92 then [CHR 0x5C, CHR 0x5C]
     else if n < 32 then [CHR 0x5C, CHR ''u'', CHR ''0'', CHR ''0'',
       hex_digit (n div 16), hex_digit (n mod 16)]
     else [c])"

definition json_quote :: "string \<Rightarrow> string" where
  "json_quote s = CHR 0x22 # concat (map json_escape s) @ [CHR 0x22]"

definition intercalate :: "string \<Rightarrow> string list \<Rightarrow> string" where
  "intercalate sep xs = (case xs of [] \<Rightarrow> [] | y # ys \<Rightarrow> y @ concat (map (\<lambda>z. sep @ z) ys))"

fun json_stringify :: "json \<Rightarrow> string" where
  "json_stringify (JString s) = json_quote s"
| "json_stringify (JBool b) = (if b then ''true'' else ''false'')"
| "json_stringify (JArray js) = ''['' @ intercalate '','' (map json_stringify js) @ '']''"

section \<open>Normalised content and its hashes\<close>

fun normalize_newlines :: "string \<Rightarrow> string" where
  "normalize_newlines [] = []"
| "normalize_newlines (c # cs) =
    (if c = CHR 0x0D
     then CHR 0x0A # (case cs of [] \<Rightarrow> []
       | d # ds \<Rightarrow> if d = CHR 0x0A then normalize_newlines ds else normalize_newlines (d # ds))
     else c # normalize_newlines cs)"

definition is_js_space :: "char \<Rightarrow> bool" where
  "is_js_space c \<longleftrightarrow> (of_char c :: nat) \<in> {9, 10, 11, 12, 13, 32, 160}"

definition js_trim :: "string \<Rightarrow> string" where
  "js_trim s = rev (dropWhile is_js_space (rev (dropWhile is_js_space s)))"

definition normalizeText :: "string option \<Rightarrow> string" where
  "normalizeText v = (case v of None \<Rightarrow> [] | Some s \<Rightarrow> js_trim (normalize_newlines s))"

definition normalizeAvailability :: "EventAvailability option \<Rightarrow> string" where
  "normalizeAvailability v = availability_name (or_else v Busy)"

definition resolveHashedAllDay :: "MaterializedSyncableEvent \<Rightarrow> bool" where
  "resolveHashedAllDay e = resolveIsAllDayEvent (isAllDay e) (startTime e) (endTime e)"

definition resolveHashedPrivacy :: "bool option \<Rightarrow> json list" where
  "resolveHashedPrivacy v = (if v = Some True then [JString ''private''] else [])"

definition resolveHashedReminders :: "bool option \<Rightarrow> json list" where
  "resolveHashedReminders v = (if v = Some True then [JString ''reminders-disabled''] else [])"

definition syncEventPayload :: "MaterializedSyncableEvent \<Rightarrow> json" where
  "syncEventPayload e = JArray (
    [JString (normalizeText (Some (summary e))),
     JString (normalizeText (description e)),
     JString (normalizeText (location e)),
     JString (normalizeAvailability (availability e)),
     JBool (resolveHashedAllDay e),
     JString (toISOString (startTime e)),
     JString (toISOString (endTime e)),
     JString (or_else (startTimeZone e) []),
     JString ''null'', JString ''null'', JArray [], JString []]
    @ resolveHashedPrivacy (isPrivate e) @ resolveHashedReminders (remindersDisabled e))"

definition createSyncEventContentHash ::
  "(string \<Rightarrow> string) \<Rightarrow> MaterializedSyncableEvent \<Rightarrow> string" where
  "createSyncEventContentHash sha256 e = sha256 (json_stringify (syncEventPayload e))"

definition createEditableEventContentSnapshot ::
  "MaterializedSyncableEvent \<Rightarrow> EditableEventContentSnapshot" where
  "createEditableEventContentSnapshot e =
    \<lparr>snapSummary = normalizeText (Some (summary e)),
     snapDescription = normalizeText (description e),
     snapLocation = normalizeText (location e),
     snapIsAllDay = resolveHashedAllDay e\<rparr>"

definition snapshotPayload :: "EditableEventContentSnapshot \<Rightarrow> json" where
  "snapshotPayload s =
    JArray [JString (snapSummary s), JString (snapDescription s), JString (snapLocation s),
      JBool (snapIsAllDay s)]"

definition hashEditableEventContentSnapshot ::
  "(string \<Rightarrow> string) \<Rightarrow> EditableEventContentSnapshot \<Rightarrow> string" where
  "hashEditableEventContentSnapshot sha256 s = sha256 (json_stringify (snapshotPayload s))"

definition createEditableEventContentHash ::
  "(string \<Rightarrow> string) \<Rightarrow> MaterializedSyncableEvent \<Rightarrow> string" where
  "createEditableEventContentHash sha256 e =
    hashEditableEventContentSnapshot sha256 (createEditableEventContentSnapshot e)"

section \<open>Seconds, as providers serialise them\<close>

definition trunc_seconds :: "instant \<Rightarrow> int" where
  "trunc_seconds t = (if t \<ge> 0 then t div 1000 else - ((- t) div 1000))"

definition isSameSerializedSecond :: "instant \<Rightarrow> instant \<Rightarrow> bool" where
  "isSameSerializedSecond a b \<longleftrightarrow> trunc_seconds a = trunc_seconds b"

lemma isSameSerializedSecond_equiv [simp]:
  "isSameSerializedSecond a a"
  "isSameSerializedSecond a b = isSameSerializedSecond b a"
  by (auto simp: isSameSerializedSecond_def)

section \<open>Push echoes\<close>

datatype content_field = FDescription | FLocation | FSummary

record PushEchoValueLengths =
  echoLength :: nat
  sentLength :: nat

record PushEchoFieldDivergence =
  divAllDay :: bool
  divDescription :: bool
  divEnd :: bool
  divLengths :: "(content_field, PushEchoValueLengths) jsmap"
  divLocation :: bool
  divStart :: bool
  divSummary :: bool

record PushEchoObservation = EventTimeRange +
  obsContent :: EditableEventContentSnapshot

definition divergedLengths ::
  "content_field \<Rightarrow> string \<Rightarrow> string \<Rightarrow> (content_field, PushEchoValueLengths) jsmap" where
  "divergedLengths field sent echo =
    (if sent = echo then [] else [(field, \<lparr>echoLength = length echo, sentLength = length sent\<rparr>)])"

definition collectDivergedLengths ::
  "PushEchoObservation \<Rightarrow> PushEchoObservation \<Rightarrow> (content_field, PushEchoValueLengths) jsmap" where
  "collectDivergedLengths sent echo =
    divergedLengths FDescription (snapDescription (obsContent sent)) (snapDescription (obsContent echo))
    @ divergedLengths FLocation (snapLocation (obsContent sent)) (snapLocation (obsContent echo))
    @ divergedLengths FSummary (snapSummary (obsContent sent)) (snapSummary (obsContent echo))"

definition comparePushEchoObservations ::
  "PushEchoObservation \<Rightarrow> PushEchoObservation \<Rightarrow> PushEchoFieldDivergence" where
  "comparePushEchoObservations sent echo =
    \<lparr>divAllDay = (snapIsAllDay (obsContent sent) \<noteq> snapIsAllDay (obsContent echo)),
     divDescription = (snapDescription (obsContent sent) \<noteq> snapDescription (obsContent echo)),
     divEnd = (\<not> isSameSerializedSecond (endTime sent) (endTime echo)),
     divLengths = collectDivergedLengths sent echo,
     divLocation = (snapLocation (obsContent sent) \<noteq> snapLocation (obsContent echo)),
     divStart = (\<not> isSameSerializedSecond (startTime sent) (startTime echo)),
     divSummary = (snapSummary (obsContent sent) \<noteq> snapSummary (obsContent echo))\<rparr>"

definition hasPushEchoDivergence :: "PushEchoFieldDivergence \<Rightarrow> bool" where
  "hasPushEchoDivergence d \<longleftrightarrow>
    divAllDay d \<or> divDescription d \<or> divEnd d \<or> divLocation d \<or> divStart d \<or> divSummary d"

section \<open>Normalising twice changes nothing\<close>

lemma normalize_newlines_no_cr: "CHR 0x0D \<notin> set (normalize_newlines s)"
  by (induction s rule: normalize_newlines.induct) (auto split: list.splits)

lemma normalize_newlines_id: "CHR 0x0D \<notin> set s \<Longrightarrow> normalize_newlines s = s"
  by (induction s) auto

lemma set_js_trim: "set (js_trim s) \<subseteq> set s"
  by (auto simp: js_trim_def dest!: set_dropWhileD)

lemma dropWhile_rev_dropWhile:
  "dropWhile P (rev (dropWhile P (rev (dropWhile P s)))) = rev (dropWhile P (rev (dropWhile P s)))"
proof (cases "dropWhile P s")
  case (Cons c cs)
  then have c: "\<not> P c" by (metis dropWhile_eq_Cons_conv)
  then have "dropWhile P (rev cs @ [c]) = dropWhile P (rev cs) @ [c]"
    by (induction "rev cs" arbitrary: cs) (metis append_Nil dropWhile.simps dropWhile_append3)+
  then show ?thesis using c Cons by simp
next
  case Nil
  then show ?thesis by (simp only: rev.simps dropWhile.simps)
qed

lemma js_trim_idem: "js_trim (js_trim s) = js_trim s"
  unfolding js_trim_def by (simp add: dropWhile_rev_dropWhile)

lemma normalizeText_idem: "normalizeText (Some (normalizeText v)) = normalizeText v"
proof (cases v)
  case (Some s)
  have "CHR 0x0D \<notin> set (js_trim (normalize_newlines s))"
    using set_js_trim normalize_newlines_no_cr by blast
  then show ?thesis by (simp add: Some normalizeText_def normalize_newlines_id js_trim_idem)
qed (simp add: normalizeText_def js_trim_def)

section \<open>JSON text determines the value\<close>

text \<open>Reading back one escaped character: its code and the rest of the text.\<close>

definition hex_value :: "char \<Rightarrow> nat" where
  "hex_value c = (let n = (of_char c :: nat) in if n < 58 then n - 48 else n - 87)"

definition read_escaped :: "string \<Rightarrow> nat \<times> string" where
  "read_escaped s =
    (if hd s \<noteq> CHR 0x5C then (of_char (hd s), tl s)
     else let k = hd (tl s); rest = tl (tl s) in
       if k = CHR ''b'' then (8, rest) else if k = CHR ''t'' then (9, rest)
       else if k = CHR ''n'' then (10, rest) else if k = CHR ''f'' then (12, rest)
       else if k = CHR ''r'' then (13, rest)
       else if k = CHR ''u'' then (16 * hex_value (rest ! 2) + hex_value (rest ! 3), drop 4 rest)
       else (of_char k, rest))"

lemma hex_value_digit: "d < 16 \<Longrightarrow> hex_value (hex_digit d) = d"
  by (auto simp: hex_value_def hex_digit_def Let_def)

lemma read_json_escape: "read_escaped (json_escape c @ x) = (of_char c, x)"
proof -
  let ?n = "of_char c :: nat"
  consider "?n \<in> {8, 9, 10, 12, 13, 34, 92}" | "?n \<notin> {8, 9, 10, 12, 13, 34, 92}" "?n < 32"
    | "?n \<notin> {8, 9, 10, 12, 13, 34, 92}" "\<not> ?n < 32" by blast
  then show ?thesis
  proof cases
    case 1
    then show ?thesis by (elim insertE; simp add: json_escape_def read_escaped_def)
  next
    case 2
    then have "16 * hex_value (hex_digit (?n div 16)) + hex_value (hex_digit (?n mod 16)) = ?n"
      by (simp add: hex_value_digit)
    with 2 show ?thesis
      by (simp add: json_escape_def read_escaped_def Let_def numeral_2_eq_2 numeral_3_eq_3)
  next
    case 3
    then have "json_escape c = [c]" "c \<noteq> CHR 0x5C" by (auto simp: json_escape_def)
    then show ?thesis by (simp add: read_escaped_def)
  qed
qed

lemma json_escape_prefix_free:
  assumes "json_escape c @ x = json_escape d @ y" shows "c = d \<and> x = y"
proof -
  have "(of_char c :: nat, x) = (of_char d, y)"
    unfolding read_json_escape [symmetric] assms ..
  then show ?thesis by (simp only: prod.inject of_char_eq_iff)
qed

lemma json_escape_Cons: "\<exists>k r. json_escape c = k # r \<and> k \<noteq> CHR 0x22"
proof (cases "(of_char c :: nat) = 34")
  case True
  then show ?thesis by (simp add: json_escape_def)
next
  case False
  then have "c \<noteq> CHR 0x22" by auto
  then show ?thesis by (simp add: json_escape_def Let_def)
qed

lemma json_escapes_inj:
  "concat (map json_escape s) @ CHR 0x22 # x = concat (map json_escape t) @ CHR 0x22 # y \<Longrightarrow>
    s = t \<and> x = y"
proof (induction s arbitrary: t)
  case Nil
  then show ?case using json_escape_Cons by (cases t) (auto, metis append_Cons list.inject)
next
  case (Cons c s)
  show ?case
  proof (cases t)
    case Nil
    with Cons.prems show ?thesis using json_escape_Cons [of c] by auto
  next
    case (Cons d t')
    with Cons.prems have "json_escape c @ (concat (map json_escape s) @ CHR 0x22 # x) =
        json_escape d @ (concat (map json_escape t') @ CHR 0x22 # y)" by simp
    from json_escape_prefix_free [OF this] Cons.IH [of t'] Cons show ?thesis by auto
  qed
qed

lemma json_quote_append_inj: "json_quote s @ x = json_quote t @ y \<Longrightarrow> s = t \<and> x = y"
  using json_escapes_inj [of s x t y] by (simp add: json_quote_def)

lemma snapshotPayload_inj:
  assumes "json_stringify (snapshotPayload a) = json_stringify (snapshotPayload b)"
  shows "a = b"
proof -
  have eq: "json_quote (snapSummary a) @ '','' @ json_quote (snapDescription a) @ '','' @
      json_quote (snapLocation a) @ '','' @ (if snapIsAllDay a then ''true]'' else ''false]'') =
    json_quote (snapSummary b) @ '','' @ json_quote (snapDescription b) @ '','' @
      json_quote (snapLocation b) @ '','' @ (if snapIsAllDay b then ''true]'' else ''false]'')"
    using assms by (auto simp: snapshotPayload_def intercalate_def split: if_splits)
  from json_quote_append_inj [OF eq] have 1: "snapSummary a = snapSummary b" and
    eq2: "json_quote (snapDescription a) @ '','' @
      json_quote (snapLocation a) @ '','' @ (if snapIsAllDay a then ''true]'' else ''false]'') =
    json_quote (snapDescription b) @ '','' @
      json_quote (snapLocation b) @ '','' @ (if snapIsAllDay b then ''true]'' else ''false]'')"
    by auto
  from json_quote_append_inj [OF eq2] have 2: "snapDescription a = snapDescription b" and
    eq3: "json_quote (snapLocation a) @ '','' @ (if snapIsAllDay a then ''true]'' else ''false]'') =
      json_quote (snapLocation b) @ '','' @ (if snapIsAllDay b then ''true]'' else ''false]'')"
    by auto
  from json_quote_append_inj [OF eq3] 1 2 show ?thesis
    by (auto split: if_splits)
qed

lemma hash_snapshot_eq_iff:
  assumes "inj_on sha256 {json_stringify (snapshotPayload a), json_stringify (snapshotPayload b)}"
  shows "hashEditableEventContentSnapshot sha256 a = hashEditableEventContentSnapshot sha256 b \<longleftrightarrow> a = b"
  using assms snapshotPayload_inj
  by (auto simp: hashEditableEventContentSnapshot_def inj_on_def)

section \<open>Properties\<close>

text \<open>Where SHA-256 does not collide on the two payloads, the editable content hash of an event
  equals the hash of a snapshot exactly when the event's normalised content is that snapshot; and
  a snapshot taken of an event whose text is already normalised hashes the same, so writing the
  normalised text back never makes an event look edited.\<close>

theorem editable_hash_detects_changes:
  assumes "inj_on sha256 {json_stringify (snapshotPayload (createEditableEventContentSnapshot e)),
    json_stringify (snapshotPayload s)}"
  shows "(createEditableEventContentHash sha256 e = hashEditableEventContentSnapshot sha256 s \<longleftrightarrow>
      snapSummary s = normalizeText (Some (summary e))
      \<and> snapDescription s = normalizeText (description e)
      \<and> snapLocation s = normalizeText (location e)
      \<and> snapIsAllDay s = resolveIsAllDayEvent (isAllDay e) (startTime e) (endTime e))
    \<and> createEditableEventContentHash sha256
        (e\<lparr>summary := normalizeText (Some (summary e)),
           description := Some (normalizeText (description e)),
           location := Some (normalizeText (location e))\<rparr>) =
      createEditableEventContentHash sha256 e"
  unfolding createEditableEventContentHash_def hash_snapshot_eq_iff [OF assms]
  by (auto simp: createEditableEventContentSnapshot_def resolveHashedAllDay_def normalizeText_idem)

definition sample_event :: MaterializedSyncableEvent where
  "sample_event = \<lparr>startTime = 0, endTime = 3600000, isAllDay = None, evId = ''e1'',
    evEventStateId = Some ''s1'', sourceEventUid = ''u1'', availability = None,
    startTimeZone = None, summary = ''Standup '', description = None, location = None,
    isPrivate = None, remindersDisabled = None, evCalendarId = ''c1'', calendarName = None,
    calendarUrl = None\<rparr>"

theorem editable_hash_detects_changes_witness:
  "createEditableEventContentHash id sample_event =
    hashEditableEventContentSnapshot id
      \<lparr>snapSummary = ''Standup'', snapDescription = [], snapLocation = [], snapIsAllDay = False\<rparr>"
  using editable_hash_detects_changes [of id sample_event
    "\<lparr>snapSummary = ''Standup'', snapDescription = [], snapLocation = [], snapIsAllDay = False\<rparr>"]
  by (simp add: sample_event_def normalizeText_def js_trim_def is_js_space_def
    resolveIsAllDayEvent_def inferAllDayEvent_def MS_PER_DAY_def)

end
