(* ===== verification/Reconcile.thy ===== *)
theory Reconcile
  imports Event_Content
begin

text \<open>
  Reconciliation (\<open>core/sync/operations.ts\<close>): from the local events, the recorded mappings and
  the remote events of one destination calendar, \<open>computeSyncOperations\<close> computes the
  remote operations and the database-only mapping updates of a sync run. Every function of the
  file is a definition of the same name. \<open>sha256\<close> and \<open>localeCompare\<close> belong to the
  JavaScript runtime and are arguments (\<open>sha256\<close>, \<open>lc\<close>).
\<close>

section \<open>Data\<close>

record ReconciliationScope =
  authoritativeMappingIds :: "string set option"
  authoritativeWindow :: "SyncWindow option"
  authoritativeSourceWindows :: "(string, SyncWindow) jsmap option"
  configuredSourceCalendarIds :: "string set option"
  requestedWindow :: SyncWindow
  withheldSourceEventStateIds :: "string set option"

datatype SyncOperation =
  is_Add: Add (opEvent: MaterializedSyncableEvent) (addStale: "string option")
| is_Remove: Remove (opUid: string) (opDeleteId: string) (opStart: instant) (opMappingId: "string option")
| is_Replace: Replace (opEvent: MaterializedSyncableEvent) (opStale: string) (opUid: string) (opDeleteId: string)

record StaleReasonCounts =
  localHashChanged :: nat
  occurrenceReassigned :: nat
  remoteAvailabilityChanged :: nat
  remoteContentChanged :: nat
  remoteContentAllDayChanged :: nat
  remoteContentDescriptionChanged :: nat
  remoteContentDescriptionLocalLengthTotal :: nat
  remoteContentDescriptionRemoteLengthTotal :: nat
  remoteContentLocationChanged :: nat
  remoteContentLocationLocalLengthTotal :: nat
  remoteContentLocationRemoteLengthTotal :: nat
  remoteContentSummaryChanged :: nat
  remoteContentSummaryLocalLengthTotal :: nat
  remoteContentSummaryRemoteLengthTotal :: nat
  remoteMissing :: nat
  remoteTimeChanged :: nat

record RemoteContentValueLengths =
  localLen :: nat
  remoteLen :: nat

record RemoteContentFieldChanges =
  chAllDay :: bool
  chDescription :: bool
  chLengths :: "(content_field, RemoteContentValueLengths) jsmap"
  chLocation :: bool
  chSummary :: bool

record RemoteStateChanges =
  chAvailability :: bool
  chContent :: bool
  chContentFields :: "RemoteContentFieldChanges option"
  chTime :: bool

record StaleMappingResult =
  staleReasonCounts :: StaleReasonCounts
  staleMappingIds :: "string list"
  staleMappedEventIds :: "string set"
  staleRemoteMappings :: "EventMapping list"

record MappingUpdate = EventTimeRange +
  updDeleteIdentifier :: string
  updId :: string
  updSyncEventHash :: string
  updSyncEventId :: string

record ComputeSyncOperationsResult =
  mappingUpdates :: "MappingUpdate list"
  operations :: "SyncOperation list"
  resStaleReasonCounts :: StaleReasonCounts
  resStaleMappingIds :: "string list"

type_synonym OccurrenceReassignment = "MaterializedSyncableEvent \<times> EventMapping"

definition createStaleReasonCounts :: StaleReasonCounts where
  "createStaleReasonCounts =
    \<lparr>localHashChanged = 0, occurrenceReassigned = 0, remoteAvailabilityChanged = 0,
     remoteContentChanged = 0, remoteContentAllDayChanged = 0,
     remoteContentDescriptionChanged = 0, remoteContentDescriptionLocalLengthTotal = 0,
     remoteContentDescriptionRemoteLengthTotal = 0, remoteContentLocationChanged = 0,
     remoteContentLocationLocalLengthTotal = 0, remoteContentLocationRemoteLengthTotal = 0,
     remoteContentSummaryChanged = 0, remoteContentSummaryLocalLengthTotal = 0,
     remoteContentSummaryRemoteLengthTotal = 0, remoteMissing = 0, remoteTimeChanged = 0\<rparr>"

definition getMappingSyncEventId :: "EventMapping \<Rightarrow> string" where
  "getMappingSyncEventId m = syncEventId m"

section \<open>Authority\<close>

definition getSourceAuthoritativeWindow ::
  "ReconciliationScope \<Rightarrow> string option \<Rightarrow> SyncWindow option" where
  "getSourceAuthoritativeWindow scope sourceId =
    (case sourceId of
       None \<Rightarrow> Some (requestedWindow scope)
     | Some cal \<Rightarrow>
         (case (authoritativeSourceWindows scope, configuredSourceCalendarIds scope) of
            (Some windows, Some configured) \<Rightarrow>
              if cal \<notin> configured then Some (requestedWindow scope) else map_of windows cal
          | _ \<Rightarrow> authoritativeWindow scope))"

definition isInsideSourceAuthoritativeWindow ::
  "'a EventTimeRange_scheme \<Rightarrow> string option \<Rightarrow> ReconciliationScope \<Rightarrow> bool" where
  "isInsideSourceAuthoritativeWindow v sourceId scope =
    (case getSourceAuthoritativeWindow scope sourceId of
       None \<Rightarrow> False
     | Some w \<Rightarrow> overlapsTimeWindow (startTime v) (endTime v) (timeMin w) (timeMax w))"

section \<open>Re-identified occurrences\<close>

definition js_or :: "int \<Rightarrow> int \<Rightarrow> int" where
  "js_or a b = (if a \<noteq> 0 then a else b)"

definition compareMappingSlots ::
  "(string \<Rightarrow> string \<Rightarrow> int) \<Rightarrow> EventMapping \<Rightarrow> EventMapping \<Rightarrow> int" where
  "compareMappingSlots lc a b =
    js_or (startTime a - startTime b) (js_or (endTime a - endTime b) (lc (mapId a) (mapId b)))"

definition compareEventSlots ::
  "(string \<Rightarrow> string \<Rightarrow> int) \<Rightarrow> MaterializedSyncableEvent \<Rightarrow> MaterializedSyncableEvent \<Rightarrow> int" where
  "compareEventSlots lc a b =
    js_or (startTime a - startTime b) (js_or (endTime a - endTime b) (lc (evId a) (evId b)))"

definition getSerializedSlotKey :: "instant \<Rightarrow> instant \<Rightarrow> string" where
  "getSerializedSlotKey st et = show_int (trunc_seconds st) @ [CHR 0x00] @ show_int (trunc_seconds et)"

fun pairExactSlots ::
  "MaterializedSyncableEvent list \<Rightarrow> (string, EventMapping list) jsmap \<Rightarrow> OccurrenceReassignment list" where
  "pairExactSlots [] slots = []"
| "pairExactSlots (e # es) slots =
    (let key = getSerializedSlotKey (startTime e) (endTime e) in
     case map_of slots key of
       Some (m # ms) \<Rightarrow> (e, m) # pairExactSlots es (AList.update key ms slots)
     | _ \<Rightarrow> pairExactSlots es slots)"

definition pairOwnerOccurrences ::
  "(string \<Rightarrow> string \<Rightarrow> int) \<Rightarrow> MaterializedSyncableEvent list \<Rightarrow> EventMapping list
    \<Rightarrow> OccurrenceReassignment list" where
  "pairOwnerOccurrences lc events mappings =
    (let orderedEvents = toSorted (compareEventSlots lc) events;
         orderedMappings = toSorted (compareMappingSlots lc) mappings;
         slots = fold (\<lambda>m acc. group_push (getSerializedSlotKey (startTime m) (endTime m)) m acc)
           orderedMappings [];
         exact = pairExactSlots orderedEvents slots;
         pairedEventIds = set (map (evId \<circ> fst) exact);
         pairedMappingIds = set (map (mapId \<circ> snd) exact);
         remainingEvents = filter (\<lambda>e. evId e \<notin> pairedEventIds) orderedEvents;
         remainingMappings = filter (\<lambda>m. mapId m \<notin> pairedMappingIds) orderedMappings
     in exact @ zip remainingEvents remainingMappings)"

definition newEventsByOwner ::
  "MaterializedSyncableEvent list \<Rightarrow> EventMapping list
    \<Rightarrow> (string, MaterializedSyncableEvent list) jsmap" where
  "newEventsByOwner localEvents allMappings =
    fold (\<lambda>e acc. group_push (or_else (evEventStateId e) []) e acc)
      (filter (\<lambda>e. str_truthy (evEventStateId e)
        \<and> evId e \<notin> set (map getMappingSyncEventId allMappings)) localEvents) []"

definition missingMappingsByOwner ::
  "MaterializedSyncableEvent list \<Rightarrow> EventMapping list \<Rightarrow> (string, EventMapping list) jsmap" where
  "missingMappingsByOwner localEvents reassignable =
    fold (\<lambda>m acc. group_push (or_else (mapEventStateId m) []) m acc)
      (filter (\<lambda>m. getMappingSyncEventId m \<notin> set (map evId localEvents)
        \<and> str_truthy (mapEventStateId m)) reassignable) []"

definition pairReidentifiedMaterializedOccurrences ::
  "(string \<Rightarrow> string \<Rightarrow> int) \<Rightarrow> MaterializedSyncableEvent list \<Rightarrow> EventMapping list
    \<Rightarrow> EventMapping list \<Rightarrow> OccurrenceReassignment list" where
  "pairReidentifiedMaterializedOccurrences lc localEvents reassignable allMappings =
    (let missing = missingMappingsByOwner localEvents reassignable
     in concat (map (\<lambda>(owner, events).
          case map_of missing owner of
            None \<Rightarrow> []
          | Some mappings \<Rightarrow> pairOwnerOccurrences lc events mappings)
        (newEventsByOwner localEvents allMappings)))"

section \<open>Matching remote events to mappings\<close>

definition getRemoteIdentity :: "string \<Rightarrow> string \<Rightarrow> string" where
  "getRemoteIdentity u d = u @ [CHR 0x00] @ d"

definition matchRemoteEvent ::
  "(string, RemoteEvent) jsmap \<Rightarrow> (string, RemoteEvent list) jsmap \<Rightarrow> EventMapping
    \<Rightarrow> RemoteEvent option" where
  "matchRemoteEvent byIdentity byUid m =
    (case map_of byIdentity (getRemoteIdentity (destinationEventUid m) (deleteIdentifier m)) of
       Some r \<Rightarrow> Some r
     | None \<Rightarrow>
         if deleteIdentifier m \<noteq> destinationEventUid m then None
         else (case or_else (map_of byUid (destinationEventUid m)) [] of
                 [r] \<Rightarrow> Some r | _ \<Rightarrow> None))"

definition matchRemoteEventsToMappings ::
  "EventMapping list \<Rightarrow> RemoteEvent list \<Rightarrow> (string, RemoteEvent) jsmap" where
  "matchRemoteEventsToMappings mappings remoteEvents =
    (let byIdentity = jsmap_of (map (\<lambda>r. (getRemoteIdentity (uid r) (remDeleteId r), r)) remoteEvents);
         byUid = fold (\<lambda>r acc. group_push (uid r) r acc) remoteEvents []
     in fold (\<lambda>m acc. case matchRemoteEvent byIdentity byUid m of
           None \<Rightarrow> acc | Some r \<Rightarrow> AList.update (mapId m) r acc) mappings [])"

section \<open>Remote state changes\<close>

definition divergedContentLengths ::
  "content_field \<Rightarrow> string \<Rightarrow> string \<Rightarrow> (content_field, RemoteContentValueLengths) jsmap" where
  "divergedContentLengths field lcl rmt =
    (if lcl = rmt then [] else [(field, \<lparr>localLen = length lcl, remoteLen = length rmt\<rparr>)])"

definition getRemoteStateChanges ::
  "(string \<Rightarrow> string) \<Rightarrow> EventMapping \<Rightarrow> MaterializedSyncableEvent \<Rightarrow> RemoteEvent
    \<Rightarrow> RemoteStateChanges" where
  "getRemoteStateChanges sha256 m e r =
    (let contentChanged = (case editableContentHash r of None \<Rightarrow> False
           | Some h \<Rightarrow> h \<noteq> createEditableEventContentHash sha256 e);
         contentFields = (case editableContent r of
             Some rc \<Rightarrow> if contentChanged then
               (let c = createEditableEventContentSnapshot e in
                Some \<lparr>chAllDay = (snapIsAllDay rc \<noteq> snapIsAllDay c),
                  chDescription = (snapDescription rc \<noteq> snapDescription c),
                  chLengths =
                    divergedContentLengths FDescription (snapDescription c) (snapDescription rc)
                    @ divergedContentLengths FLocation (snapLocation c) (snapLocation rc)
                    @ divergedContentLengths FSummary (snapSummary c) (snapSummary rc),
                  chLocation = (snapLocation rc \<noteq> snapLocation c),
                  chSummary = (snapSummary rc \<noteq> snapSummary c)\<rparr>) else None
           | None \<Rightarrow> None);
         localAvailability = or_else (availability e) Busy;
         supported = or_else (supportedAvailabilities r) [];
         expected = (if localAvailability \<in> set supported then localAvailability else Busy);
         availabilityChanged = (case editableAvailability r of None \<Rightarrow> False
           | Some a \<Rightarrow> a \<noteq> expected);
         timeChanged = (\<not> isSameSerializedSecond (startTime r) (startTime m)
           \<or> \<not> isSameSerializedSecond (endTime r) (endTime m))
     in \<lparr>chAvailability = availabilityChanged, chContent = contentChanged,
         chContentFields = contentFields, chTime = timeChanged\<rparr>)"

definition hasRemoteStateChanged ::
  "(string \<Rightarrow> string) \<Rightarrow> EventMapping \<Rightarrow> MaterializedSyncableEvent \<Rightarrow> RemoteEvent \<Rightarrow> bool" where
  "hasRemoteStateChanged sha256 m e r =
    (let c = getRemoteStateChanges sha256 m e r in chAvailability c \<or> chContent c \<or> chTime c)"

definition recordRemoteContentLengths ::
  "StaleReasonCounts \<Rightarrow> RemoteContentFieldChanges option \<Rightarrow> StaleReasonCounts" where
  "recordRemoteContentLengths n contentFields =
    (let lengths = (case contentFields of None \<Rightarrow> [] | Some f \<Rightarrow> chLengths f);
         empty = \<lparr>localLen = 0, remoteLen = 0\<rparr>;
         d = or_else (map_of lengths FDescription) empty;
         l = or_else (map_of lengths FLocation) empty;
         s = or_else (map_of lengths FSummary) empty
     in n\<lparr>remoteContentDescriptionLocalLengthTotal :=
            remoteContentDescriptionLocalLengthTotal n + localLen d,
          remoteContentDescriptionRemoteLengthTotal :=
            remoteContentDescriptionRemoteLengthTotal n + remoteLen d,
          remoteContentLocationLocalLengthTotal :=
            remoteContentLocationLocalLengthTotal n + localLen l,
          remoteContentLocationRemoteLengthTotal :=
            remoteContentLocationRemoteLengthTotal n + remoteLen l,
          remoteContentSummaryLocalLengthTotal :=
            remoteContentSummaryLocalLengthTotal n + localLen s,
          remoteContentSummaryRemoteLengthTotal :=
            remoteContentSummaryRemoteLengthTotal n + remoteLen s\<rparr>)"

definition field_changed ::
  "(RemoteContentFieldChanges \<Rightarrow> bool) \<Rightarrow> RemoteContentFieldChanges option \<Rightarrow> bool" where
  "field_changed sel f = (case f of None \<Rightarrow> False | Some c \<Rightarrow> sel c)"

definition recordStaleReasons ::
  "StaleReasonCounts \<Rightarrow> bool \<Rightarrow> RemoteStateChanges \<Rightarrow> StaleReasonCounts" where
  "recordStaleReasons n hashChanged c =
    (let f = chContentFields c;
         n1 = n\<lparr>localHashChanged := localHashChanged n + of_bool hashChanged,
                remoteAvailabilityChanged := remoteAvailabilityChanged n + of_bool (chAvailability c),
                remoteContentChanged := remoteContentChanged n + of_bool (chContent c),
                remoteContentAllDayChanged :=
                  remoteContentAllDayChanged n + of_bool (field_changed chAllDay f),
                remoteContentDescriptionChanged :=
                  remoteContentDescriptionChanged n + of_bool (field_changed chDescription f),
                remoteContentLocationChanged :=
                  remoteContentLocationChanged n + of_bool (field_changed chLocation f),
                remoteContentSummaryChanged :=
                  remoteContentSummaryChanged n + of_bool (field_changed chSummary f)\<rparr>;
         n2 = recordRemoteContentLengths n1 f
     in n2\<lparr>remoteTimeChanged := remoteTimeChanged n2 + of_bool (chTime c)\<rparr>)"

section \<open>Stale mappings\<close>

definition markStale :: "EventMapping \<Rightarrow> StaleMappingResult \<Rightarrow> StaleMappingResult" where
  "markStale m acc =
    acc\<lparr>staleMappingIds := staleMappingIds acc @ [mapId m],
        staleMappedEventIds := insert (getMappingSyncEventId m) (staleMappedEventIds acc),
        staleRemoteMappings := staleRemoteMappings acc @ [m]\<rparr>"

definition identifyStaleMapping ::
  "(string \<Rightarrow> string) \<Rightarrow> string set \<Rightarrow> (string, RemoteEvent) jsmap
    \<Rightarrow> (string, MaterializedSyncableEvent) jsmap \<Rightarrow> string set option
    \<Rightarrow> EventMapping \<Rightarrow> StaleMappingResult \<Rightarrow> StaleMappingResult" where
  "identifyStaleMapping sha256 localEventIds remoteByMapping localById authoritative m acc =
    (let eventId = getMappingSyncEventId m;
         localEventExists = (eventId \<in> localEventIds);
         remote = map_of remoteByMapping (mapId m);
         covered = (case authoritative of None \<Rightarrow> True | Some ids \<Rightarrow> mapId m \<in> ids)
     in if localEventExists \<and> remote = None \<and> covered
        then markStale m (acc\<lparr>staleReasonCounts := (staleReasonCounts acc)
               \<lparr>remoteMissing := remoteMissing (staleReasonCounts acc) + 1\<rparr>\<rparr>)
        else (case (remote, map_of localById eventId) of
            (Some r, Some e) \<Rightarrow>
              if \<not> localEventExists then acc
              else (let hashChanged = (syncEventHash m \<noteq> Some (createSyncEventContentHash sha256 e));
                        changes = getRemoteStateChanges sha256 m e r
                    in if hashChanged \<or> chAvailability changes \<or> chContent changes \<or> chTime changes
                       then markStale m (acc\<lparr>staleReasonCounts :=
                              recordStaleReasons (staleReasonCounts acc) hashChanged changes\<rparr>)
                       else acc)
          | _ \<Rightarrow> acc))"

definition identifyStaleMappings ::
  "(string \<Rightarrow> string) \<Rightarrow> EventMapping list \<Rightarrow> string set \<Rightarrow> (string, RemoteEvent) jsmap
    \<Rightarrow> (string, MaterializedSyncableEvent) jsmap \<Rightarrow> string set option \<Rightarrow> StaleMappingResult" where
  "identifyStaleMappings sha256 mappings localEventIds remoteByMapping localById authoritative =
    fold (identifyStaleMapping sha256 localEventIds remoteByMapping localById authoritative) mappings
      \<lparr>staleReasonCounts = createStaleReasonCounts, staleMappingIds = [],
       staleMappedEventIds = {}, staleRemoteMappings = []\<rparr>"

section \<open>Operations\<close>

definition firstMappingBySyncEventId :: "EventMapping list \<Rightarrow> (string, EventMapping) jsmap" where
  "firstMappingBySyncEventId mappings =
    fold (\<lambda>m acc. if map_of acc (getMappingSyncEventId m) = None
        then AList.update (getMappingSyncEventId m) m acc else acc) mappings []"

definition buildAddOperations ::
  "MaterializedSyncableEvent list \<Rightarrow> EventMapping list \<Rightarrow> string set \<Rightarrow> SyncOperation list" where
  "buildAddOperations localEvents existingMappings staleIds =
    (let byId = firstMappingBySyncEventId existingMappings
     in concat (map (\<lambda>e.
          let existing = map_of byId (evId e); hasStale = (evId e \<in> staleIds)
          in if existing = None \<or> hasStale
             then [Add e (if hasStale then map_option mapId existing else None)]
             else []) localEvents))"

definition buildRemoveOperationsForMappings :: "EventMapping list \<Rightarrow> SyncOperation list" where
  "buildRemoveOperationsForMappings mappings =
    map (\<lambda>m. Remove (destinationEventUid m) (deleteIdentifier m) (startTime m) (Some (mapId m)))
      mappings"

definition resolveMappingDeleteId :: "EventMapping \<Rightarrow> (string, RemoteEvent) jsmap \<Rightarrow> string" where
  "resolveMappingDeleteId m remoteByMapping =
    (case map_of remoteByMapping (mapId m) of
       None \<Rightarrow> deleteIdentifier m | Some r \<Rightarrow> remDeleteId r)"

definition buildReplacementOperations ::
  "EventMapping list \<Rightarrow> (string, MaterializedSyncableEvent) jsmap \<Rightarrow> (string, RemoteEvent) jsmap
    \<Rightarrow> SyncOperation list" where
  "buildReplacementOperations mappings localById remoteByMapping =
    concat (map (\<lambda>m. case map_of localById (getMappingSyncEventId m) of
        None \<Rightarrow> []
      | Some e \<Rightarrow> [Replace e (mapId m) (destinationEventUid m)
          (resolveMappingDeleteId m remoteByMapping)]) mappings)"

fun getOperationEventTime :: "SyncOperation \<Rightarrow> instant" where
  "getOperationEventTime (Add e s) = startTime e"
| "getOperationEventTime (Replace e s u d) = startTime e"
| "getOperationEventTime (Remove u d t m) = t"

fun getOperationTypePriority :: "SyncOperation \<Rightarrow> int" where
  "getOperationTypePriority (Remove u d t m) = 0"
| "getOperationTypePriority _ = 1"

definition compareOperations :: "SyncOperation \<Rightarrow> SyncOperation \<Rightarrow> int" where
  "compareOperations a b =
    (let timeDiff = getOperationEventTime a - getOperationEventTime b
     in if timeDiff \<noteq> 0 then timeDiff
        else getOperationTypePriority a - getOperationTypePriority b)"

definition sortOperationsByTime :: "SyncOperation list \<Rightarrow> SyncOperation list" where
  "sortOperationsByTime ops = toSorted compareOperations ops"

definition mappingIsRetired :: "ReconciliationScope \<Rightarrow> string set \<Rightarrow> EventMapping \<Rightarrow> bool" where
  "mappingIsRetired scope localEventIds m =
    (let outsideCleanupWindow = (\<not> overlapsTimeWindow (startTime m) (endTime m)
           (timeMin (requestedWindow scope)) (timeMax (requestedWindow scope)));
         insideAuthoritativeWindow = isInsideSourceAuthoritativeWindow m (sourceCalendarId m) scope;
         isWithheldSeriesMapping =
           (case (mapEventStateId m, withheldSourceEventStateIds scope) of
              (Some s, Some withheld) \<Rightarrow> s \<in> withheld | _ \<Rightarrow> False)
     in outsideCleanupWindow
        \<or> insideAuthoritativeWindow \<and> \<not> isWithheldSeriesMapping
          \<and> getMappingSyncEventId m \<notin> localEventIds)"

definition remoteIsOrphan :: "ReconciliationScope \<Rightarrow> string set \<Rightarrow> RemoteEvent \<Rightarrow> bool" where
  "remoteIsOrphan scope mappedIdentities r =
    (if getRemoteIdentity (uid r) (remDeleteId r) \<in> mappedIdentities then False
     else if \<not> isKeeperEvent r then False
     else if authoritativeMappingIds scope \<noteq> None then False
     else (case authoritativeWindow scope of
         None \<Rightarrow> False
       | Some w \<Rightarrow> overlapsTimeWindow (startTime r) (endTime r) (timeMin w) (timeMax w)))"

definition buildRemoveOperations ::
  "EventMapping list \<Rightarrow> RemoteEvent list \<Rightarrow> string set \<Rightarrow> string set \<Rightarrow> (string, RemoteEvent) jsmap
    \<Rightarrow> ReconciliationScope \<Rightarrow> SyncOperation list" where
  "buildRemoveOperations existingMappings remoteEvents localEventIds mappedIdentities
      remoteByMapping scope =
    map (\<lambda>m. Remove (destinationEventUid m) (resolveMappingDeleteId m remoteByMapping)
        (startTime m) (Some (mapId m)))
      (filter (mappingIsRetired scope localEventIds) existingMappings)
    @ map (\<lambda>r. Remove (uid r) (remDeleteId r) (startTime r) None)
      (filter (remoteIsOrphan scope mappedIdentities) remoteEvents)"

section \<open>The whole computation\<close>

definition isDatabaseOnlyReassignment ::
  "(string \<Rightarrow> string) \<Rightarrow> (string, RemoteEvent) jsmap \<Rightarrow> OccurrenceReassignment \<Rightarrow> bool" where
  "isDatabaseOnlyReassignment sha256 remoteByMapping reassignment =
    (let (e, m) = reassignment in
     case map_of remoteByMapping (mapId m) of
       None \<Rightarrow> False
     | Some r \<Rightarrow>
         editableAvailability r \<noteq> None \<and> editableContentHash r \<noteq> None
         \<and> isSameSerializedSecond (startTime m) (startTime e)
         \<and> isSameSerializedSecond (endTime m) (endTime e)
         \<and> \<not> hasRemoteStateChanged sha256 m e r)"

definition mappingUpdateFor ::
  "(string \<Rightarrow> string) \<Rightarrow> MaterializedSyncableEvent \<Rightarrow> EventMapping \<Rightarrow> RemoteEvent \<Rightarrow> MappingUpdate" where
  "mappingUpdateFor sha256 e m r =
    \<lparr>startTime = startTime e, endTime = endTime e, updDeleteIdentifier = remDeleteId r,
     updId = mapId m, updSyncEventHash = createSyncEventContentHash sha256 e,
     updSyncEventId = evId e\<rparr>"

definition computeMappingUpdates ::
  "(string \<Rightarrow> string) \<Rightarrow> EventMapping list \<Rightarrow> OccurrenceReassignment list \<Rightarrow> string set
    \<Rightarrow> (string, RemoteEvent) jsmap \<Rightarrow> (string, MaterializedSyncableEvent) jsmap \<Rightarrow> MappingUpdate list" where
  "computeMappingUpdates sha256 standardMappings databaseOnly staleIds remoteByMapping localById =
    (let upgraded = fold (\<lambda>m acc.
           case (map_of remoteByMapping (mapId m), map_of localById (getMappingSyncEventId m)) of
             (Some r, Some e) \<Rightarrow>
               if mapId m \<notin> staleIds \<and> deleteIdentifier m = destinationEventUid m
                  \<and> remDeleteId r \<noteq> deleteIdentifier m
               then AList.update (mapId m) (mappingUpdateFor sha256 e m r) acc else acc
           | _ \<Rightarrow> acc) standardMappings [];
         reassigned = fold (\<lambda>(e, m) acc.
           case map_of remoteByMapping (mapId m) of
             None \<Rightarrow> acc
           | Some r \<Rightarrow> AList.update (mapId m) (mappingUpdateFor sha256 e m r) acc) databaseOnly upgraded
     in map snd reassigned)"

definition computeSyncOperations ::
  "(string \<Rightarrow> string) \<Rightarrow> (string \<Rightarrow> string \<Rightarrow> int) \<Rightarrow> MaterializedSyncableEvent list
    \<Rightarrow> EventMapping list \<Rightarrow> RemoteEvent list \<Rightarrow> ReconciliationScope
    \<Rightarrow> ComputeSyncOperationsResult" where
  "computeSyncOperations sha256 lc localEvents existingMappings remoteEvents scope =
    (let authoritativeLocalEvents = filter (\<lambda>e.
           isInsideSourceAuthoritativeWindow e (Some (evCalendarId e)) scope) localEvents;
         activeMappings = filter (\<lambda>m.
           isInsideSourceAuthoritativeWindow m (sourceCalendarId m) scope) existingMappings;
         localEventIds = set (map evId authoritativeLocalEvents);
         localById = jsmap_of (map (\<lambda>e. (evId e, e)) authoritativeLocalEvents);
         remoteByMapping = matchRemoteEventsToMappings existingMappings remoteEvents;
         reassignments = pairReidentifiedMaterializedOccurrences lc authoritativeLocalEvents
           activeMappings existingMappings;
         databaseOnly = filter (isDatabaseOnlyReassignment sha256 remoteByMapping) reassignments;
         remoteReassignments =
           filter (\<lambda>p. \<not> isDatabaseOnlyReassignment sha256 remoteByMapping p) reassignments;
         reassignedMappingIds = set (map (mapId \<circ> snd) reassignments);
         reassignedEventIds = set (map (evId \<circ> fst) reassignments);
         standardMappings = filter (\<lambda>m. mapId m \<notin> reassignedMappingIds) activeMappings;
         mappedIdentities =
           set (map (\<lambda>(_, r). getRemoteIdentity (uid r) (remDeleteId r)) remoteByMapping);
         stale = identifyStaleMappings sha256 standardMappings localEventIds remoteByMapping
           localById (authoritativeMappingIds scope);
         updates = computeMappingUpdates sha256 standardMappings databaseOnly
           (set (staleMappingIds stale)) remoteByMapping localById;
         replacedEventIds = set (map getMappingSyncEventId (staleRemoteMappings stale));
         addOperations = filter (\<lambda>oper. \<not> is_Add oper \<or> evId (opEvent oper) \<notin> replacedEventIds
             \<and> evId (opEvent oper) \<notin> reassignedEventIds)
           (buildAddOperations authoritativeLocalEvents existingMappings (staleMappedEventIds stale));
         replacementOperations =
           buildReplacementOperations (staleRemoteMappings stale) localById remoteByMapping;
         reassignmentOperations = map (\<lambda>(e, m). Replace e (mapId m) (destinationEventUid m)
           (resolveMappingDeleteId m remoteByMapping)) remoteReassignments;
         removeOperations = buildRemoveOperations
           (filter (\<lambda>m. mapId m \<notin> reassignedMappingIds) existingMappings) remoteEvents
           localEventIds mappedIdentities remoteByMapping scope
     in \<lparr>mappingUpdates = updates,
         operations = sortOperationsByTime
           (addOperations @ removeOperations @ replacementOperations @ reassignmentOperations),
         resStaleReasonCounts =
           (staleReasonCounts stale)\<lparr>occurrenceReassigned := length remoteReassignments\<rparr>,
         resStaleMappingIds = staleMappingIds stale @ map (mapId \<circ> snd) remoteReassignments\<rparr>)"

section \<open>Sample data for the witnesses\<close>

definition sample_mapping :: EventMapping where
  "sample_mapping = \<lparr>startTime = 0, endTime = 3600000, mapId = ''m1'', mapEventStateId = Some ''s1'',
    syncEventId = ''e1'', mapCalendarId = ''d1'', sourceCalendarId = Some ''c1'',
    destinationEventUid = ''u1@keeper'', deleteIdentifier = ''g1'', syncEventHash = None\<rparr>"

definition sample_remote :: RemoteEvent where
  "sample_remote = \<lparr>startTime = 0, endTime = 3600000, uid = ''u1@keeper'', remDeleteId = ''g1'',
    isKeeperEvent = True, editableContent = None, editableContentHash = None,
    editableAvailability = None, supportedAvailabilities = None\<rparr>"

definition sample_scope :: ReconciliationScope where
  "sample_scope = \<lparr>authoritativeMappingIds = None,
    authoritativeWindow = Some \<lparr>timeMin = -1000, timeMax = 7200000\<rparr>,
    authoritativeSourceWindows = None, configuredSourceCalendarIds = None,
    requestedWindow = \<lparr>timeMin = -1000, timeMax = 7200000\<rparr>,
    withheldSourceEventStateIds = None\<rparr>"

end
