(* ===== verification/Reassignment.thy ===== *)
theory Reassignment
  imports Reconcile "HOL-Library.Sublist"
begin

text \<open>
  Correctness of \<open>pairReidentifiedMaterializedOccurrences\<close>: the pairs it returns are a
  matching between unmapped occurrences and mappings whose occurrence is gone, within one owning
  series, and no series is left with an unpaired occurrence and an unpaired mapping.
\<close>

section \<open>Groups built by \<open>group_push\<close>\<close>

lemma groups_content:
  assumes "(k, ys) \<in> set (fold (\<lambda>x m. group_push (f x) x m) xs [])"
  shows "ys = filter (\<lambda>x. f x = k) xs"
proof -
  have "distinct (map fst (fold (\<lambda>x m. group_push (f x) x m) xs []))"
    by (rule distinct_fold_group_push) simp
  then have "map_of (fold (\<lambda>x m. group_push (f x) x m) xs []) k = Some ys"
    using assms by simp
  then show ?thesis
    using map_of_fold_group_push [of f xs "[]" k] by simp
qed

lemma groups_keys: "fst ` set (fold (\<lambda>x m. group_push (f x) x m) xs []) = f ` set xs"
  by (simp add: keys_fold_group_push)

lemma distinct_groups: "distinct (map fst (fold (\<lambda>x m. group_push (f x) x m) xs []))"
  by (rule distinct_fold_group_push) simp

lemma groups_lookup:
  "map_of (fold (\<lambda>x m. group_push (f x) x m) xs []) k =
    (if k \<in> f ` set xs then Some (filter (\<lambda>x. f x = k) xs) else None)"
proof (cases "map_of (fold (\<lambda>x m. group_push (f x) x m) xs []) k")
  case None
  then show ?thesis using groups_keys [of f xs] by (auto simp: map_of_eq_None_iff)
next
  case (Some ys)
  then have elem: "(k, ys) \<in> set (fold (\<lambda>x m. group_push (f x) x m) xs [])"
    by (rule map_of_SomeD)
  then have "k \<in> f ` set xs" using groups_keys [of f xs] by force
  then show ?thesis using Some groups_content [OF elem] by simp
qed

text \<open>The pool of all values of a grouped map.\<close>

definition pool :: "('k, 'v list) jsmap \<Rightarrow> 'v multiset" where
  "pool m = mset (concat (map snd m))"

lemma pool_simps [simp]: "pool [] = {#}" "pool ((k, v) # m) = mset v + pool m"
  by (simp_all add: pool_def)

lemma pool_update_new: "map_of m k = None \<Longrightarrow> pool (AList.update k v m) = pool m + mset v"
  by (induction m) (auto split: if_splits)

lemma pool_update:
  "distinct (map fst m) \<Longrightarrow> map_of m k = Some w \<Longrightarrow>
    pool (AList.update k v m) + mset w = pool m + mset v"
  by (induction m) (auto split: if_splits)

lemma pool_group_push:
  "distinct (map fst m) \<Longrightarrow> pool (group_push k x m) = add_mset x (pool m)"
proof (cases "map_of m k")
  case (Some w)
  assume "distinct (map fst m)"
  from pool_update [OF this Some, of "w @ [x]"] Some show ?thesis
    by (simp add: group_push_def)
qed (simp add: group_push_def pool_update_new)

lemma pool_groups:
  "distinct (map fst m) \<Longrightarrow> pool (fold (\<lambda>x m. group_push (f x) x m) xs m) = pool m + mset xs"
proof (induction xs arbitrary: m)
  case (Cons x xs)
  have "distinct (map fst (group_push (f x) x m))"
    using Cons.prems by (simp add: group_push_def distinct_update)
  then show ?case using Cons by (simp add: pool_group_push)
qed simp

section \<open>Exact slots\<close>

lemma pairExactSlots_fst: "subseq (map fst (pairExactSlots es slots)) es"
  by (induction es slots rule: pairExactSlots.induct)
    (auto simp: Let_def split: option.splits list.splits)

lemma pairExactSlots_snd:
  "distinct (map fst slots) \<Longrightarrow> mset (map snd (pairExactSlots es slots)) \<subseteq># pool slots"
proof (induction es slots rule: pairExactSlots.induct)
  case (2 e es slots)
  let ?k = "getSerializedSlotKey (startTime e) (endTime e)"
  show ?case
  proof (cases "\<exists>m ms. map_of slots ?k = Some (m # ms)")
    case True
    then obtain m ms where look: "map_of slots ?k = Some (m # ms)" by blast
    from pool_update [OF 2(4) look, of ms] have "pool slots = add_mset m (pool (AList.update ?k ms slots))"
      by simp
    moreover have "mset (map snd (pairExactSlots es (AList.update ?k ms slots)))
        \<subseteq># pool (AList.update ?k ms slots)"
      using 2(3) [OF refl look refl] 2(4) by (simp add: distinct_update)
    ultimately show ?thesis using look by simp
  next
    case False
    then show ?thesis using 2 by (auto simp: Let_def split: option.splits list.splits)
  qed
qed simp

section \<open>One owner\<close>

lemma distinct_submset:
  assumes "mset xs \<subseteq># mset ys" "distinct ys" shows "distinct xs"
proof -
  obtain zs where "mset ys = mset (xs @ zs)"
    using assms(1) by (metis ex_mset mset_append mset_subset_eq_exists_conv)
  then show ?thesis using assms(2) by (metis distinct_append mset_eq_imp_distinct_iff)
qed

lemma length_filter_notin:
  assumes "distinct (map f xs)" "ys \<subseteq> set xs" "finite ys"
  shows "length (filter (\<lambda>x. f x \<notin> f ` ys) xs) = length xs - card ys"
proof -
  have inj: "inj_on f (set xs)" and dx: "distinct xs" using assms(1) by (auto simp: distinct_map)
  have "set (filter (\<lambda>x. f x \<notin> f ` ys) xs) = set xs - ys"
    using inj assms(2) by (auto simp: inj_on_def)
  then show ?thesis
    using dx assms by (metis card_Diff_subset distinct_card distinct_filter)
qed

definition is_matching :: "OccurrenceReassignment list \<Rightarrow> bool" where
  "is_matching ps \<longleftrightarrow> distinct (map (evId \<circ> fst) ps) \<and> distinct (map (mapId \<circ> snd) ps)"

lemma is_matching_append_zip:
  assumes "is_matching xs" "distinct (map evId es)" "distinct (map mapId ms)"
    and "evId ` set es \<inter> (evId \<circ> fst) ` set xs = {}" "mapId ` set ms \<inter> (mapId \<circ> snd) ` set xs = {}"
  shows "is_matching (xs @ zip es ms)"
proof -
  have "map (evId \<circ> fst) (zip es ms) = take (length ms) (map evId es)"
    by (simp flip: map_map add: map_fst_zip_take take_map min.commute)
      (metis append_take_drop_id length_take linorder_le_cases min.absorb2 take_all)
  then have de: "distinct (map (evId \<circ> fst) (zip es ms))"
    using assms by (simp only: distinct_take)
  have "map (mapId \<circ> snd) (zip es ms) = take (length es) (map mapId ms)"
    by (simp flip: map_map add: map_snd_zip_take take_map min.commute)
      (metis append_take_drop_id length_take linorder_le_cases min.absorb2 take_all)
  then have dm: "distinct (map (mapId \<circ> snd) (zip es ms))"
    using assms by (simp only: distinct_take)
  have "(evId \<circ> fst) ` set (zip es ms) \<subseteq> evId ` set es" by (auto dest: set_zip_leftD)
  then have de': "(evId \<circ> fst) ` set xs \<inter> (evId \<circ> fst) ` set (zip es ms) = {}"
    using assms(4) by blast
  have "(mapId \<circ> snd) ` set (zip es ms) \<subseteq> mapId ` set ms" by (auto dest: set_zip_rightD)
  then have dm': "(mapId \<circ> snd) ` set xs \<inter> (mapId \<circ> snd) ` set (zip es ms) = {}"
    using assms(5) by blast
  from assms(1) de dm de' dm' show ?thesis
    unfolding is_matching_def map_append distinct_append set_map by (intro conjI) simp_all
qed

lemma pairOwnerOccurrences_matching:
  assumes ev: "distinct (map evId events)" and mp: "distinct (map mapId mappings)"
  shows "is_matching (pairOwnerOccurrences lc events mappings)"
    and "length (pairOwnerOccurrences lc events mappings) = min (length events) (length mappings)"
    and "p \<in> set (pairOwnerOccurrences lc events mappings) \<Longrightarrow>
      fst p \<in> set events \<and> snd p \<in> set mappings"
proof -
  define oe where "oe = toSorted (compareEventSlots lc) events"
  define om where "om = toSorted (compareMappingSlots lc) mappings"
  define ex where "ex = pairExactSlots oe
    (fold (\<lambda>m acc. group_push (getSerializedSlotKey (startTime m) (endTime m)) m acc) om [])"
  define re where "re = filter (\<lambda>e. evId e \<notin> evId ` set (map fst ex)) oe"
  define rm where "rm = filter (\<lambda>m. mapId m \<notin> mapId ` set (map snd ex)) om"
  have def: "pairOwnerOccurrences lc events mappings = ex @ zip re rm"
    by (simp add: pairOwnerOccurrences_def Let_def oe_def om_def ex_def re_def rm_def image_image)
  have doe: "distinct (map evId oe)" and dom: "distinct (map mapId om)"
    using ev mp by (simp_all add: oe_def om_def)
  have fs: "subseq (map fst ex) oe" by (simp add: ex_def pairExactSlots_fst)
  have sn: "mset (map snd ex) \<subseteq># mset om"
    unfolding ex_def
    using pairExactSlots_snd [OF distinct_groups, of oe] by (simp add: pool_groups)
  obtain N where N: "map fst ex = nths oe N" using fs subseq_conv_nths by blast
  have fsub: "set (map fst ex) \<subseteq> set oe" unfolding N by (rule set_nths_subset)
  have ssub: "set (map snd ex) \<subseteq> set om" using set_mset_mono [OF sn] by simp
  have dfe: "distinct (map evId (map fst ex))" using doe
    unfolding N by (simp add: distinct_nthsI flip: nths_map)
  have dse: "distinct (map mapId (map snd ex))"
    using image_mset_subseteq_mono [OF sn, of mapId] dom
    by (metis distinct_submset mset_map)
  show "is_matching (pairOwnerOccurrences lc events mappings)"
    unfolding def using dfe dse doe dom
    by (intro is_matching_append_zip)
      (auto simp: is_matching_def re_def rm_def distinct_map_filter image_image comp_def)
  have "length re = length oe - length ex"
    using length_filter_notin [OF doe fsub] distinct_card [OF distinct_map [THEN iffD1, THEN conjunct1, OF dfe]]
    by (simp add: re_def)
  moreover have "length rm = length om - length ex"
    using length_filter_notin [OF dom ssub] distinct_card [OF distinct_map [THEN iffD1, THEN conjunct1, OF dse]]
    by (simp add: rm_def)
  moreover have "length ex \<le> length oe" using list_emb_length [OF fs] by simp
  moreover have "length ex \<le> length om" using size_mset_mono [OF sn] by simp
  ultimately show "length (pairOwnerOccurrences lc events mappings) = min (length events) (length mappings)"
    by (auto simp: def oe_def om_def)
  show "p \<in> set (pairOwnerOccurrences lc events mappings) \<Longrightarrow> fst p \<in> set events \<and> snd p \<in> set mappings"
    using fsub ssub unfolding def
    by (cases p) (auto simp: re_def rm_def oe_def om_def dest: set_zip_leftD set_zip_rightD)
qed

section \<open>All owners\<close>

lemma distinct_map_concat_groups:
  assumes "distinct (map fst groups)"
    and "\<And>k ys. (k, ys) \<in> set groups \<Longrightarrow> distinct (map f (g k ys))"
    and "\<And>k ys y. (k, ys) \<in> set groups \<Longrightarrow> y \<in> set (g k ys) \<Longrightarrow> key (f y) = k"
  shows "distinct (map f (concat (map (\<lambda>(k, ys). g k ys) groups)))"
  using assms
proof (induction groups)
  case (Cons p groups)
  obtain k ys where p: "p = (k, ys)" by (cases p)
  have "f ` set (g k ys) \<inter> f ` set (concat (map (\<lambda>(k, ys). g k ys) groups)) = {}"
  proof (rule ccontr)
    assume "\<not> ?thesis"
    then obtain a b j zs where ab: "a \<in> set (g k ys)" "(j, zs) \<in> set groups" "b \<in> set (g j zs)" "f a = f b"
      by auto
    then have "k = j" using Cons.prems(3) [of k ys a] Cons.prems(3) [of j zs b] p by simp
    moreover have "k \<notin> fst ` set groups" using Cons.prems(1) p by simp
    ultimately show False using ab(2) by force
  qed
  moreover have "distinct (map f (concat (map (\<lambda>(k, ys). g k ys) groups)))"
    by (rule Cons.IH [OF _ Cons.prems(2) Cons.prems(3)]) (use Cons.prems(1) in auto)
  moreover have "distinct (map f (g k ys))" using Cons.prems(2) p by simp
  ultimately show ?case using p by simp
qed simp

text \<open>The occurrences of a series with no mapping, and its mappings with no occurrence.\<close>

definition new_events :: "MaterializedSyncableEvent list \<Rightarrow> EventMapping list \<Rightarrow> string \<Rightarrow> MaterializedSyncableEvent list" where
  "new_events events allMappings owner =
    filter (\<lambda>e. evEventStateId e = Some owner \<and> owner \<noteq> [] \<and> evId e \<notin> syncEventId ` set allMappings) events"

definition missing_mappings :: "MaterializedSyncableEvent list \<Rightarrow> EventMapping list \<Rightarrow> string \<Rightarrow> EventMapping list" where
  "missing_mappings events mappings owner =
    filter (\<lambda>m. mapEventStateId m = Some owner \<and> owner \<noteq> [] \<and> syncEventId m \<notin> evId ` set events) mappings"

lemma truthy_owner: "str_truthy v \<and> or_else v [] = k \<longleftrightarrow> v = Some k \<and> k \<noteq> []"
  by (cases v) auto

lemma newEventsByOwner_group:
  "(owner, evs) \<in> set (newEventsByOwner events allMappings) \<Longrightarrow> evs = new_events events allMappings owner"
  using truthy_owner unfolding newEventsByOwner_def
  by (drule_tac groups_content)
    (auto simp: new_events_def getMappingSyncEventId_def intro!: filter_cong)

lemma newEventsByOwner_keys:
  "owner \<in> fst ` set (newEventsByOwner events allMappings) \<longleftrightarrow> new_events events allMappings owner \<noteq> []"
  unfolding newEventsByOwner_def groups_keys
  by (auto simp: new_events_def filter_empty_conv getMappingSyncEventId_def image_iff
      elim!: str_truthyE)

lemma missingMappingsByOwner_lookup:
  "or_else (map_of (missingMappingsByOwner events mappings) owner) [] = missing_mappings events mappings owner"
  using truthy_owner unfolding missingMappingsByOwner_def map_of_fold_group_push
  by (auto simp: missing_mappings_def getMappingSyncEventId_def intro!: filter_cong)

lemma pairOwnerOccurrences_Nil [simp]: "pairOwnerOccurrences lc evs [] = []"
proof -
  have "pairExactSlots es [] = []" for es by (induction es) auto
  then show ?thesis by (simp add: pairOwnerOccurrences_def)
qed

lemma pairReidentified_eq:
  "pairReidentifiedMaterializedOccurrences lc events mappings allMappings =
    concat (map (\<lambda>(owner, evs). pairOwnerOccurrences lc evs (missing_mappings events mappings owner))
      (newEventsByOwner events allMappings))"
  unfolding pairReidentifiedMaterializedOccurrences_def Let_def
    missingMappingsByOwner_lookup [symmetric]
  by (intro arg_cong [of _ _ concat] map_cong) (auto split: option.splits)

lemma distinct_new_events: "distinct (map evId es) \<Longrightarrow> distinct (map evId (new_events es ms k))"
  by (simp add: new_events_def distinct_map_filter)

lemma distinct_missing: "distinct (map mapId ms) \<Longrightarrow> distinct (map mapId (missing_mappings es ms k))"
  by (simp add: missing_mappings_def distinct_map_filter)

lemma pairReidentified_pair:
  assumes "distinct (map evId es)" "distinct (map mapId ms)"
    and "(e, m) \<in> set (pairReidentifiedMaterializedOccurrences lc es ms ams)"
  shows "\<exists>owner. e \<in> set (new_events es ams owner) \<and> m \<in> set (missing_mappings es ms owner)"
proof -
  obtain k evs where k: "(k, evs) \<in> set (newEventsByOwner es ams)"
    "(e, m) \<in> set (pairOwnerOccurrences lc evs (missing_mappings es ms k))"
    using assms(3) by (auto simp: pairReidentified_eq)
  then have "evs = new_events es ams k" by (simp add: newEventsByOwner_group)
  with k show ?thesis
    using pairOwnerOccurrences_matching(3) [of evs "missing_mappings es ms k" "(e, m)" lc]
      distinct_new_events [OF assms(1)] distinct_missing [OF assms(2)] by auto
qed

lemma distinct_newEventsByOwner: "distinct (map fst (newEventsByOwner es ams))"
  by (simp add: newEventsByOwner_def distinct_groups)

lemma pairReidentified_matching:
  assumes "distinct (map evId es)" "distinct (map mapId ms)"
  shows "is_matching (pairReidentifiedMaterializedOccurrences lc es ms ams)"
proof -
  let ?g = "\<lambda>k evs. pairOwnerOccurrences lc evs (missing_mappings es ms k)"
  have m: "is_matching (?g k evs)"
    and e: "p \<in> set (?g k evs) \<Longrightarrow> fst p \<in> set (new_events es ams k) \<and> snd p \<in> set (missing_mappings es ms k)"
    if "(k, evs) \<in> set (newEventsByOwner es ams)" for k evs p
    using pairOwnerOccurrences_matching [of "new_events es ams k" "missing_mappings es ms k"]
      distinct_new_events [OF assms(1)] distinct_missing [OF assms(2)] newEventsByOwner_group [OF that]
    by auto
  define evOwner where "evOwner i = (case find (\<lambda>e. evId e = i) es of Some e \<Rightarrow> or_else (evEventStateId e) [] | None \<Rightarrow> [])" for i
  define mapOwner where "mapOwner i = (case find (\<lambda>e. mapId e = i) ms of Some e \<Rightarrow> or_else (mapEventStateId e) [] | None \<Rightarrow> [])" for i
  have fe: "find (\<lambda>x. evId x = evId e) es = Some e" if "e \<in> set es" for e
    using assms(1) that by (induction es) auto
  have fm: "find (\<lambda>x. mapId x = mapId m) ms = Some m" if "m \<in> set ms" for m
    using assms(2) that by (induction ms) auto
  have "distinct (map (evId \<circ> fst) (concat (map (\<lambda>(k, evs). ?g k evs) (newEventsByOwner es ams))))"
  proof (rule distinct_map_concat_groups [OF distinct_newEventsByOwner, where key = evOwner])
    fix k evs p assume "(k, evs) \<in> set (newEventsByOwner es ams)" "p \<in> set (?g k evs)"
    from e [OF this] show "evOwner ((evId \<circ> fst) p) = k"
      by (auto simp: new_events_def evOwner_def fe)
  qed (use m is_matching_def in blast)
  moreover have "distinct (map (mapId \<circ> snd) (concat (map (\<lambda>(k, evs). ?g k evs) (newEventsByOwner es ams))))"
  proof (rule distinct_map_concat_groups [OF distinct_newEventsByOwner, where key = mapOwner])
    fix k evs p assume "(k, evs) \<in> set (newEventsByOwner es ams)" "p \<in> set (?g k evs)"
    from e [OF this] show "mapOwner ((mapId \<circ> snd) p) = k"
      by (auto simp: missing_mappings_def mapOwner_def fm)
  qed (use m is_matching_def in blast)
  ultimately show ?thesis
    by (simp add: is_matching_def pairReidentified_eq)
qed

lemma length_filter_groups:
  assumes "distinct (map fst groups)" "(k, ys) \<in> set groups"
    and "\<And>j zs y. (j, zs) \<in> set groups \<Longrightarrow> y \<in> set (g j zs) \<Longrightarrow> key y = j"
  shows "filter (\<lambda>y. key y = k) (concat (map (\<lambda>(k, ys). g k ys) groups)) = g k ys"
  using assms
proof (induction groups)
  case (Cons p groups)
  obtain j zs where p: "p = (j, zs)" by (cases p)
  have key: "\<And>j zs y. (j, zs) \<in> set groups \<Longrightarrow> y \<in> set (g j zs) \<Longrightarrow> key y = j"
    using Cons.prems(3) by (metis list.set_intros(2))
  show ?case
  proof (cases "j = k")
    case True
    then have "zs = ys" "\<forall>(j, zs) \<in> set groups. j \<noteq> k" using Cons.prems p by force+
    then have "filter (\<lambda>y. key y = k) (concat (map (\<lambda>(k, ys). g k ys) groups)) = []"
      using key by (auto simp: filter_empty_conv)
    moreover have "filter (\<lambda>y. key y = k) (g k ys) = g k ys"
      using Cons.prems(2,3) by (auto simp: filter_id_conv)
    ultimately show ?thesis using p True \<open>zs = ys\<close> by simp
  next
    case False
    then have "filter (\<lambda>y. key y = k) (g j zs) = []"
      using Cons.prems(3) [of j zs] p by (auto simp: filter_empty_conv)
    moreover have "(k, ys) \<in> set groups" using False Cons.prems(2) p by auto
    ultimately show ?thesis using p Cons.IH [OF _ _ key] Cons.prems(1) by auto
  qed
qed simp

lemma pairReidentified_count:
  assumes "distinct (map evId es)" "distinct (map mapId ms)"
  shows "length (filter (\<lambda>p. evEventStateId (fst p) = Some owner)
      (pairReidentifiedMaterializedOccurrences lc es ms ams))
    = min (length (new_events es ams owner)) (length (missing_mappings es ms owner))"
proof (cases "new_events es ams owner = []")
  case True
  then have "filter (\<lambda>p. evEventStateId (fst p) = Some owner)
      (pairReidentifiedMaterializedOccurrences lc es ms ams) = []"
    using pairReidentified_pair [OF assms] by (fastforce simp: filter_empty_conv new_events_def)
  then show ?thesis using True by simp
next
  case False
  let ?g = "\<lambda>k evs. pairOwnerOccurrences lc evs (missing_mappings es ms k)"
  have mem: "(owner, new_events es ams owner) \<in> set (newEventsByOwner es ams)"
  proof -
    obtain evs where "(owner, evs) \<in> set (newEventsByOwner es ams)"
      using False newEventsByOwner_keys [of owner es ams] by force
    then show ?thesis using newEventsByOwner_group by metis
  qed
  have key: "or_else (evEventStateId (fst p)) [] = k"
    if "(k, evs) \<in> set (newEventsByOwner es ams)" "p \<in> set (?g k evs)" for k evs p
  proof -
    have "fst p \<in> set (new_events es ams k)"
      using pairOwnerOccurrences_matching(3) [OF distinct_new_events [OF assms(1)] distinct_missing [OF assms(2)]]
        newEventsByOwner_group [OF that(1)] that(2) by blast
    then show ?thesis by (auto simp: new_events_def)
  qed
  have "filter (\<lambda>p. evEventStateId (fst p) = Some owner) (pairReidentifiedMaterializedOccurrences lc es ms ams)
     = filter (\<lambda>p. or_else (evEventStateId (fst p)) [] = owner) (pairReidentifiedMaterializedOccurrences lc es ms ams)"
    using pairReidentified_pair [OF assms] by (fastforce intro!: filter_cong simp: new_events_def)
  also have "\<dots> = ?g owner (new_events es ams owner)"
    unfolding pairReidentified_eq by (rule length_filter_groups [OF distinct_newEventsByOwner mem key])
  finally show ?thesis
    by (simp add: pairOwnerOccurrences_matching distinct_new_events distinct_missing assms)
qed

text \<open>With unique event ids and unique mapping ids, \<open>pairReidentifiedMaterializedOccurrences\<close>
  returns a matching: no occurrence and no mapping is used twice, every pair joins an unmapped
  occurrence and a mapping without an occurrence of one and the same non-empty series, and for
  every series as many pairs are made as the smaller of the two sides allows.\<close>

theorem reassignments_are_a_maximal_matching:
  fixes lc :: "string \<Rightarrow> string \<Rightarrow> int" and allMappings :: "EventMapping list"
    and localEvents :: "MaterializedSyncableEvent list" and reassignable :: "EventMapping list"
  assumes "distinct (map evId localEvents)" "distinct (map mapId reassignable)"
  defines "pairs \<equiv> pairReidentifiedMaterializedOccurrences lc localEvents reassignable allMappings"
  shows "distinct (map (evId \<circ> fst) pairs) \<and> distinct (map (mapId \<circ> snd) pairs)
    \<and> (\<forall>(e, m) \<in> set pairs. e \<in> set localEvents \<and> m \<in> set reassignable
        \<and> str_truthy (evEventStateId e) \<and> mapEventStateId m = evEventStateId e
        \<and> (\<forall>m' \<in> set allMappings. syncEventId m' \<noteq> evId e)
        \<and> (\<forall>e' \<in> set localEvents. evId e' \<noteq> syncEventId m))
    \<and> (\<forall>owner. length (filter (\<lambda>p. evEventStateId (fst p) = Some owner) pairs)
        = min (length (new_events localEvents allMappings owner))
              (length (missing_mappings localEvents reassignable owner)))"
proof (intro conjI ballI allI)
  fix p assume "p \<in> set pairs"
  then obtain e m where p: "p = (e, m)" "(e, m) \<in> set pairs" by (metis surj_pair)
  from pairReidentified_pair [OF assms(1,2) p(2) [unfolded pairs_def]] p(1)
  show "case p of (e, m) \<Rightarrow> e \<in> set localEvents \<and> m \<in> set reassignable
        \<and> str_truthy (evEventStateId e) \<and> mapEventStateId m = evEventStateId e
        \<and> (\<forall>m' \<in> set allMappings. syncEventId m' \<noteq> evId e)
        \<and> (\<forall>e' \<in> set localEvents. evId e' \<noteq> syncEventId m)"
    by (force simp: new_events_def missing_mappings_def)
qed (use pairReidentified_matching [OF assms(1,2)] pairReidentified_count [OF assms(1,2)] in
  \<open>auto simp: pairs_def is_matching_def\<close>)

theorem reassignments_are_a_maximal_matching_witness:
  "length (filter (\<lambda>p. evEventStateId (fst p) = Some ''s1'')
    (pairReidentifiedMaterializedOccurrences (\<lambda>_ _. 0) [sample_event]
      [sample_mapping\<lparr>syncEventId := ''e0''\<rparr>] [sample_mapping\<lparr>syncEventId := ''e0''\<rparr>])) = 1"
  using reassignments_are_a_maximal_matching [of "[sample_event]"
    "[sample_mapping\<lparr>syncEventId := ''e0''\<rparr>]" "\<lambda>_ _. 0" "[sample_mapping\<lparr>syncEventId := ''e0''\<rparr>]"]
  by (simp add: new_events_def missing_mappings_def sample_event_def sample_mapping_def)

end
