(* ===== verification/Reconcile_Correct.thy ===== *)
theory Reconcile_Correct
  imports Reassignment
begin

text \<open>
  Properties of \<open>computeSyncOperations\<close>: which operations it emits and in which order, what
  it may delete, that every authoritative occurrence ends up mirrored, that no mapping is the
  target of two operations, that mirrors of withheld series survive, and that a destination
  which already agrees with its sources is left alone.
\<close>

section \<open>The parts of a run\<close>

definition auth_events :: "ReconciliationScope \<Rightarrow> MaterializedSyncableEvent list \<Rightarrow> MaterializedSyncableEvent list" where
  "auth_events scope es = filter (\<lambda>e. isInsideSourceAuthoritativeWindow e (Some (evCalendarId e)) scope) es"

definition active_mappings :: "ReconciliationScope \<Rightarrow> EventMapping list \<Rightarrow> EventMapping list" where
  "active_mappings scope ms = filter (\<lambda>m. isInsideSourceAuthoritativeWindow m (sourceCalendarId m) scope) ms"

definition reassigned :: "(string \<Rightarrow> string \<Rightarrow> int) \<Rightarrow> MaterializedSyncableEvent list \<Rightarrow> EventMapping list
    \<Rightarrow> ReconciliationScope \<Rightarrow> OccurrenceReassignment list" where
  "reassigned lc es ms scope =
    pairReidentifiedMaterializedOccurrences lc (auth_events scope es) (active_mappings scope ms) ms"

definition standard_mappings :: "(string \<Rightarrow> string \<Rightarrow> int) \<Rightarrow> MaterializedSyncableEvent list \<Rightarrow> EventMapping list
    \<Rightarrow> ReconciliationScope \<Rightarrow> EventMapping list" where
  "standard_mappings lc es ms scope =
    filter (\<lambda>m. mapId m \<notin> (mapId \<circ> snd) ` set (reassigned lc es ms scope)) (active_mappings scope ms)"

definition local_by_id :: "ReconciliationScope \<Rightarrow> MaterializedSyncableEvent list
    \<Rightarrow> (string, MaterializedSyncableEvent) jsmap" where
  "local_by_id scope es = jsmap_of (map (\<lambda>e. (evId e, e)) (auth_events scope es))"

text \<open>When \<open>identifyStaleMappings\<close> marks a mapping.\<close>

definition is_stale :: "(string \<Rightarrow> string) \<Rightarrow> string set \<Rightarrow> (string, RemoteEvent) jsmap
    \<Rightarrow> (string, MaterializedSyncableEvent) jsmap \<Rightarrow> string set option \<Rightarrow> EventMapping \<Rightarrow> bool" where
  "is_stale sha256 ids rby lby auth m \<longleftrightarrow> syncEventId m \<in> ids \<and>
    (case map_of rby (mapId m) of
       None \<Rightarrow> (case auth of None \<Rightarrow> True | Some a \<Rightarrow> mapId m \<in> a)
     | Some r \<Rightarrow> (case map_of lby (syncEventId m) of None \<Rightarrow> False
         | Some e \<Rightarrow> syncEventHash m \<noteq> Some (createSyncEventContentHash sha256 e)
             \<or> hasRemoteStateChanged sha256 m e r))"

lemma markStale_simps [simp]:
  "staleRemoteMappings (markStale m acc) = staleRemoteMappings acc @ [m]"
  "staleMappingIds (markStale m acc) = staleMappingIds acc @ [mapId m]"
  "staleMappedEventIds (markStale m acc) = insert (syncEventId m) (staleMappedEventIds acc)"
  by (simp_all add: markStale_def getMappingSyncEventId_def)

lemma identifyStaleMapping_step:
  "staleRemoteMappings (identifyStaleMapping sha256 ids rby lby auth m acc) =
    staleRemoteMappings acc @ (if is_stale sha256 ids rby lby auth m then [m] else [])"
  "staleMappingIds (identifyStaleMapping sha256 ids rby lby auth m acc) =
    staleMappingIds acc @ (if is_stale sha256 ids rby lby auth m then [mapId m] else [])"
  "staleMappedEventIds (identifyStaleMapping sha256 ids rby lby auth m acc) =
    staleMappedEventIds acc \<union> (if is_stale sha256 ids rby lby auth m then {syncEventId m} else {})"
  by (auto simp: identifyStaleMapping_def is_stale_def Let_def getMappingSyncEventId_def
      hasRemoteStateChanged_def split: option.splits)

lemma identifyStaleMappings_eq:
  fixes sha256 ids rby lby auth ms
  defines "st \<equiv> identifyStaleMappings sha256 ms ids rby lby auth"
    and "marked \<equiv> filter (is_stale sha256 ids rby lby auth) ms"
  shows "staleRemoteMappings st = marked" "staleMappingIds st = map mapId marked"
    "staleMappedEventIds st = syncEventId ` set marked"
proof -
  have "staleRemoteMappings (fold (identifyStaleMapping sha256 ids rby lby auth) ms acc) =
      staleRemoteMappings acc @ filter (is_stale sha256 ids rby lby auth) ms"
    "staleMappingIds (fold (identifyStaleMapping sha256 ids rby lby auth) ms acc) =
      staleMappingIds acc @ map mapId (filter (is_stale sha256 ids rby lby auth) ms)"
    "staleMappedEventIds (fold (identifyStaleMapping sha256 ids rby lby auth) ms acc) =
      staleMappedEventIds acc \<union> syncEventId ` set (filter (is_stale sha256 ids rby lby auth) ms)" for acc
    by (induction ms arbitrary: acc) (auto simp: identifyStaleMapping_step)
  then show "staleRemoteMappings st = marked" "staleMappingIds st = map mapId marked"
    "staleMappedEventIds st = syncEventId ` set marked"
    by (simp_all add: st_def marked_def identifyStaleMappings_def)
qed

definition stale_in_run :: "(string \<Rightarrow> string) \<Rightarrow> (string \<Rightarrow> string \<Rightarrow> int) \<Rightarrow> MaterializedSyncableEvent list
    \<Rightarrow> EventMapping list \<Rightarrow> RemoteEvent list \<Rightarrow> ReconciliationScope \<Rightarrow> EventMapping list" where
  "stale_in_run sha256 lc es ms rs scope =
    filter (is_stale sha256 (evId ` set (auth_events scope es)) (matchRemoteEventsToMappings ms rs)
      (local_by_id scope es) (authoritativeMappingIds scope)) (standard_mappings lc es ms scope)"

lemma firstMapping_None: "map_of (firstMappingBySyncEventId ms) i = None \<longleftrightarrow> i \<notin> syncEventId ` set ms"
proof -
  have "map_of (fold (\<lambda>m acc. if map_of acc (getMappingSyncEventId m) = None
        then AList.update (getMappingSyncEventId m) m acc else acc) ms acc) i = None
     \<longleftrightarrow> map_of acc i = None \<and> i \<notin> syncEventId ` set ms" for acc
    by (induction ms arbitrary: acc) (auto simp: getMappingSyncEventId_def update_conv')
  then show ?thesis by (simp add: firstMappingBySyncEventId_def)
qed

text \<open>The four groups of operations, before they are sorted.\<close>

definition add_ops where
  "add_ops lc es ms scope = map (\<lambda>e. Add e None)
    (filter (\<lambda>e. evId e \<notin> syncEventId ` set ms \<and> evId e \<notin> (evId \<circ> fst) ` set (reassigned lc es ms scope))
      (auth_events scope es))"

definition remove_ops where
  "remove_ops lc es ms rs scope = buildRemoveOperations
    (filter (\<lambda>m. mapId m \<notin> (mapId \<circ> snd) ` set (reassigned lc es ms scope)) ms) rs
    (evId ` set (auth_events scope es))
    ((\<lambda>(_, r). getRemoteIdentity (uid r) (remDeleteId r)) ` set (matchRemoteEventsToMappings ms rs))
    (matchRemoteEventsToMappings ms rs) scope"

definition replacement_ops where
  "replacement_ops sha256 lc es ms rs scope = buildReplacementOperations
    (stale_in_run sha256 lc es ms rs scope) (local_by_id scope es) (matchRemoteEventsToMappings ms rs)"

definition reassignment_ops where
  "reassignment_ops sha256 lc es ms rs scope =
    map (\<lambda>(e, m). Replace e (mapId m) (destinationEventUid m)
        (resolveMappingDeleteId m (matchRemoteEventsToMappings ms rs)))
      (filter (\<lambda>p. \<not> isDatabaseOnlyReassignment sha256 (matchRemoteEventsToMappings ms rs) p)
        (reassigned lc es ms scope))"

lemma add_filter:
  assumes "S \<subseteq> syncEventId ` set ms"
  shows "filter (\<lambda>oper. \<not> is_Add oper \<or> evId (opEvent oper) \<notin> S \<and> evId (opEvent oper) \<notin> R)
     (buildAddOperations es ms S) =
   map (\<lambda>e. Add e None) (filter (\<lambda>e. evId e \<notin> syncEventId ` set ms \<and> evId e \<notin> R) es)"
  using assms
  by (induction es) (auto simp: buildAddOperations_def Let_def firstMapping_None)

lemma operations_eq:
  "operations (computeSyncOperations sha256 lc es ms rs scope) = sortOperationsByTime
    (add_ops lc es ms scope @ remove_ops lc es ms rs scope
     @ replacement_ops sha256 lc es ms rs scope @ reassignment_ops sha256 lc es ms rs scope)"
proof -
  have sub: "syncEventId ` set (stale_in_run sha256 lc es ms rs scope) \<subseteq> syncEventId ` set ms"
    by (auto simp: stale_in_run_def standard_mappings_def active_mappings_def)
  show ?thesis
    unfolding computeSyncOperations_def Let_def ComputeSyncOperationsResult.simps
      auth_events_def [symmetric] active_mappings_def [symmetric] reassigned_def [symmetric]
      set_map standard_mappings_def [symmetric] local_by_id_def [symmetric]
      identifyStaleMappings_eq stale_in_run_def [symmetric] getMappingSyncEventId_def
      add_filter [OF sub]
    by (simp add: add_ops_def remove_ops_def replacement_ops_def reassignment_ops_def)
qed

section \<open>Order\<close>

interpretation op_order: js_comparator compareOperations
  by unfold_locales (auto simp: compareOperations_def Let_def split: if_splits)

text \<open>\<open>sortOperationsByTime\<close> only reorders: the result is a permutation of the input,
  ordered by event time with removals before writes at equal times, and operations of equal time
  and kind keep the order in which they were built.\<close>

theorem operations_sorted_stably:
  "mset (sortOperationsByTime ops) = mset ops
   \<and> sorted_wrt (\<lambda>a b. getOperationEventTime a < getOperationEventTime b
       \<or> getOperationEventTime a = getOperationEventTime b
         \<and> getOperationTypePriority a \<le> getOperationTypePriority b) (sortOperationsByTime ops)
   \<and> filter (\<lambda>a. getOperationEventTime a = t \<and> getOperationTypePriority a = k) (sortOperationsByTime ops)
     = filter (\<lambda>a. getOperationEventTime a = t \<and> getOperationTypePriority a = k) ops"
proof (intro conjI)
  show "sorted_wrt (\<lambda>a b. getOperationEventTime a < getOperationEventTime b
       \<or> getOperationEventTime a = getOperationEventTime b
         \<and> getOperationTypePriority a \<le> getOperationTypePriority b) (sortOperationsByTime ops)"
    using op_order.toSorted_sorted [of ops] unfolding sortOperationsByTime_def
    by (rule sorted_wrt_mono_rel [rotated])
      (auto simp: compareOperations_def Let_def split: if_splits)
qed (auto simp: sortOperationsByTime_def compareOperations_def intro!: op_order.toSorted_stable)

section \<open>Membership\<close>

lemma local_by_id_Some: "map_of (local_by_id scope es) i = Some e \<Longrightarrow> e \<in> set (auth_events scope es) \<and> evId e = i"
  unfolding local_by_id_def by (rule map_of_jsmap_of_keyed_Some)

lemma local_by_id_None: "map_of (local_by_id scope es) i = None \<longleftrightarrow> i \<notin> evId ` set (auth_events scope es)"
  unfolding local_by_id_def by (rule map_of_jsmap_of_keyed_None)

lemma operations_cases:
  assumes "oper \<in> set (operations (computeSyncOperations sha256 lc es ms rs scope))"
  obtains (added) e where "oper = Add e None" "e \<in> set (auth_events scope es)"
      "evId e \<notin> syncEventId ` set ms" "evId e \<notin> (evId \<circ> fst) ` set (reassigned lc es ms scope)"
  | (retired) m where "m \<in> set ms" "mapId m \<notin> (mapId \<circ> snd) ` set (reassigned lc es ms scope)"
      "mappingIsRetired scope (evId ` set (auth_events scope es)) m"
      "oper = Remove (destinationEventUid m)
        (resolveMappingDeleteId m (matchRemoteEventsToMappings ms rs)) (startTime m) (Some (mapId m))"
  | (orphan) r where "r \<in> set rs" "oper = Remove (uid r) (remDeleteId r) (startTime r) None"
      "remoteIsOrphan scope ((\<lambda>(_, r). getRemoteIdentity (uid r) (remDeleteId r))
        ` set (matchRemoteEventsToMappings ms rs)) r"
  | (replaced) m e where "m \<in> set (stale_in_run sha256 lc es ms rs scope)"
      "map_of (local_by_id scope es) (syncEventId m) = Some e"
      "oper = Replace e (mapId m) (destinationEventUid m)
        (resolveMappingDeleteId m (matchRemoteEventsToMappings ms rs))"
  | (moved) e m where "(e, m) \<in> set (reassigned lc es ms scope)"
      "\<not> isDatabaseOnlyReassignment sha256 (matchRemoteEventsToMappings ms rs) (e, m)"
      "oper = Replace e (mapId m) (destinationEventUid m)
        (resolveMappingDeleteId m (matchRemoteEventsToMappings ms rs))"
proof -
  consider "oper \<in> set (add_ops lc es ms scope)" | "oper \<in> set (remove_ops lc es ms rs scope)"
    | "oper \<in> set (replacement_ops sha256 lc es ms rs scope)"
    | "oper \<in> set (reassignment_ops sha256 lc es ms rs scope)"
    using assms by (auto simp: operations_eq sortOperationsByTime_def)
  then show thesis
  proof cases
    case 1
    then show thesis using added by (auto simp: add_ops_def)
  next
    case 2
    then show thesis using retired orphan by (auto simp: remove_ops_def buildRemoveOperations_def)
  next
    case 3
    then show thesis using replaced
      by (auto simp: replacement_ops_def buildReplacementOperations_def getMappingSyncEventId_def
          split: option.splits)
  next
    case 4
    then show thesis using moved by (auto simp: reassignment_ops_def)
  qed
qed

section \<open>What is removed\<close>

text \<open>C1: A removal is only ever emitted for Keeper's own copies: either for a recorded mapping, with
  that mapping's destination uid, which is outside the requested window, or inside the authority
  of its source, not of a withheld series, and without an authoritative local event; or for a
  remote event that carries Keeper's mark, matches no mapping, lies in the authoritative window,
  and was listed by a full read.\<close>

theorem removals_are_justified:
  assumes "Remove u d t i \<in> set (operations (computeSyncOperations sha256 lc es ms rs scope))"
  shows "(\<exists>m \<in> set ms. i = Some (mapId m) \<and> u = destinationEventUid m \<and> t = startTime m
      \<and> (\<not> overlapsTimeWindow (startTime m) (endTime m)
            (timeMin (requestedWindow scope)) (timeMax (requestedWindow scope))
         \<or> isInsideSourceAuthoritativeWindow m (sourceCalendarId m) scope
           \<and> \<not> (\<exists>s w. mapEventStateId m = Some s \<and> withheldSourceEventStateIds scope = Some w \<and> s \<in> w)
           \<and> \<not> (\<exists>e \<in> set es. evId e = syncEventId m
                 \<and> isInsideSourceAuthoritativeWindow e (Some (evCalendarId e)) scope)))
    \<or> (\<exists>r \<in> set rs. i = None \<and> u = uid r \<and> d = remDeleteId r \<and> isKeeperEvent r
        \<and> authoritativeMappingIds scope = None
        \<and> (\<exists>w. authoritativeWindow scope = Some w
             \<and> overlapsTimeWindow (startTime r) (endTime r) (timeMin w) (timeMax w))
        \<and> \<not> (\<exists>(k, r') \<in> set (matchRemoteEventsToMappings ms rs).
               getRemoteIdentity (uid r') (remDeleteId r') = getRemoteIdentity (uid r) (remDeleteId r)))"
  using assms
proof (cases rule: operations_cases)
  case (retired m)
  then show ?thesis
    by (intro disjI1 bexI [of _ m])
      (auto simp: mappingIsRetired_def Let_def getMappingSyncEventId_def auth_events_def image_iff
        split: option.splits)
next
  case (orphan r)
  then show ?thesis
    by (intro disjI2 bexI [of _ r]) (auto simp: remoteIsOrphan_def image_iff split_beta split: if_splits option.splits)
qed auto

theorem removals_are_justified_witness:
  "Remove ''u1@keeper'' ''g1'' 0 (Some ''m1'') \<in> set (operations
      (computeSyncOperations id (\<lambda>_ _. 0) [] [sample_mapping] [sample_remote] sample_scope))
   \<and> isInsideSourceAuthoritativeWindow sample_mapping (sourceCalendarId sample_mapping) sample_scope"
proof
  have *: "map_of (matchRemoteEventsToMappings [sample_mapping] [sample_remote]) ''m1'' = Some sample_remote"
    by (simp add: matchRemoteEventsToMappings_def matchRemoteEvent_def sample_mapping_def sample_remote_def
        jsmap_of_def group_push_def getRemoteIdentity_def)
  show 1: "Remove ''u1@keeper'' ''g1'' 0 (Some ''m1'') \<in> set (operations
      (computeSyncOperations id (\<lambda>_ _. 0) [] [sample_mapping] [sample_remote] sample_scope))"
    using * by (simp add: operations_eq sortOperationsByTime_def remove_ops_def buildRemoveOperations_def
        reassigned_def auth_events_def pairReidentified_eq newEventsByOwner_def resolveMappingDeleteId_def
        mappingIsRetired_def isInsideSourceAuthoritativeWindow_def getSourceAuthoritativeWindow_def
        sample_scope_def sample_mapping_def sample_remote_def overlapsTimeWindow_def)
  show "isInsideSourceAuthoritativeWindow sample_mapping (sourceCalendarId sample_mapping) sample_scope"
    using removals_are_justified [OF 1]
    by (auto simp: sample_mapping_def sample_scope_def overlapsTimeWindow_def)
qed

text \<open>The mirrors of a series that was withheld for exceeding the occurrence budget are never
  removed while the requested window still covers them.\<close>

theorem withheld_mirrors_are_kept:
  assumes "distinct (map mapId ms)" "m \<in> set ms"
    and "mapEventStateId m = Some s" "withheldSourceEventStateIds scope = Some withheld" "s \<in> withheld"
    and "overlapsTimeWindow (startTime m) (endTime m)
      (timeMin (requestedWindow scope)) (timeMax (requestedWindow scope))"
  shows "Remove u d t (Some (mapId m)) \<notin> set (operations (computeSyncOperations sha256 lc es ms rs scope))"
proof
  assume "Remove u d t (Some (mapId m)) \<in> set (operations (computeSyncOperations sha256 lc es ms rs scope))"
  then show False
  proof (cases rule: operations_cases)
    case (retired m')
    then have "m' = m" using assms(1,2) by (auto simp: distinct_map inj_on_def)
    then show False using retired assms by (auto simp: mappingIsRetired_def Let_def)
  qed auto
qed

theorem withheld_mirrors_are_kept_witness:
  "Remove ''u1@keeper'' ''g1'' 0 (Some (mapId sample_mapping)) \<notin> set (operations
    (computeSyncOperations id (\<lambda>_ _. 0) [] [sample_mapping] [sample_remote]
      (sample_scope\<lparr>withheldSourceEventStateIds := Some {''s1''}\<rparr>)))"
  by (rule withheld_mirrors_are_kept [where s = "''s1''" and withheld = "{''s1''}"])
    (simp_all add: sample_mapping_def sample_scope_def overlapsTimeWindow_def)

section \<open>What is written\<close>

lemma reassigned_pair:
  assumes "distinct (map evId es)" "distinct (map mapId ms)" "(e, m) \<in> set (reassigned lc es ms scope)"
  shows "e \<in> set (auth_events scope es)" "m \<in> set (active_mappings scope ms)"
    "evId e \<notin> syncEventId ` set ms" "syncEventId m \<notin> evId ` set (auth_events scope es)"
proof -
  have "distinct (map evId (auth_events scope es))" "distinct (map mapId (active_mappings scope ms))"
    using assms by (simp_all add: auth_events_def active_mappings_def distinct_map_filter)
  from pairReidentified_pair [OF this assms(3) [unfolded reassigned_def]]
  show "e \<in> set (auth_events scope es)" "m \<in> set (active_mappings scope ms)"
    "evId e \<notin> syncEventId ` set ms" "syncEventId m \<notin> evId ` set (auth_events scope es)"
    by (auto simp: new_events_def missing_mappings_def)
qed

lemma reassigned_matching:
  assumes "distinct (map evId es)" "distinct (map mapId ms)"
  shows "is_matching (reassigned lc es ms scope)"
  unfolding reassigned_def
  by (rule pairReidentified_matching)
    (use assms in \<open>simp_all add: auth_events_def active_mappings_def distinct_map_filter\<close>)

definition database_only where
  "database_only sha256 lc es ms rs scope = filter
    (isDatabaseOnlyReassignment sha256 (matchRemoteEventsToMappings ms rs)) (reassigned lc es ms scope)"

lemma mappingUpdates_eq:
  "mappingUpdates (computeSyncOperations sha256 lc es ms rs scope) =
    computeMappingUpdates sha256 (standard_mappings lc es ms scope) (database_only sha256 lc es ms rs scope)
      (mapId ` set (stale_in_run sha256 lc es ms rs scope)) (matchRemoteEventsToMappings ms rs) (local_by_id scope es)"
  unfolding computeSyncOperations_def Let_def ComputeSyncOperationsResult.simps
      auth_events_def [symmetric] active_mappings_def [symmetric] reassigned_def [symmetric]
      set_map standard_mappings_def [symmetric] local_by_id_def [symmetric]
      identifyStaleMappings_eq stale_in_run_def [symmetric] database_only_def [symmetric] ..

lemma fold_database_only:
  assumes "\<forall>p \<in> set ps. map_of rby (mapId (snd p)) \<noteq> None"
  shows "fold (\<lambda>(e, m) acc. case map_of rby (mapId m) of None \<Rightarrow> acc
      | Some r \<Rightarrow> AList.update (mapId m) (mappingUpdateFor sha256 e m r) acc) ps acc =
    fold (\<lambda>(k, v) acc. AList.update k v acc)
      (map (\<lambda>(e, m). (mapId m, mappingUpdateFor sha256 e m (the (map_of rby (mapId m))))) ps) acc"
  using assms by (induction ps arbitrary: acc) (auto split: option.splits)

lemma database_only_updates:
  assumes "(e, m) \<in> set ps" "distinct (map (mapId \<circ> snd) ps)"
    and "\<forall>p \<in> set ps. isDatabaseOnlyReassignment sha256 rby p"
  shows "\<exists>r. map_of rby (mapId m) = Some r
    \<and> mappingUpdateFor sha256 e m r \<in> set (computeMappingUpdates sha256 std ps staleIds rby lby)"
proof -
  let ?kv = "\<lambda>(e, m). (mapId m, mappingUpdateFor sha256 e m (the (map_of rby (mapId m))))"
  have some: "\<forall>p \<in> set ps. map_of rby (mapId (snd p)) \<noteq> None"
    using assms(3) by (auto simp: isDatabaseOnlyReassignment_def split: option.splits)
  then obtain r where r: "map_of rby (mapId m) = Some r" using assms(1) by fastforce
  have "distinct (map fst (rev (map ?kv ps)))"
    using assms(2) by (simp add: rev_map [symmetric] comp_def case_prod_unfold)
  moreover have "?kv (e, m) \<in> set (rev (map ?kv ps))" using assms(1) by (force simp: image_iff)
  ultimately have "map_of (rev (map ?kv ps)) (mapId m) = Some (mappingUpdateFor sha256 e m r)"
    using r by (simp add: map_of_is_SomeI)
  then have "map_of (fold (\<lambda>(k, v) acc. AList.update k v acc) (map ?kv ps) acc) (mapId m) =
      Some (mappingUpdateFor sha256 e m r)" for acc
    by (simp add: map_of_fold_update)
  then show ?thesis
    using r unfolding computeMappingUpdates_def Let_def fold_database_only [OF some]
    by (auto simp: image_iff dest!: map_of_SomeD intro!: bexI)
qed



text \<open>An event is added only if it is authoritative, no mapping at all refers to it and no
  re-identified mapping was moved to it, so an addition never duplicates a mirror; it never
  carries a stale mapping id.\<close>

theorem additions_are_unmapped:
  assumes "distinct (map evId es)" "distinct (map mapId ms)"
    and "Add e stale \<in> set (operations (computeSyncOperations sha256 lc es ms rs scope))"
  shows "stale = None \<and> e \<in> set es \<and> isInsideSourceAuthoritativeWindow e (Some (evCalendarId e)) scope
    \<and> (\<forall>m \<in> set ms. syncEventId m \<noteq> evId e)
    \<and> (\<forall>e' st u d. Replace e' st u d \<in> set (operations (computeSyncOperations sha256 lc es ms rs scope))
         \<longrightarrow> evId e' \<noteq> evId e)"
proof -
  from assms(3) have a: "stale = None" "e \<in> set (auth_events scope es)" "evId e \<notin> syncEventId ` set ms"
    "evId e \<notin> (evId \<circ> fst) ` set (reassigned lc es ms scope)"
    by (cases rule: operations_cases; simp)+
  have "evId e' \<noteq> evId e"
    if "Replace e' st u d \<in> set (operations (computeSyncOperations sha256 lc es ms rs scope))" for e' st u d
    using that
  proof (cases rule: operations_cases)
    case (replaced m e'')
    then have "evId e' = syncEventId m" "m \<in> set ms"
      using local_by_id_Some [of scope es "syncEventId m"]
      by (auto simp: stale_in_run_def standard_mappings_def active_mappings_def)
    then show ?thesis using a(3) by force
  next
    case (moved e'' m)
    then show ?thesis using a(4) by force
  qed auto
  with a show ?thesis by (auto simp: auth_events_def image_iff)
qed

theorem additions_are_unmapped_witness:
  "Add sample_event None \<in> set (operations
      (computeSyncOperations id (\<lambda>_ _. 0) [sample_event] [] [] sample_scope))
   \<and> isInsideSourceAuthoritativeWindow sample_event (Some (evCalendarId sample_event)) sample_scope"
proof
  show 1: "Add sample_event None \<in> set (operations
      (computeSyncOperations id (\<lambda>_ _. 0) [sample_event] [] [] sample_scope))"
    by (simp add: operations_eq sortOperationsByTime_def add_ops_def auth_events_def reassigned_def
        active_mappings_def pairReidentified_eq missing_mappings_def case_prod_unfold
        isInsideSourceAuthoritativeWindow_def getSourceAuthoritativeWindow_def overlapsTimeWindow_def
        sample_event_def sample_scope_def)
  from additions_are_unmapped [OF _ _ 1]
  show "isInsideSourceAuthoritativeWindow sample_event (Some (evCalendarId sample_event)) sample_scope"
    by simp
qed

section \<open>One operation per mapping\<close>

text \<open>The mapping an operation consumes.\<close>

fun operation_target :: "SyncOperation \<Rightarrow> string option" where
  "operation_target (Add e s) = s"
| "operation_target (Remove u d t i) = i"
| "operation_target (Replace e s u d) = Some s"

definition targets :: "SyncOperation list \<Rightarrow> string list" where
  "targets ops = List.map_filter operation_target ops"

lemma targets_append [simp]: "targets (xs @ ys) = targets xs @ targets ys"
  by (simp add: targets_def map_filter_def)

lemma mset_targets_sort: "mset (targets (sortOperationsByTime ops)) = mset (targets ops)"
  by (simp add: targets_def map_filter_def sortOperationsByTime_def mset_filter)

text \<open>The scopes of a run: every authority window lies within the requested window.\<close>

definition authority_within :: "ReconciliationScope \<Rightarrow> bool" where
  "authority_within scope \<longleftrightarrow>
    (\<forall>w \<in> set_option (authoritativeWindow scope). within_window w (requestedWindow scope))
    \<and> (\<forall>(c, w) \<in> set (or_else (authoritativeSourceWindows scope) []). within_window w (requestedWindow scope))"

lemma active_overlaps_requested:
  assumes "authority_within scope" "m \<in> set (active_mappings scope ms)"
  shows "overlapsTimeWindow (startTime m) (endTime m)
    (timeMin (requestedWindow scope)) (timeMax (requestedWindow scope))"
proof -
  obtain w where w: "getSourceAuthoritativeWindow scope (sourceCalendarId m) = Some w"
    and ov: "overlapsTimeWindow (startTime m) (endTime m) (timeMin w) (timeMax w)"
    using assms(2) by (auto simp: active_mappings_def isInsideSourceAuthoritativeWindow_def split: option.splits)
  have "within_window w (requestedWindow scope)"
    using w assms(1) unfolding authority_within_def
    by (auto simp: getSourceAuthoritativeWindow_def split: option.splits if_splits dest!: map_of_SomeD)
  with ov show ?thesis by (rule overlaps_within_window)
qed

lemma targets_add_ops: "targets (add_ops lc es ms scope) = []"
  by (simp add: targets_def add_ops_def map_filter_def)

lemma targets_remove_ops:
  "targets (remove_ops lc es ms rs scope) =
    map mapId (filter (mappingIsRetired scope (evId ` set (auth_events scope es)))
      (filter (\<lambda>m. mapId m \<notin> (mapId \<circ> snd) ` set (reassigned lc es ms scope)) ms))"
  by (simp add: targets_def remove_ops_def buildRemoveOperations_def map_filter_def comp_def)

lemma targets_replacement_ops:
  "targets (replacement_ops sha256 lc es ms rs scope) = map mapId (stale_in_run sha256 lc es ms rs scope)"
proof -
  have "\<forall>m \<in> set (stale_in_run sha256 lc es ms rs scope). map_of (local_by_id scope es) (syncEventId m) \<noteq> None"
    by (auto simp: stale_in_run_def is_stale_def local_by_id_None)
  moreover have "\<forall>m \<in> set xs. map_of lby (syncEventId m) \<noteq> None \<Longrightarrow>
      targets (buildReplacementOperations xs lby rby) = map mapId xs" for xs lby rby
    by (induction xs) (auto simp: targets_def buildReplacementOperations_def map_filter_def
        getMappingSyncEventId_def split: option.splits)
  ultimately show ?thesis by (simp add: replacement_ops_def)
qed

lemma targets_reassignment_ops:
  "targets (reassignment_ops sha256 lc es ms rs scope) = map (mapId \<circ> snd)
    (filter (\<lambda>p. \<not> isDatabaseOnlyReassignment sha256 (matchRemoteEventsToMappings ms rs) p)
      (reassigned lc es ms scope))"
  by (simp add: targets_def reassignment_ops_def map_filter_def comp_def case_prod_unfold)

lemma targets_distinct:
  assumes "distinct (map evId es)" "distinct (map mapId ms)" "authority_within scope"
  shows "distinct (targets (operations (computeSyncOperations sha256 lc es ms rs scope)))"
proof -
  let ?R = "(mapId \<circ> snd) ` set (reassigned lc es ms scope)"
  let ?stale = "stale_in_run sha256 lc es ms rs scope"
  let ?ret = "filter (mappingIsRetired scope (evId ` set (auth_events scope es)))
      (filter (\<lambda>m. mapId m \<notin> ?R) ms)"
  have st: "set ?stale \<subseteq> set ms" "mapId ` set ?stale \<inter> ?R = {}"
    by (auto simp: stale_in_run_def standard_mappings_def active_mappings_def)
  have "mapId ` set ?ret \<inter> mapId ` set ?stale = {}"
  proof (rule ccontr)
    assume "\<not> ?thesis"
    then obtain a b where ab: "a \<in> set ?ret" "b \<in> set ?stale" "mapId a = mapId b" by blast
    then have "a = b" using assms(2) st(1) by (auto simp: distinct_map inj_on_def)
    moreover have "overlapsTimeWindow (startTime b) (endTime b)
        (timeMin (requestedWindow scope)) (timeMax (requestedWindow scope))"
      using ab(2) active_overlaps_requested [OF assms(3), of b ms]
      by (simp add: stale_in_run_def standard_mappings_def)
    moreover have "syncEventId b \<in> evId ` set (auth_events scope es)"
      using ab(2) by (simp add: stale_in_run_def is_stale_def)
    ultimately show False
      using ab(1) by (simp add: mappingIsRetired_def Let_def getMappingSyncEventId_def)
  qed
  moreover have "distinct (map mapId ?stale)" "distinct (map mapId ?ret)"
    using assms(2)
    by (simp_all add: stale_in_run_def standard_mappings_def active_mappings_def distinct_map_filter)
  moreover have "distinct (map (mapId \<circ> snd)
      (filter (\<lambda>p. \<not> isDatabaseOnlyReassignment sha256 (matchRemoteEventsToMappings ms rs) p)
        (reassigned lc es ms scope)))"
    using reassigned_matching [OF assms(1,2)] by (simp add: is_matching_def distinct_map_filter)
  ultimately have "distinct (targets (add_ops lc es ms scope @ remove_ops lc es ms rs scope
     @ replacement_ops sha256 lc es ms rs scope @ reassignment_ops sha256 lc es ms rs scope))"
    using st(2)
    by (auto simp: targets_add_ops targets_remove_ops targets_replacement_ops targets_reassignment_ops)
  then show ?thesis
    unfolding operations_eq using mset_targets_sort mset_eq_imp_distinct_iff by blast
qed

text \<open>
  What a caller promises of the scopes it builds: no window of authority leaves the requested
  window. Then an authoritative mapping is never retired by the window cleanup, and no mapping is
  the target of two operations.
\<close>

locale scope_builder =
  fixes make_scope :: "'c \<Rightarrow> ReconciliationScope"
  assumes scope_within: "authority_within (make_scope c)"
begin

lemma active_in_window:
  "m \<in> set (active_mappings (make_scope c) ms) \<Longrightarrow> overlapsTimeWindow (startTime m) (endTime m)
    (timeMin (requestedWindow (make_scope c))) (timeMax (requestedWindow (make_scope c)))"
  by (rule active_overlaps_requested [OF scope_within])

lemma one_target:
  "distinct (map evId es) \<Longrightarrow> distinct (map mapId ms) \<Longrightarrow>
    distinct (targets (operations (computeSyncOperations sha256 lc es ms rs (make_scope c))))"
  by (rule targets_distinct [OF _ _ scope_within])

end

section \<open>Agreement is a fixed point\<close>

lemma map_of_fold_optional_update:
  assumes "distinct (map f xs)" "x \<in> set xs"
  shows "map_of (fold (\<lambda>x acc. case g x of None \<Rightarrow> acc | Some r \<Rightarrow> AList.update (f x) r acc) xs acc) (f x) =
    (case g x of None \<Rightarrow> map_of acc (f x) | Some r \<Rightarrow> Some r)"
  using assms
proof (induction xs arbitrary: acc)
  case (Cons y ys)
  have other: "k \<notin> f ` set ys \<Longrightarrow>
      map_of (fold (\<lambda>x acc. case g x of None \<Rightarrow> acc | Some r \<Rightarrow> AList.update (f x) r acc) ys acc) k = map_of acc k"
    for k acc
    by (induction ys arbitrary: acc) (auto simp: update_conv' split: option.splits)
  show ?case
  proof (cases "x = y")
    case True
    then show ?thesis using Cons.prems by (auto simp: other update_conv' split: option.splits)
  next
    case False
    then have x: "x \<in> set ys" using Cons.prems by simp
    then have "f x \<noteq> f y" using Cons.prems(1) by (auto simp: image_iff)
    with x show ?thesis using Cons.prems Cons.IH by (auto simp: update_conv' split: option.splits)
  qed
qed simp

lemma match_lookup:
  assumes "distinct (map mapId ms)" "m \<in> set ms"
  shows "map_of (matchRemoteEventsToMappings ms rs) (mapId m) =
    matchRemoteEvent (jsmap_of (map (\<lambda>r. (getRemoteIdentity (uid r) (remDeleteId r), r)) rs))
      (fold (\<lambda>r acc. group_push (uid r) r acc) rs []) m"
  unfolding matchRemoteEventsToMappings_def Let_def map_of_fold_optional_update [OF assms]
  by (simp split: option.splits)

text \<open>\<open>matchRemoteEventsToMappings\<close> finds the copy of a mapping: the remote event with exactly its
  uid and delete identifier if there is one, and otherwise, for a mapping recorded before delete
  identifiers were stored, the only remote event with its uid; an ambiguous uid matches nothing.\<close>

theorem match_finds_the_copy:
  assumes "distinct (map mapId ms)" "m \<in> set ms"
    and "distinct (map (\<lambda>r. getRemoteIdentity (uid r) (remDeleteId r)) rs)"
  shows "map_of (matchRemoteEventsToMappings ms rs) (mapId m) = Some r \<longleftrightarrow>
    r \<in> set rs \<and> getRemoteIdentity (uid r) (remDeleteId r) =
        getRemoteIdentity (destinationEventUid m) (deleteIdentifier m)
    \<or> deleteIdentifier m = destinationEventUid m
      \<and> (\<forall>r' \<in> set rs. getRemoteIdentity (uid r') (remDeleteId r') \<noteq>
           getRemoteIdentity (destinationEventUid m) (deleteIdentifier m))
      \<and> filter (\<lambda>r'. uid r' = destinationEventUid m) rs = [r]"
proof -
  let ?idx = "jsmap_of (map (\<lambda>r. (getRemoteIdentity (uid r) (remDeleteId r), r)) rs)"
  let ?key = "getRemoteIdentity (destinationEventUid m) (deleteIdentifier m)"
  have byUid: "or_else (map_of (fold (\<lambda>r acc. group_push (uid r) r acc) rs []) u) [] =
      filter (\<lambda>r'. uid r' = u) rs" for u
    using map_of_fold_group_push [of uid rs "[]" u] by simp
  show ?thesis
  proof (cases "map_of ?idx ?key")
    case None
    then have "\<forall>r' \<in> set rs. getRemoteIdentity (uid r') (remDeleteId r') \<noteq> ?key"
      using map_of_jsmap_of_keyed_None [of "\<lambda>r. getRemoteIdentity (uid r) (remDeleteId r)" rs] by force
    then show ?thesis
      using None by (auto simp: match_lookup [OF assms(1,2)] matchRemoteEvent_def byUid split: list.splits)
  next
    case (Some r')
    with map_of_jsmap_of_keyed [OF assms(3)] have r': "r' \<in> set rs"
      "getRemoteIdentity (uid r') (remDeleteId r') = ?key" by blast+
    have uniq: "r'' = r'" if "r'' \<in> set rs" "getRemoteIdentity (uid r'') (remDeleteId r'') = ?key" for r''
      using that Some map_of_jsmap_of_keyed [OF assms(3), of ?key r''] by simp
    have lhs: "map_of (matchRemoteEventsToMappings ms rs) (mapId m) = Some r'"
      by (simp add: match_lookup [OF assms(1,2)] matchRemoteEvent_def Some)
    show ?thesis unfolding lhs option.inject using r' uniq by blast
  qed
qed

theorem match_finds_the_copy_witness:
  "map_of (matchRemoteEventsToMappings [sample_mapping] [sample_remote]) (mapId sample_mapping) =
    Some sample_remote"
  by (rule match_finds_the_copy [THEN iffD2])
    (simp_all add: sample_mapping_def sample_remote_def)

text \<open>A mapping records the mirror \<open>r\<close> of the event \<open>e\<close>, and the mirror is current.\<close>

definition mirrors :: "(string \<Rightarrow> string) \<Rightarrow> EventMapping \<Rightarrow> MaterializedSyncableEvent \<Rightarrow> RemoteEvent \<Rightarrow> bool" where
  "mirrors sha256 m e r \<longleftrightarrow> syncEventId m = evId e
    \<and> syncEventHash m = Some (createSyncEventContentHash sha256 e)
    \<and> uid r = destinationEventUid m \<and> remDeleteId r = deleteIdentifier m
    \<and> \<not> hasRemoteStateChanged sha256 m e r"

lemma match_mirror:
  assumes "distinct (map mapId ms)" "m \<in> set ms"
    and "distinct (map (\<lambda>r. getRemoteIdentity (uid r) (remDeleteId r)) rs)"
    and "r \<in> set rs" "uid r = destinationEventUid m" "remDeleteId r = deleteIdentifier m"
  shows "map_of (matchRemoteEventsToMappings ms rs) (mapId m) = Some r"
proof -
  have "map_of (jsmap_of (map (\<lambda>r. (getRemoteIdentity (uid r) (remDeleteId r), r)) rs))
      (getRemoteIdentity (destinationEventUid m) (deleteIdentifier m)) = Some r"
    using assms by (simp add: map_of_jsmap_of_keyed [OF assms(3)])
  then show ?thesis by (simp add: match_lookup [OF assms(1,2)] matchRemoteEvent_def)
qed

lemma staleIds_eq:
  "resStaleMappingIds (computeSyncOperations sha256 lc es ms rs scope) =
    map mapId (stale_in_run sha256 lc es ms rs scope)
    @ map (mapId \<circ> snd) (filter (\<lambda>p. \<not> isDatabaseOnlyReassignment sha256 (matchRemoteEventsToMappings ms rs) p)
        (reassigned lc es ms scope))"
  unfolding computeSyncOperations_def Let_def ComputeSyncOperationsResult.simps
      auth_events_def [symmetric] active_mappings_def [symmetric] reassigned_def [symmetric]
      set_map standard_mappings_def [symmetric] local_by_id_def [symmetric]
      identifyStaleMappings_eq stale_in_run_def [symmetric] ..

lemma agreement_quiet:
  assumes ids: "distinct (map evId es)" "distinct (map mapId ms)"
      "distinct (map (\<lambda>r. getRemoteIdentity (uid r) (remDeleteId r)) rs)"
    and mapped: "\<forall>e \<in> set es. isInsideSourceAuthoritativeWindow e (Some (evCalendarId e)) scope
      \<longrightarrow> (\<exists>m \<in> set ms. syncEventId m = evId e)"
    and current: "\<forall>m \<in> set ms. overlapsTimeWindow (startTime m) (endTime m)
        (timeMin (requestedWindow scope)) (timeMax (requestedWindow scope))
      \<and> (\<exists>e \<in> set es. isInsideSourceAuthoritativeWindow e (Some (evCalendarId e)) scope
           \<and> (\<exists>r \<in> set rs. mirrors sha256 m e r))"
    and owned: "\<forall>r \<in> set rs. isKeeperEvent r \<longrightarrow>
      (\<exists>m \<in> set ms. uid r = destinationEventUid m \<and> remDeleteId r = deleteIdentifier m)"
  shows "operations (computeSyncOperations sha256 lc es ms rs scope) = []
    \<and> mappingUpdates (computeSyncOperations sha256 lc es ms rs scope) = []
    \<and> resStaleMappingIds (computeSyncOperations sha256 lc es ms rs scope) = []"
proof -
  let ?rby = "matchRemoteEventsToMappings ms rs"
  have mapped': "evId e \<in> syncEventId ` set ms" if "e \<in> set (auth_events scope es)" for e
    using mapped that by (force simp: auth_events_def)
  have no_re: "reassigned lc es ms scope = []"
  proof (rule ccontr)
    assume "reassigned lc es ms scope \<noteq> []"
    then obtain e m where "(e, m) \<in> set (reassigned lc es ms scope)"
      by (metis last_in_set surj_pair)
    from reassigned_pair(1,3) [OF ids(1,2) this] mapped' show False by blast
  qed
  have cur: "\<exists>e r. map_of ?rby (mapId m) = Some r \<and> map_of (local_by_id scope es) (syncEventId m) = Some e
      \<and> mirrors sha256 m e r" if m: "m \<in> set ms" for m
  proof -
    obtain e r where e: "e \<in> set (auth_events scope es)" "r \<in> set rs" "mirrors sha256 m e r"
      using current m by (fastforce simp: auth_events_def)
    have "distinct (map evId (auth_events scope es))"
      using ids(1) by (simp add: auth_events_def distinct_map_filter)
    then have "map_of (local_by_id scope es) (syncEventId m) = Some e"
      unfolding local_by_id_def using e by (simp add: map_of_jsmap_of_keyed mirrors_def)
    moreover have "map_of ?rby (mapId m) = Some r"
      using e match_mirror [OF ids(2) m ids(3)] by (simp add: mirrors_def)
    ultimately show ?thesis using e(3) by blast
  qed
  have "oper \<notin> set (operations (computeSyncOperations sha256 lc es ms rs scope))" for oper
  proof
    assume "oper \<in> set (operations (computeSyncOperations sha256 lc es ms rs scope))"
    then show False
    proof (cases rule: operations_cases)
      case (added e)
      then show False using mapped' by blast
    next
      case (retired m)
      then obtain e where "map_of (local_by_id scope es) (syncEventId m) = Some e" using cur by blast
      then have "syncEventId m \<in> evId ` set (auth_events scope es)" by (metis imageI local_by_id_Some)
      then show False using retired current
        by (auto simp: mappingIsRetired_def Let_def getMappingSyncEventId_def)
    next
      case (orphan r)
      then obtain m where m: "m \<in> set ms" "uid r = destinationEventUid m" "remDeleteId r = deleteIdentifier m"
        using owned by (auto simp: remoteIsOrphan_def split: if_splits)
      then have "(mapId m, r) \<in> set ?rby"
        using match_mirror [OF ids(2) m(1) ids(3) orphan(1)] by (auto dest: map_of_SomeD)
      then have "getRemoteIdentity (uid r) (remDeleteId r)
          \<in> (\<lambda>(_, r). getRemoteIdentity (uid r) (remDeleteId r)) ` set ?rby"
        by (rule image_eqI [rotated]) simp
      then show False using orphan(3) by (simp add: remoteIsOrphan_def)
    next
      case (replaced m e)
      then have "m \<in> set ms" by (simp add: stale_in_run_def standard_mappings_def active_mappings_def)
      with cur [OF this] replaced show False by (auto simp: stale_in_run_def is_stale_def mirrors_def)
    next
      case (moved e m)
      then show False by (simp add: no_re)
    qed
  qed
  moreover have "fold (\<lambda>m acc. case (map_of ?rby (mapId m), map_of (local_by_id scope es) (getMappingSyncEventId m)) of
       (Some r, Some e) \<Rightarrow> if mapId m \<notin> S \<and> deleteIdentifier m = destinationEventUid m \<and> remDeleteId r \<noteq> deleteIdentifier m
               then AList.update (mapId m) (mappingUpdateFor sha256 e m r) acc else acc
     | _ \<Rightarrow> acc) xs acc = acc" if "set xs \<subseteq> set ms" for xs S acc
    using that
  proof (induction xs arbitrary: acc)
    case (Cons x xs)
    then have "x \<in> set ms" by simp
    from cur [OF this] Cons show ?case by (auto simp: mirrors_def getMappingSyncEventId_def)
  qed simp
  moreover have "stale_in_run sha256 lc es ms rs scope = []"
  proof (rule ccontr)
    assume "stale_in_run sha256 lc es ms rs scope \<noteq> []"
    then obtain m where m: "m \<in> set (stale_in_run sha256 lc es ms rs scope)" by (meson last_in_set)
    then have "m \<in> set ms" by (simp add: stale_in_run_def standard_mappings_def active_mappings_def)
    with cur [OF this] m show False by (auto simp: stale_in_run_def is_stale_def mirrors_def)
  qed
  ultimately show ?thesis
    unfolding mappingUpdates_eq staleIds_eq computeMappingUpdates_def Let_def database_only_def
    by (simp add: no_re standard_mappings_def active_mappings_def) (metis list.set_intros(1) list.exhaust)
qed

text \<open>C2: A destination that agrees with its sources is left alone. If every authoritative event has a
  mapping, every mapping lies in the requested window and records a current mirror of an
  authoritative event, and every Keeper event of the calendar belongs to a mapping, then the run
  emits no operation and no mapping update: repeated runs do not churn.\<close>

theorem agreement_is_a_fixed_point:
  assumes ids: "distinct (map evId es)" "distinct (map mapId ms)"
      "distinct (map (\<lambda>r. getRemoteIdentity (uid r) (remDeleteId r)) rs)"
    and mapped: "\<forall>e \<in> set es. isInsideSourceAuthoritativeWindow e (Some (evCalendarId e)) scope
      \<longrightarrow> (\<exists>m \<in> set ms. syncEventId m = evId e)"
    and current: "\<forall>m \<in> set ms. overlapsTimeWindow (startTime m) (endTime m)
        (timeMin (requestedWindow scope)) (timeMax (requestedWindow scope))
      \<and> (\<exists>e \<in> set es. isInsideSourceAuthoritativeWindow e (Some (evCalendarId e)) scope
           \<and> (\<exists>r \<in> set rs. mirrors sha256 m e r))"
    and owned: "\<forall>r \<in> set rs. isKeeperEvent r \<longrightarrow>
      (\<exists>m \<in> set ms. uid r = destinationEventUid m \<and> remDeleteId r = deleteIdentifier m)"
  shows "operations (computeSyncOperations sha256 lc es ms rs scope) = []
    \<and> mappingUpdates (computeSyncOperations sha256 lc es ms rs scope) = []"
  using agreement_quiet [OF assms] by blast

theorem agreement_is_a_fixed_point_witness:
  "operations (computeSyncOperations id (\<lambda>_ _. 0) [sample_event]
    [sample_mapping\<lparr>syncEventHash := Some (createSyncEventContentHash id sample_event)\<rparr>]
    [sample_remote] sample_scope) = []"
proof -
  have "\<not> hasRemoteStateChanged id (sample_mapping\<lparr>syncEventHash := h\<rparr>) sample_event sample_remote" for h
    by (simp add: hasRemoteStateChanged_def getRemoteStateChanges_def Let_def sample_remote_def sample_mapping_def)
  then show ?thesis
    by (intro agreement_is_a_fixed_point [THEN conjunct1])
      (simp_all add: mirrors_def sample_event_def sample_mapping_def sample_remote_def sample_scope_def
        isInsideSourceAuthoritativeWindow_def getSourceAuthoritativeWindow_def overlapsTimeWindow_def)
qed

end
