(* ===== verification/Source_Authority.thy ===== *)
theory Source_Authority
  imports Reconcile_Correct "HOL-Library.Char_ord" "HOL-Library.List_Lexorder"
begin

text \<open>
  The authority of a destination run (\<open>packages/sync/src/sync-user.ts\<close>): which part of the
  requested window each source calendar has verified coverage for, how that authority is narrowed
  when it is read again under the ingest locks, and how the destination's remote events are read
  (a targeted lookup by id, or a windowed listing followed by a by-id verification).

  Database rows and the provider's calls are arguments. A nullable \<open>Date\<close> column is an option;
  an invalid date inside it is a second option, as \<open>createSyncWindow\<close> tests for it.
\<close>

section \<open>Stored coverage\<close>

record StoredSourceCoverage =
  sourceId :: string
  ingestFutureRange :: "string option"
  ingestHistoricRange :: "string option"
  ingestWindowEnd :: "instant option option"
  ingestWindowRecordedAt :: "instant option option"
  ingestWindowStart :: "instant option option"

definition syncRangeAllows :: "string option \<Rightarrow> bool" where
  "syncRangeAllows v = (case v of None \<Rightarrow> False
    | Some s \<Rightarrow> s \<in> set (map (syncRangeValue \<circ> fst) SYNC_RANGE_DEFINITIONS))"

definition resolveStoredSourceCoverage :: "StoredSourceCoverage \<Rightarrow> SyncWindow option" where
  "resolveStoredSourceCoverage source =
    (case (ingestWindowStart source, ingestWindowEnd source, ingestWindowRecordedAt source) of
       (Some st, Some en, Some (Some recordedAt)) \<Rightarrow>
         if \<not> syncRangeAllows (ingestHistoricRange source) \<or> \<not> syncRangeAllows (ingestFutureRange source)
         then None
         else (case createSyncWindow st en of Inl _ \<Rightarrow> None | Inr w \<Rightarrow> Some w)
     | _ \<Rightarrow> None)"

record SourceAuthority =
  aggregateWindow :: "SyncWindow option"
  sourceWindows :: "(string, SyncWindow) jsmap"

fun aggregateOver :: "SyncWindow \<Rightarrow> string list \<Rightarrow> (string, SyncWindow) jsmap \<Rightarrow> SyncWindow option" where
  "aggregateOver aggregate [] windows = Some aggregate"
| "aggregateOver aggregate (cal # cals) windows =
    (case map_of windows cal of
       None \<Rightarrow> None
     | Some w \<Rightarrow> (case intersectSyncWindows aggregate w of
         None \<Rightarrow> None | Some a \<Rightarrow> aggregateOver a cals windows))"

definition createAggregateAuthorityWindow ::
  "string list \<Rightarrow> (string, SyncWindow) jsmap \<Rightarrow> SyncWindow \<Rightarrow> SyncWindow option" where
  "createAggregateAuthorityWindow sourceCalendarIds windows requested =
    (if length sourceCalendarIds = 0 then None
     else if length windows \<noteq> length sourceCalendarIds then None
     else aggregateOver requested sourceCalendarIds windows)"

text \<open>The rows are those the query returns for the given ids.\<close>

definition resolveSourceAuthority ::
  "StoredSourceCoverage list \<Rightarrow> string list \<Rightarrow> SyncWindow \<Rightarrow> SourceAuthority" where
  "resolveSourceAuthority rows sourceCalendarIds requested =
    (if length sourceCalendarIds = 0 then \<lparr>aggregateWindow = None, sourceWindows = []\<rparr>
     else let sources = filter (\<lambda>r. sourceId r \<in> set sourceCalendarIds) rows;
              windows = fold (\<lambda>source acc. case resolveStoredSourceCoverage source of
                  None \<Rightarrow> acc
                | Some coverage \<Rightarrow> (case intersectSyncWindows requested coverage of
                    None \<Rightarrow> acc | Some w \<Rightarrow> AList.update (sourceId source) w acc)) sources []
          in \<lparr>aggregateWindow = createAggregateAuthorityWindow sourceCalendarIds windows requested,
              sourceWindows = windows\<rparr>)"

definition narrowSourceAuthority ::
  "(string, SyncWindow) jsmap \<Rightarrow> (string, SyncWindow) jsmap \<Rightarrow> (string, SyncWindow) jsmap" where
  "narrowSourceAuthority initial current =
    fold (\<lambda>(cal, initialWindow) acc. case map_of current cal of
        None \<Rightarrow> acc
      | Some currentWindow \<Rightarrow> (case intersectSyncWindows initialWindow currentWindow of
          None \<Rightarrow> acc | Some w \<Rightarrow> AList.update cal w acc)) initial []"

definition getBoundingSourceAuthorityWindow ::
  "(string, SyncWindow) jsmap \<Rightarrow> range_error + SyncWindow option" where
  "getBoundingSourceAuthorityWindow windows =
    (let (tmin, tmax) = fold (\<lambda>(_, w) (lo, hi).
           (case lo of None \<Rightarrow> Some (timeMin w) | Some l \<Rightarrow> if timeMin w < l then Some (timeMin w) else Some l,
            case hi of None \<Rightarrow> Some (timeMax w) | Some h \<Rightarrow> if timeMax w > h then Some (timeMax w) else Some h))
           windows (None, None)
     in case (tmin, tmax) of
          (Some lo, Some hi) \<Rightarrow> map_sum id Some (createSyncWindow (Some lo) (Some hi))
        | _ \<Rightarrow> Inr None)"

definition haveSourceCalendarsChanged :: "string list \<Rightarrow> string list \<Rightarrow> bool" where
  "haveSourceCalendarsChanged beforeRemoteRead atLocalRead =
    (if length beforeRemoteRead \<noteq> length atLocalRead then True
     else list_ex (\<lambda>(a, b). a \<noteq> b) (zip (sort beforeRemoteRead) (sort atLocalRead)))"

record DestinationReconciliationScopeContext =
  ctxAuthoritativeMappingIds :: "string set option"
  ctxAuthoritativeSourceWindows :: "(string, SyncWindow) jsmap"
  ctxAuthoritativeWindow :: "SyncWindow option"
  ctxOverBudgetSourceEventStateIds :: "string list"
  ctxRequestedWindow :: SyncWindow
  ctxSourceCalendarIdsAtLocalRead :: "string list"

definition createDestinationReconciliationScope ::
  "DestinationReconciliationScopeContext \<Rightarrow> ReconciliationScope" where
  "createDestinationReconciliationScope context =
    \<lparr>authoritativeMappingIds = ctxAuthoritativeMappingIds context,
     authoritativeWindow = ctxAuthoritativeWindow context,
     authoritativeSourceWindows = Some (ctxAuthoritativeSourceWindows context),
     configuredSourceCalendarIds = Some (set (ctxSourceCalendarIdsAtLocalRead context)),
     requestedWindow = ctxRequestedWindow context,
     withheldSourceEventStateIds = Some (set (ctxOverBudgetSourceEventStateIds context))\<rparr>"

text \<open>
  The part of \<open>syncDestinationsForUser\<close> that fixes the authority of an attempt: the initial
  coverage, then the re-read under the ingest locks, which gives up the whole authority when the
  set of sources changed meanwhile.
\<close>

record AttemptAuthority =
  attSourceWindows :: "(string, SyncWindow) jsmap"
  attWindow :: "SyncWindow option"
  attChanged :: bool

definition resolveAttemptAuthority ::
  "SyncWindow \<Rightarrow> string list \<Rightarrow> StoredSourceCoverage list \<Rightarrow> string list \<Rightarrow> StoredSourceCoverage list
    \<Rightarrow> AttemptAuthority" where
  "resolveAttemptAuthority requested idsBefore rowsBefore idsLocked rowsLocked =
    (let initial = resolveSourceAuthority rowsBefore idsBefore requested
     in if haveSourceCalendarsChanged idsBefore idsLocked
        then \<lparr>attSourceWindows = [], attWindow = None, attChanged = True\<rparr>
        else (let current = resolveSourceAuthority rowsLocked idsLocked requested;
                  windows = narrowSourceAuthority (sourceWindows initial) (sourceWindows current)
              in \<lparr>attSourceWindows = windows,
                  attWindow = createAggregateAuthorityWindow idsLocked windows requested,
                  attChanged = False\<rparr>))"

definition attempt_scope ::
  "SyncWindow \<Rightarrow> string list \<Rightarrow> StoredSourceCoverage list \<Rightarrow> string list \<Rightarrow> StoredSourceCoverage list
    \<Rightarrow> string set option \<Rightarrow> string list \<Rightarrow> ReconciliationScope" where
  "attempt_scope requested idsBefore rowsBefore idsLocked rowsLocked mappingIds overBudget =
    (let a = resolveAttemptAuthority requested idsBefore rowsBefore idsLocked rowsLocked
     in createDestinationReconciliationScope
          \<lparr>ctxAuthoritativeMappingIds = mappingIds,
           ctxAuthoritativeSourceWindows = attSourceWindows a,
           ctxAuthoritativeWindow = attWindow a,
           ctxOverBudgetSourceEventStateIds = overBudget,
           ctxRequestedWindow = requested,
           ctxSourceCalendarIdsAtLocalRead = idsLocked\<rparr>)"

section \<open>Reading the destination\<close>

definition TARGETED_DESTINATION_READ_LIMIT :: nat where
  "TARGETED_DESTINATION_READ_LIMIT = 25"

definition DESTINATION_VERIFICATION_LIMIT :: nat where
  "DESTINATION_VERIFICATION_LIMIT = 200"

record ('w, 'e) TargetedDestinationReadProvider =
  getRemoteEventsByIds :: "(string list \<Rightarrow> ('w, 'e, RemoteEvent list) eff) option"
  listRemoteEvents :: "SyncWindow \<Rightarrow> ('w, 'e, RemoteEvent list) eff"
  verifyEventsExist :: "(string list \<Rightarrow> ('w, 'e, RemoteEvent list) eff) option"

record DestinationRemoteRead =
  readAuthoritativeMappingIds :: "string set option"
  readRemoteEvents :: "RemoteEvent list"

record TargetedDestinationReadPlan =
  planDeleteIdentifiers :: "string list"
  planMappingIds :: "string set"

definition set_add :: "'a \<Rightarrow> 'a list \<Rightarrow> 'a list" where
  "set_add x xs = (if x \<in> set xs then xs else xs @ [x])"

definition planTargetedDestinationRead ::
  "MaterializedSyncableEvent list \<Rightarrow> EventMapping list \<Rightarrow> TargetedDestinationReadPlan" where
  "planTargetedDestinationRead localEvents existingMappings =
    (let bySyncEventId = fold (\<lambda>m acc. group_push (syncEventId m) m acc) existingMappings [];
         (deleteIds, mappingIds) = fold (\<lambda>e acc.
           fold (\<lambda>m (dels, mids). (set_add (deleteIdentifier m) dels, set_add (mapId m) mids))
             (or_else (map_of bySyncEventId (evId e)) []) acc) localEvents ([], [])
     in \<lparr>planDeleteIdentifiers = deleteIds, planMappingIds = set mappingIds\<rparr>)"

definition unconfirmedDeleteIds ::
  "(string \<Rightarrow> string \<Rightarrow> int) \<Rightarrow> EventMapping list \<Rightarrow> RemoteEvent list \<Rightarrow> SyncWindow \<Rightarrow> string list" where
  "unconfirmedDeleteIds lc existingMappings remoteEvents requested =
    take DESTINATION_VERIFICATION_LIMIT (toSorted lc (map deleteIdentifier
      (filter (\<lambda>m. destinationEventUid m \<notin> set (map uid remoteEvents)
          \<and> overlapsTimeWindow (startTime m) (endTime m) (timeMin requested) (timeMax requested))
        existingMappings)))"

definition withVerifiedUnconfirmedMappings ::
  "(string \<Rightarrow> string \<Rightarrow> int) \<Rightarrow> ('w, 'e) TargetedDestinationReadProvider \<Rightarrow> EventMapping list
    \<Rightarrow> RemoteEvent list \<Rightarrow> SyncWindow \<Rightarrow> ('w, 'e, RemoteEvent list) eff" where
  "withVerifiedUnconfirmedMappings lc provider existingMappings remoteEvents requested =
    (case verifyEventsExist provider of
       None \<Rightarrow> eff_return remoteEvents
     | Some verify \<Rightarrow>
         (let ids = unconfirmedDeleteIds lc existingMappings remoteEvents requested
          in if length ids = 0 then eff_return remoteEvents
             else eff_bind (verify ids) (\<lambda>verified. eff_return (remoteEvents @ verified))))"

definition readDestinationRemoteEvents ::
  "(string \<Rightarrow> string \<Rightarrow> int) \<Rightarrow> EventMapping list \<Rightarrow> MaterializedSyncableEvent list
    \<Rightarrow> ('w, 'e) TargetedDestinationReadProvider \<Rightarrow> SyncWindow \<Rightarrow> ('w, 'e, DestinationRemoteRead) eff" where
  "readDestinationRemoteEvents lc existingMappings localEvents provider requested =
    (let plan = planTargetedDestinationRead localEvents existingMappings in
     case getRemoteEventsByIds provider of
       Some lookUpByIds \<Rightarrow>
         if length (planDeleteIdentifiers plan) > TARGETED_DESTINATION_READ_LIMIT
         then eff_bind (listRemoteEvents provider requested) (\<lambda>remoteEvents.
           eff_bind (withVerifiedUnconfirmedMappings lc provider existingMappings remoteEvents requested)
             (\<lambda>verified. eff_return
               \<lparr>readAuthoritativeMappingIds = None, readRemoteEvents = verified\<rparr>))
         else eff_bind (lookUpByIds (planDeleteIdentifiers plan)) (\<lambda>remoteEvents. eff_return
           \<lparr>readAuthoritativeMappingIds = Some (planMappingIds plan), readRemoteEvents = remoteEvents\<rparr>)
     | None \<Rightarrow>
         eff_bind (listRemoteEvents provider requested) (\<lambda>remoteEvents.
           eff_bind (withVerifiedUnconfirmedMappings lc provider existingMappings remoteEvents requested)
             (\<lambda>verified. eff_return
               \<lparr>readAuthoritativeMappingIds = None, readRemoteEvents = verified\<rparr>)))"

section \<open>Windows of authority\<close>

definition covered_by :: "StoredSourceCoverage list \<Rightarrow> SyncWindow \<Rightarrow> string \<Rightarrow> SyncWindow \<Rightarrow> bool" where
  "covered_by rows requested cal w \<longleftrightarrow> within_window w requested \<and>
    (\<exists>row \<in> set rows. sourceId row = cal
      \<and> (\<exists>c. resolveStoredSourceCoverage row = Some c \<and> within_window w c))"

lemma nested_collect:
  "(case a of None \<Rightarrow> acc | Some x \<Rightarrow> (case f x of None \<Rightarrow> acc | Some w \<Rightarrow> g w)) =
    (case Option.bind a f of None \<Rightarrow> acc | Some w \<Rightarrow> g w)"
  by (cases a) auto

lemma resolveSourceAuthority_windows:
  assumes "(cal, w) \<in> set (sourceWindows (resolveSourceAuthority rows ids requested))"
  shows "cal \<in> set ids \<and> timeMin w < timeMax w \<and> covered_by rows requested cal w"
proof -
  from assms obtain source where "source \<in> set rows" "sourceId source \<in> set ids" "sourceId source = cal"
    "Option.bind (resolveStoredSourceCoverage source) (intersectSyncWindows requested) = Some w"
    by (auto simp: resolveSourceAuthority_def nested_collect Let_def split: if_splits
        dest!: fold_collect_elem)
  then show ?thesis
    by (auto simp: covered_by_def bind_eq_Some_conv dest!: intersectSyncWindows_Some)
qed

lemma distinct_sourceWindows: "distinct (map fst (sourceWindows (resolveSourceAuthority rows ids requested)))"
  by (simp add: resolveSourceAuthority_def nested_collect Let_def distinct_fold_collect)

lemma narrow_fold:
  "narrowSourceAuthority initial current = fold (\<lambda>p acc.
      case Option.bind (map_of current (fst p)) (intersectSyncWindows (snd p)) of
        None \<Rightarrow> acc | Some w \<Rightarrow> AList.update (fst p) w acc) initial []"
  by (simp add: narrowSourceAuthority_def nested_collect case_prod_unfold)

lemma narrowSourceAuthority_windows:
  assumes "(cal, w) \<in> set (narrowSourceAuthority initial current)"
  shows "\<exists>a b. (cal, a) \<in> set initial \<and> map_of current cal = Some b
    \<and> within_window w a \<and> within_window w b \<and> timeMin w < timeMax w"
proof -
  from assms obtain a b where "(cal, a) \<in> set initial" "map_of current cal = Some b"
    "intersectSyncWindows a b = Some w"
    by (auto simp: narrow_fold bind_eq_Some_conv dest!: fold_collect_elem)
  then show ?thesis using intersectSyncWindows_Some by blast
qed

lemma distinct_narrow: "distinct (map fst (narrowSourceAuthority initial current))"
  by (simp add: narrow_fold distinct_fold_collect)

lemma covered_by_mono: "covered_by rows requested cal a \<Longrightarrow> within_window w a \<Longrightarrow> covered_by rows requested cal w"
  unfolding covered_by_def using within_window_trans by blast

lemma attempt_windows:
  assumes "(cal, w) \<in> set (attSourceWindows (resolveAttemptAuthority requested ids0 rows0 ids1 rows1))"
  shows "cal \<in> set ids1 \<and> timeMin w < timeMax w
    \<and> covered_by rows0 requested cal w \<and> covered_by rows1 requested cal w"
proof -
  from assms obtain a b where
    a: "(cal, a) \<in> set (sourceWindows (resolveSourceAuthority rows0 ids0 requested))" and
    b: "map_of (sourceWindows (resolveSourceAuthority rows1 ids1 requested)) cal = Some b" and
    w: "within_window w a" "within_window w b" "timeMin w < timeMax w"
    by (auto simp: resolveAttemptAuthority_def Let_def split: if_splits
        dest!: narrowSourceAuthority_windows)
  from resolveSourceAuthority_windows [OF a] resolveSourceAuthority_windows [OF map_of_SomeD [OF b]] w
  show ?thesis using covered_by_mono by blast
qed

lemma aggregateOver_within:
  "aggregateOver a ids windows = Some w \<Longrightarrow>
    within_window w a \<and> (\<forall>cal \<in> set ids. \<exists>v. map_of windows cal = Some v \<and> within_window w v)"
proof (induction ids arbitrary: a)
  case (Cons cal ids)
  then obtain v b where v: "map_of windows cal = Some v" "intersectSyncWindows a v = Some b"
    "aggregateOver b ids windows = Some w" by (auto split: option.splits)
  from Cons.IH [OF v(3)] intersectSyncWindows_Some [OF v(2)] v(1)
  show ?case by (auto intro: within_window_trans)
qed simp

lemma aggregate_within:
  assumes "createAggregateAuthorityWindow ids windows requested = Some w"
  shows "ids \<noteq> [] \<and> within_window w requested
    \<and> (\<forall>cal \<in> set ids. \<exists>v. map_of windows cal = Some v \<and> within_window w v)"
  using assms aggregateOver_within
  by (auto simp: createAggregateAuthorityWindow_def split: if_splits)

lemma attWindow_cases:
  "attWindow (resolveAttemptAuthority requested ids0 rows0 ids1 rows1) = Some w \<Longrightarrow>
    createAggregateAuthorityWindow ids1
      (attSourceWindows (resolveAttemptAuthority requested ids0 rows0 ids1 rows1)) requested = Some w"
  by (auto simp: resolveAttemptAuthority_def Let_def split: if_splits)

lemma unchanged_calendars:
  "\<not> haveSourceCalendarsChanged ids0 ids1 \<longleftrightarrow> mset ids0 = mset ids1"
proof
  assume "\<not> haveSourceCalendarsChanged ids0 ids1"
  then have "length (sort ids0) = length (sort ids1)"
    "\<forall>(a, b) \<in> set (zip (sort ids0) (sort ids1)). a = b"
    by (auto simp: haveSourceCalendarsChanged_def list_ex_iff split: if_splits)
  then have "sort ids0 = sort ids1" by (auto simp: list_eq_iff_zip_eq)
  then show "mset ids0 = mset ids1" by (metis mset_sort)
next
  assume "mset ids0 = mset ids1"
  then have "sort ids0 = sort ids1" "length ids0 = length ids1"
    by (metis sorted_list_of_multiset_mset, metis size_mset)
  then show "\<not> haveSourceCalendarsChanged ids0 ids1"
    by (auto simp: haveSourceCalendarsChanged_def list_ex_iff set_zip)
qed

interpretation attempt: scope_builder
  "\<lambda>(requested, ids0, rows0, ids1, rows1, mappingIds, overBudget).
    attempt_scope requested ids0 rows0 ids1 rows1 mappingIds overBudget"
proof
  fix c :: "SyncWindow \<times> string list \<times> StoredSourceCoverage list \<times> string list
    \<times> StoredSourceCoverage list \<times> string set option \<times> string list"
  obtain requested ids0 rows0 ids1 rows1 mids ob where c: "c = (requested, ids0, rows0, ids1, rows1, mids, ob)"
    by (metis prod_cases7)
  show "authority_within (case c of (requested, ids0, rows0, ids1, rows1, mappingIds, overBudget) \<Rightarrow>
    attempt_scope requested ids0 rows0 ids1 rows1 mappingIds overBudget)"
    unfolding c using attempt_windows [of _ _ requested ids0 rows0 ids1 rows1]
    by (auto simp: authority_within_def attempt_scope_def createDestinationReconciliationScope_def Let_def
        covered_by_def dest!: attWindow_cases aggregate_within)
qed

section \<open>Properties\<close>

text \<open>C11: A run has authority only where it may: each source window of an attempt belongs to a calendar
  mapped at the locked read, is not empty, and lies within the requested window and within the
  valid coverage stored for that calendar at both reads; the aggregate window exists only if there
  is a source, and lies within the window of every source.\<close>

theorem authority_needs_verified_coverage:
  fixes requested :: SyncWindow and ids0 ids1 :: "string list" and rows0 rows1 :: "StoredSourceCoverage list"
  defines "att \<equiv> resolveAttemptAuthority requested ids0 rows0 ids1 rows1"
  shows "(\<forall>(cal, w) \<in> set (attSourceWindows att). cal \<in> set ids1 \<and> timeMin w < timeMax w
        \<and> covered_by rows0 requested cal w \<and> covered_by rows1 requested cal w)
    \<and> (\<forall>w. attWindow att = Some w \<longrightarrow> ids1 \<noteq> [] \<and> mset ids0 = mset ids1
        \<and> (\<forall>cal \<in> set ids1. \<exists>v. map_of (attSourceWindows att) cal = Some v \<and> within_window w v))"
proof -
  have "mset ids0 = mset ids1" if "attWindow att = Some w" for w
    using that unchanged_calendars
    by (auto simp: att_def resolveAttemptAuthority_def Let_def split: if_splits)
  then show ?thesis
    unfolding att_def using attempt_windows aggregate_within [OF attWindow_cases] by blast
qed

definition sample_row :: StoredSourceCoverage where
  "sample_row = \<lparr>sourceId = ''c1'', ingestFutureRange = Some ''1_month'', ingestHistoricRange = Some ''1_week'',
    ingestWindowEnd = Some (Some 100), ingestWindowRecordedAt = Some (Some 0), ingestWindowStart = Some (Some 0)\<rparr>"

theorem authority_needs_verified_coverage_witness:
  "attSourceWindows (resolveAttemptAuthority \<lparr>timeMin = 10, timeMax = 200\<rparr>
      [''c1''] [sample_row] [''c1''] [sample_row]) = [(''c1'', \<lparr>timeMin = 10, timeMax = 100\<rparr>)]
    \<and> covered_by [sample_row] \<lparr>timeMin = 10, timeMax = 200\<rparr> ''c1'' \<lparr>timeMin = 10, timeMax = 100\<rparr>"
proof
  show 1: "attSourceWindows (resolveAttemptAuthority \<lparr>timeMin = 10, timeMax = 200\<rparr>
      [''c1''] [sample_row] [''c1''] [sample_row]) = [(''c1'', \<lparr>timeMin = 10, timeMax = 100\<rparr>)]"
    by (simp add: resolveAttemptAuthority_def resolveSourceAuthority_def haveSourceCalendarsChanged_def
        narrowSourceAuthority_def resolveStoredSourceCoverage_def syncRangeAllows_def SYNC_RANGE_DEFINITIONS_def
        syncRangeValue_def createSyncWindow_def intersectSyncWindows_def sample_row_def Let_def)
  then show "covered_by [sample_row] \<lparr>timeMin = 10, timeMax = 200\<rparr> ''c1'' \<lparr>timeMin = 10, timeMax = 100\<rparr>"
    using authority_needs_verified_coverage [of "\<lparr>timeMin = 10, timeMax = 200\<rparr>" "[''c1'']" "[sample_row]"
      "[''c1'']" "[sample_row]"] by simp
qed

text \<open>C4: In a run whose scope comes from an attempt's authority, no mapping is the target of two
  operations: a mirror is never both rewritten and deleted, and never rewritten twice.\<close>

theorem attempt_targets_each_mapping_once:
  assumes "distinct (map evId es)" "distinct (map mapId ms)"
  shows "distinct (targets (operations (computeSyncOperations sha256 lc es ms rs
    (attempt_scope requested ids0 rows0 ids1 rows1 mappingIds overBudget))))"
  using attempt.one_target [OF assms, of _ _ _ "(requested, ids0, rows0, ids1, rows1, mappingIds, overBudget)"]
  by simp

theorem attempt_targets_each_mapping_once_witness:
  "distinct (targets (operations (computeSyncOperations id (\<lambda>_ _. 0) [sample_event] [sample_mapping]
    [sample_remote] (attempt_scope \<lparr>timeMin = 0, timeMax = 10\<rparr> [] [] [] [] None []))))"
  by (rule attempt_targets_each_mapping_once) simp_all

text \<open>A destination without mapped sources deletes no remote event that has no mapping, and neither
  does a run whose set of sources changed while the destination was read.\<close>

theorem no_sources_no_orphan_removal:
  assumes "ids1 = [] \<or> mset ids0 \<noteq> mset ids1"
  shows "Remove u d t None \<notin> set (operations (computeSyncOperations sha256 lc es ms rs
    (attempt_scope requested ids0 rows0 ids1 rows1 mappingIds overBudget)))"
proof
  let ?att = "resolveAttemptAuthority requested ids0 rows0 ids1 rows1"
  assume "Remove u d t None \<in> set (operations (computeSyncOperations sha256 lc es ms rs
    (attempt_scope requested ids0 rows0 ids1 rows1 mappingIds overBudget)))"
  then obtain w where w: "attWindow ?att = Some w"
    by (cases rule: operations_cases)
      (auto simp: remoteIsOrphan_def attempt_scope_def createDestinationReconciliationScope_def Let_def
        split: if_splits option.splits)
  then have "\<not> haveSourceCalendarsChanged ids0 ids1" "ids1 \<noteq> []"
    using aggregate_within [OF attWindow_cases [OF w]]
    by (auto simp: resolveAttemptAuthority_def Let_def split: if_splits)
  then have "mset ids0 = mset ids1"
    by (simp add: unchanged_calendars)
  with assms \<open>ids1 \<noteq> []\<close> show False by simp
qed

theorem no_sources_no_orphan_removal_witness:
  "Remove ''u1@keeper'' ''g1'' 0 None \<notin> set (operations (computeSyncOperations id (\<lambda>_ _. 0) [] []
    [sample_remote] (attempt_scope \<lparr>timeMin = 0, timeMax = 10\<rparr> [''c1''] [] [] [] None [])))"
  by (rule no_sources_no_orphan_removal) simp

section \<open>Reading the destination\<close>

lemma set_set_add [simp]: "set (set_add x xs) = insert x (set xs)"
  by (auto simp: set_add_def)

lemma distinct_set_add [simp]: "distinct xs \<Longrightarrow> distinct (set_add x xs)"
  by (simp add: set_add_def)

lemma plan_fold_inner:
  assumes "fold (\<lambda>m (dels, mids). (set_add (deleteIdentifier m) dels, set_add (mapId m) mids)) ms (d, i) = (d', i')"
  shows "set d' = set d \<union> deleteIdentifier ` set ms \<and> set i' = set i \<union> mapId ` set ms
    \<and> (distinct d \<longrightarrow> distinct d')"
  using assms by (induction ms arbitrary: d i) fastforce+

lemma plan_fold:
  assumes "fold (\<lambda>e acc. fold (\<lambda>m (dels, mids). (set_add (deleteIdentifier m) dels, set_add (mapId m) mids))
      (f (evId e)) acc) es (d, i) = (d', i')"
  shows "set d' = set d \<union> deleteIdentifier ` (\<Union>e \<in> set es. set (f (evId e)))
    \<and> set i' = set i \<union> mapId ` (\<Union>e \<in> set es. set (f (evId e))) \<and> (distinct d \<longrightarrow> distinct d')"
  using assms
proof (induction es arbitrary: d i)
  case (Cons e es)
  obtain d1 i1 where 1: "fold (\<lambda>m (dels, mids). (set_add (deleteIdentifier m) dels, set_add (mapId m) mids))
      (f (evId e)) (d, i) = (d1, i1)" by fastforce
  from Cons.IH [of d1 i1] Cons.prems plan_fold_inner [OF 1] 1 show ?case by auto
qed simp

definition looked_up :: "MaterializedSyncableEvent list \<Rightarrow> EventMapping list \<Rightarrow> EventMapping set" where
  "looked_up es ms = {m \<in> set ms. syncEventId m \<in> evId ` set es}"

lemma plan_targets:
  "set (planDeleteIdentifiers (planTargetedDestinationRead es ms)) = deleteIdentifier ` looked_up es ms
   \<and> planMappingIds (planTargetedDestinationRead es ms) = mapId ` looked_up es ms
   \<and> distinct (planDeleteIdentifiers (planTargetedDestinationRead es ms))"
proof -
  let ?by = "fold (\<lambda>m acc. group_push (syncEventId m) m acc) ms []"
  have look: "or_else (map_of ?by i) [] = filter (\<lambda>m. syncEventId m = i) ms" for i
    using map_of_fold_group_push [of syncEventId ms "[]" i] by simp
  obtain d i where di: "fold (\<lambda>e acc. fold (\<lambda>m (dels, mids). (set_add (deleteIdentifier m) dels, set_add (mapId m) mids))
      (or_else (map_of ?by (evId e)) []) acc) es ([], []) = (d, i)" by fastforce
  have "(\<Union>e \<in> set es. set (filter (\<lambda>m. syncEventId m = evId e) ms)) = looked_up es ms"
    by (auto simp: looked_up_def)
  with plan_fold [OF di] di show ?thesis
    by (simp add: planTargetedDestinationRead_def Let_def look)
qed

lemma unconfirmed_bounds:
  "length (unconfirmedDeleteIds lc ms rs requested) \<le> DESTINATION_VERIFICATION_LIMIT"
  "d \<in> set (unconfirmedDeleteIds lc ms rs requested) \<Longrightarrow>
    \<exists>m \<in> set ms. deleteIdentifier m = d \<and> destinationEventUid m \<notin> uid ` set rs"
  by (auto simp: unconfirmedDeleteIds_def dest!: in_set_takeD)

text \<open>The destination read says exactly how far its answer reaches. A read that names mappings made
  one lookup, of at most 25 distinct delete identifiers, for precisely the mappings of the local
  events; any other read is the provider's listing of the requested window, extended only by a
  by-id check of at most 200 recorded copies that the listing did not contain.\<close>

theorem remote_read_scope:
  assumes "readDestinationRemoteEvents lc ms es provider requested w = (Inr read, w')"
  shows "(\<exists>look ids. getRemoteEventsByIds provider = Some look \<and> look ids w = (Inr (readRemoteEvents read), w')
      \<and> length ids \<le> 25 \<and> distinct ids \<and> set ids = deleteIdentifier ` looked_up es ms
      \<and> readAuthoritativeMappingIds read = Some (mapId ` looked_up es ms))
    \<or> readAuthoritativeMappingIds read = None
      \<and> (\<exists>listed w1. listRemoteEvents provider requested w = (Inr listed, w1)
          \<and> (readRemoteEvents read = listed \<and> w' = w1
             \<or> (\<exists>verify ids verified. verifyEventsExist provider = Some verify
                 \<and> verify ids w1 = (Inr verified, w') \<and> readRemoteEvents read = listed @ verified
                 \<and> ids \<noteq> [] \<and> length ids \<le> 200
                 \<and> (\<forall>d \<in> set ids. \<exists>m \<in> set ms. deleteIdentifier m = d
                      \<and> (\<forall>r \<in> set listed. uid r \<noteq> destinationEventUid m)))))"
proof (cases "readAuthoritativeMappingIds read")
  case (Some ids)
  then obtain look where "getRemoteEventsByIds provider = Some look"
    "look (planDeleteIdentifiers (planTargetedDestinationRead es ms)) w = (Inr (readRemoteEvents read), w')"
    "length (planDeleteIdentifiers (planTargetedDestinationRead es ms)) \<le> 25"
    "ids = planMappingIds (planTargetedDestinationRead es ms)"
    using assms by (auto simp: eff_simps readDestinationRemoteEvents_def Let_def TARGETED_DESTINATION_READ_LIMIT_def
        withVerifiedUnconfirmedMappings_def split: option.splits if_splits prod.splits sum.splits)
  with Some plan_targets [of es ms] show ?thesis
    by (intro disjI1 exI [of _ look] exI [of _ "planDeleteIdentifiers (planTargetedDestinationRead es ms)"]) simp
next
  case None
  then obtain listed w1 where l: "listRemoteEvents provider requested w = (Inr listed, w1)"
    "withVerifiedUnconfirmedMappings lc provider ms listed requested w1 = (Inr (readRemoteEvents read), w')"
    using assms by (auto simp: eff_simps readDestinationRemoteEvents_def Let_def
        split: option.splits if_splits prod.splits sum.splits)
  let ?ids = "unconfirmedDeleteIds lc ms listed requested"
  have un: "\<forall>d \<in> set ?ids. \<exists>m \<in> set ms. deleteIdentifier m = d
      \<and> (\<forall>r \<in> set listed. uid r \<noteq> destinationEventUid m)"
    using unconfirmed_bounds(2) [of _ lc ms listed requested] by (fastforce simp: image_iff)
  consider "readRemoteEvents read = listed" "w' = w1"
    | verify verified where "verifyEventsExist provider = Some verify" "verify ?ids w1 = (Inr verified, w')"
        "readRemoteEvents read = listed @ verified" "?ids \<noteq> []"
    using l(2) by (auto simp: eff_simps withVerifiedUnconfirmedMappings_def Let_def
        split: option.splits if_splits prod.splits sum.splits)
  then show ?thesis
    using l(1) None un unconfirmed_bounds(1) [of lc ms listed requested, unfolded DESTINATION_VERIFICATION_LIMIT_def]
    by cases blast+
qed

definition sample_read_provider :: "(nat, string) TargetedDestinationReadProvider" where
  "sample_read_provider = \<lparr>getRemoteEventsByIds = Some (\<lambda>ids w. (Inr [sample_remote], w + 1)),
    listRemoteEvents = (\<lambda>_ w. (Inl ''unused'', w)), verifyEventsExist = None\<rparr>"

theorem remote_read_scope_witness:
  "readDestinationRemoteEvents (\<lambda>_ _. 0) [sample_mapping] [sample_event] sample_read_provider
      \<lparr>timeMin = 0, timeMax = 10\<rparr> 0 =
      (Inr \<lparr>readAuthoritativeMappingIds = Some {''m1''}, readRemoteEvents = [sample_remote]\<rparr>, 1)
   \<and> (\<exists>look ids. getRemoteEventsByIds sample_read_provider = Some look
       \<and> look ids 0 = (Inr [sample_remote], 1) \<and> length ids \<le> 25)"
proof
  show 1: "readDestinationRemoteEvents (\<lambda>_ _. 0) [sample_mapping] [sample_event] sample_read_provider
      \<lparr>timeMin = 0, timeMax = 10\<rparr> 0 =
      (Inr \<lparr>readAuthoritativeMappingIds = Some {''m1''}, readRemoteEvents = [sample_remote]\<rparr>, 1)"
    by (simp add: eff_simps readDestinationRemoteEvents_def planTargetedDestinationRead_def group_push_def set_add_def
        sample_read_provider_def sample_mapping_def sample_event_def TARGETED_DESTINATION_READ_LIMIT_def)
  from remote_read_scope [OF 1]
  show "\<exists>look ids. getRemoteEventsByIds sample_read_provider = Some look
       \<and> look ids 0 = (Inr [sample_remote], 1) \<and> length ids \<le> 25"
    by auto
qed

end
