(* ===== verification/Engine.thy ===== *)
theory Engine
  imports Reconcile
begin

text \<open>
  The sync engine (\<open>core/sync-engine/index.ts\<close>, \<open>types.ts\<close>, \<open>unrecorded-copies.ts\<close>):
  it executes the operations of a run against a provider in chunks, turns the provider's answers
  into mapping changes, checkpoints them after every call, and stops when the run is superseded.

  The provider, the flush, the currency check and the progress callback are arguments: effects on
  a world \<open>'w\<close> which may throw an \<open>'e\<close>. The mutable objects of the source are threaded as
  records. Telemetry (phase timers, wide-event fields other than the outcome) is left out.
\<close>

section \<open>Data\<close>

datatype PushEchoComparison = Comparable PushEchoFieldDivergence | Uncomparable string

record PushResult =
  pushSuccess :: bool
  pushRemoteId :: "string option"
  pushDeleteId :: "string option"
  pushEchoResult :: "PushEchoComparison option"
  pushError :: "string option"
  pushErrorType :: "string option"
  pushStatusCode :: "int option"
  pushConflictResolved :: "bool option"
  pushWriteAccessDenied :: "bool option"

record DeleteResult =
  delSuccess :: bool
  delError :: "string option"
  delErrorType :: "string option"
  delStatusCode :: "int option"
  delWriteAccessDenied :: "bool option"

record SyncResult =
  added :: nat
  addFailed :: nat
  removed :: nat
  removeFailed :: nat

record EventUpdate =
  updDeleteId :: string
  updEvent :: MaterializedSyncableEvent

record PendingInsert = EventTimeRange +
  insEventStateId :: string
  insSourceCalendarId :: string
  insSyncEventId :: string
  insCalendarId :: string
  insDestinationEventUid :: string
  insDeleteIdentifier :: string
  insSyncEventHash :: "string option"

type_synonym PendingUpdate = MappingUpdate

record PendingChanges =
  inserts :: "PendingInsert list"
  deletes :: "string list"
  updates :: "PendingUpdate list option"

record ('w, 'e) CalendarSyncProvider =
  normalizeEvent :: "(MaterializedSyncableEvent \<Rightarrow> MaterializedSyncableEvent) option"
  pushEvents :: "MaterializedSyncableEvent list \<Rightarrow> ('w, 'e, PushResult list) eff"
  updateEvents :: "(EventUpdate list \<Rightarrow> ('w, 'e, PushResult list) eff) option"
  deleteEvents :: "string list \<Rightarrow> ('w, 'e, DeleteResult list) eff"

datatype error_kind = ErrAdd | ErrRemove | ErrUpdate

record OperationError =
  errKind :: error_kind
  errMessage :: string
  errErrorType :: "string option"
  errStatusCode :: "int option"
  errWriteAccessDenied :: bool

record PushEchoCounts =
  cntAllDay :: nat
  cntChanged :: nat
  cntCompared :: nat
  cntDescription :: nat
  cntDescriptionEchoLength :: nat
  cntDescriptionSentLength :: nat
  cntEnd :: nat
  cntLocation :: nat
  cntLocationEchoLength :: nat
  cntLocationSentLength :: nat
  cntStart :: nat
  cntSummary :: nat
  cntSummaryEchoLength :: nat
  cntSummarySentLength :: nat
  cntUncomparable :: nat

definition createPushEchoCounts :: PushEchoCounts where
  "createPushEchoCounts =
    \<lparr>cntAllDay = 0, cntChanged = 0, cntCompared = 0, cntDescription = 0, cntDescriptionEchoLength = 0,
     cntDescriptionSentLength = 0, cntEnd = 0, cntLocation = 0, cntLocationEchoLength = 0,
     cntLocationSentLength = 0, cntStart = 0, cntSummary = 0, cntSummaryEchoLength = 0,
     cntSummarySentLength = 0, cntUncomparable = 0\<rparr>"

section \<open>Reading the provider's answers\<close>

text \<open>\<open>results[index]\<close> for each operation: absent beyond the end of the answer.\<close>

definition with_results :: "'a list \<Rightarrow> 'b list \<Rightarrow> ('a \<times> 'b option) list" where
  "with_results ops results = zip ops (map Some results @ replicate (length ops) None)"

definition is_true :: "bool option \<Rightarrow> bool" where
  "is_true v = (v = Some True)"

definition truthy_string :: "string option \<Rightarrow> string option" where
  "truthy_string v = (if str_truthy v then v else None)"

definition tallyPushEchoResult :: "PushResult \<Rightarrow> PushEchoCounts \<Rightarrow> PushEchoCounts" where
  "tallyPushEchoResult r c =
    (if \<not> pushSuccess r \<or> \<not> str_truthy (pushRemoteId r) then c
     else (case pushEchoResult r of
         Some (Comparable d) \<Rightarrow>
           (let c1 = c\<lparr>cntCompared := cntCompared c + 1\<rparr> in
            if \<not> hasPushEchoDivergence d then c1
            else (let len = (\<lambda>sel f. case map_of (divLengths d) f of None \<Rightarrow> 0 | Some l \<Rightarrow> sel l) in
              c1\<lparr>cntChanged := cntChanged c1 + 1,
                 cntAllDay := cntAllDay c1 + of_bool (divAllDay d),
                 cntDescription := cntDescription c1 + of_bool (divDescription d),
                 cntEnd := cntEnd c1 + of_bool (divEnd d),
                 cntLocation := cntLocation c1 + of_bool (divLocation d),
                 cntStart := cntStart c1 + of_bool (divStart d),
                 cntSummary := cntSummary c1 + of_bool (divSummary d),
                 cntDescriptionEchoLength := cntDescriptionEchoLength c1 + len echoLength FDescription,
                 cntDescriptionSentLength := cntDescriptionSentLength c1 + len sentLength FDescription,
                 cntLocationEchoLength := cntLocationEchoLength c1 + len echoLength FLocation,
                 cntLocationSentLength := cntLocationSentLength c1 + len sentLength FLocation,
                 cntSummaryEchoLength := cntSummaryEchoLength c1 + len echoLength FSummary,
                 cntSummarySentLength := cntSummarySentLength c1 + len sentLength FSummary\<rparr>))
       | _ \<Rightarrow> c\<lparr>cntUncomparable := cntUncomparable c + 1\<rparr>))"

definition tallyPushEcho :: "PushEchoCounts \<Rightarrow> PushResult list \<Rightarrow> PushEchoCounts" where
  "tallyPushEcho counts pushResults = fold tallyPushEchoResult pushResults counts"

definition pushResultError :: "error_kind \<Rightarrow> PushResult option \<Rightarrow> OperationError list" where
  "pushResultError kind r = (case r of
     None \<Rightarrow> []
   | Some p \<Rightarrow> if str_truthy (pushError p)
       then [\<lparr>errKind = kind, errMessage = or_else (pushError p) [],
              errErrorType = truthy_string (pushErrorType p), errStatusCode = pushStatusCode p,
              errWriteAccessDenied = is_true (pushWriteAccessDenied p)\<rparr>]
       else [])"

definition deleteResultError :: "DeleteResult option \<Rightarrow> OperationError list" where
  "deleteResultError r = (case r of
     None \<Rightarrow> []
   | Some p \<Rightarrow> if str_truthy (delError p)
       then [\<lparr>errKind = ErrRemove, errMessage = or_else (delError p) [],
              errErrorType = truthy_string (delErrorType p), errStatusCode = delStatusCode p,
              errWriteAccessDenied = is_true (delWriteAccessDenied p)\<rparr>]
       else [])"

record AddOutcome =
  outInserts :: "PendingInsert list"
  outDeletes :: "string list"
  outAdded :: nat
  outAddFailed :: nat
  outConflicts :: nat
  outErrors :: "OperationError list"

definition pendingInsertFor ::
  "(string \<Rightarrow> string) \<Rightarrow> string \<Rightarrow> MaterializedSyncableEvent \<Rightarrow> string \<Rightarrow> string option \<Rightarrow> PendingInsert" where
  "pendingInsertFor sha256 calendarId e remoteId dId =
    \<lparr>startTime = startTime e, endTime = endTime e,
     insEventStateId = or_else (evEventStateId e) (evId e), insSourceCalendarId = evCalendarId e,
     insSyncEventId = evId e, insCalendarId = calendarId, insDestinationEventUid = remoteId,
     insDeleteIdentifier = or_else dId remoteId,
     insSyncEventHash = Some (createSyncEventContentHash sha256 e)\<rparr>"

definition processAddResult ::
  "(string \<Rightarrow> string) \<Rightarrow> string \<Rightarrow> SyncOperation \<times> PushResult option \<Rightarrow> AddOutcome \<Rightarrow> AddOutcome" where
  "processAddResult sha256 calendarId p acc =
    (let (oper, pushResult) = p;
         staleDeletes = (if str_truthy (addStale oper) then [or_else (addStale oper) []] else [])
     in case pushResult of
       Some r \<Rightarrow>
         if \<not> pushSuccess r
         then acc\<lparr>outAddFailed := outAddFailed acc + 1,
                  outErrors := outErrors acc @ pushResultError ErrAdd pushResult\<rparr>
         else if \<not> str_truthy (pushRemoteId r)
         then acc\<lparr>outDeletes := outDeletes acc @ staleDeletes\<rparr>
         else acc\<lparr>outAdded := outAdded acc + 1,
                  outConflicts := outConflicts acc + of_bool (is_true (pushConflictResolved r)),
                  outInserts := outInserts acc
                    @ [pendingInsertFor sha256 calendarId (opEvent oper) (or_else (pushRemoteId r) []) (pushDeleteId r)],
                  outDeletes := outDeletes acc @ staleDeletes\<rparr>
     | None \<Rightarrow> acc\<lparr>outAddFailed := outAddFailed acc + 1\<rparr>)"

definition processAddResults ::
  "(string \<Rightarrow> string) \<Rightarrow> SyncOperation list \<Rightarrow> PushResult list \<Rightarrow> string \<Rightarrow> AddOutcome" where
  "processAddResults sha256 addOperations pushResults calendarId =
    fold (processAddResult sha256 calendarId) (with_results addOperations pushResults)
      \<lparr>outInserts = [], outDeletes = [], outAdded = 0, outAddFailed = 0, outConflicts = 0, outErrors = []\<rparr>"

record UpdateOutcome =
  uoUpdates :: "PendingUpdate list"
  uoUpdated :: nat
  uoConflicts :: nat
  uoErrors :: "OperationError list"
  uoUnresolved :: "SyncOperation list"

definition pendingUpdateFor :: "(string \<Rightarrow> string) \<Rightarrow> SyncOperation \<Rightarrow> PushResult \<Rightarrow> PendingUpdate" where
  "pendingUpdateFor sha256 oper r =
    \<lparr>startTime = startTime (opEvent oper), endTime = endTime (opEvent oper),
     updDeleteIdentifier = or_else (pushDeleteId r) (or_else (pushRemoteId r) (opDeleteId oper)),
     updId = opStale oper, updSyncEventHash = createSyncEventContentHash sha256 (opEvent oper),
     updSyncEventId = evId (opEvent oper)\<rparr>"

definition processUpdateResult ::
  "(string \<Rightarrow> string) \<Rightarrow> SyncOperation \<times> PushResult option \<Rightarrow> UpdateOutcome \<Rightarrow> UpdateOutcome" where
  "processUpdateResult sha256 p acc =
    (let (oper, pushResult) = p
     in case pushResult of
       Some r \<Rightarrow>
         if \<not> pushSuccess r
         then acc\<lparr>uoUnresolved := uoUnresolved acc @ [oper],
                  uoErrors := uoErrors acc @ pushResultError ErrUpdate pushResult\<rparr>
         else acc\<lparr>uoUpdated := uoUpdated acc + 1,
                  uoConflicts := uoConflicts acc + of_bool (is_true (pushConflictResolved r)),
                  uoUpdates := uoUpdates acc @ [pendingUpdateFor sha256 oper r]\<rparr>
     | None \<Rightarrow> acc\<lparr>uoUnresolved := uoUnresolved acc @ [oper]\<rparr>)"

definition processUpdateResults ::
  "(string \<Rightarrow> string) \<Rightarrow> SyncOperation list \<Rightarrow> PushResult list \<Rightarrow> UpdateOutcome" where
  "processUpdateResults sha256 replacements pushResults =
    fold (processUpdateResult sha256) (with_results replacements pushResults)
      \<lparr>uoUpdates = [], uoUpdated = 0, uoConflicts = 0, uoErrors = [], uoUnresolved = []\<rparr>"

record DeleteOutcome =
  doDeleteIds :: "string list"
  doRemoved :: nat
  doRemoveFailed :: nat
  doErrors :: "OperationError list"

definition removedMappingId :: "(string, EventMapping) jsmap \<Rightarrow> SyncOperation \<Rightarrow> string option" where
  "removedMappingId byIdentity oper =
    (case opMappingId oper of
       Some i \<Rightarrow> Some i
     | None \<Rightarrow> map_option mapId (map_of byIdentity (getRemoteIdentity (opUid oper) (opDeleteId oper))))"

definition processDeleteResult ::
  "(string, EventMapping) jsmap \<Rightarrow> SyncOperation \<times> DeleteResult option \<Rightarrow> DeleteOutcome \<Rightarrow> DeleteOutcome" where
  "processDeleteResult byIdentity p acc =
    (let (oper, deleteResult) = p
     in case deleteResult of
       Some r \<Rightarrow>
         if \<not> delSuccess r
         then acc\<lparr>doRemoveFailed := doRemoveFailed acc + 1,
                  doErrors := doErrors acc @ deleteResultError deleteResult\<rparr>
         else acc\<lparr>doRemoved := doRemoved acc + 1,
                  doDeleteIds := doDeleteIds acc
                    @ (let mappingId = removedMappingId byIdentity oper
                       in if str_truthy mappingId then [or_else mappingId []] else [])\<rparr>
     | None \<Rightarrow> acc\<lparr>doRemoveFailed := doRemoveFailed acc + 1\<rparr>)"

definition processDeleteResults ::
  "SyncOperation list \<Rightarrow> DeleteResult list \<Rightarrow> (string, EventMapping) jsmap \<Rightarrow> DeleteOutcome" where
  "processDeleteResults removeOperations deleteResults byIdentity =
    fold (processDeleteResult byIdentity) (with_results removeOperations deleteResults)
      \<lparr>doDeleteIds = [], doRemoved = 0, doRemoveFailed = 0, doErrors = []\<rparr>"

section \<open>One provider call\<close>

record RunResult =
  runChanges :: PendingChanges
  runResult :: SyncResult
  runConflicts :: nat
  runErrors :: "OperationError list"
  runPushEcho :: "PushEchoCounts option"

definition executeAddRun ::
  "(string \<Rightarrow> string) \<Rightarrow> SyncOperation list \<Rightarrow> string \<Rightarrow> ('w, 'e) CalendarSyncProvider
    \<Rightarrow> ('w, 'e, RunResult) eff" where
  "executeAddRun sha256 adds calendarId provider =
    eff_bind (pushEvents provider (map opEvent adds)) (\<lambda>pushResults.
      let out = processAddResults sha256 adds pushResults calendarId in
      eff_return \<lparr>runChanges = \<lparr>inserts = outInserts out, deletes = outDeletes out, updates = None\<rparr>,
        runResult = \<lparr>added = outAdded out, addFailed = outAddFailed out, removed = 0, removeFailed = 0\<rparr>,
        runConflicts = outConflicts out, runErrors = outErrors out,
        runPushEcho = Some (tallyPushEcho createPushEchoCounts pushResults)\<rparr>)"

definition executeUpdateRun ::
  "(string \<Rightarrow> string) \<Rightarrow> SyncOperation list \<Rightarrow> (EventUpdate list \<Rightarrow> ('w, 'e, PushResult list) eff)
    \<Rightarrow> ('w, 'e, RunResult \<times> SyncOperation list) eff" where
  "executeUpdateRun sha256 replacements upd =
    eff_bind (upd (map (\<lambda>oper. \<lparr>updDeleteId = opDeleteId oper, updEvent = opEvent oper\<rparr>) replacements))
      (\<lambda>pushResults.
      let out = processUpdateResults sha256 replacements pushResults in
      eff_return (\<lparr>runChanges = \<lparr>inserts = [], deletes = [], updates = Some (uoUpdates out)\<rparr>,
        runResult = \<lparr>added = uoUpdated out, addFailed = 0, removed = 0, removeFailed = 0\<rparr>,
        runConflicts = uoConflicts out, runErrors = uoErrors out,
        runPushEcho = Some (tallyPushEcho createPushEchoCounts pushResults)\<rparr>, uoUnresolved out))"

definition deleteRunResult :: "DeleteOutcome \<Rightarrow> RunResult" where
  "deleteRunResult out =
    \<lparr>runChanges = \<lparr>inserts = [], deletes = doDeleteIds out, updates = None\<rparr>,
     runResult = \<lparr>added = 0, addFailed = 0, removed = doRemoved out, removeFailed = doRemoveFailed out\<rparr>,
     runConflicts = 0, runErrors = doErrors out, runPushEcho = None\<rparr>"

definition executeRemoveRun ::
  "SyncOperation list \<Rightarrow> ('w, 'e) CalendarSyncProvider \<Rightarrow> (string, EventMapping) jsmap
    \<Rightarrow> ('w, 'e, RunResult) eff" where
  "executeRemoveRun removes provider byIdentity =
    eff_bind (deleteEvents provider (map opDeleteId removes)) (\<lambda>deleteResults.
      eff_return (deleteRunResult (processDeleteResults removes deleteResults byIdentity)))"

section \<open>The state of a chunked run\<close>

record ChunkedExecutionState =
  exChanges :: PendingChanges
  exResult :: SyncResult
  exConflicts :: nat
  exErrors :: "OperationError list"
  exProcessed :: nat
  exPushEcho :: PushEchoCounts
  superseded :: bool
  checkpointRejected :: bool
  protectedRemoteUids :: "string set"
  updateFallbacks :: nat

definition addPushEcho :: "PushEchoCounts \<Rightarrow> PushEchoCounts \<Rightarrow> PushEchoCounts" where
  "addPushEcho a b =
    \<lparr>cntAllDay = cntAllDay a + cntAllDay b, cntChanged = cntChanged a + cntChanged b,
     cntCompared = cntCompared a + cntCompared b, cntDescription = cntDescription a + cntDescription b,
     cntDescriptionEchoLength = cntDescriptionEchoLength a + cntDescriptionEchoLength b,
     cntDescriptionSentLength = cntDescriptionSentLength a + cntDescriptionSentLength b,
     cntEnd = cntEnd a + cntEnd b, cntLocation = cntLocation a + cntLocation b,
     cntLocationEchoLength = cntLocationEchoLength a + cntLocationEchoLength b,
     cntLocationSentLength = cntLocationSentLength a + cntLocationSentLength b,
     cntStart = cntStart a + cntStart b, cntSummary = cntSummary a + cntSummary b,
     cntSummaryEchoLength = cntSummaryEchoLength a + cntSummaryEchoLength b,
     cntSummarySentLength = cntSummarySentLength a + cntSummarySentLength b,
     cntUncomparable = cntUncomparable a + cntUncomparable b\<rparr>"

definition addSyncResult :: "SyncResult \<Rightarrow> SyncResult \<Rightarrow> SyncResult" where
  "addSyncResult a b = \<lparr>added = added a + added b, addFailed = addFailed a + addFailed b,
    removed = removed a + removed b, removeFailed = removeFailed a + removeFailed b\<rparr>"

definition mergeChanges :: "PendingChanges \<Rightarrow> PendingChanges \<Rightarrow> PendingChanges" where
  "mergeChanges a b =
    \<lparr>inserts = inserts a @ inserts b, deletes = deletes a @ deletes b,
     updates = (case updates b of None \<Rightarrow> updates a | Some u \<Rightarrow> Some (or_else (updates a) [] @ u))\<rparr>"

definition mergeRunResult ::
  "ChunkedExecutionState \<Rightarrow> RunResult \<Rightarrow> bool \<Rightarrow> ChunkedExecutionState" where
  "mergeRunResult state run includeChanges =
    state\<lparr>exChanges := (if includeChanges then mergeChanges (exChanges state) (runChanges run)
                        else exChanges state),
          exResult := addSyncResult (exResult state) (runResult run),
          exConflicts := exConflicts state + runConflicts run,
          exErrors := exErrors state @ runErrors run,
          exPushEcho := (case runPushEcho run of None \<Rightarrow> exPushEcho state
                         | Some c \<Rightarrow> addPushEcho (exPushEcho state) c),
          protectedRemoteUids := (if includeChanges
             then protectedRemoteUids state \<union> insDestinationEventUid ` set (inserts (runChanges run))
             else protectedRemoteUids state)\<rparr>"

definition OPERATION_CHUNK_SIZE :: nat where
  "OPERATION_CHUNK_SIZE = 50"

definition chunkOperations :: "'a list \<Rightarrow> nat \<Rightarrow> 'a list list" where
  "chunkOperations ops sz = chunks_from ops sz 0"

text \<open>The optional callbacks of a run.\<close>

record ('w, 'e) RunCallbacks =
  isCurrent :: "('w, 'e, bool) eff option"
  onRunComplete :: "(nat \<Rightarrow> nat \<Rightarrow> ('w, 'e, unit) eff) option"
  checkpoint :: "(PendingChanges \<Rightarrow> ('w, 'e, bool) eff) option"

definition checkpointRun ::
  "ChunkedExecutionState \<Rightarrow> PendingChanges \<Rightarrow> ('w, 'e) RunCallbacks
    \<Rightarrow> ('w, 'e, bool \<times> ChunkedExecutionState) eff" where
  "checkpointRun state changes cbs =
    (case checkpoint cbs of
       None \<Rightarrow> eff_return (True, state)
     | Some cp \<Rightarrow>
         if inserts changes = [] \<and> deletes changes = [] \<and> length (or_else (updates changes) []) = 0
         then eff_return (True, state)
         else eff_bind (cp changes) (\<lambda>accepted.
           if \<not> accepted then eff_return (False, state\<lparr>checkpointRejected := True\<rparr>)
           else eff_return (True, state)))"

definition checkSuperseded ::
  "ChunkedExecutionState \<Rightarrow> ('w, 'e) RunCallbacks \<Rightarrow> ('w, 'e, ChunkedExecutionState) eff" where
  "checkSuperseded state cbs =
    (case isCurrent cbs of
       None \<Rightarrow> eff_return state
     | Some cur \<Rightarrow> eff_bind cur (\<lambda>stillCurrent.
         eff_return (if \<not> stillCurrent then state\<lparr>superseded := True\<rparr> else state)))"

definition completeRun ::
  "ChunkedExecutionState \<Rightarrow> nat \<Rightarrow> nat \<Rightarrow> ('w, 'e) RunCallbacks \<Rightarrow> ('w, 'e, ChunkedExecutionState) eff" where
  "completeRun state n totalOps cbs =
    (let state' = state\<lparr>exProcessed := exProcessed state + n\<rparr> in
     eff_bind (case onRunComplete cbs of None \<Rightarrow> eff_return () | Some f \<Rightarrow> f (exProcessed state') totalOps)
       (\<lambda>_. checkSuperseded state' cbs))"

section \<open>Chunks of one kind of operation\<close>

definition executeAdds ::
  "(string \<Rightarrow> string) \<Rightarrow> SyncOperation list \<Rightarrow> string \<Rightarrow> ('w, 'e) CalendarSyncProvider
    \<Rightarrow> ChunkedExecutionState \<Rightarrow> nat \<Rightarrow> ('w, 'e) RunCallbacks \<Rightarrow> ('w, 'e, ChunkedExecutionState) eff" where
  "executeAdds sha256 adds calendarId provider state totalOps cbs =
    (if length adds = 0 then eff_return state
     else eff_bind (executeAddRun sha256 adds calendarId provider) (\<lambda>run.
       eff_bind (checkpointRun (mergeRunResult state run True) (runChanges run) cbs) (\<lambda>(ok, state').
         if \<not> ok then eff_return state' else completeRun state' (length adds) totalOps cbs)))"

definition executeRemoves ::
  "SyncOperation list \<Rightarrow> ('w, 'e) CalendarSyncProvider \<Rightarrow> (string, EventMapping) jsmap
    \<Rightarrow> ChunkedExecutionState \<Rightarrow> nat \<Rightarrow> ('w, 'e) RunCallbacks \<Rightarrow> ('w, 'e, ChunkedExecutionState) eff" where
  "executeRemoves removes provider byIdentity state totalOps cbs =
    (if length removes = 0 then eff_return state
     else let actionable = filter (\<lambda>oper. opUid oper \<notin> protectedRemoteUids state) removes in
       if length actionable > 0
       then eff_bind (executeRemoveRun actionable provider byIdentity) (\<lambda>run.
         eff_bind (checkpointRun (mergeRunResult state run True) (runChanges run) cbs) (\<lambda>(ok, state').
           if \<not> ok then eff_return state' else completeRun state' (length removes) totalOps cbs))
       else completeRun state (length removes) totalOps cbs)"

definition removeForReplacement :: "SyncOperation \<Rightarrow> SyncOperation" where
  "removeForReplacement oper = Remove (opUid oper) (opDeleteId oper) (startTime (opEvent oper)) None"

definition addsAfterDelete :: "SyncOperation list \<Rightarrow> DeleteResult list \<Rightarrow> SyncOperation list" where
  "addsAfterDelete replacements deleteResults =
    map (\<lambda>(oper, _). Add (opEvent oper) (Some (opStale oper)))
      (filter (\<lambda>(_, r). case r of None \<Rightarrow> False | Some d \<Rightarrow> delSuccess d)
        (with_results replacements deleteResults))"

definition replaceViaDeleteThenAdd ::
  "(string \<Rightarrow> string) \<Rightarrow> SyncOperation list \<Rightarrow> string \<Rightarrow> ('w, 'e) CalendarSyncProvider
    \<Rightarrow> (string, EventMapping) jsmap \<Rightarrow> ChunkedExecutionState \<Rightarrow> ('w, 'e) RunCallbacks
    \<Rightarrow> ('w, 'e, bool \<times> ChunkedExecutionState) eff" where
  "replaceViaDeleteThenAdd sha256 replacements calendarId provider byIdentity state cbs =
    (let removes = map removeForReplacement replacements in
     eff_bind (deleteEvents provider (map opDeleteId removes)) (\<lambda>deleteResults.
       let state1 = mergeRunResult state
             (deleteRunResult (processDeleteResults removes deleteResults byIdentity)) False;
           adds = addsAfterDelete replacements deleteResults
       in if length adds > 0
          then eff_bind (executeAddRun sha256 adds calendarId provider) (\<lambda>run.
            checkpointRun (mergeRunResult state1 run True) (runChanges run) cbs)
          else eff_return (True, state1)))"

definition executeReplacements ::
  "(string \<Rightarrow> string) \<Rightarrow> SyncOperation list \<Rightarrow> string \<Rightarrow> ('w, 'e) CalendarSyncProvider
    \<Rightarrow> (string, EventMapping) jsmap \<Rightarrow> ChunkedExecutionState \<Rightarrow> nat \<Rightarrow> ('w, 'e) RunCallbacks
    \<Rightarrow> ('w, 'e, ChunkedExecutionState) eff" where
  "executeReplacements sha256 replacements calendarId provider byIdentity state totalOps cbs =
    (if length replacements = 0 then eff_return state
     else case updateEvents provider of
       Some upd \<Rightarrow>
         eff_bind (executeUpdateRun sha256 replacements upd) (\<lambda>(run, unresolved).
           let unresolvedIds = set (map opStale unresolved);
               state1 = mergeRunResult state run True;
               state2 = state1\<lparr>protectedRemoteUids := protectedRemoteUids state1
                   \<union> set (map opUid (filter (\<lambda>r. opStale r \<notin> unresolvedIds) replacements)),
                 updateFallbacks := updateFallbacks state1 + length unresolved\<rparr>
           in eff_bind (checkpointRun state2 (runChanges run) cbs) (\<lambda>(ok, state3).
             if \<not> ok then eff_return state3
             else if length unresolved > 0
             then eff_bind (replaceViaDeleteThenAdd sha256 unresolved calendarId provider byIdentity state3 cbs)
               (\<lambda>(recovered, state4).
                 if \<not> recovered then eff_return state4
                 else completeRun state4 (length replacements * 2) totalOps cbs)
             else completeRun state3 (length replacements * 2) totalOps cbs))
     | None \<Rightarrow>
         eff_bind (replaceViaDeleteThenAdd sha256 replacements calendarId provider byIdentity state cbs)
           (\<lambda>(ok, state1).
             if \<not> ok then eff_return state1
             else completeRun state1 (length replacements * 2) totalOps cbs))"

section \<open>The whole run\<close>

definition getOperationWeight :: "SyncOperation \<Rightarrow> nat" where
  "getOperationWeight oper = (if is_Replace oper then 2 else 1)"

definition getTotalOperationCount :: "SyncOperation list \<Rightarrow> nat" where
  "getTotalOperationCount ops = fold (\<lambda>oper acc. acc + getOperationWeight oper) ops 0"

definition mappingsByRemoteIdentity :: "EventMapping list \<Rightarrow> (string, EventMapping) jsmap" where
  "mappingsByRemoteIdentity mappings =
    jsmap_of (map (\<lambda>m. (getRemoteIdentity (destinationEventUid m) (deleteIdentifier m), m)) mappings)"

definition initialExecutionState :: ChunkedExecutionState where
  "initialExecutionState =
    \<lparr>exChanges = \<lparr>inserts = [], deletes = [], updates = Some []\<rparr>,
     exResult = \<lparr>added = 0, addFailed = 0, removed = 0, removeFailed = 0\<rparr>,
     exConflicts = 0, exErrors = [], exProcessed = 0, exPushEcho = createPushEchoCounts,
     superseded = False, checkpointRejected = False, protectedRemoteUids = {}, updateFallbacks = 0\<rparr>"

definition halted :: "ChunkedExecutionState \<Rightarrow> bool" where
  "halted state \<longleftrightarrow> superseded state \<or> checkpointRejected state"

definition executeChunk ::
  "(string \<Rightarrow> string) \<Rightarrow> string \<Rightarrow> ('w, 'e) CalendarSyncProvider \<Rightarrow> (string, EventMapping) jsmap
    \<Rightarrow> nat \<Rightarrow> ('w, 'e) RunCallbacks \<Rightarrow> SyncOperation list \<Rightarrow> ChunkedExecutionState
    \<Rightarrow> ('w, 'e, ChunkedExecutionState) eff" where
  "executeChunk sha256 calendarId provider byIdentity totalOps cbs ops state =
    eff_bind (executeRemoves (filter is_Remove ops) provider byIdentity state totalOps cbs) (\<lambda>state1.
      if halted state1 then eff_return state1
      else eff_bind (executeReplacements sha256 (filter is_Replace ops) calendarId provider byIdentity
          state1 totalOps cbs) (\<lambda>state2.
        if halted state2 then eff_return state2
        else executeAdds sha256 (filter is_Add ops) calendarId provider state2 totalOps cbs))"

fun executeChunks ::
  "(SyncOperation list \<Rightarrow> ChunkedExecutionState \<Rightarrow> ('w, 'e, ChunkedExecutionState) eff)
    \<Rightarrow> SyncOperation list list \<Rightarrow> ChunkedExecutionState \<Rightarrow> ('w, 'e, ChunkedExecutionState) eff" where
  "executeChunks run [] state = eff_return state"
| "executeChunks run (ops # chunks) state =
    (if halted state then eff_return state
     else eff_bind (run ops state) (\<lambda>state'. executeChunks run chunks state'))"

definition executeRemoteOperations ::
  "(string \<Rightarrow> string) \<Rightarrow> SyncOperation list \<Rightarrow> EventMapping list \<Rightarrow> string
    \<Rightarrow> ('w, 'e) CalendarSyncProvider \<Rightarrow> ('w, 'e) RunCallbacks \<Rightarrow> ('w, 'e, ChunkedExecutionState) eff" where
  "executeRemoteOperations sha256 ops existingMappings calendarId provider cbs =
    executeChunks (executeChunk sha256 calendarId provider (mappingsByRemoteIdentity existingMappings)
        (getTotalOperationCount ops) cbs)
      (chunkOperations ops OPERATION_CHUNK_SIZE) initialExecutionState"

end
