(* ===== verification/Engine_Correct.thy ===== *)
theory Engine_Correct
  imports Engine
begin

text \<open>
  Properties of the chunked execution, for any provider: what the answers of one call turn into,
  that changes are recorded only for operations of the run, that counters never exceed the work
  requested and the progress reaches exactly the total, and that every change was handed to the
  checkpoint.
\<close>

section \<open>Partial correctness of effects\<close>

definition ensures :: "('w, 'e, 'a) eff \<Rightarrow> 'w \<Rightarrow> ('a \<Rightarrow> 'w \<Rightarrow> bool) \<Rightarrow> bool" where
  "ensures m w P \<longleftrightarrow> (case m w of (Inl e, w') \<Rightarrow> True | (Inr x, w') \<Rightarrow> P x w')"

lemma ensures_return [simp]: "ensures (eff_return x) w P \<longleftrightarrow> P x w"
  by (simp add: ensures_def eff_simps)

lemma ensures_bind [simp]: "ensures (eff_bind m f) w P \<longleftrightarrow> ensures m w (\<lambda>x w'. ensures (f x) w' P)"
  by (auto simp: ensures_def eff_simps split: prod.splits sum.splits)

lemma ensures_mono: "ensures m w P \<Longrightarrow> (\<And>x w'. m w = (Inr x, w') \<Longrightarrow> P x w' \<Longrightarrow> Q x w') \<Longrightarrow> ensures m w Q"
  by (auto simp: ensures_def split: prod.splits sum.splits)

lemma ensures_top: "(\<And>x w'. P x w') \<Longrightarrow> ensures m w P"
  by (auto simp: ensures_def split: prod.splits sum.splits)

lemma ensuresD: "ensures m w P \<Longrightarrow> m w = (Inr x, w') \<Longrightarrow> P x w'"
  by (auto simp: ensures_def)

section \<open>One call\<close>

lemma with_results_fst: "map fst (with_results ops rs) = ops"
  by (simp add: with_results_def map_fst_zip_take)

lemma length_with_results [simp]: "length (with_results ops rs) = length ops"
  by (metis length_map with_results_fst)

lemma with_results_in: "(oper, r) \<in> set (with_results ops rs) \<Longrightarrow> oper \<in> set ops"
  by (metis fst_conv imageI list.set_map with_results_fst)

lemma with_results_Nil [simp]: "with_results [] rs = []"
  by (simp add: with_results_def)

definition push_recorded :: "SyncOperation \<times> PushResult option \<Rightarrow> bool" where
  "push_recorded p = (case snd p of None \<Rightarrow> False | Some r \<Rightarrow> pushSuccess r \<and> str_truthy (pushRemoteId r))"

definition push_accepted :: "SyncOperation \<times> PushResult option \<Rightarrow> bool" where
  "push_accepted p = (case snd p of None \<Rightarrow> False | Some r \<Rightarrow> pushSuccess r)"

definition delete_accepted :: "SyncOperation \<times> DeleteResult option \<Rightarrow> bool" where
  "delete_accepted p = (case snd p of None \<Rightarrow> False | Some r \<Rightarrow> delSuccess r)"

definition insert_of :: "(string \<Rightarrow> string) \<Rightarrow> string \<Rightarrow> SyncOperation \<times> PushResult option \<Rightarrow> PendingInsert" where
  "insert_of sha256 cal p = pendingInsertFor sha256 cal (opEvent (fst p))
    (or_else (pushRemoteId (the (snd p))) []) (pushDeleteId (the (snd p)))"

lemma processAdd_fold:
  fixes sha256 cal xs acc
  defines "out \<equiv> fold (processAddResult sha256 cal) xs acc"
  shows "outInserts out = outInserts acc @ map (insert_of sha256 cal) (filter push_recorded xs)"
    "outDeletes out = outDeletes acc @ concat (map (\<lambda>p. case addStale (fst p) of None \<Rightarrow> []
        | Some s \<Rightarrow> if s = [] then [] else [s]) (filter push_accepted xs))"
    "outAdded out = outAdded acc + length (filter push_recorded xs)"
    "outAddFailed out = outAddFailed acc + length (filter (\<lambda>p. \<not> push_accepted p) xs)"
  unfolding out_def
  by (induction xs arbitrary: acc)
    (auto simp: processAddResult_def Let_def push_recorded_def push_accepted_def insert_of_def
      split: option.splits)

lemma processAddResults_eq:
  fixes sha256 ops rs cal
  defines "out \<equiv> processAddResults sha256 ops rs cal" and "xs \<equiv> with_results ops rs"
  shows "outInserts out = map (insert_of sha256 cal) (filter push_recorded xs)"
    "outDeletes out = concat (map (\<lambda>p. case addStale (fst p) of None \<Rightarrow> []
        | Some s \<Rightarrow> if s = [] then [] else [s]) (filter push_accepted xs))"
    "outAdded out = length (filter push_recorded xs)"
    "outAddFailed out = length (filter (\<lambda>p. \<not> push_accepted p) xs)"
  unfolding out_def xs_def processAddResults_def by (simp_all add: processAdd_fold)

lemma processUpdate_fold:
  fixes sha256 xs acc
  defines "out \<equiv> fold (processUpdateResult sha256) xs acc"
  shows "uoUpdates out = uoUpdates acc @ map (\<lambda>p. pendingUpdateFor sha256 (fst p) (the (snd p))) (filter push_accepted xs)"
    "uoUpdated out = uoUpdated acc + length (filter push_accepted xs)"
    "uoUnresolved out = uoUnresolved acc @ map fst (filter (\<lambda>p. \<not> push_accepted p) xs)"
  unfolding out_def
  by (induction xs arbitrary: acc)
    (auto simp: processUpdateResult_def Let_def push_accepted_def split: option.splits)

lemma processUpdateResults_eq:
  fixes sha256 ops rs
  defines "out \<equiv> processUpdateResults sha256 ops rs" and "xs \<equiv> with_results ops rs"
  shows "uoUpdates out = map (\<lambda>p. pendingUpdateFor sha256 (fst p) (the (snd p))) (filter push_accepted xs)"
    "uoUpdated out = length (filter push_accepted xs)"
    "uoUnresolved out = map fst (filter (\<lambda>p. \<not> push_accepted p) xs)"
  unfolding out_def xs_def processUpdateResults_def by (simp_all add: processUpdate_fold)

lemma processDelete_fold:
  fixes byId xs acc
  defines "out \<equiv> fold (processDeleteResult byId) xs acc"
  shows "doDeleteIds out = doDeleteIds acc @ concat (map (\<lambda>p. case removedMappingId byId (fst p) of None \<Rightarrow> []
        | Some s \<Rightarrow> if s = [] then [] else [s]) (filter delete_accepted xs))"
    "doRemoved out = doRemoved acc + length (filter delete_accepted xs)"
    "doRemoveFailed out = doRemoveFailed acc + length (filter (\<lambda>p. \<not> delete_accepted p) xs)"
  unfolding out_def
  by (induction xs arbitrary: acc)
    (auto simp: processDeleteResult_def Let_def delete_accepted_def split: option.splits)

lemma processDeleteResults_eq:
  fixes byId ops rs
  defines "out \<equiv> processDeleteResults ops rs byId" and "xs \<equiv> with_results ops rs"
  shows "doDeleteIds out = concat (map (\<lambda>p. case removedMappingId byId (fst p) of None \<Rightarrow> []
        | Some s \<Rightarrow> if s = [] then [] else [s]) (filter delete_accepted xs))"
    "doRemoved out = length (filter delete_accepted xs)"
    "doRemoveFailed out = length (filter (\<lambda>p. \<not> delete_accepted p) xs)"
  unfolding out_def xs_def processDeleteResults_def by (simp_all add: processDelete_fold)

lemma filter_partition_length: "length (filter P xs) + length (filter (\<lambda>x. \<not> P x) xs) = length xs"
  by (induction xs) auto

lemma recorded_accepted: "length (filter push_recorded xs) \<le> length (filter push_accepted xs)"
  by (induction xs) (auto simp: push_recorded_def push_accepted_def split: option.splits)

text \<open>The answer to a push is accounted for completely: every operation is counted as added, as
  failed, or was accepted without a remote copy; exactly the added ones are inserted, each with
  the event, the provider's ids and the event's content hash; a missing answer counts as a
  failure. Deletions and in-place updates are accounted for in the same way.\<close>

theorem provider_answers_are_accounted_for:
  fixes sha256 adds pushes cal removes dels byId replacements upds
  defines "out \<equiv> processAddResults sha256 adds pushes cal"
    and "dout \<equiv> processDeleteResults removes dels byId"
    and "uout \<equiv> processUpdateResults sha256 replacements upds"
  shows "outAdded out + outAddFailed out
        + length (filter (\<lambda>p. push_accepted p \<and> \<not> push_recorded p) (with_results adds pushes)) = length adds
    \<and> outInserts out = map (insert_of sha256 cal) (filter push_recorded (with_results adds pushes))
    \<and> length (outInserts out) = outAdded out
    \<and> doRemoved dout + doRemoveFailed dout = length removes
    \<and> uoUpdated uout + length (uoUnresolved uout) = length replacements
    \<and> length (uoUpdates uout) = uoUpdated uout"
proof -
  have "length (filter push_recorded xs) + length (filter (\<lambda>p. \<not> push_accepted p) xs)
      + length (filter (\<lambda>p. push_accepted p \<and> \<not> push_recorded p) xs) = length xs" for xs
    by (induction xs) (auto simp: push_recorded_def push_accepted_def split: option.splits)
  from this [of "with_results adds pushes"] show ?thesis
    using filter_partition_length [of delete_accepted "with_results removes dels"]
      filter_partition_length [of push_accepted "with_results replacements upds"]
    by (simp add: out_def dout_def uout_def processAddResults_eq processDeleteResults_eq processUpdateResults_eq)
qed

section \<open>Invariant of a run\<close>

fun releases :: "(string, EventMapping) jsmap \<Rightarrow> SyncOperation \<Rightarrow> string \<Rightarrow> bool" where
  "releases byId (Add e s) d = (s = Some d)"
| "releases byId (Remove u i t m) d = (removedMappingId byId (Remove u i t m) = Some d)"
| "releases byId (Replace e s u i) d = (s = d)"

definition sound_changes ::
  "(string \<Rightarrow> string) \<Rightarrow> string \<Rightarrow> (string, EventMapping) jsmap \<Rightarrow> SyncOperation set \<Rightarrow> PendingChanges \<Rightarrow> bool" where
  "sound_changes sha256 cal byId U c \<longleftrightarrow>
    (\<forall>i \<in> set (inserts c). \<exists>oper \<in> U. \<not> is_Remove oper \<and> insSyncEventId i = evId (opEvent oper)
       \<and> insSyncEventHash i = Some (createSyncEventContentHash sha256 (opEvent oper)) \<and> insCalendarId i = cal)
    \<and> (\<forall>d \<in> set (deletes c). \<exists>oper \<in> U. releases byId oper d)
    \<and> (\<forall>u \<in> set (or_else (updates c) []). \<exists>oper \<in> U. is_Replace oper \<and> updId u = opStale oper
       \<and> updSyncEventId u = evId (opEvent oper)
       \<and> updSyncEventHash u = createSyncEventContentHash sha256 (opEvent oper))"

lemma sound_changes_merge:
  "sound_changes sha256 cal byId U (mergeChanges a b) \<longleftrightarrow>
    sound_changes sha256 cal byId U a \<and> sound_changes sha256 cal byId U b"
  by (auto simp: sound_changes_def mergeChanges_def split: option.splits)

lemma sound_changes_mono:
  "sound_changes sha256 cal byId U c \<Longrightarrow> U \<subseteq> V \<Longrightarrow> sound_changes sha256 cal byId V c"
  unfolding sound_changes_def by blast

definition outcome_count :: "SyncResult \<Rightarrow> nat" where
  "outcome_count r = added r + addFailed r + removed r + removeFailed r"

text \<open>Every event counted as added has one record.\<close>

definition recorded :: "SyncResult \<Rightarrow> PendingChanges \<Rightarrow> bool" where
  "recorded r c \<longleftrightarrow> added r = length (inserts c) + length (or_else (updates c) [])"

lemma recorded_merge: "recorded a c \<Longrightarrow> recorded b d \<Longrightarrow> recorded (addSyncResult a b) (mergeChanges c d)"
  by (auto simp: recorded_def addSyncResult_def mergeChanges_def split: option.splits)

lemma recorded_none: "recorded a c \<Longrightarrow> added b = 0 \<Longrightarrow> recorded (addSyncResult a b) c"
  by (simp add: recorded_def addSyncResult_def)

lemma outcome_count_add [simp]: "outcome_count (addSyncResult a b) = outcome_count a + outcome_count b"
  by (simp add: outcome_count_def addSyncResult_def)

lemma add_run:
  "\<forall>oper \<in> set adds. is_Add oper \<Longrightarrow>
    ensures (executeAddRun sha256 adds cal provider) w (\<lambda>run _.
      sound_changes sha256 cal byId (set adds) (runChanges run) \<and> outcome_count (runResult run) \<le> length adds
      \<and> recorded (runResult run) (runChanges run))"
proof -
  assume adds: "\<forall>oper \<in> set adds. is_Add oper"
  have cnt: "length (filter push_recorded xs) + length (filter (\<lambda>p. \<not> push_accepted p) xs) \<le> length xs" for xs
    using recorded_accepted [of xs] filter_partition_length [of push_accepted xs] by simp
  have "sound_changes sha256 cal byId (set adds)
      \<lparr>inserts = outInserts (processAddResults sha256 adds rs cal),
       deletes = outDeletes (processAddResults sha256 adds rs cal), updates = None\<rparr>" for rs
    using adds by (auto simp: sound_changes_def processAddResults_eq insert_of_def pendingInsertFor_def is_Add_def
        dest!: with_results_in split: option.splits if_splits) (force simp: is_Add_def)+
  then show ?thesis
    using cnt [of "with_results adds _"]
    by (auto simp: executeAddRun_def Let_def outcome_count_def recorded_def processAddResults_eq intro!: ensures_top)
qed

lemma remove_run:
  "\<forall>oper \<in> set removes. is_Remove oper \<Longrightarrow>
    ensures (executeRemoveRun removes provider byId) w (\<lambda>run _.
      sound_changes sha256 cal byId (set removes) (runChanges run) \<and> outcome_count (runResult run) = length removes
      \<and> recorded (runResult run) (runChanges run))"
proof -
  assume rem: "\<forall>oper \<in> set removes. is_Remove oper"
  have "sound_changes sha256 cal byId (set removes)
      \<lparr>inserts = [], deletes = doDeleteIds (processDeleteResults removes rs byId), updates = None\<rparr>" for rs
    using rem by (auto simp: sound_changes_def processDeleteResults_eq is_Remove_def
        dest!: with_results_in split: option.splits if_splits) force
  then show ?thesis
    using filter_partition_length [of delete_accepted "with_results removes _"]
    by (auto simp: executeRemoveRun_def deleteRunResult_def Let_def outcome_count_def recorded_def processDeleteResults_eq
        intro!: ensures_top)
qed

lemma update_run:
  "\<forall>oper \<in> set reps. is_Replace oper \<Longrightarrow>
    ensures (executeUpdateRun sha256 reps upd) w (\<lambda>(run, unresolved) _.
      sound_changes sha256 cal byId (set reps) (runChanges run) \<and> set unresolved \<subseteq> set reps
      \<and> outcome_count (runResult run) + length unresolved = length reps
      \<and> recorded (runResult run) (runChanges run))"
proof -
  assume reps: "\<forall>oper \<in> set reps. is_Replace oper"
  have "sound_changes sha256 cal byId (set reps)
      \<lparr>inserts = [], deletes = [], updates = Some (uoUpdates (processUpdateResults sha256 reps rs))\<rparr>" for rs
    using reps by (auto simp: sound_changes_def processUpdateResults_eq pendingUpdateFor_def
        dest!: with_results_in)
  then show ?thesis
    using filter_partition_length [of push_accepted "with_results reps _"]
    by (auto simp: executeUpdateRun_def Let_def outcome_count_def recorded_def processUpdateResults_eq
        dest: with_results_in intro!: ensures_top)
qed

text \<open>\<open>N\<close> is the weight of the operations taken on so far.\<close>

definition run_inv ::
  "(string \<Rightarrow> string) \<Rightarrow> string \<Rightarrow> (string, EventMapping) jsmap \<Rightarrow> SyncOperation set \<Rightarrow> nat \<Rightarrow> ChunkedExecutionState \<Rightarrow> bool" where
  "run_inv sha256 cal byId U N st \<longleftrightarrow> sound_changes sha256 cal byId U (exChanges st)
    \<and> recorded (exResult st) (exChanges st)
    \<and> outcome_count (exResult st) \<le> N \<and> exProcessed st \<le> N \<and> (\<not> halted st \<longrightarrow> exProcessed st = N)"

lemma run_inv_halted: "run_inv sha256 cal byId U N st \<Longrightarrow> halted st \<Longrightarrow> N \<le> M \<Longrightarrow> run_inv sha256 cal byId U M st"
  by (auto simp: run_inv_def)

lemma mergeRunResult_simps [simp]:
  "exChanges (mergeRunResult st run True) = mergeChanges (exChanges st) (runChanges run)"
  "exChanges (mergeRunResult st run False) = exChanges st"
  "exResult (mergeRunResult st run b) = addSyncResult (exResult st) (runResult run)"
  "exProcessed (mergeRunResult st run b) = exProcessed st"
  "halted (mergeRunResult st run b) = halted st"
  by (simp_all add: mergeRunResult_def halted_def)

lemma checkpointRun_ensures:
  assumes "P True st" "P False (st\<lparr>checkpointRejected := True\<rparr>)"
  shows "ensures (checkpointRun st ch cbs) w (\<lambda>(ok, st') _. P ok st')"
proof (cases "checkpoint cbs")
  case (Some cp)
  have "ensures (eff_bind (cp ch) (\<lambda>ok. if \<not> ok then eff_return (False, st\<lparr>checkpointRejected := True\<rparr>)
      else eff_return (True, st))) w (\<lambda>(ok, st') _. P ok st')"
    unfolding ensures_bind by (rule ensures_top) (simp add: assms)
  then show ?thesis using Some assms(1) by (simp add: checkpointRun_def del: ensures_bind)
qed (simp add: checkpointRun_def assms)

lemma checkpoint_then:
  assumes "\<And>w. ensures (f st) w (\<lambda>s _. Q s)" "Q (st\<lparr>checkpointRejected := True\<rparr>)"
  shows "ensures (eff_bind (checkpointRun st ch cbs)
    (\<lambda>(ok, st'). if \<not> ok then eff_return st' else f st')) w (\<lambda>s _. Q s)"
proof -
  have "ensures (checkpointRun st ch cbs) w (\<lambda>(ok, st') _.
      \<forall>w. ensures (if \<not> ok then eff_return st' else f st') w (\<lambda>s _. Q s))"
    by (rule checkpointRun_ensures) (simp_all add: assms)
  then show ?thesis by (auto elim!: ensures_mono)
qed

text \<open>What holds between a merge and the end of the run it belongs to.\<close>

definition mid_inv ::
  "(string \<Rightarrow> string) \<Rightarrow> string \<Rightarrow> (string, EventMapping) jsmap \<Rightarrow> SyncOperation set \<Rightarrow> nat \<Rightarrow> nat \<Rightarrow> ChunkedExecutionState \<Rightarrow> bool" where
  "mid_inv sha256 cal byId U N k st \<longleftrightarrow> sound_changes sha256 cal byId U (exChanges st)
    \<and> recorded (exResult st) (exChanges st)
    \<and> outcome_count (exResult st) \<le> N + k \<and> exProcessed st = N"

lemma run_inv_mid: "run_inv sha256 cal byId U N st \<Longrightarrow> \<not> halted st \<Longrightarrow> mid_inv sha256 cal byId U N 0 st"
  by (simp add: run_inv_def mid_inv_def)

lemma mid_inv_merge:
  "mid_inv sha256 cal byId U N k st \<Longrightarrow> sound_changes sha256 cal byId V (runChanges run) \<Longrightarrow> V \<subseteq> U \<Longrightarrow>
    outcome_count (runResult run) \<le> j \<Longrightarrow> recorded (runResult run) (runChanges run) \<Longrightarrow>
    mid_inv sha256 cal byId U N (k + j) (mergeRunResult st run True)"
  by (auto simp: mid_inv_def sound_changes_merge recorded_merge dest: sound_changes_mono)

lemma mid_inv_update [simp]:
  "mid_inv sha256 cal byId U N k (st\<lparr>protectedRemoteUids := p, updateFallbacks := n\<rparr>) = mid_inv sha256 cal byId U N k st"
  "mid_inv sha256 cal byId U N k (st\<lparr>checkpointRejected := b\<rparr>) = mid_inv sha256 cal byId U N k st"
  by (simp_all add: mid_inv_def)

lemma mid_inv_rejected:
  "mid_inv sha256 cal byId U N k st \<Longrightarrow> run_inv sha256 cal byId U (N + k) (st\<lparr>checkpointRejected := True\<rparr>)"
  by (simp add: mid_inv_def run_inv_def halted_def)

lemma completeRun_inv:
  assumes "mid_inv sha256 cal byId U N k st"
  shows "ensures (completeRun st k tot cbs) w (\<lambda>st' _. run_inv sha256 cal byId U (N + k) st')"
proof -
  let ?st = "st\<lparr>exProcessed := exProcessed st + k\<rparr>"
  have "run_inv sha256 cal byId U (N + k) ?st" "run_inv sha256 cal byId U (N + k) (?st\<lparr>superseded := True\<rparr>)"
    using assms by (auto simp: mid_inv_def run_inv_def)
  then have "ensures (checkSuperseded ?st cbs) w' (\<lambda>st' _. run_inv sha256 cal byId U (N + k) st')" for w'
    by (auto simp: checkSuperseded_def intro!: ensures_top split: option.splits)
  then show ?thesis
    by (auto simp: completeRun_def Let_def intro!: ensures_top)
qed

lemma mid_inv_le: "mid_inv sha256 cal byId U N k st \<Longrightarrow> k \<le> j \<Longrightarrow> mid_inv sha256 cal byId U N j st"
  by (simp add: mid_inv_def)

lemma checkpoint_complete:
  assumes "mid_inv sha256 cal byId U N k st"
  shows "ensures (eff_bind (checkpointRun st ch cbs)
      (\<lambda>(ok, st'). if \<not> ok then eff_return st' else completeRun st' k tot cbs)) w
    (\<lambda>st' _. run_inv sha256 cal byId U (N + k) st')"
  by (rule checkpoint_then [where Q = "run_inv sha256 cal byId U (N + k)"])
    (rule completeRun_inv [OF assms], rule mid_inv_rejected [OF assms])

lemma executeAdds_inv:
  assumes "run_inv sha256 cal byId U N st" "\<not> halted st" "\<forall>oper \<in> set adds. is_Add oper" "set adds \<subseteq> U"
  shows "ensures (executeAdds sha256 adds cal provider st tot cbs) w
    (\<lambda>st' _. run_inv sha256 cal byId U (N + length adds) st')"
proof (cases "adds = []")
  case False
  have "mid_inv sha256 cal byId U N (length adds) (mergeRunResult st run True)"
    if "sound_changes sha256 cal byId (set adds) (runChanges run) \<and> outcome_count (runResult run) \<le> length adds
      \<and> recorded (runResult run) (runChanges run)" for run
    using mid_inv_merge [OF run_inv_mid [OF assms(1,2)] _ assms(4), of run "length adds"] that by simp
  then have "ensures (executeAddRun sha256 adds cal provider) w (\<lambda>run w'.
      ensures (eff_bind (checkpointRun (mergeRunResult st run True) (runChanges run) cbs)
        (\<lambda>(ok, st'). if \<not> ok then eff_return st' else completeRun st' (length adds) tot cbs)) w'
        (\<lambda>st' _. run_inv sha256 cal byId U (N + length adds) st'))"
    by (intro ensures_mono [OF add_run [OF assms(3), of sha256 cal provider w byId]] checkpoint_complete)
  then show ?thesis using False by (simp only: executeAdds_def ensures_bind length_0_conv if_False)
qed (use assms in \<open>simp add: executeAdds_def\<close>)

lemma executeRemoves_inv:
  assumes "run_inv sha256 cal byId U N st" "\<not> halted st" "\<forall>oper \<in> set removes. is_Remove oper" "set removes \<subseteq> U"
  shows "ensures (executeRemoves removes provider byId st tot cbs) w
    (\<lambda>st' _. run_inv sha256 cal byId U (N + length removes) st')"
proof (cases "removes = []")
  case False
  define act where "act = filter (\<lambda>oper. opUid oper \<notin> protectedRemoteUids st) removes"
  have act: "\<forall>oper \<in> set act. is_Remove oper" "set act \<subseteq> U" "length act \<le> length removes"
    using assms(3,4) by (auto simp: act_def)
  have "mid_inv sha256 cal byId U N (length removes) (mergeRunResult st run True)"
    if "sound_changes sha256 cal byId (set act) (runChanges run) \<and> outcome_count (runResult run) = length act
      \<and> recorded (runResult run) (runChanges run)" for run
    using mid_inv_merge [OF run_inv_mid [OF assms(1,2)] _ act(2), of run "length removes"] that act(3) by simp
  then have "ensures (executeRemoveRun act provider byId) w (\<lambda>run w'.
      ensures (eff_bind (checkpointRun (mergeRunResult st run True) (runChanges run) cbs)
        (\<lambda>(ok, st'). if \<not> ok then eff_return st' else completeRun st' (length removes) tot cbs)) w'
        (\<lambda>st' _. run_inv sha256 cal byId U (N + length removes) st'))"
    by (intro ensures_mono [OF remove_run [OF act(1), of provider byId w sha256 cal]] checkpoint_complete)
  moreover have "ensures (completeRun st (length removes) tot cbs) w
      (\<lambda>st' _. run_inv sha256 cal byId U (N + length removes) st')"
    by (rule completeRun_inv [OF mid_inv_le [OF run_inv_mid [OF assms(1,2)]]]) simp
  ultimately show ?thesis
    using False unfolding executeRemoves_def Let_def act_def [symmetric]
    by (auto simp only: ensures_bind length_0_conv if_False split: if_split)
qed (use assms in \<open>simp add: executeRemoves_def\<close>)

lemma delete_merge:
  assumes "mid_inv sha256 cal byId U N k st" "length reps = j"
  shows "mid_inv sha256 cal byId U N (k + j)
    (mergeRunResult st (deleteRunResult (processDeleteResults (map removeForReplacement reps) rs byId)) False)"
  using assms filter_partition_length [of delete_accepted "with_results (map removeForReplacement reps) rs"]
  by (simp add: mid_inv_def deleteRunResult_def outcome_count_def processDeleteResults_eq addSyncResult_def recorded_def)

lemma adds_after_delete:
  "length (addsAfterDelete reps rs) \<le> length reps" "\<forall>oper \<in> set (addsAfterDelete reps rs). is_Add oper"
  using length_filter_le [of _ "with_results reps rs"] by (auto simp: addsAfterDelete_def)

lemma sound_adds_after_delete:
  assumes "sound_changes sha256 cal byId (set (addsAfterDelete reps rs)) ch" "\<forall>oper \<in> set reps. is_Replace oper"
  shows "sound_changes sha256 cal byId (set reps) ch"
proof -
  have "\<exists>rep \<in> set reps. \<not> is_Remove rep \<and> opEvent rep = opEvent oper \<and> (\<forall>d. releases byId oper d \<longrightarrow> releases byId rep d)"
    if mem: "oper \<in> set (addsAfterDelete reps rs)" for oper
  proof -
    obtain rep r where rep: "(rep, r) \<in> set (with_results reps rs)" "oper = Add (opEvent rep) (Some (opStale rep))"
      using mem by (auto simp: addsAfterDelete_def)
    have "rep \<in> set reps" using rep(1) by (rule with_results_in)
    moreover from this have "is_Replace rep" using assms(2) by blast
    ultimately show ?thesis using rep(2) by (intro bexI [of _ rep]) (auto simp: is_Replace_def)
  qed
  moreover have "\<not> is_Replace oper" if "oper \<in> set (addsAfterDelete reps rs)" for oper
    using adds_after_delete(2) [of reps rs] that by (cases oper) auto
  ultimately show ?thesis using assms(1) unfolding sound_changes_def by metis
qed

lemma replaceVia_inv:
  assumes "mid_inv sha256 cal byId U N k st" "\<forall>oper \<in> set reps. is_Replace oper" "set reps \<subseteq> U"
  shows "ensures (replaceViaDeleteThenAdd sha256 reps cal provider byId st cbs) w
    (\<lambda>(ok, st') _. mid_inv sha256 cal byId U N (k + 2 * length reps) st' \<and> (ok \<or> halted st'))"
proof -
  let ?st1 = "\<lambda>rs. mergeRunResult st (deleteRunResult (processDeleteResults (map removeForReplacement reps) rs byId)) False"
  have st1: "mid_inv sha256 cal byId U N (k + length reps) (?st1 rs)" for rs
    by (rule delete_merge [OF assms(1)]) simp
  have step: "ensures (if length (addsAfterDelete reps rs) > 0
          then eff_bind (executeAddRun sha256 (addsAfterDelete reps rs) cal provider) (\<lambda>run.
            checkpointRun (mergeRunResult (?st1 rs) run True) (runChanges run) cbs)
          else eff_return (True, ?st1 rs)) w'
     (\<lambda>(ok, st') _. mid_inv sha256 cal byId U N (k + 2 * length reps) st' \<and> (ok \<or> halted st'))" for rs w'
  proof (cases "length (addsAfterDelete reps rs) > 0")
    case True
    have m: "mid_inv sha256 cal byId U N (k + 2 * length reps) (mergeRunResult (?st1 rs) run True)"
      if "sound_changes sha256 cal byId (set (addsAfterDelete reps rs)) (runChanges run)
        \<and> outcome_count (runResult run) \<le> length (addsAfterDelete reps rs)
        \<and> recorded (runResult run) (runChanges run)" for run
    proof -
      have "sound_changes sha256 cal byId (set reps) (runChanges run)"
        using that sound_adds_after_delete assms(2) by blast
      moreover have "outcome_count (runResult run) \<le> length reps"
        using that adds_after_delete(1) [of reps rs] by linarith
      ultimately have "mid_inv sha256 cal byId U N (k + length reps + length reps) (mergeRunResult (?st1 rs) run True)"
        using that by (intro mid_inv_merge [OF st1 _ assms(3)]) simp_all
      then show ?thesis by (simp add: mult_2 add.assoc)
    qed
    show ?thesis
      using True unfolding ensures_bind if_P [OF True]
      by (intro ensures_mono [OF add_run [OF adds_after_delete(2), of sha256 _ _ cal provider w' byId]]
          checkpointRun_ensures) (auto simp: halted_def intro!: m)
  qed (use mid_inv_le [OF st1] in simp)
  show ?thesis
    unfolding replaceViaDeleteThenAdd_def Let_def ensures_bind
    by (rule ensures_top) (rule step [unfolded ensures_bind])
qed

lemma executeReplacements_inv:
  assumes "run_inv sha256 cal byId U N st" "\<not> halted st" "\<forall>oper \<in> set reps. is_Replace oper" "set reps \<subseteq> U"
  shows "ensures (executeReplacements sha256 reps cal provider byId st tot cbs) w
    (\<lambda>st' _. run_inv sha256 cal byId U (N + 2 * length reps) st')"
proof (cases "reps = []")
  case False
  let ?Q = "\<lambda>st' _. run_inv sha256 cal byId U (N + 2 * length reps) st'"
  have finish: "ensures (eff_bind (replaceViaDeleteThenAdd sha256 some cal provider byId st' cbs)
      (\<lambda>(ok, st1). if \<not> ok then eff_return st1 else completeRun st1 (length reps * 2) tot cbs)) w' ?Q"
    if "mid_inv sha256 cal byId U N k st'" "k + 2 * length some \<le> 2 * length reps" "set some \<subseteq> set reps" for k st' some w'
  proof -
    have "run_inv sha256 cal byId U (N + 2 * length reps) st1"
      if "mid_inv sha256 cal byId U N (k + 2 * length some) st1" "halted st1" for st1
      using that \<open>k + 2 * length some \<le> 2 * length reps\<close> by (auto simp: mid_inv_def run_inv_def)
    moreover have "ensures (completeRun st1 (length reps * 2) tot cbs) w'' ?Q"
      if "mid_inv sha256 cal byId U N (k + 2 * length some) st1" for st1 w''
      using completeRun_inv [OF mid_inv_le [OF that, of "length reps * 2"], of tot cbs w''] \<open>k + 2 * length some \<le> 2 * length reps\<close>
      by (simp add: mult.commute)
    moreover have "\<forall>oper \<in> set some. is_Replace oper" "set some \<subseteq> U" using that(3) assms(3,4) by blast+
    ultimately show ?thesis
      unfolding ensures_bind
      by (intro ensures_mono [OF replaceVia_inv [OF that(1), of some provider cbs w']]) auto
  qed
  show ?thesis
  proof (cases "updateEvents provider")
    case None
    then show ?thesis
      using False finish [OF run_inv_mid [OF assms(1,2)], of reps w] by (simp add: executeReplacements_def del: ensures_bind)
  next
    case (Some upd)
    define st2 where "st2 run unresolved = (mergeRunResult st run True)\<lparr>protectedRemoteUids := protectedRemoteUids (mergeRunResult st run True)
        \<union> set (map opUid (filter (\<lambda>r. opStale r \<notin> set (map opStale unresolved)) reps)),
       updateFallbacks := updateFallbacks (mergeRunResult st run True) + length unresolved\<rparr>" for run unresolved
    have "ensures (eff_bind (checkpointRun (st2 run unresolved) (runChanges run) cbs) (\<lambda>(ok, st3).
        if \<not> ok then eff_return st3
        else if length unresolved > 0
        then eff_bind (replaceViaDeleteThenAdd sha256 unresolved cal provider byId st3 cbs)
               (\<lambda>(recovered, st4). if \<not> recovered then eff_return st4 else completeRun st4 (length reps * 2) tot cbs)
        else completeRun st3 (length reps * 2) tot cbs)) w' ?Q"
      if "sound_changes sha256 cal byId (set reps) (runChanges run) \<and> set unresolved \<subseteq> set reps
        \<and> outcome_count (runResult run) + length unresolved = length reps
        \<and> recorded (runResult run) (runChanges run)" for run unresolved w'
    proof -
      have "outcome_count (runResult run) \<le> length reps - length unresolved" using that by linarith
      then have m: "mid_inv sha256 cal byId U N (length reps - length unresolved) (st2 run unresolved)"
        using mid_inv_merge [OF run_inv_mid [OF assms(1,2)], of "set reps" run "length reps - length unresolved"] that assms(4)
        by (simp add: st2_def)
      have m2: "mid_inv sha256 cal byId U N (2 * length reps) (st2 run unresolved)"
        by (rule mid_inv_le [OF m]) simp
      show ?thesis
      proof (rule checkpoint_then [where Q = "run_inv sha256 cal byId U (N + 2 * length reps)"])
        show "run_inv sha256 cal byId U (N + 2 * length reps) ((st2 run unresolved)\<lparr>checkpointRejected := True\<rparr>)"
          by (rule mid_inv_rejected [OF m2])
        show "ensures (if length unresolved > 0
          then eff_bind (replaceViaDeleteThenAdd sha256 unresolved cal provider byId (st2 run unresolved) cbs)
               (\<lambda>(recovered, st4). if \<not> recovered then eff_return st4 else completeRun st4 (length reps * 2) tot cbs)
          else completeRun (st2 run unresolved) (length reps * 2) tot cbs) w'' (\<lambda>s _. run_inv sha256 cal byId U (N + 2 * length reps) s)" for w''
          using finish [OF m, of unresolved w''] that completeRun_inv [OF m2, of tot cbs w'']
          by (auto simp: mult.commute simp del: ensures_bind)
      qed
    qed
    then show ?thesis
      using False Some unfolding executeReplacements_def Let_def st2_def [symmetric]
      by (simp del: ensures_bind add: ensures_bind [of "executeUpdateRun sha256 reps upd"])
        (rule ensures_mono [OF update_run [OF assms(3), of sha256 upd w cal byId]], auto simp del: ensures_bind)
  qed
qed (use assms in \<open>simp add: executeReplacements_def\<close>)

section \<open>Chunks and the whole run\<close>

lemma getTotalOperationCount_eq: "getTotalOperationCount ops = sum_list (map getOperationWeight ops)"
proof -
  have "fold (\<lambda>oper n. n + getOperationWeight oper) ops n = n + sum_list (map getOperationWeight ops)" for n
    by (induction ops arbitrary: n) auto
  then show ?thesis by (simp add: getTotalOperationCount_def)
qed

lemma weight_split:
  "getTotalOperationCount ops =
    length (filter is_Remove ops) + 2 * length (filter is_Replace ops) + length (filter is_Add ops)"
  unfolding getTotalOperationCount_eq
proof (induction ops)
  case (Cons oper ops)
  then show ?case by (cases oper) (auto simp: getOperationWeight_def)
qed simp

lemma executeChunk_inv:
  assumes "run_inv sha256 cal byId U N st" "\<not> halted st" "set ops \<subseteq> U"
  shows "ensures (executeChunk sha256 cal provider byId tot cbs ops st) w
    (\<lambda>st' _. run_inv sha256 cal byId U (N + getTotalOperationCount ops) st')"
proof -
  let ?Q = "\<lambda>st' _. run_inv sha256 cal byId U (N + getTotalOperationCount ops) st'"
  let ?r = "length (filter is_Remove ops)" and ?p = "length (filter is_Replace ops)" and ?a = "length (filter is_Add ops)"
  have fin: "ensures (executeAdds sha256 (filter is_Add ops) cal provider st2 tot cbs) w' ?Q"
    if "run_inv sha256 cal byId U (N + ?r + 2 * ?p) st2" "\<not> halted st2" for st2 w'
    using executeAdds_inv [OF that, of "filter is_Add ops" provider tot cbs w'] assms(3)
    by (auto simp: weight_split add.assoc)
  have mid: "ensures (eff_bind (executeReplacements sha256 (filter is_Replace ops) cal provider byId st1 tot cbs) (\<lambda>st2.
        if halted st2 then eff_return st2
        else executeAdds sha256 (filter is_Add ops) cal provider st2 tot cbs)) w' ?Q"
    if s1: "run_inv sha256 cal byId U (N + ?r) st1" "\<not> halted st1" for st1 w'
    unfolding ensures_bind
    by (rule ensures_mono [OF executeReplacements_inv [OF s1]])
      (use assms(3) fin in \<open>auto simp: weight_split elim: run_inv_halted\<close>)
  show ?thesis
    unfolding executeChunk_def ensures_bind [of "executeRemoves _ _ _ _ _ _"]
    by (rule ensures_mono [OF executeRemoves_inv [OF assms(1,2)]])
      (use assms(3) mid in \<open>auto simp: weight_split simp del: ensures_bind elim: run_inv_halted\<close>)
qed

lemma executeChunks_inv:
  assumes "run_inv sha256 cal byId U N st" "\<forall>c \<in> set chunks. set c \<subseteq> U"
  shows "ensures (executeChunks (executeChunk sha256 cal provider byId tot cbs) chunks st) w
    (\<lambda>st' _. run_inv sha256 cal byId U (N + getTotalOperationCount (concat chunks)) st')"
  using assms
proof (induction chunks arbitrary: N st w)
  case Nil
  then show ?case by (simp add: getTotalOperationCount_eq)
next
  case (Cons c chunks)
  have w: "getTotalOperationCount (c @ concat chunks) = getTotalOperationCount c + getTotalOperationCount (concat chunks)"
    by (simp add: getTotalOperationCount_eq)
  show ?case
  proof (cases "halted st")
    case True
    then show ?thesis using run_inv_halted [OF Cons.prems(1)] by simp
  next
    case False
    have c: "set c \<subseteq> U" and rest: "\<forall>c \<in> set chunks. set c \<subseteq> U" using Cons.prems(2) by auto
    have "ensures (executeChunks (executeChunk sha256 cal provider byId tot cbs) chunks st') w'
        (\<lambda>st'' _. run_inv sha256 cal byId U (N + getTotalOperationCount (concat (c # chunks))) st'')"
      if "run_inv sha256 cal byId U (N + getTotalOperationCount c) st'" for st' w'
      using Cons.IH [OF that rest] by (simp add: w add.assoc)
    then have "ensures (executeChunk sha256 cal provider byId tot cbs c st) w (\<lambda>st' w'.
        ensures (executeChunks (executeChunk sha256 cal provider byId tot cbs) chunks st') w'
          (\<lambda>st'' _. run_inv sha256 cal byId U (N + getTotalOperationCount (concat (c # chunks))) st''))"
      by (intro ensures_mono [OF executeChunk_inv [OF Cons.prems(1) False c]])
    then show ?thesis using False by simp
  qed
qed

lemma concat_chunkOperations: "0 < n \<Longrightarrow> concat (chunkOperations ops n) = ops"
  by (simp add: chunkOperations_def concat_chunks_from)

lemma executeRemoteOperations_inv:
  "ensures (executeRemoteOperations sha256 ops ms cal provider cbs) w
    (\<lambda>st _. run_inv sha256 cal (mappingsByRemoteIdentity ms) (set ops) (getTotalOperationCount ops) st)"
proof -
  have "concat (chunkOperations ops OPERATION_CHUNK_SIZE) = ops"
    by (simp add: concat_chunkOperations OPERATION_CHUNK_SIZE_def)
  moreover have "\<forall>c \<in> set (chunkOperations ops OPERATION_CHUNK_SIZE). set c \<subseteq> set ops"
    using calculation by (metis UN_upper set_concat)
  moreover have "run_inv sha256 cal (mappingsByRemoteIdentity ms) (set ops) 0 initialExecutionState"
    by (simp add: run_inv_def initialExecutionState_def sound_changes_def outcome_count_def recorded_def)
  ultimately show ?thesis
    unfolding executeRemoteOperations_def using executeChunks_inv by fastforce
qed

section \<open>Changes reach the checkpoint\<close>

text \<open>The records of a set of changes, and of a sequence of them.\<close>

definition records :: "PendingChanges list \<Rightarrow> PendingInsert list \<times> string list \<times> PendingUpdate list" where
  "records cs = (concat (map inserts cs), concat (map deletes cs), concat (map (\<lambda>c. or_else (updates c) []) cs))"

lemma records_merge: "records [mergeChanges a b] = records [a, b]"
  by (simp add: records_def mergeChanges_def split: option.splits)

lemma records_append: "records as = records bs \<Longrightarrow> records (as @ cs) = records (bs @ cs)"
  by (simp add: records_def)

lemma records_empty:
  "inserts c = [] \<and> deletes c = [] \<and> length (or_else (updates c) []) = 0 \<Longrightarrow> records (as @ [c]) = records as"
  by (simp add: records_def)

text \<open>
  What a run needs of its environment so that its records are the log of its checkpoints: only the
  checkpoint writes to the log, and it writes what it is given.
\<close>

locale recording_run =
  fixes provider :: "('w, 'e) CalendarSyncProvider" and cbs :: "('w, 'e) RunCallbacks"
    and log :: "'w \<Rightarrow> PendingChanges list"
  assumes push_keeps: "ensures (pushEvents provider es) w (\<lambda>_ w'. log w' = log w)"
    and update_keeps: "updateEvents provider = Some upd \<Longrightarrow> ensures (upd us) w (\<lambda>_ w'. log w' = log w)"
    and delete_keeps: "ensures (deleteEvents provider ids) w (\<lambda>_ w'. log w' = log w)"
    and current_keeps: "isCurrent cbs = Some cur \<Longrightarrow> ensures cur w (\<lambda>_ w'. log w' = log w)"
    and progress_keeps: "onRunComplete cbs = Some f \<Longrightarrow> ensures (f i n) w (\<lambda>_ w'. log w' = log w)"
    and checkpoint_logs: "\<exists>cp. checkpoint cbs = Some cp \<and> (\<forall>ch w. ensures (cp ch) w (\<lambda>_ w'. log w' = log w @ [ch]))"
begin

definition logged :: "ChunkedExecutionState \<Rightarrow> 'w \<Rightarrow> bool" where
  "logged st w \<longleftrightarrow> records [exChanges st] = records (log w)"

lemma logged_update [simp]:
  "logged (st\<lparr>protectedRemoteUids := p, updateFallbacks := n\<rparr>) w = logged st w"
  "logged (st\<lparr>checkpointRejected := b\<rparr>) w = logged st w"
  "logged (st\<lparr>superseded := b\<rparr>) w = logged st w"
  "logged (st\<lparr>exProcessed := n\<rparr>) w = logged st w"
  "logged (mergeRunResult st run False) w = logged st w"
  by (simp_all add: logged_def)

lemma logged_log: "log w' = log w \<Longrightarrow> logged st w' = logged st w"
  by (simp add: logged_def)

lemma add_run_keeps: "ensures (executeAddRun sha256 adds cal provider) w (\<lambda>_ w'. log w' = log w)"
  using push_keeps by (simp add: executeAddRun_def Let_def)

lemma remove_run_keeps: "ensures (executeRemoveRun removes provider byId) w (\<lambda>_ w'. log w' = log w)"
  using delete_keeps by (simp add: executeRemoveRun_def Let_def)

lemma update_run_keeps:
  "updateEvents provider = Some upd \<Longrightarrow> ensures (executeUpdateRun sha256 reps upd) w (\<lambda>_ w'. log w' = log w)"
  using update_keeps by (simp add: executeUpdateRun_def Let_def)

text \<open>A merged run result is a pending record until the checkpoint has taken it.\<close>

lemma checkpoint_logged:
  assumes "records [exChanges st] = records (log w @ [ch])"
  shows "ensures (checkpointRun st ch cbs) w (\<lambda>(ok, st') w'. logged st' w')"
proof -
  obtain cp where cp: "checkpoint cbs = Some cp" "\<And>ch w. ensures (cp ch) w (\<lambda>_ w'. log w' = log w @ [ch])"
    using checkpoint_logs by blast
  show ?thesis
  proof (cases "inserts ch = [] \<and> deletes ch = [] \<and> length (or_else (updates ch) []) = 0")
    case True
    then show ?thesis
      using cp assms records_empty [OF True, of "log w"] by (auto simp: checkpointRun_def logged_def)
  next
    case False
    have "ensures (cp ch) w (\<lambda>ok w'. ensures (if \<not> ok then eff_return (False, st\<lparr>checkpointRejected := True\<rparr>)
        else eff_return (True, st) :: ('w, 'e, _) eff) w' (\<lambda>(ok, st') w'. logged st' w'))"
      by (rule ensures_mono [OF cp(2)]) (use assms in \<open>auto simp: logged_def\<close>)
    then show ?thesis unfolding checkpointRun_def cp(1) option.case(2) if_not_P [OF False] ensures_bind .
  qed
qed

lemma merge_pending:
  "logged st w \<Longrightarrow> records [exChanges (mergeRunResult st run True)] = records (log w @ [runChanges run])"
  using records_append [of "[exChanges st]" "log w" "[runChanges run]"] by (simp add: logged_def records_merge)

lemma complete_logged: "logged st w \<Longrightarrow> ensures (completeRun st n tot cbs) w logged"
proof -
  assume st: "logged st w"
  have sup: "ensures (checkSuperseded (st\<lparr>exProcessed := m\<rparr>) cbs) w' logged" if "log w' = log w" for w' m
  proof (cases "isCurrent cbs")
    case (Some cur)
    have "ensures cur w' (\<lambda>still w''. logged (if \<not> still then st\<lparr>exProcessed := m, superseded := True\<rparr>
        else st\<lparr>exProcessed := m\<rparr>) w'')"
      by (rule ensures_mono [OF current_keeps [OF Some]]) (use st that in \<open>simp add: logged_def\<close>)
    then show ?thesis using Some by (simp add: checkSuperseded_def)
  qed (use st that logged_log [of w' w] in \<open>simp add: checkSuperseded_def\<close>)
  have prog: "ensures (case onRunComplete cbs of None \<Rightarrow> eff_return () | Some f \<Rightarrow> f i tot) w (\<lambda>_ w'. log w' = log w)" for i
    using progress_keeps by (auto split: option.splits)
  show ?thesis
    unfolding completeRun_def Let_def ensures_bind by (rule ensures_mono [OF prog sup])
qed

lemma checkpoint_complete_logged:
  assumes "records [exChanges st] = records (log w @ [ch])" "\<And>st' w'. logged st' w' \<Longrightarrow> ensures (f st') w' logged"
  shows "ensures (eff_bind (checkpointRun st ch cbs) (\<lambda>(ok, st'). if \<not> ok then eff_return st' else f st')) w logged"
  unfolding ensures_bind using assms(2) by (auto intro!: ensures_mono [OF checkpoint_logged [OF assms(1)]])

lemma adds_logged: "logged st w \<Longrightarrow> ensures (executeAdds sha256 adds cal provider st tot cbs) w logged"
  unfolding executeAdds_def ensures_bind [of "executeAddRun _ _ _ _"] if_distrib [of "\<lambda>m. ensures m w logged"] ensures_return
  by (simp del: ensures_bind)
    (auto simp: logged_def simp del: ensures_bind intro!: ensures_mono [OF add_run_keeps] checkpoint_complete_logged complete_logged
      dest: merge_pending [unfolded logged_def])

lemma removes_logged: "logged st w \<Longrightarrow> ensures (executeRemoves removes provider byId st tot cbs) w logged"
  unfolding executeRemoves_def Let_def ensures_bind [of "executeRemoveRun _ _ _"]
    if_distrib [of "\<lambda>m. ensures m w logged"] ensures_return
  by (simp del: ensures_bind add: complete_logged)
    (auto simp: logged_def simp del: ensures_bind intro!: ensures_mono [OF remove_run_keeps] checkpoint_complete_logged complete_logged
      dest: merge_pending [unfolded logged_def])

lemma replaceVia_logged:
  assumes "logged st w"
  shows "ensures (replaceViaDeleteThenAdd sha256 reps cal provider byId st cbs) w (\<lambda>(ok, st') w'. logged st' w')"
proof -
  have add: "ensures (eff_bind (executeAddRun sha256 adds cal provider) (\<lambda>run.
      checkpointRun (mergeRunResult st1 run True) (runChanges run) cbs)) w' (\<lambda>(ok, st') w'. logged st' w')"
    if "logged st1 w'" for adds st1 w'
    unfolding ensures_bind
    by (rule ensures_mono [OF add_run_keeps], rule checkpoint_logged)
      (use merge_pending [OF that] in simp)
  have same: "logged st w'" if "log w' = log w" for w'
    using assms that by (simp add: logged_def)
  show ?thesis
    unfolding replaceViaDeleteThenAdd_def Let_def ensures_bind [of "deleteEvents _ _"]
    by (intro ensures_mono [OF delete_keeps]) (auto simp del: ensures_bind intro!: add same)
qed

lemma replacements_logged:
  assumes "logged st w"
  shows "ensures (executeReplacements sha256 reps cal provider byId st tot cbs) w logged"
proof -
  have via: "ensures (eff_bind (replaceViaDeleteThenAdd sha256 some cal provider byId st1 cbs)
      (\<lambda>(ok, st2). if \<not> ok then eff_return st2 else completeRun st2 n tot cbs)) w' logged"
    if "logged st1 w'" for some st1 n w'
    unfolding ensures_bind
    by (rule ensures_mono [OF replaceVia_logged [OF that]]) (auto intro: complete_logged)
  show ?thesis
  proof (cases "updateEvents provider")
    case None
    then show ?thesis using assms via by (simp add: executeReplacements_def del: ensures_bind)
  next
    case (Some upd)
    have "ensures (eff_bind (checkpointRun (st2\<lparr>protectedRemoteUids := p, updateFallbacks := n\<rparr>) (runChanges run) cbs)
        (\<lambda>(ok, st3). if \<not> ok then eff_return st3
        else if length unresolved > 0
        then eff_bind (replaceViaDeleteThenAdd sha256 unresolved cal provider byId st3 cbs)
               (\<lambda>(recovered, st4). if \<not> recovered then eff_return st4 else completeRun st4 (length reps * 2) tot cbs)
        else completeRun st3 (length reps * 2) tot cbs)) w' logged"
      if "st2 = mergeRunResult st run True" "log w' = log w" for run unresolved p n st2 w'
      by (rule checkpoint_complete_logged)
        (use merge_pending [OF assms, of run] that via complete_logged in \<open>auto simp del: ensures_bind\<close>)
    then show ?thesis
      using assms Some unfolding executeReplacements_def Let_def
      by (simp del: ensures_bind add: ensures_bind [of "executeUpdateRun _ _ _"])
        (auto simp del: ensures_bind intro!: ensures_mono [OF update_run_keeps [OF Some]])
  qed
qed

lemma chunk_logged:
  assumes "logged st w" shows "ensures (executeChunk sha256 cal provider byId tot cbs ops st) w logged"
  unfolding executeChunk_def ensures_bind
  by (rule ensures_mono [OF removes_logged [OF assms]])
    (auto intro!: ensures_mono [OF replacements_logged] adds_logged)

lemma chunks_logged:
  "logged st w \<Longrightarrow> ensures (executeChunks (executeChunk sha256 cal provider byId tot cbs) chunks st) w logged"
proof (induction chunks arbitrary: st w)
  case (Cons c chunks)
  have "ensures (executeChunk sha256 cal provider byId tot cbs c st) w (\<lambda>st' w'.
      ensures (executeChunks (executeChunk sha256 cal provider byId tot cbs) chunks st') w' logged)"
    by (rule ensures_mono [OF chunk_logged [OF Cons.prems] Cons.IH])
  then show ?case using Cons.prems by simp
qed simp

lemma run_logged:
  "log w = [] \<Longrightarrow> ensures (executeRemoteOperations sha256 ops ms cal provider cbs) w
    (\<lambda>st w'. records [exChanges st] = records (log w'))"
  unfolding executeRemoteOperations_def logged_def [symmetric]
  by (rule chunks_logged) (simp add: logged_def records_def initialExecutionState_def)

end


definition sample_provider :: "(nat, string) CalendarSyncProvider" where
  "sample_provider = \<lparr>normalizeEvent = None,
    pushEvents = (\<lambda>es w. (Inr (map (\<lambda>e. \<lparr>pushSuccess = True, pushRemoteId = Some ''r1'', pushDeleteId = None,
      pushEchoResult = None, pushError = None, pushErrorType = None, pushStatusCode = None,
      pushConflictResolved = None, pushWriteAccessDenied = None\<rparr>) es), w + 1)),
    updateEvents = None,
    deleteEvents = (\<lambda>ids w. (Inr (map (\<lambda>i. \<lparr>delSuccess = True, delError = None, delErrorType = None,
      delStatusCode = None, delWriteAccessDenied = None\<rparr>) ids), w + 1))\<rparr>"

definition no_callbacks :: "(nat, string) RunCallbacks" where
  "no_callbacks = \<lparr>isCurrent = None, onRunComplete = None, checkpoint = None\<rparr>"


end
