(* ===== verification/Sync_Calendar.thy ===== *)
theory Sync_Calendar
  imports Engine_Correct Reconcile_Correct
begin

text \<open>
  One sync of a destination calendar: \<open>syncCalendar\<close> (\<open>core/sync-engine/index.ts\<close>), the
  compensation for copies that could not be recorded (\<open>unrecorded-copies.ts\<close>), the database
  flush (\<open>flush.ts\<close>) and the generation check (\<open>generation.ts\<close>).

  The local variables that survive an exception (the tally of unrecorded copies and whether
  something was flushed) are the \<open>RunNotes\<close> threaded beside the world; of a successful flush the
  notes keep the changes, so that \<open>flushed\<close> of the source is their being non-empty. Timing and
  telemetry fields are left out; the outcome that is reported is kept.
\<close>

section \<open>Copies that could not be recorded\<close>

record RunNotes =
  flushedChanges :: "PendingChanges list"
  copiesDeleted :: int
  copiesDeleteFailed :: int

definition deleteUnrecordedCopies ::
  "(string list \<Rightarrow> ('w, 'e, DeleteResult list) eff) \<Rightarrow> PendingInsert list \<Rightarrow> 'w \<times> RunNotes \<Rightarrow> 'w \<times> RunNotes" where
  "deleteUnrecordedCopies del ins wn =
    (let (w, n) = wn in
     case del (map insDeleteIdentifier ins) w of
       (Inr results, w') \<Rightarrow>
         (let deleted = int (length (filter delSuccess results)) in
          (w', n\<lparr>copiesDeleted := copiesDeleted n + deleted,
                 copiesDeleteFailed := copiesDeleteFailed n + (int (length ins) - deleted)\<rparr>))
     | (Inl e, w') \<Rightarrow> (w', n\<lparr>copiesDeleteFailed := copiesDeleteFailed n + int (length ins)\<rparr>))"

definition flushOrDeleteUnrecordedCopies ::
  "PendingChanges \<Rightarrow> (PendingChanges \<Rightarrow> ('w, 'e, unit) eff) \<Rightarrow> (string list \<Rightarrow> ('w, 'e, DeleteResult list) eff)
    \<Rightarrow> ('w \<times> RunNotes, 'e, unit) eff" where
  "flushOrDeleteUnrecordedCopies changes flush del wn =
    (let (w, n) = wn in
     case flush changes w of
       (Inr _, w') \<Rightarrow> (Inr (), (w', n))
     | (Inl e, w') \<Rightarrow>
         (Inl e, if length (inserts changes) > 0 then deleteUnrecordedCopies del (inserts changes) (w', n)
                 else (w', n)))"

section \<open>One sync\<close>

definition lift_eff :: "('w, 'e, 'a) eff \<Rightarrow> ('w \<times> 'n, 'e, 'a) eff" where
  "lift_eff m wn = (case m (fst wn) of (r, w') \<Rightarrow> (r, (w', snd wn)))"

definition lift_provider :: "('w, 'e) CalendarSyncProvider \<Rightarrow> ('w \<times> 'n, 'e) CalendarSyncProvider" where
  "lift_provider p =
    \<lparr>normalizeEvent = normalizeEvent p, pushEvents = (\<lambda>es. lift_eff (pushEvents p es)),
     updateEvents = map_option (\<lambda>f us. lift_eff (f us)) (updateEvents p),
     deleteEvents = (\<lambda>ids. lift_eff (deleteEvents p ids))\<rparr>"

datatype sync_stage = Fetching | Comparing | Processing

record SyncProgress =
  stage :: sync_stage
  localEventCount :: nat
  remoteEventCount :: nat
  progress :: "(nat \<times> nat) option"

record ReadState =
  rsLocalEvents :: "MaterializedSyncableEvent list"
  rsExistingMappings :: "EventMapping list"
  rsRemoteEvents :: "RemoteEvent list"

record ('w, 'e) SyncCalendarOptions =
  optCalendarId :: string
  optProvider :: "('w, 'e) CalendarSyncProvider"
  readState :: "('w, 'e, ReadState) eff"
  optIsCurrent :: "('w, 'e, bool) eff"
  optFlush :: "PendingChanges \<Rightarrow> ('w, 'e, unit) eff"
  onProgress :: "(SyncProgress \<Rightarrow> ('w, 'e, unit) eff) option"
  reconciliationScope :: ReconciliationScope

record SyncCalendarResult = SyncResult +
  conflictsResolved :: nat
  syncErrors :: "string list"
  writeAccessDenied :: bool

datatype sync_outcome = OutSuperseded | OutInSync | OutSuccess

definition EMPTY_RESULT :: SyncCalendarResult where
  "EMPTY_RESULT = \<lparr>added = 0, addFailed = 0, removed = 0, removeFailed = 0, conflictsResolved = 0,
    syncErrors = [], writeAccessDenied = False\<rparr>"

definition resolveOutcome :: "bool \<Rightarrow> sync_outcome" where
  "resolveOutcome wasSuperseded = (if wasSuperseded then OutSuperseded else OutSuccess)"

definition emitProgress ::
  "('w, 'e) SyncCalendarOptions \<Rightarrow> sync_stage \<Rightarrow> nat \<Rightarrow> nat \<Rightarrow> (nat \<times> nat) option \<Rightarrow> ('w \<times> RunNotes, 'e, unit) eff" where
  "emitProgress opts st localCount remoteCount prog =
    (case onProgress opts of
       None \<Rightarrow> eff_return ()
     | Some f \<Rightarrow> lift_eff (f \<lparr>stage = st, localEventCount = localCount, remoteEventCount = remoteCount, progress = prog\<rparr>))"

definition note_flushed :: "PendingChanges \<Rightarrow> ('w \<times> RunNotes, 'e, unit) eff" where
  "note_flushed changes wn =
    (Inr (), (fst wn, (snd wn)\<lparr>flushedChanges := flushedChanges (snd wn) @ [changes]\<rparr>))"

definition checkpointFlush ::
  "('w, 'e) SyncCalendarOptions \<Rightarrow> PendingChanges \<Rightarrow> ('w \<times> RunNotes, 'e, bool) eff" where
  "checkpointFlush opts changes =
    eff_bind (flushOrDeleteUnrecordedCopies changes (optFlush opts) (deleteEvents (optProvider opts))) (\<lambda>_.
      eff_bind (note_flushed changes) (\<lambda>_. eff_return True))"

definition syncCallbacks ::
  "('w, 'e) SyncCalendarOptions \<Rightarrow> nat \<Rightarrow> nat \<Rightarrow> ('w \<times> RunNotes, 'e) RunCallbacks" where
  "syncCallbacks opts localCount remoteCount =
    \<lparr>isCurrent = Some (lift_eff (optIsCurrent opts)),
     onRunComplete = Some (\<lambda>processed tot. emitProgress opts Processing localCount remoteCount (Some (processed, tot))),
     checkpoint = Some (checkpointFlush opts)\<rparr>"

definition normalizeAll :: "('w, 'e) CalendarSyncProvider \<Rightarrow> MaterializedSyncableEvent list \<Rightarrow> MaterializedSyncableEvent list" where
  "normalizeAll p es = (case normalizeEvent p of None \<Rightarrow> es | Some f \<Rightarrow> map f es)"

definition finishSync ::
  "('w, 'e) SyncCalendarOptions \<Rightarrow> MappingUpdate list \<Rightarrow> ChunkedExecutionState
    \<Rightarrow> ('w \<times> RunNotes, 'e, SyncCalendarResult \<times> sync_outcome) eff" where
  "finishSync opts mupdates st =
    eff_bind
      (if length mupdates > 0
       then (let changes = \<lparr>inserts = [], deletes = [], updates = Some mupdates\<rparr> in
             eff_bind (lift_eff (optFlush opts changes)) (\<lambda>_. note_flushed changes))
       else eff_return ())
      (\<lambda>_. eff_return
        (\<lparr>added = added (exResult st), addFailed = addFailed (exResult st),
          removed = removed (exResult st), removeFailed = removeFailed (exResult st),
          conflictsResolved = exConflicts st, syncErrors = map errMessage (exErrors st),
          writeAccessDenied = list_ex errWriteAccessDenied (exErrors st)\<rparr>,
         resolveOutcome (superseded st)))"

definition syncBody ::
  "(string \<Rightarrow> string) \<Rightarrow> (string \<Rightarrow> string \<Rightarrow> int) \<Rightarrow> ('w, 'e) SyncCalendarOptions
    \<Rightarrow> ('w \<times> RunNotes, 'e, SyncCalendarResult \<times> sync_outcome) eff" where
  "syncBody sha256 lc opts =
    eff_bind (emitProgress opts Fetching 0 0 None) (\<lambda>_.
    eff_bind (lift_eff (readState opts)) (\<lambda>state.
    let localEvents = normalizeAll (optProvider opts) (rsLocalEvents state);
        nl = length localEvents; nr = length (rsRemoteEvents state)
    in eff_bind (lift_eff (optIsCurrent opts)) (\<lambda>stillCurrent.
      if \<not> stillCurrent then eff_return (EMPTY_RESULT, OutSuperseded)
      else eff_bind (emitProgress opts Comparing nl nr None) (\<lambda>_.
        let computed = computeSyncOperations sha256 lc localEvents (rsExistingMappings state)
              (rsRemoteEvents state) (reconciliationScope opts);
            ops = operations computed
        in if length ops = 0 \<and> length (resStaleMappingIds computed) = 0 \<and> length (mappingUpdates computed) = 0
           then eff_return (EMPTY_RESULT, OutInSync)
           else eff_bind (emitProgress opts Processing nl nr (Some (0, getTotalOperationCount ops))) (\<lambda>_.
             eff_bind (executeRemoteOperations sha256 ops (rsExistingMappings state) (optCalendarId opts)
                 (lift_provider (optProvider opts)) (syncCallbacks opts nl nr))
               (finishSync opts (mappingUpdates computed)))))))"

definition syncCalendar ::
  "(string \<Rightarrow> string) \<Rightarrow> (string \<Rightarrow> string \<Rightarrow> int) \<Rightarrow> ('w, 'e) SyncCalendarOptions
    \<Rightarrow> 'w \<Rightarrow> ('e + SyncCalendarResult \<times> sync_outcome) \<times> 'w \<times> RunNotes" where
  "syncCalendar sha256 lc opts w =
    syncBody sha256 lc opts (w, \<lparr>flushedChanges = [], copiesDeleted = 0, copiesDeleteFailed = 0\<rparr>)"

section \<open>The database flush\<close>

text \<open>
  The table of mappings in the order of insertion and the ids of the stored event states. The
  table's key is \<open>id\<close>; its unique index is on calendar and sync event id. New ids come from the
  database; they are an argument, one for each inserted row.
\<close>

record mapping_store =
  mappingRows :: "EventMapping list"
  eventStateIds :: "string set"

definition FLUSH_BATCH_SIZE :: nat where
  "FLUSH_BATCH_SIZE = 5000"

definition flushChunk :: "'a list \<Rightarrow> nat \<Rightarrow> 'a list list" where
  "flushChunk items sz = chunks_from items sz 0"

definition lockSurvivingEventStates :: "mapping_store \<Rightarrow> PendingInsert list \<Rightarrow> string set" where
  "lockSurvivingEventStates db ins = eventStateIds db \<inter> set (map insEventStateId ins)"

definition resolveSurvivingEventStateId :: "PendingInsert \<Rightarrow> string set \<Rightarrow> string option" where
  "resolveSurvivingEventStateId ins surviving =
    (if insEventStateId ins \<in> surviving then Some (insEventStateId ins) else None)"

definition rowForInsert :: "string set \<Rightarrow> string \<Rightarrow> PendingInsert \<Rightarrow> EventMapping" where
  "rowForInsert surviving newId ins =
    \<lparr>startTime = startTime ins, endTime = endTime ins, mapId = newId,
     mapEventStateId = resolveSurvivingEventStateId ins surviving, syncEventId = insSyncEventId ins,
     mapCalendarId = insCalendarId ins, sourceCalendarId = Some (insSourceCalendarId ins),
     destinationEventUid = insDestinationEventUid ins, deleteIdentifier = insDeleteIdentifier ins,
     syncEventHash = insSyncEventHash ins\<rparr>"

definition conflicts :: "EventMapping \<Rightarrow> EventMapping \<Rightarrow> bool" where
  "conflicts a b \<longleftrightarrow> mapCalendarId a = mapCalendarId b \<and> syncEventId a = syncEventId b"

definition insertRow :: "EventMapping \<Rightarrow> mapping_store \<Rightarrow> mapping_store" where
  "insertRow row db = (if list_ex (conflicts row) (mappingRows db) then db
    else db\<lparr>mappingRows := mappingRows db @ [row]\<rparr>)"

definition deleteRows :: "string list \<Rightarrow> mapping_store \<Rightarrow> mapping_store" where
  "deleteRows batch db = db\<lparr>mappingRows := filter (\<lambda>m. mapId m \<notin> set batch) (mappingRows db)\<rparr>"

definition insertRows :: "(PendingInsert \<times> string) list \<Rightarrow> mapping_store \<Rightarrow> mapping_store" where
  "insertRows batch db =
    (let surviving = lockSurvivingEventStates db (map fst batch)
     in fold (\<lambda>(ins, newId). insertRow (rowForInsert surviving newId ins)) batch db)"

datatype flush_error = UniqueViolation string

definition updatedRow :: "PendingUpdate \<Rightarrow> EventMapping \<Rightarrow> EventMapping" where
  "updatedRow u m = m\<lparr>deleteIdentifier := updDeleteIdentifier u, syncEventHash := Some (updSyncEventHash u),
    syncEventId := updSyncEventId u, startTime := startTime u, endTime := endTime u\<rparr>"

text \<open>An update by key fails when the new identity belongs to another row.\<close>

definition updateRow :: "PendingUpdate \<Rightarrow> (mapping_store, flush_error, unit) eff" where
  "updateRow u db =
    (if list_ex (\<lambda>m. mapId m = updId u
          \<and> list_ex (\<lambda>q. mapId q \<noteq> updId u \<and> conflicts (updatedRow u m) q) (mappingRows db)) (mappingRows db)
     then (Inl (UniqueViolation (updSyncEventId u)), db)
     else (Inr (), db\<lparr>mappingRows := map (\<lambda>m. if mapId m = updId u then updatedRow u m else m) (mappingRows db)\<rparr>))"

fun eff_each :: "('a \<Rightarrow> ('w, 'e, unit) eff) \<Rightarrow> 'a list \<Rightarrow> ('w, 'e, unit) eff" where
  "eff_each f [] = eff_return ()"
| "eff_each f (x # xs) = eff_bind (f x) (\<lambda>_. eff_each f xs)"

definition eff_modify :: "('w \<Rightarrow> 'w) \<Rightarrow> ('w, 'e, unit) eff" where
  "eff_modify f w = (Inr (), f w)"

text \<open>\<open>database.transaction\<close>: an error inside rolls the store back.\<close>

definition transaction :: "('w, 'e, 'a) eff \<Rightarrow> ('w, 'e, 'a) eff" where
  "transaction m w = (case m w of (Inl e, _) \<Rightarrow> (Inl e, w) | (Inr x, w') \<Rightarrow> (Inr x, w'))"

definition createDatabaseFlush :: "string list \<Rightarrow> PendingChanges \<Rightarrow> (mapping_store, flush_error, unit) eff" where
  "createDatabaseFlush newIds changes =
    (let us = or_else (updates changes) [] in
     if inserts changes = [] \<and> deletes changes = [] \<and> us = [] then eff_return ()
     else transaction
       (eff_bind (eff_each (\<lambda>batch. eff_modify (deleteRows batch)) (flushChunk (deletes changes) FLUSH_BATCH_SIZE)) (\<lambda>_.
        eff_bind (eff_each (\<lambda>batch. eff_modify (insertRows batch))
            (flushChunk (zip (inserts changes) newIds) FLUSH_BATCH_SIZE)) (\<lambda>_.
        eff_each (\<lambda>batch. eff_each updateRow batch) (flushChunk us FLUSH_BATCH_SIZE)))))"

section \<open>Generations\<close>

text \<open>A Redis counter per calendar: absent keys read as \<open>null\<close>; the key may expire at any time.\<close>

type_synonym gen_store = "string \<rightharpoonup> int"

definition generationKey :: "string \<Rightarrow> string" where
  "generationKey calendarId = ''sync:gen:'' @ calendarId"

definition createRedisGenerationCheck :: "string \<Rightarrow> gen_store \<Rightarrow> int \<times> gen_store" where
  "createRedisGenerationCheck calendarId store =
    (let key = generationKey calendarId; g = (case store key of None \<Rightarrow> 1 | Some n \<Rightarrow> n + 1)
     in (g, store(key \<mapsto> g)))"

definition isGenerationCurrent :: "string \<Rightarrow> int \<Rightarrow> gen_store \<Rightarrow> bool" where
  "isGenerationCurrent calendarId generation store =
    (case store (generationKey calendarId) of None \<Rightarrow> False | Some n \<Rightarrow> n = generation)"

section \<open>Notes of a sync\<close>

lemma lift_keeps: "ensures (lift_eff m) wn (\<lambda>_ wn'. snd wn' = snd wn)"
  by (auto simp: ensures_def lift_eff_def split: prod.splits sum.splits)

lemma emit_keeps: "ensures (emitProgress opts st nl nr p) wn (\<lambda>_ wn'. snd wn' = snd wn)"
  by (simp add: emitProgress_def lift_keeps split: option.splits)

lemma emit_then:
  "(\<And>x wn'. snd wn' = snd wn \<Longrightarrow> ensures (f x) wn' Q) \<Longrightarrow> ensures (eff_bind (emitProgress opts st nl nr p) f) wn Q"
  unfolding ensures_bind by (rule ensures_mono [OF emit_keeps])

lemma lift_then:
  "(\<And>x wn'. snd wn' = snd wn \<Longrightarrow> ensures (f x) wn' Q) \<Longrightarrow> ensures (eff_bind (lift_eff m) f) wn Q"
  unfolding ensures_bind by (rule ensures_mono [OF lift_keeps])

lemma flush_success_keeps:
  "ensures (flushOrDeleteUnrecordedCopies ch flush del) wn (\<lambda>_ wn'. snd wn' = snd wn)"
  by (auto simp: ensures_def flushOrDeleteUnrecordedCopies_def split: prod.splits sum.splits)

lemma note_flushed_logs:
  "ensures (note_flushed ch) wn (\<lambda>_ wn'. flushedChanges (snd wn') = flushedChanges (snd wn) @ [ch]
    \<and> copiesDeleted (snd wn') = copiesDeleted (snd wn) \<and> copiesDeleteFailed (snd wn') = copiesDeleteFailed (snd wn))"
  by (simp add: ensures_def note_flushed_def)

lemma checkpointFlush_logs:
  "ensures (checkpointFlush opts ch) wn (\<lambda>_ wn'. flushedChanges (snd wn') = flushedChanges (snd wn) @ [ch])"
  unfolding checkpointFlush_def ensures_bind
  by (rule ensures_mono [OF flush_success_keeps], rule ensures_mono [OF note_flushed_logs]) simp

interpretation sync_run: recording_run "lift_provider (optProvider opts)" "syncCallbacks opts nl nr"
  "\<lambda>wn. flushedChanges (snd wn)" for opts :: "('w, 'e) SyncCalendarOptions" and nl nr
proof
  show "\<exists>cp. checkpoint (syncCallbacks opts nl nr) = Some cp \<and> (\<forall>ch w. ensures (cp ch) w
      (\<lambda>_ w'. flushedChanges (snd w') = flushedChanges (snd w) @ [ch]))"
    by (intro exI [of _ "checkpointFlush opts"] conjI allI checkpointFlush_logs) (simp add: syncCallbacks_def)
qed (auto simp: lift_provider_def syncCallbacks_def intro!: ensures_mono [OF lift_keeps] ensures_mono [OF emit_keeps])

definition flush_explains :: "SyncCalendarResult \<Rightarrow> PendingChanges list \<Rightarrow> bool" where
  "flush_explains res flushes \<longleftrightarrow> (\<exists>run rest. flushes = run @ rest
    \<and> added res = length (concat (map inserts run)) + length (concat (map (\<lambda>c. or_else (updates c) []) run))
    \<and> (rest = [] \<or> (\<exists>us. rest = [\<lparr>inserts = [], deletes = [], updates = Some us\<rparr>])))"

lemma finishSync_explains:
  assumes "recorded (exResult st) (exChanges st)" "records [exChanges st] = records (flushedChanges (snd wn))"
  shows "ensures (finishSync opts us st) wn (\<lambda>(res, out) wn'. flush_explains res (flushedChanges (snd wn')))"
proof -
  let ?run = "flushedChanges (snd wn)"
  have cnt: "added (exResult st) = length (concat (map inserts ?run)) + length (concat (map (\<lambda>c. or_else (updates c) []) ?run))"
    using assms by (simp add: recorded_def records_def)
  let ?ch = "\<lparr>inserts = [], deletes = [], updates = Some us\<rparr>"
  have "ensures (eff_bind (lift_eff (optFlush opts ?ch)) (\<lambda>_. note_flushed ?ch)) wn
      (\<lambda>_ wn'. flushedChanges (snd wn') = ?run @ [?ch])"
    unfolding ensures_bind by (rule ensures_mono [OF lift_keeps], rule ensures_mono [OF note_flushed_logs]) simp
  then show ?thesis
    unfolding finishSync_def Let_def ensures_bind [of "If _ _ _"] using cnt
    by (cases "length us > 0") (auto simp: flush_explains_def simp del: ensures_bind elim!: ensures_mono)
qed

lemma run_explained:
  assumes "flushedChanges (snd wn) = []"
  shows "ensures (executeRemoteOperations sha256 ops ms cal (lift_provider (optProvider opts)) (syncCallbacks opts nl nr)) wn
    (\<lambda>st wn'. recorded (exResult st) (exChanges st) \<and> records [exChanges st] = records (flushedChanges (snd wn')))"
  using sync_run.run_logged [OF assms, of sha256 ops ms cal opts nl nr]
    executeRemoteOperations_inv [of sha256 ops ms cal "lift_provider (optProvider opts)" "syncCallbacks opts nl nr" wn]
  by (auto simp: ensures_def run_inv_def split: prod.splits sum.splits)

lemma empty_explained: "flush_explains EMPTY_RESULT []"
  by (simp add: flush_explains_def EMPTY_RESULT_def)

lemma syncBody_explains:
  fixes opts :: "('w, 'e) SyncCalendarOptions"
  assumes "flushedChanges (snd wn) = []"
  shows "ensures (syncBody sha256 lc opts) wn (\<lambda>(res, out) wn'. flush_explains res (flushedChanges (snd wn')))"
proof -
  have run: "ensures (eff_bind (executeRemoteOperations sha256 ops ms cal (lift_provider (optProvider opts)) (syncCallbacks opts nl nr))
      (finishSync opts us)) wn1 (\<lambda>(res, out) wn'. flush_explains res (flushedChanges (snd wn')))"
    if "flushedChanges (snd wn1) = []" for ops ms cal nl nr us wn1
    unfolding ensures_bind
    by (rule ensures_mono [OF run_explained [OF that]]) (auto intro: finishSync_explains)
  show ?thesis
    unfolding syncBody_def Let_def
  proof (intro emit_then lift_then)
    fix x0 :: unit and x x1 and wn1 wn2 wn3 :: "'w \<times> RunNotes"
    assume keeps: "snd wn1 = snd wn" "snd wn2 = snd wn1" "snd wn3 = snd wn2"
    then have empty: "flushedChanges (snd wn3) = []" using assms by simp
    let ?es = "normalizeAll (optProvider opts) (rsLocalEvents x)"
    let ?c = "computeSyncOperations sha256 lc ?es (rsExistingMappings x) (rsRemoteEvents x) (reconciliationScope opts)"
    let ?busy = "eff_bind (emitProgress opts Processing (length ?es) (length (rsRemoteEvents x))
        (Some (0, getTotalOperationCount (operations ?c)))) (\<lambda>_.
      eff_bind (executeRemoteOperations sha256 (operations ?c) (rsExistingMappings x) (optCalendarId opts)
          (lift_provider (optProvider opts)) (syncCallbacks opts (length ?es) (length (rsRemoteEvents x))))
        (finishSync opts (mappingUpdates ?c)))"
    have busy: "ensures ?busy wn4 (\<lambda>(res, out) wn'. flush_explains res (flushedChanges (snd wn')))"
      if "flushedChanges (snd wn4) = []" for wn4
      by (rule emit_then, rule run) (use that in simp)
    show "ensures (if \<not> x1 then eff_return (EMPTY_RESULT, OutSuperseded)
        else eff_bind (emitProgress opts Comparing (length ?es) (length (rsRemoteEvents x)) None) (\<lambda>_.
          if length (operations ?c) = 0 \<and> length (resStaleMappingIds ?c) = 0 \<and> length (mappingUpdates ?c) = 0
          then eff_return (EMPTY_RESULT, OutInSync) else ?busy)) wn3
      (\<lambda>(res, out) wn'. flush_explains res (flushedChanges (snd wn')))"
    proof (cases x1)
      case True
      show ?thesis
        unfolding if_not_P [OF not_not [THEN iffD2, OF True]]
        by (rule emit_then) (use empty busy empty_explained in \<open>auto simp del: ensures_bind\<close>)
    qed (simp add: empty empty_explained)
  qed
qed

text \<open>A sync that returns has flushed what it counts: the changes it flushed are those of its run,
  followed by at most one set of database-only mapping updates, and the number of events it
  reports as added is exactly the number of mappings inserted or rewritten by the run's flushes.\<close>

theorem sync_flushes_what_it_reports:
  assumes "syncCalendar sha256 lc opts w = (Inr (res, out), (w', notes))"
  shows "flush_explains res (flushedChanges notes)"
proof -
  have "ensures (syncBody sha256 lc opts) (w, \<lparr>flushedChanges = [], copiesDeleted = 0, copiesDeleteFailed = 0\<rparr>)
      (\<lambda>(res, out) wn'. flush_explains res (flushedChanges (snd wn')))"
    by (rule syncBody_explains) simp
  from ensuresD [OF this assms [unfolded syncCalendar_def]] show ?thesis by simp
qed

text \<open>C21: When a flush fails, the copies it was to record are deleted at the provider before the error
  is rethrown: the provider is asked to delete exactly the identifiers of the pending inserts,
  each of them is tallied as deleted or as failed, nothing counts as flushed, and the original
  error is the one that is thrown even if the deletion fails too.\<close>

theorem failed_flush_is_compensated:
  assumes "flush changes w = (Inl e, w1)" "inserts changes \<noteq> []"
  shows "\<exists>w2 n2. flushOrDeleteUnrecordedCopies changes flush del (w, n) = (Inl e, (w2, n2))
    \<and> w2 = snd (del (map insDeleteIdentifier (inserts changes)) w1)
    \<and> flushedChanges n2 = flushedChanges n
    \<and> copiesDeleted n2 + copiesDeleteFailed n2
        = copiesDeleted n + copiesDeleteFailed n + int (length (inserts changes))
    \<and> (\<forall>results w'. del (map insDeleteIdentifier (inserts changes)) w1 = (Inr results, w') \<longrightarrow>
        copiesDeleted n2 = copiesDeleted n + int (length (filter delSuccess results)))"
  using assms
  by (auto simp: flushOrDeleteUnrecordedCopies_def deleteUnrecordedCopies_def Let_def
      split: prod.splits sum.splits)

definition sample_insert :: PendingInsert where
  "sample_insert = pendingInsertFor id ''d1'' sample_event ''r1'' None"

theorem failed_flush_is_compensated_witness:
  "\<exists>w2 n2. flushOrDeleteUnrecordedCopies \<lparr>inserts = [sample_insert], deletes = [], updates = None\<rparr>
      (\<lambda>_ w. (Inl ''down'', w)) (deleteEvents sample_provider)
      (0, \<lparr>flushedChanges = [], copiesDeleted = 0, copiesDeleteFailed = 0\<rparr>) = (Inl ''down'', (w2, n2))
    \<and> copiesDeleted n2 = 1"
  using failed_flush_is_compensated [of "\<lambda>_ w. (Inl ''down'', w)"
      "\<lparr>inserts = [sample_insert], deletes = [], updates = None\<rparr>" 0 "''down''" 0
      "deleteEvents sample_provider" "\<lparr>flushedChanges = [], copiesDeleted = 0, copiesDeleteFailed = 0\<rparr>"]
  by (auto simp: sample_provider_def)

section \<open>Quiet syncs\<close>

text \<open>A sync that is no longer current after reading the state, and a sync of a destination that
  already agrees with its sources, end without calling the provider and without flushing: the
  world is the one the read and the currency check left behind, and nothing is reported as
  added, removed or failed.\<close>

theorem quiet_sync_touches_nothing:
  assumes "onProgress opts = None" "readState opts w = (Inr state, wr)" "optIsCurrent opts wr = (Inr current, wc)"
    and "current \<longrightarrow>
      distinct (map evId es) \<and> distinct (map mapId (rsExistingMappings state))
      \<and> distinct (map (\<lambda>r. getRemoteIdentity (uid r) (remDeleteId r)) (rsRemoteEvents state))
      \<and> (\<forall>e \<in> set es. isInsideSourceAuthoritativeWindow e (Some (evCalendarId e)) scope
           \<longrightarrow> (\<exists>m \<in> set (rsExistingMappings state). syncEventId m = evId e))
      \<and> (\<forall>m \<in> set (rsExistingMappings state). overlapsTimeWindow (startTime m) (endTime m)
             (timeMin (requestedWindow scope)) (timeMax (requestedWindow scope))
           \<and> (\<exists>e \<in> set es. isInsideSourceAuthoritativeWindow e (Some (evCalendarId e)) scope
               \<and> (\<exists>r \<in> set (rsRemoteEvents state). mirrors sha256 m e r)))
      \<and> (\<forall>r \<in> set (rsRemoteEvents state). isKeeperEvent r \<longrightarrow>
           (\<exists>m \<in> set (rsExistingMappings state). uid r = destinationEventUid m \<and> remDeleteId r = deleteIdentifier m))"
    and "es = normalizeAll (optProvider opts) (rsLocalEvents state)" "scope = reconciliationScope opts"
  shows "syncCalendar sha256 lc opts w =
    (Inr (EMPTY_RESULT, if current then OutInSync else OutSuperseded),
     (wc, \<lparr>flushedChanges = [], copiesDeleted = 0, copiesDeleteFailed = 0\<rparr>))"
proof -
  have quiet: "operations c = [] \<and> mappingUpdates c = [] \<and> resStaleMappingIds c = []"
    if "current" "c = computeSyncOperations sha256 lc es (rsExistingMappings state) (rsRemoteEvents state) scope" for c
    unfolding that(2) using assms(4) that(1) by (intro agreement_quiet) blast+
  have lifted: "lift_eff (readState opts) (w, n) = (Inr state, (wr, n))"
    "lift_eff (optIsCurrent opts) (wr, n) = (Inr current, (wc, n))" for n :: RunNotes
    using assms(2,3) by (simp_all add: lift_eff_def)
  show ?thesis
    unfolding syncCalendar_def syncBody_def emitProgress_def assms(1) option.case Let_def
    by (cases current) (auto simp: eff_simps lifted
        simp flip: assms(5,6) dest: quiet [OF _ refl])
qed

definition sample_options :: "bool \<Rightarrow> (nat, string) SyncCalendarOptions" where
  "sample_options current = \<lparr>optCalendarId = ''d1'', optProvider = sample_provider,
    readState = (\<lambda>w. (Inr \<lparr>rsLocalEvents = [sample_event], rsExistingMappings = [], rsRemoteEvents = []\<rparr>, w + 1)),
    optIsCurrent = (\<lambda>w. (Inr current, w + 1)), optFlush = (\<lambda>_ w. (Inr (), w + 1)), onProgress = None,
    reconciliationScope = sample_scope\<rparr>"

theorem quiet_sync_touches_nothing_witness:
  "syncCalendar id (\<lambda>_ _. 0) (sample_options False) 0 =
    (Inr (EMPTY_RESULT, OutSuperseded), (2, \<lparr>flushedChanges = [], copiesDeleted = 0, copiesDeleteFailed = 0\<rparr>))"
  using quiet_sync_touches_nothing [where opts = "sample_options False" and w = 0 and wr = 1 and wc = 2 and current = False
      and state = "\<lparr>rsLocalEvents = [sample_event], rsExistingMappings = [], rsRemoteEvents = []\<rparr>"]
  by (simp add: sample_options_def)

theorem sync_flushes_what_it_reports_witness:
  "\<exists>res out w' notes. syncCalendar id (\<lambda>_ _. 0) (sample_options False) 0 = (Inr (res, out), (w', notes))
    \<and> flush_explains res (flushedChanges notes)"
proof -
  have "syncCalendar id (\<lambda>_ _. 0) (sample_options False) 0 =
      (Inr (EMPTY_RESULT, OutSuperseded), (2, \<lparr>flushedChanges = [], copiesDeleted = 0, copiesDeleteFailed = 0\<rparr>))"
    by (simp add: syncCalendar_def syncBody_def emitProgress_def sample_options_def lift_eff_def eff_simps Let_def)
  from this sync_flushes_what_it_reports [OF this] show ?thesis by blast
qed

section \<open>The flush and the store\<close>

lemma eff_each_modify: "eff_each (\<lambda>x. eff_modify (f x)) xs w = (Inr (), fold f xs w)"
  by (induction xs arbitrary: w) (auto simp: eff_simps eff_modify_def)

lemma eff_each_concat: "eff_each (\<lambda>batch. eff_each f batch) bs w = eff_each f (concat bs) w"
proof -
  have app: "eff_each f (xs @ ys) w = eff_bind (eff_each f xs) (\<lambda>_. eff_each f ys) w" for xs ys w
    by (induction xs arbitrary: w) (auto simp: eff_simps split: prod.splits sum.splits)
  show ?thesis
    by (induction bs arbitrary: w) (auto simp: eff_simps app split: prod.splits sum.splits)
qed

lemma concat_flushChunk: "concat (flushChunk xs FLUSH_BATCH_SIZE) = xs"
  by (simp add: flushChunk_def FLUSH_BATCH_SIZE_def concat_chunks_from)

lemma fold_deleteRows: "fold deleteRows bs db = deleteRows (concat bs) db"
  by (induction bs arbitrary: db) (auto simp: deleteRows_def)

definition insert_one :: "PendingInsert \<times> string \<Rightarrow> mapping_store \<Rightarrow> mapping_store" where
  "insert_one p db = insertRow (rowForInsert (eventStateIds db) (snd p) (fst p)) db"

lemma eventStateIds_insertRow [simp]: "eventStateIds (insertRow row db) = eventStateIds db"
  by (simp add: insertRow_def)

lemma insertRows_eq: "insertRows batch db = fold insert_one batch db"
proof -
  have "set xs \<subseteq> set batch \<Longrightarrow> eventStateIds db' = eventStateIds db \<Longrightarrow>
      fold (\<lambda>(ins, newId). insertRow (rowForInsert (lockSurvivingEventStates db (map fst batch)) newId ins)) xs db'
      = fold insert_one xs db'" for xs db'
  proof (induction xs arbitrary: db')
    case (Cons p xs)
    then have "insertRow (rowForInsert (lockSurvivingEventStates db (map fst batch)) (snd p) (fst p)) db' = insert_one p db'"
      by (auto simp: insert_one_def rowForInsert_def resolveSurvivingEventStateId_def lockSurvivingEventStates_def)
    with Cons show ?case by (auto simp: case_prod_unfold insert_one_def)
  qed simp
  then show ?thesis by (simp add: insertRows_def Let_def)
qed

lemma fold_insertRows: "fold insertRows bs db = fold insert_one (concat bs) db"
  by (induction bs arbitrary: db) (auto simp: insertRows_eq)

lemma flush_eq:
  "createDatabaseFlush newIds changes db =
    transaction (eff_each updateRow (or_else (updates changes) []) \<circ>
      fold insert_one (zip (inserts changes) newIds) \<circ> deleteRows (deletes changes)) db"
  by (auto simp: createDatabaseFlush_def Let_def transaction_def eff_simps eff_each_modify eff_each_concat
      fold_deleteRows fold_insertRows concat_flushChunk deleteRows_def split: prod.splits sum.splits)

text \<open>The constraints of the table: its key and its unique index.\<close>

definition valid_store :: "mapping_store \<Rightarrow> bool" where
  "valid_store db \<longleftrightarrow> distinct (map mapId (mappingRows db))
    \<and> distinct (map (\<lambda>m. (mapCalendarId m, syncEventId m)) (mappingRows db))"

lemma valid_deleteRows: "valid_store db \<Longrightarrow> valid_store (deleteRows ids db)"
  by (simp add: valid_store_def deleteRows_def distinct_map_filter)

lemma fold_insert_one:
  assumes "valid_store db" "distinct (map snd ps)" "mapId ` set (mappingRows db) \<inter> snd ` set ps = {}"
  shows "valid_store (fold insert_one ps db)
    \<and> set (mappingRows db) \<subseteq> set (mappingRows (fold insert_one ps db))
    \<and> (\<forall>row \<in> set (mappingRows (fold insert_one ps db)). row \<in> set (mappingRows db) \<or> mapId row \<in> snd ` set ps)
    \<and> (\<forall>(ins, i) \<in> set ps. \<exists>row \<in> set (mappingRows (fold insert_one ps db)).
        mapCalendarId row = insCalendarId ins \<and> syncEventId row = insSyncEventId ins)"
  using assms
proof (induction ps arbitrary: db)
  case (Cons p ps)
  obtain ins i where p: "p = (ins, i)" by (cases p)
  let ?row = "rowForInsert (eventStateIds db) i ins" and ?db = "insert_one p db"
  have new: "i \<notin> mapId ` set (mappingRows db)" "i \<notin> snd ` set ps" using Cons.prems p by auto
  have v: "valid_store ?db"
    using Cons.prems(1) new(1)
    by (auto simp: insert_one_def insertRow_def valid_store_def p rowForInsert_def conflicts_def list_ex_iff image_iff)
  have rows: "mapId ` set (mappingRows ?db) \<subseteq> insert i (mapId ` set (mappingRows db))"
    "set (mappingRows db) \<subseteq> set (mappingRows ?db)"
    "\<forall>row \<in> set (mappingRows ?db). row \<in> set (mappingRows db) \<or> mapId row = i"
    by (auto simp: insert_one_def insertRow_def p rowForInsert_def)
  have here: "\<exists>row \<in> set (mappingRows ?db). mapCalendarId row = insCalendarId ins \<and> syncEventId row = insSyncEventId ins"
    by (auto simp: insert_one_def insertRow_def p rowForInsert_def conflicts_def list_ex_iff)
  have "mapId ` set (mappingRows db) \<inter> snd ` set ps = {}" using Cons.prems(3) by auto
  then have "mapId ` set (mappingRows ?db) \<inter> snd ` set ps = {}" using rows(1) new(2) by blast
  from Cons.IH [OF v _ this] Cons.prems(2) rows(2,3) here show ?case
    by (simp add: p) blast
qed simp

lemma valid_updateRow: "valid_store db \<Longrightarrow> ensures (updateRow u) db (\<lambda>_ db'. valid_store db')"
proof -
  assume v: "valid_store db"
  let ?f = "\<lambda>m. if mapId m = updId u then updatedRow u m else m"
  have "valid_store (db\<lparr>mappingRows := map ?f (mappingRows db)\<rparr>)"
    if ok: "\<not> list_ex (\<lambda>m. mapId m = updId u
        \<and> list_ex (\<lambda>q. mapId q \<noteq> updId u \<and> conflicts (updatedRow u m) q) (mappingRows db)) (mappingRows db)"
  proof -
    have ids: "map (mapId \<circ> ?f) (mappingRows db) = map mapId (mappingRows db)" by (auto simp: updatedRow_def)
    have "a = b" if "a \<in> set (mappingRows db)" "b \<in> set (mappingRows db)"
      "(mapCalendarId (?f a), syncEventId (?f a)) = (mapCalendarId (?f b), syncEventId (?f b))" for a b
    proof (cases "mapId a = updId u"; cases "mapId b = updId u")
      assume "mapId a = updId u" "mapId b = updId u"
      then show ?thesis using v that(1,2) by (auto simp: valid_store_def distinct_map inj_on_def)
    next
      assume "mapId a = updId u" "mapId b \<noteq> updId u"
      then show ?thesis using ok that by (auto simp: list_ex_iff conflicts_def)
    next
      assume "mapId a \<noteq> updId u" "mapId b = updId u"
      then show ?thesis using ok that by (force simp: list_ex_iff conflicts_def)
    next
      assume "mapId a \<noteq> updId u" "mapId b \<noteq> updId u"
      then show ?thesis using v that by (auto simp: valid_store_def distinct_map inj_on_def)
    qed
    moreover have "distinct (mappingRows db)" using v by (auto simp: valid_store_def distinct_map)
    ultimately show ?thesis
      using v ids by (auto simp: valid_store_def distinct_map inj_on_def comp_def)
  qed
  then show ?thesis by (simp add: ensures_def updateRow_def)
qed

lemma valid_updates: "valid_store db \<Longrightarrow> ensures (eff_each updateRow us) db (\<lambda>_ db'. valid_store db')"
proof (induction us arbitrary: db)
  case (Cons u us)
  have "ensures (updateRow u) db (\<lambda>_ db'. ensures (eff_each updateRow us) db' (\<lambda>_ db''. valid_store db''))"
    by (rule ensures_mono [OF valid_updateRow [OF Cons.prems]]) (rule Cons.IH)
  then show ?case by simp
qed simp

text \<open>C10: A flush is all or nothing and keeps the table's constraints. With fresh row ids, the store stays
  valid; an error leaves it exactly as it was; and a successful flush of inserts and deletes keeps
  every row that was not deleted, drops the deleted ones, and leaves each inserted pair of calendar
  and sync event with a row.\<close>

theorem flush_is_atomic_and_complete:
  assumes "valid_store db" "distinct newIds" "mapId ` set (mappingRows db) \<inter> set newIds = {}"
    and "length newIds = length (inserts changes)"
    and "createDatabaseFlush newIds changes db = (r, db')"
  shows "valid_store db'
    \<and> (\<forall>e. r = Inl e \<longrightarrow> db' = db)
    \<and> (r = Inr () \<and> or_else (updates changes) [] = [] \<longrightarrow>
        (\<forall>m \<in> set (mappingRows db). mapId m \<notin> set (deletes changes) \<longrightarrow> m \<in> set (mappingRows db'))
        \<and> (\<forall>m \<in> set (mappingRows db'). m \<in> set (mappingRows db) \<longrightarrow> mapId m \<notin> set (deletes changes))
        \<and> (\<forall>ins \<in> set (inserts changes). \<exists>row \<in> set (mappingRows db').
             mapCalendarId row = insCalendarId ins \<and> syncEventId row = insSyncEventId ins))"
proof -
  let ?ps = "zip (inserts changes) newIds" and ?us = "or_else (updates changes) []"
  let ?d = "deleteRows (deletes changes) db"
  let ?db2 = "fold insert_one ?ps ?d"
  have v: "valid_store ?d" using assms(1) by (rule valid_deleteRows)
  have snd: "map snd ?ps = newIds" using assms(4) by (simp add: map_snd_zip_take)
  then have sset: "snd ` set ?ps = set newIds" by (metis list.set_map)
  have fresh: "mapId ` set (mappingRows ?d) \<inter> snd ` set ?ps = {}"
    using assms(3) unfolding sset by (auto simp: deleteRows_def)
  have ins: "valid_store ?db2 \<and> set (mappingRows ?d) \<subseteq> set (mappingRows ?db2)
    \<and> (\<forall>row \<in> set (mappingRows ?db2). row \<in> set (mappingRows ?d) \<or> mapId row \<in> snd ` set ?ps)
    \<and> (\<forall>(ins, i) \<in> set ?ps. \<exists>row \<in> set (mappingRows ?db2).
        mapCalendarId row = insCalendarId ins \<and> syncEventId row = insSyncEventId ins)"
    by (rule fold_insert_one [OF v _ fresh]) (simp add: snd assms(2))
  have eq: "transaction (eff_each updateRow ?us \<circ> fold insert_one ?ps \<circ> deleteRows (deletes changes)) db = (r, db')"
    using assms(5) by (simp add: flush_eq)
  have upd: "ensures (eff_each updateRow ?us) ?db2 (\<lambda>_ db''. valid_store db'')"
    by (rule valid_updates) (use ins in blast)
  show ?thesis
  proof (cases r)
    case (Inl e)
    then have "db' = db" using eq by (auto simp: transaction_def split: prod.splits sum.splits)
    then show ?thesis using Inl assms(1) by simp
  next
    case (Inr x)
    then have run: "eff_each updateRow ?us ?db2 = (Inr x, db')"
      using eq by (auto simp: transaction_def split: prod.splits sum.splits)
    have "db' = ?db2" if "?us = []" using run that by (simp add: eff_simps)
    moreover have "mapId m \<notin> set (deletes changes)" if "m \<in> set (mappingRows ?db2)" "m \<in> set (mappingRows db)" for m
    proof -
      have "mapId m \<notin> snd ` set ?ps" using that(2) assms(3) unfolding sset by blast
      then have "m \<in> set (mappingRows ?d)" using ins that(1) by blast
      then show ?thesis by (simp add: deleteRows_def)
    qed
    moreover have "m \<in> set (mappingRows ?db2)" if "m \<in> set (mappingRows db)" "mapId m \<notin> set (deletes changes)" for m
      using ins that by (auto simp: deleteRows_def)
    moreover have "\<exists>row \<in> set (mappingRows ?db2). mapCalendarId row = insCalendarId i \<and> syncEventId row = insSyncEventId i"
      if "i \<in> set (inserts changes)" for i
    proof -
      obtain k where "(i, k) \<in> set ?ps" using \<open>i \<in> set (inserts changes)\<close> assms(4) by (metis in_set_impl_in_set_zip1)
      then show ?thesis using ins by blast
    qed
    ultimately show ?thesis using ensuresD [OF upd run] Inr by auto
  qed
qed

theorem flush_is_atomic_and_complete_witness:
  "\<exists>db'. createDatabaseFlush [''m2''] \<lparr>inserts = [sample_insert], deletes = [''m1''], updates = None\<rparr>
      \<lparr>mappingRows = [sample_mapping], eventStateIds = {''s1''}\<rparr> = (Inr (), db')
    \<and> valid_store db' \<and> sample_mapping \<notin> set (mappingRows db')"
proof -
  let ?ch = "\<lparr>inserts = [sample_insert], deletes = [''m1''], updates = None\<rparr>"
  let ?db = "\<lparr>mappingRows = [sample_mapping], eventStateIds = {''s1''}\<rparr>"
  obtain db' where 1: "createDatabaseFlush [''m2''] ?ch ?db = (Inr (), db')"
    by (simp add: flush_eq transaction_def eff_simps)
  have "valid_store ?db" "distinct [''m2'']" "mapId ` set (mappingRows ?db) \<inter> set [''m2''] = {}"
    "length [''m2''] = length (inserts ?ch)"
    by (simp_all add: valid_store_def sample_mapping_def)
  from flush_is_atomic_and_complete [OF this 1] 1 show ?thesis
    by (auto simp: sample_mapping_def)
qed

section \<open>Generations supersede each other\<close>

text \<open>Starting a sync of a calendar makes it the current generation and ends every earlier one of the
  same calendar, while syncs of other calendars are untouched; a counter that expired makes no
  generation current.\<close>

theorem generation_check_is_exclusive:
  assumes "createRedisGenerationCheck cal store = (g, store')"
  shows "isGenerationCurrent cal g store'
    \<and> (\<forall>old. isGenerationCurrent cal old store \<longrightarrow> \<not> isGenerationCurrent cal old store')
    \<and> (\<forall>other k. other \<noteq> cal \<longrightarrow> isGenerationCurrent other k store' = isGenerationCurrent other k store)
    \<and> \<not> isGenerationCurrent cal g (store'(generationKey cal := None))"
  using assms
  by (auto simp: createRedisGenerationCheck_def isGenerationCurrent_def generationKey_def Let_def split: option.splits)

theorem generation_check_is_exclusive_witness:
  "isGenerationCurrent ''c'' 5 [generationKey ''c'' \<mapsto> 5]
    \<and> \<not> isGenerationCurrent ''c'' 5 (snd (createRedisGenerationCheck ''c'' [generationKey ''c'' \<mapsto> 5]))"
  using generation_check_is_exclusive [of "''c''" "[generationKey ''c'' \<mapsto> 5]" 6 "[generationKey ''c'' \<mapsto> 6]"]
  by (simp add: createRedisGenerationCheck_def isGenerationCurrent_def)

end
