(* ===== verification/Redis_Store.thy ===== *)
theory Redis_Store
  imports Prelude
begin

text \<open>
  The part of Redis that the lock and rate-limit scripts use: strings, lists and sorted sets
  under string keys, each with an optional expiry instant that is compared with the server's
  clock on every access. A key past its expiry behaves as a missing key. A Lua script runs
  atomically, so a script is a function on the store.
\<close>

type_synonym zset = "(string \<times> int) list"

record redis =
  rd_now :: instant
  rd_strings :: "string \<Rightarrow> (string \<times> instant option) option"
  rd_lists :: "string \<Rightarrow> (string list \<times> instant option) option"
  rd_zsets :: "string \<Rightarrow> (zset \<times> instant option) option"

definition empty_redis :: redis where
  "empty_redis = \<lparr>rd_now = 0, rd_strings = \<lambda>_. None, rd_lists = \<lambda>_. None, rd_zsets = \<lambda>_. None\<rparr>"

definition live_at :: "instant \<Rightarrow> instant option \<Rightarrow> bool" where
  "live_at t e = (case e of None \<Rightarrow> True | Some d \<Rightarrow> t < d)"

definition live_value :: "instant \<Rightarrow> ('a \<times> instant option) option \<Rightarrow> 'a option" where
  "live_value t entry = (case entry of None \<Rightarrow> None | Some (v, e) \<Rightarrow> if live_at t e then Some v else None)"

lemma live_simps [simp]:
  "live_at t None" "live_at t (Some d) \<longleftrightarrow> t < d"
  "live_value t None = None"
  "live_value t (Some (v, e)) = (if live_at t e then Some v else None)"
  by (simp_all add: live_at_def live_value_def)

lemma live_value_SomeD: "live_value t entry = Some v \<Longrightarrow> \<exists>e. entry = Some (v, e) \<and> live_at t e"
  by (auto simp: live_value_def split: option.splits if_splits)

section \<open>Strings\<close>

definition redis_get :: "string \<Rightarrow> redis \<Rightarrow> string option" where
  "redis_get k r = live_value (rd_now r) (rd_strings r k)"

definition redis_set_ex :: "string \<Rightarrow> string \<Rightarrow> int \<Rightarrow> redis \<Rightarrow> redis" where
  "redis_set_ex k v seconds r =
    r\<lparr>rd_strings := (rd_strings r)(k \<mapsto> (v, Some (rd_now r + 1000 * seconds)))\<rparr>"

definition redis_del_string :: "string \<Rightarrow> redis \<Rightarrow> redis" where
  "redis_del_string k r = r\<lparr>rd_strings := (rd_strings r)(k := None)\<rparr>"

definition redis_expire_string :: "string \<Rightarrow> int \<Rightarrow> redis \<Rightarrow> redis" where
  "redis_expire_string k seconds r =
    (case redis_get k r of None \<Rightarrow> r | Some v \<Rightarrow> redis_set_ex k v seconds r)"

text \<open>\<open>SET key value NX PX ttl\<close>: the flag says whether the reply is not null.\<close>

definition redis_set_nx_px :: "string \<Rightarrow> string \<Rightarrow> int \<Rightarrow> redis \<Rightarrow> bool \<times> redis" where
  "redis_set_nx_px k v ttlMs r =
    (if redis_get k r = None
     then (True, r\<lparr>rd_strings := (rd_strings r)(k \<mapsto> (v, Some (rd_now r + ttlMs)))\<rparr>)
     else (False, r))"

section \<open>Lists\<close>

definition redis_lrange :: "string \<Rightarrow> redis \<Rightarrow> string list" where
  "redis_lrange k r = or_else (live_value (rd_now r) (rd_lists r k)) []"

definition redis_lindex_0 :: "string \<Rightarrow> redis \<Rightarrow> string option" where
  "redis_lindex_0 k r = (case redis_lrange k r of [] \<Rightarrow> None | x # _ \<Rightarrow> Some x)"

definition redis_expiry_of_list :: "string \<Rightarrow> redis \<Rightarrow> instant option" where
  "redis_expiry_of_list k r = (case rd_lists r k of None \<Rightarrow> None
    | Some (_, e) \<Rightarrow> if live_at (rd_now r) e then e else None)"

definition redis_put_list :: "string \<Rightarrow> string list \<Rightarrow> instant option \<Rightarrow> redis \<Rightarrow> redis" where
  "redis_put_list k xs e r =
    r\<lparr>rd_lists := (rd_lists r)(k := (if xs = [] then None else Some (xs, e)))\<rparr>"

definition redis_lrem :: "string \<Rightarrow> string \<Rightarrow> redis \<Rightarrow> redis" where
  "redis_lrem k x r =
    redis_put_list k (filter (\<lambda>y. y \<noteq> x) (redis_lrange k r)) (redis_expiry_of_list k r) r"

definition redis_lpush :: "string \<Rightarrow> string \<Rightarrow> redis \<Rightarrow> redis" where
  "redis_lpush k x r = redis_put_list k (x # redis_lrange k r) (redis_expiry_of_list k r) r"

definition redis_expire_list :: "string \<Rightarrow> int \<Rightarrow> redis \<Rightarrow> redis" where
  "redis_expire_list k seconds r =
    redis_put_list k (redis_lrange k r) (Some (rd_now r + 1000 * seconds)) r"

definition redis_del_list :: "string \<Rightarrow> redis \<Rightarrow> redis" where
  "redis_del_list k r = r\<lparr>rd_lists := (rd_lists r)(k := None)\<rparr>"

section \<open>What each command leaves of the store\<close>

lemmas redis_string_defs = redis_get_def redis_set_ex_def redis_del_string_def
  redis_expire_string_def redis_set_nx_px_def

lemmas redis_list_defs = redis_lrange_def redis_lindex_0_def redis_put_list_def redis_lrem_def
  redis_lpush_def redis_expire_list_def redis_del_list_def

lemma redis_now_kept [simp]:
  "rd_now (redis_set_ex k v s r) = rd_now r" "rd_now (redis_del_string k r) = rd_now r"
  "rd_now (redis_expire_string k s r) = rd_now r" "rd_now (redis_put_list k xs e r) = rd_now r"
  "rd_now (redis_lrem k x r) = rd_now r" "rd_now (redis_lpush k x r) = rd_now r"
  "rd_now (redis_expire_list k s r) = rd_now r" "rd_now (redis_del_list k r) = rd_now r"
  by (simp_all add: redis_string_defs redis_list_defs split: option.splits)

lemma redis_strings_after [simp]:
  "rd_strings (redis_set_ex k v s r) = (rd_strings r)(k \<mapsto> (v, Some (rd_now r + 1000 * s)))"
  "rd_strings (redis_del_string k r) = (rd_strings r)(k := None)"
  "rd_strings (redis_put_list k xs e r) = rd_strings r"
  "rd_strings (redis_lrem k x r) = rd_strings r" "rd_strings (redis_lpush k x r) = rd_strings r"
  "rd_strings (redis_expire_list k s r) = rd_strings r" "rd_strings (redis_del_list k r) = rd_strings r"
  by (simp_all add: redis_string_defs redis_list_defs)

lemma redis_lists_after [simp]:
  "rd_lists (redis_set_ex k v s r) = rd_lists r"
  "rd_lists (redis_del_string k r) = rd_lists r"
  "rd_lists (redis_expire_string k s r) = rd_lists r"
  "rd_lists (redis_put_list k xs e r) = (rd_lists r)(k := (if xs = [] then None else Some (xs, e)))"
  "rd_lists (redis_del_list k r) = (rd_lists r)(k := None)"
  "rd_lists (redis_lrem k x r) = (rd_lists r)(k := (let xs = filter (\<lambda>y. y \<noteq> x) (redis_lrange k r)
    in if xs = [] then None else Some (xs, redis_expiry_of_list k r)))"
  "rd_lists (redis_lpush k x r) =
    (rd_lists r)(k \<mapsto> (x # redis_lrange k r, redis_expiry_of_list k r))"
  "rd_lists (redis_expire_list k s r) = (rd_lists r)(k := (if redis_lrange k r = [] then None
    else Some (redis_lrange k r, Some (rd_now r + 1000 * s))))"
  by (simp_all add: redis_string_defs redis_list_defs split: option.splits)

lemma redis_expire_string_strings:
  "rd_strings (redis_expire_string k s r) = (case redis_get k r of None \<Rightarrow> rd_strings r
    | Some v \<Rightarrow> (rd_strings r)(k \<mapsto> (v, Some (rd_now r + 1000 * s))))"
  by (simp add: redis_expire_string_def split: option.splits)

text \<open>Reading a list after it was written.\<close>

lemma redis_lrange_put:
  "redis_lrange k (redis_put_list j xs e r) =
    (if k = j then (if live_at (rd_now r) e then xs else []) else redis_lrange k r)"
  by (simp add: redis_lrange_def redis_put_list_def)

lemma redis_expiry_live: "live_at (rd_now r) (redis_expiry_of_list k r)"
  by (auto simp: redis_expiry_of_list_def split: option.splits)

lemma redis_lrange_after [simp]:
  "redis_lrange k (redis_set_ex j v s r) = redis_lrange k r"
  "redis_lrange k (redis_del_string j r) = redis_lrange k r"
  "redis_lrange k (redis_expire_string j s r) = redis_lrange k r"
  "redis_lrange k (redis_lrem j x r) =
    (if k = j then filter (\<lambda>y. y \<noteq> x) (redis_lrange k r) else redis_lrange k r)"
  "redis_lrange k (redis_lpush j x r) =
    (if k = j then x # redis_lrange k r else redis_lrange k r)"
  "redis_lrange k (redis_del_list j r) = (if k = j then [] else redis_lrange k r)"
proof -
  show "redis_lrange k (redis_lrem j x r) =
      (if k = j then filter (\<lambda>y. y \<noteq> x) (redis_lrange k r) else redis_lrange k r)"
    by (simp add: redis_lrem_def redis_lrange_put redis_expiry_live)
  show "redis_lrange k (redis_lpush j x r) =
      (if k = j then x # redis_lrange k r else redis_lrange k r)"
    by (simp add: redis_lpush_def redis_lrange_put redis_expiry_live)
qed (simp_all add: redis_lrange_def redis_del_list_def)

lemma redis_lrange_expire [simp]:
  "0 < s \<Longrightarrow> redis_lrange k (redis_expire_list j s r) = redis_lrange k r"
  by (simp add: redis_expire_list_def redis_lrange_put)

lemma redis_get_after [simp]:
  "0 < s \<Longrightarrow> redis_get k (redis_set_ex j v s r) = (if k = j then Some v else redis_get k r)"
  "0 < s \<Longrightarrow> redis_get k (redis_expire_string j s r) = redis_get k r"
  "redis_get k (redis_del_string j r) = (if k = j then None else redis_get k r)"
  "redis_get k (redis_lrem j x r) = redis_get k r"
  "redis_get k (redis_lpush j x r) = redis_get k r"
  "redis_get k (redis_expire_list j t r) = redis_get k r"
  "redis_get k (redis_del_list j r) = redis_get k r"
  by (auto simp: redis_get_def redis_set_ex_def redis_del_string_def redis_expire_string_def
      redis_del_list_def redis_lrem_def redis_lpush_def redis_expire_list_def redis_put_list_def
      split: option.splits)

end
