(* ===== verification/Sync_Lock.thy ===== *)
theory Sync_Lock
  imports Redis_Store "HOL-Library.Sublist"
begin

text \<open>
  The calendar lock of \<open>packages/sync/src/sync-lock.ts\<close>: its five Lua scripts as
  functions on the Redis store, the asynchronous \<open>acquire\<close> as a state machine that waits
  for one Redis reply at a time, the handle with its renewal timer, and the system of any
  number of callers whose requests, replies, aborts and failures interleave.
\<close>

section \<open>Keys, holders and durations\<close>

definition LOCK_PREFIX :: string where "LOCK_PREFIX = ''sync:lock:''"
definition SIGNAL_PREFIX :: string where "SIGNAL_PREFIX = ''sync:signal:''"
definition WAITER_PREFIX :: string where "WAITER_PREFIX = ''sync:waiters:''"
definition LOCK_TTL_SECONDS :: int where "LOCK_TTL_SECONDS = 120"
definition WAITER_GRACE_MS :: int where "WAITER_GRACE_MS = 60000"
definition POLL_INTERVAL_MS :: int where "POLL_INTERVAL_MS = 250"
definition INGEST_SOURCE_TIMEOUT_MS :: int where "INGEST_SOURCE_TIMEOUT_MS = 450000"
definition POLL_TIMEOUT_MS :: int where "POLL_TIMEOUT_MS = INGEST_SOURCE_TIMEOUT_MS + WAITER_GRACE_MS"
definition SIGNAL_TTL_SECONDS :: int where
  "SIGNAL_TTL_SECONDS = - ((- (POLL_TIMEOUT_MS + WAITER_GRACE_MS)) div 1000)"
definition MAPPING_MUTATION_LOCK_PREFIX :: string where
  "MAPPING_MUTATION_LOCK_PREFIX = ''mapping-mutation:''"
definition BACKGROUND_HOLDER_PREFIX :: string where "BACKGROUND_HOLDER_PREFIX = ''background:''"
definition PREEMPTING_HOLDER_PREFIX :: string where "PREEMPTING_HOLDER_PREFIX = ''preempting:''"

datatype SyncLockAcquisition = Background | Preempting

fun HOLDER_PREFIXES :: "SyncLockAcquisition \<Rightarrow> string" where
  "HOLDER_PREFIXES Background = BACKGROUND_HOLDER_PREFIX"
| "HOLDER_PREFIXES Preempting = PREEMPTING_HOLDER_PREFIX"

definition createMappingMutationLockId :: "string \<Rightarrow> string" where
  "createMappingMutationLockId userId = MAPPING_MUTATION_LOCK_PREFIX @ userId"

definition lockKey :: "string \<Rightarrow> string" where "lockKey calendarId = LOCK_PREFIX @ calendarId"
definition signalKey :: "string \<Rightarrow> string" where "signalKey calendarId = SIGNAL_PREFIX @ calendarId"
definition waiterKey :: "string \<Rightarrow> string" where "waiterKey calendarId = WAITER_PREFIX @ calendarId"

definition blockerLockKey :: "string option \<Rightarrow> string \<Rightarrow> string" where
  "blockerLockKey blockerCalendarId calendarId = LOCK_PREFIX @ or_else blockerCalendarId calendarId"

section \<open>The scripts\<close>

datatype reply = Nil_Reply | Bulk string | Integer int

definition acquire_or_signal ::
    "string \<Rightarrow> string option \<Rightarrow> string \<Rightarrow> redis \<Rightarrow> reply \<times> redis" where
  "acquire_or_signal calendarId blockerCalendarId holderId r =
    (let checkBlocker = str_truthy blockerCalendarId in
     if checkBlocker \<and> redis_get (blockerLockKey blockerCalendarId calendarId) r \<noteq> None
     then (Bulk ''blocked'', r)
     else
       let lock = redis_get (lockKey calendarId) r;
           existing = redis_get (signalKey calendarId) r;
           r = redis_lrem (waiterKey calendarId) holderId r;
           r = redis_lpush (waiterKey calendarId) holderId r;
           r = redis_expire_list (waiterKey calendarId) SIGNAL_TTL_SECONDS r;
           r = redis_set_ex (signalKey calendarId) holderId SIGNAL_TTL_SECONDS r
       in if lock = None
          then (Bulk ''acquired'', redis_set_ex (lockKey calendarId) holderId LOCK_TTL_SECONDS r)
          else if existing \<noteq> None then (Bulk ''replaced'', r)
          else (Bulk ''queued'', r))"

definition release_script :: "string \<Rightarrow> string \<Rightarrow> redis \<Rightarrow> reply \<times> redis" where
  "release_script calendarId holderId r =
    (if redis_get (lockKey calendarId) r = Some holderId
     then (Integer 1, redis_del_string (lockKey calendarId) r)
     else (Integer 0, r))"

definition renew_script :: "string \<Rightarrow> string \<Rightarrow> redis \<Rightarrow> reply \<times> redis" where
  "renew_script calendarId holderId r =
    (if redis_get (lockKey calendarId) r = Some holderId
     then (Integer 1, redis_expire_string (lockKey calendarId) LOCK_TTL_SECONDS r)
     else (Integer 0, r))"

definition cancel_waiter :: "string \<Rightarrow> string \<Rightarrow> redis \<Rightarrow> reply \<times> redis" where
  "cancel_waiter calendarId holderId r =
    (let r = (if redis_get (lockKey calendarId) r = Some holderId
              then redis_del_string (lockKey calendarId) r else r);
         r = redis_lrem (waiterKey calendarId) holderId r
     in case redis_lindex_0 (waiterKey calendarId) r of
          Some waiter \<Rightarrow>
            (Bulk waiter,
             redis_expire_list (waiterKey calendarId) SIGNAL_TTL_SECONDS
               (redis_set_ex (signalKey calendarId) waiter SIGNAL_TTL_SECONDS r))
        | None \<Rightarrow>
            (Bulk '''', redis_del_list (waiterKey calendarId)
               (redis_del_string (signalKey calendarId) r)))"

definition confirm_acquisition :: "string \<Rightarrow> string \<Rightarrow> redis \<Rightarrow> reply \<times> redis" where
  "confirm_acquisition calendarId holderId r =
    (if redis_get (lockKey calendarId) r = Some holderId
        \<and> redis_get (signalKey calendarId) r = Some holderId
        \<and> redis_lindex_0 (waiterKey calendarId) r = Some holderId
     then (Integer 1, redis_del_list (waiterKey calendarId)
             (redis_del_string (signalKey calendarId) r))
     else (Integer 0, r))"

definition is_current_script :: "string \<Rightarrow> string \<Rightarrow> redis \<Rightarrow> reply" where
  "is_current_script calendarId holderId r =
    (if redis_get (lockKey calendarId) r \<noteq> Some holderId then Integer 0
     else if list_ex (\<lambda>waiter. waiter \<noteq> holderId \<and>
               take (length BACKGROUND_HOLDER_PREFIX) waiter \<noteq> BACKGROUND_HOLDER_PREFIX)
             (redis_lrange (waiterKey calendarId) r) then Integer 0
     else Integer 1)"

definition redis_get_reply :: "string \<Rightarrow> redis \<Rightarrow> reply" where
  "redis_get_reply k r = (case redis_get k r of None \<Rightarrow> Nil_Reply | Some v \<Rightarrow> Bulk v)"

section \<open>One caller of \<open>acquire\<close>\<close>

text \<open>
  A phase is an \<open>await\<close> of the source: the Redis call in flight, or the sleep between two
  polls. \<open>Confirming\<close> and \<open>Withdrawing\<close> carry whether they happen inside the polling
  loop, whose \<open>finally\<close> then cancels the waiter. An in-flight call has an empty
  \<open>cl_inbox\<close> until the server has run it, and the reply afterwards, until the caller
  resumes; other callers and the abort signal may act at both moments.
\<close>

datatype SyncLockOutcome = Skipped | Thrown | Released

datatype phase =
    Acquiring
  | Confirming bool
  | Withdrawing bool
  | ReadSignal string instant
  | ReadLock string instant
  | Reacquiring instant
  | Sleeping string instant instant
  | Cleanup SyncLockOutcome
  | Held
  | Releasing
  | Finished SyncLockOutcome

record lock_client =
  cl_calendar :: string
  cl_blocker :: "string option"
  cl_aborted :: bool
  cl_phase :: phase
  cl_inbox :: "reply option"
  cl_renewal_failed :: bool
  cl_lease :: "instant option"

text \<open>
  \<open>cl_lease\<close> is a history variable: the expiry that the caller's last effective write
  gave the lock key, and nothing once it has deleted the key.
\<close>

definition start_acquire :: "string \<Rightarrow> string option \<Rightarrow> bool \<Rightarrow> lock_client" where
  "start_acquire calendarId blockerCalendarId aborted =
    \<lparr>cl_calendar = calendarId, cl_blocker = blockerCalendarId, cl_aborted = aborted,
     cl_phase = (if aborted then Finished Skipped else Acquiring),
     cl_inbox = None, cl_renewal_failed = False, cl_lease = None\<rparr>"

fun client_call :: "string \<Rightarrow> lock_client \<Rightarrow> redis \<Rightarrow> (reply \<times> redis) option" where
  "client_call h cl r = (case cl_phase cl of
      Acquiring \<Rightarrow> Some (acquire_or_signal (cl_calendar cl) (cl_blocker cl) h r)
    | Reacquiring _ \<Rightarrow> Some (acquire_or_signal (cl_calendar cl) (cl_blocker cl) h r)
    | Confirming _ \<Rightarrow> Some (confirm_acquisition (cl_calendar cl) h r)
    | Withdrawing _ \<Rightarrow> Some (cancel_waiter (cl_calendar cl) h r)
    | Cleanup _ \<Rightarrow> Some (cancel_waiter (cl_calendar cl) h r)
    | ReadSignal _ _ \<Rightarrow> Some (redis_get_reply (signalKey (cl_calendar cl)) r, r)
    | ReadLock _ _ \<Rightarrow> Some (redis_get_reply (lockKey (cl_calendar cl)) r, r)
    | Releasing \<Rightarrow> Some (release_script (cl_calendar cl) h r)
    | _ \<Rightarrow> None)"

definition createConfirmedHandle :: "bool \<Rightarrow> bool \<Rightarrow> phase" where
  "createConfirmedHandle aborted inLoop = (if aborted then Withdrawing inLoop else Confirming inLoop)"

definition createConfirmedResult :: "bool \<Rightarrow> phase" where
  "createConfirmedResult inLoop = (if inLoop then Cleanup Skipped else Finished Skipped)"

definition poll :: "instant \<Rightarrow> bool \<Rightarrow> string \<Rightarrow> instant \<Rightarrow> phase" where
  "poll t aborted result pollDeadline =
    (if t < pollDeadline then
       if aborted then Cleanup Skipped
       else if result \<noteq> ''blocked'' then ReadSignal result pollDeadline
       else ReadLock result pollDeadline
     else Cleanup Skipped)"

fun resume_phase :: "instant \<Rightarrow> bool \<Rightarrow> string \<Rightarrow> reply \<Rightarrow> phase \<Rightarrow> phase" where
  "resume_phase t aborted h rep Acquiring =
    (if rep = Bulk ''acquired'' then createConfirmedHandle aborted False
     else case rep of Bulk result \<Rightarrow> poll t aborted result (t + POLL_TIMEOUT_MS)
        | _ \<Rightarrow> poll t aborted '''' (t + POLL_TIMEOUT_MS))"
| "resume_phase t aborted h rep (Confirming inLoop) =
    (if rep = Integer 1 then Held else Withdrawing inLoop)"
| "resume_phase t aborted h rep (Withdrawing inLoop) = createConfirmedResult inLoop"
| "resume_phase t aborted h rep (ReadSignal result pollDeadline) =
    (if rep = Nil_Reply then Cleanup Skipped
     else if rep \<noteq> Bulk h then Sleeping result pollDeadline (t + POLL_INTERVAL_MS)
     else ReadLock result pollDeadline)"
| "resume_phase t aborted h rep (ReadLock result pollDeadline) =
    (if result = ''blocked'' \<or> rep = Nil_Reply \<or> rep = Bulk '''' then Reacquiring pollDeadline
     else Sleeping result pollDeadline (t + POLL_INTERVAL_MS))"
| "resume_phase t aborted h rep (Reacquiring pollDeadline) =
    (if rep = Bulk ''acquired'' then createConfirmedHandle aborted True
     else case rep of Bulk result \<Rightarrow> Sleeping result pollDeadline (t + POLL_INTERVAL_MS)
        | _ \<Rightarrow> Sleeping '''' pollDeadline (t + POLL_INTERVAL_MS))"
| "resume_phase t aborted h rep (Sleeping result pollDeadline wake) = poll t aborted result pollDeadline"
| "resume_phase t aborted h rep (Cleanup outcome) = Finished outcome"
| "resume_phase t aborted h rep Held = Held"
| "resume_phase t aborted h rep Releasing = Finished Released"
| "resume_phase t aborted h rep (Finished outcome) = Finished outcome"

text \<open>A rejected Redis call: inside the loop the \<open>finally\<close> still cancels the waiter.\<close>

fun throw_phase :: "phase \<Rightarrow> phase" where
  "throw_phase Acquiring = Finished Thrown"
| "throw_phase (Confirming inLoop) = (if inLoop then Cleanup Thrown else Finished Thrown)"
| "throw_phase (Withdrawing inLoop) = (if inLoop then Cleanup Thrown else Finished Thrown)"
| "throw_phase (ReadSignal result pollDeadline) = Cleanup Thrown"
| "throw_phase (ReadLock result pollDeadline) = Cleanup Thrown"
| "throw_phase (Reacquiring pollDeadline) = Cleanup Thrown"
| "throw_phase (Sleeping result pollDeadline wake) = Sleeping result pollDeadline wake"
| "throw_phase (Cleanup outcome) = Finished Thrown"
| "throw_phase Held = Held"
| "throw_phase Releasing = Finished Thrown"
| "throw_phase (Finished outcome) = Finished outcome"

section \<open>The handle\<close>

datatype lock_error = SyncLockRenewalError string

definition throwIfRenewalFailed :: "lock_client \<Rightarrow> lock_error option" where
  "throwIfRenewalFailed cl =
    (if cl_renewal_failed cl then Some (SyncLockRenewalError (cl_calendar cl)) else None)"

definition isHeld :: "string \<Rightarrow> lock_client \<Rightarrow> redis \<Rightarrow> lock_error + bool" where
  "isHeld h cl r = (case throwIfRenewalFailed cl of Some e \<Rightarrow> Inl e
    | None \<Rightarrow> Inr (redis_get (lockKey (cl_calendar cl)) r = Some h))"

definition isCurrent :: "string \<Rightarrow> lock_client \<Rightarrow> redis \<Rightarrow> lock_error + bool" where
  "isCurrent h cl r = (case throwIfRenewalFailed cl of Some e \<Rightarrow> Inl e
    | None \<Rightarrow> Inr (is_current_script (cl_calendar cl) h r = Integer 1))"

definition held_lease :: "string \<Rightarrow> lock_client \<Rightarrow> redis \<Rightarrow> instant option" where
  "held_lease h cl r = (case rd_strings r (lockKey (cl_calendar cl)) of
      Some (v, e) \<Rightarrow> if v = h then e else None | None \<Rightarrow> None)"

section \<open>The system\<close>

record lock_system =
  ls_redis :: redis
  ls_clients :: "string \<Rightarrow> lock_client option"

definition empty_system :: lock_system where
  "empty_system = \<lparr>ls_redis = empty_redis, ls_clients = \<lambda>_. None\<rparr>"

text \<open>One step of the caller itself: the server runs its call, or it resumes with the reply.\<close>

definition exec_step :: "string \<Rightarrow> lock_client \<Rightarrow> lock_system \<Rightarrow> lock_system" where
  "exec_step h cl s = (case client_call h cl (ls_redis s) of
      None \<Rightarrow> s
    | Some (rep, r) \<Rightarrow>
        s\<lparr>ls_redis := r, ls_clients := (ls_clients s)
          (h \<mapsto> cl\<lparr>cl_inbox := Some rep, cl_lease := held_lease h cl r\<rparr>)\<rparr>)"

definition resume_step :: "string \<Rightarrow> lock_client \<Rightarrow> reply \<Rightarrow> lock_system \<Rightarrow> lock_system" where
  "resume_step h cl rep s =
    s\<lparr>ls_clients := (ls_clients s)
      (h \<mapsto> cl\<lparr>cl_inbox := None,
              cl_phase := resume_phase (rd_now (ls_redis s)) (cl_aborted cl) h rep (cl_phase cl)\<rparr>)\<rparr>"

definition in_flight :: "lock_client \<Rightarrow> bool" where
  "in_flight cl = (case cl_phase cl of Sleeping _ _ _ \<Rightarrow> False | Held \<Rightarrow> False
    | Finished _ \<Rightarrow> False | _ \<Rightarrow> True)"

definition acq_step :: "string \<Rightarrow> lock_system \<Rightarrow> lock_system" where
  "acq_step h s = (case ls_clients s h of
      None \<Rightarrow> s
    | Some cl \<Rightarrow> (case cl_inbox cl of
          Some rep \<Rightarrow> resume_step h cl rep s
        | None \<Rightarrow> exec_step h cl s))"

datatype label = Own string | Env

inductive lock_step :: "bool \<Rightarrow> label \<Rightarrow> lock_system \<Rightarrow> lock_system \<Rightarrow> bool" for faulty where
  join: "ls_clients s h = None \<Longrightarrow> h = HOLDER_PREFIXES acquisition @ uuid \<Longrightarrow>
    lock_step faulty Env s
      (s\<lparr>ls_clients := (ls_clients s)(h \<mapsto> start_acquire calendarId blockerCalendarId aborted)\<rparr>)"
| own: "ls_clients s h = Some cl \<Longrightarrow> in_flight cl \<Longrightarrow>
    lock_step faulty (Own h) s (acq_step h s)"
| wake: "ls_clients s h = Some cl \<Longrightarrow> cl_phase cl = Sleeping result pollDeadline t \<Longrightarrow>
    t \<le> rd_now (ls_redis s) \<Longrightarrow>
    lock_step faulty (Own h) s (resume_step h cl Nil_Reply s)"
| reject: "faulty \<Longrightarrow> ls_clients s h = Some cl \<Longrightarrow> in_flight cl \<Longrightarrow>
    lock_step faulty (Own h) s
      (s\<lparr>ls_clients := (ls_clients s)
        (h \<mapsto> cl\<lparr>cl_inbox := None, cl_phase := throw_phase (cl_phase cl)\<rparr>)\<rparr>)"
| abort: "ls_clients s h = Some cl \<Longrightarrow>
    lock_step faulty Env s (s\<lparr>ls_clients := (ls_clients s)(h \<mapsto> cl\<lparr>cl_aborted := True\<rparr>)\<rparr>)"
| renew: "ls_clients s h = Some cl \<Longrightarrow> cl_phase cl \<in> {Held, Releasing} \<Longrightarrow>
    renew_script (cl_calendar cl) h (ls_redis s) = (rep, r) \<Longrightarrow>
    failed \<longrightarrow> faulty \<Longrightarrow>
    lock_step faulty Env s
      (s\<lparr>ls_redis := r, ls_clients := (ls_clients s)
        (h \<mapsto> cl\<lparr>cl_renewal_failed := failed, cl_lease := held_lease h cl r\<rparr>)\<rparr>)"
| renew_lost: "faulty \<Longrightarrow> ls_clients s h = Some cl \<Longrightarrow> cl_phase cl \<in> {Held, Releasing} \<Longrightarrow>
    lock_step faulty Env s
      (s\<lparr>ls_clients := (ls_clients s)(h \<mapsto> cl\<lparr>cl_renewal_failed := True\<rparr>)\<rparr>)"
| release: "ls_clients s h = Some cl \<Longrightarrow> cl_phase cl = Held \<Longrightarrow>
    lock_step faulty Env s
      (s\<lparr>ls_clients := (ls_clients s)(h \<mapsto> cl\<lparr>cl_phase := Releasing\<rparr>)\<rparr>)"
| tick: "0 \<le> d \<Longrightarrow>
    lock_step faulty Env s (s\<lparr>ls_redis := (ls_redis s)\<lparr>rd_now := rd_now (ls_redis s) + d\<rparr>\<rparr>)"

inductive lock_reach :: "bool \<Rightarrow> lock_system \<Rightarrow> bool" for faulty where
  start: "lock_reach faulty empty_system"
| step: "lock_reach faulty s \<Longrightarrow> lock_step faulty l s s' \<Longrightarrow> lock_reach faulty s'"

end
