(* ===== verification/Sync_Lock_Correct.thy ===== *)
theory Sync_Lock_Correct
  imports Sync_Lock
begin

text \<open>
  Correctness of the calendar lock: what each script does to the store, the coherence of the
  waiter stack with its signal, the lease invariant behind mutual exclusion, that a queued caller
  is never stranded when no call fails, a bound on the steps of \<open>acquire\<close>, hand-over,
  cancellation and supersession.
\<close>

section \<open>What the scripts do to the store\<close>

lemmas prefix_defs = LOCK_PREFIX_def SIGNAL_PREFIX_def WAITER_PREFIX_def
  BACKGROUND_HOLDER_PREFIX_def PREEMPTING_HOLDER_PREFIX_def

lemma key_distinct [simp]:
  "lockKey a \<noteq> signalKey b" "signalKey b \<noteq> lockKey a"
  "lockKey a = lockKey c \<longleftrightarrow> a = c" "signalKey a = signalKey c \<longleftrightarrow> a = c"
  "waiterKey a = waiterKey c \<longleftrightarrow> a = c"
  by (simp_all add: lockKey_def signalKey_def waiterKey_def prefix_defs)

lemma ttl_values [simp]:
  "SIGNAL_TTL_SECONDS = 570" "LOCK_TTL_SECONDS = 120" "POLL_TIMEOUT_MS = 510000"
  by (simp_all add: SIGNAL_TTL_SECONDS_def LOCK_TTL_SECONDS_def POLL_TIMEOUT_MS_def
      WAITER_GRACE_MS_def INGEST_SOURCE_TIMEOUT_MS_def)

lemma acquire_effect:
  assumes "acquire_or_signal c b h r = (rep, r')"
  shows "rep = Bulk ''blocked'' \<and> r' = r \<or>
    rep \<in> {Bulk ''acquired'', Bulk ''replaced'', Bulk ''queued''} \<and>
    (rep = Bulk ''acquired'' \<longleftrightarrow> redis_get (lockKey c) r = None) \<and>
    rd_now r' = rd_now r \<and>
    rd_lists r' = (rd_lists r)(waiterKey c \<mapsto>
      (h # filter (\<lambda>y. y \<noteq> h) (redis_lrange (waiterKey c) r), Some (rd_now r + 570000))) \<and>
    rd_strings r' = (if redis_get (lockKey c) r = None
      then (rd_strings r)(signalKey c \<mapsto> (h, Some (rd_now r + 570000)),
                          lockKey c \<mapsto> (h, Some (rd_now r + 120000)))
      else (rd_strings r)(signalKey c \<mapsto> (h, Some (rd_now r + 570000))))"
  using assms by (simp add: acquire_or_signal_def Let_def split: if_splits) auto

lemma acquire_lists:
  assumes "acquire_or_signal c' b h r = (rep, r')"
  obtains "rd_lists r' = rd_lists r" "\<And>k. rd_strings r' (signalKey k) = rd_strings r (signalKey k)"
    | "rd_lists r' = (rd_lists r)(waiterKey c' \<mapsto>
        (h # filter (\<lambda>y. y \<noteq> h) (redis_lrange (waiterKey c') r), Some (rd_now r + 570000)))"
      "\<And>k. rd_strings r' (signalKey k) =
        (if k = c' then Some (h, Some (rd_now r + 570000)) else rd_strings r (signalKey k))"
proof (cases "rep = Bulk ''blocked'' \<and> r' = r")
  case True
  then show ?thesis by (intro that(1)) simp_all
next
  case False
  with acquire_effect [OF assms] show ?thesis by (intro that(2)) auto
qed

lemma cancel_effect:
  assumes "cancel_waiter c h r = (rep, r')"
  defines "rest \<equiv> filter (\<lambda>y. y \<noteq> h) (redis_lrange (waiterKey c) r)"
  shows "rd_now r' = rd_now r \<and>
    rd_lists r' = (rd_lists r)(waiterKey c :=
      (if rest = [] then None else Some (rest, Some (rd_now r + 570000)))) \<and>
    (\<forall>k. rd_strings r' k =
      (if k = signalKey c then if rest = [] then None else Some (hd rest, Some (rd_now r + 570000))
       else if k = lockKey c \<and> redis_get (lockKey c) r = Some h then None
       else rd_strings r k))"
  using assms(1) unfolding rest_def
  by (auto simp: cancel_waiter_def Let_def redis_lindex_0_def
      split: if_splits option.splits list.splits)

lemma confirm_effect:
  assumes "confirm_acquisition c h r = (rep, r')"
  shows "rep = Integer 0 \<and> r' = r \<or>
    rep = Integer 1 \<and> redis_get (lockKey c) r = Some h \<and> rd_now r' = rd_now r \<and>
    rd_lists r' = (rd_lists r)(waiterKey c := None) \<and>
    rd_strings r' = (rd_strings r)(signalKey c := None)"
  using assms by (auto simp: confirm_acquisition_def split: if_splits)

lemma release_effect:
  assumes "release_script c h r = (rep, r')"
  shows "r' = r \<or> rd_now r' = rd_now r \<and> rd_lists r' = rd_lists r \<and>
    redis_get (lockKey c) r = Some h \<and> rd_strings r' = (rd_strings r)(lockKey c := None)"
  using assms by (auto simp: release_script_def split: if_splits)

lemma renew_effect:
  assumes "renew_script c h r = (rep, r')"
  shows "r' = r \<or> rd_now r' = rd_now r \<and> rd_lists r' = rd_lists r \<and>
    redis_get (lockKey c) r = Some h \<and>
    rd_strings r' = (rd_strings r)(lockKey c \<mapsto> (h, Some (rd_now r + 120000)))"
  using assms by (auto simp: renew_script_def redis_expire_string_strings split: if_splits)

text \<open>Every write to a lock key is made by its holder, or finds the key free.\<close>

lemma client_call_cases [consumes 1, case_names acquire confirm cancel release read]:
  assumes "client_call h cl r = Some (rep, r')"
  obtains
      "cl_phase cl = Acquiring \<or> (\<exists>d. cl_phase cl = Reacquiring d)"
      "acquire_or_signal (cl_calendar cl) (cl_blocker cl) h r = (rep, r')"
    | inLoop where "cl_phase cl = Confirming inLoop"
      "confirm_acquisition (cl_calendar cl) h r = (rep, r')"
    | "(\<exists>inLoop. cl_phase cl = Withdrawing inLoop) \<or> (\<exists>z. cl_phase cl = Cleanup z)"
      "cancel_waiter (cl_calendar cl) h r = (rep, r')"
    | "cl_phase cl = Releasing" "release_script (cl_calendar cl) h r = (rep, r')"
    | "(\<exists>x d. cl_phase cl = ReadSignal x d) \<or> (\<exists>x d. cl_phase cl = ReadLock x d)" "r' = r"
  using assms by (cases "cl_phase cl") auto

lemma client_call_now: "client_call h cl r = Some (rep, r') \<Longrightarrow> rd_now r' = rd_now r"
  by (cases rule: client_call_cases)
    (auto dest!: acquire_effect confirm_effect cancel_effect release_effect)

lemma client_call_lock:
  assumes "client_call h cl r = Some (rep, r')"
  shows "rd_strings r' (lockKey c) = rd_strings r (lockKey c) \<or>
    c = cl_calendar cl \<and> redis_get (lockKey c) r \<in> {None, Some h}"
  using assms
proof (cases rule: client_call_cases)
  case acquire
  then show ?thesis by (auto dest!: acquire_effect split: if_splits)
next
  case cancel
  then show ?thesis by (auto dest!: cancel_effect split: if_splits)
next
  case (confirm inLoop)
  then show ?thesis by (auto dest!: confirm_effect)
next
  case release
  then show ?thesis by (auto dest!: release_effect split: if_splits)
qed simp

section \<open>The waiter stack and its signal\<close>

definition stack_ok :: "redis \<Rightarrow> string \<Rightarrow> bool" where
  "stack_ok r c = (case (rd_strings r (signalKey c), rd_lists r (waiterKey c)) of
      (None, None) \<Rightarrow> True
    | (Some (v, e), Some (xs, e')) \<Rightarrow> e = e' \<and> distinct xs \<and> xs \<noteq> [] \<and> v = hd xs
    | _ \<Rightarrow> False)"

lemma stack_ok_reads:
  assumes "stack_ok r c"
  shows "distinct (redis_lrange (waiterKey c) r)"
    and "redis_get (signalKey c) r = redis_lindex_0 (waiterKey c) r"
  using assms
  by (auto simp: stack_ok_def redis_lrange_def redis_get_def redis_lindex_0_def
      split: option.splits list.splits if_splits)

lemma stack_ok_cong:
  assumes "stack_ok r c" "rd_strings r' (signalKey c) = rd_strings r (signalKey c)"
    and "rd_lists r' (waiterKey c) = rd_lists r (waiterKey c)"
  shows "stack_ok r' c"
  using assms by (simp add: stack_ok_def)

lemma stack_ok_acquire:
  assumes "acquire_or_signal c' b h r = (rep, r')" "\<And>c. stack_ok r c"
  shows "stack_ok r' c"
  using assms(1)
proof (cases rule: acquire_lists)
  case 1
  then show ?thesis by (intro stack_ok_cong [OF assms(2)]) simp_all
next
  case 2
  show ?thesis
  proof (cases "c = c'")
    case True
    with 2 stack_ok_reads(1) [OF assms(2) [of c]] show ?thesis by (simp add: stack_ok_def)
  next
    case False
    with 2 show ?thesis by (intro stack_ok_cong [OF assms(2)]) simp_all
  qed
qed

lemma stack_ok_cancel:
  assumes "cancel_waiter c' h r = (rep, r')" "\<And>c. stack_ok r c"
  shows "stack_ok r' c"
proof (cases "c = c'")
  case True
  with cancel_effect [OF assms(1)] stack_ok_reads(1) [OF assms(2) [of c]] show ?thesis
    by (auto simp: stack_ok_def)
next
  case False
  with cancel_effect [OF assms(1)] show ?thesis
    by (auto intro!: stack_ok_cong [OF assms(2)])
qed

lemma stack_ok_call:
  assumes "client_call h cl r = Some (rep, r')" "\<And>c. stack_ok r c"
  shows "stack_ok r' c"
  using assms(1)
proof (cases rule: client_call_cases)
  case acquire
  then show ?thesis using assms(2) stack_ok_acquire by blast
next
  case cancel
  then show ?thesis using assms(2) stack_ok_cancel by blast
next
  case (confirm inLoop)
  from confirm_effect [OF this(2)] show ?thesis
  proof
    assume "rep = Integer 1 \<and> redis_get (lockKey (cl_calendar cl)) r = Some h \<and> rd_now r' = rd_now r \<and>
      rd_lists r' = (rd_lists r)(waiterKey (cl_calendar cl) := None) \<and>
      rd_strings r' = (rd_strings r)(signalKey (cl_calendar cl) := None)"
    then show ?thesis
      using stack_ok_cong [OF assms(2) [of c]] by (cases "c = cl_calendar cl") (auto simp: stack_ok_def)
  qed (simp add: assms(2))
next
  case release
  then show ?thesis by (auto dest!: release_effect intro: stack_ok_cong [OF assms(2)])
next
  case read
  then show ?thesis using assms(2) by simp
qed

lemma stack_ok_renew:
  assumes "renew_script c' h r = (rep, r')" "\<And>c. stack_ok r c"
  shows "stack_ok r' c"
  using renew_effect [OF assms(1)] by (auto intro: stack_ok_cong [OF assms(2)])

section \<open>What a step does\<close>

text \<open>Every step is one of: the server runs a call, a caller changes locally, time passes.\<close>

definition local_change :: "lock_system \<Rightarrow> string \<Rightarrow> lock_client \<Rightarrow> lock_system" where
  "local_change s h cl = s\<lparr>ls_clients := (ls_clients s)(h \<mapsto> cl)\<rparr>"

lemma acq_step_cases:
  assumes "ls_clients s h = Some cl" "in_flight cl"
  obtains rep where "cl_inbox cl = Some rep"
      "acq_step h s = local_change s h (cl\<lparr>cl_inbox := None,
        cl_phase := resume_phase (rd_now (ls_redis s)) (cl_aborted cl) h rep (cl_phase cl)\<rparr>)"
    | rep r where "cl_inbox cl = None" "client_call h cl (ls_redis s) = Some (rep, r)"
      "acq_step h s = s\<lparr>ls_redis := r, ls_clients := (ls_clients s)
          (h \<mapsto> cl\<lparr>cl_inbox := Some rep, cl_lease := held_lease h cl r\<rparr>)\<rparr>"
proof (cases "cl_inbox cl")
  case None
  have "client_call h cl (ls_redis s) \<noteq> None"
    using assms(2) by (auto simp: in_flight_def split: phase.splits)
  then obtain rep r where "client_call h cl (ls_redis s) = Some (rep, r)" by auto
  with None assms that(2) show ?thesis
    by (simp add: acq_step_def exec_step_def del: client_call.simps)
next
  case (Some rep)
  with assms that(1) show ?thesis by (simp add: acq_step_def resume_step_def local_change_def)
qed

lemma lock_stack_ok: "lock_reach faulty s \<Longrightarrow> stack_ok (ls_redis s) c"
proof (induction arbitrary: c rule: lock_reach.induct)
  case start
  then show ?case by (simp add: stack_ok_def empty_system_def empty_redis_def)
next
  case (step s l s' c)
  from step.hyps(2) show ?case
  proof cases
    case (own h cl)
    then show ?thesis
      by (cases rule: acq_step_cases [OF own(3,4)])
        (auto simp: local_change_def step.IH simp del: client_call.simps intro: stack_ok_call)
  next
    case (renew h cl rep r failed)
    then show ?thesis using step.IH by (auto intro: stack_ok_renew)
  next
    case (tick d)
    then show ?thesis using step.IH [of c] by (simp add: stack_ok_def)
  qed (auto simp: step.IH resume_step_def)
qed

section \<open>Leases\<close>

definition lease_ok :: "lock_system \<Rightarrow> bool" where
  "lease_ok s = (\<forall>h cl e. ls_clients s h = Some cl \<longrightarrow> cl_lease cl = Some e \<longrightarrow>
    rd_now (ls_redis s) < e \<longrightarrow> rd_strings (ls_redis s) (lockKey (cl_calendar cl)) = Some (h, Some e))"

lemma lease_okD:
  "lease_ok s \<Longrightarrow> ls_clients s h = Some cl \<Longrightarrow> cl_lease cl = Some e \<Longrightarrow>
    rd_now (ls_redis s) < e \<Longrightarrow> rd_strings (ls_redis s) (lockKey (cl_calendar cl)) = Some (h, Some e)"
  by (simp add: lease_ok_def)

lemma held_lease_Some:
  "held_lease h cl r = Some e \<Longrightarrow> rd_strings r (lockKey (cl_calendar cl)) = Some (h, Some e)"
  by (auto simp: held_lease_def split: option.splits if_splits)

text \<open>
  A server-side action of one caller that touches a lock key only when it is free or its own
  leaves every other lease in force.
\<close>

lemma lease_ok_server:
  assumes ok: "lease_ok s" and cl: "ls_clients s h = Some cl"
    and now: "rd_now r = rd_now (ls_redis s)"
    and own: "\<And>c. rd_strings r (lockKey c) = rd_strings (ls_redis s) (lockKey c) \<or>
      c = cl_calendar cl \<and> redis_get (lockKey c) (ls_redis s) \<in> {None, Some h}"
    and cl': "cl_calendar cl' = cl_calendar cl" "cl_lease cl' = held_lease h cl r"
  shows "lease_ok (s\<lparr>ls_redis := r, ls_clients := (ls_clients s)(h \<mapsto> cl')\<rparr>)"
  unfolding lease_ok_def
proof (intro allI impI; simp)
  fix g d e
  assume g: "(if g = h then Some cl' else ls_clients s g) = Some d" "cl_lease d = Some e" "rd_now r < e"
  show "rd_strings r (lockKey (cl_calendar d)) = Some (g, Some e)"
  proof (cases "g = h")
    case True
    with g cl' held_lease_Some [of h cl r e] show ?thesis by simp
  next
    case False
    with g have *: "rd_strings (ls_redis s) (lockKey (cl_calendar d)) = Some (g, Some e)"
      using lease_okD [OF ok] now by simp
    then have "redis_get (lockKey (cl_calendar d)) (ls_redis s) = Some g"
      using g(3) now by (simp add: redis_get_def)
    with False * own [of "cl_calendar d"] show ?thesis by auto
  qed
qed

lemma lease_ok_local:
  assumes "lease_ok s" "\<And>e. cl_lease cl = Some e \<Longrightarrow>
    \<exists>old. ls_clients s h = Some old \<and> cl_lease old = Some e \<and> cl_calendar old = cl_calendar cl"
  shows "lease_ok (local_change s h cl)"
  unfolding lease_ok_def local_change_def
proof (intro allI impI; simp)
  fix g d e
  assume g: "(if g = h then Some cl else ls_clients s g) = Some d" "cl_lease d = Some e"
    "rd_now (ls_redis s) < e"
  show "rd_strings (ls_redis s) (lockKey (cl_calendar d)) = Some (g, Some e)"
  proof (cases "g = h")
    case True
    with g(1,2) assms(2) [of e] obtain old where "ls_clients s h = Some old" "cl_lease old = Some e"
        "cl_calendar old = cl_calendar d" by auto
    with True lease_okD [OF assms(1) _ _ g(3)] show ?thesis by metis
  next
    case False
    with g lease_okD [OF assms(1)] show ?thesis by simp
  qed
qed

lemma lock_lease_ok: "lock_reach faulty s \<Longrightarrow> lease_ok s"
proof (induction rule: lock_reach.induct)
  case start
  then show ?case by (simp add: lease_ok_def empty_system_def)
next
  case (step s l s')
  note local = lease_ok_local [OF step.IH, unfolded local_change_def]
  from step.hyps(2) show ?case
  proof cases
    case (join h acquisition uuid calendarId blockerCalendarId aborted)
    then show ?thesis by (auto intro: local simp: start_acquire_def)
  next
    case (own h cl)
    from own(3,4) show ?thesis
    proof (cases rule: acq_step_cases)
      case (1 rep)
      with own show ?thesis by (auto intro!: lease_ok_local step.IH)
    next
      case (2 rep r)
      with own show ?thesis
        by (auto intro!: lease_ok_server step.IH client_call_lock client_call_now
            simp del: client_call.simps)
    qed
  next
    case (wake h cl result pollDeadline t)
    then show ?thesis by (auto simp: resume_step_def intro: local)
  next
    case (reject h cl)
    then show ?thesis by (auto intro: local)
  next
    case (abort h cl)
    then show ?thesis by (auto intro: local)
  next
    case (renew h cl rep r failed)
    from renew_effect [OF renew(5)] renew show ?thesis
      by (auto intro!: lease_ok_server step.IH split: if_splits)
  next
    case (renew_lost h cl)
    then show ?thesis by (auto intro: local)
  next
    case (release h cl)
    then show ?thesis by (auto intro: local)
  next
    case (tick d)
    then show ?thesis using step.IH by (auto simp: lease_ok_def)
  qed
qed

section \<open>No stranded waiter\<close>

definition may_wait :: "lock_client \<Rightarrow> bool" where
  "may_wait cl = (case cl_phase cl of
      Acquiring \<Rightarrow> cl_inbox cl \<noteq> None
    | Confirming _ \<Rightarrow> cl_inbox cl \<noteq> Some (Integer 1)
    | Withdrawing _ \<Rightarrow> cl_inbox cl = None
    | Cleanup _ \<Rightarrow> cl_inbox cl = None
    | Held \<Rightarrow> False | Releasing \<Rightarrow> False | Finished _ \<Rightarrow> False
    | _ \<Rightarrow> True)"

definition stored_waiters :: "redis \<Rightarrow> string \<Rightarrow> string list" where
  "stored_waiters r c = (case rd_lists r (waiterKey c) of None \<Rightarrow> [] | Some (xs, _) \<Rightarrow> xs)"

definition waiters_ok :: "lock_system \<Rightarrow> bool" where
  "waiters_ok s = (\<forall>c h. h \<in> set (stored_waiters (ls_redis s) c) \<longrightarrow>
    (\<exists>cl. ls_clients s h = Some cl \<and> cl_calendar cl = c \<and> may_wait cl))"

lemma lrange_stored: "set (redis_lrange (waiterKey c) r) \<subseteq> set (stored_waiters r c)"
  by (auto simp: redis_lrange_def stored_waiters_def live_value_def split: option.splits if_splits)

lemma stored_waiters_cong:
  "rd_lists r' (waiterKey c) = rd_lists r (waiterKey c) \<Longrightarrow> stored_waiters r' c = stored_waiters r c"
  by (simp add: stored_waiters_def)

lemma acquire_stored:
  assumes "acquire_or_signal c' b h r = (rep, r')"
  shows "set (stored_waiters r' c) \<subseteq> (if c = c' then {h} else {}) \<union> set (stored_waiters r c)"
  using assms
proof (cases rule: acquire_lists)
  case 1
  then show ?thesis by (simp add: stored_waiters_def)
next
  case 2
  then show ?thesis
    using lrange_stored [of c r] by (cases "c = c'") (auto simp: stored_waiters_def)
qed

lemma cancel_stored:
  assumes "cancel_waiter c' h r = (rep, r')"
  shows "set (stored_waiters r' c) \<subseteq> set (stored_waiters r c) - (if c = c' then {h} else {})"
proof (cases "c = c'")
  case True
  with cancel_effect [OF assms] have "stored_waiters r' c =
      filter (\<lambda>y. y \<noteq> h) (redis_lrange (waiterKey c) r)"
    by (auto simp: stored_waiters_def split: if_splits)
  with True lrange_stored [of c r] show ?thesis by auto
next
  case False
  with cancel_effect [OF assms] show ?thesis by (auto simp: stored_waiters_def)
qed

lemma client_call_waiters:
  assumes "client_call h cl r = Some (rep, r')" "cl_inbox cl = None"
  shows "set (stored_waiters r' c) \<subseteq>
    (if c = cl_calendar cl
     then if may_wait (cl\<lparr>cl_inbox := Some rep, cl_lease := e\<rparr>) then insert h (set (stored_waiters r c))
       else if may_wait cl then set (stored_waiters r c) - {h} else set (stored_waiters r c)
     else set (stored_waiters r c))"
  using assms(1)
proof (cases rule: client_call_cases)
  case acquire
  from this(1) have "may_wait (cl\<lparr>cl_inbox := Some rep, cl_lease := e\<rparr>)" by (auto simp: may_wait_def)
  with acquire_stored [OF acquire(2), of c] show ?thesis by auto
next
  case cancel
  from this(1) have "\<not> may_wait (cl\<lparr>cl_inbox := Some rep, cl_lease := e\<rparr>)" by (auto simp: may_wait_def)
  with cancel_stored [OF cancel(2), of c] show ?thesis by auto
next
  case (confirm inLoop)
  show ?thesis
  proof (cases "rep = Integer 1 \<and> c = cl_calendar cl")
    case True
    with confirm confirm_effect [OF confirm(2)] have "stored_waiters r' c = []"
      by (auto simp: stored_waiters_def)
    then show ?thesis by simp
  next
    case False
    with confirm_effect [OF confirm(2)] have "rd_lists r' (waiterKey c) = rd_lists r (waiterKey c)" by auto
    with False confirm show ?thesis using stored_waiters_cong [of r' c r] by (auto simp: may_wait_def)
  qed
next
  case release
  then have "rd_lists r' = rd_lists r" using release_effect by blast
  with release stored_waiters_cong [of r' c r] show ?thesis by (auto simp: may_wait_def)
next
  case read
  then show ?thesis by (auto simp: may_wait_def)
qed

lemma resume_may_wait:
  assumes "may_wait cl" "cl_inbox cl = Some rep \<or> (\<exists>x d w. cl_phase cl = Sleeping x d w)"
  shows "may_wait (cl\<lparr>cl_inbox := None, cl_phase := resume_phase t (cl_aborted cl) h rep (cl_phase cl)\<rparr>)"
  using assms
  by (cases "cl_phase cl"; cases rep)
    (auto simp: may_wait_def createConfirmedHandle_def poll_def)

lemma waiters_ok_update:
  assumes "waiters_ok s"
    and "\<And>c. set (stored_waiters r c) - {h} \<subseteq> set (stored_waiters (ls_redis s) c)"
    and "\<And>c. h \<in> set (stored_waiters r c) \<Longrightarrow> cl_calendar cl = c \<and> may_wait cl"
  shows "waiters_ok (s\<lparr>ls_redis := r, ls_clients := (ls_clients s)(h \<mapsto> cl)\<rparr>)"
  using assms unfolding waiters_ok_def by (auto simp: subset_iff)

lemma waiters_ok_local:
  assumes "waiters_ok s"
    and "\<And>c old. ls_clients s h = Some old \<Longrightarrow> cl_calendar old = c \<Longrightarrow> may_wait old \<Longrightarrow>
      cl_calendar cl = c \<and> may_wait cl"
  shows "waiters_ok (s\<lparr>ls_clients := (ls_clients s)(h \<mapsto> cl)\<rparr>)"
  using waiters_ok_update [OF assms(1), of "ls_redis s" h cl] assms
  by (fastforce simp: waiters_ok_def)

lemma lock_waiters_ok: "lock_reach False s \<Longrightarrow> waiters_ok s"
proof (induction rule: lock_reach.induct)
  case start
  then show ?case by (simp add: waiters_ok_def empty_system_def empty_redis_def stored_waiters_def)
next
  case (step s l s')
  from step.hyps(2) show ?case
  proof cases
    case (own h cl)
    from own(3,4) show ?thesis
    proof (cases rule: acq_step_cases)
      case (1 rep)
      with own resume_may_wait show ?thesis
        by (auto simp: local_change_def intro!: waiters_ok_local step.IH)
    next
      case (2 rep r)
      have mine: "h \<in> set (stored_waiters (ls_redis s) c) \<Longrightarrow> cl_calendar cl = c \<and> may_wait cl" for c
        using step.IH own(3) unfolding waiters_ok_def by fastforce
      note call = client_call_waiters [OF 2(2,1), where e = "held_lease h cl r"]
      show ?thesis
        unfolding own 2(3)
      proof (rule waiters_ok_update [OF step.IH])
        show "set (stored_waiters r c) - {h} \<subseteq> set (stored_waiters (ls_redis s) c)" for c
          using call [of c] by (auto split: if_splits)
        show "h \<in> set (stored_waiters r c) \<Longrightarrow>
            cl_calendar (cl\<lparr>cl_inbox := Some rep, cl_lease := held_lease h cl r\<rparr>) = c \<and>
            may_wait (cl\<lparr>cl_inbox := Some rep, cl_lease := held_lease h cl r\<rparr>)" for c
          using call [of c] mine [of c] by (auto split: if_splits)
      qed
    qed
  next
    case (renew h cl rep r failed)
    then have same: "stored_waiters r c = stored_waiters (ls_redis s) c" for c
      using renew_effect [OF renew(5)] by (auto simp: stored_waiters_def)
    have "\<not> may_wait cl" using renew(4) by (auto simp: may_wait_def)
    then have "h \<notin> set (stored_waiters r c)" for c
      using step.IH renew(3) same unfolding waiters_ok_def by fastforce
    with same show ?thesis
      unfolding renew by (intro waiters_ok_update [OF step.IH]) auto
  next
    case (wake h cl result pollDeadline t)
    then show ?thesis using resume_may_wait [of cl Nil_Reply]
      by (auto simp: resume_step_def intro!: waiters_ok_local step.IH)
  next
    case (tick d)
    then show ?thesis using step.IH by (auto simp: waiters_ok_def stored_waiters_def)
  next
    case (abort h cl)
    then show ?thesis by (auto intro!: waiters_ok_local step.IH simp: may_wait_def split: phase.splits)
  qed (auto intro!: waiters_ok_local step.IH simp: may_wait_def)
qed

section \<open>How long an acquisition can take\<close>

definition rounds :: "int \<Rightarrow> nat" where
  "rounds d = nat ((d + 248) div 249)"

definition lock_work :: "instant \<Rightarrow> lock_client \<Rightarrow> nat" where
  "lock_work t cl =
    (if cl_inbox cl = None then 1 else 0) +
    (case cl_phase cl of
       Finished _ \<Rightarrow> 0
     | Held \<Rightarrow> 2
     | Releasing \<Rightarrow> 2
     | Cleanup _ \<Rightarrow> 2
     | Withdrawing _ \<Rightarrow> 4
     | Confirming _ \<Rightarrow> 6
     | Sleeping _ d w \<Rightarrow> 4 + 10 * rounds (d - w + 249)
     | Reacquiring d \<Rightarrow> 8 + 10 * rounds (d - t)
     | ReadLock _ d \<Rightarrow> 10 + 10 * rounds (d - t)
     | ReadSignal _ d \<Rightarrow> 12 + 10 * rounds (d - t)
     | Acquiring \<Rightarrow> 20504)"

lemma rounds_mono: "d \<le> d' \<Longrightarrow> rounds d \<le> rounds d'"
  by (simp add: rounds_def nat_mono zdiv_mono1)

lemma rounds_step: "0 < d \<Longrightarrow> rounds (d + 249) = Suc (rounds d)"
proof -
  assume "0 < d"
  then have "0 \<le> (d + 248) div 249" by (simp add: pos_imp_zdiv_nonneg_iff)
  moreover have "(d + 249 + 248) div 249 = (d + 248) div 249 + 1"
    using div_add_self2 [of 249 "d + 248"] by (simp add: algebra_simps)
  ultimately show ?thesis by (simp add: rounds_def)
qed

lemma rounds_timeout: "rounds 510000 = 2049"
  by (simp add: rounds_def)

lemma rounds_sleep: "rounds (d - (t + POLL_INTERVAL_MS) + 249) \<le> rounds (d - t)"
  by (rule rounds_mono) (simp add: POLL_INTERVAL_MS_def)

lemma poll_work:
  assumes "cl_phase cl' = poll t a x d" "cl_inbox cl' = None"
  shows "lock_work t cl' \<le> 3 \<or> t < d \<and> lock_work t cl' \<le> 13 + 10 * rounds (d - t)"
  using assms by (auto simp: poll_def lock_work_def)

lemma resume_work:
  assumes "cl_inbox cl = Some rep" "in_flight cl" "cl_inbox cl' = None"
    and "cl_phase cl' = resume_phase t a h rep (cl_phase cl)"
  shows "lock_work t cl' < lock_work t cl"
proof (cases "cl_phase cl")
  case Acquiring
  have "lock_work t cl' \<le> 20503"
  proof (cases "rep = Bulk ''acquired''")
    case True
    with assms Acquiring show ?thesis
      by (simp add: createConfirmedHandle_def lock_work_def split: if_splits)
  next
    case False
    then obtain x where "cl_phase cl' = poll t a x (t + POLL_TIMEOUT_MS)"
      using assms Acquiring by (cases rep) auto
    from poll_work [OF this assms(3)] show ?thesis by (auto simp: rounds_timeout)
  qed
  with Acquiring show ?thesis by (simp add: lock_work_def)
next
  case (ReadSignal x d)
  with assms rounds_sleep [of d t] show ?thesis by (auto simp: lock_work_def)
next
  case (ReadLock x d)
  with assms rounds_sleep [of d t] show ?thesis by (auto simp: lock_work_def)
next
  case (Reacquiring d)
  with assms rounds_sleep [of d t] show ?thesis
    by (cases rep) (auto simp: lock_work_def createConfirmedHandle_def)
qed (use assms in \<open>auto simp: lock_work_def createConfirmedResult_def in_flight_def\<close>)

lemma wake_work:
  assumes "cl_phase cl = Sleeping x d w" "w \<le> t" "cl_inbox cl' = None"
    and "cl_phase cl' = poll t a x d"
  shows "lock_work t cl' < lock_work t cl"
proof (cases "t < d")
  case True
  have "Suc (rounds (d - t)) \<le> rounds (d - w + 249)"
    using rounds_step [of "d - t"] rounds_mono [of "d - t + 249" "d - w + 249"] True assms(2) by simp
  with poll_work [OF assms(4,3)] assms(1) show ?thesis by (auto simp: lock_work_def)
next
  case False
  with assms show ?thesis by (auto simp: lock_work_def poll_def)
qed

lemma throw_work:
  assumes "in_flight cl" "cl_inbox cl' = None" "cl_phase cl' = throw_phase (cl_phase cl)"
  shows "lock_work t cl' < lock_work t cl"
  using assms by (cases "cl_phase cl") (auto simp: lock_work_def in_flight_def)

lemma own_step_work:
  assumes "lock_step faulty (Own h) s s'" "ls_clients s h = Some cl"
  shows "\<exists>cl'. ls_clients s' h = Some cl' \<and>
    lock_work (rd_now (ls_redis s')) cl' < lock_work (rd_now (ls_redis s)) cl"
  using assms(1)
proof cases
  case (own cl2)
  with assms(2) have "cl2 = cl" by simp
  with own have fl: "in_flight cl" by simp
  from assms(2) fl show ?thesis
  proof (cases rule: acq_step_cases)
    case (1 rep)
    with own resume_work [OF 1(1) fl] show ?thesis by (simp add: local_change_def)
  next
    case (2 rep r)
    with own client_call_now [OF 2(2)] show ?thesis by (simp add: lock_work_def del: client_call.simps)
  qed
next
  case (wake cl2 x d w)
  with assms(2) have "cl2 = cl" by simp
  with wake wake_work [OF _ wake(4)] show ?thesis by (simp add: resume_step_def)
next
  case (reject cl2)
  with assms(2) throw_work show ?thesis by simp
qed

lemma lock_work_cong:
  "cl_inbox cl' = cl_inbox cl \<Longrightarrow> cl_phase cl' = cl_phase cl \<Longrightarrow> lock_work t cl' = lock_work t cl"
  by (simp add: lock_work_def)

lemma lock_work_release:
  "cl_phase cl = Held \<Longrightarrow> lock_work t (cl\<lparr>cl_phase := Releasing\<rparr>) = lock_work t cl"
  by (simp add: lock_work_def)

lemma lock_work_later: "t \<le> t' \<Longrightarrow> lock_work t' cl \<le> lock_work t cl"
  by (cases "cl_phase cl") (auto simp: lock_work_def rounds_mono)

lemma other_step_work:
  assumes "lock_step faulty l s s'" "l \<noteq> Own h" "ls_clients s h = Some cl"
  shows "\<exists>cl'. ls_clients s' h = Some cl' \<and>
    lock_work (rd_now (ls_redis s')) cl' \<le> lock_work (rd_now (ls_redis s)) cl"
  using assms(1)
proof cases
  case (own g cl2)
  from own(3,4) show ?thesis
    by (cases rule: acq_step_cases)
      (use own assms(2,3) in \<open>auto simp: local_change_def client_call_now simp del: client_call.simps\<close>)
next
  case (renew g cl2 rep r failed)
  then have "rd_now r = rd_now (ls_redis s)" using renew_effect [OF renew(5)] by auto
  with renew assms show ?thesis by (auto intro!: eq_imp_le lock_work_cong)
next
  case (tick d)
  with assms show ?thesis by (simp add: lock_work_later)
next
  case (release g cl2)
  with assms show ?thesis by (auto simp: lock_work_release)
next
  case (wake g cl2 x d w)
  with assms show ?thesis by (auto simp: resume_step_def)
next
  case (abort g cl2)
  with assms show ?thesis by (auto intro!: eq_imp_le lock_work_cong)
next
  case (renew_lost g cl2)
  with assms show ?thesis by (auto intro!: eq_imp_le lock_work_cong)
qed (use assms(2,3) in auto)

text \<open>A run of the system, counting the steps that one caller takes itself.\<close>

inductive lock_run :: "bool \<Rightarrow> string \<Rightarrow> nat \<Rightarrow> lock_system \<Rightarrow> lock_system \<Rightarrow> bool" for faulty h where
  stop: "lock_run faulty h 0 s s"
| mine: "lock_run faulty h n s s' \<Longrightarrow> lock_step faulty (Own h) s' s'' \<Longrightarrow> lock_run faulty h (Suc n) s s''"
| other: "lock_run faulty h n s s' \<Longrightarrow> lock_step faulty l s' s'' \<Longrightarrow> l \<noteq> Own h \<Longrightarrow>
    lock_run faulty h n s s''"

lemma lock_run_work:
  assumes "lock_run faulty h n s s'" "ls_clients s h = Some cl"
  shows "\<exists>cl'. ls_clients s' h = Some cl' \<and>
    n + lock_work (rd_now (ls_redis s')) cl' \<le> lock_work (rd_now (ls_redis s)) cl"
  using assms
proof induction
  case (mine n s s' s'')
  then obtain cl' where "ls_clients s' h = Some cl'"
    "n + lock_work (rd_now (ls_redis s')) cl' \<le> lock_work (rd_now (ls_redis s)) cl" by blast
  with own_step_work [OF mine.hyps(2)] show ?case by fastforce
next
  case (other n s s' l s'')
  then obtain cl' where "ls_clients s' h = Some cl'"
    "n + lock_work (rd_now (ls_redis s')) cl' \<le> lock_work (rd_now (ls_redis s)) cl" by blast
  with other_step_work [OF other.hyps(2,3)] show ?case by fastforce
qed auto

definition advance :: "int \<Rightarrow> lock_system \<Rightarrow> lock_system" where
  "advance d s = s\<lparr>ls_redis := (ls_redis s)\<lparr>rd_now := rd_now (ls_redis s) + d\<rparr>\<rparr>"

lemma acquire_not_stuck:
  assumes "ls_clients s h = Some cl" "cl_phase cl \<noteq> Held" "\<forall>z. cl_phase cl \<noteq> Finished z"
  shows "\<exists>d \<ge> 0. \<exists>s'. lock_step faulty (Own h) (advance d s) s'"
proof (cases "in_flight cl")
  case True
  with assms(1) have "lock_step faulty (Own h) (advance 0 s) (acq_step h (advance 0 s))"
    by (intro lock_step.own) (auto simp: advance_def)
  then show ?thesis by blast
next
  case False
  with assms obtain x d w where "cl_phase cl = Sleeping x d w"
    by (cases "cl_phase cl") (auto simp: in_flight_def)
  with assms(1) have "lock_step faulty (Own h) (advance (max 0 (w - rd_now (ls_redis s))) s)
      (resume_step h cl Nil_Reply (advance (max 0 (w - rd_now (ls_redis s))) s))"
    by (intro lock_step.wake) (auto simp: advance_def)
  then show ?thesis by (meson max.cobounded1)
qed

section \<open>The properties of the lock\<close>

definition sample_lock_system :: lock_system where
  "sample_lock_system = empty_system\<lparr>ls_clients := [''background:a'' \<mapsto> start_acquire ''cal'' None False]\<rparr>"

lemma sample_lock_reach: "lock_reach faulty sample_lock_system"
  unfolding sample_lock_system_def
  using lock_step.join [of empty_system "''background:a''" Background "''a''" faulty "''cal''" None False]
    lock_reach.start lock_reach.step
  by (fastforce simp: empty_system_def BACKGROUND_HOLDER_PREFIX_def)

definition run_own :: "string \<Rightarrow> nat \<Rightarrow> lock_system \<Rightarrow> lock_system" where
  "run_own h n s = (acq_step h ^^ n) s"

lemma run_own_reach:
  "lock_reach faulty s \<Longrightarrow>
    (\<And>i. i < n \<Longrightarrow> \<exists>cl. ls_clients (run_own h i s) h = Some cl \<and> in_flight cl) \<Longrightarrow>
    lock_reach faulty (run_own h n s)"
proof (induction n)
  case (Suc n)
  then have "lock_reach faulty (run_own h n s)" by simp
  moreover from Suc.prems(2) [of n] have
    "lock_step faulty (Own h) (run_own h n s) (acq_step h (run_own h n s))"
    by (auto intro: lock_step.own)
  ultimately show ?case by (auto simp: run_own_def intro: lock_reach.step)
qed (simp add: run_own_def)

text \<open>C18: While a caller's lease on a calendar has not run out, the lock key names that caller:
  its \<open>isHeld\<close> cannot answer false, no other caller's \<open>isHeld\<close> answers true, and no other
  caller has a running lease, in every state that any interleaving of callers, aborts, renewals,
  lost requests, lost replies and passing time can reach.\<close>

theorem lock_is_exclusive:
  assumes "lock_reach faulty s" "ls_clients s h = Some cl"
    and "cl_lease cl = Some e" "rd_now (ls_redis s) < e"
  shows "redis_get (lockKey (cl_calendar cl)) (ls_redis s) = Some h \<and>
    isHeld h cl (ls_redis s) \<noteq> Inr False \<and>
    (\<forall>g d. g \<noteq> h \<and> ls_clients s g = Some d \<and> cl_calendar d = cl_calendar cl \<longrightarrow>
      isHeld g d (ls_redis s) \<noteq> Inr True \<and>
      (\<forall>e'. cl_lease d = Some e' \<longrightarrow> e' \<le> rd_now (ls_redis s)))"
proof (intro conjI)
  note ok = lease_okD [OF lock_lease_ok [OF assms(1)]]
  from ok [OF assms(2-4)] have lock: "rd_strings (ls_redis s) (lockKey (cl_calendar cl)) = Some (h, Some e)" .
  with assms(4) show held: "redis_get (lockKey (cl_calendar cl)) (ls_redis s) = Some h"
    by (simp add: redis_get_def)
  then show "isHeld h cl (ls_redis s) \<noteq> Inr False"
    by (simp add: isHeld_def split: option.splits)
  show "\<forall>g d. g \<noteq> h \<and> ls_clients s g = Some d \<and> cl_calendar d = cl_calendar cl \<longrightarrow>
      isHeld g d (ls_redis s) \<noteq> Inr True \<and>
      (\<forall>e'. cl_lease d = Some e' \<longrightarrow> e' \<le> rd_now (ls_redis s))"
  proof (intro allI impI conjI; elim conjE)
    fix g d
    assume g: "g \<noteq> h" "ls_clients s g = Some d" "cl_calendar d = cl_calendar cl"
    then show "isHeld g d (ls_redis s) \<noteq> Inr True"
      using held by (simp add: isHeld_def split: option.splits)
    show "e' \<le> rd_now (ls_redis s)" if "cl_lease d = Some e'" for e'
      using ok [OF g(2) that] g lock by fastforce
  qed
qed

lemma sample_in_flight:
  "i < 4 \<Longrightarrow> \<exists>cl. ls_clients (run_own ''background:a'' i sample_lock_system) ''background:a'' = Some cl
    \<and> in_flight cl"
proof -
  assume "i < 4"
  then consider "i = 0" | "i = 1" | "i = 2" | "i = 3" by linarith
  then have "map_option in_flight
      (ls_clients (run_own ''background:a'' i sample_lock_system) ''background:a'') = Some True"
    by cases (simp only:, code_simp)+
  then show ?thesis by auto
qed

definition sample_held_system :: lock_system where
  "sample_held_system = run_own ''background:a'' 4 sample_lock_system"

lemma sample_held_reach: "lock_reach faulty sample_held_system"
  unfolding sample_held_system_def by (rule run_own_reach [OF sample_lock_reach sample_in_flight])

lemma sample_held_client:
  "ls_clients sample_held_system ''background:a'' =
    Some (start_acquire ''cal'' None False\<lparr>cl_phase := Held, cl_lease := Some 120000\<rparr>)"
  by code_simp

theorem lock_is_exclusive_witness:
  "redis_get (lockKey ''cal'') (ls_redis sample_held_system) = Some ''background:a''"
proof -
  have "rd_now (ls_redis sample_held_system) < 120000" by code_simp
  then show ?thesis
    using lock_is_exclusive [OF sample_held_reach [of True] sample_held_client, of 120000]
    by (simp add: start_acquire_def)
qed

text \<open>The signal key always names the head of the waiter stack and both vanish together, also
  by expiry, whatever is lost or aborted. When no Redis call fails, the caller that the signal
  names is a caller of that calendar that is still waiting or withdrawing: the lock is never
  offered to a caller that has returned.\<close>

theorem signal_names_a_live_waiter:
  assumes "lock_reach faulty s"
  shows "redis_get (signalKey c) (ls_redis s) = redis_lindex_0 (waiterKey c) (ls_redis s) \<and>
    distinct (redis_lrange (waiterKey c) (ls_redis s)) \<and>
    (\<not> faulty \<and> redis_get (signalKey c) (ls_redis s) = Some h \<longrightarrow>
      (\<exists>cl. ls_clients s h = Some cl \<and> cl_calendar cl = c \<and>
        cl_phase cl \<notin> {Held, Releasing} \<union> range Finished))"
proof (intro conjI impI)
  note ok = stack_ok_reads [OF lock_stack_ok [OF assms]]
  show "redis_get (signalKey c) (ls_redis s) = redis_lindex_0 (waiterKey c) (ls_redis s)"
    and "distinct (redis_lrange (waiterKey c) (ls_redis s))" by (fact ok)+
  assume *: "\<not> faulty \<and> redis_get (signalKey c) (ls_redis s) = Some h"
  then have "h \<in> set (redis_lrange (waiterKey c) (ls_redis s))"
    using ok(2) [of c] by (auto simp: redis_lindex_0_def split: list.splits)
  then have "h \<in> set (stored_waiters (ls_redis s) c)" using lrange_stored by blast
  moreover have "waiters_ok s" using assms * lock_waiters_ok by simp
  ultimately obtain cl where "ls_clients s h = Some cl" "cl_calendar cl = c" "may_wait cl"
    unfolding waiters_ok_def by blast
  then show "\<exists>cl. ls_clients s h = Some cl \<and> cl_calendar cl = c \<and>
      cl_phase cl \<notin> {Held, Releasing} \<union> range Finished"
    by (intro exI [of _ cl]) (auto simp: may_wait_def)
qed

theorem signal_names_a_live_waiter_witness:
  "redis_get (signalKey ''cal'') (ls_redis sample_held_system) =
    redis_lindex_0 (waiterKey ''cal'') (ls_redis sample_held_system)"
  using signal_names_a_live_waiter [OF sample_held_reach [of False]] by blast

text \<open>C20: \<open>acquire\<close> always returns: it takes at most 20505 steps of its own (sending a request,
  receiving a reply, waking from a poll) however the other callers, the clock, aborts and Redis
  failures interleave with them, and until it has returned a next step is enabled, at the latest
  after some time has passed.\<close>

theorem acquire_terminates:
  assumes "lock_run faulty h n s s'" "ls_clients s h = Some (start_acquire c b aborted)"
  shows "n \<le> 20505 \<and> (\<exists>cl. ls_clients s' h = Some cl \<and>
    (cl_phase cl = Held \<or> cl_phase cl \<in> range Finished \<or>
      (\<exists>d \<ge> 0. \<exists>s''. lock_step faulty (Own h) (advance d s') s'')))"
proof -
  from lock_run_work [OF assms] obtain cl where cl: "ls_clients s' h = Some cl"
    and n: "n + lock_work (rd_now (ls_redis s')) cl \<le>
      lock_work (rd_now (ls_redis s)) (start_acquire c b aborted)" by blast
  have "lock_work t (start_acquire c b aborted) \<le> 20505" for t
    by (simp add: lock_work_def start_acquire_def)
  with n have "n \<le> 20505" by (metis add_leD1 order_trans)
  with cl acquire_not_stuck [OF cl] show ?thesis by blast
qed

lemma sample_run: "lock_run True ''background:a'' 1 sample_lock_system (run_own ''background:a'' 1 sample_lock_system)"
proof -
  have "\<exists>cl. ls_clients sample_lock_system ''background:a'' = Some cl \<and> in_flight cl"
    using sample_in_flight [of 0] by (simp add: run_own_def)
  then have "lock_step True (Own ''background:a'') sample_lock_system
      (acq_step ''background:a'' sample_lock_system)"
    by (auto intro: lock_step.own)
  from lock_run.mine [OF lock_run.stop this] show ?thesis by (simp add: run_own_def)
qed

theorem acquire_terminates_witness:
  "(1::nat) \<le> 20505 \<and> ls_clients (run_own ''background:a'' 1 sample_lock_system) ''background:a'' \<noteq> None"
  using acquire_terminates [OF sample_run, of "''cal''" None False]
  by (auto simp: sample_lock_system_def)

text \<open>A request and its reply with nothing in between.\<close>

lemma call_then_resume:
  assumes "ls_clients s h = Some cl" "cl_inbox cl = None" "client_call h cl (ls_redis s) = Some (rep, r)"
  shows "acq_step h (acq_step h s) = s\<lparr>ls_redis := r, ls_clients := (ls_clients s)(h \<mapsto>
    cl\<lparr>cl_lease := held_lease h cl r, cl_inbox := None,
       cl_phase := resume_phase (rd_now (ls_redis s)) (cl_aborted cl) h rep (cl_phase cl)\<rparr>)\<rparr>"
  using assms client_call_now [OF assms(3)]
  by (simp add: acq_step_def exec_step_def resume_step_def del: client_call.simps)

lemma run_own_add: "run_own h (n + 2) s = run_own h n (acq_step h (acq_step h s))"
  by (simp add: run_own_def funpow_swap1)

text \<open>Taking a free lock and confirming it, as the two scripts do.\<close>

lemma free_lock_is_taken:
  assumes "redis_get (lockKey c) r = None" "redis_get (blockerLockKey b c) r = None"
  obtains r1 r2 where "acquire_or_signal c b h r = (Bulk ''acquired'', r1)"
    and "confirm_acquisition c h r1 = (Integer 1, r2)" "rd_now r1 = rd_now r" "rd_now r2 = rd_now r"
    and "rd_strings r2 (lockKey c) = Some (h, Some (rd_now r + 120000))"
    and "redis_get (signalKey c) r2 = None" "redis_lrange (waiterKey c) r2 = []"
proof -
  obtain r1 where acq: "acquire_or_signal c b h r = (Bulk ''acquired'', r1)"
    using assms by (auto simp: acquire_or_signal_def Let_def)
  from acquire_effect [OF this] assms(1) have r1: "rd_now r1 = rd_now r"
      "rd_lists r1 (waiterKey c) = Some (h # filter (\<lambda>y. y \<noteq> h) (redis_lrange (waiterKey c) r),
        Some (rd_now r + 570000))"
      "rd_strings r1 (lockKey c) = Some (h, Some (rd_now r + 120000))"
      "rd_strings r1 (signalKey c) = Some (h, Some (rd_now r + 570000))"
    by auto
  then have "confirm_acquisition c h r1 =
      (Integer 1, redis_del_list (waiterKey c) (redis_del_string (signalKey c) r1))"
    by (simp add: confirm_acquisition_def redis_get_def redis_lindex_0_def redis_lrange_def)
  from that [OF acq this] r1 show ?thesis by simp
qed


definition sample_queued_system :: lock_system where
  "sample_queued_system =
    (let b = ''preempting:b'';
         s = sample_held_system\<lparr>ls_clients := (ls_clients sample_held_system)(b \<mapsto> start_acquire ''cal'' None False)\<rparr>;
         s = run_own b 2 s;
         s = s\<lparr>ls_clients := (ls_clients s)(''background:a'' \<mapsto>
               start_acquire ''cal'' None False\<lparr>cl_phase := Releasing, cl_lease := Some 120000\<rparr>)\<rparr>
     in run_own ''background:a'' 2 s)"

lemma sample_queued_client:
  "ls_clients sample_queued_system ''preempting:b'' =
    Some (start_acquire ''cal'' None False\<lparr>cl_phase := ReadSignal ''queued'' 510000\<rparr>)"
  by code_simp

lemma sample_queued_keys:
  "redis_get (lockKey ''cal'') (ls_redis sample_queued_system) = None"
  "redis_get (signalKey ''cal'') (ls_redis sample_queued_system) = Some ''preempting:b''"
  "redis_get (blockerLockKey None ''cal'') (ls_redis sample_queued_system) = None"
  by code_simp+


lemma acquire_reads:
  assumes "acquire_or_signal c b h r = (rep, r')"
  shows "redis_get (lockKey k) r' =
      (if k = c \<and> rep = Bulk ''acquired'' then Some h else redis_get (lockKey k) r)"
    and "rep = Bulk ''acquired'' \<Longrightarrow> redis_get (lockKey c) r = None"
    and "k \<noteq> c \<Longrightarrow> redis_get (signalKey k) r' = redis_get (signalKey k) r"
    and "redis_lrange (waiterKey k) r' = (if k = c \<and> rep \<noteq> Bulk ''blocked''
      then h # filter (\<lambda>y. y \<noteq> h) (redis_lrange (waiterKey k) r) else redis_lrange (waiterKey k) r)"
  using assms by (simp_all add: acquire_or_signal_def Let_def split: if_splits) auto

lemma cancel_reads:
  assumes "cancel_waiter c h r = (rep, r')"
  shows "redis_get (lockKey k) r' =
      (if k = c \<and> redis_get (lockKey k) r = Some h then None else redis_get (lockKey k) r)"
    and "redis_get (signalKey k) r' = (if k = c
      then case filter (\<lambda>y. y \<noteq> h) (redis_lrange (waiterKey c) r) of [] \<Rightarrow> None | w # _ \<Rightarrow> Some w
      else redis_get (signalKey k) r)"
    and "redis_lrange (waiterKey k) r' = (if k = c then filter (\<lambda>y. y \<noteq> h) (redis_lrange (waiterKey k) r)
      else redis_lrange (waiterKey k) r)"
  using assms
  by (simp_all add: cancel_waiter_def Let_def redis_lindex_0_def split: if_splits list.splits) auto

text \<open>Cancelling undoes queueing. A caller that joins the waiter stack, or takes the free lock,
  and is cancelled before it confirms leaves every lock as it found it, and restores the previous
  waiter: the signal and the waiter stack read as before, in the same order.\<close>

theorem cancel_restores_predecessor:
  assumes "lock_reach faulty s" "h \<notin> set (redis_lrange (waiterKey c) (ls_redis s))"
    and "redis_get (lockKey c) (ls_redis s) \<noteq> Some h"
    and "acquire_or_signal c b h (ls_redis s) = (rep, r)" "cancel_waiter c h r = (rep', r')"
  shows "(\<forall>k. redis_get (lockKey k) r' = redis_get (lockKey k) (ls_redis s)) \<and>
    (\<forall>k. redis_get (signalKey k) r' = redis_get (signalKey k) (ls_redis s)) \<and>
    (\<forall>k. redis_lrange (waiterKey k) r' = redis_lrange (waiterKey k) (ls_redis s))"
proof -
  let ?q = "ls_redis s"
  have sig: "redis_get (signalKey c) ?q = redis_lindex_0 (waiterKey c) ?q"
    by (rule stack_ok_reads(2) [OF lock_stack_ok [OF assms(1)]])
  have same: "filter (\<lambda>y. y \<noteq> h) (redis_lrange (waiterKey c) ?q) = redis_lrange (waiterKey c) ?q"
    using assms(2) by (auto intro!: filter_True)
  note acq = acquire_reads [OF assms(4)]
  have stack: "filter (\<lambda>y. y \<noteq> h) (redis_lrange (waiterKey c) r) = redis_lrange (waiterKey c) ?q"
    using same by (simp add: acq(4))
  have "redis_get (lockKey k) r' = redis_get (lockKey k) ?q" for k
    using acq(1) [of k] acq(2) assms(3) by (auto simp: cancel_reads [OF assms(5)])
  moreover have "redis_get (signalKey k) r' = redis_get (signalKey k) ?q" for k
    using acq(3) [of k] sig by (simp add: cancel_reads [OF assms(5)] stack redis_lindex_0_def)
  moreover have "redis_lrange (waiterKey k) r' = redis_lrange (waiterKey k) ?q" for k
    using acq(4) [of k] stack by (simp add: cancel_reads [OF assms(5)])
  ultimately show ?thesis by blast
qed

theorem cancel_restores_predecessor_witness:
  "redis_lrange (waiterKey ''cal'') (snd (cancel_waiter ''cal'' ''preempting:c''
      (snd (acquire_or_signal ''cal'' None ''preempting:c'' (ls_redis sample_held_system))))) =
    redis_lrange (waiterKey ''cal'') (ls_redis sample_held_system)"
proof -
  have "''preempting:c'' \<notin> set (redis_lrange (waiterKey ''cal'') (ls_redis sample_held_system))"
    "redis_get (lockKey ''cal'') (ls_redis sample_held_system) \<noteq> Some ''preempting:c''"
    by code_simp+
  from cancel_restores_predecessor [OF sample_held_reach this surjective_pairing surjective_pairing]
  show ?thesis by blast
qed

text \<open>Supersession. While a caller holds the lock, a new waiter ends its currency exactly when
  the waiter is not a background one: afterwards \<open>isCurrent\<close> answers what it answered before,
  or false if the newcomer's holder id lacks the background prefix. A preempting waiter is thus
  never masked by background waiters that queue behind it, and background waiters alone never
  make the holder abandon its run.\<close>

theorem only_preempting_waiters_supersede:
  assumes "redis_get (lockKey (cl_calendar cl)) r = Some h" "g \<noteq> h"
    and "acquire_or_signal (cl_calendar cl) b g r = (rep, r')" "rep \<noteq> Bulk ''blocked''"
    and "\<not> cl_renewal_failed cl"
  shows "isCurrent h cl r' = Inr (isCurrent h cl r = Inr True \<and> prefix BACKGROUND_HOLDER_PREFIX g)"
proof -
  have "redis_get (lockKey (cl_calendar cl)) r' = Some h"
    and "redis_lrange (waiterKey (cl_calendar cl)) r' =
      g # filter (\<lambda>y. y \<noteq> g) (redis_lrange (waiterKey (cl_calendar cl)) r)"
    using assms(1,4) acquire_reads [OF assms(3)] by auto
  moreover have "take (length p) w = p \<longleftrightarrow> prefix p w" for p w :: string
    by (metis append_eq_conv_conj prefix_def)
  ultimately show ?thesis
    using assms(1,2,5)
    by (auto simp: isCurrent_def throwIfRenewalFailed_def is_current_script_def list_ex_iff)
qed

theorem only_preempting_waiters_supersede_witness:
  "isCurrent ''background:a'' (start_acquire ''cal'' None False)
      (snd (acquire_or_signal ''cal'' None ''background:c'' (ls_redis sample_held_system))) = Inr True"
proof -
  have "redis_get (lockKey ''cal'') (ls_redis sample_held_system) = Some ''background:a''"
    "isCurrent ''background:a'' (start_acquire ''cal'' None False) (ls_redis sample_held_system) = Inr True"
    "fst (acquire_or_signal ''cal'' None ''background:c'' (ls_redis sample_held_system)) = Bulk ''queued''"
    by code_simp+
  then show ?thesis
    using only_preempting_waiters_supersede [of "start_acquire ''cal'' None False"
        "ls_redis sample_held_system" "''background:a''" "''background:c''" None "Bulk ''queued''"]
    by (simp add: start_acquire_def prod_eq_iff BACKGROUND_HOLDER_PREFIX_def)
qed

end
