(* ===== verification/Event_Diff.thy ===== *)
theory Event_Diff
  imports Event_Content
begin

text \<open>
  Source events against stored rows: the instance key of an event
  (\<open>core/source/event-instance.ts\<close>), the stored recurrence columns
  (\<open>core/events/stored-recurrence.ts\<close>), parsing of stored rows
  (\<open>core/source/stored-event-state.ts\<close>) and the difference between a fetch and the
  stored rows (\<open>core/source/event-diff.ts\<close>).

  A recurrence rule, duration or exception list is an iCalendar value of a library type, here a
  structured value. The library functions that read and write such values, \<open>stringify\<close> of
  fast-json-stable-stringify, the two schema validators, \<open>JSON.parse\<close> and
  \<open>JSON.stringify\<close> on structured values and \<open>localeCompare\<close>, are the fields of a
  codec that the definitions take as an argument.
\<close>

datatype structured =
    SNull | SBool bool | SNumber int | SText string | SDate instant
  | SArray "structured list" | SObject "(string \<times> structured) list"

record stored_codec =
  cdStringify :: "structured \<Rightarrow> string"
  cdLocaleCompare :: "string \<Rightarrow> string \<Rightarrow> int"
  cdJsonParse :: "string \<Rightarrow> structured option"
  cdJsonStringify :: "structured \<Rightarrow> string"
  cdRuleSchema :: "structured \<Rightarrow> string + (structured option \<times> structured)"
  cdExceptionSchema :: "structured \<Rightarrow> string + structured"

section \<open>Source events and stored rows\<close>

record SourceEvent = EventTimeRange +
  seUid :: string
  seSourceEventId :: "string option"
  seSourceEventType :: "string option"
  seAvailability :: "string option"
  seIsAllDay :: "bool option"
  seStartTimeZone :: "string option"
  seRecurrenceDuration :: "structured option"
  seRecurrenceRule :: "structured option"
  seExceptionDates :: "structured option"
  seRecurrenceId :: "instant option"
  seTitle :: "string option"
  seDescription :: "string option"
  seLocation :: "string option"

record StoredSourceEventState = EventTimeRange +
  stId :: string
  stSourceEventUid :: "string option"
  stSourceEventId :: "string option"
  stSourceEventType :: "string option"
  stAvailability :: "string option"
  stIsAllDay :: "bool option"
  stStartTimeZone :: "string option"
  stRecurrenceRule :: "string option"
  stExceptionDates :: "string option"
  stRecurrenceId :: "instant option"
  stTitle :: "string option"
  stDescription :: "string option"
  stLocation :: "string option"

record ExistingSourceEventState =
  exStored :: StoredSourceEventState
  exExceptionDates :: "structured option"
  exRecurrenceDuration :: "structured option"
  exRecurrenceRule :: "structured option"

section \<open>Instance keys\<close>

definition buildSourceEventInstanceKey ::
  "instant \<Rightarrow> instant option \<Rightarrow> instant \<Rightarrow> string \<Rightarrow> string" where
  "buildSourceEventInstanceKey et recurrenceId st u =
    (case recurrenceId of
       Some r \<Rightarrow> ''recurrence|'' @ u @ ''|'' @ toISOString r
     | None \<Rightarrow> intercalate ''|'' [''slot'', u, toISOString st, toISOString et])"

definition eventInstanceKey :: "SourceEvent \<Rightarrow> string" where
  "eventInstanceKey e = buildSourceEventInstanceKey (endTime e) (seRecurrenceId e) (startTime e) (seUid e)"

definition storedInstanceKey :: "StoredSourceEventState \<Rightarrow> string" where
  "storedInstanceKey s = buildSourceEventInstanceKey (endTime s) (stRecurrenceId s) (startTime s)
    (or_else (stSourceEventUid s) [])"

definition resolveExistingSourceEventInstanceKey :: "ExistingSourceEventState \<Rightarrow> string" where
  "resolveExistingSourceEventInstanceKey x = storedInstanceKey (exStored x)"

section \<open>Stored recurrence\<close>

definition parseStoredJson :: "stored_codec \<Rightarrow> string \<Rightarrow> string \<Rightarrow> string \<Rightarrow> string + structured" where
  "parseStoredJson cd value field eventId = (case cdJsonParse cd value of
      Some v \<Rightarrow> Inr v
    | None \<Rightarrow> Inl (''Failed to JSON.parse '' @ field @ '' for event '' @ eventId))"

definition parseStoredIcsRecurrence ::
  "stored_codec \<Rightarrow> string option \<Rightarrow> string \<Rightarrow> string + (structured option \<times> structured) option" where
  "parseStoredIcsRecurrence cd value eventId = (case value of
      None \<Rightarrow> Inr None
    | Some v \<Rightarrow> (case parseStoredJson cd v ''recurrenceRule'' eventId of
        Inl e \<Rightarrow> Inl e
      | Inr parsed \<Rightarrow> (case cdRuleSchema cd parsed of
          Inl m \<Rightarrow> Inl (''Invalid recurrenceRule shape for event '' @ eventId @ '': '' @ m)
        | Inr r \<Rightarrow> Inr (Some r))))"

definition spread_duration :: "structured \<Rightarrow> structured option \<Rightarrow> structured" where
  "spread_duration rule duration = (case (rule, duration) of
      (SObject fs, Some d) \<Rightarrow> SObject (AList.update ''recurrenceDuration'' d fs)
    | _ \<Rightarrow> rule)"

definition serializeStoredIcsRecurrenceRule ::
  "stored_codec \<Rightarrow> structured option \<Rightarrow> structured option \<Rightarrow> string option" where
  "serializeStoredIcsRecurrenceRule cd rule duration = (case rule of
      None \<Rightarrow> None
    | Some r \<Rightarrow> Some (cdJsonStringify cd (spread_duration r duration)))"

definition parseStoredIcsExceptionDates ::
  "stored_codec \<Rightarrow> string option \<Rightarrow> string \<Rightarrow> string + structured option" where
  "parseStoredIcsExceptionDates cd value eventId = (case value of
      None \<Rightarrow> Inr None
    | Some v \<Rightarrow> (case parseStoredJson cd v ''exceptionDates'' eventId of
        Inl e \<Rightarrow> Inl e
      | Inr parsed \<Rightarrow> (case cdExceptionSchema cd parsed of
          Inl m \<Rightarrow> Inl (''Invalid exceptionDates shape for event '' @ eventId @ '': '' @ m)
        | Inr r \<Rightarrow> Inr (Some r))))"

definition parseStoredIcsRecurrenceRule ::
  "stored_codec \<Rightarrow> string option \<Rightarrow> string \<Rightarrow> string + structured option" where
  "parseStoredIcsRecurrenceRule cd value eventId = map_sum id (map_option snd) (parseStoredIcsRecurrence cd value eventId)"

record MaterializedRecurrenceFields =
  mrExceptionDates :: "structured list option"
  mrRecurrenceDuration :: "structured option"
  mrRecurrenceId :: "instant option"
  mrRecurrenceRule :: "structured option"

fun exception_date :: "structured \<Rightarrow> structured" where
  "exception_date (SObject fs) = or_else (map_of fs ''date'') SNull"
| "exception_date _ = SNull"

fun exception_dates :: "structured \<Rightarrow> structured list" where
  "exception_dates (SArray vs) = map exception_date vs"
| "exception_dates _ = []"

definition parseStoredRecurrenceForMaterialization ::
  "stored_codec \<Rightarrow> string \<Rightarrow> string option \<Rightarrow> instant option \<Rightarrow> string option \<Rightarrow>
    string + MaterializedRecurrenceFields" where
  "parseStoredRecurrenceForMaterialization cd eventId exceptionDates recurrenceId recurrenceRule =
    (case parseStoredIcsExceptionDates cd exceptionDates eventId of
       Inl e \<Rightarrow> Inl e
     | Inr exceptions \<Rightarrow>
       (case parseStoredIcsRecurrence cd recurrenceRule eventId of
          Inl e \<Rightarrow> Inl e
        | Inr stored \<Rightarrow> Inr
            \<lparr>mrExceptionDates = map_option exception_dates exceptions,
             mrRecurrenceDuration = (case stored of None \<Rightarrow> None | Some (d, _) \<Rightarrow> d),
             mrRecurrenceId = recurrenceId,
             mrRecurrenceRule = map_option snd stored\<rparr>))"

section \<open>Parsing stored rows\<close>

record StoredSourceEventParseFailure =
  pfError :: string
  pfEvent :: StoredSourceEventState
  pfEventId :: string

record StoredSourceEventParseResult =
  prEvents :: "ExistingSourceEventState list"
  prFailures :: "StoredSourceEventParseFailure list"

definition parseStoredSourceEventState ::
  "stored_codec \<Rightarrow> StoredSourceEventState \<Rightarrow> string + ExistingSourceEventState" where
  "parseStoredSourceEventState cd s =
    (case parseStoredRecurrenceForMaterialization cd (stId s) (stExceptionDates s) (stRecurrenceId s)
        (stRecurrenceRule s) of
       Inl e \<Rightarrow> Inl e
     | Inr recurrence \<Rightarrow>
       (case parseStoredIcsExceptionDates cd (stExceptionDates s) (stId s) of
          Inl e \<Rightarrow> Inl e
        | Inr exceptions \<Rightarrow> Inr
            \<lparr>exStored = s, exExceptionDates = exceptions,
             exRecurrenceDuration = mrRecurrenceDuration recurrence,
             exRecurrenceRule = mrRecurrenceRule recurrence\<rparr>))"

fun parseStoredSourceEventStates ::
  "stored_codec \<Rightarrow> StoredSourceEventState list \<Rightarrow> string + ExistingSourceEventState list" where
  "parseStoredSourceEventStates cd [] = Inr []"
| "parseStoredSourceEventStates cd (s # ss) = (case parseStoredSourceEventState cd s of
      Inl e \<Rightarrow> Inl e
    | Inr x \<Rightarrow> (case parseStoredSourceEventStates cd ss of Inl e \<Rightarrow> Inl e | Inr xs \<Rightarrow> Inr (x # xs)))"

definition recover_stored ::
  "stored_codec \<Rightarrow> StoredSourceEventState \<Rightarrow> StoredSourceEventParseResult \<Rightarrow> StoredSourceEventParseResult" where
  "recover_stored cd s acc = (case parseStoredSourceEventState cd s of
      Inr x \<Rightarrow> acc\<lparr>prEvents := prEvents acc @ [x]\<rparr>
    | Inl e \<Rightarrow> acc\<lparr>prFailures := prFailures acc @ [\<lparr>pfError = e, pfEvent = s, pfEventId = stId s\<rparr>]\<rparr>)"

definition parseStoredSourceEventStatesRecoveringInvalid ::
  "stored_codec \<Rightarrow> StoredSourceEventState list \<Rightarrow> StoredSourceEventParseResult" where
  "parseStoredSourceEventStatesRecoveringInvalid cd storedEvents =
    fold (recover_stored cd) storedEvents \<lparr>prEvents = [], prFailures = []\<rparr>"

definition incomingProviderIds :: "SourceEvent list \<Rightarrow> string list" where
  "incomingProviderIds es =
    concat (map (\<lambda>e. if str_truthy (seSourceEventId e) then [the (seSourceEventId e)] else []) es)"

definition incomingFallbackKeys :: "SourceEvent list \<Rightarrow> string list" where
  "incomingFallbackKeys es =
    concat (map (\<lambda>e. if str_truthy (seSourceEventId e) then [] else [eventInstanceKey e]) es)"

definition buildInvalidStoredEventIdsToRemove ::
  "StoredSourceEventParseFailure list \<Rightarrow> SourceEvent list \<Rightarrow> string list" where
  "buildInvalidStoredEventIdsToRemove failures incomingEvents =
    concat (map (\<lambda>f.
      let event = pfEvent f in
      if str_truthy (stSourceEventId event) then
        if the (stSourceEventId event) \<in> set (incomingProviderIds incomingEvents) then []
        else [pfEventId f]
      else if stSourceEventUid event = None then [pfEventId f]
      else if storedInstanceKey event \<in> set (incomingFallbackKeys incomingEvents) then []
      else [pfEventId f]) failures)"

section \<open>Identity keys\<close>

datatype js_flag = Undefined | Null | Flag bool

definition js_flag_name :: "js_flag \<Rightarrow> string" where
  "js_flag_name f = (case f of Undefined \<Rightarrow> ''undefined'' | Null \<Rightarrow> ''null''
    | Flag b \<Rightarrow> if b then ''true'' else ''false'')"

definition normalizeIdentityIsAllDay :: "js_flag \<Rightarrow> bool \<Rightarrow> string" where
  "normalizeIdentityIsAllDay v normalizeMissingMetadata =
    (if normalizeMissingMetadata
     then js_flag_name (case v of Flag b \<Rightarrow> Flag b | _ \<Rightarrow> Flag False)
     else js_flag_name v)"

definition normalizeIdentityContent :: "string option \<Rightarrow> string" where
  "normalizeIdentityContent v = or_else (map_option js_trim v) []"

fun canonicalizeStructuredIdentityValue :: "stored_codec \<Rightarrow> structured \<Rightarrow> structured" where
  "canonicalizeStructuredIdentityValue cd (SArray vs) =
    SArray (toSorted (\<lambda>a b. cdLocaleCompare cd (cdStringify cd a) (cdStringify cd b))
      (map (canonicalizeStructuredIdentityValue cd) vs))"
| "canonicalizeStructuredIdentityValue cd (SDate t) = SDate t"
| "canonicalizeStructuredIdentityValue cd (SObject fs) =
    SObject (map (\<lambda>(k, v). (k, canonicalizeStructuredIdentityValue cd v)) fs)"
| "canonicalizeStructuredIdentityValue cd v = v"

definition serializeStructuredIdentityValue :: "stored_codec \<Rightarrow> structured option \<Rightarrow> string" where
  "serializeStructuredIdentityValue cd value = (case value of
      None \<Rightarrow> []
    | Some v \<Rightarrow> if v = SNull then [] else cdStringify cd (canonicalizeStructuredIdentityValue cd v))"

record SourceEventIdentityInput = EventTimeRange +
  idSourceEventId :: "string option"
  idInstanceKey :: string
  idSourceEventUid :: string
  idIsAllDay :: js_flag
  idAvailability :: "string option"
  idSourceEventType :: "string option"
  idTitle :: "string option"
  idDescription :: "string option"
  idLocation :: "string option"
  idStartTimeZone :: "string option"
  idRecurrenceDuration :: "structured option"
  idRecurrenceRule :: "structured option"
  idExceptionDates :: "structured option"
  idRecurrenceId :: "instant option"

definition identityFields :: "stored_codec \<Rightarrow> SourceEventIdentityInput \<Rightarrow> bool \<Rightarrow> string list" where
  "identityFields cd i normalizeMissingMetadata =
    [or_else (idSourceEventId i) [],
     idSourceEventUid i,
     idInstanceKey i,
     toISOString (startTime i),
     toISOString (endTime i),
     normalizeIdentityIsAllDay (idIsAllDay i) normalizeMissingMetadata,
     or_else (idAvailability i) [],
     or_else (idSourceEventType i) ''default'',
     normalizeIdentityContent (idTitle i),
     normalizeIdentityContent (idDescription i),
     normalizeIdentityContent (idLocation i),
     normalizeIdentityContent (idStartTimeZone i),
     serializeStructuredIdentityValue cd (idRecurrenceDuration i),
     serializeStructuredIdentityValue cd (idRecurrenceRule i),
     serializeStructuredIdentityValue cd (idExceptionDates i),
     or_else (map_option toISOString (idRecurrenceId i)) []]"

definition buildSourceEventIdentityKey :: "stored_codec \<Rightarrow> SourceEventIdentityInput \<Rightarrow> bool \<Rightarrow> string" where
  "buildSourceEventIdentityKey cd i normalizeMissingMetadata =
    cdStringify cd (SArray (map SText (identityFields cd i normalizeMissingMetadata)))"

section \<open>The difference\<close>

definition storage_identity :: "SourceEvent \<Rightarrow> string" where
  "storage_identity e =
    (if str_truthy (seSourceEventId e) then ''provider:'' @ the (seSourceEventId e)
     else ''instance:'' @ eventInstanceKey e)"

definition deduplicateIncomingEvents :: "SourceEvent list \<Rightarrow> SourceEvent list" where
  "deduplicateIncomingEvents incomingEvents =
    map snd (jsmap_of (map (\<lambda>e. (storage_identity e, e)) incomingEvents))"

definition existingIdentityInput :: "ExistingSourceEventState \<Rightarrow> string \<Rightarrow> SourceEventIdentityInput" where
  "existingIdentityInput x u =
    (let s = exStored x in
     \<lparr>startTime = startTime s, endTime = endTime s, idSourceEventId = stSourceEventId s,
      idInstanceKey = resolveExistingSourceEventInstanceKey x, idSourceEventUid = u,
      idIsAllDay = (case stIsAllDay s of None \<Rightarrow> Null | Some b \<Rightarrow> Flag b),
      idAvailability = stAvailability s, idSourceEventType = stSourceEventType s,
      idTitle = stTitle s, idDescription = stDescription s, idLocation = stLocation s,
      idStartTimeZone = stStartTimeZone s, idRecurrenceDuration = exRecurrenceDuration x,
      idRecurrenceRule = exRecurrenceRule x, idExceptionDates = exExceptionDates x,
      idRecurrenceId = stRecurrenceId s\<rparr>)"

definition incomingIdentityInput :: "SourceEvent \<Rightarrow> SourceEventIdentityInput" where
  "incomingIdentityInput e =
     \<lparr>startTime = startTime e, endTime = endTime e, idSourceEventId = seSourceEventId e,
      idInstanceKey = eventInstanceKey e, idSourceEventUid = seUid e,
      idIsAllDay = (case seIsAllDay e of None \<Rightarrow> Undefined | Some b \<Rightarrow> Flag b),
      idAvailability = seAvailability e, idSourceEventType = seSourceEventType e,
      idTitle = seTitle e, idDescription = seDescription e, idLocation = seLocation e,
      idStartTimeZone = seStartTimeZone e, idRecurrenceDuration = seRecurrenceDuration e,
      idRecurrenceRule = seRecurrenceRule e, idExceptionDates = seExceptionDates e,
      idRecurrenceId = seRecurrenceId e\<rparr>"

definition buildExistingEventIdentitySet ::
  "stored_codec \<Rightarrow> ExistingSourceEventState list \<Rightarrow> bool \<Rightarrow> string list" where
  "buildExistingEventIdentitySet cd existingEvents normalizeMissingMetadata =
    concat (map (\<lambda>x. case stSourceEventUid (exStored x) of
        None \<Rightarrow> []
      | Some u \<Rightarrow> [buildSourceEventIdentityKey cd (existingIdentityInput x u) normalizeMissingMetadata])
      existingEvents)"

definition buildSourceEventsToAdd ::
  "stored_codec \<Rightarrow> ExistingSourceEventState list \<Rightarrow> SourceEvent list \<Rightarrow> bool \<Rightarrow> SourceEvent list" where
  "buildSourceEventsToAdd cd existingEvents incomingEvents isDeltaSync =
    (let existingIdentities = buildExistingEventIdentitySet cd existingEvents isDeltaSync in
     filter (\<lambda>e. buildSourceEventIdentityKey cd (incomingIdentityInput e) isDeltaSync
         \<notin> set existingIdentities)
       (deduplicateIncomingEvents incomingEvents))"

record SourceEventDiffOptions =
  changedEventIds :: "string list"
  isDeltaSync :: bool
  cancelledEventIds :: "string list"

definition providerBackedStorageIdentities :: "SourceEvent list \<Rightarrow> string list" where
  "providerBackedStorageIdentities es =
    concat (map (\<lambda>e. if str_truthy (seSourceEventId e) then [eventInstanceKey e] else []) es)"

definition removed_by_delta ::
  "SourceEvent list \<Rightarrow> SourceEventDiffOptions \<Rightarrow> ExistingSourceEventState \<Rightarrow> bool" where
  "removed_by_delta normalized options x =
    (let s = exStored x in
     if \<not> str_truthy (stSourceEventId s) then
       if stSourceEventUid s = None then False
       else resolveExistingSourceEventInstanceKey x \<in> set (providerBackedStorageIdentities normalized)
     else
       let i = the (stSourceEventId s) in
       if i \<in> set (cancelledEventIds options) then True
       else if i \<notin> set (changedEventIds options) then False
       else i \<notin> set (incomingProviderIds normalized))"

definition removed_by_snapshot :: "SourceEvent list \<Rightarrow> ExistingSourceEventState \<Rightarrow> bool" where
  "removed_by_snapshot normalized x =
    (let s = exStored x in
     if str_truthy (stSourceEventId s) then the (stSourceEventId s) \<notin> set (incomingProviderIds normalized)
     else if stSourceEventUid s = None then False
     else let k = resolveExistingSourceEventInstanceKey x in
       if k \<in> set (providerBackedStorageIdentities normalized) then True
       else k \<notin> set (map eventInstanceKey normalized))"

definition buildSourceEventStateIdsToRemove ::
  "ExistingSourceEventState list \<Rightarrow> SourceEvent list \<Rightarrow> SourceEventDiffOptions \<Rightarrow> string list" where
  "buildSourceEventStateIdsToRemove existingEvents incomingEvents options =
    (let normalized = deduplicateIncomingEvents incomingEvents in
     map (stId \<circ> exStored)
       (filter (if isDeltaSync options then removed_by_delta normalized options
                else removed_by_snapshot normalized) existingEvents))"

end
