(* ===== verification/Event_States.thy ===== *)
theory Event_States
  imports Event_Diff
begin

text \<open>
  The stored events of one source calendar: the rows of \<open>event_states\<close> with their primary key
  and three partial unique indexes, the upserts of \<open>core/source/write-event-states.ts\<close>, the
  chunked delete of \<open>services/cron/src/utils/delete-event-states.ts\<close>, and the flush and
  transaction that \<open>services/cron/src/ingest/ingest-sources.ts\<close> gives to an ingestion.

  Every statement of the source filters by the calendar, so the model keeps the rows of that
  calendar only. The database draws a row's id: \<open>fresh\<close> is that function of the rows present.
  An abort signal may fire at any \<open>throwIfAborted\<close>: \<open>aborted\<close> says, for the state
  reached, whether it has.
\<close>

section \<open>Rows and their indexes\<close>

datatype conflict_target = PROVIDER_TARGET | LEGACY_RECURRING_TARGET | LEGACY_NON_RECURRING_TARGET

datatype index_key = SourceKey string | RecurringKey string instant | SlotKey string instant instant

definition row_key :: "StoredSourceEventState \<Rightarrow> index_key option" where
  "row_key s = (case stSourceEventId s of
      Some i \<Rightarrow> Some (SourceKey i)
    | None \<Rightarrow> (case stSourceEventUid s of
        None \<Rightarrow> None
      | Some u \<Rightarrow> (case stRecurrenceId s of
          Some r \<Rightarrow> Some (RecurringKey u r)
        | None \<Rightarrow> Some (SlotKey u (startTime s) (endTime s)))))"

fun key_target :: "index_key \<Rightarrow> conflict_target" where
  "key_target (SourceKey _) = PROVIDER_TARGET"
| "key_target (RecurringKey _ _) = LEGACY_RECURRING_TARGET"
| "key_target (SlotKey _ _ _) = LEGACY_NON_RECURRING_TARGET"

definition event_states_ok :: "StoredSourceEventState list \<Rightarrow> bool" where
  "event_states_ok rows \<longleftrightarrow> distinct (map stId rows) \<and>
    distinct (map row_key (filter (\<lambda>s. row_key s \<noteq> None) rows))"

datatype ingest_error =
    UniqueViolation | CardinalityViolation | Aborted
  | IngestBaselineMovedError int int | IngestRangeError string | IngestFailure string

section \<open>Writing rows\<close>

definition serializeOptionalJson :: "stored_codec \<Rightarrow> structured option \<Rightarrow> string option" where
  "serializeOptionalJson cd value = map_option (cdJsonStringify cd) value"

text \<open>The id is empty until the database draws one.\<close>

definition buildEventStateInsertRow :: "stored_codec \<Rightarrow> SourceEvent \<Rightarrow> StoredSourceEventState" where
  "buildEventStateInsertRow cd e =
    \<lparr>startTime = startTime e, endTime = endTime e, stId = [],
     stSourceEventUid = Some (seUid e), stSourceEventId = seSourceEventId e,
     stSourceEventType = Some (or_else (seSourceEventType e) ''default''),
     stAvailability = seAvailability e, stIsAllDay = seIsAllDay e,
     stStartTimeZone = seStartTimeZone e,
     stRecurrenceRule =
       serializeStoredIcsRecurrenceRule cd (seRecurrenceRule e) (seRecurrenceDuration e),
     stExceptionDates = serializeOptionalJson cd (seExceptionDates e),
     stRecurrenceId = seRecurrenceId e, stTitle = seTitle e,
     stDescription = seDescription e, stLocation = seLocation e\<rparr>"

definition upsert_row ::
  "(StoredSourceEventState list \<Rightarrow> string) \<Rightarrow> conflict_target \<Rightarrow> StoredSourceEventState \<Rightarrow>
    StoredSourceEventState list \<Rightarrow> ingest_error + StoredSourceEventState list" where
  "upsert_row fresh target row rows =
    (case row_key row of
       None \<Rightarrow> Inr (rows @ [row\<lparr>stId := fresh rows\<rparr>])
     | Some k \<Rightarrow>
         if Some k \<notin> set (map row_key rows) then Inr (rows @ [row\<lparr>stId := fresh rows\<rparr>])
         else if key_target k = target
         then Inr (map (\<lambda>old. if row_key old = Some k then row\<lparr>stId := stId old\<rparr> else old) rows)
         else Inl UniqueViolation)"

fun upsert_rows ::
  "(StoredSourceEventState list \<Rightarrow> string) \<Rightarrow> conflict_target \<Rightarrow> StoredSourceEventState list \<Rightarrow>
    StoredSourceEventState list \<Rightarrow> ingest_error + StoredSourceEventState list" where
  "upsert_rows fresh target [] rows = Inr rows"
| "upsert_rows fresh target (row # rest) rows = (case upsert_row fresh target row rows of
      Inl e \<Rightarrow> Inl e | Inr rows' \<Rightarrow> upsert_rows fresh target rest rows')"

text \<open>One statement may not touch the same row twice.\<close>

definition upsert_statement ::
  "(StoredSourceEventState list \<Rightarrow> string) \<Rightarrow> conflict_target \<Rightarrow> StoredSourceEventState list \<Rightarrow>
    StoredSourceEventState list \<Rightarrow> ingest_error + StoredSourceEventState list" where
  "upsert_statement fresh target batch rows =
    (if distinct (filter (\<lambda>k. k \<noteq> None) (map row_key batch))
     then upsert_rows fresh target batch rows else Inl CardinalityViolation)"

fun run_statements ::
  "('b \<Rightarrow> 'r \<Rightarrow> ingest_error + 'r) \<Rightarrow> 'b list \<Rightarrow> 'r \<Rightarrow> ingest_error + 'r" where
  "run_statements stmt [] rows = Inr rows"
| "run_statements stmt (b # bs) rows = (case stmt b rows of
      Inl e \<Rightarrow> Inl e | Inr rows' \<Rightarrow> run_statements stmt bs rows')"

definition INSERT_CHUNK_SIZE :: nat where "INSERT_CHUNK_SIZE = 1000"

definition insertEventStateRows ::
  "(StoredSourceEventState list \<Rightarrow> string) \<Rightarrow> StoredSourceEventState list \<Rightarrow> conflict_target \<Rightarrow>
    StoredSourceEventState list \<Rightarrow> ingest_error + StoredSourceEventState list" where
  "insertEventStateRows fresh newRows target rows =
    run_statements (upsert_statement fresh target) (chunks_from newRows INSERT_CHUNK_SIZE 0) rows"

definition insertEventStatesWithConflictResolution ::
  "(StoredSourceEventState list \<Rightarrow> string) \<Rightarrow> StoredSourceEventState list \<Rightarrow>
    StoredSourceEventState list \<Rightarrow> ingest_error + StoredSourceEventState list" where
  "insertEventStatesWithConflictResolution fresh newRows rows =
    (let providerRows = filter (\<lambda>r. str_truthy (stSourceEventId r)) newRows;
         legacyRows = filter (\<lambda>r. \<not> str_truthy (stSourceEventId r)) newRows;
         legacyRecurringRows = filter (\<lambda>r. stRecurrenceId r \<noteq> None) legacyRows;
         legacyNonRecurringRows = filter (\<lambda>r. stRecurrenceId r = None) legacyRows
     in case insertEventStateRows fresh providerRows PROVIDER_TARGET rows of
          Inl e \<Rightarrow> Inl e
        | Inr rows1 \<Rightarrow> (case insertEventStateRows fresh legacyRecurringRows LEGACY_RECURRING_TARGET rows1 of
            Inl e \<Rightarrow> Inl e
          | Inr rows2 \<Rightarrow> insertEventStateRows fresh legacyNonRecurringRows LEGACY_NON_RECURRING_TARGET rows2))"

definition DELETE_CHUNK_SIZE :: nat where "DELETE_CHUNK_SIZE = 5000"

definition deleteEventStatesInChunks ::
  "string list \<Rightarrow> StoredSourceEventState list \<Rightarrow> StoredSourceEventState list" where
  "deleteEventStatesInChunks eventStateIds rows =
    fold (\<lambda>chunkedIds. filter (\<lambda>s. stId s \<notin> set chunkedIds))
      (chunks_from eventStateIds DELETE_CHUNK_SIZE 0) rows"

section \<open>The flush of an ingestion\<close>

record SourceCoverage =
  cvFutureRange :: SyncRange
  cvHistoricRange :: SyncRange
  cvWindow :: SyncWindow

record IngestionChanges =
  chInserts :: "SourceEvent list"
  chDeletes :: "string list"
  chSnapshot :: "string option"
  chSyncToken :: "string option option"
  chCoverage :: "SourceCoverage option"

record source_calendar =
  scRows :: "StoredSourceEventState list"
  scStoredEventCount :: "int option"
  scSyncToken :: "string option"
  scCoverage :: "SourceCoverage option"
  scCoverageRecordedAt :: "instant option"
  scSnapshot :: "string option"
  scIngestSeq :: "int option"
  txExistingEventCount :: "int option"

text \<open>
  \<open>txExistingEventCount\<close> is the variable \<open>existingEventCount\<close> of the running transaction:
  unset when the transaction opens, set by \<open>readExistingEvents\<close>.
\<close>

type_synonym 'a calendar_eff = "(source_calendar, ingest_error, 'a) eff"

definition throwIfAborted :: "(source_calendar \<Rightarrow> bool) \<Rightarrow> unit calendar_eff" where
  "throwIfAborted aborted w = (if aborted w then (Inl Aborted, w) else (Inr (), w))"

definition update_calendar :: "(source_calendar \<Rightarrow> bool) \<Rightarrow> (source_calendar \<Rightarrow> source_calendar) \<Rightarrow> unit calendar_eff" where
  "update_calendar aborted f = eff_bind (throwIfAborted aborted) (\<lambda>_ w. throwIfAborted aborted (f w))"

definition flush_deletes :: "(source_calendar \<Rightarrow> bool) \<Rightarrow> string list \<Rightarrow> unit calendar_eff" where
  "flush_deletes aborted ids =
    (if ids = [] then eff_return ()
     else update_calendar aborted (\<lambda>w. w\<lparr>scRows := deleteEventStatesInChunks ids (scRows w)\<rparr>))"

definition flush_inserts ::
  "stored_codec \<Rightarrow> (StoredSourceEventState list \<Rightarrow> string) \<Rightarrow> (source_calendar \<Rightarrow> bool) \<Rightarrow>
    SourceEvent list \<Rightarrow> unit calendar_eff" where
  "flush_inserts cd fresh aborted inserts =
    (if inserts = [] then eff_return ()
     else eff_bind (throwIfAborted aborted) (\<lambda>_ w.
       case insertEventStatesWithConflictResolution fresh
           (map (buildEventStateInsertRow cd) inserts) (scRows w) of
         Inl e \<Rightarrow> (Inl e, w)
       | Inr rows \<Rightarrow> throwIfAborted aborted (w\<lparr>scRows := rows\<rparr>)))"

definition storedEventCountAfter :: "int \<Rightarrow> IngestionChanges \<Rightarrow> int" where
  "storedEventCountAfter existingEventCount changes =
    max 0 (existingEventCount + int (length (chInserts changes)) - int (length (chDeletes changes)))"

definition record_coverage :: "instant \<Rightarrow> SourceCoverage \<Rightarrow> source_calendar \<Rightarrow> source_calendar" where
  "record_coverage t coverage w =
    (if scCoverageRecordedAt w = None \<or> scCoverage w = None \<or> scCoverage w \<noteq> Some coverage
     then w\<lparr>scCoverage := Some coverage, scCoverageRecordedAt := Some t\<rparr> else w)"

definition ingest_flush ::
  "stored_codec \<Rightarrow> (StoredSourceEventState list \<Rightarrow> string) \<Rightarrow> (source_calendar \<Rightarrow> bool) \<Rightarrow> instant \<Rightarrow>
    IngestionChanges \<Rightarrow> unit calendar_eff" where
  "ingest_flush cd fresh aborted t changes =
    eff_bind (throwIfAborted aborted) (\<lambda>_.
    eff_bind (flush_deletes aborted (chDeletes changes)) (\<lambda>_.
    eff_bind (flush_inserts cd fresh aborted (chInserts changes)) (\<lambda>_.
    eff_bind (\<lambda>w. case txExistingEventCount w of None \<Rightarrow> eff_return () w
      | Some n \<Rightarrow> update_calendar aborted
          (\<lambda>w. w\<lparr>scStoredEventCount := Some (storedEventCountAfter n changes)\<rparr>) w) (\<lambda>_.
    eff_bind (case chSyncToken changes of None \<Rightarrow> eff_return ()
      | Some token \<Rightarrow> update_calendar aborted (\<lambda>w. w\<lparr>scSyncToken := token\<rparr>)) (\<lambda>_.
    eff_bind (case chCoverage changes of None \<Rightarrow> eff_return ()
      | Some coverage \<Rightarrow> update_calendar aborted (record_coverage t coverage)) (\<lambda>_.
    eff_bind (case chSnapshot changes of None \<Rightarrow> eff_return ()
      | Some snapshot \<Rightarrow> update_calendar aborted (\<lambda>w. w\<lparr>scSnapshot := Some snapshot\<rparr>)) (\<lambda>_.
    update_calendar aborted (\<lambda>w. w\<lparr>scIngestSeq := map_option (\<lambda>n. n + 1) (scIngestSeq w)\<rparr>))))))))"

definition readExistingEvents :: "(source_calendar \<Rightarrow> bool) \<Rightarrow> StoredSourceEventState list calendar_eff" where
  "readExistingEvents aborted =
    eff_bind (throwIfAborted aborted) (\<lambda>_.
    eff_bind (throwIfAborted aborted) (\<lambda>_ w.
      (Inr (scRows w), w\<lparr>txExistingEventCount := Some (int (length (scRows w)))\<rparr>)))"

section \<open>The indexes are kept\<close>

definition fresh_ok :: "(StoredSourceEventState list \<Rightarrow> string) \<Rightarrow> bool" where
  "fresh_ok fresh \<longleftrightarrow> (\<forall>rows. fresh rows \<notin> set (map stId rows))"

lemma row_key_id [simp]: "row_key (s\<lparr>stId := i\<rparr>) = row_key s"
  by (simp add: row_key_def split: option.splits)

lemma upsert_row_ok:
  assumes "event_states_ok rows" "upsert_row fresh target row rows = Inr rows'" "fresh_ok fresh"
  shows "event_states_ok rows'"
proof -
  have new: "event_states_ok (rows @ [row\<lparr>stId := fresh rows\<rparr>])"
    if "row_key row \<notin> set (map row_key rows) \<or> row_key row = None"
    using assms(1,3) that by (auto simp: event_states_ok_def fresh_ok_def)
  have "map stId (map (\<lambda>old. if row_key old = k then row\<lparr>stId := stId old\<rparr> else old) rows) = map stId rows" for k
    by (induction rows) auto
  moreover have "map row_key (map (\<lambda>old. if row_key old = row_key row then row\<lparr>stId := stId old\<rparr> else old) rows) =
      map row_key rows"
    by (induction rows) auto
  moreover have "map row_key (filter (\<lambda>s. row_key s \<noteq> None) xs) = filter (\<lambda>k. k \<noteq> None) (map row_key xs)" for xs
    by (simp add: filter_map comp_def)
  ultimately have "event_states_ok (map (\<lambda>old. if row_key old = row_key row then row\<lparr>stId := stId old\<rparr> else old) rows)"
    using assms(1) unfolding event_states_ok_def by metis
  with assms(2) new show ?thesis
    by (auto simp: upsert_row_def split: option.splits if_splits)
qed

lemma upsert_rows_ok:
  "upsert_rows fresh target batch rows = Inr rows' \<Longrightarrow> event_states_ok rows \<Longrightarrow> fresh_ok fresh \<Longrightarrow>
    event_states_ok rows'"
  by (induction batch arbitrary: rows) (auto split: sum.splits dest: upsert_row_ok)

lemma run_statements_invariant:
  assumes "run_statements stmt bs rows = Inr rows'" "P rows"
    and "\<And>b r r'. stmt b r = Inr r' \<Longrightarrow> P r \<Longrightarrow> P r'"
  shows "P rows'"
  using assms by (induction bs arbitrary: rows) (auto split: sum.splits)

lemma insertEventStateRows_ok:
  "insertEventStateRows fresh newRows target rows = Inr rows' \<Longrightarrow> event_states_ok rows \<Longrightarrow>
    fresh_ok fresh \<Longrightarrow> event_states_ok rows'"
  unfolding insertEventStateRows_def
  by (erule run_statements_invariant) (auto simp: upsert_statement_def split: if_splits intro: upsert_rows_ok)

lemma insert_conflict_ok:
  "insertEventStatesWithConflictResolution fresh newRows rows = Inr rows' \<Longrightarrow> event_states_ok rows \<Longrightarrow>
    fresh_ok fresh \<Longrightarrow> event_states_ok rows'"
  by (auto simp: insertEventStatesWithConflictResolution_def Let_def split: sum.splits
      dest: insertEventStateRows_ok)

lemma deleteEventStatesInChunks_eq:
  "deleteEventStatesInChunks ids rows = filter (\<lambda>s. stId s \<notin> set ids) rows"
proof -
  have "fold (\<lambda>c. filter (\<lambda>s. stId s \<notin> set c)) cs rows = filter (\<lambda>s. stId s \<notin> set (concat cs)) rows"
    for cs and rows :: "StoredSourceEventState list"
    by (induction cs arbitrary: rows) (auto intro: filter_cong)
  note this [of "chunks_from ids DELETE_CHUNK_SIZE 0" rows]
  also have "concat (chunks_from ids DELETE_CHUNK_SIZE 0) = ids"
    by (simp add: concat_chunks_from DELETE_CHUNK_SIZE_def)
  finally show ?thesis by (simp add: deleteEventStatesInChunks_def)
qed

lemma delete_ok: "event_states_ok rows \<Longrightarrow> event_states_ok (deleteEventStatesInChunks ids rows)"
  unfolding deleteEventStatesInChunks_eq event_states_ok_def
  by (auto simp: distinct_map_filter filter_filter distinct_map inj_on_def)

end
