(* ===== verification/Ingest.thy ===== *)
theory Ingest
  imports Event_States
begin

text \<open>
  The ingestion of one source calendar (\<open>core/sync-engine/ingest.ts\<close>) and the transaction that
  \<open>services/cron/src/ingest/ingest-sources.ts\<close> runs it in. The provider's fetch, the currency
  probe and the persistence are effects on a world; the recurrence budget of
  \<open>core/events/recurrence-materializer.ts\<close> is the argument \<open>overBudget\<close>. The fields of
  the wide event that later code reads, the outcome and whether a flush happened, are kept; the
  other telemetry fields are left out.
\<close>

section \<open>Data\<close>

record FetchEventsResult =
  frEvents :: "SourceEvent list"
  frChangedEventIds :: "string list"
  frCancelledEventIds :: "string list"
  frSnapshot :: "string option"
  frNextSyncToken :: "string option"
  frIsDeltaSync :: bool
  frFullSyncRequired :: bool
  frUnchanged :: bool
  frUnsupportedEventUids :: "string list"
  frSyncWindow :: "SyncWindow option"
  frCoverage :: "SourceCoverage option"

record IngestionResult =
  eventsAdded :: nat
  eventsRemoved :: nat

definition EMPTY_INGESTION :: IngestionResult where
  "EMPTY_INGESTION = \<lparr>eventsAdded = 0, eventsRemoved = 0\<rparr>"

record 'w ingest_state =
  igWorld :: 'w
  igProbePending :: bool
  igOutcome :: "string option"
  igFlushed :: bool

type_synonym ('w, 'a) ingest_eff = "('w ingest_state, ingest_error, 'a) eff"

definition lift_io :: "('w, ingest_error, 'a) eff \<Rightarrow> ('w, 'a) ingest_eff" where
  "lift_io m s = (case m (igWorld s) of (v, w) \<Rightarrow> (v, s\<lparr>igWorld := w\<rparr>))"

definition set_outcome :: "string \<Rightarrow> ('w, unit) ingest_eff" where
  "set_outcome x s = (Inr (), s\<lparr>igOutcome := Some x\<rparr>)"

definition mark_flushed :: "('w, unit) ingest_eff" where
  "mark_flushed s = (Inr (), s\<lparr>igFlushed := True\<rparr>)"

record 'w IngestionPersistence =
  ipRead :: "('w, ingest_error, StoredSourceEventState list) eff"
  ipFlush :: "IngestionChanges \<Rightarrow> ('w, ingest_error, unit) eff"

record 'w IngestionPersistenceWork =
  iwRun :: "'w IngestionPersistence \<Rightarrow> ('w, IngestionResult) ingest_eff"
  iwPreflight :: "('w, IngestionResult option) ingest_eff"

datatype 'w persistence_option =
    Direct "'w IngestionPersistence"
  | Transactional "'w IngestionPersistenceWork \<Rightarrow> ('w, IngestionResult) ingest_eff"

record 'w IngestSourceOptions =
  ioCalendarId :: string
  ioFetchEvents :: "('w, ingest_error, FetchEventsResult) eff"
  ioIsCurrent :: "('w, ingest_error, bool) eff option"
  ioPersistence :: "'w persistence_option"

definition resolvePersistenceTransaction ::
  "'w IngestSourceOptions \<Rightarrow> 'w IngestionPersistenceWork \<Rightarrow> ('w, IngestionResult) ingest_eff" where
  "resolvePersistenceTransaction options = (case ioPersistence options of
      Direct persistence \<Rightarrow> (\<lambda>work. iwRun work persistence)
    | Transactional withPersistenceTransaction \<Rightarrow> withPersistenceTransaction)"

section \<open>The steps of \<open>ingestSource\<close>\<close>

definition getNonRecurringStoredEventIdsOutsideWindow ::
  "ExistingSourceEventState list \<Rightarrow> SyncWindow option \<Rightarrow> bool \<Rightarrow> string list" where
  "getNonRecurringStoredEventIdsOutsideWindow events window delta =
    (case window of
       None \<Rightarrow> []
     | Some w \<Rightarrow> if \<not> delta then []
         else map (stId \<circ> exStored) (filter (\<lambda>x. exRecurrenceRule x = None \<and>
           \<not> overlapsTimeWindow (startTime (exStored x)) (endTime (exStored x)) (timeMin w) (timeMax w)) events))"

datatype CurrencyProbeResult = Current | CurrencyUnconfirmed | Superseded

fun probe_name :: "CurrencyProbeResult \<Rightarrow> string" where
  "probe_name Current = ''current''"
| "probe_name CurrencyUnconfirmed = ''currency-unconfirmed''"
| "probe_name Superseded = ''superseded''"

definition probeCurrency ::
  "('w, ingest_error, bool) eff option \<Rightarrow> ('w, CurrencyProbeResult) ingest_eff" where
  "probeCurrency isCurrent s = (case isCurrent of
      None \<Rightarrow> (Inr Current, s)
    | Some probe \<Rightarrow> (case lift_io probe s of
        (Inr b, s') \<Rightarrow> (Inr (if b then Current else Superseded), s')
      | (Inl e, s') \<Rightarrow> (Inr CurrencyUnconfirmed, s')))"

definition supportedSourceEvents :: "FetchEventsResult \<Rightarrow> SourceEvent list" where
  "supportedSourceEvents fetched =
    filter (\<lambda>e. seUid e \<notin> set (frUnsupportedEventUids fetched)) (frEvents fetched)"

definition withinRecurrenceBudget ::
  "(string \<Rightarrow> SourceEvent list \<Rightarrow> SyncWindow \<Rightarrow> SourceEvent list) \<Rightarrow> string \<Rightarrow> FetchEventsResult \<Rightarrow>
    ingest_error + SourceEvent list" where
  "withinRecurrenceBudget overBudget calendarId fetched =
    (let sourceEvents = supportedSourceEvents fetched in
     if list_ex (\<lambda>e. seRecurrenceRule e \<noteq> None) sourceEvents then
       (case frSyncWindow fetched of
          None \<Rightarrow> Inl (IngestRangeError ''Recurring source ingestion requires an explicit sync window'')
        | Some window \<Rightarrow>
            let overBudgetUids = map seUid (overBudget calendarId sourceEvents window)
            in Inr (filter (\<lambda>e. seUid e \<notin> set overBudgetUids) sourceEvents))
     else Inr sourceEvents)"

definition persistTimePreflight ::
  "('w, ingest_error, bool) eff option \<Rightarrow> ('w, IngestionResult option) ingest_eff" where
  "persistTimePreflight isCurrent =
    eff_bind (\<lambda>s. (Inr (), s\<lparr>igProbePending := False\<rparr>)) (\<lambda>_.
    eff_bind (probeCurrency isCurrent) (\<lambda>currency.
      if currency = Current then eff_return None
      else eff_bind (set_outcome (probe_name currency)) (\<lambda>_. eff_return (Some EMPTY_INGESTION))))"

definition full_sync_changes :: IngestionChanges where
  "full_sync_changes = \<lparr>chInserts = [], chDeletes = [], chSnapshot = None,
    chSyncToken = Some None, chCoverage = None\<rparr>"

definition flush_full_sync :: "'w IngestionPersistence \<Rightarrow> ('w, IngestionResult) ingest_eff" where
  "flush_full_sync persistence =
    eff_bind (lift_io (ipFlush persistence full_sync_changes)) (\<lambda>_.
    eff_bind mark_flushed (\<lambda>_. eff_bind (set_outcome ''full-sync-required'') (\<lambda>_.
      eff_return EMPTY_INGESTION)))"

text \<open>\<open>[...new Set(ids)]\<close> keeps the first occurrence of every id.\<close>

definition unique_ids :: "string list \<Rightarrow> string list" where
  "unique_ids ids = rev (remdups (rev ids))"

definition ingest_additions ::
  "stored_codec \<Rightarrow> FetchEventsResult \<Rightarrow> SourceEvent list \<Rightarrow> StoredSourceEventParseResult \<Rightarrow> SourceEvent list" where
  "ingest_additions cd fetched sourceEvents parsed =
    buildSourceEventsToAdd cd (prEvents parsed) sourceEvents (frIsDeltaSync fetched)"

definition ingest_removals ::
  "FetchEventsResult \<Rightarrow> StoredSourceEventParseResult \<Rightarrow> string list" where
  "ingest_removals fetched parsed =
    unique_ids (buildInvalidStoredEventIdsToRemove (prFailures parsed) (frEvents fetched)
      @ getNonRecurringStoredEventIdsOutsideWindow (prEvents parsed) (frSyncWindow fetched) (frIsDeltaSync fetched)
      @ buildSourceEventStateIdsToRemove (prEvents parsed) (frEvents fetched)
          \<lparr>changedEventIds = frChangedEventIds fetched, isDeltaSync = frIsDeltaSync fetched,
           cancelledEventIds = frCancelledEventIds fetched\<rparr>)"

definition in_sync_changes :: "FetchEventsResult \<Rightarrow> IngestionChanges" where
  "in_sync_changes fetched =
    \<lparr>chInserts = [], chDeletes = [], chSnapshot = frSnapshot fetched,
     chSyncToken = (if str_truthy (frNextSyncToken fetched) then Some (frNextSyncToken fetched) else None),
     chCoverage = frCoverage fetched\<rparr>"

definition ingestion_changes :: "FetchEventsResult \<Rightarrow> SourceEvent list \<Rightarrow> string list \<Rightarrow> IngestionChanges" where
  "ingestion_changes fetched additions removals =
    \<lparr>chInserts = additions, chDeletes = removals, chSnapshot = frSnapshot fetched,
     chSyncToken = (case frNextSyncToken fetched of None \<Rightarrow> None | Some token \<Rightarrow> Some (Some token)),
     chCoverage = frCoverage fetched\<rparr>"

definition persist_difference ::
  "stored_codec \<Rightarrow> FetchEventsResult \<Rightarrow> SourceEvent list \<Rightarrow> 'w IngestionPersistence \<Rightarrow>
    StoredSourceEventParseResult \<Rightarrow> ('w, IngestionResult) ingest_eff" where
  "persist_difference cd fetched sourceEvents persistence parsed =
    (let eventsToAdd = ingest_additions cd fetched sourceEvents parsed;
         eventStateIdsToRemove = ingest_removals fetched parsed
     in if eventsToAdd = [] \<and> eventStateIdsToRemove = [] then
          if str_truthy (frNextSyncToken fetched) \<or> frSnapshot fetched \<noteq> None \<or> frCoverage fetched \<noteq> None then
            eff_bind (lift_io (ipFlush persistence (in_sync_changes fetched))) (\<lambda>_.
            eff_bind mark_flushed (\<lambda>_. eff_bind (set_outcome ''in-sync'') (\<lambda>_.
              eff_return EMPTY_INGESTION)))
          else eff_bind (set_outcome ''in-sync'') (\<lambda>_. eff_return EMPTY_INGESTION)
        else
          eff_bind (lift_io (ipFlush persistence
            (ingestion_changes fetched eventsToAdd eventStateIdsToRemove))) (\<lambda>_.
          eff_bind mark_flushed (\<lambda>_. eff_bind (set_outcome ''success'') (\<lambda>_.
            eff_return \<lparr>eventsAdded = length eventsToAdd,
              eventsRemoved = length eventStateIdsToRemove\<rparr>))))"

definition persistenceWork ::
  "stored_codec \<Rightarrow> ('w, ingest_error, bool) eff option \<Rightarrow> FetchEventsResult \<Rightarrow> SourceEvent list \<Rightarrow>
    'w IngestionPersistence \<Rightarrow> ('w, IngestionResult) ingest_eff" where
  "persistenceWork cd isCurrent fetched sourceEvents persistence =
    eff_bind (\<lambda>s. if igProbePending s then persistTimePreflight isCurrent s else (Inr None, s)) (\<lambda>superseded.
      case superseded of
        Some result \<Rightarrow> eff_return result
      | None \<Rightarrow>
          if frUnchanged fetched then
            eff_bind (set_outcome ''unchanged'') (\<lambda>_. eff_return EMPTY_INGESTION)
          else if frFullSyncRequired fetched then flush_full_sync persistence
          else eff_bind (lift_io (ipRead persistence)) (\<lambda>storedEvents.
            let parsed = parseStoredSourceEventStatesRecoveringInvalid cd storedEvents in
            if frIsDeltaSync fetched \<and> prFailures parsed \<noteq> [] then flush_full_sync persistence
            else persist_difference cd fetched sourceEvents persistence parsed))"

definition ingestSource ::
  "stored_codec \<Rightarrow> (string \<Rightarrow> SourceEvent list \<Rightarrow> SyncWindow \<Rightarrow> SourceEvent list) \<Rightarrow>
    'w IngestSourceOptions \<Rightarrow> ('w, IngestionResult) ingest_eff" where
  "ingestSource cd overBudget options =
    (\<lambda>s. case eff_bind (lift_io (ioFetchEvents options)) (\<lambda>fetched.
      case withinRecurrenceBudget overBudget (ioCalendarId options) fetched of
        Inl e \<Rightarrow> eff_throw e
      | Inr sourceEvents \<Rightarrow>
          eff_bind (probeCurrency (ioIsCurrent options)) (\<lambda>currency.
            if currency \<noteq> Current
            then eff_bind (set_outcome (probe_name currency)) (\<lambda>_. eff_return EMPTY_INGESTION)
            else eff_bind (\<lambda>s. (Inr (), s\<lparr>igProbePending := True\<rparr>)) (\<lambda>_.
              resolvePersistenceTransaction options
                \<lparr>iwRun = persistenceWork cd (ioIsCurrent options) fetched sourceEvents,
                 iwPreflight = persistTimePreflight (ioIsCurrent options)\<rparr>)))
        (s\<lparr>igProbePending := False, igOutcome := None, igFlushed := False\<rparr>) of
      (Inr r, s') \<Rightarrow> (Inr r, s')
    | (Inl e, s') \<Rightarrow> (Inl e, s'\<lparr>igOutcome := Some ''error''\<rparr>))"

section \<open>The transaction of the ingestion service\<close>

definition calendar_persistence ::
  "stored_codec \<Rightarrow> (StoredSourceEventState list \<Rightarrow> string) \<Rightarrow> (source_calendar \<Rightarrow> bool) \<Rightarrow> instant \<Rightarrow>
    source_calendar IngestionPersistence" where
  "calendar_persistence cd fresh aborted t =
    \<lparr>ipRead = readExistingEvents aborted, ipFlush = ingest_flush cd fresh aborted t\<rparr>"

definition check_baseline :: "(source_calendar \<Rightarrow> bool) \<Rightarrow> int \<Rightarrow> unit calendar_eff" where
  "check_baseline aborted baselineIngestSeq =
    eff_bind (throwIfAborted aborted) (\<lambda>_ w.
      case scIngestSeq w of
        Some storedIngestSeq \<Rightarrow>
          if storedIngestSeq \<noteq> baselineIngestSeq
          then (Inl (IngestBaselineMovedError baselineIngestSeq storedIngestSeq), w) else (Inr (), w)
      | None \<Rightarrow> (Inr (), w))"

text \<open>A transaction whose callback throws leaves the database as it was.\<close>

definition createIngestionPersistenceTransaction ::
  "stored_codec \<Rightarrow> (StoredSourceEventState list \<Rightarrow> string) \<Rightarrow> (source_calendar \<Rightarrow> bool) \<Rightarrow> instant \<Rightarrow> int \<Rightarrow>
    source_calendar IngestionPersistenceWork \<Rightarrow> (source_calendar, IngestionResult) ingest_eff" where
  "createIngestionPersistenceTransaction cd fresh aborted t baselineIngestSeq work =
    eff_bind (iwPreflight work) (\<lambda>prepared.
      case prepared of
        Some result \<Rightarrow> eff_return result
      | None \<Rightarrow> (\<lambda>s. case
          eff_bind (lift_io (check_baseline aborted baselineIngestSeq)) (\<lambda>_.
          eff_bind (iwRun work (calendar_persistence cd fresh aborted t)) (\<lambda>result.
          eff_bind (lift_io (throwIfAborted aborted)) (\<lambda>_. eff_return result)))
          (s\<lparr>igWorld := (igWorld s)\<lparr>txExistingEventCount := None\<rparr>\<rparr>) of
            (Inr r, s') \<Rightarrow> (Inr r, s')
          | (Inl e, s') \<Rightarrow> (Inl e, s'\<lparr>igWorld := igWorld s\<rparr>)))"

end
