(* ===== verification/Ingest_Correct.thy ===== *)
theory Ingest_Correct
  imports Ingest
begin

text \<open>
  Correctness of an ingestion: what the upserts leave in the table, that a stored event reads
  back with the identity it was stored under, that ingesting a snapshot a second time changes
  nothing, that a failing run leaves the calendar untouched, and which rows a run may remove.
\<close>

section \<open>Deduplication\<close>

lemma dedup_distinct: "distinct (map storage_identity (deduplicateIncomingEvents es))"
proof -
  let ?m = "jsmap_of (map (\<lambda>e. (storage_identity e, e)) es)"
  have "map storage_identity (map snd ?m) = map fst ?m"
  proof (rule nth_equalityI)
    fix i assume i: "i < length (map storage_identity (map snd ?m))"
    then have "(fst (?m ! i), snd (?m ! i)) \<in> set ?m" by simp
    then have "map_of ?m (fst (?m ! i)) = Some (snd (?m ! i))"
      by (rule map_of_is_SomeI [OF distinct_jsmap_of])
    from map_of_jsmap_of_keyed_Some [OF this] have "storage_identity (snd (?m ! i)) = fst (?m ! i)" ..
    with i show "map storage_identity (map snd ?m) ! i = map fst ?m ! i" by simp
  qed simp
  then show ?thesis
    unfolding deduplicateIncomingEvents_def using distinct_jsmap_of by metis
qed

lemma dedup_subset: "set (deduplicateIncomingEvents es) \<subseteq> set es"
proof
  fix e assume "e \<in> set (deduplicateIncomingEvents es)"
  then obtain k where "(k, e) \<in> set (jsmap_of (map (\<lambda>e. (storage_identity e, e)) es))"
    by (auto simp: deduplicateIncomingEvents_def)
  then have "map_of (jsmap_of (map (\<lambda>e. (storage_identity e, e)) es)) k = Some e"
    by (rule map_of_is_SomeI [OF distinct_jsmap_of])
  from map_of_jsmap_of_keyed_Some [OF this] show "e \<in> set es" ..
qed

lemma dedup_covers:
  assumes "e \<in> set es"
  shows "\<exists>d \<in> set (deduplicateIncomingEvents es). storage_identity d = storage_identity e"
proof -
  let ?m = "jsmap_of (map (\<lambda>e. (storage_identity e, e)) es)"
  obtain d where d: "map_of ?m (storage_identity e) = Some d"
    using assms map_of_jsmap_of_keyed_None [of storage_identity es "storage_identity e"]
    by (cases "map_of ?m (storage_identity e)") auto
  then have "d \<in> set (deduplicateIncomingEvents es)"
    by (auto simp: deduplicateIncomingEvents_def dest!: map_of_SomeD intro: rev_image_eqI)
  with map_of_jsmap_of_keyed_Some [OF d] show ?thesis by blast
qed

lemma storage_identity_inj:
  "distinct (map storage_identity es) \<Longrightarrow> d \<in> set es \<Longrightarrow> e \<in> set es \<Longrightarrow>
    storage_identity d = storage_identity e \<Longrightarrow> d = e"
  by (simp add: distinct_map inj_on_def)

section \<open>Upserts\<close>

text \<open>The table after a batch: rows of other keys stay, and every row of the batch is stored.\<close>

definition merged ::
  "StoredSourceEventState list \<Rightarrow> StoredSourceEventState list \<Rightarrow> StoredSourceEventState list \<Rightarrow> bool" where
  "merged batch rows rows' \<longleftrightarrow>
    (\<forall>s \<in> set rows'. s \<in> set rows \<and> row_key s \<notin> row_key ` set batch \<or>
      (\<exists>b \<in> set batch. \<exists>i. s = b\<lparr>stId := i\<rparr>)) \<and>
    (\<forall>s \<in> set rows. row_key s \<notin> row_key ` set batch \<longrightarrow> s \<in> set rows') \<and>
    (\<forall>b \<in> set batch. \<exists>i. b\<lparr>stId := i\<rparr> \<in> set rows')"

lemma merged_refl: "merged [] rows rows"
  by (simp add: merged_def)

lemma stId_update_twice [simp]: "(b\<lparr>stId := i\<rparr>)\<lparr>stId := j\<rparr> = b\<lparr>stId := j\<rparr>"
  by simp

lemma merged_append:
  assumes "merged a r r1" "merged b r1 r2" "row_key ` set a \<inter> row_key ` set b = {}"
  shows "merged (a @ b) r r2"
  unfolding merged_def
proof (intro conjI ballI impI)
  fix s assume "s \<in> set r2"
  then consider "s \<in> set r1" "row_key s \<notin> row_key ` set b" | "\<exists>x \<in> set b. \<exists>i. s = x\<lparr>stId := i\<rparr>"
    using assms(2) unfolding merged_def by blast
  then show "s \<in> set r \<and> row_key s \<notin> row_key ` set (a @ b) \<or>
      (\<exists>x \<in> set (a @ b). \<exists>i. s = x\<lparr>stId := i\<rparr>)"
    using assms(1) unfolding merged_def by cases (auto simp: image_Un)
next
  fix s assume "s \<in> set r" "row_key s \<notin> row_key ` set (a @ b)"
  then show "s \<in> set r2" using assms(1,2) unfolding merged_def by (auto simp: image_Un)
next
  fix x assume "x \<in> set (a @ b)"
  then consider "x \<in> set b" | "x \<in> set a" by auto
  then show "\<exists>i. x\<lparr>stId := i\<rparr> \<in> set r2"
  proof cases
    case 1
    then show ?thesis using assms(2) unfolding merged_def by blast
  next
    case 2
    then obtain i where i: "x\<lparr>stId := i\<rparr> \<in> set r1" using assms(1) unfolding merged_def by blast
    have "row_key (x\<lparr>stId := i\<rparr>) \<notin> row_key ` set b" using 2 assms(3) by auto
    with i assms(2) show ?thesis unfolding merged_def by blast
  qed
qed

lemma upsert_row_merged:
  assumes "row_key row = Some k" "key_target k = target"
  shows "\<exists>rows'. upsert_row fresh target row rows = Inr rows' \<and> merged [row] rows rows'"
proof (cases "Some k \<in> set (map row_key rows)")
  case True
  then obtain old where "old \<in> set rows" "row_key old = Some k" by auto
  then have "\<exists>i. row\<lparr>stId := i\<rparr> \<in> set (map (\<lambda>old. if row_key old = Some k then row\<lparr>stId := stId old\<rparr> else old) rows)"
    by (intro exI [of _ "stId old"]) (auto intro!: rev_image_eqI)
  with True assms show ?thesis by (auto simp: upsert_row_def merged_def split: if_splits)
next
  case False
  with assms show ?thesis by (auto simp: upsert_row_def merged_def image_iff)
qed

lemma upsert_rows_merged:
  assumes "distinct (map row_key batch)"
    and "\<And>b. b \<in> set batch \<Longrightarrow> \<exists>k. row_key b = Some k \<and> key_target k = target"
  shows "\<exists>rows'. upsert_rows fresh target batch rows = Inr rows' \<and> merged batch rows rows'"
  using assms
proof (induction batch arbitrary: rows)
  case Nil
  then show ?case by (simp add: merged_refl)
next
  case (Cons b bs)
  obtain k where k: "row_key b = Some k" "key_target k = target" using Cons.prems(2) by auto
  from upsert_row_merged [OF this] obtain r1 where
    r1: "upsert_row fresh target b rows = Inr r1" "merged [b] rows r1" by blast
  have "\<exists>rows'. upsert_rows fresh target bs r1 = Inr rows' \<and> merged bs r1 rows'"
    using Cons.prems by (intro Cons.IH) auto
  then obtain r2 where r2: "upsert_rows fresh target bs r1 = Inr r2" "merged bs r1 r2" by blast
  from Cons.prems(1) have "row_key ` set [b] \<inter> row_key ` set bs = {}" by auto
  from merged_append [OF r1(2) r2(2) this] r1 r2 show ?case by simp
qed

lemma run_statements_merged:
  assumes "distinct (map row_key (concat batches))"
    and "\<And>b. b \<in> set (concat batches) \<Longrightarrow> \<exists>k. row_key b = Some k \<and> key_target k = target"
  shows "\<exists>rows'. run_statements (upsert_statement fresh target) batches rows = Inr rows' \<and>
    merged (concat batches) rows rows'"
  using assms
proof (induction batches arbitrary: rows)
  case Nil
  then show ?case by (simp add: merged_refl)
next
  case (Cons b bs)
  have d: "distinct (map row_key b)" "row_key ` set b \<inter> row_key ` set (concat bs) = {}"
    using Cons.prems(1) by auto
  obtain r1 where r1: "upsert_rows fresh target b rows = Inr r1" "merged b rows r1"
    using upsert_rows_merged [OF d(1), of target fresh rows] Cons.prems(2) by auto
  have "\<exists>rows'. run_statements (upsert_statement fresh target) bs r1 = Inr rows' \<and>
      merged (concat bs) r1 rows'"
    using Cons.prems by (intro Cons.IH) auto
  then obtain r2 where r2: "run_statements (upsert_statement fresh target) bs r1 = Inr r2"
    "merged (concat bs) r1 r2" by blast
  have "upsert_statement fresh target b rows = Inr r1"
    using r1(1) d(1) by (simp add: upsert_statement_def)
  with merged_append [OF r1(2) r2(2) d(2)] r2(1) show ?case by simp
qed

lemma insertEventStateRows_merged:
  assumes "distinct (map row_key batch)"
    and "\<And>b. b \<in> set batch \<Longrightarrow> \<exists>k. row_key b = Some k \<and> key_target k = target"
  shows "\<exists>rows'. insertEventStateRows fresh batch target rows = Inr rows' \<and> merged batch rows rows'"
  using run_statements_merged [of "chunks_from batch INSERT_CHUNK_SIZE 0"] assms
  by (simp add: insertEventStateRows_def concat_chunks_from INSERT_CHUNK_SIZE_def del: set_concat)

lemma merged_cong: "set a = set b \<Longrightarrow> merged a r r' = merged b r r'"
  by (simp add: merged_def)

lemma insert_conflict_merged:
  assumes "distinct (map row_key batch)"
    and "\<And>b. b \<in> set batch \<Longrightarrow> stSourceEventId b \<noteq> Some [] \<and> stSourceEventUid b \<noteq> None"
  shows "\<exists>rows'. insertEventStatesWithConflictResolution fresh batch rows = Inr rows' \<and>
    merged batch rows rows'"
proof -
  let ?p = "filter (\<lambda>r. str_truthy (stSourceEventId r)) batch"
  let ?l = "filter (\<lambda>r. \<not> str_truthy (stSourceEventId r)) batch"
  let ?lr = "filter (\<lambda>r. stRecurrenceId r \<noteq> None) ?l" and ?ln = "filter (\<lambda>r. stRecurrenceId r = None) ?l"
  have d: "distinct (map row_key ?p)" "distinct (map row_key ?lr)" "distinct (map row_key ?ln)"
    using assms(1) by (simp_all add: distinct_map_filter)
  have disj: "row_key ` set ?p \<inter> row_key ` set ?lr = {}"
    "row_key ` set (?p @ ?lr) \<inter> row_key ` set ?ln = {}"
    using assms(1) by (auto simp: distinct_map inj_on_def)
  have t: "\<exists>k. row_key b = Some k \<and> key_target k = PROVIDER_TARGET" if "b \<in> set ?p" for b
    using that by (auto simp: row_key_def elim!: str_truthyE)
  have tl: "stSourceEventId b = None \<and> (\<exists>u. stSourceEventUid b = Some u)" if "b \<in> set ?l" for b
    using that assms(2) [of b] by (cases "stSourceEventId b") auto
  have tr: "\<exists>k. row_key b = Some k \<and> key_target k = LEGACY_RECURRING_TARGET" if "b \<in> set ?lr" for b
  proof -
    from that have "b \<in> set ?l" "stRecurrenceId b \<noteq> None" by auto
    with tl [OF this(1)] show ?thesis by (auto simp: row_key_def)
  qed
  have tn: "\<exists>k. row_key b = Some k \<and> key_target k = LEGACY_NON_RECURRING_TARGET" if "b \<in> set ?ln" for b
  proof -
    from that have "b \<in> set ?l" "stRecurrenceId b = None" by auto
    with tl [OF this(1)] show ?thesis by (auto simp: row_key_def)
  qed
  obtain r1 where r1: "insertEventStateRows fresh ?p PROVIDER_TARGET rows = Inr r1" "merged ?p rows r1"
    using insertEventStateRows_merged [OF d(1) t, of fresh rows] by auto
  obtain r2 where r2: "insertEventStateRows fresh ?lr LEGACY_RECURRING_TARGET r1 = Inr r2" "merged ?lr r1 r2"
    using insertEventStateRows_merged [OF d(2) tr, of fresh r1] by auto
  obtain r3 where r3: "insertEventStateRows fresh ?ln LEGACY_NON_RECURRING_TARGET r2 = Inr r3" "merged ?ln r2 r3"
    using insertEventStateRows_merged [OF d(3) tn, of fresh r2] by auto
  have "merged ((?p @ ?lr) @ ?ln) rows r3"
    using merged_append [OF merged_append [OF r1(2) r2(2) disj(1)] r3(2) disj(2)] .
  moreover have "set ((?p @ ?lr) @ ?ln) = set batch" by auto
  ultimately have "merged batch rows r3" using merged_cong by blast
  with r1 r2 r3 show ?thesis by (simp add: insertEventStatesWithConflictResolution_def Let_def)
qed

section \<open>Reading stored events back\<close>

definition storable_rule :: "stored_codec \<Rightarrow> SourceEvent \<Rightarrow> bool" where
  "storable_rule cd e = (case seRecurrenceRule e of
      None \<Rightarrow> seRecurrenceDuration e = None
    | Some r \<Rightarrow> (case cdJsonParse cd (cdJsonStringify cd (spread_duration r (seRecurrenceDuration e))) of
        None \<Rightarrow> False
      | Some p \<Rightarrow> (case cdRuleSchema cd p of
          Inl _ \<Rightarrow> False
        | Inr (d', r') \<Rightarrow>
            serializeStructuredIdentityValue cd (Some r') = serializeStructuredIdentityValue cd (Some r) \<and>
            serializeStructuredIdentityValue cd d' =
              serializeStructuredIdentityValue cd (seRecurrenceDuration e))))"

definition storable_exceptions :: "stored_codec \<Rightarrow> SourceEvent \<Rightarrow> bool" where
  "storable_exceptions cd e = (case seExceptionDates e of
      None \<Rightarrow> True
    | Some x \<Rightarrow> (case cdJsonParse cd (cdJsonStringify cd x) of
        None \<Rightarrow> False
      | Some p \<Rightarrow> (case cdExceptionSchema cd p of
          Inl _ \<Rightarrow> False
        | Inr x' \<Rightarrow> serializeStructuredIdentityValue cd (Some x') =
            serializeStructuredIdentityValue cd (Some x))))"

text \<open>
  What the source fetchers deliver: no empty provider id, an explicit all-day flag, a duration
  only beside a rule, and recurrence values that survive their JSON text.
\<close>

definition storable :: "stored_codec \<Rightarrow> SourceEvent \<Rightarrow> bool" where
  "storable cd e \<longleftrightarrow> seSourceEventId e \<noteq> Some [] \<and> seIsAllDay e \<noteq> None \<and>
    storable_rule cd e \<and> storable_exceptions cd e"

lemma parse_exStored: "parseStoredSourceEventState cd s = Inr x \<Longrightarrow> exStored x = s"
  by (auto simp: parseStoredSourceEventState_def split: sum.splits)

lemma stored_exceptions_read_back:
  assumes "storable_exceptions cd e"
  obtains x where "parseStoredIcsExceptionDates cd (serializeOptionalJson cd (seExceptionDates e)) i = Inr x"
    and "serializeStructuredIdentityValue cd x = serializeStructuredIdentityValue cd (seExceptionDates e)"
  using assms
  by (auto simp: storable_exceptions_def parseStoredIcsExceptionDates_def serializeOptionalJson_def
      parseStoredJson_def split: option.splits sum.splits)

lemma stored_rule_reads_back:
  assumes "storable_rule cd e"
  obtains r where "parseStoredIcsRecurrence cd
      (serializeStoredIcsRecurrenceRule cd (seRecurrenceRule e) (seRecurrenceDuration e)) i = Inr r"
    and "serializeStructuredIdentityValue cd (map_option snd r) =
      serializeStructuredIdentityValue cd (seRecurrenceRule e)"
    and "serializeStructuredIdentityValue cd (case r of None \<Rightarrow> None | Some (d, _) \<Rightarrow> d) =
      serializeStructuredIdentityValue cd (seRecurrenceDuration e)"
  using assms
  by (auto simp: storable_rule_def parseStoredIcsRecurrence_def serializeStoredIcsRecurrenceRule_def
      parseStoredJson_def split: option.splits sum.splits prod.splits)

lemma stored_event_reads_back:
  assumes "storable cd e"
  shows "\<exists>x. parseStoredSourceEventState cd ((buildEventStateInsertRow cd e)\<lparr>stId := i\<rparr>) = Inr x \<and>
    buildSourceEventIdentityKey cd (existingIdentityInput x (seUid e)) delta =
      buildSourceEventIdentityKey cd (incomingIdentityInput e) delta"
proof -
  let ?s = "(buildEventStateInsertRow cd e)\<lparr>stId := i\<rparr>"
  obtain xs where xs: "parseStoredIcsExceptionDates cd (serializeOptionalJson cd (seExceptionDates e)) i = Inr xs"
      "serializeStructuredIdentityValue cd xs = serializeStructuredIdentityValue cd (seExceptionDates e)"
    using stored_exceptions_read_back assms unfolding storable_def by metis
  obtain r where r: "parseStoredIcsRecurrence cd
        (serializeStoredIcsRecurrenceRule cd (seRecurrenceRule e) (seRecurrenceDuration e)) i = Inr r"
      "serializeStructuredIdentityValue cd (map_option snd r) =
        serializeStructuredIdentityValue cd (seRecurrenceRule e)"
      "serializeStructuredIdentityValue cd (case r of None \<Rightarrow> None | Some (d, _) \<Rightarrow> d) =
        serializeStructuredIdentityValue cd (seRecurrenceDuration e)"
    using stored_rule_reads_back assms unfolding storable_def by metis
  define x where "x = \<lparr>exStored = ?s, exExceptionDates = xs,
    exRecurrenceDuration = (case r of None \<Rightarrow> None | Some (d, _) \<Rightarrow> d),
    exRecurrenceRule = map_option snd r\<rparr>"
  have "parseStoredSourceEventState cd ?s = Inr x"
    using xs(1) r(1) by (simp add: parseStoredSourceEventState_def
        parseStoredRecurrenceForMaterialization_def x_def buildEventStateInsertRow_def)
  moreover have "identityFields cd (existingIdentityInput x (seUid e)) delta =
      identityFields cd (incomingIdentityInput e) delta"
    using assms xs(2) r(2,3)
    by (auto simp: x_def identityFields_def existingIdentityInput_def incomingIdentityInput_def
        buildEventStateInsertRow_def storable_def resolveExistingSourceEventInstanceKey_def
        storedInstanceKey_def eventInstanceKey_def)
  ultimately show ?thesis by (auto simp: buildSourceEventIdentityKey_def)
qed

lemma recovered_events:
  "prFailures (parseStoredSourceEventStatesRecoveringInvalid cd rows) =
      concat (map (\<lambda>s. case parseStoredSourceEventState cd s of Inr _ \<Rightarrow> []
        | Inl e \<Rightarrow> [\<lparr>pfError = e, pfEvent = s, pfEventId = stId s\<rparr>]) rows)"
  "prEvents (parseStoredSourceEventStatesRecoveringInvalid cd rows) =
      concat (map (\<lambda>s. case parseStoredSourceEventState cd s of Inr x \<Rightarrow> [x] | Inl _ \<Rightarrow> []) rows)"
proof -
  have "prFailures (fold (recover_stored cd) rows acc) = prFailures acc @
      concat (map (\<lambda>s. case parseStoredSourceEventState cd s of Inr _ \<Rightarrow> []
        | Inl e \<Rightarrow> [\<lparr>pfError = e, pfEvent = s, pfEventId = stId s\<rparr>]) rows) \<and>
    prEvents (fold (recover_stored cd) rows acc) = prEvents acc @
      concat (map (\<lambda>s. case parseStoredSourceEventState cd s of Inr x \<Rightarrow> [x] | Inl _ \<Rightarrow> []) rows)" for acc
    by (induction rows arbitrary: acc) (auto simp: recover_stored_def split: sum.splits)
  then show "prFailures (parseStoredSourceEventStatesRecoveringInvalid cd rows) =
      concat (map (\<lambda>s. case parseStoredSourceEventState cd s of Inr _ \<Rightarrow> []
        | Inl e \<Rightarrow> [\<lparr>pfError = e, pfEvent = s, pfEventId = stId s\<rparr>]) rows)"
    and "prEvents (parseStoredSourceEventStatesRecoveringInvalid cd rows) =
      concat (map (\<lambda>s. case parseStoredSourceEventState cd s of Inr x \<Rightarrow> [x] | Inl _ \<Rightarrow> []) rows)"
    by (simp_all add: parseStoredSourceEventStatesRecoveringInvalid_def)
qed

definition readable :: "stored_codec \<Rightarrow> StoredSourceEventState list \<Rightarrow> bool" where
  "readable cd rows \<longleftrightarrow> (\<forall>s \<in> set rows. \<exists>x. parseStoredSourceEventState cd s = Inr x)"

lemma recovered_readable:
  assumes "readable cd rows"
  shows "prFailures (parseStoredSourceEventStatesRecoveringInvalid cd rows) = []"
    and "x \<in> set (prEvents (parseStoredSourceEventStatesRecoveringInvalid cd rows)) \<longleftrightarrow>
      exStored x \<in> set rows \<and> parseStoredSourceEventState cd (exStored x) = Inr x"
proof -
  have ok: "\<exists>x. parseStoredSourceEventState cd s = Inr x" if "s \<in> set rows" for s
    using assms that by (simp add: readable_def)
  have "(case parseStoredSourceEventState cd s of Inr _ \<Rightarrow> []
        | Inl e \<Rightarrow> [\<lparr>pfError = e, pfEvent = s, pfEventId = stId s\<rparr>]) = []" if "s \<in> set rows" for s
    using ok [OF that] by auto
  then show "prFailures (parseStoredSourceEventStatesRecoveringInvalid cd rows) = []"
    unfolding recovered_events by simp
  have "x \<in> set (prEvents (parseStoredSourceEventStatesRecoveringInvalid cd rows)) \<longleftrightarrow>
      (\<exists>s \<in> set rows. parseStoredSourceEventState cd s = Inr x)"
    unfolding recovered_events by (force split: sum.splits)
  then show "x \<in> set (prEvents (parseStoredSourceEventStatesRecoveringInvalid cd rows)) \<longleftrightarrow>
      exStored x \<in> set rows \<and> parseStoredSourceEventState cd (exStored x) = Inr x"
    using parse_exStored by metis
qed

section \<open>A snapshot ingested twice\<close>

definition stringify_ok :: "stored_codec \<Rightarrow> bool" where
  "stringify_ok cd \<longleftrightarrow> (\<forall>xs ys. cdStringify cd (SArray (map SText xs)) =
    cdStringify cd (SArray (map SText ys)) \<longrightarrow> xs = ys)"

text \<open>No event without a provider id shares its instance key with one that has a provider id.\<close>

definition separated :: "SourceEvent list \<Rightarrow> bool" where
  "separated es \<longleftrightarrow> (\<forall>d \<in> set es. \<forall>e \<in> set es. str_truthy (seSourceEventId d) \<and>
    \<not> str_truthy (seSourceEventId e) \<longrightarrow> eventInstanceKey d \<noteq> eventInstanceKey e)"

definition removed_row :: "SourceEvent list \<Rightarrow> StoredSourceEventState \<Rightarrow> bool" where
  "removed_row normalized s = removed_by_snapshot normalized
    \<lparr>exStored = s, exExceptionDates = None, exRecurrenceDuration = None, exRecurrenceRule = None\<rparr>"

lemma removed_by_snapshot_row: "removed_by_snapshot normalized x = removed_row normalized (exStored x)"
  by (simp add: removed_row_def removed_by_snapshot_def resolveExistingSourceEventInstanceKey_def)

lemma in_incomingProviderIds:
  "i \<in> set (incomingProviderIds es) \<longleftrightarrow> i \<noteq> [] \<and> (\<exists>e \<in> set es. seSourceEventId e = Some i)"
  by (auto simp: incomingProviderIds_def elim!: str_truthyE split: if_splits) force

lemma in_providerBacked:
  "k \<in> set (providerBackedStorageIdentities es) \<longleftrightarrow>
    (\<exists>e \<in> set es. str_truthy (seSourceEventId e) \<and> eventInstanceKey e = k)"
  by (auto simp: providerBackedStorageIdentities_def split: if_splits)

lemma removed_row_iff:
  "removed_row normalized s \<longleftrightarrow>
    (if str_truthy (stSourceEventId s)
     then \<forall>e \<in> set normalized. seSourceEventId e \<noteq> stSourceEventId s
     else stSourceEventUid s \<noteq> None \<and>
       ((\<exists>e \<in> set normalized. str_truthy (seSourceEventId e) \<and> eventInstanceKey e = storedInstanceKey s) \<or>
        (\<forall>e \<in> set normalized. eventInstanceKey e \<noteq> storedInstanceKey s)))"
  by (auto simp: removed_row_def removed_by_snapshot_def Let_def resolveExistingSourceEventInstanceKey_def
      in_incomingProviderIds in_providerBacked image_iff elim!: str_truthyE)

lemma set_unique_ids [simp]: "set (unique_ids ids) = set ids"
  by (simp add: unique_ids_def)

lemma snapshot_removals:
  assumes "readable cd rows" "\<not> frIsDeltaSync fetched"
  shows "set (ingest_removals fetched (parseStoredSourceEventStatesRecoveringInvalid cd rows)) =
    stId ` {s \<in> set rows. removed_row (deduplicateIncomingEvents (frEvents fetched)) s}"
proof -
  let ?p = "parseStoredSourceEventStatesRecoveringInvalid cd rows"
  have "set (prEvents ?p) = {x. exStored x \<in> set rows \<and> parseStoredSourceEventState cd (exStored x) = Inr x}"
    using recovered_readable(2) [OF assms(1)] by blast
  moreover have "s \<in> exStored ` {x. exStored x \<in> set rows \<and> parseStoredSourceEventState cd (exStored x) = Inr x}"
    if "s \<in> set rows" for s
    using that assms(1) parse_exStored unfolding readable_def by (fastforce simp: image_iff)
  ultimately have "set rows = exStored ` set (prEvents ?p)" by auto
  moreover have "prFailures ?p = []" by (rule recovered_readable(1) [OF assms(1)])
  ultimately show ?thesis
    using assms(2)
    by (auto simp: ingest_removals_def buildInvalidStoredEventIdsToRemove_def
        getNonRecurringStoredEventIdsOutsideWindow_def buildSourceEventStateIdsToRemove_def Let_def
        removed_by_snapshot_row split: option.splits)
qed

lemma snapshot_survivors:
  assumes "readable cd rows" "\<not> frIsDeltaSync fetched" "event_states_ok rows"
  shows "deleteEventStatesInChunks
      (ingest_removals fetched (parseStoredSourceEventStatesRecoveringInvalid cd rows)) rows =
    filter (\<lambda>s. \<not> removed_row (deduplicateIncomingEvents (frEvents fetched)) s) rows"
  unfolding deleteEventStatesInChunks_eq snapshot_removals [OF assms(1,2)]
  using assms(3) by (intro filter_cong) (auto simp: event_states_ok_def distinct_map inj_on_def)

lemma build_row_key:
  assumes "seSourceEventId e \<noteq> Some []"
  shows "row_key (buildEventStateInsertRow cd e) =
    (if str_truthy (seSourceEventId e) then Some (SourceKey (the (seSourceEventId e)))
     else case seRecurrenceId e of Some r \<Rightarrow> Some (RecurringKey (seUid e) r)
       | None \<Rightarrow> Some (SlotKey (seUid e) (startTime e) (endTime e)))"
  using assms
  by (cases "seSourceEventId e") (auto simp: row_key_def buildEventStateInsertRow_def split: option.splits)

text \<open>A stored row under the same index key has the same storage identity.\<close>

definition row_identity :: "StoredSourceEventState \<Rightarrow> string" where
  "row_identity s = (if str_truthy (stSourceEventId s) then ''provider:'' @ the (stSourceEventId s)
    else ''instance:'' @ storedInstanceKey s)"

lemma row_key_identity:
  assumes "row_key (buildEventStateInsertRow cd e) = row_key s" "seSourceEventId e \<noteq> Some []"
  shows "storage_identity e = row_identity s"
proof -
  have k: "row_key s = (if str_truthy (seSourceEventId e) then Some (SourceKey (the (seSourceEventId e)))
      else case seRecurrenceId e of Some r \<Rightarrow> Some (RecurringKey (seUid e) r)
       | None \<Rightarrow> Some (SlotKey (seUid e) (startTime e) (endTime e)))"
    using assms build_row_key by metis
  show ?thesis
  proof (cases "str_truthy (seSourceEventId e)")
    case True
    with k show ?thesis
      by (auto simp: row_key_def storage_identity_def row_identity_def split: option.splits elim!: str_truthyE)
  next
    case False
    with k show ?thesis
      by (auto simp: row_key_def storage_identity_def row_identity_def eventInstanceKey_def
          storedInstanceKey_def buildSourceEventInstanceKey_def split: option.splits)
  qed
qed

lemma build_row_identity:
  "row_identity ((buildEventStateInsertRow cd e)\<lparr>stId := i\<rparr>) = storage_identity e"
  by (simp add: row_identity_def storage_identity_def buildEventStateInsertRow_def storedInstanceKey_def
      eventInstanceKey_def)

lemma build_rows_distinct:
  assumes "distinct (map storage_identity es)" "\<forall>e \<in> set es. seSourceEventId e \<noteq> Some []"
  shows "distinct (map row_key (map (buildEventStateInsertRow cd) es))"
proof -
  have "d = e" if "d \<in> set es" "e \<in> set es"
    "row_key (buildEventStateInsertRow cd d) = row_key (buildEventStateInsertRow cd e)" for d e
  proof -
    have "storage_identity d = storage_identity e"
      using row_key_identity [OF that(3)] build_row_identity [where cd = cd and e = e and i = "[]"]
        assms(2) that(1) by (simp add: buildEventStateInsertRow_def)
    with assms(1) that show ?thesis by (simp add: distinct_map inj_on_def)
  qed
  with assms(1) show ?thesis by (auto simp: distinct_map inj_on_def)
qed

lemma identity_key_row:
  assumes "stringify_ok cd" "stSourceEventUid (exStored x) = Some u"
    and "buildSourceEventIdentityKey cd (existingIdentityInput x u) delta =
      buildSourceEventIdentityKey cd (incomingIdentityInput e) delta"
  shows "row_identity (exStored x) = storage_identity e"
    and "str_truthy (stSourceEventId (exStored x)) \<longleftrightarrow> str_truthy (seSourceEventId e)"
    and "storedInstanceKey (exStored x) = eventInstanceKey e"
    and "str_truthy (seSourceEventId e) \<Longrightarrow> stSourceEventId (exStored x) = seSourceEventId e"
proof -
  from assms(1,3) have f: "identityFields cd (existingIdentityInput x u) delta =
      identityFields cd (incomingIdentityInput e) delta"
    by (simp add: stringify_ok_def buildSourceEventIdentityKey_def)
  then have ids: "or_else (stSourceEventId (exStored x)) [] = or_else (seSourceEventId e) []"
    and key: "storedInstanceKey (exStored x) = eventInstanceKey e"
    by (simp_all add: identityFields_def existingIdentityInput_def incomingIdentityInput_def Let_def
        resolveExistingSourceEventInstanceKey_def)
  show t: "str_truthy (stSourceEventId (exStored x)) \<longleftrightarrow> str_truthy (seSourceEventId e)"
    using ids by (cases "stSourceEventId (exStored x)"; cases "seSourceEventId e") auto
  show "storedInstanceKey (exStored x) = eventInstanceKey e" by (fact key)
  show s: "stSourceEventId (exStored x) = seSourceEventId e" if "str_truthy (seSourceEventId e)"
    using ids that by (cases "stSourceEventId (exStored x)"; cases "seSourceEventId e") auto
  show "row_identity (exStored x) = storage_identity e"
    using t s key by (simp add: row_identity_def storage_identity_def)
qed

definition row_matches :: "stored_codec \<Rightarrow> bool \<Rightarrow> StoredSourceEventState \<Rightarrow> SourceEvent \<Rightarrow> bool" where
  "row_matches cd delta s e = (case (parseStoredSourceEventState cd s, stSourceEventUid s) of
      (Inr x, Some u) \<Rightarrow> buildSourceEventIdentityKey cd (existingIdentityInput x u) delta =
        buildSourceEventIdentityKey cd (incomingIdentityInput e) delta
    | _ \<Rightarrow> False)"

lemma row_matchesE:
  assumes "row_matches cd delta s e"
  obtains x u where "parseStoredSourceEventState cd s = Inr x" "exStored x = s" "stSourceEventUid s = Some u"
    and "buildSourceEventIdentityKey cd (existingIdentityInput x u) delta =
        buildSourceEventIdentityKey cd (incomingIdentityInput e) delta"
proof (cases "parseStoredSourceEventState cd s")
  case (Inr x)
  then show thesis
    using assms that [OF Inr parse_exStored [OF Inr]]
    by (cases "stSourceEventUid s") (simp_all add: row_matches_def)
qed (use assms in \<open>simp add: row_matches_def\<close>)

lemma row_matches_cases:
  assumes "row_matches cd delta s e" "stringify_ok cd"
  shows "row_identity s = storage_identity e"
    and "str_truthy (stSourceEventId s) \<longleftrightarrow> str_truthy (seSourceEventId e)"
    and "storedInstanceKey s = eventInstanceKey e"
    and "str_truthy (seSourceEventId e) \<Longrightarrow> stSourceEventId s = seSourceEventId e"
proof -
  from assms(1) obtain x u where x: "exStored x = s" and xu: "stSourceEventUid s = Some u"
    "buildSourceEventIdentityKey cd (existingIdentityInput x u) delta =
        buildSourceEventIdentityKey cd (incomingIdentityInput e) delta"
    by (rule row_matchesE)
  note facts = identity_key_row [OF assms(2), of x u delta e, unfolded x, OF xu]
  show "row_identity s = storage_identity e"
    and "str_truthy (stSourceEventId s) \<longleftrightarrow> str_truthy (seSourceEventId e)"
    and "storedInstanceKey s = eventInstanceKey e" by (fact facts)+
  show "str_truthy (seSourceEventId e) \<Longrightarrow> stSourceEventId s = seSourceEventId e" by (fact facts)
qed

lemma in_concat_option:
  "k \<in> set (concat (map (\<lambda>x. case f x of None \<Rightarrow> [] | Some u \<Rightarrow> [g x u]) xs)) \<longleftrightarrow>
    (\<exists>x \<in> set xs. \<exists>u. f x = Some u \<and> g x u = k)"
proof (induction xs)
  case (Cons x xs)
  then show ?case by (cases "f x") auto
qed simp

lemma additions_iff:
  assumes "readable cd rows"
  shows "e \<in> set (ingest_additions cd fetched es (parseStoredSourceEventStatesRecoveringInvalid cd rows)) \<longleftrightarrow>
    e \<in> set (deduplicateIncomingEvents es) \<and>
    \<not> (\<exists>s \<in> set rows. row_matches cd (frIsDeltaSync fetched) s e)"
proof -
  let ?p = "parseStoredSourceEventStatesRecoveringInvalid cd rows"
  have "buildSourceEventIdentityKey cd (incomingIdentityInput e) delta
      \<in> set (buildExistingEventIdentitySet cd (prEvents ?p) delta) \<longleftrightarrow>
    (\<exists>x \<in> set (prEvents ?p). \<exists>u. stSourceEventUid (exStored x) = Some u \<and>
      buildSourceEventIdentityKey cd (existingIdentityInput x u) delta =
      buildSourceEventIdentityKey cd (incomingIdentityInput e) delta)" for delta
    unfolding buildExistingEventIdentitySet_def by (rule in_concat_option)
  note this [of "frIsDeltaSync fetched"]
  also have "(\<exists>x \<in> set (prEvents ?p). \<exists>u. stSourceEventUid (exStored x) = Some u \<and>
      buildSourceEventIdentityKey cd (existingIdentityInput x u) delta =
      buildSourceEventIdentityKey cd (incomingIdentityInput e) delta) \<longleftrightarrow>
    (\<exists>s \<in> set rows. row_matches cd delta s e)" (is "?l \<longleftrightarrow> ?r") for delta
  proof
    assume ?l
    then show ?r using recovered_readable(2) [OF assms] by (force simp: row_matches_def)
  next
    assume ?r
    then obtain s where s: "s \<in> set rows" "row_matches cd delta s e" by blast
    from s(2) show ?l
      by (rule row_matchesE) (use s(1) recovered_readable(2) [OF assms] in auto)
  qed
  finally show ?thesis
    by (auto simp: ingest_additions_def buildSourceEventsToAdd_def Let_def)
qed

lemma build_row_matches:
  "storable cd e \<Longrightarrow> row_matches cd delta ((buildEventStateInsertRow cd e)\<lparr>stId := i\<rparr>) e"
  using stored_event_reads_back [of cd e i delta]
  by (auto simp: row_matches_def buildEventStateInsertRow_def)

text \<open>A row that matches an event of the snapshot, or was just built from one, is not removed.\<close>

lemma matching_row_kept:
  assumes "separated es" "e \<in> set (deduplicateIncomingEvents es)"
    and "str_truthy (stSourceEventId s) \<longleftrightarrow> str_truthy (seSourceEventId e)"
    and "storedInstanceKey s = eventInstanceKey e"
    and "str_truthy (seSourceEventId e) \<Longrightarrow> stSourceEventId s = seSourceEventId e"
  shows "\<not> removed_row (deduplicateIncomingEvents es) s"
proof (cases "str_truthy (seSourceEventId e)")
  case True
  with assms show ?thesis by (auto simp: removed_row_iff)
next
  case False
  then have "\<not> str_truthy (seSourceEventId d)" if "d \<in> set (deduplicateIncomingEvents es)"
      "eventInstanceKey d = eventInstanceKey e" for d
    using assms(1,2) that dedup_subset unfolding separated_def by blast
  with False assms(2-4) show ?thesis by (auto simp: removed_row_iff)
qed

lemma built_row_kept:
  assumes "separated es" "e \<in> set (deduplicateIncomingEvents es)"
  shows "\<not> removed_row (deduplicateIncomingEvents es) ((buildEventStateInsertRow cd e)\<lparr>stId := i\<rparr>)"
  by (rule matching_row_kept [OF assms])
    (simp_all add: buildEventStateInsertRow_def storedInstanceKey_def eventInstanceKey_def)

lemma unmatched_row_key:
  assumes "row_matches cd delta s e" "stringify_ok cd" "e \<in> set (deduplicateIncomingEvents es)"
    and "\<And>a. a \<in> set adds \<Longrightarrow> a \<in> set (deduplicateIncomingEvents es) \<and> a \<noteq> e \<and> seSourceEventId a \<noteq> Some []"
  shows "row_key s \<notin> row_key ` set (map (buildEventStateInsertRow cd) adds)"
proof
  assume "row_key s \<in> row_key ` set (map (buildEventStateInsertRow cd) adds)"
  then obtain a where a: "a \<in> set adds" "row_key (buildEventStateInsertRow cd a) = row_key s" by auto
  then have "storage_identity a = storage_identity e"
    using row_key_identity [OF a(2)] assms(4) [OF a(1)] row_matches_cases(1) [OF assms(1,2)] by simp
  with assms(3) assms(4) [OF a(1)] show False using storage_identity_inj [OF dedup_distinct] by blast
qed

text \<open>
  Flushing the difference of a snapshot: it never fails, every row left was kept or built from
  the snapshot, and every event of the snapshot has a matching row.
\<close>

lemma snapshot_flush:
  fixes es rows fetched
  assumes ok: "event_states_ok rows" "readable cd rows" "stringify_ok cd"
    and es: "\<forall>e \<in> set es. storable cd e" "separated es"
    and f: "frEvents fetched = es" "\<not> frIsDeltaSync fetched"
  defines "parsed \<equiv> parseStoredSourceEventStatesRecoveringInvalid cd rows"
    and "n \<equiv> deduplicateIncomingEvents es"
  obtains rows' where
    "insertEventStatesWithConflictResolution fresh
      (map (buildEventStateInsertRow cd) (ingest_additions cd fetched es parsed))
      (deleteEventStatesInChunks (ingest_removals fetched parsed) rows) = Inr rows'"
    and "\<And>s. s \<in> set rows' \<Longrightarrow> s \<in> set rows \<and> \<not> removed_row n s \<or>
      (\<exists>e \<in> set n. \<exists>i. s = (buildEventStateInsertRow cd e)\<lparr>stId := i\<rparr>)"
    and "\<And>e. e \<in> set n \<Longrightarrow> \<exists>s \<in> set rows'. row_matches cd False s e"
proof -
  define adds where "adds = ingest_additions cd fetched es parsed"
  have adds: "e \<in> set adds \<longleftrightarrow> e \<in> set n \<and> \<not> (\<exists>s \<in> set rows. row_matches cd False s e)" for e
    using additions_iff [OF ok(2), of e fetched es] f(2) by (simp add: adds_def parsed_def n_def)
  have st: "storable cd e" if "e \<in> set n" for e
    using that es(1) dedup_subset [of es] by (auto simp: n_def)
  have d: "distinct (map storage_identity adds)"
    unfolding adds_def ingest_additions_def buildSourceEventsToAdd_def Let_def
    by (rule distinct_map_filter [OF dedup_distinct])
  let ?left = "filter (\<lambda>s. \<not> removed_row n s) rows" and ?new = "map (buildEventStateInsertRow cd) adds"
  have new: "stSourceEventId b \<noteq> Some [] \<and> stSourceEventUid b \<noteq> None" if "b \<in> set ?new" for b
    using that adds st by (auto simp: storable_def buildEventStateInsertRow_def)
  have "\<forall>e \<in> set adds. seSourceEventId e \<noteq> Some []" using adds st by (auto simp: storable_def)
  from insert_conflict_merged [OF build_rows_distinct [OF d this, of cd] new] obtain rows' where
    ins: "insertEventStatesWithConflictResolution fresh ?new ?left = Inr rows'"
    and m: "merged ?new ?left rows'" by blast
  have "\<exists>s \<in> set rows'. row_matches cd False s e" if e: "e \<in> set n" for e
  proof (cases "e \<in> set adds")
    case True
    then obtain i where "(buildEventStateInsertRow cd e)\<lparr>stId := i\<rparr> \<in> set rows'"
      using m unfolding merged_def by auto
    with build_row_matches [OF st [OF e]] show ?thesis by blast
  next
    case False
    with adds e obtain s where s: "s \<in> set rows" "row_matches cd False s e" by blast
    then have "\<not> removed_row n s"
      using row_matches_cases [OF s(2) ok(3)] unfolding n_def
      by (intro matching_row_kept [OF es(2) e [unfolded n_def]]) auto
    moreover have "row_key s \<notin> row_key ` set ?new"
      using e False adds st by (intro unmatched_row_key [OF s(2) ok(3) e [unfolded n_def]])
        (auto simp: n_def storable_def)
    ultimately show ?thesis using m s unfolding merged_def by auto
  qed
  moreover have "s \<in> set rows \<and> \<not> removed_row n s \<or>
      (\<exists>e \<in> set n. \<exists>i. s = (buildEventStateInsertRow cd e)\<lparr>stId := i\<rparr>)" if "s \<in> set rows'" for s
  proof -
    have "s \<in> set ?left \<or> (\<exists>b \<in> set ?new. \<exists>i. s = b\<lparr>stId := i\<rparr>)"
      using m that unfolding merged_def by blast
    then show ?thesis using adds by auto
  qed
  ultimately show thesis
    using that [of rows'] ins snapshot_survivors [OF ok(2) f(2) ok(1)] f(1)
    by (simp add: adds_def parsed_def n_def)
qed

lemma snapshot_converges:
  assumes ok: "event_states_ok rows" "readable cd rows" "stringify_ok cd"
    and es: "\<forall>e \<in> set (frEvents fetched). storable cd e" "separated (frEvents fetched)"
    and f: "\<not> frIsDeltaSync fetched"
    and ins: "insertEventStatesWithConflictResolution fresh
      (map (buildEventStateInsertRow cd) (ingest_additions cd fetched (frEvents fetched)
        (parseStoredSourceEventStatesRecoveringInvalid cd rows)))
      (deleteEventStatesInChunks (ingest_removals fetched
        (parseStoredSourceEventStatesRecoveringInvalid cd rows)) rows) = Inr rows'"
  shows "readable cd rows' \<and>
    ingest_additions cd fetched (frEvents fetched) (parseStoredSourceEventStatesRecoveringInvalid cd rows') = [] \<and>
    ingest_removals fetched (parseStoredSourceEventStatesRecoveringInvalid cd rows') = []"
proof -
  let ?n = "deduplicateIncomingEvents (frEvents fetched)"
  obtain r2 where "insertEventStatesWithConflictResolution fresh
      (map (buildEventStateInsertRow cd) (ingest_additions cd fetched (frEvents fetched)
        (parseStoredSourceEventStatesRecoveringInvalid cd rows)))
      (deleteEventStatesInChunks (ingest_removals fetched
        (parseStoredSourceEventStatesRecoveringInvalid cd rows)) rows) = Inr r2"
    and r2: "\<And>s. s \<in> set r2 \<Longrightarrow> s \<in> set rows \<and> \<not> removed_row ?n s \<or>
        (\<exists>e \<in> set ?n. \<exists>i. s = (buildEventStateInsertRow cd e)\<lparr>stId := i\<rparr>)"
      "\<And>e. e \<in> set ?n \<Longrightarrow> \<exists>s \<in> set r2. row_matches cd False s e"
    by (rule snapshot_flush [OF ok es refl f, where fresh = fresh]) blast
  with ins have "r2 = rows'" by simp
  note rows' = r2(1) [unfolded this] and matched = r2(2) [unfolded this]
  have r': "readable cd rows'"
    unfolding readable_def
  proof
    fix s assume "s \<in> set rows'"
    from rows' [OF this] show "\<exists>x. parseStoredSourceEventState cd s = Inr x"
    proof (elim disjE bexE exE conjE)
      fix e i assume "e \<in> set ?n" "s = (buildEventStateInsertRow cd e)\<lparr>stId := i\<rparr>"
      then show ?thesis using es(1) dedup_subset stored_event_reads_back by blast
    qed (use ok(2) in \<open>auto simp: readable_def\<close>)
  qed
  have "\<not> removed_row ?n s" if "s \<in> set rows'" for s
    using rows' [OF that] built_row_kept [OF es(2)] by blast
  then have "set (ingest_removals fetched (parseStoredSourceEventStatesRecoveringInvalid cd rows')) = {}"
    using snapshot_removals [OF r' f] by auto
  moreover have "set (ingest_additions cd fetched (frEvents fetched)
      (parseStoredSourceEventStatesRecoveringInvalid cd rows')) = {}"
  proof (intro equals0I)
    fix e assume "e \<in> set (ingest_additions cd fetched (frEvents fetched)
      (parseStoredSourceEventStatesRecoveringInvalid cd rows'))"
    then have "e \<in> set ?n" "\<not> (\<exists>s \<in> set rows'. row_matches cd False s e)"
      using additions_iff [OF r'] f by simp_all
    with matched show False by blast
  qed
  ultimately show ?thesis using r' by simp
qed

section \<open>The flush and the transaction\<close>

definition never :: "source_calendar \<Rightarrow> bool" where
  "never w = False"

lemma throwIfAborted_never [simp]: "throwIfAborted never w = (Inr (), w)"
  by (simp add: throwIfAborted_def never_def)

lemma update_calendar_never [simp]: "update_calendar never f w = (Inr (), f w)"
  by (simp add: update_calendar_def eff_simps)

lemma insert_nothing [simp]: "insertEventStatesWithConflictResolution fresh [] rows = Inr rows"
  by (simp add: insertEventStatesWithConflictResolution_def insertEventStateRows_def chunks_from.simps)

lemma delete_nothing [simp]: "deleteEventStatesInChunks [] rows = rows"
  by (simp add: deleteEventStatesInChunks_eq)

lemma record_coverage_rows [simp]:
  "scRows (record_coverage t cv w) = scRows w" "scIngestSeq (record_coverage t cv w) = scIngestSeq w"
  by (simp_all add: record_coverage_def)

lemma flush_never:
  assumes "insertEventStatesWithConflictResolution fresh (map (buildEventStateInsertRow cd) (chInserts changes))
      (deleteEventStatesInChunks (chDeletes changes) (scRows w)) = Inr rows'"
  shows "\<exists>w'. ingest_flush cd fresh never t changes w = (Inr (), w') \<and> scRows w' = rows' \<and>
    scIngestSeq w' = map_option (\<lambda>n. n + 1) (scIngestSeq w)"
  using assms
  by (cases "chDeletes changes = []"; cases "chInserts changes = []"; cases "txExistingEventCount w";
      cases "chSyncToken changes"; cases "chCoverage changes"; cases "chSnapshot changes")
    (simp_all add: ingest_flush_def eff_simps flush_deletes_def flush_inserts_def)

definition ingest_start :: "source_calendar \<Rightarrow> source_calendar ingest_state" where
  "ingest_start w = \<lparr>igWorld = w, igProbePending = False, igOutcome = None, igFlushed = False\<rparr>"

definition calendar_ingest ::
  "stored_codec \<Rightarrow> string \<Rightarrow> (string \<Rightarrow> SourceEvent list \<Rightarrow> SyncWindow \<Rightarrow> SourceEvent list) \<Rightarrow>
    (StoredSourceEventState list \<Rightarrow> string) \<Rightarrow> (source_calendar \<Rightarrow> bool) \<Rightarrow> instant \<Rightarrow> int \<Rightarrow>
    (source_calendar, ingest_error, FetchEventsResult) eff \<Rightarrow>
    (source_calendar, ingest_error, bool) eff option \<Rightarrow> source_calendar \<Rightarrow>
    (ingest_error + IngestionResult) \<times> source_calendar ingest_state" where
  "calendar_ingest cd calendarId overBudget fresh aborted t baselineIngestSeq fetch isCurrent w =
    ingestSource cd overBudget
      \<lparr>ioCalendarId = calendarId, ioFetchEvents = fetch, ioIsCurrent = isCurrent,
       ioPersistence = Transactional
         (createIngestionPersistenceTransaction cd fresh aborted t baselineIngestSeq)\<rparr>
      (ingest_start w)"

lemma snapshot_run:
  assumes "withinRecurrenceBudget overBudget calendarId fetched = Inr es"
    and "\<not> frUnchanged fetched" "\<not> frFullSyncRequired fetched" "\<not> frIsDeltaSync fetched"
    and "scIngestSeq w = Some n"
    and "insertEventStatesWithConflictResolution fresh (map (buildEventStateInsertRow cd)
        (ingest_additions cd fetched es (parseStoredSourceEventStatesRecoveringInvalid cd (scRows w))))
      (deleteEventStatesInChunks
        (ingest_removals fetched (parseStoredSourceEventStatesRecoveringInvalid cd (scRows w))) (scRows w)) = Inr rows'"
  shows "\<exists>s'. calendar_ingest cd calendarId overBudget fresh never t n (eff_return fetched) (Some (eff_return True)) w =
      (Inr \<lparr>eventsAdded = length (ingest_additions cd fetched es
          (parseStoredSourceEventStatesRecoveringInvalid cd (scRows w))),
        eventsRemoved = length (ingest_removals fetched
          (parseStoredSourceEventStatesRecoveringInvalid cd (scRows w)))\<rparr>, s') \<and>
    scRows (igWorld s') = rows' \<and> (\<exists>m. scIngestSeq (igWorld s') = Some m)"
proof -
  let ?parsed = "parseStoredSourceEventStatesRecoveringInvalid cd (scRows w)"
  let ?adds = "ingest_additions cd fetched es ?parsed" and ?rems = "ingest_removals fetched ?parsed"
  let ?w = "w\<lparr>txExistingEventCount := Some (int (length (scRows w)))\<rparr>"
  obtain w1 where w1: "ingest_flush cd fresh never t (ingestion_changes fetched ?adds ?rems) ?w = (Inr (), w1)"
      "scRows w1 = rows'" "scIngestSeq w1 = Some (n + 1)"
    using flush_never [of fresh cd "ingestion_changes fetched ?adds ?rems" ?w rows' t] assms(5,6)
    by (auto simp: ingestion_changes_def)
  obtain w2 where w2: "ingest_flush cd fresh never t (in_sync_changes fetched) ?w = (Inr (), w2)"
      "scRows w2 = scRows w" "scIngestSeq w2 = Some (n + 1)"
    using flush_never [of fresh cd "in_sync_changes fetched" ?w "scRows w" t] assms(5)
    by (auto simp: in_sync_changes_def)
  have same: "rows' = scRows w" if "?adds = []" "?rems = []"
    using assms(6) that by simp
  show ?thesis
    using assms w1 w2 same
    by (auto simp: calendar_ingest_def ingestSource_def eff_simps lift_io_def ingest_start_def probeCurrency_def
        resolvePersistenceTransaction_def createIngestionPersistenceTransaction_def persistTimePreflight_def
        check_baseline_def persistenceWork_def calendar_persistence_def readExistingEvents_def
        persist_difference_def set_outcome_def mark_flushed_def EMPTY_INGESTION_def Let_def)
qed

section \<open>What every run keeps\<close>

definition keeps :: "('w \<Rightarrow> bool) \<Rightarrow> ('w, 'e, 'a) eff \<Rightarrow> bool" where
  "keeps P m \<longleftrightarrow> (\<forall>w. P w \<longrightarrow> P (snd (m w)))"

lemma keeps_bind: "keeps P m \<Longrightarrow> (\<And>x. keeps P (f x)) \<Longrightarrow> keeps P (eff_bind m f)"
  unfolding keeps_def by (auto simp: eff_simps split: sum.splits prod.splits)

lemma keeps_return [simp]: "keeps P (eff_return x)"
  by (simp add: keeps_def eff_simps)

lemma keeps_throw [simp]: "keeps P (eff_throw e)"
  by (simp add: keeps_def eff_simps)

lemma keeps_lift: "keeps P m \<Longrightarrow> keeps (\<lambda>s. P (igWorld s)) (lift_io m)"
  unfolding keeps_def by (auto simp: lift_io_def split: prod.splits)

lemma keeps_local [simp]:
  "keeps (\<lambda>s. P (igWorld s)) (set_outcome x)" "keeps (\<lambda>s. P (igWorld s)) mark_flushed"
  by (simp_all add: keeps_def set_outcome_def mark_flushed_def)

lemmas keeps_intros = keeps_bind keeps_lift

lemma keeps_probe:
  assumes "\<And>p. isCurrent = Some p \<Longrightarrow> keeps P p"
  shows "keeps (\<lambda>s. P (igWorld s)) (probeCurrency isCurrent)"
proof (cases isCurrent)
  case (Some p)
  have "snd (probeCurrency isCurrent s) = snd (lift_io p s)" for s
    by (simp add: probeCurrency_def Some split: prod.splits sum.splits)
  with keeps_lift [OF assms [OF Some]] show ?thesis by (simp add: keeps_def)
qed (simp add: keeps_def probeCurrency_def)

lemma keeps_preflight:
  assumes "\<And>p. isCurrent = Some p \<Longrightarrow> keeps P p"
  shows "keeps (\<lambda>s. P (igWorld s)) (persistTimePreflight isCurrent)"
  unfolding persistTimePreflight_def
proof (intro keeps_bind)
  show "keeps (\<lambda>s. P (igWorld s)) (\<lambda>s. (Inr (), s\<lparr>igProbePending := False\<rparr>))"
    by (simp add: keeps_def)
  show "keeps (\<lambda>s. P (igWorld s)) (probeCurrency isCurrent)" by (rule keeps_probe [OF assms])
  show "keeps (\<lambda>s. P (igWorld s)) (if c = Current then eff_return None
      else eff_bind (set_outcome (probe_name c)) (\<lambda>_. eff_return (Some EMPTY_INGESTION)))" for c
    by (simp add: keeps_bind)
qed

lemma keeps_work:
  assumes "\<And>p. isCurrent = Some p \<Longrightarrow> keeps P p" "keeps P (ipRead ps)" "\<And>c. keeps P (ipFlush ps c)"
  shows "keeps (\<lambda>s. P (igWorld s)) (persistenceWork cd isCurrent fetched es ps)"
proof -
  have full: "keeps (\<lambda>s. P (igWorld s)) (flush_full_sync ps)"
    by (simp add: flush_full_sync_def keeps_intros assms)
  have diff: "keeps (\<lambda>s. P (igWorld s)) (persist_difference cd fetched es ps parsed)" for parsed
    by (simp add: persist_difference_def Let_def keeps_intros assms)
  have "keeps (\<lambda>s. P (igWorld s))
      (\<lambda>s. if igProbePending s then persistTimePreflight isCurrent s else (Inr None, s))"
    using keeps_preflight [OF assms(1)] by (simp add: keeps_def)
  then show ?thesis
    unfolding persistenceWork_def
    by (rule keeps_bind)
      (auto simp: full diff Let_def keeps_intros assms(2) split: option.splits)
qed

lemma keeps_update_calendar:
  "(\<And>w. P w \<Longrightarrow> P (f w)) \<Longrightarrow> keeps P (update_calendar aborted f)"
  by (auto simp: keeps_def update_calendar_def throwIfAborted_def eff_simps)

lemma keeps_throwIfAborted [simp]: "keeps P (throwIfAborted aborted)"
  by (simp add: keeps_def throwIfAborted_def)

abbreviation calendar_ok :: "source_calendar \<Rightarrow> bool" where
  "calendar_ok w \<equiv> event_states_ok (scRows w)"

lemma keeps_flush:
  assumes "fresh_ok fresh"
  shows "keeps calendar_ok (ingest_flush cd fresh aborted t changes)"
proof -
  have del: "keeps calendar_ok (flush_deletes aborted ids)" for ids
    by (simp add: flush_deletes_def keeps_update_calendar delete_ok)
  have ins: "keeps calendar_ok (flush_inserts cd fresh aborted es)" for es
    unfolding flush_inserts_def
    by (auto simp: keeps_def throwIfAborted_def eff_simps assms split: sum.splits
        intro: insert_conflict_ok)
  have count: "keeps calendar_ok (\<lambda>w. case txExistingEventCount w of None \<Rightarrow> eff_return () w
      | Some n \<Rightarrow> update_calendar aborted (\<lambda>w. w\<lparr>scStoredEventCount := Some (storedEventCountAfter n changes)\<rparr>) w)"
    using keeps_update_calendar [of calendar_ok "\<lambda>w. w\<lparr>scStoredEventCount := Some (storedEventCountAfter n changes)\<rparr>" aborted for n]
    by (auto simp: keeps_def eff_simps split: option.splits)
  show ?thesis
    unfolding ingest_flush_def
    by (intro keeps_bind del ins count)
      (auto simp: keeps_update_calendar split: option.splits)
qed

lemma keeps_transaction:
  assumes "keeps (\<lambda>s. calendar_ok (igWorld s)) (iwPreflight work)" "fresh_ok fresh"
    and "\<And>ps. keeps calendar_ok (ipRead ps) \<Longrightarrow> (\<And>c. keeps calendar_ok (ipFlush ps c)) \<Longrightarrow>
      keeps (\<lambda>s. calendar_ok (igWorld s)) (iwRun work ps)"
  shows "keeps (\<lambda>s. calendar_ok (igWorld s))
    (createIngestionPersistenceTransaction cd fresh aborted t n work)"
proof -
  let ?ps = "calendar_persistence cd fresh aborted t"
  have read: "keeps calendar_ok (readExistingEvents aborted)"
    by (simp add: readExistingEvents_def keeps_def throwIfAborted_def eff_simps)
  have run: "keeps (\<lambda>s. calendar_ok (igWorld s)) (iwRun work ?ps)"
    using read keeps_flush [OF assms(2)] by (intro assms(3)) (simp_all add: calendar_persistence_def)
  have base: "keeps calendar_ok (check_baseline aborted n)"
    by (simp add: check_baseline_def keeps_def throwIfAborted_def eff_simps split: option.splits)
  define body where "body = eff_bind (lift_io (check_baseline aborted n)) (\<lambda>_.
      eff_bind (iwRun work ?ps) (\<lambda>result. eff_bind (lift_io (throwIfAborted aborted)) (\<lambda>_. eff_return result)))"
  have "keeps (\<lambda>s. calendar_ok (igWorld s)) body"
    unfolding body_def by (intro keeps_bind keeps_lift base run) simp_all
  then have "calendar_ok (igWorld s1)"
    if "body (s\<lparr>igWorld := (igWorld s)\<lparr>txExistingEventCount := None\<rparr>\<rparr>) = (v, s1)" "calendar_ok (igWorld s)" for s v s1
    using that unfolding keeps_def
    by (metis (no_types, lifting) ingest_state.select_convs(1) ingest_state.surjective
        ingest_state.update_convs(1) snd_conv source_calendar.select_convs(1)
        source_calendar.surjective source_calendar.update_convs(8))
  then show ?thesis
    unfolding createIngestionPersistenceTransaction_def body_def [symmetric]
    by (intro keeps_bind assms(1))
      (auto simp: keeps_def eff_simps split: option.splits sum.splits prod.splits)
qed

text \<open>A run that throws leaves the world as it was.\<close>

definition rolls_back :: "'w \<Rightarrow> ('w, 'a) ingest_eff \<Rightarrow> bool" where
  "rolls_back w m \<longleftrightarrow> (\<forall>s e s'. igWorld s = w \<longrightarrow> m s = (Inl e, s') \<longrightarrow> igWorld s' = w)"

lemma rolls_back_bind:
  assumes "keeps (\<lambda>s. igWorld s = w) m" "\<And>x. rolls_back w (f x)"
  shows "rolls_back w (eff_bind m f)"
  unfolding rolls_back_def
proof (intro allI impI)
  fix s e s' assume s: "igWorld s = w" "eff_bind m f s = (Inl e, s')"
  obtain v s1 where m: "m s = (v, s1)" by fastforce
  with assms(1) s(1) have "igWorld s1 = w" by (auto simp: keeps_def)
  with m s(2) assms(2) show "igWorld s' = w"
    by (cases v) (auto simp: eff_simps rolls_back_def)
qed

lemma rolls_back_keeps: "keeps (\<lambda>s. igWorld s = w) m \<Longrightarrow> rolls_back w m"
  unfolding keeps_def rolls_back_def by (metis snd_conv)

lemma rolls_back_transaction:
  assumes "keeps (\<lambda>s. igWorld s = w) (iwPreflight work)"
  shows "rolls_back w (createIngestionPersistenceTransaction cd fresh aborted t n work)"
  unfolding createIngestionPersistenceTransaction_def
  by (rule rolls_back_bind [OF assms])
    (auto simp: rolls_back_def eff_simps split: option.splits sum.splits prod.splits)

text \<open>What a run does after its fetch.\<close>

definition ingest_body ::
  "stored_codec \<Rightarrow> string \<Rightarrow> (string \<Rightarrow> SourceEvent list \<Rightarrow> SyncWindow \<Rightarrow> SourceEvent list) \<Rightarrow>
    (StoredSourceEventState list \<Rightarrow> string) \<Rightarrow> (source_calendar \<Rightarrow> bool) \<Rightarrow> instant \<Rightarrow> int \<Rightarrow>
    (source_calendar, ingest_error, bool) eff option \<Rightarrow> FetchEventsResult \<Rightarrow>
    (source_calendar, IngestionResult) ingest_eff" where
  "ingest_body cd calendarId overBudget fresh aborted t n isCurrent fetched =
    (case withinRecurrenceBudget overBudget calendarId fetched of
        Inl e \<Rightarrow> eff_throw e
      | Inr es \<Rightarrow> eff_bind (probeCurrency isCurrent) (\<lambda>currency.
            if currency \<noteq> Current
            then eff_bind (set_outcome (probe_name currency)) (\<lambda>_. eff_return EMPTY_INGESTION)
            else eff_bind (\<lambda>s. (Inr (), s\<lparr>igProbePending := True\<rparr>)) (\<lambda>_.
              createIngestionPersistenceTransaction cd fresh aborted t n
                \<lparr>iwRun = persistenceWork cd isCurrent fetched es,
                 iwPreflight = persistTimePreflight isCurrent\<rparr>)))"

lemma calendar_ingest_world:
  assumes "calendar_ingest cd calendarId overBudget fresh aborted t n fetch isCurrent w = (r, s')"
  obtains s1 where "eff_bind (lift_io fetch)
      (ingest_body cd calendarId overBudget fresh aborted t n isCurrent) (ingest_start w) = (r, s1)"
    and "igWorld s' = igWorld s1"
proof -
  have "(ingest_start w)\<lparr>igProbePending := False, igOutcome := None, igFlushed := False\<rparr> = ingest_start w"
    by (simp add: ingest_start_def)
  with assms that show ?thesis
    unfolding calendar_ingest_def ingestSource_def resolvePersistenceTransaction_def
      IngestSourceOptions.select_convs persistence_option.case ingest_body_def [abs_def]
    by (auto split: sum.splits prod.splits)
qed

lemma ingest_rolls_back:
  assumes "keeps (\<lambda>v. v = w) fetch" "\<And>p. isCurrent = Some p \<Longrightarrow> keeps (\<lambda>v. v = w) p"
    and "calendar_ingest cd calendarId overBudget fresh aborted t n fetch isCurrent w = (Inl e, s')"
  shows "igWorld s' = w"
proof -
  have probe: "keeps (\<lambda>s. igWorld s = w) (probeCurrency isCurrent)"
    and pre: "keeps (\<lambda>s. igWorld s = w) (persistTimePreflight isCurrent)"
    using keeps_probe [of isCurrent "\<lambda>v. v = w"] keeps_preflight [of isCurrent "\<lambda>v. v = w"] assms(2)
    by blast+
  have out: "rolls_back w (eff_bind (set_outcome x) (\<lambda>_. eff_return EMPTY_INGESTION))" for x
    by (intro rolls_back_keeps keeps_bind) (simp_all add: keeps_local(1) [of "\<lambda>v. v = w"])
  have "rolls_back w (ingest_body cd calendarId overBudget fresh aborted t n isCurrent fetched)" for fetched
  proof (cases "withinRecurrenceBudget overBudget calendarId fetched")
    case (Inr es)
    let ?work = "\<lparr>iwRun = persistenceWork cd isCurrent fetched es, iwPreflight = persistTimePreflight isCurrent\<rparr>"
    have "rolls_back w (createIngestionPersistenceTransaction cd fresh aborted t n ?work)"
      using pre by (intro rolls_back_transaction) simp
    then have "rolls_back w (eff_bind (\<lambda>s. (Inr (), s\<lparr>igProbePending := True\<rparr>))
        (\<lambda>_. createIngestionPersistenceTransaction cd fresh aborted t n ?work))"
      by (intro rolls_back_bind) (simp_all add: keeps_def)
    with out show ?thesis
      unfolding ingest_body_def Inr sum.case by (intro rolls_back_bind probe) simp
  qed (simp add: rolls_back_keeps ingest_body_def)
  then have "rolls_back w (eff_bind (lift_io fetch)
      (ingest_body cd calendarId overBudget fresh aborted t n isCurrent))"
    by (intro rolls_back_bind keeps_lift [OF assms(1)])
  moreover obtain s1 where "eff_bind (lift_io fetch)
      (ingest_body cd calendarId overBudget fresh aborted t n isCurrent) (ingest_start w) = (Inl e, s1)"
      "igWorld s' = igWorld s1"
    by (rule calendar_ingest_world [OF assms(3)])
  moreover have "igWorld (ingest_start w) = w" by (simp add: ingest_start_def)
  ultimately show ?thesis unfolding rolls_back_def by metis
qed

lemma ingest_keeps_ok:
  assumes "keeps calendar_ok fetch" "\<And>p. isCurrent = Some p \<Longrightarrow> keeps calendar_ok p" "fresh_ok fresh"
    and "calendar_ok w" "calendar_ingest cd calendarId overBudget fresh aborted t n fetch isCurrent w = (r, s')"
  shows "calendar_ok (igWorld s')"
proof -
  let ?K = "keeps (\<lambda>s. calendar_ok (igWorld s))"
  have probe: "?K (probeCurrency isCurrent)" and pre: "?K (persistTimePreflight isCurrent)"
    using keeps_probe [of isCurrent calendar_ok] keeps_preflight [of isCurrent calendar_ok] assms(2)
    by blast+
  have "?K (createIngestionPersistenceTransaction cd fresh aborted t n
      \<lparr>iwRun = persistenceWork cd isCurrent fetched es, iwPreflight = persistTimePreflight isCurrent\<rparr>)" for fetched es
    using pre assms(2,3) by (intro keeps_transaction) (auto intro: keeps_work)
  then have tx: "?K (eff_bind (\<lambda>s. (Inr (), s\<lparr>igProbePending := True\<rparr>)) (\<lambda>_.
      createIngestionPersistenceTransaction cd fresh aborted t n
      \<lparr>iwRun = persistenceWork cd isCurrent fetched es, iwPreflight = persistTimePreflight isCurrent\<rparr>))" for fetched es
    by (intro keeps_bind) (simp_all add: keeps_def)
  have out: "?K (eff_bind (set_outcome x) (\<lambda>_. eff_return EMPTY_INGESTION))" for x
    by (intro keeps_bind) (simp_all add: keeps_local(1) [of calendar_ok])
  have "?K (ingest_body cd calendarId overBudget fresh aborted t n isCurrent fetched)" for fetched
  proof (cases "withinRecurrenceBudget overBudget calendarId fetched")
    case (Inr es)
    from tx out show ?thesis unfolding ingest_body_def Inr sum.case by (intro keeps_bind [OF probe]) simp
  qed (simp add: ingest_body_def)
  then have "?K (eff_bind (lift_io fetch) (ingest_body cd calendarId overBudget fresh aborted t n isCurrent))"
    by (intro keeps_bind keeps_lift [OF assms(1)])
  then have "calendar_ok (igWorld (snd (eff_bind (lift_io fetch)
      (ingest_body cd calendarId overBudget fresh aborted t n isCurrent) (ingest_start w))))"
    using assms(4) by (simp add: keeps_def ingest_start_def)
  with assms(5) show ?thesis by (elim calendar_ingest_world) simp
qed

section \<open>The properties of an ingestion\<close>

lemma dedup_provider:
  assumes "e \<in> set es" "str_truthy (seSourceEventId e)"
  shows "\<exists>d \<in> set (deduplicateIncomingEvents es). seSourceEventId d = seSourceEventId e"
proof -
  from dedup_covers [OF assms(1)] obtain d where d: "d \<in> set (deduplicateIncomingEvents es)"
    "storage_identity d = storage_identity e" by blast
  with assms(2) have "seSourceEventId d = seSourceEventId e"
    by (auto simp: storage_identity_def split: if_splits elim!: str_truthyE)
  with d(1) show ?thesis by blast
qed

lemma dedup_legacy:
  assumes "e \<in> set es" "\<not> str_truthy (seSourceEventId e)"
  shows "\<exists>d \<in> set (deduplicateIncomingEvents es). eventInstanceKey d = eventInstanceKey e"
proof -
  from dedup_covers [OF assms(1)] obtain d where d: "d \<in> set (deduplicateIncomingEvents es)"
    "storage_identity d = storage_identity e" by blast
  with assms(2) have "eventInstanceKey d = eventInstanceKey e"
    by (auto simp: storage_identity_def split: if_splits)
  with d(1) show ?thesis by blast
qed

lemma removed_by_delta_iff:
  "removed_by_delta normalized options x \<longleftrightarrow>
    (let s = exStored x in
     if str_truthy (stSourceEventId s)
     then the (stSourceEventId s) \<in> set (cancelledEventIds options) \<or>
       the (stSourceEventId s) \<in> set (changedEventIds options) \<and>
       (\<forall>e \<in> set normalized. seSourceEventId e \<noteq> stSourceEventId s)
     else stSourceEventUid s \<noteq> None \<and>
       (\<exists>e \<in> set normalized. str_truthy (seSourceEventId e) \<and> eventInstanceKey e = storedInstanceKey s))"
  by (auto simp: removed_by_delta_def Let_def resolveExistingSourceEventInstanceKey_def
      in_incomingProviderIds in_providerBacked elim!: str_truthyE)




text \<open>Why a row leaves the table, by the whole fetch and not by its deduplication.\<close>

definition left_source :: "FetchEventsResult \<Rightarrow> StoredSourceEventState \<Rightarrow> bool" where
  "left_source fetched s =
    (if str_truthy (stSourceEventId s)
     then (\<forall>e \<in> set (frEvents fetched). seSourceEventId e \<noteq> stSourceEventId s) \<or>
       frIsDeltaSync fetched \<and> the (stSourceEventId s) \<in> set (frCancelledEventIds fetched)
     else stSourceEventUid s \<noteq> None \<and>
       ((\<exists>e \<in> set (frEvents fetched). str_truthy (seSourceEventId e) \<and> eventInstanceKey e = storedInstanceKey s) \<or>
        \<not> frIsDeltaSync fetched \<and> (\<forall>e \<in> set (frEvents fetched).
          \<not> str_truthy (seSourceEventId e) \<longrightarrow> eventInstanceKey e \<noteq> storedInstanceKey s)))"

lemma no_provider_id:
  "str_truthy v \<Longrightarrow> \<forall>e \<in> set (deduplicateIncomingEvents es). seSourceEventId e \<noteq> v \<Longrightarrow>
    \<forall>e \<in> set es. seSourceEventId e \<noteq> v"
  using dedup_provider by metis

lemma snapshot_reason:
  assumes "removed_row (deduplicateIncomingEvents (frEvents fetched)) s" "\<not> frIsDeltaSync fetched"
  shows "left_source fetched s"
proof (cases "str_truthy (stSourceEventId s)")
  case True
  with assms no_provider_id show ?thesis by (simp add: removed_row_iff left_source_def)
next
  case False
  let ?n = "deduplicateIncomingEvents (frEvents fetched)"
  from False assms(1) have "stSourceEventUid s \<noteq> None" and
    "(\<exists>e \<in> set ?n. str_truthy (seSourceEventId e) \<and> eventInstanceKey e = storedInstanceKey s) \<or>
     (\<forall>e \<in> set ?n. eventInstanceKey e \<noteq> storedInstanceKey s)"
    by (simp_all add: removed_row_iff)
  moreover from this(2) have
    "(\<exists>e \<in> set (frEvents fetched). str_truthy (seSourceEventId e) \<and> eventInstanceKey e = storedInstanceKey s) \<or>
     (\<forall>e \<in> set (frEvents fetched). \<not> str_truthy (seSourceEventId e) \<longrightarrow> eventInstanceKey e \<noteq> storedInstanceKey s)"
    using dedup_subset dedup_legacy by (metis subsetD)
  ultimately show ?thesis using False assms(2) by (simp add: left_source_def)
qed

lemma delta_reason:
  assumes "removed_by_delta (deduplicateIncomingEvents (frEvents fetched)) options x"
    and "frIsDeltaSync fetched" "cancelledEventIds options = frCancelledEventIds fetched"
  shows "left_source fetched (exStored x)"
proof (cases "str_truthy (stSourceEventId (exStored x))")
  case True
  with assms no_provider_id show ?thesis
    by (auto simp: removed_by_delta_iff left_source_def Let_def)
next
  case False
  with assms dedup_subset show ?thesis
    by (auto simp: removed_by_delta_iff left_source_def Let_def)
qed


section \<open>A concrete ingestion\<close>

text \<open>
  A codec whose \<open>stringify\<close> writes arrays of texts as JSON, a snapshot with a recurring event
  and a single one, and ids longer than every id in use.
\<close>

fun text_json :: "structured \<Rightarrow> json" where
  "text_json (SText s) = JString s"
| "text_json _ = JBool False"

definition sample_codec :: stored_codec where
  "sample_codec =
    \<lparr>cdStringify = (\<lambda>v. case v of SArray vs \<Rightarrow> json_stringify (JArray (map text_json vs)) | _ \<Rightarrow> ''{}''),
     cdLocaleCompare = (\<lambda>_ _. 0), cdJsonParse = (\<lambda>_. Some (SObject [])), cdJsonStringify = (\<lambda>_. ''{}''),
     cdRuleSchema = (\<lambda>v. Inr (None, v)), cdExceptionSchema = Inr\<rparr>"

definition sample_fresh :: "StoredSourceEventState list \<Rightarrow> string" where
  "sample_fresh rows = concat (map stId rows) @ ''r''"

definition sample_source_event :: SourceEvent where
  "sample_source_event =
    \<lparr>startTime = 0, endTime = 3600000, seUid = ''u1'', seSourceEventId = Some ''p1'',
     seSourceEventType = None, seAvailability = None, seIsAllDay = Some False, seStartTimeZone = None,
     seRecurrenceDuration = None, seRecurrenceRule = Some (SObject []), seExceptionDates = None,
     seRecurrenceId = None, seTitle = Some ''Standup'', seDescription = None, seLocation = None\<rparr>"

definition sample_fetch :: FetchEventsResult where
  "sample_fetch =
    \<lparr>frEvents = [sample_source_event,
       sample_source_event\<lparr>seUid := ''u2'', seSourceEventId := Some ''p2'', seRecurrenceRule := None\<rparr>],
     frChangedEventIds = [], frCancelledEventIds = [], frSnapshot = None, frNextSyncToken = None,
     frIsDeltaSync = False, frFullSyncRequired = False, frUnchanged = False, frUnsupportedEventUids = [],
     frSyncWindow = Some \<lparr>timeMin = 0, timeMax = 86400000\<rparr>, frCoverage = None\<rparr>"

definition sample_calendar :: source_calendar where
  "sample_calendar =
    \<lparr>scRows = [(buildEventStateInsertRow sample_codec
         (sample_source_event\<lparr>seTitle := Some ''Planning''\<rparr>))\<lparr>stId := ''r0''\<rparr>],
     scStoredEventCount = None, scSyncToken = None, scCoverage = None, scCoverageRecordedAt = None,
     scSnapshot = None, scIngestSeq = Some 4, txExistingEventCount = None\<rparr>"

definition no_over_budget :: "string \<Rightarrow> SourceEvent list \<Rightarrow> SyncWindow \<Rightarrow> SourceEvent list" where
  "no_over_budget calendarId es window = []"

lemma json_texts_tail_inj:
  "concat (map (\<lambda>z. '','' @ json_quote z) xs) @ '']'' = concat (map (\<lambda>z. '','' @ json_quote z) ys) @ '']'' \<Longrightarrow>
    xs = ys"
proof (induction xs arbitrary: ys)
  case Nil
  then show ?case by (cases ys) auto
next
  case (Cons x xs)
  then obtain y zs where ys: "ys = y # zs" by (cases ys) auto
  with Cons.prems have "x = y \<and> concat (map (\<lambda>z. '','' @ json_quote z) xs) @ '']'' =
      concat (map (\<lambda>z. '','' @ json_quote z) zs) @ '']''"
    by (intro json_quote_append_inj) simp
  with Cons.IH ys show ?case by blast
qed

lemma json_texts_inj:
  assumes "json_stringify (JArray (map JString xs)) = json_stringify (JArray (map JString ys))"
  shows "xs = ys"
proof (cases xs; cases ys)
  fix x xs' y ys' assume "xs = x # xs'" "ys = y # ys'"
  with assms json_quote_append_inj [of x _ y] json_texts_tail_inj [of xs' ys'] show ?thesis
    by (auto simp: intercalate_def comp_def)
qed (use assms in \<open>auto simp: intercalate_def json_quote_def\<close>)

lemma sample_codec_stringify: "stringify_ok sample_codec"
proof -
  have "map text_json (map SText xs) = map JString xs" for xs by simp
  then show ?thesis
    unfolding stringify_ok_def sample_codec_def
    using json_texts_inj by (metis (no_types, lifting) stored_codec.select_convs(1) structured.case(6))
qed

lemma sample_fresh_ok: "fresh_ok sample_fresh"
  unfolding fresh_ok_def sample_fresh_def
proof (intro allI notI)
  fix rows :: "StoredSourceEventState list"
  assume "concat (map stId rows) @ ''r'' \<in> set (map stId rows)"
  then have "length (concat (map stId rows) @ ''r'') \<in> set (map length (map stId rows))"
    by (metis imageI list.set_map)
  from member_le_sum_list [OF this] show False by (simp add: length_concat)
qed

lemma sample_storable: "\<forall>e \<in> set (frEvents sample_fetch). storable sample_codec e"
  by code_simp

lemma sample_table:
  "event_states_ok (scRows sample_calendar)" "readable sample_codec (scRows sample_calendar)"
proof -
  show "event_states_ok (scRows sample_calendar)" by code_simp
  have "storable sample_codec (sample_source_event\<lparr>seTitle := Some ''Planning''\<rparr>)" by code_simp
  from stored_event_reads_back [OF this] show "readable sample_codec (scRows sample_calendar)"
    by (auto simp: readable_def sample_calendar_def)
qed





text \<open>
  The count the flush records adds every upserted row, also one that replaced a stored row: here
  one row is rewritten and one added, two rows remain, and three are recorded.
\<close>

theorem stored_event_count_counts_updates:
  "let w = snd (ingest_flush sample_codec sample_fresh never 7
      (ingestion_changes sample_fetch (frEvents sample_fetch) [])
      (sample_calendar\<lparr>txExistingEventCount := Some 1\<rparr>))
   in length (scRows w) = 2 \<and> scStoredEventCount w = Some 3"
  by code_simp

end
