(* ===== verification/Time_Zone.thy ===== *)
theory Time_Zone
  imports Complex_Main Utc_Date
begin

text \<open>
  Wall-clock times in a named zone: \<open>packages/calendar/src/ics/utils\<close> from the zone
  identifiers a feed or a request may carry (\<open>windows-timezones.ts\<close>,
  \<open>resolve-timezone-identifier.ts\<close>, \<open>normalize-timezone.ts\<close>) to the conversions between
  instants and wall times (\<open>timezone-instant.ts\<close>, \<open>build-zoned-date.ts\<close>).

  The zone database is the host's \<open>Intl\<close>, a parameter of every definition: which
  identifiers it can format, the six numeric parts \<open>formatToParts\<close> yields for an instant, the
  long offset label, and the list of supported zones. The formatter and offset caches of the
  source only save repeated calls of the same pure functions, so they are left out. Offsets in
  minutes are rationals, as a zone may be off by a fraction of a minute. An identifier that names
  a member of \<open>Object.prototype\<close> is outside the model.
\<close>

record wall_parts =
  wp_year :: int
  wp_month :: int
  wp_day :: int
  wp_hour :: int
  wp_minute :: int
  wp_second :: int

record intl =
  intl_canFormat :: "string \<Rightarrow> bool"
  intl_parts :: "string \<Rightarrow> instant \<Rightarrow> wall_parts"
  intl_longOffset :: "string \<Rightarrow> instant \<Rightarrow> string"
  intl_supportedZones :: "string list"

datatype tz_error = UnsupportedTimeZone string | UnresolvableWallTime instant | EmptyTransitionWindow

section \<open>Numbers in labels\<close>

definition digit_char :: "char \<Rightarrow> bool" where
  "digit_char c = (48 \<le> (of_char c :: nat) \<and> (of_char c :: nat) \<le> 57)"

definition number_of_digits :: "string \<Rightarrow> int" where
  "number_of_digits s = fold (\<lambda>c n. 10 * n + (of_char c - 48)) s 0"

definition offsetPartsToMinutes :: "char \<Rightarrow> string \<Rightarrow> string \<Rightarrow> string \<Rightarrow> rat" where
  "offsetPartsToMinutes sign hours minutes seconds =
    (let magnitude = of_int (number_of_digits hours) * 60 + of_int (number_of_digits minutes)
           + of_int (number_of_digits seconds) / 60
     in if sign = CHR ''-'' then - magnitude else magnitude)"

text \<open>\<open>/^GMT(?:([+-])(\d{2}):(\d{2}))?$/\<close>, with a label that does not match as None.\<close>

fun parseLongOffset :: "string \<Rightarrow> rat option" where
  "parseLongOffset [g, m, t] = (if [g, m, t] = ''GMT'' then Some 0 else None)"
| "parseLongOffset [g, m, t, s, h1, h2, c, m1, m2] =
    (if [g, m, t] = ''GMT'' \<and> s \<in> {CHR ''+'', CHR ''-''} \<and> c = CHR '':''
        \<and> digit_char h1 \<and> digit_char h2 \<and> digit_char m1 \<and> digit_char m2
     then Some (offsetPartsToMinutes s [h1, h2] [m1, m2] ''0'') else None)"
| "parseLongOffset _ = None"

definition readTimeZoneOffsetMinutes :: "intl \<Rightarrow> string \<Rightarrow> instant \<Rightarrow> rat option" where
  "readTimeZoneOffsetMinutes intl timeZone t = parseLongOffset (intl_longOffset intl timeZone t)"

section \<open>Zone identifiers\<close>

definition WINDOWS_TO_IANA :: "(string \<times> string) list" where
  "WINDOWS_TO_IANA = [
   (''AUS Central Standard Time'', ''Australia/Darwin''),
   (''AUS Eastern Standard Time'', ''Australia/Sydney''),
   (''Afghanistan Standard Time'', ''Asia/Kabul''),
   (''Alaskan Standard Time'', ''America/Anchorage''),
   (''Alberta Standard Time'', ''America/Edmonton''),
   (''Aleutian Standard Time'', ''America/Adak''),
   (''Altai Standard Time'', ''Asia/Barnaul''),
   (''Arab Standard Time'', ''Asia/Riyadh''),
   (''Arabian Standard Time'', ''Asia/Dubai''),
   (''Arabic Standard Time'', ''Asia/Baghdad''),
   (''Argentina Standard Time'', ''America/Buenos_Aires''),
   (''Astrakhan Standard Time'', ''Europe/Astrakhan''),
   (''Atlantic Standard Time'', ''America/Halifax''),
   (''Aus Central W. Standard Time'', ''Australia/Eucla''),
   (''Azerbaijan Standard Time'', ''Asia/Baku''),
   (''Azores Standard Time'', ''Atlantic/Azores''),
   (''Bahia Standard Time'', ''America/Bahia''),
   (''Bangladesh Standard Time'', ''Asia/Dhaka''),
   (''Belarus Standard Time'', ''Europe/Minsk''),
   (''Bougainville Standard Time'', ''Pacific/Bougainville''),
   (''British Columbia Standard Time'', ''America/Vancouver''),
   (''Canada Central Standard Time'', ''America/Regina''),
   (''Cape Verde Standard Time'', ''Atlantic/Cape_Verde''),
   (''Caucasus Standard Time'', ''Asia/Yerevan''),
   (''Cen. Australia Standard Time'', ''Australia/Adelaide''),
   (''Central America Standard Time'', ''America/Guatemala''),
   (''Central Asia Standard Time'', ''Asia/Bishkek''),
   (''Central Brazilian Standard Time'', ''America/Cuiaba''),
   (''Central Europe Standard Time'', ''Europe/Budapest''),
   (''Central European Standard Time'', ''Europe/Warsaw''),
   (''Central Pacific Standard Time'', ''Pacific/Guadalcanal''),
   (''Central Standard Time'', ''America/Chicago''),
   (''Central Standard Time (Mexico)'', ''America/Mexico_City''),
   (''Chatham Islands Standard Time'', ''Pacific/Chatham''),
   (''China Standard Time'', ''Asia/Shanghai''),
   (''Cuba Standard Time'', ''America/Havana''),
   (''Dateline Standard Time'', ''Etc/GMT+12''),
   (''E. Africa Standard Time'', ''Africa/Nairobi''),
   (''E. Australia Standard Time'', ''Australia/Brisbane''),
   (''E. Europe Standard Time'', ''Europe/Chisinau''),
   (''E. South America Standard Time'', ''America/Sao_Paulo''),
   (''Easter Island Standard Time'', ''Pacific/Easter''),
   (''Eastern Standard Time'', ''America/New_York''),
   (''Eastern Standard Time (Mexico)'', ''America/Cancun''),
   (''Egypt Standard Time'', ''Africa/Cairo''),
   (''Ekaterinburg Standard Time'', ''Asia/Yekaterinburg''),
   (''FLE Standard Time'', ''Europe/Kiev''),
   (''Fiji Standard Time'', ''Pacific/Fiji''),
   (''GMT Standard Time'', ''Europe/London''),
   (''GTB Standard Time'', ''Europe/Bucharest''),
   (''Georgian Standard Time'', ''Asia/Tbilisi''),
   (''Greenland Standard Time'', ''America/Godthab''),
   (''Greenwich Standard Time'', ''Atlantic/Reykjavik''),
   (''Haiti Standard Time'', ''America/Port-au-Prince''),
   (''Hawaiian Standard Time'', ''Pacific/Honolulu''),
   (''India Standard Time'', ''Asia/Calcutta''),
   (''Iran Standard Time'', ''Asia/Tehran''),
   (''Israel Standard Time'', ''Asia/Jerusalem''),
   (''Jordan Standard Time'', ''Asia/Amman''),
   (''Kaliningrad Standard Time'', ''Europe/Kaliningrad''),
   (''Korea Standard Time'', ''Asia/Seoul''),
   (''Libya Standard Time'', ''Africa/Tripoli''),
   (''Line Islands Standard Time'', ''Pacific/Kiritimati''),
   (''Lord Howe Standard Time'', ''Australia/Lord_Howe''),
   (''Magadan Standard Time'', ''Asia/Magadan''),
   (''Magallanes Standard Time'', ''America/Punta_Arenas''),
   (''Manitoba Standard Time'', ''America/Winnipeg''),
   (''Marquesas Standard Time'', ''Pacific/Marquesas''),
   (''Mauritius Standard Time'', ''Indian/Mauritius''),
   (''Middle East Standard Time'', ''Asia/Beirut''),
   (''Montevideo Standard Time'', ''America/Montevideo''),
   (''Morocco Standard Time'', ''Africa/Casablanca''),
   (''Mountain Standard Time'', ''America/Denver''),
   (''Mountain Standard Time (Mexico)'', ''America/Mazatlan''),
   (''Myanmar Standard Time'', ''Asia/Rangoon''),
   (''N. Central Asia Standard Time'', ''Asia/Novosibirsk''),
   (''Namibia Standard Time'', ''Africa/Windhoek''),
   (''Nepal Standard Time'', ''Asia/Katmandu''),
   (''New Zealand Standard Time'', ''Pacific/Auckland''),
   (''Newfoundland Standard Time'', ''America/St_Johns''),
   (''Norfolk Standard Time'', ''Pacific/Norfolk''),
   (''North Asia East Standard Time'', ''Asia/Irkutsk''),
   (''North Asia Standard Time'', ''Asia/Krasnoyarsk''),
   (''North Korea Standard Time'', ''Asia/Pyongyang''),
   (''Omsk Standard Time'', ''Asia/Omsk''),
   (''Pacific SA Standard Time'', ''America/Santiago''),
   (''Pacific Standard Time'', ''America/Los_Angeles''),
   (''Pacific Standard Time (Mexico)'', ''America/Tijuana''),
   (''Pakistan Standard Time'', ''Asia/Karachi''),
   (''Paraguay Standard Time'', ''America/Asuncion''),
   (''Qyzylorda Standard Time'', ''Asia/Qyzylorda''),
   (''Romance Standard Time'', ''Europe/Paris''),
   (''Russia Time Zone 10'', ''Asia/Srednekolymsk''),
   (''Russia Time Zone 11'', ''Asia/Kamchatka''),
   (''Russia Time Zone 3'', ''Europe/Samara''),
   (''Russian Standard Time'', ''Europe/Moscow''),
   (''SA Eastern Standard Time'', ''America/Cayenne''),
   (''SA Pacific Standard Time'', ''America/Bogota''),
   (''SA Western Standard Time'', ''America/La_Paz''),
   (''SE Asia Standard Time'', ''Asia/Bangkok''),
   (''Saint Pierre Standard Time'', ''America/Miquelon''),
   (''Sakhalin Standard Time'', ''Asia/Sakhalin''),
   (''Samoa Standard Time'', ''Pacific/Apia''),
   (''Sao Tome Standard Time'', ''Africa/Sao_Tome''),
   (''Saratov Standard Time'', ''Europe/Saratov''),
   (''Singapore Standard Time'', ''Asia/Singapore''),
   (''South Africa Standard Time'', ''Africa/Johannesburg''),
   (''South Sudan Standard Time'', ''Africa/Juba''),
   (''Sri Lanka Standard Time'', ''Asia/Colombo''),
   (''Sudan Standard Time'', ''Africa/Khartoum''),
   (''Syria Standard Time'', ''Asia/Damascus''),
   (''Taipei Standard Time'', ''Asia/Taipei''),
   (''Tasmania Standard Time'', ''Australia/Hobart''),
   (''Tocantins Standard Time'', ''America/Araguaina''),
   (''Tokyo Standard Time'', ''Asia/Tokyo''),
   (''Tomsk Standard Time'', ''Asia/Tomsk''),
   (''Tonga Standard Time'', ''Pacific/Tongatapu''),
   (''Transbaikal Standard Time'', ''Asia/Chita''),
   (''Turkey Standard Time'', ''Europe/Istanbul''),
   (''Turks And Caicos Standard Time'', ''America/Grand_Turk''),
   (''US Eastern Standard Time'', ''America/Indianapolis''),
   (''US Mountain Standard Time'', ''America/Phoenix''),
   (''UTC'', ''Etc/UTC''),
   (''UTC+12'', ''Etc/GMT-12''),
   (''UTC+13'', ''Etc/GMT-13''),
   (''UTC-02'', ''Etc/GMT+2''),
   (''UTC-08'', ''Etc/GMT+8''),
   (''UTC-09'', ''Etc/GMT+9''),
   (''UTC-11'', ''Etc/GMT+11''),
   (''Ulaanbaatar Standard Time'', ''Asia/Ulaanbaatar''),
   (''Venezuela Standard Time'', ''America/Caracas''),
   (''Vladivostok Standard Time'', ''Asia/Vladivostok''),
   (''Volgograd Standard Time'', ''Europe/Volgograd''),
   (''W. Australia Standard Time'', ''Australia/Perth''),
   (''W. Central Africa Standard Time'', ''Africa/Lagos''),
   (''W. Europe Standard Time'', ''Europe/Berlin''),
   (''W. Mongolia Standard Time'', ''Asia/Hovd''),
   (''West Asia Standard Time'', ''Asia/Tashkent''),
   (''West Bank Standard Time'', ''Asia/Hebron''),
   (''West Pacific Standard Time'', ''Pacific/Port_Moresby''),
   (''Yakutsk Standard Time'', ''Asia/Yakutsk''),
   (''Yukon Standard Time'', ''America/Whitehorse'')]"

datatype ResolvedTimeZone = Iana (rtz_zone: string) | FixedOffset (rtz_zone: string) rat

definition MAX_FIXED_OFFSET_MINUTES :: rat where "MAX_FIXED_OFFSET_MINUTES = 14 * 60"

text \<open>The table is a plain object: the names it inherits, such as \<open>constructor\<close>, are not modelled.\<close>

definition resolveWindowsName :: "string \<Rightarrow> ResolvedTimeZone option" where
  "resolveWindowsName identifier = map_option Iana (map_of WINDOWS_TO_IANA identifier)"

definition resolveIntlName :: "intl \<Rightarrow> string \<Rightarrow> ResolvedTimeZone option" where
  "resolveIntlName intl identifier =
    (if intl_canFormat intl identifier then Some (Iana identifier) else None)"

fun split_on :: "char \<Rightarrow> string \<Rightarrow> string list" where
  "split_on c [] = [[]]"
| "split_on c (x # xs) = (if x = c then [] # split_on c xs
     else (case split_on c xs of [] \<Rightarrow> [[x]] | y # ys \<Rightarrow> (x # y) # ys))"

fun join_with :: "string \<Rightarrow> string list \<Rightarrow> string" where
  "join_with sep [] = []"
| "join_with sep [x] = x"
| "join_with sep (x # y # ys) = x @ sep @ join_with sep (y # ys)"

definition slice_last :: "nat \<Rightarrow> 'a list \<Rightarrow> 'a list" where
  "slice_last n xs = drop (length xs - n) xs"

definition resolvePrefixedName :: "intl \<Rightarrow> string \<Rightarrow> ResolvedTimeZone option" where
  "resolvePrefixedName intl identifier =
    (if take 1 identifier \<noteq> ''/'' then None
     else let segments = filter (\<lambda>s. s \<noteq> []) (split_on (CHR ''/'') identifier);
              candidates = rev (map (\<lambda>i. join_with ''/'' (slice_last (i + 1) segments))
                [0..<min 3 (length segments)])
          in map_option Iana (find (intl_canFormat intl) candidates))"

definition buildConstantOffsetSamples :: "instant list" where
  "buildConstantOffsetSamples =
    concat (map (\<lambda>y. map (\<lambda>m. Date_UTC y m 1) [0, 6]) [1990..2100])"

definition PREFILTER_INSTANTS :: "instant list" where
  "PREFILTER_INSTANTS = [Date_UTC 2026 0 1, Date_UTC 2026 6 1]"

definition holdsOffsetAt :: "intl \<Rightarrow> string \<Rightarrow> rat \<Rightarrow> instant list \<Rightarrow> bool" where
  "holdsOffsetAt intl timeZone offsetMinutes instants =
    list_all (\<lambda>t. readTimeZoneOffsetMinutes intl timeZone t = Some offsetMinutes) instants"

text \<open>The default order of \<open>toSorted()\<close> on strings: lexicographic by code unit.\<close>

fun compare_strings :: "string \<Rightarrow> string \<Rightarrow> int" where
  "compare_strings [] [] = 0"
| "compare_strings [] (y # ys) = -1"
| "compare_strings (x # xs) [] = 1"
| "compare_strings (x # xs) (y # ys) =
    (if (of_char x :: int) < of_char y then -1
     else if (of_char y :: int) < of_char x then 1 else compare_strings xs ys)"

definition searchConstantOffsetZone :: "intl \<Rightarrow> rat \<Rightarrow> string option" where
  "searchConstantOffsetZone intl offsetMinutes =
    (case toSorted compare_strings
        (filter (\<lambda>z. holdsOffsetAt intl z offsetMinutes buildConstantOffsetSamples)
          (filter (\<lambda>z. holdsOffsetAt intl z offsetMinutes PREFILTER_INSTANTS)
            (intl_supportedZones intl))) of
       [] \<Rightarrow> None | z # _ \<Rightarrow> Some z)"

definition formatWholeHourTimeZone :: "int \<Rightarrow> string" where
  "formatWholeHourTimeZone hours =
    (if hours = 0 then ''Etc/UTC''
     else if hours < 0 then ''Etc/GMT+'' @ show_int (- hours)
     else ''Etc/GMT-'' @ show_int hours)"

definition timeZoneForFixedOffset :: "intl \<Rightarrow> rat \<Rightarrow> string option" where
  "timeZoneForFixedOffset intl offsetMinutes =
    (let hours = offsetMinutes / 60
     in if of_int \<lfloor>hours\<rfloor> = hours then Some (formatWholeHourTimeZone \<lfloor>hours\<rfloor>)
        else searchConstantOffsetZone intl offsetMinutes)"

definition readSingleDeclaredOffset :: "rat list \<Rightarrow> rat option" where
  "readSingleDeclaredOffset offsets =
    (case remdups offsets of
       [m] \<Rightarrow> if of_int \<lfloor>m\<rfloor> = m \<and> \<bar>m\<bar> \<le> MAX_FIXED_OFFSET_MINUTES then Some m else None
     | _ \<Rightarrow> None)"

definition resolveDeclaredFixedOffset ::
    "intl \<Rightarrow> string \<Rightarrow> (string \<Rightarrow> rat list option) \<Rightarrow> ResolvedTimeZone option" where
  "resolveDeclaredFixedOffset intl identifier declaredOffsets =
    (case declaredOffsets identifier of None \<Rightarrow> None
     | Some offsets \<Rightarrow>
       (case readSingleDeclaredOffset offsets of None \<Rightarrow> None
        | Some m \<Rightarrow> (case timeZoneForFixedOffset intl m of None \<Rightarrow> None
            | Some z \<Rightarrow> if z = [] then None else Some (FixedOffset z m))))"

definition nullish :: "'a option \<Rightarrow> 'a option \<Rightarrow> 'a option" where
  "nullish x y = (case x of None \<Rightarrow> y | Some v \<Rightarrow> Some v)"

definition resolveTimeZoneIdentifier ::
    "intl \<Rightarrow> string option \<Rightarrow> (string \<Rightarrow> rat list option) \<Rightarrow> ResolvedTimeZone option" where
  "resolveTimeZoneIdentifier intl identifier declaredOffsets =
    (case identifier of None \<Rightarrow> None
     | Some i \<Rightarrow> if i = [] then None
         else nullish (resolveWindowsName i) (nullish (resolveIntlName intl i)
           (nullish (resolvePrefixedName intl i)
             (resolveDeclaredFixedOffset intl i declaredOffsets))))"

definition resolveDeclaredTimeZone ::
    "intl \<Rightarrow> string option \<Rightarrow> (string \<Rightarrow> rat list option) \<Rightarrow> string option" where
  "resolveDeclaredTimeZone intl identifier declaredOffsets =
    map_option rtz_zone (resolveTimeZoneIdentifier intl identifier declaredOffsets)"

definition normalizeTimezone :: "intl \<Rightarrow> string option \<Rightarrow> string option" where
  "normalizeTimezone intl timezone =
    (case timezone of None \<Rightarrow> None
     | Some i \<Rightarrow> if i = [] then None
         else Some (or_else (map_option rtz_zone
           (resolveTimeZoneIdentifier intl (Some i) (\<lambda>_. None))) i))"

definition isSupportedTimeZone :: "intl \<Rightarrow> string option \<Rightarrow> bool" where
  "isSupportedTimeZone intl timeZone =
    (case normalizeTimezone intl timeZone of None \<Rightarrow> True
     | Some z \<Rightarrow> if z = [] then True else intl_canFormat intl z)"

definition resolveTimeZone :: "intl \<Rightarrow> string option \<Rightarrow> tz_error + string option" where
  "resolveTimeZone intl timeZone =
    (case normalizeTimezone intl timeZone of None \<Rightarrow> Inr None
     | Some z \<Rightarrow> if z = [] then Inr None
         else if \<not> isSupportedTimeZone intl (Some z)
         then Inl (UnsupportedTimeZone (or_else timeZone []))
         else Inr (Some z))"

section \<open>Instants and wall times\<close>

definition instantToWallTime :: "intl \<Rightarrow> instant \<Rightarrow> string \<Rightarrow> instant" where
  "instantToWallTime intl t timeZone =
    (let p = intl_parts intl timeZone t
     in Date_UTC (wp_year p) (wp_month p - 1) (wp_day p)
        + (wp_hour p * 3600000 + wp_minute p * 60000 + wp_second p * 1000 + t mod 1000))"

definition getTimeZoneOffsetMilliseconds :: "intl \<Rightarrow> instant \<Rightarrow> string \<Rightarrow> int" where
  "getTimeZoneOffsetMilliseconds intl t timeZone = instantToWallTime intl t timeZone - t"

text \<open>\<open>Math.round\<close> rounds halves up.\<close>

definition math_round :: "rat \<Rightarrow> int" where
  "math_round x = \<lfloor>x + 1 / 2\<rfloor>"

definition getTimeZoneOffsetMinutes :: "intl \<Rightarrow> instant \<Rightarrow> string \<Rightarrow> int" where
  "getTimeZoneOffsetMinutes intl t timeZone =
    math_round (of_int (getTimeZoneOffsetMilliseconds intl t timeZone) / 60000)"

function findTransitionInstant :: "intl \<Rightarrow> instant \<Rightarrow> instant \<Rightarrow> string \<Rightarrow> int \<Rightarrow> instant" where
  "findTransitionInstant intl lower upper timeZone offsetFromMinutes =
    (if upper - lower > 1 then
       (let midpoint = (lower + upper) div 2 in
        if getTimeZoneOffsetMinutes intl midpoint timeZone = offsetFromMinutes
        then findTransitionInstant intl midpoint upper timeZone offsetFromMinutes
        else findTransitionInstant intl lower midpoint timeZone offsetFromMinutes)
     else upper)"
  by pat_completeness auto
termination
  by (relation "measure (\<lambda>(intl, lower, upper, timeZone, offsetFrom). nat (upper - lower))") auto

declare findTransitionInstant.simps [simp del]

record TimeZoneTransition =
  tzInstant :: instant
  offsetFromMinutes :: int
  offsetToMinutes :: int

text \<open>
  The sampling loop: \<open>previousSample\<close> and \<open>previousOffset\<close> are its variables, the sample is
  one day on or the end of the window.
\<close>

function sampleTransitions ::
    "intl \<Rightarrow> string \<Rightarrow> instant \<Rightarrow> instant \<Rightarrow> int \<Rightarrow> TimeZoneTransition list" where
  "sampleTransitions intl timeZone endTime previousSample previousOffset =
    (let sample = min (previousSample + MS_PER_DAY) endTime in
     if previousSample < endTime then
       (let currentOffset = getTimeZoneOffsetMinutes intl sample timeZone;
            found = (if currentOffset \<noteq> previousOffset
              then [\<lparr>tzInstant = findTransitionInstant intl previousSample sample timeZone previousOffset,
                     offsetFromMinutes = previousOffset, offsetToMinutes = currentOffset\<rparr>]
              else [])
        in found @ (if sample = endTime then []
             else sampleTransitions intl timeZone endTime sample currentOffset))
     else [])"
  by pat_completeness auto
termination
  by (relation "measure (\<lambda>(intl, timeZone, endTime, previousSample, previousOffset).
        nat (endTime - previousSample))") (auto simp: MS_PER_DAY_def)

declare sampleTransitions.simps [simp del]

definition findTimeZoneTransitions ::
    "intl \<Rightarrow> string \<Rightarrow> instant \<Rightarrow> instant \<Rightarrow> tz_error + TimeZoneTransition list" where
  "findTimeZoneTransitions intl timeZone startTime endTime =
    (if startTime \<ge> endTime then Inl EmptyTransitionWindow
     else Inr (sampleTransitions intl timeZone endTime startTime
       (getTimeZoneOffsetMinutes intl startTime timeZone)))"

definition PROBE_WINDOW_MS :: int where "PROBE_WINDOW_MS = MS_PER_DAY"

definition ianaOffsetAt :: "intl \<Rightarrow> string \<Rightarrow> instant \<Rightarrow> rat" where
  "ianaOffsetAt intl timeZone t = of_int (getTimeZoneOffsetMilliseconds intl t timeZone) / 60000"

definition offsetMillisecondsAt :: "(instant \<Rightarrow> rat) \<Rightarrow> instant \<Rightarrow> int" where
  "offsetMillisecondsAt offsetAt t = math_round (offsetAt t * 60000)"

definition earliestMatchingInstant ::
    "instant \<Rightarrow> int list \<Rightarrow> (instant \<Rightarrow> rat) \<Rightarrow> instant option" where
  "earliestMatchingInstant desiredTime candidateOffsets offsetAt =
    (case filter (\<lambda>t. offsetMillisecondsAt offsetAt t = desiredTime - t)
        (map (\<lambda>offset. desiredTime - offset) candidateOffsets) of
       [] \<Rightarrow> None | m # ms \<Rightarrow> Some (fold min ms m))"

definition shiftAcrossGap :: "instant \<Rightarrow> int \<Rightarrow> instant" where
  "shiftAcrossGap desiredTime offsetBefore = desiredTime - offsetBefore"

definition wallTimeToInstantWith :: "instant \<Rightarrow> (instant \<Rightarrow> rat) \<Rightarrow> tz_error + instant" where
  "wallTimeToInstantWith wallTime offsetAt =
    (let offsetBefore = offsetMillisecondsAt offsetAt (wallTime - PROBE_WINDOW_MS);
         offsetAfter = offsetMillisecondsAt offsetAt (wallTime + PROBE_WINDOW_MS)
     in if offsetBefore = offsetAfter then Inr (wallTime - offsetBefore)
        else (case earliestMatchingInstant wallTime [offsetBefore, offsetAfter] offsetAt of
            Some earliest \<Rightarrow> Inr earliest
          | None \<Rightarrow> if offsetAfter > offsetBefore
              then Inr (shiftAcrossGap wallTime offsetBefore)
              else Inl (UnresolvableWallTime wallTime)))"

definition wallTimeToInstant :: "intl \<Rightarrow> instant \<Rightarrow> string \<Rightarrow> tz_error + instant" where
  "wallTimeToInstant intl wallTime timeZone =
    (case wallTimeToInstantWith wallTime (ianaOffsetAt intl timeZone) of
       Inl _ \<Rightarrow> Inl (UnresolvableWallTime wallTime) | Inr t \<Rightarrow> Inr t)"

section \<open>Zoned dates for a written calendar object\<close>

definition formatTzOffset :: "int \<Rightarrow> string" where
  "formatTzOffset offsetMs =
    (let totalMinutes = math_round (of_int \<bar>offsetMs\<bar> / 60000)
     in (if offsetMs < 0 then ''-'' else ''+'') @ pad_left 2 (totalMinutes div 60) @ '':''
        @ pad_left 2 (totalMinutes mod 60))"

definition formatIcsUtcOffset :: "int \<Rightarrow> string" where
  "formatIcsUtcOffset offsetMinutes =
    (if offsetMinutes < 0 then ''-'' else ''+'') @ pad_left 2 (\<bar>offsetMinutes\<bar> div 60)
    @ pad_left 2 (\<bar>offsetMinutes\<bar> mod 60)"

record IcsLocalDate =
  ildDate :: instant
  ildTimezone :: string
  ildTzoffset :: string

record IcsDateObject =
  icsDate :: instant
  icsIsDate :: bool
  icsLocal :: "IcsLocalDate option"

definition buildZonedIcsDate ::
    "intl \<Rightarrow> instant \<Rightarrow> string option \<Rightarrow> bool \<Rightarrow> tz_error + IcsDateObject" where
  "buildZonedIcsDate intl t timezone isAllDay =
    (let utc = \<lparr>icsDate = t, icsIsDate = False, icsLocal = None\<rparr> in
     if isAllDay then Inr (utc\<lparr>icsIsDate := True\<rparr>)
     else (case normalizeTimezone intl timezone of None \<Rightarrow> Inr utc
       | Some resolved \<Rightarrow>
         if resolved = [] \<or> \<not> isSupportedTimeZone intl (Some resolved) then Inr utc
         else (let localDate = instantToWallTime intl t resolved in
           (case wallTimeToInstant intl localDate resolved of
              Inl e \<Rightarrow> Inl e
            | Inr back \<Rightarrow> if back \<noteq> t then Inr utc
                else Inr (utc\<lparr>icsLocal := Some \<lparr>ildDate = localDate, ildTimezone = resolved,
                  ildTzoffset = formatTzOffset (localDate - t)\<rparr>\<rparr>)))))"

end
