(* ===== verification/Time_Zone_Correct.thy ===== *)
theory Time_Zone_Correct
  imports Time_Zone
begin

text \<open>
  What the wall-clock conversions of \<open>timezone-instant.ts\<close> compute, for a zone whose offset
  changes at most once in the probed days: the resolved instant is the earliest one that shows the
  wall time, a wall time inside a forward gap moves past it by the gap, and the transition table
  found by sampling and bisection reproduces the zone's offset at every instant of its window.
\<close>

section \<open>Offsets\<close>

lemma math_round_of_int [simp]: "math_round (of_int m) = m"
  by (simp add: math_round_def floor_eq_iff)

lemma offsetMilliseconds_iana [simp]:
  "offsetMillisecondsAt (ianaOffsetAt intl z) t = getTimeZoneOffsetMilliseconds intl t z"
  by (simp add: offsetMillisecondsAt_def ianaOffsetAt_def)

lemma offsetMilliseconds_iana_fun:
  "offsetMillisecondsAt (ianaOffsetAt intl z) = (\<lambda>t. getTimeZoneOffsetMilliseconds intl t z)"
  by (rule ext) simp

lemma wall_time_offset:
  "instantToWallTime intl t z = t + getTimeZoneOffsetMilliseconds intl t z"
  by (simp add: getTimeZoneOffsetMilliseconds_def)

section \<open>Resolving a wall time\<close>

text \<open>A zone that keeps one offset up to an instant and another from it on, around a wall time.\<close>

definition changes_once :: "(instant \<Rightarrow> int) \<Rightarrow> instant \<Rightarrow> instant \<Rightarrow> int \<Rightarrow> int \<Rightarrow> bool" where
  "changes_once off w tr a b \<longleftrightarrow>
    (\<forall>t. \<bar>t - w\<bar> \<le> MS_PER_DAY \<longrightarrow> off t = (if t < tr then a else b)) \<and>
    \<bar>a\<bar> \<le> MS_PER_DAY \<and> \<bar>b\<bar> \<le> MS_PER_DAY"

lemma changes_onceD:
  "changes_once off w tr a b \<Longrightarrow> \<bar>t - w\<bar> \<le> MS_PER_DAY \<Longrightarrow> off t = (if t < tr then a else b)"
  "changes_once off w tr a b \<Longrightarrow> \<bar>a\<bar> \<le> MS_PER_DAY"
  "changes_once off w tr a b \<Longrightarrow> \<bar>b\<bar> \<le> MS_PER_DAY"
  by (auto simp: changes_once_def)

text \<open>The instants near \<open>w\<close> whose wall time is \<open>w\<close>: at most the two candidates.\<close>

lemma shows_wall_time_iff:
  assumes "changes_once off w tr a b"
  shows "\<bar>t - w\<bar> \<le> MS_PER_DAY \<and> t + off t = w \<longleftrightarrow>
    t = w - a \<and> w - a < tr \<or> t = w - b \<and> tr \<le> w - b"
  using changes_onceD(1) [OF assms, of t] changes_onceD(2,3) [OF assms]
  by (auto split: if_splits)

lemma earliest_pair:
  "earliestMatchingInstant w [a, b] offsetAt =
    (if offsetMillisecondsAt offsetAt (w - a) = a then
       if offsetMillisecondsAt offsetAt (w - b) = b then Some (min (w - b) (w - a)) else Some (w - a)
     else if offsetMillisecondsAt offsetAt (w - b) = b then Some (w - b) else None)"
  by (simp add: earliestMatchingInstant_def)

definition near_instants :: "(instant \<Rightarrow> int) \<Rightarrow> instant \<Rightarrow> instant set" where
  "near_instants off w = {t. \<bar>t - w\<bar> \<le> MS_PER_DAY \<and> t + off t = w}"

lemma near_instants_cases:
  assumes "changes_once off w tr a b"
  shows "near_instants off w = (if w - a < tr then {w - a} else {}) \<union> (if tr \<le> w - b then {w - b} else {})"
  unfolding near_instants_def shows_wall_time_iff [OF assms] by auto

lemma wallTimeToInstantWith_resolves:
  assumes once: "changes_once (offsetMillisecondsAt f) w tr a b"
  shows "wallTimeToInstantWith w f =
    Inr (if w - a < tr then min (w - a) (if tr \<le> w - b then w - b else w - a)
         else if tr \<le> w - b then w - b else w - a)"
proof -
  let ?off = "offsetMillisecondsAt f"
  note at = changes_onceD(1) [OF once] and bounds = changes_onceD(2,3) [OF once]
  have before: "?off (w - MS_PER_DAY) = (if w - MS_PER_DAY < tr then a else b)"
    and after: "?off (w + MS_PER_DAY) = (if w + MS_PER_DAY < tr then a else b)"
    and atA: "?off (w - a) = (if w - a < tr then a else b)"
    and atB: "?off (w - b) = (if w - b < tr then a else b)"
    using at [of "w - MS_PER_DAY"] at [of "w + MS_PER_DAY"] at [of "w - a"] at [of "w - b"] bounds
    by (simp_all add: MS_PER_DAY_def)
  note unfold = wallTimeToInstantWith_def PROBE_WINDOW_MS_def Let_def earliest_pair shiftAcrossGap_def
  consider "tr \<le> w - MS_PER_DAY" | "w + MS_PER_DAY < tr"
    | "\<not> tr \<le> w - MS_PER_DAY" "\<not> w + MS_PER_DAY < tr" by blast
  then show ?thesis
  proof cases
    case 1
    then have "tr \<le> w - a" "tr \<le> w - b" using bounds by auto
    moreover have "?off (w - MS_PER_DAY) = b" "?off (w + MS_PER_DAY) = b"
      using 1 before after by (auto simp: MS_PER_DAY_def)
    ultimately show ?thesis by (simp add: unfold)
  next
    case 2
    then have "w - a < tr" "w - b < tr" using bounds by auto
    moreover have "?off (w - MS_PER_DAY) = a" "?off (w + MS_PER_DAY) = a"
      using 2 before after by (auto simp: MS_PER_DAY_def)
    ultimately show ?thesis by (simp add: unfold)
  next
    case 3
    then have "?off (w - MS_PER_DAY) = a" "?off (w + MS_PER_DAY) = b"
      using before after by auto
    then show ?thesis by (auto simp: unfold atA atB)
  qed
qed

text \<open>For a zone that changes its offset at most once in the two days around a wall time, and
  by less than a day, \<open>wallTimeToInstant\<close> returns: the earliest instant whose wall time it is
  where there is one, so a repeated hour is read as its first pass; and for a wall time that a
  forward change skips, the instant whose wall time lies later by exactly the skipped span.\<close>

theorem wall_time_resolution:
  assumes "changes_once (\<lambda>t. getTimeZoneOffsetMilliseconds intl t z) w tr a b"
  shows "\<exists>i. wallTimeToInstant intl w z = Inr i \<and>
    (if \<exists>t. \<bar>t - w\<bar> \<le> MS_PER_DAY \<and> instantToWallTime intl t z = w
     then instantToWallTime intl i z = w \<and>
       (\<forall>t. \<bar>t - w\<bar> \<le> MS_PER_DAY \<and> instantToWallTime intl t z = w \<longrightarrow> i \<le> t)
     else tr \<le> i \<and> a < b \<and> instantToWallTime intl i z = w + (b - a))"
proof -
  let ?off = "\<lambda>t. getTimeZoneOffsetMilliseconds intl t z"
  define i where "i = (if w - a < tr then min (w - a) (if tr \<le> w - b then w - b else w - a)
         else if tr \<le> w - b then w - b else w - a)"
  have eq: "wallTimeToInstant intl w z = Inr i"
    using wallTimeToInstantWith_resolves [of "ianaOffsetAt intl z" w tr a b] assms
    by (simp only: offsetMilliseconds_iana_fun wallTimeToInstant_def i_def sum.case)
  have near: "near_instants ?off w =
      (if w - a < tr then {w - a} else {}) \<union> (if tr \<le> w - b then {w - b} else {})"
    by (rule near_instants_cases [OF assms])
  have mem: "\<bar>t - w\<bar> \<le> MS_PER_DAY \<and> instantToWallTime intl t z = w \<longleftrightarrow> t \<in> near_instants ?off w" for t
    by (simp add: near_instants_def wall_time_offset)
  have gap: "?off (w - a) = b" if "tr \<le> w - a"
    using changes_onceD(1) [OF assms, of "w - a"] changes_onceD(2) [OF assms] that by simp
  show ?thesis
  proof (cases "near_instants ?off w = {}")
    case True
    then have "tr \<le> w - a" "w - b < tr" unfolding near by (auto split: if_splits)
    with gap True show ?thesis
      unfolding eq mem by (auto simp: i_def wall_time_offset)
  next
    case False
    then have "i \<in> near_instants ?off w" "\<forall>t \<in> near_instants ?off w. i \<le> t"
      unfolding near by (auto simp: i_def min_def split: if_splits)
    with False show ?thesis
      unfolding eq mem by (metis (mono_tags, lifting) ex_in_conv mem)
  qed
qed

section \<open>Finding the transitions\<close>

lemma findTransitionInstant_bisects:
  assumes "lower < upper" "getTimeZoneOffsetMinutes intl lower z = from"
    "getTimeZoneOffsetMinutes intl upper z \<noteq> from"
  shows "lower < findTransitionInstant intl lower upper z from
    \<and> findTransitionInstant intl lower upper z from \<le> upper
    \<and> getTimeZoneOffsetMinutes intl (findTransitionInstant intl lower upper z from - 1) z = from
    \<and> getTimeZoneOffsetMinutes intl (findTransitionInstant intl lower upper z from) z \<noteq> from"
  using assms
proof (induction intl lower upper z "from" rule: findTransitionInstant.induct)
  case (1 intl lower upper z "from")
  define mid where "mid = (lower + upper) div 2"
  show ?case
  proof (cases "upper - lower > 1")
    case True
    then have mid: "lower < mid" "mid < upper" by (auto simp: mid_def)
    show ?thesis
    proof (cases "getTimeZoneOffsetMinutes intl mid z = from")
      case eq: True
      have "findTransitionInstant intl lower upper z from = findTransitionInstant intl mid upper z from"
        using True eq by (subst findTransitionInstant.simps) (simp add: mid_def Let_def)
      with 1(1) [OF True mid_def eq mid(2) eq 1(5)] mid show ?thesis by simp
    next
      case neq: False
      have "findTransitionInstant intl lower upper z from = findTransitionInstant intl lower mid z from"
        using True neq by (subst findTransitionInstant.simps) (simp add: mid_def Let_def)
      with 1(2) [OF True mid_def neq mid(1) 1(4) neq] mid show ?thesis by simp
    qed
  next
    case False
    with 1(3) have "upper - 1 = lower" by simp
    with False 1 show ?thesis by (simp add: findTransitionInstant.simps [of intl lower upper z "from"])
  qed
qed

text \<open>The offset that a table of transitions gives an instant.\<close>

definition offset_by_table :: "int \<Rightarrow> TimeZoneTransition list \<Rightarrow> instant \<Rightarrow> int" where
  "offset_by_table initial ts t =
    fold (\<lambda>tr offset. if tzInstant tr \<le> t then offsetToMinutes tr else offset) ts initial"

definition one_change_a_day :: "(instant \<Rightarrow> int) \<Rightarrow> instant \<Rightarrow> instant \<Rightarrow> bool" where
  "one_change_a_day off s e \<longleftrightarrow>
    (\<forall>u v. s \<le> u \<and> u < v \<and> v \<le> e \<and> v \<le> u + MS_PER_DAY \<longrightarrow>
      (\<exists>tr. \<forall>t. u \<le> t \<and> t \<le> v \<longrightarrow> off t = (if t < tr then off u else off v)))"

lemma offset_by_table_simps [simp]:
  "offset_by_table i [] t = i"
  "offset_by_table i (x # ts) t =
    offset_by_table (if tzInstant x \<le> t then offsetToMinutes x else i) ts t"
  by (simp_all add: offset_by_table_def)

lemma offset_by_table_append:
  "offset_by_table i (xs @ ys) t = offset_by_table (offset_by_table i xs t) ys t"
  by (simp add: offset_by_table_def)

lemma offset_by_table_later:
  "\<forall>x \<in> set ts. t < tzInstant x \<Longrightarrow> offset_by_table i ts t = i"
  by (induction ts) auto


text \<open>One sampled day: what it adds to the table gives the offsets of that day.\<close>

lemma sampled_day:
  fixes intl z
  defines "off \<equiv> \<lambda>t. getTimeZoneOffsetMinutes intl t z"
  assumes change: "\<forall>t. u \<le> t \<and> t \<le> v \<longrightarrow> off t = (if t < tr then off u else off v)" and "u < v"
  defines "found \<equiv> if off v \<noteq> off u
    then [\<lparr>tzInstant = findTransitionInstant intl u v z (off u), offsetFromMinutes = off u,
      offsetToMinutes = off v\<rparr>] else []"
  shows "\<forall>x \<in> set found. u < tzInstant x \<and> tzInstant x \<le> v"
    "u \<le> t \<Longrightarrow> t \<le> v \<Longrightarrow> offset_by_table (off u) found t = off t"
    "v \<le> t \<Longrightarrow> offset_by_table (off u) found t = off v"
proof -
  let ?r = "findTransitionInstant intl u v z (off u)"
  have r: "u < ?r" "?r \<le> v" "?r = tr" if "off v \<noteq> off u"
  proof -
    note b = findTransitionInstant_bisects [OF \<open>u < v\<close>, of intl z "off u"]
    have props: "u < ?r" "?r \<le> v" "off (?r - 1) = off u" "off ?r \<noteq> off u"
      using b that by (simp_all add: off_def)
    then show "u < ?r" "?r \<le> v" by auto
    have "off (?r - 1) = (if ?r - 1 < tr then off u else off v)"
      "off ?r = (if ?r < tr then off u else off v)"
      by (rule change [THEN spec, THEN mp], use props(1,2) in linarith)+
    with props(3,4) that have "?r - 1 < tr" "\<not> ?r < tr" by (auto split: if_splits)
    then show "?r = tr" by simp
  qed
  show "\<forall>x \<in> set found. u < tzInstant x \<and> tzInstant x \<le> v"
    using r by (simp add: found_def)
  show "offset_by_table (off u) found t = off t" if "u \<le> t" "t \<le> v"
  proof -
    have "off t = (if t < tr then off u else off v)" using change that by blast
    then show ?thesis using r(3) by (cases "off v = off u") (auto simp: found_def)
  qed
  show "offset_by_table (off u) found t = off v" if "v \<le> t"
    using r(2) that by (cases "off v = off u") (auto simp: found_def)
qed

lemma sampleTransitions_table:
  assumes "one_change_a_day (\<lambda>t. getTimeZoneOffsetMinutes intl t z) s e" "s \<le> p" "p < e"
    "prev = getTimeZoneOffsetMinutes intl p z"
  shows "(\<forall>x \<in> set (sampleTransitions intl z e p prev). p < tzInstant x \<and> tzInstant x \<le> e) \<and>
    sorted_wrt (\<lambda>x y. tzInstant x < tzInstant y) (sampleTransitions intl z e p prev) \<and>
    (\<forall>t. p \<le> t \<and> t \<le> e \<longrightarrow>
      offset_by_table prev (sampleTransitions intl z e p prev) t = getTimeZoneOffsetMinutes intl t z)"
  using assms
proof (induction intl z e p prev rule: sampleTransitions.induct)
  case (1 intl z e p prev)
  let ?off = "\<lambda>t. getTimeZoneOffsetMinutes intl t z"
  define v where "v = min (p + MS_PER_DAY) e"
  define found where "found = (if ?off v \<noteq> prev
    then [\<lparr>tzInstant = findTransitionInstant intl p v z prev, offsetFromMinutes = prev,
      offsetToMinutes = ?off v\<rparr>] else [])"
  define rest where "rest = (if v = e then [] else sampleTransitions intl z e v (?off v))"
  have v: "p < v" "v \<le> e" "v \<le> p + MS_PER_DAY"
    using \<open>p < e\<close> by (auto simp: v_def MS_PER_DAY_def)
  have unfolded: "sampleTransitions intl z e p prev = found @ rest"
    using \<open>p < e\<close> by (subst sampleTransitions.simps) (simp add: Let_def v_def found_def rest_def)
  obtain tr where tr: "\<forall>t. p \<le> t \<and> t \<le> v \<longrightarrow> ?off t = (if t < tr then ?off p else ?off v)"
    using 1(2,3) v unfolding one_change_a_day_def by blast
  note day = sampled_day [OF tr v(1), folded 1(5), folded found_def]
  have rest: "(\<forall>x \<in> set rest. v < tzInstant x \<and> tzInstant x \<le> e) \<and>
      sorted_wrt (\<lambda>x y. tzInstant x < tzInstant y) rest \<and>
      (\<forall>t. v \<le> t \<and> t \<le> e \<longrightarrow> offset_by_table (?off v) rest t = ?off t)"
  proof (cases "v = e")
    case False
    then show ?thesis
      using 1(1) [OF v_def \<open>p < e\<close> refl refl False] 1(2,3) v
      by (simp add: rest_def)
  qed (auto simp: rest_def)
  have table: "offset_by_table prev (found @ rest) t = ?off t" if "p \<le> t" "t \<le> e" for t
  proof (cases "t < v")
    case True
    then have "\<forall>x \<in> set rest. t < tzInstant x" using rest by auto
    then show ?thesis using True that day(2) by (simp add: offset_by_table_append offset_by_table_later)
  next
    case False
    then show ?thesis using rest that day(3) by (simp add: offset_by_table_append)
  qed
  have "sorted_wrt (\<lambda>x y. tzInstant x < tzInstant y) found" by (simp add: found_def)
  with rest day(1) have "sorted_wrt (\<lambda>x y. tzInstant x < tzInstant y) (found @ rest)"
    by (fastforce simp: sorted_wrt_append)
  moreover have "\<forall>x \<in> set (found @ rest). p < tzInstant x \<and> tzInstant x \<le> e"
    using rest day(1) v by fastforce
  ultimately show ?case unfolding unfolded using table by simp
qed


text \<open>C40: Where the offset of a zone changes at most once a day, \<open>findTimeZoneTransitions\<close>
  gives the zone back: the transitions are strictly ordered and inside the window, and for every
  instant of the window the offset of the last transition at or before it (the offset at the start,
  before the first) is the zone's offset there.\<close>

theorem transition_table_is_the_zone:
  assumes "one_change_a_day (\<lambda>t. getTimeZoneOffsetMinutes intl t z) s e" and "s < e"
  shows "\<exists>ts. findTimeZoneTransitions intl z s e = Inr ts \<and>
    sorted_wrt (\<lambda>x y. tzInstant x < tzInstant y) ts \<and>
    (\<forall>x \<in> set ts. s < tzInstant x \<and> tzInstant x \<le> e) \<and>
    (\<forall>t. s \<le> t \<and> t \<le> e \<longrightarrow>
      offset_by_table (getTimeZoneOffsetMinutes intl s z) ts t = getTimeZoneOffsetMinutes intl t z)"
  using sampleTransitions_table [OF assms(1) order.refl assms(2) refl] assms(2)
  by (simp add: findTimeZoneTransitions_def)

section \<open>A zone with a change\<close>

text \<open>
  The witnesses run on a zone that moves its clock forward by an hour at the epoch: the wall times
  from 00:00 to 01:00 are skipped.
\<close>

definition shifted_parts :: "instant \<Rightarrow> wall_parts" where
  "shifted_parts w = \<lparr>wp_year = getUTCFullYear w, wp_month = getUTCMonth w + 1, wp_day = getUTCDate w,
    wp_hour = time_within_day w div 3600000, wp_minute = time_within_day w div 60000 mod 60,
    wp_second = time_within_day w div 1000 mod 60\<rparr>"

definition spring_zone :: intl where
  "spring_zone = \<lparr>intl_canFormat = \<lambda>z. z = ''Spring'',
    intl_parts = \<lambda>z t. shifted_parts (if t < 0 then t else t + 3600000),
    intl_longOffset = \<lambda>z t. if t < 0 then ''GMT'' else ''GMT+01:00'', intl_supportedZones = [''Spring'']\<rparr>"

lemma shifted_parts_wall_time:
  assumes "99 < getUTCFullYear w"
  shows "Date_UTC (wp_year (shifted_parts w)) (wp_month (shifted_parts w) - 1) (wp_day (shifted_parts w))
    + (wp_hour (shifted_parts w) * 3600000 + wp_minute (shifted_parts w) * 60000
       + wp_second (shifted_parts w) * 1000 + w mod 1000) = w"
proof -
  have clock: "x div 3600000 * 3600000 + x div 60000 mod 60 * 60000 + x div 1000 mod 60 * 1000 + x mod 1000 = x"
    for x :: int
  proof -
    have "x div 3600000 = x div 60000 div 60" "x div 60000 = x div 1000 div 60"
      using zdiv_zmult2_eq [of 60 x 60000] zdiv_zmult2_eq [of 60 x 1000] by simp_all
    then show ?thesis
      using div_mult_mod_eq [of x 1000] div_mult_mod_eq [of "x div 1000" 60]
        div_mult_mod_eq [of "x div 60000" 60] by linarith
  qed
  have "w mod 1000 = time_within_day w mod 1000"
    by (simp add: time_within_day_def MS_PER_DAY_def mod_mod_cancel)
  moreover have "Date_UTC (wp_year (shifted_parts w)) (wp_month (shifted_parts w) - 1)
      (wp_day (shifted_parts w)) = utc_day w * MS_PER_DAY"
    using assms by (simp add: shifted_parts_def Date_UTC_def getUTCFullYear_def getUTCMonth_def
        getUTCDate_def make_day_fields make_date_def)
  moreover have "utc_day w * MS_PER_DAY + time_within_day w = w"
    using make_date_id [of w] by (simp add: make_date_def)
  ultimately show ?thesis
    using clock [of "time_within_day w"] unfolding shifted_parts_def wall_parts.select_convs by linarith
qed

lemma spring_zone_wall_time:
  assumes "- 172800000 \<le> t" "t \<le> 172800000"
  shows "getTimeZoneOffsetMilliseconds spring_zone t z = (if t < 0 then 0 else 3600000)"
proof -
  define w where "w = (if t < 0 then t else t + 3600000)"
  have "-2 \<le> w div 86400000" "w div 86400000 \<le> 2"
    using assms by (auto simp: w_def)
  then have "w div 86400000 \<in> {-2, -1, 0, 1, 2}" by auto
  then have "year_from_day (w div 86400000) \<in> {1969, 1970}"
    by (auto simp: year_from_day_def day_from_year_def)
  then have "99 < getUTCFullYear w"
    by (auto simp: getUTCFullYear_def utc_day_def MS_PER_DAY_def)
  moreover have "t mod 1000 = w mod 1000" 
    using mod_mult_self1 [of t 3600 1000] by (simp add: w_def)
  ultimately have "instantToWallTime spring_zone t z = w"
    using shifted_parts_wall_time [of w]
    by (simp add: instantToWallTime_def spring_zone_def Let_def flip: w_def)
  then show ?thesis by (simp add: getTimeZoneOffsetMilliseconds_def w_def)
qed

theorem wall_time_resolution_witness:
  "changes_once (\<lambda>t. getTimeZoneOffsetMilliseconds spring_zone t ''Spring'') 1800000 0 0 3600000 \<and>
    (\<exists>i. wallTimeToInstant spring_zone 1800000 ''Spring'' = Inr i \<and>
      0 \<le> i \<and> instantToWallTime spring_zone i ''Spring'' = 5400000)"
proof -
  have once: "changes_once (\<lambda>t. getTimeZoneOffsetMilliseconds spring_zone t ''Spring'') 1800000 0 0 3600000"
    by (auto simp: changes_once_def spring_zone_wall_time MS_PER_DAY_def)
  have "instantToWallTime spring_zone t ''Spring'' \<noteq> 1800000" if "\<bar>t - 1800000\<bar> \<le> MS_PER_DAY" for t
    using that spring_zone_wall_time [of t "''Spring''"]
    by (auto simp: wall_time_offset MS_PER_DAY_def)
  with wall_time_resolution [OF once] once show ?thesis
    by (auto split: if_splits)
qed

theorem transition_table_is_the_zone_witness:
  "one_change_a_day (\<lambda>t. getTimeZoneOffsetMinutes spring_zone t ''Spring'') (- 3600000) 3600000 \<and>
    (\<exists>ts. findTimeZoneTransitions spring_zone ''Spring'' (- 3600000) 3600000 = Inr ts \<and>
      offset_by_table 0 ts 0 = 60)"
proof -
  have off: "getTimeZoneOffsetMinutes spring_zone t ''Spring'' = (if t < 0 then 0 else 60)"
    if "- 3600000 \<le> t" "t \<le> 3600000" for t
    using that spring_zone_wall_time [of t "''Spring''"]
    by (simp add: getTimeZoneOffsetMinutes_def math_round_def floor_eq_iff)
  have "\<exists>tr. \<forall>t. u \<le> t \<and> t \<le> v \<longrightarrow> getTimeZoneOffsetMinutes spring_zone t ''Spring'' =
      (if t < tr then getTimeZoneOffsetMinutes spring_zone u ''Spring''
       else getTimeZoneOffsetMinutes spring_zone v ''Spring'')"
    if "- 3600000 \<le> u" "u < v" "v \<le> 3600000" for u v
  proof (intro exI allI impI)
    fix t assume "u \<le> t \<and> t \<le> v"
    then show "getTimeZoneOffsetMinutes spring_zone t ''Spring'' =
      (if t < (if u < 0 \<and> 0 \<le> v then 0 else u) then getTimeZoneOffsetMinutes spring_zone u ''Spring''
       else getTimeZoneOffsetMinutes spring_zone v ''Spring'')"
      using that off [of t] off [of u] off [of v] by (auto split: if_splits)
  qed
  then have one: "one_change_a_day (\<lambda>t. getTimeZoneOffsetMinutes spring_zone t ''Spring'') (- 3600000) 3600000"
    unfolding one_change_a_day_def by blast
  obtain ts where "findTimeZoneTransitions spring_zone ''Spring'' (- 3600000) 3600000 = Inr ts"
    and table: "\<forall>t. - 3600000 \<le> t \<and> t \<le> 3600000 \<longrightarrow>
      offset_by_table (getTimeZoneOffsetMinutes spring_zone (- 3600000) ''Spring'') ts t =
      getTimeZoneOffsetMinutes spring_zone t ''Spring''"
    using transition_table_is_the_zone [OF one] by auto
  moreover have "offset_by_table 0 ts 0 = 60"
    using spec [OF table, of 0] off [of 0] off [of "- 3600000"] by simp
  ultimately show ?thesis using one by blast
qed

end
