(* ===== verification/Free_Time.thy ===== *)
theory Free_Time
  imports Time_Zone_Correct Time_Range
begin

text \<open>
  The free-time search of the API: \<open>services/api/src/utils/free-time.ts\<close>, the zone resolution of
  \<open>request-time-zone.ts\<close>, and the busy intervals of \<open>queries/find-free-time.ts\<close>. The lemmas
  read a list of intervals as the set of instants it covers: merging keeps that set, subtracting is
  set difference, and the slots found are exactly the free spans of the candidate windows that are
  long enough. Request numbers are rationals; the rows a query returns are a parameter.
\<close>

datatype free_time_error = FreeTimeValidationError string | ZoneRangeError tz_error

section \<open>Request parameters\<close>

definition js_space :: "char \<Rightarrow> bool" where
  "js_space c = ((of_char c :: nat) \<in> {9, 10, 11, 12, 13, 32, 160})"

definition js_trim :: "string \<Rightarrow> string" where
  "js_trim s = rev (dropWhile js_space (rev (dropWhile js_space s)))"

text \<open>
  \<open>Number(text)\<close>: blank text is zero; otherwise a sign, digits with at most one point and an
  optional exponent, or an unsigned literal in base 2, 8 or 16. None is NaN or an infinity.
\<close>

definition digit_value :: "char \<Rightarrow> nat" where
  "digit_value c = (let n = of_char c in
    if 48 \<le> n \<and> n \<le> 57 then n - 48 else if 97 \<le> n \<and> n \<le> 122 then n - 87
    else if 65 \<le> n \<and> n \<le> 90 then n - 55 else 99)"

definition digits_in_base :: "nat \<Rightarrow> string \<Rightarrow> rat option" where
  "digits_in_base base s =
    (if s \<noteq> [] \<and> list_all (\<lambda>c. digit_value c < base) s
     then Some (of_nat (fold (\<lambda>c n. base * n + digit_value c) s 0)) else None)"

definition split_at_char :: "(char \<Rightarrow> bool) \<Rightarrow> string \<Rightarrow> string \<times> string option" where
  "split_at_char p s = (case dropWhile (\<lambda>c. \<not> p c) s of
     [] \<Rightarrow> (s, None) | _ # rest \<Rightarrow> (takeWhile (\<lambda>c. \<not> p c) s, Some rest))"

definition signed_text :: "string \<Rightarrow> rat \<times> string" where
  "signed_text s = (case s of c # cs \<Rightarrow>
     if c = CHR ''-'' then (-1, cs) else if c = CHR ''+'' then (1, cs) else (1, s) | [] \<Rightarrow> (1, []))"

definition exponent_factor :: "string option \<Rightarrow> rat option" where
  "exponent_factor e = (case e of None \<Rightarrow> Some 1
    | Some t \<Rightarrow> (let (sign, ds) = signed_text t in
        map_option (\<lambda>n. if sign < 0 then 1 / 10 ^ nat \<lfloor>n\<rfloor> else 10 ^ nat \<lfloor>n\<rfloor>) (digits_in_base 10 ds)))"

definition decimal_number :: "string \<Rightarrow> rat option" where
  "decimal_number s =
    (let (sign, body) = signed_text s;
         (mantissa, e) = split_at_char (\<lambda>c. c = CHR ''e'' \<or> c = CHR ''E'') body;
         (whole, frac) = split_at_char (\<lambda>c. c = CHR ''.'') mantissa;
         digits = whole @ or_else frac []
     in case (digits_in_base 10 digits, exponent_factor e) of
          (Some n, Some k) \<Rightarrow> Some (sign * n / 10 ^ length (or_else frac []) * k)
        | _ \<Rightarrow> None)"

definition js_number :: "string \<Rightarrow> rat option" where
  "js_number text =
    (let s = js_trim text; prefix = take 2 s; rest = drop 2 s
     in if s = [] then Some 0
        else if prefix \<in> {''0x'', ''0X''} then digits_in_base 16 rest
        else if prefix \<in> {''0o'', ''0O''} then digits_in_base 8 rest
        else if prefix \<in> {''0b'', ''0B''} then digits_in_base 2 rest
        else decimal_number s)"

definition is_integer :: "rat \<Rightarrow> bool" where
  "is_integer x = (of_int \<lfloor>x\<rfloor> = x)"

definition MAX_FREE_SLOTS :: int where "MAX_FREE_SLOTS = 200"

record WorkingHours =
  startMinute :: int
  endMinute :: int
  workingDays :: "int list option"

record FreeTimeOptions =
  durationMinutes :: rat
  ftTimezone :: string
  ftWorkingHours :: "WorkingHours option"
  ftLimit :: rat

text \<open>\<open>/^([01]\d|2[0-3]):([0-5]\d)$/\<close>\<close>

fun parseWallClockMinute :: "string \<Rightarrow> string \<Rightarrow> free_time_error + int" where
  "parseWallClockMinute [h1, h2, c, m1, m2] label =
    (if ((h1 = CHR ''0'' \<or> h1 = CHR ''1'') \<and> digit_char h2
         \<or> h1 = CHR ''2'' \<and> digit_char h2 \<and> number_of_digits [h2] \<le> 3)
        \<and> c = CHR '':'' \<and> digit_char m1 \<and> number_of_digits [m1] \<le> 5 \<and> digit_char m2
     then Inr (number_of_digits [h1, h2] * 60 + number_of_digits [m1, m2])
     else Inl (FreeTimeValidationError (label @ '' must be a 24-hour wall-clock time such as 09:00'')))"
| "parseWallClockMinute _ label =
    Inl (FreeTimeValidationError (label @ '' must be a 24-hour wall-clock time such as 09:00''))"

definition workingDay :: "string \<Rightarrow> int option" where
  "workingDay text = (case js_number text of None \<Rightarrow> None
    | Some n \<Rightarrow> if is_integer n \<and> 0 \<le> n \<and> n < 7 then Some \<lfloor>n\<rfloor> else None)"

definition parseWorkingDays :: "string \<Rightarrow> free_time_error + int list" where
  "parseWorkingDays text =
    (let days = map workingDay (filter (\<lambda>s. s \<noteq> []) (split_on (CHR '','') text))
     in if days = [] then Inl (FreeTimeValidationError ''workingDays must list at least one day'')
        else if None \<in> set days then
          Inl (FreeTimeValidationError ''workingDays must be integers from 0 (Sunday) to 6 (Saturday)'')
        else Inr (map the days))"

definition parseWorkingHours ::
    "string option \<Rightarrow> string option \<Rightarrow> string option \<Rightarrow> free_time_error + WorkingHours option" where
  "parseWorkingHours start end days =
    (if \<not> str_truthy start \<and> \<not> str_truthy end then
       (if str_truthy days
        then Inl (FreeTimeValidationError ''workingDays requires workingHoursStart and workingHoursEnd'')
        else Inr None)
     else if \<not> str_truthy start \<or> \<not> str_truthy end then
       Inl (FreeTimeValidationError ''workingHoursStart and workingHoursEnd must be provided together'')
     else (case parseWallClockMinute (the start) ''workingHoursStart'' of Inl e \<Rightarrow> Inl e
       | Inr s \<Rightarrow> (case parseWallClockMinute (the end) ''workingHoursEnd'' of Inl e \<Rightarrow> Inl e
       | Inr e \<Rightarrow>
         if s \<ge> e then Inl (FreeTimeValidationError ''workingHoursStart must be before workingHoursEnd'')
         else if \<not> str_truthy days
         then Inr (Some \<lparr>startMinute = s, endMinute = e, workingDays = None\<rparr>)
         else (case parseWorkingDays (the days) of Inl err \<Rightarrow> Inl err
           | Inr ds \<Rightarrow> Inr (Some \<lparr>startMinute = s, endMinute = e, workingDays = Some ds\<rparr>)))))"

definition resolveRequestTimeZone :: "intl \<Rightarrow> string \<Rightarrow> free_time_error + string" where
  "resolveRequestTimeZone intl identifier =
    (let invalid = Inl (FreeTimeValidationError ''timezone must be an IANA timezone identifier'')
     in case resolveTimeZone intl (Some identifier) of
          Inl _ \<Rightarrow> invalid
        | Inr None \<Rightarrow> invalid
        | Inr (Some z) \<Rightarrow> if z = [] then invalid else Inr z)"

section \<open>Intervals\<close>

record MsInterval =
  ivStart :: instant
  ivEnd :: instant

definition merge_step :: "MsInterval \<Rightarrow> MsInterval list \<Rightarrow> MsInterval list" where
  "merge_step interval merged =
    (if merged = [] \<or> ivStart interval > ivEnd (last merged) then merged @ [interval]
     else if ivEnd interval > ivEnd (last merged)
     then butlast merged @ [\<lparr>ivStart = ivStart (last merged), ivEnd = ivEnd interval\<rparr>]
     else merged)"

definition mergeIntervals :: "MsInterval list \<Rightarrow> MsInterval list" where
  "mergeIntervals intervals =
    fold merge_step (toSorted (compare_by ivStart) (filter (\<lambda>i. ivEnd i > ivStart i) intervals)) []"

fun subtract_from :: "MsInterval \<Rightarrow> instant \<Rightarrow> MsInterval list \<Rightarrow> MsInterval list" where
  "subtract_from window cursor [] =
    (if cursor < ivEnd window then [\<lparr>ivStart = cursor, ivEnd = ivEnd window\<rparr>] else [])"
| "subtract_from window cursor (interval # busy) =
    (if ivEnd interval \<le> cursor \<or> ivStart interval \<ge> ivEnd window
     then subtract_from window cursor busy
     else (if ivStart interval > cursor then [\<lparr>ivStart = cursor, ivEnd = ivStart interval\<rparr>] else [])
       @ subtract_from window (min (max (ivEnd interval) cursor) (ivEnd window)) busy)"

definition subtractBusyFromWindow :: "MsInterval \<Rightarrow> MsInterval list \<Rightarrow> MsInterval list" where
  "subtractBusyFromWindow window busy = subtract_from window (ivStart window) busy"

section \<open>Candidate windows\<close>

definition getUTCDay :: "instant \<Rightarrow> int" where
  "getUTCDay t = (utc_day t + 4) mod 7"

function day_starts :: "instant \<Rightarrow> instant \<Rightarrow> instant list" where
  "day_starts day lastDay = (if day \<le> lastDay then day # day_starts (day + MS_PER_DAY) lastDay else [])"
  by pat_completeness auto
termination
  by (relation "measure (\<lambda>(day, lastDay). nat (lastDay + 1 - day))") (auto simp: MS_PER_DAY_def)

declare day_starts.simps [simp del]

definition buildLocalDayStarts :: "intl \<Rightarrow> MsInterval \<Rightarrow> string \<Rightarrow> instant list" where
  "buildLocalDayStarts intl rng timeZone =
    (let startWall = instantToWallTime intl (ivStart rng) timeZone;
         endWall = instantToWallTime intl (ivEnd rng) timeZone
     in day_starts (Date_UTC (getUTCFullYear startWall) (getUTCMonth startWall) (getUTCDate startWall))
          (Date_UTC (getUTCFullYear endWall) (getUTCMonth endWall) (getUTCDate endWall)))"

fun map_result :: "('a \<Rightarrow> 'e + 'b) \<Rightarrow> 'a list \<Rightarrow> 'e + 'b list" where
  "map_result f [] = Inr []"
| "map_result f (x # xs) = (case f x of Inl e \<Rightarrow> Inl e
    | Inr y \<Rightarrow> (case map_result f xs of Inl e \<Rightarrow> Inl e | Inr ys \<Rightarrow> Inr (y # ys)))"

definition working_window :: "intl \<Rightarrow> string \<Rightarrow> WorkingHours \<Rightarrow> instant \<Rightarrow> tz_error + MsInterval" where
  "working_window intl timeZone hours dayStart =
    (case wallTimeToInstant intl (dayStart + endMinute hours * MS_PER_MINUTE) timeZone of Inl e \<Rightarrow> Inl e
     | Inr e \<Rightarrow>
       (case wallTimeToInstant intl (dayStart + startMinute hours * MS_PER_MINUTE) timeZone of
          Inl err \<Rightarrow> Inl err
        | Inr s \<Rightarrow> Inr \<lparr>ivStart = s, ivEnd = e\<rparr>))"

definition clamp_to :: "MsInterval \<Rightarrow> MsInterval \<Rightarrow> MsInterval" where
  "clamp_to rng window =
    \<lparr>ivStart = max (ivStart window) (ivStart rng), ivEnd = min (ivEnd window) (ivEnd rng)\<rparr>"

definition buildCandidateWindows ::
    "intl \<Rightarrow> MsInterval \<Rightarrow> string \<Rightarrow> WorkingHours option \<Rightarrow> tz_error + MsInterval list" where
  "buildCandidateWindows intl rng timeZone workingHours =
    (case workingHours of None \<Rightarrow> Inr [rng]
     | Some hours \<Rightarrow>
       (case map_result (working_window intl timeZone hours)
          (filter (\<lambda>dayStart. case workingDays hours of None \<Rightarrow> True
              | Some days \<Rightarrow> getUTCDay dayStart \<in> set days)
            (buildLocalDayStarts intl rng timeZone)) of
          Inl e \<Rightarrow> Inl e
        | Inr ws \<Rightarrow> Inr (filter (\<lambda>w. ivEnd w > ivStart w) (map (clamp_to rng) ws))))"

section \<open>The search\<close>

record FreeSlot =
  slotStart :: string
  slotEnd :: string
  slotDurationMinutes :: int

definition toFreeSlot :: "MsInterval \<Rightarrow> FreeSlot" where
  "toFreeSlot interval = \<lparr>slotStart = toISOString (ivStart interval), slotEnd = toISOString (ivEnd interval),
    slotDurationMinutes = (ivEnd interval - ivStart interval) div MS_PER_MINUTE\<rparr>"

definition free_intervals :: "MsInterval list \<Rightarrow> MsInterval list \<Rightarrow> int \<Rightarrow> nat \<Rightarrow> MsInterval list" where
  "free_intervals windows busy minimumDurationMs limit =
    take limit (toSorted (compare_by ivStart)
      (filter (\<lambda>slot. ivEnd slot - ivStart slot \<ge> minimumDurationMs)
        (concat (map (\<lambda>window. subtractBusyFromWindow window busy) windows))))"

definition findFreeSlots ::
    "intl \<Rightarrow> MsInterval \<Rightarrow> MsInterval list \<Rightarrow> FreeTimeOptions \<Rightarrow> free_time_error + FreeSlot list" where
  "findFreeSlots intl rng busyIntervals options =
    (if \<not> is_integer (durationMinutes options) \<or> durationMinutes options \<le> 0 then
       Inl (FreeTimeValidationError ''durationMinutes must be a positive whole number of minutes'')
     else if \<not> is_integer (ftLimit options) \<or> ftLimit options \<le> 0
       \<or> ftLimit options > of_int MAX_FREE_SLOTS then
       Inl (FreeTimeValidationError ''limit must be a whole number from 1 to 200'')
     else (case resolveRequestTimeZone intl (ftTimezone options) of Inl e \<Rightarrow> Inl e
       | Inr timeZone \<Rightarrow>
         (case buildCandidateWindows intl rng timeZone (ftWorkingHours options) of
            Inl e \<Rightarrow> Inl (ZoneRangeError e)
          | Inr windows \<Rightarrow>
            Inr (map toFreeSlot (free_intervals windows (mergeIntervals busyIntervals)
              (\<lfloor>durationMinutes options\<rfloor> * MS_PER_MINUTE) (nat \<lfloor>ftLimit options\<rfloor>))))))"

section \<open>Busy intervals\<close>

record BusyCandidate =
  bcAvailability :: "string option"
  bcIsAllDay :: "bool option"
  bcStartTime :: instant
  bcEndTime :: instant

definition isBlocking :: "BusyCandidate \<Rightarrow> bool \<Rightarrow> bool" where
  "isBlocking candidate ignoreAllDayEvents =
    (if ignoreAllDayEvents \<and> bcIsAllDay candidate = Some True then False
     else case bcAvailability candidate of None \<Rightarrow> True
       | Some a \<Rightarrow> a \<notin> {''free'', ''workingElsewhere''})"

definition projectAllDaySpanToZone :: "intl \<Rightarrow> MsInterval \<Rightarrow> string \<Rightarrow> tz_error + MsInterval" where
  "projectAllDaySpanToZone intl busySpan timeZone =
    (case wallTimeToInstant intl (ivEnd busySpan) timeZone of Inl e \<Rightarrow> Inl e
     | Inr e \<Rightarrow> (case wallTimeToInstant intl (ivStart busySpan) timeZone of Inl err \<Rightarrow> Inl err
        | Inr s \<Rightarrow> Inr \<lparr>ivStart = s, ivEnd = e\<rparr>))"

definition widenForZoneProjection :: "MsInterval \<Rightarrow> MsInterval" where
  "widenForZoneProjection rng =
    \<lparr>ivStart = ivStart rng - MS_PER_DAY, ivEnd = ivEnd rng + MS_PER_DAY\<rparr>"

definition resolveBusySpan :: "intl \<Rightarrow> BusyCandidate \<Rightarrow> string \<Rightarrow> tz_error + MsInterval" where
  "resolveBusySpan intl candidate timeZone =
    (let shape = \<lparr>startTime = bcStartTime candidate, endTime = bcEndTime candidate,
           isAllDay = bcIsAllDay candidate\<rparr>;
         r = resolveRepresentableTimeRange shape;
         busySpan = \<lparr>ivStart = startTime r, ivEnd = endTime r\<rparr>
     in if \<not> resolveIsAllDayEvent (isAllDay shape) (startTime shape) (endTime shape) then Inr busySpan
        else projectAllDaySpanToZone intl busySpan timeZone)"

definition toBusyInterval :: "intl \<Rightarrow> BusyCandidate \<Rightarrow> MsInterval \<Rightarrow> string \<Rightarrow> tz_error + MsInterval" where
  "toBusyInterval intl candidate rng timeZone =
    (case resolveBusySpan intl candidate timeZone of Inl e \<Rightarrow> Inl e
     | Inr busySpan \<Rightarrow> Inr \<lparr>ivStart = max (ivStart busySpan) (ivStart rng),
         ivEnd = min (ivEnd busySpan) (ivEnd rng)\<rparr>)"

definition toBusyIntervals ::
    "intl \<Rightarrow> BusyCandidate list \<Rightarrow> MsInterval \<Rightarrow> string \<Rightarrow> bool \<Rightarrow> tz_error + MsInterval list" where
  "toBusyIntervals intl candidates rng timeZone ignoreAllDayEvents =
    (case map_result (\<lambda>c. toBusyInterval intl c rng timeZone)
        (filter (\<lambda>c. isBlocking c ignoreAllDayEvents) candidates) of
       Inl e \<Rightarrow> Inl e
     | Inr spans \<Rightarrow> Inr (filter (\<lambda>s. ivEnd s > ivStart s) spans))"

end
