(* ===== verification/Free_Time_Correct.thy ===== *)
theory Free_Time_Correct
  imports Free_Time
begin

text \<open>
  Correctness of the free-time search, with a list of intervals read as the set of instants it
  covers: the interval operations refine set operations, and the slots found are sound, ordered,
  bounded and, below the limit, complete.
\<close>

section \<open>Intervals as sets of instants\<close>

definition instants_of :: "MsInterval list \<Rightarrow> instant set" where
  "instants_of xs = {t. \<exists>x \<in> set xs. ivStart x \<le> t \<and> t < ivEnd x}"

lemma instants_of_simps [simp]:
  "instants_of [] = {}"
  "instants_of (x # xs) = {ivStart x..<ivEnd x} \<union> instants_of xs"
  "instants_of (xs @ ys) = instants_of xs \<union> instants_of ys"
  by (auto simp: instants_of_def)

lemma instants_of_filter_proper [simp]: "instants_of (filter (\<lambda>i. ivStart i < ivEnd i) xs) = instants_of xs"
  by (auto simp: instants_of_def)

lemma instants_of_toSorted [simp]: "instants_of (toSorted cmp xs) = instants_of xs"
  by (simp add: instants_of_def)

definition proper :: "MsInterval \<Rightarrow> bool" where
  "proper i \<longleftrightarrow> ivStart i < ivEnd i"

text \<open>Merged intervals: proper, and each ends before the next one starts.\<close>

definition separated :: "MsInterval list \<Rightarrow> bool" where
  "separated xs \<longleftrightarrow> list_all proper xs \<and> sorted_wrt (\<lambda>x y. ivEnd x < ivStart y) xs"

lemma separated_snoc:
  "separated (xs @ [x]) \<longleftrightarrow> separated xs \<and> proper x \<and> (\<forall>y \<in> set xs. ivEnd y < ivStart x)"
  by (auto simp: separated_def sorted_wrt_append list_all_iff)

lemma merge_step_correct:
  assumes "separated merged" "proper i" "\<forall>x \<in> set merged. ivStart x \<le> ivStart i"
  shows "separated (merge_step i merged)"
    "instants_of (merge_step i merged) = instants_of merged \<union> {ivStart i..<ivEnd i}"
    "\<forall>x \<in> set (merge_step i merged). ivStart x \<le> ivStart i"
proof -
  consider "merged = []" | xs x where "merged = xs @ [x]" by (cases merged rule: rev_cases)
  then have "separated (merge_step i merged) \<and>
    instants_of (merge_step i merged) = instants_of merged \<union> {ivStart i..<ivEnd i} \<and>
    (\<forall>x \<in> set (merge_step i merged). ivStart x \<le> ivStart i)"
  proof cases
    case 1
    then show ?thesis using assms by (simp add: merge_step_def separated_def)
  next
    case (2 xs x)
    have below: "\<forall>y \<in> set xs. ivEnd y < ivStart x" "proper x" "separated xs"
      using assms(1) by (simp_all add: 2 separated_snoc)
    consider "ivStart i > ivEnd x" | "ivStart i \<le> ivEnd x" "ivEnd i > ivEnd x"
      | "ivStart i \<le> ivEnd x" "ivEnd i \<le> ivEnd x" by linarith
    then show ?thesis
    proof cases
      case 1
      then have "\<forall>y \<in> set (xs @ [x]). ivEnd y < ivStart i"
        using below by (fastforce simp: proper_def)
      with 1 assms separated_snoc [of "xs @ [x]" i] show ?thesis
        by (auto simp: 2 merge_step_def)
    next
      case b: 2
      have "proper \<lparr>ivStart = ivStart x, ivEnd = ivEnd i\<rparr>"
        using below(2) b by (simp add: proper_def)
      with b below assms show ?thesis
        by (auto simp: 2 merge_step_def separated_snoc)
    next
      case 3
      with assms show ?thesis by (auto simp: 2 merge_step_def)
    qed
  qed
  then show "separated (merge_step i merged)"
    "instants_of (merge_step i merged) = instants_of merged \<union> {ivStart i..<ivEnd i}"
    "\<forall>x \<in> set (merge_step i merged). ivStart x \<le> ivStart i" by blast+
qed

lemma merge_fold_correct:
  assumes "separated merged" "list_all proper xs" "sorted_wrt (\<lambda>x y. ivStart x \<le> ivStart y) xs"
    "\<forall>x \<in> set merged. \<forall>y \<in> set xs. ivStart x \<le> ivStart y"
  shows "separated (fold merge_step xs merged) \<and>
    instants_of (fold merge_step xs merged) = instants_of merged \<union> instants_of xs"
  using assms
proof (induction xs arbitrary: merged)
  case (Cons i xs)
  have i: "\<forall>x \<in> set merged. ivStart x \<le> ivStart i" "proper i" using Cons.prems by auto
  note step = merge_step_correct [OF Cons.prems(1) i(2,1)]
  have "\<forall>x \<in> set (merge_step i merged). \<forall>y \<in> set xs. ivStart x \<le> ivStart y"
    using step(3) Cons.prems(3) by fastforce
  then show ?case
    using Cons.IH [OF step(1)] Cons.prems step(2) by auto
qed simp

lemma mergeIntervals_correct:
  "separated (mergeIntervals xs)" "instants_of (mergeIntervals xs) = instants_of xs"
proof -
  let ?ys = "toSorted (compare_by ivStart) (filter (\<lambda>i. ivStart i < ivEnd i) xs)"
  have "sorted_wrt (\<lambda>x y. ivStart x \<le> ivStart y) ?ys"
    using key_order.toSorted_sorted [of ivStart] by (simp add: compare_by_def)
  moreover have "list_all proper ?ys" by (simp add: list_all_iff proper_def)
  ultimately show "separated (mergeIntervals xs)" "instants_of (mergeIntervals xs) = instants_of xs"
    using merge_fold_correct [of "[]" ?ys] by (simp_all add: mergeIntervals_def separated_def)
qed

lemma separated_sorted: "separated xs \<Longrightarrow> sorted_wrt (\<lambda>x y. ivStart x \<le> ivStart y) xs"
  unfolding separated_def by (auto simp: list_all_iff proper_def elim!: sorted_wrt_mono_rel [rotated])

section \<open>Subtracting the busy intervals\<close>

lemma subtract_from_instants:
  "sorted_wrt (\<lambda>x y. ivStart x \<le> ivStart y) busy \<Longrightarrow>
    instants_of (subtract_from w cursor busy) = {cursor..<ivEnd w} - instants_of busy"
proof (induction busy arbitrary: cursor)
  case (Cons b busy)
  then have ih: "instants_of (subtract_from w c busy) = {c..<ivEnd w} - instants_of busy" for c
    by simp
  have later: "t \<notin> instants_of busy" if "t < ivStart b" for t
    using Cons.prems that by (force simp: instants_of_def)
  show ?case
    using later by (simp add: ih) (auto simp: min_def max_def split: if_splits)
qed auto

text \<open>Each free span is proper, starts at or after the cursor and stops at the window's end or where
  something busy starts; the spans come in order.\<close>

lemma subtract_from_spans:
  assumes "x \<in> set (subtract_from w cursor busy)"
  shows "proper x \<and> cursor \<le> ivStart x \<and> ivEnd x \<le> ivEnd w \<and>
    (ivEnd x = ivEnd w \<or> (\<exists>b \<in> set busy. ivStart b = ivEnd x))"
  using assms
proof (induction busy arbitrary: cursor)
  case (Cons b busy)
  show ?case
  proof (cases "ivEnd b \<le> cursor \<or> ivStart b \<ge> ivEnd w")
    case True
    with Cons show ?thesis by fastforce
  next
    case False
    let ?c = "min (max (ivEnd b) cursor) (ivEnd w)"
    consider "x = \<lparr>ivStart = cursor, ivEnd = ivStart b\<rparr>" "ivStart b > cursor"
      | "x \<in> set (subtract_from w ?c busy)"
      using Cons.prems False by (auto split: if_splits)
    then show ?thesis
    proof cases
      case 1
      with False show ?thesis by (auto simp: proper_def)
    next
      case 2
      with Cons.IH [OF 2] show ?thesis by (auto simp: proper_def min_def max_def split: if_splits)
    qed
  qed
qed (auto simp: proper_def split: if_splits)

text \<open>C38: Subtracting the merged busy intervals from a window refines set difference: the instants
  of the spans returned are the instants of the window that no busy interval covers, whatever the
  busy intervals are (unsorted, overlapping, empty, inverted or outside the window).\<close>

theorem subtract_refines_difference:
  "instants_of (subtractBusyFromWindow w (mergeIntervals busy)) = instants_of [w] - instants_of busy"
  using subtract_from_instants [OF separated_sorted [OF mergeIntervals_correct(1)]]
  by (simp add: subtractBusyFromWindow_def mergeIntervals_correct(2))

section \<open>The slots\<close>

lemma subtract_spans_maximal:
  assumes "separated busy" "s < e" "ivStart w \<le> s" "e \<le> ivEnd w" "{s..<e} \<inter> instants_of busy = {}"
  shows "\<exists>x \<in> set (subtractBusyFromWindow w busy). ivStart x \<le> s \<and> e \<le> ivEnd x"
proof -
  have "s \<in> {ivStart w..<ivEnd w} - instants_of busy" using assms by auto
  then have "s \<in> instants_of (subtractBusyFromWindow w busy)"
    using subtract_from_instants [OF separated_sorted [OF assms(1)]]
    by (simp add: subtractBusyFromWindow_def)
  then obtain x where x: "x \<in> set (subtractBusyFromWindow w busy)" "ivStart x \<le> s" "s < ivEnd x"
    by (auto simp: instants_of_def)
  note span = subtract_from_spans [OF x(1) [unfolded subtractBusyFromWindow_def]]
  have "e \<le> ivEnd x"
  proof (rule ccontr)
    assume "\<not> e \<le> ivEnd x"
    with span assms(4) obtain b where "b \<in> set busy" "ivStart b = ivEnd x" by auto
    moreover from this have "proper b" using assms(1) by (auto simp: separated_def list_all_iff)
    ultimately have "ivEnd x \<in> instants_of busy"
      by (auto simp: instants_of_def proper_def intro!: bexI [of _ b])
    moreover have "ivEnd x \<in> {s..<e}" using x \<open>\<not> e \<le> ivEnd x\<close> by auto
    ultimately show False using assms(5) by blast
  qed
  with x show ?thesis by blast
qed

lemma free_intervals_sound:
  assumes "x \<in> set (free_intervals windows (mergeIntervals busy) d n)"
  shows "d \<le> ivEnd x - ivStart x \<and> {ivStart x..<ivEnd x} \<inter> instants_of busy = {} \<and>
    (\<exists>w \<in> set windows. ivStart w \<le> ivStart x \<and> ivEnd x \<le> ivEnd w)"
proof -
  obtain w where w: "w \<in> set windows" "x \<in> set (subtractBusyFromWindow w (mergeIntervals busy))"
    and d: "d \<le> ivEnd x - ivStart x"
    using assms [unfolded free_intervals_def, THEN in_set_takeD] by auto
  have "{ivStart x..<ivEnd x} \<subseteq> instants_of (subtractBusyFromWindow w (mergeIntervals busy))"
    using w(2) by (auto simp: instants_of_def)
  moreover have "instants_of (subtractBusyFromWindow w (mergeIntervals busy)) \<inter> instants_of busy = {}"
    using subtract_from_instants [OF separated_sorted [OF mergeIntervals_correct(1)]]
    by (auto simp: subtractBusyFromWindow_def mergeIntervals_correct(2))
  ultimately show ?thesis
    using subtract_from_spans [OF w(2) [unfolded subtractBusyFromWindow_def]] w(1) d by blast
qed

lemma free_intervals_complete:
  assumes "length (free_intervals windows (mergeIntervals busy) d n) < n" "0 < d" "d \<le> e - s"
    "w \<in> set windows" "ivStart w \<le> s" "e \<le> ivEnd w" "{s..<e} \<inter> instants_of busy = {}"
  shows "\<exists>x \<in> set (free_intervals windows (mergeIntervals busy) d n). ivStart x \<le> s \<and> e \<le> ivEnd x"
proof -
  obtain x where x: "x \<in> set (subtractBusyFromWindow w (mergeIntervals busy))" "ivStart x \<le> s" "e \<le> ivEnd x"
    using subtract_spans_maximal [OF mergeIntervals_correct(1), of s e w busy] assms(2-7)
    by (auto simp: mergeIntervals_correct(2))
  have "x \<in> set (free_intervals windows (mergeIntervals busy) d n)"
    using x assms(1,3,4) by (auto simp: free_intervals_def)
  with x show ?thesis by blast
qed

lemma free_intervals_sorted:
  "sorted_wrt (\<lambda>x y. ivStart x \<le> ivStart y) (free_intervals windows busy d n)"
  unfolding free_intervals_def
  by (rule sorted_wrt_take) (use key_order.toSorted_sorted [of ivStart] in \<open>simp add: compare_by_def\<close>)

lemma candidate_windows_within:
  assumes "buildCandidateWindows intl rng z wh = Inr windows" "w \<in> set windows"
  shows "ivStart rng \<le> ivStart w \<and> ivEnd w \<le> ivEnd rng"
  using assms by (auto simp: buildCandidateWindows_def clamp_to_def split: option.splits sum.splits)

text \<open>C39: A search that succeeds returns at most the requested number of slots, in order of their
  start; each lasts at least the requested minutes, lies in a candidate window inside the searched
  range, and meets no busy interval. When fewer slots than the limit come back, none was missed:
  every busy-free stretch of that length in a candidate window is inside a returned slot.\<close>

theorem free_slots_sound_and_complete:
  assumes "findFreeSlots intl rng busy options = Inr slots"
  shows "\<exists>z windows is. resolveRequestTimeZone intl (ftTimezone options) = Inr z \<and>
    buildCandidateWindows intl rng z (ftWorkingHours options) = Inr windows \<and>
    slots = map toFreeSlot is \<and> int (length slots) \<le> \<lfloor>ftLimit options\<rfloor> \<and>
    sorted_wrt (\<lambda>x y. ivStart x \<le> ivStart y) is \<and>
    (\<forall>x \<in> set is. \<lfloor>durationMinutes options\<rfloor> * 60000 \<le> ivEnd x - ivStart x \<and>
      {ivStart x..<ivEnd x} \<inter> instants_of busy = {} \<and>
      ivStart rng \<le> ivStart x \<and> ivEnd x \<le> ivEnd rng \<and>
      (\<exists>w \<in> set windows. ivStart w \<le> ivStart x \<and> ivEnd x \<le> ivEnd w)) \<and>
    (int (length slots) < \<lfloor>ftLimit options\<rfloor> \<longrightarrow>
      (\<forall>w s e. w \<in> set windows \<and> ivStart w \<le> s \<and> e \<le> ivEnd w \<and>
        \<lfloor>durationMinutes options\<rfloor> * 60000 \<le> e - s \<and> {s..<e} \<inter> instants_of busy = {} \<longrightarrow>
        (\<exists>x \<in> set is. ivStart x \<le> s \<and> e \<le> ivEnd x)))"
proof -
  let ?d = "\<lfloor>durationMinutes options\<rfloor> * MS_PER_MINUTE" and ?n = "nat \<lfloor>ftLimit options\<rfloor>"
  obtain z windows where z: "resolveRequestTimeZone intl (ftTimezone options) = Inr z"
    and windows: "buildCandidateWindows intl rng z (ftWorkingHours options) = Inr windows"
    and slots: "slots = map toFreeSlot (free_intervals windows (mergeIntervals busy) ?d ?n)"
    and valid: "is_integer (durationMinutes options)" "0 < durationMinutes options" "0 < ftLimit options"
    using assms by (auto simp: findFreeSlots_def split: if_splits sum.splits)
  let ?is = "free_intervals windows (mergeIntervals busy) ?d ?n"
  have len: "length ?is \<le> ?n" by (simp add: free_intervals_def)
  have "0 < \<lfloor>durationMinutes options\<rfloor>"
    using valid(1,2) unfolding is_integer_def by (metis of_int_0_less_iff)
  then have d: "0 < ?d" by (simp add: MS_PER_MINUTE_def)
  have n: "0 \<le> \<lfloor>ftLimit options\<rfloor>" using valid(3) by simp
  have sound: "?d \<le> ivEnd x - ivStart x \<and> {ivStart x..<ivEnd x} \<inter> instants_of busy = {} \<and>
      ivStart rng \<le> ivStart x \<and> ivEnd x \<le> ivEnd rng \<and>
      (\<exists>w \<in> set windows. ivStart w \<le> ivStart x \<and> ivEnd x \<le> ivEnd w)" if "x \<in> set ?is" for x
    using free_intervals_sound [OF that] candidate_windows_within [OF windows] by (meson order_trans)
  have complete: "\<exists>x \<in> set ?is. ivStart x \<le> s \<and> e \<le> ivEnd x"
    if "int (length slots) < \<lfloor>ftLimit options\<rfloor>" "w \<in> set windows" "ivStart w \<le> s" "e \<le> ivEnd w"
      "?d \<le> e - s" "{s..<e} \<inter> instants_of busy = {}" for w s e
  proof -
    have "length ?is < ?n" using that(1) by (simp add: slots)
    then show ?thesis by (rule free_intervals_complete) (use d that in auto)
  qed
  have "int (length slots) \<le> \<lfloor>ftLimit options\<rfloor>" 
    using len le_nat_iff [OF n, of "length ?is"] by (simp only: slots length_map)
  moreover note free_intervals_sorted [of windows "mergeIntervals busy" ?d ?n] z windows slots
  ultimately show ?thesis
    using sound complete unfolding MS_PER_MINUTE_def by blast
qed


definition example_range :: MsInterval where
  "example_range = \<lparr>ivStart = 0, ivEnd = 7200000\<rparr>"

definition example_busy :: "MsInterval list" where
  "example_busy = [\<lparr>ivStart = 2400000, ivEnd = 3600000\<rparr>, \<lparr>ivStart = 1800000, ivEnd = 3000000\<rparr>]"

definition example_options :: FreeTimeOptions where
  "example_options = \<lparr>durationMinutes = 30, ftTimezone = ''Spring'', ftWorkingHours = None, ftLimit = 5\<rparr>"

lemma example_zone: "resolveRequestTimeZone spring_zone ''Spring'' = Inr ''Spring''"
proof -
  have "map_of WINDOWS_TO_IANA ''Spring'' = None" by (simp add: WINDOWS_TO_IANA_def)
  then show ?thesis
    by (simp add: resolveRequestTimeZone_def resolveTimeZone_def isSupportedTimeZone_def
        normalizeTimezone_def resolveTimeZoneIdentifier_def resolveWindowsName_def resolveIntlName_def
        nullish_def spring_zone_def)
qed

lemma example_search:
  "findFreeSlots spring_zone example_range example_busy example_options =
    Inr (map toFreeSlot [\<lparr>ivStart = 0, ivEnd = 1800000\<rparr>, \<lparr>ivStart = 3600000, ivEnd = 7200000\<rparr>])"
  by (simp add: findFreeSlots_def example_options_def is_integer_def MAX_FREE_SLOTS_def example_zone
      buildCandidateWindows_def free_intervals_def mergeIntervals_def merge_step_def example_busy_def
      example_range_def compare_by_def subtractBusyFromWindow_def MS_PER_MINUTE_def)

theorem free_slots_sound_and_complete_witness:
  "\<exists>slots. findFreeSlots spring_zone example_range example_busy example_options = Inr slots \<and>
    length slots = 2 \<and> (\<exists>ivs. slots = map toFreeSlot ivs \<and>
      (\<forall>x \<in> set ivs. {ivStart x..<ivEnd x} \<inter> instants_of example_busy = {}) \<and>
      (\<exists>x \<in> set ivs. ivStart x \<le> 3600000 \<and> 5400000 \<le> ivEnd x))"
proof -
  have numbers: "\<lfloor>ftLimit example_options\<rfloor> = 5" "\<lfloor>durationMinutes example_options\<rfloor> = 30"
    by (simp_all add: example_options_def)
  obtain slots where run: "findFreeSlots spring_zone example_range example_busy example_options = Inr slots"
    and two: "length slots = 2" using example_search by simp
  obtain z windows ivs where windows: "buildCandidateWindows spring_zone example_range z
      (ftWorkingHours example_options) = Inr windows"
    and ivs: "slots = map toFreeSlot ivs"
    and sound: "\<forall>x \<in> set ivs. {ivStart x..<ivEnd x} \<inter> instants_of example_busy = {}"
    and complete: "\<forall>w s e. w \<in> set windows \<and> ivStart w \<le> s \<and> e \<le> ivEnd w \<and>
      30 * 60000 \<le> e - s \<and> {s..<e} \<inter> instants_of example_busy = {} \<longrightarrow>
      (\<exists>x \<in> set ivs. ivStart x \<le> s \<and> e \<le> ivEnd x)"
    using free_slots_sound_and_complete [OF run] unfolding numbers two by auto
  have "windows = [example_range]"
    using windows by (simp add: buildCandidateWindows_def example_options_def)
  moreover have "{3600000..<5400000} \<inter> instants_of example_busy = {}"
    by (auto simp: example_busy_def)
  ultimately have "\<exists>x \<in> set ivs. ivStart x \<le> 3600000 \<and> 5400000 \<le> ivEnd x"
    using complete [rule_format, of example_range 3600000 5400000] by (simp add: example_range_def)
  with run two ivs sound show ?thesis by blast
qed


section \<open>What a request's working hours are\<close>

lemma digit_value: "digit_char c \<Longrightarrow> 0 \<le> number_of_digits [c] \<and> number_of_digits [c] \<le> 9"
  unfolding digit_char_def number_of_digits_def by (simp flip: of_nat_of_char [of c, where 'a = int])

lemma two_digits: "number_of_digits [a, b] = 10 * number_of_digits [a] + number_of_digits [b]"
  by (simp add: number_of_digits_def)

lemma wall_clock_minute_range:
  assumes "parseWallClockMinute t l = Inr m"
  shows "0 \<le> m \<and> m < 1440"
proof -
  from assms obtain h1 h2 c m1 m2 where t: "t = [h1, h2, c, m1, m2]"
    by (cases "(t, l)" rule: parseWallClockMinute.cases) auto
  have "0 \<le> number_of_digits [h1, h2] \<and> number_of_digits [h1, h2] \<le> 23"
    using assms digit_value [of h2] unfolding t
    by (auto simp: two_digits number_of_digits_def split: if_splits)
  moreover have "0 \<le> number_of_digits [m1, m2] \<and> number_of_digits [m1, m2] \<le> 59"
    using assms digit_value [of m1] digit_value [of m2] unfolding t by (auto simp: two_digits split: if_splits)
  moreover have "m = number_of_digits [h1, h2] * 60 + number_of_digits [m1, m2]"
    using assms unfolding t by (auto split: if_splits)
  ultimately show ?thesis by auto
qed

lemma working_days_range:
  assumes "parseWorkingDays t = Inr ds"
  shows "ds \<noteq> [] \<and> set ds \<subseteq> {0..<7}"
proof -
  have day: "0 \<le> d \<and> d < 7" if "workingDay u = Some d" for u d
    using that by (auto simp: workingDay_def floor_less_iff split: option.splits if_splits)
  show ?thesis using assms day
    by (fastforce simp: parseWorkingDays_def Let_def image_iff split: if_splits)
qed

text \<open>C37: The working hours of a request, once accepted, are well typed: they start and end within a
  day, in that order, and the days, when given, are a non-empty list of numbers from 0 to 6.\<close>

theorem working_hours_are_well_typed:
  assumes "parseWorkingHours startText endText daysText = Inr (Some hours)"
  shows "0 \<le> startMinute hours \<and> startMinute hours < endMinute hours \<and> endMinute hours < 1440 \<and>
    (case workingDays hours of None \<Rightarrow> True | Some ds \<Rightarrow> ds \<noteq> [] \<and> set ds \<subseteq> {0..<7})"
  using assms wall_clock_minute_range working_days_range
  by (fastforce simp: parseWorkingHours_def split: if_splits sum.splits)

theorem working_hours_are_well_typed_witness:
  "parseWorkingHours (Some ''09:00'') (Some ''17:30'') None =
     Inr (Some \<lparr>startMinute = 540, endMinute = 1050, workingDays = None\<rparr>) \<and>
   (0::int) \<le> 540 \<and> (540::int) < 1050"
proof -
  have e: "parseWorkingHours (Some ''09:00'') (Some ''17:30'') None =
      Inr (Some \<lparr>startMinute = 540, endMinute = 1050, workingDays = None\<rparr>)"
    by (simp add: parseWorkingHours_def digit_char_def number_of_digits_def)
  from working_hours_are_well_typed [OF e] e show ?thesis by simp
qed

end
