(* ===== verification/Redis_Zset.thy ===== *)
theory Redis_Zset
  imports Redis_Store Utc_Date
begin

text \<open>
  The sorted-set commands the rate-limit scripts use. A sorted set is an association list from
  members to scores with distinct members; its first element is the one with the least score, ties
  broken by the member's bytes. A set that loses its last member is removed with its expiry.
\<close>

definition redis_zset :: "string \<Rightarrow> redis \<Rightarrow> zset" where
  "redis_zset k r = or_else (live_value (rd_now r) (rd_zsets r k)) []"

definition redis_zset_expiry :: "string \<Rightarrow> redis \<Rightarrow> instant option" where
  "redis_zset_expiry k r = (case rd_zsets r k of None \<Rightarrow> None
    | Some (_, e) \<Rightarrow> if live_at (rd_now r) e then e else None)"

definition redis_put_zset :: "string \<Rightarrow> zset \<Rightarrow> instant option \<Rightarrow> redis \<Rightarrow> redis" where
  "redis_put_zset k z e r = r\<lparr>rd_zsets := (rd_zsets r)(k := (if z = [] then None else Some (z, e)))\<rparr>"

definition redis_zadd :: "string \<Rightarrow> int \<Rightarrow> string \<Rightarrow> redis \<Rightarrow> redis" where
  "redis_zadd k score member r =
    redis_put_zset k (AList.update member score (redis_zset k r)) (redis_zset_expiry k r) r"

definition redis_zadd_nx :: "string \<Rightarrow> int \<Rightarrow> string \<Rightarrow> redis \<Rightarrow> redis" where
  "redis_zadd_nx k score member r =
    (if map_of (redis_zset k r) member = None then redis_zadd k score member r else r)"

definition redis_zrem :: "string \<Rightarrow> string \<Rightarrow> redis \<Rightarrow> redis" where
  "redis_zrem k member r =
    redis_put_zset k (filter (\<lambda>(m, s). m \<noteq> member) (redis_zset k r)) (redis_zset_expiry k r) r"

text \<open>\<open>ZREMRANGEBYSCORE key -inf max\<close>: the bound is inclusive.\<close>

definition redis_zremrange_upto :: "string \<Rightarrow> int \<Rightarrow> redis \<Rightarrow> redis" where
  "redis_zremrange_upto k bound r =
    redis_put_zset k (filter (\<lambda>(m, s). s > bound) (redis_zset k r)) (redis_zset_expiry k r) r"

definition redis_zcard :: "string \<Rightarrow> redis \<Rightarrow> int" where
  "redis_zcard k r = int (length (redis_zset k r))"

definition redis_zscore :: "string \<Rightarrow> string \<Rightarrow> redis \<Rightarrow> int option" where
  "redis_zscore k member r = map_of (redis_zset k r) member"

fun bytes_less :: "string \<Rightarrow> string \<Rightarrow> bool" where
  "bytes_less [] [] = False"
| "bytes_less [] (y # ys) = True"
| "bytes_less (x # xs) [] = False"
| "bytes_less (x # xs) (y # ys) =
    ((of_char x :: nat) < of_char y \<or> x = y \<and> bytes_less xs ys)"

definition zset_before :: "string \<times> int \<Rightarrow> string \<times> int \<Rightarrow> bool" where
  "zset_before a b \<longleftrightarrow> snd a < snd b \<or> snd a = snd b \<and> bytes_less (fst a) (fst b)"

fun zset_first :: "zset \<Rightarrow> (string \<times> int) option" where
  "zset_first [] = None"
| "zset_first (x # xs) = (case zset_first xs of None \<Rightarrow> Some x
    | Some y \<Rightarrow> if zset_before y x then Some y else Some x)"

definition redis_zfirst :: "string \<Rightarrow> redis \<Rightarrow> (string \<times> int) option" where
  "redis_zfirst k r = zset_first (redis_zset k r)"

definition redis_pexpire_zset :: "string \<Rightarrow> int \<Rightarrow> redis \<Rightarrow> redis" where
  "redis_pexpire_zset k ttlMs r =
    redis_put_zset k (redis_zset k r) (Some (rd_now r + ttlMs)) r"

section \<open>What each command leaves of the store\<close>

lemmas redis_zset_defs = redis_zadd_def redis_zadd_nx_def redis_zrem_def redis_zremrange_upto_def
  redis_pexpire_zset_def

lemma zset_now_kept [simp]:
  "rd_now (redis_put_zset k z e r) = rd_now r" "rd_now (redis_zadd k s m r) = rd_now r"
  "rd_now (redis_zadd_nx k s m r) = rd_now r" "rd_now (redis_zrem k m r) = rd_now r"
  "rd_now (redis_zremrange_upto k b r) = rd_now r" "rd_now (redis_pexpire_zset k t r) = rd_now r"
  by (simp_all add: redis_zset_defs redis_put_zset_def)

lemma redis_zset_put:
  "redis_zset k (redis_put_zset j z e r) =
    (if k = j then (if live_at (rd_now r) e then z else []) else redis_zset k r)"
  by (simp add: redis_zset_def redis_put_zset_def)

lemma redis_zset_expiry_live [simp]: "live_at (rd_now r) (redis_zset_expiry k r)"
  by (auto simp: redis_zset_expiry_def split: option.splits)

lemma redis_zset_after [simp]:
  "redis_zset k (redis_zadd j s m r) =
    (if k = j then AList.update m s (redis_zset k r) else redis_zset k r)"
  "redis_zset k (redis_zadd_nx j s m r) =
    (if k = j \<and> map_of (redis_zset k r) m = None then AList.update m s (redis_zset k r)
     else redis_zset k r)"
  "redis_zset k (redis_zrem j m r) =
    (if k = j then filter (\<lambda>(x, s). x \<noteq> m) (redis_zset k r) else redis_zset k r)"
  "redis_zset k (redis_zremrange_upto j b r) =
    (if k = j then filter (\<lambda>(x, s). s > b) (redis_zset k r) else redis_zset k r)"
  by (auto simp: redis_zset_defs redis_zset_put)

lemma redis_zset_pexpire [simp]:
  "0 < t \<Longrightarrow> redis_zset k (redis_pexpire_zset j t r) = redis_zset k r"
  by (simp add: redis_pexpire_zset_def redis_zset_put)

lemma zset_first_mem: "zset_first z = Some x \<Longrightarrow> x \<in> set z"
  by (induction z arbitrary: x) (auto split: option.splits if_splits)

lemma zset_first_None [simp]: "zset_first z = None \<longleftrightarrow> z = []"
  by (cases z) (auto split: option.splits)

end
