(* ===== verification/Rate_Limit.thy ===== *)
theory Rate_Limit
  imports Complex_Main Redis_Zset
begin

text \<open>
  The shared request budgets of \<open>packages/calendar/src/core/utils/redis-rate-limiter.ts\<close>: the Lua
  scripts over a sorted set of recent grants with a first-come queue beside it, the acquire loop of
  a caller, and the limiters built from it. A script runs atomically and is a function on the store;
  its random draws are a parameter. A caller's clock and the server's are the same clock. Callers
  interleave in any order, may be aborted, and their departure from the queue may be lost.
\<close>

definition RETRY_POLL_MS :: int where "RETRY_POLL_MS = 100"
definition QUEUE_ENTRY_TTL_MS :: int where "QUEUE_ENTRY_TTL_MS = 180000"
definition QUEUE_HEAD_GRACE_MS :: int where "QUEUE_HEAD_GRACE_MS = 15000"
definition QUEUE_POLL_CEILING_MS :: int where "QUEUE_POLL_CEILING_MS = 5000"

lemmas rate_limit_constants = RETRY_POLL_MS_def QUEUE_ENTRY_TTL_MS_def QUEUE_HEAD_GRACE_MS_def
  QUEUE_POLL_CEILING_MS_def

section \<open>The acquire scripts\<close>

definition queue_key :: "string \<Rightarrow> string" where "queue_key key = key @ '':queue''"
definition blocked_key :: "string \<Rightarrow> string" where "blocked_key key = queue_key key @ '':blocked''"

text \<open>The head of the queue, after dropping a head that stayed silent for the grace period.\<close>

definition headAfterReaping ::
    "string \<Rightarrow> string option \<Rightarrow> int \<Rightarrow> redis \<Rightarrow> string option \<times> redis" where
  "headAfterReaping key token now r =
    (case redis_zfirst (queue_key key) r of
       None \<Rightarrow> (None, r)
     | Some (head, _) \<Rightarrow>
       if Some head = token then (Some head, r)
       else (case redis_zscore (blocked_key key) head r of
           None \<Rightarrow>
             (Some head, redis_pexpire_zset (blocked_key key) QUEUE_ENTRY_TTL_MS
               (redis_zadd (blocked_key key) now head r))
         | Some blockedSince \<Rightarrow>
             if now - blockedSince \<ge> QUEUE_HEAD_GRACE_MS then
               (let r = redis_zrem (blocked_key key) head (redis_zrem (queue_key key) head r)
                in (map_option fst (redis_zfirst (queue_key key) r), r))
             else (Some head, r)))"

text \<open>\<open>now .. ':' .. i .. ':' .. math.random(1000000)\<close>\<close>

definition window_member :: "int \<Rightarrow> nat \<Rightarrow> nat \<Rightarrow> string" where
  "window_member now i draw = show_int now @ '':'' @ show_nat i @ '':'' @ show_nat draw"

definition window_members :: "int \<Rightarrow> nat \<Rightarrow> (nat \<Rightarrow> nat) \<Rightarrow> string list" where
  "window_members now cnt draws = map (\<lambda>i. window_member now i (draws i)) [1..<Suc cnt]"

definition record_grant :: "string \<Rightarrow> int \<Rightarrow> nat \<Rightarrow> (nat \<Rightarrow> nat) \<Rightarrow> redis \<Rightarrow> redis" where
  "record_grant key now cnt draws r =
    redis_pexpire_zset key 60000
      (fold (redis_zadd key now) (window_members now cnt draws) r)"

text \<open>How long until the oldest grant leaves the window.\<close>

definition oldest_wait :: "string \<Rightarrow> int \<Rightarrow> redis \<Rightarrow> int" where
  "oldest_wait key now r =
    (case redis_zfirst key r of Some (_, score) \<Rightarrow> score + 60000 - now | None \<Rightarrow> 1000)"

record AcquireDecision =
  waitTimeMs :: int
  occupancy :: int
  queueDepth :: "int option"

record acquire_args =
  aqCount :: nat
  aqLimit :: int
  aqToken :: "string option"
  aqDraws :: "nat \<Rightarrow> nat"

definition fresh_acquire :: "string \<Rightarrow> int \<Rightarrow> acquire_args \<Rightarrow> int \<Rightarrow> redis \<Rightarrow> AcquireDecision \<times> redis" where
  "fresh_acquire key now args current r =
    (if current + int (aqCount args) \<le> aqLimit args then
       (case headAfterReaping key None now r of
          (Some _, r) \<Rightarrow> (\<lparr>waitTimeMs = RETRY_POLL_MS, occupancy = current, queueDepth = None\<rparr>, r)
        | (None, r) \<Rightarrow> (\<lparr>waitTimeMs = 0, occupancy = current, queueDepth = None\<rparr>,
            record_grant key now (aqCount args) (aqDraws args) r))
     else (\<lparr>waitTimeMs = oldest_wait key now r, occupancy = current, queueDepth = None\<rparr>, r))"

definition queued_acquire ::
    "string \<Rightarrow> int \<Rightarrow> string \<Rightarrow> acquire_args \<Rightarrow> int \<Rightarrow> redis \<Rightarrow> AcquireDecision \<times> redis" where
  "queued_acquire key now token args current r =
    (let (head, r) = headAfterReaping key (Some token) now r;
         r = (if head = Some token then redis_zrem (blocked_key key) token r else r);
         atHead = (head = None \<or> head = Some token);
         hasRoom = (current + int (aqCount args) \<le> aqLimit args)
     in if atHead \<and> hasRoom then
          (let r = redis_zrem (queue_key key) token
                 (record_grant key now (aqCount args) (aqDraws args) r)
           in (\<lparr>waitTimeMs = 0, occupancy = current, queueDepth = Some (redis_zcard (queue_key key) r)\<rparr>, r))
        else
          (let r = redis_pexpire_zset (blocked_key key) QUEUE_ENTRY_TTL_MS
                 (redis_pexpire_zset (queue_key key) QUEUE_ENTRY_TTL_MS
                   (redis_zadd_nx (queue_key key) now token r));
               depth = Some (redis_zcard (queue_key key) r)
           in if hasRoom
              then (\<lparr>waitTimeMs = RETRY_POLL_MS, occupancy = current, queueDepth = depth\<rparr>, r)
              else (\<lparr>waitTimeMs = oldest_wait key now r, occupancy = current, queueDepth = depth\<rparr>, r)))"

definition ACQUIRE_SCRIPT :: "string \<Rightarrow> int \<Rightarrow> int \<Rightarrow> acquire_args \<Rightarrow> redis \<Rightarrow> AcquireDecision \<times> redis" where
  "ACQUIRE_SCRIPT key windowStart now args r =
    (let r = redis_zremrange_upto key windowStart r;
         current = redis_zcard key r
     in case aqToken args of
          None \<Rightarrow> fresh_acquire key now args current r
        | Some token \<Rightarrow> if token = [] then fresh_acquire key now args current r
            else queued_acquire key now token args current r)"

definition PRIORITY_ACQUIRE_SCRIPT ::
    "string \<Rightarrow> int \<Rightarrow> int \<Rightarrow> acquire_args \<Rightarrow> redis \<Rightarrow> AcquireDecision \<times> redis" where
  "PRIORITY_ACQUIRE_SCRIPT key windowStart now args r =
    (let r = redis_zremrange_upto key windowStart r;
         current = redis_zcard key r
     in if current + int (aqCount args) \<le> aqLimit args
        then (\<lparr>waitTimeMs = 0, occupancy = current, queueDepth = None\<rparr>,
          record_grant key now (aqCount args) (aqDraws args) r)
        else (\<lparr>waitTimeMs = oldest_wait key now r, occupancy = current, queueDepth = None\<rparr>, r))"

definition LEAVE_QUEUE_SCRIPT :: "string \<Rightarrow> string \<Rightarrow> redis \<Rightarrow> redis" where
  "LEAVE_QUEUE_SCRIPT key token r =
    redis_zrem (blocked_key key) token (redis_zrem (queue_key key) token r)"

definition resolveAcquireScript ::
    "bool \<Rightarrow> string \<Rightarrow> int \<Rightarrow> int \<Rightarrow> acquire_args \<Rightarrow> redis \<Rightarrow> AcquireDecision \<times> redis" where
  "resolveAcquireScript priority = (if priority then PRIORITY_ACQUIRE_SCRIPT else ACQUIRE_SCRIPT)"

section \<open>The acquire loop\<close>

text \<open>
  The reply of a script as the client reads it: an array of at least two numbers, with the queue
  depth third when there is one.
\<close>

datatype limiter_error = UnexpectedResultShape | LimiterAborted | RedisFailed
  | GoogleProjectBudgetExhaustedError

definition parseAcquireDecision :: "int list option \<Rightarrow> limiter_error + AcquireDecision" where
  "parseAcquireDecision raw =
    (case raw of
       Some (w # o' # rest) \<Rightarrow> Inr \<lparr>waitTimeMs = w, occupancy = o',
         queueDepth = (case rest of [] \<Rightarrow> None | d # _ \<Rightarrow> Some d)\<rparr>
     | _ \<Rightarrow> Inl UnexpectedResultShape)"

definition script_reply :: "AcquireDecision \<Rightarrow> int list" where
  "script_reply d = [waitTimeMs d, occupancy d] @ (case queueDepth d of None \<Rightarrow> [] | Some q \<Rightarrow> [q])"

record limiter_config =
  lcKey :: string
  lcPriority :: bool
  lcRequestsPerMinute :: int

text \<open>The variables of one \<open>acquire\<close> call: \<open>waiterToken\<close> is empty until it is parked.\<close>

record acquire_call =
  acConfig :: limiter_config
  acCount :: nat
  acParked :: bool
  acWaiterToken :: string
  acJoinedQueue :: bool

definition new_call :: "limiter_config \<Rightarrow> nat \<Rightarrow> acquire_call" where
  "new_call config cnt = \<lparr>acConfig = config, acCount = cnt, acParked = False, acWaiterToken = [],
    acJoinedQueue = False\<rparr>"

datatype acquire_outcome = AcquireGranted | AcquireSleeps int acquire_call | AcquireThrows limiter_error

text \<open>One turn of the loop; \<open>uuid\<close> is the token a caller takes when it is first parked.\<close>

definition acquire_turn ::
    "string \<Rightarrow> (nat \<Rightarrow> nat) \<Rightarrow> acquire_call \<Rightarrow> redis \<Rightarrow> acquire_outcome \<times> redis" where
  "acquire_turn uuid draws call r =
    (let now = rd_now r; windowStart = now - 60000;
         call = call\<lparr>acJoinedQueue := (acJoinedQueue call \<or> acWaiterToken call \<noteq> [])\<rparr>;
         args = \<lparr>aqCount = acCount call, aqLimit = lcRequestsPerMinute (acConfig call),
           aqToken = (if acWaiterToken call = [] then None else Some (acWaiterToken call)),
           aqDraws = draws\<rparr>;
         (reply, r) = resolveAcquireScript (lcPriority (acConfig call)) (lcKey (acConfig call))
           windowStart now args r
     in case parseAcquireDecision (Some (script_reply reply)) of
          Inl e \<Rightarrow> (AcquireThrows e, r)
        | Inr decision \<Rightarrow>
          if waitTimeMs decision \<le> 0 then (AcquireGranted, r)
          else (AcquireSleeps
              (max RETRY_POLL_MS (min (waitTimeMs decision) QUEUE_POLL_CEILING_MS))
              (if acParked call then call
               else call\<lparr>acParked := True, acWaiterToken :=
                 (if lcPriority (acConfig call) then acWaiterToken call else uuid)\<rparr>), r))"

text \<open>The \<open>finally\<close> of a call that ends without a grant; the reply of the script is ignored.\<close>

definition acquire_departure :: "acquire_call \<Rightarrow> redis \<Rightarrow> redis" where
  "acquire_departure call r =
    (if acJoinedQueue call then LEAVE_QUEUE_SCRIPT (lcKey (acConfig call)) (acWaiterToken call) r else r)"

section \<open>The limiters built from it\<close>

datatype GoogleRateLimitLane = IngestLane | PushLane

definition GOOGLE_LANE_REQUESTS_PER_MINUTE :: "GoogleRateLimitLane \<Rightarrow> int" where
  "GOOGLE_LANE_REQUESTS_PER_MINUTE lane = (case lane of IngestLane \<Rightarrow> 500 | PushLane \<Rightarrow> 350)"

definition createGoogleUserRateLimiter :: "string \<Rightarrow> GoogleRateLimitLane \<Rightarrow> limiter_config" where
  "createGoogleUserRateLimiter userId lane = \<lparr>lcKey = ''ratelimit:'' @ userId @ '':google'',
    lcPriority = False, lcRequestsPerMinute = GOOGLE_LANE_REQUESTS_PER_MINUTE lane\<rparr>"

definition GOOGLE_PROJECT_RATE_LIMIT_KEY :: string where
  "GOOGLE_PROJECT_RATE_LIMIT_KEY = ''ratelimit:google:project''"

text \<open>A configured budget is a finite number or absent; zero turns the budget off.\<close>

definition resolveGoogleProjectRequestsPerMinute :: "rat option \<Rightarrow> rat option" where
  "resolveGoogleProjectRequestsPerMinute configured =
    (case configured of None \<Rightarrow> Some 10000
     | Some c \<Rightarrow> if c = 0 then None else if c > 0 then Some c else Some 10000)"

definition backgroundProjectLimiter :: "rat option \<Rightarrow> limiter_config option" where
  "backgroundProjectLimiter configured =
    map_option (\<lambda>rpm. \<lparr>lcKey = GOOGLE_PROJECT_RATE_LIMIT_KEY, lcPriority = False,
        lcRequestsPerMinute = max 1 \<lfloor>rpm * (9 / 10)\<rfloor>\<rparr>)
      (resolveGoogleProjectRequestsPerMinute configured)"

text \<open>The limiters a background request acquires from, in this order.\<close>

definition withGoogleProjectBudget :: "limiter_config \<Rightarrow> rat option \<Rightarrow> limiter_config list" where
  "withGoogleProjectBudget userLimiter configured =
    (case backgroundProjectLimiter configured of None \<Rightarrow> [userLimiter] | Some p \<Rightarrow> [userLimiter, p])"

definition createGoogleInteractiveRateLimiter :: "rat option \<Rightarrow> limiter_config option" where
  "createGoogleInteractiveRateLimiter configured =
    map_option (\<lambda>rpm. \<lparr>lcKey = GOOGLE_PROJECT_RATE_LIMIT_KEY, lcPriority = True,
        lcRequestsPerMinute = \<lfloor>rpm\<rfloor>\<rparr>)
      (resolveGoogleProjectRequestsPerMinute configured)"

text \<open>What an interactive caller is told when its acquire fails.\<close>

definition interactive_error :: "bool \<Rightarrow> bool \<Rightarrow> limiter_error \<Rightarrow> limiter_error" where
  "interactive_error deadlineAborted signalAborted e =
    (if deadlineAborted \<and> \<not> signalAborted then GoogleProjectBudgetExhaustedError else e)"

definition createCalDAVAccountRateLimiter :: "string \<Rightarrow> int option \<Rightarrow> limiter_config" where
  "createCalDAVAccountRateLimiter accountId requestsPerMinute =
    \<lparr>lcKey = ''ratelimit:caldav-account:'' @ accountId, lcPriority = False,
     lcRequestsPerMinute = or_else requestsPerMinute 240\<rparr>"

definition createHostRateLimiter :: "string \<Rightarrow> int option \<Rightarrow> limiter_config" where
  "createHostRateLimiter host requestsPerMinute = \<lparr>lcKey = ''ratelimit:host:'' @ host,
    lcPriority = False, lcRequestsPerMinute = or_else requestsPerMinute 600\<rparr>"

section \<open>Interleaved callers\<close>

text \<open>
  The store, the calls under way by caller, and a log of what was granted on each key: one entry for
  each request of a grant, with the member recorded for it. A store is shared by any number of keys;
  \<open>configured\<close> says which limiters the deployment creates.
\<close>

record limiter_world =
  lwRedis :: redis
  lwCalls :: "nat \<Rightarrow> acquire_call option"
  lwGrants :: "(string \<times> string \<times> instant) list"

definition tick :: "int \<Rightarrow> redis \<Rightarrow> redis" where
  "tick d r = r\<lparr>rd_now := rd_now r + d\<rparr>"

definition grant_entries :: "acquire_call \<Rightarrow> int \<Rightarrow> (nat \<Rightarrow> nat) \<Rightarrow> (string \<times> string \<times> instant) list" where
  "grant_entries call now draws =
    map (\<lambda>m. (lcKey (acConfig call), m, now)) (window_members now (acCount call) draws)"

inductive limiter_step :: "(limiter_config \<Rightarrow> bool) \<Rightarrow> limiter_world \<Rightarrow> limiter_world \<Rightarrow> bool" for configured :: "limiter_config \<Rightarrow> bool" where
  step_call: "configured config \<Longrightarrow> lwCalls w c = None \<Longrightarrow>
    limiter_step configured w (w\<lparr>lwCalls := (lwCalls w)(c \<mapsto> new_call config cnt)\<rparr>)"
| step_granted: "lwCalls w c = Some call \<Longrightarrow> acquire_turn uuid draws call (lwRedis w) = (AcquireGranted, r) \<Longrightarrow>
    limiter_step configured w (w\<lparr>lwRedis := r, lwCalls := (lwCalls w)(c := None),
      lwGrants := lwGrants w @ grant_entries call (rd_now (lwRedis w)) draws\<rparr>)"
| step_sleeps: "lwCalls w c = Some call \<Longrightarrow>
    acquire_turn uuid draws call (lwRedis w) = (AcquireSleeps d call', r) \<Longrightarrow>
    limiter_step configured w (w\<lparr>lwRedis := r, lwCalls := (lwCalls w)(c \<mapsto> call')\<rparr>)"
| step_leaves: "lwCalls w c = Some call \<Longrightarrow>
    limiter_step configured w (w\<lparr>lwRedis := acquire_departure call (lwRedis w), lwCalls := (lwCalls w)(c := None)\<rparr>)"
| step_lost: "lwCalls w c = Some call \<Longrightarrow>
    limiter_step configured w (w\<lparr>lwCalls := (lwCalls w)(c := None)\<rparr>)"
| step_time: "0 \<le> d \<Longrightarrow> limiter_step configured w (w\<lparr>lwRedis := tick d (lwRedis w)\<rparr>)"

definition initial_limiter_world :: limiter_world where
  "initial_limiter_world = \<lparr>lwRedis = empty_redis, lwCalls = \<lambda>_. None, lwGrants = []\<rparr>"

inductive limiter_reach :: "(limiter_config \<Rightarrow> bool) \<Rightarrow> limiter_world \<Rightarrow> bool"
  for configured :: "limiter_config \<Rightarrow> bool" where
  reach_start: "limiter_reach configured initial_limiter_world"
| reach_step: "limiter_reach configured w \<Longrightarrow> limiter_step configured w w' \<Longrightarrow> limiter_reach configured w'"

end
