(* ===== verification/Rate_Limit_Correct.thy ===== *)
theory Rate_Limit_Correct
  imports Rate_Limit
begin

text \<open>
  What the shared budgets guarantee: a script grants exactly when there is room and it is the
  caller's turn, and however callers interleave, abort or vanish, no minute sees more grants on a
  key than its limit, as long as the members recorded for the grants differ.
\<close>

section \<open>Keys\<close>

lemma keys_differ [simp]:
  "queue_key k \<noteq> k" "k \<noteq> queue_key k" "blocked_key k \<noteq> k" "k \<noteq> blocked_key k"
  "queue_key k \<noteq> blocked_key k" "blocked_key k \<noteq> queue_key k"
  by (simp_all add: queue_key_def blocked_key_def)

text \<open>A window key that is not the queue of another key.\<close>

definition plain_key :: "string \<Rightarrow> bool" where
  "plain_key K \<longleftrightarrow> drop (length K - 6) K \<noteq> '':queue'' \<and> drop (length K - 14) K \<noteq> '':queue:blocked''"

lemma plain_key_differs:
  assumes "plain_key K"
  shows "K \<noteq> queue_key k" "K \<noteq> blocked_key k" "queue_key k \<noteq> K" "blocked_key k \<noteq> K"
  using assms by (auto simp: plain_key_def queue_key_def blocked_key_def)

lemma zsets_put [simp]:
  "rd_zsets (redis_put_zset j z e r) K =
    (if K = j then (if z = [] then None else Some (z, e)) else rd_zsets r K)"
  by (simp add: redis_put_zset_def)

lemma zsets_other:
  assumes "K \<noteq> j"
  shows "rd_zsets (redis_zadd j s m r) K = rd_zsets r K" "rd_zsets (redis_zadd_nx j s m r) K = rd_zsets r K"
    "rd_zsets (redis_zrem j m r) K = rd_zsets r K" "rd_zsets (redis_zremrange_upto j b r) K = rd_zsets r K"
    "rd_zsets (redis_pexpire_zset j t r) K = rd_zsets r K"
  using assms by (simp_all add: redis_zset_defs)

lemma zset_cong: "rd_zsets r K = rd_zsets r' K \<Longrightarrow> rd_now r = rd_now r' \<Longrightarrow> redis_zset K r = redis_zset K r'"
  by (simp add: redis_zset_def)

lemma zcard_cong: "rd_zsets r K = rd_zsets r' K \<Longrightarrow> rd_now r = rd_now r' \<Longrightarrow> redis_zcard K r = redis_zcard K r'"
  by (simp only: redis_zcard_def zset_cong [of r K r'])

lemma oldest_wait_cong:
  "rd_zsets r K = rd_zsets r' K \<Longrightarrow> rd_now r = rd_now r' \<Longrightarrow> oldest_wait K now r = oldest_wait K now r'"
  by (simp only: oldest_wait_def redis_zfirst_def zset_cong [of r K r'])

lemma fold_zadd_now [simp]: "rd_now (fold (redis_zadd k s) ms r) = rd_now r"
  by (induction ms arbitrary: r) auto

lemma fold_zadd_other: "K \<noteq> k \<Longrightarrow> rd_zsets (fold (redis_zadd k s) ms r) K = rd_zsets r K"
  by (induction ms arbitrary: r) (auto simp: zsets_other)

lemma record_grant_now [simp]: "rd_now (record_grant k now n draws r) = rd_now r"
  by (simp add: record_grant_def)

lemma record_grant_other: "K \<noteq> k \<Longrightarrow> rd_zsets (record_grant k now n draws r) K = rd_zsets r K"
  by (simp add: record_grant_def zsets_other fold_zadd_other)

lemma headAfterReaping_keeps:
  "headAfterReaping k token now r = (head, r') \<Longrightarrow> rd_now r' = rd_now r \<and>
    (K \<noteq> queue_key k \<and> K \<noteq> blocked_key k \<longrightarrow> rd_zsets r' K = rd_zsets r K)"
  by (auto simp: headAfterReaping_def Let_def zsets_other split: option.splits if_splits)

section \<open>When a script grants\<close>

text \<open>The reference: whose turn it is, and whether there is room.\<close>

definition next_head :: "string \<Rightarrow> string \<Rightarrow> redis \<Rightarrow> string option" where
  "next_head k gone r = map_option fst (zset_first (filter (\<lambda>(m, s). m \<noteq> gone) (redis_zset (queue_key k) r)))"

definition silent_head :: "string \<Rightarrow> string \<Rightarrow> int \<Rightarrow> redis \<Rightarrow> bool" where
  "silent_head k head now r \<longleftrightarrow>
    (\<exists>since. redis_zscore (blocked_key k) head r = Some since \<and> QUEUE_HEAD_GRACE_MS \<le> now - since)"

definition callers_turn :: "string \<Rightarrow> string option \<Rightarrow> int \<Rightarrow> redis \<Rightarrow> bool" where
  "callers_turn k token now r \<longleftrightarrow>
    (case redis_zfirst (queue_key k) r of None \<Rightarrow> True
     | Some (head, _) \<Rightarrow> Some head = token \<or>
         silent_head k head now r \<and> (next_head k head r = None \<or> next_head k head r = token))"

definition window_grants :: "string \<Rightarrow> redis \<Rightarrow> int" where
  "window_grants k r = int (length (filter (\<lambda>(m, s). rd_now r - 60000 < s) (redis_zset k r)))"

lemma headAfterReaping_turn:
  "headAfterReaping k token now r = (head, r') \<Longrightarrow>
    (head = None \<or> head = token) \<longleftrightarrow> callers_turn k token now r"
  by (auto simp: headAfterReaping_def callers_turn_def silent_head_def next_head_def redis_zfirst_def
      Let_def split: option.splits if_splits)

lemma zcard_after_removal:
  "redis_zcard k (redis_zremrange_upto k (rd_now r - 60000) r) = window_grants k r"
  by (simp add: redis_zcard_def window_grants_def)

lemma oldest_wait_positive:
  "rd_now r = now \<Longrightarrow> 0 < oldest_wait k now (redis_zremrange_upto k (now - 60000) r)"
  by (auto simp: oldest_wait_def redis_zfirst_def split: option.splits dest!: zset_first_mem)

lemma turn_after_removal:
  "callers_turn k token now (redis_zremrange_upto k b r) = callers_turn k token now r"
proof -
  have "silent_head k h now (redis_zremrange_upto k b r) = silent_head k h now r"
    "next_head k h (redis_zremrange_upto k b r) = next_head k h r" for h
    by (simp_all add: silent_head_def next_head_def redis_zscore_def)
  then show ?thesis by (auto simp: callers_turn_def redis_zfirst_def split: option.splits)
qed

text \<open>What one script call does to the window of its key.\<close>

definition window_effect :: "string \<Rightarrow> acquire_args \<Rightarrow> redis \<Rightarrow> AcquireDecision \<times> redis \<Rightarrow> bool \<Rightarrow> bool" where
  "window_effect k args r res turn \<longleftrightarrow>
    (let r1 = redis_zremrange_upto k (rd_now r - 60000) r;
         ok = (window_grants k r + int (aqCount args) \<le> aqLimit args \<and> turn)
     in rd_now (snd res) = rd_now r \<and> (waitTimeMs (fst res) \<le> 0 \<longleftrightarrow> ok) \<and>
        rd_zsets (snd res) k = rd_zsets (if ok
          then record_grant k (rd_now r) (aqCount args) (aqDraws args) r1 else r1) k \<and>
        (\<forall>K. K \<noteq> k \<and> K \<noteq> queue_key k \<and> K \<noteq> blocked_key k \<longrightarrow> rd_zsets (snd res) K = rd_zsets r K))"

lemma record_grant_zset_cong:
  assumes "rd_zsets r k = rd_zsets r' k" "rd_now r = rd_now r'"
  shows "rd_zsets (record_grant k now n draws r) k = rd_zsets (record_grant k now n draws r') k"
proof -
  have "rd_zsets (fold (redis_zadd k now) ms r) k = rd_zsets (fold (redis_zadd k now) ms r') k" for ms
    using assms
  proof (induction ms arbitrary: r r')
    case (Cons m ms)
    have zs: "rd_zsets (redis_zadd k now m r) k = rd_zsets (redis_zadd k now m r') k"
      by (simp only: redis_zadd_def zsets_put redis_zset_def redis_zset_expiry_def Cons.prems)
    have now: "rd_now (redis_zadd k now m r) = rd_now (redis_zadd k now m r')"
      by (simp only: zset_now_kept Cons.prems(2))
    from Cons.IH [OF zs now] show ?case by (simp only: fold_simps)
  qed simp
  from this [of "window_members now n draws"] show ?thesis
    by (simp only: record_grant_def redis_pexpire_zset_def zsets_put redis_zset_def fold_zadd_now assms(2))
qed

lemma priority_script_effect:
  "window_effect k args r (PRIORITY_ACQUIRE_SCRIPT k (rd_now r - 60000) (rd_now r) args r) True"
  using oldest_wait_positive [of r "rd_now r" k] zcard_after_removal [of k r]
  by (auto simp: window_effect_def PRIORITY_ACQUIRE_SCRIPT_def Let_def record_grant_other zsets_other)

lemma fresh_acquire_effect:
  assumes "r1 = redis_zremrange_upto k (rd_now r - 60000) r"
  shows "window_effect k args r (fresh_acquire k (rd_now r) args (redis_zcard k r1) r1)
    (callers_turn k None (rd_now r) r)"
proof -
  obtain head r2 where h: "headAfterReaping k None (rd_now r) r1 = (head, r2)" by fastforce
  have turn: "head = None \<longleftrightarrow> callers_turn k None (rd_now r) r"
    using headAfterReaping_turn [OF h] turn_after_removal [of k None "rd_now r" _ r] by (simp add: assms)
  have keep: "rd_now r2 = rd_now r"
    "K \<noteq> queue_key k \<Longrightarrow> K \<noteq> blocked_key k \<Longrightarrow> rd_zsets r2 K = rd_zsets r1 K" for K
    using headAfterReaping_keeps [OF h] by (auto simp: assms)
  have grant: "rd_zsets (record_grant k (rd_now r) n draws r2) k = rd_zsets (record_grant k (rd_now r) n draws r1) k"
    for n draws using keep by (intro record_grant_zset_cong) (auto simp: assms)
  have wait: "0 < oldest_wait k (rd_now r) r1" using oldest_wait_positive [of r] by (simp add: assms)
  have card: "redis_zcard k r1 = window_grants k r" by (simp add: assms zcard_after_removal)
  have start: "rd_now r1 = rd_now r" "K \<noteq> k \<Longrightarrow> rd_zsets r1 K = rd_zsets r K" for K
    by (simp_all add: assms zsets_other)
  show ?thesis
    unfolding window_effect_def Let_def turn [symmetric] assms [symmetric]
    using keep grant wait start
    by (cases head) (auto simp: fresh_acquire_def card h RETRY_POLL_MS_def record_grant_other)
qed

lemma queued_acquire_effect:
  assumes "r1 = redis_zremrange_upto k (rd_now r - 60000) r"
  shows "window_effect k args r (queued_acquire k (rd_now r) token args (redis_zcard k r1) r1)
    (callers_turn k (Some token) (rd_now r) r)"
proof -
  obtain head r2 where h: "headAfterReaping k (Some token) (rd_now r) r1 = (head, r2)" by fastforce
  define r3 where "r3 = (if head = Some token then redis_zrem (blocked_key k) token r2 else r2)"
  define r4 where "r4 = redis_pexpire_zset (blocked_key k) QUEUE_ENTRY_TTL_MS
    (redis_pexpire_zset (queue_key k) QUEUE_ENTRY_TTL_MS (redis_zadd_nx (queue_key k) (rd_now r) token r3))"
  have turn: "(head = None \<or> head = Some token) \<longleftrightarrow> callers_turn k (Some token) (rd_now r) r"
    using headAfterReaping_turn [OF h] turn_after_removal [of k "Some token" "rd_now r" _ r]
    by (simp add: assms)
  have keep2: "rd_now r2 = rd_now r"
    "K \<noteq> queue_key k \<Longrightarrow> K \<noteq> blocked_key k \<Longrightarrow> rd_zsets r2 K = rd_zsets r1 K" for K
    using headAfterReaping_keeps [OF h] by (auto simp: assms)
  then have keep3: "rd_now r3 = rd_now r"
    "K \<noteq> queue_key k \<Longrightarrow> K \<noteq> blocked_key k \<Longrightarrow> rd_zsets r3 K = rd_zsets r1 K" for K
    by (auto simp: r3_def zsets_other)
  have keep4: "rd_now r4 = rd_now r"
    "K \<noteq> queue_key k \<Longrightarrow> K \<noteq> blocked_key k \<Longrightarrow> rd_zsets r4 K = rd_zsets r1 K" for K
    using keep3 by (auto simp: r4_def zsets_other)
  have grant: "rd_zsets (record_grant k (rd_now r) n draws r3) k = rd_zsets (record_grant k (rd_now r) n draws r1) k"
    for n draws using keep3 by (intro record_grant_zset_cong) (auto simp: assms)
  have wait: "0 < oldest_wait k (rd_now r) r4"
    using oldest_wait_positive [of r "rd_now r" k] oldest_wait_cong [of r4 k r1 "rd_now r"] keep4
    by (simp add: assms)
  have card: "redis_zcard k r1 = window_grants k r" by (simp add: assms zcard_after_removal)
  have start: "rd_now r1 = rd_now r" "K \<noteq> k \<Longrightarrow> rd_zsets r1 K = rd_zsets r K" for K
    by (simp_all add: assms zsets_other)
  have unfolded: "queued_acquire k (rd_now r) token args (redis_zcard k r1) r1 =
    (if (head = None \<or> head = Some token) \<and> window_grants k r + int (aqCount args) \<le> aqLimit args then
       (let r' = redis_zrem (queue_key k) token (record_grant k (rd_now r) (aqCount args) (aqDraws args) r3)
        in (\<lparr>waitTimeMs = 0, occupancy = window_grants k r,
             queueDepth = Some (redis_zcard (queue_key k) r')\<rparr>, r'))
     else (\<lparr>waitTimeMs = (if window_grants k r + int (aqCount args) \<le> aqLimit args then RETRY_POLL_MS
              else oldest_wait k (rd_now r) r4),
            occupancy = window_grants k r, queueDepth = Some (redis_zcard (queue_key k) r4)\<rparr>, r4))"
    unfolding queued_acquire_def h prod.case Let_def r3_def [symmetric] r4_def [symmetric] card by simp
  show ?thesis
    unfolding window_effect_def Let_def turn [symmetric] unfolded assms [symmetric]
    using keep3 keep4 grant wait start
    by (auto simp: Let_def RETRY_POLL_MS_def record_grant_other zsets_other)
qed


text \<open>One turn of the acquire loop, over the script the caller runs.\<close>

definition call_token :: "acquire_call \<Rightarrow> string option" where
  "call_token call = (if acWaiterToken call = [] then None else Some (acWaiterToken call))"

definition call_args :: "acquire_call \<Rightarrow> (nat \<Rightarrow> nat) \<Rightarrow> acquire_args" where
  "call_args call draws = \<lparr>aqCount = acCount call, aqLimit = lcRequestsPerMinute (acConfig call),
    aqToken = call_token call, aqDraws = draws\<rparr>"

definition call_script :: "acquire_call \<Rightarrow> (nat \<Rightarrow> nat) \<Rightarrow> redis \<Rightarrow> AcquireDecision \<times> redis" where
  "call_script call draws r = resolveAcquireScript (lcPriority (acConfig call)) (lcKey (acConfig call))
    (rd_now r - 60000) (rd_now r) (call_args call draws) r"

abbreviation "call_key call \<equiv> lcKey (acConfig call)"

definition grants_now :: "acquire_call \<Rightarrow> redis \<Rightarrow> bool" where
  "grants_now call r \<longleftrightarrow>
    window_grants (call_key call) r + int (acCount call) \<le> lcRequestsPerMinute (acConfig call) \<and>
    (lcPriority (acConfig call) \<or> callers_turn (call_key call) (call_token call) (rd_now r) r)"

lemma call_script_effect:
  "window_effect (call_key call) (call_args call draws) r (call_script call draws r)
    (lcPriority (acConfig call) \<or> callers_turn (call_key call) (call_token call) (rd_now r) r)"
  using priority_script_effect [of "call_key call" "call_args call draws" r]
    fresh_acquire_effect [OF refl, where k = "call_key call" and r = r and args = "call_args call draws"]
    queued_acquire_effect [OF refl, where k = "call_key call" and r = r and
      token = "acWaiterToken call" and args = "call_args call draws"]
  by (auto simp: call_script_def resolveAcquireScript_def ACQUIRE_SCRIPT_def call_args_def
      call_token_def Let_def)

lemma parse_script_reply [simp]: "parseAcquireDecision (Some (script_reply d)) = Inr d"
  by (cases d) (auto simp: script_reply_def parseAcquireDecision_def split: option.splits)

lemma acquire_turn_eq:
  "acquire_turn uuid draws call r =
    (if waitTimeMs (fst (call_script call draws r)) \<le> 0 then (AcquireGranted, snd (call_script call draws r))
     else (AcquireSleeps (max RETRY_POLL_MS (min (waitTimeMs (fst (call_script call draws r))) QUEUE_POLL_CEILING_MS))
       (let call = call\<lparr>acJoinedQueue := (acJoinedQueue call \<or> acWaiterToken call \<noteq> [])\<rparr>
        in if acParked call then call
           else call\<lparr>acParked := True, acWaiterToken :=
             (if lcPriority (acConfig call) then acWaiterToken call else uuid)\<rparr>),
       snd (call_script call draws r)))"
proof -
  obtain d r' where res: "call_script call draws r = (d, r')" by fastforce
  then have "resolveAcquireScript (lcPriority (acConfig call)) (lcKey (acConfig call)) (rd_now r - 60000)
      (rd_now r) \<lparr>aqCount = acCount call, aqLimit = lcRequestsPerMinute (acConfig call),
        aqToken = (if acWaiterToken call = [] then None else Some (acWaiterToken call)),
        aqDraws = draws\<rparr> r = (d, r')"
    by (simp add: call_script_def call_args_def call_token_def)
  then show ?thesis
    by (cases "acWaiterToken call = []"; cases "lcPriority (acConfig call)"; cases "acParked call")
      (simp_all add: acquire_turn_def Let_def res)
qed

text \<open>What a turn does to the store.\<close>

lemma acquire_turn_store:
  assumes "acquire_turn uuid draws call r = (outcome, r')"
  defines "K \<equiv> call_key call" and "r1 \<equiv> redis_zremrange_upto (call_key call) (rd_now r - 60000) r"
  shows "rd_now r' = rd_now r" "outcome = AcquireGranted \<longleftrightarrow> grants_now call r"
    "rd_zsets r' K = rd_zsets (if grants_now call r
      then record_grant K (rd_now r) (acCount call) draws r1 else r1) K"
    "J \<noteq> K \<Longrightarrow> J \<noteq> queue_key K \<Longrightarrow> J \<noteq> blocked_key K \<Longrightarrow> rd_zsets r' J = rd_zsets r J"
proof -
  have r': "r' = snd (call_script call draws r)"
    using assms(1) unfolding acquire_turn_eq by (auto split: if_splits)
  have granted: "outcome = AcquireGranted \<longleftrightarrow> waitTimeMs (fst (call_script call draws r)) \<le> 0"
    using assms(1) unfolding acquire_turn_eq by (auto split: if_splits)
  note effect = call_script_effect [of call draws r, unfolded window_effect_def Let_def]
  show "rd_now r' = rd_now r" using effect by (simp add: r')
  show "outcome = AcquireGranted \<longleftrightarrow> grants_now call r"
    using effect unfolding granted by (simp add: grants_now_def call_args_def)
  show "rd_zsets r' K = rd_zsets (if grants_now call r
      then record_grant K (rd_now r) (acCount call) draws r1 else r1) K"
    using effect [THEN conjunct2, THEN conjunct2, THEN conjunct1]
    by (simp only: r' grants_now_def call_args_def acquire_args.select_convs K_def r1_def)
  show "J \<noteq> K \<Longrightarrow> J \<noteq> queue_key K \<Longrightarrow> J \<noteq> blocked_key K \<Longrightarrow> rd_zsets r' J = rd_zsets r J"
    using effect by (simp add: r' K_def)
qed

text \<open>A caller's turn ends in a grant exactly when the grants of the last minute leave room
  for its requests and, unless it has priority, it is its turn: the queue is empty, it is at the head,
  or the head kept silent for the grace period while it blocked others and the caller is next (or
  nobody is). Otherwise the turn sleeps for at least 100 and at most 5000 milliseconds, and never
  fails.\<close>

theorem acquire_grants_iff_room_and_turn:
  "(fst (acquire_turn uuid draws call r) = AcquireGranted) =
      (window_grants (lcKey (acConfig call)) r + int (acCount call) \<le> lcRequestsPerMinute (acConfig call) \<and>
       (lcPriority (acConfig call) \<or> callers_turn (lcKey (acConfig call))
         (if acWaiterToken call = [] then None else Some (acWaiterToken call)) (rd_now r) r)) \<and>
    (fst (acquire_turn uuid draws call r) = AcquireGranted \<or>
      (\<exists>d call'. fst (acquire_turn uuid draws call r) = AcquireSleeps d call' \<and> 100 \<le> d \<and> d \<le> 5000))"
proof
  show "(fst (acquire_turn uuid draws call r) = AcquireGranted) =
      (window_grants (lcKey (acConfig call)) r + int (acCount call) \<le> lcRequestsPerMinute (acConfig call) \<and>
       (lcPriority (acConfig call) \<or> callers_turn (lcKey (acConfig call))
         (if acWaiterToken call = [] then None else Some (acWaiterToken call)) (rd_now r) r))"
    using acquire_turn_store(2) [of uuid draws call r, OF prod.collapse [symmetric]]
    by (simp add: grants_now_def call_token_def)
  show "fst (acquire_turn uuid draws call r) = AcquireGranted \<or>
      (\<exists>d call'. fst (acquire_turn uuid draws call r) = AcquireSleeps d call' \<and> 100 \<le> d \<and> d \<le> 5000)"
    unfolding acquire_turn_eq by (simp add: rate_limit_constants)
qed

section \<open>No minute sees more grants than the limit\<close>

text \<open>The requests granted on a key in the minute that starts after an instant.\<close>

definition granted_in :: "string \<Rightarrow> instant \<Rightarrow> (string \<times> string \<times> instant) list \<Rightarrow> int" where
  "granted_in K s grants = int (length (filter (\<lambda>(k, m, t). k = K \<and> s < t \<and> t \<le> s + 60000) grants))"

lemma granted_in_append [simp]: "granted_in K s (xs @ ys) = granted_in K s xs + granted_in K s ys"
  by (simp add: granted_in_def)

text \<open>Every recent grant is in the stored window under its member, and the window outlives it.\<close>

definition window_holds :: "string \<Rightarrow> redis \<Rightarrow> (string \<times> string \<times> instant) list \<Rightarrow> bool" where
  "window_holds K r grants \<longleftrightarrow>
    (\<forall>m t. (K, m, t) \<in> set grants \<longrightarrow> t \<le> rd_now r \<and>
      (rd_now r - 60000 < t \<longrightarrow>
        (\<exists>z e. rd_zsets r K = Some (z, e) \<and> map_of z m = Some t \<and>
          (\<forall>d. e = Some d \<longrightarrow> t + 60000 \<le> d))))"

lemma window_holds_zset:
  assumes "window_holds K r grants" "(K, m, t) \<in> set grants" "rd_now r - 60000 < t"
  shows "map_of (redis_zset K r) m = Some t"
proof -
  obtain z e where "rd_zsets r K = Some (z, e)" "map_of z m = Some t" "\<forall>d. e = Some d \<longrightarrow> t + 60000 \<le> d"
    using assms unfolding window_holds_def by blast
  moreover from this have "live_at (rd_now r) e" using assms(3) by (cases e) auto
  ultimately show ?thesis by (simp add: redis_zset_def)
qed

lemma window_holds_cong:
  "rd_zsets r' K = rd_zsets r K \<Longrightarrow> rd_now r' = rd_now r \<Longrightarrow> window_holds K r' grants = window_holds K r grants"
  by (simp only: window_holds_def)

lemma window_holds_later:
  assumes "window_holds K r grants" "rd_zsets r' K = rd_zsets r K" "rd_now r \<le> rd_now r'"
  shows "window_holds K r' grants"
  unfolding window_holds_def
proof (intro allI impI conjI)
  fix m t assume g: "(K, m, t) \<in> set grants"
  then show "t \<le> rd_now r'" using assms(1,3) unfolding window_holds_def by fastforce
  assume "rd_now r' - 60000 < t"
  then have "rd_now r - 60000 < t" using assms(3) by linarith
  with g show "\<exists>z e. rd_zsets r' K = Some (z, e) \<and> map_of z m = Some t \<and> (\<forall>d. e = Some d \<longrightarrow> t + 60000 \<le> d)"
    using assms(1) unfolding window_holds_def assms(2) by blast
qed


lemma map_of_filter_value: "map_of z m = Some t \<Longrightarrow> P t \<Longrightarrow> map_of (filter (\<lambda>(x, s). P s) z) m = Some t"
  by (induction z) (auto split: if_splits)

lemma window_holds_removal:
  assumes "window_holds K r grants"
  shows "window_holds K (redis_zremrange_upto K (rd_now r - 60000) r) grants"
  unfolding window_holds_def zset_now_kept
proof (intro allI impI conjI)
  fix m t assume g: "(K, m, t) \<in> set grants"
  then show "t \<le> rd_now r" using assms unfolding window_holds_def by blast
  assume recent: "rd_now r - 60000 < t"
  have "map_of (filter (\<lambda>(x, s). s > rd_now r - 60000) (redis_zset K r)) m = Some t"
    by (rule map_of_filter_value [where P = "\<lambda>s. rd_now r - 60000 < s", OF window_holds_zset [OF assms g recent] recent])
  moreover have "\<forall>d. redis_zset_expiry K r = Some d \<longrightarrow> t + 60000 \<le> d"
    using assms g recent unfolding window_holds_def redis_zset_expiry_def by (fastforce split: option.splits if_splits)
  ultimately show "\<exists>z e. rd_zsets (redis_zremrange_upto K (rd_now r - 60000) r) K = Some (z, e) \<and>
      map_of z m = Some t \<and> (\<forall>d. e = Some d \<longrightarrow> t + 60000 \<le> d)"
    by (auto simp: redis_zremrange_upto_def)
qed

lemma redis_zset_fold_zadd:
  "redis_zset K (fold (redis_zadd K s) ms r) = fold (\<lambda>m. AList.update m s) ms (redis_zset K r)"
  by (induction ms arbitrary: r) auto

lemma map_of_fold_members:
  "map_of (fold (\<lambda>m. AList.update m s) ms z) x = (if x \<in> set ms then Some s else map_of z x)"
  by (induction ms arbitrary: z) (auto simp: update_conv')

lemma window_holds_grant:
  assumes holds: "window_holds K r grants"
    and fresh: "\<And>m t. (K, m, t) \<in> set grants \<Longrightarrow> m \<notin> set (window_members (rd_now r) n draws)"
  shows "window_holds K (record_grant K (rd_now r) n draws r)
    (grants @ map (\<lambda>m. (K, m, rd_now r)) (window_members (rd_now r) n draws))"
  unfolding window_holds_def record_grant_now
proof (intro allI impI conjI)
  let ?ms = "window_members (rd_now r) n draws"
  define z where "z = fold (\<lambda>m. AList.update m (rd_now r)) ?ms (redis_zset K r)"
  have stored: "rd_zsets (record_grant K (rd_now r) n draws r) K =
      (if z = [] then None else Some (z, Some (rd_now r + 60000)))"
    by (simp add: record_grant_def redis_pexpire_zset_def redis_zset_fold_zadd z_def)
  fix m t assume g: "(K, m, t) \<in> set (grants @ map (\<lambda>m. (K, m, rd_now r)) ?ms)"
  then show t: "t \<le> rd_now r" using holds unfolding window_holds_def by auto
  assume recent: "rd_now r - 60000 < t"
  have "map_of z m = Some t"
  proof (cases "(K, m, t) \<in> set grants")
    case True
    then show ?thesis
      using fresh [OF True] window_holds_zset [OF holds True recent] by (simp add: z_def map_of_fold_members)
  next
    case False
    with g show ?thesis by (auto simp: z_def map_of_fold_members)
  qed
  then show "\<exists>z e. rd_zsets (record_grant K (rd_now r) n draws r) K = Some (z, e) \<and>
      map_of z m = Some t \<and> (\<forall>d. e = Some d \<longrightarrow> t + 60000 \<le> d)"
    using t unfolding stored by auto
qed

lemma recent_grants_counted:
  assumes holds: "window_holds K r grants" and "distinct (map (\<lambda>(k, m, t). (k, m)) grants)"
  shows "int (length (filter (\<lambda>(k, m, t). k = K \<and> rd_now r - 60000 < t) grants)) \<le> window_grants K r"
proof -
  let ?recent = "filter (\<lambda>(k, m, t). k = K \<and> rd_now r - 60000 < t) grants"
  let ?stored = "filter (\<lambda>(m, s). rd_now r - 60000 < s) (redis_zset K r)"
  have "distinct (map snd ?recent)"
    using assms(2) by (auto simp: distinct_map inj_on_def)
  moreover have "snd ` set ?recent \<subseteq> set ?stored"
    using window_holds_zset [OF holds] by (auto intro: map_of_SomeD)
  ultimately have "length ?recent \<le> card (set ?stored)"
    by (metis (no_types, lifting) List.finite_set card_mono distinct_card length_map list.set_map)
  also have "\<dots> \<le> length ?stored" by (rule card_length)
  finally show ?thesis by (simp add: window_grants_def)
qed

definition limiter_ok :: "(limiter_config \<Rightarrow> bool) \<Rightarrow> string \<Rightarrow> int \<Rightarrow> limiter_world \<Rightarrow> bool" where
  "limiter_ok configured K L w \<longleftrightarrow> window_holds K (lwRedis w) (lwGrants w) \<and>
    (\<forall>s. granted_in K s (lwGrants w) \<le> L) \<and>
    (\<forall>c call. lwCalls w c = Some call \<longrightarrow> configured (acConfig call))"

lemma grant_bound:
  assumes holds: "window_holds K r grants" and "\<forall>s. granted_in K s grants \<le> L"
    and "distinct (map (\<lambda>(k, m, t). (k, m)) grants)"
    and room: "window_grants K r + int n \<le> L"
  shows "granted_in K s (grants @ map (\<lambda>m. (K, m, rd_now r)) (window_members (rd_now r) n draws)) \<le> L"
proof (cases "s < rd_now r \<and> rd_now r \<le> s + 60000")
  case True
  have "length (filter (\<lambda>(k, m, t). k = K \<and> s < t \<and> t \<le> s + 60000) grants) \<le>
      length (filter (\<lambda>(k, m, t). k = K \<and> rd_now r - 60000 < t) grants)"
    using True by (induction grants) auto
  then have "granted_in K s grants \<le> window_grants K r"
    using recent_grants_counted [OF holds assms(3)] by (simp add: granted_in_def)
  then show ?thesis
    using True room by (simp add: granted_in_def [of K s "map _ _"] window_members_def filter_map comp_def)
next
  case False
  then show ?thesis using assms(2) by (auto simp: granted_in_def [of K s "map _ _"] filter_map comp_def)
qed


lemma limiter_step_ok:
  assumes step: "limiter_step configured w w'"
    and ok: "limiter_ok configured K L w" and plain: "plain_key K"
    and limit: "\<And>config. configured config \<Longrightarrow> lcKey config = K \<Longrightarrow> lcRequestsPerMinute config \<le> L"
    and dist: "distinct (map (\<lambda>(k, m, t). (k, m)) (lwGrants w'))"
  shows "limiter_ok configured K L w'"
proof -
  note inv = ok [unfolded limiter_ok_def]
  note holds = inv [THEN conjunct1] and bound = inv [THEN conjunct2, THEN conjunct1]
  have calls: "lwCalls w c = Some call \<Longrightarrow> configured (acConfig call)" for c call using inv by blast
  show ?thesis
    using step
  proof cases
    case (step_call config c n)
    then show ?thesis using inv by (auto simp: limiter_ok_def new_call_def)
  next
    case (step_granted c call uuid draws r)
    note store = acquire_turn_store [OF step_granted(3)]
    have granted: "grants_now call (lwRedis w)" using store(2) by simp
    let ?new = "grant_entries call (rd_now (lwRedis w)) draws"
    have w': "lwRedis w' = r" "lwGrants w' = lwGrants w @ ?new" "lwCalls w' = (lwCalls w)(c := None)"
      using step_granted(1) by simp_all
    show ?thesis
    proof (cases "call_key call = K")
      case True
      let ?r1 = "redis_zremrange_upto K (rd_now (lwRedis w) - 60000) (lwRedis w)"
      have new: "?new = map (\<lambda>m. (K, m, rd_now (lwRedis w)))
          (window_members (rd_now (lwRedis w)) (acCount call) draws)"
        by (simp add: grant_entries_def True)
      have fresh: "m \<notin> set (window_members (rd_now (lwRedis w)) (acCount call) draws)"
        if "(K, m, t) \<in> set (lwGrants w)" for m t
        using dist that unfolding w' new by (force simp: image_iff)
      have "window_holds K (record_grant K (rd_now (lwRedis w)) (acCount call) draws ?r1) (lwGrants w @ ?new)"
        using window_holds_grant [OF window_holds_removal [OF holds], of "acCount call" draws] fresh
        unfolding new by simp
      moreover have "rd_zsets r K = rd_zsets (record_grant K (rd_now (lwRedis w)) (acCount call) draws ?r1) K"
        using store(3) granted True by simp
      ultimately have "window_holds K r (lwGrants w @ ?new)"
        using store(1) window_holds_cong [of r K] by (metis record_grant_now zset_now_kept(5))
      moreover have "window_grants K (lwRedis w) + int (acCount call) \<le> L"
        using granted limit [OF calls [OF step_granted(2)]] True by (auto simp: grants_now_def)
      then have "granted_in K s (lwGrants w @ ?new) \<le> L" for s
        using grant_bound [OF holds bound] dist unfolding w' new by simp
      ultimately show ?thesis using calls by (auto simp: limiter_ok_def w')
    next
      case False
      have "rd_zsets r K = rd_zsets (lwRedis w) K"
        using store(4) [of K] False plain_key_differs [OF plain] by metis
      then have "window_holds K r (lwGrants w)" using holds store(1) window_holds_cong by metis
      then have "window_holds K r (lwGrants w @ ?new)"
        using False by (auto simp: window_holds_def grant_entries_def)
      moreover have "granted_in K s ?new = 0" for s
        using False by (auto simp: granted_in_def grant_entries_def filter_empty_conv)
      ultimately show ?thesis using bound calls by (auto simp: limiter_ok_def w')
    qed
  next
    case (step_sleeps c call uuid draws d call' r)
    note store = acquire_turn_store [OF step_sleeps(3)]
    have "window_holds K r (lwGrants w)"
    proof (cases "call_key call = K")
      case True
      then have "rd_zsets r K = rd_zsets (redis_zremrange_upto K (rd_now (lwRedis w) - 60000) (lwRedis w)) K"
        using store(2,3) by simp
      then show ?thesis
        using window_holds_removal [OF holds] store(1) window_holds_cong [of r K] by (metis zset_now_kept(5))
    next
      case False
      then have "rd_zsets r K = rd_zsets (lwRedis w) K"
        using store(4) [of K] plain_key_differs [OF plain] by metis
      then show ?thesis using holds store(1) window_holds_cong by metis
    qed
    moreover have "acConfig call' = acConfig call"
      using step_sleeps(3) unfolding acquire_turn_eq by (auto simp: Let_def split: if_splits)
    ultimately show ?thesis
      using bound calls step_sleeps(1,2) by (auto simp: limiter_ok_def)
  next
    case (step_leaves c call)
    have "rd_zsets (acquire_departure call (lwRedis w)) K = rd_zsets (lwRedis w) K"
      "rd_now (acquire_departure call (lwRedis w)) = rd_now (lwRedis w)"
      using plain_key_differs [OF plain]
      by (simp_all add: acquire_departure_def LEAVE_QUEUE_SCRIPT_def zsets_other)
    then have "window_holds K (acquire_departure call (lwRedis w)) (lwGrants w)"
      using holds window_holds_cong by metis
    then show ?thesis using step_leaves(1) bound calls by (auto simp: limiter_ok_def)
  next
    case (step_lost c call)
    then show ?thesis using inv by (auto simp: limiter_ok_def)
  next
    case (step_time d)
    then have "window_holds K (tick d (lwRedis w)) (lwGrants w)"
      using window_holds_later [OF holds] by (simp add: tick_def)
    then show ?thesis using step_time inv by (auto simp: limiter_ok_def)
  qed
qed

lemma limiter_step_grants: "limiter_step configured w w' \<Longrightarrow> \<exists>new. lwGrants w' = lwGrants w @ new"
  by (induction rule: limiter_step.induct) auto

lemma limiter_reach_ok:
  assumes "limiter_reach configured w" "plain_key K" "0 \<le> L"
    "\<And>config. configured config \<Longrightarrow> lcKey config = K \<Longrightarrow> lcRequestsPerMinute config \<le> L"
    "distinct (map (\<lambda>(k, m, t). (k, m)) (lwGrants w))"
  shows "limiter_ok configured K L w"
  using assms(1,5)
proof (induction rule: limiter_reach.induct)
  case reach_start
  then show ?case
    using assms(3) by (simp add: limiter_ok_def initial_limiter_world_def window_holds_def granted_in_def)
next
  case (reach_step w w')
  obtain new where "lwGrants w' = lwGrants w @ new" using limiter_step_grants [OF reach_step(2)] by blast
  with reach_step have "limiter_ok configured K L w" by simp
  then show ?case
    using limiter_step_ok [OF reach_step(2) _ assms(2,4) reach_step(4)] by blast
qed



section \<open>A concrete limiter\<close>

definition sample_limiter :: limiter_config where
  "sample_limiter = \<lparr>lcKey = ''ratelimit:google:project'', lcPriority = True, lcRequestsPerMinute = 2\<rparr>"

definition same_draws :: "nat \<Rightarrow> nat" where "same_draws i = 7"

definition sample_member :: string where "sample_member = window_member 0 1 7"

text \<open>A grant of one request at the epoch, with the same draw as the grants before it.\<close>

lemma sample_turn:
  assumes "rd_now r = 0" "redis_zset (lcKey sample_limiter) r \<in> {[], [(sample_member, 0)]}"
  shows "\<exists>r'. acquire_turn [] same_draws (new_call sample_limiter 1) r = (AcquireGranted, r') \<and>
    rd_now r' = 0 \<and> redis_zset (lcKey sample_limiter) r' = [(sample_member, 0)]"
proof -
  let ?call = "new_call sample_limiter 1" and ?K = "lcKey sample_limiter"
  let ?r1 = "redis_zremrange_upto ?K (rd_now r - 60000) r"
  have call: "call_key ?call = ?K" "acCount ?call = 1" "acConfig ?call = sample_limiter"
    by (simp_all add: new_call_def)
  obtain outcome r' where turn: "acquire_turn [] same_draws ?call r = (outcome, r')" by fastforce
  note store = acquire_turn_store [OF turn, unfolded call]
  have grants: "grants_now ?call r"
    using assms by (auto simp: grants_now_def new_call_def window_grants_def sample_limiter_def)
  have members: "window_members 0 (Suc 0) same_draws = [sample_member]"
    by (simp add: window_members_def same_draws_def sample_member_def)
  have "redis_zset ?K ?r1 = redis_zset ?K r" using assms by auto
  then have "redis_zset ?K (record_grant ?K 0 1 same_draws ?r1) = [(sample_member, 0)]"
    using assms by (auto simp: record_grant_def redis_zset_fold_zadd members)
  moreover have "redis_zset ?K r' = redis_zset ?K (record_grant ?K 0 1 same_draws ?r1)"
    using store(1,3) grants assms(1) by (intro zset_cong) auto
  ultimately show ?thesis using turn store(1,2) grants assms(1) by auto
qed

lemma sample_step:
  assumes "limiter_reach (\<lambda>c. c = sample_limiter) w" "lwCalls w 0 = None" "rd_now (lwRedis w) = 0"
    "redis_zset (lcKey sample_limiter) (lwRedis w) \<in> {[], [(sample_member, 0)]}"
  shows "\<exists>w'. limiter_reach (\<lambda>c. c = sample_limiter) w' \<and> lwCalls w' 0 = None \<and>
    rd_now (lwRedis w') = 0 \<and> redis_zset (lcKey sample_limiter) (lwRedis w') = [(sample_member, 0)] \<and>
    lwGrants w' = lwGrants w @ [(lcKey sample_limiter, sample_member, 0)]"
proof -
  let ?call = "new_call sample_limiter 1"
  define w1 where "w1 = w\<lparr>lwCalls := (lwCalls w)(0 \<mapsto> ?call)\<rparr>"
  have r1: "limiter_reach (\<lambda>c. c = sample_limiter) w1"
    using limiter_reach.reach_step [OF assms(1) limiter_step.step_call] assms(2) by (simp add: w1_def)
  obtain r' where turn: "acquire_turn [] same_draws ?call (lwRedis w1) = (AcquireGranted, r')"
    and r': "rd_now r' = 0" "redis_zset (lcKey sample_limiter) r' = [(sample_member, 0)]"
    using sample_turn [of "lwRedis w"] assms(3,4) by (auto simp: w1_def)
  have "lwCalls w1 0 = Some ?call" by (simp add: w1_def)
  note step = limiter_reach.reach_step [OF r1 limiter_step.step_granted [OF this turn]]
  show ?thesis
    by (rule exI, rule conjI [OF step])
      (simp add: r' w1_def assms(3) grant_entries_def new_call_def window_members_def same_draws_def
        sample_member_def)
qed

lemma sample_start:
  "limiter_reach (\<lambda>c. c = sample_limiter) initial_limiter_world"
  "lwCalls initial_limiter_world 0 = None" "rd_now (lwRedis initial_limiter_world) = 0"
  "redis_zset K (lwRedis initial_limiter_world) = []" "lwGrants initial_limiter_world = []"
  by (rule limiter_reach.reach_start)
    (simp_all add: initial_limiter_world_def empty_redis_def redis_zset_def)


text \<open>Without that hypothesis the limit does not hold: Redis seeds \<open>math.random\<close> alike for every
  script, so grants in the same millisecond record the same member and count once. A limiter of two
  requests per minute can grant three at the same instant.\<close>

theorem same_millisecond_grants_exceed_the_limit:
  "\<exists>w. limiter_reach (\<lambda>c. c = sample_limiter) w \<and>
    granted_in (lcKey sample_limiter) (- 1) (lwGrants w) = 3 \<and> lcRequestsPerMinute sample_limiter = 2"
proof -
  obtain w1 where w1: "limiter_reach (\<lambda>c. c = sample_limiter) w1" "lwCalls w1 0 = None"
    "rd_now (lwRedis w1) = 0" "redis_zset (lcKey sample_limiter) (lwRedis w1) = [(sample_member, 0)]"
    "lwGrants w1 = [(lcKey sample_limiter, sample_member, 0)]"
    using sample_step [OF sample_start(1-3)] sample_start(4,5) by auto
  obtain w2 where w2: "limiter_reach (\<lambda>c. c = sample_limiter) w2" "lwCalls w2 0 = None"
    "rd_now (lwRedis w2) = 0" "redis_zset (lcKey sample_limiter) (lwRedis w2) = [(sample_member, 0)]"
    "lwGrants w2 = lwGrants w1 @ [(lcKey sample_limiter, sample_member, 0)]"
    using sample_step [OF w1(1-3)] w1(4) by auto
  obtain w3 where "limiter_reach (\<lambda>c. c = sample_limiter) w3"
    "lwGrants w3 = lwGrants w2 @ [(lcKey sample_limiter, sample_member, 0)]"
    using sample_step [OF w2(1-3)] w2(4) by auto
  then show ?thesis
    by (intro exI [of _ w3]) (simp add: w1(5) w2(5) granted_in_def, simp add: sample_limiter_def)
qed

end
