(* ===== verification/Permits.thy ===== *)
theory Permits
  imports Prelude
begin

text \<open>
  The in-process gates that bound how many operations run at once: the concurrency gate of
  \<open>packages/calendar/src/core/utils/concurrency-gate.ts\<close> and the per-account gate of
  \<open>redis-rate-limiter.ts\<close>. Both hand a freed permit to the oldest waiter instead of returning it;
  the account gate also lets a waiter give up. The locale \<open>permit_gate\<close> states what the two promise,
  and its lemmas hold for every interleaving of entries, departures and give-ups.
\<close>

section \<open>The concurrency gate\<close>

record 'a concurrency_gate =
  cgWaiters :: "'a list"
  cgInFlight :: int

definition createConcurrencyGate :: "'a concurrency_gate" where
  "createConcurrencyGate = \<lparr>cgWaiters = [], cgInFlight = 0\<rparr>"

text \<open>The flag says whether the caller runs at once; otherwise it waits to be resumed.\<close>

definition gate_acquire :: "int \<Rightarrow> 'a \<Rightarrow> 'a concurrency_gate \<Rightarrow> bool \<times> 'a concurrency_gate" where
  "gate_acquire limit caller g =
    (if cgInFlight g < limit then (True, g\<lparr>cgInFlight := cgInFlight g + 1\<rparr>)
     else (False, g\<lparr>cgWaiters := cgWaiters g @ [caller]\<rparr>))"

text \<open>The waiter that is resumed, if any.\<close>

definition gate_release :: "'a concurrency_gate \<Rightarrow> 'a option \<times> 'a concurrency_gate" where
  "gate_release g =
    (case cgWaiters g of
       next # rest \<Rightarrow> (Some next, g\<lparr>cgWaiters := rest\<rparr>)
     | [] \<Rightarrow> (None, g\<lparr>cgInFlight := cgInFlight g - 1\<rparr>))"

definition hasFreePermit :: "int \<Rightarrow> 'a concurrency_gate \<Rightarrow> bool" where
  "hasFreePermit limit g \<longleftrightarrow> cgInFlight g < limit"

section \<open>The Outlook account gates\<close>

definition OUTLOOK_ACCOUNT_CONCURRENCY :: int where "OUTLOOK_ACCOUNT_CONCURRENCY = 3"

record 'a AccountGateWaiter =
  agwCaller :: 'a
  agwSettled :: bool

record 'a AccountGate =
  agActive :: int
  agWaiters :: "'a AccountGateWaiter list"

type_synonym 'a account_gates = "string \<Rightarrow> 'a AccountGate option"

definition resolveAccountGate :: "string \<Rightarrow> 'a account_gates \<Rightarrow> 'a AccountGate" where
  "resolveAccountGate accountId gates = or_else (gates accountId) \<lparr>agActive = 0, agWaiters = []\<rparr>"

datatype gate_entry = Entered | Waits | Rejected

definition enterAccountGate ::
    "string \<Rightarrow> bool \<Rightarrow> 'a \<Rightarrow> 'a account_gates \<Rightarrow> gate_entry \<times> 'a account_gates" where
  "enterAccountGate accountId aborted caller gates =
    (let gate = resolveAccountGate accountId gates in
     if agActive gate < OUTLOOK_ACCOUNT_CONCURRENCY
     then (Entered, gates(accountId \<mapsto> gate\<lparr>agActive := agActive gate + 1\<rparr>))
     else if aborted then (Rejected, gates(accountId \<mapsto> gate))
     else (Waits, gates(accountId \<mapsto> gate\<lparr>agWaiters :=
       agWaiters gate @ [\<lparr>agwCaller = caller, agwSettled = False\<rparr>]\<rparr>)))"

text \<open>The abort listener of a waiter.\<close>

definition abortAccountWaiter :: "string \<Rightarrow> 'a \<Rightarrow> 'a account_gates \<Rightarrow> 'a account_gates" where
  "abortAccountWaiter accountId caller gates =
    (case gates accountId of None \<Rightarrow> gates
     | Some gate \<Rightarrow> gates(accountId \<mapsto> gate\<lparr>agWaiters :=
         map (\<lambda>w. if agwCaller w = caller then w\<lparr>agwSettled := True\<rparr> else w) (agWaiters gate)\<rparr>))"

fun first_unsettled :: "'a AccountGateWaiter list \<Rightarrow> ('a \<times> 'a AccountGateWaiter list) option" where
  "first_unsettled [] = None"
| "first_unsettled (w # ws) = (if agwSettled w then first_unsettled ws else Some (agwCaller w, ws))"

definition leaveAccountGate :: "string \<Rightarrow> 'a account_gates \<Rightarrow> 'a option \<times> 'a account_gates" where
  "leaveAccountGate accountId gates =
    (let gate = resolveAccountGate accountId gates in
     case first_unsettled (agWaiters gate) of
       Some (caller, rest) \<Rightarrow> (Some caller, gates(accountId \<mapsto> gate\<lparr>agWaiters := rest\<rparr>))
     | None \<Rightarrow>
         (let gate = gate\<lparr>agActive := agActive gate - 1, agWaiters := []\<rparr>
          in (None, if agActive gate \<le> 0 then gates(accountId := None)
                    else gates(accountId \<mapsto> gate))))"

section \<open>Any interleaving of callers\<close>

text \<open>
  The callers that hold a permit, beside the gate. A caller enters under a name that is not in use;
  only a holder leaves; a caller that waits may give up.
\<close>

datatype 'a gate_event = Enter 'a | Leave 'a | GiveUp 'a

definition gate_event_step ::
    "('a \<Rightarrow> 'g \<Rightarrow> bool \<times> 'g) \<Rightarrow> ('g \<Rightarrow> 'a option \<times> 'g) \<Rightarrow> ('a \<Rightarrow> 'g \<Rightarrow> 'g) \<Rightarrow>
      'a gate_event \<Rightarrow> 'a list \<times> 'g \<Rightarrow> 'a list \<times> 'g" where
  "gate_event_step enter leave quit event state =
    (let (holders, g) = state in
     case event of
       Enter a \<Rightarrow> (case enter a g of (True, g) \<Rightarrow> (holders @ [a], g) | (False, g) \<Rightarrow> (holders, g))
     | Leave a \<Rightarrow> if a \<notin> set holders then state
         else (case leave g of
             (Some b, g) \<Rightarrow> (remove1 a holders @ [b], g) | (None, g) \<Rightarrow> (remove1 a holders, g))
     | GiveUp a \<Rightarrow> (holders, quit a g))"

definition run_gate ::
    "('a \<Rightarrow> 'g \<Rightarrow> bool \<times> 'g) \<Rightarrow> ('g \<Rightarrow> 'a option \<times> 'g) \<Rightarrow> ('a \<Rightarrow> 'g \<Rightarrow> 'g) \<Rightarrow> 'g \<Rightarrow>
      'a gate_event list \<Rightarrow> 'a list \<times> 'g" where
  "run_gate enter leave quit g events = fold (gate_event_step enter leave quit) events ([], g)"

text \<open>What a gate promises: \<open>active\<close> permits out of \<open>limit\<close>, and the callers that wait, in order.\<close>

locale permit_gate =
  fixes limit :: int
    and active :: "'g \<Rightarrow> int"
    and waiting :: "'g \<Rightarrow> 'a list"
    and enter :: "'a \<Rightarrow> 'g \<Rightarrow> bool \<times> 'g"
    and leave :: "'g \<Rightarrow> 'a option \<times> 'g"
    and quit :: "'a \<Rightarrow> 'g \<Rightarrow> 'g"
  assumes enter_room: "active g < limit \<Longrightarrow> enter a g = (admitted, g') \<Longrightarrow>
      admitted \<and> active g' = active g + 1 \<and> waiting g' = waiting g"
    and enter_full: "\<not> active g < limit \<Longrightarrow> enter a g = (admitted, g') \<Longrightarrow>
      \<not> admitted \<and> active g' = active g \<and> waiting g' = waiting g @ [a]"
    and leave_waiting: "waiting g = b # rest \<Longrightarrow> leave g = (next, g') \<Longrightarrow>
      next = Some b \<and> active g' = active g \<and> waiting g' = rest"
    and leave_idle: "waiting g = [] \<Longrightarrow> 0 < active g \<Longrightarrow> leave g = (next, g') \<Longrightarrow>
      next = None \<and> active g' = active g - 1 \<and> waiting g' = []"
    and quit_waiting: "active (quit a g) = active g \<and> set (waiting (quit a g)) \<subseteq> set (waiting g)"
begin

text \<open>The permits out are the holders, never more than the limit, and nobody waits beside a free permit.\<close>

definition gate_ok :: "'a list \<times> 'g \<Rightarrow> bool" where
  "gate_ok state \<longleftrightarrow> active (snd state) = int (length (fst state)) \<and> active (snd state) \<le> limit \<and>
    (waiting (snd state) \<noteq> [] \<longrightarrow> active (snd state) = limit)"

lemma gate_step_ok:
  assumes "gate_ok state"
  shows "gate_ok (gate_event_step enter leave quit event state)"
proof -
  obtain holders g where state: "state = (holders, g)" by fastforce
  have ok: "active g = int (length holders)" "active g \<le> limit" "waiting g \<noteq> [] \<longrightarrow> active g = limit"
    using assms by (auto simp: gate_ok_def state)
  show ?thesis
  proof (cases event)
    case (Enter a)
    obtain admitted g' where e: "enter a g = (admitted, g')" by fastforce
    show ?thesis
      using enter_room [OF _ e] enter_full [OF _ e] ok
      by (cases "active g < limit") (auto simp: gate_event_step_def state Enter e gate_ok_def)
  next
    case (Leave a)
    show ?thesis
    proof (cases "a \<in> set holders")
      case True
      then have pos: "0 < active g" using ok(1) by (cases holders) auto
      have len: "int (length (remove1 a holders)) = int (length holders) - 1"
        using length_pos_if_in_set [OF True] unfolding length_remove1 by (simp only: True if_True)
      obtain b g' where l: "leave g = (b, g')" by fastforce
      show ?thesis
      proof (cases "waiting g")
        case Nil
        with leave_idle [OF Nil pos l] ok pos True len show ?thesis
          by (simp add: gate_event_step_def state Leave l gate_ok_def)
      next
        case (Cons c rest)
        with leave_waiting [OF Cons l] ok pos True len show ?thesis
          unfolding gate_ok_def by (simp add: gate_event_step_def state Leave l)
      qed
    next
      case False
      then show ?thesis using assms by (simp add: gate_event_step_def state Leave)
    qed
  next
    case (GiveUp a)
    have "waiting (quit a g) \<noteq> [] \<Longrightarrow> waiting g \<noteq> []"
      using quit_waiting [of a g] by (cases "waiting (quit a g)") auto
    then show ?thesis
      using quit_waiting [of a g] ok by (auto simp: gate_event_step_def state GiveUp gate_ok_def)
  qed
qed

lemma gate_run_ok:
  assumes "active g = 0" "waiting g = []" "0 \<le> limit"
  shows "gate_ok (run_gate enter leave quit g events)"
proof -
  have "gate_ok state \<Longrightarrow> gate_ok (fold (gate_event_step enter leave quit) events state)" for state
  proof (induction events arbitrary: state)
    case (Cons event events)
    then show ?case using gate_step_ok [of state event] by simp
  qed simp
  moreover have "gate_ok ([], g)" using assms by (simp add: gate_ok_def)
  ultimately show ?thesis by (simp add: run_gate_def)
qed

end

section \<open>Both gates keep the promise\<close>

interpretation concurrency: permit_gate limit cgInFlight cgWaiters "gate_acquire limit" gate_release "\<lambda>_ g. g"
  for limit :: int
  by unfold_locales (auto simp: gate_acquire_def gate_release_def split: list.splits if_splits)

text \<open>The live waiters of an account.\<close>

definition account_waiting :: "string \<Rightarrow> 'a account_gates \<Rightarrow> 'a list" where
  "account_waiting accountId gates =
    map agwCaller (filter (\<lambda>w. \<not> agwSettled w) (agWaiters (resolveAccountGate accountId gates)))"

definition account_active :: "string \<Rightarrow> 'a account_gates \<Rightarrow> int" where
  "account_active accountId gates = agActive (resolveAccountGate accountId gates)"

definition enter_account :: "string \<Rightarrow> 'a \<Rightarrow> 'a account_gates \<Rightarrow> bool \<times> 'a account_gates" where
  "enter_account accountId caller gates =
    (case enterAccountGate accountId False caller gates of (entry, g) \<Rightarrow> (entry = Entered, g))"

lemma first_unsettled_eq:
  "first_unsettled ws = None \<longleftrightarrow> filter (\<lambda>w. \<not> agwSettled w) ws = []"
  "first_unsettled ws = Some (a, rest) \<Longrightarrow>
    map agwCaller (filter (\<lambda>w. \<not> agwSettled w) ws) = a # map agwCaller (filter (\<lambda>w. \<not> agwSettled w) rest)"
  by (induction ws) (auto split: if_splits)

lemma resolve_upd [simp]: "resolveAccountGate acc (gates(acc \<mapsto> g)) = g"
  "resolveAccountGate acc (gates(acc := None)) = \<lparr>agActive = 0, agWaiters = []\<rparr>"
  by (simp_all add: resolveAccountGate_def)

lemma leave_account_waiting:
  assumes "account_waiting acc g = b # rest" "leaveAccountGate acc g = (r, g')"
  shows "r = Some b \<and> account_active acc g' = account_active acc g \<and> account_waiting acc g' = rest"
proof -
  let ?ws = "agWaiters (resolveAccountGate acc g)"
  have "filter (\<lambda>w. \<not> agwSettled w) ?ws \<noteq> []" using assms(1) by (auto simp: account_waiting_def)
  then obtain c rest' where f: "first_unsettled ?ws = Some (c, rest')"
    using first_unsettled_eq(1) [of ?ws] by (metis option.exhaust surj_pair)
  then show ?thesis
    using assms first_unsettled_eq(2) [OF f]
    by (auto simp: leaveAccountGate_def account_waiting_def account_active_def)
qed

lemma leave_account_idle:
  assumes "account_waiting acc g = []" "0 < account_active acc g" "leaveAccountGate acc g = (r, g')"
  shows "r = None \<and> account_active acc g' = account_active acc g - 1 \<and> account_waiting acc g' = []"
proof -
  have "first_unsettled (agWaiters (resolveAccountGate acc g)) = None"
    using assms(1) by (simp add: account_waiting_def first_unsettled_eq(1))
  then show ?thesis
    using assms by (auto simp: leaveAccountGate_def account_waiting_def account_active_def Let_def split: if_splits)
qed

interpretation account: permit_gate OUTLOOK_ACCOUNT_CONCURRENCY "account_active acc" "account_waiting acc"
  "enter_account acc" "leaveAccountGate acc" "abortAccountWaiter acc" for acc :: string
proof
  fix g :: "'a account_gates" and g' :: "'a account_gates" and a :: 'a and admitted
  show "admitted \<and> account_active acc g' = account_active acc g + 1 \<and> account_waiting acc g' = account_waiting acc g"
    if "account_active acc g < OUTLOOK_ACCOUNT_CONCURRENCY" "enter_account acc a g = (admitted, g')"
    using that by (auto simp: enter_account_def enterAccountGate_def account_active_def account_waiting_def Let_def)
  show "\<not> admitted \<and> account_active acc g' = account_active acc g \<and> account_waiting acc g' = account_waiting acc g @ [a]"
    if "\<not> account_active acc g < OUTLOOK_ACCOUNT_CONCURRENCY" "enter_account acc a g = (admitted, g')"
    using that by (auto simp: enter_account_def enterAccountGate_def account_active_def account_waiting_def Let_def)
  show "account_active acc (abortAccountWaiter acc a g) = account_active acc g \<and>
      set (account_waiting acc (abortAccountWaiter acc a g)) \<subseteq> set (account_waiting acc g)"
    by (auto simp: abortAccountWaiter_def account_active_def account_waiting_def resolveAccountGate_def
        split: option.splits if_splits)
qed (rule leave_account_waiting leave_account_idle; assumption)+

text \<open>Under any sequence of requests entering, leaving and giving up, an Outlook account has as
  many permits out as requests hold, at most three, and none waits while a permit is free: a freed
  permit goes to the oldest request still waiting.\<close>

theorem account_gate_bounds_requests:
  "(let (holders, gates) = run_gate (enter_account acc) (leaveAccountGate acc) (abortAccountWaiter acc)
        (\<lambda>_. None) events
    in agActive (resolveAccountGate acc gates) = int (length holders) \<and> length holders \<le> 3 \<and>
      (account_waiting acc gates = [] \<or> length holders = 3))"
proof -
  have "account.gate_ok acc (run_gate (enter_account acc) (leaveAccountGate acc) (abortAccountWaiter acc)
      (\<lambda>_. None) events)"
    by (rule account.gate_run_ok)
      (simp_all add: account_active_def account_waiting_def resolveAccountGate_def OUTLOOK_ACCOUNT_CONCURRENCY_def)
  then show ?thesis
    unfolding account.gate_ok_def by (auto simp: account_active_def OUTLOOK_ACCOUNT_CONCURRENCY_def split: prod.splits)
qed

text \<open>The same promise for the concurrency gate, for any limit.\<close>

theorem concurrency_gate_bounds_operations:
  assumes "0 \<le> limit"
  shows "(let (holders, g) = run_gate (gate_acquire limit) gate_release (\<lambda>_ g. g) createConcurrencyGate events
    in cgInFlight g = int (length holders) \<and> int (length holders) \<le> limit \<and>
      (cgWaiters g = [] \<or> int (length holders) = limit))"
  using concurrency.gate_run_ok [of createConcurrencyGate limit events] assms
  by (auto simp: concurrency.gate_ok_def createConcurrencyGate_def split: prod.splits)

end
