(* ===== verification/Lease_Semaphore.thy ===== *)
theory Lease_Semaphore
  imports Redis_Store Utc_Date
begin

text \<open>
  The leased semaphore of \<open>packages/calendar/src/core/utils/leased-semaphore.ts\<close>, which bounds the
  concurrent requests of an account over all processes with nothing but \<open>SET NX PX\<close> and \<open>DEL\<close>.
  A caller's clock reading, its \<open>SET\<close>, the check before a release and the \<open>DEL\<close> are separate
  steps, so callers interleave between them, may crash anywhere, and replies may be lost. The
  parameter \<open>delay\<close> bounds how long a \<open>DEL\<close> is under way; a token is fresh, as
  \<open>crypto.randomUUID\<close> gives.
\<close>

definition RELEASE_SAFETY_MS :: int where "RELEASE_SAFETY_MS = 1000"

record SemaphoreLease =
  safeToDeleteUntil :: instant
  slotKey :: string
  leaseToken :: string

definition slot_key :: "string \<Rightarrow> nat \<Rightarrow> string" where
  "slot_key key slot = ''semaphore:'' @ key @ '':slot:'' @ show_nat slot"

text \<open>
  Where a caller is: trying a slot, with its clock read for that slot, parked between two rounds,
  holding a lease, or with the \<open>DEL\<close> of its release sent.
\<close>

datatype sem_phase =
    TryingSlot string nat
  | SlotRequested string nat instant
  | Parked
  | Holding SemaphoreLease
  | DelSent SemaphoreLease instant

text \<open>The \<open>SET\<close> of a slot reaches the server.\<close>

definition try_slot :: "string \<Rightarrow> int \<Rightarrow> string \<Rightarrow> nat \<Rightarrow> instant \<Rightarrow> redis \<Rightarrow> sem_phase \<times> redis" where
  "try_slot key ttlMs token slot requestedAt r =
    (case redis_set_nx_px (slot_key key slot) token ttlMs r of
       (True, r) \<Rightarrow> (Holding \<lparr>safeToDeleteUntil = requestedAt + ttlMs - RELEASE_SAFETY_MS,
         slotKey = slot_key key slot, leaseToken = token\<rparr>, r)
     | (False, r) \<Rightarrow> (TryingSlot token (slot + 1), r))"

text \<open>The check of \<open>release\<close>: past the safe window nothing is sent.\<close>

definition start_release :: "SemaphoreLease \<Rightarrow> instant \<Rightarrow> sem_phase option" where
  "start_release lease now = (if now \<ge> safeToDeleteUntil lease then None else Some (DelSent lease now))"

record sem_world =
  smRedis :: redis
  smPhase :: "nat \<Rightarrow> sem_phase option"
  smUsed :: "string set"

inductive sem_step :: "string \<Rightarrow> nat \<Rightarrow> int \<Rightarrow> int \<Rightarrow> sem_world \<Rightarrow> sem_world \<Rightarrow> bool"
  for key :: string and capacity :: nat and ttlMs :: int and delay :: int where
  sem_round: "smPhase w c \<in> {None, Some Parked} \<Longrightarrow> token \<notin> smUsed w \<Longrightarrow>
    sem_step key capacity ttlMs delay w
      (w\<lparr>smPhase := (smPhase w)(c \<mapsto> TryingSlot token 0), smUsed := insert token (smUsed w)\<rparr>)"
| sem_request: "smPhase w c = Some (TryingSlot token slot) \<Longrightarrow> slot < capacity \<Longrightarrow>
    sem_step key capacity ttlMs delay w
      (w\<lparr>smPhase := (smPhase w)(c \<mapsto> SlotRequested token slot (rd_now (smRedis w)))\<rparr>)"
| sem_set: "smPhase w c = Some (SlotRequested token slot at) \<Longrightarrow>
    try_slot key ttlMs token slot at (smRedis w) = (phase, r) \<Longrightarrow>
    sem_step key capacity ttlMs delay w (w\<lparr>smRedis := r, smPhase := (smPhase w)(c \<mapsto> phase)\<rparr>)"
| sem_set_lost: "smPhase w c = Some (SlotRequested token slot at) \<Longrightarrow>
    try_slot key ttlMs token slot at (smRedis w) = (phase, r) \<Longrightarrow>
    sem_step key capacity ttlMs delay w (w\<lparr>smRedis := r, smPhase := (smPhase w)(c := None)\<rparr>)"
| sem_park: "smPhase w c = Some (TryingSlot token slot) \<Longrightarrow> capacity \<le> slot \<Longrightarrow>
    sem_step key capacity ttlMs delay w (w\<lparr>smPhase := (smPhase w)(c \<mapsto> Parked)\<rparr>)"
| sem_release: "smPhase w c = Some (Holding lease) \<Longrightarrow>
    sem_step key capacity ttlMs delay w
      (w\<lparr>smPhase := (smPhase w)(c := start_release lease (rd_now (smRedis w)))\<rparr>)"
| sem_del: "smPhase w c = Some (DelSent lease at) \<Longrightarrow> rd_now (smRedis w) < at + delay \<Longrightarrow>
    sem_step key capacity ttlMs delay w
      (w\<lparr>smRedis := redis_del_string (slotKey lease) (smRedis w), smPhase := (smPhase w)(c := None)\<rparr>)"
| sem_gone: "sem_step key capacity ttlMs delay w (w\<lparr>smPhase := (smPhase w)(c := None)\<rparr>)"
| sem_time: "0 \<le> d \<Longrightarrow>
    sem_step key capacity ttlMs delay w (w\<lparr>smRedis := (smRedis w)\<lparr>rd_now := rd_now (smRedis w) + d\<rparr>\<rparr>)"

definition initial_sem_world :: sem_world where
  "initial_sem_world = \<lparr>smRedis = empty_redis, smPhase = \<lambda>_. None, smUsed = {}\<rparr>"

inductive sem_reach :: "string \<Rightarrow> nat \<Rightarrow> int \<Rightarrow> int \<Rightarrow> sem_world \<Rightarrow> bool"
  for key :: string and capacity :: nat and ttlMs :: int and delay :: int where
  sem_start: "sem_reach key capacity ttlMs delay initial_sem_world"
| sem_more: "sem_reach key capacity ttlMs delay w \<Longrightarrow> sem_step key capacity ttlMs delay w w' \<Longrightarrow>
    sem_reach key capacity ttlMs delay w'"

section \<open>The Outlook account semaphore\<close>

definition OUTLOOK_LEASE_TTL_MS :: int where "OUTLOOK_LEASE_TTL_MS = 90000 + 30000"

definition outlook_semaphore_key :: "string \<Rightarrow> string" where
  "outlook_semaphore_key accountId = ''outlook:account:'' @ accountId"

section \<open>At most \<open>capacity\<close> leases\<close>

fun phase_token :: "sem_phase \<Rightarrow> string option" where
  "phase_token (TryingSlot token slot) = Some token"
| "phase_token (SlotRequested token slot at) = Some token"
| "phase_token Parked = None"
| "phase_token (Holding lease) = Some (leaseToken lease)"
| "phase_token (DelSent lease at) = Some (leaseToken lease)"

fun phase_lease :: "sem_phase \<Rightarrow> SemaphoreLease option" where
  "phase_lease (Holding lease) = Some lease"
| "phase_lease (DelSent lease at) = Some lease"
| "phase_lease _ = None"

text \<open>A lease is in force until the time-to-live counted from the caller's clock reading is over.\<close>

definition lease_in_force :: "SemaphoreLease \<Rightarrow> instant \<Rightarrow> bool" where
  "lease_in_force lease now \<longleftrightarrow> now < safeToDeleteUntil lease + RELEASE_SAFETY_MS"

definition caller_token :: "sem_world \<Rightarrow> nat \<Rightarrow> string option" where
  "caller_token w c = (case smPhase w c of None \<Rightarrow> None | Some p \<Rightarrow> phase_token p)"

definition caller_lease :: "sem_world \<Rightarrow> nat \<Rightarrow> SemaphoreLease option" where
  "caller_lease w c = (case smPhase w c of None \<Rightarrow> None | Some p \<Rightarrow> phase_lease p)"

definition lease_holders :: "sem_world \<Rightarrow> nat set" where
  "lease_holders w = {c. \<exists>lease. caller_lease w c = Some lease \<and> lease_in_force lease (rd_now (smRedis w))}"

definition lease_stored :: "redis \<Rightarrow> SemaphoreLease \<Rightarrow> bool" where
  "lease_stored r lease \<longleftrightarrow>
    (\<exists>e. rd_strings r (slotKey lease) = Some (leaseToken lease, Some e) \<and>
      safeToDeleteUntil lease + RELEASE_SAFETY_MS \<le> e)"

text \<open>Tokens tell callers apart.\<close>

definition tokens_ok :: "sem_world \<Rightarrow> bool" where
  "tokens_ok w \<longleftrightarrow>
    (\<forall>c token. caller_token w c = Some token \<longrightarrow> token \<in> smUsed w) \<and>
    (\<forall>c c' token. caller_token w c = Some token \<and> caller_token w c' = Some token \<longrightarrow> c = c')"

definition phases_ok :: "string \<Rightarrow> nat \<Rightarrow> sem_world \<Rightarrow> bool" where
  "phases_ok key capacity w \<longleftrightarrow>
    (\<forall>c lease. caller_lease w c = Some lease \<longrightarrow> slotKey lease \<in> slot_key key ` {..<capacity}) \<and>
    (\<forall>c token slot at. smPhase w c = Some (SlotRequested token slot at) \<longrightarrow>
      slot < capacity \<and> at \<le> rd_now (smRedis w)) \<and>
    (\<forall>c lease at. smPhase w c = Some (DelSent lease at) \<longrightarrow> at < safeToDeleteUntil lease)"

text \<open>A lease in force is what the server stores for its slot.\<close>

definition leases_ok :: "sem_world \<Rightarrow> bool" where
  "leases_ok w \<longleftrightarrow>
    (\<forall>c lease. caller_lease w c = Some lease \<and> lease_in_force lease (rd_now (smRedis w)) \<longrightarrow>
      lease_stored (smRedis w) lease)"

lemma caller_after:
  assumes "smPhase w' = (smPhase w)(c := p)"
  shows "caller_token w' x = (if x = c then (case p of None \<Rightarrow> None | Some q \<Rightarrow> phase_token q) else caller_token w x)"
    "caller_lease w' x = (if x = c then (case p of None \<Rightarrow> None | Some q \<Rightarrow> phase_lease q) else caller_lease w x)"
  by (simp_all add: caller_token_def caller_lease_def assms)

lemma lease_token: "caller_lease w c = Some lease \<Longrightarrow> caller_token w c = Some (leaseToken lease)"
proof -
  have "phase_lease p = Some lease \<Longrightarrow> phase_token p = Some (leaseToken lease)" for p by (cases p) auto
  then show "caller_lease w c = Some lease \<Longrightarrow> ?thesis"
    by (auto simp: caller_lease_def caller_token_def split: option.splits)
qed

lemma tokens_ok_same:
  assumes "tokens_ok w" "smPhase w' = (smPhase w)(c := p)" "smUsed w' = smUsed w"
    "\<And>q token. p = Some q \<Longrightarrow> phase_token q = Some token \<Longrightarrow> caller_token w c = Some token"
  shows "tokens_ok w'"
  using assms(1) assms(4)
  unfolding tokens_ok_def caller_after(1) [OF assms(2)] assms(3)
  by (auto split: option.splits if_splits)

lemma try_slot_cases:
  assumes "try_slot key ttlMs token slot at r = (phase, r')"
  obtains (granted) "redis_get (slot_key key slot) r = None" "phase = Holding \<lparr>safeToDeleteUntil =
      at + ttlMs - RELEASE_SAFETY_MS, slotKey = slot_key key slot, leaseToken = token\<rparr>"
      "r' = r\<lparr>rd_strings := (rd_strings r)(slot_key key slot \<mapsto> (token, Some (rd_now r + ttlMs)))\<rparr>"
  | (taken) "phase = TryingSlot token (slot + 1)" "r' = r"
  using assms by (auto simp: try_slot_def redis_set_nx_px_def split: if_splits)

lemma tokens_ok_step:
  assumes "sem_step key capacity ttlMs delay w w'" "tokens_ok w"
  shows "tokens_ok w'"
  using assms(1)
proof cases
  case (sem_round c token)
  have fresh: "caller_token w x \<noteq> Some token" for x using assms(2) sem_round(3) by (auto simp: tokens_ok_def)
  have after: "caller_token w' x = (if x = c then Some token else caller_token w x)" for x
    using caller_after(1) [of w' w c "Some (TryingSlot token 0)" x] sem_round(1) by simp
  show ?thesis
    using assms(2) fresh unfolding tokens_ok_def after by (auto simp: sem_round(1))
next
  case (sem_set c token slot at phase r)
  have "caller_token w c = Some token" using sem_set(2) by (simp add: caller_token_def)
  moreover have "phase_token phase = Some token" by (rule try_slot_cases [OF sem_set(3)]) auto
  ultimately show ?thesis
    by (intro tokens_ok_same [OF assms(2), of w' c "Some phase"]) (auto simp: sem_set(1))
next
  case (sem_request c token slot)
  then show ?thesis
    by (intro tokens_ok_same [OF assms(2), of w' c "Some (SlotRequested token slot (rd_now (smRedis w)))"])
      (auto simp: caller_token_def)
next
  case (sem_set_lost c token slot at phase r)
  then show ?thesis by (intro tokens_ok_same [OF assms(2), of w' c None]) auto
next
  case (sem_park c token slot)
  then show ?thesis by (intro tokens_ok_same [OF assms(2), of w' c "Some Parked"]) auto
next
  case (sem_release c lease)
  have "caller_token w c = Some (leaseToken lease)" using sem_release(2) by (simp add: caller_token_def)
  then show ?thesis
    by (intro tokens_ok_same [OF assms(2), of w' c "start_release lease (rd_now (smRedis w))"])
      (auto simp: sem_release(1) start_release_def split: if_splits)
next
  case (sem_del c lease at)
  then show ?thesis by (intro tokens_ok_same [OF assms(2), of w' c None]) auto
next
  case (sem_gone c)
  then show ?thesis by (intro tokens_ok_same [OF assms(2), of w' c None]) auto
next
  case (sem_time d)
  then show ?thesis using assms(2) by (simp add: tokens_ok_def caller_token_def)
qed

lemma phases_ok_same:
  assumes "phases_ok key capacity w" "smPhase w' = (smPhase w)(c := p)"
    "rd_now (smRedis w') = rd_now (smRedis w)"
    "\<And>q lease. p = Some q \<Longrightarrow> phase_lease q = Some lease \<Longrightarrow> slotKey lease \<in> slot_key key ` {..<capacity}"
    "\<And>token slot at. p = Some (SlotRequested token slot at) \<Longrightarrow> slot < capacity \<and> at \<le> rd_now (smRedis w)"
    "\<And>lease at. p = Some (DelSent lease at) \<Longrightarrow> at < safeToDeleteUntil lease"
  shows "phases_ok key capacity w'"
  using assms(1,4,5,6)
  unfolding phases_ok_def caller_after(2) [OF assms(2)] assms(2,3)
  by (auto split: option.splits if_splits)

lemma held_slot:
  assumes "phases_ok key capacity w" "smPhase w c = Some (Holding lease)"
  shows "slotKey lease \<in> slot_key key ` {..<capacity}"
  using assms by (auto simp: phases_ok_def caller_lease_def dest: spec [of _ c])

lemma phases_ok_step:
  assumes "sem_step key capacity ttlMs delay w w'" "phases_ok key capacity w"
  shows "phases_ok key capacity w'"
  using assms(1)
proof cases
  case (sem_round c token)
  then show ?thesis by (intro phases_ok_same [OF assms(2), of w' c "Some (TryingSlot token 0)"]) auto
next
  case (sem_request c token slot)
  then show ?thesis
    by (intro phases_ok_same [OF assms(2), of w' c "Some (SlotRequested token slot (rd_now (smRedis w)))"]) auto
next
  case (sem_set c token slot at phase r)
  have slot: "slot < capacity" using assms(2) sem_set(2) unfolding phases_ok_def by blast
  have "phase_lease phase = Some lease \<longrightarrow> slotKey lease \<in> slot_key key ` {..<capacity}"
    "phase \<noteq> SlotRequested t s i" "phase \<noteq> DelSent l i" "rd_now r = rd_now (smRedis w)" for lease t s i l
    by (rule try_slot_cases [OF sem_set(3)]; use slot in auto)+
  then show ?thesis
    by (intro phases_ok_same [OF assms(2), of w' c "Some phase"]) (auto simp: sem_set(1))
next
  case (sem_set_lost c token slot at phase r)
  have "rd_now r = rd_now (smRedis w)" by (rule try_slot_cases [OF sem_set_lost(3)]) auto
  then show ?thesis by (intro phases_ok_same [OF assms(2), of w' c None]) (auto simp: sem_set_lost(1))
next
  case (sem_park c token slot)
  then show ?thesis by (intro phases_ok_same [OF assms(2), of w' c "Some Parked"]) auto
next
  case (sem_release c lease)
  show ?thesis
    using held_slot [OF assms(2) sem_release(2)]
    by (intro phases_ok_same [OF assms(2), of w' c "start_release lease (rd_now (smRedis w))"])
      (auto simp: sem_release(1) start_release_def split: if_splits)
next
  case (sem_del c lease at)
  then show ?thesis by (intro phases_ok_same [OF assms(2), of w' c None]) auto
next
  case (sem_gone c)
  then show ?thesis by (intro phases_ok_same [OF assms(2), of w' c None]) auto
next
  case (sem_time d)
  then show ?thesis using assms(2) by (fastforce simp: phases_ok_def caller_lease_def)
qed


lemma lease_stored_get:
  assumes "lease_stored r lease" "lease_in_force lease (rd_now r)"
  shows "redis_get (slotKey lease) r = Some (leaseToken lease)"
  using assms by (auto simp: lease_stored_def lease_in_force_def redis_get_def)

text \<open>A step that leaves the server alone and gives no new lease.\<close>

lemma leases_ok_local:
  assumes "leases_ok w" "smPhase w' = (smPhase w)(c := p)" "smRedis w' = smRedis w"
    "\<And>q lease. p = Some q \<Longrightarrow> phase_lease q = Some lease \<Longrightarrow> caller_lease w c = Some lease"
  shows "leases_ok w'"
  using assms(1,4) unfolding leases_ok_def caller_after(2) [OF assms(2)] assms(3)
  by (auto split: option.splits if_splits)

text \<open>A \<open>SET\<close> that takes a slot finds no lease in force there.\<close>

lemma lease_stored_after_set:
  assumes "leases_ok w" "caller_lease w x = Some lease" "lease_in_force lease (rd_now (smRedis w))"
    "try_slot key ttlMs token slot at (smRedis w) = (phase, r)"
  shows "lease_stored r lease"
proof -
  have stored: "lease_stored (smRedis w) lease" using assms(1-3) by (auto simp: leases_ok_def)
  have "slotKey lease \<noteq> slot_key key slot" if "redis_get (slot_key key slot) (smRedis w) = None"
    using lease_stored_get [OF stored assms(3)] that by auto
  then show ?thesis
    by (rule_tac try_slot_cases [OF assms(4)]) (use stored in \<open>auto simp: lease_stored_def\<close>)
qed

lemma leases_ok_set:
  assumes ok: "leases_ok w" "phases_ok key capacity w"
    and req: "smPhase w c = Some (SlotRequested token slot at)"
    and set: "try_slot key ttlMs token slot at (smRedis w) = (phase, r)"
    and w': "smPhase w' = (smPhase w)(c := p)" "smRedis w' = r" and p: "p = Some phase \<or> p = None"
  shows "leases_ok w'"
proof -
  have now: "rd_now r = rd_now (smRedis w)" by (rule try_slot_cases [OF set]) auto
  have "at \<le> rd_now (smRedis w)" using ok(2) req unfolding phases_ok_def by blast
  then have new: "phase_lease phase = Some lease \<Longrightarrow> lease_stored r lease" for lease
    by (rule_tac try_slot_cases [OF set]) (auto simp: lease_stored_def RELEASE_SAFETY_MS_def)
  have old: "caller_lease w x = Some lease \<Longrightarrow> lease_in_force lease (rd_now r) \<Longrightarrow> lease_stored r lease" for x lease
    using lease_stored_after_set [OF ok(1) _ _ set] unfolding now by blast
  show ?thesis
    unfolding leases_ok_def caller_after(2) [OF w'(1)] w'(2) using new old p
    by (auto split: option.splits if_splits)
qed

lemma leases_ok_step:
  assumes "sem_step key capacity ttlMs delay w w'" "delay \<le> RELEASE_SAFETY_MS"
    and ok: "leases_ok w" "phases_ok key capacity w" "tokens_ok w"
  shows "leases_ok w'"
  using assms(1)
proof cases
  case (sem_round c token)
  then show ?thesis by (intro leases_ok_local [OF ok(1), of w' c "Some (TryingSlot token 0)"]) auto
next
  case (sem_request c token slot)
  then show ?thesis
    by (intro leases_ok_local [OF ok(1), of w' c "Some (SlotRequested token slot (rd_now (smRedis w)))"]) auto
next
  case (sem_set c token slot at phase r)
  show ?thesis by (rule leases_ok_set [OF ok(1,2) sem_set(2,3), of w' "Some phase"]) (auto simp: sem_set(1))
next
  case (sem_set_lost c token slot at phase r)
  show ?thesis by (rule leases_ok_set [OF ok(1,2) sem_set_lost(2,3), of w' None]) (auto simp: sem_set_lost(1))
next
  case (sem_park c token slot)
  then show ?thesis by (intro leases_ok_local [OF ok(1), of w' c "Some Parked"]) auto
next
  case (sem_release c lease)
  have "caller_lease w c = Some lease" using sem_release(2) by (simp add: caller_lease_def)
  then show ?thesis
    by (intro leases_ok_local [OF ok(1), of w' c "start_release lease (rd_now (smRedis w))"])
      (auto simp: sem_release(1) start_release_def split: if_splits)
next
  case (sem_del c lease at)
  let ?now = "rd_now (smRedis w)"
  have lease: "caller_lease w c = Some lease" using sem_del(2) by (simp add: caller_lease_def)
  have "at < safeToDeleteUntil lease" using ok(2) sem_del(2) unfolding phases_ok_def by blast
  then have force: "lease_in_force lease ?now" using sem_del(3) assms(2) by (simp add: lease_in_force_def)
  then have mine: "redis_get (slotKey lease) (smRedis w) = Some (leaseToken lease)"
    using lease_stored_get ok(1) lease by (auto simp: leases_ok_def)
  have other: "slotKey other \<noteq> slotKey lease"
    if "caller_lease w x = Some other" "lease_in_force other ?now" "x \<noteq> c" for x other
  proof
    assume eq: "slotKey other = slotKey lease"
    have "redis_get (slotKey other) (smRedis w) = Some (leaseToken other)"
      using lease_stored_get ok(1) that(1,2) by (auto simp: leases_ok_def)
    then have "leaseToken other = leaseToken lease" using mine eq by simp
    then have "x = c" using ok(3) lease_token [OF that(1)] lease_token [OF lease] unfolding tokens_ok_def by metis
    with that(3) show False ..
  qed
  have "lease_stored (redis_del_string (slotKey lease) (smRedis w)) other"
    if "caller_lease w x = Some other" "lease_in_force other ?now" "x \<noteq> c" for x other
    using other [OF that] that(1,2) ok(1) by (auto simp: leases_ok_def lease_stored_def)
  then show ?thesis
    using caller_after(2) [of w' w c None] by (auto simp: leases_ok_def sem_del(1) split: if_splits)
next
  case (sem_gone c)
  then show ?thesis by (intro leases_ok_local [OF ok(1), of w' c None]) auto
next
  case (sem_time d)
  then show ?thesis
    using ok(1) by (auto simp: leases_ok_def caller_lease_def lease_in_force_def lease_stored_def)
qed

lemma sem_reach_ok:
  assumes "sem_reach key capacity ttlMs delay w" "delay \<le> RELEASE_SAFETY_MS"
  shows "tokens_ok w \<and> phases_ok key capacity w \<and> leases_ok w"
  using assms(1)
proof (induction rule: sem_reach.induct)
  case sem_start
  then show ?case
    by (simp add: initial_sem_world_def tokens_ok_def phases_ok_def leases_ok_def caller_token_def
        caller_lease_def)
next
  case (sem_more w w')
  then show ?case
    using tokens_ok_step [OF sem_more(2)] phases_ok_step [OF sem_more(2)]
      leases_ok_step [OF sem_more(2) assms(2)] by blast
qed

text \<open>C35: With any number of callers racing for the slots, crashing, losing replies and releasing
  late, at most \<open>capacity\<close> of them hold a lease that is still in force, as long as a \<open>DEL\<close> is under
  way for less than the safety margin of a release.\<close>

theorem semaphore_bounds_leases:
  assumes "sem_reach key capacity ttlMs delay w" "delay \<le> RELEASE_SAFETY_MS"
  shows "finite (lease_holders w) \<and> card (lease_holders w) \<le> capacity"
proof -
  note ok = sem_reach_ok [OF assms]
  define slot where "slot c = slotKey (the (caller_lease w c))" for c
  have inj: "inj_on slot (lease_holders w)"
  proof (rule inj_onI)
    fix x y assume "x \<in> lease_holders w" "y \<in> lease_holders w" and eq: "slot x = slot y"
    then obtain a b where x: "caller_lease w x = Some a" "lease_in_force a (rd_now (smRedis w))"
      and y: "caller_lease w y = Some b" "lease_in_force b (rd_now (smRedis w))"
      by (auto simp: lease_holders_def)
    have "redis_get (slotKey a) (smRedis w) = Some (leaseToken a)"
      "redis_get (slotKey b) (smRedis w) = Some (leaseToken b)"
      using lease_stored_get ok x y by (auto simp: leases_ok_def)
    moreover have "slotKey a = slotKey b" using eq x y by (simp add: slot_def)
    ultimately have "leaseToken a = leaseToken b" by simp
    then show "x = y"
      using ok lease_token [OF x(1)] lease_token [OF y(1)] unfolding tokens_ok_def by metis
  qed
  have sub: "slot ` lease_holders w \<subseteq> slot_key key ` {..<capacity}"
    using ok by (auto simp: lease_holders_def slot_def phases_ok_def)
  have fin: "finite (lease_holders w)"
    using finite_subset [OF sub] inj finite_image_iff by blast
  have "card (lease_holders w) = card (slot ` lease_holders w)" by (simp add: card_image inj)
  also have "\<dots> \<le> card (slot_key key ` {..<capacity})" by (rule card_mono [OF _ sub]) simp
  also have "\<dots> \<le> capacity" using card_image_le [of "{..<capacity}" "slot_key key"] by simp
  finally show ?thesis using fin by simp
qed


section \<open>One caller takes a slot\<close>

definition held_sample :: sem_world where
  "held_sample = \<lparr>smRedis = empty_redis\<lparr>rd_strings := (\<lambda>_. None)(slot_key ''outlook'' 0 \<mapsto> (''t'', Some 120000))\<rparr>,
    smPhase = (\<lambda>_. None)(0 \<mapsto> Holding \<lparr>safeToDeleteUntil = 119000, slotKey = slot_key ''outlook'' 0,
      leaseToken = ''t''\<rparr>), smUsed = {''t''}\<rparr>"

lemma held_sample_reach: "sem_reach ''outlook'' 3 120000 1000 held_sample"
proof -
  let ?reach = "sem_reach ''outlook'' 3 120000 1000"
  define w1 where "w1 = initial_sem_world\<lparr>smPhase := (smPhase initial_sem_world)(0 \<mapsto> TryingSlot ''t'' 0),
    smUsed := insert ''t'' (smUsed initial_sem_world)\<rparr>"
  define w2 where "w2 = w1\<lparr>smPhase := (smPhase w1)(0 \<mapsto> SlotRequested ''t'' 0 (rd_now (smRedis w1)))\<rparr>"
  have "?reach w1"
    unfolding w1_def by (rule sem_more [OF sem_start sem_round]) (simp_all add: initial_sem_world_def)
  then have "?reach w2"
    unfolding w2_def by (rule sem_more [OF _ sem_request]) (simp_all add: w1_def)
  moreover have req: "smPhase w2 0 = Some (SlotRequested ''t'' 0 0)"
    by (simp add: w2_def w1_def initial_sem_world_def empty_redis_def)
  moreover have "try_slot ''outlook'' 120000 ''t'' 0 0 (smRedis w2) =
      (Holding \<lparr>safeToDeleteUntil = 119000, slotKey = slot_key ''outlook'' 0, leaseToken = ''t''\<rparr>,
       smRedis held_sample)"
    by (simp add: w2_def w1_def initial_sem_world_def empty_redis_def try_slot_def redis_set_nx_px_def
        redis_get_def RELEASE_SAFETY_MS_def held_sample_def)
  ultimately have "?reach (w2\<lparr>smRedis := smRedis held_sample, smPhase := (smPhase w2)(0 \<mapsto> Holding
      \<lparr>safeToDeleteUntil = 119000, slotKey = slot_key ''outlook'' 0, leaseToken = ''t''\<rparr>)\<rparr>)"
    by (rule sem_more [OF _ sem_set])
  moreover have "w2\<lparr>smRedis := smRedis held_sample, smPhase := (smPhase w2)(0 \<mapsto> Holding
      \<lparr>safeToDeleteUntil = 119000, slotKey = slot_key ''outlook'' 0, leaseToken = ''t''\<rparr>)\<rparr> = held_sample"
    by (simp add: w2_def w1_def initial_sem_world_def held_sample_def)
  ultimately show ?thesis by simp
qed

theorem semaphore_bounds_leases_witness:
  "sem_reach ''outlook'' 3 120000 1000 held_sample \<and> 0 \<in> lease_holders held_sample \<and>
    card (lease_holders held_sample) \<le> 3"
  using semaphore_bounds_leases [OF held_sample_reach] held_sample_reach
  by (simp add: RELEASE_SAFETY_MS_def lease_holders_def held_sample_def caller_lease_def
      lease_in_force_def empty_redis_def)

end
