(* ===== verification/Rediscovery.thy ===== *)
theory Rediscovery
  imports Prelude
begin

text \<open>
  Calendar rediscovery: \<open>packages/calendar/src/core/source/calendar-rediscovery.ts\<close> compares the
  calendars a provider lists with the stored ones, \<open>apply-calendar-rediscovery.ts\<close> carries the plan
  out in one transaction, \<open>calendar-capabilities.ts\<close> and \<open>calendar-write-access.ts\<close> decide write
  access, \<open>rediscovery-selection.ts\<close> picks the accounts that are due. The URL parser is a parameter;
  the tables are lists of rows with the columns this code reads or decides (the sync flags that
  \<open>applySourceSyncDefaults\<close> adds to a new row are left out). The advisory lock of the
  transaction serialises the rediscoveries of a user, so the transaction is one function.
\<close>

section \<open>Calendar identity and capabilities\<close>

record url_lib =
  url_pathname :: "string \<Rightarrow> string option"
  url_hostname :: "string \<Rightarrow> string option"
  url_decode :: "string \<Rightarrow> string option"

datatype rediscovery_error = UnparseableCalendarUrl string | InvalidUrl string

definition strip_trailing_slashes :: "string \<Rightarrow> string" where
  "strip_trailing_slashes s = rev (dropWhile (\<lambda>c. c = CHR ''/'') (rev s))"

definition normalizeCalDAVCalendarKey :: "url_lib \<Rightarrow> string \<Rightarrow> string option" where
  "normalizeCalDAVCalendarKey url calendarUrl =
    (case url_pathname url calendarUrl of None \<Rightarrow> None
     | Some path \<Rightarrow> map_option strip_trailing_slashes (url_decode url path))"

definition normalizeCalDAVServerHost :: "url_lib \<Rightarrow> string \<Rightarrow> string option" where
  "normalizeCalDAVServerHost url serverUrl = map_option (map ascii_lower) (url_hostname url serverUrl)"

definition resolveCalDAVServerHost :: "url_lib \<Rightarrow> string option \<Rightarrow> rediscovery_error + string option" where
  "resolveCalDAVServerHost url serverUrl =
    (case serverUrl of None \<Rightarrow> Inr None
     | Some s \<Rightarrow> (case normalizeCalDAVServerHost url s of None \<Rightarrow> Inl (InvalidUrl s) | Some h \<Rightarrow> Inr (Some h)))"

fun find_by_key :: "url_lib \<Rightarrow> string \<Rightarrow> ('a \<Rightarrow> string) \<Rightarrow> 'a list \<Rightarrow> rediscovery_error + 'a option" where
  "find_by_key url storedKey f [] = Inr None"
| "find_by_key url storedKey f (c # cs) =
    (case normalizeCalDAVCalendarKey url (f c) of None \<Rightarrow> Inl (InvalidUrl (f c))
     | Some k \<Rightarrow> if k = storedKey then Inr (Some c) else find_by_key url storedKey f cs)"

definition findCalendarByStoredUrl ::
    "url_lib \<Rightarrow> ('a \<Rightarrow> string) \<Rightarrow> 'a list \<Rightarrow> string \<Rightarrow> rediscovery_error + 'a option" where
  "findCalendarByStoredUrl url f calendars storedUrl =
    (case normalizeCalDAVCalendarKey url storedUrl of None \<Rightarrow> Inl (InvalidUrl storedUrl)
     | Some storedKey \<Rightarrow> find_by_key url storedKey f calendars)"

definition isGoogleAccessRoleWritable :: "string \<Rightarrow> bool" where
  "isGoogleAccessRoleWritable accessRole \<longleftrightarrow> accessRole \<in> {''owner'', ''writer''}"

definition isOutlookCalendarWritable :: "bool option \<Rightarrow> bool" where
  "isOutlookCalendarWritable canEdit \<longleftrightarrow> canEdit = Some True"

definition isCalDAVPrivilegeSetWritable :: "string list option \<Rightarrow> bool" where
  "isCalDAVPrivilegeSetWritable privileges =
    (case privileges of None \<Rightarrow> True
     | Some ps \<Rightarrow> list_ex (\<lambda>p. p \<in> {''all'', ''write'', ''bind''}) ps)"

definition resolveCalendarCapabilities :: "bool \<Rightarrow> string list" where
  "resolveCalendarCapabilities writable = (if writable then [''pull'', ''push''] else [''pull''])"

section \<open>The plan\<close>

datatype RediscoveryCalendarType = CalDAVType | OAuthType

record DiscoveredCalendar =
  dcIdentityKey :: string
  dcName :: string
  dcWritable :: bool
  dcExternalCalendarId :: "string option"
  dcCalendarUrl :: "string option"

record ExistingCalendar =
  ecId :: string
  ecIdentityKey :: string
  ecCalendarUrl :: "string option"
  ecUnavailableSince :: "instant option"
  ecCreatedAt :: instant
  ecWritable :: bool

record CalendarWriteAccessChange =
  waId :: string
  waWritable :: bool

record CalendarRetarget =
  rtId :: string
  rtCalendarUrl :: string

record CalendarRediscoveryPlan =
  toInsert :: "DiscoveredCalendar list"
  toRevive :: "string list"
  toMarkUnavailable :: "string list"
  toRetargetUrl :: "CalendarRetarget list"
  toSetWritable :: "CalendarWriteAccessChange list"
  unchangedCount :: nat
  duplicateCount :: nat
  crossAccountSkippedCount :: nat
  removedSkippedCount :: nat
  suppressed :: bool

record CalendarRediscoveryInput =
  riDiscovered :: "DiscoveredCalendar list"
  riExisting :: "ExistingCalendar list"
  riBlockedKeys :: "string set"
  riRemovedKeys :: "string set"
  riEnumerationStartedAt :: "instant option"

definition EMPTY_PLAN :: CalendarRediscoveryPlan where
  "EMPTY_PLAN = \<lparr>toInsert = [], toRevive = [], toMarkUnavailable = [], toRetargetUrl = [],
    toSetWritable = [], unchangedCount = 0, duplicateCount = 0, crossAccountSkippedCount = 0,
    removedSkippedCount = 0, suppressed = False\<rparr>"

definition isOlder :: "ExistingCalendar \<Rightarrow> ExistingCalendar \<Rightarrow> bool" where
  "isOlder candidate incumbent \<longleftrightarrow> ecCreatedAt candidate < ecCreatedAt incumbent"

definition index_calendar ::
    "ExistingCalendar \<Rightarrow> (string, ExistingCalendar) jsmap \<times> nat \<Rightarrow> (string, ExistingCalendar) jsmap \<times> nat" where
  "index_calendar calendar acc =
    (let (byKey, duplicates) = acc in
     case map_of byKey (ecIdentityKey calendar) of
       None \<Rightarrow> (AList.update (ecIdentityKey calendar) calendar byKey, duplicates)
     | Some incumbent \<Rightarrow>
         (if isOlder calendar incumbent then AList.update (ecIdentityKey calendar) calendar byKey else byKey,
          duplicates + 1))"

definition indexExistingByKey :: "ExistingCalendar list \<Rightarrow> (string, ExistingCalendar) jsmap \<times> nat" where
  "indexExistingByKey existing = fold index_calendar existing ([], 0)"

fun unique_by_key :: "string set \<Rightarrow> DiscoveredCalendar list \<Rightarrow> DiscoveredCalendar list" where
  "unique_by_key seen [] = []"
| "unique_by_key seen (d # ds) =
    (if dcIdentityKey d \<in> seen then unique_by_key seen ds
     else d # unique_by_key (insert (dcIdentityKey d) seen) ds)"

definition dedupeDiscoveredByKey :: "DiscoveredCalendar list \<Rightarrow> DiscoveredCalendar list \<times> nat" where
  "dedupeDiscoveredByKey discovered =
    (let unique = unique_by_key {} discovered in (unique, length discovered - length unique))"

definition matchDiscoveredCalendar ::
    "DiscoveredCalendar \<Rightarrow> (string, ExistingCalendar) jsmap \<Rightarrow> (DiscoveredCalendar \<times> ExistingCalendar) list" where
  "matchDiscoveredCalendar calendar byKey =
    (case map_of byKey (dcIdentityKey calendar) of None \<Rightarrow> [] | Some match \<Rightarrow> [(calendar, match)])"

definition predatesEnumeration :: "ExistingCalendar \<Rightarrow> instant option \<Rightarrow> bool" where
  "predatesEnumeration calendar startedAt =
    (case startedAt of None \<Rightarrow> True | Some t \<Rightarrow> ecCreatedAt calendar \<le> t)"

definition buildUrlRetarget :: "DiscoveredCalendar \<Rightarrow> ExistingCalendar \<Rightarrow> CalendarRetarget list" where
  "buildUrlRetarget calendar match =
    (case dcCalendarUrl calendar of None \<Rightarrow> []
     | Some u \<Rightarrow> if ecCalendarUrl match = Some u then [] else [\<lparr>rtId = ecId match, rtCalendarUrl = u\<rparr>])"

definition buildWriteAccessChange ::
    "DiscoveredCalendar \<Rightarrow> ExistingCalendar \<Rightarrow> CalendarWriteAccessChange list" where
  "buildWriteAccessChange calendar match =
    (if dcWritable calendar = ecWritable match then []
     else [\<lparr>waId = ecId match, waWritable = dcWritable calendar\<rparr>])"

definition planCalendarRediscovery :: "CalendarRediscoveryInput \<Rightarrow> CalendarRediscoveryPlan" where
  "planCalendarRediscovery input =
    (let (byKey, existingDuplicates) = indexExistingByKey (riExisting input);
         (unique, discoveredDuplicates) = dedupeDiscoveredByKey (riDiscovered input);
         duplicates = existingDuplicates + discoveredDuplicates
     in if riDiscovered input = [] \<and> riExisting input \<noteq> []
        then EMPTY_PLAN\<lparr>duplicateCount := duplicates, suppressed := True\<rparr>
        else
          (let matched = concat (map (\<lambda>d. matchDiscoveredCalendar d byKey) unique);
               matchedIds = set (map (\<lambda>(d, e). ecId e) matched);
               unmatched = filter (\<lambda>d. map_of byKey (dcIdentityKey d) = None) unique;
               retained = filter (\<lambda>d. dcIdentityKey d \<notin> riRemovedKeys input) unmatched;
               inserts = filter (\<lambda>d. dcIdentityKey d \<notin> riBlockedKeys input) retained;
               survivors = map snd byKey
           in \<lparr>toInsert = inserts,
               toRevive = map (\<lambda>(d, e). ecId e) (filter (\<lambda>(d, e). ecUnavailableSince e \<noteq> None) matched),
               toMarkUnavailable = map ecId (filter (\<lambda>e. ecId e \<notin> matchedIds
                 \<and> ecUnavailableSince e = None \<and> predatesEnumeration e (riEnumerationStartedAt input)) survivors),
               toRetargetUrl = concat (map (\<lambda>(d, e). buildUrlRetarget d e) matched),
               toSetWritable = concat (map (\<lambda>(d, e). buildWriteAccessChange d e) matched),
               unchangedCount = length matched, duplicateCount = duplicates,
               crossAccountSkippedCount = length retained - length inserts,
               removedSkippedCount = length unmatched - length retained, suppressed = False\<rparr>))"

section \<open>What a provider lists\<close>

record GoogleCalendarListEntry =
  gcId :: string
  gcSummary :: "string option"
  gcAccessRole :: string

record OutlookCalendarEntry =
  ocId :: string
  ocName :: string
  ocCanEdit :: "bool option"

record CalDAVCalendarInfo =
  ciUrl :: string
  ciDisplayName :: string
  ciWritable :: bool

definition toDiscoveredGoogleCalendars :: "GoogleCalendarListEntry list \<Rightarrow> DiscoveredCalendar list" where
  "toDiscoveredGoogleCalendars entries =
    map (\<lambda>e. \<lparr>dcIdentityKey = gcId e, dcName = or_else (gcSummary e) (gcId e),
      dcWritable = isGoogleAccessRoleWritable (gcAccessRole e),
      dcExternalCalendarId = Some (gcId e), dcCalendarUrl = None\<rparr>) entries"

definition toDiscoveredOutlookCalendars :: "OutlookCalendarEntry list \<Rightarrow> DiscoveredCalendar list" where
  "toDiscoveredOutlookCalendars entries =
    map (\<lambda>e. \<lparr>dcIdentityKey = ocId e, dcName = ocName e,
      dcWritable = isOutlookCalendarWritable (ocCanEdit e),
      dcExternalCalendarId = Some (ocId e), dcCalendarUrl = None\<rparr>) entries"

fun toDiscoveredCalDAVCalendars ::
    "url_lib \<Rightarrow> CalDAVCalendarInfo list \<Rightarrow> rediscovery_error + DiscoveredCalendar list" where
  "toDiscoveredCalDAVCalendars url [] = Inr []"
| "toDiscoveredCalDAVCalendars url (e # es) =
    (case normalizeCalDAVCalendarKey url (ciUrl e) of
       None \<Rightarrow> Inl (InvalidUrl (ciUrl e))
     | Some k \<Rightarrow> (case toDiscoveredCalDAVCalendars url es of
         Inl err \<Rightarrow> Inl err
       | Inr ds \<Rightarrow> Inr (\<lparr>dcIdentityKey = k, dcName = ciDisplayName e, dcWritable = ciWritable e,
           dcExternalCalendarId = None, dcCalendarUrl = Some (ciUrl e)\<rparr> # ds)))"

section \<open>The stored rows\<close>

record calendar_row =
  crId :: string
  crAccountId :: string
  crUserId :: string
  crCalendarType :: RediscoveryCalendarType
  crCalendarUrl :: "string option"
  crExternalCalendarId :: "string option"
  crUnavailableSince :: "instant option"
  crCreatedAt :: instant
  crCapabilities :: "string list"
  crName :: string
  crOriginalName :: "string option"

record removal_row =
  rmId :: string
  rmAccountId :: string
  rmUserId :: string
  rmCalendarType :: RediscoveryCalendarType
  rmCalendarUrl :: "string option"
  rmExternalCalendarId :: "string option"

record account_row =
  acctId :: string
  acctAuthType :: string
  acctServerUrl :: "string option"
  calendarsRefreshedAt :: "instant option"
  calendarsRefreshAttemptedAt :: "instant option"

record calendar_db =
  dbCalendars :: "calendar_row list"
  dbRemovals :: "removal_row list"
  dbAccounts :: "account_row list"

definition resolveStoredIdentityKey ::
    "url_lib \<Rightarrow> RediscoveryCalendarType \<Rightarrow> string \<Rightarrow> string option \<Rightarrow> string option \<Rightarrow>
      rediscovery_error + string list" where
  "resolveStoredIdentityKey url calendarType rowId calendarUrl externalCalendarId =
    (if calendarType = OAuthType then
       (if str_truthy externalCalendarId then Inr [the externalCalendarId] else Inr [])
     else if \<not> str_truthy calendarUrl then Inr []
     else (case normalizeCalDAVCalendarKey url (the calendarUrl) of
         None \<Rightarrow> Inl (UnparseableCalendarUrl rowId) | Some k \<Rightarrow> Inr [k]))"

fun flat_map_result :: "('a \<Rightarrow> 'e + 'b list) \<Rightarrow> 'a list \<Rightarrow> 'e + 'b list" where
  "flat_map_result f [] = Inr []"
| "flat_map_result f (x # xs) =
    (case f x of Inl e \<Rightarrow> Inl e
     | Inr ys \<Rightarrow> (case flat_map_result f xs of Inl e \<Rightarrow> Inl e | Inr zs \<Rightarrow> Inr (ys @ zs)))"

definition calendar_row_key ::
    "url_lib \<Rightarrow> RediscoveryCalendarType \<Rightarrow> calendar_row \<Rightarrow> rediscovery_error + string list" where
  "calendar_row_key url calendarType row =
    resolveStoredIdentityKey url calendarType (crId row) (crCalendarUrl row) (crExternalCalendarId row)"

definition to_existing :: "calendar_row \<Rightarrow> string \<Rightarrow> ExistingCalendar" where
  "to_existing row identityKey = \<lparr>ecId = crId row, ecIdentityKey = identityKey,
    ecCalendarUrl = crCalendarUrl row, ecUnavailableSince = crUnavailableSince row,
    ecCreatedAt = crCreatedAt row, ecWritable = (''push'' \<in> set (crCapabilities row))\<rparr>"

definition toExistingCalendars ::
    "url_lib \<Rightarrow> calendar_row list \<Rightarrow> RediscoveryCalendarType \<Rightarrow> rediscovery_error + ExistingCalendar list" where
  "toExistingCalendars url rows calendarType =
    flat_map_result (\<lambda>row. case calendar_row_key url calendarType row of
      Inl e \<Rightarrow> Inl e | Inr ks \<Rightarrow> Inr (map (to_existing row) ks)) rows"

definition toRemovedIdentityKeys ::
    "url_lib \<Rightarrow> removal_row list \<Rightarrow> RediscoveryCalendarType \<Rightarrow> rediscovery_error + string list" where
  "toRemovedIdentityKeys url rows calendarType =
    flat_map_result (\<lambda>row. resolveStoredIdentityKey url calendarType (rmId row) (rmCalendarUrl row)
      (rmExternalCalendarId row)) rows"

definition resolveRediscoveryCalendarType :: "string \<Rightarrow> RediscoveryCalendarType" where
  "resolveRediscoveryCalendarType authType = (if authType = ''caldav'' then CalDAVType else OAuthType)"

section \<open>The transaction\<close>

record CalendarRediscoveryApplyInput =
  apAccountId :: string
  apUserId :: string
  apCalendarType :: RediscoveryCalendarType
  apCaldavServerHost :: "string option"
  apDiscovered :: "DiscoveredCalendar list"
  apNow :: instant

definition owned_by :: "CalendarRediscoveryApplyInput \<Rightarrow> calendar_row \<Rightarrow> bool" where
  "owned_by input row \<longleftrightarrow> crAccountId row = apAccountId input \<and> crUserId row = apUserId input
    \<and> crCalendarType row = apCalendarType input"

definition readExistingCalendars ::
    "url_lib \<Rightarrow> CalendarRediscoveryApplyInput \<Rightarrow> calendar_db \<Rightarrow> rediscovery_error + ExistingCalendar list" where
  "readExistingCalendars url input db =
    toExistingCalendars url (filter (owned_by input) (dbCalendars db)) (apCalendarType input)"

definition readRemovedKeys ::
    "url_lib \<Rightarrow> CalendarRediscoveryApplyInput \<Rightarrow> calendar_db \<Rightarrow> rediscovery_error + string list" where
  "readRemovedKeys url input db =
    toRemovedIdentityKeys url (filter (\<lambda>row. rmAccountId row = apAccountId input
      \<and> rmUserId row = apUserId input \<and> rmCalendarType row = apCalendarType input) (dbRemovals db))
      (apCalendarType input)"

text \<open>The join of a user's calendars with their CalDAV accounts and credentials.\<close>

definition toUserCalDAVCalendar ::
    "url_lib \<Rightarrow> string \<Rightarrow> calendar_row \<times> account_row \<Rightarrow> rediscovery_error + string list" where
  "toUserCalDAVCalendar url caldavServerHost joined =
    (let (row, account) = joined in
     if \<not> str_truthy (crCalendarUrl row) then Inr []
     else (case normalizeCalDAVServerHost url (the (acctServerUrl account)) of
         None \<Rightarrow> Inl (InvalidUrl (the (acctServerUrl account)))
       | Some host \<Rightarrow> if host \<noteq> caldavServerHost then Inr []
           else (case normalizeCalDAVCalendarKey url (the (crCalendarUrl row)) of
               None \<Rightarrow> Inl (InvalidUrl (the (crCalendarUrl row))) | Some k \<Rightarrow> Inr [k])))"

definition findUserCalDAVCalendarsOnServer ::
    "url_lib \<Rightarrow> string \<Rightarrow> string \<Rightarrow> string option \<Rightarrow> calendar_db \<Rightarrow> rediscovery_error + string list" where
  "findUserCalDAVCalendarsOnServer url userId caldavServerHost excludeAccountId db =
    flat_map_result (toUserCalDAVCalendar url caldavServerHost)
      (filter (\<lambda>(row, account). crAccountId row = acctId account \<and> acctServerUrl account \<noteq> None
          \<and> crUserId row = userId \<and> acctAuthType account = ''caldav''
          \<and> (\<not> str_truthy excludeAccountId \<or> crAccountId row \<noteq> the excludeAccountId))
        (List.product (dbCalendars db) (dbAccounts db)))"

definition readCrossAccountCalDAVKeys ::
    "url_lib \<Rightarrow> CalendarRediscoveryApplyInput \<Rightarrow> calendar_db \<Rightarrow> rediscovery_error + string list" where
  "readCrossAccountCalDAVKeys url input db =
    (if \<not> str_truthy (apCaldavServerHost input) then Inr []
     else findUserCalDAVCalendarsOnServer url (apUserId input) (the (apCaldavServerHost input))
       (Some (apAccountId input)) db)"

text \<open>The database gives a new row its id and its creation time.\<close>

definition buildInsertRow ::
    "CalendarRediscoveryApplyInput \<Rightarrow> string \<Rightarrow> instant \<Rightarrow> DiscoveredCalendar \<Rightarrow> calendar_row" where
  "buildInsertRow input newId txNow calendar =
    \<lparr>crId = newId, crAccountId = apAccountId input, crUserId = apUserId input,
     crCalendarType = apCalendarType input,
     crCalendarUrl = (if dcExternalCalendarId calendar = None then dcCalendarUrl calendar else None),
     crExternalCalendarId = dcExternalCalendarId calendar,
     crUnavailableSince = None, crCreatedAt = txNow,
     crCapabilities = resolveCalendarCapabilities (dcWritable calendar),
     crName = dcName calendar, crOriginalName = Some (dcName calendar)\<rparr>"

definition insertDiscoveredCalendars ::
    "CalendarRediscoveryApplyInput \<Rightarrow> (nat \<Rightarrow> string) \<Rightarrow> instant \<Rightarrow> DiscoveredCalendar list \<Rightarrow> calendar_row list" where
  "insertDiscoveredCalendars input ids txNow calendars =
    map (\<lambda>(i, d). buildInsertRow input (ids i) txNow d) (enumerate 0 calendars)"

definition update_calendars :: "(calendar_row \<Rightarrow> bool) \<Rightarrow> (calendar_row \<Rightarrow> calendar_row) \<Rightarrow>
    calendar_row list \<Rightarrow> calendar_row list" where
  "update_calendars p f rows = map (\<lambda>r. if p r then f r else r) rows"

definition setCalendarWriteAccess :: "string \<Rightarrow> bool \<Rightarrow> calendar_row list \<Rightarrow> calendar_row list" where
  "setCalendarWriteAccess calendarId writable =
    update_calendars (\<lambda>r. crId r = calendarId) (\<lambda>r. r\<lparr>crCapabilities := resolveCalendarCapabilities writable\<rparr>)"

definition apply_updates :: "CalendarRediscoveryPlan \<Rightarrow> instant \<Rightarrow> calendar_row list \<Rightarrow> calendar_row list" where
  "apply_updates plan now rows =
    (let rows = update_calendars (\<lambda>r. crId r \<in> set (toRevive plan)) (\<lambda>r. r\<lparr>crUnavailableSince := None\<rparr>) rows;
         rows = update_calendars (\<lambda>r. crId r \<in> set (toMarkUnavailable plan))
           (\<lambda>r. r\<lparr>crUnavailableSince := Some now\<rparr>) rows;
         rows = fold (\<lambda>change. setCalendarWriteAccess (waId change) (waWritable change)) (toSetWritable plan) rows
     in fold (\<lambda>retarget. update_calendars (\<lambda>r. crId r = rtId retarget)
          (\<lambda>r. r\<lparr>crCalendarUrl := Some (rtCalendarUrl retarget)\<rparr>)) (toRetargetUrl plan) rows)"

definition plan_for ::
    "url_lib \<Rightarrow> CalendarRediscoveryApplyInput \<Rightarrow> calendar_db \<Rightarrow> rediscovery_error + CalendarRediscoveryPlan" where
  "plan_for url input db =
    (case readExistingCalendars url input db of Inl e \<Rightarrow> Inl e
     | Inr existing \<Rightarrow> (case readCrossAccountCalDAVKeys url input db of Inl e \<Rightarrow> Inl e
     | Inr blocked \<Rightarrow> (case readRemovedKeys url input db of Inl e \<Rightarrow> Inl e
     | Inr removed \<Rightarrow> Inr (planCalendarRediscovery \<lparr>riDiscovered = apDiscovered input,
         riExisting = existing, riBlockedKeys = set blocked, riRemovedKeys = set removed,
         riEnumerationStartedAt = Some (apNow input)\<rparr>))))"

definition applyCalendarRediscoveryPlan ::
    "url_lib \<Rightarrow> (nat \<Rightarrow> string) \<Rightarrow> instant \<Rightarrow> CalendarRediscoveryApplyInput \<Rightarrow> calendar_db \<Rightarrow>
      (rediscovery_error + CalendarRediscoveryPlan \<times> (string \<times> string) list) \<times> calendar_db" where
  "applyCalendarRediscoveryPlan url ids txNow input db =
    (case plan_for url input db of Inl e \<Rightarrow> (Inl e, db)
     | Inr plan \<Rightarrow>
       if suppressed plan then (Inr (plan, []), db)
       else (let inserted = insertDiscoveredCalendars input ids txNow (toInsert plan)
         in (Inr (plan, map (\<lambda>r. (crId r, crName r)) inserted), db\<lparr>
         dbCalendars := apply_updates plan (apNow input) (dbCalendars db @ inserted),
         dbAccounts := map (\<lambda>a. if acctId a = apAccountId input
           then a\<lparr>calendarsRefreshedAt := Some (apNow input)\<rparr> else a) (dbAccounts db)\<rparr>)))"

definition markCalendarRediscoveryAttempt :: "string \<Rightarrow> instant \<Rightarrow> calendar_db \<Rightarrow> calendar_db" where
  "markCalendarRediscoveryAttempt accountId now db = db\<lparr>dbAccounts :=
    map (\<lambda>a. if acctId a = accountId then a\<lparr>calendarsRefreshAttemptedAt := Some now\<rparr> else a) (dbAccounts db)\<rparr>"

section \<open>The accounts that are due\<close>

record RediscoverySelectionOptions =
  roNow :: instant
  roStalenessMs :: int
  roBatchLimit :: nat

definition isDue :: "account_row \<Rightarrow> RediscoverySelectionOptions \<Rightarrow> bool" where
  "isDue candidate options =
    (case calendarsRefreshAttemptedAt candidate of None \<Rightarrow> True
     | Some t \<Rightarrow> roNow options - t \<ge> roStalenessMs options)"

definition toAttemptOrder :: "account_row \<Rightarrow> int" where
  "toAttemptOrder candidate = or_else (calendarsRefreshAttemptedAt candidate) (-1)"

definition selectAccountsDueForRediscovery ::
    "account_row list \<Rightarrow> RediscoverySelectionOptions \<Rightarrow> account_row list \<times> bool" where
  "selectAccountsDueForRediscovery candidates options =
    (let due = toSorted (compare_by toAttemptOrder) (filter (\<lambda>c. isDue c options) candidates)
     in (take (roBatchLimit options) due, length due > roBatchLimit options))"

definition excludeUnconfiguredCalDAVAccounts :: "account_row list \<Rightarrow> bool \<Rightarrow> account_row list \<times> nat" where
  "excludeUnconfiguredCalDAVAccounts candidates hasEncryptionKey =
    (if hasEncryptionKey then (candidates, 0)
     else let selectable = filter (\<lambda>c. acctAuthType c \<noteq> ''caldav'') candidates
          in (selectable, length candidates - length selectable))"

definition excludeAccountsWithoutImportedCalendars :: "('a \<Rightarrow> bool) \<Rightarrow> 'a list \<Rightarrow> 'a list \<times> nat" where
  "excludeAccountsWithoutImportedCalendars hasImportedCalendar candidates =
    (let selectable = filter hasImportedCalendar candidates
     in (selectable, length candidates - length selectable))"

end
