(* ===== verification/Rediscovery_Correct.thy ===== *)
theory Rediscovery_Correct
  imports Rediscovery
begin

text \<open>
  Rediscovery converges: once a plan is carried out, the same listing asks for nothing more. It is
  conservative: no row goes away, rows of other accounts stay as they are, what the user removed is
  not inserted again, and an empty listing of an account with calendars changes nothing.
\<close>

section \<open>The index of the stored calendars\<close>

definition index_ok :: "ExistingCalendar list \<Rightarrow> (string, ExistingCalendar) jsmap \<Rightarrow> bool" where
  "index_ok xs m \<longleftrightarrow> distinct (map fst m) \<and> (\<forall>(k, e) \<in> set m. e \<in> set xs \<and> ecIdentityKey e = k) \<and>
    (\<forall>e \<in> set xs. map_of m (ecIdentityKey e) \<noteq> None)"

lemma index_calendar_ok:
  assumes "index_ok xs m" "index_calendar e (m, n) = (m', n')"
  shows "index_ok (xs @ [e]) m'"
proof -
  have upd: "index_ok (xs @ [e]) (AList.update (ecIdentityKey e) e m)"
    using assms(1) by (fastforce simp: index_ok_def distinct_update update_conv' dest: set_alist_update)
  have keep: "index_ok (xs @ [e]) m" if "map_of m (ecIdentityKey e) \<noteq> None"
    using assms(1) that by (auto simp: index_ok_def)
  show ?thesis
    using assms(2) upd keep by (auto simp: index_calendar_def split: option.splits if_splits)
qed

lemma indexExistingByKey_ok: "index_ok xs (fst (indexExistingByKey xs))"
proof -
  have "index_ok ys (fst acc) \<Longrightarrow> index_ok (ys @ zs) (fst (fold index_calendar zs acc))" for ys zs acc
  proof (induction zs arbitrary: ys acc)
    case (Cons z zs)
    obtain m n m' n' where acc: "acc = (m, n)" and step: "index_calendar z (m, n) = (m', n')"
      by (metis surj_pair)
    have "index_ok (ys @ [z]) m'" using index_calendar_ok [OF _ step] Cons.prems acc by simp
    then show ?case using Cons.IH [of "ys @ [z]" "(m', n')"] acc step by simp
  qed simp
  moreover have "index_ok [] []" by (simp add: index_ok_def)
  ultimately show ?thesis by (metis append_Nil fst_conv indexExistingByKey_def)
qed

lemma index_lookup:
  assumes "map_of (fst (indexExistingByKey xs)) k = Some e"
  shows "e \<in> set xs \<and> ecIdentityKey e = k"
  using assms indexExistingByKey_ok [of xs] by (force simp: index_ok_def dest: map_of_SomeD)

lemma index_lookup_None:
  "map_of (fst (indexExistingByKey xs)) k = None \<longleftrightarrow> k \<notin> ecIdentityKey ` set xs"
proof
  assume "map_of (fst (indexExistingByKey xs)) k = None"
  then show "k \<notin> ecIdentityKey ` set xs" using indexExistingByKey_ok [of xs] by (auto simp: index_ok_def)
next
  assume "k \<notin> ecIdentityKey ` set xs"
  then show "map_of (fst (indexExistingByKey xs)) k = None"
    using index_lookup [of xs k] by (cases "map_of (fst (indexExistingByKey xs)) k") auto
qed

text \<open>Changing rows without touching their key and creation time changes the index in place.\<close>

lemma map_of_map_snd: "map_of (map (\<lambda>(k, e). (k, f e)) m) k = map_option f (map_of m k)"
  by (induction m) auto

lemma update_map_snd:
  "AList.update k (f e) (map (\<lambda>(k, e). (k, f e)) m) = map (\<lambda>(k, e). (k, f e)) (AList.update k e m)"
  by (induction m) auto

lemma index_map:
  assumes "\<And>e. e \<in> set xs \<Longrightarrow> ecIdentityKey (f e) = ecIdentityKey e \<and> ecCreatedAt (f e) = ecCreatedAt e"
  shows "fst (indexExistingByKey (map f xs)) = map (\<lambda>(k, e). (k, f e)) (fst (indexExistingByKey xs))"
proof -
  define g where "g = map (\<lambda>(k :: string, e). (k, f e))"
  have "fold index_calendar (map f zs) (g m, n) = (g (fst (fold index_calendar zs (m, n))),
      snd (fold index_calendar zs (m, n)))"
    if "set zs \<subseteq> set xs" "snd ` set m \<subseteq> set xs" for zs m n
    using that
  proof (induction zs arbitrary: m n)
    case (Cons z zs)
    note z = assms [of z]
    obtain m' n' where s: "index_calendar z (m, n) = (m', n')" by fastforce
    have sub: "snd ` set m' \<subseteq> set xs"
      using s Cons.prems by (fastforce simp: index_calendar_def dest: set_alist_update split: option.splits if_splits)
    have "index_calendar (f z) (g m, n) = (g m', n')"
    proof (cases "map_of m (ecIdentityKey z)")
      case None
      then show ?thesis
        using s z Cons.prems by (auto simp: index_calendar_def g_def map_of_map_snd update_map_snd)
    next
      case (Some i)
      then have "i \<in> set xs" using Cons.prems(2) by (force dest: map_of_SomeD)
      then have "isOlder (f z) (f i) = isOlder z i" using assms z Cons.prems(1) by (auto simp: isOlder_def)
      with Some show ?thesis
        using s z Cons.prems by (auto simp: index_calendar_def g_def map_of_map_snd update_map_snd)
    qed
    then show ?case using Cons.IH [of m' n'] Cons.prems s sub by simp
  qed simp
  from this [of xs "[]" 0] show ?thesis by (simp add: indexExistingByKey_def g_def)
qed

lemma update_new: "k \<notin> fst ` set m \<Longrightarrow> AList.update k v m = m @ [(k, v)]"
  by (induction m) auto

lemma index_append_new:
  assumes "ecIdentityKey ` set ys \<inter> ecIdentityKey ` set xs = {}" "distinct (map ecIdentityKey ys)"
  shows "fst (indexExistingByKey (xs @ ys)) = fst (indexExistingByKey xs) @ map (\<lambda>e. (ecIdentityKey e, e)) ys"
proof -
  have "fst (fold index_calendar ys (m, n)) = m @ map (\<lambda>e. (ecIdentityKey e, e)) ys"
    if "distinct (map ecIdentityKey ys)" "ecIdentityKey ` set ys \<inter> fst ` set m = {}" for ys m n
    using that
  proof (induction ys arbitrary: m n)
    case (Cons y ys)
    then have "map_of m (ecIdentityKey y) = None" by (auto simp: map_of_eq_None_iff)
    moreover have "AList.update (ecIdentityKey y) y m = m @ [(ecIdentityKey y, y)]"
      using Cons.prems by (intro update_new) auto
    moreover have "ecIdentityKey ` set ys \<inter> fst ` set (m @ [(ecIdentityKey y, y)]) = {}"
      using Cons.prems by auto
    ultimately show ?case using Cons.IH [of "m @ [(ecIdentityKey y, y)]" n] Cons.prems
      by (simp add: index_calendar_def)
  qed simp
  moreover obtain m n where mn: "fold index_calendar xs ([], 0) = (m, n)" by fastforce
  moreover have "fst ` set m \<subseteq> ecIdentityKey ` set xs"
    using indexExistingByKey_ok [of xs] mn by (force simp: index_ok_def indexExistingByKey_def)
  ultimately show ?thesis using assms by (simp add: indexExistingByKey_def) blast
qed

section \<open>The deduplicated listing\<close>

lemma unique_by_key_props:
  "set (unique_by_key seen ds) \<subseteq> set ds \<and> distinct (map dcIdentityKey (unique_by_key seen ds)) \<and>
    dcIdentityKey ` set (unique_by_key seen ds) = dcIdentityKey ` set ds - seen"
  by (induction seen ds rule: unique_by_key.induct) auto


lemma unique_eq:
  "d \<in> set (unique_by_key seen ds) \<Longrightarrow> d' \<in> set (unique_by_key seen ds) \<Longrightarrow>
    dcIdentityKey d = dcIdentityKey d' \<Longrightarrow> d = d'"
  using unique_by_key_props [of seen ds] by (auto simp: distinct_map inj_on_def)

section \<open>The plan, field by field\<close>

definition matched_pairs ::
    "DiscoveredCalendar list \<Rightarrow> ExistingCalendar list \<Rightarrow> (DiscoveredCalendar \<times> ExistingCalendar) list" where
  "matched_pairs ds xs =
    concat (map (\<lambda>d. matchDiscoveredCalendar d (fst (indexExistingByKey xs))) (unique_by_key {} ds))"

lemma in_matched_pairs:
  "(d, e) \<in> set (matched_pairs ds xs) \<longleftrightarrow>
    d \<in> set (unique_by_key {} ds) \<and> map_of (fst (indexExistingByKey xs)) (dcIdentityKey d) = Some e"
  by (auto simp: matched_pairs_def matchDiscoveredCalendar_def split: option.splits)

lemma plan_fields:
  assumes "planCalendarRediscovery input = plan" "\<not> suppressed plan"
  defines "ds \<equiv> riDiscovered input" and "xs \<equiv> riExisting input"
  shows "toInsert plan = filter (\<lambda>d. map_of (fst (indexExistingByKey xs)) (dcIdentityKey d) = None
      \<and> dcIdentityKey d \<notin> riRemovedKeys input \<and> dcIdentityKey d \<notin> riBlockedKeys input) (unique_by_key {} ds)"
    "toRevive plan = map (\<lambda>(d, e). ecId e) (filter (\<lambda>(d, e). ecUnavailableSince e \<noteq> None) (matched_pairs ds xs))"
    "toMarkUnavailable plan = map ecId (filter (\<lambda>e. ecId e \<notin> (\<lambda>(d, e). ecId e) ` set (matched_pairs ds xs)
      \<and> ecUnavailableSince e = None \<and> predatesEnumeration e (riEnumerationStartedAt input))
      (map snd (fst (indexExistingByKey xs))))"
    "toRetargetUrl plan = concat (map (\<lambda>(d, e). buildUrlRetarget d e) (matched_pairs ds xs))"
    "toSetWritable plan = concat (map (\<lambda>(d, e). buildWriteAccessChange d e) (matched_pairs ds xs))"
    "\<not> (ds = [] \<and> xs \<noteq> [])"
  using assms(1,2)
  by (auto simp: planCalendarRediscovery_def dedupeDiscoveredByKey_def Let_def matched_pairs_def
      ds_def xs_def conj_commute conj_left_commute split: prod.splits if_splits)

text \<open>When a plan asks for nothing.\<close>

definition nothing_to_do :: "CalendarRediscoveryPlan \<Rightarrow> bool" where
  "nothing_to_do plan \<longleftrightarrow> toInsert plan = [] \<and> toRevive plan = [] \<and> toMarkUnavailable plan = [] \<and>
    toRetargetUrl plan = [] \<and> toSetWritable plan = [] \<and> \<not> suppressed plan"

lemma nothing_to_doI:
  assumes "\<And>d. d \<in> set (unique_by_key {} (riDiscovered input)) \<Longrightarrow>
      map_of (fst (indexExistingByKey (riExisting input))) (dcIdentityKey d) = None \<Longrightarrow>
      dcIdentityKey d \<in> riRemovedKeys input \<union> riBlockedKeys input"
    and "\<And>d e. (d, e) \<in> set (matched_pairs (riDiscovered input) (riExisting input)) \<Longrightarrow>
      ecUnavailableSince e = None \<and> dcWritable d = ecWritable e \<and>
      (dcCalendarUrl d = None \<or> dcCalendarUrl d = ecCalendarUrl e)"
    and "\<And>k e. (k, e) \<in> set (fst (indexExistingByKey (riExisting input))) \<Longrightarrow>
      ecId e \<in> (\<lambda>(d, e). ecId e) ` set (matched_pairs (riDiscovered input) (riExisting input)) \<or>
      ecUnavailableSince e \<noteq> None \<or> \<not> predatesEnumeration e (riEnumerationStartedAt input)"
    and "riDiscovered input = [] \<Longrightarrow> riExisting input = []"
  shows "nothing_to_do (planCalendarRediscovery input)"
proof -
  define plan where "plan = planCalendarRediscovery input"
  have "\<not> suppressed plan"
    using assms(4) by (auto simp: plan_def planCalendarRediscovery_def Let_def split: prod.splits)
  note fields = plan_fields [OF plan_def [symmetric] this]
  have "toInsert plan = []" unfolding fields(1) using assms(1) by (auto simp: filter_empty_conv)
  moreover have "toRevive plan = []" unfolding fields(2) using assms(2) by (auto simp: filter_empty_conv)
  moreover have "toMarkUnavailable plan = []"
    unfolding fields(3) using assms(3) by (fastforce simp: filter_empty_conv)
  moreover have "toRetargetUrl plan = []"
    unfolding fields(4) using assms(2) by (fastforce simp: buildUrlRetarget_def split: option.splits)
  moreover have "toSetWritable plan = []"
    unfolding fields(5) using assms(2) by (auto simp: buildWriteAccessChange_def)
  ultimately show ?thesis using \<open>\<not> suppressed plan\<close> by (simp add: nothing_to_do_def flip: plan_def)
qed

section \<open>What the updates do to a row\<close>

definition caps_after :: "CalendarWriteAccessChange list \<Rightarrow> string \<Rightarrow> string list \<Rightarrow> string list" where
  "caps_after changes i = fold (\<lambda>ch c. if i = waId ch then resolveCalendarCapabilities (waWritable ch) else c) changes"

definition writable_after :: "CalendarWriteAccessChange list \<Rightarrow> string \<Rightarrow> bool \<Rightarrow> bool" where
  "writable_after changes i = fold (\<lambda>ch w. if i = waId ch then waWritable ch else w) changes"

definition url_after :: "CalendarRetarget list \<Rightarrow> string \<Rightarrow> string option \<Rightarrow> string option" where
  "url_after retargets i = fold (\<lambda>rt u. if i = rtId rt then Some (rtCalendarUrl rt) else u) retargets"

definition unavailable_after :: "CalendarRediscoveryPlan \<Rightarrow> instant \<Rightarrow> string \<Rightarrow> instant option \<Rightarrow> instant option" where
  "unavailable_after plan now i old =
    (if i \<in> set (toMarkUnavailable plan) then Some now else if i \<in> set (toRevive plan) then None else old)"

definition row_after :: "CalendarRediscoveryPlan \<Rightarrow> instant \<Rightarrow> calendar_row \<Rightarrow> calendar_row" where
  "row_after plan now r = r\<lparr>crCalendarUrl := url_after (toRetargetUrl plan) (crId r) (crCalendarUrl r),
    crUnavailableSince := unavailable_after plan now (crId r) (crUnavailableSince r),
    crCapabilities := caps_after (toSetWritable plan) (crId r) (crCapabilities r)\<rparr>"

lemma push_caps_after:
  "''push'' \<in> set (caps_after changes i c) \<longleftrightarrow> writable_after changes i (''push'' \<in> set c)"
  by (induction changes arbitrary: c)
    (auto simp: caps_after_def writable_after_def resolveCalendarCapabilities_def)

lemma write_access_rows:
  "fold (\<lambda>ch. setCalendarWriteAccess (waId ch) (waWritable ch)) changes rows =
    map (\<lambda>r. r\<lparr>crCapabilities := caps_after changes (crId r) (crCapabilities r)\<rparr>) rows"
  by (induction changes arbitrary: rows)
    (auto simp: caps_after_def setCalendarWriteAccess_def update_calendars_def)

lemma retarget_rows:
  "fold (\<lambda>rt. update_calendars (\<lambda>r. crId r = rtId rt) (\<lambda>r. r\<lparr>crCalendarUrl := Some (rtCalendarUrl rt)\<rparr>)) rts rows =
    map (\<lambda>r. r\<lparr>crCalendarUrl := url_after rts (crId r) (crCalendarUrl r)\<rparr>) rows"
  by (induction rts arbitrary: rows) (auto simp: url_after_def update_calendars_def)

lemma apply_updates_eq: "apply_updates plan now rows = map (row_after plan now) rows"
proof -
  have "(let r = (if crId r \<in> set (toRevive plan) then r\<lparr>crUnavailableSince := None\<rparr> else r);
      r = (if crId r \<in> set (toMarkUnavailable plan) then r\<lparr>crUnavailableSince := Some now\<rparr> else r)
      in r\<lparr>crCapabilities := caps_after (toSetWritable plan) (crId r) (crCapabilities r),
         crCalendarUrl := url_after (toRetargetUrl plan) (crId r) (crCalendarUrl r)\<rparr>) = row_after plan now r" for r
    by (auto simp: row_after_def unavailable_after_def Let_def)
  then show ?thesis
    by (simp add: apply_updates_def write_access_rows retarget_rows update_calendars_def Let_def)
qed

lemma writable_after_const:
  assumes "\<And>ch. ch \<in> set changes \<Longrightarrow> waId ch = i \<Longrightarrow> waWritable ch = w"
  shows "writable_after changes i old = (if i \<in> waId ` set changes then w else old)"
  using assms by (induction changes arbitrary: old) (auto simp: writable_after_def)

lemma url_after_const:
  assumes "\<And>rt. rt \<in> set rts \<Longrightarrow> rtId rt = i \<Longrightarrow> rtCalendarUrl rt = u"
  shows "url_after rts i old = (if i \<in> rtId ` set rts then Some u else old)"
  using assms by (induction rts arbitrary: old) (auto simp: url_after_def)


section \<open>Reading the rows back\<close>

text \<open>A listed calendar carries the identity the stored row will be read back with.\<close>

definition listing_ok :: "url_lib \<Rightarrow> RediscoveryCalendarType \<Rightarrow> DiscoveredCalendar \<Rightarrow> bool" where
  "listing_ok url calendarType d \<longleftrightarrow>
    (if calendarType = OAuthType
     then dcExternalCalendarId d = Some (dcIdentityKey d) \<and> dcIdentityKey d \<noteq> [] \<and> dcCalendarUrl d = None
     else dcExternalCalendarId d = None \<and> (\<exists>u. dcCalendarUrl d = Some u \<and> u \<noteq> [] \<and>
       normalizeCalDAVCalendarKey url u = Some (dcIdentityKey d)))"

definition existing_after :: "CalendarRediscoveryPlan \<Rightarrow> instant \<Rightarrow> ExistingCalendar \<Rightarrow> ExistingCalendar" where
  "existing_after plan now e = e\<lparr>ecCalendarUrl := url_after (toRetargetUrl plan) (ecId e) (ecCalendarUrl e),
    ecUnavailableSince := unavailable_after plan now (ecId e) (ecUnavailableSince e),
    ecWritable := writable_after (toSetWritable plan) (ecId e) (ecWritable e)\<rparr>"

lemma existing_after_row: "to_existing (row_after plan now r) k = existing_after plan now (to_existing r k)"
  by (simp add: to_existing_def row_after_def existing_after_def push_caps_after)

lemma calendar_row_key_cases:
  assumes "calendar_row_key url ty r = Inr ks"
  shows "ks = [] \<or> (\<exists>k. ks = [k])"
  using assms by (auto simp: calendar_row_key_def resolveStoredIdentityKey_def split: if_splits option.splits)

lemma flat_map_result_append:
  "flat_map_result f (xs @ ys) = (case flat_map_result f xs of Inl e \<Rightarrow> Inl e
    | Inr as \<Rightarrow> (case flat_map_result f ys of Inl e \<Rightarrow> Inl e | Inr bs \<Rightarrow> Inr (as @ bs)))"
  by (induction xs) (auto split: sum.splits)

lemma toExisting_append:
  "toExistingCalendars url (xs @ ys) ty = (case toExistingCalendars url xs ty of Inl e \<Rightarrow> Inl e
    | Inr as \<Rightarrow> (case toExistingCalendars url ys ty of Inl e \<Rightarrow> Inl e | Inr bs \<Rightarrow> Inr (as @ bs)))"
  unfolding toExistingCalendars_def by (rule flat_map_result_append)

lemma toExisting_mem:
  "toExistingCalendars url rows ty = Inr xs \<Longrightarrow> e \<in> set xs \<longleftrightarrow>
    (\<exists>r \<in> set rows. \<exists>k. calendar_row_key url ty r = Inr [k] \<and> e = to_existing r k)"
proof (induction rows arbitrary: xs)
  case (Cons r rows)
  then obtain ks ys where ks: "calendar_row_key url ty r = Inr ks" and
    ys: "toExistingCalendars url rows ty = Inr ys" and xs: "xs = map (to_existing r) ks @ ys"
    by (auto simp: toExistingCalendars_def split: sum.splits)
  then show ?case using Cons.IH [OF ys] calendar_row_key_cases [OF ks] by auto
qed (simp add: toExistingCalendars_def)

lemma toExisting_ids:
  "toExistingCalendars url rows ty = Inr xs \<Longrightarrow> distinct (map crId rows) \<Longrightarrow> distinct (map ecId xs)"
proof (induction rows arbitrary: xs)
  case (Cons r rows)
  from Cons.prems(1) obtain ks ys where ks: "calendar_row_key url ty r = Inr ks" and
    ys: "toExistingCalendars url rows ty = Inr ys" and xs: "xs = map (to_existing r) ks @ ys"
    by (auto simp: toExistingCalendars_def split: sum.splits)
  have "ecId e \<noteq> crId r" if e: "e \<in> set ys" for e
  proof -
    obtain q k where q: "q \<in> set rows" "e = to_existing q k"
      using iffD1 [OF toExisting_mem [OF ys] e] by metis
    have "crId r \<notin> crId ` set rows" using Cons.prems(2) by simp
    then have "crId q \<noteq> crId r" using q(1) by (metis image_eqI)
    then show ?thesis using q(2) by (simp add: to_existing_def)
  qed
  moreover have "distinct (map ecId ys)" using Cons.IH [OF ys] Cons.prems(2) by simp
  ultimately have "distinct (map ecId (map (to_existing r) ks @ ys))"
    using calendar_row_key_cases [OF ks]
  proof (elim disjE exE)
    fix k assume "ks = [k]" and ys': "\<And>e. e \<in> set ys \<Longrightarrow> ecId e \<noteq> crId r" "distinct (map ecId ys)"
    have "crId r \<notin> ecId ` set ys" using ys'(1) by (metis imageE)
    with \<open>ks = [k]\<close> ys'(2) show ?thesis by (simp add: to_existing_def)
  qed simp
  then show ?case by (simp add: xs)
qed (simp add: toExistingCalendars_def)

lemma toExisting_map:
  assumes "toExistingCalendars url rows ty = Inr xs"
    "\<And>r. r \<in> set rows \<Longrightarrow> calendar_row_key url ty (row_after plan now r) = calendar_row_key url ty r"
  shows "toExistingCalendars url (map (row_after plan now) rows) ty = Inr (map (existing_after plan now) xs)"
  using assms
proof (induction rows arbitrary: xs)
  case (Cons r rows)
  then obtain ks ys where ks: "calendar_row_key url ty r = Inr ks" and
    ys: "toExistingCalendars url rows ty = Inr ys" and xs: "xs = map (to_existing r) ks @ ys"
    by (auto simp: toExistingCalendars_def split: sum.splits)
  have "toExistingCalendars url (map (row_after plan now) rows) ty = Inr (map (existing_after plan now) ys)"
    using Cons.IH [OF ys] Cons.prems(2) by simp
  then show ?case
    using ks Cons.prems(2) [of r] by (simp add: toExistingCalendars_def xs existing_after_row)
qed (simp add: toExistingCalendars_def)


section \<open>Carrying out a plan\<close>

lemma to_existing_sel [simp]:
  "ecId (to_existing r k) = crId r" "ecIdentityKey (to_existing r k) = k"
  "ecCalendarUrl (to_existing r k) = crCalendarUrl r" "ecCreatedAt (to_existing r k) = crCreatedAt r"
  "ecUnavailableSince (to_existing r k) = crUnavailableSince r"
  "ecWritable (to_existing r k) = (''push'' \<in> set (crCapabilities r))"
  by (simp_all add: to_existing_def)

lemma existing_after_sel [simp]:
  "ecId (existing_after plan now e) = ecId e" "ecIdentityKey (existing_after plan now e) = ecIdentityKey e"
  "ecCreatedAt (existing_after plan now e) = ecCreatedAt e"
  by (simp_all add: existing_after_def)

text \<open>The facts a successful, unsuppressed run rests on.\<close>

definition rediscovery_run ::
    "url_lib \<Rightarrow> CalendarRediscoveryApplyInput \<Rightarrow> calendar_db \<Rightarrow> calendar_row list \<Rightarrow> ExistingCalendar list \<Rightarrow>
      string list \<Rightarrow> string list \<Rightarrow> CalendarRediscoveryPlan \<Rightarrow> bool" where
  "rediscovery_run url input db inserted existing blocked removed plan \<longleftrightarrow>
    readExistingCalendars url input db = Inr existing \<and>
    readCrossAccountCalDAVKeys url input db = Inr blocked \<and>
    readRemovedKeys url input db = Inr removed \<and>
    planCalendarRediscovery \<lparr>riDiscovered = apDiscovered input, riExisting = existing,
      riBlockedKeys = set blocked, riRemovedKeys = set removed, riEnumerationStartedAt = Some (apNow input)\<rparr> = plan \<and>
    \<not> suppressed plan \<and> distinct (map crId (dbCalendars db @ inserted)) \<and>
    (\<exists>ids txNow. inserted = insertDiscoveredCalendars input ids txNow (toInsert plan))"

lemma run_fields:
  assumes "rediscovery_run url input db inserted existing blocked removed plan"
  defines "pairs \<equiv> matched_pairs (apDiscovered input) existing"
  shows "toInsert plan = filter (\<lambda>d. map_of (fst (indexExistingByKey existing)) (dcIdentityKey d) = None
      \<and> dcIdentityKey d \<notin> set removed \<and> dcIdentityKey d \<notin> set blocked) (unique_by_key {} (apDiscovered input))"
    "toRevive plan = map (\<lambda>(d, e). ecId e) (filter (\<lambda>(d, e). ecUnavailableSince e \<noteq> None) pairs)"
    "toMarkUnavailable plan = map ecId (filter (\<lambda>e. ecId e \<notin> (\<lambda>(d, e). ecId e) ` set pairs
      \<and> ecUnavailableSince e = None \<and> predatesEnumeration e (Some (apNow input)))
      (map snd (fst (indexExistingByKey existing))))"
    "toRetargetUrl plan = concat (map (\<lambda>(d, e). buildUrlRetarget d e) pairs)"
    "toSetWritable plan = concat (map (\<lambda>(d, e). buildWriteAccessChange d e) pairs)"
    "apDiscovered input = [] \<Longrightarrow> existing = []"
  using assms(1) plan_fields [of "\<lparr>riDiscovered = apDiscovered input, riExisting = existing,
      riBlockedKeys = set blocked, riRemovedKeys = set removed, riEnumerationStartedAt = Some (apNow input)\<rparr>" plan]
  unfolding rediscovery_run_def pairs_def by auto

lemma run_existing_ids:
  assumes "rediscovery_run url input db inserted existing blocked removed plan"
  shows "distinct (map ecId existing)"
proof -
  have "toExistingCalendars url (filter (owned_by input) (dbCalendars db)) (apCalendarType input) = Inr existing"
    "distinct (map crId (filter (owned_by input) (dbCalendars db)))"
    using assms by (auto simp: rediscovery_run_def readExistingCalendars_def distinct_map_filter)
  then show ?thesis by (rule toExisting_ids)
qed

lemma run_existing_row:
  assumes "rediscovery_run url input db inserted existing blocked removed plan" "e \<in> set existing"
  obtains r where "r \<in> set (dbCalendars db)" "owned_by input r"
    "calendar_row_key url (apCalendarType input) r = Inr [ecIdentityKey e]" "ecId e = crId r"
proof -
  have "toExistingCalendars url (filter (owned_by input) (dbCalendars db)) (apCalendarType input) = Inr existing"
    using assms(1) by (simp add: rediscovery_run_def readExistingCalendars_def)
  from toExisting_mem [OF this, of e] assms(2) show thesis by (auto intro: that)
qed

lemma pair_facts:
  assumes "(d, e) \<in> set (matched_pairs ds existing)"
  shows "d \<in> set (unique_by_key {} ds)" "e \<in> set existing" "ecIdentityKey e = dcIdentityKey d"
  using assms index_lookup [of existing] by (auto simp: in_matched_pairs)

text \<open>At most one pair speaks about a row.\<close>

lemma pair_unique:
  assumes "distinct (map ecId existing)" "(d, e) \<in> set (matched_pairs ds existing)"
    "(d', e') \<in> set (matched_pairs ds existing)" "ecId e = ecId e'"
  shows "d = d' \<and> e = e'"
proof -
  have "e = e'" using assms(1,4) pair_facts(2) [OF assms(2)] pair_facts(2) [OF assms(3)]
    by (auto simp: distinct_map inj_on_def)
  moreover have "d = d'"
    using unique_eq [OF pair_facts(1) [OF assms(2)] pair_facts(1) [OF assms(3)]]
      pair_facts(3) [OF assms(2)] pair_facts(3) [OF assms(3)] \<open>e = e'\<close> by simp
  ultimately show ?thesis by simp
qed

lemma write_change_mem:
  "ch \<in> set (concat (map (\<lambda>(d, e). buildWriteAccessChange d e) pairs)) \<longleftrightarrow>
    (\<exists>d e. (d, e) \<in> set pairs \<and> dcWritable d \<noteq> ecWritable e \<and> ch = \<lparr>waId = ecId e, waWritable = dcWritable d\<rparr>)"
  by (force simp: buildWriteAccessChange_def split: if_splits)

lemma retarget_mem:
  "rt \<in> set (concat (map (\<lambda>(d, e). buildUrlRetarget d e) pairs)) \<longleftrightarrow>
    (\<exists>d e u. (d, e) \<in> set pairs \<and> dcCalendarUrl d = Some u \<and> ecCalendarUrl e \<noteq> Some u \<and>
      rt = \<lparr>rtId = ecId e, rtCalendarUrl = u\<rparr>)"
  by (force simp: buildUrlRetarget_def split: if_splits option.splits)


lemma run_matched_after:
  assumes run: "rediscovery_run url input db inserted existing blocked removed plan"
    and p: "(d, e) \<in> set (matched_pairs (apDiscovered input) existing)"
  shows "ecUnavailableSince (existing_after plan now e) = None"
    "ecWritable (existing_after plan now e) = dcWritable d"
    "dcCalendarUrl d = None \<or> dcCalendarUrl d = ecCalendarUrl (existing_after plan now e)"
proof -
  note fields = run_fields [OF run]
  note uniq = pair_unique [OF run_existing_ids [OF run] p]
  have "ecId e \<notin> set (toMarkUnavailable plan)" using p by (force simp: fields(3))
  moreover have "ecUnavailableSince e = None \<or> ecId e \<in> set (toRevive plan)"
    using p by (force simp: fields(2))
  ultimately show "ecUnavailableSince (existing_after plan now e) = None"
    by (auto simp: existing_after_def unavailable_after_def)
  have "waWritable ch = dcWritable d" if "ch \<in> set (toSetWritable plan)" "waId ch = ecId e" for ch
    using that uniq unfolding fields(5) write_change_mem by (metis CalendarWriteAccessChange.select_convs)
  from writable_after_const [OF this, of "toSetWritable plan" "ecId e"]
  have "writable_after (toSetWritable plan) (ecId e) (ecWritable e) =
      (if ecId e \<in> waId ` set (toSetWritable plan) then dcWritable d else ecWritable e)" by blast
  moreover have "ecId e \<in> waId ` set (toSetWritable plan)" if "dcWritable d \<noteq> ecWritable e"
    using p that write_change_mem [of "\<lparr>waId = ecId e, waWritable = dcWritable d\<rparr>"]
    unfolding fields(5) by (force simp del: set_concat)
  ultimately show "ecWritable (existing_after plan now e) = dcWritable d"
    by (auto simp: existing_after_def)
  show "dcCalendarUrl d = None \<or> dcCalendarUrl d = ecCalendarUrl (existing_after plan now e)"
  proof (cases "dcCalendarUrl d")
    case (Some u)
    have "rtCalendarUrl rt = u" if "rt \<in> set (toRetargetUrl plan)" "rtId rt = ecId e" for rt
      using that uniq Some unfolding fields(4) retarget_mem by (metis CalendarRetarget.select_convs option.inject)
    from url_after_const [OF this, of "toRetargetUrl plan" "ecId e"]
    have "url_after (toRetargetUrl plan) (ecId e) (ecCalendarUrl e) =
        (if ecId e \<in> rtId ` set (toRetargetUrl plan) then Some u else ecCalendarUrl e)" by blast
    moreover have "ecId e \<in> rtId ` set (toRetargetUrl plan)" if "ecCalendarUrl e \<noteq> Some u"
      using p that Some retarget_mem [of "\<lparr>rtId = ecId e, rtCalendarUrl = u\<rparr>"]
      unfolding fields(4) by (force simp del: set_concat)
    ultimately show ?thesis using Some by (cases "ecCalendarUrl e = Some u") (simp_all add: existing_after_def)
  qed simp
qed

text \<open>A plan speaks about rows of its account only; every other row stays as it is.\<close>

definition plan_ids :: "CalendarRediscoveryPlan \<Rightarrow> string set" where
  "plan_ids plan = set (toRevive plan) \<union> set (toMarkUnavailable plan) \<union> rtId ` set (toRetargetUrl plan) \<union>
    waId ` set (toSetWritable plan)"

lemma row_after_other:
  assumes "crId r \<notin> plan_ids plan"
  shows "row_after plan now r = r"
proof -
  have "caps_after chs i c = c" if "i \<notin> waId ` set chs" for chs i c
    using that by (induction chs arbitrary: c) (auto simp: caps_after_def)
  moreover have "url_after rts i u = u" if "i \<notin> rtId ` set rts" for rts i u
    using that by (induction rts arbitrary: u) (auto simp: url_after_def)
  ultimately show ?thesis using assms by (simp add: row_after_def plan_ids_def unavailable_after_def)
qed

lemma run_plan_ids:
  assumes run: "rediscovery_run url input db inserted existing blocked removed plan"
  shows "plan_ids plan \<subseteq> ecId ` set existing"
proof -
  note fields = run_fields [OF run]
  have "set (toRevive plan) \<subseteq> ecId ` set existing" using pair_facts(2) by (force simp: fields(2))
  moreover have "set (toMarkUnavailable plan) \<subseteq> ecId ` set existing"
    using indexExistingByKey_ok [of existing] by (force simp: fields(3) index_ok_def)
  moreover have "rtId ` set (toRetargetUrl plan) \<subseteq> ecId ` set existing"
    unfolding fields(4) by (clarsimp simp: retarget_mem simp del: set_concat) (use pair_facts(2) in blast)
  moreover have "waId ` set (toSetWritable plan) \<subseteq> ecId ` set existing"
    unfolding fields(5) by (clarsimp simp: write_change_mem simp del: set_concat) (use pair_facts(2) in blast)
  ultimately show ?thesis by (simp add: plan_ids_def)
qed

lemma run_other_row:
  assumes run: "rediscovery_run url input db inserted existing blocked removed plan"
    and r: "r \<in> set (dbCalendars db @ inserted)" "\<not> owned_by input r \<or> r \<in> set inserted"
  shows "row_after plan now r = r"
proof (rule row_after_other, rule notI)
  assume "crId r \<in> plan_ids plan"
  then obtain e where e: "e \<in> set existing" "crId r = ecId e" using run_plan_ids [OF run] by blast
  obtain q where q: "q \<in> set (dbCalendars db)" "owned_by input q" "ecId e = crId q"
    using run_existing_row [OF run e(1)] by metis
  have ids: "distinct (map crId (dbCalendars db @ inserted))" using run by (simp add: rediscovery_run_def)
  then have "inj_on crId (set (dbCalendars db @ inserted))" by (simp add: distinct_map del: map_append set_append)
  moreover have "set (dbCalendars db) \<inter> set inserted = {}" using ids by auto
  moreover from calculation(1) have "q = r" using q e(2) r(1) by (auto simp: inj_on_def)
  ultimately show False using q r(2) by blast
qed


section \<open>Reading the carried out plan back\<close>

lemma url_after_cases:
  "url_after rts i u = u \<or> (\<exists>rt \<in> set rts. rtId rt = i \<and> url_after rts i u = Some (rtCalendarUrl rt))"
proof (induction rts arbitrary: u)
  case (Cons a rts)
  show ?case
  proof (cases "i = rtId a")
    case True
    then show ?thesis using Cons.IH [of "Some (rtCalendarUrl a)"] by (auto simp: url_after_def)
  next
    case False
    then show ?thesis using Cons.IH [of u] by (auto simp: url_after_def)
  qed
qed (simp add: url_after_def)

lemma run_key_after:
  assumes run: "rediscovery_run url input db inserted existing blocked removed plan"
    and listing: "list_all (listing_ok url (apCalendarType input)) (apDiscovered input)"
    and r: "r \<in> set (dbCalendars db)" "owned_by input r"
  shows "calendar_row_key url (apCalendarType input) (row_after plan now r)
    = calendar_row_key url (apCalendarType input) r"
proof (cases "apCalendarType input")
  case OAuthType
  then show ?thesis by (simp add: calendar_row_key_def resolveStoredIdentityKey_def row_after_def)
next
  case CalDAVType
  from url_after_cases [of "toRetargetUrl plan" "crId r" "crCalendarUrl r"] show ?thesis
  proof (elim disjE bexE conjE)
    assume "url_after (toRetargetUrl plan) (crId r) (crCalendarUrl r) = crCalendarUrl r"
    then show ?thesis by (simp add: calendar_row_key_def resolveStoredIdentityKey_def row_after_def)
  next
    fix rt assume rt: "rt \<in> set (toRetargetUrl plan)" "rtId rt = crId r"
      and u: "url_after (toRetargetUrl plan) (crId r) (crCalendarUrl r) = Some (rtCalendarUrl rt)"
    obtain d e where p: "(d, e) \<in> set (matched_pairs (apDiscovered input) existing)"
      and d: "dcCalendarUrl d = Some (rtCalendarUrl rt)" and e: "ecId e = crId r"
      using rt unfolding run_fields(4) [OF run] retarget_mem by auto
    obtain q where q: "q \<in> set (dbCalendars db)" "ecId e = crId q"
      "calendar_row_key url (apCalendarType input) q = Inr [ecIdentityKey e]"
      using run_existing_row [OF run pair_facts(2) [OF p]] by metis
    have "distinct (map crId (dbCalendars db))" using run by (simp add: rediscovery_run_def)
    then have "q = r" using q(1,2) r(1) e by (auto simp: distinct_map inj_on_def)
    have "d \<in> set (apDiscovered input)"
      using pair_facts(1) [OF p] unique_by_key_props [of "{}" "apDiscovered input"] by blast
    then have "rtCalendarUrl rt \<noteq> []" "normalizeCalDAVCalendarKey url (rtCalendarUrl rt) = Some (dcIdentityKey d)"
      using listing d CalDAVType by (auto simp: list_all_iff listing_ok_def)
    then have "calendar_row_key url (apCalendarType input) (row_after plan now r) = Inr [dcIdentityKey d]"
      using CalDAVType u by (simp add: calendar_row_key_def resolveStoredIdentityKey_def row_after_def str_truthy_def)
    then show ?thesis using q(3) \<open>q = r\<close> pair_facts(3) [OF p] by simp
  qed
qed

lemma insertRow_key:
  assumes "listing_ok url (apCalendarType input) d"
  shows "calendar_row_key url (apCalendarType input) (buildInsertRow input i t d) = Inr [dcIdentityKey d]"
  using assms by (cases "apCalendarType input")
    (auto simp: calendar_row_key_def resolveStoredIdentityKey_def buildInsertRow_def listing_ok_def str_truthy_def)

text \<open>The inserted rows as they are read back.\<close>

definition inserted_existing :: "(nat \<Rightarrow> string) \<Rightarrow> instant \<Rightarrow> CalendarRediscoveryApplyInput \<Rightarrow>
    DiscoveredCalendar list \<Rightarrow> ExistingCalendar list" where
  "inserted_existing ids txNow input ds =
    map (\<lambda>(i, d). to_existing (buildInsertRow input (ids i) txNow d) (dcIdentityKey d)) (enumerate 0 ds)"

lemma toExisting_inserted:
  assumes "list_all (listing_ok url (apCalendarType input)) ds"
  shows "toExistingCalendars url (insertDiscoveredCalendars input ids txNow ds) (apCalendarType input) =
    Inr (inserted_existing ids txNow input ds)"
proof -
  have "toExistingCalendars url (map (\<lambda>(i, d). buildInsertRow input (ids i) txNow d) (enumerate n ds))
      (apCalendarType input) =
    Inr (map (\<lambda>(i, d). to_existing (buildInsertRow input (ids i) txNow d) (dcIdentityKey d)) (enumerate n ds))" for n
    using assms
  proof (induction ds arbitrary: n)
    case (Cons d ds)
    then show ?case using insertRow_key [of url input d "ids n" txNow] Cons.IH [of "Suc n"]
      by (simp add: toExistingCalendars_def)
  qed (simp add: toExistingCalendars_def)
  then show ?thesis by (simp add: insertDiscoveredCalendars_def inserted_existing_def)
qed

lemma run_existing_after:
  assumes run: "rediscovery_run url input db inserted existing blocked removed plan"
    and listing: "list_all (listing_ok url (apCalendarType input)) (apDiscovered input)"
    and ins: "inserted = insertDiscoveredCalendars input ids txNow (toInsert plan)"
    and db': "dbCalendars db' = map (row_after plan now) (dbCalendars db @ inserted)"
  shows "readExistingCalendars url input db' =
    Inr (map (existing_after plan now) existing @ inserted_existing ids txNow input (toInsert plan))"
proof -
  have own: "owned_by input (row_after plan now r) = owned_by input r" for r
    by (simp add: owned_by_def row_after_def)
  have "\<forall>r \<in> set inserted. owned_by input r"
    by (auto simp: ins insertDiscoveredCalendars_def buildInsertRow_def owned_by_def)
  moreover have "\<forall>r \<in> set inserted. row_after plan now r = r" using run_other_row [OF run] by auto
  ultimately have "filter (owned_by input) (dbCalendars db') =
      map (row_after plan now) (filter (owned_by input) (dbCalendars db)) @ inserted"
    by (simp add: db' filter_map o_def own map_idI cong: filter_cong)
  moreover have "toExistingCalendars url (map (row_after plan now) (filter (owned_by input) (dbCalendars db)))
      (apCalendarType input) = Inr (map (existing_after plan now) existing)"
  proof (rule toExisting_map)
    show "toExistingCalendars url (filter (owned_by input) (dbCalendars db)) (apCalendarType input) = Inr existing"
      using run by (simp add: rediscovery_run_def readExistingCalendars_def)
  qed (use run_key_after [OF run listing] in simp)
  moreover have "list_all (listing_ok url (apCalendarType input)) (toInsert plan)"
    using listing unique_by_key_props [of "{}" "apDiscovered input"]
    by (auto simp: run_fields(1) [OF run] list_all_iff)
  ultimately show ?thesis
    by (simp add: readExistingCalendars_def toExisting_append toExisting_inserted ins)
qed


lemma flat_map_result_map: "flat_map_result f (map g xs) = flat_map_result (\<lambda>x. f (g x)) xs"
  by (induction xs) (auto split: sum.splits)

lemma flat_map_result_cong:
  "(\<And>x. x \<in> set xs \<Longrightarrow> f x = g x) \<Longrightarrow> flat_map_result f xs = flat_map_result g xs"
  by (induction xs) (auto split: sum.splits)

lemma product_append: "List.product (xs @ ys) zs = List.product xs zs @ List.product ys zs"
  by (induction xs) auto

lemma product_map: "List.product (map f xs) (map g ys) = map (map_prod f g) (List.product xs ys)"
  by (induction xs) (auto simp: o_def)

lemma run_blocked_after:
  assumes run: "rediscovery_run url input db inserted existing blocked removed plan"
    and account: "apAccountId input \<noteq> []"
    and db': "dbCalendars db' = map (row_after plan now) (dbCalendars db @ inserted)"
      "dbAccounts db' = map (\<lambda>a. if acctId a = apAccountId input
        then a\<lparr>calendarsRefreshedAt := t\<rparr> else a) (dbAccounts db)"
  shows "readCrossAccountCalDAVKeys url input db' = Inr blocked"
proof -
  define f where "f = (\<lambda>a :: account_row. if acctId a = apAccountId input then a\<lparr>calendarsRefreshedAt := t\<rparr> else a)"
  define P where "P = (\<lambda>(row :: calendar_row, account :: account_row).
    crAccountId row = acctId account \<and> acctServerUrl account \<noteq> None \<and> crUserId row = apUserId input
    \<and> acctAuthType account = ''caldav'' \<and> crAccountId row \<noteq> apAccountId input)"
  have f: "acctId (f a) = acctId a" "acctServerUrl (f a) = acctServerUrl a" "acctAuthType (f a) = acctAuthType a" for a
    by (simp_all add: f_def)
  have ins: "crAccountId r = apAccountId input" if "r \<in> set inserted" for r
    using that run by (auto simp: rediscovery_run_def insertDiscoveredCalendars_def buildInsertRow_def)
  have P: "P (row_after plan now r, f a) = P (r, a)" for r a
    by (simp add: P_def f row_after_def)
  have "filter P (List.product (map (row_after plan now) inserted) (map f (dbAccounts db))) = []"
    unfolding product_map using ins by (auto simp: filter_map filter_empty_conv P) (auto simp: P_def)
  then have "filter P (List.product (dbCalendars db') (dbAccounts db')) =
      map (map_prod (row_after plan now) f) (filter P (List.product (dbCalendars db) (dbAccounts db)))"
    unfolding db' f_def [symmetric] map_append product_append product_map
    by (simp add: filter_map o_def P case_prod_unfold map_prod_def)
  moreover have "toUserCalDAVCalendar url h (map_prod (row_after plan now) f x) = toUserCalDAVCalendar url h x"
    if "x \<in> set (filter P (List.product (dbCalendars db) (dbAccounts db)))" for h x
  proof -
    obtain r a where x: "x = (r, a)" by (cases x)
    have "r \<in> set (dbCalendars db)" "\<not> owned_by input r" using that by (auto simp: x P_def owned_by_def)
    then have "row_after plan now r = r" using run_other_row [OF run, of r now] by simp
    then show ?thesis by (simp add: x toUserCalDAVCalendar_def f split: option.splits)
  qed
  ultimately have "flat_map_result (toUserCalDAVCalendar url h) (filter P (List.product (dbCalendars db') (dbAccounts db')))
      = flat_map_result (toUserCalDAVCalendar url h) (filter P (List.product (dbCalendars db) (dbAccounts db)))" for h
    by (simp only: flat_map_result_map) (rule flat_map_result_cong, blast)
  then have "findUserCalDAVCalendarsOnServer url (apUserId input) h (Some (apAccountId input)) db' =
      findUserCalDAVCalendarsOnServer url (apUserId input) h (Some (apAccountId input)) db" for h
    using account by (simp add: findUserCalDAVCalendarsOnServer_def P_def)
  moreover have "readCrossAccountCalDAVKeys url input db = Inr blocked" using run by (simp add: rediscovery_run_def)
  ultimately show ?thesis by (simp only: readCrossAccountCalDAVKeys_def)
qed


section \<open>A second run finds nothing to do\<close>

lemma inserted_existing_keys: "map ecIdentityKey (inserted_existing ids txNow input ds) = map dcIdentityKey ds"
proof -
  have "map ecIdentityKey (map (\<lambda>(i, d). to_existing (g i d) (dcIdentityKey d)) (enumerate n ds)) =
    map dcIdentityKey ds" for g n
    by (induction ds arbitrary: n) simp_all
  then show ?thesis by (simp add: inserted_existing_def)
qed

lemma inserted_existing_mem:
  assumes "e \<in> set (inserted_existing ids txNow input ds)"
  obtains d where "d \<in> set ds" "ecIdentityKey e = dcIdentityKey d" "ecUnavailableSince e = None"
    "ecWritable e = dcWritable d" "dcExternalCalendarId d = None \<Longrightarrow> ecCalendarUrl e = dcCalendarUrl d"
proof -
  obtain i d where "(i, d) \<in> set (enumerate 0 ds)"
    "e = to_existing (buildInsertRow input (ids i) txNow d) (dcIdentityKey d)"
    using assms by (auto simp: inserted_existing_def)
  then show thesis
    by (intro that [of d]) (auto simp: buildInsertRow_def resolveCalendarCapabilities_def in_set_enumerate_eq)
qed

lemma run_unique_insert:
  assumes run: "rediscovery_run url input db inserted existing blocked removed plan"
  shows "distinct (map dcIdentityKey (toInsert plan))"
    "dcIdentityKey ` set (toInsert plan) \<inter> ecIdentityKey ` set existing = {}"
    "set (toInsert plan) \<subseteq> set (unique_by_key {} (apDiscovered input))"
  using unique_by_key_props [of "{}" "apDiscovered input"] index_lookup_None [of existing]
  by (auto simp: run_fields(1) [OF run] distinct_map_filter)

lemma run_index_after:
  assumes run: "rediscovery_run url input db inserted existing blocked removed plan"
  shows "fst (indexExistingByKey (map (existing_after plan now) existing @
      inserted_existing ids txNow input (toInsert plan))) =
    map (\<lambda>(k, e). (k, existing_after plan now e)) (fst (indexExistingByKey existing)) @
    map (\<lambda>e. (ecIdentityKey e, e)) (inserted_existing ids txNow input (toInsert plan))"
proof -
  define new where "new = inserted_existing ids txNow input (toInsert plan)"
  have keys: "map ecIdentityKey new = map dcIdentityKey (toInsert plan)"
    by (simp add: new_def inserted_existing_keys)
  then have "ecIdentityKey ` set new = dcIdentityKey ` set (toInsert plan)" by (metis list.set_map)
  then have "fst (indexExistingByKey (map (existing_after plan now) existing @ new)) =
      fst (indexExistingByKey (map (existing_after plan now) existing)) @ map (\<lambda>e. (ecIdentityKey e, e)) new"
    using run_unique_insert [OF run] keys by (intro index_append_new) (auto simp: image_image)
  also have "fst (indexExistingByKey (map (existing_after plan now) existing)) =
      map (\<lambda>(k, e). (k, existing_after plan now e)) (fst (indexExistingByKey existing))"
    by (rule index_map) simp
  finally show ?thesis by (simp add: new_def)
qed

lemma run_lookup_after:
  assumes run: "rediscovery_run url input db inserted existing blocked removed plan"
    and l: "map_of (fst (indexExistingByKey (map (existing_after plan now) existing @
      inserted_existing ids txNow input (toInsert plan)))) k = Some e"
  shows "(\<exists>e0. map_of (fst (indexExistingByKey existing)) k = Some e0 \<and> e = existing_after plan now e0) \<or>
    (map_of (fst (indexExistingByKey existing)) k = None \<and> e \<in> set (inserted_existing ids txNow input (toInsert plan))
      \<and> ecIdentityKey e = k)"
  using l unfolding run_index_after [OF run]
  by (auto simp: map_of_append map_add_def map_of_map_snd dest!: map_of_SomeD split: option.splits)


text \<open>What the next run reads.\<close>

definition existing_next :: "(nat \<Rightarrow> string) \<Rightarrow> instant \<Rightarrow> CalendarRediscoveryApplyInput \<Rightarrow>
    CalendarRediscoveryPlan \<Rightarrow> ExistingCalendar list \<Rightarrow> ExistingCalendar list" where
  "existing_next ids txNow input plan existing = map (existing_after plan (apNow input)) existing @
    inserted_existing ids txNow input (toInsert plan)"

lemma next_index:
  assumes run: "rediscovery_run url input db inserted existing blocked removed plan"
  shows "fst (indexExistingByKey (existing_next ids txNow input plan existing)) =
    map (\<lambda>(k, e). (k, existing_after plan (apNow input) e)) (fst (indexExistingByKey existing)) @
    map (\<lambda>e. (ecIdentityKey e, e)) (inserted_existing ids txNow input (toInsert plan))"
  unfolding existing_next_def by (rule run_index_after [OF run])

lemma next_lookup:
  assumes run: "rediscovery_run url input db inserted existing blocked removed plan"
    and l: "map_of (fst (indexExistingByKey (existing_next ids txNow input plan existing))) k = Some e"
  shows "(\<exists>e0. map_of (fst (indexExistingByKey existing)) k = Some e0 \<and> e = existing_after plan (apNow input) e0) \<or>
    (map_of (fst (indexExistingByKey existing)) k = None \<and> e \<in> set (inserted_existing ids txNow input (toInsert plan))
      \<and> ecIdentityKey e = k)"
  using l unfolding existing_next_def by (rule run_lookup_after [OF run])

lemma replan_matched:
  assumes run: "rediscovery_run url input db inserted existing blocked removed plan"
    and listing: "list_all (listing_ok url (apCalendarType input)) (apDiscovered input)"
    and p: "(d, e) \<in> set (matched_pairs (apDiscovered input) (existing_next ids txNow input plan existing))"
  shows "ecUnavailableSince e = None \<and> dcWritable d = ecWritable e \<and>
    (dcCalendarUrl d = None \<or> dcCalendarUrl d = ecCalendarUrl e)"
proof -
  have d: "d \<in> set (unique_by_key {} (apDiscovered input))"
    and l: "map_of (fst (indexExistingByKey (existing_next ids txNow input plan existing))) (dcIdentityKey d) = Some e"
    using p by (simp_all add: in_matched_pairs)
  from next_lookup [OF run l] show ?thesis
  proof (elim disjE exE conjE)
    fix e0 assume "map_of (fst (indexExistingByKey existing)) (dcIdentityKey d) = Some e0"
      and e: "e = existing_after plan (apNow input) e0"
    then have "(d, e0) \<in> set (matched_pairs (apDiscovered input) existing)" using d by (simp add: in_matched_pairs)
    from run_matched_after [OF run this, of "apNow input"] show ?thesis by (simp add: e)
  next
    assume e: "e \<in> set (inserted_existing ids txNow input (toInsert plan))" "ecIdentityKey e = dcIdentityKey d"
    obtain d' where d': "d' \<in> set (toInsert plan)" "ecIdentityKey e = dcIdentityKey d'"
      "ecUnavailableSince e = None" "ecWritable e = dcWritable d'"
      "dcExternalCalendarId d' = None \<Longrightarrow> ecCalendarUrl e = dcCalendarUrl d'"
      using inserted_existing_mem [OF e(1)] by metis
    have "d' = d" using unique_eq [OF subsetD [OF run_unique_insert(3) [OF run] d'(1)] d] d'(2) e(2) by simp
    moreover have "d \<in> set (apDiscovered input)" using d unique_by_key_props [of "{}" "apDiscovered input"] by blast
    then have "dcExternalCalendarId d = None \<or> dcCalendarUrl d = None"
      using listing by (auto simp: list_all_iff listing_ok_def split: if_splits)
    ultimately show ?thesis using d' by auto
  qed
qed

lemma replan_inserted:
  assumes run: "rediscovery_run url input db inserted existing blocked removed plan"
    and e: "e \<in> set (inserted_existing ids txNow input (toInsert plan))"
  shows "\<exists>d. (d, e) \<in> set (matched_pairs (apDiscovered input) (existing_next ids txNow input plan existing))"
proof -
  let ?index = "fst (indexExistingByKey (existing_next ids txNow input plan existing))"
  obtain d where d: "d \<in> set (toInsert plan)" "ecIdentityKey e = dcIdentityKey d"
    using inserted_existing_mem [OF e] by metis
  have "distinct (map fst ?index)" using indexExistingByKey_ok by (simp add: index_ok_def)
  moreover have "(dcIdentityKey d, e) \<in> set ?index"
    unfolding next_index [OF run] using e d(2) by force
  ultimately show ?thesis
    using d(1) run_unique_insert(3) [OF run] by (auto simp: in_matched_pairs)
qed

lemma replan_kept:
  assumes run: "rediscovery_run url input db inserted existing blocked removed plan"
    and p: "(d, e) \<in> set (matched_pairs (apDiscovered input) existing)"
  shows "(d, existing_after plan (apNow input) e)
    \<in> set (matched_pairs (apDiscovered input) (existing_next ids txNow input plan existing))"
proof -
  let ?index = "fst (indexExistingByKey (existing_next ids txNow input plan existing))"
  have "distinct (map fst ?index)" using indexExistingByKey_ok by (simp add: index_ok_def)
  moreover have "(dcIdentityKey d, e) \<in> set (fst (indexExistingByKey existing))"
    using p by (auto simp: in_matched_pairs dest: map_of_SomeD)
  then have "(dcIdentityKey d, existing_after plan (apNow input) e) \<in> set ?index"
    unfolding next_index [OF run] by force
  ultimately show ?thesis using p by (auto simp: in_matched_pairs)
qed

lemma replan_survivor:
  assumes run: "rediscovery_run url input db inserted existing blocked removed plan"
    and e: "(k, e) \<in> set (fst (indexExistingByKey existing))"
    and no: "ecId e \<notin> (\<lambda>(d, e). ecId e) ` set (matched_pairs (apDiscovered input) existing)"
  shows "ecUnavailableSince (existing_after plan (apNow input) e) \<noteq> None \<or>
    \<not> predatesEnumeration (existing_after plan (apNow input) e) (Some (apNow input))"
proof -
  have "ecId e \<notin> set (toRevive plan)" using no unfolding run_fields(2) [OF run] by force
  moreover have "ecId e \<in> set (toMarkUnavailable plan)"
    if "ecUnavailableSince e = None" "predatesEnumeration e (Some (apNow input))"
    using that e no unfolding run_fields(3) [OF run] by force
  ultimately show ?thesis
    by (auto simp: existing_after_def unavailable_after_def predatesEnumeration_def)
qed

lemma run_replan:
  assumes run: "rediscovery_run url input db inserted existing blocked removed plan"
    and listing: "list_all (listing_ok url (apCalendarType input)) (apDiscovered input)"
  shows "nothing_to_do (planCalendarRediscovery \<lparr>riDiscovered = apDiscovered input,
      riExisting = existing_next ids txNow input plan existing,
      riBlockedKeys = set blocked, riRemovedKeys = set removed, riEnumerationStartedAt = Some (apNow input)\<rparr>)"
proof (rule nothing_to_doI; simp)
  let ?next = "existing_next ids txNow input plan existing" and ?ds = "apDiscovered input"
  fix d assume d: "d \<in> set (unique_by_key {} ?ds)" "map_of (fst (indexExistingByKey ?next)) (dcIdentityKey d) = None"
  have none: "map_of (fst (indexExistingByKey existing)) (dcIdentityKey d) = None"
    using d(2) unfolding next_index [OF run] by (simp add: map_of_append map_add_None map_of_map_snd)
  have "dcIdentityKey d \<notin> ecIdentityKey ` set (inserted_existing ids txNow input (toInsert plan))"
    using d(2) unfolding next_index [OF run] by (auto simp: map_of_append map_add_None map_of_eq_None_iff image_image)
  moreover have "ecIdentityKey ` set (inserted_existing ids txNow input (toInsert plan)) = dcIdentityKey ` set (toInsert plan)"
    using inserted_existing_keys by (metis list.set_map)
  ultimately have "d \<notin> set (toInsert plan)" by blast
  then show "dcIdentityKey d \<in> set removed \<or> dcIdentityKey d \<in> set blocked"
    using d(1) none by (simp add: run_fields(1) [OF run])
next
  fix d e assume "(d, e) \<in> set (matched_pairs (apDiscovered input) (existing_next ids txNow input plan existing))"
  then show "ecUnavailableSince e = None \<and> dcWritable d = ecWritable e \<and>
      (dcCalendarUrl d = None \<or> dcCalendarUrl d = ecCalendarUrl e)"
    by (rule replan_matched [OF run listing])
next
  let ?next = "existing_next ids txNow input plan existing" and ?ds = "apDiscovered input"
  fix k e assume "(k, e) \<in> set (fst (indexExistingByKey ?next))"
  then consider e0 where "(k, e0) \<in> set (fst (indexExistingByKey existing))" "e = existing_after plan (apNow input) e0"
    | "e \<in> set (inserted_existing ids txNow input (toInsert plan))"
    unfolding next_index [OF run] by auto
  then show "ecId e \<in> (\<lambda>(d, e). ecId e) ` set (matched_pairs ?ds ?next) \<or> (\<exists>y. ecUnavailableSince e = Some y) \<or>
      \<not> predatesEnumeration e (Some (apNow input))"
  proof cases
    case 1
    show ?thesis
    proof (cases "ecId e0 \<in> (\<lambda>(d, e). ecId e) ` set (matched_pairs ?ds existing)")
      case True
      then obtain d e1 where "(d, e1) \<in> set (matched_pairs ?ds existing)" "ecId e1 = ecId e0" by auto
      from replan_kept [OF run this(1), of ids txNow] this(2) show ?thesis using 1(2) by force
    next
      case False
      from replan_survivor [OF run 1(1) False] show ?thesis using 1(2) by auto
    qed
  next
    case 2
    from replan_inserted [OF run 2] show ?thesis by force
  qed
next
  assume "apDiscovered input = []"
  then show "existing_next ids txNow input plan existing = []"
    using run_fields(1,6) [OF run] by (simp add: existing_next_def inserted_existing_def)
qed


section \<open>The run as a whole\<close>

lemma apply_run:
  assumes res: "applyCalendarRediscoveryPlan url ids txNow input db = (Inr (plan, created), db')"
    and active: "\<not> suppressed plan" and ids: "distinct (map crId (dbCalendars db'))"
  obtains existing blocked removed inserted
  where "rediscovery_run url input db inserted existing blocked removed plan"
    "inserted = insertDiscoveredCalendars input ids txNow (toInsert plan)"
    "dbCalendars db' = map (row_after plan (apNow input)) (dbCalendars db @ inserted)"
    "dbAccounts db' = map (\<lambda>a. if acctId a = apAccountId input
        then a\<lparr>calendarsRefreshedAt := Some (apNow input)\<rparr> else a) (dbAccounts db)"
    "dbRemovals db' = dbRemovals db"
proof -
  obtain existing blocked removed where reads: "readExistingCalendars url input db = Inr existing"
    "readCrossAccountCalDAVKeys url input db = Inr blocked" "readRemovedKeys url input db = Inr removed"
    and plan: "planCalendarRediscovery \<lparr>riDiscovered = apDiscovered input, riExisting = existing,
      riBlockedKeys = set blocked, riRemovedKeys = set removed, riEnumerationStartedAt = Some (apNow input)\<rparr> = plan"
    using res by (auto simp: applyCalendarRediscoveryPlan_def plan_for_def Let_def split: sum.splits if_splits)
  define inserted where "inserted = insertDiscoveredCalendars input ids txNow (toInsert plan)"
  have db': "db' = db\<lparr>dbCalendars := apply_updates plan (apNow input) (dbCalendars db @ inserted),
      dbAccounts := map (\<lambda>a. if acctId a = apAccountId input
        then a\<lparr>calendarsRefreshedAt := Some (apNow input)\<rparr> else a) (dbAccounts db)\<rparr>"
    using res active unfolding inserted_def
    by (auto simp: applyCalendarRediscoveryPlan_def Let_def split: sum.splits if_splits)
  have "map crId (dbCalendars db @ inserted) = map crId (dbCalendars db')"
    by (simp add: db' apply_updates_eq row_after_def)
  then have "distinct (map crId (dbCalendars db @ inserted))" using ids by (simp only:)
  then have "rediscovery_run url input db inserted existing blocked removed plan"
    unfolding rediscovery_run_def using reads plan active inserted_def by blast
  then show thesis by (rule that) (simp_all add: inserted_def db' apply_updates_eq)
qed

text \<open>C34: Rediscovery converges. Once a plan is carried out, planning again over the changed database with
  the same listing succeeds and asks for nothing: no insertion, revival, unavailability mark, URL change or
  write access change, and it is not suppressed. The ids of the calendar rows are distinct (they are the
  primary key) and each listed calendar carries the key its stored row is read back with, which is how the
  provider listings are built.\<close>

theorem rediscovery_converges:
  assumes res: "applyCalendarRediscoveryPlan url ids txNow input db = (Inr (plan, created), db')"
    and active: "\<not> suppressed plan" and ids: "distinct (map crId (dbCalendars db'))"
    and listing: "list_all (listing_ok url (apCalendarType input)) (apDiscovered input)"
    and account: "apAccountId input \<noteq> []"
  shows "\<exists>plan'. plan_for url input db' = Inr plan' \<and> nothing_to_do plan'"
proof -
  obtain existing blocked removed inserted
    where run: "rediscovery_run url input db inserted existing blocked removed plan"
      and db': "inserted = insertDiscoveredCalendars input ids txNow (toInsert plan)"
        "dbCalendars db' = map (row_after plan (apNow input)) (dbCalendars db @ inserted)"
        "dbAccounts db' = map (\<lambda>a. if acctId a = apAccountId input
          then a\<lparr>calendarsRefreshedAt := Some (apNow input)\<rparr> else a) (dbAccounts db)"
        "dbRemovals db' = dbRemovals db"
    by (rule apply_run [OF res active ids])
  have "readExistingCalendars url input db' = Inr (existing_next ids txNow input plan existing)"
    unfolding existing_next_def by (rule run_existing_after [OF run listing db'(1,2)])
  moreover have "readCrossAccountCalDAVKeys url input db' = Inr blocked"
    by (rule run_blocked_after [OF run account db'(2,3)])
  moreover have "readRemovedKeys url input db' = Inr removed"
    using run db'(4) by (simp add: rediscovery_run_def readRemovedKeys_def)
  ultimately show ?thesis using run_replan [OF run listing] by (simp add: plan_for_def)
qed

lemma inserted_rows:
  assumes "r \<in> set (insertDiscoveredCalendars input ids txNow ds)"
  shows "\<exists>i. \<exists>d \<in> set ds. r = buildInsertRow input (ids i) txNow d"
proof -
  from assms obtain i where "i < length ds" "r = buildInsertRow input (ids i) txNow (ds ! i)"
    by (auto simp: insertDiscoveredCalendars_def in_set_enumerate_eq)
  then show ?thesis by (metis nth_mem)
qed

text \<open>Rediscovery is conservative. Whatever the run's outcome, every stored row is still there in its
  place with its id, its owner, its name and its creation time; the rows of other accounts, users and
  calendar types are untouched; and each new row belongs to the account, comes from the listing, and does not
  stand for a calendar the user removed or one that another account of the user already has.\<close>

theorem rediscovery_is_conservative:
  assumes res: "applyCalendarRediscoveryPlan url ids txNow input db = (res, db')"
    and ids: "distinct (map crId (dbCalendars db'))"
  shows "map (\<lambda>r. (crId r, crAccountId r, crUserId r, crName r, crCreatedAt r))
      (take (length (dbCalendars db)) (dbCalendars db')) =
    map (\<lambda>r. (crId r, crAccountId r, crUserId r, crName r, crCreatedAt r)) (dbCalendars db) \<and>
    (\<forall>r \<in> set (dbCalendars db). \<not> owned_by input r \<longrightarrow> r \<in> set (dbCalendars db')) \<and>
    (\<forall>r \<in> set (drop (length (dbCalendars db)) (dbCalendars db')). \<exists>d \<in> set (apDiscovered input).
      r = buildInsertRow input (crId r) txNow d \<and>
      (\<forall>ks. readRemovedKeys url input db = Inr ks \<longrightarrow> dcIdentityKey d \<notin> set ks) \<and>
      (\<forall>ks. readCrossAccountCalDAVKeys url input db = Inr ks \<longrightarrow> dcIdentityKey d \<notin> set ks))"
proof (cases "\<exists>plan created. res = Inr (plan, created) \<and> \<not> suppressed plan")
  case False
  then have "db' = db"
    using res by (auto simp: applyCalendarRediscoveryPlan_def Let_def split: sum.splits if_splits)
  then show ?thesis by simp
next
  case True
  then obtain plan created where out: "res = Inr (plan, created)" and active: "\<not> suppressed plan" by blast
  obtain existing blocked removed inserted
    where run: "rediscovery_run url input db inserted existing blocked removed plan"
      and ins: "inserted = insertDiscoveredCalendars input ids txNow (toInsert plan)"
      and db': "dbCalendars db' = map (row_after plan (apNow input)) (dbCalendars db @ inserted)"
    by (rule apply_run [OF res [unfolded out] active ids])
  have other: "row_after plan (apNow input) r = r"
    if "r \<in> set (dbCalendars db) \<and> \<not> owned_by input r \<or> r \<in> set inserted" for r
    using that run_other_row [OF run, of r] by auto
  then have new: "drop (length (dbCalendars db)) (dbCalendars db') = inserted"
    by (simp add: db' map_idI)
  have "\<exists>d \<in> set (apDiscovered input). r = buildInsertRow input (crId r) txNow d \<and>
      dcIdentityKey d \<notin> set removed \<and> dcIdentityKey d \<notin> set blocked" if r: "r \<in> set inserted" for r
  proof -
    obtain i d where "d \<in> set (toInsert plan)" "r = buildInsertRow input (ids i) txNow d"
      using inserted_rows r unfolding ins by blast
    then show ?thesis using unique_by_key_props [of "{}" "apDiscovered input"]
      by (intro bexI [of _ d]) (auto simp: run_fields(1) [OF run] buildInsertRow_def)
  qed
  moreover have "readRemovedKeys url input db = Inr removed" "readCrossAccountCalDAVKeys url input db = Inr blocked"
    using run by (simp_all add: rediscovery_run_def)
  moreover have "r \<in> set (dbCalendars db')" if "r \<in> set (dbCalendars db)" "\<not> owned_by input r" for r
    using other [of r] that by (force simp: db')
  moreover have "map (\<lambda>r. (crId r, crAccountId r, crUserId r, crName r, crCreatedAt r))
      (take (length (dbCalendars db)) (dbCalendars db')) =
    map (\<lambda>r. (crId r, crAccountId r, crUserId r, crName r, crCreatedAt r)) (dbCalendars db)"
    by (simp add: db' row_after_def)
  ultimately show ?thesis unfolding new by auto
qed


text \<open>A run of a Google account: one stored calendar is still listed, one was removed by the user, one is
  gone from the listing, one is new.\<close>

definition sample_url :: url_lib where
  "sample_url = \<lparr>url_pathname = Some, url_hostname = Some, url_decode = Some\<rparr>"

definition sample_row :: "string \<Rightarrow> string \<Rightarrow> calendar_row" where
  "sample_row i ext = \<lparr>crId = i, crAccountId = ''acc'', crUserId = ''user'', crCalendarType = OAuthType,
    crCalendarUrl = None, crExternalCalendarId = Some ext, crUnavailableSince = None, crCreatedAt = 5,
    crCapabilities = [''pull''], crName = ext, crOriginalName = None\<rparr>"

definition sample_calendar_db :: calendar_db where
  "sample_calendar_db = \<lparr>dbCalendars = [sample_row ''r1'' ''work'', sample_row ''r2'' ''gone''],
    dbRemovals = [\<lparr>rmId = ''x'', rmAccountId = ''acc'', rmUserId = ''user'', rmCalendarType = OAuthType,
      rmCalendarUrl = None, rmExternalCalendarId = Some ''old''\<rparr>],
    dbAccounts = [\<lparr>acctId = ''acc'', acctAuthType = ''oauth'', acctServerUrl = None,
      calendarsRefreshedAt = None, calendarsRefreshAttemptedAt = None\<rparr>]\<rparr>"

definition sample_apply_input :: CalendarRediscoveryApplyInput where
  "sample_apply_input = \<lparr>apAccountId = ''acc'', apUserId = ''user'', apCalendarType = OAuthType,
    apCaldavServerHost = None, apDiscovered = toDiscoveredGoogleCalendars
      [\<lparr>gcId = ''work'', gcSummary = None, gcAccessRole = ''owner''\<rparr>,
       \<lparr>gcId = ''old'', gcSummary = None, gcAccessRole = ''owner''\<rparr>,
       \<lparr>gcId = ''fresh'', gcSummary = Some ''Fresh'', gcAccessRole = ''reader''\<rparr>], apNow = 100\<rparr>"

definition sample_run :: "(rediscovery_error + CalendarRediscoveryPlan \<times> (string \<times> string) list) \<times> calendar_db" where
  "sample_run = applyCalendarRediscoveryPlan sample_url (\<lambda>i. ''n'' @ replicate i CHR ''x'') 101
    sample_apply_input sample_calendar_db"

lemma sample_run_facts:
  "map crId (dbCalendars (snd sample_run)) = [''r1'', ''r2'', ''n'']"
  "\<exists>plan created. fst sample_run = Inr (plan, created) \<and> \<not> suppressed plan"
  "list_all (listing_ok sample_url (apCalendarType sample_apply_input)) (apDiscovered sample_apply_input)"
  by (simp_all add: sample_run_def applyCalendarRediscoveryPlan_def plan_for_def readExistingCalendars_def
      readRemovedKeys_def readCrossAccountCalDAVKeys_def toExistingCalendars_def toRemovedIdentityKeys_def
      calendar_row_key_def resolveStoredIdentityKey_def to_existing_def sample_calendar_db_def
      sample_apply_input_def sample_row_def owned_by_def planCalendarRediscovery_def indexExistingByKey_def
      index_calendar_def dedupeDiscoveredByKey_def toDiscoveredGoogleCalendars_def matchDiscoveredCalendar_def
      buildUrlRetarget_def buildWriteAccessChange_def insertDiscoveredCalendars_def buildInsertRow_def
      apply_updates_eq row_after_def predatesEnumeration_def isGoogleAccessRoleWritable_def
      listing_ok_def sample_url_def or_else_def)

lemma sample_run_eq:
  "applyCalendarRediscoveryPlan sample_url (\<lambda>i. ''n'' @ replicate i CHR ''x'') 101
    sample_apply_input sample_calendar_db = (fst sample_run, snd sample_run)"
  by (simp add: sample_run_def)

theorem rediscovery_converges_witness:
  "\<exists>plan'. plan_for sample_url sample_apply_input (snd sample_run) = Inr plan' \<and> nothing_to_do plan'"
proof -
  obtain plan created where run: "fst sample_run = Inr (plan, created)" "\<not> suppressed plan"
    using sample_run_facts(2) by blast
  have "distinct (map crId (dbCalendars (snd sample_run)))" by (simp add: sample_run_facts(1))
  moreover have "apAccountId sample_apply_input \<noteq> []" by (simp add: sample_apply_input_def)
  ultimately show ?thesis
    using rediscovery_converges [OF sample_run_eq [unfolded run(1)] run(2)] sample_run_facts(3) by blast
qed

theorem rediscovery_is_conservative_witness:
  "\<exists>d \<in> set (apDiscovered sample_apply_input).
    dbCalendars (snd sample_run) ! 2 = buildInsertRow sample_apply_input ''n'' 101 d \<and> dcIdentityKey d \<noteq> ''old''"
proof -
  obtain a b c where abc: "dbCalendars (snd sample_run) = [a, b, c]" "crId c = ''n''"
    using sample_run_facts(1) by (auto simp: map_eq_Cons_conv)
  have ids: "distinct (map crId (dbCalendars (snd sample_run)))" by (simp add: sample_run_facts(1))
  have "length (dbCalendars sample_calendar_db) = 2" by (simp add: sample_calendar_db_def)
  moreover have "readRemovedKeys sample_url sample_apply_input sample_calendar_db = Inr [''old'']"
    by (simp add: readRemovedKeys_def toRemovedIdentityKeys_def resolveStoredIdentityKey_def
        sample_calendar_db_def sample_apply_input_def)
  ultimately show ?thesis
    using rediscovery_is_conservative [OF sample_run_eq ids] abc by auto
qed

end
