(* ===== verification/Flush_Worker.thy ===== *)
theory Flush_Worker
  imports Complex_Main Prelude Utc_Date
begin

text \<open>
  The flush worker of \<open>packages/calendar/src/core/utils/serial-flush-worker.ts\<close>: a queue in front of
  a bounded number of writers, with a weight budget that callers reserve from before they fetch. The
  code between two awaits is one function of the state; the step relation calls them in any order, so
  callers abort, runs settle and deadlines expire at any moment. The pump's turns are steps of their
  own. Callers, items and reservations have fresh names; a reservation is submitted at most once and
  not after its release, which is how the ingest uses it.
\<close>

section \<open>The state\<close>

datatype worker_error = SerialFlushWorkerClosedError | SerialFlushRunDeadlineError | ReserveRequiresBudget
  | CallerAborted bool | RunFailed

datatype flush_answer = Resolved | RejectedWith worker_error

definition DEFAULT_CAPACITY :: nat where "DEFAULT_CAPACITY = 50"
definition DEFAULT_WRITER_CONCURRENCY :: nat where "DEFAULT_WRITER_CONCURRENCY = 1"
definition EXPRESS_WEIGHT_DIVISOR :: rat where "EXPRESS_WEIGHT_DIVISOR = 64"
definition EXPRESS_HEADROOM_DIVISOR :: rat where "EXPRESS_HEADROOM_DIVISOR = 16"
definition EXPRESS_MAX_OVERTAKES :: nat where "EXPRESS_MAX_OVERTAKES = 16"
definition DEFAULT_RUN_DEADLINE_MS :: int where "DEFAULT_RUN_DEADLINE_MS = 600000"

definition resolveRunDeadlineMs :: "instant option \<Rightarrow> instant \<Rightarrow> int" where
  "resolveRunDeadlineMs deadlineAt now =
    (case deadlineAt of Some d \<Rightarrow> max (d - now) 0 | None \<Rightarrow> DEFAULT_RUN_DEADLINE_MS)"

record SerialFlushWorkerOptions =
  fwBudget :: "rat option"
  fwCapacity :: nat
  fwConcurrency :: nat

text \<open>A queued item: whether it carries a \<open>prepare\<close>, and the reservation its \<open>settle\<close> frees.\<close>

record QueuedItem =
  qiId :: nat
  qiPrepare :: bool
  qiSettle :: "nat option"

record SlotWaiter =
  swItem :: QueuedItem
  swAborted :: bool

record WeightWaiter =
  wwId :: nat
  wwWeight :: rat
  wwAborted :: bool

datatype pump_phase = PumpStopped | PumpLooping | PumpAwaitsFreeSlot

text \<open>
  \<open>held\<close> are the reservations that are granted and not freed, with their weights; \<open>preparing\<close>,
  \<open>writerSlotWaiters\<close> and \<open>running\<close> are the items in flight, by where their lifecycle waits.
\<close>

record flush_worker =
  fwQueue :: "QueuedItem list"
  slotWaiters :: "SlotWaiter list"
  weightWaiters :: "WeightWaiter list"
  idleWaiters :: nat
  writerSlotWaiters :: "QueuedItem list"
  preparing :: "QueuedItem list"
  running :: "QueuedItem list"
  inFlight :: int
  writerSlotsInUse :: int
  outstandingWeight :: rat
  expressOvertakes :: nat
  fwClosed :: bool
  pumping :: pump_phase
  held :: "(nat \<times> rat) list"
  submitted :: "nat set"
  reserveAnswers :: "(nat \<times> flush_answer) list"
  submitAnswers :: "(nat \<times> flush_answer) list"
  closedAnswers :: nat

definition createSerialFlushWorker :: flush_worker where
  "createSerialFlushWorker = \<lparr>fwQueue = [], slotWaiters = [], weightWaiters = [], idleWaiters = 0,
    writerSlotWaiters = [], preparing = [], running = [], inFlight = 0, writerSlotsInUse = 0,
    outstandingWeight = 0, expressOvertakes = 0, fwClosed = False, pumping = PumpStopped,
    held = [], submitted = {}, reserveAnswers = [], submitAnswers = [], closedAnswers = 0\<rparr>"

text \<open>A promise keeps its first answer.\<close>

definition settle_once :: "nat \<Rightarrow> flush_answer \<Rightarrow> (nat \<times> flush_answer) list \<Rightarrow> (nat \<times> flush_answer) list" where
  "settle_once i a answers = (if i \<in> fst ` set answers then answers else answers @ [(i, a)])"

definition answer_submit :: "nat \<Rightarrow> flush_answer \<Rightarrow> flush_worker \<Rightarrow> flush_worker" where
  "answer_submit i a s = s\<lparr>submitAnswers := settle_once i a (submitAnswers s)\<rparr>"

definition answer_reserve :: "nat \<Rightarrow> flush_answer \<Rightarrow> flush_worker \<Rightarrow> flush_worker" where
  "answer_reserve i a s = s\<lparr>reserveAnswers := settle_once i a (reserveAnswers s)\<rparr>"

section \<open>The weight budget\<close>

text \<open>\<open>grantNow\<close>: the reservation is created and its promise resolved.\<close>

definition grantNow :: "nat \<Rightarrow> rat \<Rightarrow> flush_worker \<Rightarrow> flush_worker" where
  "grantNow r w s = answer_reserve r Resolved
    (s\<lparr>outstandingWeight := outstandingWeight s + w, held := held s @ [(r, w)]\<rparr>)"

fun grant_waiters :: "rat \<Rightarrow> WeightWaiter list \<Rightarrow> flush_worker \<Rightarrow> flush_worker" where
  "grant_waiters budget [] s = s\<lparr>weightWaiters := []\<rparr>"
| "grant_waiters budget (h # hs) s =
    (if wwAborted h then grant_waiters budget hs (s\<lparr>expressOvertakes := 0\<rparr>)
     else if outstandingWeight s + wwWeight h > budget then s\<lparr>weightWaiters := h # hs\<rparr>
     else grant_waiters budget hs (grantNow (wwId h) (wwWeight h) (s\<lparr>expressOvertakes := 0\<rparr>)))"

definition grantWeight :: "SerialFlushWorkerOptions \<Rightarrow> flush_worker \<Rightarrow> flush_worker" where
  "grantWeight cfg s = (case fwBudget cfg of None \<Rightarrow> s | Some budget \<Rightarrow> grant_waiters budget (weightWaiters s) s)"

fun grant_overtaken :: "rat \<Rightarrow> WeightWaiter list \<Rightarrow> flush_worker \<Rightarrow> flush_worker" where
  "grant_overtaken cap [] s = s\<lparr>weightWaiters := []\<rparr>"
| "grant_overtaken cap (h # hs) s =
    (if wwAborted h then grant_overtaken cap hs (s\<lparr>expressOvertakes := 0\<rparr>)
     else if outstandingWeight s + wwWeight h > cap then s\<lparr>weightWaiters := h # hs\<rparr>
     else grantNow (wwId h) (wwWeight h) (s\<lparr>weightWaiters := hs, expressOvertakes := 0\<rparr>))"

definition grantOvertakenHead :: "SerialFlushWorkerOptions \<Rightarrow> flush_worker \<Rightarrow> flush_worker" where
  "grantOvertakenHead cfg s = (case fwBudget cfg of None \<Rightarrow> s
    | Some budget \<Rightarrow> grant_overtaken (budget + budget / EXPRESS_HEADROOM_DIVISOR) (weightWaiters s) s)"

definition free_reservation :: "SerialFlushWorkerOptions \<Rightarrow> nat \<Rightarrow> flush_worker \<Rightarrow> flush_worker" where
  "free_reservation cfg r s =
    (case map_of (held s) r of None \<Rightarrow> s
     | Some w \<Rightarrow> grantWeight cfg (s\<lparr>outstandingWeight := outstandingWeight s - w,
         held := filter (\<lambda>(r', _). r' \<noteq> r) (held s)\<rparr>))"

definition release_reservation :: "SerialFlushWorkerOptions \<Rightarrow> nat \<Rightarrow> flush_worker \<Rightarrow> flush_worker" where
  "release_reservation cfg r s = (if r \<in> submitted s then s else free_reservation cfg r s)"

definition fits_express :: "rat \<Rightarrow> rat \<Rightarrow> flush_worker \<Rightarrow> bool" where
  "fits_express budget clamped s \<longleftrightarrow> clamped \<le> budget / EXPRESS_WEIGHT_DIVISOR
    \<and> expressOvertakes s < EXPRESS_MAX_OVERTAKES
    \<and> outstandingWeight s + clamped \<le> budget + budget / EXPRESS_HEADROOM_DIVISOR"

definition reserve :: "SerialFlushWorkerOptions \<Rightarrow> nat \<Rightarrow> rat \<Rightarrow> bool \<Rightarrow> flush_worker \<Rightarrow> flush_worker" where
  "reserve cfg r weight alreadyAborted s =
    (if fwClosed s then answer_reserve r (RejectedWith SerialFlushWorkerClosedError) s
     else (case fwBudget cfg of
         None \<Rightarrow> answer_reserve r (RejectedWith ReserveRequiresBudget) s
       | Some budget \<Rightarrow>
         if alreadyAborted then answer_reserve r (RejectedWith (CallerAborted False)) s
         else (let clamped = min weight budget in
           if weightWaiters s = [] \<and> outstandingWeight s + clamped \<le> budget then grantNow r clamped s
           else if fits_express budget clamped s then
             (let s = (if weightWaiters s \<noteq> [] then s\<lparr>expressOvertakes := expressOvertakes s + 1\<rparr> else s);
                  s = grantNow r clamped s
              in if expressOvertakes s \<ge> EXPRESS_MAX_OVERTAKES then grantOvertakenHead cfg s else s)
           else s\<lparr>weightWaiters := weightWaiters s @ [\<lparr>wwId = r, wwWeight = clamped, wwAborted = False\<rparr>]\<rparr>)))"

text \<open>A parked reservation is aborted: flagged as a park abort, rejected, and reaped.\<close>

definition abort_reserve :: "SerialFlushWorkerOptions \<Rightarrow> nat \<Rightarrow> flush_worker \<Rightarrow> flush_worker" where
  "abort_reserve cfg r s = grantWeight cfg (answer_reserve r (RejectedWith (CallerAborted True))
    (s\<lparr>weightWaiters := map (\<lambda>w. if wwId w = r then w\<lparr>wwAborted := True\<rparr> else w) (weightWaiters s)\<rparr>))"

section \<open>Writer slots and item lifecycles\<close>

definition notifyIfIdle :: "flush_worker \<Rightarrow> flush_worker" where
  "notifyIfIdle s =
    (if pumping s \<noteq> PumpStopped \<or> inFlight s > 0 \<or> fwQueue s \<noteq> [] then s
     else s\<lparr>closedAnswers := closedAnswers s + idleWaiters s, idleWaiters := 0\<rparr>)"

definition pump_start :: "flush_worker \<Rightarrow> flush_worker" where
  "pump_start s = (if pumping s = PumpStopped then s\<lparr>pumping := PumpLooping\<rparr> else s)"

definition enqueue :: "QueuedItem \<Rightarrow> flush_worker \<Rightarrow> flush_worker" where
  "enqueue item s = pump_start (s\<lparr>fwQueue := fwQueue s @ [item]\<rparr>)"

fun grant_slot :: "SlotWaiter list \<Rightarrow> flush_worker \<Rightarrow> flush_worker" where
  "grant_slot [] s = s\<lparr>slotWaiters := []\<rparr>"
| "grant_slot (w # ws) s =
    (if swAborted w then grant_slot ws s else enqueue (swItem w) (s\<lparr>slotWaiters := ws\<rparr>))"

definition grantSlot :: "flush_worker \<Rightarrow> flush_worker" where
  "grantSlot s = grant_slot (slotWaiters s) s"

text \<open>Claiming a slot, or waiting for one to be handed over.\<close>

definition admit :: "SerialFlushWorkerOptions \<Rightarrow> QueuedItem \<Rightarrow> flush_worker \<Rightarrow> flush_worker" where
  "admit cfg item s =
    (if writerSlotsInUse s \<ge> int (fwConcurrency cfg)
     then s\<lparr>writerSlotWaiters := writerSlotWaiters s @ [item]\<rparr>
     else s\<lparr>writerSlotsInUse := writerSlotsInUse s + 1, running := running s @ [item]\<rparr>)"

definition releaseWriterSlot :: "flush_worker \<Rightarrow> flush_worker" where
  "releaseWriterSlot s =
    (case writerSlotWaiters s of
       item # rest \<Rightarrow> s\<lparr>writerSlotWaiters := rest, running := running s @ [item]\<rparr>
     | [] \<Rightarrow> s\<lparr>writerSlotsInUse := writerSlotsInUse s - 1,
         pumping := (if pumping s = PumpAwaitsFreeSlot then PumpLooping else pumping s)\<rparr>)"

definition finish :: "SerialFlushWorkerOptions \<Rightarrow> QueuedItem \<Rightarrow> flush_worker \<Rightarrow> flush_worker" where
  "finish cfg item s =
    (let s = s\<lparr>inFlight := inFlight s - 1\<rparr>;
         s = (case qiSettle item of None \<Rightarrow> s | Some r \<Rightarrow> free_reservation cfg r s)
     in notifyIfIdle s)"

definition startItem :: "SerialFlushWorkerOptions \<Rightarrow> QueuedItem \<Rightarrow> flush_worker \<Rightarrow> flush_worker" where
  "startItem cfg item s =
    (let s = s\<lparr>inFlight := inFlight s + 1\<rparr>
     in if qiPrepare item then s\<lparr>preparing := preparing s @ [item]\<rparr> else admit cfg item s)"

text \<open>How \<open>prepare\<close> ends: with nothing, with the result, or by throwing.\<close>

definition prepared :: "SerialFlushWorkerOptions \<Rightarrow> QueuedItem \<Rightarrow> flush_answer option \<Rightarrow> flush_worker \<Rightarrow> flush_worker" where
  "prepared cfg item outcome s =
    (let s = s\<lparr>preparing := remove1 item (preparing s)\<rparr>
     in case outcome of None \<Rightarrow> admit cfg item s
        | Some a \<Rightarrow> finish cfg item (answer_submit (qiId item) a s))"

definition run_settles :: "SerialFlushWorkerOptions \<Rightarrow> QueuedItem \<Rightarrow> flush_answer \<Rightarrow> flush_worker \<Rightarrow> flush_worker" where
  "run_settles cfg item a s =
    finish cfg item (releaseWriterSlot (answer_submit (qiId item) a (s\<lparr>running := remove1 item (running s)\<rparr>)))"

text \<open>The deadline rejects the caller's promise only.\<close>

definition deadline_expires :: "QueuedItem \<Rightarrow> flush_worker \<Rightarrow> flush_worker" where
  "deadline_expires item s = answer_submit (qiId item) (RejectedWith SerialFlushRunDeadlineError) s"

definition pump_turn :: "SerialFlushWorkerOptions \<Rightarrow> flush_worker \<Rightarrow> flush_worker" where
  "pump_turn cfg s =
    (case fwQueue s of
       [] \<Rightarrow> notifyIfIdle (s\<lparr>pumping := PumpStopped\<rparr>)
     | item # rest \<Rightarrow>
         if writerSlotsInUse s \<ge> int (fwConcurrency cfg) then s\<lparr>pumping := PumpAwaitsFreeSlot\<rparr>
         else startItem cfg item (grantSlot (s\<lparr>fwQueue := rest\<rparr>)))"

section \<open>Submitting and closing\<close>

definition flush_submit :: "SerialFlushWorkerOptions \<Rightarrow> QueuedItem \<Rightarrow> bool \<Rightarrow> flush_worker \<Rightarrow> flush_worker" where
  "flush_submit cfg item alreadyAborted s =
    (if fwClosed s then answer_submit (qiId item) (RejectedWith SerialFlushWorkerClosedError) s
     else if alreadyAborted then answer_submit (qiId item) (RejectedWith (CallerAborted False)) s
     else if length (fwQueue s) < fwCapacity cfg then enqueue item s
     else s\<lparr>slotWaiters := slotWaiters s @ [\<lparr>swItem = item, swAborted = False\<rparr>]\<rparr>)"

definition abort_parked :: "nat \<Rightarrow> flush_worker \<Rightarrow> flush_worker" where
  "abort_parked i s = answer_submit i (RejectedWith (CallerAborted False))
    (s\<lparr>slotWaiters := map (\<lambda>w. if qiId (swItem w) = i then w\<lparr>swAborted := True\<rparr> else w) (slotWaiters s)\<rparr>)"

definition abort_queued :: "QueuedItem \<Rightarrow> flush_worker \<Rightarrow> flush_worker" where
  "abort_queued item s = answer_submit (qiId item) (RejectedWith (CallerAborted False))
    (grantSlot (s\<lparr>fwQueue := remove1 item (fwQueue s)\<rparr>))"

definition reservationSubmit :: "SerialFlushWorkerOptions \<Rightarrow> nat \<Rightarrow> QueuedItem \<Rightarrow> flush_worker \<Rightarrow> flush_worker" where
  "reservationSubmit cfg r item s =
    (let s = s\<lparr>submitted := insert r (submitted s)\<rparr>
     in if fwClosed s
        then answer_submit (qiId item) (RejectedWith SerialFlushWorkerClosedError) (free_reservation cfg r s)
        else enqueue (item\<lparr>qiSettle := Some r\<rparr>) s)"

definition flush_close :: "flush_worker \<Rightarrow> flush_worker" where
  "flush_close s =
    (let s = s\<lparr>fwClosed := True\<rparr>;
         s = fold (\<lambda>w. answer_submit (qiId (swItem w)) (RejectedWith SerialFlushWorkerClosedError))
           (slotWaiters s) s\<lparr>slotWaiters := []\<rparr>;
         s = fold (\<lambda>w. answer_reserve (wwId w) (RejectedWith SerialFlushWorkerClosedError))
           (weightWaiters s) s\<lparr>weightWaiters := []\<rparr>
     in if pumping s = PumpStopped \<and> inFlight s = 0 \<and> fwQueue s = []
        then s\<lparr>closedAnswers := closedAnswers s + 1\<rparr> else s\<lparr>idleWaiters := idleWaiters s + 1\<rparr>)"

record FlushWorkerDepth =
  parkedOnBudget :: nat
  queuedFlushes :: nat
  depthWriterSlots :: int

definition depth :: "flush_worker \<Rightarrow> FlushWorkerDepth" where
  "depth s = \<lparr>parkedOnBudget = length (weightWaiters s), queuedFlushes = length (fwQueue s),
    depthWriterSlots = writerSlotsInUse s\<rparr>"

section \<open>Any order of events\<close>

definition unfinished :: "flush_worker \<Rightarrow> QueuedItem list" where
  "unfinished s = fwQueue s @ preparing s @ writerSlotWaiters s @ running s"

definition flush_ids :: "flush_worker \<Rightarrow> nat set" where
  "flush_ids s = qiId ` set (unfinished s) \<union> (\<lambda>w. qiId (swItem w)) ` set (slotWaiters s) \<union> fst ` set (submitAnswers s)"

definition reserve_ids :: "flush_worker \<Rightarrow> nat set" where
  "reserve_ids s = fst ` set (held s) \<union> wwId ` set (weightWaiters s) \<union> fst ` set (reserveAnswers s)"

inductive flush_step :: "SerialFlushWorkerOptions \<Rightarrow> flush_worker \<Rightarrow> flush_worker \<Rightarrow> bool"
  for cfg :: SerialFlushWorkerOptions where
  fs_reserve: "r \<notin> reserve_ids s \<Longrightarrow> 0 \<le> weight \<Longrightarrow> flush_step cfg s (reserve cfg r weight aborted s)"
| fs_abort_reserve: "w \<in> set (weightWaiters s) \<Longrightarrow> flush_step cfg s (abort_reserve cfg (wwId w) s)"
| fs_release: "flush_step cfg s (release_reservation cfg r s)"
| fs_submit: "qiId item \<notin> flush_ids s \<Longrightarrow> qiSettle item = None \<Longrightarrow> flush_step cfg s (flush_submit cfg item aborted s)"
| fs_abort_parked: "w \<in> set (slotWaiters s) \<Longrightarrow> flush_step cfg s (abort_parked (qiId (swItem w)) s)"
| fs_abort_queued: "item \<in> set (fwQueue s) \<Longrightarrow> qiSettle item = None \<Longrightarrow> flush_step cfg s (abort_queued item s)"
| fs_reserved_submit: "r \<in> fst ` set (held s) \<Longrightarrow> r \<notin> submitted s \<Longrightarrow> qiId item \<notin> flush_ids s \<Longrightarrow>
    flush_step cfg s (reservationSubmit cfg r item s)"
| fs_pump: "pumping s = PumpLooping \<Longrightarrow> flush_step cfg s (pump_turn cfg s)"
| fs_prepared: "item \<in> set (preparing s) \<Longrightarrow> flush_step cfg s (prepared cfg item outcome s)"
| fs_run: "item \<in> set (running s) \<Longrightarrow> flush_step cfg s (run_settles cfg item answer s)"
| fs_deadline: "item \<in> set (preparing s @ writerSlotWaiters s @ running s) \<Longrightarrow>
    flush_step cfg s (deadline_expires item s)"
| fs_close: "flush_step cfg s (flush_close s)"

inductive flush_reach :: "SerialFlushWorkerOptions \<Rightarrow> flush_worker \<Rightarrow> bool" for cfg :: SerialFlushWorkerOptions where
  flush_start: "flush_reach cfg createSerialFlushWorker"
| flush_more: "flush_reach cfg s \<Longrightarrow> flush_step cfg s s' \<Longrightarrow> flush_reach cfg s'"

end
