(* ===== verification/Flush_Worker_Correct.thy ===== *)
theory Flush_Worker_Correct
  imports Flush_Worker
begin

text \<open>
  The flush worker keeps its promises: the weight of every unfinished run stays reserved and the
  reserved weight within the budget and its express headroom, no reservation waits that would fit, and
  the writers never exceed their number.
\<close>

section \<open>Which operation touches what\<close>

lemma answer_frame [simp]:
  "answer_submit i a s = s\<lparr>submitAnswers := settle_once i a (submitAnswers s)\<rparr>"
  "answer_reserve i a s = s\<lparr>reserveAnswers := settle_once i a (reserveAnswers s)\<rparr>"
  by (simp_all add: answer_submit_def answer_reserve_def)

text \<open>The fields of the budget, and those of the writers.\<close>

definition same_budget :: "flush_worker \<Rightarrow> flush_worker \<Rightarrow> bool" where
  "same_budget s s' \<longleftrightarrow> outstandingWeight s' = outstandingWeight s \<and> held s' = held s \<and>
    weightWaiters s' = weightWaiters s \<and> expressOvertakes s' = expressOvertakes s"

definition same_writers :: "flush_worker \<Rightarrow> flush_worker \<Rightarrow> bool" where
  "same_writers s s' \<longleftrightarrow> writerSlotsInUse s' = writerSlotsInUse s \<and> running s' = running s \<and>
    writerSlotWaiters s' = writerSlotWaiters s \<and> preparing s' = preparing s \<and> inFlight s' = inFlight s"

definition same_items :: "flush_worker \<Rightarrow> flush_worker \<Rightarrow> bool" where
  "same_items s s' \<longleftrightarrow> same_writers s s' \<and> fwQueue s' = fwQueue s \<and> slotWaiters s' = slotWaiters s \<and>
    submitted s' = submitted s"

lemmas same_defs = same_budget_def same_items_def same_writers_def

lemma notifyIfIdle_same: "same_budget s (notifyIfIdle s)" "same_items s (notifyIfIdle s)"
  by (simp_all add: same_defs notifyIfIdle_def)

lemma enqueue_frame [simp]:
  "same_budget s (enqueue i s)" "same_writers s (enqueue i s)" "fwQueue (enqueue i s) = fwQueue s @ [i]"
  "slotWaiters (enqueue i s) = slotWaiters s" "submitted (enqueue i s) = submitted s"
  by (simp_all add: same_defs enqueue_def pump_start_def)

lemma grant_slot_frame:
  "same_budget s (grant_slot ws s) \<and> same_writers s (grant_slot ws s) \<and> submitted (grant_slot ws s) = submitted s"
proof (induction ws)
  case (Cons w ws)
  then show ?case
    using enqueue_frame(1,2) [of "s\<lparr>slotWaiters := ws\<rparr>" "swItem w"] by (simp add: same_defs)
qed (simp add: same_defs)

lemma grant_waiters_items: "same_items s (grant_waiters b ws s)"
  by (induction b ws s rule: grant_waiters.induct) (auto simp: same_defs grantNow_def)

lemma grant_overtaken_items: "same_items s (grant_overtaken c ws s)"
  by (induction c ws s rule: grant_overtaken.induct) (auto simp: same_defs grantNow_def)

lemma grantWeight_items: "same_items s (grantWeight cfg s)"
  unfolding grantWeight_def by (cases "fwBudget cfg") (simp_all add: grant_waiters_items, simp add: same_defs)

lemma grantOvertakenHead_items: "same_items s (grantOvertakenHead cfg s)"
  unfolding grantOvertakenHead_def by (cases "fwBudget cfg") (simp_all add: grant_overtaken_items, simp add: same_defs)

lemma free_reservation_items: "same_items s (free_reservation cfg r s)"
  using grantWeight_items [of "s\<lparr>outstandingWeight := outstandingWeight s - w,
      held := filter (\<lambda>(r', _). r' \<noteq> r) (held s)\<rparr>" cfg for w]
  by (auto simp: free_reservation_def same_defs split: option.splits)

section \<open>The budget\<close>

text \<open>
  The account of the budget with the waiters \<open>ws\<close>: the outstanding weight is the sum of the
  reservations, it stays within the headroom, and every weight was clamped.
\<close>

definition account_ok :: "rat \<Rightarrow> WeightWaiter list \<Rightarrow> flush_worker \<Rightarrow> bool" where
  "account_ok b ws s \<longleftrightarrow> outstandingWeight s = sum_list (map snd (held s)) \<and> (\<forall>(r, w) \<in> set (held s). 0 \<le> w) \<and>
    outstandingWeight s \<le> b + b / 16 \<and> (\<forall>w \<in> set ws. 0 \<le> wwWeight w \<and> wwWeight w \<le> b) \<and>
    distinct (map fst (held s) @ map wwId ws) \<and> expressOvertakes s \<le> EXPRESS_MAX_OVERTAKES"

text \<open>The first waiter does not fit; a waiter that gave up weighs nothing.\<close>

definition head_blocked :: "rat \<Rightarrow> WeightWaiter list \<Rightarrow> rat \<Rightarrow> bool" where
  "head_blocked b ws weight = (case ws of [] \<Rightarrow> True
    | h # _ \<Rightarrow> weight + (if wwAborted h then 0 else wwWeight h) > b)"

definition budget_ok :: "rat \<Rightarrow> flush_worker \<Rightarrow> bool" where
  "budget_ok b s \<longleftrightarrow> account_ok b (weightWaiters s) s \<and> head_blocked b (weightWaiters s) (outstandingWeight s)"

lemma budget_ok_same: "same_budget s s' \<Longrightarrow> budget_ok b s' = budget_ok b s"
  by (simp add: same_budget_def budget_ok_def account_ok_def)

lemma account_grant:
  assumes "account_ok b ws s" "0 \<le> w" "outstandingWeight s + w \<le> b + b / 16"
    "r \<notin> fst ` set (held s) \<union> wwId ` set ws" "n \<le> EXPRESS_MAX_OVERTAKES"
  shows "account_ok b ws (grantNow r w (s\<lparr>expressOvertakes := n\<rparr>))"
  using assms by (auto simp: account_ok_def grantNow_def)

lemma account_tail:
  assumes "account_ok b (h # hs) s"
  shows "account_ok b hs (s\<lparr>expressOvertakes := 0\<rparr>)"
    "0 \<le> wwWeight h" "wwWeight h \<le> b" "wwId h \<notin> fst ` set (held s) \<union> wwId ` set hs"
  using assms by (auto simp: account_ok_def)

lemma grant_waiters_ok: "0 \<le> b \<Longrightarrow> account_ok b ws s \<Longrightarrow> budget_ok b (grant_waiters b ws s)"
proof (induction b ws s rule: grant_waiters.induct)
  case (1 b s)
  then show ?case by (simp add: budget_ok_def head_blocked_def account_ok_def)
next
  case (2 b h hs s)
  note tail = account_tail [OF "2.prems"(2)]
  show ?case
  proof (cases "wwAborted h \<or> outstandingWeight s + wwWeight h > b")
    case True
    then show ?thesis using "2.IH"(1) "2.prems" tail(1)
      by (auto simp: budget_ok_def head_blocked_def account_ok_def)
  next
    case False
    have "account_ok b hs (grantNow (wwId h) (wwWeight h) (s\<lparr>expressOvertakes := 0\<rparr>))"
      using account_grant [OF tail(1) tail(2), of "wwId h" 0] False "2.prems"(1) tail(4) by simp
    then show ?thesis using "2.IH"(2) "2.prems"(1) False by simp
  qed
qed

lemma grant_overtaken_ok:
  "0 \<le> b \<Longrightarrow> account_ok b ws s \<Longrightarrow> head_blocked b ws (outstandingWeight s) \<Longrightarrow>
    budget_ok b (grant_overtaken (b + b / 16) ws s)"
proof (induction "b + b / 16" ws s rule: grant_overtaken.induct)
  case (1 s)
  then show ?case by (simp add: budget_ok_def head_blocked_def account_ok_def)
next
  case (2 h hs s)
  note tail = account_tail [OF "2.prems"(2)]
  have above: "head_blocked b hs v" if "b < v" for v
    using tail(1) that by (cases hs) (auto simp: head_blocked_def account_ok_def)
  consider "wwAborted h" | "\<not> wwAborted h" "outstandingWeight s + wwWeight h > b + b / 16"
    | "\<not> (wwAborted h \<or> outstandingWeight s + wwWeight h > b + b / 16)" by blast
  then show ?case
  proof cases
    case 1
    then have "head_blocked b hs (outstandingWeight s)"
      using "2.prems"(3) by (intro above) (simp add: head_blocked_def)
    then show ?thesis using "2.hyps" [OF 1 "2.prems"(1) tail(1)] 1 by simp
  next
    case 2
    then show ?thesis using "2.prems" by (simp add: budget_ok_def account_ok_def)
  next
    case False: 3
    have "account_ok b hs (grantNow (wwId h) (wwWeight h) (s\<lparr>expressOvertakes := 0\<rparr>))"
      using account_grant [OF tail(1) tail(2), of "wwId h" 0] False tail(4) by simp
    moreover have "head_blocked b hs (outstandingWeight s + wwWeight h)"
      using "2.prems"(3) False by (intro above) (simp add: head_blocked_def)
    ultimately show ?thesis using False by (simp add: budget_ok_def account_ok_def grantNow_def)
  qed
qed

lemma sum_list_remove_key:
  "distinct (map fst m) \<Longrightarrow> map_of m k = Some (w :: rat) \<Longrightarrow>
    sum_list (map snd (filter (\<lambda>(k', _). k' \<noteq> k) m)) = sum_list (map snd m) - w"
proof (induction m)
  case (Cons p m)
  obtain k' v where p: "p = (k', v)" by (cases p)
  have "filter (\<lambda>(k', _). k' \<noteq> k) m = m" if "k \<notin> fst ` set m"
    using that by (force simp: filter_id_conv)
  then show ?case using Cons p by (auto split: if_splits)
qed simp

lemma free_reservation_ok:
  assumes "0 \<le> b" "fwBudget cfg = Some b" "budget_ok b s"
  shows "budget_ok b (free_reservation cfg r s)"
proof (cases "map_of (held s) r")
  case (Some w)
  let ?s = "s\<lparr>outstandingWeight := outstandingWeight s - w, held := filter (\<lambda>(r', _). r' \<noteq> r) (held s)\<rparr>"
  have "account_ok b (weightWaiters s) s" using assms(3) by (simp add: budget_ok_def)
  moreover have "0 \<le> w" using calculation map_of_SomeD [OF Some] by (auto simp: account_ok_def)
  ultimately have "account_ok b (weightWaiters s) ?s"
    using sum_list_remove_key [OF _ Some] by (auto simp: account_ok_def distinct_map_filter)
  then show ?thesis using grant_waiters_ok assms(1,2) Some
    by (simp add: free_reservation_def grantWeight_def)
qed (use assms in \<open>simp add: free_reservation_def\<close>)

lemma reserve_ok:
  assumes "0 \<le> b" "fwBudget cfg = Some b" "budget_ok b s" "r \<notin> reserve_ids s" "0 \<le> weight"
  shows "budget_ok b (reserve cfg r weight aborted s)"
proof -
  let ?c = "min weight b"
  have acc: "account_ok b (weightWaiters s) s" and blocked: "head_blocked b (weightWaiters s) (outstandingWeight s)"
    using assms(3) by (simp_all add: budget_ok_def)
  have c: "0 \<le> ?c" "?c \<le> b" using assms by auto
  have fresh: "r \<notin> fst ` set (held s) \<union> wwId ` set (weightWaiters s)"
    using assms(4) by (auto simp: reserve_ids_def)
  have grant: "budget_ok b (grantNow r ?c (s\<lparr>expressOvertakes := n\<rparr>))"
    if "outstandingWeight s + ?c \<le> b + b / 16" "n \<le> EXPRESS_MAX_OVERTAKES" for n
  proof -
    have "head_blocked b (weightWaiters s) (outstandingWeight s + ?c)"
      using blocked c by (auto simp: head_blocked_def split: list.splits)
    then show ?thesis using account_grant [OF acc c(1) that(1) fresh that(2)]
      by (simp add: budget_ok_def grantNow_def)
  qed
  have overtaken: "budget_ok b (grantOvertakenHead cfg s')" if "budget_ok b s'" for s'
    using that grant_overtaken_ok [OF assms(1), of "weightWaiters s'" s'] assms(2)
    by (simp add: grantOvertakenHead_def budget_ok_def EXPRESS_HEADROOM_DIVISOR_def)
  have answer: "budget_ok b (s\<lparr>reserveAnswers := x\<rparr>)" for x
    using assms(3) budget_ok_same [of s "s\<lparr>reserveAnswers := x\<rparr>"] by (simp add: same_budget_def)
  consider "fwClosed s \<or> aborted"
    | "\<not> fwClosed s" "\<not> aborted" "weightWaiters s = []" "outstandingWeight s + ?c \<le> b"
    | "\<not> fwClosed s" "\<not> aborted" "\<not> (weightWaiters s = [] \<and> outstandingWeight s + ?c \<le> b)" "fits_express b ?c s"
    | "\<not> fwClosed s" "\<not> aborted" "\<not> (weightWaiters s = [] \<and> outstandingWeight s + ?c \<le> b)" "\<not> fits_express b ?c s"
    by blast
  then show ?thesis
  proof cases
    case 1
    then show ?thesis using assms(2) answer by (auto simp: reserve_def)
  next
    case 2
    then have "budget_ok b (grantNow r ?c (s\<lparr>expressOvertakes := expressOvertakes s\<rparr>))"
      using assms(1) acc by (intro grant) (auto simp: account_ok_def)
    then show ?thesis using 2 assms(2) by (simp add: reserve_def)
  next
    case 3
    define n where "n = (if weightWaiters s \<noteq> [] then expressOvertakes s + 1 else expressOvertakes s)"
    have "budget_ok b (grantNow r ?c (s\<lparr>expressOvertakes := n\<rparr>))"
      using 3(4) by (intro grant) (auto simp: fits_express_def n_def EXPRESS_HEADROOM_DIVISOR_def)
    moreover have "s\<lparr>expressOvertakes := n\<rparr> =
        (if weightWaiters s \<noteq> [] then s\<lparr>expressOvertakes := expressOvertakes s + 1\<rparr> else s)"
      by (simp add: n_def)
    ultimately show ?thesis using 3 assms(2) overtaken by (auto simp: reserve_def Let_def)
  next
    case 4
    let ?s = "s\<lparr>weightWaiters := weightWaiters s @ [\<lparr>wwId = r, wwWeight = ?c, wwAborted = False\<rparr>]\<rparr>"
    have "account_ok b (weightWaiters ?s) ?s" using acc c fresh by (auto simp: account_ok_def)
    moreover have "head_blocked b (weightWaiters ?s) (outstandingWeight ?s)"
      using blocked 4(3) by (cases "weightWaiters s") (auto simp: head_blocked_def)
    moreover have "reserve cfg r weight aborted s = ?s" using 4 assms(2) by (auto simp: reserve_def Let_def)
    ultimately show ?thesis by (simp only: budget_ok_def)
  qed
qed

lemma abort_reserve_ok:
  assumes "0 \<le> b" "fwBudget cfg = Some b" "budget_ok b s"
  shows "budget_ok b (abort_reserve cfg r s)"
proof -
  let ?ws = "map (\<lambda>w. if wwId w = r then w\<lparr>wwAborted := True\<rparr> else w) (weightWaiters s)"
  have ids: "map wwId ?ws = map wwId (weightWaiters s)" by simp
  have "account_ok b ?ws (s\<lparr>weightWaiters := ?ws, reserveAnswers := x\<rparr>)" for x
    using assms(3) unfolding budget_ok_def account_ok_def ids by auto
  then show ?thesis
    using grant_waiters_ok assms(1,2) by (simp add: abort_reserve_def grantWeight_def)
qed


lemma fold_submit_answers:
  "fold (\<lambda>w. answer_submit (f w) a) ws s = s\<lparr>submitAnswers := fold (\<lambda>w. settle_once (f w) a) ws (submitAnswers s)\<rparr>"
  by (induction ws arbitrary: s) simp_all

lemma fold_reserve_answers:
  "fold (\<lambda>w. answer_reserve (g w) a) vs s = s\<lparr>reserveAnswers := fold (\<lambda>w. settle_once (g w) a) vs (reserveAnswers s)\<rparr>"
  by (induction vs arbitrary: s) simp_all

lemmas fold_answers = fold_submit_answers fold_reserve_answers

lemma flush_close_frame:
  "same_writers s (flush_close s)" "held (flush_close s) = held s" "fwQueue (flush_close s) = fwQueue s"
  "outstandingWeight (flush_close s) = outstandingWeight s" "weightWaiters (flush_close s) = []"
  "expressOvertakes (flush_close s) = expressOvertakes s" "slotWaiters (flush_close s) = []"
  "submitted (flush_close s) = submitted s"
  by (simp_all add: flush_close_def Let_def fold_answers same_defs)

lemma flush_close_ok: "budget_ok b s \<Longrightarrow> budget_ok b (flush_close s)"
  by (simp add: budget_ok_def account_ok_def head_blocked_def flush_close_frame)

section \<open>Items keep their reservations\<close>

definition settle_count :: "QueuedItem list \<Rightarrow> nat \<Rightarrow> nat" where
  "settle_count xs r = length (filter (\<lambda>x. qiSettle x = Some r) xs)"

lemma settle_count_simps [simp]:
  "settle_count [] r = 0" "settle_count (xs @ ys) r = settle_count xs r + settle_count ys r"
  "settle_count (x # xs) r = (if qiSettle x = Some r then 1 else 0) + settle_count xs r"
  by (simp_all add: settle_count_def)

lemma settle_count_remove1:
  "x \<in> set xs \<Longrightarrow> settle_count xs r = (if qiSettle x = Some r then 1 else 0) + settle_count (remove1 x xs) r"
  by (induction xs) auto

definition live_count :: "flush_worker \<Rightarrow> nat \<Rightarrow> nat" where
  "live_count s r = settle_count (unfinished s) r"

lemma live_count_eq:
  "live_count s r = settle_count (fwQueue s) r + settle_count (preparing s) r +
    settle_count (writerSlotWaiters s) r + settle_count (running s) r"
  by (simp add: live_count_def unfinished_def)

definition holds_ok :: "flush_worker \<Rightarrow> bool" where
  "holds_ok s \<longleftrightarrow> (\<forall>r. live_count s r \<le> (if r \<in> fst ` set (held s) \<and> r \<in> submitted s then 1 else 0)) \<and>
    (\<forall>w \<in> set (slotWaiters s). qiSettle (swItem w) = None)"

lemma holds_okI:
  assumes "holds_ok s" "\<And>r. live_count s' r \<le> live_count s r" "fst ` set (held s) \<subseteq> fst ` set (held s')"
    "submitted s \<subseteq> submitted s'" "set (slotWaiters s') \<subseteq> set (slotWaiters s)"
  shows "holds_ok s'"
  unfolding holds_ok_def
proof (intro conjI allI ballI)
  fix r
  have "live_count s' r \<le> live_count s r" by (rule assms(2))
  also have "\<dots> \<le> (if r \<in> fst ` set (held s) \<and> r \<in> submitted s then 1 else 0)"
    using assms(1) by (simp add: holds_ok_def)
  also have "\<dots> \<le> (if r \<in> fst ` set (held s') \<and> r \<in> submitted s' then 1 else 0)"
    using assms(3,4) by auto
  finally show "live_count s' r \<le> (if r \<in> fst ` set (held s') \<and> r \<in> submitted s' then 1 else 0)" .
qed (use assms(1,5) in \<open>auto simp: holds_ok_def\<close>)

lemma grant_slot_count:
  assumes "\<forall>w \<in> set ws. qiSettle (swItem w) = None"
  shows "live_count (grant_slot ws s) r = live_count s r \<and> set (slotWaiters (grant_slot ws s)) \<subseteq> set ws"
  using assms
proof (induction ws)
  case (Cons w ws)
  show ?case
  proof (cases "swAborted w")
    case False
    have "same_writers (s\<lparr>slotWaiters := ws\<rparr>) (enqueue (swItem w) (s\<lparr>slotWaiters := ws\<rparr>))" by simp
    then show ?thesis using False Cons.prems by (simp add: live_count_eq same_defs) blast
  qed (use Cons in auto)
qed (simp add: live_count_eq)

lemma grant_waiters_held: "fst ` set (held s) \<subseteq> fst ` set (held (grant_waiters b ws s))"
  by (induction b ws s rule: grant_waiters.induct) (auto simp: grantNow_def)

lemma grant_overtaken_held: "fst ` set (held s) \<subseteq> fst ` set (held (grant_overtaken c ws s))"
  by (induction c ws s rule: grant_overtaken.induct) (auto simp: grantNow_def)

lemma grantWeight_held: "fst ` set (held s) \<subseteq> fst ` set (held (grantWeight cfg s))"
  using grant_waiters_held by (simp add: grantWeight_def split: option.splits)

lemma free_reservation_held: "fst ` set (held s) - {r} \<subseteq> fst ` set (held (free_reservation cfg r s))"
proof (cases "map_of (held s) r")
  case (Some w)
  have "fst ` set (held s) - {r} \<subseteq> fst ` set (filter (\<lambda>(r', _). r' \<noteq> r) (held s))" by force
  also have "\<dots> \<subseteq> fst ` set (held (free_reservation cfg r s))"
    using grantWeight_held [of "s\<lparr>outstandingWeight := outstandingWeight s - w,
        held := filter (\<lambda>(r', _). r' \<noteq> r) (held s)\<rparr>" cfg] Some by (simp add: free_reservation_def)
  finally show ?thesis .
qed (auto simp: free_reservation_def)

lemma same_items_count: "same_items s s' \<Longrightarrow> live_count s' r = live_count s r"
  by (simp add: same_defs live_count_eq)

text \<open>A reservation that no unfinished item carries may be freed.\<close>

lemma holds_free:
  assumes "holds_ok s" "live_count s r = 0"
  shows "holds_ok (free_reservation cfg r s)"
proof -
  have items: "same_items s (free_reservation cfg r s)" by (rule free_reservation_items)
  have "live_count (free_reservation cfg r s) q \<le>
      (if q \<in> fst ` set (held (free_reservation cfg r s)) \<and> q \<in> submitted s then 1 else 0)" for q
  proof (cases "q = r")
    case True
    then show ?thesis using assms(2) by (simp add: same_items_count [OF items])
  next
    case False
    have "live_count s q \<le> (if q \<in> fst ` set (held s) \<and> q \<in> submitted s then 1 else 0)"
      using assms(1) by (simp add: holds_ok_def)
    then show ?thesis using free_reservation_held [of s r cfg] False
      by (auto simp: same_items_count [OF items] split: if_splits)
  qed
  then show ?thesis using assms(1) items by (simp add: holds_ok_def same_items_def)
qed


lemma holds_same_items:
  assumes "holds_ok s" "same_items s s'" "fst ` set (held s) \<subseteq> fst ` set (held s')"
  shows "holds_ok s'"
  using assms(1)
proof (rule holds_okI)
  show "live_count s' r \<le> live_count s r" for r by (simp add: same_items_count [OF assms(2)])
qed (use assms(2,3) in \<open>simp_all add: same_items_def\<close>)

lemma holds_bound:
  "holds_ok s \<Longrightarrow> live_count s r \<le> (if r \<in> fst ` set (held s) \<and> r \<in> submitted s then 1 else 0)"
  unfolding holds_ok_def by blast

lemma holds_unsubmitted: "holds_ok s \<Longrightarrow> r \<notin> submitted s \<Longrightarrow> live_count s r = 0"
  using holds_bound [of s r] by simp

lemma holds_notify: "holds_ok s \<Longrightarrow> holds_ok (notifyIfIdle s)"
  by (erule holds_same_items [OF _ notifyIfIdle_same(2)])
    (use notifyIfIdle_same(1) [of s] in \<open>simp add: same_budget_def\<close>)

lemma holds_finish:
  assumes "holds_ok s" "\<And>r. qiSettle item = Some r \<Longrightarrow> live_count s r = 0"
  shows "holds_ok (finish cfg item s)"
proof -
  have *: "holds_ok (s\<lparr>inFlight := inFlight s - 1\<rparr>)"
    using assms(1) by (rule holds_okI) (simp_all add: live_count_eq)
  have "live_count (s\<lparr>inFlight := inFlight s - 1\<rparr>) r = live_count s r" for r by (simp add: live_count_eq)
  then show ?thesis using holds_free [OF *] * assms(2) unfolding finish_def Let_def
    by (cases "qiSettle item") (simp_all add: holds_notify)
qed

text \<open>An item leaves: what it settles is in no other unfinished item.\<close>

lemma holds_leave:
  assumes "holds_ok s" "\<And>r. live_count s r = (if qiSettle item = Some r then 1 else 0) + live_count s' r"
    "held s' = held s" "submitted s' = submitted s" "slotWaiters s' = slotWaiters s"
  shows "holds_ok (finish cfg item s')"
proof (rule holds_finish)
  show "holds_ok s'" using assms(1) by (rule holds_okI) (simp_all add: assms)
  fix r assume "qiSettle item = Some r"
  then have "live_count s r = Suc (live_count s' r)" using assms(2) by simp
  moreover have "live_count s r \<le> 1" using assms(1) by (auto simp: holds_ok_def split: if_splits)
  ultimately show "live_count s' r = 0" by simp
qed

lemma admit_count:
  "live_count (admit cfg item s) r = (if qiSettle item = Some r then 1 else 0) + live_count s r"
  "held (admit cfg item s) = held s" "submitted (admit cfg item s) = submitted s"
  "slotWaiters (admit cfg item s) = slotWaiters s"
  by (simp_all add: admit_def live_count_eq)

lemma releaseWriterSlot_count:
  "live_count (releaseWriterSlot s) r = live_count s r" "held (releaseWriterSlot s) = held s"
  "submitted (releaseWriterSlot s) = submitted s" "slotWaiters (releaseWriterSlot s) = slotWaiters s"
  by (simp_all add: releaseWriterSlot_def live_count_eq split: list.splits)

lemma startItem_count:
  "live_count (startItem cfg item s) r = (if qiSettle item = Some r then 1 else 0) + live_count s r"
  "held (startItem cfg item s) = held s" "submitted (startItem cfg item s) = submitted s"
  "slotWaiters (startItem cfg item s) = slotWaiters s"
  by (simp_all add: startItem_def Let_def admit_count) (simp_all add: live_count_eq)

lemma pump_turn_holds:
  assumes "holds_ok s"
  shows "holds_ok (pump_turn cfg s)"
proof (cases "fwQueue s")
  case Nil
  have "holds_ok (s\<lparr>pumping := PumpStopped\<rparr>)" using assms by (rule holds_okI) (simp_all add: live_count_eq)
  then show ?thesis using Nil by (simp add: pump_turn_def holds_notify)
next
  case (Cons item rest)
  let ?s = "s\<lparr>fwQueue := rest\<rparr>"
  have waiters: "\<forall>w \<in> set (slotWaiters s). qiSettle (swItem w) = None" using assms by (simp add: holds_ok_def)
  have frame: "same_budget ?s (grantSlot ?s)" "submitted (grantSlot ?s) = submitted s"
    using grant_slot_frame [of ?s "slotWaiters s"] by (simp_all add: grantSlot_def)
  have slots: "live_count (grantSlot ?s) r = live_count ?s r" "set (slotWaiters (grantSlot ?s)) \<subseteq> set (slotWaiters s)" for r
    using grant_slot_count [OF waiters, of ?s r] by (simp_all add: grantSlot_def)
  have "holds_ok (s\<lparr>pumping := PumpAwaitsFreeSlot\<rparr>)" using assms by (rule holds_okI) (simp_all add: live_count_eq)
  moreover have "holds_ok (startItem cfg item (grantSlot ?s))"
    using assms by (rule holds_okI)
      (use frame slots Cons in \<open>simp_all add: startItem_count same_budget_def, simp add: live_count_eq\<close>)
  ultimately show ?thesis using Cons by (simp add: pump_turn_def)
qed

lemma same_items_trans: "same_items s t \<Longrightarrow> same_items t u \<Longrightarrow> same_items s u"
  by (simp add: same_defs)

lemma reserve_frame:
  "same_items s (reserve cfg r weight aborted s) \<and>
    fst ` set (held s) \<subseteq> fst ` set (held (reserve cfg r weight aborted s))"
proof -
  have grant: "same_items s (grantNow q w (s\<lparr>expressOvertakes := n\<rparr>))"
    "fst ` set (held s) \<subseteq> fst ` set (held (grantNow q w (s\<lparr>expressOvertakes := n\<rparr>)))" for q w n
    by (auto simp: same_defs grantNow_def)
  have over: "same_items s (grantOvertakenHead cfg t)" "fst ` set (held s) \<subseteq> fst ` set (held (grantOvertakenHead cfg t))"
    if "same_items s t" "fst ` set (held s) \<subseteq> fst ` set (held t)" for t
  proof -
    show "same_items s (grantOvertakenHead cfg t)" using that(1) grantOvertakenHead_items by (rule same_items_trans)
    show "fst ` set (held s) \<subseteq> fst ` set (held (grantOvertakenHead cfg t))"
      using that(2) grant_overtaken_held [of t] unfolding grantOvertakenHead_def
      by (cases "fwBudget cfg") (simp_all, blast)
  qed
  note g = grant [of r _ "expressOvertakes s + 1"] grant [of r _ "expressOvertakes s", simplified]
  have "same_items s (s\<lparr>reserveAnswers := x\<rparr>)" "same_items s (s\<lparr>weightWaiters := y\<rparr>)" for x y
    by (simp_all add: same_defs)
  then show ?thesis
    using g over [OF g(1,2)] over [OF g(3,4)]
    by (auto simp: reserve_def Let_def split: option.splits)
qed

lemma abort_reserve_holds: "holds_ok s \<Longrightarrow> holds_ok (abort_reserve cfg r s)"
proof -
  assume "holds_ok s"
  let ?s = "s\<lparr>weightWaiters := map (\<lambda>w. if wwId w = r then w\<lparr>wwAborted := True\<rparr> else w) (weightWaiters s),
    reserveAnswers := settle_once r (RejectedWith (CallerAborted True)) (reserveAnswers s)\<rparr>"
  have "holds_ok ?s" using \<open>holds_ok s\<close> by (rule holds_same_items) (simp_all add: same_defs)
  then have "holds_ok (grantWeight cfg ?s)" by (rule holds_same_items) (rule grantWeight_items, rule grantWeight_held)
  then show ?thesis by (simp add: abort_reserve_def)
qed

lemma abort_queued_holds:
  assumes "holds_ok s" "item \<in> set (fwQueue s)"
  shows "holds_ok (abort_queued item s)"
proof -
  let ?s = "s\<lparr>fwQueue := remove1 item (fwQueue s)\<rparr>"
  have waiters: "\<forall>w \<in> set (slotWaiters s). qiSettle (swItem w) = None" using assms(1) by (simp add: holds_ok_def)
  have "live_count ?s r \<le> live_count s r" for r
    using settle_count_remove1 [OF assms(2), of r] by (simp add: live_count_eq)
  moreover have "live_count (grantSlot ?s) r = live_count ?s r" "set (slotWaiters (grantSlot ?s)) \<subseteq> set (slotWaiters s)" for r
    using grant_slot_count [OF waiters, of ?s r] by (simp_all add: grantSlot_def)
  moreover have "held (grantSlot ?s) = held s" "submitted (grantSlot ?s) = submitted s"
    using grant_slot_frame [of ?s "slotWaiters s"] by (simp_all add: grantSlot_def same_budget_def)
  ultimately have "holds_ok (grantSlot ?s)" using assms(1) by (intro holds_okI [OF assms(1)]) simp_all
  then show ?thesis unfolding abort_queued_def by (rule holds_same_items) (simp_all add: same_defs)
qed

lemma reservationSubmit_holds:
  assumes "holds_ok s" "r \<in> fst ` set (held s)" "r \<notin> submitted s"
  shows "holds_ok (reservationSubmit cfg r item s)"
proof -
  let ?s = "s\<lparr>submitted := insert r (submitted s)\<rparr>"
  have ok: "holds_ok ?s" using assms(1) by (rule holds_okI) (auto simp: live_count_eq)
  have zero: "live_count s r = 0" using holds_unsubmitted assms(1,3) by blast
  have "live_count ?s r = live_count s r" by (simp add: live_count_eq)
  then have "holds_ok (free_reservation cfg r ?s)" using holds_free [OF ok] zero by simp
  then have closed: "holds_ok (answer_submit i a (free_reservation cfg r ?s))" for i a
    by (rule holds_same_items) (simp_all add: same_defs)
  let ?e = "enqueue (item\<lparr>qiSettle := Some r\<rparr>) ?s"
  have e: "same_budget ?s ?e" "same_writers ?s ?e" "fwQueue ?e = fwQueue s @ [item\<lparr>qiSettle := Some r\<rparr>]"
    "submitted ?e = insert r (submitted s)" "slotWaiters ?e = slotWaiters s" by simp_all
  then have "live_count ?e q = live_count s q + (if q = r then 1 else 0)" for q
    by (simp add: live_count_eq same_writers_def)
  then have "live_count ?e q \<le> (if q \<in> fst ` set (held s) \<and> q \<in> insert r (submitted s) then 1 else 0)" for q
    using holds_bound [OF assms(1), of q] assms(2) zero by (cases "q = r") (simp_all split: if_splits)
  then have "holds_ok ?e" using assms(1) e(1,4,5) unfolding holds_ok_def same_budget_def by simp
  then show ?thesis using closed by (simp add: reservationSubmit_def Let_def del: answer_frame)
qed

lemma lifecycle_holds:
  assumes "holds_ok s"
  shows "item \<in> set (preparing s) \<Longrightarrow> holds_ok (prepared cfg item outcome s)"
    and "item \<in> set (running s) \<Longrightarrow> holds_ok (run_settles cfg item answer s)"
proof -
  assume item: "item \<in> set (preparing s)"
  let ?s = "s\<lparr>preparing := remove1 item (preparing s)\<rparr>"
  have count: "live_count s r = (if qiSettle item = Some r then 1 else 0) + live_count ?s r" for r
    using settle_count_remove1 [OF item, of r] by (simp add: live_count_eq)
  have "holds_ok (admit cfg item ?s)"
    using assms by (rule holds_okI) (simp_all add: admit_count count)
  moreover have "holds_ok (finish cfg item (answer_submit i a ?s))" for i a
    using assms by (rule holds_leave) (use count in \<open>simp_all add: live_count_eq\<close>)
  ultimately show "holds_ok (prepared cfg item outcome s)"
    by (auto simp: prepared_def Let_def simp del: answer_frame split: option.splits)
next
  assume item: "item \<in> set (running s)"
  let ?s = "answer_submit (qiId item) answer (s\<lparr>running := remove1 item (running s)\<rparr>)"
  have "live_count s r = (if qiSettle item = Some r then 1 else 0) + live_count ?s r" for r
    using settle_count_remove1 [OF item, of r] by (simp add: live_count_eq)
  then have "holds_ok (finish cfg item (releaseWriterSlot ?s))"
    by (intro holds_leave [OF assms]) (simp_all add: releaseWriterSlot_count)
  then show "holds_ok (run_settles cfg item answer s)" by (simp only: run_settles_def)
qed

lemma flush_submit_holds:
  assumes "holds_ok s" "qiSettle item = None"
  shows "holds_ok (flush_submit cfg item aborted s)"
proof -
  let ?e = "enqueue item s"
  have "same_budget s ?e" "same_writers s ?e" "fwQueue ?e = fwQueue s @ [item]"
    "submitted ?e = submitted s" "slotWaiters ?e = slotWaiters s" by simp_all
  then have "holds_ok ?e" using assms by (simp add: holds_ok_def live_count_eq same_defs)
  moreover have "holds_ok (answer_submit i a s)" for i a using assms(1) by (rule holds_same_items) (simp_all add: same_defs)
  moreover have "holds_ok (s\<lparr>slotWaiters := slotWaiters s @ [\<lparr>swItem = item, swAborted = False\<rparr>]\<rparr>)"
    using assms by (auto simp: holds_ok_def live_count_eq)
  ultimately show ?thesis by (simp add: flush_submit_def del: answer_frame)
qed

lemma holds_step:
  assumes "flush_step cfg s s'" "holds_ok s"
  shows "holds_ok s'"
  using assms(1)
proof cases
  case (fs_reserve r weight aborted)
  then show ?thesis using holds_same_items [OF assms(2)] reserve_frame by blast
next
  case (fs_release r)
  show ?thesis using fs_release holds_unsubmitted [OF assms(2)] holds_free [OF assms(2), of r cfg] assms(2)
    by (auto simp: release_reservation_def)
next
  case (fs_abort_parked w)
  then show ?thesis using assms(2) by (auto simp: abort_parked_def holds_ok_def live_count_eq)
next
  case (fs_deadline item)
  then show ?thesis using assms(2) by (auto simp: deadline_expires_def holds_ok_def live_count_eq)
next
  case fs_close
  then show ?thesis using assms(2) flush_close_frame [of s]
    by (auto simp: holds_ok_def live_count_eq same_writers_def)
qed (use assms(2) in \<open>simp_all add: abort_reserve_holds abort_queued_holds reservationSubmit_holds
    lifecycle_holds flush_submit_holds pump_turn_holds\<close>)


section \<open>Writer slots\<close>

definition writers_ok :: "SerialFlushWorkerOptions \<Rightarrow> flush_worker \<Rightarrow> bool" where
  "writers_ok cfg s \<longleftrightarrow> writerSlotsInUse s = int (length (running s)) \<and> length (running s) \<le> fwConcurrency cfg \<and>
    (writerSlotWaiters s \<noteq> [] \<longrightarrow> length (running s) = fwConcurrency cfg) \<and>
    inFlight s = int (length (preparing s) + length (writerSlotWaiters s) + length (running s))"

lemma writers_same: "same_writers s s' \<Longrightarrow> writers_ok cfg s \<Longrightarrow> writers_ok cfg s'"
  by (simp add: same_writers_def writers_ok_def)

lemma items_writers: "same_items s s' \<Longrightarrow> writers_ok cfg s \<Longrightarrow> writers_ok cfg s'"
  unfolding same_items_def using writers_same by blast

lemma finish_writers:
  assumes "writers_ok cfg (s\<lparr>inFlight := inFlight s - 1\<rparr>)"
  shows "writers_ok cfg (finish cfg item s)"
proof -
  have "writers_ok cfg (notifyIfIdle t)" if "writers_ok cfg t" for t
    using notifyIfIdle_same(2) that by (rule items_writers)
  then show ?thesis using assms items_writers [OF free_reservation_items assms]
    by (simp add: finish_def Let_def split: option.splits)
qed

lemma pump_turn_writers:
  assumes "writers_ok cfg s"
  shows "writers_ok cfg (pump_turn cfg s)"
proof (cases "fwQueue s")
  case Nil
  have "writers_ok cfg (s\<lparr>pumping := PumpStopped\<rparr>)" using assms by (simp add: writers_ok_def)
  then show ?thesis using Nil items_writers [OF notifyIfIdle_same(2)] by (simp add: pump_turn_def)
next
  case (Cons item rest)
  have "same_writers (s\<lparr>fwQueue := rest\<rparr>) (grantSlot (s\<lparr>fwQueue := rest\<rparr>))"
    using grant_slot_frame by (simp add: grantSlot_def)
  then show ?thesis using assms Cons
    by (auto simp: pump_turn_def startItem_def admit_def Let_def writers_ok_def same_writers_def)
qed

lemma lifecycle_writers:
  assumes "writers_ok cfg s"
  shows "item \<in> set (preparing s) \<Longrightarrow> writers_ok cfg (prepared cfg item outcome s)"
    and "item \<in> set (running s) \<Longrightarrow> writers_ok cfg (run_settles cfg item answer s)"
proof -
  assume "item \<in> set (preparing s)"
  then have "length (preparing s) = Suc (length (remove1 item (preparing s)))"
    by (simp add: length_remove1) (metis Suc_pred length_pos_if_in_set)
  moreover from this have "writers_ok cfg (finish cfg item (answer_submit i a (s\<lparr>preparing := remove1 item (preparing s)\<rparr>)))" for i a
    using assms by (intro finish_writers) (simp add: writers_ok_def)
  ultimately show "writers_ok cfg (prepared cfg item outcome s)" unfolding prepared_def Let_def
    by (cases outcome) (use assms in \<open>auto simp: admit_def writers_ok_def\<close>)
next
  assume "item \<in> set (running s)"
  then have "length (running s) = Suc (length (remove1 item (running s)))"
    by (simp add: length_remove1) (metis Suc_pred length_pos_if_in_set)
  then show "writers_ok cfg (run_settles cfg item answer s)"
    using assms unfolding run_settles_def
    by (intro finish_writers) (auto simp: releaseWriterSlot_def writers_ok_def split: list.splits)
qed

lemma writers_step:
  assumes "flush_step cfg s s'" "writers_ok cfg s"
  shows "writers_ok cfg s'"
  using assms(1)
proof cases
  case (fs_reserve r weight aborted)
  then show ?thesis using items_writers [OF _ assms(2)] reserve_frame by blast
next
  case (fs_abort_reserve w)
  have "writers_ok cfg (grantWeight cfg (s\<lparr>weightWaiters := x, reserveAnswers := y\<rparr>))" for x y
    using items_writers [OF grantWeight_items, of cfg "s\<lparr>weightWaiters := x, reserveAnswers := y\<rparr>"] assms(2)
    by (simp add: writers_ok_def)
  then show ?thesis using fs_abort_reserve by (simp add: abort_reserve_def)
next
  case (fs_release r)
  then show ?thesis using items_writers [OF free_reservation_items assms(2)] assms(2)
    by (simp add: release_reservation_def)
next
  case (fs_submit item aborted)
  then show ?thesis using assms(2) writers_same [OF enqueue_frame(2) assms(2)]
    by (auto simp: flush_submit_def) (auto simp: writers_ok_def)
next
  case (fs_abort_queued item)
  then show ?thesis using grant_slot_frame [of "s\<lparr>fwQueue := remove1 item (fwQueue s)\<rparr>"] assms(2)
    by (simp add: abort_queued_def grantSlot_def writers_ok_def same_writers_def)
next
  case (fs_reserved_submit r item)
  let ?s = "s\<lparr>submitted := insert r (submitted s)\<rparr>"
  have "writers_ok cfg ?s" using assms(2) by (simp add: writers_ok_def)
  then show ?thesis using fs_reserved_submit items_writers [OF free_reservation_items, of cfg ?s cfg r]
      writers_same [OF enqueue_frame(2), of cfg ?s]
    by (auto simp: reservationSubmit_def Let_def) (auto simp: writers_ok_def)
next
  case fs_close
  then show ?thesis using writers_same [OF flush_close_frame(1) assms(2)] by simp
qed (use assms(2) in \<open>simp_all add: pump_turn_writers lifecycle_writers, simp_all add: writers_ok_def
    abort_parked_def deadline_expires_def\<close>)


section \<open>The worker as a whole\<close>

lemma frame_budget:
  "same_budget s (admit cfg item s)" "same_budget s (releaseWriterSlot s)" "same_budget s (startItem cfg item s)"
  "same_budget s (grantSlot s)" "same_budget s (answer_submit i a s)"
  using grant_slot_frame [of s "slotWaiters s"]
  by (simp_all add: admit_def releaseWriterSlot_def startItem_def grantSlot_def Let_def same_budget_def split: list.splits)

lemma same_budget_trans: "same_budget s t \<Longrightarrow> same_budget t u \<Longrightarrow> same_budget s u"
  by (simp add: same_budget_def)

lemma pump_turn_budget: "same_budget s (pump_turn cfg s)"
proof (cases "fwQueue s")
  case Nil
  have "same_budget s (s\<lparr>pumping := PumpStopped\<rparr>)" by (simp add: same_budget_def)
  then show ?thesis using Nil same_budget_trans [OF _ notifyIfIdle_same(1)] by (simp add: pump_turn_def)
next
  case (Cons item rest)
  have "same_budget s (s\<lparr>fwQueue := rest\<rparr>)" "same_budget s (s\<lparr>pumping := PumpAwaitsFreeSlot\<rparr>)"
    by (simp_all add: same_budget_def)
  then show ?thesis using Cons same_budget_trans [OF _ frame_budget(4)] same_budget_trans [OF _ frame_budget(3)]
    by (auto simp: pump_turn_def)
qed

lemma budget_keep: "same_budget s s' \<Longrightarrow> budget_ok b s \<Longrightarrow> budget_ok b s'"
  by (simp add: budget_ok_same)

lemma finish_budget:
  assumes "0 \<le> b" "fwBudget cfg = Some b" "budget_ok b s"
  shows "budget_ok b (finish cfg item s)"
proof -
  have *: "budget_ok b (s\<lparr>inFlight := inFlight s - 1\<rparr>)"
    using assms(3) by (rule budget_keep [rotated]) (simp add: same_budget_def)
  have "budget_ok b (notifyIfIdle t)" if "budget_ok b t" for t
    using notifyIfIdle_same(1) that by (rule budget_keep)
  then show ?thesis using * free_reservation_ok [OF assms(1,2) *]
    by (simp add: finish_def Let_def split: option.splits)
qed

lemma budget_step:
  assumes "flush_step cfg s s'" "0 \<le> b" "fwBudget cfg = Some b" "budget_ok b s"
  shows "budget_ok b s'"
  using assms(1)
proof cases
  case (fs_reserve r weight aborted)
  then show ?thesis using reserve_ok assms by simp
next
  case (fs_submit item aborted)
  have "same_budget s (s\<lparr>slotWaiters := x\<rparr>)" for x by (simp add: same_budget_def)
  from budget_keep [OF this assms(4)] show ?thesis
    using fs_submit(1) budget_keep [OF frame_budget(5) assms(4)] budget_keep [OF enqueue_frame(1) assms(4)]
    by (simp add: flush_submit_def del: answer_frame)
next
  case (fs_abort_queued item)
  have "same_budget s (s\<lparr>fwQueue := remove1 item (fwQueue s)\<rparr>)" by (simp add: same_budget_def)
  from budget_keep [OF same_budget_trans [OF same_budget_trans [OF this frame_budget(4)] frame_budget(5)] assms(4)]
  show ?thesis using fs_abort_queued(1) by (simp add: abort_queued_def del: answer_frame)
next
  case (fs_reserved_submit r item)
  let ?s = "s\<lparr>submitted := insert r (submitted s)\<rparr>"
  have *: "budget_ok b ?s" using assms(4) by (rule budget_keep [rotated]) (simp add: same_budget_def)
  then show ?thesis using fs_reserved_submit budget_keep [OF enqueue_frame(1) *]
      budget_keep [OF frame_budget(5) free_reservation_ok [OF assms(2,3) *]]
    by (simp add: reservationSubmit_def Let_def del: answer_frame)
next
  case (fs_prepared item outcome)
  let ?s = "s\<lparr>preparing := remove1 item (preparing s)\<rparr>"
  have *: "budget_ok b ?s" using assms(4) by (rule budget_keep [rotated]) (simp add: same_budget_def)
  then show ?thesis using fs_prepared budget_keep [OF frame_budget(1) *]
      finish_budget [OF assms(2,3) budget_keep [OF frame_budget(5) *]]
    by (simp add: prepared_def Let_def del: answer_frame split: option.splits)
next
  case (fs_run item answer)
  have "same_budget s (s\<lparr>running := remove1 item (running s)\<rparr>)" by (simp add: same_budget_def)
  from budget_keep [OF same_budget_trans [OF same_budget_trans [OF this frame_budget(5)] frame_budget(2)] assms(4)]
  show ?thesis using fs_run(1) finish_budget [OF assms(2,3)] by (simp add: run_settles_def del: answer_frame)
next
  case (fs_pump)
  then show ?thesis using budget_keep [OF pump_turn_budget assms(4)] by simp
next
  case (fs_abort_parked w)
  have "same_budget s (s\<lparr>slotWaiters := x\<rparr>)" for x by (simp add: same_budget_def)
  from budget_keep [OF same_budget_trans [OF this frame_budget(5)] assms(4)] show ?thesis
    using fs_abort_parked(1) by (simp add: abort_parked_def del: answer_frame)
qed (use assms in \<open>simp_all add: abort_reserve_ok flush_close_ok release_reservation_def free_reservation_ok
    deadline_expires_def budget_keep [OF frame_budget(5)] del: answer_frame\<close>)

lemma flush_reach_ok:
  assumes "flush_reach cfg s"
  shows "holds_ok s" "writers_ok cfg s" "fwBudget cfg = Some b \<Longrightarrow> 0 \<le> b \<Longrightarrow> budget_ok b s"
proof -
  have "holds_ok s \<and> writers_ok cfg s \<and> (fwBudget cfg = Some b \<longrightarrow> 0 \<le> b \<longrightarrow> budget_ok b s)"
    using assms
  proof induction
    case flush_start
    then show ?case
      by (simp add: holds_ok_def writers_ok_def live_count_eq createSerialFlushWorker_def budget_ok_def
          account_ok_def head_blocked_def)
  next
    case (flush_more s s')
    then show ?case using holds_step writers_step budget_step by blast
  qed
  then show "holds_ok s" "writers_ok cfg s" "fwBudget cfg = Some b \<Longrightarrow> 0 \<le> b \<Longrightarrow> budget_ok b s" by blast+
qed

text \<open>C22: The flush worker keeps within its memory budget. Whatever the callers, aborts, deadlines and
  runs do, every queued or running item that was submitted under a reservation still holds it, even
  after its deadline rejected the caller, and the weight of all the reservations is at most the budget
  and a sixteenth, the headroom of the express lane.\<close>

theorem flush_budget_is_respected:
  assumes "flush_reach cfg s" "fwBudget cfg = Some budget" "0 \<le> budget"
  shows "sum_list (map snd (held s)) \<le> budget + budget / 16 \<and>
    (\<forall>item \<in> set (unfinished s). \<forall>r. qiSettle item = Some r \<longrightarrow> r \<in> fst ` set (held s))"
proof (intro conjI ballI allI impI)
  show "sum_list (map snd (held s)) \<le> budget + budget / 16"
    using flush_reach_ok(3) [OF assms] by (simp add: budget_ok_def account_ok_def)
next
  fix item r assume "item \<in> set (unfinished s)" "qiSettle item = Some r"
  then have "live_count s r \<noteq> 0" by (auto simp: live_count_def settle_count_def filter_empty_conv)
  then show "r \<in> fst ` set (held s)" using holds_bound [OF flush_reach_ok(1) [OF assms(1)], of r]
    by (simp split: if_splits)
qed

text \<open>No reservation waits for nothing. When callers are parked on the budget, the first of them that
  has not given up does not fit, and some reservation is outstanding, whose release tries the parked
  callers again; at most sixteen later callers have overtaken the first one.\<close>

theorem parked_reservations_do_not_fit:
  assumes "flush_reach cfg s" "fwBudget cfg = Some budget" "0 \<le> budget" "weightWaiters s = h # hs"
  shows "held s \<noteq> [] \<and> (\<not> wwAborted h \<longrightarrow> sum_list (map snd (held s)) + wwWeight h > budget) \<and>
    expressOvertakes s \<le> EXPRESS_MAX_OVERTAKES"
proof -
  have ok: "budget_ok budget s" by (rule flush_reach_ok(3) [OF assms(1-3)])
  then have "sum_list (map snd (held s)) + (if wwAborted h then 0 else wwWeight h) > budget" "wwWeight h \<le> budget"
    using assms(4) by (auto simp: budget_ok_def account_ok_def head_blocked_def)
  moreover from this have "held s \<noteq> []" using assms(3) by (auto split: if_splits)
  ultimately show ?thesis using ok by (auto simp: budget_ok_def account_ok_def)
qed

text \<open>The writers are bounded. At most \<open>writerConcurrency\<close> runs are under way, the counters agree with
  what is in flight, and an item waits for a slot only while every slot is taken.\<close>

theorem writers_are_bounded:
  assumes "flush_reach cfg s"
  shows "length (running s) \<le> fwConcurrency cfg \<and> writerSlotsInUse s = int (length (running s)) \<and>
    (writerSlotWaiters s \<noteq> [] \<longrightarrow> length (running s) = fwConcurrency cfg) \<and>
    inFlight s = int (length (preparing s) + length (writerSlotWaiters s) + length (running s))"
  using flush_reach_ok(2) [OF assms] by (simp add: writers_ok_def)


text \<open>A run of three callers on a budget of 64: the second is parked, the first submits and its item runs.\<close>

definition sample_flush :: SerialFlushWorkerOptions where
  "sample_flush = \<lparr>fwBudget = Some 64, fwCapacity = 50, fwConcurrency = 1\<rparr>"

definition sample_item :: QueuedItem where
  "sample_item = \<lparr>qiId = 7, qiPrepare = False, qiSettle = Some 0\<rparr>"

definition sample_parked :: flush_worker where
  "sample_parked = reserve sample_flush 1 40 False (reserve sample_flush 0 40 False createSerialFlushWorker)"

definition sample_submitted :: flush_worker where
  "sample_submitted = reservationSubmit sample_flush 0 sample_item sample_parked"

definition sample_running :: flush_worker where
  "sample_running = pump_turn sample_flush sample_submitted"

lemmas sample_flush_defs = sample_flush_def sample_item_def sample_parked_def sample_submitted_def
  sample_running_def createSerialFlushWorker_def reserve_def fits_express_def grantNow_def settle_once_def
  EXPRESS_WEIGHT_DIVISOR_def reserve_ids_def flush_ids_def unfinished_def reservationSubmit_def enqueue_def
  pump_start_def pump_turn_def grantSlot_def startItem_def admit_def

lemma sample_flush_facts:
  "weightWaiters sample_parked = [\<lparr>wwId = 1, wwWeight = 40, wwAborted = False\<rparr>]"
  "unfinished sample_submitted = [sample_item]" "pumping sample_submitted = PumpLooping"
  "running sample_running = [sample_item]"
  by (simp_all add: sample_flush_defs)

lemma sample_flush_reach:
  "flush_reach sample_flush sample_parked" "flush_reach sample_flush sample_submitted"
  "flush_reach sample_flush sample_running"
proof -
  let ?one = "reserve sample_flush 0 40 False createSerialFlushWorker"
  have "flush_reach sample_flush ?one"
    by (rule flush_more [OF flush_start fs_reserve]) (simp_all add: reserve_ids_def createSerialFlushWorker_def)
  then show parked: "flush_reach sample_flush sample_parked" unfolding sample_parked_def
    by (rule flush_more [OF _ fs_reserve]) (simp_all add: sample_flush_defs)
  then show submitted: "flush_reach sample_flush sample_submitted" unfolding sample_submitted_def
    by (rule flush_more [OF _ fs_reserved_submit]) (simp_all add: sample_flush_defs)
  then show "flush_reach sample_flush sample_running" unfolding sample_running_def
    by (rule flush_more [OF _ fs_pump]) (rule sample_flush_facts(3))
qed

theorem flush_budget_is_respected_witness:
  "0 \<in> fst ` set (held sample_submitted) \<and> sum_list (map snd (held sample_submitted)) \<le> 68"
  using flush_budget_is_respected [OF sample_flush_reach(2), of 64] sample_flush_facts(2)
  by (simp add: sample_flush_def sample_item_def)

theorem parked_reservations_do_not_fit_witness:
  "held sample_parked \<noteq> [] \<and> sum_list (map snd (held sample_parked)) + 40 > 64"
  using parked_reservations_do_not_fit [OF sample_flush_reach(1) _ _ sample_flush_facts(1), of 64]
  by (simp add: sample_flush_def)

theorem writers_are_bounded_witness:
  "running sample_running = [sample_item] \<and> length (running sample_running) \<le> 1"
  using writers_are_bounded [OF sample_flush_reach(3)] sample_flush_facts(4) by (simp add: sample_flush_def)

end
