(* ===== verification/Sync_Progress.thy ===== *)
theory Sync_Progress
  imports Complex_Main Prelude Utc_Date
begin

text \<open>
  What a user sees of a running sync: \<open>packages/calendar/src/core/sync/aggregate-tracker.ts\<close> adds up
  the progress of the user's calendars, \<open>aggregate-runtime.ts\<close> emits it, and
  \<open>services/worker/src/active-destination-jobs.ts\<close> holds the user in the syncing state while jobs
  are active. Percentages and paces are rationals; the reads of the clock within one call agree; the
  JSON text a payload is compared by is the payload itself.
\<close>

section \<open>The aggregate tracker\<close>

record SyncPace =
  lane :: string
  operationsPerMinute :: rat

datatype progress_status = StatusSyncing | StatusIdle | StatusError

record CalendarOperationProgress =
  cpPace :: "SyncPace option"
  cpProcessed :: int
  cpProcessingStartedAt :: "instant option"
  cpStatus :: progress_status
  cpTotal :: int

text \<open>A lane without pace never ends: \<open>Infinity\<close>.\<close>

datatype js_seconds = Seconds int | InfiniteSeconds

record SyncAggregateSnapshot =
  lastSyncedAt :: "string option option"
  progressPercent :: rat
  syncEventsProcessed :: int
  syncEventsRemaining :: int
  syncEventsTotal :: int
  syncSecondsRemaining :: "js_seconds option"
  syncing :: bool

record SyncAggregateMessage =
  agSnapshot :: SyncAggregateSnapshot
  agSeq :: nat

record SyncProgressUpdate =
  upUserId :: string
  upCalendarId :: string
  upError :: bool
  upProgress :: "(int \<times> int) option"
  upPace :: "SyncPace option"

record DestinationSyncResult =
  drUserId :: string
  drCalendarId :: string
  drBroadcast :: "bool option"
  drCompletedSuccessfully :: "bool option"

definition DEFAULT_PROGRESS_THROTTLE_MS :: int where "DEFAULT_PROGRESS_THROTTLE_MS = 350"

definition remainingOperations :: "CalendarOperationProgress \<Rightarrow> int" where
  "remainingOperations entry = max (cpTotal entry - cpProcessed entry) 0"

definition resolveObservedPace :: "string \<Rightarrow> CalendarOperationProgress \<Rightarrow> instant \<Rightarrow> SyncPace option" where
  "resolveObservedPace calendarId entry now =
    (case cpProcessingStartedAt entry of None \<Rightarrow> None
     | Some started \<Rightarrow> if cpProcessed entry = 0 then None
         else (let elapsedMinutes = rat_of_int (now - started) / 1000 / 60
               in if elapsedMinutes \<le> 0 then None
                  else Some \<lparr>lane = ''calendar:'' @ calendarId,
                    operationsPerMinute = rat_of_int (cpProcessed entry) / elapsedMinutes\<rparr>))"

fun lanes_remaining ::
    "instant \<Rightarrow> (string \<times> CalendarOperationProgress) list \<Rightarrow> (string, int \<times> rat) jsmap \<Rightarrow>
      (string, int \<times> rat) jsmap option" where
  "lanes_remaining now [] byLane = Some byLane"
| "lanes_remaining now ((calendarId, entry) # rest) byLane =
    (let operations = remainingOperations entry in
     if operations = 0 then lanes_remaining now rest byLane
     else (case (case cpPace entry of Some pace \<Rightarrow> Some pace | None \<Rightarrow> resolveObservedPace calendarId entry now) of None \<Rightarrow> None
       | Some pace \<Rightarrow> lanes_remaining now rest
           (AList.update (lane pace)
             ((case map_of byLane (lane pace) of None \<Rightarrow> 0 | Some (ops, _) \<Rightarrow> ops) + operations,
              operationsPerMinute pace) byLane)))"

definition lane_seconds :: "int \<times> rat \<Rightarrow> rat option" where
  "lane_seconds entry = (if snd entry = 0 then None else Some (rat_of_int (fst entry) / snd entry * 60))"

definition estimateSecondsRemaining ::
    "(string, CalendarOperationProgress) jsmap \<Rightarrow> instant \<Rightarrow> js_seconds option" where
  "estimateSecondsRemaining progress now =
    (case lanes_remaining now progress [] of None \<Rightarrow> None
     | Some byLane \<Rightarrow> if byLane = [] then None
         else (let secs = map (\<lambda>(_, e). lane_seconds e) byLane
               in if None \<in> set secs then Some InfiniteSeconds
                  else Some (Seconds \<lceil>Max (set (map the secs))\<rceil>)))"

record SyncAggregateTracker =
  progressThrottleMs :: int
  progressByUser :: "string \<Rightarrow> (string, CalendarOperationProgress) jsmap option"
  lastProgressEmitAtByUser :: "string \<Rightarrow> instant option"
  lastPayloadKeyByUser :: "string \<Rightarrow> SyncAggregateSnapshot option"
  sequenceByUser :: "string \<Rightarrow> nat option"
  highWaterPercentByUser :: "string \<Rightarrow> rat option"
  syncingHeldByUser :: "string set"

definition new_tracker :: "int option \<Rightarrow> SyncAggregateTracker" where
  "new_tracker throttle = \<lparr>progressThrottleMs = or_else throttle DEFAULT_PROGRESS_THROTTLE_MS,
    progressByUser = (\<lambda>_. None), lastProgressEmitAtByUser = (\<lambda>_. None), lastPayloadKeyByUser = (\<lambda>_. None),
    sequenceByUser = (\<lambda>_. None), highWaterPercentByUser = (\<lambda>_. None), syncingHeldByUser = {}\<rparr>"

definition clampProgress :: "int \<Rightarrow> int \<Rightarrow> int" where
  "clampProgress processed all = (if processed < 0 then 0 else if processed > all then all else processed)"

definition calculatePercent :: "int \<Rightarrow> int \<Rightarrow> bool \<Rightarrow> rat" where
  "calculatePercent processed all isSyncing =
    (if all = 0 then (if isSyncing then 0 else 100)
     else rat_of_int processed / rat_of_int all * 100)"

definition mergeProgressEntry ::
    "CalendarOperationProgress option \<Rightarrow> SyncProgressUpdate \<Rightarrow> instant \<Rightarrow> CalendarOperationProgress" where
  "mergeProgressEntry current update now =
    (let (currentProcessed, currentTotal, started) =
           (case current of Some c \<Rightarrow>
              if cpStatus c \<noteq> StatusIdle then (cpProcessed c, cpTotal c, cpProcessingStartedAt c) else (0, 0, None)
            | None \<Rightarrow> (0, 0, None));
         nextTotal = (case upProgress update of Some (_, t) \<Rightarrow> t | None \<Rightarrow> currentTotal);
         nextRaw = (case upProgress update of Some (p, _) \<Rightarrow> p | None \<Rightarrow> currentProcessed)
     in \<lparr>cpPace = upPace update, cpProcessed = clampProgress nextRaw nextTotal,
         cpProcessingStartedAt = (if started = None \<and> upProgress update \<noteq> None then Some now else started),
         cpStatus = (if upError update then StatusError else StatusSyncing), cpTotal = nextTotal\<rparr>)"

definition finalizeEntry :: "CalendarOperationProgress option \<Rightarrow> bool \<Rightarrow> CalendarOperationProgress" where
  "finalizeEntry current completedSuccessfully =
    (let all = (case current of Some c \<Rightarrow> cpTotal c | None \<Rightarrow> 0);
         processed = (case current of Some c \<Rightarrow> cpProcessed c | None \<Rightarrow> 0)
     in \<lparr>cpPace = (case current of Some c \<Rightarrow> cpPace c | None \<Rightarrow> None),
         cpProcessed = (if all > 0 \<and> completedSuccessfully then all else processed),
         cpProcessingStartedAt = (case current of Some c \<Rightarrow> cpProcessingStartedAt c | None \<Rightarrow> None),
         cpStatus = StatusIdle, cpTotal = all\<rparr>)"

definition default_fallback :: SyncAggregateSnapshot where
  "default_fallback = \<lparr>lastSyncedAt = None, progressPercent = 100, syncEventsProcessed = 0,
    syncEventsRemaining = 0, syncEventsTotal = 0, syncSecondsRemaining = None, syncing = False\<rparr>"

definition computeSnapshot ::
    "SyncAggregateTracker \<Rightarrow> string \<Rightarrow> instant \<Rightarrow> SyncAggregateSnapshot option \<Rightarrow> string option option \<Rightarrow>
      SyncAggregateSnapshot" where
  "computeSnapshot t userId now fallback synced =
    (let progress = or_else (progressByUser t userId) [];
         isHeld = userId \<in> syncingHeldByUser t
     in if progress = [] then
          (let f = or_else fallback default_fallback
           in (if isHeld then f\<lparr>progressPercent := 0\<rparr> else f)\<lparr>syncing := isHeld\<rparr>)
        else
          (let entries = map snd progress;
               processed = sum_list (map cpProcessed entries);
               all = sum_list (map cpTotal entries);
               isSyncing = (list_ex (\<lambda>e. cpStatus e = StatusSyncing) entries \<or> isHeld);
               percent = calculatePercent processed all isSyncing;
               highWater = or_else (highWaterPercentByUser t userId) 0
           in \<lparr>lastSyncedAt = synced,
               progressPercent = (if isSyncing \<and> percent < highWater then highWater else percent),
               syncEventsProcessed = processed, syncEventsRemaining = max (all - processed) 0,
               syncEventsTotal = all, syncSecondsRemaining = estimateSecondsRemaining progress now,
               syncing = isSyncing\<rparr>))"

definition getCurrentSequence :: "SyncAggregateTracker \<Rightarrow> string \<Rightarrow> nat" where
  "getCurrentSequence t userId = or_else (sequenceByUser t userId) 0"

definition nextSequence :: "SyncAggregateTracker \<Rightarrow> string \<Rightarrow> nat \<times> SyncAggregateTracker" where
  "nextSequence t userId = (let n = getCurrentSequence t userId + 1
    in (n, t\<lparr>sequenceByUser := (sequenceByUser t)(userId \<mapsto> n)\<rparr>))"

definition maybeEmit ::
    "SyncAggregateTracker \<Rightarrow> string \<Rightarrow> SyncAggregateSnapshot \<Rightarrow> instant \<Rightarrow> bool \<Rightarrow>
      SyncAggregateMessage option \<times> SyncAggregateTracker" where
  "maybeEmit t userId payload now throttleProgress =
    (if lastPayloadKeyByUser t userId = Some payload then (None, t)
     else if throttleProgress \<and> now - or_else (lastProgressEmitAtByUser t userId) 0 < progressThrottleMs t then (None, t)
     else
       (let t = (if throttleProgress
                 then t\<lparr>lastProgressEmitAtByUser := (lastProgressEmitAtByUser t)(userId \<mapsto> now)\<rparr> else t);
            t = t\<lparr>lastPayloadKeyByUser := (lastPayloadKeyByUser t)(userId \<mapsto> payload),
              highWaterPercentByUser := (highWaterPercentByUser t)(userId :=
                (if syncing payload then Some (progressPercent payload) else None))\<rparr>;
            (n, t) = nextSequence t userId
        in (Some \<lparr>agSnapshot = payload, agSeq = n\<rparr>, t)))"

definition set_entry ::
    "string \<Rightarrow> string \<Rightarrow> CalendarOperationProgress \<Rightarrow> SyncAggregateTracker \<Rightarrow> SyncAggregateTracker" where
  "set_entry userId calendarId entry t = t\<lparr>progressByUser := (progressByUser t)(userId \<mapsto>
    AList.update calendarId entry (or_else (progressByUser t userId) []))\<rparr>"

definition get_entry :: "SyncAggregateTracker \<Rightarrow> string \<Rightarrow> string \<Rightarrow> CalendarOperationProgress option" where
  "get_entry t userId calendarId = map_of (or_else (progressByUser t userId) []) calendarId"

definition trackProgress ::
    "SyncProgressUpdate \<Rightarrow> instant \<Rightarrow> SyncAggregateTracker \<Rightarrow> SyncAggregateMessage option \<times> SyncAggregateTracker" where
  "trackProgress update now t =
    (let t = set_entry (upUserId update) (upCalendarId update)
           (mergeProgressEntry (get_entry t (upUserId update) (upCalendarId update)) update now) t
     in maybeEmit t (upUserId update) (computeSnapshot t (upUserId update) now None None) now (\<not> upError update))"

definition trackDestinationSync ::
    "DestinationSyncResult \<Rightarrow> string option \<Rightarrow> instant \<Rightarrow> SyncAggregateTracker \<Rightarrow>
      SyncAggregateMessage option \<times> SyncAggregateTracker" where
  "trackDestinationSync result synced now t =
    (let t = set_entry (drUserId result) (drCalendarId result)
           (finalizeEntry (get_entry t (drUserId result) (drCalendarId result))
             (drCompletedSuccessfully result \<noteq> Some False)) t
     in maybeEmit t (drUserId result) (computeSnapshot t (drUserId result) now None
          (if str_truthy synced then Some synced else None)) now False)"

definition holdSyncing :: "string \<Rightarrow> SyncAggregateTracker \<Rightarrow> SyncAggregateTracker" where
  "holdSyncing userId t = t\<lparr>syncingHeldByUser := insert userId (syncingHeldByUser t)\<rparr>"

definition resetUser :: "string \<Rightarrow> SyncAggregateTracker \<Rightarrow> SyncAggregateTracker" where
  "resetUser userId t = t\<lparr>progressByUser := (progressByUser t)(userId := None),
    highWaterPercentByUser := (highWaterPercentByUser t)(userId := None),
    lastPayloadKeyByUser := (lastPayloadKeyByUser t)(userId := None),
    lastProgressEmitAtByUser := (lastProgressEmitAtByUser t)(userId := None)\<rparr>"

definition tracker_releaseSyncing :: "string \<Rightarrow> SyncAggregateTracker \<Rightarrow> SyncAggregateTracker" where
  "tracker_releaseSyncing userId t = t\<lparr>syncingHeldByUser := syncingHeldByUser t - {userId}\<rparr>"

definition getCurrentAggregate ::
    "string \<Rightarrow> SyncAggregateSnapshot option \<Rightarrow> instant \<Rightarrow> SyncAggregateTracker \<Rightarrow> SyncAggregateMessage" where
  "getCurrentAggregate userId fallback now t =
    \<lparr>agSnapshot = computeSnapshot t userId now fallback None, agSeq = getCurrentSequence t userId\<rparr>"

section \<open>The runtime\<close>

definition STALE_SYNCING_THRESHOLD_MS :: int where "STALE_SYNCING_THRESHOLD_MS = 10 * 60000"

text \<open>The script keeps the newest message; its sequence numbers come from \<open>INCR\<close>.\<close>

definition SET_LATEST_IF_NEWER_LUA ::
    "SyncAggregateMessage \<Rightarrow> SyncAggregateMessage option \<Rightarrow> int \<times> SyncAggregateMessage option" where
  "SET_LATEST_IF_NEWER_LUA payload current =
    (case current of Some c \<Rightarrow> if agSeq c \<ge> agSeq payload then (0, current) else (1, Some payload)
     | None \<Rightarrow> (1, Some payload))"

definition isStaleSyncingAggregate :: "SyncAggregateMessage \<Rightarrow> instant option \<Rightarrow> instant \<Rightarrow> bool" where
  "isStaleSyncingAggregate aggregate emittedAt now =
    (if \<not> syncing (agSnapshot aggregate) then False
     else (case emittedAt of None \<Rightarrow> True | Some e \<Rightarrow> now - e > STALE_SYNCING_THRESHOLD_MS))"

definition beginSyncRun :: "string \<Rightarrow> SyncAggregateTracker \<Rightarrow> SyncAggregateTracker" where
  "beginSyncRun userId t = holdSyncing userId (resetUser userId t)"

definition runtime_releaseSyncing ::
    "string \<Rightarrow> instant \<Rightarrow> SyncAggregateTracker \<Rightarrow> SyncAggregateMessage \<times> SyncAggregateTracker" where
  "runtime_releaseSyncing userId now t =
    (let t = tracker_releaseSyncing userId t in (getCurrentAggregate userId None now t, t))"

text \<open>\<open>persisted\<close>: when \<open>persistSyncStatus\<close> succeeded, the time it stored.\<close>

definition onDestinationSync ::
    "DestinationSyncResult \<Rightarrow> string option \<Rightarrow> instant \<Rightarrow> SyncAggregateTracker \<Rightarrow>
      SyncAggregateMessage option \<times> SyncAggregateTracker" where
  "onDestinationSync result persisted now t =
    (if drBroadcast result = Some False then (None, t)
     else trackDestinationSync result
       (if drCompletedSuccessfully result \<noteq> Some False then persisted else None) now t)"

section \<open>Active destination jobs\<close>

record ActiveDestinationJob =
  ajCalendarId :: string
  ajId :: string
  ajUserId :: string

record destination_jobs =
  activeJobsByCalendar :: "string \<Rightarrow> ActiveDestinationJob option"
  activeDestinationCountsByUser :: "string \<Rightarrow> int option"
  releaseTimersByUser :: "string list"
  stalledTimersByCalendar :: "string \<Rightarrow> ActiveDestinationJob option"

definition createActiveDestinationJobs :: destination_jobs where
  "createActiveDestinationJobs = \<lparr>activeJobsByCalendar = (\<lambda>_. None), activeDestinationCountsByUser = (\<lambda>_. None),
    releaseTimersByUser = [], stalledTimersByCalendar = (\<lambda>_. None)\<rparr>"

record progress_world =
  pwTracker :: SyncAggregateTracker
  pwJobs :: destination_jobs

definition active_count :: "destination_jobs \<Rightarrow> string \<Rightarrow> int" where
  "active_count jobs userId = or_else (activeDestinationCountsByUser jobs userId) 0"

definition clearStalledWatchdog :: "string \<Rightarrow> destination_jobs \<Rightarrow> destination_jobs" where
  "clearStalledWatchdog calendarId jobs =
    jobs\<lparr>stalledTimersByCalendar := (stalledTimersByCalendar jobs)(calendarId := None)\<rparr>"

definition armStalledWatchdog :: "ActiveDestinationJob \<Rightarrow> destination_jobs \<Rightarrow> destination_jobs" where
  "armStalledWatchdog job jobs = (let jobs = clearStalledWatchdog (ajCalendarId job) jobs
    in jobs\<lparr>stalledTimersByCalendar := (stalledTimersByCalendar jobs)(ajCalendarId job \<mapsto> job)\<rparr>)"

definition onSettled :: "ActiveDestinationJob \<Rightarrow> destination_jobs \<Rightarrow> destination_jobs" where
  "onSettled job jobs =
    (if map_option ajId (activeJobsByCalendar jobs (ajCalendarId job)) \<noteq> Some (ajId job) then jobs
     else
       (let jobs = clearStalledWatchdog (ajCalendarId job) jobs;
            jobs = jobs\<lparr>activeJobsByCalendar := (activeJobsByCalendar jobs)(ajCalendarId job := None)\<rparr>;
            remaining = max (active_count jobs (ajUserId job) - 1) 0
        in if remaining > 0
           then jobs\<lparr>activeDestinationCountsByUser :=
             (activeDestinationCountsByUser jobs)(ajUserId job \<mapsto> remaining)\<rparr>
           else jobs\<lparr>activeDestinationCountsByUser := (activeDestinationCountsByUser jobs)(ajUserId job := None),
             releaseTimersByUser := List.insert (ajUserId job) (releaseTimersByUser jobs)\<rparr>))"

text \<open>The callback of the release timer.\<close>

definition release_fires :: "string \<Rightarrow> instant \<Rightarrow> progress_world \<Rightarrow> progress_world" where
  "release_fires userId now w =
    (let jobs = (pwJobs w)\<lparr>releaseTimersByUser := removeAll userId (releaseTimersByUser (pwJobs w))\<rparr>
     in \<lparr>pwTracker = (if active_count jobs userId = 0
           then snd (runtime_releaseSyncing userId now (pwTracker w)) else pwTracker w), pwJobs = jobs\<rparr>)"

definition watchdog_fires :: "ActiveDestinationJob \<Rightarrow> destination_jobs \<Rightarrow> destination_jobs" where
  "watchdog_fires job jobs = onSettled job
    (jobs\<lparr>stalledTimersByCalendar := (stalledTimersByCalendar jobs)(ajCalendarId job := None)\<rparr>)"

definition onActive :: "ActiveDestinationJob \<Rightarrow> progress_world \<Rightarrow> progress_world" where
  "onActive job w =
    (let aggregateWasHeld = (ajUserId job \<in> set (releaseTimersByUser (pwJobs w)));
         jobs = (pwJobs w)\<lparr>releaseTimersByUser := removeAll (ajUserId job) (releaseTimersByUser (pwJobs w))\<rparr>
     in case activeJobsByCalendar jobs (ajCalendarId job) of
          Some previous \<Rightarrow>
            if ajId previous = ajId job then w\<lparr>pwJobs := jobs\<rparr>
            else w\<lparr>pwJobs := armStalledWatchdog job
              (jobs\<lparr>activeJobsByCalendar := (activeJobsByCalendar jobs)(ajCalendarId job \<mapsto> job)\<rparr>)\<rparr>
        | None \<Rightarrow>
            (let activeCount = active_count jobs (ajUserId job);
                 t = (if activeCount = 0 \<and> \<not> aggregateWasHeld
                      then beginSyncRun (ajUserId job) (pwTracker w) else pwTracker w)
             in \<lparr>pwTracker = t, pwJobs = armStalledWatchdog job (jobs\<lparr>
                   activeDestinationCountsByUser :=
                     (activeDestinationCountsByUser jobs)(ajUserId job \<mapsto> activeCount + 1),
                   activeJobsByCalendar := (activeJobsByCalendar jobs)(ajCalendarId job \<mapsto> job)\<rparr>)\<rparr>))"

text \<open>Shutdown: the pending releases happen now.\<close>

definition jobs_close :: "instant \<Rightarrow> progress_world \<Rightarrow> progress_world" where
  "jobs_close now w = \<lparr>pwTracker =
       fold (\<lambda>userId t. snd (runtime_releaseSyncing userId now t)) (releaseTimersByUser (pwJobs w)) (pwTracker w),
     pwJobs = (pwJobs w)\<lparr>stalledTimersByCalendar := (\<lambda>_. None), releaseTimersByUser := []\<rparr>\<rparr>"

section \<open>Any order of events\<close>

text \<open>
  Jobs come and go in any order; a calendar belongs to one user; the totals a sync reports are not
  negative. \<open>lwLog\<close> keeps what the tracker emitted for each user (the aggregate a release sends as it
  stands is not among it), and where a new run began.
\<close>

datatype progress_entry = RunBegins | Emitted SyncAggregateMessage

record logged_world =
  lwWorld :: progress_world
  lwLog :: "string \<Rightarrow> progress_entry list"

definition log_emit :: "string \<Rightarrow> SyncAggregateMessage option \<times> SyncAggregateTracker \<Rightarrow> logged_world \<Rightarrow> logged_world" where
  "log_emit userId res w = \<lparr>lwWorld = (lwWorld w)\<lparr>pwTracker := snd res\<rparr>,
    lwLog = (case fst res of None \<Rightarrow> lwLog w
      | Some m \<Rightarrow> (lwLog w)(userId := lwLog w userId @ [Emitted m]))\<rparr>"

definition begins_run :: "ActiveDestinationJob \<Rightarrow> progress_world \<Rightarrow> bool" where
  "begins_run job w \<longleftrightarrow> activeJobsByCalendar (pwJobs w) (ajCalendarId job) = None \<and>
    active_count (pwJobs w) (ajUserId job) = 0 \<and> ajUserId job \<notin> set (releaseTimersByUser (pwJobs w))"

inductive progress_step :: "(string \<Rightarrow> string) \<Rightarrow> logged_world \<Rightarrow> logged_world \<Rightarrow> bool"
  for owner :: "string \<Rightarrow> string" where
  ps_active: "ajUserId job = owner (ajCalendarId job) \<Longrightarrow>
    progress_step owner w \<lparr>lwWorld = onActive job (lwWorld w), lwLog =
      (if begins_run job (lwWorld w) then (lwLog w)(ajUserId job := lwLog w (ajUserId job) @ [RunBegins]) else lwLog w)\<rparr>"
| ps_settled: "ajUserId job = owner (ajCalendarId job) \<Longrightarrow>
    progress_step owner w (w\<lparr>lwWorld := (lwWorld w)\<lparr>pwJobs := onSettled job (pwJobs (lwWorld w))\<rparr>\<rparr>)"
| ps_watchdog: "stalledTimersByCalendar (pwJobs (lwWorld w)) c = Some job \<Longrightarrow>
    progress_step owner w (w\<lparr>lwWorld := (lwWorld w)\<lparr>pwJobs := watchdog_fires job (pwJobs (lwWorld w))\<rparr>\<rparr>)"
| ps_release: "userId \<in> set (releaseTimersByUser (pwJobs (lwWorld w))) \<Longrightarrow>
    progress_step owner w (w\<lparr>lwWorld := release_fires userId now (lwWorld w)\<rparr>)"
| ps_progress: "(\<And>p n. upProgress update = Some (p, n) \<Longrightarrow> 0 \<le> n) \<Longrightarrow>
    progress_step owner w (log_emit (upUserId update) (trackProgress update now (pwTracker (lwWorld w))) w)"
| ps_synced: "progress_step owner w
    (log_emit (drUserId result) (onDestinationSync result persisted now (pwTracker (lwWorld w))) w)"
| ps_close: "progress_step owner w (w\<lparr>lwWorld := jobs_close now (lwWorld w)\<rparr>)"

definition initial_progress :: "int option \<Rightarrow> logged_world" where
  "initial_progress throttle = \<lparr>lwWorld = \<lparr>pwTracker = new_tracker throttle, pwJobs = createActiveDestinationJobs\<rparr>,
    lwLog = (\<lambda>_. [])\<rparr>"

inductive progress_reach :: "(string \<Rightarrow> string) \<Rightarrow> logged_world \<Rightarrow> bool" for owner :: "string \<Rightarrow> string" where
  progress_start: "progress_reach owner (initial_progress throttle)"
| progress_more: "progress_reach owner w \<Longrightarrow> progress_step owner w w' \<Longrightarrow> progress_reach owner w'"

end
