(* ===== verification/Sync_Progress_Correct.thy ===== *)
theory Sync_Progress_Correct
  imports Sync_Progress
begin

text \<open>
  A user is shown as syncing exactly while one of their jobs is active or its release is pending, and
  what is emitted in between never goes back.
\<close>

section \<open>Jobs and the syncing hold\<close>

definition active_calendars :: "(string \<Rightarrow> string) \<Rightarrow> destination_jobs \<Rightarrow> string \<Rightarrow> string set" where
  "active_calendars owner jobs u = {c. activeJobsByCalendar jobs c \<noteq> None \<and> owner c = u}"

definition jobs_ok :: "(string \<Rightarrow> string) \<Rightarrow> destination_jobs \<Rightarrow> string set \<Rightarrow> bool" where
  "jobs_ok owner jobs helds \<longleftrightarrow>
    (\<forall>c j. activeJobsByCalendar jobs c = Some j \<longrightarrow> ajCalendarId j = c \<and> ajUserId j = owner c) \<and>
    (\<forall>c j. stalledTimersByCalendar jobs c = Some j \<longrightarrow> ajCalendarId j = c \<and> ajUserId j = owner c) \<and>
    (\<forall>u. finite (active_calendars owner jobs u) \<and> active_count jobs u = int (card (active_calendars owner jobs u))) \<and>
    (\<forall>u \<in> set (releaseTimersByUser jobs). active_count jobs u = 0) \<and>
    (\<forall>u. u \<in> helds \<longleftrightarrow> active_count jobs u > 0 \<or> u \<in> set (releaseTimersByUser jobs))"

lemma jobs_okD:
  assumes "jobs_ok owner jobs helds"
  shows "activeJobsByCalendar jobs c = Some j \<Longrightarrow> ajCalendarId j = c \<and> ajUserId j = owner c"
    "stalledTimersByCalendar jobs c = Some j \<Longrightarrow> ajCalendarId j = c \<and> ajUserId j = owner c"
    "finite (active_calendars owner jobs u)" "active_count jobs u = int (card (active_calendars owner jobs u))"
    "u \<in> set (releaseTimersByUser jobs) \<Longrightarrow> active_count jobs u = 0"
    "u \<in> helds \<longleftrightarrow> active_count jobs u > 0 \<or> u \<in> set (releaseTimersByUser jobs)"
  using assms unfolding jobs_ok_def by blast+

lemma jobs_okI:
  assumes "\<And>c j. activeJobsByCalendar jobs c = Some j \<Longrightarrow> ajCalendarId j = c \<and> ajUserId j = owner c"
    "\<And>c j. stalledTimersByCalendar jobs c = Some j \<Longrightarrow> ajCalendarId j = c \<and> ajUserId j = owner c"
    "\<And>u. finite (active_calendars owner jobs u)"
    "\<And>u. active_count jobs u = int (card (active_calendars owner jobs u))"
    "\<And>u. u \<in> set (releaseTimersByUser jobs) \<Longrightarrow> active_count jobs u = 0"
    "\<And>u. u \<in> helds \<longleftrightarrow> active_count jobs u > 0 \<or> u \<in> set (releaseTimersByUser jobs)"
  shows "jobs_ok owner jobs helds"
  unfolding jobs_ok_def using assms by blast

text \<open>Only the timers change.\<close>

lemma jobs_ok_timers:
  assumes ok: "jobs_ok owner jobs helds" and same: "activeJobsByCalendar jobs' = activeJobsByCalendar jobs"
      "activeDestinationCountsByUser jobs' = activeDestinationCountsByUser jobs"
    and stalled: "\<And>c j. stalledTimersByCalendar jobs' c = Some j \<Longrightarrow> ajCalendarId j = c \<and> ajUserId j = owner c"
    and released: "set (releaseTimersByUser jobs') = set (releaseTimersByUser jobs) - us" "helds' = helds - us"
      "\<And>u. u \<in> us \<Longrightarrow> active_count jobs u = 0"
  shows "jobs_ok owner jobs' helds'"
proof (rule jobs_okI)
  have eq: "active_calendars owner jobs' u = active_calendars owner jobs u" "active_count jobs' u = active_count jobs u" for u
    by (simp_all add: active_calendars_def active_count_def same)
  fix u
  show "finite (active_calendars owner jobs' u)" using jobs_okD(3) [OF ok] by (simp add: eq)
  show "active_count jobs' u = int (card (active_calendars owner jobs' u))" using jobs_okD(4) [OF ok] by (simp add: eq)
  show "active_count jobs' u = 0" if "u \<in> set (releaseTimersByUser jobs')"
    using jobs_okD(5) [OF ok, of u] that by (simp add: eq released)
  show "u \<in> helds' \<longleftrightarrow> active_count jobs' u > 0 \<or> u \<in> set (releaseTimersByUser jobs')"
    using jobs_okD(6) [OF ok, of u] released(3) [of u] by (auto simp: eq released(1,2))
qed (use jobs_okD(1) [OF ok] stalled in \<open>auto simp: same\<close>)

lemma active_positive:
  assumes "jobs_ok owner jobs helds" "activeJobsByCalendar jobs c = Some j"
  shows "active_count jobs (owner c) > 0"
proof -
  have "c \<in> active_calendars owner jobs (owner c)" using assms(2) by (simp add: active_calendars_def)
  then have "card (active_calendars owner jobs (owner c)) > 0"
    using jobs_okD(3) [OF assms(1), of "owner c"] card_gt_0_iff by blast
  then show ?thesis by (simp add: jobs_okD(4) [OF assms(1)])
qed

lemma active_calendars_update:
  "active_calendars owner (jobs\<lparr>activeJobsByCalendar := (activeJobsByCalendar jobs)(c \<mapsto> j)\<rparr>) u =
    active_calendars owner jobs u \<union> (if owner c = u then {c} else {})"
  "active_calendars owner (jobs\<lparr>activeJobsByCalendar := (activeJobsByCalendar jobs)(c := None)\<rparr>) u =
    active_calendars owner jobs u - {c}"
  by (auto simp: active_calendars_def)

lemma active_calendars_cong:
  "activeJobsByCalendar jobs' = activeJobsByCalendar jobs \<Longrightarrow> active_calendars owner jobs' u = active_calendars owner jobs u"
  by (simp add: active_calendars_def)

lemma active_count_cong:
  "activeDestinationCountsByUser jobs' = activeDestinationCountsByUser jobs \<Longrightarrow> active_count jobs' u = active_count jobs u"
  by (simp add: active_count_def)

lemma onSettled_ok:
  assumes ok: "jobs_ok owner jobs helds" and job: "ajUserId job = owner (ajCalendarId job)"
  shows "jobs_ok owner (onSettled job jobs) helds"
proof (cases "map_option ajId (activeJobsByCalendar jobs (ajCalendarId job)) = Some (ajId job)")
  case True
  let ?c = "ajCalendarId job" and ?u = "ajUserId job"
  obtain j where j: "activeJobsByCalendar jobs ?c = Some j" using True by auto
  have mem: "?c \<in> active_calendars owner jobs ?u" using j job by (simp add: active_calendars_def)
  have pos: "active_count jobs ?u > 0" using active_positive [OF ok j] job by simp
  define jobs' where "jobs' = onSettled job jobs"
  have fields: "activeJobsByCalendar jobs' = (activeJobsByCalendar jobs)(?c := None)"
    "stalledTimersByCalendar jobs' = (stalledTimersByCalendar jobs)(?c := None)"
    "set (releaseTimersByUser jobs') = (if active_count jobs ?u = 1 then insert ?u (set (releaseTimersByUser jobs))
      else set (releaseTimersByUser jobs))"
    using True pos by (auto simp: jobs'_def onSettled_def Let_def clearStalledWatchdog_def active_count_def)
  have count: "active_count jobs' u = (if u = ?u then active_count jobs u - 1 else active_count jobs u)" for u
    using True pos by (auto simp: jobs'_def onSettled_def Let_def clearStalledWatchdog_def active_count_def)
  have cal: "active_calendars owner jobs' u = active_calendars owner jobs u - {?c}" for u
    unfolding active_calendars_def fields(1) by auto
  have card: "int (card (active_calendars owner jobs u - {?c})) =
      (if u = ?u then int (card (active_calendars owner jobs u)) - 1 else int (card (active_calendars owner jobs u)))" for u
  proof (cases "u = ?u")
    case True
    then show ?thesis using mem jobs_okD(3) [OF ok, of u] card_gt_0_iff [of "active_calendars owner jobs u"]
      by (auto simp: card_Diff_singleton of_nat_diff Suc_leI)
  next
    case False
    then have "?c \<notin> active_calendars owner jobs u" using job by (auto simp: active_calendars_def)
    then show ?thesis using False by simp
  qed
  have timers: "?u \<notin> set (releaseTimersByUser jobs)" using jobs_okD(5) [OF ok, of ?u] pos by auto
  have "jobs_ok owner jobs' helds"
    unfolding jobs_ok_def cal
  proof (intro conjI allI ballI impI)
    fix u show "u \<in> helds \<longleftrightarrow> active_count jobs' u > 0 \<or> u \<in> set (releaseTimersByUser jobs')"
      using jobs_okD(6) [OF ok, of u] pos by (auto simp: count fields(3))
  next
    fix u assume "u \<in> set (releaseTimersByUser jobs')"
    then show "active_count jobs' u = 0"
      using jobs_okD(5) [OF ok, of u] timers by (auto simp: count fields(3) split: if_splits)
  qed (use jobs_okD [OF ok] in \<open>auto simp: fields count card split: if_splits\<close>)
  then show ?thesis by (simp add: jobs'_def)
qed (use ok in \<open>simp add: onSettled_def\<close>)


lemma jobs_ok_stalled:
  assumes "jobs_ok owner jobs helds"
    "\<And>c j. stalled c = Some j \<Longrightarrow> stalledTimersByCalendar jobs c = Some j \<or> ajCalendarId j = c \<and> ajUserId j = owner c"
  shows "jobs_ok owner (jobs\<lparr>stalledTimersByCalendar := stalled\<rparr>) helds"
  by (rule jobs_ok_timers [OF assms(1), where us = "{}"])
    (use assms(2) jobs_okD(2) [OF assms(1)] in \<open>simp_all, blast\<close>)

lemma watchdog_ok:
  assumes "jobs_ok owner jobs helds" "stalledTimersByCalendar jobs c = Some job"
  shows "jobs_ok owner (watchdog_fires job jobs) helds"
  unfolding watchdog_fires_def
  by (rule onSettled_ok, rule jobs_ok_stalled [OF assms(1)])
    (use jobs_okD(2) [OF assms] in \<open>auto split: if_splits\<close>)

lemma arm_ok:
  assumes "jobs_ok owner jobs helds" "ajUserId job = owner (ajCalendarId job)"
  shows "jobs_ok owner (armStalledWatchdog job jobs) helds"
proof -
  have "armStalledWatchdog job jobs =
      jobs\<lparr>stalledTimersByCalendar := (stalledTimersByCalendar jobs)(ajCalendarId job \<mapsto> job)\<rparr>"
    by (simp add: armStalledWatchdog_def clearStalledWatchdog_def)
  moreover have "jobs_ok owner (jobs\<lparr>stalledTimersByCalendar := (stalledTimersByCalendar jobs)(ajCalendarId job \<mapsto> job)\<rparr>) helds"
    by (rule jobs_ok_stalled [OF assms(1)]) (use assms(2) in \<open>auto split: if_splits\<close>)
  ultimately show ?thesis by simp
qed

text \<open>A user whose release is not pending, or who becomes active, keeps or gets the hold.\<close>

lemma onActive_jobs:
  assumes ok: "jobs_ok owner (pwJobs w) (syncingHeldByUser (pwTracker w))" and job: "ajUserId job = owner (ajCalendarId job)"
  shows "jobs_ok owner (pwJobs (onActive job w)) (syncingHeldByUser (pwTracker (onActive job w)))"
proof (cases "activeJobsByCalendar (pwJobs w) (ajCalendarId job)")
  case (Some previous)
  let ?jobs = "pwJobs w" and ?c = "ajCalendarId job"
  have "ajUserId job \<notin> set (releaseTimersByUser ?jobs)"
    using active_positive [OF ok Some] jobs_okD(5) [OF ok, of "owner ?c"] job by auto
  then have same: "?jobs\<lparr>releaseTimersByUser := removeAll (ajUserId job) (releaseTimersByUser ?jobs)\<rparr> = ?jobs"
    by simp
  have set: "active_calendars owner (?jobs\<lparr>activeJobsByCalendar := (activeJobsByCalendar ?jobs)(?c \<mapsto> job)\<rparr>) u =
      active_calendars owner ?jobs u" for u
    using Some by (auto simp: active_calendars_def)
  have "jobs_ok owner (?jobs\<lparr>activeJobsByCalendar := (activeJobsByCalendar ?jobs)(?c \<mapsto> job)\<rparr>)
      (syncingHeldByUser (pwTracker w))"
    unfolding jobs_ok_def set using jobs_okD [OF ok] job by (auto simp: active_count_def split: if_splits)
  from arm_ok [OF this job] show ?thesis using Some ok
    by (cases "ajId previous = ajId job") (simp_all add: onActive_def same Let_def)
next
  case None
  let ?jobs = "pwJobs w" and ?c = "ajCalendarId job" and ?u = "ajUserId job"
  define jobs' where "jobs' = ?jobs\<lparr>releaseTimersByUser := removeAll ?u (releaseTimersByUser ?jobs),
    activeDestinationCountsByUser := (activeDestinationCountsByUser ?jobs)(?u \<mapsto> active_count ?jobs ?u + 1),
    activeJobsByCalendar := (activeJobsByCalendar ?jobs)(?c \<mapsto> job)\<rparr>"
  define helds where "helds = syncingHeldByUser (pwTracker (onActive job w))"
  have count: "active_count jobs' u = active_count ?jobs u + (if u = ?u then 1 else 0)" for u
    by (simp add: jobs'_def active_count_def)
  have cal: "active_calendars owner jobs' u = active_calendars owner ?jobs u \<union> (if u = ?u then {?c} else {})" for u
    using job by (auto simp: jobs'_def active_calendars_def)
  have nonneg: "active_count ?jobs u \<ge> 0" for u using jobs_okD(4) [OF ok, of u] by simp
  have fresh: "?c \<notin> active_calendars owner ?jobs u" for u using None by (simp add: active_calendars_def)
  have helds: "helds = insert ?u (syncingHeldByUser (pwTracker w))"
  proof (cases "active_count ?jobs ?u = 0 \<and> ?u \<notin> set (releaseTimersByUser ?jobs)")
    case True
    then show ?thesis using None by (simp add: helds_def onActive_def Let_def active_count_def beginSyncRun_def
          holdSyncing_def resetUser_def)
  next
    case False
    have "?u \<in> syncingHeldByUser (pwTracker w)"
      using jobs_okD(6) [OF ok, of ?u] nonneg [of ?u] False by force
    moreover have "helds = syncingHeldByUser (pwTracker w)"
      using None False by (auto simp: helds_def onActive_def Let_def active_count_def)
    ultimately show ?thesis by auto
  qed
  moreover have fields: "activeJobsByCalendar jobs' = (activeJobsByCalendar ?jobs)(?c \<mapsto> job)"
    "stalledTimersByCalendar jobs' = stalledTimersByCalendar ?jobs"
    "set (releaseTimersByUser jobs') = set (releaseTimersByUser ?jobs) - {?u}"
    by (simp_all add: jobs'_def)
  moreover have "int (card (active_calendars owner ?jobs u \<union> (if u = ?u then {?c} else {}))) = active_count jobs' u" for u
    using fresh [of u] jobs_okD(3,4) [OF ok, of u] by (cases "u = ?u") (simp_all add: count)
  ultimately have "jobs_ok owner jobs' helds"
  proof (intro jobs_okI)
    fix u
    show "u \<in> helds \<longleftrightarrow> active_count jobs' u > 0 \<or> u \<in> set (releaseTimersByUser jobs')"
      using jobs_okD(6) [OF ok, of u] nonneg [of u] helds by (cases "u = ?u") (simp_all add: count fields)
    show "active_count jobs' u = 0" if "u \<in> set (releaseTimersByUser jobs')"
      using that jobs_okD(5) [OF ok, of u] by (simp add: count fields)
    show "finite (active_calendars owner jobs' u)" using jobs_okD(3) [OF ok, of u] by (simp add: cal)
  qed (use jobs_okD(1,2) [OF ok] job in \<open>auto simp: cal fields split: if_splits\<close>)
  from arm_ok [OF this job] show ?thesis using None
    by (simp add: helds_def onActive_def Let_def jobs'_def active_count_def)
qed


lemma release_ok:
  assumes "jobs_ok owner jobs helds" "active_count jobs u = 0"
  shows "jobs_ok owner (jobs\<lparr>releaseTimersByUser := removeAll u (releaseTimersByUser jobs)\<rparr>) (helds - {u})"
  by (rule jobs_ok_timers [OF assms(1), where us = "{u}"]) (use assms(2) jobs_okD(2) [OF assms(1)] in simp_all)

lemma release_held: "syncingHeldByUser (snd (runtime_releaseSyncing u now t)) = syncingHeldByUser t - {u}"
  by (simp add: runtime_releaseSyncing_def Let_def tracker_releaseSyncing_def)

lemma close_held:
  "syncingHeldByUser (fold (\<lambda>u t. snd (runtime_releaseSyncing u now t)) us t) = syncingHeldByUser t - set us"
  by (induction us arbitrary: t) (auto simp: release_held)

lemma close_ok:
  assumes "jobs_ok owner jobs helds"
  shows "jobs_ok owner (jobs\<lparr>stalledTimersByCalendar := (\<lambda>_. None), releaseTimersByUser := []\<rparr>)
    (helds - set (releaseTimersByUser jobs))"
  by (rule jobs_ok_timers [OF assms, where us = "set (releaseTimersByUser jobs)"])
    (use jobs_okD(5) [OF assms] in simp_all)

lemma maybeEmit_held: "syncingHeldByUser (snd (maybeEmit t u p now th)) = syncingHeldByUser t"
  by (simp add: maybeEmit_def Let_def nextSequence_def)

lemma track_held:
  "syncingHeldByUser (snd (trackProgress update now t)) = syncingHeldByUser t"
  "syncingHeldByUser (snd (onDestinationSync result persisted now t)) = syncingHeldByUser t"
  by (simp_all add: trackProgress_def onDestinationSync_def trackDestinationSync_def Let_def maybeEmit_held set_entry_def)

definition world_ok :: "(string \<Rightarrow> string) \<Rightarrow> logged_world \<Rightarrow> bool" where
  "world_ok owner w \<longleftrightarrow> jobs_ok owner (pwJobs (lwWorld w)) (syncingHeldByUser (pwTracker (lwWorld w)))"

lemma world_step:
  assumes "progress_step owner w w'" "world_ok owner w"
  shows "world_ok owner w'"
  using assms(1)
proof cases
  case (ps_active job)
  then show ?thesis using onActive_jobs assms(2) by (simp add: world_ok_def)
next
  case (ps_settled job)
  then show ?thesis using onSettled_ok assms(2) by (simp add: world_ok_def)
next
  case (ps_watchdog c job)
  then show ?thesis using watchdog_ok assms(2) by (simp add: world_ok_def)
next
  case (ps_release userId now)
  have ok: "jobs_ok owner (pwJobs (lwWorld w)) (syncingHeldByUser (pwTracker (lwWorld w)))"
    using assms(2) by (simp add: world_ok_def)
  have "active_count (pwJobs (lwWorld w)) userId = 0" using jobs_okD(5) [OF ok] ps_release(2) by blast
  then show ?thesis using release_ok [OF ok] ps_release(1)
    by (simp add: world_ok_def release_fires_def Let_def release_held active_count_def)
next
  case (ps_progress update now)
  then show ?thesis using assms(2) by (simp add: world_ok_def log_emit_def track_held)
next
  case (ps_synced result persisted now)
  then show ?thesis using assms(2) by (simp add: world_ok_def log_emit_def track_held)
next
  case (ps_close now)
  then show ?thesis using close_ok assms(2) by (simp add: world_ok_def jobs_close_def close_held)
qed

lemma world_reach: "progress_reach owner w \<Longrightarrow> world_ok owner w"
proof (induction rule: progress_reach.induct)
  case (progress_start throttle)
  then show ?case
    by (simp add: world_ok_def initial_progress_def jobs_ok_def createActiveDestinationJobs_def
        active_calendars_def active_count_def new_tracker_def)
qed (rule world_step)

section \<open>What is emitted\<close>

definition no_step_back :: "progress_entry \<Rightarrow> progress_entry \<Rightarrow> bool" where
  "no_step_back a b = (case (a, b) of
     (Emitted m, Emitted m') \<Rightarrow> syncing (agSnapshot m) \<and> syncing (agSnapshot m') \<longrightarrow>
       progressPercent (agSnapshot m) \<le> progressPercent (agSnapshot m')
   | _ \<Rightarrow> True)"

definition emitted_messages :: "progress_entry list \<Rightarrow> SyncAggregateMessage list" where
  "emitted_messages es = concat (map (\<lambda>e. case e of Emitted m \<Rightarrow> [m] | RunBegins \<Rightarrow> []) es)"

definition high_water_of :: "progress_entry list \<Rightarrow> rat option" where
  "high_water_of es = (if es = [] then None else case last es of RunBegins \<Rightarrow> None
    | Emitted m \<Rightarrow> if syncing (agSnapshot m) then Some (progressPercent (agSnapshot m)) else None)"

text \<open>The tracker's memory of a user against what was emitted for them.\<close>

definition user_ok :: "SyncAggregateTracker \<Rightarrow> progress_entry list \<Rightarrow> string \<Rightarrow> bool" where
  "user_ok t es u \<longleftrightarrow> (\<forall>(c, e) \<in> set (or_else (progressByUser t u) []). 0 \<le> cpProcessed e \<and> cpProcessed e \<le> cpTotal e) \<and>
    highWaterPercentByUser t u = high_water_of es \<and>
    successively no_step_back es \<and>
    (\<forall>m \<in> set (emitted_messages es). 0 \<le> progressPercent (agSnapshot m) \<and> progressPercent (agSnapshot m) \<le> 100) \<and>
    map agSeq (emitted_messages es) = [1..<Suc (getCurrentSequence t u)]"

lemma percent_range:
  assumes "\<forall>e \<in> set es. 0 \<le> cpProcessed e \<and> cpProcessed e \<le> cpTotal e"
  shows "0 \<le> calculatePercent (sum_list (map cpProcessed es)) (sum_list (map cpTotal es)) b \<and>
    calculatePercent (sum_list (map cpProcessed es)) (sum_list (map cpTotal es)) b \<le> 100"
proof -
  have "0 \<le> sum_list (map cpProcessed es) \<and> sum_list (map cpProcessed es) \<le> sum_list (map cpTotal es)"
    using assms by (induction es) auto
  then show ?thesis by (auto simp: calculatePercent_def field_simps)
qed


lemma user_ok_frame:
  assumes "user_ok t es u" "progressByUser t' u = progressByUser t u"
    "highWaterPercentByUser t' u = highWaterPercentByUser t u" "sequenceByUser t' u = sequenceByUser t u"
  shows "user_ok t' es u"
  using assms by (simp add: user_ok_def getCurrentSequence_def)

lemma set_entry_ok:
  assumes "user_ok t es u" "0 \<le> cpProcessed e" "cpProcessed e \<le> cpTotal e"
  shows "user_ok (set_entry u c e t) es u"
proof -
  have "\<forall>(c, e) \<in> set (or_else (progressByUser (set_entry u c e t) u) []). 0 \<le> cpProcessed e \<and> cpProcessed e \<le> cpTotal e"
    using assms set_alist_update unfolding user_ok_def set_entry_def by fastforce
  then show ?thesis using assms(1) by (simp add: user_ok_def set_entry_def getCurrentSequence_def)
qed

lemma snapshot_ok:
  assumes "user_ok t es u" "or_else (progressByUser t u) [] \<noteq> []"
    and p_def: "p = computeSnapshot t u now None synced"
  shows "0 \<le> progressPercent p \<and> progressPercent p \<le> 100"
    "syncing p \<Longrightarrow> high_water_of es = Some h \<Longrightarrow> h \<le> progressPercent p"
proof -
  let ?es = "map snd (or_else (progressByUser t u) [])"
  have range: "\<forall>e \<in> set ?es. 0 \<le> cpProcessed e \<and> cpProcessed e \<le> cpTotal e"
    using assms(1) by (auto simp: user_ok_def)
  have water: "0 \<le> h' \<and> h' \<le> 100" if "highWaterPercentByUser t u = Some h'" for h'
  proof -
    from that assms(1) have "high_water_of es = Some h'" by (simp add: user_ok_def)
    then obtain m where "es \<noteq> []" "last es = Emitted m" "h' = progressPercent (agSnapshot m)"
      by (auto simp: high_water_of_def split: if_splits progress_entry.splits)
    moreover from this have "Emitted m \<in> set es" by (metis last_in_set)
    then have "m \<in> set (emitted_messages es)" by (auto simp: emitted_messages_def intro!: bexI [of _ "Emitted m"])
    ultimately show ?thesis using assms(1) by (auto simp: user_ok_def)
  qed
  show "0 \<le> progressPercent p \<and> progressPercent p \<le> 100"
    using percent_range [OF range] water assms(2)
    by (cases "highWaterPercentByUser t u") (auto simp: p_def computeSnapshot_def Let_def)
  show "h \<le> progressPercent p" if "syncing p" "high_water_of es = Some h"
    using that assms(1,2) by (auto simp: p_def computeSnapshot_def Let_def user_ok_def)
qed

lemma emit_ok:
  assumes "user_ok t es u" "or_else (progressByUser t u) [] \<noteq> []"
    "maybeEmit t u (computeSnapshot t u now None synced) now th = (out, t')"
  shows "user_ok t' (case out of None \<Rightarrow> es | Some m \<Rightarrow> es @ [Emitted m]) u"
proof (cases out)
  case None
  then have "t' = t" using assms(3) by (auto simp: maybeEmit_def Let_def nextSequence_def split: if_splits)
  then show ?thesis using None assms(1) by simp
next
  case (Some m)
  let ?p = "computeSnapshot t u now None synced"
  have m: "m = \<lparr>agSnapshot = ?p, agSeq = getCurrentSequence t u + 1\<rparr>" and
    t': "progressByUser t' u = progressByUser t u" "sequenceByUser t' u = Some (getCurrentSequence t u + 1)"
    "highWaterPercentByUser t' u = (if syncing ?p then Some (progressPercent ?p) else None)"
    using assms(3) Some by (auto simp: maybeEmit_def Let_def nextSequence_def getCurrentSequence_def split: if_splits)
  note ok = assms(1) [unfolded user_ok_def]
  have "no_step_back (last es) (Emitted m)" if "es \<noteq> []"
    using snapshot_ok(2) [OF assms(1,2) refl, of now synced] that
    by (auto simp: no_step_back_def high_water_of_def m split: progress_entry.splits)
  then have "successively no_step_back (es @ [Emitted m])"
    using ok by (auto simp: successively_append_iff)
  then show ?thesis using ok Some snapshot_ok(1) [OF assms(1,2) refl, of now synced]
    by (simp add: user_ok_def t' high_water_of_def emitted_messages_def m getCurrentSequence_def)
qed

lemma emit_others:
  assumes "maybeEmit t u p now th = (out, t')" "v \<noteq> u"
  shows "progressByUser t' v = progressByUser t v" "highWaterPercentByUser t' v = highWaterPercentByUser t v"
    "sequenceByUser t' v = sequenceByUser t v"
  using assms by (auto simp: maybeEmit_def Let_def nextSequence_def split: if_splits)


lemma merge_range:
  assumes "\<And>c. current = Some c \<Longrightarrow> 0 \<le> cpProcessed c \<and> cpProcessed c \<le> cpTotal c"
    "\<And>p n. upProgress update = Some (p, n) \<Longrightarrow> 0 \<le> n"
  shows "0 \<le> cpProcessed (mergeProgressEntry current update now) \<and>
    cpProcessed (mergeProgressEntry current update now) \<le> cpTotal (mergeProgressEntry current update now)"
proof -
  have clamp: "0 \<le> clampProgress p n \<and> clampProgress p n \<le> n" if "0 \<le> n" for p n
    using that by (simp add: clampProgress_def)
  have current: "0 \<le> cpTotal c" if "current = Some c" for c using assms(1) [OF that] by simp
  have "cpProcessed (mergeProgressEntry current update now) =
      clampProgress (case upProgress update of Some (p, _) \<Rightarrow> p
        | None \<Rightarrow> (case current of Some c \<Rightarrow> if cpStatus c \<noteq> StatusIdle then cpProcessed c else 0 | None \<Rightarrow> 0))
      (cpTotal (mergeProgressEntry current update now))"
    by (simp add: mergeProgressEntry_def Let_def split: option.splits prod.splits)
  moreover have "0 \<le> cpTotal (mergeProgressEntry current update now)"
    using assms(2) current by (cases current; cases "upProgress update") (auto simp: mergeProgressEntry_def Let_def)
  ultimately show ?thesis using clamp by simp
qed

lemma finalize_range:
  assumes "\<And>c. current = Some c \<Longrightarrow> 0 \<le> cpProcessed c \<and> cpProcessed c \<le> cpTotal c"
  shows "0 \<le> cpProcessed (finalizeEntry current b) \<and>
    cpProcessed (finalizeEntry current b) \<le> cpTotal (finalizeEntry current b)"
  using assms by (auto simp: finalizeEntry_def Let_def split: option.splits)

lemma get_entry_range:
  "user_ok t es u \<Longrightarrow> get_entry t u c = Some e \<Longrightarrow> 0 \<le> cpProcessed e \<and> cpProcessed e \<le> cpTotal e"
  by (fastforce simp: user_ok_def get_entry_def dest: map_of_SomeD)

lemma set_entry_others:
  "v \<noteq> u \<Longrightarrow> progressByUser (set_entry u c e t) v = progressByUser t v"
  "highWaterPercentByUser (set_entry u c e t) = highWaterPercentByUser t"
  "sequenceByUser (set_entry u c e t) = sequenceByUser t"
  "or_else (progressByUser (set_entry u c e t) u) [] \<noteq> []"
  by (simp_all add: set_entry_def AList.update_nonempty)

text \<open>One entry is stored and the new aggregate perhaps emitted.\<close>

lemma track_ok:
  assumes "\<forall>v. user_ok t (es v) v" "0 \<le> cpProcessed e" "cpProcessed e \<le> cpTotal e"
    "maybeEmit (set_entry u c e t) u (computeSnapshot (set_entry u c e t) u now None synced) now th = (out, t')"
  shows "\<forall>v. user_ok t' ((case out of None \<Rightarrow> es | Some m \<Rightarrow> es(u := es u @ [Emitted m])) v) v"
proof
  fix v
  have set: "user_ok (set_entry u c e t) (es u) u" using set_entry_ok assms(1-3) by blast
  show "user_ok t' ((case out of None \<Rightarrow> es | Some m \<Rightarrow> es(u := es u @ [Emitted m])) v) v"
  proof (cases "v = u")
    case True
    then show ?thesis using emit_ok [OF set set_entry_others(4) assms(4)] by (cases out) simp_all
  next
    case False
    have "user_ok t' (es v) v"
      by (rule user_ok_frame [of t]) (use assms(1) emit_others [OF assms(4) False] set_entry_others False in simp_all)
    then show ?thesis using False by (cases out) simp_all
  qed
qed

definition log_ok :: "logged_world \<Rightarrow> bool" where
  "log_ok w \<longleftrightarrow> (\<forall>u. user_ok (pwTracker (lwWorld w)) (lwLog w u) u)"

lemma begin_ok:
  assumes "\<forall>v. user_ok t (es v) v"
  shows "\<forall>v. user_ok (beginSyncRun u t) ((es(u := es u @ [RunBegins])) v) v"
proof
  fix v
  have ok: "user_ok t (es v) v" using assms by blast
  show "user_ok (beginSyncRun u t) ((es(u := es u @ [RunBegins])) v) v"
  proof (cases "v = u")
    case True
    have "no_step_back a RunBegins" for a by (simp add: no_step_back_def split: progress_entry.splits)
    then have "successively no_step_back (es u @ [RunBegins])"
      using ok True by (simp add: user_ok_def successively_append_iff)
    moreover have "emitted_messages (es u @ [RunBegins]) = emitted_messages (es u)"
      by (simp add: emitted_messages_def)
    ultimately show ?thesis using ok True
      by (simp add: user_ok_def beginSyncRun_def holdSyncing_def resetUser_def high_water_of_def getCurrentSequence_def)
  next
    case False
    have "user_ok (beginSyncRun u t) (es v) v"
      by (rule user_ok_frame [OF ok]) (use False in \<open>simp_all add: beginSyncRun_def holdSyncing_def resetUser_def\<close>)
    then show ?thesis using False by simp
  qed
qed

lemma release_frame:
  "user_ok (snd (runtime_releaseSyncing u now t)) es v = user_ok t es v"
  by (simp add: user_ok_def getCurrentSequence_def runtime_releaseSyncing_def Let_def tracker_releaseSyncing_def)

lemma close_frame:
  "user_ok (fold (\<lambda>u t. snd (runtime_releaseSyncing u now t)) us t) es v = user_ok t es v"
  by (induction us arbitrary: t) (simp_all add: release_frame)

lemma onActive_tracker:
  "pwTracker (onActive job w) = (if begins_run job w then beginSyncRun (ajUserId job) (pwTracker w) else pwTracker w)"
  by (simp add: onActive_def begins_run_def Let_def active_count_def split: option.splits)

lemma log_step:
  assumes "progress_step owner w w'" "log_ok w"
  shows "log_ok w'"
  using assms(1)
proof cases
  case (ps_active job)
  then show ?thesis using begin_ok [of "pwTracker (lwWorld w)" "lwLog w"] assms(2)
    by (simp add: log_ok_def onActive_tracker)
next
  case (ps_progress update now)
  let ?u = "upUserId update" and ?c = "upCalendarId update" and ?t = "pwTracker (lwWorld w)"
  let ?e = "mergeProgressEntry (get_entry ?t ?u ?c) update now"
  obtain out t' where out: "maybeEmit (set_entry ?u ?c ?e ?t) ?u (computeSnapshot (set_entry ?u ?c ?e ?t) ?u now None None)
      now (\<not> upError update) = (out, t')" by (metis surj_pair)
  have ok: "\<forall>v. user_ok ?t (lwLog w v) v" using assms(2) by (simp add: log_ok_def)
  have "0 \<le> cpProcessed ?e \<and> cpProcessed ?e \<le> cpTotal ?e"
    by (rule merge_range) (use get_entry_range ok ps_progress(2) in blast)+
  from track_ok [OF ok _ _ out] this show ?thesis
    unfolding ps_progress(1) log_ok_def log_emit_def trackProgress_def Let_def out by (cases out) simp_all
next
  case (ps_synced result persisted now)
  show ?thesis
  proof (cases "drBroadcast result = Some False")
    case True
    then show ?thesis using assms(2) ps_synced by (simp add: log_ok_def log_emit_def onDestinationSync_def)
  next
    case False
    define synced where "synced = (if drCompletedSuccessfully result \<noteq> Some False then persisted else None)"
    let ?u = "drUserId result" and ?c = "drCalendarId result" and ?t = "pwTracker (lwWorld w)"
    let ?e = "finalizeEntry (get_entry ?t ?u ?c) (drCompletedSuccessfully result \<noteq> Some False)"
    obtain out t' where out: "maybeEmit (set_entry ?u ?c ?e ?t) ?u (computeSnapshot (set_entry ?u ?c ?e ?t) ?u now None
        (if str_truthy synced then Some synced else None)) now False = (out, t')" by (metis surj_pair)
    have ok: "\<forall>v. user_ok ?t (lwLog w v) v" using assms(2) by (simp add: log_ok_def)
    have "0 \<le> cpProcessed ?e \<and> cpProcessed ?e \<le> cpTotal ?e"
      by (rule finalize_range) (use get_entry_range ok in blast)
    moreover have "onDestinationSync result persisted now ?t = (out, t')"
      using False out by (simp add: onDestinationSync_def trackDestinationSync_def Let_def flip: synced_def)
    ultimately show ?thesis using track_ok [OF ok _ _ out]
      unfolding ps_synced(1) log_ok_def log_emit_def by (cases out) simp_all
  qed
qed (use assms(2) in \<open>simp_all add: log_ok_def release_fires_def Let_def jobs_close_def release_frame close_frame\<close>)

lemma log_reach: "progress_reach owner w \<Longrightarrow> log_ok w"
proof (induction rule: progress_reach.induct)
  case (progress_start throttle)
  then show ?case
    by (simp add: log_ok_def initial_progress_def user_ok_def new_tracker_def high_water_of_def
        emitted_messages_def getCurrentSequence_def)
qed (rule log_step)


text \<open>A user is held in the syncing state exactly while one of their destination jobs is active or the
  delayed release of the last one is pending, whatever jobs start, settle, stall or are replaced; and while a
  job is active the user's aggregate says so.\<close>

theorem users_are_held_while_jobs_run:
  assumes "progress_reach owner w"
  shows "(u \<in> syncingHeldByUser (pwTracker (lwWorld w)) \<longleftrightarrow>
      (\<exists>c j. activeJobsByCalendar (pwJobs (lwWorld w)) c = Some j \<and> ajUserId j = u) \<or>
      u \<in> set (releaseTimersByUser (pwJobs (lwWorld w)))) \<and>
    ((\<exists>c j. activeJobsByCalendar (pwJobs (lwWorld w)) c = Some j \<and> ajUserId j = u) \<longrightarrow>
      syncing (agSnapshot (getCurrentAggregate u fallback now (pwTracker (lwWorld w)))))"
proof -
  let ?jobs = "pwJobs (lwWorld w)" and ?t = "pwTracker (lwWorld w)"
  have ok: "jobs_ok owner ?jobs (syncingHeldByUser ?t)" using world_reach [OF assms] by (simp add: world_ok_def)
  have "active_count ?jobs u > 0 \<longleftrightarrow> (\<exists>c j. activeJobsByCalendar ?jobs c = Some j \<and> ajUserId j = u)"
  proof
    assume "active_count ?jobs u > 0"
    then have "active_calendars owner ?jobs u \<noteq> {}" using jobs_okD(4) [OF ok, of u] by auto
    then obtain c j where "activeJobsByCalendar ?jobs c = Some j" "owner c = u" by (auto simp: active_calendars_def)
    then show "\<exists>c j. activeJobsByCalendar ?jobs c = Some j \<and> ajUserId j = u"
      using jobs_okD(1) [OF ok, of c j] by auto
  next
    assume "\<exists>c j. activeJobsByCalendar ?jobs c = Some j \<and> ajUserId j = u"
    then obtain c j where j: "activeJobsByCalendar ?jobs c = Some j" "ajUserId j = u" by blast
    then show "active_count ?jobs u > 0" using active_positive [OF ok j(1)] jobs_okD(1) [OF ok j(1)] by simp
  qed
  moreover have "syncing (agSnapshot (getCurrentAggregate u fallback now ?t))" if "u \<in> syncingHeldByUser ?t"
    using that by (simp add: getCurrentAggregate_def computeSnapshot_def Let_def)
  ultimately show ?thesis using jobs_okD(6) [OF ok, of u] by blast
qed

text \<open>The progress a user sees never goes back: of two successive messages of a run that both say
  syncing, the later has no lower percentage; every percentage is between 0 and 100; and the messages of a
  user are numbered 1, 2, 3 and so on without a gap, across runs.\<close>

theorem progress_never_goes_back:
  assumes "progress_reach owner w"
  shows "successively no_step_back (lwLog w u) \<and>
    (\<forall>m \<in> set (emitted_messages (lwLog w u)).
      0 \<le> progressPercent (agSnapshot m) \<and> progressPercent (agSnapshot m) \<le> 100) \<and>
    map agSeq (emitted_messages (lwLog w u)) = [1..<Suc (length (emitted_messages (lwLog w u)))]"
proof -
  have ok: "user_ok (pwTracker (lwWorld w)) (lwLog w u) u" using log_reach [OF assms] by (simp add: log_ok_def)
  then have seqs: "map agSeq (emitted_messages (lwLog w u)) = [1..<Suc (getCurrentSequence (pwTracker (lwWorld w)) u)]"
    by (simp add: user_ok_def)
  from arg_cong [OF this, of length] have "length (emitted_messages (lwLog w u)) = getCurrentSequence (pwTracker (lwWorld w)) u"
    by simp
  then show ?thesis using ok seqs by (simp add: user_ok_def)
qed

text \<open>A job becomes active, reports two of five operations, and settles.\<close>

definition sample_job :: ActiveDestinationJob where
  "sample_job = \<lparr>ajCalendarId = ''cal'', ajId = ''job'', ajUserId = ''user''\<rparr>"

definition sample_update :: SyncProgressUpdate where
  "sample_update = \<lparr>upUserId = ''user'', upCalendarId = ''cal'', upError = False, upProgress = Some (2, 5), upPace = None\<rparr>"

definition sample_active :: logged_world where
  "sample_active = \<lparr>lwWorld = onActive sample_job (lwWorld (initial_progress None)),
    lwLog = (\<lambda>_. [])(''user'' := [RunBegins])\<rparr>"

definition sample_reported :: logged_world where
  "sample_reported = log_emit ''user'' (trackProgress sample_update 1000 (pwTracker (lwWorld sample_active))) sample_active"

lemma sample_progress_reach:
  "progress_reach (\<lambda>_. ''user'') sample_active" "progress_reach (\<lambda>_. ''user'') sample_reported"
proof -
  have "begins_run sample_job (lwWorld (initial_progress None))"
    by (simp add: begins_run_def initial_progress_def createActiveDestinationJobs_def active_count_def)
  then have "sample_active = \<lparr>lwWorld = onActive sample_job (lwWorld (initial_progress None)), lwLog =
      (if begins_run sample_job (lwWorld (initial_progress None)) then (lwLog (initial_progress None))(ajUserId sample_job :=
        lwLog (initial_progress None) (ajUserId sample_job) @ [RunBegins]) else lwLog (initial_progress None))\<rparr>"
    by (simp add: sample_active_def initial_progress_def sample_job_def)
  then have "progress_step (\<lambda>_. ''user'') (initial_progress None) sample_active"
    using ps_active [of sample_job "\<lambda>_. ''user''" "initial_progress None"] by (simp add: sample_job_def)
  then show active: "progress_reach (\<lambda>_. ''user'') sample_active" by (rule progress_more [OF progress_start])
  have "progress_step (\<lambda>_. ''user'') sample_active sample_reported"
    using ps_progress [of sample_update "\<lambda>_. ''user''" sample_active 1000]
    by (simp add: sample_reported_def sample_update_def)
  with active show "progress_reach (\<lambda>_. ''user'') sample_reported" by (rule progress_more)
qed

lemma sample_active_job: "activeJobsByCalendar (pwJobs (lwWorld sample_active)) ''cal'' = Some sample_job"
  by (simp add: sample_active_def onActive_def initial_progress_def createActiveDestinationJobs_def sample_job_def
      armStalledWatchdog_def clearStalledWatchdog_def Let_def)

theorem users_are_held_while_jobs_run_witness:
  "''user'' \<in> syncingHeldByUser (pwTracker (lwWorld sample_active)) \<and>
    syncing (agSnapshot (getCurrentAggregate ''user'' None 0 (pwTracker (lwWorld sample_active))))"
proof -
  have "ajUserId sample_job = ''user''" by (simp add: sample_job_def)
  then show ?thesis
    using users_are_held_while_jobs_run [OF sample_progress_reach(1), of "''user''" None 0] sample_active_job by blast
qed

theorem progress_never_goes_back_witness:
  "\<exists>m. lwLog sample_reported ''user'' = [RunBegins, Emitted m] \<and> agSeq m = 1 \<and>
    progressPercent (agSnapshot m) \<le> 100"
proof -
  obtain m where m: "lwLog sample_reported ''user'' = [RunBegins, Emitted m]"
    by (simp add: sample_reported_def log_emit_def trackProgress_def sample_update_def sample_active_def
        onActive_def initial_progress_def createActiveDestinationJobs_def sample_job_def beginSyncRun_def
        resetUser_def holdSyncing_def new_tracker_def active_count_def DEFAULT_PROGRESS_THROTTLE_MS_def
        maybeEmit_def set_entry_def nextSequence_def Let_def)
  then have e: "emitted_messages (lwLog sample_reported ''user'') = [m]" by (simp add: emitted_messages_def)
  from progress_never_goes_back [OF sample_progress_reach(2), of "''user''"] m show ?thesis
    unfolding e by simp
qed

end
