(* ===== verification/Ingest_Schedule.thy ===== *)
theory Ingest_Schedule
  imports Complex_Main Prelude Utc_Date
begin

text \<open>
  When a source is read: the schedule table of
  \<open>packages/database/src/database/ingest-schedule.ts\<close> with its claims, completions, wakes and
  releases, the triggers of the migrations \<open>0099\<close> and \<open>0102\<close> that change it, the policy of
  \<open>core/source/ingest-schedule-policy.ts\<close> and \<open>core/utils/calendar-backoff.ts\<close>, and the round of
  \<open>services/cron/src/ingest/run-ingest-round.ts\<close>. The table is the list of its rows; a statement is
  one step at the server's clock; rows that other transactions hold are a parameter of a claim, which
  skips them.
\<close>

section \<open>The policy\<close>

definition HOUR_MS :: int where "HOUR_MS = 60 * 60000"

definition resolveCalendarBackoffDelayMs :: "int \<Rightarrow> int" where
  "resolveCalendarBackoffDelayMs currentFailureCount =
    min (5 * 60 * 1000 * 2 ^ nat (max 0 currentFailureCount)) (6 * 60 * 60 * 1000)"

record CalendarBackoffState =
  bsFailureCount :: int
  bsLastFailureAt :: "instant option"
  bsNextAttemptAt :: "instant option"

definition RESET_CALENDAR_BACKOFF_STATE :: CalendarBackoffState where
  "RESET_CALENDAR_BACKOFF_STATE = \<lparr>bsFailureCount = 0, bsLastFailureAt = None, bsNextAttemptAt = None\<rparr>"

definition buildCalendarBackoffState :: "int \<Rightarrow> instant \<Rightarrow> CalendarBackoffState" where
  "buildCalendarBackoffState currentFailureCount now =
    \<lparr>bsFailureCount = currentFailureCount + 1, bsLastFailureAt = Some now,
     bsNextAttemptAt = Some (now + resolveCalendarBackoffDelayMs currentFailureCount)\<rparr>"

datatype IngestPlan = FreePlan | ProPlan

record IngestIntervalDials =
  dormantMs :: int
  freePollMs :: int
  freeSafetyMs :: int
  proPollMs :: int
  proSafetyMs :: int

definition DEFAULT_INGEST_INTERVAL_DIALS :: IngestIntervalDials where
  "DEFAULT_INGEST_INTERVAL_DIALS = \<lparr>dormantMs = 24 * HOUR_MS, freePollMs = 10 * 60000,
    freeSafetyMs = HOUR_MS, proPollMs = 60000, proSafetyMs = 5 * 60000\<rparr>"

record IngestIntervalInput =
  iiDormant :: bool
  iiPlan :: IngestPlan
  iiPushHealthy :: bool

definition resolveBaseIntervalMs :: "IngestIntervalInput \<Rightarrow> IngestIntervalDials \<Rightarrow> int" where
  "resolveBaseIntervalMs input dials =
    (if iiPushHealthy input then (if iiPlan input = ProPlan then proSafetyMs dials else freeSafetyMs dials)
     else if iiPlan input = ProPlan then proPollMs dials else freePollMs dials)"

definition resolveIngestIntervalMs :: "IngestIntervalInput \<Rightarrow> IngestIntervalDials \<Rightarrow> int" where
  "resolveIngestIntervalMs input dials = (let intervalMs = resolveBaseIntervalMs input dials
    in if iiDormant input then max intervalMs (dormantMs dials) else intervalMs)"

definition resolveIngestJitterMs :: "int \<Rightarrow> rat \<Rightarrow> int" where
  "resolveIngestJitterMs intervalMs random = \<lfloor>random * min (rat_of_int intervalMs * (1 / 10)) (2 * 60000)\<rfloor>"

definition resolveWakeDebounceMs :: "IngestPlan \<Rightarrow> int" where
  "resolveWakeDebounceMs plan = (case plan of FreePlan \<Rightarrow> 5 * 60000 | ProPlan \<Rightarrow> 0)"

datatype IngestOutcome = Ingested | LockHeld | BaselineMoved | Unresolvable | Failed bool
  | RequestRejected | CredentialRejectedOutcome

datatype IngestScheduleParkedReason = CredentialRejected | Ineligible | UnresolvableParked

record IngestScheduleDecision =
  idAttempted :: bool
  idFailed :: bool
  idFailureCount :: int
  idNextDueInMs :: int
  idParkedReason :: "IngestScheduleParkedReason option"
  idSucceeded :: bool

record IngestScheduleDecisionInput =
  diFailureCount :: int
  diIntervalMs :: int
  diJitterMs :: int

definition LOCK_HELD_RETRY_MS :: int where "LOCK_HELD_RETRY_MS = 30000"
definition BASELINE_MOVED_RETRY_MS :: int where "BASELINE_MOVED_RETRY_MS = 5000"
definition UNBACKED_FAILURE_RETRY_MS :: int where "UNBACKED_FAILURE_RETRY_MS = 60000"
definition UNRESOLVABLE_PROBE_MS :: int where "UNRESOLVABLE_PROBE_MS = HOUR_MS"
definition CREDENTIAL_PROBE_MS :: int where "CREDENTIAL_PROBE_MS = 24 * HOUR_MS"

definition scheduleNextRead :: "IngestScheduleDecisionInput \<Rightarrow> IngestScheduleDecision" where
  "scheduleNextRead input = \<lparr>idAttempted = True, idFailed = False, idFailureCount = 0,
    idNextDueInMs = max 0 (diIntervalMs input - diJitterMs input), idParkedReason = None, idSucceeded = True\<rparr>"

definition retryUnattempted :: "IngestScheduleDecisionInput \<Rightarrow> int \<Rightarrow> IngestScheduleDecision" where
  "retryUnattempted input retryMs = \<lparr>idAttempted = False, idFailed = False, idFailureCount = diFailureCount input,
    idNextDueInMs = retryMs, idParkedReason = None, idSucceeded = False\<rparr>"

definition parkUnresolvable :: "IngestScheduleDecisionInput \<Rightarrow> IngestScheduleDecision" where
  "parkUnresolvable input = \<lparr>idAttempted = True, idFailed = False, idFailureCount = diFailureCount input,
    idNextDueInMs = UNRESOLVABLE_PROBE_MS, idParkedReason = Some UnresolvableParked, idSucceeded = False\<rparr>"

definition parkRejectedCredential :: "IngestScheduleDecisionInput \<Rightarrow> IngestScheduleDecision" where
  "parkRejectedCredential input = \<lparr>idAttempted = True, idFailed = True, idFailureCount = diFailureCount input + 1,
    idNextDueInMs = CREDENTIAL_PROBE_MS, idParkedReason = Some CredentialRejected, idSucceeded = False\<rparr>"

definition retryUnbackedFailure :: "IngestScheduleDecisionInput \<Rightarrow> IngestScheduleDecision" where
  "retryUnbackedFailure input = \<lparr>idAttempted = True, idFailed = True, idFailureCount = diFailureCount input,
    idNextDueInMs = UNBACKED_FAILURE_RETRY_MS, idParkedReason = None, idSucceeded = False\<rparr>"

definition backOff :: "IngestScheduleDecisionInput \<Rightarrow> IngestScheduleDecision" where
  "backOff input = \<lparr>idAttempted = True, idFailed = True, idFailureCount = diFailureCount input + 1,
    idNextDueInMs = resolveCalendarBackoffDelayMs (diFailureCount input), idParkedReason = None, idSucceeded = False\<rparr>"

definition resolveIngestScheduleDecision ::
    "IngestOutcome \<Rightarrow> IngestScheduleDecisionInput \<Rightarrow> IngestScheduleDecision" where
  "resolveIngestScheduleDecision outcome input =
    (case outcome of Ingested \<Rightarrow> scheduleNextRead input
     | LockHeld \<Rightarrow> retryUnattempted input LOCK_HELD_RETRY_MS
     | BaselineMoved \<Rightarrow> retryUnattempted input BASELINE_MOVED_RETRY_MS
     | Unresolvable \<Rightarrow> parkUnresolvable input
     | CredentialRejectedOutcome \<Rightarrow> parkRejectedCredential input
     | Failed backoff \<Rightarrow> if \<not> backoff then retryUnbackedFailure input else backOff input
     | RequestRejected \<Rightarrow> backOff input)"

section \<open>The table\<close>

record schedule_row =
  srCalendarId :: string
  srDueAt :: "instant option"
  srFailureCount :: int
  srLastAttemptAt :: "instant option"
  srLastFailureAt :: "instant option"
  srLastSuccessAt :: "instant option"
  srLeaseToken :: "string option"
  srLeasedUntil :: "instant option"
  srParkedReason :: "IngestScheduleParkedReason option"
  srReleaseSeq :: nat
  srWakeCorrelationId :: "string option"
  srWakeDueAt :: "instant option"
  srWakeReceivedAt :: "instant option"
  srWakeSeq :: nat

text \<open>Comparisons with NULL are not true; LEAST and GREATEST skip NULL.\<close>

definition sql_le :: "instant option \<Rightarrow> instant option \<Rightarrow> bool" where
  "sql_le a b = (case (a, b) of (Some x, Some y) \<Rightarrow> x \<le> y | _ \<Rightarrow> False)"

definition sql_least :: "instant option \<Rightarrow> instant option \<Rightarrow> instant option" where
  "sql_least a b = (case (a, b) of (Some x, Some y) \<Rightarrow> Some (min x y) | (None, y) \<Rightarrow> y | (x, None) \<Rightarrow> x)"

definition sql_greatest :: "instant option \<Rightarrow> instant option \<Rightarrow> instant option" where
  "sql_greatest a b = (case (a, b) of (Some x, Some y) \<Rightarrow> Some (max x y) | (None, y) \<Rightarrow> y | (x, None) \<Rightarrow> x)"

definition coalesce :: "'a option \<Rightarrow> 'a option \<Rightarrow> 'a option" where
  "coalesce a b = (case a of None \<Rightarrow> b | Some x \<Rightarrow> Some x)"

datatype IngestScheduleLane = FleetLane | WakeLane

definition unleased :: "instant \<Rightarrow> schedule_row \<Rightarrow> bool" where
  "unleased now row \<longleftrightarrow> srLeasedUntil row = None \<or> sql_le (srLeasedUntil row) (Some now)"

definition buildEligibility :: "IngestScheduleLane \<Rightarrow> instant \<Rightarrow> schedule_row \<Rightarrow> bool" where
  "buildEligibility lane now row \<longleftrightarrow>
    (if lane = WakeLane
     then sql_le (srWakeDueAt row) (Some now) \<and> srDueAt row \<noteq> None
       \<and> (srFailureCount row = 0 \<or> sql_le (srDueAt row) (Some now)) \<and> unleased now row
     else sql_le (srDueAt row) (Some now) \<and> unleased now row)"

definition buildOrdering :: "IngestScheduleLane \<Rightarrow> schedule_row \<Rightarrow> instant option" where
  "buildOrdering lane row = (if lane = WakeLane then srWakeDueAt row else srDueAt row)"

record ClaimIngestsInput =
  ciLane :: IngestScheduleLane
  ciLeaseMs :: int
  ciLeaseToken :: string
  ciLimit :: int

record ClaimedIngest =
  clCalendarId :: string
  clClaimedDueAt :: "instant option"
  clFailureCount :: int
  clLagMs :: int
  clLeaseToken :: string
  clReleaseSeq :: nat
  clUserId :: string
  clWakeCorrelationId :: "string option"
  clWakeDueAt :: "instant option"
  clWakeReceivedAt :: "instant option"
  clWakeSeq :: nat

definition claim_due :: "ClaimIngestsInput \<Rightarrow> string set \<Rightarrow> instant \<Rightarrow> schedule_row list \<Rightarrow> schedule_row list" where
  "claim_due input locked now rows =
    take (nat (ciLimit input)) (sort_key (\<lambda>row. or_else (buildOrdering (ciLane input) row) 0)
      (filter (\<lambda>row. buildEligibility (ciLane input) now row \<and> srCalendarId row \<notin> locked) rows))"

definition lease_row :: "ClaimIngestsInput \<Rightarrow> instant \<Rightarrow> schedule_row \<Rightarrow> schedule_row" where
  "lease_row input now row = row\<lparr>srDueAt := Some (now + ciLeaseMs input),
    srLeasedUntil := Some (now + ciLeaseMs input), srLeaseToken := Some (ciLeaseToken input),
    srLastAttemptAt := Some now\<rparr>"

definition claimIngests ::
    "(string \<Rightarrow> string) \<Rightarrow> ClaimIngestsInput \<Rightarrow> string set \<Rightarrow> instant \<Rightarrow> schedule_row list \<Rightarrow>
      ClaimedIngest list \<times> schedule_row list" where
  "claimIngests userOf input locked now rows =
    (if ciLimit input \<le> 0 then ([], rows)
     else (let due = claim_due input locked now rows
       in (map (\<lambda>row. \<lparr>clCalendarId = srCalendarId row, clClaimedDueAt = srDueAt row,
             clFailureCount = srFailureCount row,
             clLagMs = max 0 (now - or_else (buildOrdering (ciLane input) row) 0),
             clLeaseToken = ciLeaseToken input, clReleaseSeq = srReleaseSeq row,
             clUserId = userOf (srCalendarId row), clWakeCorrelationId = srWakeCorrelationId row,
             clWakeDueAt = srWakeDueAt row, clWakeReceivedAt = srWakeReceivedAt row,
             clWakeSeq = srWakeSeq row\<rparr>) due,
           map (\<lambda>row. if srCalendarId row \<in> srCalendarId ` set due then lease_row input now row else row) rows)))"

record IngestCompletion =
  icAttempted :: bool
  icCalendarId :: string
  icClaimedReleaseSeq :: nat
  icClaimedWakeSeq :: nat
  icFailed :: bool
  icFailureCount :: int
  icLeaseToken :: string
  icNextDueInMs :: "int option"
  icParkedReason :: "IngestScheduleParkedReason option"
  icSucceeded :: bool

definition complete_row :: "instant \<Rightarrow> IngestCompletion \<Rightarrow> schedule_row \<Rightarrow> schedule_row" where
  "complete_row now completion row =
    (let consumesWake = (icAttempted completion \<and> srWakeSeq row = icClaimedWakeSeq completion);
         released = (srReleaseSeq row \<noteq> icClaimedReleaseSeq completion);
         nextDue = map_option (\<lambda>ms. now + ms) (icNextDueInMs completion)
     in row\<lparr>srDueAt := (if released then srDueAt row else nextDue),
        srParkedReason := (if released then srParkedReason row else icParkedReason completion),
        srFailureCount := (if released then srFailureCount row else icFailureCount completion),
        srLastFailureAt := (if icFailed completion \<and> \<not> released then Some now else srLastFailureAt row),
        srLastSuccessAt := (if icSucceeded completion then Some now else srLastSuccessAt row),
        srLeasedUntil := None, srLeaseToken := None,
        srWakeDueAt := (if consumesWake then None
          else if \<not> icAttempted completion \<and> icNextDueInMs completion \<noteq> None
          then sql_greatest (srWakeDueAt row) nextDue else srWakeDueAt row),
        srWakeReceivedAt := (if consumesWake then None else srWakeReceivedAt row),
        srWakeCorrelationId := (if consumesWake then None else srWakeCorrelationId row)\<rparr>)"

definition completion_for :: "schedule_row \<Rightarrow> IngestCompletion list \<Rightarrow> IngestCompletion option" where
  "completion_for row completions = find (\<lambda>completion. icCalendarId completion = srCalendarId row
    \<and> srLeaseToken row = Some (icLeaseToken completion)) completions"

definition completeIngests ::
    "IngestCompletion list \<Rightarrow> instant \<Rightarrow> schedule_row list \<Rightarrow> string list \<times> schedule_row list" where
  "completeIngests completions now rows =
    (map srCalendarId (filter (\<lambda>row. completion_for row completions \<noteq> None) rows),
     map (\<lambda>row. case completion_for row completions of None \<Rightarrow> row
       | Some completion \<Rightarrow> complete_row now completion row) rows)"

record WakeIngestsInput =
  wiCorrelationId :: "string option"
  wiDebounceMs :: int

definition buildWakeAssignments :: "WakeIngestsInput \<Rightarrow> instant \<Rightarrow> schedule_row \<Rightarrow> schedule_row" where
  "buildWakeAssignments input now row =
    (let deadline = Some (now + wiDebounceMs input);
         leased = (srLeasedUntil row \<noteq> None \<and> \<not> sql_le (srLeasedUntil row) (Some now));
         servedByCurrentRead = (leased \<and> (srWakeReceivedAt row = None
           \<or> sql_le (srWakeReceivedAt row) (srLastAttemptAt row)))
     in row\<lparr>srWakeDueAt := sql_least (coalesce (srWakeDueAt row) deadline) deadline,
        srWakeReceivedAt := (if servedByCurrentRead then Some now else coalesce (srWakeReceivedAt row) (Some now)),
        srWakeCorrelationId := (if servedByCurrentRead then wiCorrelationId input
          else coalesce (srWakeCorrelationId row) (wiCorrelationId input)),
        srWakeSeq := srWakeSeq row + 1\<rparr>)"

definition wake_rows :: "(schedule_row \<Rightarrow> bool) \<Rightarrow> WakeIngestsInput \<Rightarrow> instant \<Rightarrow> schedule_row list \<Rightarrow> schedule_row list" where
  "wake_rows p input now rows =
    map (\<lambda>row. if p row \<and> srDueAt row \<noteq> None then buildWakeAssignments input now row else row) rows"

definition wakeIngests ::
    "string list \<Rightarrow> WakeIngestsInput \<Rightarrow> instant \<Rightarrow> schedule_row list \<Rightarrow> string list \<times> schedule_row list" where
  "wakeIngests calendarIds input now rows =
    (map srCalendarId (filter (\<lambda>row. srCalendarId row \<in> set calendarIds \<and> srDueAt row \<noteq> None) rows),
     wake_rows (\<lambda>row. srCalendarId row \<in> set calendarIds) input now rows)"

definition wakeUserIngests ::
    "(string \<Rightarrow> string) \<Rightarrow> string \<Rightarrow> WakeIngestsInput \<Rightarrow> instant \<Rightarrow> schedule_row list \<Rightarrow> string list \<times> schedule_row list" where
  "wakeUserIngests userOf userId input now rows =
    (map srCalendarId (filter (\<lambda>row. userOf (srCalendarId row) = userId \<and> srDueAt row \<noteq> None) rows),
     wake_rows (\<lambda>row. userOf (srCalendarId row) = userId) input now rows)"

definition releaseIngests ::
    "(string \<times> string) list \<Rightarrow> instant \<Rightarrow> schedule_row list \<Rightarrow> string list \<times> schedule_row list" where
  "releaseIngests claims now rows =
    (let hit = (\<lambda>row. list_ex (\<lambda>(calendarId, token). calendarId = srCalendarId row \<and> srLeaseToken row = Some token) claims)
     in (map srCalendarId (filter hit rows),
         map (\<lambda>row. if hit row then row\<lparr>
             srDueAt := (if srParkedReason row = Some Ineligible then None else Some now),
             srLeasedUntil := None, srLeaseToken := None\<rparr> else row) rows))"

section \<open>The triggers\<close>

definition new_schedule_row :: "string \<Rightarrow> instant option \<Rightarrow> IngestScheduleParkedReason option \<Rightarrow> schedule_row" where
  "new_schedule_row calendarId due parked = \<lparr>srCalendarId = calendarId, srDueAt = due, srFailureCount = 0,
    srLastAttemptAt = None, srLastFailureAt = None, srLastSuccessAt = None, srLeaseToken = None,
    srLeasedUntil = None, srParkedReason = parked, srReleaseSeq = 0, srWakeCorrelationId = None,
    srWakeDueAt = None, srWakeReceivedAt = None, srWakeSeq = 0\<rparr>"

text \<open>A calendar is inserted, or its eligibility (enabled, with pull) is written.\<close>

definition track_calendar :: "string \<Rightarrow> bool \<Rightarrow> instant \<Rightarrow> schedule_row list \<Rightarrow> schedule_row list" where
  "track_calendar calendarId eligible now rows =
    (if calendarId \<notin> srCalendarId ` set rows
     then rows @ [if eligible then new_schedule_row calendarId (Some now) None
       else new_schedule_row calendarId None (Some Ineligible)]
     else map (\<lambda>row. if srCalendarId row \<noteq> calendarId then row
       else if eligible then
         (if srParkedReason row = Some Ineligible
          then row\<lparr>srDueAt := Some now, srParkedReason := None, srReleaseSeq := srReleaseSeq row + 1\<rparr> else row)
       else
         (if srParkedReason row \<noteq> Some Ineligible
          then row\<lparr>srDueAt := None, srParkedReason := Some Ineligible, srReleaseSeq := srReleaseSeq row + 1\<rparr>
          else row)) rows)"

definition release_row :: "instant \<Rightarrow> schedule_row \<Rightarrow> schedule_row" where
  "release_row now row = row\<lparr>srDueAt := Some now, srParkedReason := None, srFailureCount := 0,
    srReleaseSeq := srReleaseSeq row + 1\<rparr>"

text \<open>An account is reconnected, or the credentials of a CalDAV account change.\<close>

definition release_account :: "string set \<Rightarrow> instant \<Rightarrow> schedule_row list \<Rightarrow> schedule_row list" where
  "release_account calendarIds now rows =
    map (\<lambda>row. if (srParkedReason row = Some CredentialRejected \<or> srFailureCount row > 0)
      \<and> srCalendarId row \<in> calendarIds then release_row now row else row) rows"

definition release_credential :: "string set \<Rightarrow> instant \<Rightarrow> schedule_row list \<Rightarrow> schedule_row list" where
  "release_credential calendarIds now rows =
    map (\<lambda>row. if srParkedReason row = Some CredentialRejected \<and> srCalendarId row \<in> calendarIds
      then release_row now row else row) rows"

text \<open>A sign-in, a new mapping or a publication wakes calendars.\<close>

definition trigger_wake :: "string set \<Rightarrow> instant \<Rightarrow> schedule_row list \<Rightarrow> schedule_row list" where
  "trigger_wake calendarIds now rows =
    map (\<lambda>row. if srDueAt row \<noteq> None \<and> srCalendarId row \<in> calendarIds
      then row\<lparr>srWakeDueAt := sql_least (coalesce (srWakeDueAt row) (Some now)) (Some now),
        srWakeReceivedAt := coalesce (srWakeReceivedAt row) (Some now), srWakeSeq := srWakeSeq row + 1\<rparr> else row) rows"

section \<open>The round\<close>

definition groupClaims :: "IngestScheduleLane \<Rightarrow> ClaimedIngest list \<Rightarrow> ClaimedIngest list list" where
  "groupClaims lane claims =
    (if lane = FleetLane then [claims]
     else map snd (fold (\<lambda>claim. group_push (clUserId claim) claim) claims []))"

definition isEarlierWake :: "ClaimedIngest \<Rightarrow> ClaimedIngest option \<Rightarrow> bool" where
  "isEarlierWake candidate incumbent =
    (case incumbent of None \<Rightarrow> True
     | Some i \<Rightarrow> (case clWakeReceivedAt i of None \<Rightarrow> True
         | Some t \<Rightarrow> (case clWakeReceivedAt candidate of None \<Rightarrow> False | Some u \<Rightarrow> u < t)))"

definition attributeWakesToUsers :: "ClaimedIngest list \<Rightarrow> (string, ClaimedIngest) jsmap" where
  "attributeWakesToUsers claims =
    fold (\<lambda>claim byUser.
      if clWakeCorrelationId claim = None \<or> clWakeReceivedAt claim = None then byUser
      else if isEarlierWake claim (map_of byUser (clUserId claim))
      then AList.update (clUserId claim) claim byUser else byUser) claims []"

definition DEFAULT_SCHEDULE_CONTEXT :: IngestIntervalInput where
  "DEFAULT_SCHEDULE_CONTEXT = \<lparr>iiDormant = False, iiPlan = ProPlan, iiPushHealthy = False\<rparr>"

definition buildCompletion ::
    "IngestIntervalDials \<Rightarrow> rat \<Rightarrow> ClaimedIngest \<Rightarrow> IngestOutcome \<Rightarrow> IngestIntervalInput \<Rightarrow> IngestCompletion" where
  "buildCompletion dials random claim outcome context =
    (let intervalMs = resolveIngestIntervalMs context dials;
         decision = resolveIngestScheduleDecision outcome \<lparr>diFailureCount = clFailureCount claim,
           diIntervalMs = intervalMs, diJitterMs = resolveIngestJitterMs intervalMs random\<rparr>
     in \<lparr>icAttempted = idAttempted decision, icCalendarId = clCalendarId claim,
         icClaimedReleaseSeq = clReleaseSeq claim, icClaimedWakeSeq = clWakeSeq claim,
         icFailed = idFailed decision, icFailureCount = idFailureCount decision,
         icLeaseToken = clLeaseToken claim, icNextDueInMs = Some (idNextDueInMs decision),
         icParkedReason = idParkedReason decision, icSucceeded = idSucceeded decision\<rparr>)"

text \<open>What an ingest call reports: its failures, and the outcomes by calendar; or it threw.\<close>

type_synonym ingestion_report = "(nat \<times> (string \<times> IngestOutcome) list) option"

definition resolveFallbackOutcome :: "ingestion_report \<Rightarrow> IngestOutcome" where
  "resolveFallbackOutcome ingestion = (case ingestion of Some (failures, _) \<Rightarrow>
     if failures = 0 then Unresolvable else Failed False | None \<Rightarrow> Failed False)"

definition resolveOutcomes :: "ClaimedIngest list \<Rightarrow> ingestion_report \<Rightarrow> (string, IngestOutcome) jsmap" where
  "resolveOutcomes claims ingestion =
    (let reported = jsmap_of (case ingestion of None \<Rightarrow> [] | Some (_, outcomes) \<Rightarrow> outcomes);
         fallback = resolveFallbackOutcome ingestion
     in jsmap_of (map (\<lambda>claim. (clCalendarId claim, or_else (map_of reported (clCalendarId claim)) fallback)) claims))"

definition round_completions ::
    "IngestIntervalDials \<Rightarrow> (ClaimedIngest \<Rightarrow> rat) \<Rightarrow> (string \<Rightarrow> IngestIntervalInput option) \<Rightarrow>
      ClaimedIngest list \<Rightarrow> ingestion_report \<Rightarrow> IngestCompletion list" where
  "round_completions dials random contexts claims ingestion =
    map (\<lambda>claim. buildCompletion dials (random claim) claim
      (or_else (map_of (resolveOutcomes claims ingestion) (clCalendarId claim)) (Failed False))
      (or_else (contexts (clCalendarId claim)) DEFAULT_SCHEDULE_CONTEXT)) claims"

definition isCompletionFailing :: "IngestCompletion \<Rightarrow> bool" where
  "isCompletionFailing completion \<longleftrightarrow> icFailureCount completion > 0
    \<or> icParkedReason completion \<in> {Some CredentialRejected, Some UnresolvableParked}"

definition listUsersWithChangedReadHealth :: "ClaimedIngest list \<Rightarrow> IngestCompletion list \<Rightarrow> string list" where
  "listUsersWithChangedReadHealth claims completions =
    (let byCalendar = jsmap_of (map (\<lambda>c. (icCalendarId c, c)) completions)
     in fold (\<lambda>u us. if u \<in> set us then us else us @ [u])
       (concat (map (\<lambda>claim. case map_of byCalendar (clCalendarId claim) of None \<Rightarrow> []
         | Some completion \<Rightarrow> if \<not> icAttempted completion
             \<or> isCompletionFailing completion = (clFailureCount claim > 0) then [] else [clUserId claim]) claims)) [])"

section \<open>Any order of events\<close>

text \<open>
  Rounds claim, read and complete; webhooks and requests wake; the shutdown releases; triggers fire;
  time passes. A lease token is a fresh UUID of its claim. \<open>iwClaims\<close> are the claims that are neither
  completed nor released, with the end of their lease; \<open>iwServed\<close> is the newest wake that a completed
  read of the calendar covers; \<open>iwEligible\<close> are the calendars that are enabled and have pull.
\<close>

record ingest_world =
  iwRows :: "schedule_row list"
  iwNow :: instant
  iwTokens :: "string set"
  iwClaims :: "(ClaimedIngest \<times> instant) list"
  iwServed :: "string \<Rightarrow> nat"
  iwEligible :: "string set"

definition initial_schedule :: ingest_world where
  "initial_schedule = \<lparr>iwRows = [], iwNow = 0, iwTokens = {}, iwClaims = [], iwServed = (\<lambda>_. 0), iwEligible = {}\<rparr>"

definition claim_world :: "(string \<Rightarrow> string) \<Rightarrow> ClaimIngestsInput \<Rightarrow> string set \<Rightarrow> ingest_world \<Rightarrow> ingest_world" where
  "claim_world userOf input locked w =
    (let (claims, rows) = claimIngests userOf input locked (iwNow w) (iwRows w)
     in w\<lparr>iwRows := rows, iwTokens := insert (ciLeaseToken input) (iwTokens w),
        iwClaims := iwClaims w @ map (\<lambda>claim. (claim, iwNow w + ciLeaseMs input)) claims\<rparr>)"

definition served_by :: "IngestCompletion list \<Rightarrow> schedule_row list \<Rightarrow> (string \<Rightarrow> nat) \<Rightarrow> string \<Rightarrow> nat" where
  "served_by completions rows served c =
    (case find (\<lambda>row. srCalendarId row = c) rows of None \<Rightarrow> served c
     | Some row \<Rightarrow> (case completion_for row completions of None \<Rightarrow> served c
         | Some completion \<Rightarrow> if icAttempted completion then max (served c) (icClaimedWakeSeq completion) else served c))"

definition complete_world :: "IngestCompletion list \<Rightarrow> ingest_world \<Rightarrow> ingest_world" where
  "complete_world completions w = w\<lparr>iwRows := snd (completeIngests completions (iwNow w) (iwRows w)),
    iwServed := served_by completions (iwRows w) (iwServed w),
    iwClaims := filter (\<lambda>(claim, _). \<not> list_ex (\<lambda>k. icCalendarId k = clCalendarId claim
      \<and> icLeaseToken k = clLeaseToken claim) completions) (iwClaims w)\<rparr>"

definition release_world :: "ClaimedIngest list \<Rightarrow> ingest_world \<Rightarrow> ingest_world" where
  "release_world claims w = w\<lparr>
    iwRows := snd (releaseIngests (map (\<lambda>c. (clCalendarId c, clLeaseToken c)) claims) (iwNow w) (iwRows w)),
    iwClaims := filter (\<lambda>(claim, _). (clCalendarId claim, clLeaseToken claim) \<notin>
      (\<lambda>c. (clCalendarId c, clLeaseToken c)) ` set claims) (iwClaims w)\<rparr>"

inductive ingest_step :: "(string \<Rightarrow> string) \<Rightarrow> ingest_world \<Rightarrow> ingest_world \<Rightarrow> bool" for userOf :: "string \<Rightarrow> string" where
  is_time: "iwNow w \<le> t \<Longrightarrow> ingest_step userOf w (w\<lparr>iwNow := t\<rparr>)"
| is_claim: "ciLeaseToken input \<notin> iwTokens w \<Longrightarrow> ingest_step userOf w (claim_world userOf input locked w)"
| is_complete: "set claims \<subseteq> fst ` set (iwClaims w) \<Longrightarrow>
    ingest_step userOf w (complete_world (round_completions dials random contexts claims ingestion) w)"
| is_release: "set claims \<subseteq> fst ` set (iwClaims w) \<Longrightarrow> ingest_step userOf w (release_world claims w)"
| is_wake: "ingest_step userOf w (w\<lparr>iwRows := snd (wakeIngests calendarIds wake (iwNow w) (iwRows w))\<rparr>)"
| is_wake_user: "ingest_step userOf w (w\<lparr>iwRows := snd (wakeUserIngests userOf userId wake (iwNow w) (iwRows w))\<rparr>)"
| is_track: "ingest_step userOf w (w\<lparr>iwRows := track_calendar c eligible (iwNow w) (iwRows w),
    iwEligible := (if eligible then insert c (iwEligible w) else iwEligible w - {c})\<rparr>)"
| is_release_account: "ingest_step userOf w (w\<lparr>iwRows := release_account cs (iwNow w) (iwRows w)\<rparr>)"
| is_release_credential: "ingest_step userOf w (w\<lparr>iwRows := release_credential cs (iwNow w) (iwRows w)\<rparr>)"
| is_trigger_wake: "ingest_step userOf w (w\<lparr>iwRows := trigger_wake cs (iwNow w) (iwRows w)\<rparr>)"

inductive ingest_reach :: "(string \<Rightarrow> string) \<Rightarrow> ingest_world \<Rightarrow> bool" for userOf :: "string \<Rightarrow> string" where
  ingest_start: "ingest_reach userOf initial_schedule"
| ingest_more: "ingest_reach userOf w \<Longrightarrow> ingest_step userOf w w' \<Longrightarrow> ingest_reach userOf w'"

end
