(* ===== verification/Ingest_Schedule_Correct.thy ===== *)
theory Ingest_Schedule_Correct
  imports Ingest_Schedule
begin

text \<open>
  What the schedule of the reads guarantees, for any order of rounds, wakes, releases and triggers: a
  calendar is read by one round at a time, a wake waits until a read that began after it, every
  enabled calendar is due at some time, and a retry is never put off for more than a bound.
\<close>

section \<open>The invariant\<close>

definition lease_ok :: "instant \<Rightarrow> (ClaimedIngest \<times> instant) set \<Rightarrow> schedule_row \<Rightarrow> bool" where
  "lease_ok now claims row \<longleftrightarrow> (\<forall>(cl, u) \<in> claims. clCalendarId cl = srCalendarId row \<longrightarrow> now < u \<longrightarrow>
    srLeaseToken row = Some (clLeaseToken cl) \<and> srLeasedUntil row = Some u)"

definition claimed_ok :: "(ClaimedIngest \<times> instant) set \<Rightarrow> schedule_row \<Rightarrow> bool" where
  "claimed_ok claims row \<longleftrightarrow>
    (\<forall>(cl, u) \<in> claims. clCalendarId cl = srCalendarId row \<longrightarrow> clWakeSeq cl \<le> srWakeSeq row)"

definition wake_ok :: "(string \<Rightarrow> nat) \<Rightarrow> schedule_row \<Rightarrow> bool" where
  "wake_ok served row \<longleftrightarrow> served (srCalendarId row) \<le> srWakeSeq row \<and>
    (srWakeDueAt row = None \<longrightarrow> srWakeSeq row = served (srCalendarId row))"

definition due_ok :: "string set \<Rightarrow> schedule_row \<Rightarrow> bool" where
  "due_ok eligible row \<longleftrightarrow> (srDueAt row = None \<longrightarrow> srParkedReason row = Some Ineligible) \<and>
    (srParkedReason row = Some Ineligible \<longrightarrow> srDueAt row = None \<and> srCalendarId row \<notin> eligible)"

definition row_ok :: "ingest_world \<Rightarrow> schedule_row \<Rightarrow> bool" where
  "row_ok w row \<longleftrightarrow> lease_ok (iwNow w) (set (iwClaims w)) row \<and> claimed_ok (set (iwClaims w)) row \<and>
    wake_ok (iwServed w) row \<and> due_ok (iwEligible w) row"

definition row_ids :: "ingest_world \<Rightarrow> string list" where
  "row_ids w = map srCalendarId (iwRows w)"

definition claims_ok :: "ingest_world \<Rightarrow> bool" where
  "claims_ok w \<longleftrightarrow> (\<forall>(cl, u) \<in> set (iwClaims w). clLeaseToken cl \<in> iwTokens w \<and> clCalendarId cl \<in> set (row_ids w)) \<and>
    (\<forall>p \<in> set (iwClaims w). \<forall>q \<in> set (iwClaims w). clCalendarId (fst p) = clCalendarId (fst q) \<longrightarrow>
      clLeaseToken (fst p) = clLeaseToken (fst q) \<longrightarrow> p = q)"

definition schedule_ok :: "ingest_world \<Rightarrow> bool" where
  "schedule_ok w \<longleftrightarrow> distinct (row_ids w) \<and> (\<forall>row \<in> set (iwRows w). row_ok w row) \<and> claims_ok w \<and>
    (\<forall>c. c \<notin> set (row_ids w) \<longrightarrow> iwServed w c = 0)"

lemma schedule_okI:
  "\<lbrakk>distinct (row_ids w); \<And>row. row \<in> set (iwRows w) \<Longrightarrow> row_ok w row; claims_ok w;
    \<And>c. c \<notin> set (row_ids w) \<Longrightarrow> iwServed w c = 0\<rbrakk> \<Longrightarrow> schedule_ok w"
  by (simp add: schedule_ok_def)

lemma row_okI:
  "\<lbrakk>lease_ok (iwNow w) (set (iwClaims w)) row; claimed_ok (set (iwClaims w)) row; wake_ok (iwServed w) row;
    due_ok (iwEligible w) row\<rbrakk> \<Longrightarrow> row_ok w row"
  by (simp add: row_ok_def)

lemma schedule_okD:
  assumes "schedule_ok w"
  shows "distinct (row_ids w)" "row \<in> set (iwRows w) \<Longrightarrow> row_ok w row" "claims_ok w"
    "c \<notin> set (row_ids w) \<Longrightarrow> iwServed w c = 0"
  using assms by (simp_all add: schedule_ok_def)

lemma row_okD:
  assumes "row_ok w row"
  shows "lease_ok (iwNow w) (set (iwClaims w)) row" "claimed_ok (set (iwClaims w)) row"
    "wake_ok (iwServed w) row" "due_ok (iwEligible w) row"
  using assms by (simp_all add: row_ok_def)

lemma schedule_leaseD:
  "lease_ok now claims row \<Longrightarrow> (cl, u) \<in> claims \<Longrightarrow> clCalendarId cl = srCalendarId row \<Longrightarrow> now < u \<Longrightarrow>
    srLeaseToken row = Some (clLeaseToken cl) \<and> srLeasedUntil row = Some u"
  by (auto simp: lease_ok_def)

lemma claimed_okD:
  "claimed_ok claims row \<Longrightarrow> (cl, u) \<in> claims \<Longrightarrow> clCalendarId cl = srCalendarId row \<Longrightarrow>
    clWakeSeq cl \<le> srWakeSeq row"
  by (auto simp: claimed_ok_def)

section \<open>Wakes and triggers\<close>

text \<open>A change of a row that leaves its lease alone and forgets no wake.\<close>

definition quiet :: "string set \<Rightarrow> string set \<Rightarrow> schedule_row \<Rightarrow> schedule_row \<Rightarrow> bool" where
  "quiet e e' row row' \<longleftrightarrow> srCalendarId row' = srCalendarId row \<and> srLeaseToken row' = srLeaseToken row \<and>
    srLeasedUntil row' = srLeasedUntil row \<and> srWakeSeq row \<le> srWakeSeq row' \<and>
    (srWakeDueAt row' = None \<longrightarrow> srWakeDueAt row = None \<and> srWakeSeq row' = srWakeSeq row) \<and>
    (due_ok e row \<longrightarrow> due_ok e' row')"

lemma quiet_row_ok:
  assumes ok: "row_ok w row" and q: "quiet (iwEligible w) e row row'"
    and w': "iwClaims w' = iwClaims w" "iwNow w' = iwNow w" "iwServed w' = iwServed w" "iwEligible w' = e"
  shows "row_ok w' row'"
proof (rule row_okI)
  show "lease_ok (iwNow w') (set (iwClaims w')) row'" using row_okD(1) [OF ok] q w' by (simp add: lease_ok_def quiet_def)
  show "claimed_ok (set (iwClaims w')) row'" using row_okD(2) [OF ok] q w'
    by (fastforce simp: claimed_ok_def quiet_def)
  show "wake_ok (iwServed w') row'" using row_okD(3) [OF ok] q w' by (auto simp: wake_ok_def quiet_def)
  show "due_ok (iwEligible w') row'" using row_okD(4) [OF ok] q w' by (simp add: quiet_def)
qed

lemma quiet_schedule_ok:
  assumes ok: "schedule_ok w" and q: "\<And>row. row \<in> set (iwRows w) \<Longrightarrow> quiet (iwEligible w) e row (f row)"
  shows "schedule_ok (w\<lparr>iwRows := map f (iwRows w), iwEligible := e\<rparr>)" (is "schedule_ok ?w")
proof -
  have ids: "row_ids ?w = row_ids w" using q by (auto simp: row_ids_def quiet_def)
  show ?thesis
  proof (rule schedule_okI)
    show "distinct (row_ids ?w)" using schedule_okD(1) [OF ok] ids by simp
    show "claims_ok ?w" using schedule_okD(3) [OF ok] ids by (simp add: claims_ok_def)
    show "iwServed ?w c = 0" if "c \<notin> set (row_ids ?w)" for c using schedule_okD(4) [OF ok] that ids by simp
    fix row' assume "row' \<in> set (iwRows ?w)"
    then obtain row where r: "row \<in> set (iwRows w)" "row' = f row" by auto
    show "row_ok ?w row'" unfolding r(2)
      by (rule quiet_row_ok [OF schedule_okD(2) [OF ok r(1)] q [OF r(1)]]) simp_all
  qed
qed

lemma quiet_rows_ok:
  assumes ok: "schedule_ok w" and q: "\<And>row. row \<in> set (iwRows w) \<Longrightarrow> quiet (iwEligible w) (iwEligible w) row (f row)"
  shows "schedule_ok (w\<lparr>iwRows := map f (iwRows w)\<rparr>)"
  using quiet_schedule_ok [OF ok, of "iwEligible w" f] q by simp

lemma quiet_refl [simp]: "quiet e e row row" by (simp add: quiet_def)

lemma wake_quiet: "srDueAt row \<noteq> None \<Longrightarrow> quiet e e row (buildWakeAssignments input now row)"
  by (auto simp: quiet_def buildWakeAssignments_def Let_def due_ok_def sql_least_def coalesce_def split: option.splits)

lemma wake_rows_ok: "schedule_ok w \<Longrightarrow> schedule_ok (w\<lparr>iwRows := wake_rows p input (iwNow w) (iwRows w)\<rparr>)"
  unfolding wake_rows_def
  by (rule quiet_rows_ok) (simp_all add: wake_quiet del: not_None_eq)

lemma trigger_wake_ok: "schedule_ok w \<Longrightarrow> schedule_ok (w\<lparr>iwRows := trigger_wake cs (iwNow w) (iwRows w)\<rparr>)"
  unfolding trigger_wake_def
  by (rule quiet_rows_ok)
    (auto simp: quiet_def due_ok_def sql_least_def coalesce_def split: option.splits)

lemma release_row_is_quiet: "quiet e e row (release_row now row)"
  by (simp add: quiet_def release_row_def due_ok_def)

lemma release_account_ok: "schedule_ok w \<Longrightarrow> schedule_ok (w\<lparr>iwRows := release_account cs (iwNow w) (iwRows w)\<rparr>)"
  unfolding release_account_def
  by (rule quiet_rows_ok) (simp_all add: release_row_is_quiet)

lemma release_credential_ok: "schedule_ok w \<Longrightarrow> schedule_ok (w\<lparr>iwRows := release_credential cs (iwNow w) (iwRows w)\<rparr>)"
  unfolding release_credential_def
  by (rule quiet_rows_ok) (simp_all add: release_row_is_quiet)

section \<open>Calendars come and go\<close>

lemma track_calendar_ok:
  fixes w :: ingest_world
  defines "e eligible c \<equiv> if eligible then insert c (iwEligible w) else iwEligible w - {c}"
  assumes ok: "schedule_ok w"
  shows "schedule_ok (w\<lparr>iwRows := track_calendar c eligible (iwNow w) (iwRows w), iwEligible := e eligible c\<rparr>)"
    (is "schedule_ok ?w")
proof (cases "c \<in> set (row_ids w)")
  case True
  then have "track_calendar c eligible (iwNow w) (iwRows w) = map (\<lambda>row. if srCalendarId row \<noteq> c then row
      else if eligible then (if srParkedReason row = Some Ineligible
        then row\<lparr>srDueAt := Some (iwNow w), srParkedReason := None, srReleaseSeq := srReleaseSeq row + 1\<rparr> else row)
      else (if srParkedReason row \<noteq> Some Ineligible
        then row\<lparr>srDueAt := None, srParkedReason := Some Ineligible, srReleaseSeq := srReleaseSeq row + 1\<rparr>
        else row)) (iwRows w)"
    by (simp add: track_calendar_def row_ids_def image_iff)
  then show ?thesis unfolding e_def
    by (auto intro!: quiet_schedule_ok [OF ok] simp: quiet_def due_ok_def)
next
  case False
  let ?new = "if eligible then new_schedule_row c (Some (iwNow w)) None else new_schedule_row c None (Some Ineligible)"
  have id: "srCalendarId ?new = c" by (simp add: new_schedule_row_def)
  have rows: "iwRows ?w = iwRows w @ [?new]" using False by (simp add: track_calendar_def row_ids_def)
  have old: "row_ids ?w = row_ids w @ [c]" unfolding row_ids_def rows using id by simp
  have other: "srCalendarId row \<noteq> c" if "row \<in> set (iwRows w)" for row
    using False that by (auto simp: row_ids_def)
  have unclaimed: "clCalendarId cl \<noteq> c" if "(cl, u) \<in> set (iwClaims w)" for cl u
    using schedule_okD(3) [OF ok] that False by (auto simp: claims_ok_def)
  show ?thesis
  proof (rule schedule_okI)
    show "distinct (row_ids ?w)" unfolding old using schedule_okD(1) [OF ok] False by simp
    show "claims_ok ?w" using schedule_okD(3) [OF ok] unfolding claims_ok_def old by auto
    show "iwServed ?w d = 0" if "d \<notin> set (row_ids ?w)" for d
      using schedule_okD(4) [OF ok, of d] that unfolding old by simp
    fix row assume "row \<in> set (iwRows ?w)"
    then consider "row \<in> set (iwRows w)" | "row = ?new" unfolding rows by auto
    then show "row_ok ?w row"
    proof cases
      case 1
      then have "quiet (iwEligible w) (e eligible c) row row" using other [OF 1] by (auto simp: quiet_def due_ok_def e_def)
      then show ?thesis by (rule quiet_row_ok [OF schedule_okD(2) [OF ok 1]]) simp_all
    next
      case 2
      show ?thesis unfolding 2
      proof (rule row_okI)
        show "lease_ok (iwNow ?w) (set (iwClaims ?w)) ?new" unfolding lease_ok_def id using unclaimed by auto
        show "claimed_ok (set (iwClaims ?w)) ?new" unfolding claimed_ok_def id using unclaimed by auto
        show "wake_ok (iwServed ?w) ?new"
          using schedule_okD(4) [OF ok False] by (simp add: wake_ok_def new_schedule_row_def)
        show "due_ok (iwEligible ?w) ?new" by (simp add: due_ok_def new_schedule_row_def e_def)
      qed
    qed
  qed
qed

section \<open>Claims\<close>

lemma claim_due_facts:
  assumes "row \<in> set (claim_due input locked now rows)"
  shows "row \<in> set rows" "buildEligibility (ciLane input) now row"
  using assms set_take_subset by (fastforce simp: claim_due_def)+

lemma eligible_row: "buildEligibility lane now row \<Longrightarrow> unleased now row \<and> srDueAt row \<noteq> None"
  by (auto simp: buildEligibility_def sql_le_def split: if_splits option.splits)

lemma unleased_expired:
  "unleased now row \<Longrightarrow> srLeasedUntil row = Some u \<Longrightarrow> u \<le> now"
  by (auto simp: unleased_def sql_le_def)

definition claim_of :: "(string \<Rightarrow> string) \<Rightarrow> ClaimIngestsInput \<Rightarrow> instant \<Rightarrow> schedule_row \<Rightarrow> ClaimedIngest" where
  "claim_of userOf input now row = \<lparr>clCalendarId = srCalendarId row, clClaimedDueAt = srDueAt row,
    clFailureCount = srFailureCount row, clLagMs = max 0 (now - or_else (buildOrdering (ciLane input) row) 0),
    clLeaseToken = ciLeaseToken input, clReleaseSeq = srReleaseSeq row, clUserId = userOf (srCalendarId row),
    clWakeCorrelationId = srWakeCorrelationId row, clWakeDueAt = srWakeDueAt row,
    clWakeReceivedAt = srWakeReceivedAt row, clWakeSeq = srWakeSeq row\<rparr>"

lemma claim_of_simps [simp]:
  "clCalendarId (claim_of userOf input now row) = srCalendarId row"
  "clLeaseToken (claim_of userOf input now row) = ciLeaseToken input"
  "clWakeSeq (claim_of userOf input now row) = srWakeSeq row"
  by (simp_all add: claim_of_def)

lemma claimIngests_eq:
  "ciLimit input > 0 \<Longrightarrow> claimIngests userOf input locked now rows =
    (map (claim_of userOf input now) (claim_due input locked now rows),
     map (\<lambda>row. if srCalendarId row \<in> srCalendarId ` set (claim_due input locked now rows)
       then lease_row input now row else row) rows)"
  by (simp add: claimIngests_def Let_def claim_of_def)

lemma lease_row_simps [simp]:
  "srCalendarId (lease_row input now row) = srCalendarId row"
  "srLeaseToken (lease_row input now row) = Some (ciLeaseToken input)"
  "srLeasedUntil (lease_row input now row) = Some (now + ciLeaseMs input)"
  "srDueAt (lease_row input now row) = Some (now + ciLeaseMs input)"
  "srParkedReason (lease_row input now row) = srParkedReason row"
  "srWakeSeq (lease_row input now row) = srWakeSeq row"
  "srWakeDueAt (lease_row input now row) = srWakeDueAt row"
  by (simp_all add: lease_row_def)

lemma more_tokens_ok:
  assumes "schedule_ok w" shows "schedule_ok (w\<lparr>iwTokens := insert t (iwTokens w)\<rparr>)"
  using assms unfolding schedule_ok_def row_ok_def claims_ok_def row_ids_def by auto

lemma row_of_id: "distinct (map f xs) \<Longrightarrow> x \<in> set xs \<Longrightarrow> y \<in> set xs \<Longrightarrow> f x = f y \<Longrightarrow> x = y"
  by (auto simp: distinct_map inj_on_def)

lemma claim_world_ok:
  assumes ok: "schedule_ok w" and fresh: "ciLeaseToken input \<notin> iwTokens w"
  shows "schedule_ok (claim_world userOf input locked w)"
proof (cases "ciLimit input \<le> 0")
  case True
  then show ?thesis using more_tokens_ok [OF ok] by (simp add: claim_world_def claimIngests_def)
next
  case False
  let ?now = "iwNow w" and ?until = "iwNow w + ciLeaseMs input"
  let ?due = "claim_due input locked (iwNow w) (iwRows w)" and ?c = "claim_of userOf input (iwNow w)"
  define w' where "w' = claim_world userOf input locked w"
  have eq: "iwRows w' = map (\<lambda>row. if srCalendarId row \<in> srCalendarId ` set ?due then lease_row input ?now row else row) (iwRows w)"
    "iwClaims w' = iwClaims w @ map (\<lambda>row. (?c row, ?until)) ?due" "iwTokens w' = insert (ciLeaseToken input) (iwTokens w)"
    "iwNow w' = ?now" "iwServed w' = iwServed w" "iwEligible w' = iwEligible w"
    using False by (simp_all add: w'_def claim_world_def claimIngests_eq comp_def)
  have ids: "row_ids w' = row_ids w" unfolding row_ids_def eq by (simp add: comp_def)
  have dist: "distinct (map srCalendarId (iwRows w))" using schedule_okD(1) [OF ok] by (simp add: row_ids_def)
  have due: "row \<in> set (iwRows w)" "unleased ?now row" "srDueAt row \<noteq> None" if "row \<in> set ?due" for row
    using claim_due_facts [OF that] eligible_row by blast+
  have due_iff: "row \<in> set ?due" if "row \<in> set (iwRows w)" "srCalendarId row \<in> srCalendarId ` set ?due" for row
    using that due(1) row_of_id [OF dist] by (metis imageE)
  have token: "clLeaseToken cl \<in> iwTokens w" "clCalendarId cl \<in> set (row_ids w)" if "(cl, u) \<in> set (iwClaims w)" for cl u
    using schedule_okD(3) [OF ok] that by (auto simp: claims_ok_def)
  have "schedule_ok w'"
  proof (rule schedule_okI)
    show "distinct (row_ids w')" unfolding ids by (rule schedule_okD(1) [OF ok])
    show "iwServed w' c = 0" if "c \<notin> set (row_ids w')" for c using schedule_okD(4) [OF ok] that unfolding ids eq by simp
    show "claims_ok w'" unfolding claims_ok_def ids
    proof (intro conjI ballI impI)
      fix p assume "p \<in> set (iwClaims w')"
      then show "case p of (cl, u) \<Rightarrow> clLeaseToken cl \<in> iwTokens w' \<and> clCalendarId cl \<in> set (row_ids w)"
        using token due(1) unfolding eq by (auto simp: row_ids_def)
    next
      fix p q assume p: "p \<in> set (iwClaims w')" and q: "q \<in> set (iwClaims w')"
        and same: "clCalendarId (fst p) = clCalendarId (fst q)" "clLeaseToken (fst p) = clLeaseToken (fst q)"
      show "p = q"
      proof (cases "clLeaseToken (fst p) = ciLeaseToken input")
        case True
        then have "p \<notin> set (iwClaims w)" "q \<notin> set (iwClaims w)" using fresh same(2) token(1) by (metis prod.collapse)+
        from this p q obtain a b where "a \<in> set ?due" "b \<in> set ?due" "p = (?c a, ?until)" "q = (?c b, ?until)"
          unfolding eq by auto
        moreover from this have "a = b" using same(1) row_of_id [OF dist due(1) due(1)] by simp
        ultimately show ?thesis by simp
      next
        case False
        then have "p \<in> set (iwClaims w)" "q \<in> set (iwClaims w)" using p q same(2) unfolding eq by auto
        then show ?thesis using schedule_okD(3) [OF ok] same unfolding claims_ok_def by blast
      qed
    qed
    fix row' assume "row' \<in> set (iwRows w')"
    then obtain row where r: "row \<in> set (iwRows w)"
      "row' = (if srCalendarId row \<in> srCalendarId ` set ?due then lease_row input ?now row else row)" unfolding eq by auto
    note row = row_okD [OF schedule_okD(2) [OF ok r(1)]]
    have id: "srCalendarId row' = srCalendarId row" and seq: "srWakeSeq row' = srWakeSeq row" unfolding r(2) by simp_all
    show "row_ok w' row'"
    proof (rule row_okI)
      show "claimed_ok (set (iwClaims w')) row'" unfolding claimed_ok_def id seq
      proof (intro ballI, clarify)
        fix cl u assume c: "(cl, u) \<in> set (iwClaims w')" "clCalendarId cl = srCalendarId row"
        then consider "(cl, u) \<in> set (iwClaims w)" | b where "b \<in> set ?due" "cl = ?c b" unfolding eq by auto
        then show "clWakeSeq cl \<le> srWakeSeq row"
        proof cases
          case 1 then show ?thesis using claimed_okD [OF row(2)] c(2) by blast
        next
          case 2
          then have "b = row" using row_of_id [OF dist due(1) r(1)] c(2) by simp
          with 2 show ?thesis by simp
        qed
      qed
      show "wake_ok (iwServed w') row'" using row(3) unfolding wake_ok_def eq r(2) by simp
      show "due_ok (iwEligible w') row'" using row(4) due(3) [OF due_iff [OF r(1)]] unfolding r(2) eq
        by (auto simp: due_ok_def)
      show "lease_ok (iwNow w') (set (iwClaims w')) row'" unfolding lease_ok_def eq(4) id
      proof (intro ballI, clarify)
        fix cl u assume c: "(cl, u) \<in> set (iwClaims w')" "clCalendarId cl = srCalendarId row" "?now < u"
        show "srLeaseToken row' = Some (clLeaseToken cl) \<and> srLeasedUntil row' = Some u"
        proof (cases "(cl, u) \<in> set (iwClaims w)")
          case True
          then have l: "srLeaseToken row = Some (clLeaseToken cl)" "srLeasedUntil row = Some u"
            using schedule_leaseD [OF row(1) True c(2,3)] by simp_all
          then have "row \<notin> set ?due" using due(2) unleased_expired c(3) by fastforce
          then show ?thesis using l due_iff [OF r(1)] unfolding r(2) by auto
        next
          case False
          then obtain b where b: "b \<in> set ?due" "cl = ?c b" "u = ?until" using c(1) unfolding eq by auto
          then have "srCalendarId row \<in> srCalendarId ` set ?due" using c(2) by (metis claim_of_simps(1) image_eqI)
          then show ?thesis using b unfolding r(2) by simp
        qed
      qed
    qed
  qed
  then show ?thesis by (simp add: w'_def)
qed

section \<open>Completions and releases\<close>

text \<open>What every completion of a round is: the completion of one of its claims.\<close>

definition completes_claim :: "ClaimedIngest \<Rightarrow> IngestCompletion \<Rightarrow> bool" where
  "completes_claim cl k \<longleftrightarrow> icCalendarId k = clCalendarId cl \<and> icLeaseToken k = clLeaseToken cl \<and>
    icClaimedWakeSeq k = clWakeSeq cl \<and> icNextDueInMs k \<noteq> None \<and> icParkedReason k \<noteq> Some Ineligible"

lemmas decision_defs = resolveIngestScheduleDecision_def scheduleNextRead_def retryUnattempted_def
  parkUnresolvable_def parkRejectedCredential_def retryUnbackedFailure_def backOff_def

lemma decision_not_ineligible: "idParkedReason (resolveIngestScheduleDecision outcome input) \<noteq> Some Ineligible"
  by (cases outcome) (auto simp: decision_defs)

lemma round_completes:
  assumes "k \<in> set (round_completions dials random contexts claims ingestion)"
  shows "\<exists>cl \<in> set claims. completes_claim cl k"
proof -
  from assms obtain cl outcome ctx where "cl \<in> set claims" "k = buildCompletion dials (random cl) cl outcome ctx"
    by (auto simp: round_completions_def)
  then show ?thesis using decision_not_ineligible by (auto simp: completes_claim_def buildCompletion_def Let_def)
qed

lemma completion_for_SomeD:
  "completion_for row ks = Some k \<Longrightarrow> k \<in> set ks \<and> icCalendarId k = srCalendarId row \<and> srLeaseToken row = Some (icLeaseToken k)"
  by (auto simp: completion_for_def find_Some_iff in_set_conv_nth)

lemma complete_row_simps [simp]:
  "srCalendarId (complete_row now k row) = srCalendarId row" "srWakeSeq (complete_row now k row) = srWakeSeq row"
  by (simp_all add: complete_row_def Let_def)

lemma complete_row_due:
  assumes "due_ok e row" "completes_claim cl k" shows "due_ok e (complete_row now k row)"
  using assms by (auto simp: due_ok_def complete_row_def Let_def completes_claim_def)

lemma complete_row_wake:
  assumes ok: "wake_ok served row" and k: "icClaimedWakeSeq k \<le> srWakeSeq row"
    and served': "served' (srCalendarId row) = (if icAttempted k then max (served (srCalendarId row)) (icClaimedWakeSeq k)
      else served (srCalendarId row))"
  shows "wake_ok served' (complete_row now k row)"
proof (cases "icAttempted k \<and> srWakeSeq row = icClaimedWakeSeq k")
  case True
  then show ?thesis using ok served' by (simp add: wake_ok_def)
next
  case False
  then have due: "srWakeDueAt (complete_row now k row) = None \<Longrightarrow> srWakeDueAt row = None"
    by (auto simp: complete_row_def Let_def sql_greatest_def split: if_splits option.splits)
  show ?thesis using ok k served' due by (auto simp: wake_ok_def max_def split: if_splits)
qed

lemma find_row:
  assumes "distinct (map srCalendarId rows)" "row \<in> set rows"
  shows "find (\<lambda>r. srCalendarId r = srCalendarId row) rows = Some row"
  using assms by (induction rows) auto

lemma find_no_row: "c \<notin> srCalendarId ` set rows \<Longrightarrow> find (\<lambda>r. srCalendarId r = c) rows = None"
  by (auto simp: find_None_iff)

text \<open>Taking outstanding claims away keeps what is said about the rest.\<close>

lemma fewer_claims:
  assumes "set claims' \<subseteq> set (iwClaims w)" "row_ok w row"
  shows "lease_ok (iwNow w) (set claims') row" "claimed_ok (set claims') row"
  using assms by (auto simp: row_ok_def lease_ok_def claimed_ok_def)

lemma fewer_claims_ok:
  assumes "claims_ok w" "set claims' \<subseteq> set (iwClaims w)" "iwClaims w' = claims'" "iwTokens w' = iwTokens w"
    "row_ids w' = row_ids w"
  shows "claims_ok w'"
  unfolding claims_ok_def assms(3-5)
proof (intro conjI)
  show "\<forall>(cl, u) \<in> set claims'. clLeaseToken cl \<in> iwTokens w \<and> clCalendarId cl \<in> set (row_ids w)"
    using assms(1,2) unfolding claims_ok_def by blast
  show "\<forall>p \<in> set claims'. \<forall>q \<in> set claims'. clCalendarId (fst p) = clCalendarId (fst q) \<longrightarrow>
      clLeaseToken (fst p) = clLeaseToken (fst q) \<longrightarrow> p = q"
    using assms(1,2) unfolding claims_ok_def by blast
qed

lemma complete_world_ok:
  assumes ok: "schedule_ok w" and ks: "\<And>k. k \<in> set ks \<Longrightarrow> \<exists>cl \<in> fst ` set (iwClaims w). completes_claim cl k"
  shows "schedule_ok (complete_world ks w)" (is "schedule_ok ?w")
proof -
  let ?f = "\<lambda>row. case completion_for row ks of None \<Rightarrow> row | Some k \<Rightarrow> complete_row (iwNow w) k row"
  have rows: "iwRows ?w = map ?f (iwRows w)" by (simp add: complete_world_def completeIngests_def)
  have claims: "set (iwClaims ?w) \<subseteq> set (iwClaims w)" by (auto simp: complete_world_def)
  have eq: "iwNow ?w = iwNow w" "iwEligible ?w = iwEligible w" "iwTokens ?w = iwTokens w"
    "iwServed ?w = served_by ks (iwRows w) (iwServed w)" by (simp_all add: complete_world_def)
  have ids: "row_ids ?w = row_ids w" unfolding row_ids_def rows by (simp add: comp_def split: option.splits)
  have dist: "distinct (map srCalendarId (iwRows w))" using schedule_okD(1) [OF ok] by (simp add: row_ids_def)
  show ?thesis
  proof (rule schedule_okI)
    show "distinct (row_ids ?w)" unfolding ids by (rule schedule_okD(1) [OF ok])
    show "claims_ok ?w" by (rule fewer_claims_ok [OF schedule_okD(3) [OF ok] claims refl eq(3) ids])
    show "iwServed ?w c = 0" if "c \<notin> set (row_ids ?w)" for c
      using schedule_okD(4) [OF ok, of c] that find_no_row [of c "iwRows w"] unfolding eq served_by_def ids
      by (simp add: row_ids_def)
    fix row' assume "row' \<in> set (iwRows ?w)"
    then obtain row where r: "row \<in> set (iwRows w)" "row' = ?f row" unfolding rows by auto
    note row = schedule_okD(2) [OF ok r(1)]
    have served: "iwServed ?w (srCalendarId row) = (case completion_for row ks of None \<Rightarrow> iwServed w (srCalendarId row)
        | Some k \<Rightarrow> if icAttempted k then max (iwServed w (srCalendarId row)) (icClaimedWakeSeq k)
          else iwServed w (srCalendarId row))"
      using find_row [OF dist r(1)] unfolding eq served_by_def by simp
    show "row_ok ?w row'"
    proof (cases "completion_for row ks")
      case None
      then have same: "row' = row" using r(2) by simp
      show ?thesis unfolding same
        by (rule row_okI)
          (use fewer_claims [OF claims row] row_okD(3,4) [OF row] served None eq in \<open>simp_all add: wake_ok_def\<close>)
    next
      case (Some k)
      note k = completion_for_SomeD [OF Some]
      then obtain cl u where cl: "(cl, u) \<in> set (iwClaims w)" "completes_claim cl k" using ks by fastforce
      have new: "row' = complete_row (iwNow w) k row" using r(2) Some by simp
      show ?thesis unfolding new
      proof (rule row_okI)
        show "lease_ok (iwNow ?w) (set (iwClaims ?w)) (complete_row (iwNow w) k row)" unfolding lease_ok_def eq complete_row_simps
        proof (intro ballI, clarify)
          fix c v assume c: "(c, v) \<in> set (iwClaims ?w)" "clCalendarId c = srCalendarId row" "iwNow w < v"
          then have "srLeaseToken row = Some (clLeaseToken c)" using schedule_leaseD [OF row_okD(1) [OF row]] claims by blast
          then have "icLeaseToken k = clLeaseToken c" "icCalendarId k = clCalendarId c" using k c(2) by simp_all
          then have "(c, v) \<notin> set (iwClaims ?w)" using k by (auto simp: complete_world_def list_ex_iff)
          with c(1) show "srLeaseToken (complete_row (iwNow w) k row) = Some (clLeaseToken c) \<and>
            srLeasedUntil (complete_row (iwNow w) k row) = Some v" by blast
        qed
        show "claimed_ok (set (iwClaims ?w)) (complete_row (iwNow w) k row)"
          using fewer_claims(2) [OF claims row] by (simp add: claimed_ok_def)
        have "icClaimedWakeSeq k \<le> srWakeSeq row"
          using claimed_okD [OF row_okD(2) [OF row] cl(1)] cl(2) k by (simp add: completes_claim_def)
        then show "wake_ok (iwServed ?w) (complete_row (iwNow w) k row)"
          by (rule complete_row_wake [OF row_okD(3) [OF row]]) (simp add: served Some)
        show "due_ok (iwEligible ?w) (complete_row (iwNow w) k row)" unfolding eq
          by (rule complete_row_due [OF row_okD(4) [OF row] cl(2)])
      qed
    qed
  qed
qed

lemma release_world_ok:
  assumes ok: "schedule_ok w"
  shows "schedule_ok (release_world claims w)" (is "schedule_ok ?w")
proof -
  let ?hit = "\<lambda>row. list_ex (\<lambda>(calendarId, token). calendarId = srCalendarId row \<and> srLeaseToken row = Some token)
    (map (\<lambda>c. (clCalendarId c, clLeaseToken c)) claims)"
  let ?f = "\<lambda>row. if ?hit row then row\<lparr>srDueAt := (if srParkedReason row = Some Ineligible then None else Some (iwNow w)),
    srLeasedUntil := None, srLeaseToken := None\<rparr> else row"
  have rows: "iwRows ?w = map ?f (iwRows w)" by (simp add: release_world_def releaseIngests_def Let_def)
  have claims: "set (iwClaims ?w) \<subseteq> set (iwClaims w)" by (auto simp: release_world_def)
  have eq: "iwNow ?w = iwNow w" "iwEligible ?w = iwEligible w" "iwTokens ?w = iwTokens w" "iwServed ?w = iwServed w"
    by (simp_all add: release_world_def)
  have ids: "row_ids ?w = row_ids w" unfolding row_ids_def rows by (simp add: comp_def)
  show ?thesis
  proof (rule schedule_okI)
    show "distinct (row_ids ?w)" unfolding ids by (rule schedule_okD(1) [OF ok])
    show "claims_ok ?w" by (rule fewer_claims_ok [OF schedule_okD(3) [OF ok] claims refl eq(3) ids])
    show "iwServed ?w c = 0" if "c \<notin> set (row_ids ?w)" for c using schedule_okD(4) [OF ok] that unfolding eq ids by simp
    fix row' assume "row' \<in> set (iwRows ?w)"
    then obtain row where r: "row \<in> set (iwRows w)" "row' = ?f row" unfolding rows by auto
    note row = schedule_okD(2) [OF ok r(1)]
    show "row_ok ?w row'"
    proof (rule row_okI)
      show "claimed_ok (set (iwClaims ?w)) row'" using fewer_claims(2) [OF claims row] unfolding r(2) by (simp add: claimed_ok_def)
      show "wake_ok (iwServed ?w) row'" using row_okD(3) [OF row] unfolding r(2) eq by (simp add: wake_ok_def)
      show "due_ok (iwEligible ?w) row'" using row_okD(4) [OF row] unfolding r(2) eq by (auto simp: due_ok_def)
      show "lease_ok (iwNow ?w) (set (iwClaims ?w)) row'"
      proof (cases "?hit row")
        case False
        then show ?thesis using fewer_claims(1) [OF claims row] unfolding r(2) eq by simp
      next
        case True
        have "(c, v) \<notin> set (iwClaims ?w)" if c: "clCalendarId c = srCalendarId row" "iwNow w < v" for c v
        proof
          assume in_claims: "(c, v) \<in> set (iwClaims ?w)"
          then have "srLeaseToken row = Some (clLeaseToken c)" using schedule_leaseD [OF row_okD(1) [OF row] _ c] claims by blast
          moreover obtain d where "d \<in> set claims" "clCalendarId d = srCalendarId row" "srLeaseToken row = Some (clLeaseToken d)"
            using True by (auto simp: list_ex_iff)
          ultimately have "(clCalendarId c, clLeaseToken c) \<in> (\<lambda>c. (clCalendarId c, clLeaseToken c)) ` set claims"
            using c(1) by (intro image_eqI [of _ _ d]) simp_all
          with in_claims show False by (auto simp: release_world_def)
        qed
        then show ?thesis unfolding r(2) eq by (auto simp: lease_ok_def)
      qed
    qed
  qed
qed

lemma later_ok: "schedule_ok w \<Longrightarrow> iwNow w \<le> t \<Longrightarrow> schedule_ok (w\<lparr>iwNow := t\<rparr>)"
proof -
  assume ok: "schedule_ok w" and le: "iwNow w \<le> t"
  have "lease_ok t (set (iwClaims w)) row" if "row \<in> set (iwRows w)" for row
    using row_okD(1) [OF schedule_okD(2) [OF ok that]] le unfolding lease_ok_def by fastforce
  then show ?thesis using ok by (simp add: schedule_ok_def row_ok_def claims_ok_def row_ids_def)
qed

lemma initial_schedule_ok: "schedule_ok initial_schedule"
  by (simp add: schedule_ok_def initial_schedule_def row_ids_def claims_ok_def)

lemma ingest_step_ok: "ingest_step userOf w w' \<Longrightarrow> schedule_ok w \<Longrightarrow> schedule_ok w'"
proof (induction rule: ingest_step.induct)
  case (is_time w t)
  then show ?case by (simp only: later_ok)
next
  case (is_claim input w locked)
  show ?case by (rule claim_world_ok [OF is_claim.prems is_claim.hyps])
next
  case (is_complete claims w dials random contexts ingestion)
  show ?case
  proof (rule complete_world_ok [OF is_complete.prems])
    fix k assume "k \<in> set (round_completions dials random contexts claims ingestion)"
    from round_completes [OF this] obtain cl where "cl \<in> set claims" "completes_claim cl k" by (rule bexE)
    with is_complete.hyps show "\<exists>cl \<in> fst ` set (iwClaims w). completes_claim cl k" by (intro bexI [of _ cl]) auto
  qed
next
  case (is_release claims w)
  then show ?case by (simp only: release_world_ok)
next
  case (is_wake w calendarIds wake)
  then show ?case by (simp only: wakeIngests_def snd_conv wake_rows_ok)
next
  case (is_wake_user w userId wake)
  then show ?case by (simp only: wakeUserIngests_def snd_conv wake_rows_ok)
next
  case (is_track w c eligible)
  then show ?case by (rule track_calendar_ok)
next
  case (is_release_account w cs)
  then show ?case by (rule release_account_ok)
next
  case (is_release_credential w cs)
  then show ?case by (rule release_credential_ok)
next
  case (is_trigger_wake w cs)
  then show ?case by (rule trigger_wake_ok)
qed

lemma ingest_reach_ok: "ingest_reach userOf w \<Longrightarrow> schedule_ok w"
  by (induction rule: ingest_reach.induct) (simp_all add: initial_schedule_ok ingest_step_ok)

section \<open>The properties\<close>

lemma stale_completion:
  assumes ok: "schedule_ok w" and a: "(a, u) \<in> set (iwClaims w)" "iwNow w < u"
    and b: "(b, v) \<in> set (iwClaims w)" "clCalendarId b = clCalendarId a" "(b, v) \<noteq> (a, u)" and k: "completes_claim b k"
    and row: "row \<in> set (iwRows w)"
  shows "completion_for row [k] = None"
proof (cases "srCalendarId row = clCalendarId a")
  case True
  have "srLeaseToken row = Some (clLeaseToken a)"
    using schedule_leaseD [OF row_okD(1) [OF schedule_okD(2) [OF ok row]] a(1) _ a(2)] True by simp
  moreover have "clLeaseToken b \<noteq> clLeaseToken a"
    using schedule_okD(3) [OF ok] a(1) b unfolding claims_ok_def by (metis fst_conv)
  ultimately show ?thesis using k by (simp add: completion_for_def completes_claim_def)
next
  case False
  then show ?thesis using k b(2) by (simp add: completion_for_def completes_claim_def)
qed

text \<open>C23: A calendar is read by one round at a time. While the lease of a claim lasts, every other claim of
  the calendar has expired, and the completion of such an overtaken claim changes nothing.\<close>

theorem ingest_leases_are_exclusive:
  assumes "ingest_reach userOf w" "(a, u) \<in> set (iwClaims w)" "iwNow w < u"
    "(b, v) \<in> set (iwClaims w)" "clCalendarId b = clCalendarId a" "(b, v) \<noteq> (a, u)" "completes_claim b k"
  shows "v \<le> iwNow w \<and> completeIngests [k] (iwNow w) (iwRows w) = ([], iwRows w)"
proof
  have ok: "schedule_ok w" by (rule ingest_reach_ok [OF assms(1)])
  then obtain row where row: "row \<in> set (iwRows w)" "srCalendarId row = clCalendarId a"
    using schedule_okD(3) [OF ok] assms(2) by (auto simp: claims_ok_def row_ids_def)
  note lease = row_okD(1) [OF schedule_okD(2) [OF ok row(1)]]
  show "v \<le> iwNow w"
  proof (rule ccontr)
    assume "\<not> v \<le> iwNow w"
    then have "clLeaseToken b = clLeaseToken a"
      using schedule_leaseD [OF lease assms(4)] schedule_leaseD [OF lease assms(2) _ assms(3)] row(2) assms(5) by simp
    then show False using schedule_okD(3) [OF ok] assms(2,4-6) unfolding claims_ok_def by (metis fst_conv)
  qed
  have none: "completion_for r [k] = None" if "r \<in> set (iwRows w)" for r
    by (rule stale_completion [OF ok assms(2-7) that])
  have "filter (\<lambda>r. completion_for r [k] \<noteq> None) (iwRows w) = []" using none by (simp add: filter_empty_conv)
  moreover have "map (\<lambda>r. case completion_for r [k] of None \<Rightarrow> r | Some c \<Rightarrow> complete_row (iwNow w) c r) (iwRows w) = iwRows w"
    by (rule map_idI) (simp add: none)
  ultimately show "completeIngests [k] (iwNow w) (iwRows w) = ([], iwRows w)" by (simp only: completeIngests_def list.map)
qed


text \<open>No enabled calendar falls off the schedule. Whatever failures, rejections and releases it went
  through, the row of an enabled calendar has a time at which it is due, and once that time and its lease
  have passed the fleet may claim it.\<close>

theorem enabled_calendars_stay_on_the_schedule:
  assumes "ingest_reach userOf w" "row \<in> set (iwRows w)" "srCalendarId row \<in> iwEligible w"
  shows "\<exists>due. srDueAt row = Some due \<and>
    (\<forall>t \<ge> max due (or_else (srLeasedUntil row) due). buildEligibility FleetLane t row)"
proof -
  have "due_ok (iwEligible w) row" by (rule row_okD(4) [OF schedule_okD(2) [OF ingest_reach_ok [OF assms(1)] assms(2)]])
  then obtain due where "srDueAt row = Some due" using assms(3) by (auto simp: due_ok_def)
  then show ?thesis by (auto simp: buildEligibility_def sql_le_def unleased_def split: option.splits)
qed

text \<open>Retries are bounded. Whatever the outcome of a read, its completion names a next read in the
  future: after a success within the interval of the calendar and not before nine tenths of it, and after
  anything else within a day; the back-off doubles from five minutes and stops at six hours.\<close>

theorem ingest_retries_are_bounded:
  assumes "0 \<le> random" "random < 1" "0 \<le> clFailureCount claim" "0 \<le> resolveIngestIntervalMs ctx dials"
  shows "\<exists>ms. icNextDueInMs (buildCompletion dials random claim outcome ctx) = Some ms \<and> 0 \<le> ms \<and>
    (outcome = Ingested \<longrightarrow> ms \<le> resolveIngestIntervalMs ctx dials \<and> 9 * resolveIngestIntervalMs ctx dials \<le> 10 * ms) \<and>
    (outcome \<noteq> Ingested \<longrightarrow> ms \<le> 24 * 3600000) \<and>
    (outcome \<in> {Failed True, RequestRejected} \<longrightarrow> ms = min (300000 * 2 ^ nat (clFailureCount claim)) (6 * 3600000))"
proof -
  let ?i = "resolveIngestIntervalMs ctx dials" and ?j = "resolveIngestJitterMs (resolveIngestIntervalMs ctx dials) random"
  let ?m = "min (rat_of_int ?i * (1 / 10)) (2 * 60000)"
  have m: "0 \<le> ?m" using assms(4) by simp
  have "0 \<le> random * ?m" using assms(1) m by (rule mult_nonneg_nonneg)
  moreover have "random * ?m \<le> ?m" using mult_left_le_one_le [OF m assms(1)] assms(2) by simp
  ultimately have r: "0 \<le> random * ?m" "random * ?m \<le> rat_of_int ?i * (1 / 10)" by simp_all
  then have j: "0 \<le> ?j" unfolding resolveIngestJitterMs_def by (simp only: zero_le_floor)
  have j': "rat_of_int ?j \<le> rat_of_int ?i * (1 / 10)"
    unfolding resolveIngestJitterMs_def using of_int_floor_le [of "random * ?m"] r(2) by (rule order_trans)
  from j' have "rat_of_int (10 * ?j) \<le> rat_of_int ?i" by simp
  then have j10: "10 * ?j \<le> ?i" by (simp only: of_int_le_iff)
  let ?input = "\<lparr>diFailureCount = clFailureCount claim, diIntervalMs = ?i, diJitterMs = ?j\<rparr>"
  have ms: "icNextDueInMs (buildCompletion dials random claim outcome ctx) =
    Some (idNextDueInMs (resolveIngestScheduleDecision outcome ?input))"
    by (simp add: buildCompletion_def Let_def)
  show ?thesis unfolding ms using j j10 assms(3,4)
    by (cases outcome)
      (auto simp: decision_defs LOCK_HELD_RETRY_MS_def BASELINE_MOVED_RETRY_MS_def UNRESOLVABLE_PROBE_MS_def
        UNBACKED_FAILURE_RETRY_MS_def CREDENTIAL_PROBE_MS_def HOUR_MS_def resolveCalendarBackoffDelayMs_def)
qed

text \<open>A calendar is added at time 0 and claimed for 100 ms; its read fails, or its lease runs out.\<close>

definition sample_input :: "string \<Rightarrow> ClaimIngestsInput" where
  "sample_input token = \<lparr>ciLane = FleetLane, ciLeaseMs = 100, ciLeaseToken = token, ciLimit = 5\<rparr>"

definition sample_tracked :: ingest_world where
  "sample_tracked = initial_schedule\<lparr>iwRows := track_calendar ''cal'' True 0 [], iwEligible := {''cal''}\<rparr>"

definition sample_claimed :: ingest_world where
  "sample_claimed = claim_world (\<lambda>_. ''user'') (sample_input ''t1'') {} sample_tracked"

definition sample_overtaken :: ingest_world where
  "sample_overtaken = claim_world (\<lambda>_. ''user'') (sample_input ''t2'') {} (sample_claimed\<lparr>iwNow := 200\<rparr>)"

definition sample_woken :: ingest_world where
  "sample_woken = sample_claimed\<lparr>iwRows :=
    snd (wakeIngests [''cal''] \<lparr>wiCorrelationId = None, wiDebounceMs = 0\<rparr> 0 (iwRows sample_claimed))\<rparr>"

definition sample_failed :: ingest_world where
  "sample_failed = complete_world (round_completions DEFAULT_INGEST_INTERVAL_DIALS (\<lambda>_. 0) (\<lambda>_. None)
    (map fst (iwClaims sample_claimed)) (Some (0, [(''cal'', RequestRejected)]))) sample_claimed"

definition sample_disabled :: ingest_world where
  "sample_disabled = sample_failed\<lparr>iwRows := track_calendar ''cal'' False 0 (iwRows sample_failed), iwEligible := {}\<rparr>"

definition sample_reconnected :: ingest_world where
  "sample_reconnected = sample_disabled\<lparr>iwRows := release_account {''cal''} 0 (iwRows sample_disabled)\<rparr>"

lemma sample_tracked_simps [simp]:
  "iwRows sample_tracked = [new_schedule_row ''cal'' (Some 0) None]" "iwNow sample_tracked = 0"
  "iwTokens sample_tracked = {}" "iwClaims sample_tracked = []" "iwEligible sample_tracked = {''cal''}"
  "iwServed sample_tracked = (\<lambda>_. 0)"
  by (simp_all add: sample_tracked_def initial_schedule_def track_calendar_def)

lemmas sample_schedule_defs = claim_world_def claimIngests_eq claim_due_def sample_input_def new_schedule_row_def
  buildEligibility_def sql_le_def unleased_def claim_of_def lease_row_def buildOrdering_def

lemma sample_claimed_simps [simp]:
  "iwRows sample_claimed = [lease_row (sample_input ''t1'') 0 (new_schedule_row ''cal'' (Some 0) None)]"
  "iwNow sample_claimed = 0" "iwTokens sample_claimed = {''t1''}"
  "iwClaims sample_claimed = [(claim_of (\<lambda>_. ''user'') (sample_input ''t1'') 0 (new_schedule_row ''cal'' (Some 0) None), 100)]"
  "iwEligible sample_claimed = {''cal''}" "iwServed sample_claimed = (\<lambda>_. 0)"
  by (simp_all add: sample_claimed_def sample_schedule_defs)

lemma sample_schedule_reach:
  "ingest_reach (\<lambda>_. ''user'') sample_tracked" "ingest_reach (\<lambda>_. ''user'') sample_claimed"
  "ingest_reach (\<lambda>_. ''user'') sample_overtaken" "ingest_reach (\<lambda>_. ''user'') sample_woken"
  "ingest_reach (\<lambda>_. ''user'') sample_reconnected"
proof -
  have "ingest_step (\<lambda>_. ''user'') initial_schedule sample_tracked"
    using is_track [where w = initial_schedule and c = "''cal''" and eligible = True] by (simp add: sample_tracked_def initial_schedule_def)
  then show tracked: "ingest_reach (\<lambda>_. ''user'') sample_tracked" by (rule ingest_more [OF ingest_start])
  show claimed: "ingest_reach (\<lambda>_. ''user'') sample_claimed" unfolding sample_claimed_def
    by (rule ingest_more [OF tracked is_claim]) simp
  have "ingest_reach (\<lambda>_. ''user'') (sample_claimed\<lparr>iwNow := 200\<rparr>)"
    by (rule ingest_more [OF claimed is_time]) simp
  then show "ingest_reach (\<lambda>_. ''user'') sample_overtaken" unfolding sample_overtaken_def
    by (rule ingest_more [OF _ is_claim]) (simp add: sample_input_def)
  show "ingest_reach (\<lambda>_. ''user'') sample_woken"
    using ingest_more [OF claimed is_wake] unfolding sample_woken_def by simp
  have failed: "ingest_reach (\<lambda>_. ''user'') sample_failed" unfolding sample_failed_def
    by (rule ingest_more [OF claimed is_complete]) simp
  have now: "iwNow sample_failed = 0" "iwEligible sample_failed = {''cal''}" "iwNow sample_disabled = 0"
    by (simp_all add: sample_failed_def sample_disabled_def complete_world_def)
  have "ingest_reach (\<lambda>_. ''user'') sample_disabled"
    using ingest_more [OF failed is_track [where w = sample_failed and c = "''cal''" and eligible = False]] now unfolding sample_disabled_def by simp
  then show "ingest_reach (\<lambda>_. ''user'') sample_reconnected"
    using ingest_more [OF _ is_release_account [where w = sample_disabled and cs = "{''cal''}"]] now unfolding sample_reconnected_def by fastforce
qed

theorem ingest_leases_are_exclusive_witness:
  "\<exists>k. icNextDueInMs k = Some 300000 \<and> completeIngests [k] 200 (iwRows sample_overtaken) = ([], iwRows sample_overtaken)"
proof -
  let ?row = "lease_row (sample_input ''t1'') 0 (new_schedule_row ''cal'' (Some 0) None)"
  let ?b = "claim_of (\<lambda>_. ''user'') (sample_input ''t1'') 0 (new_schedule_row ''cal'' (Some 0) None)"
  let ?a = "claim_of (\<lambda>_. ''user'') (sample_input ''t2'') 200 ?row"
  let ?k = "buildCompletion DEFAULT_INGEST_INTERVAL_DIALS 0 ?b RequestRejected DEFAULT_SCHEDULE_CONTEXT"
  have claims: "iwClaims sample_overtaken = [(?b, 100), (?a, 300)]" "iwNow sample_overtaken = 200"
    by (simp_all add: sample_overtaken_def sample_schedule_defs)
  have k: "completes_claim ?b ?k" unfolding completes_claim_def
    by (simp add: buildCompletion_def Let_def decision_defs)
  have due: "icNextDueInMs ?k = Some 300000"
    by (simp add: buildCompletion_def Let_def decision_defs resolveCalendarBackoffDelayMs_def claim_of_def new_schedule_row_def)
  have "completeIngests [?k] (iwNow sample_overtaken) (iwRows sample_overtaken) = ([], iwRows sample_overtaken)"
    by (rule ingest_leases_are_exclusive [OF sample_schedule_reach(3) _ _ _ _ _ k, of ?a 300 100, THEN conjunct2])
      (simp_all add: claims claim_of_def lease_row_def new_schedule_row_def sample_input_def)
  then show ?thesis using due unfolding claims by blast
qed


theorem enabled_calendars_stay_on_the_schedule_witness:
  "\<exists>due. srDueAt (new_schedule_row ''cal'' (Some 0) None) = Some due \<and>
    buildEligibility FleetLane due (new_schedule_row ''cal'' (Some 0) None)"
  using enabled_calendars_stay_on_the_schedule [OF sample_schedule_reach(1), of "new_schedule_row ''cal'' (Some 0) None"]
  by (simp add: new_schedule_row_def)

theorem ingest_retries_are_bounded_witness:
  "\<exists>claim. clFailureCount claim = 0 \<and> icNextDueInMs (buildCompletion DEFAULT_INGEST_INTERVAL_DIALS 0 claim
    RequestRejected DEFAULT_SCHEDULE_CONTEXT) = Some 300000"
proof -
  let ?claim = "claim_of (\<lambda>_. ''user'') (sample_input ''t'') 0 (new_schedule_row ''cal'' (Some 0) None)"
  have "0 \<le> clFailureCount ?claim" "0 \<le> resolveIngestIntervalMs DEFAULT_SCHEDULE_CONTEXT DEFAULT_INGEST_INTERVAL_DIALS"
    by (simp_all add: sample_schedule_defs resolveIngestIntervalMs_def resolveBaseIntervalMs_def
        DEFAULT_SCHEDULE_CONTEXT_def DEFAULT_INGEST_INTERVAL_DIALS_def Let_def)
  from ingest_retries_are_bounded [OF _ _ this, of 0 RequestRejected] show ?thesis
    by (intro exI [of _ ?claim]) (auto simp: sample_schedule_defs)
qed


end
