(* ===== verification/Safe_Fetch.thy ===== *)
theory Safe_Fetch
  imports Complex_Main Prelude
begin

text \<open>
  \<open>packages/calendar/src/utils/safe-fetch.ts\<close>: the fetch that every URL a user supplies goes through. It
  refuses private addresses, connects to the address it has checked, follows redirects itself and
  withholds credentials across sites, and repeats a request only when that is safe. The world is the
  log of the queries and requests so far; what the network answers may depend on it. The libraries for
  addresses and registrable domains and the platform's URL parser are parameters. An option that is
  missing is its absent value; the names of headers are in no particular order.
\<close>

section \<open>Libraries and the network\<close>

record js_url =
  urlHref :: string
  urlProtocol :: string
  urlHost :: string
  urlHostname :: string

text \<open>
  \<open>parseUrl\<close> is \<open>new URL(url)\<close>, \<open>joinUrl\<close> is \<open>new URL(location, base)\<close>, \<open>setHostname\<close> the setter;
  \<open>getDomain\<close> is that of \<open>tldts\<close>; the rest is \<open>ipaddr.js\<close>, \<open>ipMapped\<close> the address inside an IPv4-mapped one.
\<close>

record 'ip web_lib =
  parseUrl :: "string \<Rightarrow> js_url option"
  joinUrl :: "string \<Rightarrow> string \<Rightarrow> js_url option"
  setHostname :: "js_url \<Rightarrow> string \<Rightarrow> js_url"
  getDomain :: "string \<Rightarrow> string option"
  ipParse :: "string \<Rightarrow> 'ip option"
  ipIsV6 :: "'ip \<Rightarrow> bool"
  ipMapped :: "'ip \<Rightarrow> 'ip option"
  ipRange :: "'ip \<Rightarrow> string"
  ipMatch :: "'ip \<Rightarrow> string \<Rightarrow> bool"

datatype safety_reason = SchemeNotAllowed string | NotResolved | PrivateUrl | PrivateResolution | NotPinned
  | TooManyRedirects | CrossesBoundary string

text \<open>\<open>Failure name code\<close> is an \<open>Error\<close> with that name and, when it has one that is text, that code.\<close>

datatype fetch_error = UrlSafetyError safety_reason | InvalidUrl | Failure string "string option" | NotAnError
  | RequestTimeoutError int

record fetch_response =
  rsStatus :: nat
  rsLocation :: "string option"
  rsBody :: string
  rsWithheld :: "string option"

type_synonym header_record = "(string, string) jsmap"

record sent_request =
  srqUrl :: string
  srqMethod :: string
  srqHeaders :: header_record
  srqServerName :: "string option"

text \<open>\<open>Sent url request\<close>: the request as it went out, and the URL it was made for.\<close>

datatype net_event = Queried string | Sent string sent_request

type_synonym net_log = "net_event list"

record network =
  resolve4 :: "net_log \<Rightarrow> string \<Rightarrow> string list option"
  resolve6 :: "net_log \<Rightarrow> string \<Rightarrow> string list option"
  netFetch :: "net_log \<Rightarrow> sent_request \<Rightarrow> fetch_error + fetch_response"
  timedOut :: "net_log \<Rightarrow> bool"

type_synonym 'a fetching = "(net_log, fetch_error, 'a) eff"

section \<open>Addresses\<close>

record SafeFetchOptions =
  blockPrivateResolution :: bool
  allowedPrivateHosts :: "string set"
  timeoutMs :: int

definition ALLOWED_PROTOCOLS :: "string list" where "ALLOWED_PROTOCOLS = [''http:'', ''https:'']"
definition MAX_REDIRECTS :: nat where "MAX_REDIRECTS = 10"
definition REDIRECT_STATUS_CODES :: "nat list" where "REDIRECT_STATUS_CODES = [301, 302, 303, 307, 308]"
definition STALE_SOCKET_ERROR_CODE :: string where "STALE_SOCKET_ERROR_CODE = ''ECONNRESET''"
definition GLOBAL_UNICAST_IPV6 :: string where "GLOBAL_UNICAST_IPV6 = ''2000::/3''"
definition IPV6_DOCUMENTATION :: string where "IPV6_DOCUMENTATION = ''3fff::/20''"

definition normalizeToIPv4 :: "'ip web_lib \<Rightarrow> 'ip \<Rightarrow> 'ip" where
  "normalizeToIPv4 lib parsed = (if ipIsV6 lib parsed then (case ipMapped lib parsed of Some v4 \<Rightarrow> v4 | None \<Rightarrow> parsed) else parsed)"

definition isGloballyRoutableAddress :: "'ip web_lib \<Rightarrow> string \<Rightarrow> bool" where
  "isGloballyRoutableAddress lib address =
    (case ipParse lib address of None \<Rightarrow> False
     | Some ip \<Rightarrow> (let parsed = normalizeToIPv4 lib ip in
         if \<not> ipIsV6 lib parsed then ipRange lib parsed = ''unicast''
         else if ipRange lib parsed \<noteq> ''unicast'' \<or> ipMatch lib parsed IPV6_DOCUMENTATION then False
         else ipMatch lib parsed GLOBAL_UNICAST_IPV6))"

definition assertGloballyRoutableAddress :: "'ip web_lib \<Rightarrow> string \<Rightarrow> safety_reason \<Rightarrow> unit fetching" where
  "assertGloballyRoutableAddress lib address reason =
    (if \<not> isGloballyRoutableAddress lib address then eff_throw (UrlSafetyError reason) else eff_return ())"

fun assert_all :: "'ip web_lib \<Rightarrow> string list \<Rightarrow> unit fetching" where
  "assert_all lib [] = eff_return ()"
| "assert_all lib (a # as) = eff_bind (assertGloballyRoutableAddress lib a PrivateResolution) (\<lambda>_. assert_all lib as)"

definition resolveAllAddresses :: "network \<Rightarrow> string \<Rightarrow> string list fetching" where
  "resolveAllAddresses net hostname events =
    (let addresses = or_else (resolve4 net events hostname) [] @ or_else (resolve6 net events hostname) [];
         events' = events @ [Queried hostname]
     in if addresses = [] then (Inl (UrlSafetyError NotResolved), events') else (Inr addresses, events'))"

definition strip_last_bracket :: "string \<Rightarrow> string" where
  "strip_last_bracket h = (if h \<noteq> [] \<and> last h = CHR '']'' then butlast h else h)"

definition stripBrackets :: "string \<Rightarrow> string" where
  "stripBrackets hostname = strip_last_bracket
    (case hostname of c # rest \<Rightarrow> if c = CHR ''['' then rest else hostname | [] \<Rightarrow> [])"

definition validateProtocol :: "string \<Rightarrow> unit fetching" where
  "validateProtocol protocol =
    (if protocol \<notin> set ALLOWED_PROTOCOLS then eff_throw (UrlSafetyError (SchemeNotAllowed protocol)) else eff_return ())"

section \<open>Pinned connections\<close>

record PinnedConnection =
  pcUrls :: "string list"
  pcHost :: string
  pcServerName :: "string option"

definition formatAddressForUrl :: "'ip web_lib \<Rightarrow> string \<Rightarrow> fetch_error + string" where
  "formatAddressForUrl lib address =
    (case ipParse lib address of None \<Rightarrow> Inl (Failure ''Error'' None)
     | Some ip \<Rightarrow> Inr (if ipIsV6 lib ip then ''['' @ address @ '']'' else address))"

definition pinnedServerName :: "js_url \<Rightarrow> string option" where
  "pinnedServerName parsed = (if urlProtocol parsed = ''https:'' then Some (urlHostname parsed) else None)"

definition pinnedUrl :: "'ip web_lib \<Rightarrow> js_url \<Rightarrow> string \<Rightarrow> fetch_error + string" where
  "pinnedUrl lib parsed address =
    (case parseUrl lib (urlHref parsed) of None \<Rightarrow> Inl InvalidUrl
     | Some copy \<Rightarrow> (case formatAddressForUrl lib address of Inl e \<Rightarrow> Inl e
         | Inr literal \<Rightarrow> (let pinned = setHostname lib copy literal
             in if urlHostname pinned \<noteq> literal then Inl (UrlSafetyError NotPinned) else Inr (urlHref pinned))))"

fun pinned_urls :: "'ip web_lib \<Rightarrow> js_url \<Rightarrow> string list \<Rightarrow> fetch_error + string list" where
  "pinned_urls lib parsed [] = Inr []"
| "pinned_urls lib parsed (a # as) = (case pinnedUrl lib parsed a of Inl e \<Rightarrow> Inl e
    | Inr u \<Rightarrow> (case pinned_urls lib parsed as of Inl e \<Rightarrow> Inl e | Inr us \<Rightarrow> Inr (u # us)))"

definition buildPinnedConnection :: "'ip web_lib \<Rightarrow> js_url \<Rightarrow> string list \<Rightarrow> fetch_error + PinnedConnection" where
  "buildPinnedConnection lib parsed addresses =
    (case pinned_urls lib parsed addresses of Inl e \<Rightarrow> Inl e
     | Inr urls \<Rightarrow> Inr \<lparr>pcUrls = urls, pcHost = urlHost parsed, pcServerName = pinnedServerName parsed\<rparr>)"

definition resolveConnection ::
    "'ip web_lib \<Rightarrow> network \<Rightarrow> SafeFetchOptions \<Rightarrow> string \<Rightarrow> PinnedConnection option fetching" where
  "resolveConnection lib net opts url =
    (case parseUrl lib url of None \<Rightarrow> eff_throw InvalidUrl
     | Some parsed \<Rightarrow> eff_bind (validateProtocol (urlProtocol parsed)) (\<lambda>_.
         if \<not> blockPrivateResolution opts then eff_return None
         else if urlHost parsed \<in> allowedPrivateHosts opts then eff_return None
         else (let hostname = stripBrackets (urlHostname parsed) in
           if ipParse lib hostname \<noteq> None
           then eff_bind (assertGloballyRoutableAddress lib hostname PrivateUrl) (\<lambda>_. eff_return None)
           else eff_bind (resolveAllAddresses net hostname) (\<lambda>addresses.
             eff_bind (assert_all lib addresses) (\<lambda>_.
             eff_bind (lift_sum (buildPinnedConnection lib parsed addresses)) (\<lambda>c. eff_return (Some c)))))))"

definition validateUrlSafety :: "'ip web_lib \<Rightarrow> network \<Rightarrow> SafeFetchOptions \<Rightarrow> string \<Rightarrow> unit fetching" where
  "validateUrlSafety lib net opts url = eff_bind (resolveConnection lib net opts url) (\<lambda>_. eff_return ())"

section \<open>Redirects and credentials\<close>

definition resolveRedirectUrl :: "'ip web_lib \<Rightarrow> fetch_response \<Rightarrow> string \<Rightarrow> string option" where
  "resolveRedirectUrl lib response originalUrl =
    (case rsLocation response of None \<Rightarrow> None
     | Some location \<Rightarrow> if location = [] then None else map_option urlHref (joinUrl lib location originalUrl))"

definition isTransportDowngrade :: "js_url \<Rightarrow> js_url \<Rightarrow> bool" where
  "isTransportDowngrade current next \<longleftrightarrow> urlProtocol current = ''https:'' \<and> urlProtocol next \<noteq> ''https:''"

definition isDifferentSite :: "'ip web_lib \<Rightarrow> js_url \<Rightarrow> js_url \<Rightarrow> bool" where
  "isDifferentSite lib current next =
    (let currentDomain = getDomain lib (urlHostname current); nextDomain = getDomain lib (urlHostname next)
     in if \<not> str_truthy currentDomain \<or> \<not> str_truthy nextDomain then urlHostname current \<noteq> urlHostname next
        else currentDomain \<noteq> nextDomain)"

definition shouldWithholdAuthorization :: "'ip web_lib \<Rightarrow> string \<Rightarrow> string \<Rightarrow> fetch_error + bool" where
  "shouldWithholdAuthorization lib current next =
    (case (parseUrl lib current, parseUrl lib next) of
       (Some currentUrl, Some nextUrl) \<Rightarrow> Inr (isTransportDowngrade currentUrl nextUrl \<or> isDifferentSite lib currentUrl nextUrl)
     | _ \<Rightarrow> Inl InvalidUrl)"

text \<open>\<open>new Headers\<close>: names are in lower case, and the values of one name are joined.\<close>

definition new_headers :: "(string \<times> string) list \<Rightarrow> header_record" where
  "new_headers headers = fold (\<lambda>(k, v) m. let k = map ascii_lower k in
    AList.update k (case map_of m k of None \<Rightarrow> v | Some w \<Rightarrow> w @ '', '' @ v) m) headers []"

record js_request =
  jrUrl :: string
  jrMethod :: string
  jrHeaders :: header_record
  jrBody :: bool

datatype fetch_input = InputUrl string | InputRequest js_request

text \<open>A body that is text, form data, a blob or a buffer can be sent again; a stream cannot.\<close>

datatype init_body = NoBody | ReplayableBody | StreamBody

record request_init =
  riMethod :: "string option"
  riHeaders :: "(string \<times> string) list option"
  riBody :: init_body
  riRedirectManual :: bool

definition mergeHeaderRecord :: "fetch_input \<Rightarrow> request_init \<Rightarrow> header_record" where
  "mergeHeaderRecord input init =
    fold (\<lambda>(k, v). AList.update k v) (new_headers (or_else (riHeaders init) []))
      (case input of InputRequest r \<Rightarrow> fold (\<lambda>(k, v). AList.update k v) (jrHeaders r) [] | InputUrl _ \<Rightarrow> [])"

definition withoutAuthorization :: "header_record \<Rightarrow> header_record" where
  "withoutAuthorization headers = filter (\<lambda>(key, _). map ascii_lower key \<noteq> ''authorization'') headers"

definition isRedirect :: "fetch_response \<Rightarrow> bool" where
  "isRedirect response \<longleftrightarrow> rsStatus response \<in> set REDIRECT_STATUS_CODES"

definition getHeadersForRedirect ::
    "'ip web_lib \<Rightarrow> header_record \<Rightarrow> string \<Rightarrow> string \<Rightarrow> fetch_error + header_record" where
  "getHeadersForRedirect lib headers currentUrl redirectUrl =
    (case shouldWithholdAuthorization lib currentUrl redirectUrl of Inl e \<Rightarrow> Inl e
     | Inr withhold \<Rightarrow> Inr (if withhold then withoutAuthorization headers else headers))"

definition assertManualRedirectKeepsCredentials :: "'ip web_lib \<Rightarrow> string \<Rightarrow> fetch_response \<Rightarrow> unit fetching" where
  "assertManualRedirectKeepsCredentials lib currentUrl response =
    (case resolveRedirectUrl lib response currentUrl of None \<Rightarrow> eff_return ()
     | Some redirectUrl \<Rightarrow> eff_bind (lift_sum (shouldWithholdAuthorization lib currentUrl redirectUrl)) (\<lambda>withhold.
         if \<not> withhold then eff_return () else eff_throw (UrlSafetyError (CrossesBoundary redirectUrl))))"

definition markWithheldCredentials :: "fetch_response \<Rightarrow> string \<Rightarrow> fetch_response" where
  "markWithheldCredentials response redirectedTo = response\<lparr>rsWithheld := Some redirectedTo\<rparr>"

section \<open>Sending, and sending again\<close>

definition isStaleSocketError :: "fetch_error \<Rightarrow> bool" where
  "isStaleSocketError error = (case error of Failure _ code \<Rightarrow> code = Some STALE_SOCKET_ERROR_CODE | _ \<Rightarrow> False)"

definition isReplayableBody :: "init_body \<Rightarrow> bool" where
  "isReplayableBody body \<longleftrightarrow> body \<noteq> StreamBody"

definition REPLAYABLE_METHODS :: "string list" where
  "REPLAYABLE_METHODS = [''GET'', ''HEAD'', ''OPTIONS'', ''TRACE'', ''PROPFIND'', ''REPORT'']"

definition requestMethod :: "fetch_input \<Rightarrow> request_init \<Rightarrow> string" where
  "requestMethod input init =
    (if str_truthy (riMethod init) then map ascii_upper (the (riMethod init))
     else (case input of InputRequest r \<Rightarrow> map ascii_upper (jrMethod r) | InputUrl _ \<Rightarrow> ''GET''))"

definition isReplayableRequest :: "fetch_input \<Rightarrow> request_init \<Rightarrow> bool" where
  "isReplayableRequest input init =
    (if requestMethod input init \<notin> set REPLAYABLE_METHODS then False
     else (case input of InputRequest r \<Rightarrow> if jrBody r then False else isReplayableBody (riBody init)
       | InputUrl _ \<Rightarrow> isReplayableBody (riBody init)))"

text \<open>What \<open>fetch(input, init)\<close> puts on the wire: the headers of \<open>init\<close> replace those of a request.\<close>

definition input_url :: "fetch_input \<Rightarrow> string" where
  "input_url input = (case input of InputUrl url \<Rightarrow> url | InputRequest r \<Rightarrow> jrUrl r)"

definition wire_request :: "fetch_input \<Rightarrow> request_init \<Rightarrow> string option \<Rightarrow> sent_request" where
  "wire_request input init serverName = \<lparr>srqUrl = input_url input, srqMethod = requestMethod input init,
    srqHeaders = (case riHeaders init of Some headers \<Rightarrow> new_headers headers
      | None \<Rightarrow> (case input of InputRequest r \<Rightarrow> jrHeaders r | InputUrl _ \<Rightarrow> [])),
    srqServerName = serverName\<rparr>"

definition send :: "network \<Rightarrow> string \<Rightarrow> sent_request \<Rightarrow> fetch_response fetching" where
  "send net url request events = (netFetch net events request, events @ [Sent url request])"

text \<open>The URL beside the network is the one the request is made for, which only the log records.\<close>

definition fetchWithStaleSocketRetry ::
    "network \<Rightarrow> string \<Rightarrow> fetch_input \<Rightarrow> request_init \<Rightarrow> string option \<Rightarrow> fetch_response fetching" where
  "fetchWithStaleSocketRetry net url input init serverName =
    eff_catch (send net url (wire_request input init serverName)) (\<lambda>error.
      if \<not> isStaleSocketError error \<or> \<not> isReplayableRequest input init then eff_throw error
      else send net url (wire_request input init serverName))"

definition isTransportFailure :: "fetch_error \<Rightarrow> bool" where
  "isTransportFailure error = (case error of Failure name code \<Rightarrow> name \<noteq> ''AbortError'' \<and> code \<noteq> None | _ \<Rightarrow> False)"

definition pinnedInput :: "fetch_input \<Rightarrow> string \<Rightarrow> fetch_input" where
  "pinnedInput input url = (case input of InputRequest r \<Rightarrow> InputRequest (r\<lparr>jrUrl := url\<rparr>) | InputUrl _ \<Rightarrow> InputUrl url)"

definition buildPinnedRequest ::
    "fetch_input \<Rightarrow> request_init \<Rightarrow> header_record \<Rightarrow> PinnedConnection \<Rightarrow> string \<Rightarrow> fetch_input \<times> request_init" where
  "buildPinnedRequest input init headers connection url =
    (pinnedInput input url, init\<lparr>riHeaders := Some (AList.update ''host'' (pcHost connection) headers)\<rparr>)"

fun fetch_pinned ::
    "network \<Rightarrow> string \<Rightarrow> fetch_input \<Rightarrow> request_init \<Rightarrow> header_record \<Rightarrow> PinnedConnection \<Rightarrow> fetch_error \<Rightarrow>
      string list \<Rightarrow> fetch_response fetching" where
  "fetch_pinned net logical input init headers connection lastError [] = eff_throw lastError"
| "fetch_pinned net logical input init headers connection lastError (url # urls) =
    (let (input', init') = buildPinnedRequest input init headers connection url
     in eff_catch (fetchWithStaleSocketRetry net logical input' init' (pcServerName connection)) (\<lambda>error.
       if \<not> isTransportFailure error \<or> \<not> isReplayableRequest input init then eff_throw error
       else fetch_pinned net logical input init headers connection error urls))"

definition fetchPinned ::
    "network \<Rightarrow> string \<Rightarrow> fetch_input \<Rightarrow> request_init \<Rightarrow> header_record \<Rightarrow> PinnedConnection \<Rightarrow> fetch_response fetching" where
  "fetchPinned net logical input init headers connection =
    fetch_pinned net logical input init headers connection (UrlSafetyError NotResolved) (pcUrls connection)"

definition performFetch ::
    "network \<Rightarrow> fetch_input \<Rightarrow> request_init \<Rightarrow> header_record \<Rightarrow> PinnedConnection option \<Rightarrow> fetch_response fetching" where
  "performFetch net input init headers connection =
    (case connection of None \<Rightarrow> fetchWithStaleSocketRetry net (input_url input) input init None
     | Some c \<Rightarrow> fetchPinned net (input_url input) input init headers c)"

section \<open>Following redirects\<close>

definition settle_response :: "string option \<Rightarrow> fetch_response \<Rightarrow> fetch_response" where
  "settle_response withheldAt response =
    (if \<not> str_truthy withheldAt then response else markWithheldCredentials response (the withheldAt))"

fun follow ::
    "nat \<Rightarrow> 'ip web_lib \<Rightarrow> network \<Rightarrow> SafeFetchOptions \<Rightarrow> request_init \<Rightarrow> string \<Rightarrow> fetch_response \<Rightarrow>
      header_record \<Rightarrow> string option \<Rightarrow> fetch_response fetching" where
  "follow 0 lib net opts init currentUrl currentResponse currentHeaders withheldAt =
    eff_throw (UrlSafetyError TooManyRedirects)"
| "follow (Suc n) lib net opts init currentUrl currentResponse currentHeaders withheldAt =
    (case resolveRedirectUrl lib currentResponse currentUrl of
       None \<Rightarrow> eff_return (settle_response withheldAt currentResponse)
     | Some redirectUrl \<Rightarrow>
         eff_bind (resolveConnection lib net opts redirectUrl) (\<lambda>connection.
         eff_bind (lift_sum (getHeadersForRedirect lib currentHeaders currentUrl redirectUrl)) (\<lambda>nextHeaders.
         (let withheldAt' = (if \<not> str_truthy withheldAt \<and> str_truthy (map_of currentHeaders ''authorization'')
                \<and> \<not> str_truthy (map_of nextHeaders ''authorization'') then Some redirectUrl else withheldAt)
          in eff_bind (performFetch net (InputUrl redirectUrl)
               (init\<lparr>riHeaders := Some nextHeaders, riRedirectManual := True\<rparr>) nextHeaders connection) (\<lambda>response.
             if \<not> isRedirect response then eff_return (settle_response withheldAt' response)
             else follow n lib net opts init redirectUrl response nextHeaders withheldAt')))))"

definition followRedirects ::
    "'ip web_lib \<Rightarrow> network \<Rightarrow> SafeFetchOptions \<Rightarrow> request_init \<Rightarrow> string \<Rightarrow> fetch_response \<Rightarrow> header_record \<Rightarrow>
      fetch_response fetching" where
  "followRedirects lib net opts init initialUrl initialResponse headers =
    follow MAX_REDIRECTS lib net opts init initialUrl initialResponse headers None"

definition safe_fetch_attempt ::
    "'ip web_lib \<Rightarrow> network \<Rightarrow> SafeFetchOptions \<Rightarrow> fetch_input \<Rightarrow> request_init \<Rightarrow> PinnedConnection option \<Rightarrow>
      fetch_response fetching" where
  "safe_fetch_attempt lib net opts input init connection =
    (let url = input_url input; headers = mergeHeaderRecord input init in
     eff_bind (performFetch net input (init\<lparr>riRedirectManual := True\<rparr>) headers connection) (\<lambda>response.
       if \<not> isRedirect response then eff_return response
       else if riRedirectManual init
         then eff_bind (assertManualRedirectKeepsCredentials lib url response) (\<lambda>_. eff_return response)
       else followRedirects lib net opts init url response headers))"

definition createSafeFetch ::
    "'ip web_lib \<Rightarrow> network \<Rightarrow> SafeFetchOptions \<Rightarrow> fetch_input \<Rightarrow> request_init \<Rightarrow> fetch_response fetching" where
  "createSafeFetch lib net opts input init =
    eff_bind (resolveConnection lib net opts (input_url input)) (\<lambda>connection.
      eff_catch (safe_fetch_attempt lib net opts input init connection) (\<lambda>error events.
        if timeoutMs opts \<noteq> 0 \<and> timedOut net events then eff_throw (RequestTimeoutError (timeoutMs opts)) events
        else eff_throw error events))"

end
