(* ===== verification/Safe_Fetch_Correct.thy ===== *)
theory Safe_Fetch_Correct
  imports Safe_Fetch
begin

text \<open>
  What the checked fetch guarantees whatever the network answers: with private addresses blocked, each
  request connects to an address that was checked; credentials stay within the site; a write is sent
  again only after a redirect.
\<close>

section \<open>Runs and their events\<close>

text \<open>\<open>runs P m Q\<close>: every event of \<open>m\<close> satisfies \<open>P\<close>, and so does a result \<open>Q\<close>.\<close>

definition runs :: "(net_event \<Rightarrow> bool) \<Rightarrow> 'a fetching \<Rightarrow> ('a \<Rightarrow> bool) \<Rightarrow> bool" where
  "runs P m Q \<longleftrightarrow> (\<forall>w. (\<exists>es. snd (m w) = w @ es \<and> (\<forall>e \<in> set es. P e)) \<and> (\<forall>x. fst (m w) = Inr x \<longrightarrow> Q x))"

lemma runsD:
  assumes "runs P m Q"
  obtains es where "snd (m w) = w @ es" "\<forall>e \<in> set es. P e" "\<And>x. fst (m w) = Inr x \<Longrightarrow> Q x"
  using assms unfolding runs_def by blast

lemma runs_return: "Q x \<Longrightarrow> runs P (eff_return x) Q"
  by (simp add: runs_def eff_return_def)

lemma runs_throw: "runs P (eff_throw e) Q"
  by (simp add: runs_def eff_throw_def)

lemma runs_lift: "(\<And>x. r = Inr x \<Longrightarrow> Q x) \<Longrightarrow> runs P (lift_sum r) Q"
  by (simp add: runs_def lift_sum_def)

lemma runs_send: "P (Sent u r) \<Longrightarrow> runs P (send net u r) (\<lambda>_. True)"
  by (simp add: runs_def send_def)

lemma runs_bind:
  assumes m: "runs P m R" and f: "\<And>x. R x \<Longrightarrow> runs P (f x) Q"
  shows "runs P (eff_bind m f) Q"
  unfolding runs_def
proof
  fix w
  obtain es where es: "snd (m w) = w @ es" "\<forall>e \<in> set es. P e" "\<And>x. fst (m w) = Inr x \<Longrightarrow> R x"
    using runsD [OF m, of w] by blast
  show "(\<exists>es. snd (eff_bind m f w) = w @ es \<and> (\<forall>e \<in> set es. P e)) \<and> (\<forall>x. fst (eff_bind m f w) = Inr x \<longrightarrow> Q x)"
  proof (cases "m w")
    case (Pair res w')
    show ?thesis
    proof (cases res)
      case (Inl e)
      then show ?thesis using es Pair by (auto simp: eff_bind_def)
    next
      case (Inr x)
      then have "R x" using es(3) Pair by simp
      from f [OF this] obtain es' where "snd (f x w') = w' @ es'" "\<forall>e \<in> set es'. P e" "\<And>y. fst (f x w') = Inr y \<Longrightarrow> Q y"
        unfolding runs_def by blast
      moreover have "eff_bind m f w = f x w'" using Inr Pair by (simp add: eff_bind_def)
      ultimately show ?thesis using es(1,2) Pair by (auto intro: exI [of _ "es @ es'"])
    qed
  qed
qed

lemma runs_catch:
  assumes m: "runs P m Q" and h: "\<And>e. runs P (h e) Q"
  shows "runs P (eff_catch m h) Q"
  unfolding runs_def
proof
  fix w
  obtain es where es: "snd (m w) = w @ es" "\<forall>e \<in> set es. P e" "\<And>x. fst (m w) = Inr x \<Longrightarrow> Q x"
    using runsD [OF m, of w] by blast
  show "(\<exists>es. snd (eff_catch m h w) = w @ es \<and> (\<forall>e \<in> set es. P e)) \<and> (\<forall>x. fst (eff_catch m h w) = Inr x \<longrightarrow> Q x)"
  proof (cases "m w")
    case (Pair res w')
    show ?thesis
    proof (cases res)
      case (Inl e)
      from h [of e] obtain es' where "snd (h e w') = w' @ es'" "\<forall>e \<in> set es'. P e" "\<And>y. fst (h e w') = Inr y \<Longrightarrow> Q y"
        unfolding runs_def by blast
      moreover have "eff_catch m h w = h e w'" using Inl Pair by (simp add: eff_catch_def)
      ultimately show ?thesis using es(1,2) Pair by (auto intro: exI [of _ "es @ es'"])
    next
      case (Inr x)
      then show ?thesis using es Pair by (auto simp: eff_catch_def)
    qed
  qed
qed

lemma runs_weaken: "runs P m R \<Longrightarrow> (\<And>x. R x \<Longrightarrow> Q x) \<Longrightarrow> runs P m Q"
  unfolding runs_def by blast

section \<open>Resolving\<close>

definition public_host :: "'ip web_lib \<Rightarrow> SafeFetchOptions \<Rightarrow> js_url \<Rightarrow> bool" where
  "public_host lib opts p \<longleftrightarrow> urlHost p \<in> allowedPrivateHosts opts \<or>
    (\<exists>a. isGloballyRoutableAddress lib a \<and> (stripBrackets (urlHostname p) = a \<or> formatAddressForUrl lib a = Inr (urlHostname p)))"

definition allowed_url :: "'ip web_lib \<Rightarrow> string \<Rightarrow> bool" where
  "allowed_url lib u \<longleftrightarrow> (\<exists>p. parseUrl lib u = Some p \<and> urlProtocol p \<in> set ALLOWED_PROTOCOLS)"

definition public_url :: "'ip web_lib \<Rightarrow> SafeFetchOptions \<Rightarrow> string \<Rightarrow> bool" where
  "public_url lib opts u \<longleftrightarrow> (blockPrivateResolution opts \<longrightarrow> (\<exists>p. parseUrl lib u = Some p \<and> public_host lib opts p))"

text \<open>The law of the platform's URLs: the text of a URL whose host was set is parsed as that URL.\<close>

definition href_law :: "'ip web_lib \<Rightarrow> bool" where
  "href_law lib \<longleftrightarrow> (\<forall>u p h. parseUrl lib u = Some p \<longrightarrow>
    parseUrl lib (urlHref (setHostname lib p h)) = Some (setHostname lib p h))"

definition connection_ok :: "'ip web_lib \<Rightarrow> SafeFetchOptions \<Rightarrow> string \<Rightarrow> PinnedConnection option \<Rightarrow> bool" where
  "connection_ok lib opts url c \<longleftrightarrow> allowed_url lib url \<and>
    (case c of None \<Rightarrow> public_url lib opts url | Some c \<Rightarrow> \<forall>u \<in> set (pcUrls c). public_url lib opts u)"

lemma runs_assert: "runs P (assertGloballyRoutableAddress lib a reason) (\<lambda>_. isGloballyRoutableAddress lib a)"
  by (simp add: assertGloballyRoutableAddress_def runs_throw runs_return)

lemma runs_assert_all: "runs P (assert_all lib as) (\<lambda>_. \<forall>a \<in> set as. isGloballyRoutableAddress lib a)"
proof (induction as)
  case Nil
  show ?case by (simp add: runs_return)
next
  case (Cons a as)
  show ?case unfolding assert_all.simps
    by (rule runs_bind [OF runs_assert], rule runs_weaken [OF Cons.IH]) simp
qed

lemma runs_resolve: "P (Queried h) \<Longrightarrow> runs P (resolveAllAddresses net h) (\<lambda>_. True)"
  by (simp add: runs_def resolveAllAddresses_def Let_def)

lemma runs_protocol: "runs P (validateProtocol protocol) (\<lambda>_. protocol \<in> set ALLOWED_PROTOCOLS)"
  by (simp add: validateProtocol_def runs_throw runs_return)

lemma pinned_url_public:
  assumes law: "href_law lib" and a: "isGloballyRoutableAddress lib a" and u: "pinnedUrl lib parsed a = Inr u"
  shows "public_url lib opts u"
proof -
  from u obtain copy literal where copy: "parseUrl lib (urlHref parsed) = Some copy" "formatAddressForUrl lib a = Inr literal"
    "urlHostname (setHostname lib copy literal) = literal" "u = urlHref (setHostname lib copy literal)"
    by (auto simp: pinnedUrl_def Let_def split: option.splits sum.splits if_splits)
  then have "parseUrl lib u = Some (setHostname lib copy literal)" using law by (auto simp: href_law_def)
  then show ?thesis using a copy(2,3) by (auto simp: public_url_def public_host_def)
qed

lemma pinned_urls_public:
  assumes law: "href_law lib"
  shows "pinned_urls lib parsed as = Inr us \<Longrightarrow> \<forall>a \<in> set as. isGloballyRoutableAddress lib a \<Longrightarrow>
    \<forall>u \<in> set us. public_url lib opts u"
proof (induction as arbitrary: us)
  case (Cons a as)
  from Cons.prems(1) obtain u vs where "pinnedUrl lib parsed a = Inr u" "pinned_urls lib parsed as = Inr vs" "us = u # vs"
    by (auto split: sum.splits)
  then show ?case using Cons.IH [of vs] Cons.prems(2) pinned_url_public [OF law] by auto
qed simp

lemma runs_resolveConnection:
  assumes law: "href_law lib" and P: "\<And>h. P (Queried h)"
  shows "runs P (resolveConnection lib net opts url) (connection_ok lib opts url)"
proof (cases "parseUrl lib url")
  case None
  then show ?thesis by (simp add: resolveConnection_def runs_throw)
next
  case (Some parsed)
  let ?h = "stripBrackets (urlHostname parsed)"
  have direct: "connection_ok lib opts url None"
    if "urlProtocol parsed \<in> set ALLOWED_PROTOCOLS" "blockPrivateResolution opts \<Longrightarrow> public_host lib opts parsed"
    using that Some by (auto simp: connection_ok_def allowed_url_def public_url_def)
  have pinned: "connection_ok lib opts url (Some c)"
    if "urlProtocol parsed \<in> set ALLOWED_PROTOCOLS" "buildPinnedConnection lib parsed as = Inr c"
      "\<forall>a \<in> set as. isGloballyRoutableAddress lib a" for c as
    using that Some pinned_urls_public [OF law]
    by (fastforce simp: connection_ok_def allowed_url_def buildPinnedConnection_def split: sum.splits)
  show ?thesis unfolding resolveConnection_def Some option.case
  proof (rule runs_bind [OF runs_protocol])
    assume proto: "urlProtocol parsed \<in> set ALLOWED_PROTOCOLS"
    consider "\<not> blockPrivateResolution opts" | "blockPrivateResolution opts" "urlHost parsed \<in> allowedPrivateHosts opts"
      | "blockPrivateResolution opts" "urlHost parsed \<notin> allowedPrivateHosts opts" "ipParse lib ?h \<noteq> None"
      | "blockPrivateResolution opts" "urlHost parsed \<notin> allowedPrivateHosts opts" "ipParse lib ?h = None" by blast
    then show "runs P (if \<not> blockPrivateResolution opts then eff_return None
        else if urlHost parsed \<in> allowedPrivateHosts opts then eff_return None
        else (let hostname = ?h in
           if ipParse lib hostname \<noteq> None
           then eff_bind (assertGloballyRoutableAddress lib hostname PrivateUrl) (\<lambda>_. eff_return None)
           else eff_bind (resolveAllAddresses net hostname) (\<lambda>addresses.
             eff_bind (assert_all lib addresses) (\<lambda>_.
             eff_bind (lift_sum (buildPinnedConnection lib parsed addresses)) (\<lambda>c. eff_return (Some c))))))
        (connection_ok lib opts url)"
    proof cases
      case 1
      then show ?thesis using direct [OF proto] by (simp add: runs_return)
    next
      case 2
      then show ?thesis using direct [OF proto] by (simp add: runs_return public_host_def)
    next
      case 3
      have "runs P (eff_bind (assertGloballyRoutableAddress lib ?h PrivateUrl) (\<lambda>_. eff_return None)) (connection_ok lib opts url)"
        by (rule runs_bind [OF runs_assert], rule runs_return, rule direct [OF proto]) (auto simp: public_host_def)
      then show ?thesis using 3 by (simp add: Let_def)
    next
      case 4
      have "runs P (eff_bind (resolveAllAddresses net ?h) (\<lambda>addresses. eff_bind (assert_all lib addresses) (\<lambda>_.
          eff_bind (lift_sum (buildPinnedConnection lib parsed addresses)) (\<lambda>c. eff_return (Some c))))) (connection_ok lib opts url)"
        by (rule runs_bind [OF runs_resolve [of P ?h, OF P]], rule runs_bind [OF runs_assert_all],
            rule runs_bind [OF runs_lift], assumption, rule runs_return, rule pinned [OF proto])
      then show ?thesis using 4 by (simp add: Let_def)
    qed
  qed
qed

section \<open>Sending\<close>

text \<open>
  The laws of a run are stated for any property \<open>P\<close> of its requests that \<open>may_send\<close> gives: the wire
  request of \<open>performFetch\<close> for a URL, with the given headers.
\<close>

definition wire_urls :: "fetch_input \<Rightarrow> PinnedConnection option \<Rightarrow> string set" where
  "wire_urls input c = (case c of None \<Rightarrow> {input_url input} | Some c \<Rightarrow> set (pcUrls c))"

definition wire_headers :: "fetch_input \<Rightarrow> request_init \<Rightarrow> header_record \<Rightarrow> PinnedConnection option \<Rightarrow> header_record" where
  "wire_headers input init headers c = (case c of None \<Rightarrow> srqHeaders (wire_request input init None)
    | Some c \<Rightarrow> new_headers (AList.update ''host'' (pcHost c) headers))"

definition may_send :: "(net_event \<Rightarrow> bool) \<Rightarrow> fetch_input \<Rightarrow> request_init \<Rightarrow> header_record \<Rightarrow> PinnedConnection option \<Rightarrow> bool" where
  "may_send P input init headers c \<longleftrightarrow> (\<forall>v \<in> wire_urls input c. \<forall>method server.
    P (Sent (input_url input) \<lparr>srqUrl = v, srqMethod = method, srqHeaders = wire_headers input init headers c,
      srqServerName = server\<rparr>))"

lemma runs_retry:
  assumes "P (Sent u (wire_request input init server))"
  shows "runs P (fetchWithStaleSocketRetry net u input init server) (\<lambda>_. True)"
  unfolding fetchWithStaleSocketRetry_def
  by (rule runs_catch [OF runs_send [of P, OF assms]]) (simp add: runs_throw runs_send [of P, OF assms])

lemma wire_pinned:
  "wire_request (pinnedInput input v) (init\<lparr>riHeaders := Some (AList.update ''host'' (pcHost c) headers)\<rparr>) server =
    \<lparr>srqUrl = v, srqMethod = requestMethod input init, srqHeaders = wire_headers input init headers (Some c),
      srqServerName = server\<rparr>"
  by (cases input) (simp_all add: wire_request_def pinnedInput_def input_url_def requestMethod_def wire_headers_def)

lemma runs_fetch_pinned:
  assumes may: "may_send P input init headers (Some c)"
  shows "set urls \<subseteq> set (pcUrls c) \<Longrightarrow>
    runs P (fetch_pinned net (input_url input) input init headers c lastError urls) (\<lambda>_. True)"
proof (induction urls arbitrary: lastError)
  case Nil
  show ?case by (simp add: runs_throw)
next
  case (Cons url urls)
  have "P (Sent (input_url input) (wire_request (pinnedInput input url)
      (init\<lparr>riHeaders := Some (AList.update ''host'' (pcHost c) headers)\<rparr>) (pcServerName c)))"
    using may Cons.prems by (simp add: wire_pinned may_send_def wire_urls_def)
  note first = runs_retry [of P, OF this]
  have rest: "runs P (fetch_pinned net (input_url input) input init headers c error urls) (\<lambda>_. True)" for error
    using Cons by simp
  show ?case unfolding fetch_pinned.simps buildPinnedRequest_def Let_def prod.case
    by (rule runs_catch [OF first]) (simp add: runs_throw rest)
qed

lemma runs_performFetch:
  assumes "may_send P input init headers c"
  shows "runs P (performFetch net input init headers c) (\<lambda>_. True)"
proof (cases c)
  case None
  have "P (Sent (input_url input) (wire_request input init None))"
    using assms None by (simp add: may_send_def wire_urls_def wire_headers_def wire_request_def)
  then show ?thesis unfolding performFetch_def None option.case by (rule runs_retry [of P])
next
  case (Some c)
  show ?thesis unfolding performFetch_def Some option.case fetchPinned_def
    by (rule runs_fetch_pinned) (use assms Some in simp_all)
qed

text \<open>What a redirect may do to the URL and the headers is the invariant of the loop.\<close>

lemma runs_follow:
  assumes law: "href_law lib" and queries: "\<And>h. P (Queried h)"
    and step: "\<And>u v headers headers' c. I u headers \<Longrightarrow> connection_ok lib opts v c \<Longrightarrow>
      getHeadersForRedirect lib headers u v = Inr headers' \<Longrightarrow> I v headers' \<and>
      may_send P (InputUrl v) (init\<lparr>riHeaders := Some headers', riRedirectManual := True\<rparr>) headers' c"
  shows "I u headers \<Longrightarrow> runs P (follow n lib net opts init u response headers withheld) (\<lambda>_. True)"
proof (induction n arbitrary: u response headers withheld)
  case 0
  show ?case by (simp add: runs_throw)
next
  case (Suc n)
  show ?case
  proof (cases "resolveRedirectUrl lib response u")
    case None
    then show ?thesis by (simp add: runs_return)
  next
    case (Some v)
    have inner: "runs P (eff_bind (performFetch net (InputUrl v) (init\<lparr>riHeaders := Some headers', riRedirectManual := True\<rparr>) headers' c)
        (\<lambda>response. if \<not> isRedirect response then eff_return (settle_response w response)
          else follow n lib net opts init v response headers' w)) (\<lambda>_. True)"
      if "connection_ok lib opts v c" "getHeadersForRedirect lib headers u v = Inr headers'" for c headers' w
      using step [OF Suc.prems that] Suc.IH by (auto intro!: runs_bind [OF runs_performFetch] simp: runs_return)
    show ?thesis unfolding follow.simps Some option.case
      by (rule runs_bind [OF runs_resolveConnection [where P = P, OF law queries]], rule runs_bind [OF runs_lift], assumption)
        (simp add: Let_def inner)
  qed
qed

lemma runs_createSafeFetch:
  assumes law: "href_law lib" and queries: "\<And>h. P (Queried h)"
    and first: "\<And>c. connection_ok lib opts (input_url input) c \<Longrightarrow> I (input_url input) (mergeHeaderRecord input init) \<and>
      may_send P input (init\<lparr>riRedirectManual := True\<rparr>) (mergeHeaderRecord input init) c"
    and step: "\<And>u v headers headers' c. I u headers \<Longrightarrow> connection_ok lib opts v c \<Longrightarrow>
      getHeadersForRedirect lib headers u v = Inr headers' \<Longrightarrow> I v headers' \<and>
      may_send P (InputUrl v) (init\<lparr>riHeaders := Some headers', riRedirectManual := True\<rparr>) headers' c"
  shows "runs P (createSafeFetch lib net opts input init) (\<lambda>_. True)"
proof -
  have attempt: "runs P (safe_fetch_attempt lib net opts input init c) (\<lambda>_. True)"
    if c: "connection_ok lib opts (input_url input) c" for c
  proof -
    have follow: "runs P (followRedirects lib net opts init (input_url input) response (mergeHeaderRecord input init)) (\<lambda>_. True)" for response
      unfolding followRedirects_def by (rule runs_follow [where I = I, OF law queries step]) (use first [OF c] in auto)
    have manual: "runs P (assertManualRedirectKeepsCredentials lib (input_url input) response) (\<lambda>_. True)" for response
      by (auto simp: assertManualRedirectKeepsCredentials_def runs_return runs_throw
          intro!: runs_bind [OF runs_lift [where Q = "\<lambda>_. True"]] split: option.splits)
    show ?thesis unfolding safe_fetch_attempt_def Let_def
      by (rule runs_bind [OF runs_performFetch]) (use first [OF c] follow in \<open>auto simp: runs_return intro!: runs_bind [OF manual]\<close>)
  qed
  have timeout: "runs P (\<lambda>events. if timeoutMs opts \<noteq> 0 \<and> timedOut net events
      then eff_throw (RequestTimeoutError (timeoutMs opts)) events else eff_throw error events) (\<lambda>_. True)" for error
    by (simp add: runs_def eff_throw_def)
  show ?thesis unfolding createSafeFetch_def
    by (rule runs_bind [OF runs_resolveConnection [where P = P, OF law queries]], rule runs_catch [OF attempt timeout])
qed

section \<open>Only public addresses\<close>

definition public_event :: "'ip web_lib \<Rightarrow> SafeFetchOptions \<Rightarrow> net_event \<Rightarrow> bool" where
  "public_event lib opts e = (case e of Queried _ \<Rightarrow> True
    | Sent url request \<Rightarrow> allowed_url lib url \<and> public_url lib opts (srqUrl request))"

lemma connection_may_send_public:
  "connection_ok lib opts (input_url input) c \<Longrightarrow> may_send (public_event lib opts) input init headers c"
  by (auto simp: may_send_def public_event_def connection_ok_def wire_urls_def split: option.splits)

text \<open>C32: With private addresses blocked no request leaves for one. Whatever the name server and the
  servers on the way answer, every request of a call, after any number of redirects, is for an http or
  https URL and goes to a host that is allowed by name, that is a globally routable address, or that was
  replaced by the globally routable address the check has seen.\<close>

theorem requests_reach_public_addresses:
  assumes "href_law lib" "createSafeFetch lib net opts input init events = (result, events @ sent)"
    "Sent url request \<in> set sent"
  shows "allowed_url lib url \<and> public_url lib opts (srqUrl request)"
proof -
  have "runs (public_event lib opts) (createSafeFetch lib net opts input init) (\<lambda>_. True)"
    by (rule runs_createSafeFetch [where I = "\<lambda>_ _. True", OF assms(1)])
      (simp_all add: connection_may_send_public input_url_def public_event_def)
  then obtain es where "snd (createSafeFetch lib net opts input init events) = events @ es"
    "\<forall>e \<in> set es. public_event lib opts e" unfolding runs_def by blast
  then have "public_event lib opts (Sent url request)" using assms(2,3) by simp
  then show ?thesis by (simp add: public_event_def)
qed

section \<open>Credentials\<close>

definition has_authorization :: "header_record \<Rightarrow> bool" where
  "has_authorization headers \<longleftrightarrow> (\<exists>(k, v) \<in> set headers. map ascii_lower k = ''authorization'')"

definition same_boundary :: "'ip web_lib \<Rightarrow> string \<Rightarrow> string \<Rightarrow> bool" where
  "same_boundary lib a b \<longleftrightarrow> shouldWithholdAuthorization lib a b = Inr False"

lemma same_boundary_refl: "parseUrl lib a = Some p \<Longrightarrow> same_boundary lib a a"
  by (simp add: same_boundary_def shouldWithholdAuthorization_def isTransportDowngrade_def isDifferentSite_def Let_def)

lemma same_boundary_trans: "same_boundary lib a b \<Longrightarrow> same_boundary lib b c \<Longrightarrow> same_boundary lib a c"
  by (auto simp: same_boundary_def shouldWithholdAuthorization_def isTransportDowngrade_def isDifferentSite_def Let_def
      split: option.splits if_splits)

lemma ascii_lower_idem [simp]: "ascii_lower (ascii_lower c) = ascii_lower c"
proof (cases "65 \<le> (of_char c :: nat) \<and> (of_char c :: nat) \<le> 90")
  case True
  then have "(of_char (char_of (of_char c + 32 :: nat)) :: nat) = of_char c + 32" by (simp add: take_bit_nat_eq_self)
  then show ?thesis using True by (simp add: ascii_lower_def Let_def)
next
  case False
  then show ?thesis by (auto simp: ascii_lower_def Let_def)
qed

lemma has_authorization_keys:
  "has_authorization headers \<longleftrightarrow> ''authorization'' \<in> (\<lambda>k. map ascii_lower k) ` fst ` set headers"
  by (force simp: has_authorization_def image_iff)

lemma new_headers_keys: "fst ` set (new_headers headers) = (\<lambda>k. map ascii_lower k) ` fst ` set headers"
proof -
  have "fst ` set (fold (\<lambda>(k, v) m. let k = map ascii_lower k in
      AList.update k (case map_of m k of None \<Rightarrow> v | Some w \<Rightarrow> w @ '', '' @ v) m) headers m) =
    fst ` set m \<union> (\<lambda>k. map ascii_lower k) ` fst ` set headers" for m
  proof (induction headers arbitrary: m)
    case (Cons h headers)
    show ?case using Cons.IH by (cases h) (simp add: Let_def dom_update)
  qed simp
  then show ?thesis by (simp add: new_headers_def)
qed

lemma has_authorization_new [simp]: "has_authorization (new_headers headers) = has_authorization headers"
  by (simp add: has_authorization_keys new_headers_keys image_image comp_def)

lemma has_authorization_host [simp]: "has_authorization (AList.update ''host'' h headers) = has_authorization headers"
  by (simp add: has_authorization_keys dom_update ascii_lower_def Let_def)

lemma without_authorization [simp]: "\<not> has_authorization (withoutAuthorization headers)"
  by (auto simp: has_authorization_def withoutAuthorization_def)

definition bound_event :: "'ip web_lib \<Rightarrow> string \<Rightarrow> net_event \<Rightarrow> bool" where
  "bound_event lib start e = (case e of Queried _ \<Rightarrow> True
    | Sent url request \<Rightarrow> has_authorization (srqHeaders request) \<longrightarrow> same_boundary lib start url)"

lemma redirect_keeps_boundary:
  assumes "has_authorization headers \<longrightarrow> same_boundary lib start u" "getHeadersForRedirect lib headers u v = Inr headers'"
  shows "has_authorization headers' \<longrightarrow> same_boundary lib start v"
  using assms same_boundary_trans [of lib start u v]
  by (auto simp: getHeadersForRedirect_def same_boundary_def split: sum.splits if_splits)

lemma hop_stays_bound:
  assumes "has_authorization headers \<longrightarrow> same_boundary lib start v"
  shows "may_send (bound_event lib start) (InputUrl v) (init\<lparr>riHeaders := Some headers, riRedirectManual := True\<rparr>) headers c"
  using assms by (auto simp: may_send_def bound_event_def input_url_def wire_headers_def wire_request_def split: option.splits)

text \<open>C33: Credentials do not leave the site they were given for. However often a call is redirected, a request
  that carries an authorization header is for a URL of the same site as the one the caller asked for, and
  not a plain one when that was encrypted.\<close>

theorem credentials_stay_within_the_boundary:
  assumes "href_law lib" "createSafeFetch lib net opts input init events = (result, events @ sent)"
    "Sent url request \<in> set sent" "has_authorization (srqHeaders request)"
  shows "shouldWithholdAuthorization lib (input_url input) url = Inr False"
proof -
  let ?start = "input_url input"
  have parsed: "same_boundary lib ?start ?start" if "connection_ok lib opts ?start c" for c
    using that same_boundary_refl by (auto simp: connection_ok_def allowed_url_def)
  have "runs (bound_event lib ?start) (createSafeFetch lib net opts input init) (\<lambda>_. True)"
  proof (rule runs_createSafeFetch [where I = "\<lambda>u headers. has_authorization headers \<longrightarrow> same_boundary lib ?start u", OF assms(1)])
    fix c assume "connection_ok lib opts ?start c"
    then show "(has_authorization (mergeHeaderRecord input init) \<longrightarrow> same_boundary lib ?start ?start) \<and>
      may_send (bound_event lib ?start) input (init\<lparr>riRedirectManual := True\<rparr>) (mergeHeaderRecord input init) c"
      using parsed by (simp add: may_send_def bound_event_def)
  next
    fix u v headers headers' c
    assume "has_authorization headers \<longrightarrow> same_boundary lib ?start u" "getHeadersForRedirect lib headers u v = Inr headers'"
    from redirect_keeps_boundary [OF this] show "(has_authorization headers' \<longrightarrow> same_boundary lib ?start v) \<and>
      may_send (bound_event lib ?start) (InputUrl v) (init\<lparr>riHeaders := Some headers', riRedirectManual := True\<rparr>) headers' c"
      using hop_stays_bound by blast
  qed (simp add: bound_event_def)
  then obtain es where "snd (createSafeFetch lib net opts input init events) = events @ es"
    "\<forall>e \<in> set es. bound_event lib ?start e" unfolding runs_def by blast
  then have "bound_event lib ?start (Sent url request)" using assms(2,3) by simp
  then show ?thesis using assms(4) by (simp add: bound_event_def same_boundary_def)
qed

section \<open>Writes\<close>

definition redirected :: "network \<Rightarrow> net_log \<Rightarrow> sent_request \<Rightarrow> bool" where
  "redirected net events request \<longleftrightarrow> (\<exists>response. netFetch net events request = Inr response \<and> isRedirect response)"

definition is_sent :: "net_event \<Rightarrow> bool" where
  "is_sent e = (case e of Sent _ _ \<Rightarrow> True | Queried _ \<Rightarrow> False)"

text \<open>A request is followed by another one only if it was answered with a redirect.\<close>

fun sent_again_after_redirects :: "network \<Rightarrow> net_log \<Rightarrow> net_event list \<Rightarrow> bool" where
  "sent_again_after_redirects net events [] = True"
| "sent_again_after_redirects net events (e # es) =
    ((case e of Sent _ request \<Rightarrow> (\<exists>e' \<in> set es. is_sent e') \<longrightarrow> redirected net events request | Queried _ \<Rightarrow> True)
     \<and> sent_again_after_redirects net (events @ [e]) es)"

definition sent_count :: "net_event list \<Rightarrow> nat" where
  "sent_count es = length (filter is_sent es)"

text \<open>Once, or not at all: what \<open>performFetch\<close> does with a request that must not be repeated.\<close>

definition one_shot :: "network \<Rightarrow> fetch_response fetching \<Rightarrow> bool" where
  "one_shot net m \<longleftrightarrow> (\<forall>w. (\<exists>e. m w = (Inl e, w)) \<or> (\<exists>u r. m w = (netFetch net w r, w @ [Sent u r])))"

lemma one_shot_catch:
  assumes m: "one_shot net m" and h: "\<And>e w. h e w = (Inl e, w)"
  shows "one_shot net (eff_catch m h)"
  unfolding one_shot_def
proof
  fix w
  consider e where "m w = (Inl e, w)" | u r where "m w = (netFetch net w r, w @ [Sent u r])"
    using m unfolding one_shot_def by blast
  then show "(\<exists>e. eff_catch m h w = (Inl e, w)) \<or> (\<exists>u r. eff_catch m h w = (netFetch net w r, w @ [Sent u r]))"
  proof cases
    case 1
    then show ?thesis by (simp add: eff_catch_def h)
  next
    case 2
    have "eff_catch m h w = (netFetch net w r, w @ [Sent u r])" using 2 h
      by (cases "netFetch net w r") (simp_all add: eff_catch_def)
    then show ?thesis by blast
  qed
qed

lemma one_shot_retry:
  "\<not> isReplayableRequest input init \<Longrightarrow> one_shot net (fetchWithStaleSocketRetry net u input init server)"
  by (auto simp: one_shot_def fetchWithStaleSocketRetry_def eff_catch_def send_def eff_throw_def split: sum.splits)

lemma replayable_pinned:
  "isReplayableRequest (pinnedInput input v) (init\<lparr>riHeaders := h\<rparr>) = isReplayableRequest input init"
  by (cases input) (simp_all add: isReplayableRequest_def requestMethod_def pinnedInput_def)

lemma one_shot_pinned:
  assumes "\<not> isReplayableRequest input init"
  shows "one_shot net (fetch_pinned net u input init headers c lastError urls)"
proof (cases urls)
  case Nil
  then show ?thesis by (simp add: one_shot_def eff_throw_def)
next
  case (Cons v vs)
  have "one_shot net (fetchWithStaleSocketRetry net u (pinnedInput input v)
      (init\<lparr>riHeaders := Some (AList.update ''host'' (pcHost c) headers)\<rparr>) (pcServerName c))"
    by (rule one_shot_retry) (simp add: replayable_pinned assms)
  then show ?thesis unfolding Cons fetch_pinned.simps buildPinnedRequest_def Let_def prod.case
    by (rule one_shot_catch) (simp add: assms eff_throw_def)
qed

lemma one_shot_performFetch:
  "\<not> isReplayableRequest input init \<Longrightarrow> one_shot net (performFetch net input init headers c)"
  by (cases c) (simp_all add: performFetch_def one_shot_retry fetchPinned_def one_shot_pinned)

lemma queries_only:
  "\<lbrakk>\<forall>e \<in> set qs. \<not> is_sent e\<rbrakk> \<Longrightarrow> sent_again_after_redirects net events (qs @ es) = sent_again_after_redirects net (events @ qs) es"
  by (induction qs arbitrary: events) (auto simp: is_sent_def split: net_event.splits)

lemma sent_count_simps [simp]:
  "sent_count [] = 0" "sent_count (Sent u r # es) = Suc (sent_count es)" "sent_count (xs @ ys) = sent_count xs + sent_count ys"
  "\<forall>e \<in> set qs. \<not> is_sent e \<Longrightarrow> sent_count qs = 0"
  by (simp_all add: sent_count_def is_sent_def filter_empty_conv)

text \<open>A call that sends at most \<open>n\<close> requests, each but the last answered with a redirect.\<close>

definition hops :: "network \<Rightarrow> nat \<Rightarrow> net_log \<Rightarrow> net_log \<Rightarrow> bool" where
  "hops net n w w' \<longleftrightarrow> (\<exists>es. w' = w @ es \<and> sent_count es \<le> n \<and> sent_again_after_redirects net w es)"

lemma hops_queries: "\<forall>e \<in> set qs. \<not> is_sent e \<Longrightarrow> hops net n w (w @ qs)"
  unfolding hops_def using queries_only [of qs net w "[]"] by (intro exI [of _ qs]) simp

lemma hops_after_queries: "\<forall>e \<in> set qs. \<not> is_sent e \<Longrightarrow> hops net n (w @ qs) w' \<Longrightarrow> hops net n w w'"
  unfolding hops_def using queries_only by fastforce

lemma hops_redirect: "redirected net w r \<Longrightarrow> hops net n (w @ [Sent u r]) w' \<Longrightarrow> hops net (Suc n) w w'"
  unfolding hops_def by (elim exE conjE) (rule exI [of _ "Sent u r # es" for es], auto)

lemma hops_last: "hops net (Suc n) w (w @ [Sent u r])"
  unfolding hops_def by (intro exI [of _ "[Sent u r]"]) simp

lemma hops_same: "hops net n w w"
  unfolding hops_def by (intro exI [of _ "[]"]) simp

lemma resolve_queries:
  assumes "href_law lib"
  obtains qs where "snd (resolveConnection lib net opts url w) = w @ qs" "\<forall>e \<in> set qs. \<not> is_sent e"
  using runs_resolveConnection [where P = "\<lambda>e. \<not> is_sent e", OF assms] unfolding runs_def is_sent_def by (metis net_event.simps(5))

lemma hops_bind_resolve:
  assumes law: "href_law lib" and f: "\<And>c w. hops net n w (snd (f c w))"
  shows "hops net n w (snd (eff_bind (resolveConnection lib net opts url) f w))"
proof -
  obtain qs where qs: "snd (resolveConnection lib net opts url w) = w @ qs" "\<forall>e \<in> set qs. \<not> is_sent e"
    by (rule resolve_queries [OF law])
  show ?thesis
  proof (cases "resolveConnection lib net opts url w")
    case (Pair res w')
    then show ?thesis using qs f [where w = "w @ qs"] hops_queries [OF qs(2)] hops_after_queries [OF qs(2)]
      by (cases res) (simp_all add: eff_bind_def)
  qed
qed

lemma hops_bind_shot:
  assumes m: "one_shot net m" and stop: "\<And>x w. \<not> isRedirect x \<Longrightarrow> snd (f x w) = w"
    and go: "\<And>x w. isRedirect x \<Longrightarrow> hops net n w (snd (f x w))"
  shows "hops net (Suc n) w (snd (eff_bind m f w))"
proof -
  consider e where "m w = (Inl e, w)" | u r where "m w = (netFetch net w r, w @ [Sent u r])"
    using m unfolding one_shot_def by blast
  then show ?thesis
  proof cases
    case 1
    then show ?thesis by (simp add: eff_bind_def hops_same)
  next
    case 2
    show ?thesis
    proof (cases "netFetch net w r")
      case (Inl e)
      then show ?thesis using 2 by (simp add: eff_bind_def hops_last)
    next
      case (Inr x)
      show ?thesis
      proof (cases "isRedirect x")
        case True
        then have "redirected net w r" using Inr by (simp add: redirected_def)
        from hops_redirect [OF this go [OF True]] show ?thesis using 2 Inr by (simp add: eff_bind_def)
      next
        case False
        then show ?thesis using 2 Inr stop [OF False] by (simp add: eff_bind_def hops_last)
      qed
    qed
  qed
qed

lemma replayable_init: "isReplayableRequest (InputUrl u) (init\<lparr>riHeaders := h, riRedirectManual := b\<rparr>) = isReplayableRequest (InputUrl v) init"
  by (simp add: isReplayableRequest_def requestMethod_def)

lemma hops_follow:
  assumes law: "href_law lib" and once: "\<not> isReplayableRequest (InputUrl u0) init"
  shows "hops net n w (snd (follow n lib net opts init u response headers withheld w))"
proof (induction n arbitrary: u response headers withheld w)
  case 0
  show ?case by (simp add: eff_throw_def hops_same)
next
  case (Suc n)
  show ?case
  proof (cases "resolveRedirectUrl lib response u")
    case None
    then show ?thesis by (simp add: eff_return_def hops_same)
  next
    case (Some v)
    have shot: "hops net (Suc n) w (snd (eff_bind (performFetch net (InputUrl v)
        (init\<lparr>riHeaders := Some headers', riRedirectManual := True\<rparr>) headers' c)
        (\<lambda>response. if \<not> isRedirect response then eff_return (settle_response wh response)
          else follow n lib net opts init v response headers' wh) w))" for c headers' wh w
      by (rule hops_bind_shot [OF one_shot_performFetch])
        (use once replayable_init [where v = u0] in \<open>auto simp: eff_return_def Suc.IH\<close>)
    show ?thesis unfolding follow.simps Some option.case
      by (rule hops_bind_resolve [OF law]) (simp add: eff_bind_def [of "lift_sum _"] lift_sum_def Let_def shot hops_same split: sum.splits)
  qed
qed

lemma catch_timeout_log: "snd (eff_catch m (\<lambda>error events. if b events then eff_throw e events else eff_throw error events) w) = snd (m w)"
  by (simp add: eff_catch_def eff_throw_def split: prod.splits sum.splits)

text \<open>A write is not repeated behind the caller's back. A request with a method or a body that must not be
  sent twice goes out once per hop: a further request of the call is sent only after a redirect, not after a
  transport failure, a stale socket or another address; with the at most ten redirects that are eleven, and
  one when the caller follows redirects itself.\<close>

theorem writes_are_sent_once:
  assumes "href_law lib" "\<not> isReplayableRequest (InputUrl url) init"
    "createSafeFetch lib net opts (InputUrl url) init events = (result, events @ sent)"
  shows "sent_again_after_redirects net events sent \<and> sent_count sent \<le> (if riRedirectManual init then 1 else Suc MAX_REDIRECTS)"
proof -
  let ?n = "if riRedirectManual init then 0 else MAX_REDIRECTS"
  have manual: "snd (eff_bind (assertManualRedirectKeepsCredentials lib url response) (\<lambda>_. eff_return response) w) = w" for response w
    by (simp add: assertManualRedirectKeepsCredentials_def eff_bind_def eff_return_def eff_throw_def lift_sum_def split: option.splits sum.splits)
  have attempt: "hops net (Suc ?n) w (snd (safe_fetch_attempt lib net opts (InputUrl url) init c w))" for c w
    unfolding safe_fetch_attempt_def Let_def input_url_def fetch_input.case
    by (rule hops_bind_shot [OF one_shot_performFetch])
      (use assms(2) in \<open>auto simp: eff_return_def isReplayableRequest_def requestMethod_def manual hops_same followRedirects_def
        intro: hops_follow [OF assms(1,2)]\<close>)
  have "hops net (Suc ?n) events (snd (createSafeFetch lib net opts (InputUrl url) init events))"
    unfolding createSafeFetch_def by (rule hops_bind_resolve [OF assms(1)]) (simp add: catch_timeout_log attempt)
  then show ?thesis using assms(3) by (auto simp: hops_def)
qed

section \<open>A call that is redirected to another site\<close>

definition sample_url :: "string \<Rightarrow> js_url" where
  "sample_url h = \<lparr>urlHref = ''https://'' @ h, urlProtocol = ''https:'', urlHost = h, urlHostname = h\<rparr>"

definition sample_parse :: "string \<Rightarrow> js_url option" where
  "sample_parse u = (if take 8 u = ''https://'' then Some (sample_url (drop 8 u)) else None)"

definition sample_lib :: "nat web_lib" where
  "sample_lib = \<lparr>parseUrl = sample_parse, joinUrl = (\<lambda>location _. sample_parse location),
    setHostname = (\<lambda>_. sample_url), getDomain = Some, ipParse = (\<lambda>a. if a = ''1.1.1.1'' then Some 0 else None),
    ipIsV6 = (\<lambda>_. False), ipMapped = (\<lambda>_. None), ipRange = (\<lambda>_. ''unicast''), ipMatch = (\<lambda>_ _. False)\<rparr>"

text \<open>The first request is redirected to the site \<open>b\<close>.\<close>

definition sample_net :: network where
  "sample_net = \<lparr>resolve4 = (\<lambda>_ _. Some [''1.1.1.1'']), resolve6 = (\<lambda>_ _. None),
    netFetch = (\<lambda>events _. Inr (if length events = 1
      then \<lparr>rsStatus = 307, rsLocation = Some ''https://b'', rsBody = [], rsWithheld = None\<rparr>
      else \<lparr>rsStatus = 200, rsLocation = None, rsBody = ''ok'', rsWithheld = None\<rparr>)), timedOut = (\<lambda>_. False)\<rparr>"

definition sample_options :: SafeFetchOptions where
  "sample_options = \<lparr>blockPrivateResolution = True, allowedPrivateHosts = {}, timeoutMs = 0\<rparr>"

definition sample_init :: request_init where
  "sample_init = \<lparr>riMethod = Some ''PUT'', riHeaders = Some [(''authorization'', ''x'')], riBody = ReplayableBody,
    riRedirectManual = False\<rparr>"

definition sample_sent :: "string \<Rightarrow> header_record \<Rightarrow> sent_request" where
  "sample_sent h headers = \<lparr>srqUrl = ''https://1.1.1.1'', srqMethod = ''PUT'', srqHeaders = headers, srqServerName = Some h\<rparr>"

definition sample_events :: "net_event list" where
  "sample_events = [Queried ''a'', Sent ''https://a'' (sample_sent ''a'' [(''authorization'', ''x''), (''host'', ''a'')]),
    Queried ''b'', Sent ''https://b'' (sample_sent ''b'' [(''host'', ''b'')])]"

lemma sample_law: "href_law sample_lib"
  by (simp add: href_law_def sample_lib_def sample_parse_def sample_url_def)

lemmas sample_fetch_defs = sample_lib_def sample_net_def sample_options_def sample_init_def sample_parse_def sample_url_def

lemma sample_fetch_simps:
  "parseUrl sample_lib u = sample_parse u" "joinUrl sample_lib l u = sample_parse l" "getDomain sample_lib h = Some h"
  "sample_parse ''https://a'' = Some (sample_url ''a'')" "sample_parse ''https://b'' = Some (sample_url ''b'')"
  "netFetch sample_net events r = Inr (if length events = 1
    then \<lparr>rsStatus = 307, rsLocation = Some ''https://b'', rsBody = [], rsWithheld = None\<rparr>
    else \<lparr>rsStatus = 200, rsLocation = None, rsBody = ''ok'', rsWithheld = None\<rparr>)"
  "timeoutMs sample_options = 0"
  by (simp_all add: sample_fetch_defs)

lemma sample_resolve:
  assumes "h \<in> {''a'', ''b''}"
  shows "resolveConnection sample_lib sample_net sample_options (''https://'' @ h) w =
    (Inr (Some \<lparr>pcUrls = [''https://1.1.1.1''], pcHost = h, pcServerName = Some h\<rparr>), w @ [Queried h])"
  using assms
  by (auto simp: resolveConnection_def sample_fetch_defs validateProtocol_def ALLOWED_PROTOCOLS_def stripBrackets_def strip_last_bracket_def
      resolveAllAddresses_def assertGloballyRoutableAddress_def isGloballyRoutableAddress_def normalizeToIPv4_def
      buildPinnedConnection_def pinnedUrl_def formatAddressForUrl_def pinnedServerName_def eff_simps lift_sum_def Let_def)

lemma sample_fetch_run:
  "createSafeFetch sample_lib sample_net sample_options (InputUrl ''https://a'') sample_init [] =
    (Inr \<lparr>rsStatus = 200, rsLocation = None, rsBody = ''ok'', rsWithheld = Some ''https://b''\<rparr>, [] @ sample_events)"
proof -
  have resolve: "resolveConnection sample_lib sample_net sample_options ''https://a'' w =
      (Inr (Some \<lparr>pcUrls = [''https://1.1.1.1''], pcHost = ''a'', pcServerName = Some ''a''\<rparr>), w @ [Queried ''a''])"
    "resolveConnection sample_lib sample_net sample_options ''https://b'' w =
      (Inr (Some \<lparr>pcUrls = [''https://1.1.1.1''], pcHost = ''b'', pcServerName = Some ''b''\<rparr>), w @ [Queried ''b''])" for w
    using sample_resolve [of "''a''"] sample_resolve [of "''b''"] by simp_all
  have "Suc 9 = (10 :: nat)" by simp
  note ten = MAX_REDIRECTS_def follow.simps(2) [of 9, unfolded this]
  show ?thesis unfolding createSafeFetch_def input_url_def fetch_input.case
    by (simp add: resolve eff_simps safe_fetch_attempt_def Let_def performFetch_def fetchPinned_def buildPinnedRequest_def
        fetchWithStaleSocketRetry_def eff_catch_def send_def wire_request_def pinnedInput_def input_url_def requestMethod_def
        new_headers_def mergeHeaderRecord_def ascii_lower_def ascii_upper_def isRedirect_def REDIRECT_STATUS_CODES_def followRedirects_def ten
        resolveRedirectUrl_def getHeadersForRedirect_def shouldWithholdAuthorization_def isTransportDowngrade_def isDifferentSite_def
        withoutAuthorization_def lift_sum_def settle_response_def markWithheldCredentials_def sample_events_def sample_sent_def
        sample_fetch_simps sample_init_def sample_url_def)
qed

theorem requests_reach_public_addresses_witness:
  "public_url sample_lib sample_options (srqUrl (sample_sent ''a'' [(''authorization'', ''x''), (''host'', ''a'')]))
    \<and> public_url sample_lib sample_options (srqUrl (sample_sent ''b'' [(''host'', ''b'')]))"
proof -
  have "Sent ''https://a'' (sample_sent ''a'' [(''authorization'', ''x''), (''host'', ''a'')]) \<in> set sample_events"
    "Sent ''https://b'' (sample_sent ''b'' [(''host'', ''b'')]) \<in> set sample_events" by (simp_all add: sample_events_def)
  from this [THEN requests_reach_public_addresses [OF sample_law sample_fetch_run]] show ?thesis by simp
qed

theorem credentials_stay_within_the_boundary_witness:
  "has_authorization [(''authorization'', ''x''), (''host'', ''a'')] \<and>
    shouldWithholdAuthorization sample_lib ''https://a'' ''https://a'' = Inr False"
proof
  show auth: "has_authorization [(''authorization'', ''x''), (''host'', ''a'')]"
    by (simp add: has_authorization_def ascii_lower_def)
  show "shouldWithholdAuthorization sample_lib ''https://a'' ''https://a'' = Inr False"
    using credentials_stay_within_the_boundary [OF sample_law sample_fetch_run, of "''https://a''"
      "sample_sent ''a'' [(''authorization'', ''x''), (''host'', ''a'')]"] auth
    by (simp add: sample_events_def sample_sent_def input_url_def)
qed

theorem writes_are_sent_once_witness:
  "sent_count sample_events = 2 \<and> sent_again_after_redirects sample_net [] sample_events"
proof -
  have "\<not> isReplayableRequest (InputUrl ''https://a'') sample_init"
    by (simp add: isReplayableRequest_def requestMethod_def sample_init_def REPLAYABLE_METHODS_def ascii_upper_def)
  from writes_are_sent_once [OF sample_law this sample_fetch_run] show ?thesis
    by (simp add: sample_events_def sent_count_def is_sent_def)
qed

end
