(* ===== verification/Destination_Attempt.thy ===== *)
theory Destination_Attempt
  imports Sync_Calendar Source_Authority Rediscovery Ingest_Schedule "HOL-Library.Sublist"
begin

text \<open>
  One attempt to bring a destination calendar up to date: \<open>syncDestinationsForUser\<close> of
  \<open>packages/sync/src/sync-user.ts\<close> with the verdicts of \<open>destination-errors.ts\<close>, the report of
  \<open>first-sync-report.ts\<close> and the mark of \<open>first-sync.ts\<close>. It composes the lock, the authority of the
  stored events, the read of the destination and \<open>syncCalendar\<close>. The world holds the tables the
  attempt writes; calls of other modules are effects on it, so they may do anything to it, and before
  each statement of the attempt itself other processes may act. Timings and wide-event fields are left out.
\<close>

section \<open>Errors and verdicts\<close>

text \<open>What the handlers ask of a thrown error: its message, and the tests on its class or shape.\<close>

record thrown_error =
  thMessage :: string
  thRecurrenceLimit :: bool
  thDatabase :: bool
  thTimeout :: bool
  thWriteAccessDenied :: bool

definition BACKOFF_ERROR_PATTERNS :: "string list" where
  "BACKOFF_ERROR_PATTERNS = [''Invalid credentials'', ''404 Not Found'', ''cannot find homeUrl'']"

definition isBackoffEligibleError :: "thrown_error \<Rightarrow> bool" where
  "isBackoffEligibleError error =
    (if thRecurrenceLimit error then True
     else if thDatabase error then False
     else if thTimeout error then True
     else list_ex (\<lambda>pattern. sublist pattern (thMessage error)) BACKOFF_ERROR_PATTERNS)"

definition hasNoSuccessfulOperations :: "SyncCalendarResult \<Rightarrow> bool" where
  "hasNoSuccessfulOperations result \<longleftrightarrow> added result = 0 \<and> removed result = 0 \<and> conflictsResolved result = 0
    \<and> addFailed result + removeFailed result > 0"

definition hasAttemptedOperations :: "SyncCalendarResult \<Rightarrow> bool" where
  "hasAttemptedOperations result \<longleftrightarrow>
    added result + removed result + conflictsResolved result + addFailed result + removeFailed result > 0"

datatype DestinationAttemptVerdict = VerdictFailed | Inconclusive | NotWritable | Succeeded

definition resolveDestinationAttemptVerdict :: "SyncCalendarResult \<Rightarrow> bool \<Rightarrow> DestinationAttemptVerdict" where
  "resolveDestinationAttemptVerdict result wasSuperseded =
    (if wasSuperseded \<and> \<not> hasAttemptedOperations result then Inconclusive
     else if \<not> hasNoSuccessfulOperations result then Succeeded
     else if writeAccessDenied result then NotWritable
     else VerdictFailed)"

definition resolveThrownDestinationVerdict :: "thrown_error \<Rightarrow> DestinationAttemptVerdict" where
  "resolveThrownDestinationVerdict error =
    (if thWriteAccessDenied error then NotWritable
     else if isBackoffEligibleError error then VerdictFailed else Inconclusive)"

section \<open>The tables\<close>

record destination_row =
  dsId :: string
  dsUserId :: string
  dsAccountId :: string
  dsProvider :: string
  dsDisabled :: bool
  dsCapabilities :: "string list"
  dsBackoff :: CalendarBackoffState
  dsSyncFutureRange :: string
  dsSyncHistoricRange :: string

text \<open>The provider is the joined account's.\<close>

record source_mapping_row =
  smSource :: string
  smDestination :: string
  smFirstSyncedAt :: "instant option"

record 'x sync_world =
  swDestinations :: "destination_row list"
  swSourceMappings :: "source_mapping_row list"
  swOutside :: 'x

record DestinationAttempt =
  daAccountId :: string
  daCalendarId :: string
  daFailureCount :: int
  daNextAttemptAt :: "instant option"
  daProvider :: string
  daSyncFutureRange :: string
  daSyncHistoricRange :: string
  daUserId :: string

definition pushable :: "string \<Rightarrow> string \<Rightarrow> destination_row \<Rightarrow> bool" where
  "pushable userId calendarId row \<longleftrightarrow> dsUserId row = userId \<and> dsId row = calendarId \<and> \<not> dsDisabled row
    \<and> ''push'' \<in> set (dsCapabilities row)"

definition attempt_of_row :: "destination_row \<Rightarrow> DestinationAttempt" where
  "attempt_of_row row = \<lparr>daAccountId = dsAccountId row, daCalendarId = dsId row,
    daFailureCount = bsFailureCount (dsBackoff row), daNextAttemptAt = bsNextAttemptAt (dsBackoff row),
    daProvider = dsProvider row, daSyncFutureRange = dsSyncFutureRange row,
    daSyncHistoricRange = dsSyncHistoricRange row, daUserId = dsUserId row\<rparr>"

section \<open>Reports\<close>

datatype DestinationSkipReason = DestinationNotPushable | LockNotAcquired | DestinationIneligible | ProviderUnresolved

datatype first_sync_field = FieldNumber nat | FieldText string

record CalendarSyncCompletion =
  ccCalendarId :: string
  ccFirstSync :: "(string \<times> first_sync_field) list"
  ccFirstSyncedSourceCalendarIds :: "string list"
  ccResult :: SyncCalendarResult
  ccPushRemoved :: bool

record CalendarSyncFailure =
  cfCalendarId :: string
  cfError :: thrown_error
  cfBackoffApplied :: bool
  cfPushRemoved :: bool

record DestinationSyncSkip =
  skCalendarId :: string
  skMappedSourceCount :: nat
  skReason :: DestinationSkipReason

datatype attempt_report = Completed CalendarSyncCompletion | Errored CalendarSyncFailure | Skipped DestinationSyncSkip

record SyncDestinationsResult =
  sdAdded :: nat
  sdAddFailed :: nat
  sdRemoved :: nat
  sdRemoveFailed :: nat
  sdErrors :: "string list"

definition EMPTY_DESTINATIONS :: SyncDestinationsResult where
  "EMPTY_DESTINATIONS = \<lparr>sdAdded = 0, sdAddFailed = 0, sdRemoved = 0, sdRemoveFailed = 0, sdErrors = []\<rparr>"

text \<open>The local variables that outlive an exception, the calls of the callbacks, and the lock calls.\<close>

record attempt_notes =
  anSuperseded :: bool
  anAttempted :: "DestinationAttempt option"
  anTotals :: SyncDestinationsResult
  anReports :: "attempt_report list"
  anAcquired :: nat
  anReleased :: nat

type_synonym ('x, 'a) outside = "('x sync_world, thrown_error, 'a) eff"
type_synonym ('x, 'a) attempt = "('x sync_world \<times> attempt_notes, thrown_error, 'a) eff"

text \<open>
  The calls of other modules. \<open>aeElsewhere\<close> is what other processes do until the next statement of the
  attempt. The handle of an acquired lock is identified by the calendar it locks.
\<close>

type_synonym 'x destination_provider = "('x sync_world, thrown_error) TargetedDestinationReadProvider \<times>
  ('x sync_world, thrown_error) CalendarSyncProvider"

record 'x attempt_env =
  aeElsewhere :: "'x sync_world \<Rightarrow> 'x sync_world"
  aeNow :: "'x sync_world \<Rightarrow> instant"
  aeAborted :: "'x sync_world \<Rightarrow> bool"
  aeDeadlineMs :: "int option"
  aeRangeError :: "range_error \<Rightarrow> thrown_error"
  aeAcquire :: "string \<Rightarrow> ('x, bool) outside"
  aeIsCurrent :: "string \<Rightarrow> ('x, bool) outside"
  aeRelease :: "string \<Rightarrow> ('x, unit) outside"
  aeResolveProvider :: "DestinationAttempt \<Rightarrow> ('x, 'x destination_provider option) outside"
  aeReadCoverage :: "string list \<Rightarrow> ('x, StoredSourceCoverage list) outside"
  aeBeginLocks :: "('x, unit) outside"
  aeLockSource :: "string \<Rightarrow> ('x, unit) outside"
  aeEndLocks :: "bool \<Rightarrow> ('x, unit) outside"
  aeReadEvents :: "string list \<Rightarrow> SyncWindow \<Rightarrow> ('x, MaterializedSyncableEvent list \<times> string list) outside"
  aeReadMappings :: "string \<Rightarrow> ('x, EventMapping list) outside"
  aeFlush :: "PendingChanges \<Rightarrow> ('x, unit) outside"
  aeOnProgress :: "(SyncProgress \<Rightarrow> ('x, unit) outside) option"

definition outside :: "('x, 'a) outside \<Rightarrow> ('x, 'a) attempt" where
  "outside m = lift_eff m"

text \<open>A statement: other processes act, then it runs at once.\<close>

definition statement :: "'x attempt_env \<Rightarrow> ('x sync_world \<Rightarrow> 'a \<times> 'x sync_world) \<Rightarrow> ('x, 'a) attempt" where
  "statement env f wn = (case f (aeElsewhere env (fst wn)) of (x, w) \<Rightarrow> (Inr x, (w, snd wn)))"

definition jot :: "(attempt_notes \<Rightarrow> attempt_notes) \<Rightarrow> ('x, unit) attempt" where
  "jot f wn = (Inr (), (fst wn, f (snd wn)))"

definition report_attempt :: "attempt_report \<Rightarrow> ('x, unit) attempt" where
  "report_attempt r = jot (\<lambda>n. n\<lparr>anReports := anReports n @ [r]\<rparr>)"

definition reportSkip :: "nat \<Rightarrow> string \<Rightarrow> DestinationSkipReason \<Rightarrow> ('x, unit) attempt" where
  "reportSkip mappedSourceCount calendarId reason =
    report_attempt (Skipped \<lparr>skCalendarId = calendarId, skMappedSourceCount = mappedSourceCount, skReason = reason\<rparr>)"

section \<open>Retry state\<close>

definition getDestinationAttempt :: "string \<Rightarrow> string \<Rightarrow> 'x sync_world \<Rightarrow> DestinationAttempt option" where
  "getDestinationAttempt userId calendarId w = map_option attempt_of_row (find (pushable userId calendarId) (swDestinations w))"

definition isDestinationAttemptEligible :: "DestinationAttempt \<Rightarrow> instant \<Rightarrow> bool" where
  "isDestinationAttemptEligible destination now =
    (case daNextAttemptAt destination of None \<Rightarrow> True | Some t \<Rightarrow> t \<le> now)"

definition isDestinationAttemptSuperseded :: "'x attempt_env \<Rightarrow> 'x sync_world \<Rightarrow> bool \<Rightarrow> bool" where
  "isDestinationAttemptSuperseded env w sourceCalendarsChanged =
    (if sourceCalendarsChanged then True
     else if aeAborted env w then True
     else (case aeDeadlineMs env of None \<Rightarrow> False | Some d \<Rightarrow> if d = 0 then False else aeNow env w \<ge> d))"

definition update_destinations :: "(destination_row \<Rightarrow> bool) \<Rightarrow> (destination_row \<Rightarrow> destination_row) \<Rightarrow> 'x sync_world \<Rightarrow> unit \<times> 'x sync_world" where
  "update_destinations p f w = ((), w\<lparr>swDestinations := map (\<lambda>r. if p r then f r else r) (swDestinations w)\<rparr>)"

definition resetDestinationBackoff :: "'x attempt_env \<Rightarrow> string \<Rightarrow> ('x, unit) attempt" where
  "resetDestinationBackoff env calendarId = statement env
    (update_destinations (\<lambda>r. dsId r = calendarId) (\<lambda>r. r\<lparr>dsBackoff := RESET_CALENDAR_BACKOFF_STATE\<rparr>))"

definition matchesObservedRetryState :: "DestinationAttempt \<Rightarrow> destination_row \<Rightarrow> bool" where
  "matchesObservedRetryState destination r \<longleftrightarrow> dsId r = daCalendarId destination
    \<and> bsFailureCount (dsBackoff r) = daFailureCount destination
    \<and> bsNextAttemptAt (dsBackoff r) = daNextAttemptAt destination"

definition applyDestinationBackoff :: "'x attempt_env \<Rightarrow> DestinationAttempt \<Rightarrow> ('x, unit) attempt" where
  "applyDestinationBackoff env destination wn =
    (let backoffState = buildCalendarBackoffState (daFailureCount destination) (aeNow env (fst wn))
     in statement env (update_destinations (matchesObservedRetryState destination)
          (\<lambda>r. r\<lparr>dsBackoff := backoffState\<rparr>)) wn)"

definition resetDestinationBackoffIfNeeded :: "'x attempt_env \<Rightarrow> DestinationAttempt \<Rightarrow> ('x, unit) attempt" where
  "resetDestinationBackoffIfNeeded env destination =
    (if daFailureCount destination > 0 then resetDestinationBackoff env (daCalendarId destination) else eff_return ())"

definition hasSameRetryState :: "DestinationAttempt \<Rightarrow> DestinationAttempt option \<Rightarrow> bool" where
  "hasSameRetryState observed current = (case current of None \<Rightarrow> False
    | Some c \<Rightarrow> daFailureCount c = daFailureCount observed \<and> daNextAttemptAt c = daNextAttemptAt observed)"

definition escalateDestinationBackoff :: "'x attempt_env \<Rightarrow> DestinationAttempt \<Rightarrow> ('x, unit) attempt" where
  "escalateDestinationBackoff env destination =
    eff_bind (statement env (\<lambda>w. (getDestinationAttempt (daUserId destination) (daCalendarId destination) w, w))) (\<lambda>current.
      if \<not> hasSameRetryState destination current then eff_return ()
      else applyDestinationBackoff env destination)"

definition write_access_removed :: "'x attempt_env \<Rightarrow> string \<Rightarrow> ('x, unit) attempt" where
  "write_access_removed env calendarId = statement env
    (update_destinations (\<lambda>r. dsId r = calendarId) (\<lambda>r. r\<lparr>dsCapabilities := resolveCalendarCapabilities False\<rparr>))"

definition applyDestinationAttemptVerdict ::
    "'x attempt_env \<Rightarrow> DestinationAttempt \<Rightarrow> DestinationAttemptVerdict \<Rightarrow> ('x, bool) attempt" where
  "applyDestinationAttemptVerdict env destination verdict =
    eff_bind (outside (aeIsCurrent env (daCalendarId destination))) (\<lambda>stillOwned.
      if \<not> stillOwned then eff_return False
      else eff_bind
        (case verdict of VerdictFailed \<Rightarrow> escalateDestinationBackoff env destination
         | NotWritable \<Rightarrow> write_access_removed env (daCalendarId destination)
         | Succeeded \<Rightarrow> resetDestinationBackoffIfNeeded env destination
         | Inconclusive \<Rightarrow> eff_return ()) (\<lambda>_. eff_return True))"

section \<open>First syncs\<close>

definition recordFirstSyncedMappings ::
    "'x attempt_env \<Rightarrow> string \<Rightarrow> string list \<Rightarrow> ('x, string list) attempt" where
  "recordFirstSyncedMappings env destinationCalendarId sourceCalendarIds =
    (if sourceCalendarIds = [] then eff_return []
     else (\<lambda>wn. (let now = aeNow env (fst wn);
         hit = (\<lambda>r. smDestination r = destinationCalendarId \<and> smSource r \<in> set sourceCalendarIds \<and> smFirstSyncedAt r = None)
       in statement env (\<lambda>w. (map smSource (filter hit (swSourceMappings w)),
            w\<lparr>swSourceMappings := map (\<lambda>r. if hit r then r\<lparr>smFirstSyncedAt := Some now\<rparr> else r) (swSourceMappings w)\<rparr>)) wn)))"

definition recordCompletedFirstSyncs ::
    "'x attempt_env \<Rightarrow> string \<Rightarrow> bool \<Rightarrow> DestinationAttemptVerdict \<Rightarrow> string list \<Rightarrow> ('x, string list) attempt" where
  "recordCompletedFirstSyncs env destinationCalendarId wasSuperseded verdict verifiedSourceCalendarIds =
    (if wasSuperseded \<or> verdict \<noteq> Succeeded then eff_return []
     else recordFirstSyncedMappings env destinationCalendarId verifiedSourceCalendarIds)"

definition resolveRejectedFirstSyncSources ::
    "DestinationAttemptVerdict \<Rightarrow> EventMapping list \<Rightarrow> string list \<Rightarrow> string list" where
  "resolveRejectedFirstSyncSources verdict existingMappings verifiedSourceCalendarIds =
    (let refused = (verdict = VerdictFailed \<or> verdict = NotWritable)
     in if \<not> refused \<or> existingMappings \<noteq> [] then [] else verifiedSourceCalendarIds)"

datatype FirstSyncOutcome = Copied | DestinationRejected | NothingToCopy | SourceEmpty

record FirstSyncReport =
  fsAwaitingSourceCalendarIds :: "string list"
  fsCompletedSourceCalendarIds :: "string list"
  fsEventsAdded :: nat
  fsEventsAddFailed :: nat
  fsRejectedSourceCalendarIds :: "string list"
  fsSourceEventCounts :: "(string, nat) jsmap"

definition countEventsBySource :: "MaterializedSyncableEvent list \<Rightarrow> (string, nat) jsmap" where
  "countEventsBySource events = fold (\<lambda>e counts.
    AList.update (evCalendarId e) (or_else (map_of counts (evCalendarId e)) 0 + 1) counts) events []"

definition resolveFirstSyncOutcome :: "FirstSyncReport \<Rightarrow> string list \<Rightarrow> FirstSyncOutcome option" where
  "resolveFirstSyncOutcome rep emptySourceCalendarIds =
    (if fsRejectedSourceCalendarIds rep \<noteq> [] then Some DestinationRejected
     else if fsCompletedSourceCalendarIds rep = [] then None
     else if fsEventsAdded rep > 0 then Some Copied
     else if length emptySourceCalendarIds = length (fsCompletedSourceCalendarIds rep) then Some SourceEmpty
     else Some NothingToCopy)"

fun join_comma :: "string list \<Rightarrow> string" where
  "join_comma [] = []"
| "join_comma [x] = x"
| "join_comma (x # y # xs) = x @ '','' @ join_comma (y # xs)"

definition outcome_text :: "FirstSyncOutcome \<Rightarrow> string" where
  "outcome_text outcome = (case outcome of Copied \<Rightarrow> ''copied'' | DestinationRejected \<Rightarrow> ''destination-rejected''
    | NothingToCopy \<Rightarrow> ''nothing-to-copy'' | SourceEmpty \<Rightarrow> ''source-empty'')"

definition describeFirstSync :: "FirstSyncReport \<Rightarrow> (string \<times> first_sync_field) list" where
  "describeFirstSync rep =
    (let count_of = (\<lambda>calendarId. or_else (map_of (fsSourceEventCounts rep) calendarId) 0);
         emptySourceCalendarIds = filter (\<lambda>calendarId. count_of calendarId = 0) (fsCompletedSourceCalendarIds rep);
         awaiting = (if fsAwaitingSourceCalendarIds rep \<noteq> []
           then [(''first_sync.awaiting_source_count'', FieldNumber (length (fsAwaitingSourceCalendarIds rep))),
                 (''first_sync.awaiting_source_calendar_ids'', FieldText (join_comma (fsAwaitingSourceCalendarIds rep)))]
           else [])
     in case resolveFirstSyncOutcome rep emptySourceCalendarIds of None \<Rightarrow> awaiting
        | Some outcome \<Rightarrow> awaiting @ [(''first_sync.outcome'', FieldText (outcome_text outcome))] @
            (if outcome = DestinationRejected
             then [(''first_sync.rejected_count'', FieldNumber (length (fsRejectedSourceCalendarIds rep))),
                   (''first_sync.rejected_source_calendar_ids'', FieldText (join_comma (fsRejectedSourceCalendarIds rep))),
                   (''first_sync.events_add_failed'', FieldNumber (fsEventsAddFailed rep))]
             else [(''first_sync.completed_count'', FieldNumber (length (fsCompletedSourceCalendarIds rep))),
                   (''first_sync.completed_source_calendar_ids'', FieldText (join_comma (fsCompletedSourceCalendarIds rep))),
                   (''first_sync.events_added'', FieldNumber (fsEventsAdded rep)),
                   (''first_sync.source_events_in_window'',
                     FieldNumber (sum_list (map count_of (fsCompletedSourceCalendarIds rep))))] @
                  (if emptySourceCalendarIds \<noteq> []
                   then [(''first_sync.empty_source_calendar_ids'', FieldText (join_comma emptySourceCalendarIds))] else [])))"

section \<open>Locks of the sources\<close>

text \<open>
  The locks are taken in a transaction, in ascending order and each once; without sources there is
  no transaction. The end of the transaction commits when the work returned, and rolls back otherwise.
\<close>

definition acquireSourceIngestLocks :: "'x attempt_env \<Rightarrow> string list \<Rightarrow> ('x, 'a) attempt \<Rightarrow> ('x, 'a) attempt" where
  "acquireSourceIngestLocks env calendarIds work =
    eff_bind (outside (aeBeginLocks env)) (\<lambda>_.
    eff_bind (eff_each (\<lambda>calendarId. outside (aeLockSource env calendarId)) calendarIds) (\<lambda>_. work))"

definition in_transaction :: "'x attempt_env \<Rightarrow> ('x, 'a) attempt \<Rightarrow> ('x, 'a) attempt" where
  "in_transaction env m wn = (case m wn of (r, wn') \<Rightarrow>
    (case outside (aeEndLocks env (\<not> isl r)) wn' of (Inl e, wn'') \<Rightarrow> (Inl e, wn'') | (Inr _, wn'') \<Rightarrow> (r, wn'')))"

definition withSourceIngestLocks :: "'x attempt_env \<Rightarrow> string list \<Rightarrow> ('x, 'a) attempt \<Rightarrow> ('x, 'a) attempt" where
  "withSourceIngestLocks env calendarIds work =
    (let orderedCalendarIds = sort (remdups calendarIds)
     in if orderedCalendarIds = [] then work
        else in_transaction env (acquireSourceIngestLocks env orderedCalendarIds work))"

section \<open>The attempt\<close>

definition getMappedSourceCalendarIds :: "'x attempt_env \<Rightarrow> string \<Rightarrow> ('x, string list) attempt" where
  "getMappedSourceCalendarIds env destinationCalendarId = statement env (\<lambda>w.
    (map smSource (filter (\<lambda>r. smDestination r = destinationCalendarId) (swSourceMappings w)), w))"

definition read_coverage :: "'x attempt_env \<Rightarrow> string list \<Rightarrow> ('x, StoredSourceCoverage list) attempt" where
  "read_coverage env sourceCalendarIds =
    (if sourceCalendarIds = [] then eff_return [] else outside (aeReadCoverage env sourceCalendarIds))"

definition ranged :: "'x attempt_env \<Rightarrow> range_error + 'a \<Rightarrow> ('x, 'a) attempt" where
  "ranged env r = lift_sum (map_sum (aeRangeError env) id r)"

definition requested_window :: "'x attempt_env \<Rightarrow> DestinationAttempt \<Rightarrow> ('x, SyncWindow) attempt" where
  "requested_window env destination =
    eff_bind (ranged env (assertSyncRange (daSyncHistoricRange destination))) (\<lambda>historic.
    eff_bind (ranged env (assertSyncRange (daSyncFutureRange destination))) (\<lambda>future.
      \<lambda>wn. ranged env (getConfigurableSyncWindow historic future (aeNow env (fst wn))) wn))"

text \<open>The local state, with the variables of the attempt that reading it assigns.\<close>

record DestinationLocalState =
  lsLocalEvents :: "MaterializedSyncableEvent list"
  lsExistingMappings :: "EventMapping list"
  lsOverBudget :: "string list"
  lsAuthority :: AttemptAuthority
  lsSourceCalendarIds :: "string list"

definition readLocalState :: "'x attempt_env \<Rightarrow> DestinationAttempt \<Rightarrow> SyncWindow \<Rightarrow> string list
    \<Rightarrow> StoredSourceCoverage list \<Rightarrow> ('x, DestinationLocalState) attempt" where
  "readLocalState env destination requested sourceCalendarIds rowsBefore =
    withSourceIngestLocks env sourceCalendarIds (
      eff_bind (getMappedSourceCalendarIds env (daCalendarId destination)) (\<lambda>idsLocked.
      if haveSourceCalendarsChanged sourceCalendarIds idsLocked
      then eff_return \<lparr>lsLocalEvents = [], lsExistingMappings = [], lsOverBudget = [],
        lsAuthority = resolveAttemptAuthority requested sourceCalendarIds rowsBefore idsLocked [],
        lsSourceCalendarIds = idsLocked\<rparr>
      else eff_bind (read_coverage env idsLocked) (\<lambda>rowsLocked.
        let authority = resolveAttemptAuthority requested sourceCalendarIds rowsBefore idsLocked rowsLocked in
        eff_bind (ranged env (getBoundingSourceAuthorityWindow (attSourceWindows authority))) (\<lambda>localReadWindow.
        eff_bind (case localReadWindow of None \<Rightarrow> eff_return ([], [])
            | Some window \<Rightarrow> outside (aeReadEvents env (map fst (attSourceWindows authority)) window)) (\<lambda>(events, overBudget).
        eff_bind (outside (aeReadMappings env (daCalendarId destination))) (\<lambda>mappings.
          eff_return \<lparr>lsLocalEvents = events, lsExistingMappings = mappings, lsOverBudget = overBudget,
            lsAuthority = authority, lsSourceCalendarIds = idsLocked\<rparr>))))))"

definition isAttemptCurrent :: "'x attempt_env \<Rightarrow> string \<Rightarrow> bool \<Rightarrow> ('x, bool) attempt" where
  "isAttemptCurrent env calendarId sourceCalendarsChanged wn =
    (if isDestinationAttemptSuperseded env (fst wn) sourceCalendarsChanged
     then (Inr False, (fst wn, (snd wn)\<lparr>anSuperseded := True\<rparr>))
     else outside (aeIsCurrent env calendarId) wn)"

definition attempt_options :: "'x attempt_env \<Rightarrow> DestinationAttempt \<Rightarrow> ('x sync_world, thrown_error) CalendarSyncProvider
    \<Rightarrow> SyncWindow \<Rightarrow> DestinationLocalState \<Rightarrow> DestinationRemoteRead
    \<Rightarrow> ('x sync_world \<times> attempt_notes, thrown_error) SyncCalendarOptions" where
  "attempt_options env destination provider requested st remote =
    \<lparr>optCalendarId = daCalendarId destination, optProvider = lift_provider provider,
     readState = eff_return \<lparr>rsLocalEvents = lsLocalEvents st, rsExistingMappings = lsExistingMappings st,
       rsRemoteEvents = readRemoteEvents remote\<rparr>,
     optIsCurrent = isAttemptCurrent env (daCalendarId destination) (attChanged (lsAuthority st)),
     optFlush = (\<lambda>changes. outside (aeFlush env changes)),
     onProgress = map_option (\<lambda>f update. outside (f update)) (aeOnProgress env),
     reconciliationScope = createDestinationReconciliationScope
       \<lparr>ctxAuthoritativeMappingIds = readAuthoritativeMappingIds remote,
        ctxAuthoritativeSourceWindows = attSourceWindows (lsAuthority st),
        ctxAuthoritativeWindow = attWindow (lsAuthority st),
        ctxOverBudgetSourceEventStateIds = lsOverBudget st, ctxRequestedWindow = requested,
        ctxSourceCalendarIdsAtLocalRead = lsSourceCalendarIds st\<rparr>\<rparr>"

definition run_sync :: "(string \<Rightarrow> string) \<Rightarrow> (string \<Rightarrow> string \<Rightarrow> int)
    \<Rightarrow> ('x sync_world \<times> attempt_notes, thrown_error) SyncCalendarOptions \<Rightarrow> ('x, SyncCalendarResult) attempt" where
  "run_sync sha256 lc opts wn = (case syncCalendar sha256 lc opts wn of (r, wn', _) \<Rightarrow> (map_sum id fst r, wn'))"

definition add_totals :: "SyncCalendarResult \<Rightarrow> SyncDestinationsResult \<Rightarrow> SyncDestinationsResult" where
  "add_totals result t = \<lparr>sdAdded = sdAdded t + added result, sdAddFailed = sdAddFailed t + addFailed result,
    sdRemoved = sdRemoved t + removed result, sdRemoveFailed = sdRemoveFailed t + removeFailed result,
    sdErrors = sdErrors t @ syncErrors result\<rparr>"

text \<open>What follows the sync: the verdict, the first syncs, the retry state, the report and the totals.\<close>

definition completed_report :: "DestinationAttempt \<Rightarrow> DestinationLocalState \<Rightarrow> SyncCalendarResult
    \<Rightarrow> DestinationAttemptVerdict \<Rightarrow> string list \<Rightarrow> bool \<Rightarrow> CalendarSyncCompletion" where
  "completed_report destination st result verdict firstSynced stillOwned =
    (let verifiedSourceCalendarIds = map fst (attSourceWindows (lsAuthority st))
     in \<lparr>ccCalendarId = daCalendarId destination,
         ccFirstSync = describeFirstSync
          \<lparr>fsAwaitingSourceCalendarIds = filter (\<lambda>source. source \<notin> set verifiedSourceCalendarIds) (lsSourceCalendarIds st),
           fsCompletedSourceCalendarIds = firstSynced, fsEventsAdded = added result, fsEventsAddFailed = addFailed result,
           fsRejectedSourceCalendarIds =
             resolveRejectedFirstSyncSources verdict (lsExistingMappings st) verifiedSourceCalendarIds,
           fsSourceEventCounts = countEventsBySource (lsLocalEvents st)\<rparr>,
         ccFirstSyncedSourceCalendarIds = firstSynced, ccResult = result,
         ccPushRemoved = (stillOwned \<and> verdict = NotWritable)\<rparr>)"

definition conclude_attempt :: "'x attempt_env \<Rightarrow> DestinationAttempt \<Rightarrow> DestinationLocalState \<Rightarrow> SyncCalendarResult
    \<Rightarrow> bool \<Rightarrow> ('x, unit) attempt" where
  "conclude_attempt env destination st result wasSuperseded =
    (let verdict = resolveDestinationAttemptVerdict result wasSuperseded
     in eff_bind (recordCompletedFirstSyncs env (daCalendarId destination) wasSuperseded verdict
          (map fst (attSourceWindows (lsAuthority st)))) (\<lambda>firstSynced.
        eff_bind (applyDestinationAttemptVerdict env destination verdict) (\<lambda>stillOwned.
        eff_bind (report_attempt (Completed (completed_report destination st result verdict firstSynced stillOwned))) (\<lambda>_.
          if \<not> stillOwned then eff_return ()
          else jot (\<lambda>n. n\<lparr>anTotals := add_totals result (anTotals n)\<rparr>)))))"

definition attempt_with_provider :: "(string \<Rightarrow> string) \<Rightarrow> (string \<Rightarrow> string \<Rightarrow> int) \<Rightarrow> 'x attempt_env
    \<Rightarrow> DestinationAttempt \<Rightarrow> 'x destination_provider \<Rightarrow> ('x, unit) attempt" where
  "attempt_with_provider sha256 lc env destination provider =
    eff_bind (getMappedSourceCalendarIds env (daCalendarId destination)) (\<lambda>sourceCalendarIds.
    eff_bind (requested_window env destination) (\<lambda>requested.
    eff_bind (read_coverage env sourceCalendarIds) (\<lambda>rowsBefore.
    eff_bind (readLocalState env destination requested sourceCalendarIds rowsBefore) (\<lambda>st.
    eff_bind (outside (readDestinationRemoteEvents lc (lsExistingMappings st) (lsLocalEvents st) (fst provider) requested)) (\<lambda>remote.
    eff_bind (run_sync sha256 lc (attempt_options env destination (snd provider) requested st remote)) (\<lambda>result wn.
      conclude_attempt env destination st result (anSuperseded (snd wn)) wn))))))"

definition attempt_eligible :: "(string \<Rightarrow> string) \<Rightarrow> (string \<Rightarrow> string \<Rightarrow> int) \<Rightarrow> 'x attempt_env \<Rightarrow> nat \<Rightarrow> string
    \<Rightarrow> DestinationAttempt \<Rightarrow> ('x, unit) attempt" where
  "attempt_eligible sha256 lc env mappedSourceCount calendarId destination =
    eff_bind (jot (\<lambda>n. n\<lparr>anAttempted := Some destination\<rparr>)) (\<lambda>_.
    eff_bind (outside (aeResolveProvider env destination)) (\<lambda>resolved.
      case resolved of None \<Rightarrow> reportSkip mappedSourceCount calendarId ProviderUnresolved
      | Some provider \<Rightarrow> attempt_with_provider sha256 lc env destination provider))"

definition attempt_body :: "(string \<Rightarrow> string) \<Rightarrow> (string \<Rightarrow> string \<Rightarrow> int) \<Rightarrow> 'x attempt_env \<Rightarrow> string \<Rightarrow> nat
    \<Rightarrow> string \<Rightarrow> ('x, unit) attempt" where
  "attempt_body sha256 lc env userId mappedSourceCount calendarId =
    eff_bind (statement env (\<lambda>w. (getDestinationAttempt userId calendarId w, w))) (\<lambda>current wn.
    (case current of
       None \<Rightarrow> reportSkip mappedSourceCount calendarId DestinationIneligible
     | Some destination \<Rightarrow>
         if \<not> isDestinationAttemptEligible destination (aeNow env (fst wn))
         then reportSkip mappedSourceCount calendarId DestinationIneligible
         else attempt_eligible sha256 lc env mappedSourceCount calendarId destination) wn)"

definition recordDestinationAttemptFailure :: "'x attempt_env \<Rightarrow> DestinationAttempt \<Rightarrow> thrown_error \<Rightarrow> ('x, string list) attempt" where
  "recordDestinationAttemptFailure env destination error =
    (let verdict = resolveThrownDestinationVerdict error in
     eff_bind (applyDestinationAttemptVerdict env destination verdict) (\<lambda>stillOwned.
     eff_bind (report_attempt (Errored \<lparr>cfCalendarId = daCalendarId destination, cfError = error,
       cfBackoffApplied = (stillOwned \<and> verdict = VerdictFailed), cfPushRemoved = (stillOwned \<and> verdict = NotWritable)\<rparr>)) (\<lambda>_.
       eff_return [thMessage error])))"

definition attempt_failed :: "'x attempt_env \<Rightarrow> thrown_error \<Rightarrow> ('x, unit) attempt" where
  "attempt_failed env error wn =
    (case anAttempted (snd wn) of
       None \<Rightarrow> (Inl error, wn)
     | Some destination \<Rightarrow> eff_bind (recordDestinationAttemptFailure env destination error) (\<lambda>errors.
         jot (\<lambda>n. n\<lparr>anTotals := (anTotals n)\<lparr>sdErrors := sdErrors (anTotals n) @ errors\<rparr>\<rparr>)) wn)"

definition release_lock :: "'x attempt_env \<Rightarrow> string \<Rightarrow> ('x, unit) attempt" where
  "release_lock env calendarId =
    eff_bind (jot (\<lambda>n. n\<lparr>anReleased := anReleased n + 1\<rparr>)) (\<lambda>_. outside (aeRelease env calendarId))"

definition runDestinationAttempt :: "(string \<Rightarrow> string) \<Rightarrow> (string \<Rightarrow> string \<Rightarrow> int) \<Rightarrow> 'x attempt_env \<Rightarrow> string \<Rightarrow> nat
    \<Rightarrow> string \<Rightarrow> ('x, unit) attempt" where
  "runDestinationAttempt sha256 lc env userId mappedSourceCount calendarId =
    eff_bind (outside (aeAcquire env calendarId)) (\<lambda>acquired.
      if \<not> acquired then reportSkip mappedSourceCount calendarId LockNotAcquired
      else eff_bind (jot (\<lambda>n. n\<lparr>anAcquired := anAcquired n + 1, anSuperseded := False, anAttempted := None\<rparr>)) (\<lambda>_.
        eff_finally
          (eff_catch (attempt_body sha256 lc env userId mappedSourceCount calendarId) (attempt_failed env))
          (release_lock env calendarId)))"

fun run_attempts :: "(string \<Rightarrow> string) \<Rightarrow> (string \<Rightarrow> string \<Rightarrow> int) \<Rightarrow> 'x attempt_env \<Rightarrow> string \<Rightarrow> nat
    \<Rightarrow> string list \<Rightarrow> ('x, unit) attempt" where
  "run_attempts sha256 lc env userId mappedSourceCount [] = eff_return ()"
| "run_attempts sha256 lc env userId mappedSourceCount (calendarId # rest) = (\<lambda>wn.
    if aeAborted env (fst wn) then (Inr (), wn)
    else eff_bind (runDestinationAttempt sha256 lc env userId mappedSourceCount calendarId)
      (\<lambda>_. run_attempts sha256 lc env userId mappedSourceCount rest) wn)"

definition countMappedSources :: "'x attempt_env \<Rightarrow> string \<Rightarrow> ('x, nat) attempt" where
  "countMappedSources env destinationCalendarId = statement env (\<lambda>w.
    (length (filter (\<lambda>r. smDestination r = destinationCalendarId) (swSourceMappings w)), w))"

definition syncDestinationsForUser :: "(string \<Rightarrow> string) \<Rightarrow> (string \<Rightarrow> string \<Rightarrow> int) \<Rightarrow> 'x attempt_env \<Rightarrow> string
    \<Rightarrow> string \<Rightarrow> ('x, SyncDestinationsResult) attempt" where
  "syncDestinationsForUser sha256 lc env userId destinationCalendarId =
    eff_bind (statement env (\<lambda>w. (map dsId (filter (pushable userId destinationCalendarId) (swDestinations w)), w))) (\<lambda>destinations.
    eff_bind (countMappedSources env destinationCalendarId) (\<lambda>mappedSourceCount.
      if destinations = []
      then eff_bind (reportSkip mappedSourceCount destinationCalendarId DestinationNotPushable) (\<lambda>_. eff_return EMPTY_DESTINATIONS)
      else eff_bind (jot (\<lambda>n. n\<lparr>anTotals := EMPTY_DESTINATIONS\<rparr>)) (\<lambda>_.
        eff_bind (run_attempts sha256 lc env userId mappedSourceCount destinations) (\<lambda>_ wn.
          (Inr (anTotals (snd wn)), wn)))))"

end
