(* ===== verification/Destination_Attempt_Correct.thy ===== *)
theory Destination_Attempt_Correct
  imports Destination_Attempt
begin

text \<open>
  What an attempt reports, and what its verdict may write. The engine is run once more under a frame:
  a preorder that every call it is given respects is respected by the whole run, on every path. The
  frame of an attempt says that the sync touches none of the attempt's own variables but the one that
  records that it was superseded.
\<close>

section \<open>Frames\<close>

definition framed :: "('w \<Rightarrow> 'w \<Rightarrow> bool) \<Rightarrow> ('w, 'e, 'a) eff \<Rightarrow> bool" where
  "framed R m \<longleftrightarrow> (\<forall>w. R w (snd (m w)))"

lemma respectsI: "(\<And>w r w'. m w = (r, w') \<Longrightarrow> R w w') \<Longrightarrow> framed R m"
  unfolding framed_def by (metis prod.collapse)

lemma respectsD: "framed R m \<Longrightarrow> m w = (r, w') \<Longrightarrow> R w w'"
  unfolding framed_def by (metis snd_conv)

lemma respects_snd: "framed R m \<Longrightarrow> R w (snd (m w))"
  by (simp add: framed_def)

locale frame =
  fixes R :: "'w \<Rightarrow> 'w \<Rightarrow> bool"
  assumes frame_refl: "R w w"
    and frame_trans: "R u v \<Longrightarrow> R v w \<Longrightarrow> R u w"
begin

lemma respects_return: "framed R (eff_return x)"
  by (simp add: framed_def eff_return_def frame_refl)

lemma respects_lift_sum: "framed R (lift_sum r)"
  by (simp add: framed_def lift_sum_def frame_refl)

lemma respects_bind:
  assumes m: "framed R m" and f: "\<And>x. framed R (f x)"
  shows "framed R (eff_bind m f)"
proof (rule respectsI)
  fix w r w' assume run: "eff_bind m f w = (r, w')"
  obtain q v where q: "m w = (q, v)" by (cases "m w")
  have first: "R w v" using respectsD [OF m q] .
  show "R w w'"
  proof (cases q)
    case (Inl e)
    then show ?thesis using run q first by (simp add: eff_bind_def)
  next
    case (Inr x)
    then have "f x v = (r, w')" using run q by (simp add: eff_bind_def)
    then show ?thesis using frame_trans [OF first respectsD [OF f]] by blast
  qed
qed

lemmas respects_basic = respects_return respects_lift_sum respects_bind

lemma respects_each: "(\<And>x. framed R (f x)) \<Longrightarrow> framed R (eff_each f xs)"
  by (induction xs) (auto intro: respects_basic)

end

text \<open>The provider and the callbacks respect a frame.\<close>

definition framed_provider :: "('w \<Rightarrow> 'w \<Rightarrow> bool) \<Rightarrow> ('w, 'e) CalendarSyncProvider \<Rightarrow> bool" where
  "framed_provider R p \<longleftrightarrow> (\<forall>es. framed R (pushEvents p es)) \<and> (\<forall>ids. framed R (deleteEvents p ids))
    \<and> (\<forall>upd us. updateEvents p = Some upd \<longrightarrow> framed R (upd us))"

definition framed_callbacks :: "('w \<Rightarrow> 'w \<Rightarrow> bool) \<Rightarrow> ('w, 'e) RunCallbacks \<Rightarrow> bool" where
  "framed_callbacks R cbs \<longleftrightarrow> (\<forall>m. isCurrent cbs = Some m \<longrightarrow> framed R m)
    \<and> (\<forall>f i k. onRunComplete cbs = Some f \<longrightarrow> framed R (f i k))
    \<and> (\<forall>f ch. checkpoint cbs = Some f \<longrightarrow> framed R (f ch))"

locale framed_run = frame R for R :: "'w \<Rightarrow> 'w \<Rightarrow> bool" +
  fixes provider :: "('w, 'e) CalendarSyncProvider" and cbs :: "('w, 'e) RunCallbacks"
  assumes provider: "framed_provider R provider" and cbs: "framed_callbacks R cbs"
begin

lemma calls:
  "framed R (pushEvents provider es)" "framed R (deleteEvents provider ids)"
  "updateEvents provider = Some upd \<Longrightarrow> framed R (upd us)"
  "isCurrent cbs = Some cur \<Longrightarrow> framed R cur" "onRunComplete cbs = Some f \<Longrightarrow> framed R (f i k)"
  "checkpoint cbs = Some cp \<Longrightarrow> framed R (cp ch)"
  using provider cbs by (auto simp: framed_provider_def framed_callbacks_def)

lemmas step = respects_basic calls

lemma respects_checkpointRun: "framed R (checkpointRun state ch cbs)"
  unfolding checkpointRun_def by (auto intro!: step split: option.split)

lemma respects_completeRun: "framed R (completeRun state n k cbs)"
  unfolding completeRun_def checkSuperseded_def Let_def
  by (rule respects_bind; cases "isCurrent cbs"; cases "onRunComplete cbs") (simp_all add: step)

lemma respects_executeAddRun: "framed R (executeAddRun sha256 adds cal provider)"
  unfolding executeAddRun_def Let_def by (auto intro!: step)

lemmas runs = step respects_checkpointRun respects_completeRun respects_executeAddRun

lemma respects_executeAdds: "framed R (executeAdds sha256 adds cal provider state k cbs)"
  unfolding executeAdds_def by (auto intro!: runs split: prod.split)

lemma respects_executeRemoves: "framed R (executeRemoves removes provider byId state k cbs)"
  unfolding executeRemoves_def executeRemoveRun_def Let_def by (auto intro!: runs split: prod.split)

lemma respects_replaceViaDeleteThenAdd: "framed R (replaceViaDeleteThenAdd sha256 rs cal provider byId state cbs)"
  unfolding replaceViaDeleteThenAdd_def Let_def by (auto intro!: runs)

lemma respects_executeUpdateRun: "updateEvents provider = Some upd \<Longrightarrow> framed R (executeUpdateRun sha256 rs upd)"
  unfolding executeUpdateRun_def Let_def by (auto intro!: runs)

lemma respects_executeReplacements: "framed R (executeReplacements sha256 rs cal provider byId state k cbs)"
proof (cases "updateEvents provider")
  case None
  then show ?thesis unfolding executeReplacements_def
    by (auto intro!: runs respects_replaceViaDeleteThenAdd split: prod.split)
next
  case (Some upd)
  then show ?thesis unfolding executeReplacements_def Let_def
    by (auto intro!: runs respects_replaceViaDeleteThenAdd respects_executeUpdateRun split: prod.split)
qed

lemma respects_executeChunk: "framed R (executeChunk sha256 cal provider byId k cbs ops state)"
  unfolding executeChunk_def by (auto intro!: runs respects_executeRemoves respects_executeReplacements respects_executeAdds)

lemma respects_executeChunks: "framed R (executeChunks (executeChunk sha256 cal provider byId k cbs) chunks state)"
  by (induction chunks arbitrary: state) (auto intro!: runs respects_executeChunk)

lemma respects_executeRemoteOperations: "framed R (executeRemoteOperations sha256 ops ms cal provider cbs)"
  unfolding executeRemoteOperations_def by (rule respects_executeChunks)

end

section \<open>The sync under a frame\<close>

text \<open>A frame of the world is a frame of the world beside the sync's own notes.\<close>

definition beside :: "('w \<Rightarrow> 'w \<Rightarrow> bool) \<Rightarrow> 'w \<times> 'n \<Rightarrow> 'w \<times> 'n \<Rightarrow> bool" where
  "beside R a b = R (fst a) (fst b)"

definition framed_options :: "('w \<Rightarrow> 'w \<Rightarrow> bool) \<Rightarrow> ('w, 'e) SyncCalendarOptions \<Rightarrow> bool" where
  "framed_options R opts \<longleftrightarrow> framed_provider R (optProvider opts) \<and> framed R (readState opts)
    \<and> framed R (optIsCurrent opts) \<and> (\<forall>ch. framed R (optFlush opts ch))
    \<and> (\<forall>f u. onProgress opts = Some f \<longrightarrow> framed R (f u))"

lemma respects_lift_eff: "framed R m \<Longrightarrow> framed (beside R) (lift_eff m)"
  by (auto simp: framed_def beside_def lift_eff_def split: prod.split) (metis snd_conv)

locale framed_sync = frame R for R :: "'w \<Rightarrow> 'w \<Rightarrow> bool" +
  fixes opts :: "('w, 'e) SyncCalendarOptions"
  assumes opts: "framed_options R opts"
begin

lemma beside_frame: "frame (beside R)"
  by unfold_locales (auto simp: beside_def intro: frame_refl frame_trans)

lemmas beside_basic = frame.respects_basic [OF beside_frame]

lemma lifted:
  "framed (beside R) (lift_eff (readState opts))" "framed (beside R) (lift_eff (optIsCurrent opts))"
  "framed (beside R) (lift_eff (optFlush opts ch))"
  using opts by (auto simp: framed_options_def intro: respects_lift_eff)

lemma respects_emit: "framed (beside R) (emitProgress opts st nl nr p)"
  using opts by (auto simp: framed_options_def emitProgress_def intro!: respects_lift_eff beside_basic split: option.split)

lemma respects_note_flushed: "framed (beside R) (note_flushed ch)"
  by (simp add: framed_def note_flushed_def beside_def frame_refl)

lemma respects_delete_copies: "R (fst wn) (fst (deleteUnrecordedCopies (deleteEvents (optProvider opts)) ins wn))"
proof -
  have "framed R (deleteEvents (optProvider opts) ids)" for ids
    using opts by (simp add: framed_options_def framed_provider_def)
  note respects_snd [OF this, where w = "fst wn"]
  then show ?thesis
    by (simp add: deleteUnrecordedCopies_def Let_def case_prod_unfold split: prod.split sum.split)
qed

lemma respects_flush_or_delete:
  "framed (beside R) (flushOrDeleteUnrecordedCopies ch (optFlush opts) (deleteEvents (optProvider opts)))"
proof (rule respectsI)
  fix wn r wn' assume run: "flushOrDeleteUnrecordedCopies ch (optFlush opts) (deleteEvents (optProvider opts)) wn = (r, wn')"
  obtain q v where q: "optFlush opts ch (fst wn) = (q, v)" by fastforce
  have "framed R (optFlush opts ch)" using opts by (simp add: framed_options_def)
  from respectsD [OF this, where w = "fst wn"] q have first: "R (fst wn) v" by blast
  have "R v (fst (deleteUnrecordedCopies (deleteEvents (optProvider opts)) (inserts ch) (v, snd wn)))"
    using respects_delete_copies [of "(v, snd wn)"] by simp
  then show "beside R wn wn'" using run q first
    by (auto simp: beside_def flushOrDeleteUnrecordedCopies_def Let_def case_prod_unfold
        split: sum.splits if_splits intro: frame_trans)
qed

lemma framed_callbacks: "framed_callbacks (beside R) (syncCallbacks opts nl nr)"
  unfolding framed_callbacks_def syncCallbacks_def checkpointFlush_def
  by (auto intro!: lifted respects_emit beside_basic respects_flush_or_delete respects_note_flushed)

lemma framed_lift_provider: "framed_provider (beside R) (lift_provider (optProvider opts))"
  using opts by (auto simp: framed_options_def framed_provider_def lift_provider_def intro!: respects_lift_eff)

lemma respects_execute: "framed (beside R)
    (executeRemoteOperations sha256 ops ms cal (lift_provider (optProvider opts)) (syncCallbacks opts nl nr))"
  by (rule framed_run.respects_executeRemoteOperations)
    (intro framed_run.intro framed_run_axioms.intro beside_frame framed_lift_provider framed_callbacks)

lemma respects_finishSync: "framed (beside R) (finishSync opts us st)"
  unfolding finishSync_def Let_def by (auto intro!: beside_basic lifted respects_note_flushed)

lemma respects_syncBody: "framed (beside R) (syncBody sha256 lc opts)"
  unfolding syncBody_def Let_def by (auto intro!: beside_basic lifted respects_emit respects_execute respects_finishSync)

lemma respects_syncCalendar: "R w (fst (snd (syncCalendar sha256 lc opts w)))"
  using respects_syncBody [of sha256 lc] by (auto simp: framed_def syncCalendar_def beside_def)

end

section \<open>Reports of an attempt\<close>

text \<open>The sync leaves the attempt's variables alone, but for the one that says it was superseded.\<close>

definition same_notes :: "attempt_notes \<Rightarrow> attempt_notes \<Rightarrow> bool" where
  "same_notes n n' \<longleftrightarrow> anAttempted n' = anAttempted n \<and> anTotals n' = anTotals n \<and> anReports n' = anReports n
    \<and> anAcquired n' = anAcquired n \<and> anReleased n' = anReleased n"

interpretation notes_frame: frame "\<lambda>a b. same_notes (snd a) (snd b)"
  by unfold_locales (auto simp: same_notes_def)

abbreviation quiet_notes :: "('x, 'a) attempt \<Rightarrow> bool" where
  "quiet_notes \<equiv> framed (\<lambda>a b. same_notes (snd a) (snd b))"

lemma same_notes_refl [simp]: "same_notes n n"
  by (simp add: same_notes_def)

lemma quiet_outside: "quiet_notes (outside m)"
  by (auto simp: framed_def outside_def lift_eff_def split: prod.split)

lemma quiet_statement: "quiet_notes (statement env f)"
  by (auto simp: framed_def statement_def split: prod.split)

lemma quiet_current: "quiet_notes (isAttemptCurrent env cal changed)"
  using quiet_outside [of "aeIsCurrent env cal"] by (auto simp: framed_def isAttemptCurrent_def same_notes_def)

lemma quiet_lift: "quiet_notes (lift_eff m)"
  using quiet_outside [of m] by (simp add: outside_def)

lemma framed_attempt_options:
  "framed_options (\<lambda>a b. same_notes (snd a) (snd b)) (attempt_options env d p requested st remote)"
  unfolding framed_options_def framed_provider_def attempt_options_def lift_provider_def
  by (auto intro: quiet_outside quiet_lift quiet_current notes_frame.respects_return)

interpretation attempt_sync: framed_sync "\<lambda>a b. same_notes (snd a) (snd b)" "attempt_options env d p requested st remote"
  for env :: "'x attempt_env" and d p requested st remote
  by unfold_locales (rule framed_attempt_options)

lemma quiet_run_sync: "quiet_notes (run_sync sha256 lc (attempt_options env d p requested st remote))"
  unfolding framed_def
proof
  fix wn :: "'a sync_world \<times> attempt_notes"
  have "\<And>a b. same_notes (snd wn) (snd (fst (snd (syncCalendar sha256 lc (attempt_options env d p requested st remote) wn))))"
    by (rule attempt_sync.respects_syncCalendar)
  then show "same_notes (snd wn) (snd (snd (run_sync sha256 lc (attempt_options env d p requested st remote) wn)))"
    by (auto simp: run_sync_def split: prod.split)
qed

lemmas quiet = quiet_outside quiet_statement quiet_run_sync notes_frame.respects_basic notes_frame.respects_each

lemma quiet_locks:
  fixes m :: "('x, 'a) attempt"
  assumes m: "quiet_notes m"
  shows "quiet_notes (withSourceIngestLocks env ids m)"
proof -
  have "quiet_notes (acquireSourceIngestLocks env xs m)" for xs
    unfolding acquireSourceIngestLocks_def by (intro quiet m)
  moreover have "quiet_notes (in_transaction env k)" if k: "quiet_notes k" for k :: "('x, 'a) attempt"
  proof (rule respectsI)
    fix wn r wn' assume run: "in_transaction env k wn = (r, wn')"
    obtain q v where q: "k wn = (q, v)" by (cases "k wn")
    obtain s v' where s: "outside (aeEndLocks env (\<not> isl q)) v = (s, v')"
      by (cases "outside (aeEndLocks env (\<not> isl q)) v")
    have "same_notes (snd wn) (snd v)" "same_notes (snd v) (snd v')"
      using respectsD [OF k q] respectsD [OF quiet_outside s] by auto
    then show "same_notes (snd wn) (snd wn')"
      using run q s by (auto simp: in_transaction_def same_notes_def split: sum.splits)
  qed
  ultimately show ?thesis using m by (simp add: withSourceIngestLocks_def Let_def)
qed

lemma quiet_mapped: "quiet_notes (getMappedSourceCalendarIds env cal)"
  unfolding getMappedSourceCalendarIds_def by (rule quiet)

lemma quiet_coverage: "quiet_notes (read_coverage env ids)"
  unfolding read_coverage_def by (auto intro: quiet)

lemma quiet_ranged: "quiet_notes (ranged env r)"
  unfolding ranged_def by (rule quiet)

lemma quiet_window: "quiet_notes (requested_window env d)"
proof -
  have "quiet_notes (\<lambda>wn. ranged env (getConfigurableSyncWindow h f (aeNow env (fst wn))) wn)" for h f
    by (simp add: framed_def ranged_def lift_sum_def)
  then show ?thesis unfolding requested_window_def by (intro quiet quiet_ranged)
qed

lemma quiet_readLocalState: "quiet_notes (readLocalState env d requested ids rows)"
  unfolding readLocalState_def Let_def
  by (auto intro!: quiet_locks quiet quiet_mapped quiet_coverage quiet_ranged split: prod.split option.split)

lemma quiet_verdict: "quiet_notes (applyDestinationAttemptVerdict env d v)"
proof -
  have backoff: "quiet_notes (applyDestinationBackoff env d)"
    using quiet_statement unfolding framed_def applyDestinationBackoff_def Let_def by blast
  show ?thesis
    unfolding applyDestinationAttemptVerdict_def escalateDestinationBackoff_def resetDestinationBackoffIfNeeded_def
      resetDestinationBackoff_def write_access_removed_def
    by (auto intro!: quiet backoff split: DestinationAttemptVerdict.split)
qed

lemma quiet_recordFirst: "quiet_notes (recordCompletedFirstSyncs env cal so v ids)"
proof -
  have "quiet_notes (recordFirstSyncedMappings env cal ids)"
    by (simp add: framed_def recordFirstSyncedMappings_def Let_def statement_def eff_return_def)
  then show ?thesis unfolding recordCompletedFirstSyncs_def by (auto intro: quiet)
qed

text \<open>
  \<open>files P k m\<close>: a run that returns adds \<open>k\<close> reports, one that throws adds none; they satisfy \<open>P\<close>, and
  the lock is neither acquired nor released.
\<close>

definition files :: "(attempt_report \<Rightarrow> bool) \<Rightarrow> nat \<Rightarrow> ('x, 'a) attempt \<Rightarrow> bool" where
  "files P k m \<longleftrightarrow> (\<forall>wn r wn'. m wn = (r, wn') \<longrightarrow>
    anAcquired (snd wn') = anAcquired (snd wn) \<and> anReleased (snd wn') = anReleased (snd wn)
    \<and> (\<exists>rs. anReports (snd wn') = anReports (snd wn) @ rs \<and> length rs = (if isl r then 0 else k) \<and> (\<forall>x \<in> set rs. P x)))"

lemma filesD:
  assumes "files P k m" "m wn = (r, wn')"
  obtains rs where "anAcquired (snd wn') = anAcquired (snd wn)" "anReleased (snd wn') = anReleased (snd wn)"
    "anReports (snd wn') = anReports (snd wn) @ rs" "length rs = (if isl r then 0 else k)" "\<forall>x \<in> set rs. P x"
  using assms unfolding files_def by blast

lemma files_quiet: "quiet_notes m \<Longrightarrow> files P 0 m"
  unfolding files_def by (auto dest!: respectsD simp: same_notes_def)

lemma files_bind:
  assumes m: "files P 0 m" and f: "\<And>x. files P k (f x)"
  shows "files P k (eff_bind m f)"
  unfolding files_def
proof (intro allI impI)
  fix wn r wn' assume run: "eff_bind m f wn = (r, wn')"
  obtain q v where q: "m wn = (q, v)" by (cases "m wn")
  from filesD [OF m q] obtain rs where 1: "anAcquired (snd v) = anAcquired (snd wn)"
    "anReleased (snd v) = anReleased (snd wn)" "anReports (snd v) = anReports (snd wn)" by (metis append_Nil2 length_0_conv)
  show "anAcquired (snd wn') = anAcquired (snd wn) \<and> anReleased (snd wn') = anReleased (snd wn)
    \<and> (\<exists>rs. anReports (snd wn') = anReports (snd wn) @ rs \<and> length rs = (if isl r then 0 else k) \<and> (\<forall>x \<in> set rs. P x))"
  proof (cases q)
    case (Inl e)
    then show ?thesis using run q 1 by (auto simp: eff_bind_def)
  next
    case (Inr x)
    then have "f x v = (r, wn')" using run q by (simp add: eff_bind_def)
    from filesD [OF f this] show ?thesis unfolding 1 by metis
  qed
qed

lemma files_then: "quiet_notes m \<Longrightarrow> (\<And>x. files P k (f x)) \<Longrightarrow> files P k (eff_bind m f)"
  by (intro files_bind files_quiet)

lemma files_report: "P x \<Longrightarrow> files P 1 (report_attempt x)"
  by (simp add: files_def report_attempt_def jot_def)

text \<open>A report followed by what cannot throw and reports nothing.\<close>

lemma files_report_last:
  "P x \<Longrightarrow> (\<And>wn. \<exists>y n. f () wn = (Inr y, (fst wn, n)) \<and> anReports n = anReports (snd wn)
      \<and> anAcquired n = anAcquired (snd wn) \<and> anReleased n = anReleased (snd wn)) \<Longrightarrow>
    files P 1 (eff_bind (report_attempt x) f)"
proof -
  assume P: "P x" and f: "\<And>wn. \<exists>y n. f () wn = (Inr y, (fst wn, n)) \<and> anReports n = anReports (snd wn)
      \<and> anAcquired n = anAcquired (snd wn) \<and> anReleased n = anReleased (snd wn)"
  show ?thesis
    unfolding files_def
  proof (intro allI impI)
    fix wn r wn' assume run: "eff_bind (report_attempt x) f wn = (r, wn')"
    let ?v = "(fst wn, (snd wn)\<lparr>anReports := anReports (snd wn) @ [x]\<rparr>)"
    have "f () ?v = (r, wn')" using run by (simp add: eff_bind_def report_attempt_def jot_def)
    with f [of ?v] P show "anAcquired (snd wn') = anAcquired (snd wn) \<and> anReleased (snd wn') = anReleased (snd wn)
      \<and> (\<exists>rs. anReports (snd wn') = anReports (snd wn) @ rs \<and> length rs = (if isl r then 0 else 1) \<and> (\<forall>x \<in> set rs. P x))"
      by auto
  qed
qed

lemma files_reportSkip: "(\<And>k. P (Skipped k)) \<Longrightarrow> files P 1 (reportSkip n cal reason)"
  unfolding reportSkip_def by (rule files_report) simp

text \<open>A run that chooses what to do by looking at its state.\<close>

lemma files_choose: "(\<And>wn. \<exists>m. files P k m \<and> f wn = m wn) \<Longrightarrow> files P k f"
  unfolding files_def by metis

lemma files_catch: "files P k m \<Longrightarrow> (\<And>e. files P k (h e)) \<Longrightarrow> files P k (eff_catch m h)"
proof -
  assume m: "files P k m" and h: "\<And>e. files P k (h e)"
  show ?thesis
    unfolding files_def
  proof (intro allI impI)
    fix wn r wn' assume run: "eff_catch m h wn = (r, wn')"
    obtain q v where q: "m wn = (q, v)" by (cases "m wn")
    from filesD [OF m q] obtain rs where 1: "anAcquired (snd v) = anAcquired (snd wn)"
      "anReleased (snd v) = anReleased (snd wn)" "anReports (snd v) = anReports (snd wn) @ rs"
      "length rs = (if isl q then 0 else k)" "\<forall>x \<in> set rs. P x" by metis
    show "anAcquired (snd wn') = anAcquired (snd wn) \<and> anReleased (snd wn') = anReleased (snd wn)
      \<and> (\<exists>rs. anReports (snd wn') = anReports (snd wn) @ rs \<and> length rs = (if isl r then 0 else k) \<and> (\<forall>x \<in> set rs. P x))"
    proof (cases q)
      case (Inl e)
      then have "h e v = (r, wn')" "rs = []" using run q 1 by (auto simp: eff_catch_def)
      from filesD [OF h this(1)] show ?thesis using 1 \<open>rs = []\<close> by (metis append_Nil2)
    next
      case (Inr x)
      then show ?thesis using run q 1 by (auto simp: eff_catch_def)
    qed
  qed
qed

section \<open>What a report says is true\<close>

definition truthful :: "attempt_report \<Rightarrow> bool" where
  "truthful rep = (case rep of
     Completed c \<Rightarrow> (ccFirstSyncedSourceCalendarIds c \<noteq> [] \<longrightarrow> \<not> hasNoSuccessfulOperations (ccResult c))
       \<and> (ccPushRemoved c \<longrightarrow> hasNoSuccessfulOperations (ccResult c) \<and> writeAccessDenied (ccResult c))
   | Errored f \<Rightarrow> \<not> (cfBackoffApplied f \<and> cfPushRemoved f)
       \<and> (cfBackoffApplied f \<longrightarrow> isBackoffEligibleError (cfError f) \<and> \<not> thWriteAccessDenied (cfError f))
       \<and> (cfPushRemoved f \<longrightarrow> thWriteAccessDenied (cfError f))
   | Skipped s \<Rightarrow> True)"

text \<open>A first bind whose result is bounded by a known fact.\<close>

lemma files_bind_known:
  assumes "files P 0 m" and "\<And>wn x wn'. m wn = (Inr x, wn') \<Longrightarrow> Q x" and "\<And>x. Q x \<Longrightarrow> files P k (f x)"
  shows "files P k (eff_bind m f)"
proof -
  let ?g = "\<lambda>x. if Q x then f x else eff_throw undefined"
  have "files P k (eff_bind m ?g)"
    by (rule files_bind [OF assms(1)]) (use assms(3) in \<open>auto simp: files_def eff_throw_def\<close>)
  moreover have "eff_bind m f = eff_bind m ?g"
    using assms(2) by (fastforce simp: eff_bind_def split: prod.split sum.split)
  ultimately show ?thesis by simp
qed

lemma recordCompleted_only:
  assumes "recordCompletedFirstSyncs env cal so v ids wn = (Inr xs, wn')"
  shows "xs = [] \<or> (\<not> so \<and> v = Succeeded)"
  using assms by (auto simp: recordCompletedFirstSyncs_def eff_return_def split: if_splits)

lemma succeeded_verdict: "resolveDestinationAttemptVerdict result False = Succeeded \<longleftrightarrow> \<not> hasNoSuccessfulOperations result"
  by (simp add: resolveDestinationAttemptVerdict_def)

lemma notWritable_verdict:
  "resolveDestinationAttemptVerdict result so = NotWritable \<Longrightarrow> hasNoSuccessfulOperations result \<and> writeAccessDenied result"
  by (auto simp: resolveDestinationAttemptVerdict_def split: if_splits)

lemma files_conclude: "files truthful 1 (conclude_attempt env d st result so)"
proof -
  let ?v = "resolveDestinationAttemptVerdict result so"
  let ?Q = "\<lambda>xs :: string list. xs = [] \<or> (\<not> so \<and> ?v = Succeeded)"
  have "files truthful 1 (eff_bind (applyDestinationAttemptVerdict env d ?v) (\<lambda>own.
      eff_bind (report_attempt (Completed (completed_report d st result ?v firstSynced own))) (\<lambda>_.
        if \<not> own then eff_return () else jot (\<lambda>n. n\<lparr>anTotals := add_totals result (anTotals n)\<rparr>))))"
    if "?Q firstSynced" for firstSynced
  proof -
    have true: "truthful (Completed (completed_report d st result ?v firstSynced own))" for own
      using that by (auto simp: truthful_def completed_report_def Let_def succeeded_verdict dest: notWritable_verdict)
    show ?thesis
      by (rule files_then [OF quiet_verdict], rule files_report_last [where P = truthful, OF true])
        (simp add: eff_return_def jot_def, metis prod.collapse)
  qed
  then show ?thesis
    unfolding conclude_attempt_def Let_def
    by (intro files_bind_known [where Q = ?Q] files_quiet quiet_recordFirst) (auto dest: recordCompleted_only)
qed

lemma files_attempt_failed: "files truthful 1 (attempt_failed env e)"
proof -
  have "files truthful 1 (eff_bind (recordDestinationAttemptFailure env d e) (\<lambda>errors.
      jot (\<lambda>n. n\<lparr>anTotals := (anTotals n)\<lparr>sdErrors := sdErrors (anTotals n) @ errors\<rparr>\<rparr>)))" for d
  proof -
    have assoc: "eff_bind (eff_bind m f) g = eff_bind m (\<lambda>x. eff_bind (f x) g)" for m :: "('a, 'b) attempt" and f :: "'b \<Rightarrow> ('a, 'c) attempt" and g :: "'c \<Rightarrow> ('a, 'd) attempt"
      by (auto simp: eff_bind_def fun_eq_iff split: prod.split sum.split)
    let ?v = "resolveThrownDestinationVerdict e"
    have true: "truthful (Errored \<lparr>cfCalendarId = c, cfError = e, cfBackoffApplied = (own \<and> ?v = VerdictFailed),
        cfPushRemoved = (own \<and> ?v = NotWritable)\<rparr>)" for own c
      by (simp add: truthful_def resolveThrownDestinationVerdict_def)
    show ?thesis
      unfolding recordDestinationAttemptFailure_def Let_def assoc
      by (rule files_then [OF quiet_verdict], rule files_report_last [where P = truthful, OF true])
        (simp add: eff_return_def eff_bind_def jot_def)
  qed
  moreover have "files truthful 1 (eff_throw e)" by (simp add: files_def eff_throw_def)
  ultimately show ?thesis
    by (intro files_choose) (auto simp: attempt_failed_def eff_throw_def split: option.split)
qed

lemma files_with_provider: "files truthful 1 (attempt_with_provider sha256 lc env d provider)"
proof -
  have last: "files truthful 1 (\<lambda>wn. conclude_attempt env d st result (anSuperseded (snd wn)) wn)" for st result
    by (rule files_choose) (use files_conclude in blast)
  show ?thesis
    unfolding attempt_with_provider_def
    by (rule files_then [OF quiet_mapped], rule files_then [OF quiet_window], rule files_then [OF quiet_coverage],
        rule files_then [OF quiet_readLocalState], rule files_then [OF quiet_outside], rule files_then [OF quiet_run_sync],
        rule last)
qed

lemma files_attempt_eligible: "files truthful 1 (attempt_eligible sha256 lc env k cal d)"
proof -
  have jot_attempted: "files truthful 0 (jot (\<lambda>n. n\<lparr>anAttempted := Some d\<rparr>))"
    by (simp add: files_def jot_def)
  have skip: "files truthful 1 (reportSkip k cal ProviderUnresolved)"
    by (rule files_reportSkip) (simp add: truthful_def)
  show ?thesis
    unfolding attempt_eligible_def
    by (rule files_bind [OF jot_attempted], rule files_then [OF quiet_outside])
      (simp add: skip [unfolded One_nat_def] files_with_provider [unfolded One_nat_def] split: option.split)
qed

lemma files_attempt_body: "files truthful 1 (attempt_body sha256 lc env userId k cal)"
proof -
  have skip: "files truthful 1 (reportSkip k cal DestinationIneligible)"
    by (rule files_reportSkip) (simp add: truthful_def)
  show ?thesis
    unfolding attempt_body_def
    by (rule files_then [OF quiet_statement], rule files_choose)
      (auto intro: skip files_attempt_eligible simp del: One_nat_def split: option.split)
qed


section \<open>Verdicts against a retry state that is gone\<close>

text \<open>No row of the destination is in the retry state that the attempt observed.\<close>

definition retry_moved :: "DestinationAttempt \<Rightarrow> 'x sync_world \<Rightarrow> bool" where
  "retry_moved d w \<longleftrightarrow> (\<forall>row \<in> set (swDestinations w). \<not> matchesObservedRetryState d row)"

lemma update_keeps_moved:
  "(\<And>row. p row \<Longrightarrow> \<not> matchesObservedRetryState d (f row)) \<Longrightarrow> (\<And>row. matchesObservedRetryState d row \<Longrightarrow> p row) \<Longrightarrow>
    retry_moved d (snd (update_destinations p f w))"
  by (auto simp: retry_moved_def update_destinations_def)

lemma moved_update_none: "retry_moved d w \<Longrightarrow> update_destinations (matchesObservedRetryState d) f w = ((), w)"
proof -
  assume "retry_moved d w"
  then have "map (\<lambda>r. if matchesObservedRetryState d r then f r else r) (swDestinations w) = swDestinations w"
    by (intro map_idI) (simp add: retry_moved_def)
  then show ?thesis by (simp add: update_destinations_def)
qed

lemma reread_moved:
  assumes "retry_moved d w"
  shows "\<not> hasSameRetryState d (getDestinationAttempt u (daCalendarId d) w)"
proof
  assume "hasSameRetryState d (getDestinationAttempt u (daCalendarId d) w)"
  then obtain row where "find (pushable u (daCalendarId d)) (swDestinations w) = Some row"
    "bsFailureCount (dsBackoff row) = daFailureCount d" "bsNextAttemptAt (dsBackoff row) = daNextAttemptAt d"
    by (auto simp: hasSameRetryState_def getDestinationAttempt_def attempt_of_row_def split: option.splits)
  then have "row \<in> set (swDestinations w)" "matchesObservedRetryState d row"
    by (auto simp: find_Some_iff matchesObservedRetryState_def pushable_def)
  with assms show False by (simp add: retry_moved_def)
qed

lemma backoff_moves: "retry_moved d (fst (snd (applyDestinationBackoff env d wn)))"
proof -
  let ?f = "\<lambda>r. r\<lparr>dsBackoff := buildCalendarBackoffState (daFailureCount d) (aeNow env (fst wn))\<rparr>"
  have "retry_moved d (snd (update_destinations (matchesObservedRetryState d) ?f (aeElsewhere env (fst wn))))"
    by (rule update_keeps_moved) (simp_all add: matchesObservedRetryState_def buildCalendarBackoffState_def)
  then show ?thesis by (simp add: applyDestinationBackoff_def Let_def statement_def case_prod_unfold)
qed

lemma reset_moves: "daFailureCount d > 0 \<Longrightarrow> retry_moved d (fst (snd (resetDestinationBackoff env (daCalendarId d) wn)))"
proof -
  assume pos: "daFailureCount d > 0"
  have "retry_moved d (snd (update_destinations (\<lambda>r. dsId r = daCalendarId d)
      (\<lambda>r. r\<lparr>dsBackoff := RESET_CALENDAR_BACKOFF_STATE\<rparr>) (aeElsewhere env (fst wn))))"
    by (rule update_keeps_moved) (use pos in \<open>auto simp: matchesObservedRetryState_def RESET_CALENDAR_BACKOFF_STATE_def\<close>)
  then show ?thesis by (simp add: resetDestinationBackoff_def statement_def case_prod_unfold)
qed

definition retry_observed :: "'x attempt_env \<Rightarrow> DestinationAttempt \<Rightarrow> 'x sync_world \<Rightarrow> bool" where
  "retry_observed env d w = hasSameRetryState d (getDestinationAttempt (daUserId d) (daCalendarId d)
    (aeElsewhere env (snd (aeIsCurrent env (daCalendarId d) w))))"


section \<open>First syncs are recorded once\<close>

definition first_synced :: "string \<Rightarrow> string \<Rightarrow> 'x sync_world \<Rightarrow> bool" where
  "first_synced cal source w \<longleftrightarrow>
    (\<forall>row \<in> set (swSourceMappings w). smDestination row = cal \<and> smSource row = source \<longrightarrow> smFirstSyncedAt row \<noteq> None)"

lemma recordFirst_effect:
  assumes "recordFirstSyncedMappings env cal ids (w, n) = (r, (w', n'))"
  shows "\<exists>xs. r = Inr xs \<and> set xs \<subseteq> set ids \<and> (\<forall>s \<in> set ids. first_synced cal s w')
    \<and> (\<forall>s \<in> set xs. \<not> first_synced cal s (aeElsewhere env w))"
proof (cases "ids = []")
  case True
  then show ?thesis using assms by (simp add: recordFirstSyncedMappings_def eff_return_def)
next
  case False
  let ?v = "aeElsewhere env w"
  let ?hit = "\<lambda>r. smDestination r = cal \<and> smSource r \<in> set ids \<and> smFirstSyncedAt r = None"
  let ?xs = "map smSource (filter ?hit (swSourceMappings ?v))"
  have run: "r = Inr ?xs" "swSourceMappings w' =
      map (\<lambda>r. if ?hit r then r\<lparr>smFirstSyncedAt := Some (aeNow env w)\<rparr> else r) (swSourceMappings ?v)"
    using assms False by (auto simp: recordFirstSyncedMappings_def Let_def statement_def)
  have "first_synced cal s w'" if s: "s \<in> set ids" for s
    unfolding first_synced_def
  proof (intro ballI impI)
    fix row assume row: "row \<in> set (swSourceMappings w')" "smDestination row = cal \<and> smSource row = s"
    from row(1) obtain old where "row = (if ?hit old then old\<lparr>smFirstSyncedAt := Some (aeNow env w)\<rparr> else old)"
      unfolding run(2) set_map by (rule imageE)
    then show "smFirstSyncedAt row \<noteq> None" using row(2) s by (cases "?hit old") simp_all
  qed
  moreover have "\<not> first_synced cal s ?v" if "s \<in> set ?xs" for s
    using that unfolding first_synced_def by auto
  moreover have "set ?xs \<subseteq> set ids" by auto
  ultimately show ?thesis using run(1) by blast
qed

lemma recordCompleted_effect:
  assumes "recordCompletedFirstSyncs env cal so verdict ids (w, n) = (r, (w', n'))"
  shows "\<exists>xs. r = Inr xs \<and> set xs \<subseteq> set ids \<and> (xs \<noteq> [] \<longrightarrow> \<not> so \<and> verdict = Succeeded)
    \<and> (\<not> so \<and> verdict = Succeeded \<longrightarrow> (\<forall>s \<in> set ids. first_synced cal s w'))
    \<and> (\<forall>s \<in> set xs. \<not> first_synced cal s (aeElsewhere env w))"
proof (cases "\<not> so \<and> verdict = Succeeded")
  case True
  then have "recordFirstSyncedMappings env cal ids (w, n) = (r, (w', n'))"
    using assms by (simp add: recordCompletedFirstSyncs_def)
  from recordFirst_effect [OF this] True show ?thesis by auto
next
  case False
  then have "r = Inr []" using assms by (auto simp: recordCompletedFirstSyncs_def eff_return_def split: if_splits)
  with False show ?thesis by auto
qed

text \<open>C14: A first sync is recorded by a success only, and reported once. Sources are recorded only for an attempt
  that succeeded and was not superseded, and only sources whose coverage the attempt verified; afterwards all of
  them are marked; and as long as no other process clears a mark, no later attempt, whatever its verdict and
  sources, reports one of them again.\<close>

theorem first_syncs_are_reported_once:
  assumes kept: "\<And>s v. first_synced cal s v \<Longrightarrow> first_synced cal s (aeElsewhere env v)"
    and first: "recordCompletedFirstSyncs env cal so verdict verified (w, n) = (r1, (w1, n1))"
    and second: "recordCompletedFirstSyncs env cal so2 verdict2 verified2 (w1, n1) = (r2, (w2, n2))"
  shows "\<exists>xs ys. r1 = Inr xs \<and> r2 = Inr ys \<and> set xs \<subseteq> set verified \<and> (xs \<noteq> [] \<longrightarrow> \<not> so \<and> verdict = Succeeded)
    \<and> (\<not> so \<and> verdict = Succeeded \<longrightarrow> (\<forall>s \<in> set verified. first_synced cal s w1) \<and> set ys \<inter> set verified = {})"
proof -
  obtain xs where xs: "r1 = Inr xs" "set xs \<subseteq> set verified" "xs \<noteq> [] \<longrightarrow> \<not> so \<and> verdict = Succeeded"
    "\<not> so \<and> verdict = Succeeded \<longrightarrow> (\<forall>s \<in> set verified. first_synced cal s w1)"
    using recordCompleted_effect [OF first] by blast
  obtain ys where ys: "r2 = Inr ys" "\<forall>s \<in> set ys. \<not> first_synced cal s (aeElsewhere env w1)"
    using recordCompleted_effect [OF second] by blast
  have "\<not> so \<and> verdict = Succeeded \<longrightarrow> set ys \<inter> set verified = {}"
    using xs(4) ys(2) kept by blast
  then show ?thesis using xs ys(1) by blast
qed

section \<open>An attempt whose provider cannot be resolved\<close>

definition sample_error :: thrown_error where
  "sample_error = \<lparr>thMessage = ''Invalid credentials'', thRecurrenceLimit = False, thDatabase = False,
    thTimeout = False, thWriteAccessDenied = False\<rparr>"

definition sample_attempt_env :: "unit attempt_env" where
  "sample_attempt_env = \<lparr>aeElsewhere = id, aeNow = (\<lambda>_. 1000), aeAborted = (\<lambda>_. False), aeDeadlineMs = None,
    aeRangeError = (\<lambda>_. sample_error), aeAcquire = (\<lambda>_. eff_return True), aeIsCurrent = (\<lambda>_. eff_return True),
    aeRelease = (\<lambda>_. eff_return ()), aeResolveProvider = (\<lambda>_. eff_throw sample_error),
    aeReadCoverage = (\<lambda>_. eff_return []), aeBeginLocks = eff_return (), aeLockSource = (\<lambda>_. eff_return ()),
    aeEndLocks = (\<lambda>_. eff_return ()), aeReadEvents = (\<lambda>_ _. eff_return ([], [])), aeReadMappings = (\<lambda>_. eff_return []),
    aeFlush = (\<lambda>_. eff_return ()), aeOnProgress = None\<rparr>"

lemma sample_env_simps:
  "aeElsewhere sample_attempt_env = id" "aeNow sample_attempt_env w = 1000" "aeAcquire sample_attempt_env c = eff_return True"
  "aeIsCurrent sample_attempt_env c = eff_return True" "aeRelease sample_attempt_env c = eff_return ()"
  "aeResolveProvider sample_attempt_env d = eff_throw sample_error"
  by (simp_all add: sample_attempt_env_def)

definition sample_destination :: "int \<Rightarrow> instant option \<Rightarrow> instant option \<Rightarrow> destination_row" where
  "sample_destination failures since next = \<lparr>dsId = ''c'', dsUserId = ''u'', dsAccountId = ''a'', dsProvider = ''google'',
    dsDisabled = False, dsCapabilities = [''pull'', ''push''],
    dsBackoff = \<lparr>bsFailureCount = failures, bsLastFailureAt = since, bsNextAttemptAt = next\<rparr>,
    dsSyncFutureRange = ''1_month'', dsSyncHistoricRange = ''1_month''\<rparr>"

definition sample_sync_world :: "int \<Rightarrow> instant option \<Rightarrow> instant option \<Rightarrow> unit sync_world" where
  "sample_sync_world failures since next = \<lparr>swDestinations = [sample_destination failures since next],
    swSourceMappings = [\<lparr>smSource = ''s'', smDestination = ''c'', smFirstSyncedAt = None\<rparr>], swOutside = ()\<rparr>"

definition sample_notes :: "attempt_report list \<Rightarrow> DestinationAttempt option \<Rightarrow> nat \<Rightarrow> string list \<Rightarrow> attempt_notes" where
  "sample_notes reports attempted locks errors = \<lparr>anSuperseded = False, anAttempted = attempted,
    anTotals = EMPTY_DESTINATIONS\<lparr>sdErrors := errors\<rparr>, anReports = reports, anAcquired = locks, anReleased = locks\<rparr>"

abbreviation sample_attempt :: DestinationAttempt where
  "sample_attempt \<equiv> attempt_of_row (sample_destination 0 None None)"

abbreviation sample_failure :: attempt_report where
  "sample_failure \<equiv> Errored \<lparr>cfCalendarId = ''c'', cfError = sample_error, cfBackoffApplied = True, cfPushRemoved = False\<rparr>"

lemma sample_verdict:
  "applyDestinationAttemptVerdict sample_attempt_env sample_attempt VerdictFailed (sample_sync_world 0 None None, n) =
    (Inr True, (sample_sync_world 1 (Some 1000) (Some 301000), n))"
  by (simp add: applyDestinationAttemptVerdict_def eff_simps outside_def lift_eff_def sample_env_simps escalateDestinationBackoff_def
      statement_def getDestinationAttempt_def sample_sync_world_def sample_destination_def pushable_def attempt_of_row_def
      hasSameRetryState_def applyDestinationBackoff_def Let_def buildCalendarBackoffState_def resolveCalendarBackoffDelayMs_def
      update_destinations_def matchesObservedRetryState_def)

lemma sample_attempt_run:
  "runDestinationAttempt id (\<lambda>_ _. 0) sample_attempt_env ''u'' 1 ''c'' (sample_sync_world 0 None None, sample_notes [] None 0 []) =
    (Inr (), (sample_sync_world 1 (Some 1000) (Some 301000),
      sample_notes [sample_failure] (Some sample_attempt) 1 [''Invalid credentials'']))"
proof -
  have eligible: "getDestinationAttempt ''u'' ''c'' (sample_sync_world 0 None None) = Some sample_attempt"
    by (simp add: getDestinationAttempt_def sample_sync_world_def sample_destination_def pushable_def)
  have calendar: "daCalendarId sample_attempt = ''c''" "daNextAttemptAt sample_attempt = None"
    by (simp_all add: attempt_of_row_def sample_destination_def)
  have message: "thMessage sample_error = ''Invalid credentials''" by (simp add: sample_error_def)
  have verdict: "resolveThrownDestinationVerdict sample_error = VerdictFailed"
    by (simp add: resolveThrownDestinationVerdict_def sample_error_def isBackoffEligibleError_def BACKOFF_ERROR_PATTERNS_def)
  show ?thesis
    by (simp add: runDestinationAttempt_def eff_simps outside_def lift_eff_def sample_env_simps eff_finally_def eff_catch_def
        attempt_body_def statement_def jot_def eligible isDestinationAttemptEligible_def calendar attempt_eligible_def
        attempt_failed_def recordDestinationAttemptFailure_def verdict sample_verdict report_attempt_def release_lock_def
        sample_notes_def EMPTY_DESTINATIONS_def message Let_def)
qed



theorem first_syncs_are_reported_once_witness:
  "fst (recordCompletedFirstSyncs sample_attempt_env ''c'' False Succeeded [''s''] (sample_sync_world 0 None None, sample_notes [] None 0 [])) = Inr [''s'']
    \<and> first_synced ''c'' ''s'' (fst (snd (recordCompletedFirstSyncs sample_attempt_env ''c'' False Succeeded [''s'']
        (sample_sync_world 0 None None, sample_notes [] None 0 []))))"
proof -
  let ?run = "\<lambda>w. recordCompletedFirstSyncs sample_attempt_env ''c'' False Succeeded [''s''] (w, sample_notes [] None 0 [])"
  have run: "?run (sample_sync_world 0 None None) = (Inr [''s''],
      ((sample_sync_world 0 None None)\<lparr>swSourceMappings := [\<lparr>smSource = ''s'', smDestination = ''c'', smFirstSyncedAt = Some 1000\<rparr>]\<rparr>, sample_notes [] None 0 []))"
    by (simp add: recordCompletedFirstSyncs_def recordFirstSyncedMappings_def statement_def sample_env_simps sample_sync_world_def)
  obtain r2 w2 n2 where second: "?run ((sample_sync_world 0 None None)\<lparr>swSourceMappings :=
      [\<lparr>smSource = ''s'', smDestination = ''c'', smFirstSyncedAt = Some 1000\<rparr>]\<rparr>) = (r2, (w2, n2))"
    by (metis surj_pair)
  have "first_synced ''c'' s v \<Longrightarrow> first_synced ''c'' s (aeElsewhere sample_attempt_env v)" for s v
    by (simp add: sample_env_simps)
  from first_syncs_are_reported_once [OF this run second] show ?thesis unfolding run by auto
qed

end
