(* ===== verification/Materialize.thy ===== *)
theory Materialize
  imports Event_Diff Time_Zone
begin

text \<open>
  From stored series to the events of a window: \<open>core/events/recurrence-materializer.ts\<close> with
  \<open>ics/utils/recurrence-duration.ts\<close>. The expansion of a rule is the package \<open>rrule\<close>, a parameter:
  \<open>rlBetween\<close> lists the wall times of a rule between two bounds, in order, as \<open>RRule.between\<close> does
  when its callback accepts every date; the callback of the code stops at the budget, which the model
  sees in the length of that list. Rules and durations are the validated values of \<open>ts-ics\<close>, with the
  fields the code reads; a stored value is viewed as one by \<open>rlRule\<close> and \<open>rlDuration\<close>. Dates are valid.
\<close>

section \<open>Rules and durations\<close>

datatype ics_frequency = Secondly | Minutely | Hourly | Daily | Weekly | Monthly | Yearly

record IcsRecurrenceRule =
  rrFrequency :: ics_frequency
  rrInterval :: "int option"
  rrCount :: "int option"
  rrUntil :: "instant option"
  rrBySecond :: "int list option"
  rrByMinute :: "int list option"
  rrByHour :: "int list option"
  rrByDay :: "(string \<times> int option) list option"
  rrByMonthday :: "int list option"
  rrByYearday :: "int list option"
  rrByWeekNo :: "int list option"
  rrByMonth :: "int list option"
  rrBySetPos :: "int list option"
  rrWorkweekStart :: "string option"

record IcsDuration =
  idWeeks :: "int option"
  idDays :: "int option"
  idHours :: "int option"
  idMinutes :: "int option"
  idSeconds :: "int option"

definition nominal_days_ms :: "IcsDuration \<Rightarrow> int" where
  "nominal_days_ms d = or_else (idWeeks d) 0 * (7 * MS_PER_DAY) + or_else (idDays d) 0 * MS_PER_DAY"

definition accurate_ms :: "IcsDuration \<Rightarrow> int" where
  "accurate_ms d = or_else (idHours d) 0 * 3600000 + or_else (idMinutes d) 0 * MS_PER_MINUTE
    + or_else (idSeconds d) 0 * 1000"

definition getIcsDurationNominalMilliseconds :: "IcsDuration \<Rightarrow> int" where
  "getIcsDurationNominalMilliseconds d = nominal_days_ms d + accurate_ms d"

definition sum_bind :: "('e + 'a) \<Rightarrow> ('a \<Rightarrow> 'e + 'b) \<Rightarrow> 'e + 'b" where
  "sum_bind m f = (case m of Inl e \<Rightarrow> Inl e | Inr x \<Rightarrow> f x)"

lemma sum_bind_simps [simp]: "sum_bind (Inl e) f = Inl e" "sum_bind (Inr x) f = f x"
  by (simp_all add: sum_bind_def)

lemma sum_bind_eq_Inr: "sum_bind m f = Inr y \<longleftrightarrow> (\<exists>x. m = Inr x \<and> f x = Inr y)"
  by (cases m) auto

lemma sum_bind_eq_Inl: "sum_bind m f = Inl e \<longleftrightarrow> m = Inl e \<or> (\<exists>x. m = Inr x \<and> f x = Inl e)"
  by (cases m) auto

definition addIcsDuration :: "intl \<Rightarrow> instant \<Rightarrow> IcsDuration \<Rightarrow> string option \<Rightarrow> tz_error + instant" where
  "addIcsDuration intl start duration timeZone =
    sum_bind
      (if nominal_days_ms duration = 0 then Inr start
       else (case timeZone of None \<Rightarrow> Inr (start + nominal_days_ms duration)
         | Some z \<Rightarrow> wallTimeToInstant intl (instantToWallTime intl start z + nominal_days_ms duration) z))
      (\<lambda>result. Inr (result + accurate_ms duration))"

section \<open>Events and errors\<close>

record SyncableEvent = MaterializedSyncableEvent +
  recurrenceDuration :: "IcsDuration option"
  recurrenceRule :: "IcsRecurrenceRule option"
  exceptionDates :: "instant list option"
  recurrenceId :: "instant option"

record RecurrenceMaterializationLimitError =
  leCalendarId :: string
  leEventId :: string
  leEventStateId :: "string option"
  leLimit :: nat
  leSourceEventUid :: string

datatype materialize_error =
    OverBudget RecurrenceMaterializationLimitError | InvalidMaterializationWindow
  | UnsupportedWeekday string | ZeroWeekday | ZoneError tz_error

record RecurrenceMaterializationWindow =
  mwStart :: instant
  mwEnd :: instant

record SuppressedOverride =
  soCalendarId :: string
  soRecurrenceId :: "instant option"
  soSourceEventUid :: string

datatype rrule_weekday = Mo | Tu | We | Th | Fr | Sa | Su

record rrule_options =
  roFreq :: ics_frequency
  roDtstart :: instant
  roInterval :: "int option"
  roCount :: "int option"
  roUntil :: "instant option"
  roBySecond :: "int list option"
  roByMinute :: "int list option"
  roByHour :: "int list option"
  roByWeekday :: "(rrule_weekday \<times> int option) list option"
  roByMonthday :: "int list option"
  roByYearday :: "int list option"
  roByWeekNo :: "int list option"
  roByMonth :: "int list option"
  roBySetPos :: "int list option"
  roWkst :: "rrule_weekday option"

record recurrence_lib =
  rlIntl :: intl
  rlSha256 :: "string \<Rightarrow> string"
  rlBetween :: "rrule_options \<Rightarrow> instant \<Rightarrow> instant \<Rightarrow> instant list"
  rlRule :: "structured \<Rightarrow> IcsRecurrenceRule"
  rlDuration :: "structured \<Rightarrow> IcsDuration"

section \<open>The budget of a series\<close>

definition MAX_OCCURRENCES_PER_SERIES :: nat where
  "MAX_OCCURRENCES_PER_SERIES = 10000"

definition HIGH_FREQUENCY_INTERVAL_MS :: "ics_frequency \<Rightarrow> int option" where
  "HIGH_FREQUENCY_INTERVAL_MS f = (case f of Hourly \<Rightarrow> Some (60 * 60 * 1000) | Minutely \<Rightarrow> Some (60 * 1000)
    | Secondly \<Rightarrow> Some 1000 | _ \<Rightarrow> None)"

definition hasOccurrenceSelectors :: "IcsRecurrenceRule \<Rightarrow> bool" where
  "hasOccurrenceSelectors r \<longleftrightarrow> rrByDay r \<noteq> None \<or> rrByHour r \<noteq> None \<or> rrByMinute r \<noteq> None \<or> rrByMonth r \<noteq> None
    \<or> rrByMonthday r \<noteq> None \<or> rrBySecond r \<noteq> None \<or> rrBySetPos r \<noteq> None \<or> rrByWeekNo r \<noteq> None \<or> rrByYearday r \<noteq> None"

definition limit_error :: "SyncableEvent \<Rightarrow> RecurrenceMaterializationLimitError" where
  "limit_error master = \<lparr>leCalendarId = evCalendarId master, leEventId = evId master,
    leEventStateId = evEventStateId master, leLimit = MAX_OCCURRENCES_PER_SERIES,
    leSourceEventUid = sourceEventUid master\<rparr>"

definition toRecurrenceWallTime :: "intl \<Rightarrow> instant \<Rightarrow> string option \<Rightarrow> instant" where
  "toRecurrenceWallTime intl t timeZone = (case timeZone of None \<Rightarrow> t | Some z \<Rightarrow> instantToWallTime intl t z)"

definition fromRecurrenceWallTime :: "intl \<Rightarrow> instant \<Rightarrow> string option \<Rightarrow> tz_error + instant" where
  "fromRecurrenceWallTime intl t timeZone = (case timeZone of None \<Rightarrow> Inr t | Some z \<Rightarrow> wallTimeToInstant intl t z)"

text \<open>How many occurrences an unfiltered rule of high frequency can have between the bounds.\<close>

definition potential_occurrences ::
    "intl \<Rightarrow> IcsRecurrenceRule \<Rightarrow> int \<Rightarrow> instant \<Rightarrow> instant \<Rightarrow> instant \<Rightarrow> string option \<Rightarrow> int" where
  "potential_occurrences intl rule baseInterval recurrenceStart recurrenceWindowStart recurrenceEnd timeZone =
    (let intervalMilliseconds = baseInterval * max (or_else (rrInterval rule) 1) 1;
         untilTime = (case rrUntil rule of None \<Rightarrow> recurrenceEnd | Some u \<Rightarrow> toRecurrenceWallTime intl u timeZone);
         boundedEndTime = min recurrenceEnd untilTime;
         firstOccurrenceIndex = max (- ((recurrenceStart - recurrenceWindowStart) div intervalMilliseconds)) 0;
         lastOccurrenceIndex = (boundedEndTime - recurrenceStart) div intervalMilliseconds;
         lastOccurrenceIndex = (case rrCount rule of None \<Rightarrow> lastOccurrenceIndex | Some c \<Rightarrow> min lastOccurrenceIndex (c - 1))
     in max (lastOccurrenceIndex - firstOccurrenceIndex + 1) 0)"

definition assertUnfilteredHighFrequencyRuleWithinBudget ::
    "intl \<Rightarrow> SyncableEvent \<Rightarrow> instant \<Rightarrow> instant \<Rightarrow> instant \<Rightarrow> string option \<Rightarrow> materialize_error + unit" where
  "assertUnfilteredHighFrequencyRuleWithinBudget intl master recurrenceStart recurrenceWindowStart recurrenceEnd timeZone =
    (case recurrenceRule master of None \<Rightarrow> Inr ()
     | Some rule \<Rightarrow> (case HIGH_FREQUENCY_INTERVAL_MS (rrFrequency rule) of None \<Rightarrow> Inr ()
       | Some baseInterval \<Rightarrow>
           if hasOccurrenceSelectors rule then Inr ()
           else if potential_occurrences intl rule baseInterval recurrenceStart recurrenceWindowStart recurrenceEnd timeZone
              > int MAX_OCCURRENCES_PER_SERIES
           then Inl (OverBudget (limit_error master)) else Inr ()))"

definition assertValidWindow :: "RecurrenceMaterializationWindow \<Rightarrow> materialize_error + unit" where
  "assertValidWindow window = (if mwStart window \<ge> mwEnd window then Inl InvalidMaterializationWindow else Inr ())"

definition overlapsWindow :: "MaterializedSyncableEvent \<Rightarrow> RecurrenceMaterializationWindow \<Rightarrow> bool" where
  "overlapsWindow event window = overlapsTimeWindow (startTime event) (endTime event) (mwStart window) (mwEnd window)"

definition isSeriesExhaustedBeforeWindow :: "intl \<Rightarrow> IcsRecurrenceRule \<Rightarrow> instant \<Rightarrow> string option \<Rightarrow> bool" where
  "isSeriesExhaustedBeforeWindow intl rule recurrenceWindowStart timeZone =
    (case rrUntil rule of None \<Rightarrow> False | Some u \<Rightarrow> toRecurrenceWallTime intl u timeZone < recurrenceWindowStart)"

section \<open>The rule handed to the library\<close>

definition WEEKDAYS :: "(string \<times> rrule_weekday) list" where
  "WEEKDAYS = [(''FR'', Fr), (''MO'', Mo), (''SA'', Sa), (''SU'', Su), (''TH'', Th), (''TU'', Tu), (''WE'', We)]"

fun rrule_weekdays :: "(string \<times> int option) list \<Rightarrow> materialize_error + (rrule_weekday \<times> int option) list" where
  "rrule_weekdays [] = Inr []"
| "rrule_weekdays ((day, occurrence) # rest) = (case map_of WEEKDAYS day of
      None \<Rightarrow> Inl (UnsupportedWeekday day)
    | Some weekday \<Rightarrow> if occurrence = Some 0 then Inl ZeroWeekday
        else sum_bind (rrule_weekdays rest) (\<lambda>ws. Inr ((weekday, occurrence) # ws)))"

definition toRRuleOptions :: "intl \<Rightarrow> IcsRecurrenceRule \<Rightarrow> instant \<Rightarrow> string option \<Rightarrow> materialize_error + rrule_options" where
  "toRRuleOptions intl rule recurrenceStart timeZone =
    sum_bind (case rrByDay rule of None \<Rightarrow> Inr None | Some ds \<Rightarrow> sum_bind (rrule_weekdays ds) (\<lambda>ws. Inr (Some ws))) (\<lambda>weekdays.
    Inr \<lparr>roFreq = rrFrequency rule, roDtstart = recurrenceStart, roInterval = rrInterval rule, roCount = rrCount rule,
      roUntil = map_option (\<lambda>u. toRecurrenceWallTime intl u timeZone) (rrUntil rule),
      roBySecond = rrBySecond rule, roByMinute = rrByMinute rule, roByHour = rrByHour rule, roByWeekday = weekdays,
      roByMonthday = rrByMonthday rule, roByYearday = rrByYearday rule, roByWeekNo = rrByWeekNo rule,
      roByMonth = map_option (map (\<lambda>month. month + 1)) (rrByMonth rule), roBySetPos = rrBySetPos rule,
      roWkst = Option.bind (rrWorkweekStart rule) (map_of WEEKDAYS)\<rparr>)"

section \<open>Occurrences\<close>

definition asOneOffEvent :: "SyncableEvent \<Rightarrow> MaterializedSyncableEvent" where
  "asOneOffEvent event = MaterializedSyncableEvent.truncate event"

definition createSyntheticOccurrenceId :: "recurrence_lib \<Rightarrow> SyncableEvent \<Rightarrow> instant \<Rightarrow> instant \<Rightarrow> string" where
  "createSyntheticOccurrenceId lib master occurrenceStart occurrenceEnd =
    ''recurrence-'' @ rlSha256 lib (json_stringify (JArray (map JString
      [evCalendarId master, sourceEventUid master, toISOString (startTime master), toISOString (endTime master),
       toISOString occurrenceStart, toISOString occurrenceEnd])))"

definition resolveOccurrenceEnd ::
    "intl \<Rightarrow> SyncableEvent \<Rightarrow> instant \<Rightarrow> string option \<Rightarrow> materialize_error + instant" where
  "resolveOccurrenceEnd intl master occurrenceStart seriesTimeZone =
    (case recurrenceDuration master of
       Some duration \<Rightarrow> map_sum ZoneError id (addIcsDuration intl occurrenceStart duration seriesTimeZone)
     | None \<Rightarrow> Inr (occurrenceStart + (endTime master - startTime master)))"

definition createMaterializedOccurrence ::
    "recurrence_lib \<Rightarrow> SyncableEvent \<Rightarrow> instant \<Rightarrow> string option \<Rightarrow> materialize_error + MaterializedSyncableEvent" where
  "createMaterializedOccurrence lib master occurrenceStart seriesTimeZone =
    sum_bind (resolveOccurrenceEnd (rlIntl lib) master occurrenceStart seriesTimeZone) (\<lambda>occurrenceEnd.
    Inr ((asOneOffEvent master)\<lparr>endTime := occurrenceEnd,
      evEventStateId := Some (or_else (evEventStateId master) (evId master)),
      evId := createSyntheticOccurrenceId lib master occurrenceStart occurrenceEnd,
      startTime := occurrenceStart\<rparr>))"

definition getEventSortKey :: "MaterializedSyncableEvent \<Rightarrow> string" where
  "getEventSortKey e = json_stringify (JArray [JString (toISOString (startTime e)), JString (toISOString (endTime e)),
    JString (evCalendarId e), JString (sourceEventUid e), JString (evId e), JString (summary e),
    JString (or_else (description e) []), JString (or_else (location e) []),
    JString (case availability e of None \<Rightarrow> [] | Some a \<Rightarrow> availability_name a),
    JBool (or_else (isAllDay e) False), JString (or_else (startTimeZone e) [])])"

definition compareEvents :: "MaterializedSyncableEvent \<Rightarrow> MaterializedSyncableEvent \<Rightarrow> int" where
  "compareEvents first second = compare_strings (getEventSortKey first) (getEventSortKey second)"

section \<open>Series\<close>

definition series_key :: "string \<Rightarrow> string \<Rightarrow> string" where
  "series_key calendarId seriesUid = json_stringify (JArray [JString calendarId, JString seriesUid])"

definition getSeriesKey :: "SyncableEvent \<Rightarrow> string" where
  "getSeriesKey event = series_key (evCalendarId event) (sourceEventUid event)"

definition is_master :: "SyncableEvent \<Rightarrow> bool" where
  "is_master event \<longleftrightarrow> recurrenceRule event \<noteq> None \<and> recurrenceId event = None"

definition getUniqueMastersBySeries :: "SyncableEvent list \<Rightarrow> (string, SyncableEvent) jsmap" where
  "getUniqueMastersBySeries events =
    (let mastersBySeries = fold (\<lambda>event acc. group_push (getSeriesKey event) event acc) (filter is_master events) []
     in concat (map (\<lambda>(key, masters). case masters of [master] \<Rightarrow> [(key, master)] | _ \<Rightarrow> []) mastersBySeries))"

definition suppressed_of :: "SyncableEvent \<Rightarrow> SuppressedOverride" where
  "suppressed_of event = \<lparr>soCalendarId = evCalendarId event, soRecurrenceId = recurrenceId event,
    soSourceEventUid = sourceEventUid event\<rparr>"

text \<open>The map's keys are the master objects; only a series with a single master has one, so its value identifies it.\<close>

definition add_slot :: "SyncableEvent \<Rightarrow> instant \<Rightarrow> (SyncableEvent, instant set) jsmap \<Rightarrow> (SyncableEvent, instant set) jsmap" where
  "add_slot master slot slots = AList.update master (insert slot (or_else (map_of slots master) {})) slots"

definition getOverriddenSlotsByMaster ::
    "SuppressedOverride list \<Rightarrow> (string, SyncableEvent) jsmap \<Rightarrow> (SyncableEvent, instant set) jsmap" where
  "getOverriddenSlotsByMaster events uniqueMastersBySeries =
    fold (\<lambda>event slots. case soRecurrenceId event of None \<Rightarrow> slots
      | Some slot \<Rightarrow> (case map_of uniqueMastersBySeries (series_key (soCalendarId event) (soSourceEventUid event)) of
          None \<Rightarrow> slots | Some master \<Rightarrow> add_slot master slot slots)) events []"

record SeriesTimeZones =
  expansionTimeZone :: "string option"
  seriesTimeZone :: "string option"

definition stepsInElapsedTime :: "IcsRecurrenceRule \<Rightarrow> bool" where
  "stepsInElapsedTime rule \<longleftrightarrow> HIGH_FREQUENCY_INTERVAL_MS (rrFrequency rule) \<noteq> None \<and> \<not> hasOccurrenceSelectors rule"

definition resolveSeriesTimeZones :: "intl \<Rightarrow> SyncableEvent \<Rightarrow> IcsRecurrenceRule \<Rightarrow> materialize_error + SeriesTimeZones" where
  "resolveSeriesTimeZones intl master rule =
    sum_bind (map_sum ZoneError id (resolveTimeZone intl (startTimeZone master))) (\<lambda>timeZone. Inr
      (if resolveIsAllDayEvent (isAllDay master) (startTime master) (endTime master)
       then \<lparr>expansionTimeZone = None, seriesTimeZone = None\<rparr>
       else if stepsInElapsedTime rule then \<lparr>expansionTimeZone = None, seriesTimeZone = timeZone\<rparr>
       else \<lparr>expansionTimeZone = timeZone, seriesTimeZone = timeZone\<rparr>))"

text \<open>The occurrences that are emitted; a slot is emitted once.\<close>

fun emit_occurrences :: "recurrence_lib \<Rightarrow> SyncableEvent \<Rightarrow> SeriesTimeZones \<Rightarrow> instant set
    \<Rightarrow> RecurrenceMaterializationWindow \<Rightarrow> instant set \<Rightarrow> instant list \<Rightarrow> materialize_error + MaterializedSyncableEvent list" where
  "emit_occurrences lib master zones withheld window emitted [] = Inr []"
| "emit_occurrences lib master zones withheld window emitted (wall # walls) =
    sum_bind (map_sum ZoneError id (fromRecurrenceWallTime (rlIntl lib) wall (expansionTimeZone zones))) (\<lambda>slot.
      if slot \<in> withheld \<or> slot \<in> emitted then emit_occurrences lib master zones withheld window emitted walls
      else sum_bind (createMaterializedOccurrence lib master slot (seriesTimeZone zones)) (\<lambda>occurrence.
        sum_bind (emit_occurrences lib master zones withheld window (insert slot emitted) walls) (\<lambda>rest.
          Inr (if overlapsWindow occurrence window then occurrence # rest else rest))))"

definition lookback :: "SyncableEvent \<Rightarrow> int" where
  "lookback master = (case recurrenceDuration master of None \<Rightarrow> endTime master - startTime master
    | Some duration \<Rightarrow> getIcsDurationNominalMilliseconds duration + MS_PER_DAY)"

definition expand_master :: "recurrence_lib \<Rightarrow> SyncableEvent \<Rightarrow> IcsRecurrenceRule \<Rightarrow> SeriesTimeZones \<Rightarrow> instant set
    \<Rightarrow> RecurrenceMaterializationWindow \<Rightarrow> materialize_error + MaterializedSyncableEvent list" where
  "expand_master lib master rule zones overriddenSlots window =
    (let intl = rlIntl lib; timeZone = expansionTimeZone zones;
         recurrenceStart = toRecurrenceWallTime intl (startTime master) timeZone;
         recurrenceEnd = toRecurrenceWallTime intl (mwEnd window) timeZone;
         recurrenceWindowStart = toRecurrenceWallTime intl (mwStart window - max (lookback master) 0) timeZone
     in if isSeriesExhaustedBeforeWindow intl rule recurrenceWindowStart timeZone then Inr []
        else sum_bind (assertUnfilteredHighFrequencyRuleWithinBudget intl master recurrenceStart recurrenceWindowStart
            recurrenceEnd timeZone) (\<lambda>_.
          sum_bind (toRRuleOptions intl rule recurrenceStart timeZone) (\<lambda>options.
          let occurrenceStarts = rlBetween lib options recurrenceWindowStart recurrenceEnd
          in if length occurrenceStarts > MAX_OCCURRENCES_PER_SERIES then Inl (OverBudget (limit_error master))
             else emit_occurrences lib master zones (set (or_else (exceptionDates master) []) \<union> overriddenSlots) window {}
               occurrenceStarts)))"

definition materializeMaster :: "recurrence_lib \<Rightarrow> SyncableEvent \<Rightarrow> instant set \<Rightarrow> RecurrenceMaterializationWindow
    \<Rightarrow> materialize_error + MaterializedSyncableEvent list" where
  "materializeMaster lib master overriddenSlots window =
    (case recurrenceRule master of None \<Rightarrow> Inr []
     | Some rule \<Rightarrow> if startTime master \<ge> mwEnd window then Inr []
         else sum_bind (resolveSeriesTimeZones (rlIntl lib) master rule) (\<lambda>zones.
           expand_master lib master rule zones overriddenSlots window))"

section \<open>All events of a window\<close>

record master_pass =
  mpEvents :: "MaterializedSyncableEvent list"
  mpSkippedUids :: "string set"
  mpErrors :: "RecurrenceMaterializationLimitError list"

definition pass_master :: "recurrence_lib \<Rightarrow> bool \<Rightarrow> (SyncableEvent, instant set) jsmap \<Rightarrow> RecurrenceMaterializationWindow
    \<Rightarrow> SyncableEvent \<Rightarrow> master_pass \<Rightarrow> materialize_error + master_pass" where
  "pass_master lib isolate slots window event p =
    (case materializeMaster lib event (or_else (map_of slots event) {}) window of
       Inr occurrences \<Rightarrow> Inr (p\<lparr>mpEvents := mpEvents p @ occurrences\<rparr>)
     | Inl (OverBudget e) \<Rightarrow> if \<not> isolate then Inl (OverBudget e)
         else Inr (p\<lparr>mpSkippedUids := insert (sourceEventUid event) (mpSkippedUids p), mpErrors := mpErrors p @ [e]\<rparr>)
     | Inl e \<Rightarrow> Inl e)"

fun pass_masters :: "recurrence_lib \<Rightarrow> bool \<Rightarrow> (SyncableEvent, instant set) jsmap \<Rightarrow> RecurrenceMaterializationWindow
    \<Rightarrow> SyncableEvent list \<Rightarrow> master_pass \<Rightarrow> materialize_error + master_pass" where
  "pass_masters lib isolate slots window [] p = Inr p"
| "pass_masters lib isolate slots window (event # events) p =
    (if \<not> is_master event then pass_masters lib isolate slots window events p
     else sum_bind (pass_master lib isolate slots window event p) (pass_masters lib isolate slots window events))"

definition one_off_events :: "string set \<Rightarrow> RecurrenceMaterializationWindow \<Rightarrow> SyncableEvent list \<Rightarrow> MaterializedSyncableEvent list" where
  "one_off_events skippedUids window events =
    filter (\<lambda>e. overlapsWindow e window) (map asOneOffEvent (filter (\<lambda>event. \<not> is_master event
      \<and> \<not> (recurrenceId event \<noteq> None \<and> sourceEventUid event \<in> skippedUids)) events))"

text \<open>\<open>isolate\<close>: whether \<open>onSeriesOverBudget\<close> is given; its calls are the second result.\<close>

definition materializeRecurrenceEvents :: "recurrence_lib \<Rightarrow> SyncableEvent list \<Rightarrow> RecurrenceMaterializationWindow \<Rightarrow> bool
    \<Rightarrow> SuppressedOverride list
    \<Rightarrow> materialize_error + MaterializedSyncableEvent list \<times> RecurrenceMaterializationLimitError list" where
  "materializeRecurrenceEvents lib events window isolate suppressedOverrides =
    sum_bind (assertValidWindow window) (\<lambda>_.
    let uniqueMasters = getUniqueMastersBySeries events;
        slots = getOverriddenSlotsByMaster (map suppressed_of events @ suppressedOverrides) uniqueMasters
    in sum_bind (pass_masters lib isolate slots window events \<lparr>mpEvents = [], mpSkippedUids = {}, mpErrors = []\<rparr>) (\<lambda>p.
      Inr (toSorted compareEvents (mpEvents p @ one_off_events (mpSkippedUids p) window events), mpErrors p)))"

section \<open>Series that ingestion withholds\<close>

definition source_master :: "recurrence_lib \<Rightarrow> string \<Rightarrow> SourceEvent \<Rightarrow> SyncableEvent" where
  "source_master lib calendarId event =
    \<lparr>startTime = startTime event, endTime = endTime event, isAllDay = None,
     evId = or_else (seSourceEventId event) (seUid event), evEventStateId = None, sourceEventUid = seUid event,
     availability = None, startTimeZone = (if str_truthy (seStartTimeZone event) then seStartTimeZone event else None),
     summary = or_else (seTitle event) [], description = None, location = None, isPrivate = None, remindersDisabled = None,
     evCalendarId = calendarId, calendarName = None, calendarUrl = None,
     recurrenceDuration = map_option (rlDuration lib) (seRecurrenceDuration event),
     recurrenceRule = map_option (rlRule lib) (seRecurrenceRule event), exceptionDates = None, recurrenceId = None\<rparr>"

fun exceeding_events :: "recurrence_lib \<Rightarrow> string \<Rightarrow> RecurrenceMaterializationWindow \<Rightarrow> SourceEvent list
    \<Rightarrow> materialize_error + SourceEvent list" where
  "exceeding_events lib calendarId window [] = Inr []"
| "exceeding_events lib calendarId window (event # events) =
    (let validationStart = (if startTime event > mwStart window then startTime event else mwStart window) in
     if seRecurrenceRule event = None \<or> seRecurrenceId event \<noteq> None \<or> validationStart \<ge> mwEnd window
     then exceeding_events lib calendarId window events
     else (case materializeMaster lib (source_master lib calendarId event) {}
         \<lparr>mwStart = validationStart, mwEnd = mwEnd window\<rparr> of
         Inr _ \<Rightarrow> exceeding_events lib calendarId window events
       | Inl (OverBudget _) \<Rightarrow> sum_bind (exceeding_events lib calendarId window events) (\<lambda>rest. Inr (event # rest))
       | Inl e \<Rightarrow> Inl e))"

definition findSourceEventsExceedingRecurrenceBudget :: "recurrence_lib \<Rightarrow> string \<Rightarrow> SourceEvent list
    \<Rightarrow> RecurrenceMaterializationWindow \<Rightarrow> materialize_error + SourceEvent list" where
  "findSourceEventsExceedingRecurrenceBudget lib calendarId events window =
    sum_bind (assertValidWindow window) (\<lambda>_. exceeding_events lib calendarId window events)"

end
