(* ===== verification/Event_Read.thy ===== *)
theory Event_Read
  imports Materialize "HOL-Library.Sublist"
begin

text \<open>
  What a destination reads: \<open>getEventsForCalendarsWithDiagnostics\<close> of \<open>core/events/events.ts\<close>, from the
  rows of the joined query through the sync policy of each source calendar and the parse of the stored
  recurrence to the materialized events of a window, with the counts the run reports. Case mapping of
  titles (\<open>toLowerCase\<close>) is a parameter, and so are the texts of the properties that the object of the
  template variables inherits (a token may name one of them).
\<close>

section \<open>Rows\<close>

text \<open>The columns of the source calendar that decide what is mirrored and how.\<close>

record source_policy =
  spCalendarId :: string
  spName :: string
  spUrl :: "string option"
  spCustomEventName :: string
  spExcludeAllDayEvents :: bool
  spExcludeAvailabilities :: "string list"
  spExcludeEventDescription :: bool
  spExcludeEventLocation :: bool
  spExcludeEventName :: bool
  spExcludeFocusTime :: bool
  spExcludeOutOfOffice :: bool
  spExcludeTitleKeywords :: "string list"
  spMarkEventsAsPrivate :: bool
  spDisableEventReminders :: bool

record event_row =
  erState :: StoredSourceEventState
  erCalendar :: source_policy

record event_read_lib =
  elRecurrence :: recurrence_lib
  elCodec :: stored_codec
  elLower :: "string \<Rightarrow> string"
  elInherited :: "string \<Rightarrow> string option"

datatype event_read_error = StoredRecurrenceError string | MaterializeError materialize_error

record DestinationEventReadDiagnostics =
  dgCandidate :: nat
  dgEmptyTimeRange :: nat
  dgExcludedBySyncPolicy :: nat
  dgInvertedTimeRange :: nat
  dgMaterialized :: nat
  dgMissingSourceEventUid :: nat
  dgOutsideReconciliationWindow :: nat
  dgOverBudgetSourceEventStateIds :: "string list"
  dgOverBudgetSourceEventUids :: "string list"
  dgSyncable :: nat

definition EMPTY_DESTINATION_EVENT_READ_DIAGNOSTICS :: DestinationEventReadDiagnostics where
  "EMPTY_DESTINATION_EVENT_READ_DIAGNOSTICS = \<lparr>dgCandidate = 0, dgEmptyTimeRange = 0, dgExcludedBySyncPolicy = 0,
    dgInvertedTimeRange = 0, dgMaterialized = 0, dgMissingSourceEventUid = 0, dgOutsideReconciliationWindow = 0,
    dgOverBudgetSourceEventStateIds = [], dgOverBudgetSourceEventUids = [], dgSyncable = 0\<rparr>"

section \<open>The sync policy\<close>

definition isEventInDestinationReconciliationWindow :: "instant \<Rightarrow> instant \<Rightarrow> instant \<Rightarrow> bool" where
  "isEventInDestinationReconciliationWindow st et tmin = (resolveTimeRangeEnd st et \<ge> tmin)"

definition excludeOrAbsent :: "bool \<Rightarrow> 'a option \<Rightarrow> 'a option" where
  "excludeOrAbsent exclude v = (if exclude then None else v)"

definition trueOrAbsent :: "bool \<Rightarrow> bool option" where
  "trueOrAbsent v = (if \<not> v then None else Some True)"

definition parseAvailability :: "string option \<Rightarrow> EventAvailability option" where
  "parseAvailability value =
    (if value = Some ''busy'' then Some Busy else if value = Some ''free'' then Some Free
     else if value = Some ''oof'' then Some Oof else if value = Some ''workingElsewhere'' then Some WorkingElsewhere
     else None)"

definition parseSourceEventType :: "string option \<Rightarrow> string option \<Rightarrow> string" where
  "parseSourceEventType value avail =
    (case value of
       Some v \<Rightarrow> if v \<in> {''focusTime'', ''outOfOffice'', ''tentative'', ''workingLocation''} then v
         else if avail = Some ''workingElsewhere'' then ''workingLocation''
         else if avail = Some ''oof'' then ''outOfOffice'' else ''default''
     | None \<Rightarrow> if avail = Some ''workingElsewhere'' then ''workingLocation''
         else if avail = Some ''oof'' then ''outOfOffice'' else ''default'')"

definition isExcludedAvailability :: "string list \<Rightarrow> string \<Rightarrow> string option \<Rightarrow> bool" where
  "isExcludedAvailability excludeAvailabilities sourceEventType avail =
    (let resolved = availability_name (or_else (parseAvailability avail) Busy) in
     if sourceEventType \<noteq> ''tentative'' then resolved \<in> set excludeAvailabilities
     else if ''tentative'' \<in> set excludeAvailabilities then True
     else resolved = ''free'' \<and> ''free'' \<in> set excludeAvailabilities)"

definition titleContainsKeyword :: "(string \<Rightarrow> string) \<Rightarrow> string option \<Rightarrow> string list \<Rightarrow> bool" where
  "titleContainsKeyword lower title lowercasedKeywords =
    (if \<not> str_truthy title \<or> lowercasedKeywords = [] then False
     else list_ex (\<lambda>keyword. sublist keyword (lower (or_else title []))) lowercasedKeywords)"

definition matchesSyncExclusion :: "(string \<Rightarrow> string) \<Rightarrow> event_row \<Rightarrow> string list \<Rightarrow> bool" where
  "matchesSyncExclusion lower row lowercasedTitleKeywords =
    (let s = erState row; c = erCalendar row;
         sourceEventType = parseSourceEventType (stSourceEventType s) (stAvailability s)
     in if sourceEventType = ''workingLocation'' then True
        else if spExcludeAllDayEvents c \<and> stIsAllDay s = Some True then True
        else if spExcludeFocusTime c \<and> sourceEventType = ''focusTime'' then True
        else if spExcludeOutOfOffice c \<and> sourceEventType = ''outOfOffice'' then True
        else if isExcludedAvailability (spExcludeAvailabilities c) sourceEventType (stAvailability s) then True
        else titleContainsKeyword lower (stTitle s) lowercasedTitleKeywords)"

definition shouldExcludeSyncEvent :: "(string \<Rightarrow> string) \<Rightarrow> event_row \<Rightarrow> bool" where
  "shouldExcludeSyncEvent lower row =
    matchesSyncExclusion lower row (map lower (spExcludeTitleKeywords (erCalendar row)))"

section \<open>Names from a template\<close>

text \<open>The pattern of a token is two opening braces, a run of word characters, and two closing braces.\<close>

definition word_char :: "char \<Rightarrow> bool" where
  "word_char c = (let n = of_char c :: nat in 48 \<le> n \<and> n \<le> 57 \<or> 65 \<le> n \<and> n \<le> 90 \<or> n = 95 \<or> 97 \<le> n \<and> n \<le> 122)"

definition read_token :: "string \<Rightarrow> (string \<times> string) option" where
  "read_token text =
    (case text of
       b1 # b2 # body \<Rightarrow>
         if b1 = CHR ''{'' \<and> b2 = CHR ''{'' then
           (let name = takeWhile word_char body in
            case dropWhile word_char body of
              e1 # e2 # rest \<Rightarrow> if name \<noteq> [] \<and> e1 = CHR ''}'' \<and> e2 = CHR ''}'' then Some (name, rest) else None
            | _ \<Rightarrow> None)
         else None
     | _ \<Rightarrow> None)"

lemma read_token_shorter: "read_token text = Some (name, rest) \<Longrightarrow> length rest < length text"
proof -
  assume r: "read_token text = Some (name, rest)"
  then obtain b1 b2 body where t: "text = b1 # b2 # body" by (auto simp: read_token_def split: list.splits)
  then obtain e1 e2 where "dropWhile word_char body = e1 # e2 # rest"
    using r by (auto simp: read_token_def Let_def split: list.splits if_splits)
  then have "length rest < length (dropWhile word_char body)" by simp
  also have "\<dots> \<le> length body" by (rule length_dropWhile_le)
  finally show ?thesis by (simp add: t)
qed

function replace_tokens :: "(string \<Rightarrow> string option) \<Rightarrow> string \<Rightarrow> string" where
  "replace_tokens vars text =
    (case read_token text of
       Some (name, rest) \<Rightarrow> or_else (vars name) (''{{'' @ name @ ''}}'') @ replace_tokens vars rest
     | None \<Rightarrow> (case text of [] \<Rightarrow> [] | c # cs \<Rightarrow> c # replace_tokens vars cs))"
  by pat_completeness auto
termination
  by (relation "measure (\<lambda>(vars, text). length text)") (auto dest: read_token_shorter)

declare replace_tokens.simps [simp del]

definition DEFAULT_EVENT_NAME :: string where
  "DEFAULT_EVENT_NAME = ''Busy''"

definition DEFAULT_EVENT_NAME_TEMPLATE :: string where
  "DEFAULT_EVENT_NAME_TEMPLATE = ''{{calendar_name}}''"

definition resolveEventNameTemplate :: "(string \<Rightarrow> string option) \<Rightarrow> string \<Rightarrow> string \<Rightarrow> string \<Rightarrow> string" where
  "resolveEventNameTemplate inherited template calendar_name event_name =
    (let resolved = js_trim (replace_tokens
           (inherited(''calendar_name'' \<mapsto> calendar_name, ''event_name'' \<mapsto> event_name)) template)
     in if resolved \<noteq> [] then resolved else if calendar_name \<noteq> [] then calendar_name else DEFAULT_EVENT_NAME)"

section \<open>From a row to an event\<close>

definition resolve_summary :: "(string \<Rightarrow> string option) \<Rightarrow> event_row \<Rightarrow> string" where
  "resolve_summary inherited row =
    (let c = erCalendar row; eventName = or_else (stTitle (erState row)) DEFAULT_EVENT_NAME;
         template = (if spCustomEventName c \<noteq> [] then spCustomEventName c else DEFAULT_EVENT_NAME_TEMPLATE)
     in if spExcludeEventName c then resolveEventNameTemplate inherited template (spName c) eventName else eventName)"

definition structured_dates :: "structured list \<Rightarrow> instant list" where
  "structured_dates vs = List.map_filter (\<lambda>v. case v of SDate t \<Rightarrow> Some t | _ \<Rightarrow> None) vs"

definition syncable_event :: "event_read_lib \<Rightarrow> event_row \<Rightarrow> string \<Rightarrow> MaterializedRecurrenceFields \<Rightarrow> SyncableEvent" where
  "syncable_event lib row sourceUid recurrence =
    (let s = erState row; c = erCalendar row in
     \<lparr>startTime = startTime s, endTime = endTime s, isAllDay = stIsAllDay s, evId = stId s, evEventStateId = Some (stId s),
      sourceEventUid = sourceUid, availability = parseAvailability (stAvailability s), startTimeZone = stStartTimeZone s,
      summary = resolve_summary (elInherited lib) row, description = excludeOrAbsent (spExcludeEventDescription c) (stDescription s),
      location = excludeOrAbsent (spExcludeEventLocation c) (stLocation s),
      isPrivate = trueOrAbsent (spMarkEventsAsPrivate c), remindersDisabled = trueOrAbsent (spDisableEventReminders c),
      evCalendarId = spCalendarId c, calendarName = Some (spName c), calendarUrl = spUrl c,
      recurrenceDuration = map_option (rlDuration (elRecurrence lib)) (mrRecurrenceDuration recurrence),
      recurrenceRule = map_option (rlRule (elRecurrence lib)) (mrRecurrenceRule recurrence),
      exceptionDates = map_option structured_dates (mrExceptionDates recurrence),
      recurrenceId = mrRecurrenceId recurrence\<rparr>)"

record read_pass =
  rpSyncable :: "SyncableEvent list"
  rpExcludedOverrides :: "SuppressedOverride list"
  rpExcluded :: nat
  rpMissingUid :: nat
  rpOutside :: nat

definition pass_row :: "event_read_lib \<Rightarrow> SyncWindow \<Rightarrow> event_row \<Rightarrow> read_pass \<Rightarrow> event_read_error + read_pass" where
  "pass_row lib window row p =
    (let s = erState row in
     case stSourceEventUid s of
       None \<Rightarrow> Inr (p\<lparr>rpMissingUid := rpMissingUid p + 1\<rparr>)
     | Some sourceUid \<Rightarrow>
         if shouldExcludeSyncEvent (elLower lib) row
         then Inr (p\<lparr>rpExcluded := rpExcluded p + 1, rpExcludedOverrides := rpExcludedOverrides p @
           (if stRecurrenceId s \<noteq> None
            then [\<lparr>soCalendarId = spCalendarId (erCalendar row), soRecurrenceId = stRecurrenceId s, soSourceEventUid = sourceUid\<rparr>]
            else [])\<rparr>)
         else sum_bind (map_sum StoredRecurrenceError id
             (parseStoredRecurrenceForMaterialization (elCodec lib) (stId s) (stExceptionDates s) (stRecurrenceId s)
               (stRecurrenceRule s))) (\<lambda>recurrence.
           if \<not> isEventInDestinationReconciliationWindow (startTime s) (endTime s) (timeMin window)
              \<and> mrRecurrenceId recurrence = None \<and> mrRecurrenceRule recurrence = None
           then Inr (p\<lparr>rpOutside := rpOutside p + 1\<rparr>)
           else Inr (p\<lparr>rpSyncable := rpSyncable p @ [syncable_event lib row sourceUid recurrence]\<rparr>)))"

fun pass_rows :: "event_read_lib \<Rightarrow> SyncWindow \<Rightarrow> event_row list \<Rightarrow> read_pass \<Rightarrow> event_read_error + read_pass" where
  "pass_rows lib window [] p = Inr p"
| "pass_rows lib window (row # rows) p = sum_bind (pass_row lib window row p) (pass_rows lib window rows)"

text \<open>The rows of the query: those of the calendars that can matter to the window, by their start.\<close>

definition query_rows :: "event_row list \<Rightarrow> string list \<Rightarrow> SyncWindow \<Rightarrow> event_row list" where
  "query_rows table calendarIds window =
    toSorted (compare_by (\<lambda>row. startTime (erState row))) (filter (\<lambda>row.
      spCalendarId (erCalendar row) \<in> set calendarIds
      \<and> (endTime (erState row) \<ge> timeMin window \<or> startTime (erState row) \<ge> timeMin window
         \<or> stRecurrenceRule (erState row) \<noteq> None \<or> stRecurrenceId (erState row) \<noteq> None)) table)"

definition getEventsForCalendarsWithDiagnostics :: "event_read_lib \<Rightarrow> event_row list \<Rightarrow> string list \<Rightarrow> SyncWindow
    \<Rightarrow> event_read_error + DestinationEventReadDiagnostics \<times> MaterializedSyncableEvent list" where
  "getEventsForCalendarsWithDiagnostics lib table calendarIds window =
    (if calendarIds = [] then Inr (EMPTY_DESTINATION_EVENT_READ_DIAGNOSTICS, [])
     else let results = query_rows table calendarIds window in
       sum_bind (pass_rows lib window results
         \<lparr>rpSyncable = [], rpExcludedOverrides = [], rpExcluded = 0, rpMissingUid = 0, rpOutside = 0\<rparr>) (\<lambda>p.
       sum_bind (map_sum MaterializeError id (materializeRecurrenceEvents (elRecurrence lib) (rpSyncable p)
           \<lparr>mwStart = timeMin window, mwEnd = timeMax window\<rparr> True (rpExcludedOverrides p))) (\<lambda>(events, errors).
         Inr (\<lparr>dgCandidate = length results,
           dgEmptyTimeRange = length (filter (\<lambda>e. isEmptyTimeRange (startTime e) (endTime e)) events),
           dgExcludedBySyncPolicy = rpExcluded p,
           dgInvertedTimeRange = length (filter (\<lambda>e. isInvertedTimeRange (startTime e) (endTime e)) events),
           dgMaterialized = length events, dgMissingSourceEventUid = rpMissingUid p,
           dgOutsideReconciliationWindow = rpOutside p,
           dgOverBudgetSourceEventStateIds = map (\<lambda>e. or_else (leEventStateId e) (leEventId e)) errors,
           dgOverBudgetSourceEventUids = map leSourceEventUid errors, dgSyncable = length (rpSyncable p)\<rparr>, events))))"

definition getEventsForDestination :: "event_read_lib \<Rightarrow> event_row list \<Rightarrow> string list \<Rightarrow> SyncWindow
    \<Rightarrow> event_read_error + MaterializedSyncableEvent list" where
  "getEventsForDestination lib table sourceCalendarIds window =
    (if sourceCalendarIds = [] then Inr []
     else map_sum id snd (getEventsForCalendarsWithDiagnostics lib table sourceCalendarIds window))"

end
