(* ===== verification/Materialize_Correct.thy ===== *)
theory Materialize_Correct
  imports Materialize Reconcile
begin

text \<open>
  What materializing promises: within the budget, exactly the occurrences of the series that are not
  excluded or overridden and overlap the window, each once; and a series over the budget takes nothing
  with it but events of its own UID.
\<close>

section \<open>The expansion of a rule\<close>

text \<open>
  \<open>series\<close> is the set of wall times a rule describes, whatever the window: from the start on and not
  past its end. The library lists those between two bounds.
\<close>

definition rrule_expands :: "recurrence_lib \<Rightarrow> (rrule_options \<Rightarrow> instant set) \<Rightarrow> bool" where
  "rrule_expands lib series \<longleftrightarrow> (\<forall>options a b. set (rlBetween lib options a b) = {x \<in> series options. a \<le> x \<and> x \<le> b})
    \<and> (\<forall>options. \<forall>x \<in> series options. roDtstart options \<le> x \<and> (\<forall>u. roUntil options = Some u \<longrightarrow> x \<le> u))"

text \<open>The clock of the series' zone, as far as the bounds of a window need it: no occurrence is before the start
  of the series, and what is not later than an occurrence has no later wall time, and conversely.\<close>

definition clock_keeps_order :: "recurrence_lib \<Rightarrow> string option \<Rightarrow> instant \<Rightarrow> instant set \<Rightarrow> bool" where
  "clock_keeps_order lib timeZone start walls \<longleftrightarrow> (\<forall>wall \<in> walls. \<forall>slot.
    fromRecurrenceWallTime (rlIntl lib) wall timeZone = Inr slot \<longrightarrow>
      start \<le> slot \<and> (\<forall>t \<le> slot. toRecurrenceWallTime (rlIntl lib) t timeZone \<le> wall)
      \<and> (\<forall>t \<ge> slot. wall \<le> toRecurrenceWallTime (rlIntl lib) t timeZone))"

lemma clock_without_zone: "(\<And>wall. wall \<in> walls \<Longrightarrow> start \<le> wall) \<Longrightarrow> clock_keeps_order lib None start walls"
  by (simp add: clock_keeps_order_def fromRecurrenceWallTime_def toRecurrenceWallTime_def)

text \<open>No occurrence outlasts the time the window looks back.\<close>

definition ends_within_lookback :: "recurrence_lib \<Rightarrow> SyncableEvent \<Rightarrow> string option \<Rightarrow> bool" where
  "ends_within_lookback lib master timeZone \<longleftrightarrow> (\<forall>slot e.
    resolveOccurrenceEnd (rlIntl lib) master slot timeZone = Inr e \<longrightarrow> e - slot \<le> max (lookback master) 0)"

lemma exact_durations_are_looked_back: "recurrenceDuration master = None \<Longrightarrow> ends_within_lookback lib master timeZone"
  by (simp add: ends_within_lookback_def resolveOccurrenceEnd_def lookback_def)

section \<open>One series\<close>

definition occurrence_of :: "recurrence_lib \<Rightarrow> SyncableEvent \<Rightarrow> SeriesTimeZones \<Rightarrow> instant set
    \<Rightarrow> RecurrenceMaterializationWindow \<Rightarrow> instant set \<Rightarrow> MaterializedSyncableEvent \<Rightarrow> bool" where
  "occurrence_of lib master zones withheld window walls occ \<longleftrightarrow> (\<exists>wall \<in> walls. \<exists>slot.
    fromRecurrenceWallTime (rlIntl lib) wall (expansionTimeZone zones) = Inr slot \<and> slot \<notin> withheld
    \<and> createMaterializedOccurrence lib master slot (seriesTimeZone zones) = Inr occ \<and> overlapsWindow occ window)"

lemma created_start: "createMaterializedOccurrence lib master slot tz = Inr occ \<Longrightarrow> startTime occ = slot"
  by (auto simp: createMaterializedOccurrence_def sum_bind_eq_Inr)

lemma emit_occurrences_Inr:
  assumes "emit_occurrences lib master zones withheld window emitted walls = Inr occs"
  shows "distinct (map startTime occs) \<and> startTime ` set occs \<inter> emitted = {}
    \<and> (\<forall>occ. occ \<in> set occs \<longleftrightarrow> occurrence_of lib master zones (withheld \<union> emitted) window (set walls) occ)"
  using assms
proof (induction walls arbitrary: emitted occs)
  case Nil
  then show ?case by (simp add: occurrence_of_def)
next
  case (Cons wall walls)
  obtain slot where slot: "fromRecurrenceWallTime (rlIntl lib) wall (expansionTimeZone zones) = Inr slot"
    using Cons.prems by (auto simp: sum_bind_eq_Inr map_sum_def split: sum.splits)
  have here: "occurrence_of lib master zones W window (set (wall # walls)) occ \<longleftrightarrow>
      slot \<notin> W \<and> createMaterializedOccurrence lib master slot (seriesTimeZone zones) = Inr occ \<and> overlapsWindow occ window
      \<or> occurrence_of lib master zones W window (set walls) occ" for W occ
    using slot by (auto simp: occurrence_of_def)
  show ?case
  proof (cases "slot \<in> withheld \<or> slot \<in> emitted")
    case True
    then have "emit_occurrences lib master zones withheld window emitted walls = Inr occs"
      using Cons.prems slot by simp
    from Cons.IH [OF this] True here show ?thesis by auto
  next
    case False
    obtain occ rest where created: "createMaterializedOccurrence lib master slot (seriesTimeZone zones) = Inr occ"
      and rest: "emit_occurrences lib master zones withheld window (insert slot emitted) walls = Inr rest"
      and occs: "occs = (if overlapsWindow occ window then occ # rest else rest)"
      using Cons.prems slot False by (auto simp: sum_bind_eq_Inr split: if_splits)
    note ih = Cons.IH [OF rest] and start = created_start [OF created]
    have "occurrence_of lib master zones (withheld \<union> emitted) window (set walls) o' \<longleftrightarrow>
        occurrence_of lib master zones (withheld \<union> insert slot emitted) window (set walls) o'
        \<or> o' = occ \<and> overlapsWindow occ window \<and> (\<exists>w \<in> set walls. fromRecurrenceWallTime (rlIntl lib) w (expansionTimeZone zones) = Inr slot)"
      for o'
    proof (cases "o' = occ")
      case True
      then show ?thesis unfolding occurrence_of_def using False created by blast
    next
      case other: False
      then have "createMaterializedOccurrence lib master slot (seriesTimeZone zones) \<noteq> Inr o'" using created by simp
      then show ?thesis unfolding occurrence_of_def using other by blast
    qed
    then show ?thesis
      using ih start False created here unfolding occs by auto
  qed
qed

lemma options_fields:
  assumes "toRRuleOptions intl rule start tz = Inr options"
  shows "roDtstart options = start" "roUntil options = map_option (\<lambda>u. toRecurrenceWallTime intl u tz) (rrUntil rule)"
  using assms by (auto simp: toRRuleOptions_def sum_bind_eq_Inr)

lemma overlap_bounds:
  assumes "overlapsWindow occ window" "startTime occ = slot" "endTime occ - slot \<le> d" "0 \<le> d"
  shows "mwStart window - d \<le> slot \<and> slot < mwEnd window"
  using assms by (auto simp: overlapsWindow_def overlapsTimeWindow_def split: if_splits)

lemma expansion_covers:
  assumes law: "rrule_expands lib series" and options: "toRRuleOptions (rlIntl lib) rule (toRecurrenceWallTime (rlIntl lib) (startTime master) tz) tz = Inr options"
    and clock: "clock_keeps_order lib tz (startTime master) (series options)"
    and wall: "wall \<in> series options" and slot: "fromRecurrenceWallTime (rlIntl lib) wall tz = Inr slot"
    and bounds: "mwStart window - d \<le> slot" "slot < mwEnd window"
  shows "wall \<in> set (rlBetween lib options (toRecurrenceWallTime (rlIntl lib) (mwStart window - d) tz)
      (toRecurrenceWallTime (rlIntl lib) (mwEnd window) tz))"
    and "\<not> isSeriesExhaustedBeforeWindow (rlIntl lib) rule (toRecurrenceWallTime (rlIntl lib) (mwStart window - d) tz) tz"
    and "startTime master < mwEnd window"
proof -
  have c: "startTime master \<le> slot" "toRecurrenceWallTime (rlIntl lib) (mwStart window - d) tz \<le> wall"
    "wall \<le> toRecurrenceWallTime (rlIntl lib) (mwEnd window) tz"
    using clock wall slot bounds unfolding clock_keeps_order_def by auto
  then show "wall \<in> set (rlBetween lib options (toRecurrenceWallTime (rlIntl lib) (mwStart window - d) tz)
      (toRecurrenceWallTime (rlIntl lib) (mwEnd window) tz))" and "startTime master < mwEnd window"
    using law wall bounds by (auto simp: rrule_expands_def)
  have "wall \<le> u" if "roUntil options = Some u" for u
    using law wall that by (auto simp: rrule_expands_def)
  then show "\<not> isSeriesExhaustedBeforeWindow (rlIntl lib) rule (toRecurrenceWallTime (rlIntl lib) (mwStart window - d) tz) tz"
    using c(2) options_fields(2) [OF options] by (force simp: isSeriesExhaustedBeforeWindow_def split: option.splits)
qed

text \<open>C15: A series is materialized completely and soundly. If materializing a series over a window returns, the
  events are exactly the occurrences of the whole series, not just of the part that was expanded, that are neither
  excluded nor overridden and overlap the window, and no two of them start at the same time. The expansion is the
  library's; the clock must keep the order of the occurrences and the bounds, and an occurrence must not outlast
  the time looked back, which holds for exact durations.\<close>

theorem materialized_series_is_complete:
  assumes law: "rrule_expands lib series"
    and rule: "recurrenceRule master = Some rule"
    and zones: "resolveSeriesTimeZones (rlIntl lib) master rule = Inr zones"
    and options: "toRRuleOptions (rlIntl lib) rule
      (toRecurrenceWallTime (rlIntl lib) (startTime master) (expansionTimeZone zones)) (expansionTimeZone zones) = Inr options"
    and clock: "clock_keeps_order lib (expansionTimeZone zones) (startTime master) (series options)"
    and ends: "ends_within_lookback lib master (seriesTimeZone zones)"
    and run: "materializeMaster lib master overridden window = Inr occs"
  shows "distinct (map startTime occs) \<and> (\<forall>occ. occ \<in> set occs \<longleftrightarrow>
    occurrence_of lib master zones (set (or_else (exceptionDates master) []) \<union> overridden) window (series options) occ)"
proof -
  let ?tz = "expansionTimeZone zones" and ?W = "set (or_else (exceptionDates master) []) \<union> overridden"
  let ?d = "max (lookback master) 0"
  let ?lo = "toRecurrenceWallTime (rlIntl lib) (mwStart window - ?d) ?tz" and ?hi = "toRecurrenceWallTime (rlIntl lib) (mwEnd window) ?tz"
  let ?walls = "rlBetween lib options ?lo ?hi"
  have covered: "wall \<in> set ?walls \<and> \<not> isSeriesExhaustedBeforeWindow (rlIntl lib) rule ?lo ?tz \<and> startTime master < mwEnd window"
    if "wall \<in> series options" "fromRecurrenceWallTime (rlIntl lib) wall ?tz = Inr slot"
      "createMaterializedOccurrence lib master slot (seriesTimeZone zones) = Inr occ" "overlapsWindow occ window" for wall slot occ
  proof -
    have "resolveOccurrenceEnd (rlIntl lib) master slot (seriesTimeZone zones) = Inr (endTime occ)"
      using that(3) by (auto simp: createMaterializedOccurrence_def sum_bind_eq_Inr)
    then have "endTime occ - slot \<le> ?d" using ends by (simp add: ends_within_lookback_def)
    from overlap_bounds [OF that(4) created_start [OF that(3)] this] have "mwStart window - ?d \<le> slot" "slot < mwEnd window" by auto
    from expansion_covers [OF law options clock that(1,2) this] show ?thesis by blast
  qed
  have sub: "set ?walls \<subseteq> series options" using law by (auto simp: rrule_expands_def)
  show ?thesis
  proof (cases "startTime master \<ge> mwEnd window \<or> isSeriesExhaustedBeforeWindow (rlIntl lib) rule ?lo ?tz")
    case True
    then have "occs = []" using run zones
      by (auto simp: materializeMaster_def rule expand_master_def Let_def split: if_splits)
    moreover have "\<not> occurrence_of lib master zones ?W window (series options) occ" for occ
      using covered True by (fastforce simp: occurrence_of_def)
    ultimately show ?thesis by simp
  next
    case False
    then have "emit_occurrences lib master zones ?W window {} ?walls = Inr occs"
      using run zones options
      by (auto simp: materializeMaster_def rule expand_master_def Let_def sum_bind_eq_Inr split: if_splits)
    from emit_occurrences_Inr [OF this] have "distinct (map startTime occs)"
      "\<And>occ. occ \<in> set occs \<longleftrightarrow> occurrence_of lib master zones ?W window (set ?walls) occ" by simp_all
    moreover have "occurrence_of lib master zones ?W window (set ?walls) occ \<longleftrightarrow>
        occurrence_of lib master zones ?W window (series options) occ" for occ
      using covered sub by (fastforce simp: occurrence_of_def)
    ultimately show ?thesis by simp
  qed
qed

section \<open>Where materialized events come from\<close>

text \<open>An event of the result has the content of one of the input.\<close>

definition content_of :: "SyncableEvent \<Rightarrow> MaterializedSyncableEvent \<Rightarrow> bool" where
  "content_of ev e \<longleftrightarrow> sourceEventUid e = sourceEventUid ev \<and> evCalendarId e = evCalendarId ev \<and> summary e = summary ev
    \<and> description e = description ev \<and> location e = location ev \<and> isPrivate e = isPrivate ev
    \<and> remindersDisabled e = remindersDisabled ev \<and> availability e = availability ev"

lemma content_of_one_off: "content_of ev (asOneOffEvent ev)"
  by (simp add: content_of_def asOneOffEvent_def MaterializedSyncableEvent.truncate_def)

lemma content_of_created: "createMaterializedOccurrence lib m slot tz = Inr e \<Longrightarrow> content_of m e"
  using content_of_one_off [of m] by (auto simp: createMaterializedOccurrence_def sum_bind_eq_Inr content_of_def)

lemma emit_content:
  "emit_occurrences lib m zones W window E walls = Inr occs \<Longrightarrow> e \<in> set occs \<Longrightarrow> content_of m e \<and> overlapsWindow e window"
  using emit_occurrences_Inr [of lib m zones W window E walls occs] by (auto simp: occurrence_of_def dest: content_of_created)

lemma materializeMaster_content:
  assumes "materializeMaster lib m slots window = Inr occs" "e \<in> set occs"
  shows "content_of m e \<and> overlapsWindow e window"
  using assms emit_content
  by (auto simp: materializeMaster_def expand_master_def Let_def sum_bind_eq_Inr split: option.splits if_splits)

lemma materializeMaster_error:
  assumes "materializeMaster lib m slots window = Inl (OverBudget e)"
  shows "e = limit_error m"
proof -
  have emit: "emit_occurrences lib m zones W window E walls \<noteq> Inl (OverBudget e)" for zones W E walls
  proof (induction walls arbitrary: E)
    case (Cons wall walls)
    then show ?case
      by (auto simp: sum_bind_eq_Inl createMaterializedOccurrence_def resolveOccurrenceEnd_def map_sum_def
          split: sum.splits option.splits if_splits)
  qed simp
  have days: "rrule_weekdays ds \<noteq> Inl (OverBudget e)" for ds
    by (induction ds rule: rrule_weekdays.induct) (auto simp: sum_bind_eq_Inl split: option.splits)
  have options: "toRRuleOptions intl rule st tz \<noteq> Inl (OverBudget e)" for intl rule st tz
    using days by (auto simp: toRRuleOptions_def sum_bind_eq_Inl split: option.splits)
  show ?thesis
    using assms emit options
    by (auto simp: materializeMaster_def expand_master_def Let_def sum_bind_eq_Inl resolveSeriesTimeZones_def map_sum_def
        assertUnfilteredHighFrequencyRuleWithinBudget_def split: option.splits if_splits sum.splits)
qed

section \<open>Series and their overrides\<close>

lemma series_key_inj: "series_key c u = series_key c' u' \<longleftrightarrow> c = c' \<and> u = u'"
proof
  assume "series_key c u = series_key c' u'"
  then have "json_quote c @ '','' @ json_quote u @ '']'' = json_quote c' @ '','' @ json_quote u' @ '']''"
    by (simp add: series_key_def intercalate_def)
  from this [THEN json_quote_append_inj] show "c = c' \<and> u = u'"
    using json_quote_append_inj [of u "'']''" u' "'']''"] by auto
qed simp

lemma map_of_singletons:
  "distinct (map fst groups) \<Longrightarrow>
    map_of (concat (map (\<lambda>(key, masters). case masters of [m] \<Rightarrow> [(key, m)] | _ \<Rightarrow> []) groups)) key =
      (case map_of groups key of Some [m] \<Rightarrow> Some m | _ \<Rightarrow> None)"
proof (induction groups)
  case (Cons g groups)
  obtain k ms where g: "g = (k, ms)" by (cases g)
  have "map_of groups k = None" using Cons.prems g by (auto simp: map_of_eq_None_iff)
  with Cons show ?case by (auto simp: g map_add_def split: list.splits option.splits)
qed simp

lemma unique_master_iff:
  "map_of (getUniqueMastersBySeries events) key = Some m \<longleftrightarrow> filter (\<lambda>e. is_master e \<and> getSeriesKey e = key) events = [m]"
proof -
  let ?G = "fold (\<lambda>event acc. group_push (getSeriesKey event) event acc) (filter is_master events) []"
  have "or_else (map_of ?G key) [] = filter (\<lambda>e. getSeriesKey e = key) (filter is_master events)"
    by (simp add: map_of_fold_group_push)
  moreover have "distinct (map fst ?G)" by (rule distinct_fold_group_push) simp
  moreover have "filter (\<lambda>e. getSeriesKey e = key) (filter is_master events) =
      filter (\<lambda>e. is_master e \<and> getSeriesKey e = key) events"
    by (simp add: conj_commute)
  ultimately show ?thesis
    by (cases "map_of ?G key") (auto simp: getUniqueMastersBySeries_def Let_def map_of_singletons split: list.splits)
qed

lemma unique_master_key: "map_of (getUniqueMastersBySeries events) key = Some m \<Longrightarrow> getSeriesKey m = key"
proof -
  assume "map_of (getUniqueMastersBySeries events) key = Some m"
  then have "m \<in> set (filter (\<lambda>e. is_master e \<and> getSeriesKey e = key) events)" by (simp add: unique_master_iff)
  then show ?thesis by simp
qed

definition overrides :: "(string, SyncableEvent) jsmap \<Rightarrow> SyncableEvent \<Rightarrow> SuppressedOverride \<Rightarrow> instant \<Rightarrow> bool" where
  "overrides um m e slot \<longleftrightarrow> soRecurrenceId e = Some slot
    \<and> map_of um (series_key (soCalendarId e) (soSourceEventUid e)) = Some m"

lemma overridden_slots:
  "or_else (map_of (getOverriddenSlotsByMaster events um) m) {} = {slot. \<exists>e \<in> set events. overrides um m e slot}"
proof -
  let ?f = "\<lambda>event slots. case soRecurrenceId event of None \<Rightarrow> slots
      | Some slot \<Rightarrow> (case map_of um (series_key (soCalendarId event) (soSourceEventUid event)) of
          None \<Rightarrow> slots | Some master \<Rightarrow> add_slot master slot slots)"
  have "or_else (map_of (fold ?f events slots) m) {} =
      or_else (map_of slots m) {} \<union> {slot. \<exists>e \<in> set events. overrides um m e slot}" for slots
  proof (induction events arbitrary: slots)
    case (Cons e events)
    have "or_else (map_of (?f e slots) m) {} = or_else (map_of slots m) {} \<union> {slot. overrides um m e slot}"
      by (auto simp: overrides_def add_slot_def update_conv' split: option.splits)
    with Cons show ?case by auto
  qed simp
  then show ?thesis by (simp add: getOverriddenSlotsByMaster_def)
qed

section \<open>A series over the budget\<close>

text \<open>What is left when the events of some UIDs are taken away.\<close>

definition apart :: "string set \<Rightarrow> SyncableEvent list \<Rightarrow> SyncableEvent list" where
  "apart uids = filter (\<lambda>e. sourceEventUid e \<notin> uids)"

lemma unique_master_apart:
  assumes "u \<notin> uids"
  shows "map_of (getUniqueMastersBySeries (apart uids events)) (series_key c u) = map_of (getUniqueMastersBySeries events) (series_key c u)"
proof -
  have "filter (\<lambda>e. is_master e \<and> getSeriesKey e = series_key c u) (apart uids events) =
      filter (\<lambda>e. is_master e \<and> getSeriesKey e = series_key c u) events"
    using assms by (auto simp: apart_def getSeriesKey_def series_key_inj intro: filter_cong)
  then have "map_of (getUniqueMastersBySeries (apart uids events)) (series_key c u) = Some m \<longleftrightarrow>
      map_of (getUniqueMastersBySeries events) (series_key c u) = Some m" for m
    by (simp add: unique_master_iff)
  then show ?thesis by (metis not_Some_eq)
qed

lemma slots_apart:
  assumes m: "sourceEventUid m \<notin> uids"
  shows "or_else (map_of (getOverriddenSlotsByMaster (map suppressed_of (apart uids events) @ sup')
        (getUniqueMastersBySeries (apart uids events))) m) {} =
    or_else (map_of (getOverriddenSlotsByMaster (map suppressed_of events @ sup') (getUniqueMastersBySeries events)) m) {}"
proof -
  have key: "overrides (getUniqueMastersBySeries evs) m e slot \<Longrightarrow> soCalendarId e = evCalendarId m \<and> soSourceEventUid e = sourceEventUid m"
    for evs e slot
    by (auto simp: overrides_def getSeriesKey_def series_key_inj dest!: unique_master_key)
  have same: "overrides (getUniqueMastersBySeries (apart uids events)) m e slot \<longleftrightarrow> overrides (getUniqueMastersBySeries events) m e slot"
    for e slot
  proof (cases "soSourceEventUid e \<in> uids")
    case True
    then show ?thesis using key m by metis
  next
    case False
    then show ?thesis by (simp add: overrides_def unique_master_apart)
  qed
  have "sourceEventUid e \<notin> uids" if "overrides (getUniqueMastersBySeries events) m (suppressed_of e) slot" for e slot
    using key [OF that] m by (simp add: suppressed_of_def)
  then have "(\<exists>e \<in> set (map suppressed_of (apart uids events) @ sup'). overrides (getUniqueMastersBySeries events) m e slot) \<longleftrightarrow>
      (\<exists>e \<in> set (map suppressed_of events @ sup'). overrides (getUniqueMastersBySeries events) m e slot)" for slot
    unfolding apart_def set_append set_map set_filter by blast
  then show ?thesis unfolding overridden_slots same by simp
qed

lemma pass_masters_mono:
  "pass_masters lib isol slots window events p = Inr q \<Longrightarrow> set (mpErrors p) \<subseteq> set (mpErrors q)"
proof (induction events arbitrary: p)
  case (Cons e events)
  show ?case
  proof (cases "is_master e")
    case True
    then obtain p' where p': "pass_master lib isol slots window e p = Inr p'" "pass_masters lib isol slots window events p' = Inr q"
      using Cons.prems by (auto simp: sum_bind_eq_Inr)
    have "set (mpErrors p) \<subseteq> set (mpErrors p')"
      using p'(1) by (auto simp: pass_master_def split: sum.splits materialize_error.splits if_splits)
    with Cons.IH [OF p'(2)] show ?thesis by blast
  qed (use Cons in simp)
qed simp

lemma pass_masters_skipped:
  assumes "pass_masters lib isol slots window events p = Inr q" "mpSkippedUids p = leSourceEventUid ` set (mpErrors p)"
  shows "mpSkippedUids q = leSourceEventUid ` set (mpErrors q)"
  using assms
proof (induction events arbitrary: p)
  case (Cons e events)
  show ?case
  proof (cases "is_master e")
    case True
    then obtain p' where p': "pass_master lib isol slots window e p = Inr p'" "pass_masters lib isol slots window events p' = Inr q"
      using Cons.prems by (auto simp: sum_bind_eq_Inr)
    have "mpSkippedUids p' = leSourceEventUid ` set (mpErrors p')"
      using p'(1) Cons.prems(2)
      by (auto simp: pass_master_def limit_error_def dest!: materializeMaster_error
          split: sum.splits materialize_error.splits if_splits)
    with Cons.IH [OF p'(2)] show ?thesis by blast
  qed (use Cons in simp)
qed simp

lemma pass_masters_apart:
  assumes "pass_masters lib True slots window events p = Inr q" "leSourceEventUid ` set (mpErrors q) \<subseteq> uids"
    and "\<And>m. sourceEventUid m \<notin> uids \<Longrightarrow> or_else (map_of slots' m) {} = or_else (map_of slots m) {}"
  shows "pass_masters lib False slots' window (apart uids events)
      \<lparr>mpEvents = filter (\<lambda>e. sourceEventUid e \<notin> uids) (mpEvents p), mpSkippedUids = {}, mpErrors = []\<rparr> =
    Inr \<lparr>mpEvents = filter (\<lambda>e. sourceEventUid e \<notin> uids) (mpEvents q), mpSkippedUids = {}, mpErrors = []\<rparr>"
  using assms(1)
proof (induction events arbitrary: p)
  case Nil
  then show ?case by (simp add: apart_def)
next
  case (Cons e events)
  show ?case
  proof (cases "is_master e")
    case False
    then show ?thesis using Cons by (auto simp: apart_def)
  next
    case True
    then obtain p' where p': "pass_master lib True slots window e p = Inr p'" "pass_masters lib True slots window events p' = Inr q"
      using Cons.prems by (auto simp: sum_bind_eq_Inr)
    note ih = Cons.IH [OF p'(2)]
    show ?thesis
    proof (cases "materializeMaster lib e (or_else (map_of slots e) {}) window")
      case (Inr occs)
      then have "mpEvents p' = mpEvents p @ occs" using p'(1) by (auto simp: pass_master_def)
      moreover have "\<forall>o' \<in> set occs. sourceEventUid o' = sourceEventUid e"
        using materializeMaster_content [OF Inr] by (auto simp: content_of_def)
      then have "filter (\<lambda>e. sourceEventUid e \<notin> uids) occs = (if sourceEventUid e \<in> uids then [] else occs)"
        by (auto intro: filter_True filter_False)
      ultimately show ?thesis
        using ih True Inr assms(3) [of e]
        by (cases "sourceEventUid e \<in> uids") (simp_all add: apart_def pass_master_def)
    next
      case (Inl err)
      then obtain l where l: "err = OverBudget l" "mpErrors p' = mpErrors p @ [l]" "mpEvents p' = mpEvents p"
        using p'(1) by (auto simp: pass_master_def split: materialize_error.splits)
      then have "sourceEventUid e \<in> uids"
      proof -
        have "l = limit_error e" using Inl l(1) by (blast intro: materializeMaster_error)
        moreover have "l \<in> set (mpErrors q)" using pass_masters_mono [OF p'(2)] l(2) by auto
        ultimately show ?thesis using assms(2) by (force simp: limit_error_def)
      qed
      then show ?thesis using ih l(3) by (simp add: apart_def)
    qed
  qed
qed

lemma one_offs_apart:
  "filter (\<lambda>e. sourceEventUid e \<notin> uids) (one_off_events uids window events) = one_off_events {} window (apart uids events)"
proof -
  have one: "sourceEventUid (asOneOffEvent e) = sourceEventUid e" for e
    using content_of_one_off [of e] by (simp add: content_of_def)
  show ?thesis
    by (induction events) (auto simp: one_off_events_def apart_def one)
qed


section \<open>A daily series\<close>

definition sample_intl :: intl where
  "sample_intl = \<lparr>intl_canFormat = (\<lambda>_. True), intl_parts = (\<lambda>_ _. \<lparr>wp_year = 1970, wp_month = 1, wp_day = 1, wp_hour = 0,
    wp_minute = 0, wp_second = 0\<rparr>), intl_longOffset = (\<lambda>_ _. ''GMT''), intl_supportedZones = []\<rparr>"

definition sample_series :: "rrule_options \<Rightarrow> instant list" where
  "sample_series options = filter (\<lambda>x. roDtstart options \<le> x \<and> (case roUntil options of None \<Rightarrow> True | Some u \<Rightarrow> x \<le> u))
    [0, 86400000, 172800000]"

definition sample_rule :: "ics_frequency \<Rightarrow> IcsRecurrenceRule" where
  "sample_rule frequency = \<lparr>rrFrequency = frequency, rrInterval = None, rrCount = None, rrUntil = None, rrBySecond = None,
    rrByMinute = None, rrByHour = None, rrByDay = None, rrByMonthday = None, rrByYearday = None, rrByWeekNo = None,
    rrByMonth = None, rrBySetPos = None, rrWorkweekStart = None\<rparr>"

lemma sample_rule_simps:
  "rrFrequency (sample_rule f) = f" "rrUntil (sample_rule f) = None" "rrInterval (sample_rule f) = None" "rrCount (sample_rule f) = None"
  "\<not> hasOccurrenceSelectors (sample_rule f)"
  by (simp_all add: sample_rule_def hasOccurrenceSelectors_def)

definition sample_recurrence :: recurrence_lib where
  "sample_recurrence = \<lparr>rlIntl = sample_intl, rlSha256 = id,
    rlBetween = (\<lambda>options a b. filter (\<lambda>x. a \<le> x \<and> x \<le> b) (sample_series options)),
    rlRule = (\<lambda>_. sample_rule Daily), rlDuration = (\<lambda>_. \<lparr>idWeeks = None, idDays = None, idHours = None, idMinutes = None, idSeconds = None\<rparr>)\<rparr>"

definition sample_syncable :: "string \<Rightarrow> string \<Rightarrow> IcsRecurrenceRule option \<Rightarrow> instant option \<Rightarrow> SyncableEvent" where
  "sample_syncable i u rule recurrence = \<lparr>startTime = 0, endTime = 3600000, isAllDay = Some False, evId = i,
    evEventStateId = Some i, sourceEventUid = u, availability = None, startTimeZone = None, summary = ''Stand-up'',
    description = None, location = None, isPrivate = None, remindersDisabled = None, evCalendarId = ''c'',
    calendarName = None, calendarUrl = None, recurrenceDuration = None, recurrenceRule = rule,
    exceptionDates = Some [86400000], recurrenceId = recurrence\<rparr>"

definition sample_window :: RecurrenceMaterializationWindow where
  "sample_window = \<lparr>mwStart = 1000, mwEnd = 200000000\<rparr>"

abbreviation sample_zones :: SeriesTimeZones where
  "sample_zones \<equiv> \<lparr>expansionTimeZone = None, seriesTimeZone = None\<rparr>"

definition sample_occurrence :: "instant \<Rightarrow> MaterializedSyncableEvent" where
  "sample_occurrence slot = (asOneOffEvent (sample_syncable ''m'' ''u'' (Some (sample_rule Daily)) None))\<lparr>endTime := slot + 3600000,
    evEventStateId := Some ''m'', evId := createSyntheticOccurrenceId sample_recurrence
      (sample_syncable ''m'' ''u'' (Some (sample_rule Daily)) None) slot (slot + 3600000), startTime := slot\<rparr>"

lemma sample_expands: "rrule_expands sample_recurrence (\<lambda>options. set (sample_series options))"
  by (auto simp: rrule_expands_def sample_recurrence_def sample_series_def split: option.splits)

lemma sample_zone: "resolveSeriesTimeZones (rlIntl sample_recurrence) (sample_syncable i u rule r) (sample_rule f) = Inr sample_zones"
  by (simp add: resolveSeriesTimeZones_def resolveTimeZone_def normalizeTimezone_def resolveTimeZoneIdentifier_def
      sample_syncable_def resolveIsAllDayEvent_def)

definition sample_rrule_options :: "ics_frequency \<Rightarrow> rrule_options" where
  "sample_rrule_options f = \<lparr>roFreq = f, roDtstart = 0, roInterval = None, roCount = None, roUntil = None, roBySecond = None,
    roByMinute = None, roByHour = None, roByWeekday = None, roByMonthday = None, roByYearday = None, roByWeekNo = None,
    roByMonth = None, roBySetPos = None, roWkst = None\<rparr>"

lemma sample_options: "toRRuleOptions (rlIntl sample_recurrence) (sample_rule f) 0 None = Inr (sample_rrule_options f)"
  by (simp add: toRRuleOptions_def sample_rule_def sample_rrule_options_def)

lemma sample_created: "createMaterializedOccurrence sample_recurrence (sample_syncable ''m'' ''u'' (Some (sample_rule Daily)) None) slot None =
    Inr (sample_occurrence slot)"
  by (simp add: createMaterializedOccurrence_def resolveOccurrenceEnd_def sample_occurrence_def sample_syncable_def)

lemma sample_overlap: "overlapsWindow (sample_occurrence slot) sample_window \<longleftrightarrow> slot + 3600000 > 1000 \<and> slot < 200000000"
  by (simp add: overlapsWindow_def overlapsTimeWindow_def sample_window_def sample_occurrence_def)

lemma sample_master_run:
  "materializeMaster sample_recurrence (sample_syncable ''m'' ''u'' (Some (sample_rule Daily)) None) {} sample_window =
    Inr [sample_occurrence 0, sample_occurrence 172800000]"
proof -
  let ?m = "sample_syncable ''m'' ''u'' (Some (sample_rule Daily)) None"
  have m: "recurrenceRule ?m = Some (sample_rule Daily)" "startTime ?m = 0" "endTime ?m = 3600000" "recurrenceDuration ?m = None"
    "exceptionDates ?m = Some [86400000]"
    by (simp_all add: sample_syncable_def)
  have between: "rlBetween sample_recurrence (sample_rrule_options Daily) (- 3599000) 200000000 = [0, 86400000, 172800000]"
    by (simp add: sample_recurrence_def sample_series_def sample_rrule_options_def)
  have budget: "assertUnfilteredHighFrequencyRuleWithinBudget i ?m a b c tz = Inr ()" for i a b c tz
    by (simp add: assertUnfilteredHighFrequencyRuleWithinBudget_def m HIGH_FREQUENCY_INTERVAL_MS_def sample_rule_simps)
  show ?thesis
    by (simp add: materializeMaster_def m sample_zone expand_master_def Let_def toRecurrenceWallTime_def lookback_def
        sample_options between budget sample_window_def MAX_OCCURRENCES_PER_SERIES_def isSeriesExhaustedBeforeWindow_def
        fromRecurrenceWallTime_def sample_created sample_overlap [unfolded sample_window_def] sample_rule_simps)
qed

theorem materialized_series_is_complete_witness:
  "materializeMaster sample_recurrence (sample_syncable ''m'' ''u'' (Some (sample_rule Daily)) None) {} sample_window =
      Inr [sample_occurrence 0, sample_occurrence 172800000]
    \<and> distinct (map startTime [sample_occurrence 0, sample_occurrence 172800000])"
proof -
  let ?m = "sample_syncable ''m'' ''u'' (Some (sample_rule Daily)) None"
  have m: "recurrenceRule ?m = Some (sample_rule Daily)" "startTime ?m = 0" "recurrenceDuration ?m = None"
    by (simp_all add: sample_syncable_def)
  have options: "toRRuleOptions (rlIntl sample_recurrence) (sample_rule Daily)
      (toRecurrenceWallTime (rlIntl sample_recurrence) (startTime ?m) (expansionTimeZone sample_zones)) (expansionTimeZone sample_zones) =
    Inr (sample_rrule_options Daily)"
    by (simp add: m toRecurrenceWallTime_def sample_options)
  have clock: "clock_keeps_order sample_recurrence (expansionTimeZone sample_zones) (startTime ?m) (set (sample_series (sample_rrule_options Daily)))"
    by (auto simp: m sample_series_def sample_rrule_options_def intro!: clock_without_zone)
  note ends = exact_durations_are_looked_back [OF m(3)]
  from materialized_series_is_complete [OF sample_expands m(1) sample_zone options clock ends sample_master_run] sample_master_run
  show ?thesis by blast
qed

section \<open>A series of every second\<close>

abbreviation sample_secondly :: SyncableEvent where
  "sample_secondly \<equiv> sample_syncable ''m'' ''x'' (Some (sample_rule Secondly)) None"

lemma sample_secondly_run:
  "materializeMaster sample_recurrence sample_secondly slots sample_window = Inl (OverBudget (limit_error sample_secondly))"
proof -
  have m: "recurrenceRule sample_secondly = Some (sample_rule Secondly)" "startTime sample_secondly = 0"
    "endTime sample_secondly = 3600000" "recurrenceDuration sample_secondly = None"
    by (simp_all add: sample_syncable_def)
  show ?thesis
    by (simp add: materializeMaster_def m sample_zone expand_master_def Let_def toRecurrenceWallTime_def lookback_def sample_window_def
        isSeriesExhaustedBeforeWindow_def sample_rule_simps assertUnfilteredHighFrequencyRuleWithinBudget_def
        HIGH_FREQUENCY_INTERVAL_MS_def potential_occurrences_def MAX_OCCURRENCES_PER_SERIES_def)
qed

lemma sample_read:
  assumes "\<not> is_master other" "recurrenceId other = None \<or> sourceEventUid other = ''x''" "startTime other = 0" "endTime other = 3600000"
  shows "materializeRecurrenceEvents sample_recurrence [sample_secondly, other] sample_window True [] =
    Inr (if recurrenceId other = None then [asOneOffEvent other] else [], [limit_error sample_secondly])"
proof -
  have "is_master sample_secondly" "sourceEventUid sample_secondly = ''x''" by (simp_all add: is_master_def sample_syncable_def)
  moreover have "overlapsWindow (asOneOffEvent other) sample_window"
    using assms(3,4) by (simp add: overlapsWindow_def overlapsTimeWindow_def sample_window_def asOneOffEvent_def MaterializedSyncableEvent.truncate_def)
  moreover have "assertValidWindow sample_window = Inr ()" by (simp add: assertValidWindow_def sample_window_def)
  moreover have pass: "pass_masters sample_recurrence True slots sample_window [sample_secondly, other]
      \<lparr>mpEvents = [], mpSkippedUids = {}, mpErrors = []\<rparr> =
    Inr \<lparr>mpEvents = [], mpSkippedUids = {''x''}, mpErrors = [limit_error sample_secondly]\<rparr>" for slots
    using assms(1) calculation(1,2) by (simp add: pass_master_def sample_secondly_run)
  moreover have "one_off_events {''x''} sample_window [sample_secondly, other] = (if recurrenceId other = None then [asOneOffEvent other] else [])"
    using assms(1,2) calculation(1,3) by (auto simp: one_off_events_def)
  ultimately show ?thesis by (simp add: materializeRecurrenceEvents_def Let_def del: pass_masters.simps)
qed


text \<open>
  The override of a withheld series is not protected: its own row is not among the withheld ones, so that its
  mirror is retired while the mirrors of the series' other occurrences are kept.
\<close>

definition sample_mirror :: "string \<Rightarrow> EventMapping" where
  "sample_mirror state = \<lparr>startTime = 0, endTime = 3600000, mapId = ''r'', mapEventStateId = Some state, syncEventId = state,
    mapCalendarId = ''d'', sourceCalendarId = Some ''c'', destinationEventUid = ''e'', deleteIdentifier = ''e'', syncEventHash = None\<rparr>"

definition sample_withheld_scope :: "string set \<Rightarrow> ReconciliationScope" where
  "sample_withheld_scope withheld = \<lparr>authoritativeMappingIds = None, authoritativeWindow = Some \<lparr>timeMin = 1000, timeMax = 200000000\<rparr>,
    authoritativeSourceWindows = Some [(''c'', \<lparr>timeMin = 1000, timeMax = 200000000\<rparr>)],
    configuredSourceCalendarIds = Some {''c''}, requestedWindow = \<lparr>timeMin = 1000, timeMax = 200000000\<rparr>,
    withheldSourceEventStateIds = Some withheld\<rparr>"

theorem withheld_series_loses_its_overrides:
  "materializeRecurrenceEvents sample_recurrence [sample_secondly, sample_syncable ''o'' ''x'' None (Some 0)] sample_window True [] =
      Inr ([], [limit_error sample_secondly])
    \<and> (let withheld = set (map (\<lambda>e. or_else (leEventStateId e) (leEventId e)) [limit_error sample_secondly]) in
        mappingIsRetired (sample_withheld_scope withheld) {} (sample_mirror ''o'')
        \<and> \<not> mappingIsRetired (sample_withheld_scope withheld) {} (sample_mirror ''m''))"
proof
  show "materializeRecurrenceEvents sample_recurrence [sample_secondly, sample_syncable ''o'' ''x'' None (Some 0)] sample_window True [] =
      Inr ([], [limit_error sample_secondly])"
    using sample_read [of "sample_syncable ''o'' ''x'' None (Some 0)"] by (simp add: is_master_def sample_syncable_def)
qed (simp add: Let_def mappingIsRetired_def sample_withheld_scope_def sample_mirror_def limit_error_def sample_syncable_def
    isInsideSourceAuthoritativeWindow_def getSourceAuthoritativeWindow_def overlapsTimeWindow_def getMappingSyncEventId_def)

end
