(* ===== verification/Event_Read_Correct.thy ===== *)
theory Event_Read_Correct
  imports Event_Read Materialize_Correct
begin

text \<open>
  What a read of the stored events gives a destination: only events of the asked calendars that the sync
  policy of their calendar lets through, in the window, without the fields the policy hides; and counts
  that account for every row.
\<close>

section \<open>Templates\<close>

function template_tokens :: "string \<Rightarrow> string list" where
  "template_tokens text =
    (case read_token text of
       Some (name, rest) \<Rightarrow> name # template_tokens rest
     | None \<Rightarrow> (case text of [] \<Rightarrow> [] | c # cs \<Rightarrow> template_tokens cs))"
  by pat_completeness auto
termination
  by (relation "measure length") (auto dest: read_token_shorter)

declare template_tokens.simps [simp del]

lemma replace_tokens_cong:
  "(\<And>name. name \<in> set (template_tokens tpl) \<Longrightarrow> vars name = vars' name) \<Longrightarrow> replace_tokens vars tpl = replace_tokens vars' tpl"
proof (induction tpl rule: template_tokens.induct)
  case (1 tpl)
  show ?case
  proof (cases "read_token tpl")
    case None
    then show ?thesis
    proof (cases tpl)
      case Nil
      then show ?thesis using None by (simp add: replace_tokens.simps)
    next
      case (Cons c cs)
      have "template_tokens tpl = template_tokens cs" using None Cons by (simp add: template_tokens.simps [of "c # cs"])
      then have "replace_tokens vars cs = replace_tokens vars' cs" using 1 None Cons by simp
      then show ?thesis using None Cons by (simp add: replace_tokens.simps [of _ "c # cs"])
    qed
  next
    case (Some p)
    obtain name rest where p: "p = (name, rest)" by (cases p)
    have "vars name = vars' name" "replace_tokens vars rest = replace_tokens vars' rest"
      using 1 Some p by (auto simp: template_tokens.simps [of tpl])
    then show ?thesis using Some p by (simp add: replace_tokens.simps [of _ tpl])
  qed
qed

section \<open>Rows and the events they become\<close>

definition event_template :: "source_policy \<Rightarrow> string" where
  "event_template c = (if spCustomEventName c \<noteq> [] then spCustomEventName c else DEFAULT_EVENT_NAME_TEMPLATE)"

definition retitled :: "string option \<Rightarrow> event_row \<Rightarrow> event_row" where
  "retitled title row = row\<lparr>erState := (erState row)\<lparr>stTitle := title\<rparr>\<rparr>"

lemma summary_hides_title:
  assumes "spExcludeEventName (erCalendar row)" "''event_name'' \<notin> set (template_tokens (event_template (erCalendar row)))"
  shows "resolve_summary inherited (retitled title row) = resolve_summary inherited row"
proof -
  have eq: "replace_tokens (inherited(''calendar_name'' \<mapsto> c, ''event_name'' \<mapsto> a)) (event_template (erCalendar row)) =
      replace_tokens (inherited(''calendar_name'' \<mapsto> c, ''event_name'' \<mapsto> b)) (event_template (erCalendar row))" for a b c
    by (rule replace_tokens_cong) (use assms(2) in \<open>auto\<close>)
  have same: "resolveEventNameTemplate inherited (event_template (erCalendar row)) c a = resolveEventNameTemplate inherited (event_template (erCalendar row)) c b"
    for a b c
    unfolding resolveEventNameTemplate_def by (subst eq [of c a b]) (rule refl)
  have "resolve_summary inherited r = resolveEventNameTemplate inherited (event_template (erCalendar row)) (spName (erCalendar row))
      (or_else (stTitle (erState r)) DEFAULT_EVENT_NAME)" if "erCalendar r = erCalendar row" for r
    using assms(1) that by (simp add: resolve_summary_def Let_def event_template_def)
  from this [of row] this [of "retitled title row"] show ?thesis using same by (simp add: retitled_def)
qed

definition follows_policy :: "event_read_lib \<Rightarrow> event_row \<Rightarrow> MaterializedSyncableEvent \<Rightarrow> bool" where
  "follows_policy lib row e \<longleftrightarrow> (let c = erCalendar row; s = erState row in
    evCalendarId e = spCalendarId c \<and> Some (sourceEventUid e) = stSourceEventUid s \<and> \<not> shouldExcludeSyncEvent (elLower lib) row
    \<and> description e = (if spExcludeEventDescription c then None else stDescription s)
    \<and> location e = (if spExcludeEventLocation c then None else stLocation s)
    \<and> isPrivate e = (if spMarkEventsAsPrivate c then Some True else None)
    \<and> remindersDisabled e = (if spDisableEventReminders c then Some True else None)
    \<and> summary e = resolve_summary (elInherited lib) row)"

lemma syncable_follows:
  assumes "content_of (syncable_event lib row u recurrence) e" "stSourceEventUid (erState row) = Some u"
    "\<not> shouldExcludeSyncEvent (elLower lib) row"
  shows "follows_policy lib row e"
  using assms by (simp add: content_of_def syncable_event_def Let_def follows_policy_def excludeOrAbsent_def trueOrAbsent_def)

definition comes_from :: "event_read_lib \<Rightarrow> event_row \<Rightarrow> SyncableEvent \<Rightarrow> bool" where
  "comes_from lib row ev \<longleftrightarrow> (\<exists>u recurrence. stSourceEventUid (erState row) = Some u \<and> \<not> shouldExcludeSyncEvent (elLower lib) row
    \<and> ev = syncable_event lib row u recurrence)"

lemma pass_row_syncable:
  assumes "pass_row lib window row p = Inr q" "ev \<in> set (rpSyncable q)"
  shows "ev \<in> set (rpSyncable p) \<or> comes_from lib row ev"
  using assms
  by (auto simp: pass_row_def Let_def sum_bind_eq_Inr comes_from_def map_sum_def split: option.splits if_splits sum.splits)

lemma pass_rows_syncable:
  assumes "pass_rows lib window rows p = Inr q" "ev \<in> set (rpSyncable q)"
  shows "ev \<in> set (rpSyncable p) \<or> (\<exists>row \<in> set rows. comes_from lib row ev)"
  using assms
proof (induction rows arbitrary: p)
  case (Cons row rows)
  then obtain p' where "pass_row lib window row p = Inr p'" "pass_rows lib window rows p' = Inr q"
    by (auto simp: sum_bind_eq_Inr)
  with Cons.IH [OF this(2) Cons.prems(2)] pass_row_syncable [of lib window row p p' ev] show ?case by auto
qed simp

definition seen :: "read_pass \<Rightarrow> nat" where
  "seen p = rpMissingUid p + rpExcluded p + rpOutside p + length (rpSyncable p)"

lemma pass_rows_seen: "pass_rows lib window rows p = Inr q \<Longrightarrow> seen q = seen p + length rows"
proof (induction rows arbitrary: p)
  case (Cons row rows)
  then obtain p' where p': "pass_row lib window row p = Inr p'" "pass_rows lib window rows p' = Inr q"
    by (auto simp: sum_bind_eq_Inr)
  have "seen p' = Suc (seen p)"
    using p'(1) by (auto simp: pass_row_def Let_def sum_bind_eq_Inr seen_def split: option.splits if_splits)
  with Cons.IH [OF p'(2)] show ?case by simp
qed simp

lemma pass_masters_content:
  assumes "pass_masters lib isol slots window events p = Inr q" "e \<in> set (mpEvents q)"
  shows "e \<in> set (mpEvents p) \<or> (\<exists>ev \<in> set events. content_of ev e \<and> overlapsWindow e window)"
  using assms
proof (induction events arbitrary: p)
  case (Cons ev events)
  show ?case
  proof (cases "is_master ev")
    case True
    then obtain p' where p': "pass_master lib isol slots window ev p = Inr p'" "pass_masters lib isol slots window events p' = Inr q"
      using Cons.prems by (auto simp: sum_bind_eq_Inr)
    have "e \<in> set (mpEvents p') \<Longrightarrow> e \<in> set (mpEvents p) \<or> content_of ev e \<and> overlapsWindow e window"
      using p'(1) materializeMaster_content
      by (auto simp: pass_master_def split: sum.splits materialize_error.splits if_splits)
    with Cons.IH [OF p'(2) Cons.prems(2)] show ?thesis by auto
  qed (use Cons in auto)
qed simp

lemma materialized_content:
  assumes "materializeRecurrenceEvents lib events window isol suppressed = Inr (out, errors)" "e \<in> set out"
  shows "\<exists>ev \<in> set events. content_of ev e \<and> overlapsWindow e window"
proof -
  obtain slots q where q: "pass_masters lib isol slots window events \<lparr>mpEvents = [], mpSkippedUids = {}, mpErrors = []\<rparr> = Inr q"
    and e: "e \<in> set (mpEvents q @ one_off_events (mpSkippedUids q) window events)"
    using assms by (auto simp: materializeRecurrenceEvents_def Let_def sum_bind_eq_Inr)
  show ?thesis
  proof (cases "e \<in> set (mpEvents q)")
    case True
    from pass_masters_content [OF q this] show ?thesis by simp
  next
    case False
    then have "e \<in> set (one_off_events (mpSkippedUids q) window events)" using e by simp
    then obtain ev where "ev \<in> set events" "e = asOneOffEvent ev" "overlapsWindow e window"
      by (auto simp: one_off_events_def)
    then show ?thesis using content_of_one_off [of ev] by auto
  qed
qed

text \<open>C17: A read gives a destination only what its sources may show. Every event it returns lies in the window, and
  comes from a row of one of the asked calendars that the calendar's sync policy does not exclude; it carries the
  row's description and location only where the policy does not hide them, is private and without reminders where
  the policy says so, and is named by the policy: where the name is hidden and the template does not ask for it, its
  summary is the same whatever the title of the row is. The counts account for every row.\<close>

theorem hidden_fields_stay_hidden:
  assumes "getEventsForCalendarsWithDiagnostics lib table calendarIds window = Inr (dg, events)" and "e \<in> set events"
  shows "overlapsTimeWindow (startTime e) (endTime e) (timeMin window) (timeMax window)
    \<and> (\<exists>row \<in> set table. spCalendarId (erCalendar row) \<in> set calendarIds \<and> follows_policy lib row e
        \<and> (spExcludeEventName (erCalendar row) \<and> ''event_name'' \<notin> set (template_tokens (event_template (erCalendar row)))
            \<longrightarrow> (\<forall>title. summary e = resolve_summary (elInherited lib) (retitled title row))))
    \<and> dgCandidate dg = dgMissingSourceEventUid dg + dgExcludedBySyncPolicy dg + dgOutsideReconciliationWindow dg + dgSyncable dg"
proof -
  let ?p = "\<lparr>rpSyncable = [], rpExcludedOverrides = [], rpExcluded = 0, rpMissingUid = 0, rpOutside = 0\<rparr>"
  let ?w = "\<lparr>mwStart = timeMin window, mwEnd = timeMax window\<rparr>" and ?rows = "query_rows table calendarIds window"
  have ids: "calendarIds \<noteq> []" using assms by (auto simp: getEventsForCalendarsWithDiagnostics_def)
  let ?mat = "\<lambda>p. materializeRecurrenceEvents (elRecurrence lib) (rpSyncable p) ?w True (rpExcludedOverrides p)"
  obtain p where p: "pass_rows lib window ?rows ?p = Inr p"
    using assms(1) ids by (auto simp: getEventsForCalendarsWithDiagnostics_def Let_def sum_bind_eq_Inr)
  obtain r where r: "?mat p = Inr r"
    using assms(1) ids p by (cases "?mat p") (auto simp: getEventsForCalendarsWithDiagnostics_def Let_def)
  obtain evs errors where ee: "r = (evs, errors)" by (cases r)
  have out: "materializeRecurrenceEvents (elRecurrence lib) (rpSyncable p) ?w True (rpExcludedOverrides p) = Inr (events, errors)"
    and dg: "dgCandidate dg = length ?rows" "dgMissingSourceEventUid dg = rpMissingUid p" "dgExcludedBySyncPolicy dg = rpExcluded p"
      "dgOutsideReconciliationWindow dg = rpOutside p" "dgSyncable dg = length (rpSyncable p)"
    using assms(1) ids p r ee by (auto simp: getEventsForCalendarsWithDiagnostics_def Let_def)
  obtain ev where ev: "ev \<in> set (rpSyncable p)" "content_of ev e" "overlapsWindow e ?w"
    using materialized_content [OF out assms(2)] by blast
  obtain row where row: "row \<in> set ?rows" "comes_from lib row ev" using pass_rows_syncable [OF p ev(1)] by auto
  have table: "row \<in> set table" "spCalendarId (erCalendar row) \<in> set calendarIds" using row(1) by (auto simp: query_rows_def)
  have policy: "follows_policy lib row e"
    using row(2) ev(2) by (auto simp: comes_from_def intro: syncable_follows)
  then have "summary e = resolve_summary (elInherited lib) row" by (simp add: follows_policy_def Let_def)
  then have "spExcludeEventName (erCalendar row) \<and> ''event_name'' \<notin> set (template_tokens (event_template (erCalendar row)))
      \<longrightarrow> (\<forall>title. summary e = resolve_summary (elInherited lib) (retitled title row))" by (simp add: summary_hides_title)
  moreover have "overlapsTimeWindow (startTime e) (endTime e) (timeMin window) (timeMax window)"
    using ev(3) by (simp add: overlapsWindow_def)
  moreover have "length ?rows = rpMissingUid p + rpExcluded p + rpOutside p + length (rpSyncable p)"
    using pass_rows_seen [OF p] by (simp add: seen_def)
  ultimately show ?thesis using table policy unfolding dg by blast
qed

section \<open>A calendar that hides its names\<close>

definition sample_policy :: source_policy where
  "sample_policy = \<lparr>spCalendarId = ''c'', spName = ''Work'', spUrl = None, spCustomEventName = [], spExcludeAllDayEvents = False,
    spExcludeAvailabilities = [], spExcludeEventDescription = True, spExcludeEventLocation = False, spExcludeEventName = True,
    spExcludeFocusTime = False, spExcludeOutOfOffice = False, spExcludeTitleKeywords = [], spMarkEventsAsPrivate = True,
    spDisableEventReminders = False\<rparr>"

definition sample_read_row :: event_row where
  "sample_read_row = \<lparr>erState = \<lparr>startTime = 5000, endTime = 6000, stId = ''e'', stSourceEventUid = Some ''u'', stSourceEventId = None,
    stSourceEventType = None, stAvailability = None, stIsAllDay = Some False, stStartTimeZone = None, stRecurrenceRule = None,
    stExceptionDates = None, stRecurrenceId = None, stTitle = Some ''Review'', stDescription = Some ''confidential'',
    stLocation = Some ''Room 1''\<rparr>, erCalendar = sample_policy\<rparr>"

definition sample_read_lib :: event_read_lib where
  "sample_read_lib = \<lparr>elRecurrence = sample_recurrence, elCodec = \<lparr>cdStringify = (\<lambda>_. []), cdLocaleCompare = (\<lambda>_ _. 0),
    cdJsonParse = (\<lambda>_. None), cdJsonStringify = (\<lambda>_. []), cdRuleSchema = (\<lambda>_. Inl []), cdExceptionSchema = (\<lambda>_. Inl [])\<rparr>, elLower = id, elInherited = (\<lambda>_. None)\<rparr>"

abbreviation sample_mirrored :: MaterializedSyncableEvent where
  "sample_mirrored \<equiv> \<lparr>startTime = 5000, endTime = 6000, isAllDay = Some False, evId = ''e'', evEventStateId = Some ''e'',
    sourceEventUid = ''u'', availability = None, startTimeZone = None, summary = ''Work'', description = None,
    location = Some ''Room 1'', isPrivate = Some True, remindersDisabled = None, evCalendarId = ''c'',
    calendarName = Some ''Work'', calendarUrl = None\<rparr>"

lemma sample_template: "replace_tokens [''calendar_name'' \<mapsto> ''Work'', ''event_name'' \<mapsto> t] ''{{calendar_name}}'' = ''Work''"
  by (simp add: replace_tokens.simps [of _ "''{{calendar_name}}''"] replace_tokens.simps [of _ "[]"] read_token_def word_char_def)

lemma sample_summary: "resolve_summary (\<lambda>_. None) sample_read_row = ''Work''"
  by (simp add: resolve_summary_def sample_read_row_def sample_policy_def Let_def resolveEventNameTemplate_def
      DEFAULT_EVENT_NAME_TEMPLATE_def sample_template js_trim_def is_js_space_def)

lemma sample_columns [simp]:
  "startTime (erState sample_read_row) = 5000" "endTime (erState sample_read_row) = 6000" "stId (erState sample_read_row) = ''e''"
  "stSourceEventUid (erState sample_read_row) = Some ''u''" "stSourceEventType (erState sample_read_row) = None"
  "stAvailability (erState sample_read_row) = None" "stIsAllDay (erState sample_read_row) = Some False"
  "stStartTimeZone (erState sample_read_row) = None" "stRecurrenceRule (erState sample_read_row) = None"
  "stExceptionDates (erState sample_read_row) = None" "stRecurrenceId (erState sample_read_row) = None"
  "stTitle (erState sample_read_row) = Some ''Review''" "stDescription (erState sample_read_row) = Some ''confidential''"
  "stLocation (erState sample_read_row) = Some ''Room 1''" "erCalendar sample_read_row = sample_policy"
  by (simp_all add: sample_read_row_def)

lemma sample_keep: "\<not> shouldExcludeSyncEvent id sample_read_row"
  by (simp add: shouldExcludeSyncEvent_def matchesSyncExclusion_def Let_def sample_policy_def parseSourceEventType_def
      isExcludedAvailability_def titleContainsKeyword_def)

abbreviation sample_plain :: MaterializedRecurrenceFields where
  "sample_plain \<equiv> \<lparr>mrExceptionDates = None, mrRecurrenceDuration = None, mrRecurrenceId = None, mrRecurrenceRule = None\<rparr>"

lemma sample_parse: "parseStoredRecurrenceForMaterialization codec i None None None = Inr sample_plain"
  by (simp add: parseStoredRecurrenceForMaterialization_def parseStoredIcsExceptionDates_def parseStoredIcsRecurrence_def)

definition sample_read_event :: SyncableEvent where
  "sample_read_event = syncable_event sample_read_lib sample_read_row ''u'' sample_plain"

lemma sample_read_event_fields [simp]: "recurrenceRule sample_read_event = None" "recurrenceId sample_read_event = None"
  by (simp_all add: sample_read_event_def syncable_event_def)

lemma sample_pass: "pass_row sample_read_lib \<lparr>timeMin = 1000, timeMax = 200000000\<rparr> sample_read_row
    \<lparr>rpSyncable = [], rpExcludedOverrides = [], rpExcluded = 0, rpMissingUid = 0, rpOutside = 0\<rparr> =
  Inr \<lparr>rpSyncable = [sample_read_event], rpExcludedOverrides = [], rpExcluded = 0, rpMissingUid = 0, rpOutside = 0\<rparr>"
  using sample_keep
  by (simp add: pass_row_def Let_def sample_parse sample_read_event_def isEventInDestinationReconciliationWindow_def
      resolveTimeRangeEnd_def sample_read_lib_def)

lemma sample_inherited: "elInherited sample_read_lib = (\<lambda>_. None)"
  by (simp add: sample_read_lib_def)

lemma sample_one_off: "asOneOffEvent sample_read_event = sample_mirrored"
  by (simp add: asOneOffEvent_def MaterializedSyncableEvent.truncate_def sample_read_event_def syncable_event_def Let_def
      sample_inherited sample_summary excludeOrAbsent_def trueOrAbsent_def parseAvailability_def)
    (simp add: sample_policy_def)

lemma sample_materialized:
  "materializeRecurrenceEvents lib [sample_read_event] \<lparr>mwStart = 1000, mwEnd = 200000000\<rparr> isol [] = Inr ([sample_mirrored], [])"
  by (simp add: materializeRecurrenceEvents_def assertValidWindow_def Let_def is_master_def one_off_events_def sample_one_off
      overlapsWindow_def overlapsTimeWindow_def)

lemma sample_read_run:
  "\<exists>dg. getEventsForCalendarsWithDiagnostics sample_read_lib [sample_read_row] [''c''] \<lparr>timeMin = 1000, timeMax = 200000000\<rparr> =
    Inr (dg, [sample_mirrored]) \<and> dgCandidate dg = 1"
proof -
  have "query_rows [sample_read_row] [''c''] \<lparr>timeMin = 1000, timeMax = 200000000\<rparr> = [sample_read_row]"
    by (simp add: query_rows_def sample_policy_def)
  then show ?thesis
    by (simp add: getEventsForCalendarsWithDiagnostics_def Let_def sample_pass sample_materialized)
qed

theorem hidden_fields_stay_hidden_witness:
  "follows_policy sample_read_lib sample_read_row sample_mirrored"
proof -
  obtain dg where "getEventsForCalendarsWithDiagnostics sample_read_lib [sample_read_row] [''c''] \<lparr>timeMin = 1000, timeMax = 200000000\<rparr> =
      Inr (dg, [sample_mirrored])"
    using sample_read_run by blast
  from hidden_fields_stay_hidden [OF this, of sample_mirrored] show ?thesis by simp
qed

end
