(* ===== verification/Push_Channels.thy ===== *)
theory Push_Channels
  imports Sync_Calendar Ingest_Schedule
begin

text \<open>
  Push channels: which webhook registrations an account's calendars should have. The plan and the health of
  \<open>core/source/push-channel.ts\<close> with the profiles of \<open>push-provider-profile.ts\<close>. SHA-256 (as hexadecimal
  text) is a parameter. The lifetimes of the two profiles are multiples of twenty, so that their fractions
  are whole milliseconds; provider names are those of the two profiles or have none.
\<close>

section \<open>Provider profiles\<close>

definition GOOGLE_WATCH_MAX_LIFETIME_MS :: int where
  "GOOGLE_WATCH_MAX_LIFETIME_MS = 7 * 24 * 60 * (60 * 1000)"

definition GRAPH_SUBSCRIPTION_MAX_LIFETIME_MS :: int where
  "GRAPH_SUBSCRIPTION_MAX_LIFETIME_MS = 10080 * (60 * 1000)"

definition PROVIDER_LIFETIME_SAFETY_MS :: int where
  "PROVIDER_LIFETIME_SAFETY_MS = 60 * (60 * 1000)"

datatype PushChannelRenewalMode = ExtendChannel | RecreateChannel

record PushProviderProfile =
  ppMaxLifetimeMs :: int
  ppProvider :: string
  ppRenewalMode :: PushChannelRenewalMode
  ppRequiresProviderAccountId :: bool
  ppSupportsList :: bool

definition GOOGLE_PUSH_PROFILE :: PushProviderProfile where
  "GOOGLE_PUSH_PROFILE = \<lparr>ppMaxLifetimeMs = GOOGLE_WATCH_MAX_LIFETIME_MS, ppProvider = ''google'',
    ppRenewalMode = RecreateChannel, ppRequiresProviderAccountId = False, ppSupportsList = False\<rparr>"

definition OUTLOOK_PUSH_PROFILE :: PushProviderProfile where
  "OUTLOOK_PUSH_PROFILE = \<lparr>ppMaxLifetimeMs = GRAPH_SUBSCRIPTION_MAX_LIFETIME_MS, ppProvider = ''outlook'',
    ppRenewalMode = ExtendChannel, ppRequiresProviderAccountId = True, ppSupportsList = True\<rparr>"

definition resolvePushProviderProfile :: "string \<Rightarrow> PushProviderProfile option" where
  "resolvePushProviderProfile provider =
    (if provider = ''google'' then Some GOOGLE_PUSH_PROFILE
     else if provider = ''outlook'' then Some OUTLOOK_PUSH_PROFILE else None)"

definition resolveRenewalLeadMs :: "int \<Rightarrow> int" where
  "resolveRenewalLeadMs maxLifetimeMs = maxLifetimeMs div 5"

definition resolveStaggerPeriodMs :: "int \<Rightarrow> int" where
  "resolveStaggerPeriodMs maxLifetimeMs = maxLifetimeMs div 4"

definition clampToProviderLifetime :: "instant \<Rightarrow> instant \<Rightarrow> int \<Rightarrow> instant" where
  "clampToProviderLifetime requestedExpiresAt now maxLifetimeMs =
    min requestedExpiresAt (now + maxLifetimeMs - PROVIDER_LIFETIME_SAFETY_MS)"

definition hex_digit :: "char \<Rightarrow> int" where
  "hex_digit c = (let n = of_char c :: nat in if n \<le> 57 then int n - 48 else int n - 87)"

definition getDeterministicRefreshOffset :: "(string \<Rightarrow> string) \<Rightarrow> string \<Rightarrow> int" where
  "getDeterministicRefreshOffset sha256 calendarKey =
    (if calendarKey = [] then 0
     else foldl (\<lambda>n c. n * 16 + hex_digit c) 0 (take 12 (sha256 calendarKey)) mod (7 * MS_PER_DAY))"

section \<open>Channels, calendars, actions\<close>

datatype PushChannelState = ChActive | ChDegraded | ChFailed | ChRegistering | ChRemoved

definition LIVE_PUSH_CHANNEL_STATES :: "PushChannelState set" where
  "LIVE_PUSH_CHANNEL_STATES = {ChActive, ChDegraded, ChRegistering}"

record StoredPushChannel =
  chAccountId :: string
  chCalendarId :: "string option"
  chCreatedAt :: instant
  chExpiresAt :: "instant option"
  chFailureCount :: int
  chId :: string
  chLastFailureAt :: "instant option"
  chLastNotificationAt :: "instant option"
  chNextAttemptAt :: "instant option"
  chProvider :: string
  chProviderChannelId :: "string option"
  chProviderResourceId :: "string option"
  chReauthorizeRequestedAt :: "instant option"
  chResourcePath :: "string option"
  chSecretHash :: string
  chState :: PushChannelState
  chUpdatedAt :: instant
  chUserId :: string
  chVerifiedAt :: "instant option"

record EligibleSourceCalendar =
  pcAccountId :: string
  pcCalendarId :: string
  pcCapabilities :: "string list"
  pcDisabled :: bool
  pcExternalCalendarId :: "string option"
  pcNeedsReauthentication :: bool
  pcProvider :: string
  pcProviderAccountId :: "string option"
  pcUserId :: string

datatype PushChannelScope =
    CalendarScope (psAccountId: string) string string "string option" string
  | AccountScope (psAccountId: string) string string
  | ChannelScope (psAccountId: string) "string option" string

datatype PushChannelActionType = Deregister | Register | Renew

record PushChannelAction =
  paChannel :: "StoredPushChannel option"
  paPreviousProviderChannelId :: "string option"
  paPreviousProviderResourceId :: "string option"
  paProvider :: string
  paRenewalMode :: "PushChannelRenewalMode option"
  paRequestedExpiresAt :: instant
  paScope :: PushChannelScope
  paType :: PushChannelActionType

datatype PushPlanSkipReason = ExistingChannel | MissingExternalCalendarId | MissingProviderAccountId
  | NeedsReauthentication | NotPull | UnsupportedProvider

datatype CalendarPlanDecision = DecideRegister PushProviderProfile PushChannelScope | DecideSkip PushPlanSkipReason

section \<open>Health\<close>

definition PUSH_NOTIFICATION_FRESHNESS_MS :: int where
  "PUSH_NOTIFICATION_FRESHNESS_MS = 24 * 60 * 60 * 1000"

definition STALE_REGISTERING_MS :: int where
  "STALE_REGISTERING_MS = 10 * 60 * 1000"

definition isPullCalendar :: "EligibleSourceCalendar \<Rightarrow> bool" where
  "isPullCalendar calendar \<longleftrightarrow> \<not> pcDisabled calendar \<and> ''pull'' \<in> set (pcCapabilities calendar)"

definition neverReachedProvider :: "StoredPushChannel \<Rightarrow> bool" where
  "neverReachedProvider channel = (case chState channel of ChFailed \<Rightarrow> True | ChRegistering \<Rightarrow> True | ChRemoved \<Rightarrow> True | _ \<Rightarrow> False)"

text \<open>The health of a channel is the reason why it is not healthy, if there is one.\<close>

definition resolvePushChannelHealth :: "StoredPushChannel \<Rightarrow> instant \<Rightarrow> string option" where
  "resolvePushChannelHealth channel now =
    (case resolvePushProviderProfile (chProvider channel) of
       None \<Rightarrow> Some ''provider_unsupported''
     | Some profile \<Rightarrow>
         if chState channel \<noteq> ChActive then Some ''channel_not_active''
         else (case chExpiresAt channel of
           None \<Rightarrow> Some ''expiry_unknown''
         | Some expiresAt \<Rightarrow>
             if expiresAt - now < resolveRenewalLeadMs (ppMaxLifetimeMs profile) then Some ''expiry_imminent''
             else if chVerifiedAt channel = None then Some ''never_delivered''
             else (case chLastNotificationAt channel of
               None \<Rightarrow> Some ''delivery_stale''
             | Some t \<Rightarrow> if now - t > PUSH_NOTIFICATION_FRESHNESS_MS then Some ''delivery_stale'' else None)))"

definition isIngestPushHealthy :: "StoredPushChannel option \<Rightarrow> bool \<Rightarrow> instant \<Rightarrow> bool" where
  "isIngestPushHealthy channel needsReauthentication now =
    (case channel of None \<Rightarrow> False
     | Some c \<Rightarrow> \<not> needsReauthentication \<and> chProvider c = ''google'' \<and> resolvePushChannelHealth c now = None)"

record AccountCalendarRow =
  acCapabilities :: "string list"
  acDisabled :: bool
  acId :: string

text \<open>The list of the account's calendars is a query, so it is an argument.\<close>

definition resolveAffectedCalendarIds :: "StoredPushChannel \<Rightarrow> (string \<Rightarrow> AccountCalendarRow list) \<Rightarrow> string list" where
  "resolveAffectedCalendarIds channel listAccountCalendars =
    (case chCalendarId channel of
       Some calendarId \<Rightarrow> [calendarId]
     | None \<Rightarrow> map acId (filter (\<lambda>c. \<not> acDisabled c \<and> ''pull'' \<in> set (acCapabilities c)) (listAccountCalendars (chAccountId channel))))"

section \<open>The plan\<close>

definition resolveRequestedExpiresAt :: "(string \<Rightarrow> string) \<Rightarrow> string \<Rightarrow> int \<Rightarrow> instant \<Rightarrow> instant" where
  "resolveRequestedExpiresAt sha256 scopeKey maxLifetimeMs now =
    now + maxLifetimeMs - getDeterministicRefreshOffset sha256 scopeKey mod resolveStaggerPeriodMs maxLifetimeMs"

definition buildCalendarScope :: "EligibleSourceCalendar \<Rightarrow> PushChannelScope option" where
  "buildCalendarScope calendar = map_option (\<lambda>externalCalendarId.
    CalendarScope (pcAccountId calendar) (pcCalendarId calendar) externalCalendarId (pcProviderAccountId calendar) (pcUserId calendar))
    (pcExternalCalendarId calendar)"

definition buildChannelScope :: "StoredPushChannel \<Rightarrow> PushChannelScope" where
  "buildChannelScope channel = ChannelScope (chAccountId channel) (chCalendarId channel) (chUserId channel)"

definition isRegistrationEligible :: "EligibleSourceCalendar \<Rightarrow> bool" where
  "isRegistrationEligible calendar =
    (case resolvePushProviderProfile (pcProvider calendar) of
       None \<Rightarrow> False
     | Some profile \<Rightarrow>
         if ppRequiresProviderAccountId profile \<and> pcProviderAccountId calendar = None then False
         else isPullCalendar calendar \<and> \<not> pcNeedsReauthentication calendar \<and> pcExternalCalendarId calendar \<noteq> None)"

definition resolveCalendarPlanDecision :: "EligibleSourceCalendar \<Rightarrow> bool \<Rightarrow> CalendarPlanDecision" where
  "resolveCalendarPlanDecision calendar hasLiveChannel =
    (if hasLiveChannel then DecideSkip ExistingChannel
     else if \<not> isPullCalendar calendar then DecideSkip NotPull
     else if pcNeedsReauthentication calendar then DecideSkip NeedsReauthentication
     else (case resolvePushProviderProfile (pcProvider calendar) of
       None \<Rightarrow> DecideSkip UnsupportedProvider
     | Some profile \<Rightarrow>
         if pcExternalCalendarId calendar = None then DecideSkip MissingExternalCalendarId
         else if ppRequiresProviderAccountId profile \<and> pcProviderAccountId calendar = None then DecideSkip MissingProviderAccountId
         else (case buildCalendarScope calendar of
           None \<Rightarrow> DecideSkip MissingExternalCalendarId
         | Some scope \<Rightarrow> DecideRegister profile scope)))"

definition isRenewalDue :: "StoredPushChannel \<Rightarrow> int \<Rightarrow> instant \<Rightarrow> bool" where
  "isRenewalDue channel maxLifetimeMs now =
    (if (case chNextAttemptAt channel of Some t \<Rightarrow> t > now | None \<Rightarrow> False) then False
     else if chReauthorizeRequestedAt channel \<noteq> None then True
     else (case chExpiresAt channel of None \<Rightarrow> True | Some e \<Rightarrow> e - now < resolveRenewalLeadMs maxLifetimeMs))"

definition isStaleRegistering :: "StoredPushChannel \<Rightarrow> instant \<Rightarrow> bool" where
  "isStaleRegistering channel now \<longleftrightarrow> now - chUpdatedAt channel \<ge> STALE_REGISTERING_MS"

definition hasNeverActivated :: "StoredPushChannel \<Rightarrow> bool" where
  "hasNeverActivated channel \<longleftrightarrow> chExpiresAt channel = None"

definition isRegistrationRetryable :: "StoredPushChannel \<Rightarrow> bool" where
  "isRegistrationRetryable channel \<longleftrightarrow> chState channel = ChRegistering \<or> hasNeverActivated channel"

definition isRegistrationRetryDue :: "StoredPushChannel \<Rightarrow> instant \<Rightarrow> bool" where
  "isRegistrationRetryDue channel now =
    (case chNextAttemptAt channel of Some t \<Rightarrow> t \<le> now | None \<Rightarrow> isStaleRegistering channel now)"

definition buildEligibleCalendarScope :: "EligibleSourceCalendar option \<Rightarrow> PushChannelScope option" where
  "buildEligibleCalendarScope calendar =
    (case calendar of None \<Rightarrow> None | Some c \<Rightarrow> if isRegistrationEligible c then buildCalendarScope c else None)"

definition buildChannelAction :: "StoredPushChannel \<Rightarrow> PushChannelActionType \<Rightarrow> PushChannelScope
    \<Rightarrow> PushChannelRenewalMode option \<Rightarrow> instant \<Rightarrow> PushChannelAction" where
  "buildChannelAction channel type scope renewalMode requestedExpiresAt =
    \<lparr>paChannel = Some channel, paPreviousProviderChannelId = chProviderChannelId channel,
     paPreviousProviderResourceId = chProviderResourceId channel, paProvider = chProvider channel,
     paRenewalMode = renewalMode, paRequestedExpiresAt = requestedExpiresAt, paScope = scope, paType = type\<rparr>"

definition planStoredChannelAction :: "(string \<Rightarrow> string) \<Rightarrow> StoredPushChannel \<Rightarrow> EligibleSourceCalendar option \<Rightarrow> instant
    \<Rightarrow> PushChannelAction option" where
  "planStoredChannelAction sha256 channel calendar now =
    (case (resolvePushProviderProfile (chProvider channel), buildEligibleCalendarScope calendar) of
       (Some profile, Some scope) \<Rightarrow>
         let requestedExpiresAt = resolveRequestedExpiresAt sha256
               (chProvider channel @ '':'' @ or_else (chCalendarId channel) (chAccountId channel)) (ppMaxLifetimeMs profile) now
         in if isRegistrationRetryable channel
            then (if \<not> isRegistrationRetryDue channel now then None
                  else Some (buildChannelAction channel Register scope (Some (ppRenewalMode profile)) requestedExpiresAt))
            else if \<not> isRenewalDue channel (ppMaxLifetimeMs profile) now then None
            else Some (buildChannelAction channel Renew scope (Some (ppRenewalMode profile)) requestedExpiresAt)
     | (profile, scope) \<Rightarrow>
         Some (buildChannelAction channel Deregister (or_else scope (buildChannelScope channel)) (map_option ppRenewalMode profile) now))"

definition new_channel_action :: "(string \<Rightarrow> string) \<Rightarrow> instant \<Rightarrow> EligibleSourceCalendar \<Rightarrow> PushProviderProfile \<Rightarrow> PushChannelScope
    \<Rightarrow> PushChannelAction" where
  "new_channel_action sha256 now calendar profile scope =
    \<lparr>paChannel = None, paPreviousProviderChannelId = None, paPreviousProviderResourceId = None,
     paProvider = pcProvider calendar, paRenewalMode = Some (ppRenewalMode profile),
     paRequestedExpiresAt = resolveRequestedExpiresAt sha256 (pcProvider calendar @ '':'' @ pcCalendarId calendar)
       (ppMaxLifetimeMs profile) now,
     paScope = scope, paType = Register\<rparr>"

definition liveChannels :: "StoredPushChannel list \<Rightarrow> StoredPushChannel list" where
  "liveChannels channels = filter (\<lambda>c. chState c \<in> LIVE_PUSH_CHANNEL_STATES) channels"

definition channel_actions :: "(string \<Rightarrow> string) \<Rightarrow> instant \<Rightarrow> EligibleSourceCalendar list \<Rightarrow> StoredPushChannel list
    \<Rightarrow> PushChannelAction list" where
  "channel_actions sha256 now calendars channels =
    List.map_filter (\<lambda>channel. planStoredChannelAction sha256 channel
      (map_of (jsmap_of (map (\<lambda>c. (pcCalendarId c, c)) calendars)) (or_else (chCalendarId channel) [])) now) (liveChannels channels)"

definition has_live_channel :: "StoredPushChannel list \<Rightarrow> string \<Rightarrow> bool" where
  "has_live_channel channels calendarId \<longleftrightarrow> list_ex (\<lambda>c. chCalendarId c = Some calendarId) (liveChannels channels)"

definition calendar_actions :: "(string \<Rightarrow> string) \<Rightarrow> instant \<Rightarrow> EligibleSourceCalendar list \<Rightarrow> StoredPushChannel list
    \<Rightarrow> PushChannelAction list" where
  "calendar_actions sha256 now calendars channels =
    List.map_filter (\<lambda>calendar. case resolveCalendarPlanDecision calendar (has_live_channel channels (pcCalendarId calendar)) of
        DecideSkip _ \<Rightarrow> None
      | DecideRegister profile scope \<Rightarrow> Some (new_channel_action sha256 now calendar profile scope)) calendars"

text \<open>The calls of \<open>onCalendarSkipped\<close>.\<close>

definition skipped_calendars :: "EligibleSourceCalendar list \<Rightarrow> StoredPushChannel list \<Rightarrow> (EligibleSourceCalendar \<times> PushPlanSkipReason) list" where
  "skipped_calendars calendars channels =
    List.map_filter (\<lambda>calendar. case resolveCalendarPlanDecision calendar (has_live_channel channels (pcCalendarId calendar)) of
        DecideSkip reason \<Rightarrow> Some (calendar, reason)
      | DecideRegister _ _ \<Rightarrow> None) calendars"

definition planPushChannelActions :: "(string \<Rightarrow> string) \<Rightarrow> string option \<Rightarrow> instant \<Rightarrow> EligibleSourceCalendar list
    \<Rightarrow> StoredPushChannel list \<Rightarrow> PushChannelAction list" where
  "planPushChannelActions sha256 webhookPublicUrl now calendars channels =
    (if \<not> str_truthy webhookPublicUrl then []
     else channel_actions sha256 now calendars channels @ calendar_actions sha256 now calendars channels)"

definition shouldRetainPushChannelAction :: "PushChannelAction \<Rightarrow> StoredPushChannel option \<Rightarrow> instant \<Rightarrow> bool" where
  "shouldRetainPushChannelAction action channel now =
    (if paChannel action = None then True
     else (case channel of None \<Rightarrow> False
       | Some c \<Rightarrow> (case paType action of
           Deregister \<Rightarrow> chState c \<in> LIVE_PUSH_CHANNEL_STATES
         | Register \<Rightarrow> isRegistrationRetryable c \<and> isRegistrationRetryDue c now
         | Renew \<Rightarrow> (case resolvePushProviderProfile (chProvider c) of
             None \<Rightarrow> False
           | Some profile \<Rightarrow> if chState c \<noteq> ChActive \<and> chState c \<noteq> ChDegraded then False
               else isRenewalDue c (ppMaxLifetimeMs profile) now))))"

end
