(* ===== verification/Push_Manage.thy ===== *)
theory Push_Manage
  imports Push_Channels
begin

text \<open>
  The sweep that keeps push channels registered: \<open>core/source/manage-push-channels.ts\<close> whole, over its
  interface of dependencies, each an effect on the world that may throw. Beside the world runs the record
  of the sweep: its counters, and the list of its calls in order, which the code does not keep. The
  actions of a sweep, up to five at a time in the code, run one after another. Fields that are only
  observed are left out.
\<close>

section \<open>Dependencies\<close>

record push_error =
  peMessage :: string
  peChannelGone :: bool

definition isPushChannelGoneError :: "push_error \<Rightarrow> bool" where
  "isPushChannelGoneError error = peChannelGone error"

type_synonym ('w, 'a) push_effect = "('w, push_error, 'a) eff"

record PushChannelRegistration =
  prExpiresAt :: instant
  prProviderChannelId :: string
  prProviderResourceId :: "string option"
  prResourcePath :: string

record ListedPushChannel = PushChannelRegistration +
  lpNotificationUrl :: string

record RegistrarContext =
  rcAccessToken :: string
  rcChannelId :: "string option"
  rcNotificationUrl :: string
  rcNow :: instant
  rcRequestedExpiresAt :: instant

record RegistrarContextRequest =
  rqChannelId :: "string option"
  rqProvider :: string
  rqRequestedExpiresAt :: instant
  rqScope :: PushChannelScope

record 'w SourcePushRegistrar =
  rgDeregister :: "StoredPushChannel \<Rightarrow> RegistrarContext \<Rightarrow> ('w, unit) push_effect"
  rgList :: "(string \<Rightarrow> RegistrarContext \<Rightarrow> ('w, ListedPushChannel list) push_effect) option"
  rgRegister :: "PushChannelScope \<Rightarrow> string \<Rightarrow> RegistrarContext \<Rightarrow> ('w, PushChannelRegistration) push_effect"
  rgRenew :: "StoredPushChannel \<Rightarrow> string option \<Rightarrow> RegistrarContext \<Rightarrow> ('w, PushChannelRegistration) push_effect"
  rgRenewalMode :: PushChannelRenewalMode
  rgSupportsList :: bool

text \<open>A row to insert, and a partial row: the fields that are present are written.\<close>

record NewPushChannel =
  npAccountId :: string
  npCalendarId :: string
  npProvider :: string
  npProviderChannelId :: "string option"
  npSecretHash :: string
  npState :: PushChannelState
  npUserId :: string

record PushChannelUpdate =
  puExpiresAt :: "instant option"
  puFailureCount :: "int option"
  puLastFailureAt :: "instant option option"
  puNextAttemptAt :: "instant option option"
  puProviderChannelId :: "string option option"
  puProviderResourceId :: "string option option"
  puReauthorizeRequestedAt :: "instant option option"
  puResourcePath :: "string option"
  puSecretHash :: "string option"
  puState :: "PushChannelState option"

definition no_update :: PushChannelUpdate where
  "no_update = \<lparr>puExpiresAt = None, puFailureCount = None, puLastFailureAt = None, puNextAttemptAt = None,
    puProviderChannelId = None, puProviderResourceId = None, puReauthorizeRequestedAt = None, puResourcePath = None,
    puSecretHash = None, puState = None\<rparr>"

record 'w ManagePushChannelsDependencies =
  pdCreateRegistrarContext :: "RegistrarContextRequest \<Rightarrow> ('w, RegistrarContext) push_effect"
  pdDeleteNegativeCacheKey :: "string \<Rightarrow> string \<Rightarrow> ('w, unit) push_effect"
  pdGenerateChannelId :: "('w, string) push_effect"
  pdGenerateSecret :: "('w, string) push_effect"
  pdInsertChannel :: "NewPushChannel \<Rightarrow> ('w, StoredPushChannel) push_effect"
  pdNow :: "('w, instant) push_effect"
  pdReadChannel :: "string \<Rightarrow> ('w, StoredPushChannel option) push_effect"
  pdReleaseLock :: "string \<Rightarrow> ('w, unit) push_effect"
  pdResolveRegistrar :: "string \<Rightarrow> 'w SourcePushRegistrar option"
  pdSelectChannels :: "('w, StoredPushChannel list) push_effect"
  pdSelectEligibleCalendars :: "('w, EligibleSourceCalendar list) push_effect"
  pdTryAcquireLock :: "string \<Rightarrow> int \<Rightarrow> ('w, bool) push_effect"
  pdUpdateChannel :: "string \<Rightarrow> PushChannelUpdate \<Rightarrow> ('w, unit) push_effect"
  pdWebhookPublicUrl :: "string option"
  pdSha256 :: "string \<Rightarrow> string"

definition hashPushSecret :: "'w ManagePushChannelsDependencies \<Rightarrow> string \<Rightarrow> string" where
  "hashPushSecret deps secret = pdSha256 deps secret"

definition TICK_LOCK_KEY :: string where "TICK_LOCK_KEY = ''push-channel:tick''"
definition TICK_LOCK_TTL_SECONDS :: int where "TICK_LOCK_TTL_SECONDS = 300"
definition SCOPE_LOCK_TTL_SECONDS :: int where "SCOPE_LOCK_TTL_SECONDS = 120"
definition PUSH_ACTIONS_PER_TICK :: nat where "PUSH_ACTIONS_PER_TICK = 100"
definition MAX_DEREGISTER_ATTEMPTS :: int where "MAX_DEREGISTER_ATTEMPTS = 3"

section \<open>The record of a sweep\<close>

record ManageCounters =
  mcActivatedProviderChannelIds :: "string set"
  mcDeregistered :: nat
  mcDriftUnknownAtProvider :: nat
  mcFailed :: nat
  mcLockContention :: nat
  mcOrphanSuspected :: nat
  mcRegistered :: nat
  mcRenewed :: nat
  mcSkipped :: "PushPlanSkipReason list"

definition createCounters :: ManageCounters where
  "createCounters = \<lparr>mcActivatedProviderChannelIds = {}, mcDeregistered = 0, mcDriftUnknownAtProvider = 0, mcFailed = 0,
    mcLockContention = 0, mcOrphanSuspected = 0, mcRegistered = 0, mcRenewed = 0, mcSkipped = []\<rparr>"

datatype push_call =
    LockTaken string
  | LockReleased string
  | CalendarsSelected "EligibleSourceCalendar list"
  | ChannelsSelected "StoredPushChannel list"
  | ChannelsReread "StoredPushChannel list"
  | Planned "PushChannelAction list"
  | ChannelRead string "StoredPushChannel option"
  | ChannelInserted StoredPushChannel
  | ChannelUpdated string PushChannelUpdate
  | WatchRequested PushChannelScope string RegistrarContext
  | RenewalRequested StoredPushChannel "string option" RegistrarContext
  | StopRequested StoredPushChannel RegistrarContext
  | WatchesListed RegistrarContext "ListedPushChannel list"

record push_notes =
  pnCounters :: ManageCounters
  pnCalls :: "push_call list"

type_synonym ('w, 'a) push = "('w \<times> push_notes, push_error, 'a) eff"

definition reply :: "('w, 'a) push_effect \<Rightarrow> ('a \<Rightarrow> push_call list) \<Rightarrow> ('w, 'a) push" where
  "reply m calls wn = (case m (fst wn) of
     (Inl e, w) \<Rightarrow> (Inl e, (w, snd wn))
   | (Inr x, w) \<Rightarrow> (Inr x, (w, (snd wn)\<lparr>pnCalls := pnCalls (snd wn) @ calls x\<rparr>)))"

definition quietly :: "('w, 'a) push_effect \<Rightarrow> ('w, 'a) push" where
  "quietly m = reply m (\<lambda>_. [])"

definition tell :: "push_call \<Rightarrow> ('w, unit) push" where
  "tell c wn = (Inr (), (fst wn, (snd wn)\<lparr>pnCalls := pnCalls (snd wn) @ [c]\<rparr>))"

definition tally :: "(ManageCounters \<Rightarrow> ManageCounters) \<Rightarrow> ('w, unit) push" where
  "tally f wn = (Inr (), (fst wn, (snd wn)\<lparr>pnCounters := f (pnCounters (snd wn))\<rparr>))"

definition with_counters :: "(ManageCounters \<Rightarrow> ('w, 'a) push) \<Rightarrow> ('w, 'a) push" where
  "with_counters f wn = f (pnCounters (snd wn)) wn"

definition update_channel :: "'w ManagePushChannelsDependencies \<Rightarrow> string \<Rightarrow> PushChannelUpdate \<Rightarrow> ('w, unit) push" where
  "update_channel deps channelId upd = reply (pdUpdateChannel deps channelId upd) (\<lambda>_. [ChannelUpdated channelId upd])"

definition stop_channel :: "'w SourcePushRegistrar \<Rightarrow> StoredPushChannel \<Rightarrow> RegistrarContext \<Rightarrow> ('w, unit) push" where
  "stop_channel registrar channel registrarContext =
    eff_bind (tell (StopRequested channel registrarContext)) (\<lambda>_. quietly (rgDeregister registrar channel registrarContext))"

definition release_push_lock :: "'w ManagePushChannelsDependencies \<Rightarrow> string \<Rightarrow> ('w, unit) push" where
  "release_push_lock deps key = eff_bind (tell (LockReleased key)) (\<lambda>_. quietly (pdReleaseLock deps key))"

section \<open>Registration\<close>

definition resolveScopeLockKey :: "PushChannelAction \<Rightarrow> string" where
  "resolveScopeLockKey action = ''push-channel:'' @ paProvider action @
    (case paScope action of
       CalendarScope _ calendarId _ _ _ \<Rightarrow> '':calendar:'' @ calendarId
     | ChannelScope accountId calendarId _ \<Rightarrow> '':channel:'' @ or_else calendarId accountId
     | AccountScope accountId _ _ \<Rightarrow> '':account:'' @ accountId)"

definition usesClientAssignedChannelId :: "'w SourcePushRegistrar \<Rightarrow> bool" where
  "usesClientAssignedChannelId registrar \<longleftrightarrow> rgRenewalMode registrar = RecreateChannel"

definition generate_when :: "bool \<Rightarrow> ('w, string) push_effect \<Rightarrow> ('w, string option) push" where
  "generate_when b generate =
    (if \<not> b then eff_return None else eff_bind (quietly generate) (\<lambda>v. eff_return (Some v)))"

definition buildActivationUpdates :: "PushChannelRegistration \<Rightarrow> string option \<Rightarrow> PushChannelUpdate" where
  "buildActivationUpdates registration secretHash =
    \<lparr>puExpiresAt = Some (prExpiresAt registration), puFailureCount = Some 0, puLastFailureAt = Some None,
     puNextAttemptAt = Some None, puProviderChannelId = Some (Some (prProviderChannelId registration)),
     puProviderResourceId = Some (prProviderResourceId registration), puReauthorizeRequestedAt = Some None,
     puResourcePath = Some (prResourcePath registration), puSecretHash = secretHash, puState = Some ChActive\<rparr>"

definition backoff_update :: "CalendarBackoffState \<Rightarrow> PushChannelState \<Rightarrow> PushChannelUpdate" where
  "backoff_update backoff finalState = no_update\<lparr>puFailureCount := Some (bsFailureCount backoff),
    puLastFailureAt := Some (bsLastFailureAt backoff), puNextAttemptAt := Some (bsNextAttemptAt backoff),
    puState := Some finalState\<rparr>"

definition applyBackoff :: "StoredPushChannel \<Rightarrow> 'w ManagePushChannelsDependencies \<Rightarrow> PushChannelState \<Rightarrow> ('w, unit) push" where
  "applyBackoff channel deps finalState =
    eff_bind (quietly (pdNow deps)) (\<lambda>now.
    update_channel deps (chId channel) (backoff_update (buildCalendarBackoffState (chFailureCount channel) now) finalState))"

definition activateChannel :: "StoredPushChannel \<Rightarrow> PushChannelRegistration \<Rightarrow> string option
    \<Rightarrow> 'w ManagePushChannelsDependencies \<Rightarrow> string \<Rightarrow> ('w, unit) push" where
  "activateChannel channel registration secretHash deps provider =
    eff_bind (update_channel deps (chId channel) (buildActivationUpdates registration secretHash)) (\<lambda>_.
    eff_bind (tally (\<lambda>c. c\<lparr>mcActivatedProviderChannelIds := insert (prProviderChannelId registration)
        (mcActivatedProviderChannelIds c)\<rparr>)) (\<lambda>_.
    quietly (pdDeleteNegativeCacheKey deps provider (prProviderChannelId registration))))"

text \<open>The row of the channel: a new one, or the existing one with its identifier and secret replaced.\<close>

definition registering_channel :: "NewPushChannel \<Rightarrow> StoredPushChannel option \<Rightarrow> bool
    \<Rightarrow> 'w ManagePushChannelsDependencies \<Rightarrow> ('w, StoredPushChannel) push" where
  "registering_channel row existing countsAsOrphan deps =
    (case existing of
       None \<Rightarrow> reply (pdInsertChannel deps row) (\<lambda>inserted. [ChannelInserted inserted])
     | Some channel \<Rightarrow>
         eff_bind (if countsAsOrphan then tally (\<lambda>c. c\<lparr>mcOrphanSuspected := mcOrphanSuspected c + 1\<rparr>) else eff_return ()) (\<lambda>_.
         eff_bind (update_channel deps (chId channel) (no_update\<lparr>puProviderChannelId := Some (npProviderChannelId row),
             puSecretHash := Some (npSecretHash row), puState := Some ChRegistering\<rparr>)) (\<lambda>_.
         eff_return channel)))"

definition request_watch :: "PushChannelAction \<Rightarrow> 'w SourcePushRegistrar \<Rightarrow> StoredPushChannel \<Rightarrow> string option \<Rightarrow> string
    \<Rightarrow> 'w ManagePushChannelsDependencies \<Rightarrow> ('w, unit) push" where
  "request_watch action registrar channel clientChannelId secret deps =
    eff_bind (quietly (pdCreateRegistrarContext deps \<lparr>rqChannelId = clientChannelId, rqProvider = paProvider action,
        rqRequestedExpiresAt = paRequestedExpiresAt action, rqScope = paScope action\<rparr>)) (\<lambda>registrarContext.
    eff_bind (tell (WatchRequested (paScope action) secret registrarContext)) (\<lambda>_.
    eff_bind (quietly (rgRegister registrar (paScope action) secret registrarContext)) (\<lambda>registration.
    eff_bind (activateChannel channel registration (Some (hashPushSecret deps secret)) deps (paProvider action)) (\<lambda>_.
    tally (\<lambda>c. c\<lparr>mcRegistered := mcRegistered c + 1\<rparr>)))))"

definition runRegisterAction :: "PushChannelAction \<Rightarrow> 'w SourcePushRegistrar \<Rightarrow> StoredPushChannel option
    \<Rightarrow> 'w ManagePushChannelsDependencies \<Rightarrow> bool \<Rightarrow> ('w, unit) push" where
  "runRegisterAction action registrar existing deps countsAsOrphan =
    (case paScope action of
       CalendarScope accountId calendarId _ _ userId \<Rightarrow>
         eff_bind (quietly (pdGenerateSecret deps)) (\<lambda>secret.
         eff_bind (generate_when (usesClientAssignedChannelId registrar) (pdGenerateChannelId deps)) (\<lambda>clientChannelId.
         eff_bind (registering_channel \<lparr>npAccountId = accountId, npCalendarId = calendarId, npProvider = paProvider action,
             npProviderChannelId = clientChannelId, npSecretHash = hashPushSecret deps secret, npState = ChRegistering,
             npUserId = userId\<rparr> existing countsAsOrphan deps) (\<lambda>channel.
         eff_catch (request_watch action registrar channel clientChannelId secret deps) (\<lambda>_.
           eff_bind (applyBackoff channel deps ChRegistering) (\<lambda>_.
           tally (\<lambda>c. c\<lparr>mcFailed := mcFailed c + 1\<rparr>))))))
     | _ \<Rightarrow> eff_return ())"

section \<open>Renewal\<close>

definition stopSupersededChannel :: "PushChannelAction \<Rightarrow> 'w SourcePushRegistrar \<Rightarrow> StoredPushChannel \<Rightarrow> PushChannelRegistration
    \<Rightarrow> RegistrarContext \<Rightarrow> ('w, unit) push" where
  "stopSupersededChannel action registrar channel registration registrarContext =
    (case paPreviousProviderChannelId action of
       None \<Rightarrow> eff_return ()
     | Some previousChannelId \<Rightarrow>
         if previousChannelId = prProviderChannelId registration then eff_return ()
         else eff_catch
           (eff_bind (stop_channel registrar (channel\<lparr>chProviderChannelId := Some previousChannelId,
               chProviderResourceId := paPreviousProviderResourceId action\<rparr>) registrarContext) (\<lambda>_.
            tally (\<lambda>c. c\<lparr>mcDeregistered := mcDeregistered c + 1\<rparr>)))
           (\<lambda>_. eff_return ()))"

datatype RenewalAttempt = RenewalFailed push_error | RenewalGone push_error
  | Renewed RegistrarContext PushChannelRegistration

definition attemptRenewal :: "PushChannelAction \<Rightarrow> 'w SourcePushRegistrar \<Rightarrow> StoredPushChannel \<Rightarrow> string option \<Rightarrow> bool
    \<Rightarrow> 'w ManagePushChannelsDependencies \<Rightarrow> ('w, RenewalAttempt) push" where
  "attemptRenewal action registrar channel secret recreates deps =
    eff_catch
      (eff_bind (generate_when recreates (pdGenerateChannelId deps)) (\<lambda>channelId.
       eff_bind (quietly (pdCreateRegistrarContext deps \<lparr>rqChannelId = channelId, rqProvider = paProvider action,
           rqRequestedExpiresAt = paRequestedExpiresAt action, rqScope = paScope action\<rparr>)) (\<lambda>registrarContext.
       eff_bind (tell (RenewalRequested channel secret registrarContext)) (\<lambda>_.
       eff_bind (quietly (rgRenew registrar channel secret registrarContext)) (\<lambda>registration.
       eff_return (Renewed registrarContext registration))))))
      (\<lambda>error. eff_return (if isPushChannelGoneError error then RenewalGone error else RenewalFailed error))"

definition runRenewAction :: "PushChannelAction \<Rightarrow> 'w SourcePushRegistrar \<Rightarrow> StoredPushChannel
    \<Rightarrow> 'w ManagePushChannelsDependencies \<Rightarrow> ('w, unit) push" where
  "runRenewAction action registrar channel deps =
    (let recreates = usesClientAssignedChannelId registrar in
     eff_bind (generate_when recreates (pdGenerateSecret deps)) (\<lambda>secret.
     let secretHash = map_option (hashPushSecret deps) secret in
     eff_bind (attemptRenewal action registrar channel secret recreates deps) (\<lambda>attempt.
     case attempt of
       RenewalGone _ \<Rightarrow> runRegisterAction action registrar (Some channel) deps False
     | RenewalFailed _ \<Rightarrow>
         eff_bind (applyBackoff channel deps ChDegraded) (\<lambda>_. tally (\<lambda>c. c\<lparr>mcFailed := mcFailed c + 1\<rparr>))
     | Renewed registrarContext registration \<Rightarrow>
         eff_bind (activateChannel channel registration secretHash deps (paProvider action)) (\<lambda>_.
         eff_bind (tally (\<lambda>c. c\<lparr>mcRenewed := mcRenewed c + 1\<rparr>)) (\<lambda>_.
         if recreates then stopSupersededChannel action registrar channel registration registrarContext else eff_return ())))))"

section \<open>Deregistration\<close>

definition runDeregisterAction :: "PushChannelAction \<Rightarrow> 'w SourcePushRegistrar option \<Rightarrow> StoredPushChannel
    \<Rightarrow> 'w ManagePushChannelsDependencies \<Rightarrow> ('w, unit) push" where
  "runDeregisterAction action registrar channel deps =
    (case (registrar, chProviderChannelId channel) of
       (Some r, Some channelId) \<Rightarrow>
         eff_catch
           (eff_bind (quietly (pdCreateRegistrarContext deps \<lparr>rqChannelId = Some channelId, rqProvider = paProvider action,
               rqRequestedExpiresAt = paRequestedExpiresAt action, rqScope = paScope action\<rparr>)) (\<lambda>registrarContext.
            eff_bind (stop_channel r channel registrarContext) (\<lambda>_.
            eff_bind (update_channel deps (chId channel) (no_update\<lparr>puState := Some ChRemoved\<rparr>)) (\<lambda>_.
            tally (\<lambda>c. c\<lparr>mcDeregistered := mcDeregistered c + 1\<rparr>)))))
           (\<lambda>_. if chFailureCount channel + 1 \<ge> MAX_DEREGISTER_ATTEMPTS
             then eff_bind (update_channel deps (chId channel) (no_update\<lparr>puState := Some ChFailed\<rparr>)) (\<lambda>_.
               tally (\<lambda>c. c\<lparr>mcFailed := mcFailed c + 1\<rparr>))
             else applyBackoff channel deps (chState channel))
     | _ \<Rightarrow> eff_bind (update_channel deps (chId channel) (no_update\<lparr>puState := Some ChFailed\<rparr>)) (\<lambda>_.
         tally (\<lambda>c. c\<lparr>mcFailed := mcFailed c + 1\<rparr>)))"

section \<open>An action\<close>

definition readCurrentChannel :: "PushChannelAction \<Rightarrow> 'w ManagePushChannelsDependencies \<Rightarrow> ('w, StoredPushChannel option) push" where
  "readCurrentChannel action deps =
    (case paChannel action of None \<Rightarrow> eff_return None
     | Some c \<Rightarrow> reply (pdReadChannel deps (chId c)) (\<lambda>row. [ChannelRead (chId c) row]))"

definition act_on :: "PushChannelAction \<Rightarrow> 'w ManagePushChannelsDependencies \<Rightarrow> ('w, unit) push" where
  "act_on action deps =
    eff_bind (readCurrentChannel action deps) (\<lambda>current.
    eff_bind (quietly (pdNow deps)) (\<lambda>now.
    if \<not> shouldRetainPushChannelAction action current now then eff_return ()
    else let registrar = pdResolveRegistrar deps (paProvider action) in
      case paType action of
        Deregister \<Rightarrow> (case current of None \<Rightarrow> eff_return () | Some c \<Rightarrow> runDeregisterAction action registrar c deps)
      | Renew \<Rightarrow> (case registrar of None \<Rightarrow> eff_return ()
          | Some r \<Rightarrow> (case current of None \<Rightarrow> eff_return () | Some c \<Rightarrow> runRenewAction action r c deps))
      | Register \<Rightarrow> (case registrar of None \<Rightarrow> eff_return () | Some r \<Rightarrow> runRegisterAction action r current deps True)))"

text \<open>\<open>refused\<close>: what is done when another holder has the lock.\<close>

definition under_lock :: "'w ManagePushChannelsDependencies \<Rightarrow> string \<Rightarrow> int \<Rightarrow> ('w, unit) push \<Rightarrow> ('w, unit) push \<Rightarrow> ('w, unit) push" where
  "under_lock deps key ttlSeconds refused body =
    eff_bind (reply (pdTryAcquireLock deps key ttlSeconds) (\<lambda>ok. if ok then [LockTaken key] else [])) (\<lambda>acquired.
    if \<not> acquired then refused else eff_finally body (release_push_lock deps key))"

definition runAction :: "PushChannelAction \<Rightarrow> 'w ManagePushChannelsDependencies \<Rightarrow> ('w, unit) push" where
  "runAction action deps =
    under_lock deps (resolveScopeLockKey action) SCOPE_LOCK_TTL_SECONDS
      (tally (\<lambda>c. c\<lparr>mcLockContention := mcLockContention c + 1\<rparr>)) (act_on action deps)"

definition settle_action :: "'w ManagePushChannelsDependencies \<Rightarrow> PushChannelAction \<Rightarrow> ('w, unit) push" where
  "settle_action deps action =
    eff_catch (runAction action deps) (\<lambda>_. tally (\<lambda>c. c\<lparr>mcFailed := mcFailed c + 1\<rparr>))"

section \<open>Drift\<close>

definition toOrphanChannel :: "ListedPushChannel \<Rightarrow> EligibleSourceCalendar \<Rightarrow> instant \<Rightarrow> StoredPushChannel" where
  "toOrphanChannel orphan calendar now =
    \<lparr>chAccountId = pcAccountId calendar, chCalendarId = None, chCreatedAt = now, chExpiresAt = Some (prExpiresAt orphan),
     chFailureCount = 0, chId = prProviderChannelId orphan, chLastFailureAt = None, chLastNotificationAt = None,
     chNextAttemptAt = None, chProvider = pcProvider calendar, chProviderChannelId = Some (prProviderChannelId orphan),
     chProviderResourceId = prProviderResourceId orphan, chReauthorizeRequestedAt = None,
     chResourcePath = Some (prResourcePath orphan), chSecretHash = [], chState = ChRemoved, chUpdatedAt = now,
     chUserId = pcUserId calendar, chVerifiedAt = None\<rparr>"

definition isDriftEligible :: "EligibleSourceCalendar \<Rightarrow> 'w SourcePushRegistrar option \<Rightarrow> bool" where
  "isDriftEligible calendar registrar =
    (case registrar of None \<Rightarrow> False
     | Some r \<Rightarrow> rgSupportsList r \<and> rgList r \<noteq> None \<and> \<not> pcNeedsReauthentication calendar \<and> pcProviderAccountId calendar \<noteq> None)"

definition stop_orphan :: "'w ManagePushChannelsDependencies \<Rightarrow> 'w SourcePushRegistrar \<Rightarrow> EligibleSourceCalendar \<Rightarrow> RegistrarContext
    \<Rightarrow> ListedPushChannel \<Rightarrow> ('w, unit) push" where
  "stop_orphan deps registrar calendar registrarContext orphan =
    eff_bind (tally (\<lambda>c. c\<lparr>mcDriftUnknownAtProvider := mcDriftUnknownAtProvider c + 1\<rparr>)) (\<lambda>_.
    eff_bind (quietly (pdNow deps)) (\<lambda>now.
    stop_channel registrar (toOrphanChannel orphan calendar now) registrarContext))"

definition reconcileAccountDrift :: "EligibleSourceCalendar \<Rightarrow> string \<Rightarrow> 'w SourcePushRegistrar \<Rightarrow> string set
    \<Rightarrow> 'w ManagePushChannelsDependencies \<Rightarrow> ('w, unit) push" where
  "reconcileAccountDrift calendar providerAccountId registrar knownChannelIds deps =
    (case rgList registrar of None \<Rightarrow> eff_return ()
     | Some list_watches \<Rightarrow>
         eff_bind (quietly (pdNow deps)) (\<lambda>now.
         eff_bind (quietly (pdCreateRegistrarContext deps \<lparr>rqChannelId = None, rqProvider = pcProvider calendar,
             rqRequestedExpiresAt = now, rqScope = AccountScope (pcAccountId calendar) providerAccountId (pcUserId calendar)\<rparr>))
           (\<lambda>registrarContext.
         eff_bind (reply (list_watches (pcAccountId calendar) registrarContext) (\<lambda>ls. [WatchesListed registrarContext ls])) (\<lambda>listed.
         eff_each (stop_orphan deps registrar calendar registrarContext)
           (filter (\<lambda>s. lpNotificationUrl s = rcNotificationUrl registrarContext
             \<and> prProviderChannelId s \<notin> knownChannelIds) listed)))))"

definition drift_accounts :: "'w ManagePushChannelsDependencies \<Rightarrow> EligibleSourceCalendar list \<Rightarrow> (string, EligibleSourceCalendar) jsmap" where
  "drift_accounts deps calendars =
    fold (\<lambda>calendar accounts. if isDriftEligible calendar (pdResolveRegistrar deps (pcProvider calendar))
        \<and> map_of accounts (pcAccountId calendar) = None then accounts @ [(pcAccountId calendar, calendar)] else accounts) calendars []"

definition reconcile_account :: "'w ManagePushChannelsDependencies \<Rightarrow> string set \<Rightarrow> string \<times> EligibleSourceCalendar \<Rightarrow> ('w, unit) push" where
  "reconcile_account deps knownChannelIds account =
    (case (pdResolveRegistrar deps (pcProvider (snd account)), pcProviderAccountId (snd account)) of
       (Some registrar, Some providerAccountId) \<Rightarrow>
         under_lock deps (''push-channel:'' @ pcProvider (snd account) @ '':drift:'' @ fst account) SCOPE_LOCK_TTL_SECONDS (eff_return ())
           (eff_catch (reconcileAccountDrift (snd account) providerAccountId registrar knownChannelIds deps) (\<lambda>_. eff_return ()))
     | _ \<Rightarrow> eff_return ())"

definition known_channel_ids :: "ManageCounters \<Rightarrow> StoredPushChannel list \<Rightarrow> string set" where
  "known_channel_ids counters channels =
    mcActivatedProviderChannelIds counters \<union> set (List.map_filter chProviderChannelId channels)"

definition reconcileProviderDrift :: "EligibleSourceCalendar list \<Rightarrow> 'w ManagePushChannelsDependencies \<Rightarrow> ('w, unit) push" where
  "reconcileProviderDrift calendars deps =
    (if \<not> str_truthy (pdWebhookPublicUrl deps) then eff_return ()
     else eff_bind (reply (pdSelectChannels deps) (\<lambda>cs. [ChannelsReread cs])) (\<lambda>currentChannels.
       with_counters (\<lambda>counters.
       eff_each (reconcile_account deps (known_channel_ids counters currentChannels)) (drift_accounts deps calendars))))"

section \<open>The sweep\<close>

definition sweep :: "'w ManagePushChannelsDependencies \<Rightarrow> ('w, unit) push" where
  "sweep deps =
    eff_bind (reply (pdSelectEligibleCalendars deps) (\<lambda>cs. [CalendarsSelected cs])) (\<lambda>calendars.
    eff_bind (reply (pdSelectChannels deps) (\<lambda>cs. [ChannelsSelected cs])) (\<lambda>channels.
    eff_bind (quietly (pdNow deps)) (\<lambda>_.
    eff_bind (quietly (pdNow deps)) (\<lambda>now.
    let actions = planPushChannelActions (pdSha256 deps) (pdWebhookPublicUrl deps) now calendars channels in
    eff_bind (tally (\<lambda>c. c\<lparr>mcSkipped := mcSkipped c @ map snd (skipped_calendars calendars channels)\<rparr>)) (\<lambda>_.
    eff_bind (tell (Planned actions)) (\<lambda>_.
    eff_bind (eff_each (settle_action deps) (take PUSH_ACTIONS_PER_TICK actions)) (\<lambda>_.
    reconcileProviderDrift calendars deps)))))))"

definition runManagePushChannels :: "'w ManagePushChannelsDependencies \<Rightarrow> ('w, unit) push" where
  "runManagePushChannels deps =
    (if \<not> str_truthy (pdWebhookPublicUrl deps) then eff_return ()
     else under_lock deps TICK_LOCK_KEY TICK_LOCK_TTL_SECONDS (eff_return ()) (sweep deps))"

end
