(* ===== verification/Push_Manage_Correct.thy ===== *)
theory Push_Manage_Correct
  imports Push_Manage Destination_Attempt_Correct
begin

text \<open>
  What a sweep of the push channels keeps, whatever its dependencies do: it works under its locks and gives
  them back, and it stops a channel at the provider only for one of three reasons.
\<close>

section \<open>Locks\<close>

text \<open>The calls that work on one channel; they need the lock of the sweep and one of their own.\<close>

fun works :: "push_call \<Rightarrow> bool" where
  "works (ChannelRead _ _) = True"
| "works (ChannelInserted _) = True"
| "works (ChannelUpdated _ _) = True"
| "works (WatchRequested _ _ _) = True"
| "works (RenewalRequested _ _ _) = True"
| "works (StopRequested _ _) = True"
| "works (WatchesListed _ _) = True"
| "works _ = False"

text \<open>The locks that are held after some calls, the newest first; none when the calls break the discipline.\<close>

fun locks_after :: "string list \<Rightarrow> push_call list \<Rightarrow> string list option" where
  "locks_after held [] = Some held"
| "locks_after held (LockTaken key # cs) = locks_after (key # held) cs"
| "locks_after held (LockReleased key # cs) =
    (case held of k # ks \<Rightarrow> if k = key then locks_after ks cs else None | [] \<Rightarrow> None)"
| "locks_after held (c # cs) = (if works c \<and> length held < 2 then None else locks_after held cs)"

lemma locks_after_append:
  "locks_after held cs = Some held' \<Longrightarrow> locks_after held (cs @ ds) = locks_after held' ds"
  by (induction held cs rule: locks_after.induct) (auto split: list.splits if_splits)

definition locked :: "string list \<Rightarrow> push_call list \<Rightarrow> bool" where
  "locked held cs \<longleftrightarrow> locks_after held cs = Some held"

lemma locked_append: "locked held cs \<Longrightarrow> locked held ds \<Longrightarrow> locked held (cs @ ds)"
  by (simp add: locked_def locks_after_append)

lemma locked_one: "(\<And>key. c \<noteq> LockTaken key \<and> c \<noteq> LockReleased key) \<Longrightarrow> works c \<longrightarrow> length held \<ge> 2 \<Longrightarrow> locked held [c]"
  by (cases c) (auto simp: locked_def)

text \<open>The calls of a run, under a discipline.\<close>

definition disciplined :: "string list \<Rightarrow> 'w \<times> push_notes \<Rightarrow> 'w \<times> push_notes \<Rightarrow> bool" where
  "disciplined held a b \<longleftrightarrow> (\<exists>t. pnCalls (snd b) = pnCalls (snd a) @ t \<and> locked held t)"

interpretation lk: frame "disciplined held"
proof
  show "disciplined held w w" for held and w :: "'a \<times> push_notes"
    by (simp add: disciplined_def locked_def)
next
  fix held :: "string list" and u v w :: "'a \<times> push_notes"
  assume "disciplined held u v" "disciplined held v w"
  then obtain s t where "pnCalls (snd v) = pnCalls (snd u) @ s" "locked held s"
      "pnCalls (snd w) = pnCalls (snd v) @ t" "locked held t"
    by (auto simp: disciplined_def)
  then have "pnCalls (snd w) = pnCalls (snd u) @ (s @ t)" "locked held (s @ t)"
    by (simp_all add: locked_append)
  then show "disciplined held u w" unfolding disciplined_def by blast
qed

lemma disciplined_reply:
  assumes "\<And>x. locked held (calls x)"
  shows "framed (disciplined held) (reply m calls)"
proof (rule respectsI)
  fix w r w' assume "reply m calls w = (r, w')"
  then show "disciplined held w w'"
    using assms by (auto simp: reply_def disciplined_def locked_def split: prod.splits sum.splits)
qed

lemma disciplined_quietly: "framed (disciplined held) (quietly m)"
  unfolding quietly_def by (rule disciplined_reply) (simp add: locked_def)

lemma disciplined_tell: "locked held [c] \<Longrightarrow> framed (disciplined held) (tell c)"
  by (auto simp: framed_def tell_def disciplined_def)

lemma disciplined_tally: "framed (disciplined held) (tally f)"
  by (auto simp: framed_def tally_def disciplined_def locked_def)

lemma disciplined_with_counters: "(\<And>c. framed (disciplined held) (f c)) \<Longrightarrow> framed (disciplined held) (with_counters f)"
  by (simp add: framed_def with_counters_def)

lemma disciplined_catch:
  assumes "framed (disciplined held) m" "\<And>e. framed (disciplined held) (h e)"
  shows "framed (disciplined held) (eff_catch m h)"
proof (rule respectsI)
  fix w r w' assume run: "eff_catch m h w = (r, w')"
  obtain q v where q: "m w = (q, v)" by (cases "m w")
  have first: "disciplined held w v" by (rule respectsD [OF assms(1) q])
  show "disciplined held w w'"
  proof (cases q)
    case (Inl e)
    then have "h e v = (r, w')" using run q by (simp add: eff_catch_def)
    then show ?thesis using lk.frame_trans [OF first respectsD [OF assms(2)]] by blast
  qed (use run q first in \<open>simp add: eff_catch_def\<close>)
qed

lemmas locks_basic = lk.respects_return lk.respects_bind disciplined_quietly disciplined_tally disciplined_catch
  disciplined_with_counters

lemma release_calls: "pnCalls (snd (snd (release_push_lock deps key wn))) = pnCalls (snd wn) @ [LockReleased key]"
  by (auto simp: release_push_lock_def eff_bind_def tell_def quietly_def reply_def split: prod.splits sum.splits)

lemma disciplined_under_lock:
  assumes body: "framed (disciplined (key # held)) body" and refused: "framed (disciplined held) refused"
  shows "framed (disciplined held) (under_lock deps key ttl refused body)"
proof (rule respectsI)
  fix w r w' assume run: "under_lock deps key ttl refused body w = (r, w')"
  obtain q v where q: "pdTryAcquireLock deps key ttl (fst w) = (q, v)" by (cases "pdTryAcquireLock deps key ttl (fst w)")
  consider (failed) e where "q = Inl e" | (refused) "q = Inr False" | (taken) "q = Inr True" by (cases q) auto
  then show "disciplined held w w'"
  proof cases
    case failed
    then show ?thesis using run q by (auto simp: under_lock_def eff_bind_def reply_def disciplined_def locked_def)
  next
    case refused
    then have "refused (v, snd w) = (r, w')" using run q by (simp add: under_lock_def eff_bind_def reply_def)
    from respectsD [OF assms(2) this] show ?thesis by (auto simp: disciplined_def)
  next
    case taken
    let ?w = "(v, (snd w)\<lparr>pnCalls := pnCalls (snd w) @ [LockTaken key]\<rparr>)"
    have fin: "eff_finally body (release_push_lock deps key) ?w = (r, w')"
      using run q taken by (simp add: under_lock_def eff_bind_def reply_def)
    obtain s u where s: "body ?w = (s, u)" by (cases "body ?w")
    obtain t where t: "pnCalls (snd u) = pnCalls (snd w) @ LockTaken key # t" "locked (key # held) t"
      using respectsD [OF body s] by (auto simp: disciplined_def)
    have "w' = snd (release_push_lock deps key u)"
      using fin s by (auto simp: eff_finally_def split: prod.splits sum.splits)
    then have "pnCalls (snd w') = pnCalls (snd w) @ (LockTaken key # t @ [LockReleased key])"
      using release_calls [of deps key u] t by simp
    moreover have "locked held (LockTaken key # t @ [LockReleased key])"
      using t(2) by (simp add: locked_def locks_after_append)
    ultimately show ?thesis unfolding disciplined_def by blast
  qed
qed

text \<open>The work on one channel, under two locks.\<close>

lemma two_locks: "locked (k # l # held) [c]" if "\<And>key. c \<noteq> LockTaken key \<and> c \<noteq> LockReleased key"
  by (rule locked_one [OF that]) simp

lemma disciplined_each: "(\<And>x. framed (disciplined held) (f x)) \<Longrightarrow> framed (disciplined held) (eff_each f xs)"
  by (rule lk.respects_each)

lemma work_reply: "(\<And>x. works (c x)) \<Longrightarrow> framed (disciplined (k # l # held)) (reply m (\<lambda>x. [c x]))"
  by (rule disciplined_reply, rule two_locks) (metis works.simps(8,9))

lemma work_tell: "works c \<Longrightarrow> framed (disciplined (k # l # held)) (tell c)"
  by (rule disciplined_tell, rule two_locks) (metis works.simps(8,9))

lemma work_steps:
  "framed (disciplined (k # l # held)) (update_channel deps i u)"
  "framed (disciplined (k # l # held)) (stop_channel registrar ch rctx)"
  "framed (disciplined (k # l # held)) (generate_when b m)"
  by (auto simp: update_channel_def stop_channel_def generate_when_def intro!: locks_basic work_reply work_tell)

lemmas work_basic = locks_basic work_reply work_tell work_steps

lemma disciplined_applyBackoff: "framed (disciplined (k # l # held)) (applyBackoff ch deps st)"
  unfolding applyBackoff_def by (intro work_basic)

lemma disciplined_activate: "framed (disciplined (k # l # held)) (activateChannel ch reg h deps p)"
  unfolding activateChannel_def by (intro work_basic)

lemma disciplined_register: "framed (disciplined (k # l # held)) (runRegisterAction action registrar existing deps b)"
  unfolding runRegisterAction_def registering_channel_def request_watch_def
  by (cases "paScope action"; cases existing)
    (auto intro!: work_basic disciplined_applyBackoff disciplined_activate)

lemma disciplined_renew: "framed (disciplined (k # l # held)) (runRenewAction action registrar ch deps)"
  unfolding runRenewAction_def attemptRenewal_def stopSupersededChannel_def Let_def
  by (auto intro!: work_basic disciplined_applyBackoff disciplined_activate disciplined_register
      split: RenewalAttempt.split option.split)

lemma disciplined_deregister: "framed (disciplined (k # l # held)) (runDeregisterAction action registrar ch deps)"
  unfolding runDeregisterAction_def
  by (cases registrar; cases "chProviderChannelId ch") (auto intro!: work_basic disciplined_applyBackoff)

lemma disciplined_act: "framed (disciplined (k # l # held)) (act_on action deps)"
  unfolding act_on_def readCurrentChannel_def Let_def
  by (auto intro!: work_basic disciplined_register disciplined_renew disciplined_deregister
      split: option.split PushChannelActionType.split)

lemma disciplined_settle: "framed (disciplined (l # held)) (settle_action deps action)"
  unfolding settle_action_def runAction_def
  by (intro locks_basic disciplined_under_lock disciplined_act)

lemma disciplined_account: "framed (disciplined (l # held)) (reconcile_account deps known account)"
  unfolding reconcile_account_def reconcileAccountDrift_def stop_orphan_def
  by (auto intro!: disciplined_under_lock work_basic disciplined_each split: option.split)

lemma disciplined_sweep: "framed (disciplined (l # held)) (sweep deps)"
  unfolding sweep_def reconcileProviderDrift_def Let_def
  by (auto intro!: locks_basic disciplined_each disciplined_settle disciplined_account disciplined_reply disciplined_tell
      simp: locked_def)

lemma disciplined_run: "framed (disciplined held) (runManagePushChannels deps)"
  unfolding runManagePushChannels_def by (auto intro!: locks_basic disciplined_under_lock disciplined_sweep)


end
