(* ===== verification/Push_Stops.thy ===== *)
theory Push_Stops
  imports Push_Manage_Correct
begin

text \<open>
  Why a sweep stops a channel at its provider. A property of the calls so far that further calls keep is
  carried from statement to statement; each request to stop a channel is judged by the calls before it.
\<close>

section \<open>Reasons\<close>

definition activates :: "string \<Rightarrow> push_call \<Rightarrow> bool" where
  "activates channelId c = (case c of ChannelUpdated _ u \<Rightarrow> puState u = Some ChActive \<and> puProviderChannelId u = Some (Some channelId) | _ \<Rightarrow> False)"

definition row_ids :: "StoredPushChannel list \<Rightarrow> string set" where
  "row_ids rows = set (List.map_filter chProviderChannelId rows)"

definition planned :: "PushChannelActionType \<Rightarrow> push_call list \<Rightarrow> PushChannelAction \<Rightarrow> StoredPushChannel \<Rightarrow> bool" where
  "planned type calls action row \<longleftrightarrow> (\<exists>actions c. Planned actions \<in> set calls \<and> action \<in> set actions \<and> paType action = type
    \<and> paChannel action = Some c \<and> ChannelRead (chId c) (Some row) \<in> set calls)"

text \<open>The channel is one that the plan deregisters; or its row has been given a new channel; or it is unknown.\<close>

definition unplanned :: "push_call list \<Rightarrow> StoredPushChannel \<Rightarrow> bool" where
  "unplanned calls ch \<longleftrightarrow> (\<exists>action. planned Deregister calls action ch)"

definition replaced :: "push_call list \<Rightarrow> StoredPushChannel \<Rightarrow> bool" where
  "replaced calls ch \<longleftrightarrow> (\<exists>action row old new u. planned Renew calls action row \<and> chProviderChannelId ch = Some old
    \<and> paPreviousProviderChannelId action = Some old \<and> ChannelUpdated (chId row) u \<in> set calls \<and> activates new (ChannelUpdated (chId row) u)
    \<and> new \<noteq> old)"

definition unknown_at :: "push_call list \<Rightarrow> string \<Rightarrow> bool" where
  "unknown_at calls i \<longleftrightarrow> (\<exists>before rows after. calls = before @ ChannelsReread rows # after \<and> i \<notin> row_ids rows
    \<and> \<not> list_ex (activates i) before)"

definition orphaned :: "push_call list \<Rightarrow> StoredPushChannel \<Rightarrow> RegistrarContext \<Rightarrow> bool" where
  "orphaned calls ch rctx \<longleftrightarrow> (\<exists>i listed s. chProviderChannelId ch = Some i \<and> WatchesListed rctx listed \<in> set calls \<and> s \<in> set listed
    \<and> prProviderChannelId s = i \<and> lpNotificationUrl s = rcNotificationUrl rctx \<and> unknown_at calls i)"

definition may_stop :: "push_call list \<Rightarrow> StoredPushChannel \<Rightarrow> RegistrarContext \<Rightarrow> bool" where
  "may_stop calls ch rctx \<longleftrightarrow> unplanned calls ch \<or> replaced calls ch \<or> orphaned calls ch rctx"

definition stops_justified :: "push_call list \<Rightarrow> bool" where
  "stops_justified calls \<longleftrightarrow> (\<forall>before ch rctx after. calls = before @ StopRequested ch rctx # after \<longrightarrow> may_stop before ch rctx)"

lemma stops_justified_snoc:
  "stops_justified (calls @ [c]) \<longleftrightarrow> stops_justified calls \<and> (\<forall>ch rctx. c = StopRequested ch rctx \<longrightarrow> may_stop calls ch rctx)"
proof (intro iffI conjI allI impI)
  fix ch rctx assume a: "stops_justified (calls @ [c])" "c = StopRequested ch rctx"
  then have "calls @ [c] = calls @ StopRequested ch rctx # []" by simp
  with a(1) show "may_stop calls ch rctx" unfolding stops_justified_def by blast
next
  assume a: "stops_justified (calls @ [c])"
  show "stops_justified calls"
    unfolding stops_justified_def
  proof (intro allI impI)
    fix b ch rctx d assume "calls = b @ StopRequested ch rctx # d"
    then have "calls @ [c] = b @ StopRequested ch rctx # (d @ [c])" by simp
    with a show "may_stop b ch rctx" unfolding stops_justified_def by blast
  qed
next
  assume a: "stops_justified calls \<and> (\<forall>ch rctx. c = StopRequested ch rctx \<longrightarrow> may_stop calls ch rctx)"
  show "stops_justified (calls @ [c])"
    unfolding stops_justified_def
  proof (intro allI impI)
    fix b ch rctx d assume eq: "calls @ [c] = b @ StopRequested ch rctx # d"
    show "may_stop b ch rctx"
    proof (cases d rule: rev_cases)
      case Nil
      then show ?thesis using eq a by auto
    next
      case (snoc d' x)
      then have "calls = b @ StopRequested ch rctx # d'" using eq by simp
      with a show ?thesis unfolding stops_justified_def by blast
    qed
  qed
qed

section \<open>Statements\<close>

definition note_ok :: "push_notes \<Rightarrow> bool" where
  "note_ok n \<longleftrightarrow> stops_justified (pnCalls n)
    \<and> (\<forall>c \<in> set (pnCalls n). \<forall>i. activates i c \<longrightarrow> i \<in> mcActivatedProviderChannelIds (pnCounters n))"

definition persists :: "(push_call list \<Rightarrow> bool) \<Rightarrow> bool" where
  "persists P \<longleftrightarrow> (\<forall>cs ds. P cs \<longrightarrow> P (cs @ ds))"

definition achieves :: "(push_call list \<Rightarrow> bool) \<Rightarrow> ('w, 'a) push \<Rightarrow> ('a \<Rightarrow> push_call list \<Rightarrow> bool) \<Rightarrow> bool" where
  "achieves P m Q \<longleftrightarrow> (\<forall>wn r wn'. m wn = (r, wn') \<and> note_ok (snd wn) \<and> P (pnCalls (snd wn)) \<longrightarrow>
    note_ok (snd wn') \<and> (\<exists>t. pnCalls (snd wn') = pnCalls (snd wn) @ t) \<and> (\<forall>x. r = Inr x \<longrightarrow> Q x (pnCalls (snd wn'))))"

lemma achievesI:
  "(\<And>wn r wn'. m wn = (r, wn') \<Longrightarrow> note_ok (snd wn) \<Longrightarrow> P (pnCalls (snd wn)) \<Longrightarrow>
    note_ok (snd wn') \<and> (\<exists>t. pnCalls (snd wn') = pnCalls (snd wn) @ t) \<and> (\<forall>x. r = Inr x \<longrightarrow> Q x (pnCalls (snd wn')))) \<Longrightarrow>
  achieves P m Q"
  unfolding achieves_def by blast

lemma achievesD:
  "achieves P m Q \<Longrightarrow> m wn = (r, wn') \<Longrightarrow> note_ok (snd wn) \<Longrightarrow> P (pnCalls (snd wn)) \<Longrightarrow>
    note_ok (snd wn') \<and> (\<exists>t. pnCalls (snd wn') = pnCalls (snd wn) @ t) \<and> (\<forall>x. r = Inr x \<longrightarrow> Q x (pnCalls (snd wn')))"
  unfolding achieves_def by blast

abbreviation keeps_order :: "(push_call list \<Rightarrow> bool) \<Rightarrow> ('w, 'a) push \<Rightarrow> bool" where
  "keeps_order P m \<equiv> achieves P m (\<lambda>_ _. True)"

lemma achieves_bind:
  assumes m: "achieves P m Q" and f: "\<And>x. achieves (\<lambda>cs. P cs \<and> Q x cs) (f x) R" and P: "persists P"
  shows "achieves P (eff_bind m f) R"
proof (rule achievesI)
  fix wn r wn'
  assume run: "eff_bind m f wn = (r, wn')" and n: "note_ok (snd wn)" "P (pnCalls (snd wn))"
  obtain q v where q: "m wn = (q, v)" by (cases "m wn")
  note first = achievesD [OF m q n]
  show "note_ok (snd wn') \<and> (\<exists>t. pnCalls (snd wn') = pnCalls (snd wn) @ t) \<and> (\<forall>x. r = Inr x \<longrightarrow> R x (pnCalls (snd wn')))"
  proof (cases q)
    case (Inl e)
    then show ?thesis using run q first by (auto simp: eff_bind_def)
  next
    case (Inr x)
    then have fx: "f x v = (r, wn')" using run q by (simp add: eff_bind_def)
    obtain s where s: "pnCalls (snd v) = pnCalls (snd wn) @ s" using first by blast
    have "P (pnCalls (snd v))" using P n(2) unfolding s persists_def by blast
    then have pre: "P (pnCalls (snd v)) \<and> Q x (pnCalls (snd v))" using first Inr by blast
    from achievesD [OF f fx _ pre] first s show ?thesis by auto
  qed
qed

lemma achieves_return: "keeps_order P (eff_return x)"
  by (rule achievesI) (auto simp: eff_return_def)

lemma achieves_weaken:
  "achieves P m Q \<Longrightarrow> (\<And>cs. P' cs \<Longrightarrow> P cs) \<Longrightarrow> achieves P' m (\<lambda>_ _. True)"
  unfolding achieves_def by blast

lemma achieves_then:
  assumes "keeps_order P m" "\<And>x. keeps_order P (f x)" "persists P"
  shows "keeps_order P (eff_bind m f)"
  by (rule achieves_bind [OF assms(1) _ assms(3)]) (rule achieves_weaken [OF assms(2)], simp)

lemma achieves_catch:
  assumes "keeps_order P m" "\<And>e. keeps_order P (h e)" and P: "persists P"
  shows "keeps_order P (eff_catch m h)"
proof (rule achievesI)
  fix wn r wn'
  assume run: "eff_catch m h wn = (r, wn')" and n: "note_ok (snd wn)" "P (pnCalls (snd wn))"
  obtain q v where q: "m wn = (q, v)" by (cases "m wn")
  note first = achievesD [OF assms(1) q n]
  obtain s where s: "pnCalls (snd v) = pnCalls (snd wn) @ s" using first by blast
  have Pv: "P (pnCalls (snd v))" using P n(2) unfolding s persists_def by blast
  show "note_ok (snd wn') \<and> (\<exists>t. pnCalls (snd wn') = pnCalls (snd wn) @ t) \<and> (\<forall>x. r = Inr x \<longrightarrow> True)"
  proof (cases q)
    case (Inl e)
    then have "h e v = (r, wn')" using run q by (simp add: eff_catch_def)
    from achievesD [OF assms(2) this _ Pv] first s show ?thesis by auto
  qed (use run q first in \<open>auto simp: eff_catch_def\<close>)
qed

lemma achieves_finally:
  assumes "keeps_order P m" "keeps_order P c" and P: "persists P"
  shows "keeps_order P (eff_finally m c)"
proof (rule achievesI)
  fix wn r wn'
  assume run: "eff_finally m c wn = (r, wn')" and n: "note_ok (snd wn)" "P (pnCalls (snd wn))"
  obtain q v where q: "m wn = (q, v)" by (cases "m wn")
  note first = achievesD [OF assms(1) q n]
  obtain s where s: "pnCalls (snd v) = pnCalls (snd wn) @ s" using first by blast
  have Pv: "P (pnCalls (snd v))" using P n(2) unfolding s persists_def by blast
  obtain u where "c v = (u, wn')" using run q by (auto simp: eff_finally_def split: prod.splits sum.splits)
  from achievesD [OF assms(2) this _ Pv] first s
  show "note_ok (snd wn') \<and> (\<exists>t. pnCalls (snd wn') = pnCalls (snd wn) @ t) \<and> (\<forall>x. r = Inr x \<longrightarrow> True)" by auto
qed

lemma achieves_each: "(\<And>x. x \<in> set xs \<Longrightarrow> keeps_order P (f x)) \<Longrightarrow> persists P \<Longrightarrow> keeps_order P (eff_each f xs)"
  by (induction xs) (auto intro: achieves_return achieves_then)

lemma achieves_tally:
  "(\<And>c. mcActivatedProviderChannelIds c \<subseteq> mcActivatedProviderChannelIds (f c)) \<Longrightarrow> keeps_order P (tally f)"
  by (rule achievesI) (auto simp: tally_def note_ok_def)

text \<open>A statement whose calls neither stop nor activate anything.\<close>

definition harmless :: "push_call \<Rightarrow> bool" where
  "harmless c \<longleftrightarrow> (\<forall>ch rctx. c \<noteq> StopRequested ch rctx) \<and> (\<forall>i. \<not> activates i c)"

lemma note_ok_harmless: "note_ok n \<Longrightarrow> harmless c \<Longrightarrow> note_ok (n\<lparr>pnCalls := pnCalls n @ [c]\<rparr>)"
  by (auto simp: note_ok_def harmless_def stops_justified_snoc)

lemma achieves_reply: "(\<And>x. harmless (c x)) \<Longrightarrow> achieves P (reply m (\<lambda>x. [c x])) (\<lambda>x cs. c x \<in> set cs)"
  by (rule achievesI) (auto simp: reply_def note_ok_harmless split: prod.splits sum.splits)

lemma achieves_quietly: "keeps_order P (quietly m)"
  by (rule achievesI) (auto simp: quietly_def reply_def note_ok_def split: prod.splits sum.splits)

lemma achieves_tell: "harmless c \<Longrightarrow> achieves P (tell c) (\<lambda>_ cs. c \<in> set cs)"
  by (rule achievesI) (auto simp: tell_def note_ok_harmless)

lemma achieves_stop:
  assumes "\<And>cs. P cs \<Longrightarrow> may_stop cs ch rctx"
  shows "keeps_order P (tell (StopRequested ch rctx))"
  by (rule achievesI) (use assms in \<open>auto simp: tell_def note_ok_def stops_justified_snoc activates_def\<close>)

section \<open>Writes\<close>

lemma keeps_orderI: "achieves P m Q \<Longrightarrow> keeps_order P m"
  unfolding achieves_def by blast

lemma activate_is_noted:
  "activates i (ChannelUpdated j (buildActivationUpdates reg h)) \<longleftrightarrow> i = prProviderChannelId reg"
  by (auto simp: activates_def buildActivationUpdates_def)

lemma achieves_update:
  "(\<And>i. \<not> activates i (ChannelUpdated j u)) \<Longrightarrow> keeps_order P (update_channel deps j u)"
  unfolding update_channel_def by (rule keeps_orderI [OF achieves_reply]) (simp add: harmless_def)

lemma achieves_activate:
  "achieves P (activateChannel ch reg h deps p) (\<lambda>_ cs. \<exists>u. ChannelUpdated (chId ch) u \<in> set cs
    \<and> activates (prProviderChannelId reg) (ChannelUpdated (chId ch) u))"
proof (rule achievesI)
  fix wn r wn'
  assume run: "activateChannel ch reg h deps p wn = (r, wn')" and n: "note_ok (snd wn)"
  let ?c = "ChannelUpdated (chId ch) (buildActivationUpdates reg h)"
  show "note_ok (snd wn') \<and> (\<exists>t. pnCalls (snd wn') = pnCalls (snd wn) @ t) \<and> (\<forall>x. r = Inr x \<longrightarrow>
      (\<exists>u. ChannelUpdated (chId ch) u \<in> set (pnCalls (snd wn')) \<and> activates (prProviderChannelId reg) (ChannelUpdated (chId ch) u)))"
  proof (cases "pdUpdateChannel deps (chId ch) (buildActivationUpdates reg h) (fst wn)")
    case (Pair q w)
    show ?thesis
    proof (cases q)
      case (Inl e)
      then show ?thesis using run n Pair by (auto simp: activateChannel_def update_channel_def reply_def eff_bind_def)
    next
      case (Inr x)
      have ok: "note_ok ((snd wn)\<lparr>pnCalls := pnCalls (snd wn) @ [?c], pnCounters := (pnCounters (snd wn))\<lparr>mcActivatedProviderChannelIds :=
          insert (prProviderChannelId reg) (mcActivatedProviderChannelIds (pnCounters (snd wn)))\<rparr>\<rparr>)"
        using n activate_is_noted by (auto simp: note_ok_def stops_justified_snoc)
      have "snd wn' = (snd wn)\<lparr>pnCalls := pnCalls (snd wn) @ [?c], pnCounters := (pnCounters (snd wn))\<lparr>mcActivatedProviderChannelIds :=
          insert (prProviderChannelId reg) (mcActivatedProviderChannelIds (pnCounters (snd wn)))\<rparr>\<rparr>"
        using run Pair Inr
        by (auto simp: activateChannel_def update_channel_def reply_def eff_bind_def tally_def quietly_def split: prod.splits sum.splits)
      then show ?thesis using ok activate_is_noted by auto
    qed
  qed
qed

lemma achieves_applyBackoff: "persists P \<Longrightarrow> keeps_order P (applyBackoff ch deps st)"
  unfolding applyBackoff_def
  by (rule achieves_then [OF achieves_quietly achieves_update]) (simp_all add: activates_def backoff_update_def no_update_def)

lemma achieves_generate: "persists P \<Longrightarrow> keeps_order P (generate_when b m)"
  by (auto simp: generate_when_def intro!: achieves_return achieves_then [OF achieves_quietly])

lemma achieves_fail:
  "persists P \<Longrightarrow> keeps_order P (eff_bind (applyBackoff ch deps st) (\<lambda>_. tally (\<lambda>c. c\<lparr>mcFailed := mcFailed c + 1\<rparr>)))"
  by (rule achieves_then) (simp_all add: achieves_applyBackoff achieves_tally)

lemma achieves_register:
  assumes P: "persists P"
  shows "keeps_order P (runRegisterAction action registrar existing deps b)"
proof -
  have watch: "keeps_order P (request_watch action registrar ch cid secret deps)" for ch cid secret
    unfolding request_watch_def
    by (intro achieves_then P achieves_quietly keeps_orderI [OF achieves_tell] keeps_orderI [OF achieves_activate] achieves_tally)
      (simp_all add: harmless_def activates_def)
  have row: "keeps_order P (registering_channel row existing b deps)" for row
    unfolding registering_channel_def
    by (cases existing; cases b)
      (auto intro!: achieves_then P achieves_return achieves_tally achieves_update keeps_orderI [OF achieves_reply]
        simp: harmless_def activates_def no_update_def)
  show ?thesis
    unfolding runRegisterAction_def
    by (cases "paScope action")
      (auto intro!: achieves_then P achieves_quietly achieves_generate row achieves_catch watch achieves_applyBackoff
        achieves_tally achieves_return)
qed

section \<open>Actions\<close>

definition chosen :: "PushChannelAction \<Rightarrow> push_call list \<Rightarrow> bool" where
  "chosen action calls \<longleftrightarrow> (\<exists>actions. Planned actions \<in> set calls \<and> action \<in> set actions)"

definition read_for :: "PushChannelAction \<Rightarrow> StoredPushChannel \<Rightarrow> push_call list \<Rightarrow> bool" where
  "read_for action row calls \<longleftrightarrow> chosen action calls \<and> (\<exists>c. paChannel action = Some c \<and> ChannelRead (chId c) (Some row) \<in> set calls)"

lemma persists_facts: "persists (chosen action)" "persists (read_for action row)" "persists (\<lambda>_. True)"
  "persists P \<Longrightarrow> persists Q \<Longrightarrow> persists (\<lambda>cs. P cs \<and> Q cs)" "persists (\<lambda>cs. c \<in> set cs)"
  "persists (\<lambda>cs. \<exists>u. f u \<in> set cs \<and> b u)"
  by (auto simp: persists_def chosen_def read_for_def)

lemma read_for_planned: "read_for action row cs \<Longrightarrow> planned (paType action) cs action row"
  by (auto simp: read_for_def chosen_def planned_def)

lemma achieves_deregister:
  assumes "paType action = Deregister"
  shows "keeps_order (read_for action row) (runDeregisterAction action registrar row deps)"
proof -
  let ?P = "read_for action row"
  note P = persists_facts(2) [of action row]
  have "may_stop cs row rctx" if "?P cs" for cs rctx
    using read_for_planned [OF that] assms unfolding may_stop_def unplanned_def by auto
  then have stop: "keeps_order ?P (stop_channel r row rctx)" for r rctx
    unfolding stop_channel_def by (intro achieves_then [OF achieves_stop achieves_quietly P])
  show ?thesis
    unfolding runDeregisterAction_def
    by (cases registrar; cases "chProviderChannelId row")
      (auto intro!: achieves_then P achieves_catch achieves_quietly stop achieves_update achieves_tally achieves_applyBackoff
        simp: activates_def no_update_def)
qed

lemma achieves_replaced:
  assumes type: "paType action = Renew"
  shows "keeps_order (\<lambda>cs. read_for action row cs \<and> (\<exists>u. ChannelUpdated (chId row) u \<in> set cs
      \<and> activates (prProviderChannelId reg) (ChannelUpdated (chId row) u)))
    (stopSupersededChannel action registrar row reg rctx)"
proof -
  let ?P = "\<lambda>cs. read_for action row cs \<and> (\<exists>u. ChannelUpdated (chId row) u \<in> set cs
      \<and> activates (prProviderChannelId reg) (ChannelUpdated (chId row) u))"
  have P: "persists ?P" by (intro persists_facts)
  have "replaced cs (row\<lparr>chProviderChannelId := Some old, chProviderResourceId := res\<rparr>)"
    if holds: "?P cs" and "paPreviousProviderChannelId action = Some old" "old \<noteq> prProviderChannelId reg" for cs old res
  proof -
    obtain u where "ChannelUpdated (chId row) u \<in> set cs" "activates (prProviderChannelId reg) (ChannelUpdated (chId row) u)"
      using holds by blast
    moreover have "planned Renew cs action row" using holds read_for_planned [of action row cs] type by simp
    ultimately show ?thesis unfolding replaced_def using that(2,3)
      by (intro exI [of _ action] exI [of _ row] exI [of _ old] exI [of _ "prProviderChannelId reg"] exI [of _ u]) simp
  qed
  then have stop: "keeps_order ?P (stop_channel registrar (row\<lparr>chProviderChannelId := Some old, chProviderResourceId := res\<rparr>) rctx)"
    if "paPreviousProviderChannelId action = Some old" "old \<noteq> prProviderChannelId reg" for old res
    unfolding stop_channel_def using that
    by (intro achieves_then [OF achieves_stop achieves_quietly P]) (auto simp: may_stop_def)
  show ?thesis
    unfolding stopSupersededChannel_def
    by (auto intro!: achieves_catch achieves_then P achieves_return achieves_tally stop split: option.split)
qed

lemma achieves_renew:
  assumes "paType action = Renew"
  shows "keeps_order (read_for action row) (runRenewAction action registrar row deps)"
proof -
  note P = persists_facts(2) [of action row]
  have attempt: "keeps_order (read_for action row) (attemptRenewal action registrar row secret b deps)" for secret b
    unfolding attemptRenewal_def
    by (intro achieves_catch achieves_then P achieves_generate achieves_quietly keeps_orderI [OF achieves_tell] achieves_return)
      (simp_all add: harmless_def activates_def)
  have renewed: "keeps_order (read_for action row)
      (eff_bind (activateChannel row reg h deps p) (\<lambda>_. eff_bind (tally (\<lambda>c. c\<lparr>mcRenewed := mcRenewed c + 1\<rparr>)) (\<lambda>_.
        if b then stopSupersededChannel action registrar row reg rctx else eff_return ())))" for reg h p b rctx
    by (rule achieves_bind [OF achieves_activate _ P])
      (auto intro!: achieves_then persists_facts achieves_tally achieves_replaced [OF assms] achieves_return)
  have branch: "keeps_order (read_for action row) (case a of RenewalFailed e \<Rightarrow> f e | RenewalGone e \<Rightarrow> g e | Renewed rctx reg \<Rightarrow> h rctx reg)"
    if "\<And>e. keeps_order (read_for action row) (f e)" "\<And>e. keeps_order (read_for action row) (g e)"
      "\<And>rctx reg. keeps_order (read_for action row) (h rctx reg)" for a and f g :: "push_error \<Rightarrow> ('w, unit) push" and h
    using that by (cases a) simp_all
  show ?thesis
    unfolding runRenewAction_def Let_def
    by (rule achieves_then [OF achieves_generate [OF P] _ P], rule achieves_then [OF attempt _ P], rule branch)
      (rule achieves_fail [OF P] achieves_register [OF P] renewed)+
qed

lemma achieves_act: "keeps_order (chosen action) (act_on action deps)"
proof -
  let ?Q = "\<lambda>current cs. \<forall>row. current = Some row \<longrightarrow> read_for action row cs"
  have read: "achieves (chosen action) (readCurrentChannel action deps) ?Q"
  proof (rule achievesI)
    fix wn r wn'
    assume run: "readCurrentChannel action deps wn = (r, wn')" and n: "note_ok (snd wn)" and c: "chosen action (pnCalls (snd wn))"
    show "note_ok (snd wn') \<and> (\<exists>t. pnCalls (snd wn') = pnCalls (snd wn) @ t) \<and> (\<forall>x. r = Inr x \<longrightarrow> ?Q x (pnCalls (snd wn')))"
      using run n c note_ok_harmless [OF n, of "ChannelRead i q" for i q]
      by (auto simp: readCurrentChannel_def eff_return_def reply_def harmless_def activates_def read_for_def chosen_def
          split: option.splits prod.splits sum.splits)
  qed
  let ?body = "\<lambda>current. eff_bind (quietly (pdNow deps)) (\<lambda>now.
    if \<not> shouldRetainPushChannelAction action current now then eff_return ()
    else let registrar = pdResolveRegistrar deps (paProvider action) in
      case paType action of
        Deregister \<Rightarrow> (case current of None \<Rightarrow> eff_return () | Some c \<Rightarrow> runDeregisterAction action registrar c deps)
      | Renew \<Rightarrow> (case registrar of None \<Rightarrow> eff_return ()
          | Some r \<Rightarrow> (case current of None \<Rightarrow> eff_return () | Some c \<Rightarrow> runRenewAction action r c deps))
      | Register \<Rightarrow> (case registrar of None \<Rightarrow> eff_return () | Some r \<Rightarrow> runRegisterAction action r current deps True))"
  have body: "keeps_order (\<lambda>cs. chosen action cs \<and> ?Q current cs) (?body current)" for current
  proof (cases current)
    case None
    have "keeps_order (chosen action) (?body None)"
      unfolding Let_def
      by (rule achieves_then [OF achieves_quietly _ persists_facts(1)])
        (auto intro: achieves_return achieves_register persists_facts split: option.split PushChannelActionType.split)
    then show ?thesis unfolding None by (rule achieves_weaken) simp
  next
    case (Some row)
    have "keeps_order (read_for action row) (?body (Some row))"
      unfolding Let_def
      by (rule achieves_then [OF achieves_quietly _ persists_facts(2)])
        (auto intro: achieves_return achieves_register achieves_renew achieves_deregister persists_facts
          split: option.split PushChannelActionType.split)
    then show ?thesis unfolding Some by (rule achieves_weaken) simp
  qed
  show ?thesis
    unfolding act_on_def by (rule achieves_bind [OF read body persists_facts(1)])
qed

section \<open>Drift\<close>

lemma achieves_under_lock:
  assumes "keeps_order P body" "keeps_order P refused" and P: "persists P"
  shows "keeps_order P (under_lock deps key ttl refused body)"
proof -
  have take: "keeps_order P (reply m (\<lambda>ok. if ok then [LockTaken key] else []))" for m
    by (rule achievesI) (auto simp: reply_def harmless_def activates_def intro!: note_ok_harmless split: prod.splits sum.splits if_splits)
  have release: "keeps_order P (release_push_lock deps key)"
    unfolding release_push_lock_def
    by (intro achieves_then P achieves_quietly keeps_orderI [OF achieves_tell]) (simp add: harmless_def activates_def)
  show ?thesis
    unfolding under_lock_def
    by (rule achieves_then [OF take _ P]) (simp add: assms achieves_finally [OF assms(1) release P])
qed

definition unknown_beyond :: "string set \<Rightarrow> push_call list \<Rightarrow> bool" where
  "unknown_beyond known calls \<longleftrightarrow> (\<forall>i. i \<notin> known \<longrightarrow> unknown_at calls i)"

lemma persists_unknown: "persists (unknown_beyond known)"
  unfolding persists_def unknown_beyond_def unknown_at_def by (metis append.assoc append_Cons)

lemma achieves_account: "keeps_order (unknown_beyond known) (reconcile_account deps known account)"
proof -
  let ?P = "unknown_beyond known" and ?calendar = "snd account"
  have orphans: "keeps_order (\<lambda>cs. ?P cs \<and> WatchesListed rctx listed \<in> set cs)
      (eff_each (stop_orphan deps registrar ?calendar rctx) (filter (\<lambda>s. lpNotificationUrl s = rcNotificationUrl rctx
        \<and> prProviderChannelId s \<notin> known) listed))" for rctx listed registrar
  proof (rule achieves_each)
    fix s assume s: "s \<in> set (filter (\<lambda>s. lpNotificationUrl s = rcNotificationUrl rctx \<and> prProviderChannelId s \<notin> known) listed)"
    let ?O = "\<lambda>cs. ?P cs \<and> WatchesListed rctx listed \<in> set cs"
    have O: "persists ?O" by (intro persists_facts persists_unknown)
    have "orphaned cs (toOrphanChannel s ?calendar now) rctx" if "?O cs" for cs now
      unfolding orphaned_def
      by (intro exI [of _ "prProviderChannelId s"] exI [of _ listed] exI [of _ s])
        (use that s in \<open>simp add: toOrphanChannel_def unknown_beyond_def\<close>)
    then have stop: "keeps_order ?O (stop_channel registrar (toOrphanChannel s ?calendar now) rctx)" for now
      unfolding stop_channel_def by (intro achieves_then [OF achieves_stop achieves_quietly O]) (simp add: may_stop_def)
    show "keeps_order ?O (stop_orphan deps registrar ?calendar rctx s)"
      unfolding stop_orphan_def by (intro achieves_then O achieves_quietly stop achieves_tally) simp
  qed (intro persists_facts persists_unknown)
  have listing: "keeps_order ?P (eff_bind (reply m (\<lambda>ls. [WatchesListed rctx ls])) (\<lambda>listed. eff_each (stop_orphan deps registrar ?calendar rctx)
      (filter (\<lambda>s. lpNotificationUrl s = rcNotificationUrl rctx \<and> prProviderChannelId s \<notin> known) listed)))" for m rctx registrar
    by (rule achieves_bind [OF achieves_reply orphans persists_unknown]) (simp add: harmless_def activates_def)
  have "keeps_order ?P (reconcileAccountDrift ?calendar a registrar known deps)" for a registrar
    unfolding reconcileAccountDrift_def
    by (cases "rgList registrar")
      (simp_all add: achieves_return achieves_then [OF achieves_quietly achieves_then [OF achieves_quietly listing persists_unknown] persists_unknown])
  then show ?thesis
    unfolding reconcile_account_def
    by (auto intro!: achieves_return achieves_under_lock achieves_catch persists_unknown split: option.split)
qed

lemma achieves_drift: "keeps_order P (reconcileProviderDrift calendars deps)"
proof (cases "str_truthy (pdWebhookPublicUrl deps)")
  case True
  show ?thesis
  proof (rule achievesI)
    fix wn r wn'
    assume run: "reconcileProviderDrift calendars deps wn = (r, wn')" and n: "note_ok (snd wn)"
    obtain q w where q: "pdSelectChannels deps (fst wn) = (q, w)" by (cases "pdSelectChannels deps (fst wn)")
    show "note_ok (snd wn') \<and> (\<exists>t. pnCalls (snd wn') = pnCalls (snd wn) @ t) \<and> (\<forall>x. r = Inr x \<longrightarrow> True)"
    proof (cases q)
      case (Inl e)
      then show ?thesis using run q n True by (auto simp: reconcileProviderDrift_def eff_bind_def reply_def)
    next
      case (Inr rows)
      let ?n = "(snd wn)\<lparr>pnCalls := pnCalls (snd wn) @ [ChannelsReread rows]\<rparr>"
      let ?known = "known_channel_ids (pnCounters (snd wn)) rows"
      have ok: "note_ok ?n" by (rule note_ok_harmless [OF n]) (simp add: harmless_def activates_def)
      have "unknown_at (pnCalls ?n) i" if "i \<notin> ?known" for i
        unfolding unknown_at_def
        by (rule exI [of _ "pnCalls (snd wn)"], rule exI [of _ rows], rule exI [of _ "[]"])
          (use that n in \<open>auto simp: known_channel_ids_def row_ids_def note_ok_def list_ex_iff\<close>)
      then have unknown: "unknown_beyond ?known (pnCalls ?n)" by (simp add: unknown_beyond_def)
      have rest: "eff_each (reconcile_account deps ?known) (drift_accounts deps calendars) (w, ?n) = (r, wn')"
        using run q Inr True by (simp add: reconcileProviderDrift_def eff_bind_def reply_def with_counters_def)
      have "keeps_order (unknown_beyond ?known) (eff_each (reconcile_account deps ?known) (drift_accounts deps calendars))"
        by (intro achieves_each achieves_account persists_unknown)
      from achievesD [OF this rest] ok unknown show ?thesis by auto
    qed
  qed
qed (simp add: reconcileProviderDrift_def achieves_return)

section \<open>The sweep\<close>

lemma achieves_settle: "keeps_order (chosen action) (settle_action deps action)"
  unfolding settle_action_def runAction_def
  by (intro achieves_catch achieves_under_lock achieves_act achieves_tally persists_facts) simp_all

lemma achieves_sweep: "keeps_order (\<lambda>_. True) (sweep deps)"
proof -
  let ?T = "\<lambda>_ :: push_call list. True"
  note T = persists_facts(3)
  have actions: "keeps_order (\<lambda>cs. True \<and> Planned actions \<in> set cs)
      (eff_bind (eff_each (settle_action deps) (take k actions)) (\<lambda>_. reconcileProviderDrift calendars deps))" for actions calendars k
  proof (rule achieves_then [OF achieves_each achieves_drift])
    fix action assume "action \<in> set (take k actions)"
    then have "action \<in> set actions" by (rule in_set_takeD)
    then show "keeps_order (\<lambda>cs. True \<and> Planned actions \<in> set cs) (settle_action deps action)"
      by (intro achieves_weaken [OF achieves_settle]) (auto simp: chosen_def)
  qed (intro persists_facts)+
  show ?thesis
    unfolding sweep_def Let_def
    by (rule achieves_then [OF keeps_orderI [OF achieves_reply] _ T], simp add: harmless_def activates_def,
        rule achieves_then [OF keeps_orderI [OF achieves_reply] _ T], simp add: harmless_def activates_def,
        rule achieves_then [OF achieves_quietly achieves_then [OF achieves_quietly achieves_then [OF achieves_tally
          achieves_bind [OF achieves_tell actions T] T] T] T])
      (simp_all add: harmless_def activates_def)
qed

text \<open>C27: A sweep stops a channel at its provider for one of three reasons, whatever its dependencies do. Its row was
  read and the plan deregisters it; or the plan renews its row, whose current channel has since been replaced in the
  table by one with another identifier; or the provider lists it for our own address, while neither the rows read at
  the end nor the activations of the sweep before that reading know its identifier.\<close>

theorem sweep_stops_only_what_it_may:
  "stops_justified (pnCalls (snd (snd (runManagePushChannels deps (w, \<lparr>pnCounters = createCounters, pnCalls = []\<rparr>)))))"
proof -
  let ?s = "(w, \<lparr>pnCounters = createCounters, pnCalls = []\<rparr>)"
  have run: "keeps_order (\<lambda>_. True) (runManagePushChannels deps)"
    unfolding runManagePushChannels_def
    by (simp add: achieves_return achieves_under_lock [OF achieves_sweep achieves_return persists_facts(3)])
  obtain r wn' where r: "runManagePushChannels deps ?s = (r, wn')" by (cases "runManagePushChannels deps ?s")
  have "note_ok (snd ?s)" by (simp add: note_ok_def stops_justified_def)
  from achievesD [OF run r this] show ?thesis unfolding r by (simp add: note_ok_def)
qed

end
