(* ===== verification/Push_Tables.thy ===== *)
theory Push_Tables
  imports Push_Manage
begin

text \<open>
  The dependencies of a sweep over the tables: \<open>core/source/manage-push-channels-dependencies.ts\<close>, with the
  constraints of \<open>calendar_push_channels\<close>, and the sweep that the API narrows to an account
  (\<open>push-notifications/register-account-channels.ts\<close>). Before each statement other processes act, and a
  statement may fail. Identifiers, secrets, locks, the cache and the contexts of requests are parameters.
\<close>

section \<open>Tables\<close>

record push_calendar_row =
  crCalendar :: EligibleSourceCalendar
  crProviderMissingSince :: "instant option"
  crUnavailableSince :: "instant option"

text \<open>The account of a calendar is joined, so that its columns stand in the row.\<close>

record 'x push_world =
  pwChannels :: "StoredPushChannel list"
  pwCalendars :: "push_calendar_row list"
  pwOutside :: 'x

record 'x ManagePushChannelsConfig =
  cgCreateRegistrarContext :: "RegistrarContextRequest \<Rightarrow> ('x push_world, RegistrarContext) push_effect"
  cgElsewhere :: "'x push_world \<Rightarrow> 'x push_world"
  cgFails :: "'x push_world \<Rightarrow> push_error option"
  cgClock :: "'x push_world \<Rightarrow> instant"
  cgRowId :: "'x push_world \<Rightarrow> string"
  cgTryAcquire :: "string \<Rightarrow> int \<Rightarrow> ('x push_world, bool) push_effect"
  cgRelease :: "string \<Rightarrow> ('x push_world, unit) push_effect"
  cgDeleteKey :: "string \<Rightarrow> ('x push_world, unit) push_effect"
  cgRandomUUID :: "('x push_world, string) push_effect"
  cgPushSecret :: "('x push_world, string) push_effect"
  cgRegistrar :: "string \<Rightarrow> 'x push_world SourcePushRegistrar option"
  cgOnlyAccountId :: "string option"
  cgWebhookPublicUrl :: "string option"
  cgSha256 :: "string \<Rightarrow> string"

definition statement_of :: "'x ManagePushChannelsConfig \<Rightarrow> ('x push_world \<Rightarrow> (push_error + 'a) \<times> 'x push_world)
    \<Rightarrow> ('x push_world, 'a) push_effect" where
  "statement_of config f w = (let w = cgElsewhere config w in case cgFails config w of Some e \<Rightarrow> (Inl e, w) | None \<Rightarrow> f w)"

definition UNKNOWN_CHANNEL_PREFIX :: string where
  "UNKNOWN_CHANNEL_PREFIX = ''push:nochan''"

definition buildUnknownChannelKey :: "string \<Rightarrow> string \<Rightarrow> string" where
  "buildUnknownChannelKey provider channelKey = UNKNOWN_CHANNEL_PREFIX @ '':'' @ provider @ '':'' @ channelKey"

definition PUSH_PROVIDERS :: "string set" where
  "PUSH_PROVIDERS = {''google'', ''outlook''}"

section \<open>Statements\<close>

text \<open>Two rows may not have the same channel at a provider, nor may two live ones serve the same calendar.\<close>

definition channels_conflict :: "StoredPushChannel \<Rightarrow> StoredPushChannel \<Rightarrow> bool" where
  "channels_conflict a b \<longleftrightarrow> chProvider a = chProvider b
    \<and> (chProviderChannelId a \<noteq> None \<and> chProviderChannelId a = chProviderChannelId b
       \<or> chCalendarId a \<noteq> None \<and> chCalendarId a = chCalendarId b
         \<and> chState a \<in> LIVE_PUSH_CHANNEL_STATES \<and> chState b \<in> LIVE_PUSH_CHANNEL_STATES)"

definition violation :: push_error where
  "violation = \<lparr>peMessage = ''duplicate key value violates unique constraint'', peChannelGone = False\<rparr>"

definition new_channel_row :: "string \<Rightarrow> instant \<Rightarrow> NewPushChannel \<Rightarrow> StoredPushChannel" where
  "new_channel_row rowId now row =
    \<lparr>chAccountId = npAccountId row, chCalendarId = Some (npCalendarId row), chCreatedAt = now, chExpiresAt = None,
     chFailureCount = 0, chId = rowId, chLastFailureAt = None, chLastNotificationAt = None, chNextAttemptAt = None,
     chProvider = npProvider row, chProviderChannelId = npProviderChannelId row, chProviderResourceId = None,
     chReauthorizeRequestedAt = None, chResourcePath = None, chSecretHash = npSecretHash row, chState = npState row,
     chUpdatedAt = now, chUserId = npUserId row, chVerifiedAt = None\<rparr>"

definition insert_channel :: "string \<Rightarrow> instant \<Rightarrow> NewPushChannel \<Rightarrow> 'x push_world \<Rightarrow> (push_error + StoredPushChannel) \<times> 'x push_world" where
  "insert_channel rowId now row w =
    (let inserted = new_channel_row rowId now row in
     if list_ex (\<lambda>c. chId c = rowId \<or> channels_conflict inserted c) (pwChannels w) then (Inl violation, w)
     else (Inr inserted, w\<lparr>pwChannels := pwChannels w @ [inserted]\<rparr>))"

definition updated_channel :: "instant \<Rightarrow> PushChannelUpdate \<Rightarrow> StoredPushChannel \<Rightarrow> StoredPushChannel" where
  "updated_channel now u c = c\<lparr>
    chExpiresAt := (if puExpiresAt u = None then chExpiresAt c else puExpiresAt u),
    chFailureCount := or_else (puFailureCount u) (chFailureCount c),
    chLastFailureAt := or_else (puLastFailureAt u) (chLastFailureAt c),
    chNextAttemptAt := or_else (puNextAttemptAt u) (chNextAttemptAt c),
    chProviderChannelId := or_else (puProviderChannelId u) (chProviderChannelId c),
    chProviderResourceId := or_else (puProviderResourceId u) (chProviderResourceId c),
    chReauthorizeRequestedAt := or_else (puReauthorizeRequestedAt u) (chReauthorizeRequestedAt c),
    chResourcePath := (if puResourcePath u = None then chResourcePath c else puResourcePath u),
    chSecretHash := or_else (puSecretHash u) (chSecretHash c),
    chState := or_else (puState u) (chState c),
    chUpdatedAt := now\<rparr>"

definition updateChannel :: "instant \<Rightarrow> string \<Rightarrow> PushChannelUpdate \<Rightarrow> 'x push_world \<Rightarrow> (push_error + unit) \<times> 'x push_world" where
  "updateChannel now channelId u w =
    (if list_ex (\<lambda>c. chId c = channelId \<and> list_ex (\<lambda>d. chId d \<noteq> channelId
          \<and> channels_conflict (updated_channel now u c) d) (pwChannels w)) (pwChannels w)
     then (Inl violation, w)
     else (Inr (), w\<lparr>pwChannels := map (\<lambda>c. if chId c = channelId then updated_channel now u c else c) (pwChannels w)\<rparr>))"

definition live_channel_rows :: "'x push_world \<Rightarrow> StoredPushChannel list" where
  "live_channel_rows w = filter (\<lambda>c. chState c \<in> {ChActive, ChDegraded, ChRegistering}) (pwChannels w)"

definition eligibleCalendarScope :: "string option \<Rightarrow> push_calendar_row \<Rightarrow> bool" where
  "eligibleCalendarScope onlyAccountId row \<longleftrightarrow>
    ''pull'' \<in> set (pcCapabilities (crCalendar row)) \<and> \<not> pcDisabled (crCalendar row)
    \<and> crProviderMissingSince row = None \<and> crUnavailableSince row = None \<and> pcProvider (crCalendar row) \<in> PUSH_PROVIDERS
    \<and> (str_truthy onlyAccountId \<longrightarrow> onlyAccountId = Some (pcAccountId (crCalendar row)))"

definition eligible_calendar_rows :: "string option \<Rightarrow> 'x push_world \<Rightarrow> EligibleSourceCalendar list" where
  "eligible_calendar_rows onlyAccountId w = map crCalendar (filter (eligibleCalendarScope onlyAccountId) (pwCalendars w))"

definition createManagePushChannelsDependencies :: "'x ManagePushChannelsConfig \<Rightarrow> 'x push_world ManagePushChannelsDependencies" where
  "createManagePushChannelsDependencies config =
    \<lparr>pdCreateRegistrarContext = cgCreateRegistrarContext config,
     pdDeleteNegativeCacheKey = (\<lambda>provider channelId. cgDeleteKey config (buildUnknownChannelKey provider channelId)),
     pdGenerateChannelId = cgRandomUUID config, pdGenerateSecret = cgPushSecret config,
     pdInsertChannel = (\<lambda>row. statement_of config (\<lambda>w. insert_channel (cgRowId config w) (cgClock config w) row w)),
     pdNow = (\<lambda>w. (Inr (cgClock config w), w)),
     pdReadChannel = (\<lambda>channelId. statement_of config (\<lambda>w. (Inr (find (\<lambda>c. chId c = channelId) (pwChannels w)), w))),
     pdReleaseLock = cgRelease config, pdResolveRegistrar = cgRegistrar config,
     pdSelectChannels = statement_of config (\<lambda>w. (Inr (live_channel_rows w), w)),
     pdSelectEligibleCalendars = statement_of config (\<lambda>w. (Inr (eligible_calendar_rows (cgOnlyAccountId config) w), w)),
     pdTryAcquireLock = cgTryAcquire config,
     pdUpdateChannel = (\<lambda>channelId u. statement_of config (\<lambda>w. updateChannel (cgClock config w) channelId u w)),
     pdWebhookPublicUrl = cgWebhookPublicUrl config, pdSha256 = cgSha256 config\<rparr>"

text \<open>The sweep of one account; its errors are swallowed.\<close>

definition registerAccountPushChannels :: "bool \<Rightarrow> 'x ManagePushChannelsConfig \<Rightarrow> string \<Rightarrow> ('x push_world, unit) push" where
  "registerAccountPushChannels webhookConfigured config accountId =
    (if \<not> webhookConfigured then eff_return ()
     else eff_catch (runManagePushChannels (createManagePushChannelsDependencies (config\<lparr>cgOnlyAccountId := Some accountId\<rparr>)))
       (\<lambda>_. eff_return ()))"

end
