(* ===== verification/Push_Plan_Correct.thy ===== *)
theory Push_Plan_Correct
  imports Push_Tables
begin

text \<open>
  When the plan renews a channel, and what it does to the channels of other accounts when the sweep is
  narrowed to one.
\<close>

section \<open>Lookups\<close>

lemma set_map_filter: "y \<in> set (List.map_filter f xs) \<longleftrightarrow> (\<exists>x \<in> set xs. f x = Some y)"
  by (induction xs) (auto simp: List.map_filter_simps split: option.splits)

lemma profile_lifetime: "resolvePushProviderProfile p = Some profile \<Longrightarrow> ppMaxLifetimeMs profile = 604800000"
  by (auto simp: resolvePushProviderProfile_def GOOGLE_PUSH_PROFILE_def OUTLOOK_PUSH_PROFILE_def GOOGLE_WATCH_MAX_LIFETIME_MS_def
      GRAPH_SUBSCRIPTION_MAX_LIFETIME_MS_def split: if_splits)

lemma planned_for_channel:
  assumes "str_truthy url" "c \<in> set channels" "chState c \<in> LIVE_PUSH_CHANNEL_STATES" "chCalendarId c = Some i"
  shows "planStoredChannelAction sha c (map_of (jsmap_of (map (\<lambda>c. (pcCalendarId c, c)) calendars)) i) now = Some action
    \<Longrightarrow> action \<in> set (planPushChannelActions sha url now calendars channels)"
  using assms by (auto simp: planPushChannelActions_def channel_actions_def liveChannels_def set_map_filter)

lemma action_of_channel:
  assumes "action \<in> set (planPushChannelActions sha url now calendars channels)" "paChannel action = Some c" "chCalendarId c = Some i"
  shows "planStoredChannelAction sha c (map_of (jsmap_of (map (\<lambda>c. (pcCalendarId c, c)) calendars)) i) now = Some action"
proof -
  have "paChannel a = Some d" if "planStoredChannelAction sha d calendar now = Some a" for a d calendar
    using that by (auto simp: planStoredChannelAction_def buildChannelAction_def Let_def split: option.splits if_splits)
  moreover have "paChannel a = None" if member: "a \<in> set (calendar_actions sha now calendars channels)" for a
  proof -
    obtain x where "(case resolveCalendarPlanDecision x (has_live_channel channels (pcCalendarId x)) of
        DecideSkip _ \<Rightarrow> None | DecideRegister profile scope \<Rightarrow> Some (new_channel_action sha now x profile scope)) = Some a"
      using member unfolding calendar_actions_def set_map_filter by blast
    then show ?thesis by (auto simp: new_channel_action_def split: CalendarPlanDecision.splits)
  qed
  ultimately show ?thesis
    using assms by (auto simp: planPushChannelActions_def channel_actions_def set_map_filter split: if_splits)
qed

lemma calendar_found:
  "calendar \<in> set calendars \<Longrightarrow> distinct (map pcCalendarId calendars) \<Longrightarrow>
    map_of (jsmap_of (map (\<lambda>c. (pcCalendarId c, c)) calendars)) (pcCalendarId calendar) = Some calendar"
proof -
  assume a: "calendar \<in> set calendars" "distinct (map pcCalendarId calendars)"
  have "map_of (rev (map (\<lambda>c. (pcCalendarId c, c)) calendars)) (pcCalendarId calendar) = Some calendar"
  proof (rule map_of_is_SomeI)
    show "distinct (map fst (rev (map (\<lambda>c. (pcCalendarId c, c)) calendars)))"
      using a(2) by (simp add: rev_map [symmetric] comp_def)
  qed (use a(1) in auto)
  then show ?thesis by (simp add: map_of_jsmap_of)
qed

lemma calendar_missing:
  "\<forall>calendar \<in> set calendars. pcCalendarId calendar \<noteq> i \<Longrightarrow>
    map_of (jsmap_of (map (\<lambda>c. (pcCalendarId c, c)) calendars)) i = None"
  by (auto simp: map_of_jsmap_of map_of_eq_None_iff)

section \<open>Renewal in time\<close>

lemma eligible_scope: "isRegistrationEligible calendar \<Longrightarrow> \<exists>scope. buildEligibleCalendarScope (Some calendar) = Some scope"
  by (auto simp: buildEligibleCalendarScope_def buildCalendarScope_def isRegistrationEligible_def split: option.splits if_splits)

lemma requested_expiry:
  "requested \<le> now + 604800000 \<and> now + 453600000 < requested"
  if "requested = resolveRequestedExpiresAt sha key 604800000 now"
proof -
  define offset where "offset = getDeterministicRefreshOffset sha key"
  have "0 \<le> offset mod 151200000" "offset mod 151200000 < 151200000" by simp_all
  then show ?thesis
    by (simp add: that resolveRequestedExpiresAt_def resolveStaggerPeriodMs_def offset_def [symmetric])
qed

text \<open>C28: A channel is renewed in time. The expiry that is asked for lies more than three quarters of the provider's
  lifetime and at most that lifetime less an hour ahead. A live channel that was activated with it, and that neither
  waits for a retry nor was asked to authorize again, is left alone for the first eleven twentieths of the lifetime,
  and from one fifth of the lifetime before its expiry on every plan that knows its calendar renews it; the renewal is
  the only action the plan has for it.\<close>

theorem channels_are_renewed_in_time:
  assumes url: "str_truthy url" and profile: "resolvePushProviderProfile (chProvider c) = Some profile"
    and e: "e = clampToProviderLifetime (resolveRequestedExpiresAt sha key (ppMaxLifetimeMs profile) now) now (ppMaxLifetimeMs profile)"
    and c: "c \<in> set channels" "chState c = ChActive \<or> chState c = ChDegraded" "chExpiresAt c = Some e" "chNextAttemptAt c = None"
      "chReauthorizeRequestedAt c = None" "chCalendarId c = Some (pcCalendarId calendar)"
    and calendar: "calendar \<in> set calendars" "distinct (map pcCalendarId calendars)" "isRegistrationEligible calendar"
  shows "now + 3 * ppMaxLifetimeMs profile div 4 < e \<and> e \<le> now + ppMaxLifetimeMs profile - 60 * 60 * 1000
    \<and> (t \<le> now + 11 * ppMaxLifetimeMs profile div 20 \<longrightarrow>
        (\<forall>action \<in> set (planPushChannelActions sha url t calendars channels). paChannel action \<noteq> Some c))
    \<and> (t > e - ppMaxLifetimeMs profile div 5 \<longrightarrow>
        (\<exists>action \<in> set (planPushChannelActions sha url t calendars channels). paChannel action = Some c \<and> paType action = Renew))
    \<and> (\<forall>a \<in> set (planPushChannelActions sha url t calendars channels). \<forall>b \<in> set (planPushChannelActions sha url t calendars channels).
        paChannel a = Some c \<and> paChannel b = Some c \<longrightarrow> a = b)"
proof -
  let ?plan = "planPushChannelActions sha url t calendars channels" and ?max = "ppMaxLifetimeMs profile"
  have m: "?max = 604800000" by (rule profile_lifetime [OF profile])
  let ?req = "resolveRequestedExpiresAt sha key 604800000 now"
  have req: "?req \<le> now + 604800000" "now + 453600000 < ?req" using requested_expiry [of ?req sha key now] by simp_all
  have bounds: "now + 453600000 < e" "e \<le> now + 601200000"
    using req by (simp_all add: e m clampToProviderLifetime_def PROVIDER_LIFETIME_SAFETY_MS_def)
  obtain scope where scope: "buildEligibleCalendarScope (Some calendar) = Some scope" using eligible_scope [OF calendar(3)] by blast
  have found: "map_of (jsmap_of (map (\<lambda>c. (pcCalendarId c, c)) calendars)) (pcCalendarId calendar) = Some calendar"
    by (rule calendar_found [OF calendar(1,2)])
  have due: "isRenewalDue c ?max t \<longleftrightarrow> t > e - 120960000"
    using c by (auto simp: isRenewalDue_def resolveRenewalLeadMs_def m)
  have plan: "planStoredChannelAction sha c (Some calendar) t =
      (if t > e - 120960000 then Some (buildChannelAction c Renew scope (Some (ppRenewalMode profile))
        (resolveRequestedExpiresAt sha (chProvider c @ '':'' @ or_else (chCalendarId c) (chAccountId c)) ?max t)) else None)"
    using c(2,3) due by (auto simp: planStoredChannelAction_def profile scope Let_def isRegistrationRetryable_def hasNeverActivated_def)
  have only: "planStoredChannelAction sha c (Some calendar) t = Some action" if "action \<in> set ?plan" "paChannel action = Some c" for action
    using action_of_channel [OF that c(6)] by (simp add: found)
  have "paChannel action \<noteq> Some c" if "t \<le> now + 11 * ?max div 20" "action \<in> set ?plan" for action
  proof
    assume "paChannel action = Some c"
    with only [OF that(2)] plan have "t > e - 120960000" by (auto split: if_splits)
    with that(1) bounds show False by (simp add: m)
  qed
  moreover have "\<exists>action \<in> set ?plan. paChannel action = Some c \<and> paType action = Renew" if "t > e - ?max div 5"
  proof -
    let ?a = "buildChannelAction c Renew scope (Some (ppRenewalMode profile))
        (resolveRequestedExpiresAt sha (chProvider c @ '':'' @ or_else (chCalendarId c) (chAccountId c)) ?max t)"
    have "planStoredChannelAction sha c (Some calendar) t = Some ?a" using plan that by (simp add: m)
    then have "?a \<in> set ?plan"
      using planned_for_channel [OF url c(1) _ c(6)] c(2) found by (auto simp: LIVE_PUSH_CHANNEL_STATES_def)
    then show ?thesis by (rule bexI [rotated]) (simp add: buildChannelAction_def)
  qed
  moreover have "a = b" if "a \<in> set ?plan" "b \<in> set ?plan" "paChannel a = Some c" "paChannel b = Some c" for a b
    using only [OF that(1,3)] only [OF that(2,4)] by simp
  ultimately show ?thesis using bounds by (simp add: m)
qed

section \<open>A sweep narrowed to one account\<close>

text \<open>C29: Narrowing a sweep to the account that has just been connected turns it against all other accounts. The
  selection of the calendars is narrowed, the selection of the channels is not, so that the plan deregisters every live
  channel of a calendar of another account, however healthy, and the action is retained when its turn comes.\<close>

theorem narrowed_sweep_deregisters_other_accounts:
  assumes "str_truthy url" "accountId \<noteq> []" "c \<in> set (pwChannels w)" "chState c \<in> LIVE_PUSH_CHANNEL_STATES" "chCalendarId c = Some i"
    and other: "\<forall>row \<in> set (pwCalendars w). pcCalendarId (crCalendar row) = i \<longrightarrow> pcAccountId (crCalendar row) \<noteq> accountId"
  shows "\<exists>action \<in> set (planPushChannelActions sha url now (eligible_calendar_rows (Some accountId) w) (live_channel_rows w)).
    paChannel action = Some c \<and> paType action = Deregister \<and> (\<forall>later. shouldRetainPushChannelAction action (Some c) later)"
proof -
  let ?calendars = "eligible_calendar_rows (Some accountId) w"
  have c: "c \<in> set (live_channel_rows w)" using assms(3,4) by (simp add: live_channel_rows_def LIVE_PUSH_CHANNEL_STATES_def)
  have "\<forall>calendar \<in> set ?calendars. pcCalendarId calendar \<noteq> i"
    using other assms(2) by (auto simp: eligible_calendar_rows_def eligibleCalendarScope_def)
  then have none: "map_of (jsmap_of (map (\<lambda>c. (pcCalendarId c, c)) ?calendars)) i = None" by (rule calendar_missing)
  let ?a = "buildChannelAction c Deregister (buildChannelScope c) (map_option ppRenewalMode (resolvePushProviderProfile (chProvider c))) now"
  have "planStoredChannelAction sha c None now = Some ?a"
    by (simp add: planStoredChannelAction_def buildEligibleCalendarScope_def split: option.split)
  then have "?a \<in> set (planPushChannelActions sha url now ?calendars (live_channel_rows w))"
    using planned_for_channel [OF assms(1) c assms(4,5)] none by simp
  then show ?thesis
    by (rule bexI [rotated]) (simp add: buildChannelAction_def shouldRetainPushChannelAction_def assms(4))
qed

section \<open>Two accounts\<close>

definition sample_channel :: "string \<Rightarrow> string \<Rightarrow> instant \<Rightarrow> StoredPushChannel" where
  "sample_channel i account expires = \<lparr>chAccountId = account, chCalendarId = Some i, chCreatedAt = 0, chExpiresAt = Some expires,
    chFailureCount = 0, chId = i, chLastFailureAt = None, chLastNotificationAt = Some 0, chNextAttemptAt = None,
    chProvider = ''google'', chProviderChannelId = Some (''w'' @ i), chProviderResourceId = Some ''r'',
    chReauthorizeRequestedAt = None, chResourcePath = Some ''/'', chSecretHash = ''s'', chState = ChActive, chUpdatedAt = 0,
    chUserId = ''u'', chVerifiedAt = Some 0\<rparr>"

definition sample_push_calendar :: "string \<Rightarrow> string \<Rightarrow> EligibleSourceCalendar" where
  "sample_push_calendar i account = \<lparr>pcAccountId = account, pcCalendarId = i, pcCapabilities = [''pull''], pcDisabled = False,
    pcExternalCalendarId = Some i, pcNeedsReauthentication = False, pcProvider = ''google'', pcProviderAccountId = None, pcUserId = ''u''\<rparr>"

definition sample_push_world :: "unit push_world" where
  "sample_push_world = \<lparr>pwChannels = [sample_channel ''1'' ''a'' 600000000], pwCalendars =
    [\<lparr>crCalendar = sample_push_calendar ''1'' ''a'', crProviderMissingSince = None, crUnavailableSince = None\<rparr>,
     \<lparr>crCalendar = sample_push_calendar ''2'' ''b'', crProviderMissingSince = None, crUnavailableSince = None\<rparr>], pwOutside = ()\<rparr>"

lemma sample_channel_simps [simp]:
  "chProvider (sample_channel i account e) = ''google''" "chState (sample_channel i account e) = ChActive"
  "chExpiresAt (sample_channel i account e) = Some e" "chNextAttemptAt (sample_channel i account e) = None"
  "chReauthorizeRequestedAt (sample_channel i account e) = None" "chCalendarId (sample_channel i account e) = Some i"
  "pcCalendarId (sample_push_calendar i account) = i" "pcAccountId (sample_push_calendar i account) = account"
  "isRegistrationEligible (sample_push_calendar i account)"
  by (simp_all add: sample_channel_def sample_push_calendar_def isRegistrationEligible_def isPullCalendar_def
      resolvePushProviderProfile_def GOOGLE_PUSH_PROFILE_def)

theorem channels_are_renewed_in_time_witness:
  "\<exists>action. action \<in> set (planPushChannelActions (\<lambda>_. []) (Some ''https://k'') 500000000 [sample_push_calendar ''1'' ''a'']
      [sample_channel ''1'' ''a'' 601200000]) \<and> paType action = Renew"
proof -
  let ?c = "sample_channel ''1'' ''a'' 601200000" and ?k = "sample_push_calendar ''1'' ''a''"
  have e: "601200000 = clampToProviderLifetime (resolveRequestedExpiresAt (\<lambda>_. []) ''k'' (ppMaxLifetimeMs GOOGLE_PUSH_PROFILE) 0) 0
      (ppMaxLifetimeMs GOOGLE_PUSH_PROFILE)"
    by (simp add: GOOGLE_PUSH_PROFILE_def GOOGLE_WATCH_MAX_LIFETIME_MS_def clampToProviderLifetime_def
        PROVIDER_LIFETIME_SAFETY_MS_def resolveRequestedExpiresAt_def getDeterministicRefreshOffset_def)
  have url: "str_truthy (Some ''https://k'')" and profile: "resolvePushProviderProfile (chProvider ?c) = Some GOOGLE_PUSH_PROFILE"
    by (simp_all add: resolvePushProviderProfile_def)
  have late: "500000000 > 601200000 - ppMaxLifetimeMs GOOGLE_PUSH_PROFILE div 5"
    by (simp add: GOOGLE_PUSH_PROFILE_def GOOGLE_WATCH_MAX_LIFETIME_MS_def)
  have "\<exists>action \<in> set (planPushChannelActions (\<lambda>_. []) (Some ''https://k'') 500000000 [?k] [?c]).
      paChannel action = Some ?c \<and> paType action = Renew"
    using channels_are_renewed_in_time [OF url profile e, of "[?c]" ?k "[?k]" 500000000] late by simp
  then show ?thesis by blast
qed

theorem narrowed_sweep_deregisters_other_accounts_witness:
  "\<exists>action. action \<in> set (planPushChannelActions (\<lambda>_. []) (Some ''https://k'') 1000 (eligible_calendar_rows (Some ''b'') sample_push_world)
      (live_channel_rows sample_push_world)) \<and> paChannel action = Some (sample_channel ''1'' ''a'' 600000000) \<and> paType action = Deregister"
proof -
  let ?c = "sample_channel ''1'' ''a'' 600000000"
  have "?c \<in> set (pwChannels sample_push_world)" "\<forall>row \<in> set (pwCalendars sample_push_world).
      pcCalendarId (crCalendar row) = ''1'' \<longrightarrow> pcAccountId (crCalendar row) \<noteq> ''b''"
    by (simp_all add: sample_push_world_def)
  from narrowed_sweep_deregisters_other_accounts [of "Some ''https://k''", OF _ _ this(1) _ _ this(2)]
  show ?thesis by (simp add: LIVE_PUSH_CHANNEL_STATES_def) blast
qed

end
