(* ===== verification/Push_Webhook.thy ===== *)
theory Push_Webhook
  imports Push_Tables
begin

text \<open>
  The webhooks that the providers call: \<open>push-notifications/handle-webhook.ts\<close> of the API whole, the parsers
  of the two providers (\<open>providers/google/push/receiver.ts\<close>, \<open>providers/outlook/push/receiver.ts\<close>), the
  admission of \<open>push-admission.ts\<close> and the debounce groups of \<open>wake-debounce.ts\<close>. Dependencies are effects
  that may throw; the caches of one request and the calls it makes run beside the world. \<open>JSON.parse\<close>, the
  decoding of UTF-8 and the schema of Graph notifications are parameters; fields that are only observed are
  left out.
\<close>

section \<open>Claims\<close>

datatype PushClaimKind = ClaimChange | ClaimLifecycle | ClaimSync

record PushClaim =
  clChannelKey :: string
  clDeliveryId :: "string option"
  clKind :: PushClaimKind
  clLifecycleEvent :: "string option"
  clPresentedResourceId :: "string option"
  clPresentedSecret :: string

datatype PushParseFailureReason = ParseMalformedBody | MissingChannelId | MissingChannelToken

datatype PushParseResult = Claims "PushClaim list" | ValidationToken string | ParseFailure PushParseFailureReason

datatype 'j push_body = NullBody | JsonBody 'j | TextBody string

record 'j PushHttpRequest =
  phBody :: "'j push_body"
  phHeaders :: "string \<Rightarrow> string option"
  phSearch :: "string \<Rightarrow> string option"

definition GOOGLE_SYNC_RESOURCE_STATE :: string where
  "GOOGLE_SYNC_RESOURCE_STATE = ''sync''"

definition google_claim_kind :: "string option \<Rightarrow> PushClaimKind" where
  "google_claim_kind resourceState = (if resourceState = Some GOOGLE_SYNC_RESOURCE_STATE then ClaimSync else ClaimChange)"

definition parseGooglePushNotification :: "'j PushHttpRequest \<Rightarrow> PushParseResult" where
  "parseGooglePushNotification request =
    (case (phHeaders request ''x-goog-channel-id'', phHeaders request ''x-goog-channel-token'') of
       (Some channelId, Some token) \<Rightarrow> Claims [\<lparr>clChannelKey = channelId,
         clDeliveryId = phHeaders request ''x-goog-message-number'',
         clKind = google_claim_kind (phHeaders request ''x-goog-resource-state''), clLifecycleEvent = None,
         clPresentedResourceId = phHeaders request ''x-goog-resource-id'', clPresentedSecret = token\<rparr>]
     | (None, _) \<Rightarrow> ParseFailure MissingChannelId
     | (Some _, None) \<Rightarrow> ParseFailure MissingChannelToken)"

record GraphNotification =
  gnSubscriptionId :: string
  gnClientState :: "string option"
  gnId :: "string option"
  gnLifecycleEvent :: "string option"

definition graph_claim_kind :: "GraphNotification \<Rightarrow> PushClaimKind" where
  "graph_claim_kind notification = (if str_truthy (gnLifecycleEvent notification) then ClaimLifecycle else ClaimChange)"

definition toClaim :: "GraphNotification \<Rightarrow> PushClaim" where
  "toClaim notification = \<lparr>clChannelKey = gnSubscriptionId notification, clDeliveryId = gnId notification,
    clKind = graph_claim_kind notification, clLifecycleEvent = gnLifecycleEvent notification, clPresentedResourceId = None,
    clPresentedSecret = or_else (gnClientState notification) []\<rparr>"

definition readGraphValidationToken :: "(string \<Rightarrow> string option) \<Rightarrow> string option" where
  "readGraphValidationToken search = search ''validationToken''"

definition parseOutlookPushNotification :: "('j push_body \<Rightarrow> GraphNotification list option) \<Rightarrow> 'j PushHttpRequest \<Rightarrow> PushParseResult" where
  "parseOutlookPushNotification schema request =
    (case readGraphValidationToken (phSearch request) of
       Some token \<Rightarrow> ValidationToken token
     | None \<Rightarrow> (case schema (phBody request) of
         None \<Rightarrow> ParseFailure ParseMalformedBody
       | Some notifications \<Rightarrow> Claims (map toClaim notifications)))"

section \<open>Requests, dependencies, notes\<close>

definition PUSH_VALIDATION_TOKEN_MAX :: nat where "PUSH_VALIDATION_TOKEN_MAX = 2048"
definition PUSH_BODY_MAX_BYTES :: nat where "PUSH_BODY_MAX_BYTES = 262144"
definition PUSH_UNKNOWN_CHANNEL_TTL_SECONDS :: int where "PUSH_UNKNOWN_CHANNEL_TTL_SECONDS = 30"
definition PUSH_CHANNEL_KEY_MAX :: nat where "PUSH_CHANNEL_KEY_MAX = 256"

datatype PushRejectReason = BadChannelShape | ResourceMismatch | SecretMismatch | UnknownChannel

text \<open>The body arrives in chunks of bytes; a declared length is the finite number its header spells.\<close>

record webhook_request =
  wqBody :: "string list option"
  wqDeclaredLength :: "int option"
  wqHeaders :: "string \<Rightarrow> string option"
  wqSearch :: "string \<Rightarrow> string option"

record 'j webhook_text =
  wtJson :: "string \<Rightarrow> 'j option"
  wtUtf8 :: "string \<Rightarrow> string"

record 'j PushWebhookOptions =
  woAcceptedStatus :: nat
  woEnforceResourceId :: bool
  woParse :: "'j PushHttpRequest \<Rightarrow> PushParseResult"
  woProvider :: string
  woReadValidationToken :: "((string \<Rightarrow> string option) \<Rightarrow> string option) option"

record webhook_response =
  wrStatus :: nat
  wrEcho :: "string option"

record 'w PushWebhookDependencies =
  whClaimDelivery :: "string \<Rightarrow> ('w, bool) push_effect"
  whClaimPushAdmission :: "string \<Rightarrow> ('w, bool) push_effect"
  whFindChannel :: "string \<Rightarrow> string \<Rightarrow> ('w, StoredPushChannel option) push_effect"
  whGenerateCorrelationId :: "('w, string) push_effect"
  whIsUnknownChannelCached :: "string \<Rightarrow> string \<Rightarrow> ('w, bool) push_effect"
  whMarkChannelRemoved :: "(string \<Rightarrow> ('w, unit) push_effect) option"
  whMarkReauthorizeRequested :: "(string \<Rightarrow> ('w, unit) push_effect) option"
  whRecordNotificationReceived :: "string \<Rightarrow> ('w, unit) push_effect"
  whRecordVerified :: "string \<Rightarrow> ('w, unit) push_effect"
  whRememberUnknownChannel :: "string \<Rightarrow> string \<Rightarrow> int \<Rightarrow> ('w, unit) push_effect"
  whResolveAffectedCalendarIds :: "StoredPushChannel \<Rightarrow> ('w, string list) push_effect"
  whVerifySecret :: "string \<Rightarrow> string \<Rightarrow> bool"
  whWakeIngest :: "string list \<Rightarrow> string \<Rightarrow> ('w, unit) push_effect"
  whWebhookPublicUrl :: "string option"

record ChannelLookup =
  lkChannel :: "StoredPushChannel option"
  lkNegativeCacheHit :: bool
  lkRejectReason :: "PushRejectReason option"

datatype webhook_call =
    ChannelFound string "StoredPushChannel option"
  | CalendarsResolved StoredPushChannel "string list"
  | NotificationRecorded string
  | VerificationRecorded string
  | ReauthorizationMarked string
  | RemovalMarked string
  | IngestWoken "string list"

text \<open>The claim context: the answers that the claims of one request share; and the calls of the request.\<close>

record webhook_notes =
  wnLookups :: "(string, ChannelLookup) jsmap"
  wnCalendarIds :: "(string, string list) jsmap"
  wnVerifications :: "string set"
  wnLiveness :: "string set"
  wnCalls :: "webhook_call list"

type_synonym ('w, 'a) webhook = "('w \<times> webhook_notes, push_error, 'a) eff"

definition createClaimContext :: webhook_notes where
  "createClaimContext = \<lparr>wnLookups = [], wnCalendarIds = [], wnVerifications = {}, wnLiveness = {}, wnCalls = []\<rparr>"

definition hook :: "('w, 'a) push_effect \<Rightarrow> ('a \<Rightarrow> webhook_notes \<Rightarrow> webhook_notes) \<Rightarrow> ('w, 'a) webhook" where
  "hook m f wn = (case m (fst wn) of (Inl e, w) \<Rightarrow> (Inl e, (w, snd wn)) | (Inr x, w) \<Rightarrow> (Inr x, (w, f x (snd wn))))"

definition plainly :: "('w, 'a) push_effect \<Rightarrow> ('w, 'a) webhook" where
  "plainly m = hook m (\<lambda>_ n. n)"

definition called :: "webhook_call \<Rightarrow> webhook_notes \<Rightarrow> webhook_notes" where
  "called c n = n\<lparr>wnCalls := wnCalls n @ [c]\<rparr>"

definition note_call :: "webhook_call \<Rightarrow> ('w, unit) webhook" where
  "note_call c wn = (Inr (), (fst wn, called c (snd wn)))"

definition with_notes :: "(webhook_notes \<Rightarrow> ('w, 'a) webhook) \<Rightarrow> ('w, 'a) webhook" where
  "with_notes f wn = f (snd wn) wn"

section \<open>Lookups\<close>

definition hasBoundedChannelKey :: "string \<Rightarrow> bool" where
  "hasBoundedChannelKey channelKey \<longleftrightarrow> length channelKey > 0 \<and> length channelKey \<le> PUSH_CHANNEL_KEY_MAX"

definition hasUsableChannelKey :: "PushClaim \<Rightarrow> bool" where
  "hasUsableChannelKey claim \<longleftrightarrow> hasBoundedChannelKey (clChannelKey claim) \<and> length (clPresentedSecret claim) > 0"

definition unknown_channel :: "bool \<Rightarrow> ChannelLookup" where
  "unknown_channel negativeCacheHit = \<lparr>lkChannel = None, lkNegativeCacheHit = negativeCacheHit, lkRejectReason = Some UnknownChannel\<rparr>"

definition lookupChannel :: "string \<Rightarrow> 'w PushWebhookDependencies \<Rightarrow> 'j PushWebhookOptions \<Rightarrow> ('w, ChannelLookup) webhook" where
  "lookupChannel channelKey deps options =
    eff_bind (plainly (whIsUnknownChannelCached deps (woProvider options) channelKey)) (\<lambda>cached.
    if cached then eff_return (unknown_channel True)
    else eff_bind (hook (whFindChannel deps (woProvider options) channelKey) (\<lambda>ch. called (ChannelFound channelKey ch))) (\<lambda>channel.
      case channel of
        None \<Rightarrow> eff_bind (plainly (whRememberUnknownChannel deps (woProvider options) channelKey PUSH_UNKNOWN_CHANNEL_TTL_SECONDS))
          (\<lambda>_. eff_return (unknown_channel False))
      | Some c \<Rightarrow> eff_return \<lparr>lkChannel = Some c, lkNegativeCacheHit = False, lkRejectReason = None\<rparr>))"

definition cached_lookup :: "string \<Rightarrow> 'w PushWebhookDependencies \<Rightarrow> 'j PushWebhookOptions \<Rightarrow> ('w, ChannelLookup) webhook" where
  "cached_lookup channelKey deps options = with_notes (\<lambda>n.
    case map_of (wnLookups n) channelKey of
      Some cached \<Rightarrow> eff_return cached
    | None \<Rightarrow> eff_bind (lookupChannel channelKey deps options) (\<lambda>l.
        eff_bind (\<lambda>wn. (Inr (), (fst wn, (snd wn)\<lparr>wnLookups := (channelKey, l) # wnLookups (snd wn)\<rparr>))) (\<lambda>_. eff_return l)))"

definition cached_notification :: "string \<Rightarrow> 'w PushWebhookDependencies \<Rightarrow> ('w, unit) webhook" where
  "cached_notification channelId deps = with_notes (\<lambda>n.
    if channelId \<in> wnLiveness n then eff_return ()
    else eff_bind (note_call (NotificationRecorded channelId)) (\<lambda>_.
      hook (whRecordNotificationReceived deps channelId) (\<lambda>_ n. n\<lparr>wnLiveness := insert channelId (wnLiveness n)\<rparr>)))"

definition cached_verification :: "string \<Rightarrow> 'w PushWebhookDependencies \<Rightarrow> ('w, unit) webhook" where
  "cached_verification channelId deps = with_notes (\<lambda>n.
    if channelId \<in> wnVerifications n then eff_return ()
    else eff_bind (note_call (VerificationRecorded channelId)) (\<lambda>_.
      hook (whRecordVerified deps channelId) (\<lambda>_ n. n\<lparr>wnVerifications := insert channelId (wnVerifications n)\<rparr>)))"

definition resolveCalendarIds :: "StoredPushChannel \<Rightarrow> 'w PushWebhookDependencies \<Rightarrow> ('w, string list) webhook" where
  "resolveCalendarIds channel deps = with_notes (\<lambda>n.
    case map_of (wnCalendarIds n) (chId channel) of
      Some cached \<Rightarrow> eff_return cached
    | None \<Rightarrow> hook (whResolveAffectedCalendarIds deps channel) (\<lambda>ids n.
        called (CalendarsResolved channel ids) (n\<lparr>wnCalendarIds := (chId channel, ids) # wnCalendarIds n\<rparr>)))"

definition resolveClaimChannel :: "PushClaim \<Rightarrow> 'w PushWebhookDependencies \<Rightarrow> 'j PushWebhookOptions \<Rightarrow> ('w, ChannelLookup) webhook" where
  "resolveClaimChannel claim deps options =
    (if \<not> hasUsableChannelKey claim
     then eff_return \<lparr>lkChannel = None, lkNegativeCacheHit = False, lkRejectReason = Some BadChannelShape\<rparr>
     else eff_bind (cached_lookup (clChannelKey claim) deps options) (\<lambda>lookup. eff_return
       (case lkChannel lookup of
          None \<Rightarrow> lookup
        | Some channel \<Rightarrow>
            if \<not> whVerifySecret deps (clPresentedSecret claim) (chSecretHash channel)
            then \<lparr>lkChannel = None, lkNegativeCacheHit = False, lkRejectReason = Some SecretMismatch\<rparr>
            else if woEnforceResourceId options \<and> chProviderResourceId channel \<noteq> None
              \<and> clPresentedResourceId claim \<noteq> chProviderResourceId channel
            then \<lparr>lkChannel = None, lkNegativeCacheHit = False, lkRejectReason = Some ResourceMismatch\<rparr>
            else \<lparr>lkChannel = Some channel, lkNegativeCacheHit = False, lkRejectReason = None\<rparr>)))"

section \<open>A claim\<close>

definition mark :: "(string \<Rightarrow> ('w, unit) push_effect) option \<Rightarrow> (string \<Rightarrow> webhook_call) \<Rightarrow> string \<Rightarrow> ('w, unit) webhook" where
  "mark m c channelId = (case m of None \<Rightarrow> eff_return ()
    | Some f \<Rightarrow> eff_bind (note_call (c channelId)) (\<lambda>_. plainly (f channelId)))"

definition applyLifecycleClaim :: "PushClaim \<Rightarrow> StoredPushChannel \<Rightarrow> 'w PushWebhookDependencies \<Rightarrow> ('w, string list) webhook" where
  "applyLifecycleClaim claim channel deps =
    (if clLifecycleEvent claim = Some ''reauthorizationRequired''
     then eff_bind (mark (whMarkReauthorizeRequested deps) ReauthorizationMarked (chId channel)) (\<lambda>_. eff_return [])
     else if clLifecycleEvent claim = Some ''subscriptionRemoved''
     then eff_bind (mark (whMarkChannelRemoved deps) RemovalMarked (chId channel)) (\<lambda>_. resolveCalendarIds channel deps)
     else if clLifecycleEvent claim = Some ''missed'' then resolveCalendarIds channel deps
     else eff_return [])"

definition resolveClaimCalendarIds :: "PushClaim \<Rightarrow> StoredPushChannel \<Rightarrow> 'w PushWebhookDependencies \<Rightarrow> ('w, string list) webhook" where
  "resolveClaimCalendarIds claim channel deps =
    (if clKind claim = ClaimLifecycle then applyLifecycleClaim claim channel deps else resolveCalendarIds channel deps)"

record ClaimOutcome =
  coCalendarIds :: "string list"
  coDuplicate :: bool
  coNegativeCacheHit :: bool
  coRejectReason :: "PushRejectReason option"

definition accepted_outcome :: "string list \<Rightarrow> ClaimOutcome" where
  "accepted_outcome calendarIds = \<lparr>coCalendarIds = calendarIds, coDuplicate = False, coNegativeCacheHit = False, coRejectReason = None\<rparr>"

definition delivery_key :: "'j PushWebhookOptions \<Rightarrow> PushClaim \<Rightarrow> string \<Rightarrow> string" where
  "delivery_key options claim deliveryId = woProvider options @ '':'' @ clChannelKey claim @ '':'' @ deliveryId"

definition process_accepted :: "PushClaim \<Rightarrow> StoredPushChannel \<Rightarrow> 'w PushWebhookDependencies \<Rightarrow> ('w, ClaimOutcome) webhook" where
  "process_accepted claim channel deps =
    eff_bind (cached_notification (chId channel) deps) (\<lambda>_.
    eff_bind (if clKind claim = ClaimSync \<or> chVerifiedAt channel = None then cached_verification (chId channel) deps
      else eff_return ()) (\<lambda>_.
    if clKind claim = ClaimSync then eff_return (accepted_outcome [])
    else eff_bind (resolveClaimCalendarIds claim channel deps) (\<lambda>ids. eff_return (accepted_outcome ids))))"

definition processClaim :: "PushClaim \<Rightarrow> 'w PushWebhookDependencies \<Rightarrow> 'j PushWebhookOptions \<Rightarrow> ('w, ClaimOutcome) webhook" where
  "processClaim claim deps options =
    eff_bind (resolveClaimChannel claim deps options) (\<lambda>resolution.
    case lkChannel resolution of
      None \<Rightarrow> eff_return \<lparr>coCalendarIds = [], coDuplicate = False, coNegativeCacheHit = lkNegativeCacheHit resolution,
        coRejectReason = lkRejectReason resolution\<rparr>
    | Some channel \<Rightarrow>
        eff_bind (case clDeliveryId claim of None \<Rightarrow> eff_return True
          | Some deliveryId \<Rightarrow> plainly (whClaimDelivery deps (delivery_key options claim deliveryId))) (\<lambda>claimed.
        if \<not> claimed then eff_return \<lparr>coCalendarIds = [], coDuplicate = True, coNegativeCacheHit = False, coRejectReason = None\<rparr>
        else process_accepted claim channel deps))"

section \<open>All claims of a request\<close>

definition add_new :: "string \<Rightarrow> string list \<Rightarrow> string list" where
  "add_new x xs = (if x \<in> set xs then xs else xs @ [x])"

text \<open>The calendars to wake, and the number of rejected claims.\<close>

fun claims_loop :: "'w PushWebhookDependencies \<Rightarrow> 'j PushWebhookOptions \<Rightarrow> PushClaim list \<Rightarrow> string list \<times> nat \<Rightarrow> ('w, string list \<times> nat) webhook" where
  "claims_loop deps options [] acc = eff_return acc"
| "claims_loop deps options (claim # claims) acc =
    eff_bind (processClaim claim deps options) (\<lambda>outcome.
    claims_loop deps options claims (fold add_new (coCalendarIds outcome) (fst acc),
      snd acc + (if coRejectReason outcome \<noteq> None then 1 else 0)))"

definition processClaims :: "PushClaim list \<Rightarrow> string \<Rightarrow> 'w PushWebhookDependencies \<Rightarrow> 'j PushWebhookOptions \<Rightarrow> ('w, nat) webhook" where
  "processClaims claims correlationId deps options =
    eff_bind (claims_loop deps options claims ([], 0)) (\<lambda>(pendingCalendarIds, rejectedCount).
    eff_bind (if pendingCalendarIds \<noteq> [] then eff_bind (note_call (IngestWoken pendingCalendarIds)) (\<lambda>_.
        plainly (whWakeIngest deps pendingCalendarIds correlationId)) else eff_return ()) (\<lambda>_.
    eff_return rejectedCount))"

section \<open>A request\<close>

definition status_only :: "nat \<Rightarrow> webhook_response" where
  "status_only status = \<lparr>wrStatus = status, wrEcho = None\<rparr>"

definition handshakeResponse :: "string \<Rightarrow> webhook_response" where
  "handshakeResponse token = \<lparr>wrStatus = 200, wrEcho = Some token\<rparr>"

definition readBody :: "'j webhook_text \<Rightarrow> string \<Rightarrow> 'j push_body" where
  "readBody txt rawBody = (if rawBody = [] then NullBody
    else case wtJson txt rawBody of Some j \<Rightarrow> JsonBody j | None \<Rightarrow> TextBody rawBody)"

definition exceedsDeclaredBodyLimit :: "webhook_request \<Rightarrow> bool" where
  "exceedsDeclaredBodyLimit request = (case wqDeclaredLength request of None \<Rightarrow> False | Some n \<Rightarrow> n > int PUSH_BODY_MAX_BYTES)"

fun read_chunks :: "string list \<Rightarrow> string \<Rightarrow> string option" where
  "read_chunks [] bytes = Some bytes"
| "read_chunks (c # cs) bytes =
    (if length bytes + length c > PUSH_BODY_MAX_BYTES then None else read_chunks cs (bytes @ c))"

definition readBoundedBody :: "'j webhook_text \<Rightarrow> webhook_request \<Rightarrow> string option" where
  "readBoundedBody txt request =
    (case wqBody request of None \<Rightarrow> Some [] | Some chunks \<Rightarrow> map_option (wtUtf8 txt) (read_chunks chunks []))"

definition parseBody :: "'j webhook_text \<Rightarrow> webhook_request \<Rightarrow> string \<Rightarrow> 'j PushWebhookOptions \<Rightarrow> PushParseResult" where
  "parseBody txt request raw options =
    woParse options \<lparr>phBody = readBody txt raw, phHeaders = wqHeaders request, phSearch = wqSearch request\<rparr>"

definition resolveHandshakeResponse :: "webhook_request \<Rightarrow> 'j PushWebhookOptions \<Rightarrow> webhook_response option" where
  "resolveHandshakeResponse request options =
    (case woReadValidationToken options of None \<Rightarrow> None
     | Some read_token \<Rightarrow> (case read_token (wqSearch request) of None \<Rightarrow> None
       | Some token \<Rightarrow> Some (if length token > PUSH_VALIDATION_TOKEN_MAX then status_only 400 else handshakeResponse token)))"

definition readAdmittedBody :: "'j webhook_text \<Rightarrow> webhook_request \<Rightarrow> 'w PushWebhookDependencies \<Rightarrow> 'j PushWebhookOptions
    \<Rightarrow> ('w, webhook_response + string) webhook" where
  "readAdmittedBody txt request deps options =
    (if exceedsDeclaredBodyLimit request then eff_return (Inl (status_only 413))
     else eff_bind (plainly (whClaimPushAdmission deps (woProvider options))) (\<lambda>admitted.
       eff_return (if \<not> admitted then Inl (status_only 503)
         else case readBoundedBody txt request of None \<Rightarrow> Inl (status_only 413) | Some raw \<Rightarrow> Inr raw)))"

definition run_claims :: "PushClaim list \<Rightarrow> 'w PushWebhookDependencies \<Rightarrow> 'j PushWebhookOptions \<Rightarrow> ('w, webhook_response) webhook" where
  "run_claims claims deps options =
    eff_bind (plainly (whGenerateCorrelationId deps)) (\<lambda>correlationId.
    eff_bind (processClaims claims correlationId deps options) (\<lambda>rejectedCount. eff_return
      (status_only (if claims \<noteq> [] \<and> rejectedCount = length claims then 401 else woAcceptedStatus options))))"

definition runPushWebhook :: "'j webhook_text \<Rightarrow> webhook_request \<Rightarrow> 'w PushWebhookDependencies \<Rightarrow> 'j PushWebhookOptions
    \<Rightarrow> ('w, webhook_response) webhook" where
  "runPushWebhook txt request deps options =
    (case resolveHandshakeResponse request options of
       Some handshake \<Rightarrow> eff_return handshake
     | None \<Rightarrow>
         if \<not> str_truthy (whWebhookPublicUrl deps) then eff_return (status_only 501)
         else eff_bind (readAdmittedBody txt request deps options) (\<lambda>admission.
           case admission of
             Inl response \<Rightarrow> eff_return response
           | Inr raw \<Rightarrow> (case parseBody txt request raw options of
               ParseFailure _ \<Rightarrow> eff_return (status_only 400)
             | ValidationToken token \<Rightarrow> eff_return (handshakeResponse token)
             | Claims claims \<Rightarrow> run_claims claims deps options)))"

definition handlePushWebhook :: "'j webhook_text \<Rightarrow> webhook_request \<Rightarrow> 'w PushWebhookDependencies \<Rightarrow> 'j PushWebhookOptions
    \<Rightarrow> ('w, webhook_response) webhook" where
  "handlePushWebhook txt request deps options =
    eff_catch (runPushWebhook txt request deps options) (\<lambda>_. eff_return (status_only 503))"

section \<open>The two routes\<close>

definition googleOptions :: "'j PushWebhookOptions" where
  "googleOptions = \<lparr>woAcceptedStatus = 200, woEnforceResourceId = True, woParse = parseGooglePushNotification,
    woProvider = ''google'', woReadValidationToken = None\<rparr>"

definition outlookOptions :: "('j push_body \<Rightarrow> GraphNotification list option) \<Rightarrow> 'j PushWebhookOptions" where
  "outlookOptions schema = \<lparr>woAcceptedStatus = 202, woEnforceResourceId = False, woParse = parseOutlookPushNotification schema,
    woProvider = ''outlook'', woReadValidationToken = Some readGraphValidationToken\<rparr>"

section \<open>Admission and debounce\<close>

definition PUSH_ADMISSION_BUCKET_MS :: int where "PUSH_ADMISSION_BUCKET_MS = 10000"
definition PUSH_ADMISSION_PER_BUCKET :: int where "PUSH_ADMISSION_PER_BUCKET = 200"

text \<open>The counters of the store, by provider and bucket; a bucket's counter outlives it.\<close>

definition claimPushAdmission :: "instant \<Rightarrow> string \<Rightarrow> (string \<times> int \<Rightarrow> int) \<Rightarrow> bool \<times> (string \<times> int \<Rightarrow> int)" where
  "claimPushAdmission now provider counters =
    (let key = (provider, now div PUSH_ADMISSION_BUCKET_MS); hits = counters key + 1
     in (hits \<le> PUSH_ADMISSION_PER_BUCKET, counters(key := hits)))"

definition groupWakesByDebounce :: "(string \<times> string) list \<Rightarrow> (string \<Rightarrow> IngestPlan option) \<Rightarrow> (int, string list) jsmap" where
  "groupWakesByDebounce calendars planByUserId =
    fold (\<lambda>(calendarId, userId) groups. group_push (resolveWakeDebounceMs (or_else (planByUserId userId) ProPlan)) calendarId groups)
      calendars []"

end
