(* ===== verification/Push_Webhook_Correct.thy ===== *)
theory Push_Webhook_Correct
  imports Push_Webhook
begin

text \<open>
  A webhook acts only on claims that prove themselves: on each path, whatever the dependencies answer, its
  calls are those of a channel that was found under the claim's key and whose secret the claim presents. And
  what becomes of a delivery whose work fails.
\<close>

section \<open>Authentic claims\<close>

definition proves :: "'w PushWebhookDependencies \<Rightarrow> 'j PushWebhookOptions \<Rightarrow> PushClaim \<Rightarrow> StoredPushChannel \<Rightarrow> bool" where
  "proves deps options claim ch \<longleftrightarrow> hasUsableChannelKey claim \<and> whVerifySecret deps (clPresentedSecret claim) (chSecretHash ch)
    \<and> \<not> (woEnforceResourceId options \<and> chProviderResourceId ch \<noteq> None \<and> clPresentedResourceId claim \<noteq> chProviderResourceId ch)"

definition authentic :: "'w PushWebhookDependencies \<Rightarrow> 'j PushWebhookOptions \<Rightarrow> PushClaim list \<Rightarrow> webhook_call set
    \<Rightarrow> PushClaim \<Rightarrow> StoredPushChannel \<Rightarrow> bool" where
  "authentic deps options claims calls claim ch \<longleftrightarrow> claim \<in> set claims \<and> ChannelFound (clChannelKey claim) (Some ch) \<in> calls
    \<and> proves deps options claim ch"

definition resolved :: "webhook_call set \<Rightarrow> string list \<Rightarrow> bool" where
  "resolved calls ids \<longleftrightarrow> (\<forall>i \<in> set ids. \<exists>ch cs. CalendarsResolved ch cs \<in> calls \<and> i \<in> set cs)"

fun authorized :: "'w PushWebhookDependencies \<Rightarrow> 'j PushWebhookOptions \<Rightarrow> PushClaim list \<Rightarrow> webhook_call set \<Rightarrow> webhook_call \<Rightarrow> bool" where
  "authorized deps options claims calls (ChannelFound _ _) = True"
| "authorized deps options claims calls (CalendarsResolved ch _) =
    (\<exists>claim. authentic deps options claims calls claim ch \<and> clKind claim \<noteq> ClaimSync)"
| "authorized deps options claims calls (NotificationRecorded i) =
    (\<exists>claim ch. authentic deps options claims calls claim ch \<and> chId ch = i)"
| "authorized deps options claims calls (VerificationRecorded i) =
    (\<exists>claim ch. authentic deps options claims calls claim ch \<and> chId ch = i \<and> (clKind claim = ClaimSync \<or> chVerifiedAt ch = None))"
| "authorized deps options claims calls (ReauthorizationMarked i) =
    (\<exists>claim ch. authentic deps options claims calls claim ch \<and> chId ch = i \<and> clLifecycleEvent claim = Some ''reauthorizationRequired'')"
| "authorized deps options claims calls (RemovalMarked i) =
    (\<exists>claim ch. authentic deps options claims calls claim ch \<and> chId ch = i \<and> clLifecycleEvent claim = Some ''subscriptionRemoved'')"
| "authorized deps options claims calls (IngestWoken ids) = resolved calls ids"

definition all_authorized :: "'w PushWebhookDependencies \<Rightarrow> 'j PushWebhookOptions \<Rightarrow> PushClaim list \<Rightarrow> webhook_call list \<Rightarrow> bool" where
  "all_authorized deps options claims calls \<longleftrightarrow> (\<forall>c \<in> set calls. authorized deps options claims (set calls) c)"

lemma authentic_mono: "authentic deps options claims A claim ch \<Longrightarrow> A \<subseteq> B \<Longrightarrow> authentic deps options claims B claim ch"
  by (auto simp: authentic_def)

lemma resolved_mono: "resolved A ids \<Longrightarrow> A \<subseteq> B \<Longrightarrow> resolved B ids"
  unfolding resolved_def by blast

lemma authorized_mono: "authorized deps options claims A c \<Longrightarrow> A \<subseteq> B \<Longrightarrow> authorized deps options claims B c"
  by (cases c) (auto dest: authentic_mono resolved_mono)

lemma authorized_calls:
  assumes "authentic deps options claims A claim ch"
  shows "authorized deps options claims (insert c A) (NotificationRecorded (chId ch))"
    and "clKind claim = ClaimSync \<or> chVerifiedAt ch = None \<Longrightarrow> authorized deps options claims (insert c A) (VerificationRecorded (chId ch))"
    and "clLifecycleEvent claim = Some ''reauthorizationRequired'' \<Longrightarrow>
      authorized deps options claims (insert c A) (ReauthorizationMarked (chId ch))"
    and "clLifecycleEvent claim = Some ''subscriptionRemoved'' \<Longrightarrow> authorized deps options claims (insert c A) (RemovalMarked (chId ch))"
proof -
  have "authentic deps options claims (insert c A) claim ch" using assms by (simp add: authentic_def)
  then show "authorized deps options claims (insert c A) (NotificationRecorded (chId ch))"
    "clKind claim = ClaimSync \<or> chVerifiedAt ch = None \<Longrightarrow> authorized deps options claims (insert c A) (VerificationRecorded (chId ch))"
    "clLifecycleEvent claim = Some ''reauthorizationRequired'' \<Longrightarrow>
      authorized deps options claims (insert c A) (ReauthorizationMarked (chId ch))"
    "clLifecycleEvent claim = Some ''subscriptionRemoved'' \<Longrightarrow> authorized deps options claims (insert c A) (RemovalMarked (chId ch))"
    by (simp only: authorized.simps, blast)+
qed

section \<open>Statements\<close>

definition hook_ok :: "'w PushWebhookDependencies \<Rightarrow> 'j PushWebhookOptions \<Rightarrow> PushClaim list \<Rightarrow> webhook_notes \<Rightarrow> bool" where
  "hook_ok deps options claims n \<longleftrightarrow> all_authorized deps options claims (wnCalls n)
    \<and> (\<forall>k l ch. (k, l) \<in> set (wnLookups n) \<and> lkChannel l = Some ch \<longrightarrow> ChannelFound k (Some ch) \<in> set (wnCalls n))
    \<and> (\<forall>i ids. (i, ids) \<in> set (wnCalendarIds n) \<longrightarrow> resolved (set (wnCalls n)) ids)"

lemma hook_okD:
  "hook_ok deps options claims n \<Longrightarrow> map_of (wnLookups n) k = Some l \<Longrightarrow> lkChannel l = Some ch \<Longrightarrow> ChannelFound k (Some ch) \<in> set (wnCalls n)"
  "hook_ok deps options claims n \<Longrightarrow> map_of (wnCalendarIds n) i = Some ids \<Longrightarrow> resolved (set (wnCalls n)) ids"
  unfolding hook_ok_def by (blast dest: map_of_SomeD)+

lemma hook_ok_called:
  assumes n: "hook_ok deps options claims n" and c: "authorized deps options claims (insert c (set (wnCalls n))) c"
  shows "hook_ok deps options claims (called c n)"
proof -
  have more: "set (wnCalls n) \<subseteq> insert c (set (wnCalls n))" by auto
  have keep: "authorized deps options claims (insert c (set (wnCalls n))) x" if "authorized deps options claims (set (wnCalls n)) x" for x
    by (rule authorized_mono [OF that more])
  have "all_authorized deps options claims (wnCalls n @ [c])"
    using n c keep by (auto simp: hook_ok_def all_authorized_def)
  moreover have "resolved (insert c (set (wnCalls n))) ids" if "(i, ids) \<in> set (wnCalendarIds n)" for i ids
    using n that resolved_mono [OF _ more] by (auto simp: hook_ok_def)
  ultimately show ?thesis using n by (auto simp: hook_ok_def called_def)
qed

definition grows :: "(webhook_call set \<Rightarrow> bool) \<Rightarrow> bool" where
  "grows P \<longleftrightarrow> (\<forall>A B. P A \<and> A \<subseteq> B \<longrightarrow> P B)"

lemma growsD: "grows P \<Longrightarrow> P A \<Longrightarrow> A \<subseteq> B \<Longrightarrow> P B"
  unfolding grows_def by blast

definition upholding :: "'w PushWebhookDependencies \<Rightarrow> 'j PushWebhookOptions \<Rightarrow> PushClaim list
    \<Rightarrow> (webhook_call set \<Rightarrow> bool) \<Rightarrow> ('w, 'a) webhook \<Rightarrow> ('a \<Rightarrow> webhook_call set \<Rightarrow> bool) \<Rightarrow> bool" where
  "upholding deps options claims P m Q \<longleftrightarrow> (\<forall>wn r wn'. m wn = (r, wn') \<and> hook_ok deps options claims (snd wn) \<and> P (set (wnCalls (snd wn))) \<longrightarrow>
    hook_ok deps options claims (snd wn') \<and> set (wnCalls (snd wn)) \<subseteq> set (wnCalls (snd wn'))
    \<and> (\<forall>x. r = Inr x \<longrightarrow> Q x (set (wnCalls (snd wn')))))"

locale claims_run =
  fixes deps :: "'w PushWebhookDependencies" and options :: "'j PushWebhookOptions" and claims :: "PushClaim list"
begin

abbreviation upholds :: "(webhook_call set \<Rightarrow> bool) \<Rightarrow> ('w, 'a) webhook \<Rightarrow> ('a \<Rightarrow> webhook_call set \<Rightarrow> bool) \<Rightarrow> bool" where
  "upholds \<equiv> upholding deps options claims"

lemma upholdsI:
  assumes "\<And>w n r w' n'. m (w, n) = (r, (w', n')) \<Longrightarrow> hook_ok deps options claims n \<Longrightarrow> P (set (wnCalls n)) \<Longrightarrow>
    hook_ok deps options claims n' \<and> set (wnCalls n) \<subseteq> set (wnCalls n') \<and> (\<forall>x. r = Inr x \<longrightarrow> Q x (set (wnCalls n')))"
  shows "upholds P m Q"
  unfolding upholding_def
proof (intro allI impI)
  fix wn r wn'
  assume a: "m wn = (r, wn') \<and> hook_ok deps options claims (snd wn) \<and> P (set (wnCalls (snd wn)))"
  then have "m (fst wn, snd wn) = (r, (fst wn', snd wn'))" by simp
  from assms [OF this] a show "hook_ok deps options claims (snd wn') \<and> set (wnCalls (snd wn)) \<subseteq> set (wnCalls (snd wn'))
      \<and> (\<forall>x. r = Inr x \<longrightarrow> Q x (set (wnCalls (snd wn'))))" by blast
qed

lemma upholdsD:
  "upholds P m Q \<Longrightarrow> m wn = (r, wn') \<Longrightarrow> hook_ok deps options claims (snd wn) \<Longrightarrow> P (set (wnCalls (snd wn))) \<Longrightarrow>
    hook_ok deps options claims (snd wn') \<and> set (wnCalls (snd wn)) \<subseteq> set (wnCalls (snd wn')) \<and> (\<forall>x. r = Inr x \<longrightarrow> Q x (set (wnCalls (snd wn'))))"
  unfolding upholding_def by blast

lemma upholds_return: "(\<And>A. P A \<Longrightarrow> Q x A) \<Longrightarrow> upholds P (eff_return x) Q"
  by (rule upholdsI) (auto simp: eff_return_def)

lemma upholds_bind:
  assumes m: "upholds P m Q" and f: "\<And>x. upholds (\<lambda>A. P A \<and> Q x A) (f x) R" and P: "grows P"
  shows "upholds P (eff_bind m f) R"
proof (rule upholdsI)
  fix w n r w' n'
  assume run: "eff_bind m f (w, n) = (r, (w', n'))" and n: "hook_ok deps options claims n" "P (set (wnCalls n))"
  obtain q v where q: "m (w, n) = (q, v)" by (cases "m (w, n)")
  have first: "hook_ok deps options claims (snd v) \<and> set (wnCalls n) \<subseteq> set (wnCalls (snd v)) \<and> (\<forall>x. q = Inr x \<longrightarrow> Q x (set (wnCalls (snd v))))"
    using upholdsD [OF m q] n by simp
  show "hook_ok deps options claims n' \<and> set (wnCalls n) \<subseteq> set (wnCalls n') \<and> (\<forall>x. r = Inr x \<longrightarrow> R x (set (wnCalls n')))"
  proof (cases q)
    case (Inl e)
    then show ?thesis using run q first by (auto simp: eff_bind_def)
  next
    case (Inr x)
    then have fx: "f x v = (r, (w', n'))" using run q by (simp add: eff_bind_def)
    have "P (set (wnCalls (snd v)))" using growsD [OF P n(2)] first by blast
    with upholdsD [OF f fx] first Inr show ?thesis by auto
  qed
qed

lemma upholds_weaken: "upholds P m Q \<Longrightarrow> (\<And>A. P' A \<Longrightarrow> P A) \<Longrightarrow> (\<And>x A. Q x A \<Longrightarrow> Q' x A) \<Longrightarrow> upholds P' m Q'"
  unfolding upholding_def by blast

lemma upholds_plainly: "(\<And>x A. P A \<Longrightarrow> Q x A) \<Longrightarrow> upholds P (plainly m) Q"
  by (rule upholdsI) (auto simp: plainly_def hook_def split: prod.splits sum.splits)

lemma upholds_note: "(\<And>A. P A \<Longrightarrow> authorized deps options claims (insert c A) c) \<Longrightarrow> upholds P (note_call c) (\<lambda>_ _. True)"
  by (rule upholdsI) (auto simp: note_call_def intro!: hook_ok_called, auto simp: called_def)

lemma upholds_catch:
  assumes "upholds P m Q" "\<And>e. upholds (\<lambda>_. True) (h e) (\<lambda>_ _. True)"
  shows "upholds P (eff_catch m h) (\<lambda>_ _. True)"
proof (rule upholdsI)
  fix w n r w' n'
  assume run: "eff_catch m h (w, n) = (r, (w', n'))" and n: "hook_ok deps options claims n" "P (set (wnCalls n))"
  obtain q v where q: "m (w, n) = (q, v)" by (cases "m (w, n)")
  note first = upholdsD [OF assms(1) q]
  show "hook_ok deps options claims n' \<and> set (wnCalls n) \<subseteq> set (wnCalls n') \<and> (\<forall>x. r = Inr x \<longrightarrow> True)"
  proof (cases q)
    case (Inl e)
    then have "h e v = (r, (w', n'))" using run q by (simp add: eff_catch_def)
    from upholdsD [OF assms(2) this] first n show ?thesis by auto
  qed (use run q first n in \<open>auto simp: eff_catch_def\<close>)
qed

section \<open>Lookups\<close>

abbreviation found :: "string \<Rightarrow> ChannelLookup \<Rightarrow> webhook_call set \<Rightarrow> bool" where
  "found k l A \<equiv> \<forall>ch. lkChannel l = Some ch \<longrightarrow> ChannelFound k (Some ch) \<in> A"

abbreviation any :: "webhook_call set \<Rightarrow> bool" where "any \<equiv> \<lambda>_. True"

lemma grows_facts: "grows any" "grows (found k l)" "grows (\<lambda>A. authentic deps options claims A claim ch)"
  "grows (\<lambda>A. resolved A ids)" "grows P \<Longrightarrow> grows Q \<Longrightarrow> grows (\<lambda>A. P A \<and> Q A)"
  by (auto simp: grows_def intro: authentic_mono resolved_mono)

lemma upholds_found: "upholds any (hook m (\<lambda>ch. called (ChannelFound k ch))) (\<lambda>ch A. ChannelFound k ch \<in> A)"
proof (rule upholdsI)
  fix w n r w' n'
  assume run: "hook m (\<lambda>ch. called (ChannelFound k ch)) (w, n) = (r, (w', n'))" and n: "hook_ok deps options claims n"
  have "hook_ok deps options claims (called (ChannelFound k ch) n)" for ch by (rule hook_ok_called [OF n]) simp
  then show "hook_ok deps options claims n' \<and> set (wnCalls n) \<subseteq> set (wnCalls n') \<and> (\<forall>x. r = Inr x \<longrightarrow> ChannelFound k x \<in> set (wnCalls n'))"
    using run n by (auto simp: hook_def called_def split: prod.splits sum.splits)
qed

lemma upholds_lookup: "upholds any (lookupChannel k deps options) (found k)"
proof -
  have after: "upholds (\<lambda>A. True \<and> ChannelFound k ch \<in> A) (case ch of
      None \<Rightarrow> eff_bind (plainly (whRememberUnknownChannel deps (woProvider options) k PUSH_UNKNOWN_CHANNEL_TTL_SECONDS))
        (\<lambda>_. eff_return (unknown_channel False))
    | Some c \<Rightarrow> eff_return \<lparr>lkChannel = Some c, lkNegativeCacheHit = False, lkRejectReason = None\<rparr>) (found k)" for ch
  proof (cases ch)
    case None
    show ?thesis unfolding None option.case
      by (rule upholds_bind [OF upholds_plainly [where Q = "\<lambda>_. any"] upholds_return]) (auto simp: unknown_channel_def grows_def)
  next
    case (Some c)
    show ?thesis unfolding Some option.case by (rule upholds_return) simp
  qed
  have hit: "upholds any (eff_return (unknown_channel True)) (found k)"
    by (rule upholds_return) (simp add: unknown_channel_def)
  have miss: "upholds any (eff_bind (hook (whFindChannel deps (woProvider options) k) (\<lambda>ch. called (ChannelFound k ch))) (\<lambda>ch. case ch of
      None \<Rightarrow> eff_bind (plainly (whRememberUnknownChannel deps (woProvider options) k PUSH_UNKNOWN_CHANNEL_TTL_SECONDS))
        (\<lambda>_. eff_return (unknown_channel False))
    | Some c \<Rightarrow> eff_return \<lparr>lkChannel = Some c, lkNegativeCacheHit = False, lkRejectReason = None\<rparr>)) (found k)"
    by (rule upholds_bind [OF upholds_found after grows_facts(1)])
  have rest: "upholds (\<lambda>A. True \<and> True) (if cached then eff_return (unknown_channel True)
      else eff_bind (hook (whFindChannel deps (woProvider options) k) (\<lambda>ch. called (ChannelFound k ch))) (\<lambda>ch. case ch of
      None \<Rightarrow> eff_bind (plainly (whRememberUnknownChannel deps (woProvider options) k PUSH_UNKNOWN_CHANNEL_TTL_SECONDS))
        (\<lambda>_. eff_return (unknown_channel False))
    | Some c \<Rightarrow> eff_return \<lparr>lkChannel = Some c, lkNegativeCacheHit = False, lkRejectReason = None\<rparr>)) (found k)" for cached
    by (cases cached) (simp_all only: if_True if_False HOL.simp_thms(21) hit miss)
  show ?thesis
    unfolding lookupChannel_def
  proof (rule upholds_bind [OF _ rest grows_facts(1)])
    show "upholds any (plainly (whIsUnknownChannelCached deps (woProvider options) k)) (\<lambda>_. any)"
      by (rule upholds_plainly) simp
  qed
qed

lemma upholds_cached_lookup: "upholds any (cached_lookup k deps options) (found k)"
proof (rule upholdsI)
  fix w n r w' n'
  assume run: "cached_lookup k deps options (w, n) = (r, (w', n'))" and n: "hook_ok deps options claims n"
  show "hook_ok deps options claims n' \<and> set (wnCalls n) \<subseteq> set (wnCalls n') \<and> (\<forall>x. r = Inr x \<longrightarrow> found k x (set (wnCalls n')))"
  proof (cases "map_of (wnLookups n) k")
    case (Some l)
    then show ?thesis using run n hook_okD(1) [OF n Some] by (auto simp: cached_lookup_def with_notes_def eff_return_def)
  next
    case None
    obtain q v where q: "lookupChannel k deps options (w, n) = (q, v)" by (cases "lookupChannel k deps options (w, n)")
    have first: "hook_ok deps options claims (snd v)" "set (wnCalls n) \<subseteq> set (wnCalls (snd v))"
      "\<And>x. q = Inr x \<Longrightarrow> found k x (set (wnCalls (snd v)))"
      using upholdsD [OF upholds_lookup q] n by auto
    show ?thesis
    proof (cases q)
      case (Inl e)
      then show ?thesis using run None q first by (auto simp: cached_lookup_def with_notes_def eff_bind_def)
    next
      case (Inr l)
      have "hook_ok deps options claims ((snd v)\<lparr>wnLookups := (k, l) # wnLookups (snd v)\<rparr>)"
        using first(1) first(3) [OF Inr] by (auto simp: hook_ok_def)
      then show ?thesis using run None q Inr first
        by (auto simp: cached_lookup_def with_notes_def eff_bind_def eff_return_def)
    qed
  qed
qed

lemma upholds_resolveClaimChannel:
  assumes "claim \<in> set claims"
  shows "upholds any (resolveClaimChannel claim deps options)
    (\<lambda>l A. \<forall>ch. lkChannel l = Some ch \<longrightarrow> authentic deps options claims A claim ch)"
proof (cases "hasUsableChannelKey claim")
  case True
  then show ?thesis
    unfolding resolveClaimChannel_def
    by (simp, intro upholds_bind [OF upholds_cached_lookup upholds_return grows_facts(1)])
      (use assms in \<open>auto simp: authentic_def proves_def split: option.splits if_splits\<close>)
qed (auto simp: resolveClaimChannel_def intro: upholds_return)

section \<open>A claim\<close>

lemma upholds_recorded:
  assumes "\<And>A. P A \<Longrightarrow> authorized deps options claims (insert c A) c" and P: "grows P"
  shows "upholds P (eff_bind (note_call c) (\<lambda>_. hook m (\<lambda>_ n. n\<lparr>wnLiveness := f n\<rparr>))) (\<lambda>_. any)"
    and "upholds P (eff_bind (note_call c) (\<lambda>_. hook m (\<lambda>_ n. n\<lparr>wnVerifications := f n\<rparr>))) (\<lambda>_. any)"
    and "upholds P (eff_bind (note_call c) (\<lambda>_. plainly m)) (\<lambda>_. any)"
proof -
  have "upholds (\<lambda>A. P A \<and> True) (hook m (\<lambda>_ n. n\<lparr>wnLiveness := f n\<rparr>)) (\<lambda>_. any)"
    "upholds (\<lambda>A. P A \<and> True) (hook m (\<lambda>_ n. n\<lparr>wnVerifications := f n\<rparr>)) (\<lambda>_. any)"
    by (rule upholdsI, auto simp: hook_def hook_ok_def split: prod.splits sum.splits)+
  then show "upholds P (eff_bind (note_call c) (\<lambda>_. hook m (\<lambda>_ n. n\<lparr>wnLiveness := f n\<rparr>))) (\<lambda>_. any)"
    "upholds P (eff_bind (note_call c) (\<lambda>_. hook m (\<lambda>_ n. n\<lparr>wnVerifications := f n\<rparr>))) (\<lambda>_. any)"
    "upholds P (eff_bind (note_call c) (\<lambda>_. plainly m)) (\<lambda>_. any)"
    by (auto intro!: upholds_bind [OF upholds_note [OF assms(1)] _ P] upholds_plainly)
qed

lemma upholds_with_notes: "(\<And>n. upholds P (f n) Q) \<Longrightarrow> upholds P (with_notes f) Q"
  by (rule upholdsI) (use upholdsD in \<open>fastforce simp: with_notes_def\<close>)

lemma upholds_notification:
  "upholds (\<lambda>A. authentic deps options claims A claim ch) (cached_notification (chId ch) deps) (\<lambda>_. any)"
  unfolding cached_notification_def
proof (rule upholds_with_notes)
  fix n
  show "upholds (\<lambda>A. authentic deps options claims A claim ch) (if chId ch \<in> wnLiveness n then eff_return ()
    else eff_bind (note_call (NotificationRecorded (chId ch))) (\<lambda>_.
      hook (whRecordNotificationReceived deps (chId ch)) (\<lambda>_ n. n\<lparr>wnLiveness := insert (chId ch) (wnLiveness n)\<rparr>))) (\<lambda>_. any)"
  proof (cases "chId ch \<in> wnLiveness n")
    case True
    show ?thesis unfolding if_P [OF True] by (rule upholds_return) simp
  next
    case False
    show ?thesis unfolding if_not_P [OF False]
      by (rule upholds_recorded(1) [OF _ grows_facts(3)]) (rule authorized_calls(1))
  qed
qed

lemma upholds_verification:
  assumes "clKind claim = ClaimSync \<or> chVerifiedAt ch = None"
  shows "upholds (\<lambda>A. authentic deps options claims A claim ch) (cached_verification (chId ch) deps) (\<lambda>_. any)"
  unfolding cached_verification_def
proof (rule upholds_with_notes)
  fix n
  show "upholds (\<lambda>A. authentic deps options claims A claim ch) (if chId ch \<in> wnVerifications n then eff_return ()
    else eff_bind (note_call (VerificationRecorded (chId ch))) (\<lambda>_.
      hook (whRecordVerified deps (chId ch)) (\<lambda>_ n. n\<lparr>wnVerifications := insert (chId ch) (wnVerifications n)\<rparr>))) (\<lambda>_. any)"
  proof (cases "chId ch \<in> wnVerifications n")
    case True
    show ?thesis unfolding if_P [OF True] by (rule upholds_return) simp
  next
    case False
    show ?thesis unfolding if_not_P [OF False]
      by (rule upholds_recorded(2) [OF _ grows_facts(3)]) (rule authorized_calls(2) [OF _ assms])
  qed
qed

lemma upholds_resolve:
  assumes kind: "clKind claim \<noteq> ClaimSync"
  shows "upholds (\<lambda>A. authentic deps options claims A claim ch) (resolveCalendarIds ch deps) (\<lambda>ids A. resolved A ids)"
proof (rule upholdsI)
  fix w n r w' n'
  assume run: "resolveCalendarIds ch deps (w, n) = (r, (w', n'))" and n: "hook_ok deps options claims n"
    and ch: "authentic deps options claims (set (wnCalls n)) claim ch"
  show "hook_ok deps options claims n' \<and> set (wnCalls n) \<subseteq> set (wnCalls n') \<and> (\<forall>x. r = Inr x \<longrightarrow> resolved (set (wnCalls n')) x)"
  proof (cases "map_of (wnCalendarIds n) (chId ch)")
    case (Some ids)
    then show ?thesis using run n hook_okD(2) [OF n Some] by (auto simp: resolveCalendarIds_def with_notes_def eff_return_def)
  next
    case None
    have "hook_ok deps options claims (called (CalendarsResolved ch ids) n)" for ids
    proof (rule hook_ok_called [OF n])
      have "authentic deps options claims (insert (CalendarsResolved ch ids) (set (wnCalls n))) claim ch"
        by (rule authentic_mono [OF ch]) auto
      then show "authorized deps options claims (insert (CalendarsResolved ch ids) (set (wnCalls n))) (CalendarsResolved ch ids)"
        using kind by auto
    qed
    then have "hook_ok deps options claims (called (CalendarsResolved ch ids) (n\<lparr>wnCalendarIds := (chId ch, ids) # wnCalendarIds n\<rparr>))" for ids
      by (auto simp: hook_ok_def called_def resolved_def)
    moreover have "resolved (insert (CalendarsResolved ch ids) S) ids" for ids S
      unfolding resolved_def by blast
    ultimately show ?thesis using run None n
      by (auto simp: resolveCalendarIds_def with_notes_def hook_def called_def split: prod.splits sum.splits)
  qed
qed

lemma upholds_mark:
  assumes "\<And>A. P A \<Longrightarrow> authorized deps options claims (insert (c i) A) (c i)" "grows P"
  shows "upholds P (mark m c i) (\<lambda>_. any)"
  unfolding mark_def by (cases m) (auto intro!: upholds_return upholds_recorded(3) assms)

lemma upholds_lifecycle:
  assumes "clKind claim = ClaimLifecycle"
  shows "upholds (\<lambda>A. authentic deps options claims A claim ch) (applyLifecycleClaim claim ch deps) (\<lambda>ids A. resolved A ids)"
proof -
  let ?P = "\<lambda>A. authentic deps options claims A claim ch"
  have none: "upholds P (eff_return []) (\<lambda>ids A. resolved A ids)" for P
    by (rule upholds_return) (simp add: resolved_def)
  have resolve: "upholds ?P (resolveCalendarIds ch deps) (\<lambda>ids A. resolved A ids)" using assms by (intro upholds_resolve) simp
  have reauth: "upholds ?P (mark m ReauthorizationMarked (chId ch)) (\<lambda>_. any)" if "clLifecycleEvent claim = Some ''reauthorizationRequired''" for m
    by (rule upholds_mark [where c = ReauthorizationMarked, OF _ grows_facts(3)]) (rule authorized_calls(3) [OF _ that])
  have removal: "upholds ?P (mark m RemovalMarked (chId ch)) (\<lambda>_. any)" if "clLifecycleEvent claim = Some ''subscriptionRemoved''" for m
    by (rule upholds_mark [where c = RemovalMarked, OF _ grows_facts(3)]) (rule authorized_calls(4) [OF _ that])
  have resolve': "upholds (\<lambda>A. ?P A \<and> True) (resolveCalendarIds ch deps) (\<lambda>ids A. resolved A ids)" using resolve by simp
  show ?thesis
    unfolding applyLifecycleClaim_def
    by (auto intro!: none resolve upholds_bind [OF reauth none grows_facts(3)] upholds_bind [OF removal resolve' grows_facts(3)])
qed

abbreviation outcome_resolved :: "ClaimOutcome \<Rightarrow> webhook_call set \<Rightarrow> bool" where
  "outcome_resolved oc A \<equiv> resolved A (coCalendarIds oc)"

lemma upholds_accepted:
  "upholds (\<lambda>A. authentic deps options claims A claim ch) (process_accepted claim ch deps) outcome_resolved"
proof -
  let ?P = "\<lambda>A. authentic deps options claims A claim ch"
  have ids: "upholds ?P (eff_bind (resolveClaimCalendarIds claim ch deps) (\<lambda>ids. eff_return (accepted_outcome ids))) outcome_resolved"
    if "clKind claim \<noteq> ClaimSync"
  proof (rule upholds_bind [OF _ upholds_return grows_facts(3)])
    show "upholds ?P (resolveClaimCalendarIds claim ch deps) (\<lambda>ids A. resolved A ids)"
      unfolding resolveClaimCalendarIds_def using that by (simp add: upholds_lifecycle upholds_resolve)
  qed (simp add: accepted_outcome_def)
  have sync: "upholds ?P (eff_return (accepted_outcome [])) outcome_resolved"
    by (rule upholds_return) (simp add: accepted_outcome_def resolved_def)
  have rest: "upholds (\<lambda>A. ?P A \<and> True) (if clKind claim = ClaimSync then eff_return (accepted_outcome [])
      else eff_bind (resolveClaimCalendarIds claim ch deps) (\<lambda>ids. eff_return (accepted_outcome ids))) outcome_resolved"
    using ids sync by simp
  have verify: "upholds (\<lambda>A. ?P A \<and> True) (if clKind claim = ClaimSync \<or> chVerifiedAt ch = None then cached_verification (chId ch) deps
      else eff_return ()) (\<lambda>_. any)"
  proof (cases "clKind claim = ClaimSync \<or> chVerifiedAt ch = None")
    case True
    from upholds_verification [OF this] True show ?thesis by simp
  next
    case False
    have "upholds ?P (eff_return ()) (\<lambda>_. any)" by (rule upholds_return) simp
    then show ?thesis unfolding if_not_P [OF False] by simp
  qed
  show ?thesis
    unfolding process_accepted_def
    by (intro upholds_bind [OF upholds_notification] upholds_bind [OF verify] grows_facts) (use rest in simp)+
qed

lemma upholds_processClaim:
  assumes "claim \<in> set claims"
  shows "upholds any (processClaim claim deps options) outcome_resolved"
proof -
  let ?Q = "\<lambda>l A. \<forall>ch. lkChannel l = Some ch \<longrightarrow> authentic deps options claims A claim ch"
  let ?claim = "case clDeliveryId claim of None \<Rightarrow> eff_return True
      | Some deliveryId \<Rightarrow> plainly (whClaimDelivery deps (delivery_key options claim deliveryId))"
  have deliver: "upholds P ?claim (\<lambda>_. any)" for P
    by (auto intro: upholds_return upholds_plainly split: option.split)
  have accept: "upholds (\<lambda>A. authentic deps options claims A claim ch)
      (eff_bind ?claim (\<lambda>claimed. if \<not> claimed then eff_return \<lparr>coCalendarIds = [], coDuplicate = True, coNegativeCacheHit = False,
        coRejectReason = None\<rparr> else process_accepted claim ch deps)) outcome_resolved" for ch
    by (rule upholds_bind [OF deliver _ grows_facts(3)])
      (auto intro!: upholds_return upholds_weaken [OF upholds_accepted] simp: resolved_def)
  have reject: "upholds P (eff_return \<lparr>coCalendarIds = [], coDuplicate = False, coNegativeCacheHit = h, coRejectReason = rr\<rparr>) outcome_resolved"
    for P h rr by (rule upholds_return) (simp add: resolved_def)
  show ?thesis
    unfolding processClaim_def
  proof (rule upholds_bind [OF upholds_resolveClaimChannel [OF assms] _ grows_facts(1)])
    fix l
    show "upholds (\<lambda>A. True \<and> ?Q l A) (case lkChannel l of
        None \<Rightarrow> eff_return \<lparr>coCalendarIds = [], coDuplicate = False, coNegativeCacheHit = lkNegativeCacheHit l, coRejectReason = lkRejectReason l\<rparr>
      | Some channel \<Rightarrow> eff_bind ?claim (\<lambda>claimed. if \<not> claimed then eff_return \<lparr>coCalendarIds = [], coDuplicate = True,
          coNegativeCacheHit = False, coRejectReason = None\<rparr> else process_accepted claim channel deps)) outcome_resolved"
    proof (cases "lkChannel l")
      case (Some ch)
      show ?thesis unfolding Some option.case by (rule upholds_weaken [OF accept [of ch]]) (use Some in auto)
    qed (simp add: reject)
  qed
qed

section \<open>A request\<close>

lemma set_fold_add_new: "set (fold add_new xs ys) = set ys \<union> set xs"
  by (induction xs arbitrary: ys) (auto simp: add_new_def)

lemma upholds_claims_loop:
  "set cs \<subseteq> set claims \<Longrightarrow> upholds (\<lambda>A. resolved A (fst acc)) (claims_loop deps options cs acc) (\<lambda>res A. resolved A (fst res))"
proof (induction cs arbitrary: acc)
  case Nil
  show ?case unfolding claims_loop.simps by (rule upholds_return) simp
next
  case (Cons claim cs)
  have claim: "upholds (\<lambda>A. resolved A (fst acc)) (processClaim claim deps options) outcome_resolved"
    using Cons.prems by (intro upholds_weaken [OF upholds_processClaim]) auto
  show ?case unfolding claims_loop.simps
    by (rule upholds_bind [OF claim upholds_weaken [OF Cons.IH] grows_facts(4)])
      (use Cons.prems in \<open>auto simp: resolved_def set_fold_add_new\<close>)
qed

lemma upholds_run_claims: "upholds any (run_claims claims deps options) (\<lambda>_. any)"
proof -
  have wake: "upholds (\<lambda>A. any A \<and> resolved A (fst res)) (case res of (pending, rejected) \<Rightarrow>
      eff_bind (if pending \<noteq> [] then eff_bind (note_call (IngestWoken pending)) (\<lambda>_. plainly (whWakeIngest deps pending cid)) else eff_return ()) (\<lambda>_.
      eff_return rejected)) (\<lambda>_. any)" for res cid
  proof (cases res)
    case (Pair pending rejected)
    have "upholds (\<lambda>A. resolved A pending) (if pending \<noteq> [] then eff_bind (note_call (IngestWoken pending)) (\<lambda>_. plainly (whWakeIngest deps pending cid))
        else eff_return ()) (\<lambda>_. any)"
    proof (cases "pending = []")
      case False
      have "resolved (insert c A) pending" if "resolved A pending" for c A
        by (rule resolved_mono [OF that]) auto
      with False show ?thesis by (simp add: upholds_recorded(3) grows_facts)
    qed (simp add: upholds_return)
    note woken = this
    show ?thesis unfolding Pair prod.case fst_conv simp_thms
      by (rule upholds_bind [OF woken upholds_return grows_facts(4)]) simp
  qed
  have loop: "upholds any (claims_loop deps options claims ([], 0)) (\<lambda>res A. resolved A (fst res))"
    by (rule upholds_weaken [OF upholds_claims_loop]) (auto simp: resolved_def)
  have "upholds any (processClaims claims cid deps options) (\<lambda>_. any)" for cid
    unfolding processClaims_def by (rule upholds_bind [OF loop wake grows_facts(1)])
  then show ?thesis
    unfolding run_claims_def
    by (intro upholds_bind [OF upholds_plainly [where Q = "\<lambda>_. any"] upholds_bind [OF _ upholds_return] grows_facts(1)] grows_facts) auto
qed

end

interpretation cr: claims_run deps options claims for deps :: "'w PushWebhookDependencies" and options :: "'j PushWebhookOptions" and claims .

definition request_claims :: "'j webhook_text \<Rightarrow> webhook_request \<Rightarrow> 'j PushWebhookOptions \<Rightarrow> PushClaim list" where
  "request_claims txt request options =
    (case readBoundedBody txt request of None \<Rightarrow> []
     | Some raw \<Rightarrow> (case parseBody txt request raw options of Claims claims \<Rightarrow> claims | _ \<Rightarrow> []))"

lemma upholds_handle:
  fixes deps :: "'w PushWebhookDependencies" and options :: "'j PushWebhookOptions"
  assumes claims_def: "claims = request_claims txt request options"
  shows "upholding deps options claims (\<lambda>_. True) (handlePushWebhook txt request deps options) (\<lambda>_ _. True)"
proof -
  let ?up = "upholding deps options claims"
  have ret: "?up P (eff_return x) (\<lambda>_ _. True)" for P and x :: webhook_response by (rule cr.upholds_return) simp
  let ?parsed = "\<lambda>raw. case parseBody txt request raw options of ParseFailure _ \<Rightarrow> eff_return (status_only 400)
    | ValidationToken token \<Rightarrow> eff_return (handshakeResponse token) | Claims claims \<Rightarrow> run_claims claims deps options"
  have parsed: "?up (\<lambda>_. True) (?parsed raw) (\<lambda>_ _. True)" if raw: "readBoundedBody txt request = Some raw" for raw
  proof (cases "parseBody txt request raw options")
    case (Claims cs)
    then have "claims = cs" using raw by (simp add: claims_def request_claims_def)
    then show ?thesis using Claims cr.upholds_run_claims [of deps options claims] by simp
  qed (simp_all add: ret)
  have body: "?up (\<lambda>_. True) (readAdmittedBody txt request deps options)
      (\<lambda>admission _. \<forall>raw. admission = Inr raw \<longrightarrow> readBoundedBody txt request = Some raw)"
  proof (cases "exceedsDeclaredBodyLimit request")
    case True
    then show ?thesis unfolding readAdmittedBody_def if_P [OF True] by (intro cr.upholds_return) simp
  next
    case False
    show ?thesis unfolding readAdmittedBody_def if_not_P [OF False]
    proof (rule cr.upholds_bind [where Q = "\<lambda>_ _. True"])
      show "?up (\<lambda>_. True) (plainly (whClaimPushAdmission deps (woProvider options))) (\<lambda>_ _. True)"
        by (rule cr.upholds_plainly) simp
    qed (auto intro!: cr.upholds_return cr.grows_facts split: option.split)
  qed
  have "?up (\<lambda>_. True) (runPushWebhook txt request deps options) (\<lambda>_ _. True)"
  proof (cases "resolveHandshakeResponse request options")
    case None
    have "?up (\<lambda>_. True) (eff_bind (readAdmittedBody txt request deps options)
        (\<lambda>admission. case admission of Inl response \<Rightarrow> eff_return response | Inr raw \<Rightarrow> ?parsed raw)) (\<lambda>_ _. True)"
    proof (rule cr.upholds_bind [OF body _ cr.grows_facts(1)])
      fix admission :: "webhook_response + string"
      show "?up (\<lambda>_. True \<and> (\<forall>raw. admission = Inr raw \<longrightarrow> readBoundedBody txt request = Some raw))
          (case admission of Inl response \<Rightarrow> eff_return response | Inr raw \<Rightarrow> ?parsed raw) (\<lambda>_ _. True)"
      proof (cases admission)
        case (Inr raw)
        show ?thesis
        proof (cases "readBoundedBody txt request = Some raw")
          case True
          show ?thesis unfolding Inr sum.case by (rule cr.upholds_weaken [OF parsed [OF True]]) auto
        next
          case False
          with Inr show ?thesis by (simp add: upholding_def)
        qed
      qed (simp add: ret)
    qed
    then show ?thesis by (simp add: runPushWebhook_def None ret)
  qed (simp add: runPushWebhook_def ret)
  then show ?thesis unfolding handlePushWebhook_def by (rule cr.upholds_catch) (rule ret)
qed


section \<open>A delivery whose work fails\<close>

text \<open>A store that remembers deliveries, and a database that may be down.\<close>

record sample_hooks =
  shSeen :: "string set"
  shDown :: bool
  shWoken :: "string list"

definition sample_hook_channel :: StoredPushChannel where
  "sample_hook_channel = \<lparr>chAccountId = ''a'', chCalendarId = Some ''c'', chCreatedAt = 0, chExpiresAt = Some 600000000,
    chFailureCount = 0, chId = ''1'', chLastFailureAt = None, chLastNotificationAt = Some 0, chNextAttemptAt = None,
    chProvider = ''google'', chProviderChannelId = Some ''w'', chProviderResourceId = Some ''r'', chReauthorizeRequestedAt = None,
    chResourcePath = Some ''/'', chSecretHash = ''s'', chState = ChActive, chUpdatedAt = 0, chUserId = ''u'', chVerifiedAt = Some 0\<rparr>"

definition sample_hook_deps :: "sample_hooks PushWebhookDependencies" where
  "sample_hook_deps = \<lparr>whClaimDelivery = (\<lambda>key w. (Inr (key \<notin> shSeen w), w\<lparr>shSeen := insert key (shSeen w)\<rparr>)),
    whClaimPushAdmission = (\<lambda>_. eff_return True), whFindChannel = (\<lambda>_ _. eff_return (Some sample_hook_channel)),
    whGenerateCorrelationId = eff_return ''id'', whIsUnknownChannelCached = (\<lambda>_ _. eff_return False),
    whMarkChannelRemoved = None, whMarkReauthorizeRequested = None, whRecordNotificationReceived = (\<lambda>_. eff_return ()),
    whRecordVerified = (\<lambda>_. eff_return ()), whRememberUnknownChannel = (\<lambda>_ _ _. eff_return ()),
    whResolveAffectedCalendarIds = (\<lambda>ch. eff_return (resolveAffectedCalendarIds ch (\<lambda>_. []))), whVerifySecret = (\<lambda>a b. a = b),
    whWakeIngest = (\<lambda>ids _ w. if shDown w then (Inl \<lparr>peMessage = ''down'', peChannelGone = False\<rparr>, w) else (Inr (), w\<lparr>shWoken := shWoken w @ ids\<rparr>)),
    whWebhookPublicUrl = Some ''https://k''\<rparr>"

definition sample_hook_request :: webhook_request where
  "sample_hook_request = \<lparr>wqBody = None, wqDeclaredLength = None, wqHeaders = [''x-goog-channel-id'' \<mapsto> ''w'', ''x-goog-channel-token'' \<mapsto> ''s'',
    ''x-goog-message-number'' \<mapsto> ''7'', ''x-goog-resource-id'' \<mapsto> ''r'', ''x-goog-resource-state'' \<mapsto> ''exists''], wqSearch = Map.empty\<rparr>"

definition deliver_to :: "sample_hooks \<Rightarrow> nat \<times> sample_hooks" where
  "deliver_to w = (case handlePushWebhook \<lparr>wtJson = (\<lambda>_. None :: unit option), wtUtf8 = id\<rparr> sample_hook_request sample_hook_deps googleOptions
      (w, createClaimContext) of
    (Inr response, wn) \<Rightarrow> (wrStatus response, fst wn) | (Inl _, wn) \<Rightarrow> (0, fst wn))"

lemma sample_delivery:
  "deliver_to \<lparr>shSeen = S, shDown = d, shWoken = ws\<rparr> =
    (if ''google:w:7'' \<in> S then (200, \<lparr>shSeen = S, shDown = d, shWoken = ws\<rparr>)
     else (if d then 503 else 200, \<lparr>shSeen = insert ''google:w:7'' S, shDown = d, shWoken = if d then ws else ws @ [''c'']\<rparr>))"
  by (simp add: deliver_to_def handlePushWebhook_def runPushWebhook_def resolveHandshakeResponse_def googleOptions_def
      sample_hook_deps_def sample_hook_request_def readAdmittedBody_def exceedsDeclaredBodyLimit_def eff_simps eff_catch_def plainly_def
      hook_def readBoundedBody_def parseBody_def parseGooglePushNotification_def google_claim_kind_def GOOGLE_SYNC_RESOURCE_STATE_def
      run_claims_def processClaims_def processClaim_def resolveClaimChannel_def hasUsableChannelKey_def hasBoundedChannelKey_def
      PUSH_CHANNEL_KEY_MAX_def cached_lookup_def with_notes_def lookupChannel_def createClaimContext_def called_def
      sample_hook_channel_def delivery_key_def process_accepted_def cached_notification_def note_call_def resolveClaimCalendarIds_def
      resolveCalendarIds_def resolveAffectedCalendarIds_def accepted_outcome_def add_new_def status_only_def insert_absorb)


end
