(* ===== verification/Spec2Isabelle.thy ===== *)
theory Spec2Isabelle
  imports Source_Authority Sync_Calendar Sync_Lock_Correct Ingest_Correct Free_Time_Correct
    Rate_Limit_Correct Permits Lease_Semaphore Rediscovery_Correct Flush_Worker_Correct
    Sync_Progress_Correct Ingest_Schedule_Correct Safe_Fetch_Correct Destination_Attempt_Correct
    Event_Read_Correct Push_Stops Push_Plan_Correct Push_Webhook_Correct
begin

text \<open>
  A verification development for Keeper, a service that mirrors the events of a user's source
  calendars into destination calendars and answers questions about them.

  \<^bold>\<open>The program and its parts.\<close> A cron service reads every source calendar and stores what it reads
  (\<open>services/cron\<close>, \<open>packages/calendar/src/core/source\<close>, \<open>core/sync-engine/ingest.ts\<close>). A
  worker then brings each destination in line with the stored events: it takes the calendar's lock
  (\<open>packages/sync/src/sync-lock.ts\<close>), decides for which time ranges the stored events are
  authoritative (\<open>packages/sync/src/sync-user.ts\<close>), compares the stored events, the mappings of
  earlier copies and the copies now at the destination (\<open>core/sync/operations.ts\<close>), sends the
  resulting operations to the provider (\<open>core/sync-engine/index.ts\<close>) and records their outcome in
  the mapping table (\<open>core/sync-engine/flush.ts\<close>). An API answers event and free-time queries
  (\<open>services/api\<close>).

  \<^bold>\<open>Theories.\<close>
  \<^item> \<open>Prelude\<close>: truthiness, insertion-ordered maps, the stable \<open>toSorted\<close> behind the locale
    \<open>js_comparator\<close>, chunking, and effects that may throw.
  \<^item> \<open>Utc_Date\<close>: the UTC half of \<open>Date\<close>. \<open>Time_Range\<close>: all-day and point events, window overlap,
    the configurable sync window and the ranges a source must be read for (\<open>core/events/all-day.ts\<close>,
    \<open>time-range.ts\<close>, \<open>core/sync/sync-range.ts\<close>, \<open>required-source-ranges.ts\<close>).
  \<^item> \<open>Event_Content\<close>: the event types, the JSON text behind the content hashes, the push echo
    (\<open>core/types.ts\<close>, \<open>content-hash.ts\<close>, \<open>push-echo.ts\<close>).
  \<^item> \<open>Reconcile\<close>, \<open>Reassignment\<close>, \<open>Reconcile_Correct\<close>: \<open>core/sync/operations.ts\<close> whole, with
    what its additions, updates and removals guarantee.
  \<^item> \<open>Source_Authority\<close>: coverage, authority windows and the destination read of \<open>sync-user.ts\<close>.
  \<^item> \<open>Engine\<close>, \<open>Engine_Correct\<close>, \<open>Sync_Calendar\<close>: the sync engine, the flush of its outcome, the
    generation check and the compensation of a failed flush.
  \<^item> \<open>Redis_Store\<close>, \<open>Sync_Lock\<close>, \<open>Sync_Lock_Correct\<close>: the Redis commands and the calendar lock as a
    step relation over any number of interleaving callers.
  \<^item> \<open>Event_Diff\<close>, \<open>Event_States\<close>, \<open>Ingest\<close>, \<open>Ingest_Correct\<close>: the difference between a fetched
    source and its stored events, the event table with its indexes, and the ingest transaction.
  \<^item> \<open>Time_Zone\<close>, \<open>Time_Zone_Correct\<close>: zone identifiers, wall-clock conversions, zone transitions
    (\<open>packages/calendar/src/ics/utils\<close>).
  \<^item> \<open>Free_Time\<close>, \<open>Free_Time_Correct\<close>: the free-time search of the API.
  \<^item> \<open>Redis_Zset\<close>, \<open>Rate_Limit\<close>, \<open>Rate_Limit_Correct\<close>: the sliding-window limiter of
    \<open>core/utils/redis-rate-limiter.ts\<close> with its queue, as turns of interleaving callers.
  \<^item> \<open>Permits\<close>: the in-process gates (\<open>concurrency-gate.ts\<close>, the Outlook account gates) as two
    instances of the locale \<open>permit_gate\<close>. \<open>Lease_Semaphore\<close>: \<open>leased-semaphore.ts\<close>.
  \<^item> \<open>Rediscovery\<close>, \<open>Rediscovery_Correct\<close>: the comparison of an account's listed calendars with the
    stored ones and the transaction that carries it out (\<open>core/source/calendar-rediscovery.ts\<close>,
    \<open>apply-calendar-rediscovery.ts\<close>).
  \<^item> \<open>Flush_Worker\<close>, \<open>Flush_Worker_Correct\<close>: the queue and the weight budget in front of the writers
    (\<open>core/utils/serial-flush-worker.ts\<close>), as steps between awaits in any order.
  \<^item> \<open>Sync_Progress\<close>, \<open>Sync_Progress_Correct\<close>: the aggregate progress of a user
    (\<open>core/sync/aggregate-tracker.ts\<close>, \<open>aggregate-runtime.ts\<close>) and the active jobs of the worker
    (\<open>services/worker/src/active-destination-jobs.ts\<close>).
  \<^item> \<open>Ingest_Schedule\<close>, \<open>Ingest_Schedule_Correct\<close>: when a source is read, the schedule table
    (\<open>packages/database/src/database/ingest-schedule.ts\<close>), its triggers, its policy and the rounds
    (\<open>services/cron/src/ingest/run-ingest-round.ts\<close>).
  \<^item> \<open>Safe_Fetch\<close>, \<open>Safe_Fetch_Correct\<close>: the fetch of user-given URLs with its checks on addresses,
    redirects and credentials (\<open>packages/calendar/src/utils/safe-fetch.ts\<close>).
  \<^item> \<open>Destination_Attempt\<close>, \<open>Destination_Attempt_Correct\<close>: \<open>syncDestinationsForUser\<close> of
    \<open>sync-user.ts\<close>, which composes the lock, the authority, the reads and \<open>syncCalendar\<close>.
  \<^item> \<open>Materialize\<close>, \<open>Materialize_Correct\<close>: from stored series to the events of a window
    (\<open>core/events/recurrence-materializer.ts\<close>). \<open>Event_Read\<close>, \<open>Event_Read_Correct\<close>: the sync policy
    and the read of the stored events for a destination (\<open>core/events/events.ts\<close>).
  \<^item> \<open>Push_Channels\<close>, \<open>Push_Manage\<close>, \<open>Push_Tables\<close>, \<open>Push_Manage_Correct\<close>, \<open>Push_Stops\<close>,
    \<open>Push_Plan_Correct\<close>: the notification channels at Google and Outlook, the plan of their
    registration and renewal (\<open>core/source/push-channel.ts\<close>), the sweep that carries it out
    (\<open>manage-push-channels.ts\<close>) and its statements on the channel table
    (\<open>manage-push-channels-dependencies.ts\<close>).
  \<^item> \<open>Push_Webhook\<close>, \<open>Push_Webhook_Correct\<close>: the handler of the notifications that arrive
    (\<open>services/api/src/utils/push-notifications/handle-webhook.ts\<close>) and the two receivers.

  \<^bold>\<open>What the lemmas show.\<close> Reconciliation removes a copy only for a stated reason, mirrors every new
  event, targets a mapping once, and does nothing when everything agrees. The engine records exactly
  the operations that the provider confirmed, and the flush applies all of them or none. Ingesting a
  snapshot makes the stored events equal to it, and a failed ingest changes nothing. The lock has one
  holder, hands over to a waiting caller, restores the previous waiter when one cancels, and an acquire
  ends after at most 20505 turns of its own. Wall times resolve to their earliest instant. The slots of
  a free-time search are exactly the free stretches of its windows. A limiter grants at most its requests
  in any window of a minute as long as no two grants share a member; gates and leases never exceed
  their capacity. A rediscovery leaves nothing to do for a second one and takes no row away.
  The flush worker keeps its reservations within the budget and its express headroom and parks a caller
  only when it does not fit. A user is shown as syncing exactly while their jobs run, and the progress
  shown never goes back. A calendar is read by one round at a time, no wake is lost, enabled calendars
  stay due, and retries are bounded. A request of the checked fetch reaches public addresses only, and
  credentials stay within their site. An attempt on a destination reports once and releases its lock,
  verdicts on a row that has moved on are lost, and a first sync is reported once. A series is expanded to
  exactly its occurrences in the window; one over the budget is left out alone; what a sync policy hides
  does not reach the destination. A sweep over the push channels works under its locks and gives them
  back, stops a channel only when it was planned, superseded or unknown, and renews channels before they
  expire; narrowed to one account it turns against the channels of the others. A webhook acts on
  authentic claims only; a delivery whose wake fails is lost.

  \<^bold>\<open>Conventions, parameters, bounds.\<close> A \<open>Date\<close> is an unbounded integer of milliseconds; a \<open>Map\<close> is an
  association list in insertion order; a thrown error is the left of a sum; asynchronous code that
  interleaves is a step relation, other code runs in sequence. Code outside the repository is a
  parameter: SHA-256, \<open>localeCompare\<close>, the JSON codec of structured recurrences, the provider's
  answers, the expansion of a recurrence rule, fresh identifiers, address and domain libraries, abort signals, the \<open>Intl\<close> zone database, the URL parser, the random
  draws of the Lua scripts, UUIDs and secrets, the calls of a push registrar, and how long a \<open>DEL\<close> is under way. The
  hypotheses on a parameter are stated in the theorem that needs them. Loops are structural or
  have a measure, so no fuel is used; chunk sizes, time-to-live and poll intervals are those of the
  source.

  \<^bold>\<open>Not modelled.\<close> The web application and the HTTP routes, authentication and billing, the
  database schema beyond the tables named above, the network clients of Google, Outlook and CalDAV
  with their watch and subscription requests,
  the ICS parser (a library), telemetry, the job queue and process start-up: they are user interface, input and output, or thin calls of libraries.
\<close>

end
